(* ===== verification/Prelude.thy ===== *)
theory Prelude
  imports Main "HOL-Library.Word" "HOL-Library.AList" "HOL-Library.Monad_Syntax"
begin

text \<open>
  Shared vocabulary of the development: the machine integers of the C++ code, C strings,
  little-endian and big-endian byte encodings, \<open>std::unordered_map\<close> as an association list
  with distinct keys, and the two interfaces (codecs and transition systems) that several
  components implement.
\<close>

unbundle bit_operations_syntax

section \<open>Machine types\<close>

type_synonym u8 = "8 word"
type_synonym u16 = "16 word"
type_synonym u32 = "32 word"
type_synonym u64 = "64 word"
type_synonym bytes = "u8 list"

named_theorems wire_simps \<open>evaluation of the byte-level encoders and decoders\<close>
named_theorems inv_simps \<open>the component invariants, unfolded\<close>

section \<open>C strings\<close>

text \<open>\<open>Utils::convertToString(const char*, int)\<close> (Utils.cpp): the characters before the first
  NUL, at most \<open>maxSize\<close> of them; a negative \<open>maxSize\<close> counts as 0.\<close>

definition convertToString :: "char list \<Rightarrow> int \<Rightarrow> string" where
  "convertToString str maxSize = takeWhile (\<lambda>c. c \<noteq> CHR 0x00) (take (nat (max 0 maxSize)) str)"

lemma convertToString_length: "0 \<le> n \<Longrightarrow> length (convertToString s n) \<le> nat n"
  unfolding convertToString_def
  by (metis length_takeWhile_le length_take max.absorb2 min.cobounded2 order_trans)

lemma convertToString_no_nul: "CHR 0x00 \<notin> set (convertToString s n)"
  by (auto simp: convertToString_def dest: set_takeWhileD)

lemma takeWhile_neq_id: "x \<notin> set xs \<Longrightarrow> takeWhile (\<lambda>c. c \<noteq> x) xs = xs"
  by (induction xs) auto

text \<open>A NUL-terminated copy of a string into a field that is large enough reads back unchanged.\<close>

lemma convertToString_padded:
  "CHR 0x00 \<notin> set s \<Longrightarrow> length s \<le> nat n \<Longrightarrow>
    convertToString (s @ replicate k (CHR 0x00)) n = s"
  by (cases "k = 0"; cases "length s = nat n")
     (auto simp: convertToString_def max_def takeWhile_append takeWhile_neq_id takeWhile_replicate
           split: if_splits)

section \<open>Byte encodings of words\<close>

text \<open>\<open>to_le n w\<close> are the \<open>n\<close> bytes a little-endian machine stores for \<open>w\<close>; \<open>from_le\<close> reads them back.
  \<open>to_be\<close> and \<open>from_be\<close> are the network order of \<open>htonl\<close>.\<close>

definition byte_at :: "nat \<Rightarrow> 'a::len word \<Rightarrow> u8" where
  "byte_at i w = ucast (drop_bit (8 * i) w)"

definition to_le :: "nat \<Rightarrow> 'a::len word \<Rightarrow> bytes" where
  "to_le n w = map (\<lambda>i. byte_at i w) [0..<n]"

fun from_le :: "bytes \<Rightarrow> 'a::len word" where
  "from_le [] = 0"
| "from_le (b # bs) = ucast b OR push_bit 8 (from_le bs)"

definition to_be :: "nat \<Rightarrow> 'a::len word \<Rightarrow> bytes" where
  "to_be n w = rev (to_le n w)"

definition from_be :: "bytes \<Rightarrow> 'a::len word" where
  "from_be bs = from_le (rev bs)"

lemma length_to_le [simp]: "length (to_le n w) = n"
  by (simp add: to_le_def)

lemma length_to_be [simp]: "length (to_be n w) = n"
  by (simp add: to_be_def)

lemma bit_byte_at: "bit (byte_at i w) k \<longleftrightarrow> k < 8 \<and> bit w (8 * i + k)"
  by (auto simp: byte_at_def bit_simps)

lemma bit_from_le:
  "bit (from_le bs :: 'a::len word) k \<longleftrightarrow>
     k < LENGTH('a) \<and> k div 8 < length bs \<and> bit (bs ! (k div 8)) (k mod 8)"
proof (induction bs arbitrary: k)
  case Nil
  then show ?case by simp
next
  case (Cons b bs)
  show ?case
  proof (cases "k < 8")
    case True
    then show ?thesis by (auto simp: bit_simps Cons.IH)
  next
    case False
    then have "k div 8 = Suc ((k - 8) div 8)" "k mod 8 = (k - 8) mod 8"
      by (simp_all add: le_div_geq le_mod_geq)
    with False show ?thesis
      by (auto simp: bit_simps Cons.IH dest: bit_imp_le_length)
  qed
qed

lemma from_le_to_le: "LENGTH('a) \<le> 8 * n \<Longrightarrow> from_le (to_le n (w :: 'a::len word)) = w"
  by (rule bit_word_eqI) (auto simp: bit_from_le to_le_def bit_byte_at)

lemma from_be_to_be: "LENGTH('a) \<le> 8 * n \<Longrightarrow> from_be (to_be n (w :: 'a::len word)) = w"
  by (simp add: from_be_def to_be_def from_le_to_le)

lemma to_le_from_le:
  "8 * length bs \<le> LENGTH('a) \<Longrightarrow> to_le (length bs) (from_le bs :: 'a::len word) = bs"
  by (auto intro!: nth_equalityI bit_word_eqI
           simp: to_le_def bit_byte_at bit_from_le dest: bit_imp_le_length)

lemma xor_byte_cancel [simp]: "(x XOR m) XOR m = (x :: 'a::len word)"
  by (simp add: xor.assoc)

section \<open>Unordered maps\<close>

text \<open>
  \<open>std::unordered_map\<close> as the list of its entries in some iteration order. \<open>insert\<close> leaves
  an existing entry alone and reports it, as the C++ one does; \<open>erase\<close> removes the entry of
  a key.
\<close>

type_synonym ('k, 'v) umap = "('k \<times> 'v) list"

definition um_find :: "('k, 'v) umap \<Rightarrow> 'k \<Rightarrow> 'v option" where
  "um_find m k = map_of m k"

definition um_insert :: "'k \<Rightarrow> 'v \<Rightarrow> ('k, 'v) umap \<Rightarrow> ('k, 'v) umap" where
  "um_insert k v m = (case map_of m k of None \<Rightarrow> (k, v) # m | Some _ \<Rightarrow> m)"

definition um_erase :: "'k \<Rightarrow> ('k, 'v) umap \<Rightarrow> ('k, 'v) umap" where
  "um_erase k m = filter (\<lambda>e. fst e \<noteq> k) m"

definition um_keys :: "('k, 'v) umap \<Rightarrow> 'k list" where
  "um_keys m = map fst m"

definition um_wf :: "('k, 'v) umap \<Rightarrow> bool" where
  "um_wf m \<longleftrightarrow> distinct (um_keys m)"

locale keyed_store =
  fixes find :: "'m \<Rightarrow> 'k \<Rightarrow> 'v option"
    and insert :: "'k \<Rightarrow> 'v \<Rightarrow> 'm \<Rightarrow> 'm"
    and erase :: "'k \<Rightarrow> 'm \<Rightarrow> 'm"
    and wf :: "'m \<Rightarrow> bool"
  assumes find_insert: "find (insert k v m) k' = (if k' = k \<and> find m k = None then Some v else find m k')"
    and find_erase: "find (erase k m) k' = (if k' = k then None else find m k')"
    and wf_insert: "wf m \<Longrightarrow> wf (insert k v m)"
    and wf_erase: "wf m \<Longrightarrow> wf (erase k m)"
begin

lemma insert_keeps: "find m k = Some w \<Longrightarrow> find (insert k' v m) k = Some w"
  by (auto simp: find_insert)

lemma insert_new: "find m k = None \<Longrightarrow> find (insert k v m) = (find m)(k \<mapsto> v)"
  by (auto simp: find_insert)

lemma erase_fun: "find (erase k m) = (find m)(k := None)"
  by (auto simp: find_erase)

lemma erase_insert: "find m k = None \<Longrightarrow> find (erase k (insert k v m)) = find m"
  by (auto simp: find_erase find_insert)

end

lemma map_of_filter_key: "map_of (filter (\<lambda>e. fst e \<noteq> k) m) k' = (if k' = k then None else map_of m k')"
  by (induction m) auto

interpretation um: keyed_store um_find um_insert um_erase um_wf
proof unfold_locales
  show "um_find (um_insert k v m) k' = (if k' = k \<and> um_find m k = None then Some v else um_find m k')"
    for k v m k' by (auto simp: um_find_def um_insert_def split: option.splits)
  show "um_find (um_erase k m) k' = (if k' = k then None else um_find m k')"
    for k m k' by (simp add: um_find_def um_erase_def map_of_filter_key)
  show "um_wf (um_insert k v m)" if "um_wf m" for k v and m :: "('k, 'v) umap"
    using that
    by (auto simp: um_wf_def um_keys_def um_insert_def map_of_eq_None_iff split: option.splits)
  show "um_wf (um_erase k m)" if "um_wf m" for k and m :: "('k, 'v) umap"
    using that unfolding um_wf_def um_keys_def um_erase_def
    by (rule distinct_map_filter)
qed

lemma um_find_Nil [simp]: "um_find [] k = None"
  by (simp add: um_find_def)

lemma um_find_mem: "um_find m k = Some v \<Longrightarrow> (k, v) \<in> set m"
  by (simp add: um_find_def map_of_SomeD)

lemma um_mem_find: "um_wf m \<Longrightarrow> (k, v) \<in> set m \<Longrightarrow> um_find m k = Some v"
  by (simp add: um_find_def um_wf_def um_keys_def)

lemma um_wf_Nil [simp]: "um_wf []"
  by (simp add: um_wf_def um_keys_def)

section \<open>Codecs\<close>

text \<open>An encoder and the decoder that undoes it; codecs compose.\<close>

locale codec =
  fixes enc :: "'a \<Rightarrow> 'b" and dec :: "'b \<Rightarrow> 'a"
  assumes dec_enc: "dec (enc x) = x"
begin

lemma enc_inject: "enc x = enc y \<longleftrightarrow> x = y"
  by (metis dec_enc)

lemma enc_inj: "inj enc"
  by (auto intro: injI simp: enc_inject)

end

locale codec_pair = inner: codec e1 d1 + outer: codec e2 d2
  for e1 :: "'a \<Rightarrow> 'b" and d1 and e2 :: "'b \<Rightarrow> 'c" and d2
begin

sublocale composed: codec "e2 \<circ> e1" "d1 \<circ> d2"
  by unfold_locales (simp add: inner.dec_enc outer.dec_enc)

end

interpretation le16: codec "to_le 2 :: u16 \<Rightarrow> bytes" from_le
  by unfold_locales (simp add: from_le_to_le)

interpretation le32: codec "to_le 4 :: u32 \<Rightarrow> bytes" from_le
  by unfold_locales (simp add: from_le_to_le)

interpretation le64: codec "to_le 8 :: u64 \<Rightarrow> bytes" from_le
  by unfold_locales (simp add: from_le_to_le)

interpretation be32: codec "to_be 4 :: u32 \<Rightarrow> bytes" from_be
  by unfold_locales (simp add: from_be_to_be)

section \<open>Transition systems\<close>

text \<open>A machine with a start state and a deterministic, possibly undefined step: \<open>None\<close> is undefined
  behaviour of the C++ code (a null or dangling pointer, a division by zero).\<close>

fun run :: "('e \<Rightarrow> 's \<Rightarrow> 's option) \<Rightarrow> 'e list \<Rightarrow> 's \<Rightarrow> 's option" where
  "run step [] s = Some s"
| "run step (e # es) s = (case step e s of None \<Rightarrow> None | Some s' \<Rightarrow> run step es s')"

text \<open>Every event of a run is acceptable in the state it meets.\<close>

fun run_ok :: "('e \<Rightarrow> 's \<Rightarrow> 's option) \<Rightarrow> ('e \<Rightarrow> 's \<Rightarrow> bool) \<Rightarrow> 'e list \<Rightarrow> 's \<Rightarrow> bool" where
  "run_ok step ok [] s = True"
| "run_ok step ok (e # es) s =
     (ok e s \<and> (case step e s of None \<Rightarrow> True | Some s' \<Rightarrow> run_ok step ok es s'))"

locale safe_machine =
  fixes step :: "'e \<Rightarrow> 's \<Rightarrow> 's option" and inv :: "'s \<Rightarrow> bool" and ok :: "'e \<Rightarrow> 's \<Rightarrow> bool"
  assumes step_defined: "inv s \<Longrightarrow> ok e s \<Longrightarrow> \<exists>s'. step e s = Some s'"
    and step_inv: "inv s \<Longrightarrow> ok e s \<Longrightarrow> step e s = Some s' \<Longrightarrow> inv s'"
begin

lemma run_safe: "inv s \<Longrightarrow> run_ok step ok es s \<Longrightarrow> \<exists>s'. run step es s = Some s' \<and> inv s'"
proof (induction es arbitrary: s)
  case Nil
  then show ?case by simp
next
  case (Cons e es)
  then obtain t where t: "step e s = Some t"
    using step_defined by fastforce
  with Cons.prems have "inv t" "run_ok step ok es t"
    by (auto intro: step_inv)
  then show ?case using Cons.IH t by simp
qed

lemma run_safe_always:
  assumes "inv s" and "\<And>e s. inv s \<Longrightarrow> ok e s"
  shows "\<exists>s'. run step es s = Some s' \<and> inv s'"
  using assms(1)
proof (induction es arbitrary: s)
  case Nil
  then show ?case by simp
next
  case (Cons e es)
  then obtain t where "step e s = Some t" "inv t"
    using step_defined step_inv assms(2) by metis
  then show ?case using Cons.IH by simp
qed

end

end
