(* ===== verification/Encodings.thy ===== *)
theory Encodings
  imports Prelude
begin

text \<open>
  The obfuscated integer fields of the game protocol (librzu/src/lib/Packet): the bit
  permutation of EncodingScrambled.cpp, the four-halves encoding of EncodingRandomized.h and
  their composition behind EncodedInt.h.
\<close>

section \<open>EncodingScrambled: a bit permutation\<close>

text \<open>\<open>EncodingScrambled::init\<close>: the loop that shuffles \<open>encodeMap\<close> with a moving index \<open>j\<close>, and
  the loop that fills \<open>decodeMap\<close> with the inverse.\<close>

function encodeMapLoop :: "nat \<Rightarrow> nat \<Rightarrow> nat list \<Rightarrow> nat list" where
  "encodeMapLoop i j em =
     (if i < 32 then encodeMapLoop (i + 1) ((j + i + 3) mod 32) (em[i := em ! j, j := em ! i]) else em)"
  by pat_completeness auto
termination
  by (relation "measure (\<lambda>(i, j, em). 32 - i)") auto

definition encodeMap :: "nat list" where
  "encodeMap = encodeMapLoop 0 3 [0..<32]"

fun decodeMapLoop :: "nat list \<Rightarrow> nat \<Rightarrow> nat list \<Rightarrow> nat list" where
  "decodeMapLoop [] i dm = dm"
| "decodeMapLoop (e # es) i dm = decodeMapLoop es (i + 1) (dm[e := i])"

definition decodeMap :: "nat list" where
  "decodeMap = decodeMapLoop encodeMap 0 (replicate 32 0)"

text \<open>The loop of \<open>encode\<close> and \<open>decode\<close>: bit \<open>i\<close> of the argument sets bit \<open>map[i]\<close> of the result.\<close>

fun permuteBits :: "nat list \<Rightarrow> u32 \<Rightarrow> u32 \<Rightarrow> u32" where
  "permuteBits [] v r = r"
| "permuteBits (m # ms) v r =
     permuteBits ms (drop_bit 1 v) (if v AND 1 \<noteq> 0 then r OR push_bit m 1 else r)"

definition scramble_encode :: "u32 \<Rightarrow> u32" where
  "scramble_encode v = permuteBits encodeMap v 0"

definition scramble_decode :: "u32 \<Rightarrow> u32" where
  "scramble_decode v = permuteBits decodeMap v 0"

lemma encodeMap_eval:
  "encodeMap = [3, 6, 9, 15, 1, 8, 21, 19, 2, 12, 14, 16, 22, 24, 23, 25, 17, 7, 18, 11, 4, 29, 0, 28, 31, 26, 10, 13, 30, 27, 20, 5]"
  by (simp add: encodeMap_def upt_rec encodeMapLoop.simps)

lemma decodeMap_eval:
  "decodeMap = [22, 4, 8, 0, 20, 31, 1, 17, 5, 2, 26, 19, 9, 27, 10, 3, 11, 16, 18, 7, 30, 6, 12, 14, 13, 15, 25, 29, 23, 21, 28, 24]"
  by (simp add: decodeMap_def encodeMap_eval numeral_eq_Suc)

lemma maps_inverse:
  assumes "i < 32"
  shows "encodeMap ! i < 32" and "decodeMap ! (encodeMap ! i) = i"
proof -
  have "list_all (\<lambda>i. encodeMap ! i < 32 \<and> decodeMap ! (encodeMap ! i) = i) [0..<32]"
    unfolding encodeMap_eval decodeMap_eval by code_simp
  with assms show "encodeMap ! i < 32" and "decodeMap ! (encodeMap ! i) = i"
    by (auto simp: list_all_iff)
qed

lemma maps_length [simp]: "length encodeMap = 32" "length decodeMap = 32"
  by (simp_all add: encodeMap_eval decodeMap_eval)

lemma and_1_bit: "(v AND 1 \<noteq> (0 :: 'a::len word)) = bit v 0"
  by (simp add: and_one_eq odd_iff_mod_2_eq_one bit_0)

lemma bit_permuteBits:
  "bit (permuteBits ms v r) k \<longleftrightarrow> bit r k \<or> (\<exists>j<length ms. bit v j \<and> ms ! j = k \<and> k < 32)"
proof (induction ms arbitrary: v r)
  case Nil
  then show ?case by simp
next
  case (Cons m ms)
  have ex: "(\<exists>j<length (m # ms). bit v j \<and> (m # ms) ! j = k \<and> k < 32) \<longleftrightarrow>
      bit v 0 \<and> m = k \<and> k < 32 \<or> (\<exists>j<length ms. bit v (Suc j) \<and> ms ! j = k \<and> k < 32)"
    by (auto simp: less_Suc_eq_0_disj)
  show ?case
    unfolding ex permuteBits.simps Cons.IH and_1_bit
    by (auto simp: bit_simps)
qed

lemma scramble_roundtrip: "scramble_decode (scramble_encode v) = v"
proof (rule bit_word_eqI)
  fix k assume "k < LENGTH(32)"
  then have k: "k < 32" by simp
  have "bit (scramble_encode v) j \<longleftrightarrow> (\<exists>i<32. bit v i \<and> encodeMap ! i = j)" for j
    by (auto simp: scramble_encode_def bit_permuteBits maps_inverse)
  then have "bit (scramble_decode (scramble_encode v)) k \<longleftrightarrow>
      (\<exists>j<32. (\<exists>i<32. bit v i \<and> encodeMap ! i = j) \<and> decodeMap ! j = k)"
    using k by (simp add: scramble_decode_def bit_permuteBits)
  also have "\<dots> \<longleftrightarrow> (\<exists>i<32. bit v i \<and> decodeMap ! (encodeMap ! i) = k)"
    using maps_inverse(1) by auto
  also have "\<dots> \<longleftrightarrow> bit v k"
    using maps_inverse(2) k by auto
  finally show "bit (scramble_decode (scramble_encode v)) k \<longleftrightarrow> bit v k" .
qed

interpretation scramble: codec scramble_encode scramble_decode
  by unfold_locales (rule scramble_roundtrip)

section \<open>EncodingRandomized: four 16-bit halves in a 64-bit field\<close>

text \<open>The union \<open>SerializedValue\<close> on a little-endian machine: \<open>u16[i]\<close> is the \<open>i\<close>-th half of
  \<open>u64\<close>. Arithmetic on \<open>uint16_t\<close> operands is done in \<open>int\<close> and cut back to 16 bits, which is
  arithmetic on words of 16 bits.\<close>

definition u16_of :: "nat \<Rightarrow> u64 \<Rightarrow> u16" where
  "u16_of i w = ucast (drop_bit (16 * i) w)"

definition u64_of :: "u16 \<Rightarrow> u16 \<Rightarrow> u16 \<Rightarrow> u16 \<Rightarrow> u64" where
  "u64_of a b c d = ucast a OR push_bit 16 (ucast b) OR push_bit 32 (ucast c) OR push_bit 48 (ucast d)"

definition randomized_serialize :: "u32 \<Rightarrow> u64" where
  "randomized_serialize v = u64_of 0 (ucast (drop_bit 16 v)) 0 (ucast (v AND 0xFFFF))"

text \<open>The comment "True implementation" of EncodingRandomized.h, with its two calls of
  \<open>rand()\<close> as arguments.\<close>

definition randomized_true_serialize :: "u16 \<Rightarrow> u16 \<Rightarrow> u32 \<Rightarrow> u64" where
  "randomized_true_serialize r0 r2 v =
     u64_of r0 (ucast (drop_bit 16 v) + 2 * (r2 - r0)) r2 (ucast (v AND 0xFFFF) - 2 * (r2 + r0))"

definition randomized_deserialize :: "u64 \<Rightarrow> u32" where
  "randomized_deserialize w =
     (let s0 = u16_of 0 w; s1 = u16_of 1 w; s2 = u16_of 2 w; s3 = u16_of 3 w
      in push_bit 16 (ucast (s1 - 2 * (s2 - s0))) OR ucast (s3 + 2 * (s2 + s0)))"

lemma u16_of_u64_of:
  "u16_of 0 (u64_of a b c d) = a" "u16_of (Suc 0) (u64_of a b c d) = b"
  "u16_of 2 (u64_of a b c d) = c" "u16_of 3 (u64_of a b c d) = d"
  by (rule bit_word_eqI; auto simp: u16_of_def u64_of_def bit_simps dest: bit_imp_le_length)+

lemma u32_halves: "push_bit 16 (ucast (ucast (drop_bit 16 v) :: u16)) OR ucast (ucast (v AND 0xFFFF) :: u16) = (v :: u32)"
proof (rule bit_word_eqI, goal_cases)
  case (1 k)
  have m: "(0xFFFF :: u32) = mask 16" by (simp add: mask_eq_exp_minus_1)
  show ?case
    using 1 unfolding m by (auto simp: bit_simps)
qed

lemma randomized_true_roundtrip: "randomized_deserialize (randomized_true_serialize r0 r2 v) = v"
  by (simp add: randomized_deserialize_def randomized_true_serialize_def u16_of_u64_of u32_halves)

lemma randomized_serialize_true: "randomized_serialize v = randomized_true_serialize 0 0 v"
  by (simp add: randomized_serialize_def randomized_true_serialize_def)

interpretation randomized: codec randomized_serialize randomized_deserialize
  by unfold_locales (simp add: randomized_serialize_true randomized_true_roundtrip)

section \<open>The encoded fields on the wire\<close>

text \<open>\<open>EncodingScrambled::serialize\<close> and \<open>deserialize\<close>: the permuted value behind the randomized
  encoding, written as 8 little-endian bytes.\<close>

definition scrambled_field :: "u32 \<Rightarrow> u64" where
  "scrambled_field v = randomized_serialize (scramble_encode v)"

definition scrambled_value :: "u64 \<Rightarrow> u32" where
  "scrambled_value w = scramble_decode (randomized_deserialize w)"

interpretation scrambled_wire: codec_pair scramble_encode scramble_decode
  randomized_serialize randomized_deserialize
  by unfold_locales

text \<open>C7. A field encoded with \<open>EncodedInt<EncodingScrambled>\<close> decodes to the value written, for
  every 32-bit value; and the decoder also accepts what the peer's randomising implementation
  (the one described in EncodingRandomized.h) writes for the permuted value, whatever its two
  random halves are.\<close>

theorem scrambled_field_roundtrip:
  "scrambled_value (scrambled_field v) = v \<and>
   scrambled_value (randomized_true_serialize r0 r2 (scramble_encode v)) = v"
  using scrambled_wire.composed.dec_enc [of v]
  by (simp add: scrambled_value_def scrambled_field_def randomized_true_roundtrip scramble.dec_enc)

end
