(* ===== verification/StreamCipher.thy ===== *)
theory StreamCipher
  imports Prelude "HOL-Library.Multiset"
begin

text \<open>
  The modified RC4 of librzu/src/lib/Cipher/RC4Cipher.cpp and the encrypted sessions built on it
  (librzu/src/lib/NetSession/EncryptedSession.h). OpenSSL's \<open>RC4()\<close> is not part of the
  repository: what the sessions need of it is the interface \<open>stream_cipher\<close>, and the keystream
  byte it reads from the state after each step is the parameter \<open>kout\<close>.
\<close>

section \<open>RC4Cipher: key schedule and discarded prefix\<close>

record rc4_key =
  rc_x :: nat
  rc_y :: nat
  rc_data :: "nat list"

definition exchange :: "nat \<Rightarrow> nat \<Rightarrow> nat list \<Rightarrow> nat list" where
  "exchange a b d = d[a := d ! b, b := d ! a]"

text \<open>\<open>modified_RC4_set_key\<close>: unlike RC4, the key byte is picked with \<open>j\<close> and the swap partner
  is computed from \<open>d[j]\<close>. An empty key divides by zero in \<open>j % len\<close>: no result.\<close>

fun set_key_loop :: "bytes \<Rightarrow> nat list \<Rightarrow> nat \<Rightarrow> nat list \<Rightarrow> nat list" where
  "set_key_loop key [] j d = d"
| "set_key_loop key (i # is) j d =
     (let j' = (unat (key ! (j mod length key)) + d ! j + j) mod 256
      in set_key_loop key is j' (exchange i j' d))"

definition modified_RC4_set_key :: "bytes \<Rightarrow> rc4_key option" where
  "modified_RC4_set_key key =
     (if key = [] then None
      else Some \<lparr>rc_x = 0, rc_y = 0, rc_data = set_key_loop key [0..<256] 0 [0..<256]\<rparr>)"

text \<open>The body of the loop "simulate transmition of 1013 bytes": one step of the generator.\<close>

definition prga_step :: "rc4_key \<Rightarrow> rc4_key" where
  "prga_step k =
     (let x = (rc_x k + 1) mod 256;
          y = (rc_data k ! x + rc_y k) mod 256
      in k\<lparr>rc_x := x, rc_y := y, rc_data := exchange x y (rc_data k)\<rparr>)"

definition rc4_prepare :: "bytes \<Rightarrow> rc4_key option" where
  "rc4_prepare key = map_option (prga_step ^^ 1013) (modified_RC4_set_key key)"

text \<open>\<open>RC4Cipher::encode\<close>: one generator step per byte, the byte XORed with the keystream byte
  \<open>kout\<close> reads from the new state.\<close>

fun rc4_encode :: "(rc4_key \<Rightarrow> u8) \<Rightarrow> rc4_key \<Rightarrow> bytes \<Rightarrow> rc4_key \<times> bytes" where
  "rc4_encode kout k [] = (k, [])"
| "rc4_encode kout k (b # bs) =
     (let k' = prga_step k; (k'', cs) = rc4_encode kout k' bs
      in (k'', (b XOR kout k') # cs))"

subsection \<open>The state is always a permutation\<close>

definition rc4_wf :: "rc4_key \<Rightarrow> bool" where
  "rc4_wf k \<longleftrightarrow> rc_x k < 256 \<and> rc_y k < 256 \<and> mset (rc_data k) = mset [0..<256]"

lemma mset_exchange: "a < length d \<Longrightarrow> b < length d \<Longrightarrow> mset (exchange a b d) = mset d"
  unfolding exchange_def by (metis list_update_swap mset_swap list_update_id)

lemma length_exchange [simp]: "length (exchange a b d) = length d"
  by (simp add: exchange_def)

lemma set_key_loop_mset:
  "length d = 256 \<Longrightarrow> (\<forall>i\<in>set is. i < 256) \<Longrightarrow> mset (set_key_loop key is j d) = mset d"
  by (induction key "is" j d rule: set_key_loop.induct) (auto simp: Let_def mset_exchange)

lemma set_key_wf: "modified_RC4_set_key key = Some k \<Longrightarrow> rc4_wf k"
  by (auto simp: modified_RC4_set_key_def rc4_wf_def set_key_loop_mset split: if_splits)

lemma rc4_wf_length: "rc4_wf k \<Longrightarrow> length (rc_data k) = 256"
  unfolding rc4_wf_def by (metis length_upt diff_zero mset_eq_length)

lemma prga_step_wf: "rc4_wf k \<Longrightarrow> rc4_wf (prga_step k)"
  using rc4_wf_length [of k] by (auto simp: rc4_wf_def prga_step_def Let_def mset_exchange)

lemma prga_steps_wf: "rc4_wf k \<Longrightarrow> rc4_wf ((prga_step ^^ n) k)"
  by (induction n) (auto intro: prga_step_wf)

lemma rc4_encode_wf: "rc4_wf k \<Longrightarrow> rc4_wf (fst (rc4_encode kout k bs))"
  by (induction kout k bs rule: rc4_encode.induct)
     (auto simp: Let_def split_beta intro: prga_step_wf)

text \<open>The cipher state \<open>prepare\<close> builds from any non-empty key, and every state it passes
  through while bytes are encoded, has its indices below 256 and its table a permutation of
  0..255, so no table access of the generator is out of range; only an empty key has no state.\<close>

lemma rc4_state_permutation:
  "case rc4_prepare key of
     None \<Rightarrow> key = []
   | Some k \<Rightarrow> key \<noteq> [] \<and> rc4_wf k \<and> length (rc_data k) = 256 \<and> rc4_wf (fst (rc4_encode kout k bs))"
proof -
  have "rc4_wf k" if "rc4_prepare key = Some k" for k
    using that set_key_wf prga_steps_wf by (auto simp: rc4_prepare_def)
  then show ?thesis
    by (auto simp: rc4_wf_length rc4_encode_wf rc4_prepare_def modified_RC4_set_key_def split: option.splits)
qed

section \<open>Stream ciphers\<close>

text \<open>What a session relies on: encoding is incremental, keeps lengths, and the same state undoes it.\<close>

locale stream_cipher =
  fixes crypt :: "'k \<Rightarrow> bytes \<Rightarrow> 'k \<times> bytes"
  assumes crypt_nil: "crypt k [] = (k, [])"
    and crypt_append: "crypt k (xs @ ys) =
          (let (k1, xs') = crypt k xs; (k2, ys') = crypt k1 ys in (k2, xs' @ ys'))"
    and crypt_undo: "crypt k (snd (crypt k xs)) = (fst (crypt k xs), xs)"
    and crypt_length: "length (snd (crypt k xs)) = length xs"
begin

lemma crypt_state_append: "fst (crypt k (xs @ ys)) = fst (crypt (fst (crypt k xs)) ys)"
  by (simp add: crypt_append split_beta Let_def)

lemma crypt_text_append:
  "snd (crypt k (xs @ ys)) = snd (crypt k xs) @ snd (crypt (fst (crypt k xs)) ys)"
  by (simp add: crypt_append split_beta Let_def)

end

lemma rc4_encode_append:
  "rc4_encode kout k (xs @ ys) =
     (let (k1, xs') = rc4_encode kout k xs; (k2, ys') = rc4_encode kout k1 ys in (k2, xs' @ ys'))"
  by (induction kout k xs rule: rc4_encode.induct) (simp_all add: Let_def split_beta)

lemma rc4_encode_undo:
  "rc4_encode kout k (snd (rc4_encode kout k xs)) = (fst (rc4_encode kout k xs), xs)"
  by (induction kout k xs rule: rc4_encode.induct) (simp_all add: Let_def split_beta)

lemma rc4_encode_length [simp]: "length (snd (rc4_encode kout k xs)) = length xs"
  by (induction kout k xs rule: rc4_encode.induct) (simp_all add: Let_def split_beta)

interpretation rc4: stream_cipher "rc4_encode kout" for kout
  by unfold_locales (simp_all only: rc4_encode.simps rc4_encode_append rc4_encode_undo rc4_encode_length)

section \<open>EncryptedSession\<close>

text \<open>Each end keeps a cipher for each direction; \<open>write\<close> encodes what it hands to the
  transport, \<open>read\<close> decodes the bytes it got from it.\<close>

record 'k encrypted_session =
  inputEnc :: 'k
  outputEnc :: 'k

text \<open>\<open>initRC4Cipher\<close> copies the process-wide prepared cipher into both directions.\<close>

definition initRC4Cipher :: "'k \<Rightarrow> 'k encrypted_session" where
  "initRC4Cipher cached = \<lparr>inputEnc = cached, outputEnc = cached\<rparr>"

definition enc_read :: "('k \<Rightarrow> bytes \<Rightarrow> 'k \<times> bytes) \<Rightarrow> 'k encrypted_session \<Rightarrow> bytes \<Rightarrow>
    'k encrypted_session \<times> bytes" where
  "enc_read crypt s received = (let (k, plain) = crypt (inputEnc s) received in (s\<lparr>inputEnc := k\<rparr>, plain))"

definition enc_write :: "('k \<Rightarrow> bytes \<Rightarrow> 'k \<times> bytes) \<Rightarrow> 'k encrypted_session \<Rightarrow> bytes \<Rightarrow>
    'k encrypted_session \<times> bytes" where
  "enc_write crypt s buffer = (let (k, sent) = crypt (outputEnc s) buffer in (s\<lparr>outputEnc := k\<rparr>, sent))"

text \<open>A sequence of writes, and a sequence of reads of the chunks the transport delivers.\<close>

fun write_all :: "('k \<Rightarrow> bytes \<Rightarrow> 'k \<times> bytes) \<Rightarrow> 'k encrypted_session \<Rightarrow> bytes list \<Rightarrow>
    'k encrypted_session \<times> bytes" where
  "write_all crypt s [] = (s, [])"
| "write_all crypt s (c # cs) =
     (let (s1, out1) = enc_write crypt s c; (s2, out2) = write_all crypt s1 cs in (s2, out1 @ out2))"

fun read_all :: "('k \<Rightarrow> bytes \<Rightarrow> 'k \<times> bytes) \<Rightarrow> 'k encrypted_session \<Rightarrow> bytes list \<Rightarrow>
    'k encrypted_session \<times> bytes" where
  "read_all crypt s [] = (s, [])"
| "read_all crypt s (c # cs) =
     (let (s1, in1) = enc_read crypt s c; (s2, in2) = read_all crypt s1 cs in (s2, in1 @ in2))"

context stream_cipher
begin

lemma write_all_concat:
  "write_all crypt s cs =
     (s\<lparr>outputEnc := fst (crypt (outputEnc s) (concat cs))\<rparr>, snd (crypt (outputEnc s) (concat cs)))"
  by (induction cs arbitrary: s)
     (auto simp: crypt_nil enc_write_def crypt_append split_beta Let_def)

lemma read_all_concat:
  "read_all crypt s cs =
     (s\<lparr>inputEnc := fst (crypt (inputEnc s) (concat cs))\<rparr>, snd (crypt (inputEnc s) (concat cs)))"
  by (induction cs arbitrary: s)
     (auto simp: crypt_nil enc_read_def crypt_append split_beta Let_def)

lemma transfer:
  assumes "inputEnc r = outputEnc w" and "concat rs = snd (write_all crypt w ws)"
  shows "snd (read_all crypt r rs) = concat ws \<and>
    inputEnc (fst (read_all crypt r rs)) = outputEnc (fst (write_all crypt w ws))"
  using assms by (simp add: write_all_concat read_all_concat crypt_undo)

end

text \<open>However the transport cuts the ciphertext of a sequence of writes into chunks, the
  session at the other end that started from the same cached cipher reads exactly the bytes
  written, and both ends finish with the same cipher state.\<close>

lemma encrypted_session_transfer:
  assumes "concat rs = snd (write_all (rc4_encode kout) (initRC4Cipher k) ws)"
  shows "snd (read_all (rc4_encode kout) (initRC4Cipher k) rs) = concat ws \<and>
    inputEnc (fst (read_all (rc4_encode kout) (initRC4Cipher k) rs)) =
      outputEnc (fst (write_all (rc4_encode kout) (initRC4Cipher k) ws))"
  using rc4.transfer [of "initRC4Cipher k" "initRC4Cipher k"] assms
  by (simp add: initRC4Cipher_def)

definition demo_key :: rc4_key where
  "demo_key = \<lparr>rc_x = 0, rc_y = 0, rc_data = [0..<256]\<rparr>"

definition demo_sent :: bytes where
  "demo_sent = snd (write_all (rc4_encode (\<lambda>k. of_nat (rc_y k))) (initRC4Cipher demo_key) [[1, 2], [3]])"

lemma encrypted_session_transfer_witness:
  "concat [take 1 demo_sent, drop 1 demo_sent] = demo_sent \<and>
   snd (read_all (rc4_encode (\<lambda>k. of_nat (rc_y k))) (initRC4Cipher demo_key)
     [take 1 demo_sent, drop 1 demo_sent]) = [1, 2, 3]"
  using encrypted_session_transfer
    [of "[take 1 demo_sent, drop 1 demo_sent]" "\<lambda>k. of_nat (rc_y k)" demo_key "[[1, 2], [3]]"]
  by (simp add: demo_sent_def)

end
