(* ===== verification/ZlibCipher.thy ===== *)
theory ZlibCipher
  imports Prelude
begin

text \<open>
  The password container of librzu/src/lib/Cipher/ZlibCipher.cpp: compressed data scattered over the buffer, delta
  coded and masked. zlib is a parameter.
\<close>

section \<open>ZlibCipher::getMagic\<close>

text \<open>The descending search for a step that no proper divisor of the size divides. A size of 0
  divides by zero.\<close>

function magicLoop :: "nat list \<Rightarrow> int \<Rightarrow> int" where
  "magicLoop divisors magic =
     (if magic > 1 then
        (if (\<exists>d\<in>set divisors. magic mod int d = 0) then magicLoop divisors (magic - 1) else magic)
      else magic)"
  by pat_completeness auto
termination
  by (relation "measure (\<lambda>(ds, m). nat m)") auto

declare magicLoop.simps [simp del]

definition magicStart :: "u32 \<Rightarrow> nat \<Rightarrow> int" where
  "magicStart checksum n =
     (let magic = int ((unat (checksum AND 0xFFF0) + 1) mod n div 2) - 2
      in if magic < 2 then
           (if n > 16 then int (n div 2) - 1 else if n > 4 then int n - 2 else int n - 1)
         else magic)"

definition divisorsOf :: "nat \<Rightarrow> nat list" where
  "divisorsOf n = filter (\<lambda>i. n mod i = 0) [2..<n]"

definition getMagic :: "u32 \<Rightarrow> nat \<Rightarrow> int option" where
  "getMagic checksum compressedSize =
     (if compressedSize = 0 then None
      else Some (magicLoop (divisorsOf compressedSize) (magicStart checksum compressedSize)))"

lemma magicLoop_bounds: "0 \<le> m \<Longrightarrow> 0 \<le> magicLoop ds m \<and> magicLoop ds m \<le> m"
proof (induction ds m rule: magicLoop.induct)
  case (1 ds m)
  then show ?case by (subst (1 2) magicLoop.simps) force
qed

lemma magicLoop_stop:
  "magicLoop ds m \<le> 1 \<or> (\<forall>d\<in>set ds. magicLoop ds m mod int d \<noteq> 0)"
proof (induction ds m rule: magicLoop.induct)
  case (1 ds m)
  then show ?case by (auto simp: magicLoop.simps [of ds m])
qed

lemma magicLoop_pos: "1 \<le> m \<Longrightarrow> 1 \<le> magicLoop ds m"
proof (induction ds m rule: magicLoop.induct)
  case (1 ds m)
  then show ?case by (auto simp: magicLoop.simps [of ds m])
qed

lemma magicStart_range:
  assumes "0 < n"
  shows "0 \<le> magicStart c n" and "magicStart c n < int n" and "1 < n \<Longrightarrow> 1 \<le> magicStart c n"
proof -
  let ?r = "(unat (c AND 0xFFF0) + 1) mod n"
  have r: "?r < n" using assms by simp
  have d: "?r div 2 < n" using r by (meson div_le_dividend le_less_trans)
  show "magicStart c n < int n"
    using assms d by (auto simp: magicStart_def Let_def simp del: of_nat_div)
  show "0 \<le> magicStart c n"
    using assms by (auto simp: magicStart_def Let_def)
  show "1 < n \<Longrightarrow> 1 \<le> magicStart c n"
    using assms by (auto simp: magicStart_def Let_def)
qed

text \<open>The step is coprime to the size, so stepping visits every position once.\<close>

lemma getMagic_coprime:
  assumes "getMagic c n = Some m"
  shows "0 \<le> m" and "m < int n" and "coprime m (int n)"
proof -
  have n: "0 < n" and m: "m = magicLoop (divisorsOf n) (magicStart c n)"
    using assms by (auto simp: getMagic_def split: if_splits)
  note range = magicStart_range [OF n, of c]
  show "0 \<le> m" and "m < int n"
    using magicLoop_bounds [of "magicStart c n" "divisorsOf n"] range(1,2) m by auto
  show "coprime m (int n)"
  proof (cases "n = 1")
    case True
    then show ?thesis by simp
  next
    case False
    with n have pos: "1 \<le> m" using range(3) m magicLoop_pos by force
    show ?thesis
    proof (rule ccontr)
      assume nc: "\<not> coprime m (int n)"
      define g where "g = nat (gcd m (int n))"
      have g: "int g = gcd m (int n)" by (simp add: g_def)
      have "gcd m (int n) \<noteq> 1" using nc by (simp add: coprime_iff_gcd_eq_1)
      moreover have "0 < gcd m (int n)" using pos by (simp add: gcd_pos_int)
      moreover have "gcd m (int n) \<le> m" using pos by (simp add: gcd_le1_int)
      ultimately have "2 \<le> gcd m (int n)" "gcd m (int n) \<le> m" by linarith+
      then have "2 \<le> g" "int g \<le> m" using g by linarith+
      moreover have "n mod g = 0"
      proof -
        have "int g dvd int n" by (simp add: g)
        then show ?thesis by (simp add: mod_eq_0_iff_dvd)
      qed
      ultimately have "g \<in> set (divisorsOf n)"
        using \<open>m < int n\<close> by (auto simp: divisorsOf_def)
      moreover have "m mod int g = 0" by (simp add: g mod_eq_0_iff_dvd)
      moreover have "1 < m" using \<open>2 \<le> g\<close> \<open>int g \<le> m\<close> by simp
      ultimately show False
        using magicLoop_stop [of "divisorsOf n" "magicStart c n"] m by auto
    qed
  qed
qed

section \<open>Scattering and gathering\<close>

text \<open>\<open>idx = (idx + magic) % compressedSize\<close> in 32-bit unsigned arithmetic.\<close>

definition nextIdx :: "int \<Rightarrow> nat \<Rightarrow> nat \<Rightarrow> nat" where
  "nextIdx magic n idx = unat (of_nat idx + of_int magic :: u32) mod n"

fun scatter :: "int \<Rightarrow> nat \<Rightarrow> bytes \<Rightarrow> u8 \<Rightarrow> nat \<Rightarrow> bytes \<Rightarrow> bytes" where
  "scatter magic n [] lastChar idx enc = enc"
| "scatter magic n (c # cs) lastChar idx enc =
     scatter magic n cs c (nextIdx magic n idx) (enc[idx := c - lastChar])"

fun gather :: "int \<Rightarrow> nat \<Rightarrow> nat \<Rightarrow> u8 \<Rightarrow> nat \<Rightarrow> bytes \<Rightarrow> bytes" where
  "gather magic n 0 lastChar idx enc = []"
| "gather magic n (Suc k) lastChar idx enc =
     (let c = enc ! idx + lastChar in c # gather magic n k c (nextIdx magic n idx) enc)"

fun walk :: "int \<Rightarrow> nat \<Rightarrow> nat \<Rightarrow> nat \<Rightarrow> nat list" where
  "walk magic n 0 idx = []"
| "walk magic n (Suc k) idx = idx # walk magic n k (nextIdx magic n idx)"

lemma length_scatter [simp]: "length (scatter magic n cs l idx enc) = length enc"
  by (induction magic n cs l idx enc rule: scatter.induct) auto

lemma scatter_other:
  "i \<notin> set (walk magic n (length cs) idx) \<Longrightarrow> scatter magic n cs l idx enc ! i = enc ! i"
  by (induction magic n cs l idx enc rule: scatter.induct) auto

lemma gather_scatter:
  "distinct (walk magic n (length cs) idx) \<Longrightarrow> set (walk magic n (length cs) idx) \<subseteq> {..<length enc} \<Longrightarrow>
     gather magic n (length cs) l idx (scatter magic n cs l idx enc) = cs"
  by (induction magic n cs l idx enc rule: scatter.induct) (auto simp: Let_def scatter_other)

lemma nextIdx_small:
  assumes "0 \<le> m" "m < int n" "idx < n" "n < 2 ^ 31"
  shows "nextIdx m n idx = (idx + nat m) mod n"
proof -
  have "of_nat idx + of_int m = (of_nat (idx + nat m) :: u32)"
    using assms(1) by (simp add: of_nat_nat)
  moreover have "idx + nat m < 2 ^ 32" using assms by simp
  ultimately have "unat (of_nat idx + of_int m :: u32) = idx + nat m"
    by (simp only: unat_of_nat) (simp add: take_bit_nat_eq_self)
  then show ?thesis by (simp add: nextIdx_def)
qed

lemma walk_eq:
  assumes "0 \<le> m" "m < int n" "n < 2 ^ 31"
  shows "idx < n \<Longrightarrow> walk m n k idx = map (\<lambda>i. (idx + i * nat m) mod n) [0..<k]"
proof (induction k arbitrary: idx)
  case 0
  then show ?case by simp
next
  case (Suc k)
  have "nextIdx m n idx = (idx + nat m) mod n" using nextIdx_small assms Suc.prems by blast
  then have "walk m n (Suc k) idx =
      idx # map (\<lambda>i. ((idx + nat m) mod n + i * nat m) mod n) [0..<k]"
    using Suc by simp
  also have "\<dots> = map (\<lambda>i. (idx + i * nat m) mod n) [0..<Suc k]"
    using Suc.prems by (simp add: map_upt_Suc mod_simps add.assoc del: upt_Suc)
  finally show ?case .
qed

lemma walk_distinct:
  assumes "0 \<le> m" "m < int n" "n < 2 ^ 31" "coprime m (int n)" "idx < n"
  shows "distinct (walk m n n idx)" and "set (walk m n n idx) \<subseteq> {..<n}"
proof -
  have cop: "coprime n (nat m)"
    using assms(1,4) by (metis coprime_commute coprime_int_iff int_nat_eq)
  have inj: "i = j" if "(idx + i * nat m) mod n = (idx + j * nat m) mod n" "i \<le> j" "j < n" for i j
  proof -
    have "n dvd (idx + j * nat m) - (idx + i * nat m)"
      using that(1) by (metis mod_eq_dvd_iff_nat add_le_mono1 mult_le_mono1 nat_add_left_cancel_le that(2))
    then have "n dvd (j - i) * nat m" by (simp add: diff_mult_distrib)
    then have "n dvd j - i" using cop by (simp add: coprime_dvd_mult_left_iff)
    with that show ?thesis by (meson diff_is_0_eq dvd_imp_le le_antisym less_imp_diff_less not_less zero_less_diff)
  qed
  have "inj_on (\<lambda>i. (idx + i * nat m) mod n) {0..<n}"
    by (rule inj_onI) (metis atLeastLessThan_iff inj nle_le)
  then show "distinct (walk m n n idx)"
    by (simp add: walk_eq [OF assms(1-3,5)] distinct_map)
  show "set (walk m n n idx) \<subseteq> {..<n}"
    using assms(5) by (auto simp: walk_eq [OF assms(1-3,5)])
qed

section \<open>encrypt and decrypt\<close>

text \<open>\<open>compress\<close> is zlib's (\<open>None\<close> when it does not return \<open>Z_OK\<close>); \<open>uncompress sz\<close> is zlib's with a
  destination of \<open>sz\<close> bytes. A result of \<open>None\<close> of the two functions below is the division by zero of
  \<open>getMagic\<close>.\<close>

definition blit :: "nat \<Rightarrow> bytes \<Rightarrow> bytes \<Rightarrow> bytes" where
  "blit off bs buf = take off buf @ bs @ drop (off + length bs) buf"

definition maskBytes :: "u32 \<Rightarrow> nat \<Rightarrow> bytes \<Rightarrow> bytes" where
  "maskBytes checksum k buf = map (\<lambda>b. b XOR ucast checksum) (take k buf) @ drop k buf"

definition plainChecksum :: "bytes \<Rightarrow> u32" where
  "plainChecksum plain = foldl (\<lambda>s c. s + scast c * 65539) 0 plain"

definition zlib_encrypt :: "(bytes \<Rightarrow> bytes option) \<Rightarrow> bytes \<Rightarrow> bytes option" where
  "zlib_encrypt compress plainData =
     (if plainData = [] then Some []
      else case compress plainData of
        None \<Rightarrow> Some []
      | Some compressed \<Rightarrow>
          (let n = length compressed; checksum = plainChecksum plainData in
           case getMagic checksum n of
             None \<Rightarrow> None
           | Some magic \<Rightarrow>
               (let e1 = scatter magic n compressed 0 (unat checksum mod n) (replicate (n + 8) 0);
                    e2 = blit n (to_be 4 (of_nat (length plainData) :: u32)) e1;
                    e3 = maskBytes checksum (n + 4) e2
                in Some (blit (n + 4) (to_be 4 checksum) e3))))"

definition zlib_decrypt :: "(nat \<Rightarrow> bytes \<Rightarrow> bytes option) \<Rightarrow> bytes \<Rightarrow> bytes option" where
  "zlib_decrypt uncompress encryptedData =
     (if length encryptedData < 8 then Some []
      else
        let n = length encryptedData - 8;
            checksum = from_be (take 4 (drop (n + 4) encryptedData)) :: u32;
            e = maskBytes checksum (n + 4) encryptedData;
            originalSize = from_be (take 4 (drop n e)) :: u32
        in case getMagic checksum n of
             None \<Rightarrow> None
           | Some magic \<Rightarrow>
               (case uncompress (unat originalSize) (gather magic n n 0 (unat checksum mod n) e) of
                  None \<Rightarrow> Some []
                | Some decrypted \<Rightarrow> Some decrypted))"

lemma length_blit: "off + length bs \<le> length buf \<Longrightarrow> length (blit off bs buf) = length buf"
  by (simp add: blit_def)

lemma length_maskBytes [simp]: "length (maskBytes c k buf) = length buf"
  by (simp add: maskBytes_def)

lemma maskBytes_twice: "maskBytes c k (maskBytes c k buf) = buf"
  by (simp add: maskBytes_def take_map [symmetric] comp_def min_def)

lemma gather_prefix:
  assumes "0 < n" "idx < n" "n \<le> length enc"
  shows "gather m n k l idx (take n enc) = gather m n k l idx enc"
  using assms(2)
proof (induction k arbitrary: l idx)
  case 0
  then show ?case by simp
next
  case (Suc k)
  have "nextIdx m n idx < n" using assms(1) by (simp add: nextIdx_def)
  with Suc show ?case by (simp add: Let_def)
qed

text \<open>What \<open>encrypt\<close> lays out: the masked scattered data and size, then the checksum.\<close>

lemma zlib_encrypt_layout:
  assumes "plain \<noteq> []" "compress plain = Some zs" "getMagic (plainChecksum plain) (length zs) = Some m"
  shows "zlib_encrypt compress plain =
    (let n = length zs; c = plainChecksum plain;
         body = take n (scatter m n zs 0 (unat c mod n) (replicate (n + 8) 0)) @
                to_be 4 (of_nat (length plain) :: u32)
     in Some (maskBytes c (n + 4) body @ to_be 4 c))"
  using assms by (simp add: zlib_encrypt_def Let_def blit_def maskBytes_def)

lemma zlib_decrypt_layout:
  assumes "length body = n + 4" "0 < n" "getMagic c n = Some m"
  shows "zlib_decrypt uncompress (maskBytes c (n + 4) body @ to_be 4 c) =
    (case uncompress (unat (from_be (drop n body) :: u32)) (gather m n n 0 (unat c mod n) (take n body)) of
       None \<Rightarrow> Some [] | Some d \<Rightarrow> Some d)"
proof -
  have c: "from_be (to_be 4 c) = c" by (simp add: from_be_to_be)
  have e: "maskBytes c (n + 4) (maskBytes c (n + 4) body @ to_be 4 c) = body @ to_be 4 c"
    using assms(1) maskBytes_twice [of c "n + 4" body] by (simp add: maskBytes_def)
  have g: "gather m n n 0 (unat c mod n) (body @ to_be 4 c) = gather m n n 0 (unat c mod n) (take n body)"
    using gather_prefix [of n "unat c mod n" "body @ to_be 4 c"] assms by simp
  show ?thesis
    using assms by (simp add: zlib_decrypt_def Let_def c e g)
qed

text \<open>\<open>ZlibCipher::decrypt\<close> undoes \<open>ZlibCipher::encrypt\<close> for every non-empty text: the step chosen
  by \<open>getMagic\<close> visits every position exactly once, the deltas, the mask and the two trailing words
  are recovered, and zlib gets back the bytes it produced. The hypotheses are zlib's: it produced at
  least one byte, and inflating into a buffer of the original size gives the original data; the
  sizes fit the 32-bit fields.\<close>

lemma zlib_decrypt_encrypt:
  assumes "plain \<noteq> []" and "compress plain = Some zs" and "zs \<noteq> []"
    and "uncompress (length plain) zs = Some plain"
    and "length zs < 2 ^ 31" and "length plain < 2 ^ 32"
  shows "Option.bind (zlib_encrypt compress plain) (zlib_decrypt uncompress) = Some plain"
proof -
  define n where "n = length zs"
  define c where "c = plainChecksum plain"
  have n: "0 < n" "n < 2 ^ 31" using assms(3,5) by (auto simp: n_def)
  then obtain m where m: "getMagic c n = Some m" by (auto simp: getMagic_def)
  note mb = getMagic_coprime [OF m]
  define sc where "sc = scatter m n zs 0 (unat c mod n) (replicate (n + 8) 0)"
  define body where "body = take n sc @ to_be 4 (of_nat (length plain) :: u32)"
  have body: "length body = n + 4" "drop n body = to_be 4 (of_nat (length plain) :: u32)"
    "take n body = take n sc" by (simp_all add: body_def sc_def)
  have w: "distinct (walk m n n (unat c mod n))" "set (walk m n n (unat c mod n)) \<subseteq> {..<n}"
    using walk_distinct [OF mb(1,2) n(2) mb(3)] n by auto
  have "gather m n n 0 (unat c mod n) sc = zs"
    using gather_scatter [of m n zs "unat c mod n" "replicate (n + 8) 0" 0] w
    by (force simp: sc_def n_def)
  then have g: "gather m n n 0 (unat c mod n) (take n sc) = zs"
    using gather_prefix [of n "unat c mod n" sc] n by (simp add: sc_def)
  have sz: "unat (from_be (to_be 4 (of_nat (length plain) :: u32)) :: u32) = length plain"
    using assms(6) by (simp add: from_be_to_be unat_of_nat take_bit_nat_eq_self)
  have "zlib_encrypt compress plain = Some (maskBytes c (n + 4) body @ to_be 4 c)"
    using zlib_encrypt_layout [of plain compress zs m] assms(1,2) m
    by (simp add: n_def c_def body_def sc_def Let_def)
  moreover have "zlib_decrypt uncompress (maskBytes c (n + 4) body @ to_be 4 c) = Some plain"
    using zlib_decrypt_layout [OF body(1) n(1) m, of uncompress] assms(4) by (simp add: body g sz)
  ultimately show ?thesis by simp
qed

end
