(* ===== verification/RzHash.thy ===== *)
theory RzHash
  imports Prelude
begin

text \<open>
  The reversible 256-byte hash the client puts in its version and login packets
  (librzu/src/lib/Cipher/RzHashReversible256.cpp). \<open>rnd k\<close> is the \<open>k\<close>-th result of \<open>rand()\<close>.
\<close>

section \<open>RzHashReversible256::encrypt\<close>

definition hide :: "u16 \<Rightarrow> u8 \<Rightarrow> u8" where
  "hide random1Reduced b = ucast random1Reduced + NOT b"

fun hashLoop :: "(nat \<Rightarrow> nat) \<Rightarrow> u16 \<Rightarrow> bytes \<Rightarrow> nat list \<Rightarrow> nat \<Rightarrow> u16 \<Rightarrow> bytes \<Rightarrow> u16 \<times> bytes" where
  "hashLoop rnd random1 input [] k acc out = (acc, out)"
| "hashLoop rnd random1 input (i # is) k acc out =
     (let rr = drop_bit 4 random1 in
      if i = 221 then hashLoop rnd random1 input is k acc (out[221 := ucast random1])
      else if i = 245 then hashLoop rnd random1 input is k acc (out[245 := ucast (drop_bit 8 random1)])
      else if i = 136 then
        hashLoop rnd random1 input is k (acc + 11 * ucast (input ! 0)) (out[136 := hide rr (input ! 0)])
      else if i = 33 then
        hashLoop rnd random1 input is k (acc + 11 * ucast (input ! 1)) (out[33 := hide rr (input ! 1)])
      else if i = 126 then
        hashLoop rnd random1 input is k (acc + 11 * ucast (input ! 2)) (out[126 := hide rr (input ! 2)])
      else
        let random2 = rnd k mod 255;
            acc' = (if i mod 7 = 0 then acc + 2 * of_nat random2
                    else if i mod 4 = 1 then acc - of_nat (255 - random2)
                    else acc)
        in hashLoop rnd random1 input is (k + 1) acc' (out[i := hide rr (of_nat random2)]))"

definition rzhash_encrypt :: "(nat \<Rightarrow> nat) \<Rightarrow> bytes \<Rightarrow> bytes \<Rightarrow> bytes" where
  "rzhash_encrypt rnd dataOut input =
     (let random1 = (of_nat (rnd 0) AND 0x7FFE) + 1 :: u16;
          rr = drop_bit 4 random1;
          (acc, out) = hashLoop rnd random1 input [0..<256] 1 0 dataOut
      in out[27 := hide rr (ucast (drop_bit 8 acc)), 99 := hide rr (ucast acc)])"

text \<open>The three bytes hashed for a version string (its characters from the sixth on) and for an account
  name; missing bytes are 0.\<close>

definition version_payload :: "bytes \<Rightarrow> bytes" where
  "version_payload szVersion =
     (let t = (if int (length szVersion) - 5 > 0 then take 3 (drop 5 szVersion) else [])
      in t @ replicate (3 - length t) 0)"

definition login_payload :: "bytes \<Rightarrow> bytes" where
  "login_payload name = take 3 name @ replicate (3 - length name) 0"

section \<open>Reading a hash back\<close>

text \<open>What the other side can compute from the 256 bytes alone.\<close>

definition hash_key :: "bytes \<Rightarrow> u16" where
  "hash_key out = drop_bit 4 (ucast (out ! 221) OR push_bit 8 (ucast (out ! 245)))"

definition reveal :: "u16 \<Rightarrow> u8 \<Rightarrow> u8" where
  "reveal random1Reduced b = NOT (b - ucast random1Reduced)"

definition hash_term :: "nat \<Rightarrow> u8 \<Rightarrow> u16" where
  "hash_term i p =
     (if i \<in> {221, 245} then 0
      else if i \<in> {136, 33, 126} then 11 * ucast p
      else if i mod 7 = 0 then 2 * ucast p
      else if i mod 4 = 1 then - (255 - ucast p)
      else 0)"

definition hash_sum :: "bytes \<Rightarrow> u16" where
  "hash_sum out = (\<Sum>i\<leftarrow>[0..<256]. hash_term i (reveal (hash_key out) (out ! i)))"

lemma reveal_hide [simp]: "reveal r (hide r b) = b"
  by (simp add: reveal_def hide_def)

lemma ucast_small:
  assumes "n < 256"
  shows "(ucast (of_nat n :: u8) :: u16) = of_nat n"
proof -
  have "take_bit 8 n = n" using assms by (simp add: take_bit_nat_eq_self)
  then show ?thesis by (simp add: unsigned_of_nat)
qed

text \<open>One iteration stores one byte and adds to \<open>acc\<close> the term that byte reveals.\<close>

definition fixed_byte :: "u16 \<Rightarrow> bytes \<Rightarrow> nat \<Rightarrow> u8 option" where
  "fixed_byte random1 input i =
     (if i = 221 then Some (ucast random1)
      else if i = 245 then Some (ucast (drop_bit 8 random1))
      else if i = 136 then Some (hide (drop_bit 4 random1) (input ! 0))
      else if i = 33 then Some (hide (drop_bit 4 random1) (input ! 1))
      else if i = 126 then Some (hide (drop_bit 4 random1) (input ! 2))
      else None)"

lemma hashLoop_step:
  obtains k' v where
    "hashLoop rnd random1 input (i # is) k acc out =
       hashLoop rnd random1 input is k' (acc + hash_term i (reveal (drop_bit 4 random1) v)) (out[i := v])"
    and "\<And>b. fixed_byte random1 input i = Some b \<Longrightarrow> v = b"
proof (cases "fixed_byte random1 input i")
  case None
  let ?r = "rnd k mod 255"
  have r: "?r < 255" by simp
  have "ucast (of_nat ?r :: u8) = (of_nat ?r :: u16)" using r by (intro ucast_small) simp
  moreover have "(of_nat (255 - ?r) :: u16) = 255 - of_nat ?r" using r by (simp add: of_nat_diff)
  ultimately have "hashLoop rnd random1 input (i # is) k acc out =
       hashLoop rnd random1 input is (k + 1)
         (acc + hash_term i (reveal (drop_bit 4 random1) (hide (drop_bit 4 random1) (of_nat ?r))))
         (out[i := hide (drop_bit 4 random1) (of_nat ?r)])"
    using None by (simp add: fixed_byte_def Let_def hash_term_def diff_conv_add_uminus
      del: add_uminus_conv_diff split: if_splits)
  then show ?thesis by (rule that) (simp add: None)
next
  case (Some v)
  then have "hashLoop rnd random1 input (i # is) k acc out =
       hashLoop rnd random1 input is k (acc + hash_term i (reveal (drop_bit 4 random1) v)) (out[i := v])"
    by (auto simp: fixed_byte_def Let_def hash_term_def split: if_splits)
  then show ?thesis by (rule that) (simp add: Some)
qed

declare hashLoop.simps(2) [simp del]

lemma hashLoop_spec:
  assumes "distinct is" "\<forall>i\<in>set is. i < length out"
  shows "length (snd (hashLoop rnd random1 input is k acc out)) = length out \<and>
    (\<forall>i. i \<notin> set is \<longrightarrow> snd (hashLoop rnd random1 input is k acc out) ! i = out ! i) \<and>
    (\<forall>i\<in>set is. \<forall>b. fixed_byte random1 input i = Some b \<longrightarrow>
       snd (hashLoop rnd random1 input is k acc out) ! i = b) \<and>
    fst (hashLoop rnd random1 input is k acc out) = acc + (\<Sum>i\<leftarrow>is. hash_term i
       (reveal (drop_bit 4 random1) (snd (hashLoop rnd random1 input is k acc out) ! i)))"
  using assms
proof (induction "is" arbitrary: k acc out)
  case Nil
  then show ?case by simp
next
  case (Cons i "is")
  obtain k' v where step: "hashLoop rnd random1 input (i # is) k acc out =
       hashLoop rnd random1 input is k' (acc + hash_term i (reveal (drop_bit 4 random1) v)) (out[i := v])"
    and v: "\<And>b. fixed_byte random1 input i = Some b \<Longrightarrow> v = b"
    using hashLoop_step [of rnd random1 input i "is" k acc out] by blast
  have "distinct is" "\<forall>i'\<in>set is. i' < length (out[i := v])" using Cons.prems by auto
  note IH = Cons.IH [OF this, of k' "acc + hash_term i (reveal (drop_bit 4 random1) v)"]
  have "snd (hashLoop rnd random1 input (i # is) k acc out) ! i = v"
    using IH Cons.prems by (simp add: step)
  with IH v Cons.prems show ?case by (auto simp: step nth_list_update_neq add.assoc)
qed

lemma hash_key_bytes: "ucast (ucast r :: u8) OR push_bit 8 (ucast (ucast (drop_bit 8 r) :: u8)) = (r :: u16)"
  by (rule bit_word_eqI) (auto simp: bit_simps dest: bit_imp_le_length)

lemma u16_bytes: "push_bit 8 (ucast (ucast (drop_bit 8 r) :: u8)) OR ucast (ucast r :: u8) = (r :: u16)"
  using hash_key_bytes [of r] by (simp add: or.commute)

lemma sum_list_hash_cong:
  "(\<And>i. i \<in> set is \<Longrightarrow> f i = g i) \<Longrightarrow> (\<Sum>i\<leftarrow>is. f i) = (\<Sum>i\<leftarrow>is. (g i :: u16))"
  by (metis map_cong)

text \<open>The hash is reversible and self-checking: from the 256 bytes alone the receiver recovers the
  random key, the three input bytes, and a 16-bit sum over the revealed bytes that agrees with the sum
  stored at offsets 27 and 99, whatever \<open>rand()\<close> returned and whatever the buffer held before.\<close>

lemma rzhash_reversible:
  assumes "length dataOut = 256" and out_def: "out = rzhash_encrypt rnd dataOut input"
  shows "length out = 256 \<and>
    hash_key out = drop_bit 4 ((of_nat (rnd 0) AND 0x7FFE) + 1) \<and>
    reveal (hash_key out) (out ! 136) = input ! 0 \<and>
    reveal (hash_key out) (out ! 33) = input ! 1 \<and>
    reveal (hash_key out) (out ! 126) = input ! 2 \<and>
    hash_sum out = push_bit 8 (ucast (reveal (hash_key out) (out ! 27))) OR
                   ucast (reveal (hash_key out) (out ! 99))"
proof -
  define r1 where "r1 = (of_nat (rnd 0) AND 0x7FFE) + (1 :: u16)"
  define acc where "acc = fst (hashLoop rnd r1 input [0..<256] 1 0 dataOut)"
  define o1 where "o1 = snd (hashLoop rnd r1 input [0..<256] 1 0 dataOut)"
  have out: "out = o1[27 := hide (drop_bit 4 r1) (ucast (drop_bit 8 acc)), 99 := hide (drop_bit 4 r1) (ucast acc)]"
    by (simp add: out_def rzhash_encrypt_def r1_def [symmetric] acc_def o1_def Let_def split_beta)
  have spec: "length o1 = 256 \<and> (\<forall>i<256. \<forall>b. fixed_byte r1 input i = Some b \<longrightarrow> o1 ! i = b) \<and>
      acc = (\<Sum>i\<leftarrow>[0..<256]. hash_term i (reveal (drop_bit 4 r1) (o1 ! i)))"
    using hashLoop_spec [of "[0..<256]" dataOut rnd r1 input 1 0] assms(1)
    by (auto simp: o1_def acc_def)
  then have len: "length o1 = 256"
    and fixed: "\<And>i b. i < 256 \<Longrightarrow> fixed_byte r1 input i = Some b \<Longrightarrow> o1 ! i = b"
    and acc: "acc = (\<Sum>i\<leftarrow>[0..<256]. hash_term i (reveal (drop_bit 4 r1) (o1 ! i)))" by auto
  have at: "out ! i = o1 ! i" if "i \<noteq> 27" "i \<noteq> 99" for i using that by (simp add: out)
  have key: "hash_key out = drop_bit 4 r1"
    using fixed [of 221] fixed [of 245]
    by (simp add: hash_key_def at fixed_byte_def hash_key_bytes)
  have "hash_sum out = (\<Sum>i\<leftarrow>[0..<256]. hash_term i (reveal (drop_bit 4 r1) (o1 ! i)))"
    unfolding hash_sum_def key
  proof (rule sum_list_hash_cong)
    show "hash_term i (reveal (drop_bit 4 r1) (out ! i)) = hash_term i (reveal (drop_bit 4 r1) (o1 ! i))" for i
    proof (cases "i = 27 \<or> i = 99")
      case True
      then show ?thesis by (auto simp: hash_term_def)
    next
      case False
      then show ?thesis by (simp add: at)
    qed
  qed
  then have "hash_sum out = acc" using acc by simp
  moreover have "out ! 136 = hide (drop_bit 4 r1) (input ! 0)" "out ! 33 = hide (drop_bit 4 r1) (input ! 1)"
    "out ! 126 = hide (drop_bit 4 r1) (input ! 2)"
    using fixed [of 136] fixed [of 33] fixed [of 126] by (simp_all add: at fixed_byte_def)
  moreover have "out ! 27 = hide (drop_bit 4 r1) (ucast (drop_bit 8 acc))" "out ! 99 = hide (drop_bit 4 r1) (ucast acc)"
    "length out = 256"
    using len by (simp_all add: out)
  ultimately show ?thesis using key u16_bytes [of acc] by (simp add: r1_def)
qed

lemma rzhash_reversible_witness:
  "length (replicate 256 (0 :: u8)) = 256 \<and>
   reveal (hash_key (rzhash_encrypt (\<lambda>k. 7 * k + 3) (replicate 256 0) [1, 2, 3]))
     (rzhash_encrypt (\<lambda>k. 7 * k + 3) (replicate 256 0) [1, 2, 3] ! 126) = 3"
proof -
  have "reveal (hash_key (rzhash_encrypt (\<lambda>k. 7 * k + 3) (replicate 256 0) [1, 2, 3]))
     (rzhash_encrypt (\<lambda>k. 7 * k + 3) (replicate 256 0) [1, 2, 3] ! 126) = [1, 2, 3] ! 2"
    using rzhash_reversible [OF length_replicate refl] by blast
  then show ?thesis by simp
qed

end
