(* ===== verification/PacketVersion.thy ===== *)
theory PacketVersion
  imports Prelude
begin

text \<open>
  Protocol versions: \<open>packet_version_t\<close> and its two comparisons (librzu/src/lib/Packet/PacketEpics.h),
  the version strings a client sends (PacketVersionUtils.cpp) and the auth server's detection of the
  version from such a string (rzauth/src/AuthServer/ClientSession.cpp, \<open>onVersion\<close> and
  \<open>setMinimumPacketVersion\<close>).
\<close>

section \<open>packet_version_t\<close>

type_synonym packet_version_t = u32

text \<open>The upper byte of a version holds flags. Against a constant the flags are masked out, against
  another version they are not; both differences are read as a signed \<open>int\<close>.\<close>

definition compareEpic :: "packet_version_t \<Rightarrow> u32 \<Rightarrow> int" where
  "compareEpic v epic = sint ((v AND 0x00FFFFFF) - epic)"

definition compareVersion :: "packet_version_t \<Rightarrow> packet_version_t \<Rightarrow> int" where
  "compareVersion v w = sint (v - w)"

definition ver_ge :: "packet_version_t \<Rightarrow> u32 \<Rightarrow> bool" where
  "ver_ge v epic \<longleftrightarrow> compareEpic v epic \<ge> 0"

definition ver_lt :: "packet_version_t \<Rightarrow> u32 \<Rightarrow> bool" where
  "ver_lt v epic \<longleftrightarrow> compareEpic v epic < 0"

definition versionFlag :: "packet_version_t \<Rightarrow> u32 \<Rightarrow> u32" where
  "versionFlag v f = drop_bit 24 v AND f"

abbreviation "EPIC_2 \<equiv> 0x020100 :: u32"
abbreviation "EPIC_4_1 \<equiv> 0x040100 :: u32"
abbreviation "EPIC_5_2 \<equiv> 0x050200 :: u32"
abbreviation "EPIC_7_4 \<equiv> 0x070400 :: u32"
abbreviation "EPIC_8_1_1_RSA \<equiv> 0x080101 :: u32"
abbreviation "EPIC_9_2 \<equiv> 0x090200 :: u32"
abbreviation "EPIC_9_4_AR \<equiv> 0x090401 :: u32"
abbreviation "EPIC_9_5_2 \<equiv> 0x090502 :: u32"
abbreviation "EPIC_9_5_3 \<equiv> 0x090503 :: u32"
abbreviation "EPIC_9_6 \<equiv> 0x090600 :: u32"
abbreviation "EPIC_9_6_3 \<equiv> 0x090603 :: u32"
abbreviation "EPIC_9_6_4 \<equiv> 0x090604 :: u32"
abbreviation "EPIC_9_6_5 \<equiv> 0x090605 :: u32"
abbreviation "EPIC_9_6_6 \<equiv> 0x090606 :: u32"
abbreviation "EPIC_9_6_7 \<equiv> 0x090607 :: u32"
abbreviation "EPIC_9_7_1 \<equiv> 0x090701 :: u32"
abbreviation "EPIC_9_7_2 \<equiv> 0x090702 :: u32"
abbreviation "EPIC_9_8_0 \<equiv> 0x090800 :: u32"
abbreviation "EPIC_LATEST \<equiv> 0x090801 :: u32"

lemma sint_diff_small:
  fixes a b :: u32
  assumes "unat a < 2 ^ 31" "unat b < 2 ^ 31"
  shows "sint (a - b) = int (unat a) - int (unat b)"
proof -
  have "int (unat a) < 2 ^ 31" "int (unat b) < 2 ^ 31" using assms by (metis of_nat_less_iff of_nat_numeral of_nat_power)+
  then have bounds: "uint a < 2 ^ 31" "uint b < 2 ^ 31" by simp_all
  have "sint (a - b) = sint (word_of_int (uint a - uint b) :: u32)" by simp
  also have "\<dots> = signed_take_bit 31 (uint a - uint b)" by (subst sint_sbintrunc') simp
  also have "\<dots> = uint a - uint b"
    using bounds uint_ge_0 [of a] uint_ge_0 [of b]
    by (intro signed_take_bit_int_eq_self) linarith+
  finally show ?thesis by simp
qed

lemma uint_le_unat: "uint (a :: 'a::len word) \<le> uint (b :: 'a word) \<longleftrightarrow> unat a \<le> unat b"
  by (simp only: word_le_def [symmetric] word_le_nat_alt)

text \<open>Between versions without flags, both comparisons are those of the numbers.\<close>

lemma mask24_lt: "unat ((v :: u32) AND 0x00FFFFFF) < 2 ^ 24"
proof -
  have "v AND 0x00FFFFFF = take_bit 24 v" by (simp add: take_bit_eq_mask mask_eq_exp_minus_1)
  then show ?thesis by (metis take_bit_nat_less_exp unsigned_take_bit_eq)
qed

lemma mask24_id: "unat v < 2 ^ 24 \<Longrightarrow> (v :: u32) AND 0x00FFFFFF = v"
proof -
  assume "unat v < 2 ^ 24"
  moreover have "v AND 0x00FFFFFF = take_bit 24 v" by (simp add: take_bit_eq_mask mask_eq_exp_minus_1)
  ultimately show ?thesis
    by (metis take_bit_nat_eq_self unsigned_take_bit_eq unsigned_word_eqI)
qed

lemma ver_ge_unat: "unat v < 2 ^ 24 \<Longrightarrow> unat e < 2 ^ 24 \<Longrightarrow> ver_ge v e \<longleftrightarrow> unat e \<le> unat v"
  by (simp add: ver_ge_def compareEpic_def mask24_id sint_diff_small uint_le_unat)

lemma ver_lt_not_ge: "ver_lt v e \<longleftrightarrow> \<not> ver_ge v e"
  by (auto simp: ver_lt_def ver_ge_def)

section \<open>Version strings\<close>

definition getDefaultAuthVersionString :: "packet_version_t \<Rightarrow> string" where
  "getDefaultAuthVersionString version =
     (if ver_ge version EPIC_9_6_6 then ''20210128''
      else if ver_ge version EPIC_9_2 then ''201507080''
      else if ver_ge version EPIC_4_1 then ''200701120''
      else ''200609280'')"

definition getDefaultGameVersionString :: "packet_version_t \<Rightarrow> string" where
  "getDefaultGameVersionString version =
     (if ver_ge version EPIC_9_8_0 then ''20230126''
      else if ver_ge version EPIC_9_7_2 then ''20220622''
      else if ver_ge version EPIC_9_7_1 then ''20220210''
      else if ver_ge version EPIC_9_6_6 then ''20210128''
      else if ver_ge version EPIC_9_6_4 then ''20200922''
      else if ver_ge version EPIC_9_6_3 then ''20200713''
      else if ver_ge version EPIC_9_6 then ''20190102''
      else if ver_ge version EPIC_9_5_3 then ''20181211''
      else if ver_ge version EPIC_9_5_2 then ''20180117''
      else if ver_ge version EPIC_9_4_AR then ''205001120''
      else if ver_ge version EPIC_9_2 then ''201507080''
      else if ver_ge version EPIC_4_1 then ''200701120''
      else ''200609280'')"

text \<open>A version set in the configuration replaces the default one.\<close>

definition getAuthVersionString :: "string option \<Rightarrow> packet_version_t \<Rightarrow> string" where
  "getAuthVersionString configured version =
     (case configured of Some s \<Rightarrow> s | None \<Rightarrow> getDefaultAuthVersionString version)"

definition getGameVersionString :: "string option \<Rightarrow> packet_version_t \<Rightarrow> string" where
  "getGameVersionString configured version =
     (case configured of Some s \<Rightarrow> s | None \<Rightarrow> getDefaultGameVersionString version)"

section \<open>Detection by the auth server\<close>

text \<open>\<open>strtol(s, NULL, 10)\<close> with a 64-bit \<open>long\<close>.\<close>

definition isSpace :: "char \<Rightarrow> bool" where
  "isSpace c \<longleftrightarrow> c = CHR '' '' \<or> (of_char c :: nat) \<in> {9..13}"

definition isDigit :: "char \<Rightarrow> bool" where
  "isDigit c \<longleftrightarrow> 48 \<le> (of_char c :: nat) \<and> (of_char c :: nat) \<le> 57"

fun digitsValue :: "int \<Rightarrow> string \<Rightarrow> int" where
  "digitsValue acc [] = acc"
| "digitsValue acc (c # cs) =
     (if isDigit c then digitsValue (acc * 10 + (of_char c - 48)) cs else acc)"

definition strtol :: "string \<Rightarrow> int" where
  "strtol s =
     (let t = dropWhile isSpace s;
          v = (case t of
                 c # cs \<Rightarrow> if c = CHR ''-'' then - digitsValue 0 cs
                           else if c = CHR ''+'' then digitsValue 0 cs
                           else digitsValue 0 t
               | [] \<Rightarrow> 0)
      in max (- (2 ^ 63)) (min (2 ^ 63 - 1) v))"

definition setMinimumPacketVersion :: "packet_version_t \<Rightarrow> packet_version_t \<Rightarrow> packet_version_t" where
  "setMinimumPacketVersion version current = (if compareVersion current version < 0 then version else current)"

text \<open>\<open>onVersion\<close> restarts from epic 2 and raises the version to what the string implies; the two
  status requests \<open>TEST\<close> and \<open>INFO\<close> leave it at epic 2.\<close>

definition detectVersion :: "string \<Rightarrow> packet_version_t" where
  "detectVersion szVersion =
     (if take 4 szVersion = ''TEST'' then EPIC_2
      else if take 4 szVersion = ''INFO'' then EPIC_2
      else if take 9 szVersion = ''200609280'' \<or> take 5 szVersion = ''Creer''
        then setMinimumPacketVersion EPIC_2 EPIC_2
      else
        let version = word_of_int (strtol szVersion) :: u32 in
        if version \<ge> 20210128 \<and> version < 100000000 then setMinimumPacketVersion EPIC_9_6_7 EPIC_2
        else if version \<ge> 201507080 then setMinimumPacketVersion EPIC_9_2 EPIC_2
        else if version \<ge> 200701120 then setMinimumPacketVersion EPIC_4_1 EPIC_2
        else setMinimumPacketVersion EPIC_2 EPIC_2)"

lemma setMinimum_unat:
  "unat v < 2 ^ 31 \<Longrightarrow> unat w < 2 ^ 31 \<Longrightarrow> unat (setMinimumPacketVersion v w) = max (unat v) (unat w)"
  by (simp add: setMinimumPacketVersion_def compareVersion_def sint_diff_small uint_le_unat flip: not_le)

lemma detect_default:
  "detectVersion ''20210128'' = EPIC_9_6_7" "detectVersion ''201507080'' = EPIC_9_2"
  "detectVersion ''200701120'' = EPIC_4_1" "detectVersion ''200609280'' = EPIC_2"
  by code_simp+

text \<open>A client that announces the default version string of its own version is never taken for a
  newer client, except between 9.6.6 and 9.6.7 (the code skips 9.6.6 on purpose); and it is taken for
  the newest of the four detectable versions that is not newer than it.\<close>

lemma version_detection_sound:
  assumes "unat version < 2 ^ 24" and "0x020100 \<le> unat version"
    and "\<not> (0x090606 \<le> unat version \<and> unat version < 0x090607)"
  shows "unat (detectVersion (getDefaultAuthVersionString version)) \<le> unat version \<and>
    detectVersion (getDefaultAuthVersionString version) \<in> {EPIC_2, EPIC_4_1, EPIC_9_2, EPIC_9_6_7} \<and>
    (\<forall>d \<in> {EPIC_2, EPIC_4_1, EPIC_9_2, EPIC_9_6_7}.
       unat d \<le> unat version \<longrightarrow> unat d \<le> unat (detectVersion (getDefaultAuthVersionString version)))"
  using assms by (auto simp: getDefaultAuthVersionString_def ver_ge_unat detect_default)

lemma version_detection_sound_witness:
  "unat (0x080101 :: u32) < 2 ^ 24 \<and>
   unat (detectVersion (getDefaultAuthVersionString 0x080101)) \<le> unat (0x080101 :: u32)"
  using version_detection_sound [of "0x080101"] by simp

end
