(* ===== verification/AuthState.thy ===== *)
theory AuthState
  imports PacketVersion
begin

text \<open>
  The state of the authentication server and its two registries: \<open>ClientData\<close>
  (rzauth/src/AuthServer/ClientData.cpp) and \<open>GameData\<close> (GameData.cpp). Heap objects are entries of a map
  from addresses; following a null or dangling pointer is \<open>None\<close>. What the handlers send, log or ask
  of other components is appended to \<open>sent\<close>.
\<close>

section \<open>Data\<close>

record client_data =
  cd_account :: string
  cd_accountId :: u32
  cd_age :: u32
  cd_eventCode :: u32
  cd_oneTimePassword :: u64
  cd_pcBang :: u32
  cd_ip :: string
  cd_loginTime :: int
  cd_kickRequested :: bool
  cd_client :: "nat option"
  cd_server :: "nat option"
  cd_inGame :: bool

record game_data =
  gd_session :: "nat option"
  gd_serverIdx :: u16
  gd_serverName :: string
  gd_serverIp :: string
  gd_serverPort :: u32
  gd_screenshotUrl :: string
  gd_isAdult :: bool
  gd_guid :: bytes
  gd_playerCount :: u32
  gd_ready :: bool

datatype crypt_mode = EM_None | EM_DES | EM_AES

record auth_input =
  in_account :: string
  in_ip :: string
  in_cryptedPassword :: bytes
  in_cryptMode :: crypt_mode
  in_aesKey :: bytes

record client_session =
  cs_packetVersion :: packet_version_t
  cs_lastLoginServerId :: u16
  cs_serverIdxOffset :: u32
  cs_aesKey :: bytes
  cs_clientData :: "nat option"
  cs_dbQuery :: "auth_input list"
  cs_remoteIp :: string

record account_info =
  ai_account :: string
  ai_accountID :: u32
  ai_pcBang :: u32
  ai_eventCode :: u32
  ai_age :: u32
  ai_ip :: string
  ai_loginTime :: int

record security_input =
  si_account :: string
  si_securityNo :: string
  si_mode :: u32

record game_session =
  gs_gameData :: "nat option"
  gs_autoReconnect :: bool
  gs_securityNoSendMode :: bool
  gs_accounts :: "account_info list"
  gs_queries :: "security_input list"

section \<open>Messages\<close>

datatype log_id =
    LM_ACCOUNT_LOGIN | LM_ACCOUNT_LOGOUT | LM_ACCOUNT_DUPLICATE_AUTH_LOGIN
  | LM_ACCOUNT_DUPLICATE_GAME_LOGIN | LM_GAME_SERVER_LOGIN | LM_GAME_SERVER_LOGOUT

record client_login =
  cl_account :: string
  cl_accountID :: u32
  cl_result :: u16
  cl_pcBangUser :: bool
  cl_eventCode :: u32
  cl_age :: u32

record server_info =
  sv_idx :: u16
  sv_name :: string
  sv_isAdult :: bool
  sv_screenshotUrl :: string
  sv_ip :: string
  sv_port :: u32
  sv_userRatio :: u16

datatype select_key = OneTimeKey u64 | EncryptedKey bytes

datatype client_msg =
    AC_RESULT (res_msg: u16) (res_result: u16) (res_flag: u32)
  | SC_RESULT u16 u16 u32
  | AC_AES_KEY_IV bytes
  | AC_SERVER_LIST u16 "server_info list"
  | AC_SELECT_SERVER select_key

datatype game_msg =
    AG_LOGIN_RESULT u16
  | AG_CLIENT_LOGIN client_login
  | AG_CLIENT_LOGIN_EXTENDED client_login string int
  | AG_KICK_CLIENT string
  | AG_ITEM_PURCHASED string u32
  | AG_ITEM_SUPPLIED string
  | AG_SECURITY_NO_CHECK string u32 bool
  | AG_SECURITY_NO_CHECK_EPIC5 string bool

datatype out =
    ToClient nat client_msg
  | ToGame nat game_msg
  | AbortClient nat
  | CloseGame nat
  | LogMsg log_id "int list" "string list"
  | UpdateLastServerIdx u32 u16

abbreviation "TS_RESULT_SUCCESS \<equiv> 0 :: u16"
abbreviation "TS_RESULT_NOT_EXIST \<equiv> 1 :: u16"
abbreviation "TS_RESULT_ACCESS_DENIED \<equiv> 6 :: u16"
abbreviation "TS_RESULT_UNKNOWN \<equiv> 7 :: u16"
abbreviation "TS_RESULT_ALREADY_EXIST \<equiv> 9 :: u16"
abbreviation "TS_RESULT_INVALID_ARGUMENT \<equiv> 0x1C :: u16"
abbreviation "TS_RESULT_CLIENT_SIDE_ERROR \<equiv> 0xFFFF :: u16"
abbreviation "TS_CA_ACCOUNT_ID \<equiv> 10010 :: u16"

section \<open>State\<close>

text \<open>\<open>junk\<close> stands for what a fresh allocation happens to contain: \<open>tryAddClient\<close> leaves
  \<open>oneTimePassword\<close> and \<open>loginTime\<close> unset.\<close>

record auth_config =
  cfg_strictKick :: bool
  cfg_enableImbc :: bool
  cfg_maxPublicServerIdx :: u32
  cfg_maxPlayers :: u32
  cfg_junkPassword :: u64
  cfg_junkTime :: int

record auth_state =
  clientHeap :: "nat \<Rightarrow> client_data option"
  gameHeap :: "nat \<Rightarrow> game_data option"
  clientSessions :: "nat \<Rightarrow> client_session option"
  gameSessions :: "nat \<Rightarrow> game_session option"
  connectedClients :: "(u32, nat) umap"
  connectedClientsByName :: "(string, nat) umap"
  servers :: "(u16, nat) umap"
  nextAddr :: nat
  sent :: "out list"

definition auth_init :: auth_state where
  "auth_init = \<lparr>clientHeap = \<lambda>_. None, gameHeap = \<lambda>_. None, clientSessions = \<lambda>_. None,
     gameSessions = \<lambda>_. None, connectedClients = [], connectedClientsByName = [], servers = [],
     nextAddr = 0, sent = []\<rparr>"

definition emit :: "out \<Rightarrow> auth_state \<Rightarrow> auth_state" where
  "emit x st = st\<lparr>sent := sent st @ [x]\<rparr>"

definition modClient :: "nat \<Rightarrow> (client_data \<Rightarrow> client_data) \<Rightarrow> auth_state \<Rightarrow> auth_state option" where
  "modClient p f st = do { c \<leftarrow> clientHeap st p; Some (st\<lparr>clientHeap := (clientHeap st)(p \<mapsto> f c)\<rparr>) }"

definition modGame :: "nat \<Rightarrow> (game_data \<Rightarrow> game_data) \<Rightarrow> auth_state \<Rightarrow> auth_state option" where
  "modGame g f st = do { d \<leftarrow> gameHeap st g; Some (st\<lparr>gameHeap := (gameHeap st)(g \<mapsto> f d)\<rparr>) }"

definition modClientSession :: "nat \<Rightarrow> (client_session \<Rightarrow> client_session) \<Rightarrow> auth_state \<Rightarrow> auth_state option" where
  "modClientSession s f st =
     do { x \<leftarrow> clientSessions st s; Some (st\<lparr>clientSessions := (clientSessions st)(s \<mapsto> f x)\<rparr>) }"

definition modGameSession :: "nat \<Rightarrow> (game_session \<Rightarrow> game_session) \<Rightarrow> auth_state \<Rightarrow> auth_state option" where
  "modGameSession s f st =
     do { x \<leftarrow> gameSessions st s; Some (st\<lparr>gameSessions := (gameSessions st)(s \<mapsto> f x)\<rparr>) }"

section \<open>ClientData\<close>

definition toLowerChar :: "char \<Rightarrow> char" where
  "toLowerChar c = (let n = of_char c :: nat in if 65 \<le> n \<and> n \<le> 90 then char_of (n + 32) else c)"

definition toLower :: "string \<Rightarrow> string" where
  "toLower str = map toLowerChar str"

definition incPlayerCount :: "nat \<Rightarrow> auth_state \<Rightarrow> auth_state option" where
  "incPlayerCount g st = modGame g (\<lambda>d. d\<lparr>gd_playerCount := gd_playerCount d + 1\<rparr>) st"

definition decPlayerCount :: "nat \<Rightarrow> auth_state \<Rightarrow> auth_state option" where
  "decPlayerCount g st = modGame g (\<lambda>d. d\<lparr>gd_playerCount := gd_playerCount d - 1\<rparr>) st"

text \<open>\<open>delete\<close> of a \<open>ClientData\<close>, with its destructor.\<close>

definition deleteClient :: "nat \<Rightarrow> auth_state \<Rightarrow> auth_state option" where
  "deleteClient p st = do {
     c \<leftarrow> clientHeap st p;
     st \<leftarrow> (case cd_server c of
             Some g \<Rightarrow> if cd_inGame c then decPlayerCount g st else Some st
           | None \<Rightarrow> Some st);
     Some (st\<lparr>clientHeap := (clientHeap st)(p := None)\<rparr>) }"

text \<open>The result is the new client, or the client that has the account id or the name.\<close>

datatype add_result = Added nat | Existing nat

definition newClient :: "auth_config \<Rightarrow> nat option \<Rightarrow> client_data" where
  "newClient cfg clientInfo = \<lparr>cd_account = [], cd_accountId = 0, cd_age = 0, cd_eventCode = 0,
     cd_oneTimePassword = cfg_junkPassword cfg, cd_pcBang = 0, cd_ip = [], cd_loginTime = cfg_junkTime cfg,
     cd_kickRequested = False, cd_client = clientInfo, cd_server = None, cd_inGame = False\<rparr>"

definition tryAddClient :: "auth_config \<Rightarrow> nat option \<Rightarrow> string \<Rightarrow> u32 \<Rightarrow> u32 \<Rightarrow> u32 \<Rightarrow> u32 \<Rightarrow> string \<Rightarrow>
    auth_state \<Rightarrow> (add_result \<times> auth_state) option" where
  "tryAddClient cfg clientInfo account accountId age eventCode pcBang ip st =
     (let p = nextAddr st;
          st = st\<lparr>nextAddr := p + 1, clientHeap := (clientHeap st)(p \<mapsto> newClient cfg clientInfo)\<rparr>
      in case um_find (connectedClients st) accountId of
        Some old \<Rightarrow> do { st \<leftarrow> deleteClient p st; Some (Existing old, st) }
      | None \<Rightarrow> do {
          let st = st\<lparr>connectedClients := um_insert accountId p (connectedClients st)\<rparr>;
          st \<leftarrow> modClient p (\<lambda>c. c\<lparr>cd_account := account, cd_accountId := accountId, cd_age := age,
                  cd_eventCode := eventCode, cd_pcBang := pcBang, cd_ip := ip\<rparr>) st;
          case um_find (connectedClientsByName st) (toLower account) of
            Some old \<Rightarrow> do {
              st \<leftarrow> deleteClient p (st\<lparr>connectedClients := um_erase accountId (connectedClients st)\<rparr>);
              Some (Existing old, st) }
          | None \<Rightarrow>
              Some (Added p, st\<lparr>connectedClientsByName :=
                um_insert (toLower account) p (connectedClientsByName st)\<rparr>) })"

definition removeClientByName :: "string \<Rightarrow> auth_state \<Rightarrow> (bool \<times> auth_state) option" where
  "removeClientByName account st =
     (case um_find (connectedClientsByName st) (toLower account) of
        None \<Rightarrow> Some (False, st)
      | Some p \<Rightarrow> do {
          c \<leftarrow> clientHeap st p;
          st \<leftarrow> deleteClient p (st\<lparr>
            connectedClients := um_erase (cd_accountId c) (connectedClients st),
            connectedClientsByName := um_erase (toLower account) (connectedClientsByName st)\<rparr>);
          Some (True, st) })"

definition removeClientById :: "u32 \<Rightarrow> auth_state \<Rightarrow> (bool \<times> auth_state) option" where
  "removeClientById accountId st =
     (case um_find (connectedClients st) accountId of
        None \<Rightarrow> Some (False, st)
      | Some p \<Rightarrow> do {
          c \<leftarrow> clientHeap st p;
          st \<leftarrow> deleteClient p (st\<lparr>
            connectedClients := um_erase accountId (connectedClients st),
            connectedClientsByName := um_erase (toLower (cd_account c)) (connectedClientsByName st)\<rparr>);
          Some (True, st) })"

definition removeClient :: "nat \<Rightarrow> auth_state \<Rightarrow> auth_state option" where
  "removeClient p st = do {
     c \<leftarrow> clientHeap st p;
     (_, st) \<leftarrow> removeClientById (cd_accountId c) st;
     Some st }"

definition switchClientToServer :: "nat \<Rightarrow> nat \<Rightarrow> u64 \<Rightarrow> auth_state \<Rightarrow> auth_state option" where
  "switchClientToServer p g oneTimePassword st =
     modClient p (\<lambda>c. c\<lparr>cd_oneTimePassword := oneTimePassword, cd_client := None, cd_server := Some g\<rparr>) st"

definition connectedToGame :: "int \<Rightarrow> nat \<Rightarrow> auth_state \<Rightarrow> auth_state option" where
  "connectedToGame now p st = do {
     c \<leftarrow> clientHeap st p;
     st \<leftarrow> (case cd_server c of None \<Rightarrow> Some st | Some g \<Rightarrow> incPlayerCount g st);
     modClient p (\<lambda>c. c\<lparr>cd_inGame := True, cd_loginTime := now\<rparr>) st }"

definition getClient :: "string \<Rightarrow> auth_state \<Rightarrow> nat option" where
  "getClient account st = um_find (connectedClientsByName st) (toLower account)"

definition getClientById :: "u32 \<Rightarrow> auth_state \<Rightarrow> nat option" where
  "getClientById accountId st = um_find (connectedClients st) accountId"

fun removeServerLoop :: "nat \<Rightarrow> (u32, nat) umap \<Rightarrow> auth_state \<Rightarrow> auth_state option" where
  "removeServerLoop g [] st = Some st"
| "removeServerLoop g ((i, p) # es) st = do {
     c \<leftarrow> clientHeap st p;
     if cd_server c = Some g then do {
       st \<leftarrow> deleteClient p (st\<lparr>
         connectedClients := um_erase i (connectedClients st),
         connectedClientsByName := um_erase (toLower (cd_account c)) (connectedClientsByName st)\<rparr>);
       removeServerLoop g es st }
     else removeServerLoop g es st }"

definition removeServer :: "nat \<Rightarrow> auth_state \<Rightarrow> auth_state option" where
  "removeServer g st = removeServerLoop g (connectedClients st) st"

section \<open>GameData\<close>

definition newGame :: "nat option \<Rightarrow> u16 \<Rightarrow> string \<Rightarrow> string \<Rightarrow> u32 \<Rightarrow> string \<Rightarrow> bool \<Rightarrow> bytes option \<Rightarrow> game_data" where
  "newGame session idx nm ip port url adult guid = \<lparr>gd_session = session, gd_serverIdx = idx,
     gd_serverName = nm, gd_serverIp = ip, gd_serverPort = port, gd_screenshotUrl = url,
     gd_isAdult = adult, gd_guid = (case guid of Some x \<Rightarrow> x | None \<Rightarrow> replicate 16 0),
     gd_playerCount = 0, gd_ready = False\<rparr>"

definition serverLog :: "log_id \<Rightarrow> game_data \<Rightarrow> out" where
  "serverLog lm d = LogMsg lm [0, 0, 0, uint (gd_serverIdx d), sint (gd_serverPort d), 0, 0, 0, 0, 0, 0]
     [[], [], gd_serverIp d, gd_serverName d]"

definition tryAddGame :: "nat \<Rightarrow> u16 \<Rightarrow> string \<Rightarrow> string \<Rightarrow> u32 \<Rightarrow> string \<Rightarrow> bool \<Rightarrow> bytes option \<Rightarrow>
    auth_state \<Rightarrow> add_result \<times> auth_state" where
  "tryAddGame session idx nm ip port url adult guid st =
     (case um_find (servers st) idx of
        Some old \<Rightarrow> (Existing old, st)
      | None \<Rightarrow>
          let g = nextAddr st; d = newGame (Some session) idx nm ip port url adult guid;
              st = emit (serverLog LM_GAME_SERVER_LOGIN d) st
          in (Added g, st\<lparr>nextAddr := g + 1, gameHeap := (gameHeap st)(g \<mapsto> d),
                servers := um_insert idx g (servers st)\<rparr>))"

text \<open>\<open>delete\<close> of a \<open>GameData\<close>: its destructor logs and removes the server's clients.\<close>

definition deleteGame :: "nat \<Rightarrow> auth_state \<Rightarrow> auth_state option" where
  "deleteGame g st = do {
     d \<leftarrow> gameHeap st g;
     let st = emit (serverLog LM_GAME_SERVER_LOGOUT d) st;
     st \<leftarrow> removeServer g st;
     Some (st\<lparr>gameHeap := (gameHeap st)(g := None)\<rparr>) }"

definition removeGame :: "nat \<Rightarrow> auth_state \<Rightarrow> auth_state option" where
  "removeGame g st = do {
     d \<leftarrow> gameHeap st g;
     deleteGame g (st\<lparr>servers := um_erase (gd_serverIdx d) (servers st)\<rparr>) }"

definition isReady :: "game_data \<Rightarrow> bool" where
  "isReady d \<longleftrightarrow> gd_session d \<noteq> None \<and> gd_ready d"

definition setReady :: "nat \<Rightarrow> bool \<Rightarrow> auth_state \<Rightarrow> auth_state option" where
  "setReady g ready st = modGame g (\<lambda>d. d\<lparr>gd_ready := ready\<rparr>) st"

text \<open>A game server session and its data point at each other; \<open>setGameData\<close> and \<open>setGameServer\<close>
  call each other until both agree. The first argument bounds the depth of the calls.\<close>

fun setGameData :: "nat \<Rightarrow> nat \<Rightarrow> nat option \<Rightarrow> auth_state \<Rightarrow> auth_state option"
and setGameServer :: "nat \<Rightarrow> nat \<Rightarrow> nat option \<Rightarrow> auth_state \<Rightarrow> auth_state option" where
  "setGameData 0 s g st = None"
| "setGameData (Suc n) s g st = do {
     x \<leftarrow> gameSessions st s;
     if gs_gameData x \<noteq> g then do {
       st \<leftarrow> modGameSession s (\<lambda>y. y\<lparr>gs_gameData := g\<rparr>) st;
       st \<leftarrow> (case gs_gameData x of Some old \<Rightarrow> setGameServer n old None st | None \<Rightarrow> Some st);
       (case g of Some d \<Rightarrow> setGameServer n d (Some s) st | None \<Rightarrow> Some st) }
     else Some st }"
| "setGameServer 0 g s st = None"
| "setGameServer (Suc n) g s st = do {
     d \<leftarrow> gameHeap st g;
     if gd_session d \<noteq> s then do {
       st \<leftarrow> modGame g (\<lambda>e. e\<lparr>gd_session := s\<rparr>) st;
       st \<leftarrow> (case gd_session d of Some old \<Rightarrow> setGameData n old None st | None \<Rightarrow> Some st);
       (case s of Some x \<Rightarrow> setGameData n x (Some g) st | None \<Rightarrow> Some st) }
     else Some st }"

end
