(* ===== verification/AuthGame.thy ===== *)
theory AuthGame
  imports AuthState
begin

text \<open>
  The game server's side of the authentication server: the handlers of \<open>GameServerSession\<close>
  (rzauth/src/AuthServer/GameServerSession.cpp), its destructor, the notifications \<open>GameData\<close> forwards
  (GameData.cpp) and the billing commands (BillingInterface.cpp). Strings of fixed-size fields arrive as
  the characters of the field.
\<close>

section \<open>Notifications and kicks\<close>

text \<open>\<open>strcpy\<close> into \<open>char[61]\<close> is undefined when the string and its terminator do not fit.\<close>

definition strcpy61 :: "string \<Rightarrow> string option" where
  "strcpy61 s = (if length s < 61 then Some s else None)"

definition gameNotifyItemPurchased :: "nat \<Rightarrow> nat \<Rightarrow> auth_state \<Rightarrow> auth_state option" where
  "gameNotifyItemPurchased s p st = do {
     _ \<leftarrow> gameSessions st s; c \<leftarrow> clientHeap st p;
     Some (emit (ToGame s (AG_ITEM_PURCHASED (take 60 (cd_account c)) (cd_accountId c))) st) }"

definition gameNotifyItemSupplied :: "nat \<Rightarrow> nat \<Rightarrow> auth_state \<Rightarrow> auth_state option" where
  "gameNotifyItemSupplied s p st = do {
     _ \<leftarrow> gameSessions st s; c \<leftarrow> clientHeap st p;
     Some (emit (ToGame s (AG_ITEM_SUPPLIED (take 60 (cd_account c)))) st) }"

definition sessionKickClient :: "auth_config \<Rightarrow> nat \<Rightarrow> nat \<Rightarrow> auth_state \<Rightarrow> auth_state option" where
  "sessionKickClient cfg s p st = do {
     _ \<leftarrow> gameSessions st s; c \<leftarrow> clientHeap st p;
     account \<leftarrow> strcpy61 (cd_account c);
     let st = emit (ToGame s (AG_KICK_CLIENT account)) st;
     if \<not> cfg_strictKick cfg then removeClient p st
     else modClient p (\<lambda>c. c\<lparr>cd_kickRequested := True\<rparr>) st }"

text \<open>\<open>GameData\<close> forwards to its session when it has one.\<close>

definition kickClient :: "auth_config \<Rightarrow> nat \<Rightarrow> nat \<Rightarrow> auth_state \<Rightarrow> auth_state option" where
  "kickClient cfg g p st = do {
     d \<leftarrow> gameHeap st g;
     (case gd_session d of Some s \<Rightarrow> sessionKickClient cfg s p st | None \<Rightarrow> Some st) }"

definition sendNotifyItemPurchased :: "nat \<Rightarrow> nat \<Rightarrow> auth_state \<Rightarrow> auth_state option" where
  "sendNotifyItemPurchased g p st = do {
     d \<leftarrow> gameHeap st g;
     (case gd_session d of Some s \<Rightarrow> gameNotifyItemPurchased s p st | None \<Rightarrow> Some st) }"

definition sendNotifyItemSupplied :: "nat \<Rightarrow> nat \<Rightarrow> auth_state \<Rightarrow> auth_state option" where
  "sendNotifyItemSupplied g p st = do {
     d \<leftarrow> gameHeap st g;
     (case gd_session d of Some s \<Rightarrow> gameNotifyItemSupplied s p st | None \<Rightarrow> Some st) }"

section \<open>Login and logout of a game server\<close>

record ga_login =
  ga_idx :: u16
  ga_name :: string
  ga_url :: string
  ga_adult :: bool
  ga_ip :: string
  ga_port :: u32

abbreviation linkDepth :: nat where "linkDepth \<equiv> 8"

text \<open>The handler sends its answer last, on every path.\<close>

definition sameServer :: "game_data \<Rightarrow> ga_login \<Rightarrow> bytes \<Rightarrow> bool" where
  "sameServer d packet guid \<longleftrightarrow>
     gd_serverIdx d = ga_idx packet \<and>
     gd_serverName d = convertToString (ga_name packet) 20 \<and>
     gd_serverIp d = convertToString (ga_ip packet) 15 \<and>
     gd_serverPort d = ga_port packet \<and>
     gd_screenshotUrl d = convertToString (ga_url packet) 255 \<and>
     gd_isAdult d = ga_adult packet \<and> gd_guid d = guid"

definition onServerLogin :: "nat \<Rightarrow> ga_login \<Rightarrow> bytes option \<Rightarrow> auth_state \<Rightarrow> auth_state option" where
  "onServerLogin s packet guid st = do {
     x \<leftarrow> gameSessions st s;
     let localServerName = convertToString (ga_name packet) 20;
     let localServerIp = convertToString (ga_ip packet) 15;
     let localScreenshotUrl = convertToString (ga_url packet) 255;
     (case gs_gameData x of
        Some _ \<Rightarrow> Some (emit (ToGame s (AG_LOGIN_RESULT TS_RESULT_INVALID_ARGUMENT)) st)
      | None \<Rightarrow>
          (case tryAddGame s (ga_idx packet) localServerName localServerIp (ga_port packet)
                  localScreenshotUrl (ga_adult packet) guid st of
             (Added g, st) \<Rightarrow> do {
               st \<leftarrow> setGameData linkDepth s (Some g) st;
               st \<leftarrow> setReady g (\<not> gs_autoReconnect x) st;
               Some (emit (ToGame s (AG_LOGIN_RESULT TS_RESULT_SUCCESS)) st) }
           | (Existing old, st) \<Rightarrow> do {
               d \<leftarrow> gameHeap st old;
               if gs_autoReconnect x \<and> guid \<noteq> None \<and> sameServer d packet (the guid) then do {
                 st \<leftarrow> setGameData linkDepth s (Some old) st;
                 st \<leftarrow> setReady old False st;
                 let st = (case gd_session d of Some t \<Rightarrow> emit (CloseGame t) st | None \<Rightarrow> st);
                 Some (emit (ToGame s (AG_LOGIN_RESULT TS_RESULT_SUCCESS)) st) }
               else Some (emit (ToGame s (AG_LOGIN_RESULT TS_RESULT_ALREADY_EXIST)) st) })) }"

definition onServerLogout :: "nat \<Rightarrow> auth_state \<Rightarrow> auth_state option" where
  "onServerLogout s st = do {
     x \<leftarrow> gameSessions st s;
     (case gs_gameData x of
        Some g \<Rightarrow> do {
          st \<leftarrow> removeGame g st;
          modGameSession s (\<lambda>y. y\<lparr>gs_gameData := None\<rparr>) st }
      | None \<Rightarrow> Some st) }"

text \<open>The destructor, run when the connection is gone.\<close>

definition destroyGameSession :: "nat \<Rightarrow> auth_state \<Rightarrow> auth_state option" where
  "destroyGameSession s st = do {
     x \<leftarrow> gameSessions st s;
     st \<leftarrow> (case gs_gameData x of
        None \<Rightarrow> Some st
      | Some g \<Rightarrow> do {
          d \<leftarrow> gameHeap st g;
          if gd_session d = Some s then
            (if gs_autoReconnect x then setGameData linkDepth s None st else removeGame g st)
          else Some st });
     Some (st\<lparr>gameSessions := (gameSessions st)(s := None)\<rparr>) }"

section \<open>The account list of a reconnecting server\<close>

definition cutAccount :: "account_info \<Rightarrow> account_info" where
  "cutAccount a = a\<lparr>ai_account := (ai_account a)[60 := CHR 0x00]\<rparr>"

definition addAccount :: "auth_config \<Rightarrow> int \<Rightarrow> nat \<Rightarrow> nat \<Rightarrow> account_info \<Rightarrow> auth_state \<Rightarrow> auth_state option" where
  "addAccount cfg now s g accountInfo st = do {
     let account = convertToString (ai_account accountInfo) 60;
     (r, st) \<leftarrow> tryAddClient cfg None account (ai_accountID accountInfo) (ai_age accountInfo)
       (ai_eventCode accountInfo) (ai_pcBang accountInfo) (ai_ip accountInfo) st;
     (case r of
        Added p \<Rightarrow> do {
          st \<leftarrow> switchClientToServer p g 0 st;
          st \<leftarrow> connectedToGame now p st;
          modClient p (\<lambda>c. c\<lparr>cd_loginTime := ai_loginTime accountInfo\<rparr>) st }
      | Existing _ \<Rightarrow> do {
          kicked \<leftarrow> strcpy61 account;
          Some (emit (ToGame s (AG_KICK_CLIENT kicked)) st) }) }"

fun addAccounts :: "auth_config \<Rightarrow> int \<Rightarrow> nat \<Rightarrow> nat \<Rightarrow> account_info list \<Rightarrow> auth_state \<Rightarrow> auth_state option" where
  "addAccounts cfg now s g [] st = Some st"
| "addAccounts cfg now s g (a # as) st = do { st \<leftarrow> addAccount cfg now s g a st; addAccounts cfg now s g as st }"

text \<open>\<open>sizeof(AccountInfo)\<close> is 124 and \<open>sizeof(TS_GA_ACCOUNT_LIST)\<close> is 9, the sums are 32-bit. \<open>infos\<close> are
  the entries behind the header that fit in the packet; reading one more would leave the packet.\<close>

definition accountListSize :: "u8 \<Rightarrow> u32" where
  "accountListSize count = ucast count * 124 + 9"

definition onAccountList :: "auth_config \<Rightarrow> int \<Rightarrow> nat \<Rightarrow> u32 \<Rightarrow> u8 \<Rightarrow> bool \<Rightarrow> account_info list \<Rightarrow>
    auth_state \<Rightarrow> auth_state option" where
  "onAccountList cfg now s packetSize count final infos st = do {
     x \<leftarrow> gameSessions st s;
     (case gs_gameData x of
        None \<Rightarrow> Some st
      | Some g \<Rightarrow>
          if accountListSize count \<noteq> packetSize then Some st
          else if length infos < unat count then None
          else do {
            let accounts = gs_accounts x @ map cutAccount (take (unat count) infos);
            st \<leftarrow> modGameSession s (\<lambda>y. y\<lparr>gs_accounts := accounts\<rparr>) st;
            if final then do {
              st \<leftarrow> removeServer g st;
              st \<leftarrow> addAccounts cfg now s g accounts st;
              st \<leftarrow> setReady g True st;
              modGameSession s (\<lambda>y. y\<lparr>gs_accounts := []\<rparr>) st }
            else Some st }) }"

section \<open>Login and logout of clients\<close>

definition fillClientLoginResult :: "string \<Rightarrow> u16 \<Rightarrow> client_data option \<Rightarrow> client_login" where
  "fillClientLoginResult account result clientData =
     (case clientData of
        Some c \<Rightarrow>
          if result = TS_RESULT_SUCCESS then
            \<lparr>cl_account = account, cl_accountID = cd_accountId c, cl_result = result,
             cl_pcBangUser = (cd_pcBang c \<noteq> 0), cl_eventCode = cd_eventCode c, cl_age = cd_age c\<rparr>
          else \<lparr>cl_account = account, cl_accountID = 0, cl_result = result, cl_pcBangUser = False,
             cl_eventCode = 0, cl_age = 0\<rparr>
      | None \<Rightarrow> \<lparr>cl_account = account, cl_accountID = 0, cl_result = result, cl_pcBangUser = False,
             cl_eventCode = 0, cl_age = 0\<rparr>)"

definition fillClientLoginExtendedResult :: "string \<Rightarrow> u16 \<Rightarrow> client_data option \<Rightarrow> game_msg" where
  "fillClientLoginExtendedResult account result clientData =
     (case clientData of
        Some c \<Rightarrow>
          if result = TS_RESULT_SUCCESS then
            AG_CLIENT_LOGIN_EXTENDED (fillClientLoginResult account result clientData) (cd_ip c) (cd_loginTime c)
          else AG_CLIENT_LOGIN_EXTENDED (fillClientLoginResult account result clientData) [] 0
      | None \<Rightarrow> AG_CLIENT_LOGIN_EXTENDED (fillClientLoginResult account result clientData) [] 0)"

definition sendClientLoginResult :: "nat \<Rightarrow> string \<Rightarrow> u16 \<Rightarrow> nat option \<Rightarrow> auth_state \<Rightarrow> auth_state option" where
  "sendClientLoginResult s account result client st = do {
     x \<leftarrow> gameSessions st s;
     let c = Option.bind client (clientHeap st);
     Some (emit (ToGame s (if gs_autoReconnect x then fillClientLoginExtendedResult account result c
       else AG_CLIENT_LOGIN (fillClientLoginResult account result c))) st) }"

definition onClientLogin :: "int \<Rightarrow> nat \<Rightarrow> string \<Rightarrow> u64 \<Rightarrow> auth_state \<Rightarrow> auth_state option" where
  "onClientLogin now s accountField oneTimeKey st = do {
     x \<leftarrow> gameSessions st s;
     let account = convertToString accountField 60;
     let client = getClient account st;
     (case gs_gameData x of
        None \<Rightarrow> sendClientLoginResult s account TS_RESULT_ACCESS_DENIED client st
      | Some g \<Rightarrow>
          if length account \<ge> 61 then sendClientLoginResult s account TS_RESULT_ACCESS_DENIED client st
          else (case client of
            None \<Rightarrow> sendClientLoginResult s account TS_RESULT_ACCESS_DENIED client st
          | Some p \<Rightarrow> do {
              c \<leftarrow> clientHeap st p;
              d \<leftarrow> gameHeap st g;
              if cd_server c = None \<or> cd_server c \<noteq> Some g \<or> \<not> isReady d \<or>
                 cd_oneTimePassword c \<noteq> oneTimeKey \<or> cd_inGame c
              then sendClientLoginResult s account TS_RESULT_ACCESS_DENIED client st
              else do {
                st \<leftarrow> connectedToGame now p st;
                let st = emit (LogMsg LM_ACCOUNT_LOGIN
                  [uint (cd_accountId c), uint (cd_pcBang c), uint (cd_eventCode c), uint (gd_serverIdx d),
                   uint (cd_age c), 0, 0, 0, 0, 0, 0] [cd_account c, cd_ip c, [], []]) st;
                sendClientLoginResult s account TS_RESULT_SUCCESS client st } })) }"

definition onClientLogout :: "int \<Rightarrow> nat \<Rightarrow> string \<Rightarrow> auth_state \<Rightarrow> auth_state option" where
  "onClientLogout now s accountField st = do {
     x \<leftarrow> gameSessions st s;
     let account = convertToString accountField 60;
     (case gs_gameData x of
        None \<Rightarrow> Some st
      | Some g \<Rightarrow>
          (case getClient account st of
             None \<Rightarrow> Some st
           | Some p \<Rightarrow> do {
               c \<leftarrow> clientHeap st p;
               d \<leftarrow> gameHeap st g;
               let st = emit (LogMsg LM_ACCOUNT_LOGOUT
                 [uint (cd_accountId c), 0, 0, uint (gd_serverIdx d), uint (cd_pcBang c), 0, 0, 0, 0, 0,
                  now - cd_loginTime c]
                 [cd_account c, cd_ip c, [], if cd_kickRequested c then ''DKICK'' else ''NORMAL'']) st;
               removeClient p st })) }"

definition onClientKickFailed :: "int \<Rightarrow> nat \<Rightarrow> string \<Rightarrow> auth_state \<Rightarrow> auth_state option" where
  "onClientKickFailed now s accountField st = do {
     x \<leftarrow> gameSessions st s;
     let account = convertToString accountField 60;
     (case gs_gameData x of
        None \<Rightarrow> Some st
      | Some g \<Rightarrow>
          (case getClient account st of
             None \<Rightarrow> Some st
           | Some p \<Rightarrow> do {
               c \<leftarrow> clientHeap st p;
               d \<leftarrow> gameHeap st g;
               let st = emit (LogMsg LM_ACCOUNT_LOGOUT
                 [uint (cd_accountId c), 0, 0, uint (gd_serverIdx d), uint (cd_pcBang c), 0, 0, 0, 0, 0,
                  now - cd_loginTime c]
                 [cd_account c, [], [], ''FKICK'']) st;
               removeClient p st })) }"

section \<open>Security numbers\<close>

text \<open>A packet of the size before epic 6 has no mode, and the session then answers in the old form.\<close>

definition onSecurityNoCheck :: "nat \<Rightarrow> string \<Rightarrow> string \<Rightarrow> u32 option \<Rightarrow> auth_state \<Rightarrow> auth_state option" where
  "onSecurityNoCheck s accountField securityField mode st =
     (let account = convertToString accountField 60;
          securityNo = convertToString securityField 18
      in modGameSession s (\<lambda>y. y\<lparr>
           gs_securityNoSendMode := (gs_securityNoSendMode y \<and> mode \<noteq> None),
           gs_queries := gs_queries y @
             [\<lparr>si_account = account, si_securityNo = securityNo,
               si_mode = (case mode of Some m \<Rightarrow> m | None \<Rightarrow> 0)\<rparr>]\<rparr>) st)"

definition onSecurityNoCheckResult :: "nat \<Rightarrow> security_input \<Rightarrow> nat \<Rightarrow> auth_state \<Rightarrow> auth_state option" where
  "onSecurityNoCheckResult s input results st = do {
     x \<leftarrow> gameSessions st s;
     let ok = (results = 1);
     account \<leftarrow> strcpy61 (si_account input);
     Some (emit (ToGame s (if gs_securityNoSendMode x
       then AG_SECURITY_NO_CHECK account (si_mode input) ok
       else AG_SECURITY_NO_CHECK_EPIC5 account ok)) st) }"

section \<open>Dispatch\<close>

datatype game_packet =
    GA_LOGIN_WITH_LOGOUT ga_login
  | GA_LOGIN_WITH_LOGOUT_EXT ga_login bytes
  | GA_LOGIN ga_login
  | GA_ACCOUNT_LIST u32 u8 bool "account_info list"
  | GA_LOGOUT
  | GA_CLIENT_LOGIN string u64
  | GA_CLIENT_LOGOUT string
  | GA_CLIENT_KICK_FAILED string
  | GA_SECURITY_NO_CHECK string string "u32 option"
  | GA_UNKNOWN

fun gamePacketReceived :: "auth_config \<Rightarrow> int \<Rightarrow> nat \<Rightarrow> game_packet \<Rightarrow> auth_state \<Rightarrow> auth_state option" where
  "gamePacketReceived cfg now s (GA_LOGIN_WITH_LOGOUT p) st = do {
     st \<leftarrow> modGameSession s (\<lambda>y. y\<lparr>gs_autoReconnect := True\<rparr>) st; onServerLogin s p None st }"
| "gamePacketReceived cfg now s (GA_LOGIN_WITH_LOGOUT_EXT p guid) st = do {
     st \<leftarrow> modGameSession s (\<lambda>y. y\<lparr>gs_autoReconnect := True\<rparr>) st; onServerLogin s p (Some guid) st }"
| "gamePacketReceived cfg now s (GA_LOGIN p) st = do {
     st \<leftarrow> modGameSession s (\<lambda>y. y\<lparr>gs_autoReconnect := False\<rparr>) st; onServerLogin s p None st }"
| "gamePacketReceived cfg now s (GA_ACCOUNT_LIST packetSize count final infos) st =
     onAccountList cfg now s packetSize count final infos st"
| "gamePacketReceived cfg now s GA_LOGOUT st = onServerLogout s st"
| "gamePacketReceived cfg now s (GA_CLIENT_LOGIN account key) st = onClientLogin now s account key st"
| "gamePacketReceived cfg now s (GA_CLIENT_LOGOUT account) st = onClientLogout now s account st"
| "gamePacketReceived cfg now s (GA_CLIENT_KICK_FAILED account) st = onClientKickFailed now s account st"
| "gamePacketReceived cfg now s (GA_SECURITY_NO_CHECK account security mode) st =
     onSecurityNoCheck s account security mode st"
| "gamePacketReceived cfg now s GA_UNKNOWN st = Some st"

section \<open>Billing notifications\<close>

text \<open>\<open>atoi\<close> is \<open>strtol\<close> cut to an \<open>int\<close>.\<close>

definition billingNotice :: "string \<Rightarrow> string \<Rightarrow> auth_state \<Rightarrow> auth_state option" where
  "billingNotice cmd accountIdStr st =
     (let accountId = word_of_int (strtol accountIdStr) :: u32 in
      if cmd = ''blank'' \<or> cmd = ''supply'' then
        (case getClientById accountId st of
           None \<Rightarrow> Some st
         | Some p \<Rightarrow> do {
             c \<leftarrow> clientHeap st p;
             (case cd_server c of
                Some g \<Rightarrow>
                  if cd_inGame c then
                    (if cmd = ''blank'' then sendNotifyItemPurchased g p st else sendNotifyItemSupplied g p st)
                  else Some st
              | None \<Rightarrow> Some st) })
      else Some st)"

definition onBillingCommand :: "string list \<Rightarrow> auth_state \<Rightarrow> auth_state option" where
  "onBillingCommand args st =
     (if args = [] then Some st
      else if args ! 0 = ''billing_notify'' then
        (if length args \<ge> 3 then billingNotice (args ! 1) (args ! 2) st else Some st)
      else Some st)"

end
