(* ===== verification/AuthClient.thy ===== *)
theory AuthClient
  imports AuthGame
begin

text \<open>
  The client's side of the authentication server: the handlers of \<open>ClientSession\<close>
  (rzauth/src/AuthServer/ClientSession.cpp). Packets arrive parsed; \<open>convertToDataArray\<close> and the password
  fields are those of the packet's version. RSA and AES (OpenSSL) and the account database are parameters.
\<close>

section \<open>Packets\<close>

datatype client_packet =
    CA_VERSION string
  | CA_RSA_PUBLIC_KEY bytes
  | CA_ACCOUNT string bytes u32
  | CA_IMBC_ACCOUNT string bytes u32
  | CA_SERVER_LIST
  | CA_SELECT_SERVER u32
  | CA_IGNORED
  | CA_INVALID

text \<open>One row of the account table, with the defaults of \<open>DB_AccountData::Output\<close> for absent columns and
  the verdict of \<open>onRowDone\<close> in \<open>ok\<close>.\<close>

record auth_output =
  out_ok :: bool
  out_account_id :: u32
  out_auth_ok :: bool
  out_age :: u32
  out_last_login_server_idx :: u16
  out_event_code :: u32
  out_pcbang :: u32
  out_server_idx_offset :: u32
  out_block :: bool

section \<open>Session life\<close>

definition newClientSession :: "bytes \<Rightarrow> string \<Rightarrow> client_session" where
  "newClientSession aesKey remoteIp = \<lparr>cs_packetVersion = EPIC_2, cs_lastLoginServerId = 1,
     cs_serverIdxOffset = 0, cs_aesKey = aesKey, cs_clientData = None, cs_dbQuery = [],
     cs_remoteIp = remoteIp\<rparr>"

text \<open>\<open>onDisconnected\<close> and the deletion of the session that follows it.\<close>

definition onDisconnected :: "nat \<Rightarrow> auth_state \<Rightarrow> auth_state option" where
  "onDisconnected s st = do {
     x \<leftarrow> clientSessions st s;
     st \<leftarrow> (case cs_clientData x of
        Some p \<Rightarrow> do {
          st \<leftarrow> removeClient p st;
          modClientSession s (\<lambda>y. y\<lparr>cs_clientData := None\<rparr>) st }
      | None \<Rightarrow> Some st);
     Some (st\<lparr>clientSessions := (clientSessions st)(s := None)\<rparr>) }"

section \<open>Version detection\<close>

definition setMinimum :: "packet_version_t \<Rightarrow> client_session \<Rightarrow> client_session" where
  "setMinimum v x = x\<lparr>cs_packetVersion := setMinimumPacketVersion v (cs_packetVersion x)\<rparr>"

definition rsaKeyId :: "packet_version_t \<Rightarrow> u16" where
  "rsaKeyId version = (if ver_ge version EPIC_9_6_3 then 1071 else 71)"

definition preProcessPacketReceived :: "u16 \<Rightarrow> u32 \<Rightarrow> client_session \<Rightarrow> client_session" where
  "preProcessPacketReceived ident psize x =
     (let x = (if ident = rsaKeyId EPIC_9_6_3 then setMinimum EPIC_9_6_3 x else x);
          x = (if ident = rsaKeyId (cs_packetVersion x) then setMinimum EPIC_8_1_1_RSA x else x);
          x = (if ident = 10010 \<and> psize > 58 then setMinimum EPIC_5_2 x else x);
          x = (if ident = 10012 \<and> psize > 79 then setMinimum EPIC_7_4 x else x)
      in x)"

definition onVersion :: "u32 \<Rightarrow> nat \<Rightarrow> u16 \<Rightarrow> string \<Rightarrow> auth_state \<Rightarrow> auth_state option" where
  "onVersion buildDate s ident szVersion st = do {
     st \<leftarrow> modClientSession s (\<lambda>y. y\<lparr>cs_packetVersion := detectVersion szVersion\<rparr>) st;
     if take 4 szVersion = ''TEST'' then
       Some (emit (ToClient s (SC_RESULT ident 0
         (of_nat (length (connectedClients st)) XOR 0xADADADAD))) st)
     else if take 4 szVersion = ''INFO'' then
       Some (emit (ToClient s (SC_RESULT ident 0 (buildDate XOR 0xADADADAD))) st)
     else Some st }"

section \<open>Key exchange and account\<close>

text \<open>\<open>rsa key aes\<close> is the AES key encrypted for the client's key, \<open>None\<close> when the key is not a certificate
  or the encryption fails; \<open>randoms\<close> are the 32 bytes drawn. A key that cannot be read leaves the AES key
  as it was.\<close>

definition onRsaKey :: "(bytes \<Rightarrow> bool) \<Rightarrow> (bytes \<Rightarrow> bytes \<Rightarrow> bytes option) \<Rightarrow> bytes \<Rightarrow> nat \<Rightarrow> bytes \<Rightarrow>
    auth_state \<Rightarrow> auth_state option" where
  "onRsaKey readKey rsa randoms s key st = do {
     _ \<leftarrow> clientSessions st s;
     if \<not> readKey key then Some (emit (AbortClient s) st)
     else do {
       st \<leftarrow> modClientSession s (\<lambda>y. y\<lparr>cs_aesKey := take 32 randoms\<rparr>) st;
       (case rsa key (take 32 randoms) of
          None \<Rightarrow> Some (emit (AbortClient s) st)
        | Some block \<Rightarrow> Some (emit (ToClient s (AC_AES_KEY_IV block)) st)) } }"

text \<open>\<open>Utils::convertToDataArray(data, maxSize, usedSize)\<close> (Utils.cpp): the sizes are signed.\<close>

definition convertToDataArray :: "bytes \<Rightarrow> int \<Rightarrow> int \<Rightarrow> bytes" where
  "convertToDataArray data maxSize usedSize = take (nat (max 0 (min maxSize usedSize))) data"

text \<open>A dynamic password is cut to its announced size, unless that is 0 or more than there is.\<close>

definition resizePassword :: "bytes \<Rightarrow> u32 \<Rightarrow> bytes" where
  "resizePassword data announced =
     (if announced \<noteq> 0 \<and> unat announced < length data then take (unat announced) data else data)"

definition accountInput :: "client_session \<Rightarrow> string \<Rightarrow> crypt_mode \<Rightarrow> bytes \<Rightarrow> auth_input" where
  "accountInput x account mode crypted = \<lparr>in_account = account, in_ip = cs_remoteIp x,
     in_cryptedPassword = crypted, in_cryptMode = mode, in_aesKey = cs_aesKey x\<rparr>"

definition onAccount :: "nat \<Rightarrow> u16 \<Rightarrow> string \<Rightarrow> bytes \<Rightarrow> u32 \<Rightarrow> auth_state \<Rightarrow> auth_state option" where
  "onAccount s ident account password passwordSize st = do {
     x \<leftarrow> clientSessions st s;
     if cs_dbQuery x \<noteq> [] then
       Some (emit (ToClient s (AC_RESULT ident TS_RESULT_CLIENT_SIDE_ERROR 0)) st)
     else
       let rsa = ver_ge (cs_packetVersion x) EPIC_8_1_1_RSA;
           crypted = (if ver_ge (cs_packetVersion x) EPIC_9_6_7 then resizePassword password passwordSize
                      else if rsa then convertToDataArray password (int (length password)) (sint passwordSize)
                      else password)
       in modClientSession s (\<lambda>y. y\<lparr>cs_dbQuery :=
            [accountInput x account (if rsa then EM_AES else EM_DES) crypted]\<rparr>) st }"

definition onImbcAccount :: "auth_config \<Rightarrow> nat \<Rightarrow> string \<Rightarrow> bytes \<Rightarrow> u32 \<Rightarrow> auth_state \<Rightarrow> auth_state option" where
  "onImbcAccount cfg s account password passwordSize st = do {
     x \<leftarrow> clientSessions st s;
     if cs_dbQuery x \<noteq> [] then
       Some (emit (ToClient s (AC_RESULT TS_CA_ACCOUNT_ID TS_RESULT_CLIENT_SIDE_ERROR 0)) st)
     else
       let rsa = ver_ge (cs_packetVersion x) EPIC_8_1_1_RSA;
           crypted = (if rsa then resizePassword password passwordSize else password)
       in if \<not> cfg_enableImbc cfg then
            Some (emit (ToClient s (AC_RESULT TS_CA_ACCOUNT_ID TS_RESULT_ACCESS_DENIED 0)) st)
          else modClientSession s (\<lambda>y. y\<lparr>cs_dbQuery :=
            [accountInput x account (if rsa then EM_AES else EM_None) crypted]\<rparr>) st }"

section \<open>The result of the account query\<close>

definition loginResult :: "nat \<Rightarrow> u16 \<Rightarrow> u32 \<Rightarrow> out" where
  "loginResult s result flag = ToClient s (AC_RESULT TS_CA_ACCOUNT_ID result flag)"

text \<open>The account is in use: its lobby session is aborted, or its game server is asked to kick it, or, when
  it had only chosen a server, it is forgotten.\<close>

definition dropOldClient :: "auth_config \<Rightarrow> u32 \<Rightarrow> string \<Rightarrow> string \<Rightarrow> nat \<Rightarrow> auth_state \<Rightarrow> auth_state option" where
  "dropOldClient cfg accountId account ip old st = do {
     c \<leftarrow> clientHeap st old;
     (case cd_server c of
        None \<Rightarrow> do {
          let st = emit (LogMsg LM_ACCOUNT_DUPLICATE_AUTH_LOGIN
            [uint accountId, 0, 0, 0, 0, 0, 0, 0, 0, 0, 0] [account, ip, cd_ip c, []]) st;
          s \<leftarrow> cd_client c;
          _ \<leftarrow> clientSessions st s;
          Some (emit (AbortClient s) st) }
      | Some g \<Rightarrow> do {
          d \<leftarrow> gameHeap st g;
          let st = emit (LogMsg LM_ACCOUNT_DUPLICATE_GAME_LOGIN
            [uint accountId, 0, 0, uint (gd_serverIdx d), 0, 0, 0, 0, 0, 0, 0] [account, ip, cd_ip c, []]) st;
          if cd_inGame c then kickClient cfg g old st else removeClient old st }) }"

definition clientAuthResult :: "auth_config \<Rightarrow> nat \<Rightarrow> auth_input \<Rightarrow> auth_output list \<Rightarrow> auth_state \<Rightarrow> auth_state option" where
  "clientAuthResult cfg s input results st = do {
     x \<leftarrow> clientSessions st s;
     (case results of
        [output] \<Rightarrow>
          if \<not> out_ok output \<or> \<not> out_auth_ok output then Some (emit (loginResult s TS_RESULT_NOT_EXIST 0) st)
          else if out_block output then Some (emit (loginResult s TS_RESULT_ACCESS_DENIED 0) st)
          else if cs_clientData x \<noteq> None then
            Some (emit (loginResult s TS_RESULT_CLIENT_SIDE_ERROR 0) st)
          else do {
            (r, st) \<leftarrow> tryAddClient cfg (Some s) (in_account input) (out_account_id output)
              (out_age output) (out_event_code output) (out_pcbang output) (cs_remoteIp x) st;
            (case r of
               Existing old \<Rightarrow> do {
                 st \<leftarrow> dropOldClient cfg (out_account_id output) (in_account input) (cs_remoteIp x) old st;
                 Some (emit (loginResult s TS_RESULT_ALREADY_EXIST 0) st) }
             | Added p \<Rightarrow> do {
                 st \<leftarrow> modClientSession s (\<lambda>y. y\<lparr>cs_clientData := Some p,
                   cs_lastLoginServerId := out_last_login_server_idx output,
                   cs_serverIdxOffset := out_server_idx_offset output\<rparr>) st;
                 Some (emit (loginResult s 0 1) st) }) }
      | _ \<Rightarrow> Some (emit (loginResult s TS_RESULT_NOT_EXIST 0) st)) }"

text \<open>The query leaves the pending list before its callback runs.\<close>

definition accountQueryDone :: "auth_config \<Rightarrow> nat \<Rightarrow> auth_output list \<Rightarrow> auth_state \<Rightarrow> auth_state option" where
  "accountQueryDone cfg s results st = do {
     x \<leftarrow> clientSessions st s;
     (case cs_dbQuery x of
        [] \<Rightarrow> None
      | input # rest \<Rightarrow> do {
          st \<leftarrow> modClientSession s (\<lambda>y. y\<lparr>cs_dbQuery := rest\<rparr>) st;
          clientAuthResult cfg s input results st }) }"

section \<open>Server list and selection\<close>

definition userRatio :: "u32 \<Rightarrow> u32 \<Rightarrow> u16 option" where
  "userRatio players maxPlayers =
     (if maxPlayers = 0 then None
      else let r = players * 100 div maxPlayers in Some (if r > 100 then 100 else ucast r))"

definition serverVisible :: "auth_config \<Rightarrow> client_session \<Rightarrow> game_data \<Rightarrow> bool" where
  "serverVisible cfg x d \<longleftrightarrow>
     \<not> ucast (gd_serverIdx d) > cfg_maxPublicServerIdx cfg + cs_serverIdxOffset x \<and> isReady d"

fun serverListLoop :: "auth_config \<Rightarrow> client_session \<Rightarrow> (u16, nat) umap \<Rightarrow> auth_state \<Rightarrow> server_info list option" where
  "serverListLoop cfg x [] st = Some []"
| "serverListLoop cfg x ((i, g) # es) st = do {
     d \<leftarrow> gameHeap st g;
     if serverVisible cfg x d then do {
       ratio \<leftarrow> userRatio (gd_playerCount d) (cfg_maxPlayers cfg);
       rest \<leftarrow> serverListLoop cfg x es st;
       Some (\<lparr>sv_idx = gd_serverIdx d, sv_name = gd_serverName d, sv_isAdult = gd_isAdult d,
         sv_screenshotUrl = gd_screenshotUrl d, sv_ip = gd_serverIp d, sv_port = gd_serverPort d,
         sv_userRatio = ratio\<rparr> # rest) }
     else serverListLoop cfg x es st }"

definition onServerList :: "auth_config \<Rightarrow> nat \<Rightarrow> auth_state \<Rightarrow> auth_state option" where
  "onServerList cfg s st = do {
     x \<leftarrow> clientSessions st s;
     (case cs_clientData x of
        None \<Rightarrow> Some (emit (AbortClient s) st)
      | Some _ \<Rightarrow> do {
          infos \<leftarrow> serverListLoop cfg x (servers st) st;
          Some (emit (ToClient s (AC_SERVER_LIST (cs_lastLoginServerId x) infos)) st) }) }"

text \<open>The index of the packet has 32 bits, the key of the server map 16. \<open>aes key iv text\<close> is AES-128-CBC.\<close>

definition onSelectServer :: "(bytes \<Rightarrow> bytes \<Rightarrow> bytes \<Rightarrow> bytes option) \<Rightarrow> u64 list \<Rightarrow> nat \<Rightarrow> u32 \<Rightarrow>
    auth_state \<Rightarrow> auth_state option" where
  "onSelectServer aes rands s serverIdx st = do {
     x \<leftarrow> clientSessions st s;
     (case cs_clientData x of
        None \<Rightarrow> Some (emit (AbortClient s) st)
      | Some p \<Rightarrow>
          (case um_find (servers st) (ucast serverIdx) of
             None \<Rightarrow> Some (emit (AbortClient s) st)
           | Some g \<Rightarrow> do {
               let oneTimePassword = prod_list (take 4 rands);
               c \<leftarrow> clientHeap st p;
               let st = emit (UpdateLastServerIdx (cd_accountId c) (ucast serverIdx)) st;
               st \<leftarrow> switchClientToServer p g oneTimePassword st;
               st \<leftarrow> modClientSession s (\<lambda>y. y\<lparr>cs_clientData := None\<rparr>) st;
               if ver_ge (cs_packetVersion x) EPIC_8_1_1_RSA then
                 (case aes (take 16 (cs_aesKey x)) (drop 16 (cs_aesKey x)) (to_le 8 oneTimePassword) of
                    Some block \<Rightarrow> Some (emit (ToClient s (AC_SELECT_SERVER (EncryptedKey block))) st)
                  | None \<Rightarrow> Some (emit (AbortClient s) st))
               else Some (emit (ToClient s (AC_SELECT_SERVER (OneTimeKey oneTimePassword))) st) })) }"

section \<open>Dispatch\<close>

text \<open>The external functions a client packet may reach.\<close>

record client_env =
  env_readKey :: "bytes \<Rightarrow> bool"
  env_rsa :: "bytes \<Rightarrow> bytes \<Rightarrow> bytes option"
  env_aes :: "bytes \<Rightarrow> bytes \<Rightarrow> bytes \<Rightarrow> bytes option"
  env_buildDate :: u32

fun clientPacketHandler :: "auth_config \<Rightarrow> client_env \<Rightarrow> bytes \<Rightarrow> u64 list \<Rightarrow> nat \<Rightarrow> u16 \<Rightarrow> client_packet \<Rightarrow>
    auth_state \<Rightarrow> auth_state option" where
  "clientPacketHandler cfg env key rands s ident (CA_VERSION v) st = onVersion (env_buildDate env) s ident v st"
| "clientPacketHandler cfg env key rands s ident (CA_RSA_PUBLIC_KEY k) st =
     onRsaKey (env_readKey env) (env_rsa env) key s k st"
| "clientPacketHandler cfg env key rands s ident (CA_ACCOUNT a p n) st = onAccount s ident a p n st"
| "clientPacketHandler cfg env key rands s ident (CA_IMBC_ACCOUNT a p n) st = onImbcAccount cfg s a p n st"
| "clientPacketHandler cfg env key rands s ident CA_SERVER_LIST st = onServerList cfg s st"
| "clientPacketHandler cfg env key rands s ident (CA_SELECT_SERVER i) st =
     onSelectServer (env_aes env) rands s i st"
| "clientPacketHandler cfg env key rands s ident CA_IGNORED st = Some st"
| "clientPacketHandler cfg env key rands s ident CA_INVALID st = Some (emit (AbortClient s) st)"

definition clientPacketReceived :: "auth_config \<Rightarrow> client_env \<Rightarrow> bytes \<Rightarrow> u64 list \<Rightarrow> nat \<Rightarrow> u16 \<Rightarrow> u32 \<Rightarrow>
    client_packet \<Rightarrow> auth_state \<Rightarrow> auth_state option" where
  "clientPacketReceived cfg env key rands s ident psize packet st = do {
     st \<leftarrow> modClientSession s (preProcessPacketReceived ident psize) st;
     clientPacketHandler cfg env key rands s ident packet st }"

end
