(* ===== verification/AuthInv.thy ===== *)
theory AuthInv
  imports AuthClient
begin

text \<open>
  The invariant of the authentication server and its preservation by the operations of the two
  registries: the account maps hold exactly the live clients, every client is owned by exactly one lobby
  session or one game server, sessions and game data point at each other, the player counts are right,
  and addresses are fresh.
\<close>

section \<open>The invariant\<close>

definition reg_inv :: "auth_state \<Rightarrow> bool" where
  "reg_inv st \<longleftrightarrow>
     um_wf (connectedClients st) \<and> um_wf (connectedClientsByName st) \<and> um_wf (servers st) \<and>
     (\<forall>i p. um_find (connectedClients st) i = Some p \<longleftrightarrow>
        (\<exists>c. clientHeap st p = Some c \<and> cd_accountId c = i)) \<and>
     (\<forall>n p. um_find (connectedClientsByName st) n = Some p \<longleftrightarrow>
        (\<exists>c. clientHeap st p = Some c \<and> toLower (cd_account c) = n)) \<and>
     (\<forall>i g. um_find (servers st) i = Some g \<longleftrightarrow>
        (\<exists>d. gameHeap st g = Some d \<and> gd_serverIdx d = i))"

text \<open>The comment in ClientData.h says: never both \<open>client\<close> and \<open>server\<close> null.\<close>

definition own_inv :: "auth_state \<Rightarrow> bool" where
  "own_inv st \<longleftrightarrow>
     (\<forall>p c. clientHeap st p = Some c \<longrightarrow>
        (\<forall>s. cd_client c = Some s \<longrightarrow> cd_server c = None \<and> \<not> cd_inGame c \<and>
             (\<exists>x. clientSessions st s = Some x \<and> cs_clientData x = Some p)) \<and>
        (cd_client c = None \<longrightarrow> (\<exists>g d. cd_server c = Some g \<and> gameHeap st g = Some d))) \<and>
     (\<forall>s x p. clientSessions st s = Some x \<and> cs_clientData x = Some p \<longrightarrow>
        (\<exists>c. clientHeap st p = Some c \<and> cd_client c = Some s))"

definition link_inv :: "auth_state \<Rightarrow> bool" where
  "link_inv st \<longleftrightarrow>
     (\<forall>s g. (\<exists>x. gameSessions st s = Some x \<and> gs_gameData x = Some g) \<longleftrightarrow>
            (\<exists>d. gameHeap st g = Some d \<and> gd_session d = Some s))"

definition inGameOf :: "auth_state \<Rightarrow> nat \<Rightarrow> nat set" where
  "inGameOf st g = {p. \<exists>c. clientHeap st p = Some c \<and> cd_server c = Some g \<and> cd_inGame c}"

definition count_inv :: "auth_state \<Rightarrow> bool" where
  "count_inv st \<longleftrightarrow>
     (\<forall>g d. gameHeap st g = Some d \<longrightarrow> gd_playerCount d = of_nat (card (inGameOf st g)))"

definition addr_inv :: "auth_state \<Rightarrow> bool" where
  "addr_inv st \<longleftrightarrow>
     (\<forall>p \<ge> nextAddr st. clientHeap st p = None \<and> gameHeap st p = None \<and>
        clientSessions st p = None \<and> gameSessions st p = None)"

definition len_inv :: "auth_state \<Rightarrow> bool" where
  "len_inv st \<longleftrightarrow>
     (\<forall>p c. clientHeap st p = Some c \<longrightarrow> length (cd_account c) < 61) \<and>
     (\<forall>s x. clientSessions st s = Some x \<longrightarrow> (\<forall>q \<in> set (cs_dbQuery x). length (in_account q) < 61)) \<and>
     (\<forall>s x. gameSessions st s = Some x \<longrightarrow> (\<forall>q \<in> set (gs_queries x). length (si_account q) < 61))"

definition auth_inv :: "auth_state \<Rightarrow> bool" where
  "auth_inv st \<longleftrightarrow> reg_inv st \<and> own_inv st \<and> link_inv st \<and> count_inv st \<and> addr_inv st \<and> len_inv st"

lemmas inv_defs = reg_inv_def own_inv_def link_inv_def count_inv_def addr_inv_def len_inv_def inGameOf_def

lemma auth_invI:
  "reg_inv st \<Longrightarrow> own_inv st \<Longrightarrow> link_inv st \<Longrightarrow> count_inv st \<Longrightarrow> addr_inv st \<Longrightarrow> len_inv st \<Longrightarrow> auth_inv st"
  by (simp add: auth_inv_def)

lemma auth_invD:
  assumes "auth_inv st"
  shows "reg_inv st" "own_inv st" "link_inv st" "count_inv st" "addr_inv st" "len_inv st"
  using assms by (simp_all add: auth_inv_def)

lemma auth_inv_init: "auth_inv auth_init"
  by (simp add: auth_inv_def inv_defs auth_init_def)

lemma emit_simps [simp]:
  "clientHeap (emit x st) = clientHeap st" "gameHeap (emit x st) = gameHeap st"
  "clientSessions (emit x st) = clientSessions st" "gameSessions (emit x st) = gameSessions st"
  "connectedClients (emit x st) = connectedClients st"
  "connectedClientsByName (emit x st) = connectedClientsByName st"
  "servers (emit x st) = servers st" "nextAddr (emit x st) = nextAddr st"
  "sent (emit x st) = sent st @ [x]"
  by (simp_all add: emit_def)

text \<open>The invariant does not look at \<open>sent\<close>.\<close>

lemma inv_sent_cong:
  assumes "clientHeap st' = clientHeap st" "gameHeap st' = gameHeap st"
    "clientSessions st' = clientSessions st" "gameSessions st' = gameSessions st"
    "connectedClients st' = connectedClients st" "connectedClientsByName st' = connectedClientsByName st"
    "servers st' = servers st" "nextAddr st \<le> nextAddr st'"
  shows "auth_inv st \<Longrightarrow> auth_inv st'"
proof -
  have "reg_inv st' = reg_inv st" by (simp only: reg_inv_def assms)
  moreover have "own_inv st' = own_inv st" by (simp only: own_inv_def assms)
  moreover have "link_inv st' = link_inv st" by (simp only: link_inv_def assms)
  moreover have "count_inv st' = count_inv st" by (simp only: count_inv_def inGameOf_def assms)
  moreover have "len_inv st' = len_inv st" by (simp only: len_inv_def assms)
  moreover have "addr_inv st \<Longrightarrow> addr_inv st'"
    using order_trans [OF assms(8)] by (auto simp: addr_inv_def assms(1-7))
  ultimately show "auth_inv st \<Longrightarrow> auth_inv st'" by (simp add: auth_inv_def)
qed

lemma auth_inv_emit [simp]: "auth_inv (emit x st) \<longleftrightarrow> auth_inv st"
  by (rule iffI; rule inv_sent_cong) simp_all

section \<open>Lookups\<close>

lemma find_client_inv:
  "reg_inv st \<Longrightarrow> um_find (connectedClients st) i = Some p \<Longrightarrow> \<exists>c. clientHeap st p = Some c \<and> cd_accountId c = i"
  by (simp add: reg_inv_def)

lemma find_name_inv:
  "reg_inv st \<Longrightarrow> um_find (connectedClientsByName st) n = Some p \<Longrightarrow>
    \<exists>c. clientHeap st p = Some c \<and> toLower (cd_account c) = n"
  by (simp add: reg_inv_def)

lemma find_server_inv:
  "reg_inv st \<Longrightarrow> um_find (servers st) i = Some g \<Longrightarrow> \<exists>d. gameHeap st g = Some d \<and> gd_serverIdx d = i"
  by (simp add: reg_inv_def)

lemma client_find_inv:
  "reg_inv st \<Longrightarrow> clientHeap st p = Some c \<Longrightarrow>
    um_find (connectedClients st) (cd_accountId c) = Some p \<and>
    um_find (connectedClientsByName st) (toLower (cd_account c)) = Some p"
  by (simp add: reg_inv_def)

lemma session_game_inv:
  "link_inv st \<Longrightarrow> gameSessions st s = Some x \<Longrightarrow> gs_gameData x = Some g \<Longrightarrow>
    \<exists>d. gameHeap st g = Some d \<and> gd_session d = Some s"
  unfolding link_inv_def by blast

lemma game_session_inv:
  "link_inv st \<Longrightarrow> gameHeap st g = Some d \<Longrightarrow> gd_session d = Some s \<Longrightarrow>
    \<exists>x. gameSessions st s = Some x \<and> gs_gameData x = Some g"
  unfolding link_inv_def by blast

lemma finite_inGame:
  assumes "addr_inv st"
  shows "finite (inGameOf st g)"
proof (rule finite_subset)
  show "inGameOf st g \<subseteq> {..< nextAddr st}"
  proof
    fix p
    assume "p \<in> inGameOf st g"
    then have "clientHeap st p \<noteq> None" by (auto simp: inGameOf_def)
    with assms show "p \<in> {..< nextAddr st}" by (auto simp: addr_inv_def not_le [symmetric])
  qed
qed simp

section \<open>Changes the invariant does not see\<close>

text \<open>Equal game data but for the player counts.\<close>

definition stripCount :: "game_data \<Rightarrow> game_data" where
  "stripCount d = d\<lparr>gd_playerCount := 0\<rparr>"

definition sameGames :: "(nat \<Rightarrow> game_data option) \<Rightarrow> (nat \<Rightarrow> game_data option) \<Rightarrow> bool" where
  "sameGames G H \<longleftrightarrow> (\<forall>g. map_option stripCount (G g) = map_option stripCount (H g))"

lemma sameGames_refl [simp]: "sameGames G G"
  by (simp add: sameGames_def)

lemma sameGames_trans: "sameGames G H \<Longrightarrow> sameGames H K \<Longrightarrow> sameGames G K"
  by (simp add: sameGames_def)

lemma stripCount_eqD:
  assumes "stripCount d = stripCount e"
  shows "gd_session d = gd_session e \<and> gd_serverIdx d = gd_serverIdx e \<and> gd_serverName d = gd_serverName e \<and>
    gd_ready d = gd_ready e \<and> gd_serverIp d = gd_serverIp e \<and> gd_serverPort d = gd_serverPort e"
proof -
  have "gd_session (stripCount d) = gd_session (stripCount e)" "gd_serverIdx (stripCount d) = gd_serverIdx (stripCount e)"
    "gd_serverName (stripCount d) = gd_serverName (stripCount e)" "gd_ready (stripCount d) = gd_ready (stripCount e)"
    "gd_serverIp (stripCount d) = gd_serverIp (stripCount e)" "gd_serverPort (stripCount d) = gd_serverPort (stripCount e)"
    using assms by simp_all
  then show ?thesis by (simp add: stripCount_def)
qed

lemma sameGames_Some:
  assumes "sameGames G H" "G g = Some d"
  shows "\<exists>e. H g = Some e \<and> stripCount e = stripCount d"
  using assms unfolding sameGames_def by (metis map_option_eq_Some)

lemma sameGames_sym: "sameGames G H \<Longrightarrow> sameGames H G"
  by (simp add: sameGames_def)

lemma sameGames_ex:
  assumes "sameGames G H" and P: "\<And>d e. stripCount d = stripCount e \<Longrightarrow> P d = P e"
  shows "(\<exists>d. G g = Some d \<and> P d) \<longleftrightarrow> (\<exists>d. H g = Some d \<and> P d)"
proof -
  have "\<exists>e. H' g = Some e \<and> P e" if s: "sameGames G' H'" and g: "G' g = Some d" and p: "P d" for G' H' d
  proof -
    obtain e where e: "H' g = Some e" and eq: "stripCount e = stripCount d"
      using sameGames_Some [OF s g] by blast
    from P [OF eq] e p show ?thesis by auto
  qed
  note half = this
  show ?thesis
  proof
    assume "\<exists>d. G g = Some d \<and> P d"
    then show "\<exists>d. H g = Some d \<and> P d" using half [OF assms(1)] by auto
  next
    assume "\<exists>d. H g = Some d \<and> P d"
    then show "\<exists>d. G g = Some d \<and> P d" using half [OF sameGames_sym [OF assms(1)]] by auto
  qed
qed

lemma sameGames_session:
  "sameGames G H \<Longrightarrow> (\<exists>d. G g = Some d \<and> gd_session d = s) \<longleftrightarrow> (\<exists>d. H g = Some d \<and> gd_session d = s)"
  by (rule sameGames_ex) (auto dest: stripCount_eqD)

lemma sameGames_idx:
  "sameGames G H \<Longrightarrow> (\<exists>d. G g = Some d \<and> gd_serverIdx d = i) \<longleftrightarrow> (\<exists>d. H g = Some d \<and> gd_serverIdx d = i)"
  by (rule sameGames_ex) (auto dest: stripCount_eqD)

lemma sameGames_None: "sameGames G H \<Longrightarrow> G g = None \<longleftrightarrow> H g = None"
  unfolding sameGames_def by (metis map_option_is_None)

end
