(* ===== verification/AuthOps.thy ===== *)
theory AuthOps
  imports AuthInv
begin

text \<open>
  What each operation of the two registries does in a state that satisfies the invariant: it is defined,
  and what it leaves satisfies the invariant again.
\<close>

section \<open>Deleting and removing clients\<close>

lemma inGameOf_delete:
  "inGameOf (st\<lparr>clientHeap := (clientHeap st)(p := None)\<rparr>) g = inGameOf st g - {p}"
  by (auto simp: inGameOf_def)

lemma stripCount_count [simp]: "stripCount (d\<lparr>gd_playerCount := n\<rparr>) = stripCount d"
  by (simp add: stripCount_def)

lemma sameGames_upd:
  "G g = Some d \<Longrightarrow> stripCount e = stripCount d \<Longrightarrow> sameGames (G(g \<mapsto> e)) G"
  by (auto simp: sameGames_def)

lemma count_invD:
  "count_inv st \<Longrightarrow> gameHeap st g = Some d \<Longrightarrow> gd_playerCount d = of_nat (card (inGameOf st g))"
  by (simp add: count_inv_def)

lemma reg_unique:
  "reg_inv st \<Longrightarrow> clientHeap st p = Some c \<Longrightarrow> clientHeap st q = Some e \<Longrightarrow> cd_accountId e = cd_accountId c \<Longrightarrow> q = p"
  using client_find_inv [of st p c] client_find_inv [of st q e] by simp

lemma reg_unique_name:
  "reg_inv st \<Longrightarrow> clientHeap st p = Some c \<Longrightarrow> clientHeap st q = Some e \<Longrightarrow>
    toLower (cd_account e) = toLower (cd_account c) \<Longrightarrow> q = p"
  using client_find_inv [of st p c] client_find_inv [of st q e] by simp

lemma own_lobby:
  "own_inv st \<Longrightarrow> clientHeap st p = Some c \<Longrightarrow> cd_client c = Some s \<Longrightarrow>
    cd_server c = None \<and> \<not> cd_inGame c \<and> (\<exists>x. clientSessions st s = Some x \<and> cs_clientData x = Some p)"
  by (simp add: own_inv_def)

lemma own_server:
  "own_inv st \<Longrightarrow> clientHeap st p = Some c \<Longrightarrow> cd_client c = None \<Longrightarrow>
    \<exists>g d. cd_server c = Some g \<and> gameHeap st g = Some d"
  by (simp add: own_inv_def)

lemma own_session:
  "own_inv st \<Longrightarrow> clientSessions st s = Some x \<Longrightarrow> cs_clientData x = Some p \<Longrightarrow>
    \<exists>c. clientHeap st p = Some c \<and> cd_client c = Some s"
  by (simp add: own_inv_def)

lemma own_invI:
  assumes "\<And>p c s. clientHeap st p = Some c \<Longrightarrow> cd_client c = Some s \<Longrightarrow>
      cd_server c = None \<and> \<not> cd_inGame c \<and> (\<exists>x. clientSessions st s = Some x \<and> cs_clientData x = Some p)"
    and "\<And>p c. clientHeap st p = Some c \<Longrightarrow> cd_client c = None \<Longrightarrow>
      \<exists>g d. cd_server c = Some g \<and> gameHeap st g = Some d"
    and "\<And>s x p. clientSessions st s = Some x \<Longrightarrow> cs_clientData x = Some p \<Longrightarrow>
      \<exists>c. clientHeap st p = Some c \<and> cd_client c = Some s"
  shows "own_inv st"
  using assms unfolding own_inv_def by blast

text \<open>Only the heap entry goes away; the count of its server follows.\<close>

lemma deleteClient_ok:
  assumes "addr_inv st" "count_inv st" "clientHeap st p = Some c"
    and "\<And>g. cd_server c = Some g \<Longrightarrow> gameHeap st g \<noteq> None"
  shows "\<exists>G. deleteClient p st = Some (st\<lparr>gameHeap := G, clientHeap := (clientHeap st)(p := None)\<rparr>) \<and>
    sameGames G (gameHeap st) \<and>
    count_inv (st\<lparr>gameHeap := G, clientHeap := (clientHeap st)(p := None)\<rparr>)"
proof (cases "\<exists>g. cd_server c = Some g \<and> cd_inGame c")
  case False
  then have eq: "deleteClient p st = Some (st\<lparr>clientHeap := (clientHeap st)(p := None)\<rparr>)"
    using assms(3) by (auto simp: deleteClient_def split: option.splits)
  have "inGameOf st g - {p} = inGameOf st g" for g
    using False assms(3) by (auto simp: inGameOf_def)
  then have "count_inv (st\<lparr>clientHeap := (clientHeap st)(p := None)\<rparr>)"
    using assms(2) by (simp add: count_inv_def inGameOf_delete)
  with eq show ?thesis by (intro exI [of _ "gameHeap st"]) simp
next
  case True
  then obtain g where g: "cd_server c = Some g" "cd_inGame c" by blast
  then obtain d where d: "gameHeap st g = Some d" using assms(4) by blast
  let ?G = "(gameHeap st)(g \<mapsto> d\<lparr>gd_playerCount := gd_playerCount d - 1\<rparr>)"
  let ?st = "st\<lparr>gameHeap := ?G, clientHeap := (clientHeap st)(p := None)\<rparr>"
  have eq: "deleteClient p st = Some ?st"
    using assms(3) g d by (simp add: deleteClient_def decPlayerCount_def modGame_def)
  have ing: "inGameOf ?st h = inGameOf st h - {p}" for h
    by (auto simp: inGameOf_def)
  have mem: "p \<in> inGameOf st h \<longleftrightarrow> h = g" for h
    using g assms(3) by (auto simp: inGameOf_def)
  have "gd_playerCount e = of_nat (card (inGameOf ?st h))" if "gameHeap ?st h = Some e" for h e
  proof (cases "h = g")
    case True
    have "card (inGameOf st g) = Suc (card (inGameOf st g - {p}))"
      using mem [of g] by (intro card.remove finite_inGame [OF assms(1)]) simp
    then have cnt: "gd_playerCount d - 1 = of_nat (card (inGameOf st g - {p}))"
      using count_invD [OF assms(2) d] by simp
    have "e = d\<lparr>gd_playerCount := gd_playerCount d - 1\<rparr>" using that True by simp
    then have "gd_playerCount e = gd_playerCount d - 1" by simp
    then show ?thesis unfolding True ing using cnt by (rule trans)
  next
    case False
    then have same: "inGameOf ?st h = inGameOf st h" unfolding ing using mem [of h] by blast
    have "gameHeap st h = Some e" using that False by simp
    then show ?thesis unfolding same by (rule count_invD [OF assms(2)])
  qed
  then have "count_inv ?st" unfolding count_inv_def by blast
  moreover have "sameGames ?G (gameHeap st)" using d by (intro sameGames_upd) simp_all
  ultimately show ?thesis using eq by blast
qed

text \<open>\<open>dropped st p c G\<close> is the state without the client at \<open>p\<close>.\<close>

definition dropped :: "auth_state \<Rightarrow> nat \<Rightarrow> client_data \<Rightarrow> (nat \<Rightarrow> game_data option) \<Rightarrow> auth_state" where
  "dropped st p c G = st\<lparr>
     connectedClients := um_erase (cd_accountId c) (connectedClients st),
     connectedClientsByName := um_erase (toLower (cd_account c)) (connectedClientsByName st),
     gameHeap := G, clientHeap := (clientHeap st)(p := None)\<rparr>"

lemma dropped_simps [simp]:
  "clientHeap (dropped st p c G) = (clientHeap st)(p := None)" "gameHeap (dropped st p c G) = G"
  "clientSessions (dropped st p c G) = clientSessions st" "gameSessions (dropped st p c G) = gameSessions st"
  "servers (dropped st p c G) = servers st" "nextAddr (dropped st p c G) = nextAddr st"
  "sent (dropped st p c G) = sent st"
  "connectedClients (dropped st p c G) = um_erase (cd_accountId c) (connectedClients st)"
  "connectedClientsByName (dropped st p c G) = um_erase (toLower (cd_account c)) (connectedClientsByName st)"
  by (simp_all add: dropped_def)

lemma dropped_reg_inv:
  assumes "reg_inv st" "clientHeap st p = Some c" "sameGames G (gameHeap st)"
  shows "reg_inv (dropped st p c G)"
proof -
  have srv: "\<forall>i g. um_find (servers st) i = Some g \<longleftrightarrow> (\<exists>d. G g = Some d \<and> gd_serverIdx d = i)"
    using assms(1) sameGames_idx [OF assms(3)] by (simp add: reg_inv_def)
  have wf: "um_wf (connectedClients st)" "um_wf (connectedClientsByName st)" "um_wf (servers st)"
    using assms(1) by (simp_all add: reg_inv_def)
  have ids: "(if i = cd_accountId c then None else um_find (connectedClients st) i) = Some q \<longleftrightarrow>
      q \<noteq> p \<and> (\<exists>e. clientHeap st q = Some e \<and> cd_accountId e = i)" for i q
  proof -
    have "um_find (connectedClients st) i = Some q \<longleftrightarrow> (\<exists>e. clientHeap st q = Some e \<and> cd_accountId e = i)"
      using assms(1) by (simp add: reg_inv_def)
    then show ?thesis using assms(2) reg_unique [OF assms(1,2), of q] by auto
  qed
  have nms: "(if n = toLower (cd_account c) then None else um_find (connectedClientsByName st) n) = Some q \<longleftrightarrow>
      q \<noteq> p \<and> (\<exists>e. clientHeap st q = Some e \<and> toLower (cd_account e) = n)" for n q
  proof -
    have "um_find (connectedClientsByName st) n = Some q \<longleftrightarrow>
        (\<exists>e. clientHeap st q = Some e \<and> toLower (cd_account e) = n)"
      using assms(1) by (simp add: reg_inv_def)
    then show ?thesis using assms(2) reg_unique_name [OF assms(1,2), of q] by auto
  qed
  show ?thesis
    unfolding reg_inv_def dropped_simps um.find_erase ids nms
    using srv wf by (auto intro: um.wf_erase)
qed

lemma dropped_rest:
  assumes "link_inv st" "addr_inv st" "len_inv st" "sameGames G (gameHeap st)"
  shows "link_inv (dropped st p c G)" "addr_inv (dropped st p c G)" "len_inv (dropped st p c G)"
proof -
  show "link_inv (dropped st p c G)"
    using assms(1) sameGames_session [OF assms(4)] by (simp add: link_inv_def)
  show "addr_inv (dropped st p c G)"
    using assms(2) sameGames_None [OF assms(4)] by (simp add: addr_inv_def)
  show "len_inv (dropped st p c G)"
    using assms(3) by (auto simp: len_inv_def split: if_splits)
qed

lemma dropped_own_server:
  assumes "own_inv st" "clientHeap st p = Some c" "cd_client c = None" "sameGames G (gameHeap st)"
  shows "own_inv (dropped st p c G)"
proof -
  have "(\<exists>d. G g = Some d) \<longleftrightarrow> (\<exists>d. gameHeap st g = Some d)" for g
    using sameGames_None [OF assms(4), of g] by (metis not_Some_eq)
  note alive = this
  show ?thesis
  proof (rule own_invI; unfold dropped_simps)
    fix q e s
    assume "((clientHeap st)(p := None)) q = Some e" "cd_client e = Some s"
    then show "cd_server e = None \<and> \<not> cd_inGame e \<and> (\<exists>x. clientSessions st s = Some x \<and> cs_clientData x = Some q)"
      using own_lobby [OF assms(1)] by (auto split: if_splits)
  next
    fix q e
    assume "((clientHeap st)(p := None)) q = Some e" "cd_client e = None"
    then show "\<exists>g d. cd_server e = Some g \<and> G g = Some d"
      using own_server [OF assms(1)] alive by (auto split: if_splits)
  next
    fix s x q
    assume "clientSessions st s = Some x" "cs_clientData x = Some q"
    then show "\<exists>e. ((clientHeap st)(p := None)) q = Some e \<and> cd_client e = Some s"
      using own_session [OF assms(1)] assms(2,3) by fastforce
  qed
qed

text \<open>The client's server, if it has one, is alive.\<close>

lemma server_alive:
  "own_inv st \<Longrightarrow> clientHeap st p = Some c \<Longrightarrow> cd_server c = Some g \<Longrightarrow> gameHeap st g \<noteq> None"
  unfolding own_inv_def by (cases "cd_client c") force+

lemma erase_both_ok:
  assumes "auth_inv st" "clientHeap st p = Some c"
  shows "\<exists>G. deleteClient p (st\<lparr>
        connectedClients := um_erase (cd_accountId c) (connectedClients st),
        connectedClientsByName := um_erase (toLower (cd_account c)) (connectedClientsByName st)\<rparr>) =
      Some (dropped st p c G) \<and>
    sameGames G (gameHeap st) \<and> reg_inv (dropped st p c G) \<and> link_inv (dropped st p c G) \<and>
    count_inv (dropped st p c G) \<and> addr_inv (dropped st p c G) \<and> len_inv (dropped st p c G) \<and>
    (cd_client c = None \<longrightarrow> auth_inv (dropped st p c G))"
proof -
  note inv = auth_invD [OF assms(1)]
  let ?st = "st\<lparr>connectedClients := um_erase (cd_accountId c) (connectedClients st),
        connectedClientsByName := um_erase (toLower (cd_account c)) (connectedClientsByName st)\<rparr>"
  have "addr_inv ?st" "count_inv ?st" "clientHeap ?st p = Some c"
    "\<And>g. cd_server c = Some g \<Longrightarrow> gameHeap ?st g \<noteq> None"
    using inv assms(2) server_alive [OF inv(2) assms(2)]
    by (simp_all add: addr_inv_def count_inv_def inGameOf_def)
  from deleteClient_ok [OF this] obtain G where
    G: "deleteClient p ?st = Some (dropped st p c G)" "sameGames G (gameHeap st)" "count_inv (dropped st p c G)"
    by (auto simp: dropped_def)
  then show ?thesis
    using dropped_reg_inv [OF inv(1) assms(2)] dropped_rest [OF inv(3,5,6)] dropped_own_server [OF inv(2) assms(2)]
    by (intro exI [of _ G]) (simp add: auth_inv_def)
qed

lemma removeClient_ok:
  assumes "auth_inv st" "clientHeap st p = Some c"
  shows "\<exists>G. removeClient p st = Some (dropped st p c G) \<and>
    sameGames G (gameHeap st) \<and> reg_inv (dropped st p c G) \<and> link_inv (dropped st p c G) \<and>
    count_inv (dropped st p c G) \<and> addr_inv (dropped st p c G) \<and> len_inv (dropped st p c G) \<and>
    (cd_client c = None \<longrightarrow> auth_inv (dropped st p c G))"
  using erase_both_ok [OF assms] client_find_inv [OF auth_invD(1) [OF assms(1)] assms(2)] assms(2)
  by (auto simp: removeClient_def removeClientById_def)

lemma removeClient_game_inv:
  assumes "auth_inv st" "clientHeap st p = Some c" "cd_client c = None"
  shows "\<exists>st'. removeClient p st = Some st' \<and> auth_inv st'"
  using removeClient_ok [OF assms(1,2)] assms(3) by auto

section \<open>Removing all clients of a server\<close>

lemma removeServerLoop_ok:
  assumes "auth_inv st" "distinct (map fst es)"
    and "\<And>i p. (i, p) \<in> set es \<Longrightarrow> um_find (connectedClients st) i = Some p"
  shows "\<exists>st'. removeServerLoop g es st = Some st' \<and> auth_inv st' \<and>
    clientSessions st' = clientSessions st \<and> gameSessions st' = gameSessions st \<and>
    servers st' = servers st \<and> nextAddr st' = nextAddr st \<and> sent st' = sent st \<and>
    sameGames (gameHeap st') (gameHeap st) \<and>
    (\<forall>p. clientHeap st' p = (if \<exists>i c. (i, p) \<in> set es \<and> clientHeap st p = Some c \<and> cd_server c = Some g
           then None else clientHeap st p))"
  using assms
proof (induction es arbitrary: st)
  case Nil
  then show ?case by simp
next
  case (Cons e es)
  obtain i p where e: "e = (i, p)" by force
  have find: "um_find (connectedClients st) i = Some p" using Cons.prems(3) e by simp
  then obtain c where c: "clientHeap st p = Some c" "cd_accountId c = i"
    using find_client_inv [OF auth_invD(1) [OF Cons.prems(1)]] by blast
  have others: "um_find (connectedClients st) j = Some q" if "(j, q) \<in> set es" for j q
    using Cons.prems(3) that by simp
  show ?case
  proof (cases "cd_server c = Some g")
    case False
    have "\<exists>st'. removeServerLoop g es st = Some st' \<and> auth_inv st' \<and>
      clientSessions st' = clientSessions st \<and> gameSessions st' = gameSessions st \<and>
      servers st' = servers st \<and> nextAddr st' = nextAddr st \<and> sent st' = sent st \<and>
      sameGames (gameHeap st') (gameHeap st) \<and>
      (\<forall>p. clientHeap st' p = (if \<exists>i c. (i, p) \<in> set es \<and> clientHeap st p = Some c \<and> cd_server c = Some g
             then None else clientHeap st p))"
      using Cons.IH [OF Cons.prems(1) _ others] Cons.prems(2) by simp
    then show ?thesis using False c e by auto
  next
    case True
    have lobby: "cd_client c = None"
      using own_lobby [OF auth_invD(2) [OF Cons.prems(1)] c(1)] True by fastforce
    obtain G where G: "deleteClient p (st\<lparr>
          connectedClients := um_erase (cd_accountId c) (connectedClients st),
          connectedClientsByName := um_erase (toLower (cd_account c)) (connectedClientsByName st)\<rparr>) =
        Some (dropped st p c G)" "sameGames G (gameHeap st)" "auth_inv (dropped st p c G)"
      using erase_both_ok [OF Cons.prems(1) c(1)] lobby by blast
    let ?st = "dropped st p c G"
    have loop: "removeServerLoop g (e # es) st = removeServerLoop g es ?st"
      using G(1) c True e by simp
    have "um_find (connectedClients ?st) j = Some q" if "(j, q) \<in> set es" for j q
    proof -
      have "j \<noteq> i" using Cons.prems(2) that e by force
      then show ?thesis using others [OF that] c(2) by (simp add: um.find_erase)
    qed
    then obtain st' where st': "removeServerLoop g es ?st = Some st'" "auth_inv st'"
      "clientSessions st' = clientSessions ?st" "gameSessions st' = gameSessions ?st"
      "servers st' = servers ?st" "nextAddr st' = nextAddr ?st" "sent st' = sent ?st"
      "sameGames (gameHeap st') (gameHeap ?st)"
      "\<And>q. clientHeap st' q = (if \<exists>i c. (i, q) \<in> set es \<and> clientHeap ?st q = Some c \<and> cd_server c = Some g
             then None else clientHeap ?st q)"
      using Cons.IH [OF G(3)] Cons.prems(2) by auto
    have "clientHeap st' q = (if \<exists>i c. (i, q) \<in> set (e # es) \<and> clientHeap st q = Some c \<and> cd_server c = Some g
             then None else clientHeap st q)" for q
      using st'(9) [of q] c(1) True e by (cases "q = p") auto
    moreover have "sameGames (gameHeap st') (gameHeap st)"
      using sameGames_trans st'(8) G(2) by simp
    ultimately show ?thesis using st' loop by simp
  qed
qed

lemma removeServer_ok:
  assumes "auth_inv st"
  shows "\<exists>st'. removeServer g st = Some st' \<and> auth_inv st' \<and>
    clientSessions st' = clientSessions st \<and> gameSessions st' = gameSessions st \<and>
    servers st' = servers st \<and> nextAddr st' = nextAddr st \<and> sent st' = sent st \<and>
    sameGames (gameHeap st') (gameHeap st) \<and>
    (\<forall>p. clientHeap st' p = (if \<exists>c. clientHeap st p = Some c \<and> cd_server c = Some g
           then None else clientHeap st p))"
proof -
  note reg = auth_invD(1) [OF assms]
  have wf: "um_wf (connectedClients st)" using reg by (simp add: reg_inv_def)
  have mem: "(i, p) \<in> set (connectedClients st) \<longleftrightarrow> um_find (connectedClients st) i = Some p" for i p
    using um_mem_find [OF wf] um_find_mem by metis
  have "(\<exists>i c. (i, p) \<in> set (connectedClients st) \<and> clientHeap st p = Some c \<and> cd_server c = Some g) \<longleftrightarrow>
      (\<exists>c. clientHeap st p = Some c \<and> cd_server c = Some g)" for p
    using client_find_inv [OF reg] mem by blast
  then show ?thesis
    using removeServerLoop_ok [OF assms, of "connectedClients st" g] wf mem
    by (simp add: removeServer_def um_wf_def um_keys_def)
qed

section \<open>Adding a client\<close>

definition added :: "auth_config \<Rightarrow> nat option \<Rightarrow> string \<Rightarrow> u32 \<Rightarrow> u32 \<Rightarrow> u32 \<Rightarrow> u32 \<Rightarrow> string \<Rightarrow> client_data" where
  "added cfg ci account accountId age eventCode pcBang ip = (newClient cfg ci)\<lparr>cd_account := account,
     cd_accountId := accountId, cd_age := age, cd_eventCode := eventCode, cd_pcBang := pcBang, cd_ip := ip\<rparr>"

lemma added_simps [simp]:
  "cd_account (added cfg ci a i age ev pc ip) = a" "cd_accountId (added cfg ci a i age ev pc ip) = i"
  "cd_client (added cfg ci a i age ev pc ip) = ci" "cd_server (added cfg ci a i age ev pc ip) = None"
  "\<not> cd_inGame (added cfg ci a i age ev pc ip)" "cd_age (added cfg ci a i age ev pc ip) = age"
  "cd_eventCode (added cfg ci a i age ev pc ip) = ev" "cd_pcBang (added cfg ci a i age ev pc ip) = pc"
  "cd_ip (added cfg ci a i age ev pc ip) = ip"
  by (simp_all add: added_def newClient_def)

lemma um_erase_insert: "um_find m k = None \<Longrightarrow> um_erase k (um_insert k v m) = m"
  by (simp add: um_insert_def um_erase_def um_find_def)
     (auto simp: map_of_eq_None_iff filter_id_conv image_iff)

text \<open>\<open>registered st p c\<close> is the state with a new client in the heap and in both maps.\<close>

definition registered :: "auth_state \<Rightarrow> nat \<Rightarrow> client_data \<Rightarrow> auth_state" where
  "registered st p c = st\<lparr>nextAddr := p + 1, clientHeap := (clientHeap st)(p \<mapsto> c),
     connectedClients := um_insert (cd_accountId c) p (connectedClients st),
     connectedClientsByName := um_insert (toLower (cd_account c)) p (connectedClientsByName st)\<rparr>"

lemma registered_simps [simp]:
  "clientHeap (registered st p c) = (clientHeap st)(p \<mapsto> c)" "gameHeap (registered st p c) = gameHeap st"
  "clientSessions (registered st p c) = clientSessions st" "gameSessions (registered st p c) = gameSessions st"
  "servers (registered st p c) = servers st" "nextAddr (registered st p c) = p + 1"
  "sent (registered st p c) = sent st"
  "connectedClients (registered st p c) = um_insert (cd_accountId c) p (connectedClients st)"
  "connectedClientsByName (registered st p c) = um_insert (toLower (cd_account c)) p (connectedClientsByName st)"
  by (simp_all add: registered_def)

lemma tryAddClient_eq:
  assumes "addr_inv st"
  shows "tryAddClient cfg ci account i age ev pc ip st = Some
    (case um_find (connectedClients st) i of
       Some old \<Rightarrow> (Existing old, st\<lparr>nextAddr := nextAddr st + 1\<rparr>)
     | None \<Rightarrow> (case um_find (connectedClientsByName st) (toLower account) of
         Some old \<Rightarrow> (Existing old, st\<lparr>nextAddr := nextAddr st + 1\<rparr>)
       | None \<Rightarrow> (Added (nextAddr st), registered st (nextAddr st) (added cfg ci account i age ev pc ip))))"
proof -
  have "(clientHeap st)(nextAddr st := None) = clientHeap st"
    using assms by (auto simp: addr_inv_def)
  then show ?thesis
    by (auto simp: tryAddClient_def deleteClient_def modClient_def newClient_def um_erase_insert registered_def
      added_def Let_def split: option.splits)
qed

lemma existing_alive:
  assumes "auth_inv st" "tryAddClient cfg ci account i age ev pc ip st = Some (Existing old, st')"
  shows "st' = st\<lparr>nextAddr := nextAddr st + 1\<rparr> \<and> auth_inv st' \<and> (\<exists>c. clientHeap st old = Some c)"
proof -
  have st': "st' = st\<lparr>nextAddr := nextAddr st + 1\<rparr>"
    and old: "um_find (connectedClients st) i = Some old \<or>
      um_find (connectedClientsByName st) (toLower account) = Some old"
    using assms(2) tryAddClient_eq [OF auth_invD(5) [OF assms(1)]] by (auto split: option.splits)
  have "auth_inv st'" unfolding st' by (rule inv_sent_cong [OF _ _ _ _ _ _ _ _ assms(1)]) simp_all
  moreover have "\<exists>c. clientHeap st old = Some c"
    using old find_client_inv [OF auth_invD(1) [OF assms(1)]] find_name_inv [OF auth_invD(1) [OF assms(1)]] by blast
  ultimately show ?thesis using st' by blast
qed

lemma fresh_addr: "addr_inv st \<Longrightarrow> clientHeap st (nextAddr st) = None \<and> gameHeap st (nextAddr st) = None"
  by (simp add: addr_inv_def)

lemma registered_reg_inv:
  assumes "reg_inv st" "addr_inv st" "p = nextAddr st"
    and "um_find (connectedClients st) (cd_accountId c) = None"
    and "um_find (connectedClientsByName st) (toLower (cd_account c)) = None"
  shows "reg_inv (registered st p c)"
proof -
  have p: "clientHeap st p = None" using fresh_addr [OF assms(2)] assms(3) by simp
  have ids: "(if i = cd_accountId c \<and> um_find (connectedClients st) (cd_accountId c) = None then Some p
        else um_find (connectedClients st) i) = Some q \<longleftrightarrow>
      (\<exists>e. ((clientHeap st)(p \<mapsto> c)) q = Some e \<and> cd_accountId e = i)" for i q
  proof -
    have "um_find (connectedClients st) i = Some q \<longleftrightarrow> (\<exists>e. clientHeap st q = Some e \<and> cd_accountId e = i)"
      using assms(1) by (simp add: reg_inv_def)
    then show ?thesis using assms(4) p by auto
  qed
  have nms: "(if n = toLower (cd_account c) \<and> um_find (connectedClientsByName st) (toLower (cd_account c)) = None
        then Some p else um_find (connectedClientsByName st) n) = Some q \<longleftrightarrow>
      (\<exists>e. ((clientHeap st)(p \<mapsto> c)) q = Some e \<and> toLower (cd_account e) = n)" for n q
  proof -
    have "um_find (connectedClientsByName st) n = Some q \<longleftrightarrow>
        (\<exists>e. clientHeap st q = Some e \<and> toLower (cd_account e) = n)"
      using assms(1) by (simp add: reg_inv_def)
    then show ?thesis using assms(5) p by auto
  qed
  have "um_wf (connectedClients st)" "um_wf (connectedClientsByName st)" "um_wf (servers st)"
    "\<forall>i g. um_find (servers st) i = Some g \<longleftrightarrow> (\<exists>d. gameHeap st g = Some d \<and> gd_serverIdx d = i)"
    using assms(1) by (simp_all add: reg_inv_def)
  then show ?thesis
    unfolding reg_inv_def registered_simps um.find_insert ids nms
    by (simp add: um.wf_insert)
qed

text \<open>What each part of the invariant looks at.\<close>

lemma reg_cong:
  assumes "clientHeap st' = clientHeap st" "connectedClients st' = connectedClients st"
    "connectedClientsByName st' = connectedClientsByName st" "servers st' = servers st"
    "\<And>g i. (\<exists>d. gameHeap st' g = Some d \<and> gd_serverIdx d = i) \<longleftrightarrow>
       (\<exists>d. gameHeap st g = Some d \<and> gd_serverIdx d = i)"
  shows "reg_inv st \<Longrightarrow> reg_inv st'"
  unfolding reg_inv_def assms .

lemma link_cong:
  assumes "gameSessions st' = gameSessions st"
    "\<And>g s. (\<exists>d. gameHeap st' g = Some d \<and> gd_session d = s) \<longleftrightarrow>
       (\<exists>d. gameHeap st g = Some d \<and> gd_session d = s)"
  shows "link_inv st \<Longrightarrow> link_inv st'"
  unfolding link_inv_def assms .

lemma count_cong:
  assumes "gameHeap st' = gameHeap st" "\<And>g. inGameOf st' g = inGameOf st g"
  shows "count_inv st \<Longrightarrow> count_inv st'"
  unfolding count_inv_def assms .

text \<open>One more player on server \<open>g\<close>.\<close>

definition moreOf :: "nat \<Rightarrow> (nat \<Rightarrow> game_data option) \<Rightarrow> (nat \<Rightarrow> game_data option)" where
  "moreOf g G = G(g := map_option (\<lambda>d. d\<lparr>gd_playerCount := gd_playerCount d + 1\<rparr>) (G g))"

lemma moreOf_same: "sameGames (moreOf g G) G"
  by (cases "G g") (auto simp: moreOf_def sameGames_def)

lemma count_more:
  assumes "addr_inv st" "count_inv st" "\<And>h. p \<notin> inGameOf st h" "cd_server c = Some g" "cd_inGame c"
    and "clientHeap st' = (clientHeap st)(p \<mapsto> c)" "gameHeap st' = moreOf g (gameHeap st)"
  shows "count_inv st'"
  unfolding count_inv_def
proof (intro allI impI)
  fix h e
  assume e: "gameHeap st' h = Some e"
  have ing: "inGameOf st' h = (if h = g then insert p (inGameOf st h) else inGameOf st h)"
    using assms(3) [of h] assms(4-6) by (auto simp: inGameOf_def)
  show "gd_playerCount e = of_nat (card (inGameOf st' h))"
  proof (cases "h = g")
    case True
    obtain d where d: "gameHeap st g = Some d" "e = d\<lparr>gd_playerCount := gd_playerCount d + 1\<rparr>"
      using e True assms(7) by (cases "gameHeap st g") (auto simp: moreOf_def)
    have "card (inGameOf st' g) = Suc (card (inGameOf st g))"
      using ing True assms(3) [of g] finite_inGame [OF assms(1), of g] by simp
    then show ?thesis using True d count_invD [OF assms(2) d(1)] by simp
  next
    case False
    then show ?thesis using e assms(7) count_invD [OF assms(2), of h e] ing by (simp add: moreOf_def)
  qed
qed

lemma len_cong:
  assumes "len_inv st" "clientSessions st' = clientSessions st" "gameSessions st' = gameSessions st"
    and "\<And>p c. clientHeap st' p = Some c \<Longrightarrow> length (cd_account c) < 61"
  shows "len_inv st'"
  using assms by (simp add: len_inv_def)

text \<open>The client starts in the lobby of session \<open>s\<close>, which from then on points at it.\<close>

lemma add_lobby_inv:
  assumes "auth_inv st" "clientSessions st s = Some x" "cs_clientData x = None" "p = nextAddr st"
    and "um_find (connectedClients st) (cd_accountId c) = None"
    and "um_find (connectedClientsByName st) (toLower (cd_account c)) = None"
    and "cd_client c = Some s" "cd_server c = None" "\<not> cd_inGame c" "length (cd_account c) < 61"
    and "cs_clientData y = Some p" "cs_dbQuery y = cs_dbQuery x"
  shows "auth_inv ((registered st p c)\<lparr>clientSessions := (clientSessions st)(s \<mapsto> y)\<rparr>)" (is "auth_inv ?st")
proof (rule auth_invI)
  note inv = auth_invD [OF assms(1)]
  have p: "clientHeap st p = None" using fresh_addr [OF inv(5)] assms(4) by simp
  have reg: "reg_inv (registered st p c)" by (rule registered_reg_inv [OF inv(1,5) assms(4-6)])
  show "reg_inv ?st" by (rule reg_cong [OF _ _ _ _ _ reg]) simp_all
  show "own_inv ?st"
  proof (rule own_invI)
    fix q e t
    assume q: "clientHeap ?st q = Some e" "cd_client e = Some t"
    show "cd_server e = None \<and> \<not> cd_inGame e \<and> (\<exists>z. clientSessions ?st t = Some z \<and> cs_clientData z = Some q)"
    proof (cases "q = p")
      case True
      then show ?thesis using q assms(7-11) by auto
    next
      case False
      then have "clientHeap st q = Some e" using q by simp
      from own_lobby [OF inv(2) this q(2)] assms(2,3) show ?thesis by auto
    qed
  next
    fix q e
    assume "clientHeap ?st q = Some e" "cd_client e = None"
    then show "\<exists>g d. cd_server e = Some g \<and> gameHeap ?st g = Some d"
      using own_server [OF inv(2)] assms(7) by (auto split: if_splits)
  next
    fix t z q
    assume "clientSessions ?st t = Some z" "cs_clientData z = Some q"
    then show "\<exists>e. clientHeap ?st q = Some e \<and> cd_client e = Some t"
      using own_session [OF inv(2), of t z q] assms(7,11) p by (cases "t = s") auto
  qed
  show "link_inv ?st" by (rule link_cong [OF _ _ inv(3)]) simp_all
  have "inGameOf ?st g = inGameOf st g" for g
    using p assms(9) by (auto simp: inGameOf_def)
  then show "count_inv ?st" by (intro count_cong [OF _ _ inv(4)]) simp_all
  show "addr_inv ?st" using inv(5) assms(2,4) by (auto simp: addr_inv_def)
  show "len_inv ?st" using inv(6) assms(2,10,12) by (auto simp: len_inv_def split: if_splits)
qed

text \<open>The client is created in-game on server \<open>g\<close>.\<close>

lemma add_ingame_inv:
  assumes "auth_inv st" "p = nextAddr st" "gameHeap st g = Some d"
    and "um_find (connectedClients st) (cd_accountId c) = None"
    and "um_find (connectedClientsByName st) (toLower (cd_account c)) = None"
    and "cd_client c = None" "cd_server c = Some g" "cd_inGame c" "length (cd_account c) < 61"
  shows "auth_inv ((registered st p c)\<lparr>gameHeap := moreOf g (gameHeap st)\<rparr>)" (is "auth_inv ?st")
proof (rule auth_invI)
  note inv = auth_invD [OF assms(1)]
  have p: "clientHeap st p = None" using fresh_addr [OF inv(5)] assms(2) by simp
  have alive: "(\<exists>e. moreOf g (gameHeap st) h = Some e) \<longleftrightarrow> (\<exists>e. gameHeap st h = Some e)" for h
    using sameGames_None [OF moreOf_same, of g "gameHeap st" h] by auto
  have reg: "reg_inv (registered st p c)" by (rule registered_reg_inv [OF inv(1,5) assms(2,4,5)])
  show "reg_inv ?st" by (rule reg_cong [OF _ _ _ _ _ reg]) (simp_all add: sameGames_idx [OF moreOf_same])
  show "own_inv ?st"
  proof (rule own_invI)
    fix q e t
    assume "clientHeap ?st q = Some e" "cd_client e = Some t"
    then show "cd_server e = None \<and> \<not> cd_inGame e \<and> (\<exists>z. clientSessions ?st t = Some z \<and> cs_clientData z = Some q)"
      using own_lobby [OF inv(2)] assms(6) by (auto split: if_splits)
  next
    fix q e
    assume "clientHeap ?st q = Some e" "cd_client e = None"
    then show "\<exists>h d. cd_server e = Some h \<and> gameHeap ?st h = Some d"
      using own_server [OF inv(2)] assms(3,7) alive by (auto split: if_splits)
  next
    fix t z q
    assume "clientSessions ?st t = Some z" "cs_clientData z = Some q"
    then show "\<exists>e. clientHeap ?st q = Some e \<and> cd_client e = Some t"
      using own_session [OF inv(2)] p by fastforce
  qed
  show "link_inv ?st"
    by (rule link_cong [OF _ _ inv(3)]) (simp_all add: sameGames_session [OF moreOf_same])
  show "count_inv ?st"
    by (rule count_more [OF inv(5,4), of p c g]) (use assms(7,8) p in \<open>simp_all add: inGameOf_def\<close>)
  show "addr_inv ?st"
    using inv(5) assms(2) sameGames_None [OF moreOf_same] by (auto simp: addr_inv_def)
  show "len_inv ?st" using inv(6) assms(9) by (auto simp: len_inv_def split: if_splits)
qed

section \<open>Moving a client to a game server\<close>

lemma modClient_eq: "clientHeap st p = Some c \<Longrightarrow> modClient p f st = Some (st\<lparr>clientHeap := (clientHeap st)(p \<mapsto> f c)\<rparr>)"
  by (simp add: modClient_def)

lemma modGame_eq: "gameHeap st g = Some d \<Longrightarrow> modGame g f st = Some (st\<lparr>gameHeap := (gameHeap st)(g \<mapsto> f d)\<rparr>)"
  by (simp add: modGame_def)

lemma modClientSession_eq:
  "clientSessions st s = Some x \<Longrightarrow>
    modClientSession s f st = Some (st\<lparr>clientSessions := (clientSessions st)(s \<mapsto> f x)\<rparr>)"
  by (simp add: modClientSession_def)

lemma modGameSession_eq:
  "gameSessions st s = Some x \<Longrightarrow>
    modGameSession s f st = Some (st\<lparr>gameSessions := (gameSessions st)(s \<mapsto> f x)\<rparr>)"
  by (simp add: modGameSession_def)

lemma reg_client_cong:
  assumes "reg_inv st" "clientHeap st p = Some c" "cd_account e = cd_account c" "cd_accountId e = cd_accountId c"
    and "clientHeap st' = (clientHeap st)(p \<mapsto> e)" "gameHeap st' = gameHeap st"
    and "connectedClients st' = connectedClients st"
      "connectedClientsByName st' = connectedClientsByName st" "servers st' = servers st"
  shows "reg_inv st'"
proof -
  have "(\<exists>c. clientHeap st' q = Some c \<and> P (cd_accountId c) (cd_account c)) \<longleftrightarrow>
      (\<exists>c. clientHeap st q = Some c \<and> P (cd_accountId c) (cd_account c))" for q P
    using assms(2-5) by auto
  note ex = this
  have "(\<exists>c. clientHeap st' q = Some c \<and> cd_accountId c = i) \<longleftrightarrow> (\<exists>c. clientHeap st q = Some c \<and> cd_accountId c = i)" for q i
    using ex [of q "\<lambda>a b. a = i"] .
  moreover have "(\<exists>c. clientHeap st' q = Some c \<and> toLower (cd_account c) = i) \<longleftrightarrow>
      (\<exists>c. clientHeap st q = Some c \<and> toLower (cd_account c) = i)" for q i
    using ex [of q "\<lambda>a b. toLower b = i"] .
  ultimately show ?thesis using assms(1) unfolding reg_inv_def assms(6-9) by presburger
qed

text \<open>The lobby session gives its client up to a live server.\<close>

lemma switch_inv:
  assumes "auth_inv st" "clientSessions st s = Some x" "cs_clientData x = Some p"
    and "clientHeap st p = Some c" "gameHeap st g = Some d"
    and "cd_client e = None" "cd_server e = Some g" "\<not> cd_inGame e"
    and "cd_account e = cd_account c" "cd_accountId e = cd_accountId c"
    and "cs_clientData y = None" "cs_dbQuery y = cs_dbQuery x"
  shows "auth_inv (st\<lparr>clientHeap := (clientHeap st)(p \<mapsto> e), clientSessions := (clientSessions st)(s \<mapsto> y)\<rparr>)"
    (is "auth_inv ?st")
proof (rule auth_invI)
  note inv = auth_invD [OF assms(1)]
  have c: "cd_client c = Some s" "cd_server c = None" "\<not> cd_inGame c"
    using own_session [OF inv(2) assms(2,3)] own_lobby [OF inv(2) assms(4)] assms(4) by auto
  show "reg_inv ?st" by (rule reg_client_cong [OF inv(1) assms(4,9,10)]) simp_all
  show "own_inv ?st"
  proof (rule own_invI)
    fix q f t
    assume q: "clientHeap ?st q = Some f" "cd_client f = Some t"
    then have "q \<noteq> p" "clientHeap st q = Some f" using assms(6) by (auto split: if_splits)
    moreover from own_lobby [OF inv(2) this(2) q(2)] have "t \<noteq> s"
      using assms(2,3) \<open>q \<noteq> p\<close> by auto
    ultimately show "cd_server f = None \<and> \<not> cd_inGame f \<and> (\<exists>z. clientSessions ?st t = Some z \<and> cs_clientData z = Some q)"
      using own_lobby [OF inv(2) _ q(2)] by simp
  next
    fix q f
    assume "clientHeap ?st q = Some f" "cd_client f = None"
    then show "\<exists>g d. cd_server f = Some g \<and> gameHeap ?st g = Some d"
      using own_server [OF inv(2)] assms(5,7) by (auto split: if_splits)
  next
    fix t z q
    assume tz: "clientSessions ?st t = Some z" "cs_clientData z = Some q"
    then have t: "t \<noteq> s" "clientSessions st t = Some z" using assms(11) by (auto split: if_splits)
    obtain f where "clientHeap st q = Some f" "cd_client f = Some t"
      using own_session [OF inv(2) t(2) tz(2)] by blast
    moreover from this have "q \<noteq> p" using c(1) t(1) assms(4) by auto
    ultimately show "\<exists>e. clientHeap ?st q = Some e \<and> cd_client e = Some t" by simp
  qed
  show "link_inv ?st" by (rule link_cong [OF _ _ inv(3)]) simp_all
  have "inGameOf ?st g = inGameOf st g" for g
    using assms(4,8) c(3) by (auto simp: inGameOf_def)
  then show "count_inv ?st" by (intro count_cong [OF _ _ inv(4)]) simp_all
  show "addr_inv ?st" using inv(5) assms(2,4) by (auto simp: addr_inv_def)
  show "len_inv ?st" using inv(6) assms(2,4,9,12) by (auto simp: len_inv_def split: if_splits)
qed

lemma connectedToGame_ok:
  assumes "auth_inv st" "clientHeap st p = Some c" "cd_server c = Some g" "\<not> cd_inGame c"
  shows "connectedToGame now p st = Some (st\<lparr>gameHeap := moreOf g (gameHeap st),
      clientHeap := (clientHeap st)(p \<mapsto> c\<lparr>cd_inGame := True, cd_loginTime := now\<rparr>)\<rparr>) \<and>
    auth_inv (st\<lparr>gameHeap := moreOf g (gameHeap st),
      clientHeap := (clientHeap st)(p \<mapsto> c\<lparr>cd_inGame := True, cd_loginTime := now\<rparr>)\<rparr>)" (is "?eq \<and> auth_inv ?st")
proof
  note inv = auth_invD [OF assms(1)]
  obtain d where d: "gameHeap st g = Some d" using server_alive [OF inv(2) assms(2,3)] by blast
  show ?eq
    using assms(2,3) d by (simp add: connectedToGame_def incPlayerCount_def modGame_def modClient_def moreOf_def)
  have lobby: "cd_client c = None" using own_lobby [OF inv(2) assms(2)] assms(3) by fastforce
  have alive: "(\<exists>e. moreOf g (gameHeap st) h = Some e) \<longleftrightarrow> (\<exists>e. gameHeap st h = Some e)" for h
    using sameGames_None [OF moreOf_same, of g "gameHeap st" h] by auto
  show "auth_inv ?st"
  proof (rule auth_invI)
    have "reg_inv (st\<lparr>clientHeap := (clientHeap st)(p \<mapsto> c\<lparr>cd_inGame := True, cd_loginTime := now\<rparr>)\<rparr>)"
      by (rule reg_client_cong [OF inv(1) assms(2)]) simp_all
    then show "reg_inv ?st" by (rule reg_cong [rotated -1]) (simp_all add: sameGames_idx [OF moreOf_same])
    show "own_inv ?st"
    proof (rule own_invI)
      fix q e t
      assume "clientHeap ?st q = Some e" "cd_client e = Some t"
      then show "cd_server e = None \<and> \<not> cd_inGame e \<and> (\<exists>z. clientSessions ?st t = Some z \<and> cs_clientData z = Some q)"
        using own_lobby [OF inv(2)] lobby by (auto split: if_splits)
    next
      fix q e
      assume "clientHeap ?st q = Some e" "cd_client e = None"
      then show "\<exists>h d. cd_server e = Some h \<and> gameHeap ?st h = Some d"
        using own_server [OF inv(2)] assms(3) d alive by (auto split: if_splits)
    next
      fix t z q
      assume "clientSessions ?st t = Some z" "cs_clientData z = Some q"
      then show "\<exists>e. clientHeap ?st q = Some e \<and> cd_client e = Some t"
        using own_session [OF inv(2), of t z q] assms(2) lobby by auto
    qed
    show "link_inv ?st"
      by (rule link_cong [OF _ _ inv(3)]) (simp_all add: sameGames_session [OF moreOf_same])
    show "count_inv ?st"
      by (rule count_more [OF inv(5,4), of p "c\<lparr>cd_inGame := True, cd_loginTime := now\<rparr>" g])
         (use assms(2-4) in \<open>simp_all add: inGameOf_def\<close>)
    show "addr_inv ?st"
      using inv(5) assms(2) sameGames_None [OF moreOf_same] by (auto simp: addr_inv_def)
    show "len_inv ?st" using inv(6) assms(2) by (auto simp: len_inv_def split: if_splits)
  qed
qed

section \<open>Fields the invariant ignores\<close>

lemma modClient_keep:
  assumes "auth_inv st" "clientHeap st p = Some c"
    and "cd_account (f c) = cd_account c" "cd_accountId (f c) = cd_accountId c" "cd_client (f c) = cd_client c"
      "cd_server (f c) = cd_server c" "cd_inGame (f c) = cd_inGame c"
  shows "\<exists>st'. modClient p f st = Some st' \<and> auth_inv st'"
proof -
  note inv = auth_invD [OF assms(1)]
  let ?st = "st\<lparr>clientHeap := (clientHeap st)(p \<mapsto> f c)\<rparr>"
  have "auth_inv ?st"
  proof (rule auth_invI)
    show "reg_inv ?st" by (rule reg_client_cong [OF inv(1) assms(2-4)]) simp_all
    show "own_inv ?st"
      by (rule own_invI)
         (use own_lobby [OF inv(2)] own_server [OF inv(2)] own_session [OF inv(2)] assms(2,5-7) in
          \<open>fastforce split: if_splits\<close>)+
    show "link_inv ?st" by (rule link_cong [OF _ _ inv(3)]) simp_all
    have "inGameOf ?st g = inGameOf st g" for g
      using assms(2,6,7) by (auto simp: inGameOf_def)
    then show "count_inv ?st" by (intro count_cong [OF _ _ inv(4)]) simp_all
    show "addr_inv ?st" using inv(5) assms(2) by (auto simp: addr_inv_def)
    show "len_inv ?st" using inv(6) assms(2,3) by (auto simp: len_inv_def split: if_splits)
  qed
  then show ?thesis by (simp add: modClient_eq [OF assms(2)])
qed

lemma own_cong:
  assumes "clientHeap st' = clientHeap st"
    "\<And>s p. (\<exists>x. clientSessions st' s = Some x \<and> cs_clientData x = Some p) \<longleftrightarrow>
       (\<exists>x. clientSessions st s = Some x \<and> cs_clientData x = Some p)"
    "\<And>g. (\<exists>d. gameHeap st' g = Some d) \<longleftrightarrow> (\<exists>d. gameHeap st g = Some d)"
  shows "own_inv st \<Longrightarrow> own_inv st'"
proof (rule own_invI)
  assume own: "own_inv st"
  fix p c s
  assume "clientHeap st' p = Some c" "cd_client c = Some s"
  then show "cd_server c = None \<and> \<not> cd_inGame c \<and> (\<exists>x. clientSessions st' s = Some x \<and> cs_clientData x = Some p)"
    unfolding assms by (rule own_lobby [OF own])
next
  assume own: "own_inv st"
  fix p c
  assume "clientHeap st' p = Some c" "cd_client c = None"
  then show "\<exists>g d. cd_server c = Some g \<and> gameHeap st' g = Some d"
    using own_server [OF own] assms(1,3) by metis
next
  assume own: "own_inv st"
  fix s x p
  assume "clientSessions st' s = Some x" "cs_clientData x = Some p"
  then show "\<exists>c. clientHeap st' p = Some c \<and> cd_client c = Some s"
    using own_session [OF own] assms(1,2) by metis
qed

lemma modGame_keep:
  assumes "auth_inv st" "gameHeap st g = Some d"
    and "gd_session (f d) = gd_session d" "gd_serverIdx (f d) = gd_serverIdx d"
      "gd_playerCount (f d) = gd_playerCount d"
  shows "\<exists>st'. modGame g f st = Some st' \<and> auth_inv st' \<and> st' = st\<lparr>gameHeap := (gameHeap st)(g \<mapsto> f d)\<rparr>"
proof -
  note inv = auth_invD [OF assms(1)]
  let ?st = "st\<lparr>gameHeap := (gameHeap st)(g \<mapsto> f d)\<rparr>"
  have "auth_inv ?st"
  proof (rule auth_invI)
    show "reg_inv ?st" by (rule reg_cong [OF _ _ _ _ _ inv(1)]) (use assms(2,4) in auto)
    show "own_inv ?st" by (rule own_cong [OF _ _ _ inv(2)]) (use assms(2) in auto)
    show "link_inv ?st" by (rule link_cong [OF _ _ inv(3)]) (use assms(2,3) in auto)
    have ing: "inGameOf ?st h = inGameOf st h" for h by (simp add: inGameOf_def)
    show "count_inv ?st"
      unfolding count_inv_def ing using assms(2,5) count_invD [OF inv(4)] by auto
    show "addr_inv ?st" using inv(5) assms(2) by (auto simp: addr_inv_def)
    show "len_inv ?st" using inv(6) by (simp add: len_inv_def)
  qed
  then show ?thesis by (simp add: modGame_eq [OF assms(2)])
qed

lemma modClientSession_keep:
  assumes "auth_inv st" "clientSessions st s = Some x"
    and "cs_clientData (f x) = cs_clientData x" "\<forall>q \<in> set (cs_dbQuery (f x)). length (in_account q) < 61"
  shows "\<exists>st'. modClientSession s f st = Some st' \<and> auth_inv st' \<and>
    st' = st\<lparr>clientSessions := (clientSessions st)(s \<mapsto> f x)\<rparr>"
proof -
  note inv = auth_invD [OF assms(1)]
  let ?st = "st\<lparr>clientSessions := (clientSessions st)(s \<mapsto> f x)\<rparr>"
  have "auth_inv ?st"
  proof (rule auth_invI)
    show "reg_inv ?st" by (rule reg_cong [OF _ _ _ _ _ inv(1)]) simp_all
    show "own_inv ?st" by (rule own_cong [OF _ _ _ inv(2)]) (use assms(2,3) in auto)
    show "link_inv ?st" by (rule link_cong [OF _ _ inv(3)]) simp_all
    show "count_inv ?st" by (rule count_cong [OF _ _ inv(4)]) (simp_all add: inGameOf_def)
    show "addr_inv ?st" using inv(5) assms(2) by (auto simp: addr_inv_def)
    show "len_inv ?st" using inv(6) assms(4) by (auto simp: len_inv_def split: if_splits)
  qed
  then show ?thesis by (simp add: modClientSession_eq [OF assms(2)])
qed

lemma modGameSession_keep:
  assumes "auth_inv st" "gameSessions st s = Some x"
    and "gs_gameData (f x) = gs_gameData x" "\<forall>q \<in> set (gs_queries (f x)). length (si_account q) < 61"
  shows "\<exists>st'. modGameSession s f st = Some st' \<and> auth_inv st' \<and>
    st' = st\<lparr>gameSessions := (gameSessions st)(s \<mapsto> f x)\<rparr>"
proof -
  note inv = auth_invD [OF assms(1)]
  let ?st = "st\<lparr>gameSessions := (gameSessions st)(s \<mapsto> f x)\<rparr>"
  have "auth_inv ?st"
  proof (rule auth_invI)
    show "reg_inv ?st" by (rule reg_cong [OF _ _ _ _ _ inv(1)]) simp_all
    show "own_inv ?st" by (rule own_cong [OF _ _ _ inv(2)]) simp_all
    have "(\<exists>y. gameSessions ?st t = Some y \<and> gs_gameData y = Some h) \<longleftrightarrow>
        (\<exists>y. gameSessions st t = Some y \<and> gs_gameData y = Some h)" for t h
      using assms(2,3) by auto
    then show "link_inv ?st" using inv(3) unfolding link_inv_def by simp
    show "count_inv ?st" by (rule count_cong [OF _ _ inv(4)]) (simp_all add: inGameOf_def)
    show "addr_inv ?st" using inv(5) assms(2) by (auto simp: addr_inv_def)
    show "len_inv ?st" using inv(6) assms(4) by (auto simp: len_inv_def split: if_splits)
  qed
  then show ?thesis by (simp add: modGameSession_eq [OF assms(2)])
qed

section \<open>Sessions come and go\<close>

lemma new_client_session_inv:
  assumes "auth_inv st" "cs_clientData x = None" "cs_dbQuery x = []"
  shows "auth_inv (st\<lparr>nextAddr := nextAddr st + 1, clientSessions := (clientSessions st)(nextAddr st \<mapsto> x)\<rparr>)"
    (is "auth_inv ?st")
proof (rule auth_invI)
  note inv = auth_invD [OF assms(1)]
  have new: "clientSessions st (nextAddr st) = None" using inv(5) by (simp add: addr_inv_def)
  show "reg_inv ?st" by (rule reg_cong [OF _ _ _ _ _ inv(1)]) simp_all
  show "own_inv ?st" by (rule own_cong [OF _ _ _ inv(2)]) (use assms(2) new in auto)
  show "link_inv ?st" by (rule link_cong [OF _ _ inv(3)]) simp_all
  show "count_inv ?st" by (rule count_cong [OF _ _ inv(4)]) (simp_all add: inGameOf_def)
  show "addr_inv ?st" using inv(5) by (auto simp: addr_inv_def)
  show "len_inv ?st" using inv(6) assms(3) by (auto simp: len_inv_def split: if_splits)
qed

lemma new_game_session_inv:
  assumes "auth_inv st" "gs_gameData x = None" "gs_queries x = []"
  shows "auth_inv (st\<lparr>nextAddr := nextAddr st + 1, gameSessions := (gameSessions st)(nextAddr st \<mapsto> x)\<rparr>)"
    (is "auth_inv ?st")
proof (rule auth_invI)
  note inv = auth_invD [OF assms(1)]
  have new: "gameSessions st (nextAddr st) = None" using inv(5) by (simp add: addr_inv_def)
  show "reg_inv ?st" by (rule reg_cong [OF _ _ _ _ _ inv(1)]) simp_all
  show "own_inv ?st" by (rule own_cong [OF _ _ _ inv(2)]) simp_all
  have "(\<exists>y. gameSessions ?st t = Some y \<and> gs_gameData y = Some h) \<longleftrightarrow>
      (\<exists>y. gameSessions st t = Some y \<and> gs_gameData y = Some h)" for t h
    using assms(2) new by auto
  then show "link_inv ?st" using inv(3) unfolding link_inv_def by simp
  show "count_inv ?st" by (rule count_cong [OF _ _ inv(4)]) (simp_all add: inGameOf_def)
  show "addr_inv ?st" using inv(5) by (auto simp: addr_inv_def)
  show "len_inv ?st" using inv(6) assms(3) by (auto simp: len_inv_def split: if_splits)
qed

lemma drop_game_session_inv:
  assumes "auth_inv st" "gameSessions st s = Some x" "gs_gameData x = None"
  shows "auth_inv (st\<lparr>gameSessions := (gameSessions st)(s := None)\<rparr>)" (is "auth_inv ?st")
proof (rule auth_invI)
  note inv = auth_invD [OF assms(1)]
  show "reg_inv ?st" by (rule reg_cong [OF _ _ _ _ _ inv(1)]) simp_all
  show "own_inv ?st" by (rule own_cong [OF _ _ _ inv(2)]) simp_all
  have "(\<exists>y. gameSessions ?st t = Some y \<and> gs_gameData y = Some h) \<longleftrightarrow>
      (\<exists>y. gameSessions st t = Some y \<and> gs_gameData y = Some h)" for t h
    using assms(2,3) by auto
  then show "link_inv ?st" using inv(3) unfolding link_inv_def by simp
  show "count_inv ?st" by (rule count_cong [OF _ _ inv(4)]) (simp_all add: inGameOf_def)
  show "addr_inv ?st" using inv(5) by (auto simp: addr_inv_def)
  show "len_inv ?st" using inv(6) by (auto simp: len_inv_def split: if_splits)
qed

text \<open>A lobby client goes with its session.\<close>

lemma onDisconnected_ok:
  assumes "auth_inv st" "clientSessions st s = Some x"
  shows "\<exists>st'. onDisconnected s st = Some st' \<and> auth_inv st'"
proof (cases "cs_clientData x")
  case None
  note inv = auth_invD [OF assms(1)]
  let ?st = "st\<lparr>clientSessions := (clientSessions st)(s := None)\<rparr>"
  have "auth_inv ?st"
  proof (rule auth_invI)
    show "reg_inv ?st" by (rule reg_cong [OF _ _ _ _ _ inv(1)]) simp_all
    show "own_inv ?st" by (rule own_cong [OF _ _ _ inv(2)]) (use assms(2) None in auto)
    show "link_inv ?st" by (rule link_cong [OF _ _ inv(3)]) simp_all
    show "count_inv ?st" by (rule count_cong [OF _ _ inv(4)]) (simp_all add: inGameOf_def)
    show "addr_inv ?st" using inv(5) by (auto simp: addr_inv_def)
    show "len_inv ?st" using inv(6) by (auto simp: len_inv_def split: if_splits)
  qed
  then show ?thesis using assms(2) None by (simp add: onDisconnected_def)
next
  case (Some p)
  note inv = auth_invD [OF assms(1)]
  obtain c where c: "clientHeap st p = Some c" "cd_client c = Some s"
    using own_session [OF inv(2) assms(2) Some] by blast
  obtain G where G: "removeClient p st = Some (dropped st p c G)" "sameGames G (gameHeap st)"
    "reg_inv (dropped st p c G)" "link_inv (dropped st p c G)" "count_inv (dropped st p c G)"
    "addr_inv (dropped st p c G)" "len_inv (dropped st p c G)"
    using removeClient_ok [OF assms(1) c(1)] by blast
  let ?st = "(dropped st p c G)\<lparr>clientSessions := (clientSessions st)(s := None)\<rparr>"
  have alive: "(\<exists>e. G h = Some e) \<longleftrightarrow> (\<exists>e. gameHeap st h = Some e)" for h
    using sameGames_None [OF G(2), of h] by auto
  have "auth_inv ?st"
  proof (rule auth_invI)
    show "reg_inv ?st" by (rule reg_cong [OF _ _ _ _ _ G(3)]) simp_all
    show "own_inv ?st"
    proof (rule own_invI)
      fix q e t
      assume q: "clientHeap ?st q = Some e" "cd_client e = Some t"
      then have q': "q \<noteq> p" "clientHeap st q = Some e" by (auto split: if_splits)
      from own_lobby [OF inv(2) q'(2) q(2)] q'(1) Some assms(2)
      show "cd_server e = None \<and> \<not> cd_inGame e \<and> (\<exists>z. clientSessions ?st t = Some z \<and> cs_clientData z = Some q)"
        by auto
    next
      fix q e
      assume "clientHeap ?st q = Some e" "cd_client e = None"
      then show "\<exists>h d. cd_server e = Some h \<and> gameHeap ?st h = Some d"
        using own_server [OF inv(2)] alive by (auto split: if_splits)
    next
      fix t z q
      assume "clientSessions ?st t = Some z" "cs_clientData z = Some q"
      then show "\<exists>e. clientHeap ?st q = Some e \<and> cd_client e = Some t"
        using own_session [OF inv(2), of t z q] c by (auto split: if_splits)
    qed
    show "link_inv ?st" by (rule link_cong [OF _ _ G(4)]) simp_all
    show "count_inv ?st" by (rule count_cong [OF _ _ G(5)]) (simp_all add: inGameOf_def)
    show "addr_inv ?st" using G(6) by (auto simp: addr_inv_def)
    show "len_inv ?st" using G(7) by (auto simp: len_inv_def split: if_splits)
  qed
  then show ?thesis using assms(2) Some G(1) by (simp add: onDisconnected_def modClientSession_def)
qed

end
