(* ===== verification/AuthLink.thy ===== *)
theory AuthLink
  imports AuthOps
begin

text \<open>
  How \<open>setGameData\<close> and \<open>setGameServer\<close> settle, and game servers that appear and go.
\<close>

section \<open>The two setters\<close>

lemma setGameData_unfold:
  "setGameData 8 = setGameData (Suc (Suc (Suc (Suc (Suc (Suc (Suc (Suc 0))))))))"
  by (simp add: numeral_eq_Suc)

lemma link_fresh:
  assumes "gameSessions st s = Some x" "gs_gameData x = None" "gameHeap st g = Some d" "gd_session d = Some s"
  shows "setGameData 8 s (Some g) st = Some (st\<lparr>gameSessions := (gameSessions st)(s \<mapsto> x\<lparr>gs_gameData := Some g\<rparr>)\<rparr>)"
  unfolding setGameData_unfold using assms by (simp add: modGameSession_def)

lemma link_free:
  assumes "gameSessions st s = Some x" "gs_gameData x = None" "gameHeap st g = Some d" "gd_session d = None"
  shows "setGameData 8 s (Some g) st = Some (st\<lparr>
    gameSessions := (gameSessions st)(s \<mapsto> x\<lparr>gs_gameData := Some g\<rparr>),
    gameHeap := (gameHeap st)(g \<mapsto> d\<lparr>gd_session := Some s\<rparr>)\<rparr>)"
  unfolding setGameData_unfold using assms by (simp add: modGameSession_def modGame_def)

text \<open>The setters unlink both ends and link them again before they agree.\<close>

lemma link_steal:
  assumes "gameSessions st s = Some x" "gs_gameData x = None" "gameHeap st g = Some d" "gd_session d = Some t"
    and "t \<noteq> s" "gameSessions st t = Some y" "gs_gameData y = Some g"
  shows "setGameData 8 s (Some g) st = Some (st\<lparr>
    gameSessions := (gameSessions st)(s \<mapsto> x\<lparr>gs_gameData := Some g\<rparr>, t \<mapsto> y\<lparr>gs_gameData := None\<rparr>),
    gameHeap := (gameHeap st)(g \<mapsto> d\<lparr>gd_session := Some s\<rparr>)\<rparr>)"
  unfolding setGameData_unfold using assms
  by (simp add: modGameSession_def modGame_def fun_upd_twist [of t s])

lemma link_drop:
  assumes "gameSessions st s = Some x" "gs_gameData x = Some g" "gameHeap st g = Some d" "gd_session d = Some s"
  shows "setGameData 8 s None st = Some (st\<lparr>
    gameSessions := (gameSessions st)(s \<mapsto> x\<lparr>gs_gameData := None\<rparr>),
    gameHeap := (gameHeap st)(g \<mapsto> d\<lparr>gd_session := None\<rparr>)\<rparr>)"
  unfolding setGameData_unfold using assms by (simp add: modGameSession_def modGame_def)

section \<open>Linking keeps the invariant\<close>

lemma link_invI:
  assumes "\<And>s x g. gameSessions st s = Some x \<Longrightarrow> gs_gameData x = Some g \<Longrightarrow>
      \<exists>d. gameHeap st g = Some d \<and> gd_session d = Some s"
    and "\<And>g d s. gameHeap st g = Some d \<Longrightarrow> gd_session d = Some s \<Longrightarrow>
      \<exists>x. gameSessions st s = Some x \<and> gs_gameData x = Some g"
  shows "link_inv st"
  using assms unfolding link_inv_def by blast

text \<open>The parts of the invariant other than the links do not look at either end of a link.\<close>

lemma relink_rest:
  assumes "auth_inv st" "gameHeap st g = Some d" "gameSessions st s = Some x"
    and "\<And>t y. gs' t = Some y \<Longrightarrow> \<exists>z. gameSessions st t = Some z \<and> gs_queries y = gs_queries z"
    and "\<And>t. gameSessions st t = None \<Longrightarrow> gs' t = None"
  shows "link_inv (st\<lparr>gameSessions := gs', gameHeap := (gameHeap st)(g \<mapsto> d\<lparr>gd_session := l\<rparr>)\<rparr>) \<Longrightarrow>
    auth_inv (st\<lparr>gameSessions := gs', gameHeap := (gameHeap st)(g \<mapsto> d\<lparr>gd_session := l\<rparr>)\<rparr>)"
    (is "link_inv ?st \<Longrightarrow> _")
proof (rule auth_invI)
  note inv = auth_invD [OF assms(1)]
  show "link_inv ?st \<Longrightarrow> link_inv ?st" .
  show "reg_inv ?st" by (rule reg_cong [OF _ _ _ _ _ inv(1)]) (use assms(2) in auto)
  show "own_inv ?st" by (rule own_cong [OF _ _ _ inv(2)]) (use assms(2) in auto)
  have ing: "inGameOf ?st h = inGameOf st h" for h by (simp add: inGameOf_def)
  show "count_inv ?st" unfolding count_inv_def ing using assms(2) count_invD [OF inv(4)] by auto
  show "addr_inv ?st" using inv(5) assms(2,5) by (auto simp: addr_inv_def)
  have "\<forall>q \<in> set (gs_queries y). length (si_account q) < 61" if y: "gs' t = Some y" for t y
  proof -
    obtain z where "gameSessions st t = Some z" "gs_queries y = gs_queries z" using assms(4) [OF y] by blast
    then show ?thesis using inv(6) by (simp add: len_inv_def)
  qed
  then show "len_inv ?st" using inv(6) by (simp add: len_inv_def)
qed

lemma link_ok:
  assumes "auth_inv st" "gameSessions st s = Some x" "gs_gameData x = None" "gameHeap st g = Some d"
  shows "\<exists>st'. setGameData 8 s (Some g) st = Some st' \<and> auth_inv st' \<and>
    gameSessions st' s = Some (x\<lparr>gs_gameData := Some g\<rparr>) \<and>
    gameHeap st' = (gameHeap st)(g \<mapsto> d\<lparr>gd_session := Some s\<rparr>) \<and>
    (\<forall>t. gd_session d = Some t \<longrightarrow> (\<exists>y. gameSessions st' t = Some y \<and> gs_gameData y = None)) \<and>
    clientHeap st' = clientHeap st \<and> clientSessions st' = clientSessions st \<and> sent st' = sent st"
proof (cases "gd_session d")
  case None
  note inv = auth_invD [OF assms(1)]
  let ?st = "st\<lparr>gameSessions := (gameSessions st)(s \<mapsto> x\<lparr>gs_gameData := Some g\<rparr>),
    gameHeap := (gameHeap st)(g \<mapsto> d\<lparr>gd_session := Some s\<rparr>)\<rparr>"
  have "link_inv ?st"
  proof (rule link_invI)
    fix t y h
    assume "gameSessions ?st t = Some y" "gs_gameData y = Some h"
    then show "\<exists>e. gameHeap ?st h = Some e \<and> gd_session e = Some t"
      using session_game_inv [OF inv(3), of t y h] assms(4) None by (auto split: if_splits)
  next
    fix h e t
    assume "gameHeap ?st h = Some e" "gd_session e = Some t"
    then show "\<exists>y. gameSessions ?st t = Some y \<and> gs_gameData y = Some h"
      using game_session_inv [OF inv(3), of h e t] assms(2,3) by (auto split: if_splits)
  qed
  then have "auth_inv ?st"
    by (rule relink_rest [OF assms(1,4,2), rotated -1]) (use assms(2) in \<open>auto split: if_splits\<close>)
  then show ?thesis using link_free [OF assms(2-4) None] None by simp
next
  case (Some t)
  note inv = auth_invD [OF assms(1)]
  obtain y where y: "gameSessions st t = Some y" "gs_gameData y = Some g"
    using game_session_inv [OF inv(3) assms(4) Some] by blast
  have ts: "t \<noteq> s" using y assms(2,3) by auto
  let ?st = "st\<lparr>gameSessions := (gameSessions st)(s \<mapsto> x\<lparr>gs_gameData := Some g\<rparr>, t \<mapsto> y\<lparr>gs_gameData := None\<rparr>),
    gameHeap := (gameHeap st)(g \<mapsto> d\<lparr>gd_session := Some s\<rparr>)\<rparr>"
  have "link_inv ?st"
  proof (rule link_invI)
    fix u z h
    assume u: "gameSessions ?st u = Some z" "gs_gameData z = Some h"
    show "\<exists>e. gameHeap ?st h = Some e \<and> gd_session e = Some u"
    proof (cases "u = s")
      case True
      then show ?thesis using u ts by auto
    next
      case False
      with u have "u \<noteq> t" "gameSessions st u = Some z" by (auto split: if_splits)
      then show ?thesis using session_game_inv [OF inv(3) _ u(2)] assms(4) Some by fastforce
    qed
  next
    fix h e u
    assume h: "gameHeap ?st h = Some e" "gd_session e = Some u"
    show "\<exists>z. gameSessions ?st u = Some z \<and> gs_gameData z = Some h"
    proof (cases "h = g")
      case True
      then show ?thesis using h ts by auto
    next
      case False
      then obtain z where "gameSessions st u = Some z" "gs_gameData z = Some h"
        using game_session_inv [OF inv(3), of h e u] h by auto
      then show ?thesis using False y assms(2,3) by auto
    qed
  qed
  then have "auth_inv ?st"
    by (rule relink_rest [OF assms(1,4,2), rotated -1]) (use assms(2) y(1) in \<open>auto split: if_splits\<close>)
  then show ?thesis using link_steal [OF assms(2-4) Some ts y] Some ts by simp
qed

lemma unlink_ok:
  assumes "auth_inv st" "gameSessions st s = Some x" "gs_gameData x = Some g"
  shows "\<exists>st'. setGameData 8 s None st = Some st' \<and> auth_inv st' \<and>
    (\<exists>y. gameSessions st' s = Some y \<and> gs_gameData y = None)"
proof -
  note inv = auth_invD [OF assms(1)]
  obtain d where d: "gameHeap st g = Some d" "gd_session d = Some s"
    using session_game_inv [OF inv(3) assms(2,3)] by blast
  let ?st = "st\<lparr>gameSessions := (gameSessions st)(s \<mapsto> x\<lparr>gs_gameData := None\<rparr>),
    gameHeap := (gameHeap st)(g \<mapsto> d\<lparr>gd_session := None\<rparr>)\<rparr>"
  have "link_inv ?st"
  proof (rule link_invI)
    fix u z h
    assume u: "gameSessions ?st u = Some z" "gs_gameData z = Some h"
    then have "u \<noteq> s" "gameSessions st u = Some z" by (auto split: if_splits)
    then show "\<exists>e. gameHeap ?st h = Some e \<and> gd_session e = Some u"
      using session_game_inv [OF inv(3) _ u(2)] d by fastforce
  next
    fix h e u
    assume h: "gameHeap ?st h = Some e" "gd_session e = Some u"
    then have "h \<noteq> g" "gameHeap st h = Some e" by (auto split: if_splits)
    then show "\<exists>z. gameSessions ?st u = Some z \<and> gs_gameData z = Some h"
      using game_session_inv [OF inv(3) _ h(2)] assms(2,3) by fastforce
  qed
  then have "auth_inv ?st"
    by (rule relink_rest [OF assms(1) d(1) assms(2), rotated -1]) (use assms(2) in \<open>auto split: if_splits\<close>)
  then show ?thesis using link_drop [OF assms(2,3) d] by simp
qed

section \<open>A new game server\<close>

lemma new_game_inv:
  assumes "auth_inv st" "gameSessions st s = Some x" "gs_gameData x = None"
    and "um_find (servers st) (gd_serverIdx d) = None"
    and "gd_session d = Some s" "gd_playerCount d = 0" "g = nextAddr st"
  shows "auth_inv (st\<lparr>nextAddr := g + 1, gameHeap := (gameHeap st)(g \<mapsto> d),
    servers := um_insert (gd_serverIdx d) g (servers st),
    gameSessions := (gameSessions st)(s \<mapsto> x\<lparr>gs_gameData := Some g\<rparr>)\<rparr>)" (is "auth_inv ?st")
proof (rule auth_invI)
  note inv = auth_invD [OF assms(1)]
  have g: "gameHeap st g = None" using fresh_addr [OF inv(5)] assms(7) by simp
  have srv: "um_find (servers ?st) i = Some h \<longleftrightarrow> (\<exists>e. gameHeap ?st h = Some e \<and> gd_serverIdx e = i)" for i h
  proof -
    have "um_find (servers st) i = Some h \<longleftrightarrow> (\<exists>e. gameHeap st h = Some e \<and> gd_serverIdx e = i)"
      using inv(1) by (simp add: reg_inv_def)
    then show ?thesis using assms(4) g by (auto simp: um.find_insert)
  qed
  have "um_wf (servers ?st)" using inv(1) by (simp add: reg_inv_def um.wf_insert)
  then show "reg_inv ?st"
    using inv(1) unfolding reg_inv_def srv by simp
  have noServer: "cd_server c \<noteq> Some g" if "clientHeap st p = Some c" for p c
    using server_alive [OF inv(2) that] g by blast
  show "own_inv ?st"
  proof (rule own_invI)
    fix q e t
    assume "clientHeap ?st q = Some e" "cd_client e = Some t"
    then show "cd_server e = None \<and> \<not> cd_inGame e \<and> (\<exists>z. clientSessions ?st t = Some z \<and> cs_clientData z = Some q)"
      using own_lobby [OF inv(2)] by simp
  next
    fix q e
    assume "clientHeap ?st q = Some e" "cd_client e = None"
    then show "\<exists>h d. cd_server e = Some h \<and> gameHeap ?st h = Some d"
      using own_server [OF inv(2)] by fastforce
  next
    fix t z q
    assume "clientSessions ?st t = Some z" "cs_clientData z = Some q"
    then show "\<exists>e. clientHeap ?st q = Some e \<and> cd_client e = Some t"
      using own_session [OF inv(2)] by simp
  qed
  show "link_inv ?st"
  proof (rule link_invI)
    fix u z h
    assume u: "gameSessions ?st u = Some z" "gs_gameData z = Some h"
    show "\<exists>e. gameHeap ?st h = Some e \<and> gd_session e = Some u"
      using u session_game_inv [OF inv(3), of u z h] assms(5) g by (cases "u = s") auto
  next
    fix h e u
    assume h: "gameHeap ?st h = Some e" "gd_session e = Some u"
    show "\<exists>z. gameSessions ?st u = Some z \<and> gs_gameData z = Some h"
      using h game_session_inv [OF inv(3), of h e u] assms(2,3,5) by (cases "h = g") auto
  qed
  have ing: "inGameOf ?st h = inGameOf st h" for h by (simp add: inGameOf_def)
  have "inGameOf st g = {}" using noServer by (auto simp: inGameOf_def)
  then show "count_inv ?st"
    unfolding count_inv_def ing using assms(6) count_invD [OF inv(4)] by auto
  show "addr_inv ?st" using inv(5) assms(2,7) by (auto simp: addr_inv_def)
  show "len_inv ?st" using inv(6) assms(2) by (auto simp: len_inv_def split: if_splits)
qed

section \<open>A game server that goes\<close>

lemma deleteClient_frame:
  "deleteClient p (st\<lparr>servers := S, sent := L\<rparr>) = map_option (\<lambda>st. st\<lparr>servers := S, sent := L\<rparr>) (deleteClient p st)"
  by (auto simp: deleteClient_def decPlayerCount_def modGame_def split: option.splits Option.bind_splits)

lemma removeServerLoop_frame:
  "removeServerLoop g es (st\<lparr>servers := S, sent := L\<rparr>) =
     map_option (\<lambda>st. st\<lparr>servers := S, sent := L\<rparr>) (removeServerLoop g es st)"
proof (induction g es st rule: removeServerLoop.induct)
  case (1 g st)
  then show ?case by simp
next
  case (2 g i p es st)
  show ?case
  proof (cases "clientHeap st p")
    case None
    then show ?thesis by simp
  next
    case (Some c)
    show ?thesis
    proof (cases "cd_server c = Some g")
      case False
      then show ?thesis using Some 2(2) [OF Some False] by simp
    next
      case True
      let ?st = "st\<lparr>connectedClients := um_erase i (connectedClients st),
         connectedClientsByName := um_erase (toLower (cd_account c)) (connectedClientsByName st)\<rparr>"
      let ?st' = "(st\<lparr>servers := S, sent := L\<rparr>)\<lparr>connectedClients := um_erase i (connectedClients st),
         connectedClientsByName := um_erase (toLower (cd_account c)) (connectedClientsByName st)\<rparr>"
      have "?st' = ?st\<lparr>servers := S, sent := L\<rparr>" by simp
      then have "deleteClient p ?st' = map_option (\<lambda>st. st\<lparr>servers := S, sent := L\<rparr>) (deleteClient p ?st)"
        by (simp only: deleteClient_frame)
      then show ?thesis using Some True 2(1) [OF Some True]
        by (cases "deleteClient p ?st") simp_all
    qed
  qed
qed

lemma removeGame_ok:
  assumes "auth_inv st" "gameHeap st g = Some d"
    and "\<And>t h. h \<noteq> g \<Longrightarrow> (\<exists>y. gs' t = Some y \<and> gs_gameData y = Some h) \<longleftrightarrow>
      (\<exists>y. gameSessions st t = Some y \<and> gs_gameData y = Some h)"
    and "\<And>t y. gs' t = Some y \<Longrightarrow> gs_gameData y \<noteq> Some g \<and>
      (\<exists>z. gameSessions st t = Some z \<and> gs_queries y = gs_queries z)"
  shows "\<exists>st'. removeGame g st = Some st' \<and> gameSessions st' = gameSessions st \<and>
    gameHeap st' g = None \<and> (\<forall>p c. clientHeap st' p = Some c \<longrightarrow> cd_server c \<noteq> Some g) \<and>
    auth_inv (st'\<lparr>gameSessions := gs'\<rparr>)"
proof -
  note inv = auth_invD [OF assms(1)]
  let ?S = "um_erase (gd_serverIdx d) (servers st)" and ?L = "sent st @ [serverLog LM_GAME_SERVER_LOGOUT d]"
  obtain r where r: "removeServer g st = Some r" "auth_inv r" "clientSessions r = clientSessions st"
      "gameSessions r = gameSessions st" "servers r = servers st" "nextAddr r = nextAddr st"
      "sameGames (gameHeap r) (gameHeap st)"
      "\<And>p. clientHeap r p = (if \<exists>c. clientHeap st p = Some c \<and> cd_server c = Some g
           then None else clientHeap st p)"
    using removeServer_ok [OF assms(1), of g] by blast
  note rinv = auth_invD [OF r(2)]
  let ?st = "r\<lparr>servers := ?S, sent := ?L, gameHeap := (gameHeap r)(g := None)\<rparr>"
  have "removeServer g (st\<lparr>servers := ?S, sent := ?L\<rparr>) = Some (r\<lparr>servers := ?S, sent := ?L\<rparr>)"
    using r(1) by (simp add: removeServer_def removeServerLoop_frame)
  then have eq: "removeGame g st = Some ?st"
    using assms(2) by (simp add: removeGame_def deleteGame_def emit_def)
  have noServer: "cd_server c \<noteq> Some g" if "clientHeap r p = Some c" for p c
    using that unfolding r(8) by (auto split: if_splits)
  have oldServers: "(\<exists>e. gameHeap r h = Some e \<and> gd_serverIdx e = i) \<longleftrightarrow> um_find (servers st) i = Some h" for h i
  proof -
    have "um_find (servers r) i = Some h \<longleftrightarrow> (\<exists>e. gameHeap r h = Some e \<and> gd_serverIdx e = i)"
      using rinv(1) unfolding reg_inv_def by blast
    then show ?thesis unfolding r(5) by blast
  qed
  let ?fin = "?st\<lparr>gameSessions := gs'\<rparr>"
  have "auth_inv ?fin"
  proof (rule auth_invI)
    have g: "um_find (servers st) (gd_serverIdx d) = Some g"
      using inv(1) assms(2) by (simp add: reg_inv_def)
    have srv: "um_find (servers ?fin) i = Some h \<longleftrightarrow> (\<exists>e. gameHeap ?fin h = Some e \<and> gd_serverIdx e = i)" for i h
    proof -
      have idx: "i = gd_serverIdx d" if "um_find (servers st) i = Some g"
        using find_server_inv [OF inv(1) that] assms(2) by auto
      have "(\<exists>e. gameHeap ?fin h = Some e \<and> gd_serverIdx e = i) \<longleftrightarrow>
          h \<noteq> g \<and> um_find (servers st) i = Some h"
        unfolding oldServers [of h i, symmetric] by (cases "h = g") simp_all
      moreover have "um_find (servers ?fin) i = Some h \<longleftrightarrow> h \<noteq> g \<and> um_find (servers st) i = Some h"
      proof (cases "i = gd_serverIdx d")
        case True
        then show ?thesis using g by (auto simp: um.find_erase)
      next
        case False
        then have "um_find (servers st) i \<noteq> Some g" using idx by blast
        then show ?thesis using False by (auto simp: um.find_erase)
      qed
      ultimately show ?thesis by blast
    qed
    have "um_wf (servers ?fin)" using inv(1) by (simp add: reg_inv_def um.wf_erase)
    then show "reg_inv ?fin" using rinv(1) unfolding reg_inv_def srv by simp
    show "own_inv ?fin"
    proof (rule own_invI)
      fix q e t
      assume "clientHeap ?fin q = Some e" "cd_client e = Some t"
      then show "cd_server e = None \<and> \<not> cd_inGame e \<and> (\<exists>z. clientSessions ?fin t = Some z \<and> cs_clientData z = Some q)"
        using own_lobby [OF rinv(2)] by simp
    next
      fix q e
      assume "clientHeap ?fin q = Some e" "cd_client e = None"
      then show "\<exists>h d. cd_server e = Some h \<and> gameHeap ?fin h = Some d"
        using own_server [OF rinv(2)] noServer by fastforce
    next
      fix t z q
      assume "clientSessions ?fin t = Some z" "cs_clientData z = Some q"
      then show "\<exists>e. clientHeap ?fin q = Some e \<and> cd_client e = Some t"
        using own_session [OF rinv(2)] by simp
    qed
    show "link_inv ?fin"
    proof (rule link_invI)
      fix u z h
      assume u: "gameSessions ?fin u = Some z" "gs_gameData z = Some h"
      then have "h \<noteq> g" using assms(4) [of u z] by auto
      then have "\<exists>y. gameSessions r u = Some y \<and> gs_gameData y = Some h"
        using u assms(3) [of h u] r(4) by auto
      then show "\<exists>e. gameHeap ?fin h = Some e \<and> gd_session e = Some u"
        using session_game_inv [OF rinv(3)] \<open>h \<noteq> g\<close> by auto
    next
      fix h e u
      assume h: "gameHeap ?fin h = Some e" "gd_session e = Some u"
      then have "h \<noteq> g" "gameHeap r h = Some e" by (auto split: if_splits)
      then show "\<exists>z. gameSessions ?fin u = Some z \<and> gs_gameData z = Some h"
        using game_session_inv [OF rinv(3) _ h(2)] assms(3) [of h u] r(4) by simp
    qed
    have ing: "inGameOf ?fin h = inGameOf r h" for h by (simp add: inGameOf_def)
    show "count_inv ?fin"
      unfolding count_inv_def ing using count_invD [OF rinv(4)] by (auto split: if_splits)
    have "gs' p = None" if "p \<ge> nextAddr st" for p
      using assms(4) [of p] inv(5) that by (cases "gs' p") (auto simp: addr_inv_def)
    then show "addr_inv ?fin" using rinv(5) r(6) by (auto simp: addr_inv_def)
    have "\<forall>q \<in> set (gs_queries y). length (si_account q) < 61" if "gs' t = Some y" for t y
      using assms(4) [OF that] inv(6) by (auto simp: len_inv_def)
    then show "len_inv ?fin" using rinv(6) by (simp add: len_inv_def)
  qed
  then show ?thesis using eq r(4) noServer by simp
qed

end
