(* ===== verification/AuthMachine.thy ===== *)
theory AuthMachine
  imports AuthLink
begin

text \<open>
  The authentication server as a transition system: connections, packets, query results and billing
  commands in any order. Every step from a state that satisfies the invariant is defined and preserves it,
  provided game servers only report clients that are theirs.
\<close>

declare Let_def [simp]

section \<open>Game server handlers\<close>

lemma sessionKickClient_ok:
  assumes "auth_inv st" "gameSessions st s = Some x" "clientHeap st p = Some c" "cd_client c = None"
  shows "\<exists>st'. sessionKickClient cfg s p st = Some st' \<and> auth_inv st'"
proof -
  let ?st = "emit (ToGame s (AG_KICK_CLIENT (cd_account c))) st"
  have "length (cd_account c) < 61" using auth_invD(6) [OF assms(1)] assms(3) by (simp add: len_inv_def)
  then have eq: "sessionKickClient cfg s p st =
      (if \<not> cfg_strictKick cfg then removeClient p ?st else modClient p (\<lambda>c. c\<lparr>cd_kickRequested := True\<rparr>) ?st)"
    using assms(2,3) by (simp add: sessionKickClient_def strcpy61_def)
  have "auth_inv ?st" "clientHeap ?st p = Some c" using assms(1,3) by simp_all
  then show ?thesis
    unfolding eq using removeClient_game_inv [of ?st p c] modClient_keep [of ?st p c] assms(4) by auto
qed

lemma kickClient_ok:
  assumes "auth_inv st" "gameHeap st g = Some d" "clientHeap st p = Some c" "cd_client c = None"
  shows "\<exists>st'. kickClient cfg g p st = Some st' \<and> auth_inv st'"
proof (cases "gd_session d")
  case None
  then show ?thesis using assms by (simp add: kickClient_def)
next
  case (Some s)
  then show ?thesis
    using assms game_session_inv [OF auth_invD(3) [OF assms(1)] assms(2) Some] sessionKickClient_ok [OF assms(1)]
    by (fastforce simp: kickClient_def)
qed

lemma setReady_ok:
  assumes "auth_inv st" "gameHeap st g = Some d"
  shows "\<exists>st'. setReady g r st = Some st' \<and> auth_inv st'"
  using modGame_keep [OF assms, of "\<lambda>d. d\<lparr>gd_ready := r\<rparr>"] by (auto simp: setReady_def)

lemma onServerLogin_ok:
  assumes "auth_inv st" "gameSessions st s = Some x"
  shows "\<exists>st'. onServerLogin s packet guid st = Some st' \<and> auth_inv st'"
proof (cases "gs_gameData x")
  case (Some g)
  then show ?thesis using assms by (simp add: onServerLogin_def)
next
  case None
  note inv = auth_invD [OF assms(1)]
  let ?nm = "convertToString (ga_name packet) 20" and ?ip = "convertToString (ga_ip packet) 15"
    and ?url = "convertToString (ga_url packet) 255"
  show ?thesis
  proof (cases "um_find (servers st) (ga_idx packet)")
    case free: None
    define g where "g = nextAddr st"
    define d where "d = newGame (Some s) (ga_idx packet) ?nm ?ip (ga_port packet) ?url (ga_adult packet) guid"
    define st1 where "st1 = (emit (serverLog LM_GAME_SERVER_LOGIN d) st)\<lparr>nextAddr := g + 1,
      gameHeap := (gameHeap st)(g \<mapsto> d), servers := um_insert (ga_idx packet) g (servers st)\<rparr>"
    define st2 where "st2 = st1\<lparr>gameSessions := (gameSessions st1)(s \<mapsto> x\<lparr>gs_gameData := Some g\<rparr>)\<rparr>"
    have d: "gd_serverIdx d = ga_idx packet" "gd_session d = Some s" "gd_playerCount d = 0"
      by (simp_all add: d_def newGame_def)
    have add: "tryAddGame s (ga_idx packet) ?nm ?ip (ga_port packet) ?url (ga_adult packet) guid st = (Added g, st1)"
      using free by (simp add: tryAddGame_def Let_def st1_def g_def d_def)
    have link: "setGameData 8 s (Some g) st1 = Some st2"
      unfolding st2_def by (rule link_fresh [of _ _ _ _ d]) (simp_all add: st1_def assms(2) None d)
    have "auth_inv (emit (serverLog LM_GAME_SERVER_LOGIN d) st)" using assms(1) by simp
    from new_game_inv [OF this, of s x d g] have "auth_inv st2"
      using assms(2) None free d by (simp add: st2_def st1_def g_def)
    moreover have "gameHeap st2 g = Some d" by (simp add: st2_def st1_def)
    ultimately obtain st3 where "setReady g (\<not> gs_autoReconnect x) st2 = Some st3" "auth_inv st3"
      using setReady_ok by blast
    then show ?thesis using assms(2) None add link by (simp add: onServerLogin_def)
  next
    case (Some old)
    then obtain d where d: "gameHeap st old = Some d" using find_server_inv [OF inv(1)] by blast
    have add: "tryAddGame s (ga_idx packet) ?nm ?ip (ga_port packet) ?url (ga_adult packet) guid st = (Existing old, st)"
      using Some by (simp add: tryAddGame_def)
    show ?thesis
    proof (cases "gs_autoReconnect x \<and> guid \<noteq> None \<and> sameServer d packet (the guid)")
      case False
      then show ?thesis using assms None add d by (auto simp: onServerLogin_def)
    next
      case True
      obtain st1 where st1: "setGameData 8 s (Some old) st = Some st1" "auth_inv st1" "gameHeap st1 old \<noteq> None"
        using link_ok [OF assms None d] by auto
      then obtain st2 where "setReady old False st1 = Some st2" "auth_inv st2"
        using setReady_ok by blast
      then show ?thesis using assms(2) None add d True st1(1)
        by (simp add: onServerLogin_def split: option.splits del: not_None_eq)
    qed
  qed
qed

lemma onServerLogout_ok:
  assumes "auth_inv st" "gameSessions st s = Some x"
  shows "\<exists>st'. onServerLogout s st = Some st' \<and> auth_inv st'"
proof (cases "gs_gameData x")
  case None
  then show ?thesis using assms by (simp add: onServerLogout_def)
next
  case (Some g)
  note inv = auth_invD [OF assms(1)]
  obtain d where d: "gameHeap st g = Some d" "gd_session d = Some s"
    using session_game_inv [OF inv(3) assms(2) Some] by blast
  have only: "t = s" if "gameSessions st t = Some y" "gs_gameData y = Some g" for t y
    using session_game_inv [OF inv(3) that] d by auto
  let ?gs = "(gameSessions st)(s \<mapsto> x\<lparr>gs_gameData := None\<rparr>)"
  have c1: "(\<exists>y. ?gs t = Some y \<and> gs_gameData y = Some h) \<longleftrightarrow>
      (\<exists>y. gameSessions st t = Some y \<and> gs_gameData y = Some h)" if "h \<noteq> g" for t h
    using assms(2) Some that by (cases "t = s") auto
  have c2: "gs_gameData y \<noteq> Some g \<and> (\<exists>z. gameSessions st t = Some z \<and> gs_queries y = gs_queries z)"
    if "?gs t = Some y" for t y
    using assms(2) only that by (cases "t = s") auto
  obtain st1 where "removeGame g st = Some st1" "gameSessions st1 = gameSessions st"
      "auth_inv (st1\<lparr>gameSessions := ?gs\<rparr>)"
    using removeGame_ok [OF assms(1) d(1) c1 c2] by blast
  then show ?thesis using assms(2) Some by (simp add: onServerLogout_def modGameSession_def)
qed

lemma destroyGameSession_ok:
  assumes "auth_inv st" "gameSessions st s = Some x"
  shows "\<exists>st'. destroyGameSession s st = Some st' \<and> auth_inv st'"
proof (cases "gs_gameData x")
  case None
  then show ?thesis using assms drop_game_session_inv [OF assms] by (simp add: destroyGameSession_def)
next
  case (Some g)
  note inv = auth_invD [OF assms(1)]
  obtain d where d: "gameHeap st g = Some d" "gd_session d = Some s"
    using session_game_inv [OF inv(3) assms(2) Some] by blast
  have only: "t = s" if "gameSessions st t = Some y" "gs_gameData y = Some g" for t y
    using session_game_inv [OF inv(3) that] d by auto
  show ?thesis
  proof (cases "gs_autoReconnect x")
    case True
    obtain st1 y where st1: "setGameData 8 s None st = Some st1" "auth_inv st1"
        "gameSessions st1 s = Some y" "gs_gameData y = None"
      using unlink_ok [OF assms Some] by blast
    then show ?thesis using drop_game_session_inv [OF st1(2-4)] assms(2) Some d True
      by (simp add: destroyGameSession_def)
  next
    case False
    let ?gs = "(gameSessions st)(s := None)"
    have c1: "(\<exists>y. ?gs t = Some y \<and> gs_gameData y = Some h) \<longleftrightarrow>
        (\<exists>y. gameSessions st t = Some y \<and> gs_gameData y = Some h)" if "h \<noteq> g" for t h
      using assms(2) Some that by (cases "t = s") auto
    have c2: "gs_gameData y \<noteq> Some g \<and> (\<exists>z. gameSessions st t = Some z \<and> gs_queries y = gs_queries z)"
      if "?gs t = Some y" for t y
      using assms(2) only that by (cases "t = s") auto
    obtain st1 where "removeGame g st = Some st1" "gameSessions st1 = gameSessions st"
        "auth_inv (st1\<lparr>gameSessions := ?gs\<rparr>)"
      using removeGame_ok [OF assms(1) d(1) c1 c2] by blast
    then show ?thesis using assms(2) Some d False by (simp add: destroyGameSession_def)
  qed
qed

subsection \<open>Account lists\<close>

lemma accountName_short: "length (convertToString s 60) < 61"
  using convertToString_length [of 60 s] by simp

definition listed :: "auth_config \<Rightarrow> nat \<Rightarrow> account_info \<Rightarrow> client_data" where
  "listed cfg g a = (added cfg None (convertToString (ai_account a) 60) (ai_accountID a) (ai_age a)
     (ai_eventCode a) (ai_pcBang a) (ai_ip a))\<lparr>cd_oneTimePassword := 0, cd_client := None,
     cd_server := Some g, cd_inGame := True, cd_loginTime := ai_loginTime a\<rparr>"

lemma addAccount_added:
  assumes "addr_inv st" "gameHeap st g = Some d"
    and "um_find (connectedClients st) (ai_accountID a) = None"
    and "um_find (connectedClientsByName st) (toLower (convertToString (ai_account a) 60)) = None"
  shows "addAccount cfg now s g a st =
    Some ((registered st (nextAddr st) (listed cfg g a))\<lparr>gameHeap := moreOf g (gameHeap st)\<rparr>)"
  using assms(2-4)
  by (simp add: addAccount_def tryAddClient_eq [OF assms(1)] switchClientToServer_def modClient_def
    connectedToGame_def incPlayerCount_def modGame_def moreOf_def listed_def registered_def added_def
    newClient_def Let_def)

lemma addAccount_ok:
  assumes "auth_inv st" "gameHeap st g \<noteq> None" "gameSessions st s = Some x"
  shows "\<exists>st'. addAccount cfg now s g a st = Some st' \<and> auth_inv st' \<and> gameHeap st' g \<noteq> None \<and>
    gameSessions st' = gameSessions st"
proof -
  note inv = auth_invD [OF assms(1)]
  let ?nm = "convertToString (ai_account a) 60"
  obtain d where d: "gameHeap st g = Some d" using assms(2) by blast
  show ?thesis
  proof (cases "um_find (connectedClients st) (ai_accountID a) = None \<and>
      um_find (connectedClientsByName st) (toLower ?nm) = None")
    case True
    have "auth_inv ((registered st (nextAddr st) (listed cfg g a))\<lparr>gameHeap := moreOf g (gameHeap st)\<rparr>)"
      by (rule add_ingame_inv [OF assms(1) refl d])
         (use True accountName_short in \<open>simp_all add: listed_def\<close>)
    moreover have "moreOf g (gameHeap st) g \<noteq> None" using d by (simp add: moreOf_def)
    ultimately show ?thesis using addAccount_added [OF inv(5) d] True by simp
  next
    case False
    then obtain old where "um_find (connectedClients st) (ai_accountID a) = Some old \<or>
        um_find (connectedClients st) (ai_accountID a) = None \<and>
        um_find (connectedClientsByName st) (toLower ?nm) = Some old"
      by (cases "um_find (connectedClients st) (ai_accountID a)") auto
    then have "tryAddClient cfg None ?nm (ai_accountID a) (ai_age a) (ai_eventCode a) (ai_pcBang a)
        (ai_ip a) st = Some (Existing old, st\<lparr>nextAddr := nextAddr st + 1\<rparr>)"
      by (auto simp: tryAddClient_eq [OF inv(5)])
    moreover from existing_alive [OF assms(1) this] have "auth_inv (st\<lparr>nextAddr := nextAddr st + 1\<rparr>)" by blast
    ultimately show ?thesis
      using d accountName_short by (simp add: addAccount_def strcpy61_def del: not_None_eq)
  qed
qed

lemma addAccounts_ok:
  assumes "auth_inv st" "gameHeap st g \<noteq> None" "gameSessions st s = Some x"
  shows "\<exists>st'. addAccounts cfg now s g as st = Some st' \<and> auth_inv st' \<and> gameHeap st' g \<noteq> None \<and>
    gameSessions st' = gameSessions st"
  using assms
proof (induction "as" arbitrary: st)
  case Nil
  then show ?case by simp
next
  case (Cons a "as")
  obtain st1 where st1: "addAccount cfg now s g a st = Some st1" "auth_inv st1" "gameHeap st1 g \<noteq> None"
      "gameSessions st1 = gameSessions st"
    using addAccount_ok [OF Cons.prems] by blast
  with Cons.IH [OF st1(2,3)] Cons.prems(3) show ?case by simp
qed

lemma onAccountList_ok:
  assumes "auth_inv st" "gameSessions st s = Some x"
    and "accountListSize count = packetSize \<Longrightarrow> unat count \<le> length infos"
  shows "\<exists>st'. onAccountList cfg now s packetSize count final infos st = Some st' \<and> auth_inv st'"
proof (cases "\<exists>g. gs_gameData x = Some g \<and> accountListSize count = packetSize")
  case False
  then show ?thesis using assms(1,2) by (auto simp: onAccountList_def split: option.splits)
next
  case True
  then obtain g where g: "gs_gameData x = Some g" and size: "accountListSize count = packetSize" by blast
  let ?as = "gs_accounts x @ map cutAccount (take (unat count) infos)"
  have q: "\<forall>q \<in> set (gs_queries x). length (si_account q) < 61"
    using auth_invD(6) [OF assms(1)] assms(2) by (simp add: len_inv_def)
  let ?x = "x\<lparr>gs_accounts := ?as\<rparr>"
  obtain st1 where st1: "modGameSession s (\<lambda>y. y\<lparr>gs_accounts := ?as\<rparr>) st = Some st1" "auth_inv st1"
      "st1 = st\<lparr>gameSessions := (gameSessions st)(s \<mapsto> ?x)\<rparr>"
    using modGameSession_keep [OF assms(1,2), of "\<lambda>y. y\<lparr>gs_accounts := ?as\<rparr>"] q by auto
  show ?thesis
  proof (cases final)
    case False
    then show ?thesis using assms(2,3) g size st1(1,2) by (simp add: onAccountList_def)
  next
    case True
    have g1: "gameSessions st1 s = Some ?x" "gs_gameData ?x = Some g" using st1(3) g by simp_all
    then obtain d where d: "gameHeap st1 g = Some d"
      using session_game_inv [OF auth_invD(3) [OF st1(2)]] by blast
    obtain st2 where st2: "removeServer g st1 = Some st2" "auth_inv st2" "gameSessions st2 = gameSessions st1"
        "sameGames (gameHeap st2) (gameHeap st1)"
      using removeServer_ok [OF st1(2), of g] by blast
    have "gameHeap st2 g \<noteq> None" using sameGames_None [OF st2(4), of g] d by simp
    then obtain st3 where st3: "addAccounts cfg now s g ?as st2 = Some st3" "auth_inv st3" "gameHeap st3 g \<noteq> None"
        "gameSessions st3 = gameSessions st2"
      using addAccounts_ok [OF st2(2)] st2(3) g1(1) by metis
    obtain d3 where d3: "gameHeap st3 g = Some d3" using st3(3) by blast
    obtain st4 where st4: "setReady g True st3 = Some st4" "auth_inv st4" "gameSessions st4 = gameSessions st3"
      using modGame_keep [OF st3(2) d3, of "\<lambda>d. d\<lparr>gd_ready := True\<rparr>"] by (auto simp: setReady_def)
    have "gameSessions st4 s = Some ?x" using st4(3) st3(4) st2(3) g1(1) by simp
    then obtain st5 where "modGameSession s (\<lambda>y. y\<lparr>gs_accounts := []\<rparr>) st4 = Some st5" "auth_inv st5"
      using modGameSession_keep [OF st4(2), of s ?x "\<lambda>y. y\<lparr>gs_accounts := []\<rparr>"] q by auto
    then show ?thesis
      using assms(2,3) g size True st1(1) st2(1) st3(1) st4(1) by (simp add: onAccountList_def)
  qed
qed

subsection \<open>Clients on a game server\<close>

lemma sendClientLoginResult_ok:
  "auth_inv st \<Longrightarrow> gameSessions st s = Some x \<Longrightarrow>
    \<exists>st'. sendClientLoginResult s account r client st = Some st' \<and> auth_inv st'"
  by (simp add: sendClientLoginResult_def)

lemma getClient_alive:
  "auth_inv st \<Longrightarrow> getClient account st = Some p \<Longrightarrow> \<exists>c. clientHeap st p = Some c"
  using find_name_inv [OF auth_invD(1), of st "toLower account" p] by (auto simp: getClient_def)

lemma onClientLogin_ok:
  assumes "auth_inv st" "gameSessions st s = Some x"
  shows "\<exists>st'. onClientLogin now s account key st = Some st' \<and> auth_inv st'"
proof -
  note inv = auth_invD [OF assms(1)]
  note reply = sendClientLoginResult_ok [OF assms]
  let ?a = "convertToString account 60"
  have short: "\<not> length ?a \<ge> 61" using accountName_short by (simp add: not_le)
  show ?thesis
  proof (cases "gs_gameData x")
    case None
    then show ?thesis using assms(2) reply by (simp add: onClientLogin_def)
  next
    case (Some g)
    then obtain d where d: "gameHeap st g = Some d" using session_game_inv [OF inv(3) assms(2)] by blast
    show ?thesis
    proof (cases "getClient ?a st")
      case None
      then show ?thesis using assms(2) reply Some short by (simp add: onClientLogin_def)
    next
      case p: (Some p)
      then obtain c where c: "clientHeap st p = Some c" using getClient_alive [OF assms(1)] by blast
      show ?thesis
      proof (cases "cd_server c = None \<or> cd_server c \<noteq> Some g \<or> \<not> isReady d \<or>
          cd_oneTimePassword c \<noteq> key \<or> cd_inGame c")
        case True
        then show ?thesis using assms(2) reply Some short p c d by (simp add: onClientLogin_def)
      next
        case False
        then have c': "cd_server c = Some g" "\<not> cd_inGame c" by auto
        let ?st = "st\<lparr>gameHeap := moreOf g (gameHeap st),
          clientHeap := (clientHeap st)(p \<mapsto> c\<lparr>cd_inGame := True, cd_loginTime := now\<rparr>)\<rparr>"
        have "connectedToGame now p st = Some ?st" "auth_inv ?st"
          using connectedToGame_ok [OF assms(1) c c'] by blast+
        then show ?thesis using assms(2) Some short p c d False
          by (simp add: onClientLogin_def sendClientLoginResult_def)
      qed
    qed
  qed
qed

text \<open>A game server may only report clients that are not in the lobby.\<close>

definition notInLobby :: "string \<Rightarrow> auth_state \<Rightarrow> bool" where
  "notInLobby accountField st =
     (case getClient (convertToString accountField 60) st of
        None \<Rightarrow> True
      | Some p \<Rightarrow> (case clientHeap st p of None \<Rightarrow> True | Some c \<Rightarrow> cd_client c = None))"

lemma onClientLogout_ok:
  assumes "auth_inv st" "gameSessions st s = Some x" "notInLobby account st"
  shows "\<exists>st'. onClientLogout now s account st = Some st' \<and> auth_inv st'"
proof (cases "\<exists>g p. gs_gameData x = Some g \<and> getClient (convertToString account 60) st = Some p")
  case False
  then show ?thesis using assms(1,2) by (auto simp: onClientLogout_def split: option.splits)
next
  case True
  then obtain g p where gp: "gs_gameData x = Some g" "getClient (convertToString account 60) st = Some p" by blast
  obtain c where c: "clientHeap st p = Some c" using getClient_alive [OF assms(1) gp(2)] by blast
  obtain d where d: "gameHeap st g = Some d" using session_game_inv [OF auth_invD(3) [OF assms(1)] assms(2) gp(1)] by blast
  have "cd_client c = None" using assms(3) gp(2) c by (simp add: notInLobby_def)
  then show ?thesis
    using removeClient_game_inv [of "emit m st" p c for m] assms(1,2) gp c d by (simp add: onClientLogout_def)
qed

lemma onClientKickFailed_ok:
  assumes "auth_inv st" "gameSessions st s = Some x" "notInLobby account st"
  shows "\<exists>st'. onClientKickFailed now s account st = Some st' \<and> auth_inv st'"
proof (cases "\<exists>g p. gs_gameData x = Some g \<and> getClient (convertToString account 60) st = Some p")
  case False
  then show ?thesis using assms(1,2) by (auto simp: onClientKickFailed_def split: option.splits)
next
  case True
  then obtain g p where gp: "gs_gameData x = Some g" "getClient (convertToString account 60) st = Some p" by blast
  obtain c where c: "clientHeap st p = Some c" using getClient_alive [OF assms(1) gp(2)] by blast
  obtain d where d: "gameHeap st g = Some d" using session_game_inv [OF auth_invD(3) [OF assms(1)] assms(2) gp(1)] by blast
  have "cd_client c = None" using assms(3) gp(2) c by (simp add: notInLobby_def)
  then show ?thesis
    using removeClient_game_inv [of "emit m st" p c for m] assms(1,2) gp c d by (simp add: onClientKickFailed_def)
qed

subsection \<open>Security numbers and billing\<close>

lemma onSecurityNoCheck_ok:
  assumes "auth_inv st" "gameSessions st s = Some x"
  shows "\<exists>st'. onSecurityNoCheck s account security mode st = Some st' \<and> auth_inv st'"
proof -
  let ?q = "\<lparr>si_account = convertToString account 60, si_securityNo = convertToString security 18,
    si_mode = (case mode of Some m \<Rightarrow> m | None \<Rightarrow> 0)\<rparr>"
  let ?f = "\<lambda>y. y\<lparr>gs_securityNoSendMode := (gs_securityNoSendMode y \<and> mode \<noteq> None),
    gs_queries := gs_queries y @ [?q]\<rparr>"
  have "\<forall>q \<in> set (gs_queries x). length (si_account q) < 61"
    using auth_invD(6) [OF assms(1)] assms(2) by (simp add: len_inv_def)
  then have "\<forall>q \<in> set (gs_queries (?f x)). length (si_account q) < 61"
    using accountName_short by simp
  then obtain st' where "modGameSession s ?f st = Some st'" "auth_inv st'"
    using modGameSession_keep [OF assms, of ?f] by auto
  then show ?thesis unfolding onSecurityNoCheck_def Let_def by blast
qed

definition securityQueryDone :: "nat \<Rightarrow> nat \<Rightarrow> auth_state \<Rightarrow> auth_state option" where
  "securityQueryDone s results st = do {
     x \<leftarrow> gameSessions st s;
     (case gs_queries x of
        [] \<Rightarrow> None
      | input # rest \<Rightarrow> do {
          st \<leftarrow> modGameSession s (\<lambda>y. y\<lparr>gs_queries := rest\<rparr>) st;
          onSecurityNoCheckResult s input results st }) }"

lemma securityQueryDone_ok:
  assumes "auth_inv st" "gameSessions st s = Some x" "gs_queries x \<noteq> []"
  shows "\<exists>st'. securityQueryDone s results st = Some st' \<and> auth_inv st'"
proof -
  obtain input rest where q: "gs_queries x = input # rest" using assms(3) by (cases "gs_queries x") auto
  have short: "\<forall>q \<in> set (gs_queries x). length (si_account q) < 61"
    using auth_invD(6) [OF assms(1)] assms(2) by (simp add: len_inv_def)
  obtain st1 where st1: "modGameSession s (\<lambda>y. y\<lparr>gs_queries := rest\<rparr>) st = Some st1" "auth_inv st1"
      "st1 = st\<lparr>gameSessions := (gameSessions st)(s \<mapsto> x\<lparr>gs_queries := rest\<rparr>)\<rparr>"
    using modGameSession_keep [OF assms(1,2), of "\<lambda>y. y\<lparr>gs_queries := rest\<rparr>"] short q by auto
  have "gameSessions st1 s = Some (x\<lparr>gs_queries := rest\<rparr>)" using st1(3) by simp
  then show ?thesis
    using assms(2) q short st1(1,2) by (simp add: securityQueryDone_def onSecurityNoCheckResult_def strcpy61_def)
qed

lemma billing_ok:
  assumes "auth_inv st"
  shows "\<exists>st'. onBillingCommand args st = Some st' \<and> auth_inv st'"
proof -
  note inv = auth_invD [OF assms]
  have one: "\<exists>st'. sendNotifyItemPurchased g p st = Some st' \<and> auth_inv st'"
    "\<exists>st'. sendNotifyItemSupplied g p st = Some st' \<and> auth_inv st'"
    if c: "clientHeap st p = Some c" "cd_server c = Some g" for p c g
  proof -
    obtain d where d: "gameHeap st g = Some d" using server_alive [OF inv(2) c] by blast
    show "\<exists>st'. sendNotifyItemPurchased g p st = Some st' \<and> auth_inv st'"
      "\<exists>st'. sendNotifyItemSupplied g p st = Some st' \<and> auth_inv st'"
      using d c(1) game_session_inv [OF inv(3) d] assms
      by (auto simp: sendNotifyItemPurchased_def sendNotifyItemSupplied_def gameNotifyItemPurchased_def
        gameNotifyItemSupplied_def split: option.splits)
  qed
  have "\<exists>st'. billingNotice cmd i st = Some st' \<and> auth_inv st'" for cmd i
  proof (cases "getClientById (word_of_int (strtol i)) st")
    case None
    then show ?thesis using assms by (simp add: billingNotice_def Let_def)
  next
    case (Some p)
    then obtain c where "clientHeap st p = Some c"
      using find_client_inv [OF inv(1)] by (auto simp: getClientById_def)
    then show ?thesis using assms Some one by (auto simp: billingNotice_def Let_def split: option.splits)
  qed
  then show ?thesis using assms by (simp add: onBillingCommand_def)
qed

end
