(* ===== verification/AuthRun.thy ===== *)
theory AuthRun
  imports AuthMachine
begin

text \<open>
  The client handlers keep the invariant, and the whole server as a machine over events.
\<close>

section \<open>Client handlers\<close>

lemma preProcess_keeps [simp]:
  "cs_clientData (preProcessPacketReceived i n x) = cs_clientData x"
  "cs_dbQuery (preProcessPacketReceived i n x) = cs_dbQuery x"
  by (simp_all add: preProcessPacketReceived_def setMinimum_def)

lemma dbQuery_short:
  "auth_inv st \<Longrightarrow> clientSessions st s = Some x \<Longrightarrow> \<forall>q \<in> set (cs_dbQuery x). length (in_account q) < 61"
  using auth_invD(6) by (simp add: len_inv_def)

lemma dropOldClient_ok:
  assumes "auth_inv st" "clientHeap st old = Some c"
  shows "\<exists>st'. dropOldClient cfg i account ip old st = Some st' \<and> auth_inv st'"
proof -
  note inv = auth_invD [OF assms(1)]
  show ?thesis
  proof (cases "cd_client c")
    case None
    then obtain g d where g: "cd_server c = Some g" "gameHeap st g = Some d"
      using own_server [OF inv(2) assms(2)] by blast
    let ?st = "emit (LogMsg LM_ACCOUNT_DUPLICATE_GAME_LOGIN
      [uint i, 0, 0, uint (gd_serverIdx d), 0, 0, 0, 0, 0, 0, 0] [account, ip, cd_ip c, []]) st"
    have "auth_inv ?st" "clientHeap ?st old = Some c" "gameHeap ?st g = Some d"
      using assms g by simp_all
    then show ?thesis
      using kickClient_ok [of ?st g d old c] removeClient_game_inv [of ?st old c] assms(2) g None
      by (simp add: dropOldClient_def)
  next
    case (Some s)
    then show ?thesis using own_lobby [OF inv(2) assms(2) Some] assms by (auto simp: dropOldClient_def)
  qed
qed

lemma clientAuthResult_ok:
  assumes "auth_inv st" "clientSessions st s = Some x" "length (in_account input) < 61"
  shows "\<exists>st'. clientAuthResult cfg s input results st = Some st' \<and> auth_inv st'"
proof (cases "\<exists>row. results = [row] \<and> out_ok row \<and> out_auth_ok row \<and> \<not> out_block row \<and>
    cs_clientData x = None")
  case False
  then show ?thesis using assms(1,2) by (auto simp: clientAuthResult_def split: list.splits)
next
  case True
  note inv = auth_invD [OF assms(1)]
  obtain row where res: "results = [row]" "out_ok row" "out_auth_ok row" "\<not> out_block row"
      "cs_clientData x = None" using True by blast
  obtain r st1 where r: "tryAddClient cfg (Some s) (in_account input) (out_account_id row) (out_age row)
      (out_event_code row) (out_pcbang row) (cs_remoteIp x) st = Some (r, st1)"
    using tryAddClient_eq [OF inv(5)] by (metis prod.exhaust_sel)
  show ?thesis
  proof (cases r)
    case (Existing old)
    obtain c where c: "st1 = st\<lparr>nextAddr := nextAddr st + 1\<rparr>" "auth_inv st1" "clientHeap st old = Some c"
      using existing_alive [OF assms(1) r [unfolded Existing]] by blast
    then have "clientHeap st1 old = Some c" by simp
    then obtain st2 where "dropOldClient cfg (out_account_id row) (in_account input) (cs_remoteIp x) old st1 = Some st2"
        "auth_inv st2" using dropOldClient_ok [OF c(2)] by blast
    then show ?thesis using assms(2) res r Existing by (simp add: clientAuthResult_def loginResult_def)
  next
    case (Added p)
    let ?c = "added cfg (Some s) (in_account input) (out_account_id row) (out_age row)
      (out_event_code row) (out_pcbang row) (cs_remoteIp x)"
    have free: "um_find (connectedClients st) (out_account_id row) = None"
        "um_find (connectedClientsByName st) (toLower (in_account input)) = None"
        "p = nextAddr st" "st1 = registered st (nextAddr st) ?c"
      using r Added by (auto simp: tryAddClient_eq [OF inv(5)] split: option.splits)
    let ?y = "x\<lparr>cs_clientData := Some p, cs_lastLoginServerId := out_last_login_server_idx row,
      cs_serverIdxOffset := out_server_idx_offset row\<rparr>"
    let ?st = "(registered st p ?c)\<lparr>clientSessions := (clientSessions st)(s \<mapsto> ?y)\<rparr>"
    have "auth_inv ?st"
      by (rule add_lobby_inv [OF assms(1,2) res(5) free(3)]) (use free(1,2) assms(3) in simp_all)
    moreover have "modClientSession s (\<lambda>y. y\<lparr>cs_clientData := Some p,
        cs_lastLoginServerId := out_last_login_server_idx row,
        cs_serverIdxOffset := out_server_idx_offset row\<rparr>) st1 = Some ?st"
      using free(3,4) assms(2) by (simp add: modClientSession_def)
    ultimately show ?thesis using assms(2) res r Added by (simp add: clientAuthResult_def loginResult_def)
  qed
qed

lemma accountQueryDone_ok:
  assumes "auth_inv st" "clientSessions st s = Some x" "cs_dbQuery x \<noteq> []"
  shows "\<exists>st'. accountQueryDone cfg s results st = Some st' \<and> auth_inv st'"
proof -
  obtain input rest where q: "cs_dbQuery x = input # rest" using assms(3) by (cases "cs_dbQuery x") auto
  obtain st1 where st1: "modClientSession s (\<lambda>y. y\<lparr>cs_dbQuery := rest\<rparr>) st = Some st1" "auth_inv st1"
      "st1 = st\<lparr>clientSessions := (clientSessions st)(s \<mapsto> x\<lparr>cs_dbQuery := rest\<rparr>)\<rparr>"
    using modClientSession_keep [OF assms(1,2), of "\<lambda>y. y\<lparr>cs_dbQuery := rest\<rparr>"] dbQuery_short [OF assms(1,2)] q
    by auto
  have "clientSessions st1 s = Some (x\<lparr>cs_dbQuery := rest\<rparr>)" "length (in_account input) < 61"
    using st1(3) dbQuery_short [OF assms(1,2)] q by simp_all
  then show ?thesis using clientAuthResult_ok [OF st1(2)] assms(2) q st1(1) by (simp add: accountQueryDone_def)
qed

lemma serverListLoop_ok:
  assumes "cfg_maxPlayers cfg \<noteq> 0" "\<And>i g. (i, g) \<in> set es \<Longrightarrow> gameHeap st g \<noteq> None"
  shows "\<exists>l. serverListLoop cfg x es st = Some l"
  using assms(2)
proof (induction es)
  case Nil
  then show ?case by simp
next
  case (Cons e es)
  obtain i g where e: "e = (i, g)" by force
  obtain d where "gameHeap st g = Some d" using Cons.prems e by fastforce
  moreover obtain l where "serverListLoop cfg x es st = Some l" using Cons by fastforce
  ultimately show ?case using e assms(1) by (simp add: userRatio_def)
qed

lemma onServerList_ok:
  assumes "auth_inv st" "clientSessions st s = Some x" "cfg_maxPlayers cfg \<noteq> 0"
  shows "\<exists>st'. onServerList cfg s st = Some st' \<and> auth_inv st'"
proof -
  note reg = auth_invD(1) [OF assms(1)]
  have "gameHeap st g \<noteq> None" if "(i, g) \<in> set (servers st)" for i g
  proof -
    have "um_wf (servers st)" using reg by (simp add: reg_inv_def)
    then have "um_find (servers st) i = Some g" using that by (rule um_mem_find)
    then show ?thesis using find_server_inv [OF reg] by fastforce
  qed
  then obtain l where "serverListLoop cfg x (servers st) st = Some l"
    using serverListLoop_ok [OF assms(3)] by blast
  then show ?thesis using assms(1,2) by (simp add: onServerList_def split: option.splits)
qed

lemma onSelectServer_ok:
  assumes "auth_inv st" "clientSessions st s = Some x"
  shows "\<exists>st'. onSelectServer aes rands s i st = Some st' \<and> auth_inv st'"
proof (cases "\<exists>p g. cs_clientData x = Some p \<and> um_find (servers st) (ucast i) = Some g")
  case False
  then show ?thesis using assms by (auto simp: onSelectServer_def split: option.splits)
next
  case True
  note inv = auth_invD [OF assms(1)]
  obtain p g where pg: "cs_clientData x = Some p" "um_find (servers st) (ucast i) = Some g" using True by blast
  obtain c where c: "clientHeap st p = Some c" "cd_client c = Some s"
    using own_session [OF inv(2) assms(2) pg(1)] by blast
  obtain d where d: "gameHeap st g = Some d" using find_server_inv [OF inv(1) pg(2)] by blast
  let ?st = "emit (UpdateLastServerIdx (cd_accountId c) (ucast i)) st"
  let ?e = "c\<lparr>cd_oneTimePassword := prod_list (take 4 rands), cd_client := None, cd_server := Some g\<rparr>"
  let ?y = "x\<lparr>cs_clientData := None\<rparr>"
  have "\<not> cd_inGame c" using own_lobby [OF inv(2) c] by blast
  then have "auth_inv (?st\<lparr>clientHeap := (clientHeap ?st)(p \<mapsto> ?e), clientSessions := (clientSessions ?st)(s \<mapsto> ?y)\<rparr>)"
    by (intro switch_inv [of ?st s x p c g d]) (use assms pg c d in simp_all)
  then show ?thesis using assms(2) pg c
    by (auto simp: onSelectServer_def switchClientToServer_def modClient_def modClientSession_def split: option.splits)
qed

text \<open>An account name from a packet has at most 60 characters in the versions before 9.6.6.\<close>

definition clientPacketOk :: "auth_config \<Rightarrow> client_packet \<Rightarrow> bool" where
  "clientPacketOk cfg packet =
     (case packet of
        CA_ACCOUNT a _ _ \<Rightarrow> length a < 61
      | CA_IMBC_ACCOUNT a _ _ \<Rightarrow> length a < 61
      | CA_SERVER_LIST \<Rightarrow> cfg_maxPlayers cfg \<noteq> 0
      | _ \<Rightarrow> True)"

lemma query_ok:
  assumes "auth_inv st" "clientSessions st s = Some x" "length (in_account q) < 61"
  shows "\<exists>st'. modClientSession s (\<lambda>y. y\<lparr>cs_dbQuery := [q]\<rparr>) st = Some st' \<and> auth_inv st'"
  using modClientSession_keep [OF assms(1,2), of "\<lambda>y. y\<lparr>cs_dbQuery := [q]\<rparr>"] assms(3) by auto

lemma clientPacketHandler_ok:
  assumes "auth_inv st" "clientSessions st s = Some x" "clientPacketOk cfg packet"
  shows "\<exists>st'. clientPacketHandler cfg env key rands s i packet st = Some st' \<and> auth_inv st'"
proof (cases packet)
  case (CA_VERSION v)
  obtain st1 where "modClientSession s (\<lambda>y. y\<lparr>cs_packetVersion := detectVersion v\<rparr>) st = Some st1" "auth_inv st1"
    using modClientSession_keep [OF assms(1,2), of "\<lambda>y. y\<lparr>cs_packetVersion := detectVersion v\<rparr>"]
      dbQuery_short [OF assms(1,2)] by auto
  then show ?thesis using CA_VERSION by (simp add: onVersion_def)
next
  case (CA_RSA_PUBLIC_KEY k)
  obtain st1 where "modClientSession s (\<lambda>y. y\<lparr>cs_aesKey := take 32 key\<rparr>) st = Some st1" "auth_inv st1"
    using modClientSession_keep [OF assms(1,2), of "\<lambda>y. y\<lparr>cs_aesKey := take 32 key\<rparr>"]
      dbQuery_short [OF assms(1,2)] by auto
  then show ?thesis using CA_RSA_PUBLIC_KEY assms(1,2) by (simp add: onRsaKey_def split: option.splits)
next
  case (CA_ACCOUNT a p n)
  then have "length a < 61" using assms(3) by (simp add: clientPacketOk_def)
  then show ?thesis using CA_ACCOUNT assms(1,2) query_ok [OF assms(1,2)]
    by (simp add: onAccount_def accountInput_def)
next
  case (CA_IMBC_ACCOUNT a p n)
  then have "length a < 61" using assms(3) by (simp add: clientPacketOk_def)
  then show ?thesis using CA_IMBC_ACCOUNT assms(1,2) query_ok [OF assms(1,2)]
    by (simp add: onImbcAccount_def accountInput_def)
next
  case CA_SERVER_LIST
  then show ?thesis using onServerList_ok [OF assms(1,2)] assms(3) by (simp add: clientPacketOk_def)
next
  case (CA_SELECT_SERVER i)
  then show ?thesis using onSelectServer_ok [OF assms(1,2)] by simp
next
  case CA_IGNORED
  then show ?thesis using assms(1) by simp
next
  case CA_INVALID
  then show ?thesis using assms(1) by simp
qed

lemma clientPacketReceived_ok:
  assumes "auth_inv st" "clientSessions st s = Some x" "clientPacketOk cfg packet"
  shows "\<exists>st'. clientPacketReceived cfg env key rands s i n packet st = Some st' \<and> auth_inv st'"
proof -
  obtain st1 where st1: "modClientSession s (preProcessPacketReceived i n) st = Some st1" "auth_inv st1"
      "st1 = st\<lparr>clientSessions := (clientSessions st)(s \<mapsto> preProcessPacketReceived i n x)\<rparr>"
    using modClientSession_keep [OF assms(1,2), of "preProcessPacketReceived i n"] dbQuery_short [OF assms(1,2)]
    by auto
  have "clientSessions st1 s = Some (preProcessPacketReceived i n x)" using st1(3) by simp
  from clientPacketHandler_ok [OF st1(2) this assms(3)] st1(1) show ?thesis
    by (simp add: clientPacketReceived_def)
qed

section \<open>The machine\<close>

datatype auth_event =
    ClientConnected bytes string
  | ClientClosed nat
  | ClientPacket nat u16 u32 client_packet bytes "u64 list"
  | AccountDone nat "auth_output list"
  | GameConnected
  | GameClosed nat
  | GamePacket int nat game_packet
  | SecurityDone nat nat
  | BillingCommand "string list"

definition newGameSession :: game_session where
  "newGameSession = \<lparr>gs_gameData = None, gs_autoReconnect = False, gs_securityNoSendMode = True,
     gs_accounts = [], gs_queries = []\<rparr>"

fun auth_step :: "auth_config \<Rightarrow> client_env \<Rightarrow> auth_event \<Rightarrow> auth_state \<Rightarrow> auth_state option" where
  "auth_step cfg env (ClientConnected key ip) st = Some (st\<lparr>nextAddr := nextAddr st + 1,
     clientSessions := (clientSessions st)(nextAddr st \<mapsto> newClientSession key ip)\<rparr>)"
| "auth_step cfg env (ClientClosed s) st = onDisconnected s st"
| "auth_step cfg env (ClientPacket s i n packet key rands) st = clientPacketReceived cfg env key rands s i n packet st"
| "auth_step cfg env (AccountDone s results) st = accountQueryDone cfg s results st"
| "auth_step cfg env GameConnected st = Some (st\<lparr>nextAddr := nextAddr st + 1,
     gameSessions := (gameSessions st)(nextAddr st \<mapsto> newGameSession)\<rparr>)"
| "auth_step cfg env (GameClosed s) st = destroyGameSession s st"
| "auth_step cfg env (GamePacket now s packet) st = gamePacketReceived cfg now s packet st"
| "auth_step cfg env (SecurityDone s results) st = securityQueryDone s results st"
| "auth_step cfg env (BillingCommand args) st = onBillingCommand args st"

text \<open>Events that can happen: on live sessions, results of pending queries, packets that hold what their size
  says; and the assumptions on peers and configuration: names fit \<open>char[61]\<close>, game servers report only
  clients outside the lobby, and the player limit is not 0.\<close>

definition gamePacketOk :: "game_packet \<Rightarrow> auth_state \<Rightarrow> bool" where
  "gamePacketOk packet st =
     (case packet of
        GA_ACCOUNT_LIST psize count _ infos \<Rightarrow> accountListSize count = psize \<longrightarrow> unat count \<le> length infos
      | GA_CLIENT_LOGOUT account \<Rightarrow> notInLobby account st
      | GA_CLIENT_KICK_FAILED account \<Rightarrow> notInLobby account st
      | _ \<Rightarrow> True)"

fun event_ok :: "auth_config \<Rightarrow> auth_event \<Rightarrow> auth_state \<Rightarrow> bool" where
  "event_ok cfg (ClientClosed s) st = (clientSessions st s \<noteq> None)"
| "event_ok cfg (ClientPacket s i n packet key rands) st =
     (clientSessions st s \<noteq> None \<and> clientPacketOk cfg packet)"
| "event_ok cfg (AccountDone s results) st =
     (case clientSessions st s of None \<Rightarrow> False | Some x \<Rightarrow> cs_dbQuery x \<noteq> [])"
| "event_ok cfg (GameClosed s) st = (gameSessions st s \<noteq> None)"
| "event_ok cfg (GamePacket now s packet) st = (gameSessions st s \<noteq> None \<and> gamePacketOk packet st)"
| "event_ok cfg (SecurityDone s results) st =
     (case gameSessions st s of None \<Rightarrow> False | Some x \<Rightarrow> gs_queries x \<noteq> [])"
| "event_ok cfg (ClientConnected key ip) st = True"
| "event_ok cfg GameConnected st = True"
| "event_ok cfg (BillingCommand args) st = True"

lemma login_ok:
  assumes "auth_inv st" "gameSessions st s = Some x"
  shows "\<exists>st'. (do { st \<leftarrow> modGameSession s (\<lambda>y. y\<lparr>gs_autoReconnect := r\<rparr>) st; onServerLogin s p guid st }) =
    Some st' \<and> auth_inv st'"
proof -
  have "\<forall>q \<in> set (gs_queries x). length (si_account q) < 61"
    using auth_invD(6) [OF assms(1)] assms(2) by (simp add: len_inv_def)
  then obtain st1 where st1: "modGameSession s (\<lambda>y. y\<lparr>gs_autoReconnect := r\<rparr>) st = Some st1" "auth_inv st1"
      "st1 = st\<lparr>gameSessions := (gameSessions st)(s \<mapsto> x\<lparr>gs_autoReconnect := r\<rparr>)\<rparr>"
    using modGameSession_keep [OF assms, of "\<lambda>y. y\<lparr>gs_autoReconnect := r\<rparr>"] by auto
  have "gameSessions st1 s = Some (x\<lparr>gs_autoReconnect := r\<rparr>)" using st1(3) by simp
  then show ?thesis using onServerLogin_ok [OF st1(2)] st1(1) by simp
qed

lemma gamePacketReceived_ok:
  assumes "auth_inv st" "gameSessions st s = Some x" "gamePacketOk packet st"
  shows "\<exists>st'. gamePacketReceived cfg now s packet st = Some st' \<and> auth_inv st'"
proof (cases packet)
  case (GA_LOGIN_WITH_LOGOUT p)
  then show ?thesis using login_ok [OF assms(1,2)] by simp
next
  case (GA_LOGIN_WITH_LOGOUT_EXT p guid)
  then show ?thesis using login_ok [OF assms(1,2)] by simp
next
  case (GA_LOGIN p)
  then show ?thesis using login_ok [OF assms(1,2)] by simp
next
  case (GA_ACCOUNT_LIST psize count final infos)
  then show ?thesis using onAccountList_ok [OF assms(1,2)] assms(3) by (simp add: gamePacketOk_def)
next
  case GA_LOGOUT
  then show ?thesis using onServerLogout_ok [OF assms(1,2)] by simp
next
  case (GA_CLIENT_LOGIN account key)
  then show ?thesis using onClientLogin_ok [OF assms(1,2)] by simp
next
  case (GA_CLIENT_LOGOUT account)
  then show ?thesis using onClientLogout_ok [OF assms(1,2)] assms(3) by (simp add: gamePacketOk_def)
next
  case (GA_CLIENT_KICK_FAILED account)
  then show ?thesis using onClientKickFailed_ok [OF assms(1,2)] assms(3) by (simp add: gamePacketOk_def)
next
  case (GA_SECURITY_NO_CHECK account security mode)
  then show ?thesis using onSecurityNoCheck_ok [OF assms(1,2)] by simp
next
  case GA_UNKNOWN
  then show ?thesis using assms(1) by simp
qed

lemma auth_step_ok:
  assumes "auth_inv st" "event_ok cfg e st"
  shows "\<exists>st'. auth_step cfg env e st = Some st' \<and> auth_inv st'"
proof (cases e)
  case (ClientConnected key ip)
  then show ?thesis using new_client_session_inv [OF assms(1)] by (simp add: newClientSession_def)
next
  case (ClientClosed s)
  then show ?thesis using onDisconnected_ok [OF assms(1)] assms(2) by auto
next
  case (ClientPacket s i n packet key rands)
  then show ?thesis using clientPacketReceived_ok [OF assms(1)] assms(2) by auto
next
  case (AccountDone s results)
  then show ?thesis using accountQueryDone_ok [OF assms(1)] assms(2) by (auto split: option.splits)
next
  case GameConnected
  then show ?thesis using new_game_session_inv [OF assms(1)] by (simp add: newGameSession_def)
next
  case (GameClosed s)
  then show ?thesis using destroyGameSession_ok [OF assms(1)] assms(2) by auto
next
  case (GamePacket now s packet)
  then show ?thesis using gamePacketReceived_ok [OF assms(1)] assms(2) by auto
next
  case (SecurityDone s results)
  then show ?thesis using securityQueryDone_ok [OF assms(1)] assms(2) by (auto split: option.splits)
next
  case (BillingCommand args)
  then show ?thesis using billing_ok [OF assms(1)] by simp
qed

interpretation auth: safe_machine "auth_step cfg env" auth_inv "event_ok cfg" for cfg env
proof unfold_locales
  show "\<exists>s'. auth_step cfg env e s = Some s'" if "auth_inv s" "event_ok cfg e s" for e s
    using auth_step_ok [OF that] by blast
  show "auth_inv s'" if "auth_inv s" "event_ok cfg e s" "auth_step cfg env e s = Some s'" for e s s'
    using auth_step_ok [OF that(1,2), of env] that(3) by simp
qed

end
