(* ===== verification/AuthSpec.thy ===== *)
theory AuthSpec
  imports AuthRun
begin

text \<open>
  What the authentication server promises: no undefined behaviour in any sequence of events, consistent
  registries, one answer per login with the right code, one-time passwords used once, and the server list.
\<close>

section \<open>A concrete run\<close>

definition demo_cfg :: auth_config where
  "demo_cfg = \<lparr>cfg_strictKick = False, cfg_enableImbc = True, cfg_maxPublicServerIdx = 30,
     cfg_maxPlayers = 400, cfg_junkPassword = 0, cfg_junkTime = 0\<rparr>"

definition demo_env :: client_env where
  "demo_env = \<lparr>env_readKey = \<lambda>_. True, env_rsa = \<lambda>_ b. Some b, env_aes = \<lambda>_ _ b. Some b, env_buildDate = 0\<rparr>"

definition demo_row :: auth_output where
  "demo_row = \<lparr>out_ok = True, out_account_id = 7, out_auth_ok = True, out_age = 19,
     out_last_login_server_idx = 1, out_event_code = 0, out_pcbang = 0, out_server_idx_offset = 0,
     out_block = False\<rparr>"

definition demo_server :: ga_login where
  "demo_server = \<lparr>ga_idx = 1, ga_name = ''GS'', ga_url = ''u'', ga_adult = False, ga_ip = ''i'', ga_port = 4514\<rparr>"

text \<open>A game server logs in (address 0), a client logs in twice from two sessions: the first time it plays,
  the second attempt has it kicked, and the third login finds the account free.\<close>

definition demo_login :: "auth_event list" where
  "demo_login = [GameConnected, GamePacket 0 0 (GA_LOGIN demo_server),
     ClientConnected (replicate 32 0) ''ip'',
     ClientPacket 2 10010 129 (CA_ACCOUNT ''Bob'' [] 0) [] [], AccountDone 2 [demo_row]]"

definition demo_play :: "auth_event list" where
  "demo_play = demo_login @ [ClientPacket 2 10023 11 (CA_SELECT_SERVER 1) [] [3, 5, 7, 11],
     GamePacket 9 0 (GA_CLIENT_LOGIN ''Bob'' 1155)]"

definition demo_state :: "auth_event list \<Rightarrow> auth_state" where
  "demo_state es = the (run (auth_step demo_cfg demo_env) es auth_init)"

lemma demo_play_ok: "run_ok (auth_step demo_cfg demo_env) (event_ok demo_cfg) demo_play auth_init"
  by code_simp

section \<open>Safety\<close>



text \<open>C3. In every reachable state the two account maps agree: no two connected clients share an account id
  or, ignoring case, an account name, both lookups find exactly the connected clients, each client is either
  owned by one lobby session that points back at it or assigned to one existing game server (the comment
  "never both null"), and every server's player count is the number of its in-game clients.\<close>

theorem auth_registries_consistent:
  assumes "run_ok (auth_step cfg env) (event_ok cfg) es auth_init"
    and "run (auth_step cfg env) es auth_init = Some st"
  shows "(\<forall>p q c e. clientHeap st p = Some c \<and> clientHeap st q = Some e \<and>
           (cd_accountId c = cd_accountId e \<or> toLower (cd_account c) = toLower (cd_account e)) \<longrightarrow> p = q) \<and>
    (\<forall>i p. getClientById i st = Some p \<longleftrightarrow> (\<exists>c. clientHeap st p = Some c \<and> cd_accountId c = i)) \<and>
    (\<forall>a p. getClient a st = Some p \<longleftrightarrow> (\<exists>c. clientHeap st p = Some c \<and> toLower (cd_account c) = toLower a)) \<and>
    (\<forall>p c. clientHeap st p = Some c \<longrightarrow>
       (case cd_client c of
          Some s \<Rightarrow> cd_server c = None \<and> (\<exists>x. clientSessions st s = Some x \<and> cs_clientData x = Some p)
        | None \<Rightarrow> (\<exists>g d. cd_server c = Some g \<and> gameHeap st g = Some d))) \<and>
    (\<forall>g d. gameHeap st g = Some d \<longrightarrow> gd_playerCount d = of_nat (card (inGameOf st g)))"
proof -
  obtain st' where "run (auth_step cfg env) es auth_init = Some st'" "auth_inv st'"
    using auth.run_safe [OF auth_inv_init assms(1)] by blast
  with assms(2) have "auth_inv st" by simp
  note inv = auth_invD [OF this]
  have a: "\<forall>p q c e. clientHeap st p = Some c \<and> clientHeap st q = Some e \<and>
      (cd_accountId c = cd_accountId e \<or> toLower (cd_account c) = toLower (cd_account e)) \<longrightarrow> p = q"
    using reg_unique [OF inv(1)] reg_unique_name [OF inv(1)] by metis
  have b: "\<forall>i p. getClientById i st = Some p \<longleftrightarrow> (\<exists>c. clientHeap st p = Some c \<and> cd_accountId c = i)"
    using inv(1) unfolding reg_inv_def getClientById_def by blast
  have c: "\<forall>a p. getClient a st = Some p \<longleftrightarrow> (\<exists>c. clientHeap st p = Some c \<and> toLower (cd_account c) = toLower a)"
    using inv(1) unfolding reg_inv_def getClient_def by blast
  have d: "\<forall>p c. clientHeap st p = Some c \<longrightarrow>
       (case cd_client c of
          Some s \<Rightarrow> cd_server c = None \<and> (\<exists>x. clientSessions st s = Some x \<and> cs_clientData x = Some p)
        | None \<Rightarrow> (\<exists>g d. cd_server c = Some g \<and> gameHeap st g = Some d))"
    using own_lobby [OF inv(2)] own_server [OF inv(2)] by (auto split: option.splits)
  have e: "\<forall>g d. gameHeap st g = Some d \<longrightarrow> gd_playerCount d = of_nat (card (inGameOf st g))"
    using inv(4) unfolding count_inv_def .
  from a b c d e show ?thesis by blast
qed

lemma demo_play_run:
  "run (auth_step demo_cfg demo_env) demo_play auth_init = Some (demo_state demo_play)"
proof -
  obtain st where "run (auth_step demo_cfg demo_env) demo_play auth_init = Some st"
    using auth.run_safe [OF auth_inv_init demo_play_ok] by blast
  then show ?thesis by (simp add: demo_state_def)
qed

lemma demo_play_inv: "auth_inv (demo_state demo_play)"
  using auth.run_safe [OF auth_inv_init demo_play_ok] demo_play_run by auto

theorem auth_registries_consistent_witness:
  "(\<exists>c. clientHeap (demo_state demo_play) 3 = Some c \<and> cd_accountId c = 7) \<and>
   getClientById 7 (demo_state demo_play) = Some 3"
proof -
  have "getClientById 7 (demo_state demo_play) = Some 3" by code_simp
  then show ?thesis using auth_registries_consistent [OF demo_play_ok demo_play_run] by blast
qed

section \<open>A logout reported for a lobby client\<close>

text \<open>C12. The assumption on game servers is needed: \<open>onClientLogout\<close> removes whatever client has the
  reported name. When that client is in the lobby (its former connection was kicked and the player has
  logged in again before the game server's report arrives), its session keeps a dangling pointer and the
  next thing it does with it, here its disconnection, is undefined.\<close>

theorem lobby_logout_dangling:
  assumes "auth_inv st" "clientSessions st s = Some x" "cs_clientData x = Some p" "clientHeap st p = Some c"
    and "gameSessions st t = Some y" "gs_gameData y = Some g" "convertToString field 60 = cd_account c"
  shows "\<exists>st'. onClientLogout now t field st = Some st' \<and> clientSessions st' s = Some x \<and>
    clientHeap st' p = None \<and> onDisconnected s st' = None"
proof -
  note inv = auth_invD [OF assms(1)]
  obtain d where d: "gameHeap st g = Some d" using session_game_inv [OF inv(3) assms(5,6)] by blast
  have get: "getClient (convertToString field 60) st = Some p"
    using client_find_inv [OF inv(1) assms(4)] by (simp add: getClient_def assms(7))
  let ?st = "emit (LogMsg LM_ACCOUNT_LOGOUT
     [uint (cd_accountId c), 0, 0, uint (gd_serverIdx d), uint (cd_pcBang c), 0, 0, 0, 0, 0, now - cd_loginTime c]
     [cd_account c, cd_ip c, [], if cd_kickRequested c then ''DKICK'' else ''NORMAL'']) st"
  have "auth_inv ?st" "clientHeap ?st p = Some c" using assms(1,4) by simp_all
  from removeClient_ok [OF this] obtain G where "removeClient p ?st = Some (dropped ?st p c G)" by blast
  moreover have "onDisconnected s (dropped ?st p c G) = None"
    using assms(2,3) by (simp add: onDisconnected_def removeClient_def)
  ultimately show ?thesis using assms(2,4,5,6) d get by (simp add: onClientLogout_def)
qed

text \<open>The run that leads there: play, be kicked by a second login, log in again, and only then the game
  server reports the first connection gone.\<close>

definition demo_race :: "auth_event list" where
  "demo_race = demo_play @ [ClientConnected (replicate 32 0) ''ip'',
     ClientPacket 4 10010 129 (CA_ACCOUNT ''Bob'' [] 0) [] [], AccountDone 4 [demo_row],
     ClientPacket 4 10010 129 (CA_ACCOUNT ''Bob'' [] 0) [] [], AccountDone 4 [demo_row]]"

lemma demo_race_ok: "run_ok (auth_step demo_cfg demo_env) (event_ok demo_cfg) demo_race auth_init"
  by code_simp

lemma demo_race_inv: "auth_inv (demo_state demo_race)"
  using auth.run_safe [OF auth_inv_init demo_race_ok] by (auto simp: demo_state_def)

lemma demo_race_facts:
  "map_option cs_clientData (clientSessions (demo_state demo_race) 4) = Some (Some 6)"
  "map_option cd_account (clientHeap (demo_state demo_race) 6) = Some ''Bob''"
  "map_option gs_gameData (gameSessions (demo_state demo_race) 0) = Some (Some 1)"
  by code_simp+

theorem lobby_logout_dangling_witness:
  "\<exists>st'. onClientLogout 10 0 ''Bob'' (demo_state demo_race) = Some st' \<and> onDisconnected 4 st' = None"
proof -
  obtain x where x: "clientSessions (demo_state demo_race) 4 = Some x" "cs_clientData x = Some 6"
    using demo_race_facts(1) by auto
  obtain c where c: "clientHeap (demo_state demo_race) 6 = Some c" "cd_account c = ''Bob''"
    using demo_race_facts(2) by auto
  obtain y where y: "gameSessions (demo_state demo_race) 0 = Some y" "gs_gameData y = Some 1"
    using demo_race_facts(3) by auto
  have "convertToString ''Bob'' 60 = cd_account c" unfolding c by code_simp
  from lobby_logout_dangling [OF demo_race_inv x c(1) y this] show ?thesis by blast
qed

section \<open>Logging in on a game server\<close>

definition loginAccepted :: "nat \<Rightarrow> string \<Rightarrow> u64 \<Rightarrow> auth_state \<Rightarrow> bool" where
  "loginAccepted s account key st \<longleftrightarrow>
     (\<exists>x g d p c. gameSessions st s = Some x \<and> gs_gameData x = Some g \<and> gameHeap st g = Some d \<and> isReady d \<and>
        getClient account st = Some p \<and> clientHeap st p = Some c \<and> cd_server c = Some g \<and>
        cd_oneTimePassword c = key \<and> \<not> cd_inGame c)"

fun answerOf :: "game_msg \<Rightarrow> (string \<times> u16) option" where
  "answerOf (AG_CLIENT_LOGIN m) = Some (cl_account m, cl_result m)"
| "answerOf (AG_CLIENT_LOGIN_EXTENDED m ip t) = Some (cl_account m, cl_result m)"
| "answerOf _ = None"

lemma fill_simps [simp]:
  "cl_account (fillClientLoginResult a r c) = a" "cl_result (fillClientLoginResult a r c) = r"
  by (auto simp: fillClientLoginResult_def split: option.splits)

lemma answer_fill [simp]:
  "answerOf (fillClientLoginExtendedResult a r c) = Some (a, r)"
  "answerOf (AG_CLIENT_LOGIN (fillClientLoginResult a r c)) = Some (a, r)"
  by (auto simp: fillClientLoginExtendedResult_def split: option.splits)

lemma sendClientLoginResult_answer:
  "gameSessions st s = Some x \<Longrightarrow> \<exists>m. sendClientLoginResult s a r cl st = Some (emit (ToGame s m) st) \<and>
    answerOf m = Some (a, r)"
  by (cases "gs_autoReconnect x") (auto simp: sendClientLoginResult_def)

text \<open>The handler for every outcome.\<close>

lemma onClientLogin_refused:
  assumes "auth_inv st" "gameSessions st s = Some x" "\<not> loginAccepted s (convertToString field 60) key st"
  shows "\<exists>m. onClientLogin now s field key st = Some (emit (ToGame s m) st) \<and>
    answerOf m = Some (convertToString field 60, TS_RESULT_ACCESS_DENIED)"
proof -
  note inv = auth_invD [OF assms(1)]
  let ?a = "convertToString field 60"
  have short: "\<not> length ?a \<ge> 61" using accountName_short by (simp add: not_le)
  have "onClientLogin now s field key st =
      sendClientLoginResult s ?a TS_RESULT_ACCESS_DENIED (getClient ?a st) st"
  proof (cases "gs_gameData x")
    case None
    then show ?thesis using assms(2) by (simp add: onClientLogin_def)
  next
    case (Some g)
    then obtain d where d: "gameHeap st g = Some d" using session_game_inv [OF inv(3) assms(2)] by blast
    show ?thesis
    proof (cases "getClient ?a st")
      case None
      then show ?thesis using assms(2) Some short by (simp add: onClientLogin_def)
    next
      case p: (Some p)
      obtain c where c: "clientHeap st p = Some c" using getClient_alive [OF assms(1) p] by blast
      have "cd_server c = None \<or> cd_server c \<noteq> Some g \<or> \<not> isReady d \<or> cd_oneTimePassword c \<noteq> key \<or> cd_inGame c"
        using assms(2,3) Some d p c by (auto simp: loginAccepted_def)
      then show ?thesis using assms(2) Some short p c d by (simp add: onClientLogin_def)
    qed
  qed
  then show ?thesis using sendClientLoginResult_answer [OF assms(2)] by metis
qed

lemma onClientLogin_accepted:
  assumes "auth_inv st" "loginAccepted s (convertToString field 60) key st"
  shows "\<exists>st' p c m. onClientLogin now s field key st = Some st' \<and> auth_inv st' \<and>
    getClient (convertToString field 60) st = Some p \<and> clientHeap st p = Some c \<and>
    clientHeap st' = (clientHeap st)(p \<mapsto> c\<lparr>cd_inGame := True, cd_loginTime := now\<rparr>) \<and>
    connectedClientsByName st' = connectedClientsByName st \<and>
    last (sent st') = ToGame s m \<and> answerOf m = Some (convertToString field 60, TS_RESULT_SUCCESS)"
proof -
  let ?a = "convertToString field 60"
  obtain x g d p c where a: "gameSessions st s = Some x" "gs_gameData x = Some g" "gameHeap st g = Some d" "isReady d"
      "getClient ?a st = Some p" "clientHeap st p = Some c" "cd_server c = Some g"
      "cd_oneTimePassword c = key" "\<not> cd_inGame c" using assms(2) unfolding loginAccepted_def by blast
  have short: "\<not> length ?a \<ge> 61" using accountName_short by (simp add: not_le)
  let ?st = "st\<lparr>gameHeap := moreOf g (gameHeap st),
    clientHeap := (clientHeap st)(p \<mapsto> c\<lparr>cd_inGame := True, cd_loginTime := now\<rparr>)\<rparr>"
  have con: "connectedToGame now p st = Some ?st" "auth_inv ?st"
    using connectedToGame_ok [OF assms(1) a(6,7,9)] by blast+
  show ?thesis using a short con by (simp add: onClientLogin_def sendClientLoginResult_def)
qed

text \<open>C9. A game server's client login is answered exactly once, with success exactly when the sending server
  is logged in and ready, the client is connected, waiting for that very server and not yet in the game, and
  the one-time key is the one handed out; any other login is denied and changes nothing but the answer.
  After a success the client is in the game and every further login for it is denied: the key works once.\<close>

theorem client_login_once:
  assumes "auth_inv st" "gameSessions st s = Some x"
  shows "\<exists>st' m. onClientLogin now s field key st = Some st' \<and> last (sent st') = ToGame s m \<and>
    answerOf m = Some (convertToString field 60,
      if loginAccepted s (convertToString field 60) key st then TS_RESULT_SUCCESS else TS_RESULT_ACCESS_DENIED) \<and>
    (if loginAccepted s (convertToString field 60) key st
     then (\<forall>t k. \<not> loginAccepted t (convertToString field 60) k st')
     else st' = st\<lparr>sent := sent st @ [ToGame s m]\<rparr>)"
proof (cases "loginAccepted s (convertToString field 60) key st")
  case False
  then show ?thesis using onClientLogin_refused [OF assms] by (fastforce simp: emit_def)
next
  case True
  obtain st' p c m where r: "onClientLogin now s field key st = Some st'"
      "getClient (convertToString field 60) st = Some p"
      "clientHeap st' = (clientHeap st)(p \<mapsto> c\<lparr>cd_inGame := True, cd_loginTime := now\<rparr>)"
      "connectedClientsByName st' = connectedClientsByName st"
      "last (sent st') = ToGame s m" "answerOf m = Some (convertToString field 60, TS_RESULT_SUCCESS)"
    using onClientLogin_accepted [OF assms(1) True] by blast
  have "\<not> loginAccepted t (convertToString field 60) k st'" for t k
    using r(2,3,4) by (auto simp: loginAccepted_def getClient_def)
  then show ?thesis using True r by auto
qed

theorem client_login_once_witness:
  "\<exists>st' m. onClientLogin 9 0 ''Bob'' 1155 (demo_state demo_play) = Some st' \<and> last (sent st') = ToGame 0 m \<and>
     answerOf m = Some (''Bob'', TS_RESULT_ACCESS_DENIED)"
proof -
  obtain x where x: "gameSessions (demo_state demo_play) 0 = Some x"
  proof -
    have "gameSessions (demo_state demo_play) 0 \<noteq> None" by code_simp
    then show ?thesis using that by blast
  qed
  have name: "convertToString ''Bob'' 60 = ''Bob''" by code_simp
  have "map_option cd_inGame (Option.bind (getClient ''Bob'' (demo_state demo_play))
      (clientHeap (demo_state demo_play))) = Some True" by code_simp
  then have "\<not> loginAccepted 0 ''Bob'' 1155 (demo_state demo_play)"
    by (auto simp: loginAccepted_def)
  then show ?thesis
    using client_login_once [OF demo_play_inv x, of 9 "''Bob''" 1155] unfolding name by auto
qed

section \<open>Answers to a client's login\<close>

text \<open>The account id or, ignoring case, the name is in use.\<close>

definition accountInUse :: "u32 \<Rightarrow> string \<Rightarrow> auth_state \<Rightarrow> bool" where
  "accountInUse accountId account st \<longleftrightarrow>
     (\<exists>p c. clientHeap st p = Some c \<and> (cd_accountId c = accountId \<or> toLower (cd_account c) = toLower account))"

definition loginCode :: "client_session \<Rightarrow> auth_input \<Rightarrow> auth_output list \<Rightarrow> auth_state \<Rightarrow> u16" where
  "loginCode x input results st =
     (case results of
        [row] \<Rightarrow>
          if \<not> out_ok row \<or> \<not> out_auth_ok row then TS_RESULT_NOT_EXIST
          else if out_block row then TS_RESULT_ACCESS_DENIED
          else if cs_clientData x \<noteq> None then TS_RESULT_CLIENT_SIDE_ERROR
          else if accountInUse (out_account_id row) (in_account input) st then TS_RESULT_ALREADY_EXIST
          else TS_RESULT_SUCCESS
      | _ \<Rightarrow> TS_RESULT_NOT_EXIST)"

lemma accountInUse_find:
  assumes "reg_inv st"
  shows "accountInUse i a st \<longleftrightarrow>
    um_find (connectedClients st) i \<noteq> None \<or> um_find (connectedClientsByName st) (toLower a) \<noteq> None"
proof
  assume "accountInUse i a st"
  then show "um_find (connectedClients st) i \<noteq> None \<or> um_find (connectedClientsByName st) (toLower a) \<noteq> None"
    using client_find_inv [OF assms] unfolding accountInUse_def by fastforce
next
  assume "um_find (connectedClients st) i \<noteq> None \<or> um_find (connectedClientsByName st) (toLower a) \<noteq> None"
  then show "accountInUse i a st"
    using find_client_inv [OF assms] find_name_inv [OF assms] unfolding accountInUse_def by fastforce
qed

lemma clientAuthResult_added:
  assumes "auth_inv st" "clientSessions st s = Some x" "loginCode x input results st = TS_RESULT_SUCCESS"
  shows "\<exists>row y. results = [row] \<and> cs_clientData y = Some (nextAddr st) \<and>
    clientAuthResult cfg s input results st = Some (emit (loginResult s 0 1)
      ((registered st (nextAddr st) (added cfg (Some s) (in_account input) (out_account_id row) (out_age row)
         (out_event_code row) (out_pcbang row) (cs_remoteIp x)))
       \<lparr>clientSessions := (clientSessions st)(s \<mapsto> y)\<rparr>))"
proof -
  note inv = auth_invD [OF assms(1)]
  obtain row where res: "results = [row]" "out_ok row" "out_auth_ok row" "\<not> out_block row"
      "cs_clientData x = None" "\<not> accountInUse (out_account_id row) (in_account input) st"
    using assms(3) by (auto simp: loginCode_def split: list.splits if_splits)
  have free: "um_find (connectedClients st) (out_account_id row) = None"
      "um_find (connectedClientsByName st) (toLower (in_account input)) = None"
    using res(6) accountInUse_find [OF inv(1)] by simp_all
  let ?y = "x\<lparr>cs_clientData := Some (nextAddr st), cs_lastLoginServerId := out_last_login_server_idx row,
      cs_serverIdxOffset := out_server_idx_offset row\<rparr>"
  have "clientAuthResult cfg s input results st = Some (emit (loginResult s 0 1)
      ((registered st (nextAddr st) (added cfg (Some s) (in_account input) (out_account_id row) (out_age row)
         (out_event_code row) (out_pcbang row) (cs_remoteIp x)))
       \<lparr>clientSessions := (clientSessions st)(s \<mapsto> ?y)\<rparr>))"
    using assms(2) res(1-5) free
    by (simp add: clientAuthResult_def tryAddClient_eq [OF inv(5)] modClientSession_def)
  then show ?thesis using res(1) by (intro exI [of _ row] exI [of _ ?y]) simp
qed

lemma clientAuthResult_answer:
  assumes "auth_inv st" "clientSessions st s = Some x" "clientAuthResult cfg s input results st = Some st'"
  shows "last (sent st') = loginResult s (loginCode x input results st)
    (if loginCode x input results st = TS_RESULT_SUCCESS then 1 else 0)"
proof (cases "loginCode x input results st = TS_RESULT_SUCCESS")
  case True
  then show ?thesis using clientAuthResult_added [OF assms(1,2) True, of cfg] assms(3) by auto
next
  case False
  note inv = auth_invD [OF assms(1)]
  show ?thesis
  proof (cases "\<exists>row. results = [row] \<and> out_ok row \<and> out_auth_ok row \<and> \<not> out_block row \<and> cs_clientData x = None")
    case False
    then show ?thesis using assms(2,3)
      by (auto simp: clientAuthResult_def loginCode_def split: list.splits if_splits)
  next
    case True
    then obtain row where res: "results = [row]" "out_ok row" "out_auth_ok row" "\<not> out_block row"
      "cs_clientData x = None" by blast
    have used: "um_find (connectedClients st) (out_account_id row) \<noteq> None \<or>
        um_find (connectedClientsByName st) (toLower (in_account input)) \<noteq> None"
      using False res accountInUse_find [OF inv(1)] by (auto simp: loginCode_def split: if_splits)
    then have "loginCode x input results st = TS_RESULT_ALREADY_EXIST"
      using res accountInUse_find [OF inv(1)] by (simp add: loginCode_def)
    then show ?thesis using assms(2,3) res used
      by (auto simp: clientAuthResult_def tryAddClient_eq [OF inv(5)] bind_eq_Some_conv split: option.splits)
  qed
qed

text \<open>C8. Every account query is answered with exactly the code its outcome calls for: NOT_EXIST unless the
  query gave one row with a right password, ACCESS_DENIED for a blocked account, CLIENT_SIDE_ERROR for a
  session that already has a client, ALREADY_EXIST when the id or the name is in use, and success with the
  accepted flag otherwise. After a success the account is in use, so a second session gets no success for
  it, and the session owns the client.\<close>

theorem account_login_outcome:
  assumes "auth_inv st" "clientSessions st s = Some x" "length (in_account input) < 61"
  shows "\<exists>st'. clientAuthResult cfg s input results st = Some st' \<and>
    last (sent st') = loginResult s (loginCode x input results st)
      (if loginCode x input results st = TS_RESULT_SUCCESS then 1 else 0) \<and>
    (loginCode x input results st = TS_RESULT_SUCCESS \<longrightarrow>
       accountInUse (out_account_id (hd results)) (in_account input) st' \<and>
       (\<exists>y p c. clientSessions st' s = Some y \<and> cs_clientData y = Some p \<and> clientHeap st' p = Some c \<and>
          cd_account c = in_account input \<and> cd_accountId c = out_account_id (hd results) \<and> cd_client c = Some s))"
proof -
  obtain st' where st': "clientAuthResult cfg s input results st = Some st'"
    using clientAuthResult_ok [OF assms] by blast
  have "accountInUse (out_account_id (hd results)) (in_account input) st' \<and>
       (\<exists>y p c. clientSessions st' s = Some y \<and> cs_clientData y = Some p \<and> clientHeap st' p = Some c \<and>
          cd_account c = in_account input \<and> cd_accountId c = out_account_id (hd results) \<and> cd_client c = Some s)"
    if "loginCode x input results st = TS_RESULT_SUCCESS"
    using clientAuthResult_added [OF assms(1,2) that, of cfg] st' by (auto simp: accountInUse_def)
  then show ?thesis using st' clientAuthResult_answer [OF assms(1,2) st'] by blast
qed

lemma demo_login_ok: "run_ok (auth_step demo_cfg demo_env) (event_ok demo_cfg) demo_login auth_init"
  by code_simp

lemma demo_login_inv: "auth_inv (demo_state demo_login)"
  using auth.run_safe [OF auth_inv_init demo_login_ok] by (auto simp: demo_state_def)

theorem account_login_outcome_witness:
  "\<exists>st'. clientAuthResult demo_cfg 2 \<lparr>in_account = ''bob'', in_ip = [], in_cryptedPassword = [],
      in_cryptMode = EM_DES, in_aesKey = []\<rparr> [demo_row] (demo_state demo_login) = Some st' \<and>
    last (sent st') = loginResult 2 TS_RESULT_CLIENT_SIDE_ERROR 0"
proof -
  have "map_option cs_clientData (clientSessions (demo_state demo_login) 2) = Some (Some 3)" by code_simp
  then obtain x where x: "clientSessions (demo_state demo_login) 2 = Some x" "cs_clientData x = Some 3" by auto
  let ?i = "\<lparr>in_account = ''bob'', in_ip = [], in_cryptedPassword = [], in_cryptMode = EM_DES, in_aesKey = []\<rparr>"
  have "loginCode x ?i [demo_row] (demo_state demo_login) = TS_RESULT_CLIENT_SIDE_ERROR"
    using x(2) by (simp add: loginCode_def demo_row_def)
  then show ?thesis
    using account_login_outcome [OF demo_login_inv x(1), of ?i demo_cfg "[demo_row]"] by auto
qed

section \<open>Game servers\<close>

text \<open>C10. A game server that reconnects over a second connection, while the first one is still half open, ends
  up linked to the new session only: the mutual calls of \<open>setGameData\<close> and \<open>setGameServer\<close> return (eight
  levels suffice), although on the way they cut the new link and make it again; the old session is left
  without data, so its destruction later removes nothing.\<close>

theorem game_link_settles:
  assumes "auth_inv st" "gameSessions st s = Some x" "gs_gameData x = None" "gameHeap st g = Some d"
  shows "\<exists>st' y. setGameData linkDepth s (Some g) st = Some st' \<and> auth_inv st' \<and>
    gameSessions st' s = Some y \<and> gs_gameData y = Some g \<and>
    gameHeap st' g = Some (d\<lparr>gd_session := Some s\<rparr>) \<and>
    (\<forall>t z. t \<noteq> s \<and> gameSessions st' t = Some z \<longrightarrow> gs_gameData z \<noteq> Some g) \<and>
    (\<forall>t. gd_session d = Some t \<longrightarrow>
       (\<exists>st''. destroyGameSession t st' = Some st'' \<and> gameHeap st'' = gameHeap st'))"
proof -
  obtain st' where st': "setGameData 8 s (Some g) st = Some st'" "auth_inv st'"
      "gameSessions st' s = Some (x\<lparr>gs_gameData := Some g\<rparr>)"
      "gameHeap st' = (gameHeap st)(g \<mapsto> d\<lparr>gd_session := Some s\<rparr>)"
      "\<And>t. gd_session d = Some t \<Longrightarrow> \<exists>y. gameSessions st' t = Some y \<and> gs_gameData y = None"
    using link_ok [OF assms] by blast
  have "\<forall>t z. t \<noteq> s \<and> gameSessions st' t = Some z \<longrightarrow> gs_gameData z \<noteq> Some g"
    using session_game_inv [OF auth_invD(3) [OF st'(2)]] st'(4) by fastforce
  moreover have "\<exists>st''. destroyGameSession t st' = Some st'' \<and> gameHeap st'' = gameHeap st'" if "gd_session d = Some t" for t
    using st'(5) [OF that] by (auto simp: destroyGameSession_def)
  ultimately show ?thesis using st' by auto
qed

theorem game_link_settles_witness:
  "\<exists>st'. setGameData linkDepth 2 (Some 1) ((demo_state [GameConnected, GamePacket 0 0 (GA_LOGIN demo_server), GameConnected])) = Some st' \<and>
     auth_inv st'"
proof -
  let ?es = "[GameConnected, GamePacket 0 0 (GA_LOGIN demo_server), GameConnected]"
  have "run_ok (auth_step demo_cfg demo_env) (event_ok demo_cfg) ?es auth_init" by code_simp
  from auth.run_safe [OF auth_inv_init this] have inv: "auth_inv (demo_state ?es)" by (auto simp: demo_state_def)
  have "map_option gs_gameData (gameSessions (demo_state ?es) 2) = Some None" by code_simp
  then obtain x where x: "gameSessions (demo_state ?es) 2 = Some x" "gs_gameData x = None" by auto
  have "gameHeap (demo_state ?es) 1 \<noteq> None" by code_simp
  then obtain d where d: "gameHeap (demo_state ?es) 1 = Some d" by blast
  show ?thesis using game_link_settles [OF inv x d] by blast
qed

text \<open>When a game server logs out, its index becomes free, its clients are forgotten, and no other
  client is touched.\<close>

lemma server_logout_forgets_clients:
  assumes "auth_inv st" "gameSessions st s = Some x" "gs_gameData x = Some g" "gameHeap st g = Some d"
  shows "\<exists>st'. onServerLogout s st = Some st' \<and> auth_inv st' \<and>
    um_find (servers st') (gd_serverIdx d) = None \<and> gameHeap st' g = None \<and>
    (\<forall>p. clientHeap st' p = (if \<exists>c. clientHeap st p = Some c \<and> cd_server c = Some g then None else clientHeap st p))"
proof -
  note inv = auth_invD [OF assms(1)]
  obtain st' where st': "onServerLogout s st = Some st'" "auth_inv st'"
    using onServerLogout_ok [OF assms(1,2)] by blast
  obtain r where r: "removeServer g st = Some r"
      "\<And>p. clientHeap r p = (if \<exists>c. clientHeap st p = Some c \<and> cd_server c = Some g then None else clientHeap st p)"
      "servers r = servers st"
    using removeServer_ok [OF assms(1), of g] by blast
  let ?S = "um_erase (gd_serverIdx d) (servers st)" and ?L = "sent st @ [serverLog LM_GAME_SERVER_LOGOUT d]"
  have "removeServer g (st\<lparr>servers := ?S, sent := ?L\<rparr>) = Some (r\<lparr>servers := ?S, sent := ?L\<rparr>)"
    using r(1) by (simp add: removeServer_def removeServerLoop_frame)
  then have eq: "removeGame g st = Some (r\<lparr>servers := ?S, sent := ?L, gameHeap := (gameHeap r)(g := None)\<rparr>)"
    using assms(4) by (simp add: removeGame_def deleteGame_def emit_def)
  have "clientHeap st' = clientHeap r \<and> servers st' = ?S \<and> gameHeap st' g = None"
    using st'(1) assms(2,3) eq by (auto simp: onServerLogout_def modGameSession_def bind_eq_Some_conv)
  then show ?thesis using st' r(2) by (simp add: um.find_erase)
qed

lemma server_logout_forgets_clients_witness:
  "\<exists>st'. onServerLogout 0 (demo_state demo_play) = Some st' \<and> gameHeap st' 1 = None"
proof -
  have "map_option gs_gameData (gameSessions (demo_state demo_play) 0) = Some (Some 1)" by code_simp
  then obtain x where x: "gameSessions (demo_state demo_play) 0 = Some x" "gs_gameData x = Some 1" by auto
  have "gameHeap (demo_state demo_play) 1 \<noteq> None" by code_simp
  then obtain d where d: "gameHeap (demo_state demo_play) 1 = Some d" by blast
  show ?thesis using server_logout_forgets_clients [OF demo_play_inv x d] by blast
qed

section \<open>The server list\<close>

definition listedServers :: "auth_config \<Rightarrow> client_session \<Rightarrow> auth_state \<Rightarrow> nat list" where
  "listedServers cfg x st = filter (\<lambda>g. case gameHeap st g of None \<Rightarrow> False | Some d \<Rightarrow> serverVisible cfg x d)
     (map snd (servers st))"

definition shownAs :: "auth_config \<Rightarrow> game_data \<Rightarrow> server_info \<Rightarrow> bool" where
  "shownAs cfg d i \<longleftrightarrow> sv_idx i = gd_serverIdx d \<and> sv_name i = gd_serverName d \<and> sv_isAdult i = gd_isAdult d \<and>
     sv_screenshotUrl i = gd_screenshotUrl d \<and> sv_ip i = gd_serverIp d \<and> sv_port i = gd_serverPort d \<and>
     unat (sv_userRatio i) = min 100 (unat (gd_playerCount d * 100) div unat (cfg_maxPlayers cfg))"

lemma userRatio_value:
  assumes "m \<noteq> 0"
  shows "\<exists>r. userRatio n m = Some r \<and> unat r = min 100 (unat (n * 100) div unat m)"
proof -
  have div: "unat (n * 100 div m) = unat (n * 100) div unat m" by (simp add: unat_div)
  show ?thesis
  proof (cases "n * 100 div m > 100")
    case True
    then have "100 < unat (n * 100) div unat m" using div by (simp add: word_less_nat_alt)
    then show ?thesis using True assms by (simp add: userRatio_def)
  next
    case False
    then have le: "unat (n * 100 div m) \<le> 100" by (simp add: word_less_nat_alt not_less)
    have "unat (ucast (n * 100 div m) :: u16) = unat (n * 100 div m)"
      using le by (simp add: unsigned_ucast_eq take_bit_nat_eq_self)
    then show ?thesis using False assms le div by (simp add: userRatio_def)
  qed
qed

lemma serverListLoop_spec:
  assumes "cfg_maxPlayers cfg \<noteq> 0" "\<And>i g. (i, g) \<in> set es \<Longrightarrow> gameHeap st g \<noteq> None"
  shows "\<exists>l. serverListLoop cfg x es st = Some l \<and>
    list_all2 (\<lambda>g i. shownAs cfg (the (gameHeap st g)) i)
      (filter (\<lambda>g. case gameHeap st g of None \<Rightarrow> False | Some d \<Rightarrow> serverVisible cfg x d) (map snd es)) l"
  using assms(2)
proof (induction es)
  case Nil
  then show ?case by simp
next
  case (Cons e es)
  obtain i g where e: "e = (i, g)" by force
  obtain d where d: "gameHeap st g = Some d" using Cons.prems e by fastforce
  obtain l where l: "serverListLoop cfg x es st = Some l"
    "list_all2 (\<lambda>g i. shownAs cfg (the (gameHeap st g)) i)
      (filter (\<lambda>g. case gameHeap st g of None \<Rightarrow> False | Some d \<Rightarrow> serverVisible cfg x d) (map snd es)) l"
    using Cons by fastforce
  obtain r where "userRatio (gd_playerCount d) (cfg_maxPlayers cfg) = Some r"
    "unat r = min 100 (unat (gd_playerCount d * 100) div unat (cfg_maxPlayers cfg))"
    using userRatio_value [OF assms(1)] by blast
  then show ?case using e d l by (simp add: shownAs_def)
qed



end
