(* ===== verification/MessageBuffer.thy ===== *)
theory MessageBuffer
  imports Prelude
begin

text \<open>
  The serialisation buffer (librzu/src/lib/Packet/MessageBuffer.h and .cpp): a byte buffer of fixed
  size, the position \<open>p\<close> and the sticky overflow flag with the field that caused it. Every read and
  write first asks \<open>checkAvailableBuffer\<close>; once it has refused, nothing is read or written any more.
  A primitive of the code is its width in bytes and its signedness, its value an integer; a \<open>float\<close>
  is the integer of its bit pattern. A writer that would read past the end of its argument gives
  \<open>None\<close>; a reader gives \<open>None\<close> when it leaves the destination alone.
\<close>

section \<open>Primitives\<close>

datatype prim = Prim (psize: nat) (psigned: bool)

abbreviation "uint8_t \<equiv> Prim 1 False"
abbreviation "uint16_t \<equiv> Prim 2 False"
abbreviation "uint32_t \<equiv> Prim 4 False"
abbreviation "uint64_t \<equiv> Prim 8 False"
abbreviation "int8_t \<equiv> Prim 1 True"
abbreviation "int16_t \<equiv> Prim 2 True"
abbreviation "int32_t \<equiv> Prim 4 True"
abbreviation "int64_t \<equiv> Prim 8 True"

definition primBytes :: "prim \<Rightarrow> int \<Rightarrow> bytes" where
  "primBytes p v = to_le (psize p) (word_of_int v :: u64)"

definition primValue :: "prim \<Rightarrow> bytes \<Rightarrow> int" where
  "primValue p bs =
     (if psigned p then signed_take_bit (8 * psize p - 1) (uint (from_le bs :: u64))
      else uint (from_le bs :: u64))"

definition prim_ok :: "prim \<Rightarrow> int \<Rightarrow> bool" where
  "prim_ok p v \<longleftrightarrow> 0 < psize p \<and> psize p \<le> 8 \<and>
     (if psigned p then - (2 ^ (8 * psize p - 1)) \<le> v \<and> v < 2 ^ (8 * psize p - 1)
      else 0 \<le> v \<and> v < 2 ^ (8 * psize p))"

definition maxValue :: "prim \<Rightarrow> nat" where
  "maxValue p = 2 ^ (8 * psize p - (if psigned p then 1 else 0)) - 1"

definition getClampedCount :: "prim \<Rightarrow> nat \<Rightarrow> nat" where
  "getClampedCount p realSize = min realSize (maxValue p)"

lemma primBytes_length [simp]: "length (primBytes p v) = psize p"
  by (simp add: primBytes_def)

lemma from_le_trunc: "from_le (to_le n (w :: u64)) = (take_bit (8 * n) w :: u64)"
proof (rule bit_word_eqI)
  fix k assume "k < LENGTH(64)"
  then show "bit (from_le (to_le n w) :: u64) k = bit (take_bit (8 * n) w) k"
    by (auto simp: bit_from_le to_le_def bit_byte_at bit_simps div_less_iff_less_mult mult.commute)
qed

lemma primValue_primBytes: "prim_ok p v \<Longrightarrow> primValue p (primBytes p v) = v"
proof -
  assume ok: "prim_ok p v"
  have le: "8 * psize p \<le> 64" using ok by (simp add: prim_ok_def)
  have u: "uint (from_le (primBytes p v) :: u64) = take_bit (8 * psize p) v"
    using le by (simp add: primBytes_def from_le_trunc unsigned_take_bit_eq uint_word_of_int_eq min_def)
  show ?thesis
  proof (cases "psigned p")
    case True
    then have "signed_take_bit (8 * psize p - 1) v = v"
      using ok by (intro signed_take_bit_int_eq_self) (auto simp: prim_ok_def)
    moreover have "signed_take_bit (8 * psize p - 1) (take_bit (8 * psize p) v) = signed_take_bit (8 * psize p - 1) v"
    proof -
      have "\<not> 8 * psize p \<le> 8 * psize p - 1" using ok unfolding prim_ok_def by linarith
      then show ?thesis by (simp add: signed_take_bit_take_bit)
    qed
    ultimately show ?thesis using True u by (simp add: primValue_def)
  next
    case False
    then show ?thesis using ok u by (simp add: primValue_def prim_ok_def take_bit_int_eq_self)
  qed
qed

section \<open>The buffer\<close>

record message_buffer =
  mb_data :: bytes
  mb_pos :: nat
  mb_overflow :: bool
  mb_field :: string

definition newMessageBuffer :: "bytes \<Rightarrow> message_buffer" where
  "newMessageBuffer data = \<lparr>mb_data = data, mb_pos = 0, mb_overflow = False, mb_field = []\<rparr>"

definition mbGetSize :: "message_buffer \<Rightarrow> nat" where
  "mbGetSize b = length (mb_data b)"

definition checkAvailableBuffer :: "string \<Rightarrow> nat \<Rightarrow> message_buffer \<Rightarrow> bool \<times> message_buffer" where
  "checkAvailableBuffer fieldName n b =
     (if \<not> mb_overflow b then
        (let ok = n < 65536 \<and> mb_pos b + n \<le> mbGetSize b
         in (ok, if ok then b else b\<lparr>mb_overflow := True, mb_field := fieldName\<rparr>))
      else (False, b))"

definition checkFinalSize :: "message_buffer \<Rightarrow> bool" where
  "checkFinalSize b = (\<not> mb_overflow b)"

definition checkPacketFinalSize :: "message_buffer \<Rightarrow> bool" where
  "checkPacketFinalSize b =
     (let msgSize = unat (from_le (take 4 (mb_data b)) :: u32)
      in \<not> mb_overflow b \<and> msgSize = mbGetSize b \<and> mb_pos b = msgSize)"

text \<open>Storing bytes at \<open>p\<close>, reading them from there, and advancing \<open>p\<close>.\<close>

definition putBytes :: "bytes \<Rightarrow> message_buffer \<Rightarrow> message_buffer" where
  "putBytes bs b = b\<lparr>mb_data := take (mb_pos b) (mb_data b) @ bs @ drop (mb_pos b + length bs) (mb_data b),
     mb_pos := mb_pos b + length bs\<rparr>"

definition peekBytes :: "nat \<Rightarrow> message_buffer \<Rightarrow> bytes" where
  "peekBytes n b = take n (drop (mb_pos b) (mb_data b))"

definition advance :: "nat \<Rightarrow> message_buffer \<Rightarrow> message_buffer" where
  "advance n b = b\<lparr>mb_pos := mb_pos b + n\<rparr>"

section \<open>Writers\<close>

definition getMessageChecksum :: "u32 \<Rightarrow> u16 \<Rightarrow> u8" where
  "getMessageChecksum msgSize msgId =
     ucast (msgSize AND 0xFF) + ucast (drop_bit 8 msgSize AND 0xFF) + ucast (drop_bit 16 msgSize AND 0xFF) +
     ucast (drop_bit 24 msgSize AND 0xFF) + ucast (msgId AND 0xFF) + ucast (drop_bit 8 msgId AND 0xFF)"

definition writePrim :: "string \<Rightarrow> prim \<Rightarrow> int \<Rightarrow> message_buffer \<Rightarrow> message_buffer" where
  "writePrim fieldName p val b =
     (let (ok, b) = checkAvailableBuffer fieldName (psize p) b
      in if ok then putBytes (primBytes p val) b else b)"

definition writeHeader :: "u32 \<Rightarrow> u16 \<Rightarrow> message_buffer \<Rightarrow> message_buffer" where
  "writeHeader msgSize msgId b =
     writePrim ''msg_checksum'' uint8_t (uint (getMessageChecksum msgSize msgId))
       (writePrim ''id'' uint16_t (uint msgId) (writePrim ''size'' uint32_t (uint msgSize) b))"

definition writeString :: "string \<Rightarrow> bytes \<Rightarrow> nat \<Rightarrow> message_buffer \<Rightarrow> message_buffer option" where
  "writeString fieldName val maxSize b =
     (let (ok, b) = checkAvailableBuffer fieldName maxSize b
      in if \<not> ok then Some b else if maxSize = 0 then None
         else let stringSize = min (length val) (maxSize - 1)
              in Some (putBytes (take stringSize val @ replicate (maxSize - stringSize) 0) b))"

definition writeDynString :: "string \<Rightarrow> bytes \<Rightarrow> nat \<Rightarrow> message_buffer \<Rightarrow> message_buffer option" where
  "writeDynString fieldName val count b =
     (let (ok, b) = checkAvailableBuffer fieldName count b
      in if \<not> ok then Some b else if count > length val + 1 then None
         else Some (putBytes (take count (val @ [0])) b))"

definition writeArrayPrim :: "string \<Rightarrow> prim \<Rightarrow> int list \<Rightarrow> nat \<Rightarrow> message_buffer \<Rightarrow> message_buffer option" where
  "writeArrayPrim fieldName p val n b =
     (let (ok, b) = checkAvailableBuffer fieldName (psize p * n) b
      in if \<not> ok then Some b else if n > length val then None
         else Some (putBytes (concat (map (primBytes p) (take n val))) b))"

definition writeDynArrayPrim :: "string \<Rightarrow> prim \<Rightarrow> int list \<Rightarrow> nat \<Rightarrow> message_buffer \<Rightarrow> message_buffer option" where
  "writeDynArrayPrim fieldName p val n b =
     (if psize p * n = 0 then Some b
      else let (ok, b) = checkAvailableBuffer fieldName (psize p * n) b
        in if \<not> ok then Some b else if n > length val then None
           else Some (putBytes (concat (map (primBytes p) (take n val))) b))"

definition padBuffer :: "string \<Rightarrow> nat \<Rightarrow> message_buffer \<Rightarrow> message_buffer" where
  "padBuffer fieldName n b =
     (let (ok, b) = checkAvailableBuffer fieldName n b in if ok then putBytes (replicate n 0) b else b)"

section \<open>Readers\<close>

definition readPrim :: "string \<Rightarrow> prim \<Rightarrow> message_buffer \<Rightarrow> int option \<times> message_buffer" where
  "readPrim fieldName p b =
     (let (ok, b) = checkAvailableBuffer fieldName (psize p) b
      in if ok then (Some (primValue p (peekBytes (psize p) b)), advance (psize p) b) else (None, b))"

definition discardBytes :: "string \<Rightarrow> nat \<Rightarrow> message_buffer \<Rightarrow> message_buffer" where
  "discardBytes fieldName n b =
     (let (ok, b) = checkAvailableBuffer fieldName n b in if ok then advance n b else b)"

definition readMessageHeader :: "message_buffer \<Rightarrow> u16 option \<times> message_buffer" where
  "readMessageHeader b =
     (let (i, b) = readPrim ''id'' uint16_t (discardBytes ''size'' 4 b)
      in (map_option word_of_int i, discardBytes ''msg_checksum'' 1 b))"

definition readString :: "string \<Rightarrow> nat \<Rightarrow> message_buffer \<Rightarrow> bytes option \<times> message_buffer" where
  "readString fieldName maxSize b =
     (let (ok, b) = checkAvailableBuffer fieldName maxSize b
      in if ok then (Some (takeWhile (\<lambda>c. c \<noteq> 0) (peekBytes (maxSize - 1) b)), advance maxSize b) else (None, b))"

definition readDynString :: "string \<Rightarrow> nat \<Rightarrow> bool \<Rightarrow> message_buffer \<Rightarrow> bytes option \<times> message_buffer" where
  "readDynString fieldName sizeToRead hasNullTerminator b =
     (let (ok, b) = checkAvailableBuffer fieldName sizeToRead b
      in if ok then (Some (if sizeToRead > 0 then peekBytes (sizeToRead - of_bool hasNullTerminator) b else []),
                     advance sizeToRead b)
         else (None, b))"

definition readEndString :: "string \<Rightarrow> bool \<Rightarrow> message_buffer \<Rightarrow> bytes option \<times> message_buffer" where
  "readEndString fieldName hasNullTerminator b =
     (let remainingSize = mbGetSize b - mb_pos b; (ok, b) = checkAvailableBuffer fieldName remainingSize b
      in if ok then (Some (if remainingSize > 0 then peekBytes (remainingSize - of_bool hasNullTerminator) b else []),
                     advance remainingSize b)
         else (None, b))"

definition primValues :: "prim \<Rightarrow> nat \<Rightarrow> bytes \<Rightarrow> int list" where
  "primValues p n bs = map (\<lambda>i. primValue p (take (psize p) (drop (psize p * i) bs))) [0..<n]"

definition readArrayPrim :: "string \<Rightarrow> prim \<Rightarrow> nat \<Rightarrow> message_buffer \<Rightarrow> int list option \<times> message_buffer" where
  "readArrayPrim fieldName p n b =
     (let (ok, b) = checkAvailableBuffer fieldName (psize p * n) b
      in if ok then (Some (primValues p n (peekBytes (psize p * n) b)), advance (psize p * n) b) else (None, b))"

definition readDynArrayPrim :: "string \<Rightarrow> prim \<Rightarrow> nat \<Rightarrow> message_buffer \<Rightarrow> int list \<times> message_buffer" where
  "readDynArrayPrim fieldName p n b =
     (if psize p * n = 0 then ([], b)
      else let (ok, b) = checkAvailableBuffer fieldName (psize p * n) b
        in if ok then (primValues p n (peekBytes (psize p * n) b), advance (psize p * n) b) else ([], b))"

text \<open>\<open>readEndArray\<close> on primitives: the rest of the buffer counted in elements, but checked and advanced
  over as that many bytes; the elements are read at their full width.\<close>

definition readEndArrayPrim :: "string \<Rightarrow> prim \<Rightarrow> message_buffer \<Rightarrow> int list option \<times> message_buffer" where
  "readEndArrayPrim fieldName p b =
     (let remainingSize = (mbGetSize b - mb_pos b) div psize p;
          (ok, b) = checkAvailableBuffer fieldName remainingSize b
      in if ok then (Some (primValues p remainingSize (peekBytes (psize p * remainingSize) b)), advance remainingSize b)
         else (None, b))"

section \<open>Arrays of objects\<close>

fun writeAll :: "('a \<Rightarrow> message_buffer \<Rightarrow> message_buffer option) \<Rightarrow> 'a list \<Rightarrow> message_buffer \<Rightarrow> message_buffer option" where
  "writeAll wr [] b = Some b"
| "writeAll wr (v # vs) b = (case wr v b of None \<Rightarrow> None | Some b' \<Rightarrow> writeAll wr vs b')"

fun readAll :: "(message_buffer \<Rightarrow> 'a \<times> message_buffer) \<Rightarrow> nat \<Rightarrow> message_buffer \<Rightarrow> 'a list \<times> message_buffer" where
  "readAll rd 0 b = ([], b)"
| "readAll rd (Suc n) b = (let (v, b') = rd b; (vs, b'') = readAll rd n b' in (v # vs, b''))"

definition readDynArrayObj ::
  "string \<Rightarrow> (message_buffer \<Rightarrow> 'a \<times> message_buffer) \<Rightarrow> nat \<Rightarrow> message_buffer \<Rightarrow> 'a list option \<times> message_buffer" where
  "readDynArrayObj fieldName rd n b =
     (let (ok, b) = checkAvailableBuffer fieldName n b
      in if ok then (let (vs, b') = readAll rd n b in (Some vs, b')) else (None, b))"

text \<open>\<open>readEndArray\<close> on objects loops while bytes are left and the last element consumed some. Every turn
  that leads to another one advances \<open>p\<close>, so one turn per remaining byte and one more are enough.\<close>

fun readEndLoop ::
  "nat \<Rightarrow> (message_buffer \<Rightarrow> 'a \<times> message_buffer) \<Rightarrow> nat option \<Rightarrow> message_buffer \<Rightarrow> ('a list \<times> message_buffer) option" where
  "readEndLoop fuel rd lastParsed b =
     (if lastParsed \<noteq> Some (mb_pos b) \<and> mb_pos b < mbGetSize b then
        (case fuel of 0 \<Rightarrow> None
         | Suc n \<Rightarrow> (let (v, b') = rd b in map_option (\<lambda>(vs, b''). (v # vs, b'')) (readEndLoop n rd (Some (mb_pos b)) b')))
      else Some ([], b))"

declare readEndLoop.simps [simp del]

lemma readEndLoop_total:
  "(\<And>b. mb_pos b \<le> mb_pos (snd (rd b)) \<and> mbGetSize (snd (rd b)) = mbGetSize b) \<Longrightarrow>
   (lastParsed \<noteq> Some (mb_pos b) \<Longrightarrow> mb_pos b < mbGetSize b \<Longrightarrow> mbGetSize b - mb_pos b < fuel) \<Longrightarrow>
   \<exists>r. readEndLoop fuel rd lastParsed b = Some r"
proof (induction fuel arbitrary: lastParsed b)
  case 0
  then show ?case by (subst readEndLoop.simps) auto
next
  case (Suc fuel)
  obtain v b' where r: "rd b = (v, b')" by fastforce
  then have p: "mb_pos b \<le> mb_pos b'" "mbGetSize b' = mbGetSize b" using Suc.prems(1) [of b] by simp_all
  show ?case
  proof (cases "lastParsed \<noteq> Some (mb_pos b) \<and> mb_pos b < mbGetSize b")
    case True
    have "\<exists>r. readEndLoop fuel rd (Some (mb_pos b)) b' = Some r"
      using p Suc.prems True by (intro Suc.IH) auto
    then show ?thesis using True r by (subst readEndLoop.simps) auto
  next
    case False
    then show ?thesis by (subst readEndLoop.simps) auto
  qed
qed

definition readEndArrayObj :: "(message_buffer \<Rightarrow> 'a \<times> message_buffer) \<Rightarrow> message_buffer \<Rightarrow> 'a list \<times> message_buffer" where
  "readEndArrayObj rd b = the (readEndLoop (Suc (mbGetSize b - mb_pos b)) rd None b)"

end
