(* ===== verification/PacketDecl.thy ===== *)
theory PacketDecl
  imports MessageBuffer PacketVersion
begin

text \<open>
  The packet description language (librzu/src/lib/Packet/PacketDeclaration.h): the field metatypes and
  what the macros of each generate in \<open>getSize\<close>, \<open>serialize\<close> and \<open>deserialize\<close>, interpreted over a
  datatype of declarations. A field line without a condition is its constructor, one with a
  condition is wrapped in \<open>When\<close>, with the default value if it has one; \<open>_(def)\<close> lines declare members
  only and have no counterpart. Conditions depend on the version alone, padding sizes are constants,
  and a member holds every value of the wire type.
  A struct value maps the members that are initialised to their values.
\<close>

section \<open>Declarations and values\<close>

datatype fval =
    VNum int
  | VStr bytes
  | VList "fval list"
  | VObj "string \<Rightarrow> fval option"

datatype ftype = PrimT prim | StructT "field list"
and field =
    Simple ftype string
  | ArrayF ftype string nat
  | DynArray ftype string
  | Count prim string bool
  | StringF string nat
  | DynString string bool
  | PadMarker string
  | Pad nat string
  | EndString string bool
  | EndArray ftype string
  | When "packet_version_t \<Rightarrow> bool" field "fval option"

fun num :: "fval \<Rightarrow> int" where "num (VNum i) = i" | "num _ = 0"
fun str :: "fval \<Rightarrow> bytes" where "str (VStr s) = s" | "str _ = []"
fun vals :: "fval \<Rightarrow> fval list" where "vals (VList vs) = vs" | "vals _ = []"
fun members :: "fval \<Rightarrow> string \<Rightarrow> fval option" where "members (VObj ob) = ob" | "members _ = Map.empty"

fun isNum where "isNum (VNum i) = True" | "isNum _ = False"
fun isStr where "isStr (VStr s) = True" | "isStr _ = False"
fun isList where "isList (VList vs) = True" | "isList _ = False"
fun isObj where "isObj (VObj ob) = True" | "isObj _ = False"

definition member :: "(string \<Rightarrow> fval option) \<Rightarrow> string \<Rightarrow> fval" where
  "member ob name = (case ob name of Some v \<Rightarrow> v | None \<Rightarrow> VObj Map.empty)"

text \<open>\<open>ref.size()\<close> of a string or vector member.\<close>

definition contSize :: "(string \<Rightarrow> fval option) \<Rightarrow> string \<Rightarrow> nat" where
  "contSize ob ref = (case member ob ref of VStr s \<Rightarrow> length s | v \<Rightarrow> length (vals v))"

text \<open>The local variables of the generated functions: \<open>ref_size\<close> of every count and the padding markers.\<close>

record locals =
  lc_count :: "string \<Rightarrow> nat"
  lc_marker :: "string \<Rightarrow> nat option"

definition newLocals :: locals where
  "newLocals = \<lparr>lc_count = (\<lambda>_. 0), lc_marker = Map.empty\<rparr>"

definition setCount :: "string \<Rightarrow> nat \<Rightarrow> locals \<Rightarrow> locals" where
  "setCount ref n L = L\<lparr>lc_count := (lc_count L)(ref := n)\<rparr>"

definition setMarker :: "string \<Rightarrow> nat \<Rightarrow> locals \<Rightarrow> locals" where
  "setMarker marker n L = L\<lparr>lc_marker := (lc_marker L)(marker \<mapsto> n)\<rparr>"

text \<open>The effect of a condition that is false on the counts: the default of a count line.\<close>

definition defaultCount :: "field \<Rightarrow> fval option \<Rightarrow> locals \<Rightarrow> locals" where
  "defaultCount f d L = (case (f, d) of (Count p ref nul, Some v) \<Rightarrow> setCount ref (nat (num v)) L | _ \<Rightarrow> L)"

section \<open>getSize\<close>

fun sumSizes :: "('a \<Rightarrow> nat option) \<Rightarrow> 'a list \<Rightarrow> nat option" where
  "sumSizes sz [] = Some 0"
| "sumSizes sz (v # vs) =
     (case sz v of None \<Rightarrow> None | Some n \<Rightarrow> map_option (\<lambda>k. n + k) (sumSizes sz vs))"

fun sizeT :: "packet_version_t \<Rightarrow> ftype \<Rightarrow> fval \<Rightarrow> nat option"
and sizeF :: "packet_version_t \<Rightarrow> field \<Rightarrow> (string \<Rightarrow> fval option) \<Rightarrow> locals \<times> nat \<Rightarrow> (locals \<times> nat) option"
and sizeFs :: "packet_version_t \<Rightarrow> field list \<Rightarrow> (string \<Rightarrow> fval option) \<Rightarrow> locals \<times> nat \<Rightarrow> (locals \<times> nat) option" where
  "sizeT ver (PrimT p) v = Some (psize p)"
| "sizeT ver (StructT fs) v = map_option snd (sizeFs ver fs (members v) (newLocals, 0))"
| "sizeF ver (Simple t name) ob (L, n) = map_option (\<lambda>k. (L, n + k)) (sizeT ver t (member ob name))"
| "sizeF ver (ArrayF t name m) ob (L, n) =
     (let vs = vals (member ob name)
      in if m > length vs then None
         else map_option (\<lambda>k. (L, n + k)) (sumSizes (\<lambda>v. sizeT ver t v) (take m vs)))"
| "sizeF ver (DynArray t name) ob (L, n) =
     (let vs = vals (member ob name)
      in if lc_count L name > length vs then None
         else map_option (\<lambda>k. (L, n + k)) (sumSizes (\<lambda>v. sizeT ver t v) (take (lc_count L name) vs)))"
| "sizeF ver (Count p ref nul) ob (L, n) =
     Some (setCount ref (getClampedCount p (contSize ob ref + of_bool nul)) L, n + psize p)"
| "sizeF ver (StringF name m) ob (L, n) = Some (L, n + m)"
| "sizeF ver (DynString name nul) ob (L, n) = Some (L, n + lc_count L name)"
| "sizeF ver (PadMarker marker) ob (L, n) = Some (setMarker marker n L, n)"
| "sizeF ver (Pad m marker) ob (L, n) =
     map_option (\<lambda>k. (L, if n < k + m then k + m else n)) (lc_marker L marker)"
| "sizeF ver (EndString name nul) ob (L, n) = Some (L, n + contSize ob name + of_bool nul)"
| "sizeF ver (EndArray t name) ob (L, n) =
     map_option (\<lambda>k. (L, n + k)) (sumSizes (\<lambda>v. sizeT ver t v) (vals (member ob name)))"
| "sizeF ver (When c f d) ob (L, n) = (if c ver then sizeF ver f ob (L, n) else Some (defaultCount f d L, n))"
| "sizeFs ver [] ob st = Some st"
| "sizeFs ver (f # fs) ob st = (case sizeF ver f ob st of None \<Rightarrow> None | Some st' \<Rightarrow> sizeFs ver fs ob st')"

section \<open>serialize\<close>

fun serT :: "packet_version_t \<Rightarrow> string \<Rightarrow> ftype \<Rightarrow> fval \<Rightarrow> message_buffer \<Rightarrow> message_buffer option"
and serF :: "packet_version_t \<Rightarrow> field \<Rightarrow> (string \<Rightarrow> fval option) \<Rightarrow> locals \<times> message_buffer \<Rightarrow> (locals \<times> message_buffer) option"
and serFs :: "packet_version_t \<Rightarrow> field list \<Rightarrow> (string \<Rightarrow> fval option) \<Rightarrow> locals \<times> message_buffer \<Rightarrow> (locals \<times> message_buffer) option" where
  "serT ver name (PrimT p) v b = Some (writePrim name p (num v) b)"
| "serT ver name (StructT fs) v b = map_option snd (serFs ver fs (members v) (newLocals, b))"
| "serF ver (Simple t name) ob (L, b) = map_option (\<lambda>b. (L, b)) (serT ver name t (member ob name) b)"
| "serF ver (ArrayF t name m) ob (L, b) =
     (let vs = vals (member ob name)
      in map_option (\<lambda>b. (L, b))
           (case t of PrimT p \<Rightarrow> writeArrayPrim name p (map num vs) m b
            | StructT fs \<Rightarrow> if m > length vs then None else writeAll (\<lambda>v b. serT ver name t v b) (take m vs) b))"
| "serF ver (DynArray t name) ob (L, b) =
     (let vs = vals (member ob name); m = lc_count L name
      in map_option (\<lambda>b. (L, b))
           (case t of PrimT p \<Rightarrow> writeDynArrayPrim name p (map num vs) m b
            | StructT fs \<Rightarrow> if m > length vs then None else writeAll (\<lambda>v b. serT ver name t v b) (take m vs) b))"
| "serF ver (Count p ref nul) ob (L, b) =
     (let m = getClampedCount p (contSize ob ref + of_bool nul)
      in Some (setCount ref m L, writePrim ref p (int m) b))"
| "serF ver (StringF name m) ob (L, b) = map_option (\<lambda>b. (L, b)) (writeString name (str (member ob name)) m b)"
| "serF ver (DynString name nul) ob (L, b) =
     map_option (\<lambda>b. (L, b)) (writeDynString name (str (member ob name)) (lc_count L name) b)"
| "serF ver (PadMarker marker) ob (L, b) = Some (setMarker marker (mb_pos b) L, b)"
| "serF ver (Pad m marker) ob (L, b) =
     map_option (\<lambda>k. (L, if mb_pos b < k + m then padBuffer (''pad_'' @ marker) (k + m - mb_pos b) b else b))
       (lc_marker L marker)"
| "serF ver (EndString name nul) ob (L, b) =
     map_option (\<lambda>b. (L, b)) (writeDynString name (str (member ob name)) (contSize ob name + of_bool nul) b)"
| "serF ver (EndArray t name) ob (L, b) =
     (let vs = vals (member ob name)
      in map_option (\<lambda>b. (L, b))
           (case t of PrimT p \<Rightarrow> writeDynArrayPrim name p (map num vs) (length vs) b
            | StructT fs \<Rightarrow> writeAll (\<lambda>v b. serT ver name t v b) vs b))"
| "serF ver (When c f d) ob (L, b) = (if c ver then serF ver f ob (L, b) else Some (defaultCount f d L, b))"
| "serFs ver [] ob st = Some st"
| "serFs ver (f # fs) ob st = (case serF ver f ob st of None \<Rightarrow> None | Some st' \<Rightarrow> serFs ver fs ob st')"

section \<open>deserialize\<close>

definition assign :: "string \<Rightarrow> 'a option \<Rightarrow> ('a \<Rightarrow> fval) \<Rightarrow> (string \<Rightarrow> fval option) \<Rightarrow> string \<Rightarrow> fval option" where
  "assign name r mk ob = (case r of None \<Rightarrow> ob | Some x \<Rightarrow> ob(name \<mapsto> mk x))"

text \<open>The else branch of a line with a default: members are assigned, \<open>ref_size\<close> for a count. The default of
  a vector is assigned to a copy and lost; that of an array is copied for \<open>size\<close> bytes only, which leaves the
  member partly uninitialised.\<close>

definition defaultMember :: "field \<Rightarrow> fval option \<Rightarrow> (string \<Rightarrow> fval option) \<Rightarrow> string \<Rightarrow> fval option" where
  "defaultMember f d ob =
     (case d of None \<Rightarrow> ob
      | Some v \<Rightarrow> (case f of Simple t name \<Rightarrow> ob(name \<mapsto> v) | StringF name m \<Rightarrow> ob(name \<mapsto> v)
                  | DynString name nul \<Rightarrow> ob(name \<mapsto> v) | EndString name nul \<Rightarrow> ob(name \<mapsto> v)
                  | ArrayF t name m \<Rightarrow> ob(name := None) | _ \<Rightarrow> ob))"

fun desT :: "packet_version_t \<Rightarrow> string \<Rightarrow> ftype \<Rightarrow> fval option \<Rightarrow> message_buffer \<Rightarrow> fval option \<times> message_buffer"
and desF :: "packet_version_t \<Rightarrow> field \<Rightarrow> (string \<Rightarrow> fval option) \<Rightarrow> locals \<times> message_buffer \<Rightarrow>
  (string \<Rightarrow> fval option) \<times> locals \<times> message_buffer"
and desFs :: "packet_version_t \<Rightarrow> field list \<Rightarrow> (string \<Rightarrow> fval option) \<Rightarrow> locals \<times> message_buffer \<Rightarrow>
  (string \<Rightarrow> fval option) \<times> locals \<times> message_buffer" where
  "desT ver name (PrimT p) old b =
     (case readPrim name p b of (Some i, b') \<Rightarrow> (Some (VNum i), b') | (None, b') \<Rightarrow> (old, b'))"
| "desT ver name (StructT fs) old b =
     (let ob = (case old of Some v \<Rightarrow> members v | None \<Rightarrow> Map.empty); (ob', L', b') = desFs ver fs ob (newLocals, b)
      in (Some (VObj ob'), b'))"
| "desF ver (Simple t name) ob (L, b) = (let (v, b') = desT ver name t (ob name) b in (ob(name := v), L, b'))"
| "desF ver (ArrayF t name m) ob (L, b) =
     (case t of PrimT p \<Rightarrow> (let (r, b') = readArrayPrim name p m b in (assign name r (\<lambda>is. VList (map VNum is)) ob, L, b'))
      | StructT fs \<Rightarrow> (let (vs, b') = readAll (\<lambda>b. let (v, b') = desT ver name t None b in (the v, b')) m b
                     in (ob(name \<mapsto> VList vs), L, b')))"
| "desF ver (DynArray t name) ob (L, b) =
     (case t of PrimT p \<Rightarrow> (let (is, b') = readDynArrayPrim name p (lc_count L name) b in (ob(name \<mapsto> VList (map VNum is)), L, b'))
      | StructT fs \<Rightarrow> (let (r, b') = readDynArrayObj name (\<lambda>b. let (v, b') = desT ver name t None b in (the v, b')) (lc_count L name) b
                     in (assign name r VList ob, L, b')))"
| "desF ver (Count p ref nul) ob (L, b) =
     (let (r, b') = readPrim ref p b in (ob, (case r of Some i \<Rightarrow> setCount ref (unat (word_of_int i :: u32)) L | None \<Rightarrow> L), b'))"
| "desF ver (StringF name m) ob (L, b) = (let (r, b') = readString name m b in (assign name r VStr ob, L, b'))"
| "desF ver (DynString name nul) ob (L, b) =
     (let (r, b') = readDynString name (lc_count L name) nul b in (assign name r VStr ob, L, b'))"
| "desF ver (PadMarker marker) ob (L, b) = (ob, setMarker marker (mb_pos b) L, b)"
| "desF ver (Pad m marker) ob (L, b) =
     (case lc_marker L marker of None \<Rightarrow> (ob, L, b)
      | Some k \<Rightarrow> (ob, L, if mb_pos b < k + m then discardBytes (''pad_'' @ marker) (k + m - mb_pos b) b else b))"
| "desF ver (EndString name nul) ob (L, b) = (let (r, b') = readEndString name nul b in (assign name r VStr ob, L, b'))"
| "desF ver (EndArray t name) ob (L, b) =
     (case t of PrimT p \<Rightarrow> (let (r, b') = readEndArrayPrim name p b in (assign name r (\<lambda>is. VList (map VNum is)) ob, L, b'))
      | StructT fs \<Rightarrow> (let (vs, b') = readEndArrayObj (\<lambda>b. let (v, b') = desT ver name t None b in (the v, b')) b
                     in (ob(name \<mapsto> VList vs), L, b')))"
| "desF ver (When c f d) ob (L, b) =
     (if c ver then desF ver f ob (L, b) else (defaultMember f d ob, defaultCount f d L, b))"
| "desFs ver [] ob (L, b) = (ob, L, b)"
| "desFs ver (f # fs) ob (L, b) = (let (ob', L', b') = desF ver f ob (L, b) in desFs ver fs ob' (L', b'))"

section \<open>Packets\<close>

datatype packet_decl = Packet (pd_ids: "((packet_version_t \<Rightarrow> bool) \<times> u16) list") (pd_fields: "field list")

text \<open>\<open>getId\<close>: the last line whose condition holds; \<open>None\<close> when there is none and \<open>id\<close> is uninitialised.\<close>

definition getPacketId :: "packet_decl \<Rightarrow> packet_version_t \<Rightarrow> u16 option" where
  "getPacketId d ver = foldl (\<lambda>r (c, i). if c ver then Some i else r) None (pd_ids d)"

definition getPacketSize :: "packet_decl \<Rightarrow> packet_version_t \<Rightarrow> (string \<Rightarrow> fval option) \<Rightarrow> nat option" where
  "getPacketSize d ver ob = map_option snd (sizeFs ver (pd_fields d) ob (newLocals, 7))"

definition serializePacket ::
  "packet_decl \<Rightarrow> packet_version_t \<Rightarrow> (string \<Rightarrow> fval option) \<Rightarrow> message_buffer \<Rightarrow> message_buffer option" where
  "serializePacket d ver ob b = do {
     n \<leftarrow> getPacketSize d ver ob;
     i \<leftarrow> getPacketId d ver;
     (L, b) \<leftarrow> serFs ver (pd_fields d) ob (newLocals, writeHeader (word_of_nat n) i b);
     Some b }"

definition deserializePacket ::
  "packet_decl \<Rightarrow> packet_version_t \<Rightarrow> message_buffer \<Rightarrow> u16 option \<times> (string \<Rightarrow> fval option) \<times> message_buffer" where
  "deserializePacket d ver b =
     (let (i, b) = readMessageHeader b; (ob, L, b) = desFs ver (pd_fields d) Map.empty (newLocals, b) in (i, ob, b))"

text \<open>\<open>PacketSession::sendPacket\<close>: a fresh buffer of the announced size, whose bytes are arbitrary; the packet is
  written to the stream if it fills the buffer, else the session is aborted (\<open>Inl\<close>).\<close>

definition sendPacket ::
  "(nat \<Rightarrow> bytes) \<Rightarrow> packet_decl \<Rightarrow> packet_version_t \<Rightarrow> (string \<Rightarrow> fval option) \<Rightarrow> (string + bytes) option" where
  "sendPacket fresh d ver ob = do {
     n \<leftarrow> getPacketSize d ver ob;
     b \<leftarrow> serializePacket d ver ob (newMessageBuffer (fresh n));
     Some (if checkPacketFinalSize b then Inr (mb_data b) else Inl (mb_field b)) }"

text \<open>\<open>TS_MESSAGE::process\<close>: the parsed packet if the whole message was consumed. The buffer is the message,
  as long as its size field says.\<close>

definition processPacket :: "packet_decl \<Rightarrow> packet_version_t \<Rightarrow> bytes \<Rightarrow> (string \<Rightarrow> fval option) option" where
  "processPacket d ver msg =
     (let (i, ob, b) = deserializePacket d ver (newMessageBuffer msg)
      in if checkPacketFinalSize b then Some ob else None)"

end
