(* ===== verification/PacketWire.thy ===== *)
theory PacketWire
  imports PacketDecl
begin

text \<open>
  The wire format of described packets as a function from values to bytes, and the proofs that the generated
  code implements it: \<open>getSize\<close> is the length of the encoding, \<open>serialize\<close> writes it, and
  \<open>deserialize\<close> of it restores the value. Offsets and markers of the encoding are relative to the
  start of their struct.
\<close>

section \<open>The wire format\<close>

fun nextLocals :: "packet_version_t \<Rightarrow> field \<Rightarrow> (string \<Rightarrow> fval option) \<Rightarrow> locals \<Rightarrow> nat \<Rightarrow> locals" where
  "nextLocals ver (Count p ref nul) ob L off = setCount ref (getClampedCount p (contSize ob ref + of_bool nul)) L"
| "nextLocals ver (PadMarker marker) ob L off = setMarker marker off L"
| "nextLocals ver (When c f d) ob L off = (if c ver then nextLocals ver f ob L off else defaultCount f d L)"
| "nextLocals ver f ob L off = L"

fun encT :: "packet_version_t \<Rightarrow> ftype \<Rightarrow> fval \<Rightarrow> bytes"
and encF :: "packet_version_t \<Rightarrow> field \<Rightarrow> (string \<Rightarrow> fval option) \<Rightarrow> locals \<Rightarrow> nat \<Rightarrow> bytes"
and encFs :: "packet_version_t \<Rightarrow> field list \<Rightarrow> (string \<Rightarrow> fval option) \<Rightarrow> locals \<Rightarrow> nat \<Rightarrow> bytes" where
  "encT ver (PrimT p) v = primBytes p (num v)"
| "encT ver (StructT fs) v = encFs ver fs (members v) newLocals 0"
| "encF ver (Simple t name) ob L off = encT ver t (member ob name)"
| "encF ver (ArrayF t name m) ob L off = concat (map (\<lambda>v. encT ver t v) (take m (vals (member ob name))))"
| "encF ver (DynArray t name) ob L off =
     concat (map (\<lambda>v. encT ver t v) (take (lc_count L name) (vals (member ob name))))"
| "encF ver (Count p ref nul) ob L off = primBytes p (int (getClampedCount p (contSize ob ref + of_bool nul)))"
| "encF ver (StringF name m) ob L off =
     (let s = str (member ob name); k = min (length s) (m - 1) in take k s @ replicate (m - k) 0)"
| "encF ver (DynString name nul) ob L off = take (lc_count L name) (str (member ob name) @ [0])"
| "encF ver (PadMarker marker) ob L off = []"
| "encF ver (Pad m marker) ob L off = replicate (the (lc_marker L marker) + m - off) 0"
| "encF ver (EndString name nul) ob L off = str (member ob name) @ (if nul then [0] else [])"
| "encF ver (EndArray t name) ob L off = concat (map (\<lambda>v. encT ver t v) (vals (member ob name)))"
| "encF ver (When c f d) ob L off = (if c ver then encF ver f ob L off else [])"
| "encFs ver [] ob L off = []"
| "encFs ver (f # fs) ob L off =
     (let bs = encF ver f ob L off in bs @ encFs ver fs ob (nextLocals ver f ob L off) (off + length bs))"

text \<open>Values of the declared types, with enough elements for the counts: what the C++ type system and the
  packet descriptions guarantee.\<close>

fun okT :: "packet_version_t \<Rightarrow> ftype \<Rightarrow> fval \<Rightarrow> bool"
and okF :: "packet_version_t \<Rightarrow> field \<Rightarrow> (string \<Rightarrow> fval option) \<Rightarrow> locals \<Rightarrow> bool"
and okFs :: "packet_version_t \<Rightarrow> field list \<Rightarrow> (string \<Rightarrow> fval option) \<Rightarrow> locals \<Rightarrow> nat \<Rightarrow> bool" where
  "okT ver (PrimT p) v = isNum v"
| "okT ver (StructT fs) v = (isObj v \<and> okFs ver fs (members v) newLocals 0)"
| "okF ver (Simple t name) ob L = (ob name \<noteq> None \<and> okT ver t (member ob name))"
| "okF ver (ArrayF t name m) ob L =
     (isList (member ob name) \<and> m \<le> length (vals (member ob name)) \<and>
      list_all (\<lambda>v. okT ver t v) (take m (vals (member ob name))))"
| "okF ver (DynArray t name) ob L =
     (isList (member ob name) \<and> lc_count L name \<le> length (vals (member ob name)) \<and>
      list_all (\<lambda>v. okT ver t v) (take (lc_count L name) (vals (member ob name))))"
| "okF ver (Count p ref nul) ob L = (0 < psize p \<and> psize p \<le> 4 \<and> (isStr (member ob ref) \<or> isList (member ob ref)))"
| "okF ver (StringF name m) ob L = (isStr (member ob name) \<and> 0 < m)"
| "okF ver (DynString name nul) ob L = (isStr (member ob name) \<and> lc_count L name \<le> length (str (member ob name)) + 1)"
| "okF ver (PadMarker marker) ob L = True"
| "okF ver (Pad m marker) ob L = (lc_marker L marker \<noteq> None)"
| "okF ver (EndString name nul) ob L = isStr (member ob name)"
| "okF ver (EndArray t name) ob L = (isList (member ob name) \<and> list_all (\<lambda>v. okT ver t v) (vals (member ob name)))"
| "okF ver (When c f d) ob L = (c ver \<longrightarrow> okF ver f ob L)"
| "okFs ver [] ob L off = True"
| "okFs ver (f # fs) ob L off =
     (okF ver f ob L \<and> okFs ver fs ob (nextLocals ver f ob L off) (off + length (encF ver f ob L off)))"

text \<open>Seen from the buffer, a struct that starts at \<open>base\<close> has its markers moved by \<open>base\<close>.\<close>

definition shift :: "nat \<Rightarrow> locals \<Rightarrow> locals" where
  "shift base L = L\<lparr>lc_marker := (\<lambda>m. map_option (\<lambda>k. base + k) (lc_marker L m))\<rparr>"

lemma shift_simps [simp]:
  "lc_count (shift base L) = lc_count L"
  "lc_marker (shift base L) m = map_option (\<lambda>k. base + k) (lc_marker L m)"
  "shift base newLocals = newLocals"
  "setCount ref n (shift base L) = shift base (setCount ref n L)"
  "setMarker m (base + n) (shift base L) = shift base (setMarker m n L)"
  by (auto simp: shift_def newLocals_def setCount_def setMarker_def fun_eq_iff)

lemma shift_defaultCount [simp]: "defaultCount f d (shift base L) = shift base (defaultCount f d L)"
  by (simp add: defaultCount_def split: field.split option.split)

lemma shift_0 [simp]: "shift 0 L = L"
  by (simp add: shift_def map_option.identity)

section \<open>getSize is the length of the encoding\<close>

lemma contSize_str [simp]: "isStr (member ob ref) \<Longrightarrow> contSize ob ref = length (str (member ob ref))"
  by (cases "member ob ref") (auto simp: contSize_def)

lemma contSize_list [simp]: "isList (member ob ref) \<Longrightarrow> contSize ob ref = length (vals (member ob ref))"
  by (cases "member ob ref") (auto simp: contSize_def)

lemma sumSizes_length:
  "(\<And>v. v \<in> set vs \<Longrightarrow> sz v = Some (length (enc v))) \<Longrightarrow> sumSizes sz vs = Some (length (concat (map enc vs)))"
  by (induction vs) auto

lemma size_enc:
  "okT ver t v \<longrightarrow> sizeT ver t v = Some (length (encT ver t v))"
  "okF ver f ob L \<longrightarrow> sizeF ver f ob (shift base L, base + off) =
     Some (shift base (nextLocals ver f ob L off), base + off + length (encF ver f ob L off))"
  "okFs ver fs ob L off \<longrightarrow> (\<exists>L'. sizeFs ver fs ob (shift base L, base + off) =
     Some (L', base + off + length (encFs ver fs ob L off)))"
proof (induction ver t v and ver f ob L off and ver fs ob L off arbitrary: and base and base
    rule: encT_encF_encFs.induct)
  case (2 ver fs v)
  then show ?case using "2.IH" [of 0] by fastforce
next
  case (15 ver f fs ob L off)
  then show ?case by (auto simp: Let_def add.assoc)
qed (auto simp: Let_def list_all_iff sumSizes_length min_def)

section \<open>serialize writes the encoding\<close>

text \<open>A buffer that can take \<open>n\<close> more bytes.\<close>

definition room :: "nat \<Rightarrow> message_buffer \<Rightarrow> bool" where
  "room n b \<longleftrightarrow> \<not> mb_overflow b \<and> mb_pos b + n \<le> mbGetSize b \<and> mbGetSize b < 65536"

lemma check_room: "room n b \<Longrightarrow> checkAvailableBuffer name n b = (True, b)"
  by (simp add: room_def checkAvailableBuffer_def Let_def)

lemma put_simps [simp]:
  "mb_pos (putBytes bs b) = mb_pos b + length bs"
  "mb_overflow (putBytes bs b) = mb_overflow b"
  "mb_field (putBytes bs b) = mb_field b"
  by (simp_all add: putBytes_def)

lemma put_size [simp]: "mb_pos b + length bs \<le> mbGetSize b \<Longrightarrow> mbGetSize (putBytes bs b) = mbGetSize b"
  by (simp add: putBytes_def mbGetSize_def)

lemma put_Nil [simp]: "putBytes [] b = b"
  by (simp add: putBytes_def)

lemma put_put: "mb_pos b + length xs \<le> mbGetSize b \<Longrightarrow> putBytes ys (putBytes xs b) = putBytes (xs @ ys) b"
  by (simp add: putBytes_def mbGetSize_def ac_simps)

lemma room_put: "room (length xs + n) b \<Longrightarrow> room n (putBytes xs b)"
  by (simp add: room_def)

lemma room_le: "room n b \<Longrightarrow> m \<le> n \<Longrightarrow> room m b"
  by (simp add: room_def)

lemma writePrim_room: "room (psize p) b \<Longrightarrow> writePrim name p v b = putBytes (primBytes p v) b"
  by (simp add: writePrim_def check_room)

lemma writeAll_put:
  "(\<And>v b. v \<in> set vs \<Longrightarrow> room (length (enc v)) b \<Longrightarrow> wr v b = Some (putBytes (enc v) b)) \<Longrightarrow>
   room (length (concat (map enc vs))) b \<Longrightarrow> writeAll wr vs b = Some (putBytes (concat (map enc vs)) b)"
proof (induction vs arbitrary: b)
  case Nil
  then show ?case by simp
next
  case (Cons v vs)
  have r: "room (length (enc v)) b" using Cons.prems(2) by (simp add: room_le)
  then have fit: "mb_pos b + length (enc v) \<le> mbGetSize b" by (simp add: room_def)
  have "room (length (concat (map enc vs))) (putBytes (enc v) b)"
    using Cons.prems(2) by (intro room_put) simp
  then show ?case using Cons r fit by (simp add: put_put)
qed

lemma concat_prims_length: "length (concat (map (\<lambda>v. primBytes p (num v)) vs)) = psize p * length vs"
  by (induction vs) auto

lemma concat_prims_empty: "psize p = 0 \<Longrightarrow> concat (map (\<lambda>v. primBytes p (num v)) vs) = []"
  using concat_prims_length [of p vs] by simp

lemma encT_prim: "encT ver (PrimT p) = (\<lambda>v. primBytes p (num v))"
  by (rule ext) simp

lemma room_prims: "room (length (concat (map (\<lambda>v. primBytes p (num v)) (take m vs)))) b \<Longrightarrow>
    m \<le> length vs \<Longrightarrow> room (psize p * m) b"
  by (simp only: concat_prims_length length_take min.absorb2)

lemma writeArrayPrim_room: "room (length (concat (map (\<lambda>v. primBytes p (num v)) (take m vs)))) b \<Longrightarrow>
    m \<le> length vs \<Longrightarrow> writeArrayPrim name p (map num vs) m b =
      Some (putBytes (concat (map (\<lambda>v. primBytes p (num v)) (take m vs))) b)"
  using room_prims [of p m vs b] by (simp add: writeArrayPrim_def check_room take_map comp_def)

lemma writeDynArrayPrim_room: "room (length (concat (map (\<lambda>v. primBytes p (num v)) (take m vs)))) b \<Longrightarrow>
    m \<le> length vs \<Longrightarrow> writeDynArrayPrim name p (map num vs) m b =
      Some (putBytes (concat (map (\<lambda>v. primBytes p (num v)) (take m vs))) b)"
  using room_prims [of p m vs b]
  by (cases "psize p * m = 0")
     (auto simp add: writeDynArrayPrim_def check_room take_map comp_def concat_prims_empty)

lemma writeDynString_room:
  assumes "m \<le> length s + 1" and "room (length (take m (s @ [0]))) b"
  shows "writeDynString name s m b = Some (putBytes (take m (s @ [0])) b)"
proof -
  have "length (take m (s @ [0 :: u8])) = m" using assms(1) by simp
  then show ?thesis using assms by (simp add: writeDynString_def check_room del: length_take take_append)
qed

lemma ser_enc:
  "okT ver t v \<longrightarrow> (\<forall>b. room (length (encT ver t v)) b \<longrightarrow> serT ver name t v b = Some (putBytes (encT ver t v) b))"
  "okF ver f ob L \<longrightarrow> (\<forall>b. mb_pos b = base + off \<and> room (length (encF ver f ob L off)) b \<longrightarrow>
     serF ver f ob (shift base L, b) =
       Some (shift base (nextLocals ver f ob L off), putBytes (encF ver f ob L off) b))"
  "okFs ver fs ob L off \<longrightarrow> (\<forall>b. mb_pos b = base + off \<and> room (length (encFs ver fs ob L off)) b \<longrightarrow>
     (\<exists>L'. serFs ver fs ob (shift base L, b) = Some (L', putBytes (encFs ver fs ob L off) b)))"
proof (induction ver t v and ver f ob L off and ver fs ob L off arbitrary: name and base and base
    rule: encT_encF_encFs.induct)
  case (1 ver p v)
  then show ?case by (simp add: writePrim_room)
next
  case (2 ver fs v)
  show ?case
  proof (intro impI allI)
    fix b assume ok: "okT ver (StructT fs) v" and r: "room (length (encT ver (StructT fs) v)) b"
    then show "serT ver name (StructT fs) v b = Some (putBytes (encT ver (StructT fs) v) b)"
      using "2.IH" [of "mb_pos b"] by fastforce
  qed
next
  case (4 ver t nm m ob L off)
  then show ?case by (cases t) (auto simp: Let_def list_all_iff encT_prim writeArrayPrim_room intro!: writeAll_put)
next
  case (5 ver t nm ob L off)
  then show ?case by (cases t) (auto simp: Let_def list_all_iff encT_prim writeDynArrayPrim_room intro!: writeAll_put)
next
  case (6 ver p ref nul ob L off)
  then show ?case by (simp add: Let_def writePrim_room)
next
  case (7 ver nm m ob L off)
  then show ?case by (auto simp: Let_def writeString_def check_room min_def split: if_splits)
next
  case (8 ver nm nul ob L off)
  then show ?case by (auto simp: writeDynString_room simp del: length_take take_append)
next
  case (10 ver m marker ob L off)
  then show ?case by (auto simp: padBuffer_def check_room)
next
  case (11 ver nm nul ob L off)
  then show ?case by (auto simp: writeDynString_def check_room)
next
  case (12 ver t nm ob L off)
  then show ?case
    using writeDynArrayPrim_room [of _ "length (vals (member ob nm))" "vals (member ob nm)"]
    by (cases t) (auto simp: Let_def list_all_iff encT_prim intro!: writeAll_put)
next
  case (15 ver f fs ob L off)
  show ?case
  proof (intro impI allI, elim conjE)
    fix b
    let ?bs = "encF ver f ob L off"
    assume ok: "okFs ver (f # fs) ob L off" and pos: "mb_pos b = base + off"
      and r: "room (length (encFs ver (f # fs) ob L off)) b"
    have r1: "room (length ?bs) b" using r by (simp add: Let_def room_le)
    have r2: "room (length (encFs ver fs ob (nextLocals ver f ob L off) (off + length ?bs))) (putBytes ?bs b)"
      using r by (intro room_put) (simp add: Let_def)
    have fit: "mb_pos b + length ?bs \<le> mbGetSize b" using r1 by (simp add: room_def)
    have "serF ver f ob (shift base L, b) = Some (shift base (nextLocals ver f ob L off), putBytes ?bs b)"
      using "15.IH"(1) [of base] ok r1 pos by simp
    moreover obtain L' where "serFs ver fs ob (shift base (nextLocals ver f ob L off), putBytes ?bs b) =
        Some (L', putBytes (encFs ver fs ob (nextLocals ver f ob L off) (off + length ?bs)) (putBytes ?bs b))"
      using "15.IH"(2) [OF refl, of base] ok r2 pos by fastforce
    ultimately show "\<exists>L'. serFs ver (f # fs) ob (shift base L, b) = Some (L', putBytes (encFs ver (f # fs) ob L off) b)"
      by (simp add: Let_def put_put [OF fit])
  qed
qed auto

section \<open>deserialize restores the value\<close>

text \<open>The members a field line assigns when reading: by parsing, or to the default.\<close>

fun defNames :: "field \<Rightarrow> string list" where
  "defNames (Simple t name) = [name]"
| "defNames (StringF name m) = [name]"
| "defNames (DynString name nul) = [name]"
| "defNames (EndString name nul) = [name]"
| "defNames f = []"

fun wrF :: "packet_version_t \<Rightarrow> field \<Rightarrow> string list" where
  "wrF ver (Simple t name) = [name]"
| "wrF ver (ArrayF t name m) = [name]"
| "wrF ver (DynArray t name) = [name]"
| "wrF ver (StringF name m) = [name]"
| "wrF ver (DynString name nul) = [name]"
| "wrF ver (EndString name nul) = [name]"
| "wrF ver (EndArray t name) = [name]"
| "wrF ver (When c f d) = (if c ver then wrF ver f else case d of None \<Rightarrow> [] | Some v \<Rightarrow> defNames f)"
| "wrF ver f = []"

definition wrFs :: "packet_version_t \<Rightarrow> field list \<Rightarrow> string list" where
  "wrFs ver fs = concat (map (wrF ver) fs)"

text \<open>The struct members that are parsed.\<close>

fun stF :: "packet_version_t \<Rightarrow> field \<Rightarrow> string list" where
  "stF ver (Simple (StructT fs) name) = [name]"
| "stF ver (When c f d) = (if c ver then stF ver f else [])"
| "stF ver f = []"

definition stFs :: "packet_version_t \<Rightarrow> field list \<Rightarrow> string list" where
  "stFs ver fs = concat (map (stF ver) fs)"

fun idleF :: "packet_version_t \<Rightarrow> field \<Rightarrow> bool" where
  "idleF ver (When c f d) = (\<not> c ver)"
| "idleF ver f = False"

text \<open>The values that survive the wire: numbers in range, strings that fit and have no NUL, counts that are not
  clamped, members that are set to their default when their line does not apply. \<open>final\<close> says that the
  struct ends the packet: only there may a line read to the end.\<close>

fun canT :: "packet_version_t \<Rightarrow> ftype \<Rightarrow> fval \<Rightarrow> bool \<Rightarrow> bool"
and canF :: "packet_version_t \<Rightarrow> field \<Rightarrow> (string \<Rightarrow> fval option) \<Rightarrow> locals \<Rightarrow> string list \<Rightarrow> bool \<Rightarrow> bool"
and canFs :: "packet_version_t \<Rightarrow> field list \<Rightarrow> (string \<Rightarrow> fval option) \<Rightarrow> locals \<Rightarrow> nat \<Rightarrow> bool \<Rightarrow> bool" where
  "canT ver (PrimT p) v final = prim_ok p (num v)"
| "canT ver (StructT fs) v final =
     ((\<forall>n. n \<notin> set (wrFs ver fs) \<longrightarrow> members v n = None) \<and> canFs ver fs (members v) newLocals 0 final)"
| "canF ver (Simple t name) ob L later final = canT ver t (member ob name) final"
| "canF ver (ArrayF t name m) ob L later final =
     (length (vals (member ob name)) = m \<and> list_all (\<lambda>v. canT ver t v False) (vals (member ob name)))"
| "canF ver (DynArray t name) ob L later final =
     (length (vals (member ob name)) = lc_count L name \<and>
      list_all (\<lambda>v. canT ver t v False \<and> encT ver t v \<noteq> []) (vals (member ob name)))"
| "canF ver (Count p ref nul) ob L later final = (contSize ob ref + of_bool nul \<le> maxValue p)"
| "canF ver (StringF name m) ob L later final = (0 \<notin> set (str (member ob name)) \<and> length (str (member ob name)) < m)"
| "canF ver (DynString name nul) ob L later final = (lc_count L name = length (str (member ob name)) + of_bool nul)"
| "canF ver (EndString name nul) ob L later final = final"
| "canF ver (EndArray t name) ob L later final =
     (final \<and> list_all (\<lambda>v. canT ver t v False \<and> encT ver t v \<noteq> []) (vals (member ob name)) \<and>
      (case t of PrimT p \<Rightarrow> psize p = 1 | _ \<Rightarrow> True))"
| "canF ver (When c f d) ob L later final =
     (if c ver then canF ver f ob L later final
      else case d of None \<Rightarrow> True
        | Some v \<Rightarrow> (case f of ArrayF t name m \<Rightarrow> False | _ \<Rightarrow>
            list_all (\<lambda>n. n \<in> set later \<or> ob n = Some v) (defNames f)))"
| "canF ver f ob L later final = True"
| "canFs ver [] ob L off final = True"
| "canFs ver (f # fs) ob L off final =
     (canF ver f ob L (wrFs ver fs) (final \<and> list_all (idleF ver) fs) \<and>
      list_all (\<lambda>n. n \<notin> set (stFs ver fs)) (wrF ver f) \<and>
      canFs ver fs ob (nextLocals ver f ob L off) (off + length (encF ver f ob L off)) final)"

text \<open>A buffer whose next bytes are \<open>bs\<close>, and its last ones if \<open>final\<close>.\<close>

definition ready :: "bytes \<Rightarrow> bool \<Rightarrow> message_buffer \<Rightarrow> bool" where
  "ready bs final r \<longleftrightarrow> room (length bs) r \<and> take (length bs) (drop (mb_pos r) (mb_data r)) = bs \<and>
     (final \<longrightarrow> mb_pos r + length bs = mbGetSize r)"

lemma advance_simps [simp]:
  "mb_pos (advance n r) = mb_pos r + n"
  "mb_data (advance n r) = mb_data r"
  "mb_overflow (advance n r) = mb_overflow r"
  "mbGetSize (advance n r) = mbGetSize r"
  "advance m (advance n r) = advance (n + m) r"
  "advance 0 r = r"
  by (simp_all add: advance_def mbGetSize_def)

lemma ready_check: "ready bs final r \<Longrightarrow> n \<le> length bs \<Longrightarrow> checkAvailableBuffer name n r = (True, r)"
  using check_room room_le unfolding ready_def by blast

lemma ready_peek: "ready bs final r \<Longrightarrow> n \<le> length bs \<Longrightarrow> peekBytes n r = take n bs"
  unfolding ready_def peekBytes_def by (metis min.absorb1 take_take)

lemma ready_end: "ready bs True r \<Longrightarrow> mbGetSize r - mb_pos r = length bs"
  unfolding ready_def by (metis add_diff_cancel_left')

lemma ready_append:
  assumes "ready (xs @ ys) final r"
  shows "ready xs (final \<and> ys = []) r" and "ready ys final (advance (length xs) r)"
proof -
  have t: "take (length xs + length ys) (drop (mb_pos r) (mb_data r)) = xs @ ys"
    using assms by (simp add: ready_def)
  have x: "take (length xs) (drop (mb_pos r) (mb_data r)) = xs"
    using arg_cong [OF t, of "take (length xs)"] by (simp add: take_take)
  have "take (length ys) (drop (length xs) (drop (mb_pos r) (mb_data r))) = ys"
    using arg_cong [OF t, of "drop (length xs)"] by (simp add: drop_take)
  then have y: "take (length ys) (drop (mb_pos r + length xs) (mb_data r)) = ys" by (simp add: add.commute)
  show "ready xs (final \<and> ys = []) r" using assms x by (auto simp: ready_def room_def)
  show "ready ys final (advance (length xs) r)" using assms y by (auto simp: ready_def room_def)
qed

lemma ready_weaken: "ready bs final r \<Longrightarrow> ready bs False r"
  by (simp add: ready_def)

lemma readPrim_ready: "ready (primBytes p v) final r \<Longrightarrow> prim_ok p v \<Longrightarrow> readPrim name p r = (Some v, advance (psize p) r)"
  by (simp add: readPrim_def ready_check ready_peek primValue_primBytes)

lemma primValues_concat:
  "list_all (prim_ok p) vs \<Longrightarrow> primValues p (length vs) (concat (map (primBytes p) vs)) = vs"
proof (induction vs)
  case Nil
  then show ?case by (simp add: primValues_def)
next
  case (Cons v vs)
  have "primValues p (Suc (length vs)) (primBytes p v @ rest) =
      primValue p (primBytes p v) # primValues p (length vs) rest" for rest
    unfolding primValues_def by (simp add: upt_conv_Cons map_Suc_upt [symmetric] comp_def del: upt_Suc)
  then show ?case using Cons by (simp add: primValue_primBytes)
qed

lemma primValues_vals:
  assumes "list_all isNum vs" and "list_all (\<lambda>v. prim_ok p (num v)) vs"
  shows "map VNum (primValues p (length vs) (concat (map (\<lambda>v. primBytes p (num v)) vs))) = vs"
proof -
  have "primValues p (length (map num vs)) (concat (map (primBytes p) (map num vs))) = map num vs"
    using assms(2) by (intro primValues_concat) (simp add: list_all_iff)
  moreover have "map VNum (map num vs) = vs"
    using assms(1) by (induction vs) (auto elim: isNum.elims)
  ultimately show ?thesis by (simp add: comp_def)
qed

lemma prims_ready:
  assumes "ready (concat (map (\<lambda>v. primBytes p (num v)) vs)) final r"
  shows "checkAvailableBuffer name (psize p * length vs) r = (True, r)"
    and "peekBytes (psize p * length vs) r = concat (map (\<lambda>v. primBytes p (num v)) vs)"
    and "length (concat (map (\<lambda>v. primBytes p (num v)) vs)) = psize p * length vs"
  using assms by (simp_all only: ready_check ready_peek concat_prims_length take_all order_refl)

lemma readArrayPrim_ready:
  assumes "list_all isNum vs" "list_all (\<lambda>v. prim_ok p (num v)) vs"
    and "ready (concat (map (\<lambda>v. primBytes p (num v)) vs)) final r"
  shows "\<exists>is. readArrayPrim name p (length vs) r = (Some is, advance (psize p * length vs) r) \<and> map VNum is = vs"
  using primValues_vals [OF assms(1,2)] prims_ready [OF assms(3)] by (simp add: readArrayPrim_def)

lemma readDynArrayPrim_ready:
  assumes "list_all isNum vs" "list_all (\<lambda>v. prim_ok p (num v) \<and> primBytes p (num v) \<noteq> []) vs"
    and "ready (concat (map (\<lambda>v. primBytes p (num v)) vs)) final r"
  shows "\<exists>is. readDynArrayPrim name p (length vs) r = (is, advance (psize p * length vs) r) \<and> map VNum is = vs"
proof (cases vs)
  case (Cons v ws)
  then have "0 < psize p" using assms(2) by (auto simp flip: length_greater_0_conv)
  then have ne: "psize p * length vs \<noteq> 0" using Cons by simp
  have "list_all (\<lambda>v. prim_ok p (num v)) vs" using assms(2) by (simp add: list_all_iff)
  then show ?thesis
    using ne primValues_vals [OF assms(1)] prims_ready [OF assms(3)] by (simp add: readDynArrayPrim_def)
qed (simp add: readDynArrayPrim_def)

lemma readEndArrayPrim_ready:
  assumes "list_all isNum vs" "list_all (\<lambda>v. prim_ok p (num v)) vs" "psize p = 1"
    and "ready (concat (map (\<lambda>v. primBytes p (num v)) vs)) True r"
  shows "\<exists>is. readEndArrayPrim name p r = (Some is, advance (length vs) r) \<and> map VNum is = vs"
  using primValues_vals [OF assms(1,2)] prims_ready [OF assms(4)] ready_end [OF assms(4)] assms(3)
  by (simp add: readEndArrayPrim_def Let_def)

lemma readAll_ready:
  "(\<And>v r. v \<in> set vs \<Longrightarrow> ready (enc v) False r \<Longrightarrow> rd r = (v, advance (length (enc v)) r)) \<Longrightarrow>
   ready (concat (map enc vs)) final r \<Longrightarrow> readAll rd (length vs) r = (vs, advance (length (concat (map enc vs))) r)"
proof (induction vs arbitrary: r)
  case Nil
  then show ?case by simp
next
  case (Cons v vs)
  have "ready (enc v @ concat (map enc vs)) final r" using Cons.prems(2) by simp
  note r = ready_append [OF this]
  have "rd r = (v, advance (length (enc v)) r)" using Cons.prems(1) [of v r] ready_weaken [OF r(1)] by simp
  moreover have "readAll rd (length vs) (advance (length (enc v)) r) =
      (vs, advance (length (concat (map enc vs))) (advance (length (enc v)) r))"
    using Cons.IH [OF Cons.prems(1) r(2)] by simp
  ultimately show ?case by simp
qed

lemma readEndLoop_ready:
  "(\<And>v r. v \<in> set vs \<Longrightarrow> enc v \<noteq> [] \<and> (ready (enc v) False r \<longrightarrow> rd r = (v, advance (length (enc v)) r))) \<Longrightarrow>
   ready (concat (map enc vs)) True r \<Longrightarrow> lastParsed \<noteq> Some (mb_pos r) \<Longrightarrow> length (concat (map enc vs)) \<le> fuel \<Longrightarrow>
   readEndLoop fuel rd lastParsed r = Some (vs, advance (length (concat (map enc vs))) r)"
proof (induction vs arbitrary: r lastParsed fuel)
  case Nil
  then show ?case by (subst readEndLoop.simps) (simp add: ready_def)
next
  case (Cons v vs)
  have "ready (enc v @ concat (map enc vs)) True r" using Cons.prems(2) by simp
  note r = ready_append [OF this]
  have ne: "enc v \<noteq> []" using Cons.prems(1) by simp
  then obtain n where fuel: "fuel = Suc n" "length (concat (map enc vs)) \<le> n"
    using Cons.prems(4) by (cases fuel; cases "enc v") auto
  have rd: "rd r = (v, advance (length (enc v)) r)" using Cons.prems(1) [of v r] ready_weaken [OF r(1)] by simp
  have "readEndLoop n rd (Some (mb_pos r)) (advance (length (enc v)) r) =
      Some (vs, advance (length (concat (map enc vs))) (advance (length (enc v)) r))"
    using Cons.prems(1) r(2) ne fuel(2) by (intro Cons.IH) auto
  moreover have "mb_pos r < mbGetSize r" using ready_end [OF Cons.prems(2)] ne by (simp flip: length_greater_0_conv)
  ultimately show ?case using rd fuel(1) Cons.prems(3) by (subst readEndLoop.simps) simp
qed

lemma takeWhile_padded: "0 \<notin> set s \<Longrightarrow> takeWhile (\<lambda>c. c \<noteq> 0) (s @ replicate k (0 :: u8)) = s"
  by (induction s) (auto simp: takeWhile_replicate)

lemma concat_length_ge: "(\<And>v. v \<in> set vs \<Longrightarrow> enc v \<noteq> []) \<Longrightarrow> length vs \<le> length (concat (map enc vs))"
proof (induction vs)
  case (Cons v vs)
  then show ?case by (cases "enc v") force+
qed simp

lemma idle_enc: "list_all (idleF ver) fs \<Longrightarrow> encFs ver fs ob L off = []"
proof (induction fs arbitrary: L off)
  case (Cons f fs)
  then show ?case by (cases f) (auto simp: Let_def)
qed simp

lemma wrFs_simps: "wrFs ver [] = []" "wrFs ver (f # fs) = wrF ver f @ wrFs ver fs"
  by (simp_all add: wrFs_def)

lemma stFs_simps: "stFs ver [] = []" "stFs ver (f # fs) = stF ver f @ stFs ver fs"
  by (simp_all add: stFs_def)

lemma okT_prim: "okT ver (PrimT p) = isNum"
  by (rule ext) simp

text \<open>What reading a list of lines makes of the members.\<close>

definition overlay :: "string list \<Rightarrow> (string \<Rightarrow> fval option) \<Rightarrow> (string \<Rightarrow> fval option) \<Rightarrow> string \<Rightarrow> fval option" where
  "overlay names ob ob0 = (\<lambda>n. if n \<in> set names then ob n else ob0 n)"

definition reads :: "packet_version_t \<Rightarrow> field \<Rightarrow> (string \<Rightarrow> fval option) \<Rightarrow> string list \<Rightarrow>
    (string \<Rightarrow> fval option) \<Rightarrow> (string \<Rightarrow> fval option) \<Rightarrow> bool" where
  "reads ver f ob later ob0 ob1 \<longleftrightarrow>
     (\<forall>n. n \<notin> set later \<longrightarrow> ob1 n = overlay (wrF ver f) ob ob0 n) \<and> (\<forall>n. n \<notin> set (wrF ver f) \<longrightarrow> ob1 n = ob0 n)"

lemma reads_member: "wrF ver f = [name] \<Longrightarrow> ob name = Some v \<Longrightarrow> reads ver f ob later ob0 (ob0(name \<mapsto> v))"
  by (simp add: reads_def overlay_def)

lemma reads_skip: "wrF ver f = [] \<Longrightarrow> reads ver f ob later ob0 ob0"
  by (simp add: reads_def overlay_def)

lemma reads_default:
  "\<not> c ver \<Longrightarrow> canF ver (When c f d) ob L later final \<Longrightarrow> reads ver (When c f d) ob later ob0 (defaultMember f d ob0)"
  by (cases f; cases d) (auto simp: reads_def overlay_def defaultMember_def)

lemma reads_compose:
  assumes "reads ver f ob (wrFs ver fs) ob0 ob1"
  shows "overlay (wrFs ver fs) ob ob1 = overlay (wrFs ver (f # fs)) ob ob0"
  using assms by (auto simp: reads_def overlay_def wrFs_simps fun_eq_iff)

lemma member_isList: "isList (member ob name) \<Longrightarrow> ob name = Some (VList (vals (member ob name)))"
  by (cases "ob name"; cases "member ob name") (auto simp: member_def)

lemma member_isStr: "isStr (member ob name) \<Longrightarrow> ob name = Some (VStr (str (member ob name)))"
  by (cases "ob name"; cases "member ob name") (auto simp: member_def)

lemma count_round: "psize p \<le> 4 \<Longrightarrow> 0 < psize p \<Longrightarrow> n \<le> maxValue p \<Longrightarrow> prim_ok p (int n) \<and> unat (word_of_int (int n) :: u32) = n"
proof -
  assume p: "psize p \<le> 4" "0 < psize p" "n \<le> maxValue p"
  have "2 ^ (8 * psize p) \<le> (2 :: nat) ^ 32" by (rule power_increasing) (use p in simp_all)
  moreover have "2 ^ (8 * psize p - 1) \<le> (2 :: nat) ^ 32" by (rule power_increasing) (use p in simp_all)
  moreover have n: "n < 2 ^ (8 * psize p - (if psigned p then 1 else 0))"
  proof -
    have "(0 :: nat) < 2 ^ (8 * psize p - (if psigned p then 1 else 0))" by simp
    then show ?thesis using p(3) unfolding maxValue_def by linarith
  qed
  ultimately have "n < 2 ^ 32" by (auto split: if_splits)
  moreover have "int n < 2 ^ (8 * psize p - (if psigned p then 1 else 0))"
    using n by (metis of_nat_less_iff of_nat_numeral of_nat_power)
  moreover have "- (2 ^ (8 * psize p - 1)) \<le> int n" by (rule order_trans [of _ 0]) simp_all
  ultimately show ?thesis using p by (auto simp: prim_ok_def unat_of_nat)
qed

lemma des_enc:
  "okT ver t v \<longrightarrow> (\<forall>final r old. canT ver t v final \<and> ready (encT ver t v) final r \<and> (t = StructT (case t of StructT fs \<Rightarrow> fs | _ \<Rightarrow> []) \<longrightarrow> old = None) \<longrightarrow>
     desT ver name t old r = (Some v, advance (length (encT ver t v)) r))"
  "okF ver f ob L \<longrightarrow> (\<forall>final later r ob0. canF ver f ob L later final \<and> ready (encF ver f ob L off) final r \<and>
     mb_pos r = base + off \<and> (\<forall>n \<in> set (stF ver f). ob0 n = None) \<longrightarrow>
     (\<exists>ob1. desF ver f ob0 (shift base L, r) = (ob1, shift base (nextLocals ver f ob L off), advance (length (encF ver f ob L off)) r) \<and>
        reads ver f ob later ob0 ob1))"
  "okFs ver fs ob L off \<longrightarrow> (\<forall>final r ob0. canFs ver fs ob L off final \<and> ready (encFs ver fs ob L off) final r \<and>
     mb_pos r = base + off \<and> (\<forall>n \<in> set (stFs ver fs). ob0 n = None) \<longrightarrow>
     (\<exists>L'. desFs ver fs ob0 (shift base L, r) = (overlay (wrFs ver fs) ob ob0, L', advance (length (encFs ver fs ob L off)) r)))"
proof (induction ver t v and ver f ob L off and ver fs ob L off arbitrary: name and base and base
    rule: encT_encF_encFs.induct)
  case (1 ver p v)
  then show ?case by (cases v) (auto simp: readPrim_ready)
next
  case (2 ver fs v)
  show ?case
  proof (intro impI allI, elim conjE)
    fix final r and old :: "fval option"
    assume ok: "okT ver (StructT fs) v" and can: "canT ver (StructT fs) v final"
      and r: "ready (encT ver (StructT fs) v) final r"
      and old: "StructT fs = StructT (case StructT fs of PrimT p \<Rightarrow> [] | StructT fs \<Rightarrow> fs) \<longrightarrow> old = None"
    obtain ob where v: "v = VObj ob" using ok by (cases v) auto
    have "overlay (wrFs ver fs) ob Map.empty = ob" using can v by (auto simp: overlay_def)
    then show "desT ver name (StructT fs) old r = (Some v, advance (length (encT ver (StructT fs) v)) r)"
      using "2.IH" [of "mb_pos r"] ok can r old v by fastforce
  qed
next
  case (3 ver t nm ob L off)
  show ?case
  proof (intro impI allI, elim conjE)
    fix final later r and ob0 :: "string \<Rightarrow> fval option"
    assume ok: "okF ver (Simple t nm) ob L" and can: "canF ver (Simple t nm) ob L later final"
      and r: "ready (encF ver (Simple t nm) ob L off) final r" and st: "\<forall>n \<in> set (stF ver (Simple t nm)). ob0 n = None"
    have m: "ob nm = Some (member ob nm)" using ok by (auto simp: member_def)
    have "desT ver nm t (ob0 nm) r = (Some (member ob nm), advance (length (encT ver t (member ob nm))) r)"
      using "3.IH" [of nm] ok can r st by (cases t) auto
    then show "\<exists>ob1. desF ver (Simple t nm) ob0 (shift base L, r) = (ob1, shift base (nextLocals ver (Simple t nm) ob L off),
        advance (length (encF ver (Simple t nm) ob L off)) r) \<and> reads ver (Simple t nm) ob later ob0 ob1"
      using reads_member [of ver "Simple t nm" nm ob "member ob nm"] m by simp
  qed
next
  case (4 ver t nm m ob L off)
  show ?case
  proof (intro impI allI, elim conjE)
    fix final later r and ob0 :: "string \<Rightarrow> fval option"
    let ?f = "ArrayF t nm m"
    let ?vs = "vals (member ob nm)"
    assume ok: "okF ver ?f ob L" and can: "canF ver ?f ob L later final"
      and r: "ready (encF ver ?f ob L off) final r"
    have m: "ob nm = Some (VList ?vs)" using ok by (simp add: member_isList)
    have len: "m = length ?vs" using can by simp
    have rd: "reads ver ?f ob later ob0 (ob0(nm \<mapsto> VList ?vs))" by (rule reads_member) (simp_all add: m)
    show "\<exists>ob1. desF ver ?f ob0 (shift base L, r) = (ob1, shift base (nextLocals ver ?f ob L off),
        advance (length (encF ver ?f ob L off)) r) \<and> reads ver ?f ob later ob0 ob1"
    proof (cases t)
      case (PrimT p)
      obtain xs where "readArrayPrim nm p m r = (Some xs, advance (psize p * m) r)" "map VNum xs = ?vs"
        using readArrayPrim_ready [of ?vs p final r nm] ok can r PrimT len by (auto simp: encT_prim okT_prim)
      then show ?thesis using rd PrimT len by (simp add: assign_def encT_prim concat_prims_length)
    next
      case (StructT fs)
      have "readAll (\<lambda>b. let (v, b') = desT ver nm t None b in (the v, b')) (length ?vs) r =
          (?vs, advance (length (concat (map (encT ver t) ?vs))) r)"
        using "4.IH" ok can r len by (intro readAll_ready) (auto simp: list_all_iff)
      then show ?thesis using rd StructT len by simp
    qed
  qed
next
  case (5 ver t nm ob L off)
  show ?case
  proof (intro impI allI, elim conjE)
    fix final later r and ob0 :: "string \<Rightarrow> fval option"
    let ?f = "DynArray t nm"
    let ?vs = "vals (member ob nm)"
    assume ok: "okF ver ?f ob L" and can: "canF ver ?f ob L later final"
      and r: "ready (encF ver ?f ob L off) final r"
    have m: "ob nm = Some (VList ?vs)" using ok by (simp add: member_isList)
    have len: "lc_count L nm = length ?vs" using can by simp
    have rd: "reads ver ?f ob later ob0 (ob0(nm \<mapsto> VList ?vs))" by (rule reads_member) (simp_all add: m)
    show "\<exists>ob1. desF ver ?f ob0 (shift base L, r) = (ob1, shift base (nextLocals ver ?f ob L off),
        advance (length (encF ver ?f ob L off)) r) \<and> reads ver ?f ob later ob0 ob1"
    proof (cases t)
      case (PrimT p)
      obtain xs where "readDynArrayPrim nm p (length ?vs) r = (xs, advance (psize p * length ?vs) r)" "map VNum xs = ?vs"
        using readDynArrayPrim_ready [of ?vs p final r nm] ok can r PrimT len by (auto simp: encT_prim okT_prim)
      then show ?thesis using rd PrimT len by (simp add: encT_prim concat_prims_length)
    next
      case (StructT fs)
      let ?rd = "\<lambda>b. let (v, b') = desT ver nm t None b in (the v, b')"
      have "readAll ?rd (length ?vs) r = (?vs, advance (length (concat (map (encT ver t) ?vs))) r)"
        using "5.IH" ok can r len by (intro readAll_ready) (auto simp: list_all_iff)
      moreover have "length ?vs \<le> length (concat (map (encT ver t) ?vs))"
        using can by (intro concat_length_ge) (simp add: list_all_iff)
      then have "checkAvailableBuffer nm (length ?vs) r = (True, r)"
        using r len by (intro ready_check) simp_all
      ultimately show ?thesis using rd StructT len by (simp add: readDynArrayObj_def assign_def)
    qed
  qed
next
  case (6 ver p ref nul ob L off)
  then show ?case
    using count_round [of p "contSize ob ref + of_bool nul"]
    by (auto simp: getClampedCount_def min_def readPrim_ready intro!: reads_skip)
next
  case (7 ver nm m ob L off)
  show ?case
  proof (intro impI allI, elim conjE)
    fix final later r and ob0 :: "string \<Rightarrow> fval option"
    let ?f = "StringF nm m"
    let ?s = "str (member ob nm)"
    assume ok: "okF ver ?f ob L" and can: "canF ver ?f ob L later final" and r: "ready (encF ver ?f ob L off) final r"
    have bs: "encF ver ?f ob L off = ?s @ replicate (m - length ?s) 0"
    proof -
      have "min (length ?s) (m - 1) = length ?s" using can by auto
      then show ?thesis by (simp add: Let_def)
    qed
    have len: "length (encF ver ?f ob L off) = m" using can bs by simp
    have "peekBytes (m - 1) r = ?s @ replicate (m - 1 - length ?s) 0"
    proof -
      have lt: "length ?s < m" using can by simp
      then have "min (length ?s) (m - 1) = length ?s" "min (m - 1) (length ?s) = length ?s"
          "min (m - 1 - length ?s) (m - length ?s) = m - 1 - length ?s" by auto
      then show ?thesis
        using ready_peek [OF r, of "m - 1"] len bs lt by (simp del: encF.simps)
    qed
    then have "readString nm m r = (Some ?s, advance m r)"
      using ready_check [OF r, of m] len can by (simp add: readString_def takeWhile_padded)
    then show "\<exists>ob1. desF ver ?f ob0 (shift base L, r) = (ob1, shift base (nextLocals ver ?f ob L off),
        advance (length (encF ver ?f ob L off)) r) \<and> reads ver ?f ob later ob0 ob1"
      using ok len reads_member [of ver ?f nm ob "VStr ?s" later ob0]
      by (simp add: assign_def member_isStr del: encF.simps)
  qed
next
  case (8 ver nm nul ob L off)
  show ?case
  proof (intro impI allI, elim conjE)
    fix final later r and ob0 :: "string \<Rightarrow> fval option"
    let ?f = "DynString nm nul"
    let ?s = "str (member ob nm)"
    assume ok: "okF ver ?f ob L" and can: "canF ver ?f ob L later final" and r: "ready (encF ver ?f ob L off) final r"
    have m: "lc_count L nm = length ?s + of_bool nul" using can by simp
    have bs: "encF ver ?f ob L off = ?s @ (if nul then [0] else [])" using m by simp
    then have len: "length (encF ver ?f ob L off) = lc_count L nm" using m by simp
    have "peekBytes (lc_count L nm - of_bool nul) r = ?s"
      using ready_peek [OF r, of "length ?s"] bs m by simp
    then have "readDynString nm (lc_count L nm) nul r = (Some ?s, advance (lc_count L nm) r)"
      using ready_check [OF r, of "lc_count L nm"] len m by (simp add: readDynString_def)
    then show "\<exists>ob1. desF ver ?f ob0 (shift base L, r) = (ob1, shift base (nextLocals ver ?f ob L off),
        advance (length (encF ver ?f ob L off)) r) \<and> reads ver ?f ob later ob0 ob1"
      using ok len reads_member [of ver ?f nm ob "VStr ?s" later ob0]
      by (simp add: assign_def member_isStr del: encF.simps)
  qed
next
  case (10 ver m marker ob L off)
  show ?case
  proof (intro impI allI, elim conjE)
    fix final later r and ob0 :: "string \<Rightarrow> fval option"
    let ?f = "Pad m marker"
    assume ok: "okF ver ?f ob L" and r: "ready (encF ver ?f ob L off) final r" and pos: "mb_pos r = base + off"
    obtain k where k: "lc_marker L marker = Some k" using ok by auto
    have "checkAvailableBuffer (''pad_'' @ marker) (k + m - off) r = (True, r)"
      using ready_check [OF r] k by simp
    moreover have "base + k + m - (base + off) = k + m - off" by simp
    ultimately show "\<exists>ob1. desF ver ?f ob0 (shift base L, r) = (ob1, shift base (nextLocals ver ?f ob L off),
        advance (length (encF ver ?f ob L off)) r) \<and> reads ver ?f ob later ob0 ob1"
      using k pos reads_skip [of ver ?f ob later ob0] by (auto simp: discardBytes_def)
  qed
next
  case (11 ver nm nul ob L off)
  show ?case
  proof (intro impI allI, elim conjE)
    fix final later r and ob0 :: "string \<Rightarrow> fval option"
    let ?f = "EndString nm nul"
    let ?s = "str (member ob nm)"
    let ?n = "length (encF ver ?f ob L off)"
    assume ok: "okF ver ?f ob L" and can: "canF ver ?f ob L later final" and r: "ready (encF ver ?f ob L off) final r"
    have rem: "mbGetSize r - mb_pos r = ?n" using ready_end r can by (auto simp del: encF.simps)
    have n: "?n = length ?s + of_bool nul" by simp
    have "peekBytes (?n - of_bool nul) r = ?s"
      using ready_peek [OF r, of "length ?s"] n by (auto split: if_splits)
    then have "readEndString nm nul r = (Some ?s, advance ?n r)"
      using ready_check [OF r, of ?n] rem n by (simp add: readEndString_def Let_def del: encF.simps)
    then show "\<exists>ob1. desF ver ?f ob0 (shift base L, r) = (ob1, shift base (nextLocals ver ?f ob L off), advance ?n r) \<and>
        reads ver ?f ob later ob0 ob1"
      using ok reads_member [of ver ?f nm ob "VStr ?s" later ob0]
      by (simp add: assign_def member_isStr del: encF.simps)
  qed
next
  case (12 ver t nm ob L off)
  show ?case
  proof (intro impI allI, elim conjE)
    fix final later r and ob0 :: "string \<Rightarrow> fval option"
    let ?f = "EndArray t nm"
    let ?vs = "vals (member ob nm)"
    assume ok: "okF ver ?f ob L" and can: "canF ver ?f ob L later final"
      and r0: "ready (encF ver ?f ob L off) final r"
    have r: "ready (concat (map (encT ver t) ?vs)) True r" using r0 can by simp
    have m: "ob nm = Some (VList ?vs)" using ok by (simp add: member_isList)
    have rd: "reads ver ?f ob later ob0 (ob0(nm \<mapsto> VList ?vs))" by (rule reads_member) (simp_all add: m)
    show "\<exists>ob1. desF ver ?f ob0 (shift base L, r) = (ob1, shift base (nextLocals ver ?f ob L off),
        advance (length (encF ver ?f ob L off)) r) \<and> reads ver ?f ob later ob0 ob1"
    proof (cases t)
      case (PrimT p)
      have p: "list_all isNum ?vs" "list_all (\<lambda>v. prim_ok p (num v)) ?vs" "psize p = 1"
        using ok can PrimT by (auto simp: list_all_iff)
      obtain xs where "readEndArrayPrim nm p r = (Some xs, advance (length ?vs) r)" "map VNum xs = ?vs"
        using readEndArrayPrim_ready [OF p, of r nm] r PrimT by (auto simp: encT_prim)
      then show ?thesis using rd PrimT p(3) by (simp add: assign_def encT_prim concat_prims_length)
    next
      case (StructT fs)
      let ?rd = "\<lambda>b. let (v, b') = desT ver nm t None b in (the v, b')"
      have "readEndLoop (Suc (mbGetSize r - mb_pos r)) ?rd None r =
          Some (?vs, advance (length (concat (map (encT ver t) ?vs))) r)"
        using "12.IH" ok can r ready_end [OF r] by (intro readEndLoop_ready) (auto simp: list_all_iff)
      then show ?thesis using rd StructT by (simp add: readEndArrayObj_def)
    qed
  qed
next
  case (13 ver c f d ob L off)
  show ?case
  proof (cases "c ver")
    case True
    have "reads ver f = reads ver (When c f d)" using True by (simp add: reads_def fun_eq_iff)
    then show ?thesis using "13.IH" [of base] True by simp
  next
    case False
    then show ?thesis using reads_default [of c ver f d ob L] by (auto simp: reads_default)
  qed
next
  case (15 ver f fs ob L off)
  show ?case
  proof (intro impI allI, elim conjE)
    fix final r and ob0 :: "string \<Rightarrow> fval option"
    let ?bs = "encF ver f ob L off"
    let ?L = "nextLocals ver f ob L off"
    let ?cs = "encFs ver fs ob ?L (off + length ?bs)"
    assume ok: "okFs ver (f # fs) ob L off" and can: "canFs ver (f # fs) ob L off final" and pos: "mb_pos r = base + off"
      and r: "ready (encFs ver (f # fs) ob L off) final r" and st: "\<forall>n \<in> set (stFs ver (f # fs)). ob0 n = None"
    have r12: "ready ?bs (final \<and> ?cs = []) r" "ready ?cs final (advance (length ?bs) r)"
      using ready_append [of ?bs ?cs final r] r by (simp_all add: Let_def)
    have r1: "ready ?bs (final \<and> list_all (idleF ver) fs) r"
      using r12(1) idle_enc by (auto simp: ready_def)
    obtain ob1 where d: "desF ver f ob0 (shift base L, r) = (ob1, shift base ?L, advance (length ?bs) r)"
        and rd: "reads ver f ob (wrFs ver fs) ob0 ob1"
    proof -
      have "canF ver f ob L (wrFs ver fs) (final \<and> list_all (idleF ver) fs) \<and>
          ready ?bs (final \<and> list_all (idleF ver) fs) r \<and> mb_pos r = base + off \<and> (\<forall>n \<in> set (stF ver f). ob0 n = None)"
        using can r1 pos st by (simp add: stFs_simps)
      moreover have "okF ver f ob L" using ok by simp
      ultimately show thesis using "15.IH"(1) [of base] that by blast
    qed
    have st1: "\<forall>n \<in> set (stFs ver fs). ob1 n = None"
      using rd st can by (auto simp: reads_def stFs_simps list_all_iff)
    obtain L' where "desFs ver fs ob1 (shift base ?L, advance (length ?bs) r) =
        (overlay (wrFs ver fs) ob ob1, L', advance (length ?cs) (advance (length ?bs) r))"
    proof -
      have "canFs ver fs ob ?L (off + length ?bs) final \<and> ready ?cs final (advance (length ?bs) r) \<and>
          mb_pos (advance (length ?bs) r) = base + (off + length ?bs) \<and> (\<forall>n \<in> set (stFs ver fs). ob1 n = None)"
        using can r12(2) pos st1 by simp
      moreover have "okFs ver fs ob ?L (off + length ?bs)" using ok by simp
      ultimately show thesis using "15.IH"(2) [OF refl, of base] that by blast
    qed
    then show "\<exists>L'. desFs ver (f # fs) ob0 (shift base L, r) =
        (overlay (wrFs ver (f # fs)) ob ob0, L', advance (length (encFs ver (f # fs) ob L off)) r)"
      using d reads_compose [OF rd] by (simp add: Let_def)
  qed
qed (auto simp: overlay_def wrFs_simps intro: reads_skip)

section \<open>Whole packets\<close>

definition packetHeader :: "nat \<Rightarrow> u16 \<Rightarrow> bytes" where
  "packetHeader n i =
     to_le 4 (word_of_nat n :: u32) @ to_le 2 i @ [getMessageChecksum (word_of_nat n) i]"

definition packetBytes :: "packet_decl \<Rightarrow> packet_version_t \<Rightarrow> (string \<Rightarrow> fval option) \<Rightarrow> u16 \<Rightarrow> bytes" where
  "packetBytes d ver ob i =
     (let body = encFs ver (pd_fields d) ob newLocals 0 in packetHeader (7 + length body) i @ body)"

definition sendable :: "packet_decl \<Rightarrow> packet_version_t \<Rightarrow> (string \<Rightarrow> fval option) \<Rightarrow> bool" where
  "sendable d ver ob \<longleftrightarrow> okFs ver (pd_fields d) ob newLocals 0 \<and> getPacketId d ver \<noteq> None \<and>
     7 + length (encFs ver (pd_fields d) ob newLocals 0) < 65536"

definition canonical :: "packet_decl \<Rightarrow> packet_version_t \<Rightarrow> (string \<Rightarrow> fval option) \<Rightarrow> bool" where
  "canonical d ver ob \<longleftrightarrow> (\<forall>n. n \<notin> set (wrFs ver (pd_fields d)) \<longrightarrow> ob n = None) \<and>
     canFs ver (pd_fields d) ob newLocals 0 True"

lemma to_le_uint:
  assumes "n \<le> 8"
  shows "to_le n (ucast (w :: 'a::len word) :: u64) = to_le n w"
proof -
  have "byte_at i (ucast w :: u64) = byte_at i w" if "i < n" for i
  proof (rule bit_word_eqI)
    fix k assume "k < LENGTH(8)"
    then have "8 * i + k < 64" using assms that by simp
    then show "bit (byte_at i (ucast w :: u64)) k = bit (byte_at i w) k" by (simp add: bit_byte_at bit_ucast_iff)
  qed
  then show ?thesis by (simp add: to_le_def)
qed

lemma header_length [simp]: "length (packetHeader n i) = 7"
  by (simp add: packetHeader_def)

lemma writeHeader_put: "room 7 b \<Longrightarrow> writeHeader (word_of_nat n) i b = putBytes (packetHeader n i) b"
proof -
  assume r: "room 7 b"
  let ?s = "to_le 4 (word_of_nat n :: u32)"
  have s: "writePrim ''size'' uint32_t (uint (word_of_nat n :: u32)) b = putBytes ?s b"
    using room_le [of 7 b 4] r by (simp add: writePrim_room primBytes_def to_le_uint)
  have r2: "room 3 (putBytes ?s b)" by (rule room_put) (simp add: r)
  have i: "writePrim ''id'' uint16_t (uint i) (putBytes ?s b) = putBytes (to_le 2 i) (putBytes ?s b)"
    using room_le [OF r2, of 2] by (simp add: writePrim_room primBytes_def to_le_uint)
  have r3: "room 1 (putBytes (to_le 2 i) (putBytes ?s b))" by (rule room_put) (simp add: r2)
  have one: "to_le 1 (x :: u8) = [x]" for x
    by (simp add: to_le_def byte_at_def)
  have c: "writePrim ''msg_checksum'' uint8_t (uint c) (putBytes (to_le 2 i) (putBytes ?s b)) =
      putBytes [c] (putBytes (to_le 2 i) (putBytes ?s b))" for c
    using r3 one [of c] by (simp add: writePrim_room primBytes_def to_le_uint)
  have fit: "mb_pos b + 7 \<le> mbGetSize b" using r by (simp add: room_def)
  show ?thesis unfolding writeHeader_def s i c using fit by (simp add: packetHeader_def put_put)
qed

lemma size_packet:
  "okFs ver (pd_fields d) ob newLocals 0 \<Longrightarrow>
    getPacketSize d ver ob = Some (7 + length (encFs ver (pd_fields d) ob newLocals 0))"
  using size_enc(3) [of ver "pd_fields d" ob newLocals 0 7] by (auto simp: getPacketSize_def)

lemma packetBytes_length: "length (packetBytes d ver ob i) = 7 + length (encFs ver (pd_fields d) ob newLocals 0)"
  by (simp add: packetBytes_def Let_def)

lemma packetBytes_size:
  "sendable d ver ob \<Longrightarrow> unat (from_le (take 4 (packetBytes d ver ob i)) :: u32) = length (packetBytes d ver ob i)"
proof -
  assume "sendable d ver ob"
  then have "7 + length (encFs ver (pd_fields d) ob newLocals 0) < 65536" by (simp add: sendable_def)
  moreover have "unat (word_of_nat m :: u32) = m" if "m < 65536" for m using that by (simp add: unat_of_nat)
  ultimately show ?thesis
    unfolding packetBytes_length by (simp add: packetBytes_def Let_def packetHeader_def from_le_to_le del: of_nat_add)
qed

lemma serialize_put:
  assumes "sendable d ver ob" "getPacketId d ver = Some i" "room (length (packetBytes d ver ob i)) b" "mb_pos b = 0"
  shows "serializePacket d ver ob b = Some (putBytes (packetBytes d ver ob i) b)"
proof -
  let ?body = "encFs ver (pd_fields d) ob newLocals 0"
  let ?b = "putBytes (packetHeader (7 + length ?body) i) b"
  have ok: "okFs ver (pd_fields d) ob newLocals 0" using assms(1) by (simp add: sendable_def)
  have r: "room (7 + length ?body) b" using assms(3) by (simp add: packetBytes_length)
  then have h: "writeHeader (word_of_nat (7 + length ?body)) i b = ?b" by (intro writeHeader_put) (simp add: room_le)
  have "room (length ?body) ?b" using r by (intro room_put) simp
  then obtain L where "serFs ver (pd_fields d) ob (newLocals, ?b) = Some (L, putBytes ?body ?b)"
    using ser_enc(3) [of ver "pd_fields d" ob newLocals 0 7] ok assms(4) by fastforce
  moreover have "putBytes ?body ?b = putBytes (packetBytes d ver ob i) b"
    using r by (simp add: put_put room_def packetBytes_def Let_def)
  ultimately show ?thesis using h by (simp add: serializePacket_def size_packet [OF ok] assms(2))
qed

lemma send_packetBytes:
  assumes "sendable d ver ob" "getPacketId d ver = Some i" "\<And>n. length (fresh n) = n"
  shows "sendPacket fresh d ver ob = Some (Inr (packetBytes d ver ob i))"
proof -
  let ?n = "length (packetBytes d ver ob i)"
  let ?b = "newMessageBuffer (fresh ?n)"
  have ok: "okFs ver (pd_fields d) ob newLocals 0" using assms(1) by (simp add: sendable_def)
  have b: "mb_pos ?b = 0" "mbGetSize ?b = ?n" "\<not> mb_overflow ?b"
    using assms(3) by (simp_all add: newMessageBuffer_def mbGetSize_def)
  have r: "room ?n ?b" using assms(1) b by (simp add: room_def packetBytes_length sendable_def)
  have data: "mb_data (putBytes (packetBytes d ver ob i) ?b) = packetBytes d ver ob i"
    using assms(3) by (simp add: putBytes_def newMessageBuffer_def)
  have "checkPacketFinalSize (putBytes (packetBytes d ver ob i) ?b)"
    using b data packetBytes_size [OF assms(1), of i] by (simp add: checkPacketFinalSize_def Let_def)
  then show ?thesis
    using serialize_put [OF assms(1,2) r b(1)] data
    by (simp add: sendPacket_def size_packet [OF ok] packetBytes_length)
qed

lemma process_packetBytes:
  assumes "sendable d ver ob" "canonical d ver ob"
  shows "processPacket d ver (packetBytes d ver ob i) = Some ob"
proof -
  let ?body = "encFs ver (pd_fields d) ob newLocals 0"
  let ?r = "newMessageBuffer (packetBytes d ver ob i)"
  have r: "ready (packetHeader (7 + length ?body) i @ ?body) True ?r"
    using assms(1) by (simp add: ready_def room_def newMessageBuffer_def mbGetSize_def packetBytes_def Let_def sendable_def)
  have room: "room 7 ?r" using r room_le [of "7 + length ?body" ?r 7] by (simp add: ready_def)
  have "snd (readMessageHeader ?r) = advance 7 ?r"
  proof -
    have rd: "room 4 ?r" "room 2 (advance 4 ?r)" "room 1 (advance 6 ?r)" using room by (simp_all add: room_def)
    show ?thesis using rd [THEN check_room]
      by (simp add: readMessageHeader_def readPrim_def discardBytes_def split_beta)
  qed
  then obtain x where h: "readMessageHeader ?r = (x, advance 7 ?r)" by (cases "readMessageHeader ?r") auto
  have "ready ?body True (advance 7 ?r)" using ready_append(2) [OF r] by simp
  then obtain L where "desFs ver (pd_fields d) Map.empty (newLocals, advance 7 ?r) =
      (overlay (wrFs ver (pd_fields d)) ob Map.empty, L, advance (length ?body) (advance 7 ?r))"
  proof -
    have "canFs ver (pd_fields d) ob newLocals 0 True \<and> ready ?body True (advance 7 ?r) \<and>
        mb_pos (advance 7 ?r) = 7 + 0 \<and> (\<forall>n \<in> set (stFs ver (pd_fields d)). Map.empty n = (None :: fval option))"
      using assms(2) \<open>ready ?body True (advance 7 ?r)\<close> by (simp add: canonical_def newMessageBuffer_def)
    moreover have "okFs ver (pd_fields d) ob newLocals 0" using assms(1) by (simp add: sendable_def)
    ultimately have "\<exists>L. desFs ver (pd_fields d) Map.empty (shift 7 newLocals, advance 7 ?r) =
        (overlay (wrFs ver (pd_fields d)) ob Map.empty, L, advance (length ?body) (advance 7 ?r))"
      by (intro des_enc(3) [of ver "pd_fields d" ob newLocals 0 7, THEN mp, THEN spec, THEN spec, THEN spec, THEN mp])
    then show thesis using that by auto
  qed
  moreover have "overlay (wrFs ver (pd_fields d)) ob Map.empty = ob"
    using assms(2) by (auto simp: overlay_def canonical_def)
  moreover have "checkPacketFinalSize (advance (7 + length ?body) ?r)"
    using packetBytes_size [OF assms(1), of i] packetBytes_length [of d ver ob i]
    by (simp add: checkPacketFinalSize_def newMessageBuffer_def mbGetSize_def Let_def)
  ultimately show ?thesis by (simp add: processPacket_def deserializePacket_def h)
qed

end
