(* ===== verification/PacketFraming.thy ===== *)
theory PacketFraming
  imports StreamCipher
begin

text \<open>
  How \<open>PacketSession::onDataReceived\<close> cuts the received stream into packets
  (librzu/src/lib/NetSession/PacketSession.cpp), over the ciphers of \<open>EncryptedSession\<close> or none: the do-while
  loop as written, a plain description of what it does, and delivery of packets in any chunks.
\<close>

section \<open>The loop\<close>

abbreviation MAX_PACKET_SIZE :: nat where "MAX_PACKET_SIZE \<equiv> 65536"

record 'k framing =
  fr_cipher :: 'k
  fr_current :: nat
  fr_discard :: bool
  fr_buffer :: bytes

text \<open>The constructor; \<open>buffer\<close> is what the 296 allocated bytes contain.\<close>

definition newFraming :: "'k \<Rightarrow> bytes \<Rightarrow> 'k framing" where
  "newFraming k buffer = \<lparr>fr_cipher = k, fr_current = 0, fr_discard = False, fr_buffer = buffer\<rparr>"

text \<open>The first branch of an iteration reads a length; a length of at most 4 is skipped.\<close>

definition readHeader :: "('k \<Rightarrow> bytes \<Rightarrow> 'k \<times> bytes) \<Rightarrow> 'k framing \<Rightarrow> bytes \<Rightarrow> 'k framing \<times> bytes" where
  "readHeader crypt s stream =
     (let (k, plain) = crypt (fr_cipher s) (take 4 stream);
          n = unat (from_le plain :: u32)
      in (if n \<le> 4 then s\<lparr>fr_cipher := k, fr_current := 0\<rparr>
          else s\<lparr>fr_cipher := k, fr_discard := (n > MAX_PACKET_SIZE), fr_current := n - 4\<rparr>,
          drop 4 stream))"

text \<open>The second branch discards or dispatches; a dispatched packet is its size and the whole buffer, of which
  the handlers see the bytes after it too. \<open>discard\<close> goes to the stream and bypasses the cipher.\<close>

definition readBody :: "('k \<Rightarrow> bytes \<Rightarrow> 'k \<times> bytes) \<Rightarrow> 'k framing \<Rightarrow> bytes \<Rightarrow>
    'k framing \<times> bytes \<times> (nat \<times> bytes) list" where
  "readBody crypt s stream =
     (let n = fr_current s in
      if n \<noteq> 0 \<and> fr_discard s then
        (let d = min n (length stream) in (s\<lparr>fr_current := n - d\<rparr>, drop d stream, []))
      else if n \<noteq> 0 \<and> length stream \<ge> n then
        (let buf = (if n + 4 > length (fr_buffer s) then replicate (n + 4) 0 else fr_buffer s);
             (k, plain) = crypt (fr_cipher s) (take n stream);
             buf = to_le 4 (of_nat (n + 4) :: u32) @ plain @ drop (n + 4) buf
         in (s\<lparr>fr_cipher := k, fr_buffer := buf, fr_current := 0\<rparr>, drop n stream, [(n + 4, buf)]))
      else (s, stream, []))"

definition loopAgain :: "'k framing \<Rightarrow> bytes \<Rightarrow> bool" where
  "loopAgain s stream \<longleftrightarrow>
     (fr_current s = 0 \<and> length stream \<ge> 4) \<or> (fr_current s \<noteq> 0 \<and> length stream \<ge> fr_current s)"

definition iteration :: "('k \<Rightarrow> bytes \<Rightarrow> 'k \<times> bytes) \<Rightarrow> 'k framing \<Rightarrow> bytes \<Rightarrow>
    'k framing \<times> bytes \<times> (nat \<times> bytes) list" where
  "iteration crypt s stream =
     (let (s1, stream1) = (if fr_current s = 0 then readHeader crypt s stream else (s, stream))
      in readBody crypt s1 stream1)"

lemma readHeader_drop: "snd (readHeader crypt s stream) = drop 4 stream"
  by (simp add: readHeader_def split_beta Let_def)

lemma readBody_length: "length (fst (snd (readBody crypt s stream))) \<le> length stream"
  by (auto simp: readBody_def split_beta Let_def)

lemma readBody_progress:
  "fr_current s \<noteq> 0 \<Longrightarrow> loopAgain (fst (readBody crypt s stream)) (fst (snd (readBody crypt s stream))) \<Longrightarrow>
    length (fst (snd (readBody crypt s stream))) < length stream"
  by (auto simp: readBody_def loopAgain_def split_beta Let_def min_def split: if_splits)

lemma iteration_progress:
  assumes "\<not> (fr_current s = 0 \<and> length stream < 4)"
    and "loopAgain (fst (iteration crypt s stream)) (fst (snd (iteration crypt s stream)))"
  shows "length (fst (snd (iteration crypt s stream))) < length stream"
proof (cases "fr_current s = 0")
  case True
  then have "iteration crypt s stream = readBody crypt (fst (readHeader crypt s stream)) (drop 4 stream)"
    using readHeader_drop [of crypt s stream] by (simp add: iteration_def split_beta)
  then have "length (fst (snd (iteration crypt s stream))) \<le> length (drop 4 stream)"
    using readBody_length by metis
  then show ?thesis using True assms(1) by simp
next
  case False
  then show ?thesis using readBody_progress [OF False, of crypt stream] assms(2) by (simp add: iteration_def)
qed

function onDataReceived :: "('k \<Rightarrow> bytes \<Rightarrow> 'k \<times> bytes) \<Rightarrow> 'k framing \<Rightarrow> bytes \<Rightarrow>
    'k framing \<times> bytes \<times> (nat \<times> bytes) list" where
  "onDataReceived crypt s stream =
     (if fr_current s = 0 \<and> length stream < 4 then (s, stream, [])
      else
        let r = iteration crypt s stream; s' = fst r; stream' = fst (snd r); out = snd (snd r)
        in if loopAgain s' stream' then
             (let q = onDataReceived crypt s' stream' in (fst q, fst (snd q), out @ snd (snd q)))
           else (s', stream', out))"
  by auto
termination
  by (relation "measure (\<lambda>(crypt, s, stream). length stream)")
     (simp_all add: iteration_progress)

declare onDataReceived.simps [simp del]

text \<open>The bytes of each network read are appended to what was left unread.\<close>

fun receiveChunks :: "('k \<Rightarrow> bytes \<Rightarrow> 'k \<times> bytes) \<Rightarrow> 'k framing \<Rightarrow> bytes \<Rightarrow> bytes list \<Rightarrow>
    'k framing \<times> bytes \<times> (nat \<times> bytes) list" where
  "receiveChunks crypt s pending [] = (s, pending, [])"
| "receiveChunks crypt s pending (c # cs) =
     (let (s1, r1, o1) = onDataReceived crypt s (pending @ c);
          (s2, r2, o2) = receiveChunks crypt s1 r1 cs
      in (s2, r2, o1 @ o2))"

section \<open>What the loop does\<close>

function frames :: "('k \<Rightarrow> bytes \<Rightarrow> 'k \<times> bytes) \<Rightarrow> 'k framing \<Rightarrow> bytes \<Rightarrow>
    'k framing \<times> bytes \<times> (nat \<times> bytes) list" where
  "frames crypt s stream =
     (if fr_current s = 0 then
        (if length stream < 4 then (s, stream, [])
         else frames crypt (fst (readHeader crypt s stream)) (drop 4 stream))
      else if fr_discard s then
        (if stream = [] then (s, stream, [])
         else frames crypt (fst (readBody crypt s stream)) (drop (fr_current s) stream))
      else if length stream < fr_current s then (s, stream, [])
      else
        (let q = frames crypt (fst (readBody crypt s stream)) (drop (fr_current s) stream)
         in (fst q, fst (snd q), snd (snd (readBody crypt s stream)) @ snd (snd q))))"
  by auto
termination
  by (relation "measure (\<lambda>(crypt, s, stream). length stream)") auto

declare frames.simps [simp del]

lemma readBody_discard:
  "fr_current s \<noteq> 0 \<Longrightarrow> fr_discard s \<Longrightarrow> readBody crypt s stream =
    (s\<lparr>fr_current := fr_current s - length stream\<rparr>, drop (fr_current s) stream, [])"
  by (auto simp: readBody_def Let_def min_def)

lemma readBody_wait:
  "fr_current s = 0 \<or> \<not> fr_discard s \<and> length stream < fr_current s \<Longrightarrow> readBody crypt s stream = (s, stream, [])"
  by (auto simp: readBody_def Let_def)

lemma readBody_stream:
  "fr_current s \<noteq> 0 \<Longrightarrow> fr_discard s \<or> fr_current s \<le> length stream \<Longrightarrow>
    fst (snd (readBody crypt s stream)) = drop (fr_current s) stream"
  by (auto simp: readBody_def Let_def split_beta min_def)

lemma readBody_done:
  "\<not> fr_discard s \<Longrightarrow> fr_current s \<noteq> 0 \<Longrightarrow> fr_current s \<le> length stream \<Longrightarrow>
    fr_current (fst (readBody crypt s stream)) = 0 \<and> \<not> fr_discard (fst (readBody crypt s stream))"
  by (simp add: readBody_def Let_def split_beta)

text \<open>The part of an iteration after the header, then the rest of the loop, is one or no step of \<open>frames\<close>.\<close>

definition continueLoop :: "('k \<Rightarrow> bytes \<Rightarrow> 'k \<times> bytes) \<Rightarrow> 'k framing \<times> bytes \<times> (nat \<times> bytes) list \<Rightarrow>
    'k framing \<times> bytes \<times> (nat \<times> bytes) list" where
  "continueLoop crypt r = (if loopAgain (fst r) (fst (snd r))
     then (let q = onDataReceived crypt (fst r) (fst (snd r)) in (fst q, fst (snd q), snd (snd r) @ snd (snd q)))
     else r)"

lemma onDataReceived_unfold:
  "onDataReceived crypt s stream =
     (if fr_current s = 0 \<and> length stream < 4 then (s, stream, []) else continueLoop crypt (iteration crypt s stream))"
  by (simp add: onDataReceived.simps [of crypt s stream] continueLoop_def Let_def)

lemma frames_done: "\<not> loopAgain s stream \<Longrightarrow> (fr_current s \<noteq> 0 \<Longrightarrow> fr_discard s \<Longrightarrow> stream = []) \<Longrightarrow>
    frames crypt s stream = (s, stream, [])"
  by (subst frames.simps) (auto simp: loopAgain_def)

lemma continue_body:
  assumes IH: "\<And>s' stream'. length stream' < n \<Longrightarrow> onDataReceived crypt s' stream' = frames crypt s' stream'"
    and "length stream \<le> n" "fr_current s \<noteq> 0 \<or> length stream < n"
  shows "continueLoop crypt (readBody crypt s stream) = frames crypt s stream"
proof (cases "fr_current s = 0 \<or> \<not> fr_discard s \<and> length stream < fr_current s")
  case True
  then have r: "readBody crypt s stream = (s, stream, [])" by (rule readBody_wait)
  show ?thesis
  proof (cases "loopAgain s stream")
    case True
    then have "fr_current s = 0" using \<open>fr_current s = 0 \<or> _\<close> by (auto simp: loopAgain_def)
    then have "onDataReceived crypt s stream = frames crypt s stream" using IH assms(3) by blast
    then show ?thesis using True by (simp add: r continueLoop_def Let_def)
  next
    case False
    then show ?thesis using True frames_done [OF False, of crypt] by (auto simp: r continueLoop_def)
  qed
next
  case False
  then have cur: "fr_current s \<noteq> 0" "fr_discard s \<or> fr_current s \<le> length stream" by auto
  let ?r = "readBody crypt s stream"
  have str: "fst (snd ?r) = drop (fr_current s) stream" by (rule readBody_stream [OF cur])
  show ?thesis
  proof (cases "stream = []")
    case True
    then have "fr_discard s" using cur by auto
    then show ?thesis using True cur(1)
      by (simp add: continueLoop_def readBody_discard frames_done loopAgain_def)
  next
    case ne: False
    have eq: "frames crypt s stream = (let q = frames crypt (fst ?r) (drop (fr_current s) stream)
        in (fst q, fst (snd q), snd (snd ?r) @ snd (snd q)))"
    proof (cases "fr_discard s")
      case True
      then show ?thesis using cur(1) ne
        by (subst frames.simps) (simp add: readBody_discard Let_def)
    next
      case False
      then show ?thesis using cur by (subst frames.simps) simp
    qed
    have shorter: "length (drop (fr_current s) stream) < n"
      using cur(1) ne assms(2) by (cases stream) (auto simp: Suc_le_eq)
    show ?thesis
    proof (cases "loopAgain (fst ?r) (fst (snd ?r))")
      case True
      then show ?thesis using IH [OF shorter] by (simp add: continueLoop_def eq str Let_def)
    next
      case no: False
      have "frames crypt (fst ?r) (drop (fr_current s) stream) = (fst ?r, drop (fr_current s) stream, [])"
      proof (rule frames_done)
        show "\<not> loopAgain (fst ?r) (drop (fr_current s) stream)" using no str by simp
        show "drop (fr_current s) stream = []" if "fr_current (fst ?r) \<noteq> 0" "fr_discard (fst ?r)"
          using that cur readBody_done [of s stream crypt] readBody_discard [of s crypt stream]
          by (cases "fr_discard s") auto
      qed
      then show ?thesis using no by (simp add: continueLoop_def eq str prod_eq_iff Let_def)
    qed
  qed
qed

lemma onDataReceived_frames: "onDataReceived crypt s stream = frames crypt s stream"
proof (induction "length stream" arbitrary: s stream rule: less_induct)
  case less
  have IH: "onDataReceived crypt s' stream' = frames crypt s' stream'" if "length stream' < length stream" for s' stream'
    using less that by blast
  show ?case
  proof (cases "fr_current s = 0")
    case True
    show ?thesis
    proof (cases "length stream < 4")
      case short: True
      then show ?thesis using True by (subst frames.simps) (simp add: onDataReceived_unfold)
    next
      case long: False
      let ?s = "fst (readHeader crypt s stream)"
      have "iteration crypt s stream = readBody crypt ?s (drop 4 stream)"
        using True readHeader_drop [of crypt s stream] by (simp add: iteration_def split_beta)
      then have "onDataReceived crypt s stream = continueLoop crypt (readBody crypt ?s (drop 4 stream))"
        using long by (simp add: onDataReceived_unfold)
      also have "\<dots> = frames crypt ?s (drop 4 stream)"
        by (rule continue_body [OF IH]) (use long in auto)
      finally show ?thesis using True long by (subst frames.simps) simp
    qed
  next
    case False
    have "onDataReceived crypt s stream = continueLoop crypt (readBody crypt s stream)"
      using False by (simp add: onDataReceived_unfold iteration_def)
    also have "\<dots> = frames crypt s stream"
      by (rule continue_body [OF IH]) (use False in auto)
    finally show ?thesis .
  qed
qed

section \<open>Chunks do not matter\<close>

lemma frames_stay:
  assumes "\<not> (fr_current s = 0 \<and> 4 \<le> length a)" "\<not> (fr_current s \<noteq> 0 \<and> fr_discard s \<and> a \<noteq> [])"
    and "\<not> (fr_current s \<noteq> 0 \<and> \<not> fr_discard s \<and> fr_current s \<le> length a)"
  shows "frames crypt s a = (s, a, [])"
  using assms by (subst frames.simps) auto

lemma frames_cases:
  assumes "frames crypt s a = (s, a, []) \<Longrightarrow> P" "fr_current s = 0 \<Longrightarrow> 4 \<le> length a \<Longrightarrow> P"
    "fr_current s \<noteq> 0 \<Longrightarrow> fr_discard s \<Longrightarrow> a \<noteq> [] \<Longrightarrow> P"
    "fr_current s \<noteq> 0 \<Longrightarrow> \<not> fr_discard s \<Longrightarrow> fr_current s \<le> length a \<Longrightarrow> P"
  shows P
proof (rule ccontr)
  assume "\<not> P"
  then have "frames crypt s a = (s, a, [])" using assms(2-4) by (intro frames_stay) auto
  then show False using assms(1) \<open>\<not> P\<close> by blast
qed

lemma frames_body:
  "fr_current s \<noteq> 0 \<Longrightarrow> \<not> fr_discard s \<Longrightarrow> fr_current s \<le> length a \<Longrightarrow> readBody crypt s a = (s', a', out) \<Longrightarrow>
    frames crypt s a = (let q = frames crypt s' (drop (fr_current s) a) in (fst q, fst (snd q), out @ snd (snd q)))"
  by (subst frames.simps) simp

lemma readHeader_append: "4 \<le> length a \<Longrightarrow> fst (readHeader crypt s (a @ b)) = fst (readHeader crypt s a)"
  by (simp add: readHeader_def Let_def split_beta)

lemma readBody_append:
  "fr_current s \<noteq> 0 \<Longrightarrow> \<not> fr_discard s \<Longrightarrow> fr_current s \<le> length a \<Longrightarrow>
    fst (readBody crypt s (a @ b)) = fst (readBody crypt s a) \<and>
    snd (snd (readBody crypt s (a @ b))) = snd (snd (readBody crypt s a))"
  by (simp add: readBody_def Let_def split_beta)

lemma frames_append:
  "frames crypt s (a @ b) = (let (s1, r1, o1) = frames crypt s a; (s2, r2, o2) = frames crypt s1 (r1 @ b)
     in (s2, r2, o1 @ o2))"
proof (induction "length a" arbitrary: s a rule: less_induct)
  case less
  have IH: "frames crypt s' (a' @ b) = (let (s1, r1, o1) = frames crypt s' a'; (s2, r2, o2) = frames crypt s1 (r1 @ b)
     in (s2, r2, o1 @ o2))" if "length a' < length a" for s' a'
    using less that by blast
  consider (stay) "frames crypt s a = (s, a, [])"
    | (header) "fr_current s = 0" "4 \<le> length a"
    | (disc) "fr_current s \<noteq> 0" "fr_discard s" "a \<noteq> []"
    | (body) "fr_current s \<noteq> 0" "\<not> fr_discard s" "fr_current s \<le> length a"
    by (rule frames_cases)
  then show ?case
  proof cases
    case stay
    then show ?thesis by (simp add: split_beta Let_def)
  next
    case header
    have eq: "frames crypt s (a @ b) = frames crypt (fst (readHeader crypt s a)) (drop 4 a @ b)"
      "frames crypt s a = frames crypt (fst (readHeader crypt s a)) (drop 4 a)"
      using header by (simp_all add: frames.simps [of crypt s] readHeader_append)
    show ?thesis unfolding eq by (rule IH) (use header in simp)
  next
    case disc
    have eq: "frames crypt s a = frames crypt (s\<lparr>fr_current := fr_current s - length a\<rparr>) (drop (fr_current s) a)"
      "frames crypt s (a @ b) =
        frames crypt (s\<lparr>fr_current := fr_current s - length (a @ b)\<rparr>) (drop (fr_current s) (a @ b))"
      using disc by (simp_all add: frames.simps [of crypt s] readBody_discard)
    show ?thesis
    proof (cases "fr_current s \<le> length a")
      case True
      have same: "fr_current s - length (a @ b) = fr_current s - length a"
          "drop (fr_current s) (a @ b) = drop (fr_current s) a @ b" using True by simp_all
      show ?thesis unfolding eq same by (rule IH) (use disc in simp)
    next
      case False
      let ?s = "s\<lparr>fr_current := fr_current s - length a\<rparr>"
      have left: "frames crypt s a = (?s, [], [])"
        using False eq(1) disc by (simp add: frames_done loopAgain_def)
      have "frames crypt s (a @ b) = frames crypt ?s b"
      proof (cases "b = []")
        case True
        then show ?thesis using left disc False by (simp add: frames_done loopAgain_def)
      next
        case b: False
        have "frames crypt ?s b = frames crypt (s\<lparr>fr_current := fr_current s - length a - length b\<rparr>)
            (drop (fr_current s - length a) b)"
          using disc False b by (simp add: frames.simps [of crypt ?s] readBody_discard)
        then show ?thesis using False by (simp add: eq(2))
      qed
      then show ?thesis using left by (simp add: split_beta Let_def)
    qed
  next
    case body
    let ?r = "readBody crypt s a"
    have eq: "frames crypt s (a @ b) = (let q = frames crypt (fst ?r) (drop (fr_current s) a @ b)
          in (fst q, fst (snd q), snd (snd ?r) @ snd (snd q)))"
      "frames crypt s a = (let q = frames crypt (fst ?r) (drop (fr_current s) a)
          in (fst q, fst (snd q), snd (snd ?r) @ snd (snd q)))"
      using body readBody_append [OF body, of crypt b] by (simp_all add: frames.simps [of crypt s] Let_def)
    have "length (drop (fr_current s) a) < length a" using body by simp
    from IH [OF this, of "fst ?r"] show ?thesis by (simp add: eq split_beta Let_def)
  qed
qed

lemma frames_idle:
  assumes "frames crypt s a = (s1, r1, o1)"
  shows "frames crypt s1 r1 = (s1, r1, [])"
  using frames_append [of crypt s a "[]"] assms by (auto simp: split_beta Let_def prod_eq_iff)

lemma receiveChunks_concat:
  "frames crypt s r = (s, r, []) \<Longrightarrow> receiveChunks crypt s r cs = frames crypt s (r @ concat cs)"
proof (induction cs arbitrary: s r)
  case Nil
  then show ?case by simp
next
  case (Cons c cs)
  obtain s1 r1 o1 where f: "frames crypt s (r @ c) = (s1, r1, o1)" by (metis prod_cases3)
  have "receiveChunks crypt s1 r1 cs = frames crypt s1 (r1 @ concat cs)"
    by (rule Cons.IH [OF frames_idle [OF f]])
  then show ?case
    using f frames_append [of crypt s "r @ c" "concat cs"] by (simp add: onDataReceived_frames split_beta Let_def)
qed

section \<open>Delivery\<close>

definition packet_ok :: "bytes \<Rightarrow> bool" where
  "packet_ok p \<longleftrightarrow> 4 < length p \<and> length p \<le> MAX_PACKET_SIZE \<and> take 4 p = to_le 4 (of_nat (length p) :: u32)"

lemma header_value: "packet_ok p \<Longrightarrow> unat (from_le (take 4 p) :: u32) = length p"
  by (simp add: packet_ok_def le32.dec_enc unat_of_nat take_bit_nat_eq_self)

context stream_cipher
begin

lemma frames_one:
  assumes "packet_ok p" "fr_current s = 0"
  shows "\<exists>s' buf. frames crypt s (snd (crypt (fr_cipher s) (p @ rest))) =
      (let q = frames crypt s' (snd (crypt (fr_cipher s') rest)) in (fst q, fst (snd q), (length p, buf) # snd (snd q))) \<and>
    fr_current s' = 0 \<and> fr_cipher s' = fst (crypt (fr_cipher s) p) \<and> take (length p) buf = p"
proof -
  define k where "k = fr_cipher s"
  define h where "h = take 4 p"
  define b where "b = drop 4 p"
  obtain k1 c1 where e1: "crypt k h = (k1, c1)" by force
  obtain k2 c2 where e2: "crypt k1 b = (k2, c2)" by force
  have len: "4 < length p" "length p \<le> MAX_PACKET_SIZE" using assms(1) by (simp_all add: packet_ok_def)
  have p: "p = h @ b" by (simp add: h_def b_def)
  have "crypt k p = (k2, c1 @ c2)" by (simp add: p crypt_append e1 e2)
  then have kp: "fst (crypt k p) = k2" and c: "snd (crypt k p) = c1 @ c2" by simp_all
  define c3 where "c3 = snd (crypt k2 rest)"
  have stream: "snd (crypt k (p @ rest)) = c1 @ c2 @ c3"
    using crypt_text_append [of k p rest] by (simp add: c kp c3_def)
  have l: "length c1 = 4" "length c2 = length p - 4"
    using crypt_length [of k h] crypt_length [of k1 b] e1 e2 len by (simp_all add: h_def b_def)
  have u1: "crypt k c1 = (k1, h)" and u2: "crypt k1 c2 = (k2, b)"
    using crypt_undo [of k h] crypt_undo [of k1 b] e1 e2 by simp_all
  let ?s1 = "s\<lparr>fr_cipher := k1, fr_discard := False, fr_current := length p - 4\<rparr>"
  have head: "readHeader crypt s (c1 @ c2 @ c3) = (?s1, c2 @ c3)"
    using len l u1 header_value [OF assms(1)] by (simp add: readHeader_def k_def [symmetric] h_def [symmetric] not_le)
  define buf0 where "buf0 = (if length p > length (fr_buffer s) then replicate (length p) 0 else fr_buffer s)"
  define buf where "buf = to_le 4 (of_nat (length p) :: u32) @ b @ drop (length p) buf0"
  let ?s2 = "?s1\<lparr>fr_cipher := k2, fr_buffer := buf, fr_current := 0\<rparr>"
  have "readBody crypt ?s1 (c2 @ c3) = (?s2, c3, [(length p, buf)])"
    using len l u2 by (simp add: readBody_def buf_def buf0_def Let_def)
  from frames_body [OF _ _ _ this] have two: "frames crypt ?s1 (c2 @ c3) =
      (let q = frames crypt ?s2 c3 in (fst q, fst (snd q), (length p, buf) # snd (snd q)))"
    using len l by simp
  have one: "frames crypt s (c1 @ c2 @ c3) = frames crypt ?s1 (c2 @ c3)"
    using assms(2) l head by (subst frames.simps) simp
  have "to_le 4 (of_nat (length p) :: u32) @ b = p"
    using assms(1) by (metis append_take_drop_id packet_ok_def b_def)
  then have "buf = p @ drop (length p) buf0" unfolding buf_def by (metis append_assoc)
  then have "take (length p) buf = p" by simp
  then show ?thesis
    using one two kp by (intro exI [of _ ?s2] exI [of _ buf]) (simp add: k_def [symmetric] stream c3_def)
qed

lemma frames_deliver:
  "\<forall>p \<in> set ps. packet_ok p \<Longrightarrow> fr_current s = 0 \<Longrightarrow>
    \<exists>s' out. frames crypt s (snd (crypt (fr_cipher s) (concat ps))) = (s', [], out) \<and>
      map (\<lambda>(n, buf). take n buf) out = ps \<and> map fst out = map length ps \<and>
      fr_current s' = 0 \<and> fr_cipher s' = fst (crypt (fr_cipher s) (concat ps))"
proof (induction ps arbitrary: s)
  case Nil
  then show ?case by (simp add: crypt_nil frames_done loopAgain_def)
next
  case (Cons p ps)
  obtain s1 buf where s1: "frames crypt s (snd (crypt (fr_cipher s) (p @ concat ps))) =
      (let q = frames crypt s1 (snd (crypt (fr_cipher s1) (concat ps)))
       in (fst q, fst (snd q), (length p, buf) # snd (snd q)))"
    "fr_current s1 = 0" "fr_cipher s1 = fst (crypt (fr_cipher s) p)" "take (length p) buf = p"
    using frames_one [of p s "concat ps"] Cons.prems by auto
  obtain s' out where "frames crypt s1 (snd (crypt (fr_cipher s1) (concat ps))) = (s', [], out)"
      "map (\<lambda>(n, buf). take n buf) out = ps" "map fst out = map length ps" "fr_current s' = 0"
      "fr_cipher s' = fst (crypt (fr_cipher s1) (concat ps))"
    using Cons.IH [of s1] Cons.prems s1(2) by auto
  then show ?case using s1 by (simp add: Let_def crypt_state_append)
qed

lemma chunks_deliver:
  assumes "\<forall>p \<in> set ps. packet_ok p" "concat cs = snd (crypt k (concat ps))"
  shows "\<exists>s' out. receiveChunks crypt (newFraming k buffer) [] cs = (s', [], out) \<and>
    map (\<lambda>(n, buf). take n buf) out = ps \<and> map fst out = map length ps \<and> fr_cipher s' = fst (crypt k (concat ps))"
proof -
  have "receiveChunks crypt (newFraming k buffer) [] cs = frames crypt (newFraming k buffer) (concat cs)"
    using receiveChunks_concat [of crypt "newFraming k buffer" "[]" cs]
    by (simp add: frames_done loopAgain_def newFraming_def)
  then show ?thesis
    using frames_deliver [OF assms(1), of "newFraming k buffer"] assms(2) by (auto simp: newFraming_def)
qed

lemma frames_bounds:
  "fr_current s = 0 \<or> fr_discard s \<or> fr_current s + 4 \<le> MAX_PACKET_SIZE \<Longrightarrow>
    (n, buf) \<in> set (snd (snd (frames crypt s stream))) \<Longrightarrow> 4 < n \<and> n \<le> MAX_PACKET_SIZE \<and> n \<le> length buf"
proof (induction "length stream" arbitrary: s stream rule: less_induct)
  case less
  consider (stay) "frames crypt s stream = (s, stream, [])"
    | (header) "fr_current s = 0" "4 \<le> length stream"
    | (disc) "fr_current s \<noteq> 0" "fr_discard s" "stream \<noteq> []"
    | (body) "fr_current s \<noteq> 0" "\<not> fr_discard s" "fr_current s \<le> length stream"
    by (rule frames_cases)
  then show ?case
  proof cases
    case stay
    then show ?thesis using less.prems by simp
  next
    case header
    let ?s = "fst (readHeader crypt s stream)"
    have "fr_current ?s = 0 \<or> fr_discard ?s \<or> fr_current ?s + 4 \<le> MAX_PACKET_SIZE"
      by (auto simp: readHeader_def Let_def split_beta)
    moreover have "frames crypt s stream = frames crypt ?s (drop 4 stream)"
      using header by (subst frames.simps) simp
    ultimately show ?thesis using less.hyps [of "drop 4 stream" ?s] less.prems(2) header by simp
  next
    case disc
    then have "frames crypt s stream = frames crypt (fst (readBody crypt s stream)) (drop (fr_current s) stream)"
      by (subst frames.simps) simp
    then show ?thesis
      using disc less.hyps [of "drop (fr_current s) stream" "fst (readBody crypt s stream)"] less.prems(2)
      by (simp add: readBody_discard)
  next
    case body
    let ?r = "readBody crypt s stream"
    have eq: "snd (snd (frames crypt s stream)) =
        snd (snd ?r) @ snd (snd (frames crypt (fst ?r) (drop (fr_current s) stream)))"
      using body by (subst frames.simps) (simp add: Let_def)
    have out: "4 < n' \<and> n' \<le> MAX_PACKET_SIZE \<and> n' \<le> length buf'" if "(n', buf') \<in> set (snd (snd ?r))" for n' buf'
      using that body less.prems(1) by (auto simp: readBody_def Let_def split_beta crypt_length)
    have "fr_current (fst ?r) = 0" using readBody_done [of s stream crypt] body by simp
    then show ?thesis
      using less.hyps [of "drop (fr_current s) stream" "fst ?r"] less.prems(2) out body unfolding eq by auto
  qed
qed

end

lemma newFraming_idle: "frames crypt (newFraming k buffer) [] = (newFraming k buffer, [], [])"
  by (simp add: frames_done loopAgain_def newFraming_def)

text \<open>The packets a session dispatches, its state and the bytes it leaves unread depend only on the bytes
  received, not on how the network cut them: feeding the chunks one by one is one call on all of them, for
  every input, malformed or not, and every cipher.\<close>

lemma framing_chunk_independent:
  "receiveChunks crypt (newFraming k buffer) [] cs = onDataReceived crypt (newFraming k buffer) (concat cs)"
  by (simp add: onDataReceived_frames receiveChunks_concat [OF newFraming_idle])

text \<open>Whatever arrives, a dispatched packet has more than 4 and at most 65536 bytes, and they all lie
  within the input buffer.\<close>

lemma framing_bounds:
  "list_all (\<lambda>(n, buf). 4 < n \<and> n \<le> MAX_PACKET_SIZE \<and> n \<le> length buf)
    (snd (snd (onDataReceived (rc4_encode kout) (newFraming k buffer) stream)))"
proof -
  have "4 < n \<and> n \<le> MAX_PACKET_SIZE \<and> n \<le> length buf"
    if "(n, buf) \<in> set (snd (snd (frames (rc4_encode kout) (newFraming k buffer) stream)))" for n buf
    by (rule rc4.frames_bounds [OF _ that]) (simp add: newFraming_def)
  then show ?thesis by (auto simp: list_all_iff onDataReceived_frames)
qed

text \<open>Packets of 5 to 65536 bytes whose size field is right, encrypted by one end in one go, are dispatched
  by the other end one by one, in order, unchanged, with nothing left over and the ciphers in step, in
  whatever chunks the ciphertext arrives.\<close>

lemma packets_delivered:
  assumes "\<forall>p \<in> set ps. packet_ok p" "concat cs = snd (rc4_encode kout k (concat ps))"
  shows "\<exists>s' out. receiveChunks (rc4_encode kout) (newFraming k buffer) [] cs = (s', [], out) \<and>
    map (\<lambda>(n, buf). take n buf) out = ps \<and> map fst out = map length ps \<and>
    fr_cipher s' = fst (rc4_encode kout k (concat ps))"
  by (rule rc4.chunks_deliver [OF assms])

definition demo_packets :: "bytes list" where
  "demo_packets = [[9, 0, 0, 0, 17, 39, 0, 1, 2], [7, 0, 0, 0, 15, 39, 0]]"

definition demo_wire :: bytes where
  "demo_wire = snd (rc4_encode (\<lambda>k. of_nat (rc_y k)) demo_key (concat demo_packets))"

lemma packets_delivered_witness:
  "\<exists>s' out. receiveChunks (rc4_encode (\<lambda>k. of_nat (rc_y k))) (newFraming demo_key []) []
      [take 3 demo_wire, drop 3 demo_wire] = (s', [], out) \<and> map (\<lambda>(n, buf). take n buf) out = demo_packets"
proof -
  have "\<forall>p \<in> set demo_packets. packet_ok p"
    by (simp add: demo_packets_def packet_ok_def to_le_def byte_at_def upt_rec take_Cons')
  moreover have "concat [take 3 demo_wire, drop 3 demo_wire] =
      snd (rc4_encode (\<lambda>k. of_nat (rc_y k)) demo_key (concat demo_packets))"
    by (simp only: demo_wire_def concat.simps append_take_drop_id append_Nil2)
  ultimately have "\<exists>s' out. receiveChunks (rc4_encode (\<lambda>k. of_nat (rc_y k))) (newFraming demo_key []) []
      [take 3 demo_wire, drop 3 demo_wire] = (s', [], out) \<and> map (\<lambda>(n, buf). take n buf) out = demo_packets \<and>
      map fst out = map length demo_packets \<and>
      fr_cipher s' = fst (rc4_encode (\<lambda>k. of_nat (rc_y k)) demo_key (concat demo_packets))"
    by (rule packets_delivered)
  then show ?thesis by (elim exE conjE) (intro exI conjI, assumption+)
qed

end
