(* ===== verification/Packets.thy ===== *)
theory Packets
  imports PacketWire PacketFraming
begin

text \<open>
  The packets of the auth and upload client protocols, and a few of the game client one, as declared in
  librzu/src/packets: one definition per structure and packet, a field line per line of the header.
\<close>

section \<open>Declarations\<close>

abbreviation "EPIC_5_1 \<equiv> 0x050100 :: u32"
abbreviation "EPIC_9_3 \<equiv> 0x090300 :: u32"
abbreviation "EPIC_9_4_2 \<equiv> 0x090402 :: u32"

abbreviation since :: "u32 \<Rightarrow> packet_version_t \<Rightarrow> bool" where "since epic \<equiv> \<lambda>version. ver_ge version epic"
abbreviation before :: "u32 \<Rightarrow> packet_version_t \<Rightarrow> bool" where "before epic \<equiv> \<lambda>version. ver_lt version epic"
abbreviation between :: "u32 \<Rightarrow> u32 \<Rightarrow> packet_version_t \<Rightarrow> bool" where
  "between first next \<equiv> \<lambda>version. ver_ge version first \<and> ver_lt version next"

definition ascii :: "string \<Rightarrow> bytes" where
  "ascii s = map (\<lambda>c. of_char c) s"

definition TS_AC_ACCOUNT_NAME :: packet_decl where
  "TS_AC_ACCOUNT_NAME = Packet [(\<lambda>_. True, 10014)]
     [When (since EPIC_9_6_6) (StringF ''account'' 64) None,
      When (before EPIC_9_6_6) (StringF ''account'' 61) None,
      Simple (PrimT uint32_t) ''user_no'',
      Simple (PrimT uint32_t) ''unknown'',
      When (since EPIC_9_6_3) (EndString ''usertoken'' True) None]"

definition TS_AC_AES_KEY_IV :: packet_decl where
  "TS_AC_AES_KEY_IV = Packet [(before EPIC_9_6_3, 72), (since EPIC_9_6_3, 1072)]
     [Count uint32_t ''data'' False,
      DynArray (PrimT uint8_t) ''data'']"

definition TS_AC_RESULT :: packet_decl where
  "TS_AC_RESULT = Packet [(\<lambda>_. True, 10000)]
     [Simple (PrimT uint16_t) ''request_msg_id'',
      Simple (PrimT uint16_t) ''result'',
      Simple (PrimT int32_t) ''login_flag'']"

definition TS_AC_RESULT_WITH_STRING :: packet_decl where
  "TS_AC_RESULT_WITH_STRING = Packet [(\<lambda>_. True, 10002)]
     [Simple (PrimT uint16_t) ''request_msg_id'',
      Simple (PrimT uint16_t) ''result'',
      Simple (PrimT int32_t) ''login_flag'',
      Count int32_t ''string'' False,
      DynString ''string'' False]"

definition TS_AC_SELECT_SERVER :: packet_decl where
  "TS_AC_SELECT_SERVER = Packet [(\<lambda>_. True, 10024)]
     [Simple (PrimT uint16_t) ''result'',
      When (before EPIC_8_1_1_RSA) (Simple (PrimT int64_t) ''one_time_key'') None,
      When (since EPIC_8_1_1_RSA) (Simple (PrimT int32_t) ''encrypted_data_size'') None,
      When (since EPIC_8_1_1_RSA) (ArrayF (PrimT uint8_t) ''encrypted_data'' 24) None,
      Simple (PrimT uint32_t) ''pending_time'']"

definition TS_SERVER_INFO_DEF :: "field list" where
  "TS_SERVER_INFO_DEF =
     [When (before EPIC_9_6_5) (Simple (PrimT uint16_t) ''server_idx'') None,
      When (since EPIC_9_6_5) (Simple (PrimT uint32_t) ''server_idx'') None,
      StringF ''server_name'' 21,
      When (since EPIC_4_1) (Simple (PrimT uint8_t) ''is_adult_server'') (Some (VNum 0)),
      When (since EPIC_4_1) (StringF ''server_screenshot_url'' 256) (Some (VStr (ascii ''about:blank''))),
      StringF ''server_ip'' 16,
      Simple (PrimT int32_t) ''server_port'',
      Simple (PrimT uint16_t) ''user_ratio'']"

definition TS_AC_SERVER_LIST :: packet_decl where
  "TS_AC_SERVER_LIST = Packet [(\<lambda>_. True, 10022)]
     [When (between EPIC_4_1 EPIC_9_6_5) (Simple (PrimT uint16_t) ''last_login_server_idx'') (Some (VNum 1)),
      When (since EPIC_9_6_5) (Simple (PrimT uint32_t) ''last_login_server_idx'') (Some (VNum 1)),
      When (before EPIC_9_6_5) (Count uint16_t ''servers'' False) None,
      When (since EPIC_9_6_5) (Count uint32_t ''servers'' False) None,
      DynArray (StructT TS_SERVER_INFO_DEF) ''servers'']"

definition TS_AC_UPDATE_PENDING_TIME :: packet_decl where
  "TS_AC_UPDATE_PENDING_TIME = Packet [(\<lambda>_. True, 10025)]
     [Simple (PrimT uint32_t) ''pending_time'']"

definition TS_ACCOUNT_ADDITIONAL_INFO_DEF :: "field list" where
  "TS_ACCOUNT_ADDITIONAL_INFO_DEF =
     [Simple (PrimT int8_t) ''type'',
      Count uint16_t ''data'' False,
      DynArray (PrimT uint8_t) ''data'']"

definition TS_ACCOUNT_PASSWORD_DES_DEF :: "field list" where
  "TS_ACCOUNT_PASSWORD_DES_DEF =
     [When (since EPIC_5_2) (ArrayF (PrimT uint8_t) ''password'' 61) None,
      When (before EPIC_5_2) (ArrayF (PrimT uint8_t) ''password'' 32) None]"

definition TS_ACCOUNT_PASSWORD_AES_DEF :: "field list" where
  "TS_ACCOUNT_PASSWORD_AES_DEF =
     [Simple (PrimT uint32_t) ''password_size'',
      When (between EPIC_9_6_6 EPIC_9_6_7) (ArrayF (PrimT uint8_t) ''password'' 516) None,
      When (before EPIC_9_6_6) (ArrayF (PrimT uint8_t) ''password'' 77) None,
      When (since EPIC_9_6_7) (EndArray (PrimT uint8_t) ''password_dyn'') None]"

definition TS_CA_ACCOUNT :: packet_decl where
  "TS_CA_ACCOUNT = Packet [(\<lambda>_. True, 10010)]
     [When (since EPIC_9_6_6) (StringF ''account'' 56) None,
      When (between EPIC_5_2 EPIC_9_6_6) (StringF ''account'' 61) None,
      When (before EPIC_5_2) (StringF ''account'' 19) None,
      When (since EPIC_9_6_6) (ArrayF (PrimT uint8_t) ''mac_stamp'' 8) None,
      When (before EPIC_8_1_1_RSA) (Simple (StructT TS_ACCOUNT_PASSWORD_DES_DEF) ''passwordDes'') None,
      When (since EPIC_8_1_1_RSA) (Simple (StructT TS_ACCOUNT_PASSWORD_AES_DEF) ''passwordAes'') None,
      When (before EPIC_9_6_6) (EndArray (StructT TS_ACCOUNT_ADDITIONAL_INFO_DEF) ''additionalInfos'') None]"

definition TS_CA_DISTRIBUTION_INFO :: packet_decl where
  "TS_CA_DISTRIBUTION_INFO = Packet [(\<lambda>_. True, 10026)]
     [EndString ''distributionInfo'' True]"

definition TS_IMBC_ACCOUNT_PASSWORD_PLAIN_DEF :: "field list" where
  "TS_IMBC_ACCOUNT_PASSWORD_PLAIN_DEF =
     [ArrayF (PrimT uint8_t) ''password'' 48]"

definition TS_IMBC_ACCOUNT_PASSWORD_AES_DEF :: "field list" where
  "TS_IMBC_ACCOUNT_PASSWORD_AES_DEF =
     [Simple (PrimT uint32_t) ''password_size'',
      EndArray (PrimT uint8_t) ''password'']"

definition TS_CA_IMBC_ACCOUNT :: packet_decl where
  "TS_CA_IMBC_ACCOUNT = Packet [(\<lambda>_. True, 10012)]
     [When (since EPIC_9_6_6) (StringF ''account'' 64) None,
      When (between EPIC_7_4 EPIC_9_6_6) (StringF ''account'' 61) None,
      When (before EPIC_7_4) (StringF ''account'' 24) None,
      When (before EPIC_8_1_1_RSA) (Simple (StructT TS_IMBC_ACCOUNT_PASSWORD_PLAIN_DEF) ''passwordPlain'') None,
      When (since EPIC_8_1_1_RSA) (Simple (StructT TS_IMBC_ACCOUNT_PASSWORD_AES_DEF) ''passwordAes'') None]"

definition TS_OTP_ACCOUNT_PASSWORD_PLAIN_DEF :: "field list" where
  "TS_OTP_ACCOUNT_PASSWORD_PLAIN_DEF =
     [ArrayF (PrimT uint8_t) ''password'' 48]"

definition TS_OTP_ACCOUNT_PASSWORD_AES_DEF :: "field list" where
  "TS_OTP_ACCOUNT_PASSWORD_AES_DEF =
     [Simple (PrimT uint32_t) ''password_size'',
      EndArray (PrimT uint8_t) ''password'']"

definition TS_CA_OTP_ACCOUNT :: packet_decl where
  "TS_CA_OTP_ACCOUNT = Packet [(\<lambda>_. True, 10011)]
     [When (since EPIC_9_6_6) (StringF ''account'' 64) None,
      When (between EPIC_5_1 EPIC_9_6_6) (StringF ''account'' 61) None,
      When (before EPIC_5_1) (StringF ''account'' 19) None,
      When (before EPIC_8_1_1_RSA) (Simple (StructT TS_OTP_ACCOUNT_PASSWORD_PLAIN_DEF) ''passwordDes'') None,
      When (since EPIC_8_1_1_RSA) (Simple (StructT TS_OTP_ACCOUNT_PASSWORD_AES_DEF) ''passwordAes'') None]"

definition TS_CA_RSA_PUBLIC_KEY :: packet_decl where
  "TS_CA_RSA_PUBLIC_KEY = Packet [(before EPIC_9_6_3, 71), (since EPIC_9_6_3, 1071)]
     [Count int32_t ''key'' False,
      DynArray (PrimT uint8_t) ''key'']"

definition TS_CA_SELECT_SERVER :: packet_decl where
  "TS_CA_SELECT_SERVER = Packet [(\<lambda>_. True, 10023)]
     [When (before EPIC_9_6_5) (Simple (PrimT uint16_t) ''server_idx'') None,
      When (since EPIC_9_6_5) (Simple (PrimT uint32_t) ''server_idx'') None]"

definition TS_CA_SERVER_LIST :: packet_decl where
  "TS_CA_SERVER_LIST = Packet [(\<lambda>_. True, 10021)]
     []"

definition TS_CA_VERSION :: packet_decl where
  "TS_CA_VERSION = Packet [(\<lambda>_. True, 10001)]
     [StringF ''szVersion'' 20]"

definition TS_CU_DOWNLOAD_ICON :: packet_decl where
  "TS_CU_DOWNLOAD_ICON = Packet [(\<lambda>_. True, 50009)]
     [Simple (PrimT uint32_t) ''guild_id'',
      Simple (PrimT uint32_t) ''icon_size'',
      StringF ''guild_name'' 64,
      StringF ''file_name'' 64]"

definition TS_CU_LOGIN :: packet_decl where
  "TS_CU_LOGIN = Packet [(\<lambda>_. True, 50005)]
     [Simple (PrimT uint32_t) ''client_id'',
      Simple (PrimT uint32_t) ''account_id'',
      Simple (PrimT uint32_t) ''guild_id'',
      Simple (PrimT uint32_t) ''one_time_password'',
      StringF ''raw_server_name'' 32]"

definition TS_CU_UPLOAD :: packet_decl where
  "TS_CU_UPLOAD = Packet [(\<lambda>_. True, 50007)]
     [Count uint32_t ''file_contents'' False,
      DynArray (PrimT uint8_t) ''file_contents'']"

definition TS_UC_DOWNLOAD_ICON :: packet_decl where
  "TS_UC_DOWNLOAD_ICON = Packet [(\<lambda>_. True, 50010)]
     [Simple (PrimT uint32_t) ''guild_id'',
      Simple (PrimT uint32_t) ''icon_size'',
      StringF ''guild_name'' 64,
      StringF ''file_name'' 64,
      EndArray (PrimT uint8_t) ''file_contents'']"

definition TS_UC_LOGIN_RESULT :: packet_decl where
  "TS_UC_LOGIN_RESULT = Packet [(\<lambda>_. True, 50006)]
     [Simple (PrimT uint16_t) ''result'']"

definition TS_UC_UPLOAD :: packet_decl where
  "TS_UC_UPLOAD = Packet [(\<lambda>_. True, 50008)]
     [Simple (PrimT uint16_t) ''result'']"

definition TS_CS_VERSION :: packet_decl where
  "TS_CS_VERSION = Packet [(before EPIC_7_4, 50), (between EPIC_7_4 EPIC_9_6_3, 51), (since EPIC_9_6_3, 1051)]
     [StringF ''szVersion'' 20,
      When (since EPIC_9_5_2) (ArrayF (PrimT uint8_t) ''checksum'' 256) None]"

definition TS_CS_LOGIN :: packet_decl where
  "TS_CS_LOGIN = Packet [(before EPIC_9_2, 1), (between EPIC_9_2 EPIC_9_4_2, 61), (between EPIC_9_4_2 EPIC_9_6_3, 62), (since EPIC_9_6_3, 1062)]
     [When (since EPIC_9_3) (StringF ''name'' 24) None,
      When (before EPIC_9_3) (StringF ''name'' 19) None,
      When (before EPIC_9_3) (Simple (PrimT uint8_t) ''race'') (Some (VNum 0)),
      When (since EPIC_9_5_2) (ArrayF (PrimT uint8_t) ''checksum'' 256) None]"

definition TS_SC_RESULT :: packet_decl where
  "TS_SC_RESULT = Packet [(before EPIC_9_6_3, 0), (since EPIC_9_6_3, 1000)]
     [Simple (PrimT uint16_t) ''request_msg_id'',
      Simple (PrimT uint16_t) ''result'',
      Simple (PrimT int32_t) ''value'']"

definition TS_CS_CHAT_REQUEST :: packet_decl where
  "TS_CS_CHAT_REQUEST = Packet [(before EPIC_9_6_3, 20), (since EPIC_9_6_3, 1020)]
     [StringF ''szTarget'' 21,
      Simple (PrimT int8_t) ''request_id'',
      Count uint8_t ''message'' False,
      Simple (PrimT uint8_t) ''type'',
      DynString ''message'' False]"

definition TS_SC_CHAT :: packet_decl where
  "TS_SC_CHAT = Packet [(before EPIC_9_6_3, 22), (since EPIC_9_6_3, 1022)]
     [StringF ''szSender'' 21,
      Count uint16_t ''message'' True,
      Simple (PrimT uint8_t) ''type'',
      DynString ''message'' True]"

section \<open>Properties\<close>

lemma ver_lt_ge: "ver_lt ver epic \<longleftrightarrow> \<not> ver_ge ver epic"
  by (auto simp: ver_lt_def ver_ge_def)

lemma send_process:
  assumes "sendable d ver ob" "canonical d ver ob" "\<And>n. length (fresh n) = n"
  shows "\<exists>msg. sendPacket fresh d ver ob = Some (Inr msg) \<and> packet_ok msg \<and> processPacket d ver msg = Some ob"
proof -
  obtain i where i: "getPacketId d ver = Some i" using assms(1) by (auto simp: sendable_def)
  have "packet_ok (packetBytes d ver ob i)"
    using assms(1) by (simp add: packet_ok_def packetBytes_length sendable_def) (simp add: packetBytes_def Let_def packetHeader_def)
  then show ?thesis
    using send_packetBytes [OF assms(1) i assms(3)] process_packetBytes [OF assms(1,2), of i] by blast
qed

text \<open>C13. A packet that fits (under 65536 bytes) and whose values survive the wire format, sent by one side in some
  version, is exactly the buffer announced by \<open>getSize\<close>, is accepted by the framing of the other side, and
  is parsed to the same members there, with the whole message consumed: for every description and version.\<close>

theorem packet_roundtrip:
  assumes "sendable d ver ob" "canonical d ver ob" "\<And>n. length (fresh n) = n"
  shows "\<exists>msg. sendPacket fresh d ver ob = Some (Inr msg) \<and> Some (length msg) = getPacketSize d ver ob \<and>
    packet_ok msg \<and> processPacket d ver msg = Some ob"
proof -
  obtain i where i: "getPacketId d ver = Some i" using assms(1) by (auto simp: sendable_def)
  have "sendPacket fresh d ver ob = Some (Inr (packetBytes d ver ob i))"
    by (rule send_packetBytes [OF assms(1) i assms(3)])
  moreover have "Some (length (packetBytes d ver ob i)) = getPacketSize d ver ob"
    using assms(1) size_packet by (simp add: packetBytes_length sendable_def)
  ultimately show ?thesis using send_process [of d ver ob fresh] assms by auto
qed

definition demo_server_info :: fval where
  "demo_server_info = VObj [''server_idx'' \<mapsto> VNum 3, ''server_name'' \<mapsto> VStr (ascii ''Tortus''),
     ''is_adult_server'' \<mapsto> VNum 0, ''server_screenshot_url'' \<mapsto> VStr (ascii ''about:new''),
     ''server_ip'' \<mapsto> VStr (ascii ''127.0.0.1''), ''server_port'' \<mapsto> VNum 4514, ''user_ratio'' \<mapsto> VNum 100]"

definition demo_list :: "string \<Rightarrow> fval option" where
  "demo_list = [''last_login_server_idx'' \<mapsto> VNum 3, ''servers'' \<mapsto> VList [demo_server_info]]"

lemma demo_since: "ver_ge EPIC_9_6_5 EPIC_4_1" "ver_ge EPIC_9_6_5 EPIC_9_6_5"
  by (simp_all add: ver_ge_def compareEpic_def)

lemma demo_sendable: "sendable TS_AC_SERVER_LIST EPIC_9_6_5 demo_list" "canonical TS_AC_SERVER_LIST EPIC_9_6_5 demo_list"
proof -
  have a: "length (ascii s) = length s" for s by (simp add: ascii_def)
  show "sendable TS_AC_SERVER_LIST EPIC_9_6_5 demo_list"
    by (simp add: sendable_def TS_AC_SERVER_LIST_def TS_SERVER_INFO_DEF_def getPacketId_def ver_lt_ge demo_since
        demo_list_def demo_server_info_def member_def Let_def a setCount_def getClampedCount_def maxValue_def contSize_def)
  show "canonical TS_AC_SERVER_LIST EPIC_9_6_5 demo_list"
    by (simp add: canonical_def TS_AC_SERVER_LIST_def TS_SERVER_INFO_DEF_def wrFs_def stFs_def ver_lt_ge demo_since
        demo_list_def demo_server_info_def member_def Let_def a setCount_def getClampedCount_def maxValue_def contSize_def prim_ok_def ascii_def)
qed

lemma demo_list_sent: "\<exists>msg. processPacket TS_AC_SERVER_LIST EPIC_9_6_5 msg = Some demo_list"
  using process_packetBytes [OF demo_sendable] by blast

theorem packet_roundtrip_witness:
  "\<exists>msg. sendPacket (\<lambda>n. replicate n 0xCD) TS_AC_SERVER_LIST EPIC_9_6_5 demo_list = Some (Inr msg) \<and>
    Some (length msg) = getPacketSize TS_AC_SERVER_LIST EPIC_9_6_5 demo_list \<and>
    packet_ok msg \<and> processPacket TS_AC_SERVER_LIST EPIC_9_6_5 msg = Some demo_list"
  by (rule packet_roundtrip [OF demo_sendable]) simp

text \<open>In the versions from 4.1 up to 9.6.5 the last login server of a server list is lost: whatever message
  is parsed, the member is 1, because the line of the newer versions assigns its default after the line
  of the older ones has read the value.\<close>

lemma server_list_index_lost:
  assumes "ver_ge ver EPIC_4_1" "ver_lt ver EPIC_9_6_5" "processPacket TS_AC_SERVER_LIST ver msg = Some ob"
  shows "ob ''last_login_server_idx'' = Some (VNum 1)"
  using assms(3,1,2)
  by (auto simp: processPacket_def deserializePacket_def TS_AC_SERVER_LIST_def ver_lt_ge split_beta Let_def
      defaultMember_def defaultCount_def assign_def split: if_splits option.splits)

definition demo_old_list :: bytes where
  "demo_old_list = [11, 0, 0, 0, 38, 39, 88, 3, 0, 0, 0]"

lemma demo_versions: "ver_ge EPIC_7_4 EPIC_4_1" "\<not> ver_ge EPIC_7_4 EPIC_9_6_5"
  by (simp_all add: ver_ge_def compareEpic_def)

lemma server_list_index_lost_witness:
  "\<exists>ob. processPacket TS_AC_SERVER_LIST EPIC_7_4 demo_old_list = Some ob \<and> ob ''last_login_server_idx'' = Some (VNum 1)"
proof -
  have "processPacket TS_AC_SERVER_LIST EPIC_7_4 demo_old_list \<noteq> None"
    by (simp add: processPacket_def deserializePacket_def TS_AC_SERVER_LIST_def ver_lt_ge demo_versions split_beta Let_def
        readMessageHeader_def discardBytes_def readPrim_def readDynArrayObj_def checkAvailableBuffer_def newMessageBuffer_def mbGetSize_def
        demo_old_list_def advance_def peekBytes_def primValue_def defaultMember_def defaultCount_def assign_def
        setCount_def newLocals_def checkPacketFinalSize_def take_Cons')
  then obtain ob where "processPacket TS_AC_SERVER_LIST EPIC_7_4 demo_old_list = Some ob" by blast
  then show ?thesis
    using server_list_index_lost [of EPIC_7_4 demo_old_list ob] demo_versions by (simp add: ver_lt_ge)
qed

text \<open>C14. End to end: the packets one side sends, encrypted as one stream, cut into any chunks by the network, are
  dispatched by the framing of the other side one by one, and parse to the members that were sent.\<close>

theorem stream_end_to_end:
  assumes "list_all (\<lambda>(d, ob). sendable d ver ob \<and> canonical d ver ob) sent"
    and "list_all2 (\<lambda>(d, ob) msg. sendPacket fresh d ver ob = Some (Inr msg)) sent msgs"
    and "\<And>n. length (fresh n) = n" and "concat cs = snd (rc4_encode kout k (concat msgs))"
  shows "\<exists>s' out. receiveChunks (rc4_encode kout) (newFraming k buffer) [] cs = (s', [], out) \<and>
    list_all2 (\<lambda>(d, ob) (n, buf). processPacket d ver (take n buf) = Some ob) sent out"
proof -
  have one: "packet_ok msg \<and> processPacket d ver msg = Some ob"
    if "sendable d ver ob \<and> canonical d ver ob" "sendPacket fresh d ver ob = Some (Inr msg)" for d ob msg
    using send_process [of d ver ob fresh] that assms(3) by auto
  have "list_all packet_ok msgs \<and> list_all2 (\<lambda>(d, ob) msg. processPacket d ver msg = Some ob) sent msgs"
    using assms(2,1)
  proof (induction sent msgs rule: list_all2_induct)
    case (Cons x sent msg msgs)
    then show ?case using one [of "fst x" "snd x" msg] by (auto simp: split_beta)
  qed simp
  then have ok: "\<forall>p \<in> set msgs. packet_ok p"
    and proc: "list_all2 (\<lambda>(d, ob) msg. processPacket d ver msg = Some ob) sent msgs"
    by (auto simp: list_all_iff)
  obtain s' out where r: "receiveChunks (rc4_encode kout) (newFraming k buffer) [] cs = (s', [], out)"
      "map (\<lambda>(n, buf). take n buf) out = msgs"
    using rc4.chunks_deliver [OF ok assms(4)] by blast
  have "list_all2 (\<lambda>(d, ob) (n, buf). processPacket d ver (take n buf) = Some ob) sent out"
    using proc unfolding r(2) [symmetric] list_all2_map2 by (rule list_all2_mono) auto
  then show ?thesis using r(1) by blast
qed

definition demo_login_packets :: "(packet_decl \<times> (string \<Rightarrow> fval option)) list" where
  "demo_login_packets =
     [(TS_CA_VERSION, [''szVersion'' \<mapsto> VStr (ascii ''200609280'')]), (TS_CA_SERVER_LIST, Map.empty)]"

definition demo_stream :: bytes where
  "demo_stream = snd (rc4_encode (\<lambda>k. of_nat (rc_y k)) demo_key
     (concat (map (\<lambda>(d, ob). packetBytes d EPIC_7_4 ob (the (getPacketId d EPIC_7_4))) demo_login_packets)))"

theorem stream_end_to_end_witness:
  "\<exists>s' out. receiveChunks (rc4_encode (\<lambda>k. of_nat (rc_y k))) (newFraming demo_key []) []
      [take 9 demo_stream, drop 9 demo_stream] = (s', [], out) \<and>
    list_all2 (\<lambda>(d, ob) (n, buf). processPacket d EPIC_7_4 (take n buf) = Some ob) demo_login_packets out"
proof (rule stream_end_to_end)
  let ?fresh = "\<lambda>n. replicate n 0 :: bytes"
  have a: "length (ascii s) = length s" for s by (simp add: ascii_def)
  have s: "sendable TS_CA_VERSION EPIC_7_4 [''szVersion'' \<mapsto> VStr (ascii ''200609280'')]"
      "sendable TS_CA_SERVER_LIST EPIC_7_4 Map.empty"
    by (simp_all add: sendable_def TS_CA_VERSION_def TS_CA_SERVER_LIST_def getPacketId_def member_def Let_def a)
  show "list_all (\<lambda>(d, ob). sendable d EPIC_7_4 ob \<and> canonical d EPIC_7_4 ob) demo_login_packets"
    using s by (simp add: demo_login_packets_def canonical_def TS_CA_VERSION_def TS_CA_SERVER_LIST_def wrFs_def
        member_def stFs_def ascii_def)
  show "list_all2 (\<lambda>(d, ob) msg. sendPacket ?fresh d EPIC_7_4 ob = Some (Inr msg)) demo_login_packets
      (map (\<lambda>(d, ob). packetBytes d EPIC_7_4 ob (the (getPacketId d EPIC_7_4))) demo_login_packets)"
    using send_packetBytes [OF s(1), of 10001 ?fresh] send_packetBytes [OF s(2), of 10021 ?fresh]
    by (simp add: demo_login_packets_def getPacketId_def TS_CA_VERSION_def TS_CA_SERVER_LIST_def)
  show "length (?fresh n) = n" for n by simp
  show "concat [take 9 demo_stream, drop 9 demo_stream] = snd (rc4_encode (\<lambda>k. of_nat (rc_y k)) demo_key
      (concat (map (\<lambda>(d, ob). packetBytes d EPIC_7_4 ob (the (getPacketId d EPIC_7_4))) demo_login_packets)))"
    by (simp only: demo_stream_def concat.simps append_take_drop_id append_Nil2)
qed

end
