(* ===== verification/PacketTypes.thy ===== *)
theory PacketTypes
  imports Packets
begin

text \<open>
  What the generated \<open>deserialize\<close> yields on any bytes whatever: it only moves forward in the buffer, so that reading
  an array to the end of the packet returns, and every member it sets has the type of the line that set it.
\<close>

section \<open>Forward\<close>

definition forward :: "message_buffer \<Rightarrow> message_buffer \<Rightarrow> bool" where
  "forward b b' \<longleftrightarrow> mb_pos b \<le> mb_pos b' \<and> mbGetSize b' = mbGetSize b"

named_theorems readers_forward

lemma forward_refl [simp, readers_forward]: "forward b b"
  by (simp add: forward_def)

lemma forward_trans: "forward a b \<Longrightarrow> forward b c \<Longrightarrow> forward a c"
  by (simp add: forward_def)

lemma forward_advance [simp]: "forward b (advance n b)"
  by (simp add: forward_def)

lemma forward_check: "checkAvailableBuffer name n b = (ok, b') \<Longrightarrow> forward b b' \<and> (ok \<longrightarrow> b' = b \<and> mb_pos b + n \<le> mbGetSize b)"
  by (auto simp: checkAvailableBuffer_def forward_def mbGetSize_def Let_def split: if_splits)

lemma forward_check_advance: "checkAvailableBuffer name n b = (ok, b') \<Longrightarrow> forward b (advance k b')"
  using forward_check forward_trans forward_advance by blast

lemma readPrim_forward [readers_forward]: "forward b (snd (readPrim name p b))"
  using forward_check by (fastforce simp: readPrim_def forward_check_advance split: prod.splits)

lemma discardBytes_forward [readers_forward]: "forward b (discardBytes name n b)"
  using forward_check by (fastforce simp: discardBytes_def forward_check_advance split: prod.splits)

lemma readString_forward [readers_forward]: "forward b (snd (readString name n b))"
  using forward_check by (fastforce simp: readString_def forward_check_advance split: prod.splits)

lemma readDynString_forward [readers_forward]: "forward b (snd (readDynString name n nul b))"
  using forward_check by (fastforce simp: readDynString_def forward_check_advance split: prod.splits)

lemma readEndString_forward [readers_forward]: "forward b (snd (readEndString name nul b))"
  using forward_check by (fastforce simp: readEndString_def forward_check_advance Let_def split: prod.splits)

lemma readArrayPrim_forward [readers_forward]: "forward b (snd (readArrayPrim name p n b))"
  using forward_check by (fastforce simp: readArrayPrim_def forward_check_advance split: prod.splits)

lemma readDynArrayPrim_forward [readers_forward]: "forward b (snd (readDynArrayPrim name p n b))"
  using forward_check by (fastforce simp: readDynArrayPrim_def forward_check_advance split: prod.splits)

lemma readEndArrayPrim_forward [readers_forward]: "forward b (snd (readEndArrayPrim name p b))"
  using forward_check by (fastforce simp: readEndArrayPrim_def forward_check_advance Let_def split: prod.splits)

text \<open>Arrays of objects: a reader of one element that moves forward and gives values with \<open>P\<close>.\<close>

lemma readAll_typed:
  assumes "\<And>b. forward b (snd (rd b)) \<and> P (fst (rd b))"
  shows "forward b (snd (readAll rd n b)) \<and> length (fst (readAll rd n b)) = n \<and> list_all P (fst (readAll rd n b))"
proof (induction n arbitrary: b)
  case (Suc n)
  show ?case using assms [of b] Suc.IH [of "snd (rd b)"] forward_trans by (auto simp: split_beta Let_def)
qed simp

lemma readEndLoop_typed:
  assumes "\<And>b. forward b (snd (rd b)) \<and> P (fst (rd b))"
  shows "readEndLoop fuel rd lp b = Some (vs, b') \<Longrightarrow> forward b b' \<and> list_all P vs"
proof (induction fuel arbitrary: lp b vs)
  case 0
  then show ?case by (auto simp: readEndLoop.simps [of 0] split: if_splits)
next
  case (Suc fuel)
  show ?case
  proof (cases "lp \<noteq> Some (mb_pos b) \<and> mb_pos b < mbGetSize b")
    case True
    then obtain ws where ws: "readEndLoop fuel rd (Some (mb_pos b)) (snd (rd b)) = Some (ws, b')" "vs = fst (rd b) # ws"
      using Suc.prems by (auto simp: readEndLoop.simps [of "Suc fuel"] split_beta Let_def)
    then show ?thesis using Suc.IH [OF ws(1)] assms [of b] forward_trans by auto
  next
    case False
    then show ?thesis using Suc.prems by (auto simp: readEndLoop.simps [of "Suc fuel"])
  qed
qed

lemma readEndArrayObj_typed:
  assumes "\<And>b. forward b (snd (rd b)) \<and> P (fst (rd b))"
  shows "readEndLoop (Suc (mbGetSize b - mb_pos b)) rd None b = Some (readEndArrayObj rd b)"
    "forward b (snd (readEndArrayObj rd b)) \<and> list_all P (fst (readEndArrayObj rd b))"
proof -
  have "\<exists>r. readEndLoop (Suc (mbGetSize b - mb_pos b)) rd None b = Some r"
    by (rule readEndLoop_total) (use assms in \<open>auto simp: forward_def\<close>)
  then show r: "readEndLoop (Suc (mbGetSize b - mb_pos b)) rd None b = Some (readEndArrayObj rd b)"
    by (auto simp: readEndArrayObj_def)
  show "forward b (snd (readEndArrayObj rd b)) \<and> list_all P (fst (readEndArrayObj rd b))"
    by (rule readEndLoop_typed [where rd = rd and lp = None and fuel = "Suc (mbGetSize b - mb_pos b)"])
       (use assms r in auto)
qed

lemma readDynArrayObj_typed:
  assumes "\<And>b. forward b (snd (rd b)) \<and> P (fst (rd b))"
  shows "forward b (snd (readDynArrayObj name rd n b)) \<and> (\<forall>vs. fst (readDynArrayObj name rd n b) = Some vs \<longrightarrow> length vs = n \<and> list_all P vs)"
proof -
  obtain ok b' where c: "checkAvailableBuffer name n b = (ok, b')" by fastforce
  then show ?thesis
    using forward_check [OF c] readAll_typed [OF assms, of b' n] forward_trans
    by (auto simp: readDynArrayObj_def split_beta Let_def)
qed

section \<open>Types\<close>

lemma from_le_take: "(from_le bs :: u64) = take_bit (8 * length bs) (from_le bs)"
  by (rule bit_word_eqI) (auto simp: bit_from_le bit_simps)

lemma primValue_ok:
  assumes "0 < psize p" "psize p \<le> 8" "length bs = psize p"
  shows "prim_ok p (primValue p bs)"
proof (cases "psigned p")
  case True
  have "- (2 ^ n) \<le> signed_take_bit n k \<and> signed_take_bit n k < 2 ^ n" for n and k :: int
    by (simp add: signed_take_bit_int_greater_eq_minus_exp signed_take_bit_int_less_exp)
  then show ?thesis using assms True by (simp add: prim_ok_def primValue_def)
next
  case False
  have "uint (from_le bs :: u64) = take_bit (8 * psize p) (uint (from_le bs :: u64))"
    by (metis assms(3) from_le_take unsigned_take_bit_eq)
  then have "uint (from_le bs :: u64) < 2 ^ (8 * psize p)" by (metis take_bit_int_less_exp)
  then show ?thesis using assms False by (simp add: prim_ok_def primValue_def)
qed

lemma primValues_ok:
  "0 < psize p \<Longrightarrow> psize p \<le> 8 \<Longrightarrow> psize p * n \<le> length bs \<Longrightarrow> list_all (prim_ok p) (primValues p n bs)"
proof -
  assume a: "0 < psize p" "psize p \<le> 8" "psize p * n \<le> length bs"
  have "length (take (psize p) (drop (psize p * i) bs)) = psize p" if "i < n" for i
  proof -
    have "psize p * Suc i \<le> psize p * n" by (rule mult_le_mono2) (use that in simp)
    then have "psize p * i + psize p \<le> length bs" using a(3) by (simp add: algebra_simps)
    then show ?thesis by simp
  qed
  then show ?thesis using a primValue_ok by (auto simp: primValues_def list_all_iff)
qed

text \<open>The value of a member that a line has set: by parsing, or to its default.\<close>

fun typedT :: "packet_version_t \<Rightarrow> ftype \<Rightarrow> fval \<Rightarrow> bool"
and typedF :: "packet_version_t \<Rightarrow> field \<Rightarrow> string \<Rightarrow> fval \<Rightarrow> bool"
and typedFs :: "packet_version_t \<Rightarrow> field list \<Rightarrow> string \<Rightarrow> fval \<Rightarrow> bool" where
  "typedT ver (PrimT p) v = (isNum v \<and> prim_ok p (num v))"
| "typedT ver (StructT fs) v = (isObj v \<and> (\<forall>n w. members v n = Some w \<longrightarrow> typedFs ver fs n w))"
| "typedF ver (Simple t name) n v = (n = name \<and> typedT ver t v)"
| "typedF ver (ArrayF t name m) n v = (n = name \<and> isList v \<and> length (vals v) = m \<and> list_all (\<lambda>w. typedT ver t w) (vals v))"
| "typedF ver (DynArray t name) n v = (n = name \<and> isList v \<and> list_all (\<lambda>w. typedT ver t w) (vals v))"
| "typedF ver (Count p ref nul) n v = False"
| "typedF ver (StringF name m) n v = (n = name \<and> isStr v \<and> length (str v) \<le> m - 1 \<and> 0 \<notin> set (str v))"
| "typedF ver (DynString name nul) n v = (n = name \<and> isStr v)"
| "typedF ver (PadMarker marker) n v = False"
| "typedF ver (Pad m marker) n v = False"
| "typedF ver (EndString name nul) n v = (n = name \<and> isStr v)"
| "typedF ver (EndArray t name) n v = (n = name \<and> isList v \<and> list_all (\<lambda>w. typedT ver t w) (vals v))"
| "typedF ver (When c f d) n v = (if c ver then typedF ver f n v else d = Some v \<and> n \<in> set (defNames f))"
| "typedFs ver [] n v = False"
| "typedFs ver (f # fs) n v = (typedF ver f n v \<or> typedFs ver fs n v)"

text \<open>Declarations of numbers of 1 to 8 bytes, whose struct members are not set by an earlier line.\<close>

fun wfT :: "packet_version_t \<Rightarrow> ftype \<Rightarrow> bool"
and wfF :: "packet_version_t \<Rightarrow> field \<Rightarrow> bool"
and wfFs :: "packet_version_t \<Rightarrow> field list \<Rightarrow> bool" where
  "wfT ver (PrimT p) = (0 < psize p \<and> psize p \<le> 8)"
| "wfT ver (StructT fs) = wfFs ver fs"
| "wfF ver (Simple t name) = wfT ver t"
| "wfF ver (ArrayF t name m) = wfT ver t"
| "wfF ver (DynArray t name) = wfT ver t"
| "wfF ver (EndArray t name) = wfT ver t"
| "wfF ver (When c f d) = (c ver \<longrightarrow> wfF ver f)"
| "wfF ver f = True"
| "wfFs ver [] = True"
| "wfFs ver (f # fs) = (wfF ver f \<and> list_all (\<lambda>n. n \<notin> set (stFs ver fs)) (wrF ver f) \<and> wfFs ver fs)"

text \<open>What an array of numbers is parsed to.\<close>

lemma nums_typed: "list_all (prim_ok p) is \<Longrightarrow> list_all (\<lambda>w. typedT ver (PrimT p) w) (map VNum is)"
  by (simp add: list_all_iff)

lemma peek_length: "checkAvailableBuffer name n b = (True, b') \<Longrightarrow> k \<le> n \<Longrightarrow> length (peekBytes k b') = k"
  using forward_check [of name n b True b'] by (auto simp: peekBytes_def mbGetSize_def)

lemma readPrim_typed: "0 < psize p \<Longrightarrow> psize p \<le> 8 \<Longrightarrow> fst (readPrim name p b) = Some i \<Longrightarrow> prim_ok p i"
  by (auto simp: readPrim_def primValue_ok peek_length split: prod.splits if_splits)

lemma readArrayPrim_typed:
  "0 < psize p \<Longrightarrow> psize p \<le> 8 \<Longrightarrow> fst (readArrayPrim name p n b) = Some is \<Longrightarrow> length is = n \<and> list_all (prim_ok p) is"
  by (auto simp: readArrayPrim_def primValues_def peek_length intro!: primValues_ok [unfolded primValues_def] split: prod.splits if_splits)

lemma readDynArrayPrim_typed:
  "0 < psize p \<Longrightarrow> psize p \<le> 8 \<Longrightarrow> list_all (prim_ok p) (fst (readDynArrayPrim name p n b))"
  by (auto simp: readDynArrayPrim_def peek_length intro!: primValues_ok split: prod.splits if_splits)

lemma readEndArrayPrim_typed:
  assumes "0 < psize p" "psize p \<le> 8" "fst (readEndArrayPrim name p b) = Some is"
  shows "list_all (prim_ok p) is"
proof -
  let ?n = "(mbGetSize b - mb_pos b) div psize p"
  have fit: "psize p * ?n \<le> mbGetSize b - mb_pos b" by simp
  obtain b' where c: "checkAvailableBuffer name ?n b = (True, b')" "is = primValues p ?n (peekBytes (psize p * ?n) b')"
    using assms(3) by (auto simp: readEndArrayPrim_def Let_def split: prod.splits if_splits)
  then have "psize p * ?n \<le> length (peekBytes (psize p * ?n) b')"
    using forward_check [OF c(1)] fit by (simp add: peekBytes_def mbGetSize_def)
  then show ?thesis using primValues_ok [OF assms(1,2)] c(2) by blast
qed

lemma readString_typed: "fst (readString name m b) = Some s \<Longrightarrow> length s \<le> m - 1 \<and> 0 \<notin> set s"
  by (auto simp: readString_def peekBytes_def dest: set_takeWhileD split: prod.splits if_splits
      intro: order_trans [OF length_takeWhile_le])

lemma typedF_names: "typedF ver f n v \<Longrightarrow> n \<in> set (wrF ver f)"
  by (induction ver f rule: wrF.induct) (auto split: if_splits)

text \<open>A line or a list of lines: the position moves forward, and a member keeps its value or is typed by a line.\<close>

definition unset :: "string list \<Rightarrow> (string \<Rightarrow> fval option) \<Rightarrow> bool" where
  "unset names ob \<longleftrightarrow> (\<forall>n\<in>set names. ob n = None)"

definition adds :: "(string \<Rightarrow> fval \<Rightarrow> bool) \<Rightarrow> (string \<Rightarrow> fval option) \<Rightarrow> (string \<Rightarrow> fval option) \<Rightarrow> bool" where
  "adds T ob ob' \<longleftrightarrow> (\<forall>n w. ob' n = Some w \<longrightarrow> ob n = Some w \<or> T n w)"

lemma adds_refl [simp]: "adds T ob ob"
  by (simp add: adds_def)

lemma adds_update [simp]: "T name v \<Longrightarrow> adds T ob (ob(name \<mapsto> v))"
  by (simp add: adds_def)

lemma adds_clear [simp]: "adds T ob (ob(name := None))"
  by (simp add: adds_def)

lemma adds_assign: "(\<And>x. r = Some x \<Longrightarrow> T name (mk x)) \<Longrightarrow> adds T ob (assign name r mk ob)"
  by (cases r) (simp_all add: assign_def)

lemma adds_trans: "adds T ob ob1 \<Longrightarrow> adds U ob1 ob2 \<Longrightarrow> adds (\<lambda>n w. T n w \<or> U n w) ob ob2"
  unfolding adds_def by metis

definition reads_as :: "(string \<Rightarrow> fval \<Rightarrow> bool) \<Rightarrow> (string \<Rightarrow> fval option) \<Rightarrow> message_buffer \<Rightarrow>
    (string \<Rightarrow> fval option) \<times> locals \<times> message_buffer \<Rightarrow> bool" where
  "reads_as T ob b r \<longleftrightarrow> adds T ob (fst r) \<and> forward b (snd (snd r))"

definition elementReader :: "packet_version_t \<Rightarrow> string \<Rightarrow> ftype \<Rightarrow> message_buffer \<Rightarrow> fval \<times> message_buffer" where
  "elementReader ver name t = (\<lambda>b. let (v, b') = desT ver name t None b in (the v, b'))"

lemma element_typed:
  assumes "\<forall>name old b. ((\<exists>fs'. StructT fs = StructT fs') \<longrightarrow> old = None) \<longrightarrow> forward b (snd (desT ver name (StructT fs) old b)) \<and>
      (\<forall>v. fst (desT ver name (StructT fs) old b) = Some v \<longrightarrow> old = Some v \<or> typedT ver (StructT fs) v)"
  shows "forward b (snd (elementReader ver name (StructT fs) b)) \<and> typedT ver (StructT fs) (fst (elementReader ver name (StructT fs) b))"
proof -
  have "fst (desT ver name (StructT fs) None b) \<noteq> None" by (simp add: split_beta Let_def)
  moreover have "forward b (snd (desT ver name (StructT fs) None b)) \<and>
      (\<forall>v. fst (desT ver name (StructT fs) None b) = Some v \<longrightarrow> typedT ver (StructT fs) v)" using assms by blast
  ultimately show ?thesis unfolding elementReader_def by (auto simp only: split_beta Let_def fst_conv snd_conv option.sel)
qed

lemma des_typed:
  "wfT ver t \<longrightarrow> (\<forall>name old b. ((\<exists>fs. t = StructT fs) \<longrightarrow> old = None) \<longrightarrow> forward b (snd (desT ver name t old b)) \<and>
      (\<forall>v. fst (desT ver name t old b) = Some v \<longrightarrow> old = Some v \<or> typedT ver t v))"
  "wfF ver f \<longrightarrow> (\<forall>ob L b. unset (stF ver f) ob \<longrightarrow> reads_as (typedF ver f) ob b (desF ver f ob (L, b)))"
  "wfFs ver fs \<longrightarrow> (\<forall>ob L b. unset (stFs ver fs) ob \<longrightarrow> reads_as (typedFs ver fs) ob b (desFs ver fs ob (L, b)))"
proof (induction ver t and ver f and ver fs rule: wfT_wfF_wfFs.induct)
  case (1 ver p)
  show ?case
  proof (intro impI allI)
    fix name b and old :: "fval option"
    assume wf: "wfT ver (PrimT p)"
    obtain r b' where r: "readPrim name p b = (r, b')" by fastforce
    then show "forward b (snd (desT ver name (PrimT p) old b)) \<and>
        (\<forall>v. fst (desT ver name (PrimT p) old b) = Some v \<longrightarrow> old = Some v \<or> typedT ver (PrimT p) v)"
      using readPrim_forward [of b name p] readPrim_typed [of p name b] wf by (auto split: option.splits)
  qed
next
  case (2 ver fs)
  show ?case
  proof (intro impI allI)
    fix name b and old :: "fval option"
    assume wf: "wfT ver (StructT fs)" and "(\<exists>fs'. StructT fs = StructT fs') \<longrightarrow> old = None"
    then have old: "old = None" by simp
    have "reads_as (typedFs ver fs) Map.empty b (desFs ver fs Map.empty (newLocals, b))"
      using "2.IH" wf by (simp add: unset_def)
    then show "forward b (snd (desT ver name (StructT fs) old b)) \<and>
        (\<forall>v. fst (desT ver name (StructT fs) old b) = Some v \<longrightarrow> old = Some v \<or> typedT ver (StructT fs) v)"
      by (auto simp: old reads_as_def adds_def split_beta Let_def)
  qed
next
  case (3 ver t name)
  show ?case
  proof (intro impI allI)
    fix ob L b
    assume wf: "wfF ver (Simple t name)" and u: "unset (stF ver (Simple t name)) ob"
    have "(\<exists>fs. t = StructT fs) \<longrightarrow> ob name = None" using u by (auto simp: unset_def)
    then show "reads_as (typedF ver (Simple t name)) ob b (desF ver (Simple t name) ob (L, b))"
      using "3.IH" wf by (fastforce simp: reads_as_def adds_def split_beta Let_def)
  qed
next
  case (4 ver t name m)
  show ?case
  proof (intro impI allI)
    fix ob L b
    assume wf: "wfF ver (ArrayF t name m)"
    show "reads_as (typedF ver (ArrayF t name m)) ob b (desF ver (ArrayF t name m) ob (L, b))"
    proof (cases t)
      case (PrimT p)
      then show ?thesis using wf readArrayPrim_forward [of b name p m] readArrayPrim_typed [of p name m b]
        by (auto simp: reads_as_def split_beta Let_def list_all_iff intro!: adds_assign)
    next
      case (StructT fs)
      have "wfT ver (StructT fs)" using wf StructT by simp
      note rd = element_typed [OF "4.IH" [unfolded StructT, THEN mp, OF this], of _ name]
      show ?thesis using readAll_typed [where rd = "elementReader ver name (StructT fs)" and P = "typedT ver (StructT fs)", OF rd]
        by (auto simp: StructT reads_as_def split_beta Let_def elementReader_def simp del: desT.simps typedT.simps)
    qed
  qed
next
  case (5 ver t name)
  show ?case
  proof (intro impI allI)
    fix ob L b
    assume wf: "wfF ver (DynArray t name)"
    show "reads_as (typedF ver (DynArray t name)) ob b (desF ver (DynArray t name) ob (L, b))"
    proof (cases t)
      case (PrimT p)
      then show ?thesis using wf readDynArrayPrim_forward [of b name p] readDynArrayPrim_typed [of p name]
        by (auto simp: reads_as_def split_beta Let_def list_all_iff)
    next
      case (StructT fs)
      have "wfT ver (StructT fs)" using wf StructT by simp
      note rd = element_typed [OF "5.IH" [unfolded StructT, THEN mp, OF this], of _ name]
      show ?thesis using readDynArrayObj_typed [where rd = "elementReader ver name (StructT fs)" and P = "typedT ver (StructT fs)", OF rd]
        by (auto simp: StructT reads_as_def split_beta Let_def elementReader_def simp del: desT.simps typedT.simps intro!: adds_assign)
    qed
  qed
next
  case (6 ver t name)
  show ?case
  proof (intro impI allI)
    fix ob L b
    assume wf: "wfF ver (EndArray t name)"
    show "reads_as (typedF ver (EndArray t name)) ob b (desF ver (EndArray t name) ob (L, b))"
    proof (cases t)
      case (PrimT p)
      then show ?thesis using wf readEndArrayPrim_forward [of b name p] readEndArrayPrim_typed [of p name b]
        by (auto simp: reads_as_def split_beta Let_def list_all_iff intro!: adds_assign)
    next
      case (StructT fs)
      have "wfT ver (StructT fs)" using wf StructT by simp
      note rd = element_typed [OF "6.IH" [unfolded StructT, THEN mp, OF this], of _ name]
      show ?thesis using readEndArrayObj_typed(2) [where rd = "elementReader ver name (StructT fs)" and P = "typedT ver (StructT fs)", OF rd]
        by (auto simp: StructT reads_as_def split_beta Let_def elementReader_def simp del: desT.simps typedT.simps)
    qed
  qed
next
  case (7 ver c f d)
  show ?case
  proof (cases "c ver")
    case True
    then show ?thesis using 7 by (simp add: reads_as_def adds_def)
  next
    case False
    then show ?thesis
      by (auto simp: reads_as_def adds_def defaultMember_def split: option.splits field.splits if_splits)
  qed
next
  case (10 ver f fs)
  show ?case
  proof (intro impI allI)
    fix ob L b
    assume wf: "wfFs ver (f # fs)" and u: "unset (stFs ver (f # fs)) ob"
    obtain ob1 L1 b1 where d: "desF ver f ob (L, b) = (ob1, L1, b1)" by (metis prod_cases3)
    have u12: "unset (stF ver f) ob" "unset (stFs ver fs) ob" using u by (simp_all add: unset_def stFs_def)
    have "reads_as (typedF ver f) ob b (desF ver f ob (L, b))" using "10.IH"(1) wf u12(1) by simp
    then have one: "adds (typedF ver f) ob ob1" "forward b b1" by (simp_all add: reads_as_def d)
    have "unset (stFs ver fs) ob1"
      unfolding unset_def
    proof
      fix n assume n: "n \<in> set (stFs ver fs)"
      have "\<not> typedF ver f n w" for w using typedF_names n wf by (fastforce simp: list_all_iff)
      moreover have "ob n = None" using u12(2) n by (simp add: unset_def)
      ultimately show "ob1 n = None" using one(1) unfolding adds_def by (metis not_None_eq)
    qed
    then have "reads_as (typedFs ver fs) ob1 b1 (desFs ver fs ob1 (L1, b1))" using "10.IH"(2) wf by simp
    moreover have eq: "typedFs ver (f # fs) = (\<lambda>n w. typedF ver f n w \<or> typedFs ver fs n w)" by (simp add: fun_eq_iff)
    ultimately show "reads_as (typedFs ver (f # fs)) ob b (desFs ver (f # fs) ob (L, b))"
      using one d forward_trans [OF one(2)] adds_trans [OF one(1)] by (simp add: reads_as_def eq)
  qed
qed (use readers_forward in \<open>auto simp: reads_as_def split_beta Let_def dest: readString_typed split: option.splits intro!: adds_assign\<close>)

section \<open>Well-formed declarations\<close>

text \<open>A check of a declaration that does not look at versions: no line sets a struct member of another line.\<close>

fun partNames :: "field \<Rightarrow> string list" where
  "partNames (Simple (StructT fs) name) = [name]"
| "partNames (When c f d) = partNames f"
| "partNames f = []"

fun lineNames :: "field \<Rightarrow> string list" where
  "lineNames (Simple t name) = [name]"
| "lineNames (ArrayF t name m) = [name]"
| "lineNames (DynArray t name) = [name]"
| "lineNames (StringF name m) = [name]"
| "lineNames (DynString name nul) = [name]"
| "lineNames (EndString name nul) = [name]"
| "lineNames (EndArray t name) = [name]"
| "lineNames (When c f d) = lineNames f"
| "lineNames f = []"

fun separateT :: "ftype \<Rightarrow> bool"
and separateF :: "field \<Rightarrow> bool"
and separateFs :: "field list \<Rightarrow> bool" where
  "separateT (PrimT p) = (0 < psize p \<and> psize p \<le> 8)"
| "separateT (StructT fs) = separateFs fs"
| "separateF (Simple t name) = separateT t"
| "separateF (ArrayF t name m) = separateT t"
| "separateF (DynArray t name) = separateT t"
| "separateF (EndArray t name) = separateT t"
| "separateF (When c f d) = separateF f"
| "separateF f = True"
| "separateFs [] = True"
| "separateFs (f # fs) = (separateF f \<and> list_all (\<lambda>n. n \<notin> set (lineNames f)) (concat (map partNames fs)) \<and> separateFs fs)"

lemma stF_partNames: "set (stF ver f) \<subseteq> set (partNames f)"
  by (induction ver f rule: stF.induct) auto

lemma wrF_lineNames: "set (wrF ver f) \<subseteq> set (lineNames f)"
proof (induction ver f rule: wrF.induct)
  case (8 ver c f d)
  then show ?case by (cases f) (auto split: option.splits)
qed auto

lemma separate_wf:
  "separateT t \<longrightarrow> wfT ver t" "separateF f \<longrightarrow> wfF ver f" "separateFs fs \<longrightarrow> wfFs ver fs"
proof (induction t and f and fs rule: separateT_separateF_separateFs.induct)
  case (10 f fs)
  have "set (stFs ver fs) \<subseteq> set (concat (map partNames fs))" using stF_partNames by (fastforce simp: stFs_def)
  then show ?case using 10 wrF_lineNames [of ver f] by (auto simp: list_all_iff)
qed auto

section \<open>Parsed packets\<close>

lemma parsed_typed:
  assumes "wfFs ver (pd_fields d)" "processPacket d ver msg = Some ob" "ob n = Some w"
  shows "typedFs ver (pd_fields d) n w"
proof -
  let ?b = "snd (readMessageHeader (newMessageBuffer msg))"
  have "reads_as (typedFs ver (pd_fields d)) Map.empty ?b (desFs ver (pd_fields d) Map.empty (newLocals, ?b))"
    using des_typed(3) assms(1) by (simp add: unset_def)
  moreover have "ob = fst (desFs ver (pd_fields d) Map.empty (newLocals, ?b))"
    using assms(2) by (auto simp: processPacket_def deserializePacket_def split_beta Let_def split: if_splits)
  ultimately show ?thesis using assms(3) by (auto simp: reads_as_def adds_def)
qed

section \<open>Properties\<close>

text \<open>C27. The generated code implements the wire format: for any value of the declared types that is small enough, also
  one whose strings are cut or whose counts are clamped, \<open>getSize\<close> is the length of the encoding and the packet that
  is sent is the encoding, whatever the fresh buffer held.\<close>

theorem packet_refines_wire:
  assumes "sendable d ver ob" "\<And>n. length (fresh n) = n"
  shows "\<exists>i. getPacketId d ver = Some i \<and> getPacketSize d ver ob = Some (length (packetBytes d ver ob i)) \<and>
    sendPacket fresh d ver ob = Some (Inr (packetBytes d ver ob i))"
proof -
  obtain i where i: "getPacketId d ver = Some i" using assms(1) by (auto simp: sendable_def)
  then show ?thesis
    using assms(1) send_packetBytes [OF assms(1) i, of fresh, OF assms(2)] size_packet [of ver d ob]
    by (simp add: sendable_def packetBytes_length)
qed

theorem packet_refines_wire_witness:
  "\<exists>i. getPacketId TS_AC_SERVER_LIST EPIC_9_6_5 = Some i \<and>
    getPacketSize TS_AC_SERVER_LIST EPIC_9_6_5 demo_list = Some (length (packetBytes TS_AC_SERVER_LIST EPIC_9_6_5 demo_list i)) \<and>
    sendPacket (\<lambda>n. replicate n 0xCD) TS_AC_SERVER_LIST EPIC_9_6_5 demo_list =
      Some (Inr (packetBytes TS_AC_SERVER_LIST EPIC_9_6_5 demo_list i))"
  by (rule packet_refines_wire [OF demo_sendable(1)]) simp

end
