(* ===== verification/TextUtils.thy ===== *)
theory TextUtils
  imports Prelude
begin

text \<open>
  The string functions of librzu/src/lib/Core/Utils.cpp that the servers build on: hexadecimal dumps, searching
  and replacing, splitting, the command line parser of the console and the wildcard matcher of the configuration
  commands. A C string is the list of the characters before its NUL.
\<close>

section \<open>Hexadecimal\<close>

definition hexMapping :: string where "hexMapping = ''0123456789abcdef''"

definition convertDataToHex :: "bytes \<Rightarrow> string" where
  "convertDataToHex data = concat (map (\<lambda>b. [hexMapping ! unat (drop_bit 4 b AND 0x0F), hexMapping ! unat (b AND 0x0F)]) data)"

definition hexValue :: "char \<Rightarrow> u8" where
  "hexValue c = (let n = of_char c :: nat in
     if 48 \<le> n \<and> n \<le> 57 then of_nat (n - 48)
     else if 65 \<le> n \<and> n \<le> 70 then of_nat (n - 65 + 10)
     else if 97 \<le> n \<and> n \<le> 102 then of_nat (n - 97 + 10) else 0)"

fun convertHexToData :: "string \<Rightarrow> bytes" where
  "convertHexToData (a # b # hex) = (push_bit 4 (hexValue a) OR hexValue b) # convertHexToData hex"
| "convertHexToData _ = []"

text \<open>The dump of any data reads back.\<close>

lemma hex_digit: "hexValue (hexMapping ! unat (w AND 0x0F)) = w AND (0x0F :: u8)"
proof -
  have "\<forall>n\<in>{0..<16}. hexValue (hexMapping ! n) = (of_nat n :: u8)" by code_simp
  moreover have "unat (w AND 0x0F) < 16"
  proof -
    have "w AND 0x0F = take_bit 4 w" by (simp add: take_bit_eq_mask mask_eq_exp_minus_1)
    then show ?thesis using take_bit_nat_less_exp [of 4 "unat w"] by (simp add: unsigned_take_bit_eq)
  qed
  ultimately have "hexValue (hexMapping ! unat (w AND 0x0F)) = (of_nat (unat (w AND 0x0F)) :: u8)" by auto
  then show ?thesis by simp
qed

lemma nibbles: "push_bit 4 (drop_bit 4 b AND 0x0F) OR (b AND 0x0F) = (b :: u8)"
proof (rule bit_word_eqI)
  fix n assume "n < LENGTH(8)"
  then have "n \<in> {0, 1, 2, 3, 4, 5, 6, 7}" by auto
  then show "bit (push_bit 4 (drop_bit 4 b AND 0x0F) OR (b AND 0x0F)) n \<longleftrightarrow> bit b n"
    by (auto simp: bit_simps)
qed

lemma convertHexToData_ToHex: "convertHexToData (convertDataToHex data) = data"
proof (induction data)
  case (Cons b data)
  then show ?case
    unfolding convertDataToHex_def list.map concat.simps append.simps convertHexToData.simps hex_digit nibbles by simp
qed (simp add: convertDataToHex_def)

section \<open>Searching\<close>

text \<open>\<open>memchr\<close>: the offset of the first \<open>c\<close> among the first \<open>n\<close> elements.\<close>

fun memchr :: "'a list \<Rightarrow> 'a \<Rightarrow> nat \<Rightarrow> nat option" where
  "memchr (x # xs) c (Suc n) = (if x = c then Some 0 else map_option Suc (memchr xs c n))"
| "memchr _ _ _ = None"

lemma memchr_Some: "memchr xs c n = Some i \<Longrightarrow> i < length xs \<and> i < n \<and> xs ! i = c \<and> (\<forall>j<i. xs ! j \<noteq> c)"
proof (induction xs c n arbitrary: i rule: memchr.induct)
  case (1 x xs c n)
  show ?case
  proof (cases "x = c")
    case True
    then show ?thesis using 1(2) by simp
  next
    case False
    then obtain k where k: "memchr xs c n = Some k" "i = Suc k" using 1(2) by auto
    from 1(1) [OF False k(1)] show ?thesis using False k(2) by (auto simp: nth_Cons split: nat.splits)
  qed
qed auto

lemma memchr_None: "memchr xs c n = None \<Longrightarrow> c \<notin> set (take n xs)"
  by (induction xs c n rule: memchr.induct) (auto split: if_splits)

function memmemLoop :: "'a list \<Rightarrow> 'a list \<Rightarrow> nat \<Rightarrow> nat option" where
  "memmemLoop needle p offset =
     (if needle = [] \<or> length p < length needle then None
      else case memchr p (hd needle) (length p - length needle + 1) of
        None \<Rightarrow> None
      | Some i \<Rightarrow> if take (length needle) (drop i p) = needle then Some (offset + i)
                  else memmemLoop needle (drop (i + 1) p) (offset + i + 1))"
  by auto
termination
  by (relation "measure (\<lambda>(needle, p, offset). length p)") (auto dest: memchr_Some)

declare memmemLoop.simps [simp del]

definition memmem :: "'a list \<Rightarrow> 'a list \<Rightarrow> nat option" where
  "memmem haystack needle = memmemLoop needle haystack 0"

text \<open>\<open>occurs s i xs\<close>: \<open>s\<close> is found in \<open>xs\<close> at offset \<open>i\<close>.\<close>

definition occurs :: "'a list \<Rightarrow> nat \<Rightarrow> 'a list \<Rightarrow> bool" where
  "occurs s i xs \<longleftrightarrow> i + length s \<le> length xs \<and> take (length s) (drop i xs) = s"

lemma occurs_drop: "occurs s i (drop k xs) \<longleftrightarrow> occurs s (i + k) xs \<or> s = [] \<and> i = 0 \<and> length xs < k"
  by (cases "k \<le> length xs") (auto simp: occurs_def add.commute)

lemma occurs_nth: "occurs s i xs \<Longrightarrow> j < length s \<Longrightarrow> xs ! (i + j) = s ! j"
  unfolding occurs_def by (metis add_leD1 nth_drop nth_take)

text \<open>\<open>memmem\<close> finds the first occurrence.\<close>

lemma memmemLoop_first:
  assumes "needle \<noteq> []"
  shows "case memmemLoop needle p offset of
      None \<Rightarrow> \<forall>i. \<not> occurs needle i p
    | Some k \<Rightarrow> \<exists>i. k = offset + i \<and> occurs needle i p \<and> (\<forall>j<i. \<not> occurs needle j p)"
  using assms
proof (induction needle p offset rule: memmemLoop.induct)
  case (1 needle p offset)
  let ?n = "length needle"
  have hd: "p ! i = hd needle" if "occurs needle i p" for i
    using occurs_nth [OF that, of 0] 1(2) by (simp add: hd_conv_nth)
  show ?case
  proof (cases "length p < ?n")
    case True
    then show ?thesis by (subst memmemLoop.simps) (auto simp: occurs_def)
  next
    case long: False
    show ?thesis
    proof (cases "memchr p (hd needle) (length p - ?n + 1)")
      case None
      have "\<not> occurs needle i p" for i
      proof
        assume o: "occurs needle i p"
        then have "i < length p - ?n + 1" "i < length p" using 1(2) long by (auto simp: occurs_def neq_Nil_conv)
        then have "hd needle \<in> set (take (length p - ?n + 1) p)"
          using hd [OF o] by (metis in_set_conv_nth length_take min_less_iff_conj nth_take)
        then show False using memchr_None [OF None] by blast
      qed
      then show ?thesis using None long 1(2) by (subst memmemLoop.simps) simp
    next
      case (Some i)
      note m = memchr_Some [OF Some]
      have before: "\<not> occurs needle j p" if "j < i" for j using m hd that by blast
      show ?thesis
      proof (cases "take ?n (drop i p) = needle")
        case True
        then have "occurs needle i p" using m long by (auto simp: occurs_def)
        then show ?thesis using True Some long 1(2) before by (subst memmemLoop.simps) auto
      next
        case False
        then have "\<not> occurs needle i p" by (simp add: occurs_def)
        then have upto: "\<not> occurs needle j p" if "j < i + 1" for j using before that by (cases "j = i") auto
        have "\<not> (needle = [] \<or> length p < ?n)" using long 1(2) by simp
        note IH = 1(1) [OF this Some False 1(2)]
        have eq: "memmemLoop needle p offset = memmemLoop needle (drop (i + 1) p) (offset + i + 1)"
          using Some False long 1(2) by (subst memmemLoop.simps) simp
        have sh: "occurs needle j (drop (i + 1) p) \<longleftrightarrow> occurs needle (j + (i + 1)) p" for j
          using 1(2) by (simp add: occurs_drop)
        show ?thesis
        proof (cases "memmemLoop needle (drop (i + 1) p) (offset + i + 1)")
          case None
          then have "\<not> occurs needle (j + (i + 1)) p" for j using IH sh by simp
          then have "\<not> occurs needle j p" for j using upto [of j] by (metis le_add_diff_inverse2 not_less)
          then show ?thesis unfolding eq None by simp
        next
          case (Some k)
          then obtain j where j: "k = offset + i + 1 + j" "occurs needle (j + (i + 1)) p"
              "\<forall>a<j. \<not> occurs needle (a + (i + 1)) p" using IH sh by auto
          have "\<not> occurs needle a p" if "a < j + (i + 1)" for a
          proof (cases "a < i + 1")
            case False
            then have "a - (i + 1) < j" "a - (i + 1) + (i + 1) = a" using that by auto
            then show ?thesis using j(3) by metis
          qed (rule upto)
          then show ?thesis unfolding eq Some using j by (auto intro!: exI [of _ "j + (i + 1)"] simp: add.commute [of j i])
        qed
      qed
    qed
  qed
qed

section \<open>Replacing and splitting\<close>

text \<open>\<open>std::string::find(from, start)\<close>.\<close>

fun str_find :: "string \<Rightarrow> string \<Rightarrow> nat option" where
  "str_find [] from = (if from = [] then Some 0 else None)"
| "str_find (c # cs) from =
     (if take (length from) (c # cs) = from then Some 0 else map_option Suc (str_find cs from))"

definition stringReplace :: "string \<Rightarrow> string \<Rightarrow> string \<Rightarrow> bool \<times> string" where
  "stringReplace s from to =
     (case str_find s from of None \<Rightarrow> (False, s)
      | Some p \<Rightarrow> (True, take p s @ to @ drop (p + length from) s))"

lemma str_find_bound: "str_find s from = Some p \<Longrightarrow> p + length from \<le> length s"
proof (induction s "from" arbitrary: p rule: str_find.induct)
  case (2 c cs "from")
  show ?case
  proof (cases "take (length from) (c # cs) = from")
    case True
    then have "length from \<le> length (c # cs)" by (metis length_take min.cobounded1)
    then show ?thesis using True 2(2) by simp
  next
    case False
    then show ?thesis using 2 by auto
  qed
qed (auto split: if_splits)

text \<open>The part of the string before \<open>start_pos\<close> is final.\<close>

function replaceAllLoop :: "string \<Rightarrow> string \<Rightarrow> string \<Rightarrow> string" where
  "replaceAllLoop from to s =
     (if from = [] then s
      else case str_find s from of
        None \<Rightarrow> s
      | Some p \<Rightarrow> take p s @ to @ replaceAllLoop from to (drop (p + length from) s))"
  by auto
termination
  by (relation "measure (\<lambda>(from, to, s). length s)") (auto dest!: str_find_bound simp: neq_Nil_conv)

declare replaceAllLoop.simps [simp del]

definition stringReplaceAll :: "string \<Rightarrow> string \<Rightarrow> string \<Rightarrow> string" where
  "stringReplaceAll s from to = replaceAllLoop from to s"

function stringSplit :: "string \<Rightarrow> char \<Rightarrow> string list" where
  "stringSplit data delim =
     (if delim \<in> set data then
        takeWhile (\<lambda>c. c \<noteq> delim) data # stringSplit (tl (dropWhile (\<lambda>c. c \<noteq> delim) data)) delim
      else if data \<noteq> [] then [data] else [])"
  by auto
termination
  by (relation "measure (\<lambda>(data, delim). length data)")
     (auto intro: le_less_trans [OF length_dropWhile_le] simp: less_le_trans [OF diff_Suc_less length_dropWhile_le])

declare stringSplit.simps [simp del]

text \<open>Replacing all occurrences is one pass over the string.\<close>

function replaceRef :: "string \<Rightarrow> string \<Rightarrow> string \<Rightarrow> string" where
  "replaceRef from to [] = []"
| "replaceRef from to (c # cs) =
     (if from \<noteq> [] \<and> take (length from) (c # cs) = from then to @ replaceRef from to (drop (length from) (c # cs))
      else c # replaceRef from to cs)"
  by pat_completeness auto
termination by (relation "measure (\<lambda>(from, to, s). length s)") (auto simp: neq_Nil_conv)

lemma str_find_None: "str_find s from = None \<Longrightarrow> replaceRef from to s = s"
  by (induction s "from" rule: str_find.induct) (auto split: if_splits)

lemma str_find_Some:
  "str_find s from = Some p \<Longrightarrow> from \<noteq> [] \<Longrightarrow>
    replaceRef from to s = take p s @ to @ replaceRef from to (drop (p + length from) s)"
proof (induction s "from" arbitrary: p rule: str_find.induct)
  case (2 c cs "from")
  then show ?case by (cases "take (length from) (c # cs) = from") auto
qed (simp split: if_splits)

lemma stringReplaceAll_ref: "from \<noteq> [] \<Longrightarrow> stringReplaceAll s from to = replaceRef from to s"
  unfolding stringReplaceAll_def
proof (induction "from" to s rule: replaceAllLoop.induct)
  case (1 "from" to s)
  then show ?case
    by (subst replaceAllLoop.simps) (auto simp: str_find_None str_find_Some split: option.splits)
qed

text \<open>Splitting undoes joining with a delimiter after each piece.\<close>

lemma takeWhile_delim: "d \<notin> set a \<Longrightarrow> takeWhile (\<lambda>c. c \<noteq> d) (a @ d # r) = a \<and> dropWhile (\<lambda>c. c \<noteq> d) (a @ d # r) = d # r"
  by (induction a) auto

lemma stringSplit_join: "\<forall>a\<in>set as. d \<notin> set a \<Longrightarrow> stringSplit (concat (map (\<lambda>a. a @ [d]) as)) d = as"
proof (induction as)
  case (Cons a as)
  then show ?case using takeWhile_delim [of d a] by (subst stringSplit.simps) simp
qed (simp add: stringSplit.simps)

section \<open>Command lines\<close>

abbreviation "QUOTE \<equiv> CHR 0x22"

definition isBlank :: "char \<Rightarrow> bool" where
  "isBlank c \<longleftrightarrow> c = CHR 0x20 \<or> c = CHR 0x09 \<or> c = CHR 0x0D \<or> c = CHR 0x0A"

text \<open>The loop of \<open>parseCommand\<close>: whether it is inside quotes, and the argument read so far.\<close>

fun parseLoop :: "string \<Rightarrow> bool \<Rightarrow> string \<Rightarrow> string list" where
  "parseLoop [] insideQuotes arg = (if arg \<noteq> [] then [arg] else [])"
| "parseLoop (c # cs) insideQuotes arg =
     (if c = QUOTE then
        (case cs of
           d # ds \<Rightarrow> if d = QUOTE then parseLoop ds insideQuotes (arg @ [QUOTE]) else parseLoop cs (\<not> insideQuotes) arg
         | [] \<Rightarrow> parseLoop cs (\<not> insideQuotes) arg)
      else if \<not> insideQuotes \<and> isBlank c then
        (if arg \<noteq> [] then arg # parseLoop cs insideQuotes [] else parseLoop cs insideQuotes [])
      else parseLoop cs insideQuotes (arg @ [c]))"

definition parseCommand :: "string \<Rightarrow> string list" where
  "parseCommand data = parseLoop data False []"

section \<open>Wildcards\<close>

text \<open>What a pointer into a C string reads; \<open>None\<close> is the terminating NUL.\<close>

definition ch :: "string \<Rightarrow> char option" where
  "ch s = (case s of [] \<Rightarrow> None | c # _ \<Rightarrow> Some c)"

abbreviation "STAR \<equiv> CHR ''*''"
abbreviation "QM \<equiv> CHR ''?''"

text \<open>"Fast-forward to next possible match": \<open>None\<close> when the pointer passes the NUL, \<open>Some None\<close> for
  "return false".\<close>

fun fastForward :: "char \<Rightarrow> string \<Rightarrow> string option option" where
  "fastForward c [] = None"
| "fastForward c (x # xs) =
     (if x = c then Some (Some (x # xs)) else if xs = [] then Some None else fastForward c xs)"

definition skipStars :: "string \<Rightarrow> string" where
  "skipStars w = dropWhile (\<lambda>c. c = STAR) w"

lemma skipStars_shorter: "ch w = Some STAR \<Longrightarrow> length (skipStars w) < length w"
proof (cases w)
  case (Cons c cs)
  assume "ch w = Some STAR"
  then show ?thesis using Cons length_dropWhile_le [of "\<lambda>c. c = STAR" cs] by (simp add: ch_def skipStars_def)
qed (simp add: ch_def)

lemma ch_Some: "ch s = Some c \<longleftrightarrow> (\<exists>cs. s = c # cs)"
  by (cases s) (auto simp: ch_def)

lemma ch_Cons [simp]: "ch (c # cs) = Some c"
  by (simp add: ch_def)

lemma ch_Nil [simp]: "ch [] = None"
  by (simp add: ch_def)

lemma ch_None: "ch s = None \<longleftrightarrow> s = []"
  by (cases s) auto

text \<open>The state of the loop: the rest of the text, the rest of the pattern, and the two bookmarks. Moving either
  pointer past its NUL is undefined.\<close>

function wildLoop :: "string \<Rightarrow> string \<Rightarrow> (string \<times> string) option \<Rightarrow> bool option" where
  "wildLoop tame wild bookmark =
     (if ch wild = Some STAR then
        (let wild' = skipStars wild
         in if wild' = [] then Some True
            else (case (if ch wild' = Some QM then Some (Some tame) else fastForward (hd wild') tame) of
                None \<Rightarrow> None
              | Some None \<Rightarrow> Some False
              | Some (Some tame') \<Rightarrow>
                  (if tame' = [] then None
                   else if tl tame' = [] then Some (skipStars (tl wild') = [])
                   else wildLoop (tl tame') (tl wild') (Some (tame', wild')))))
      else if ch tame \<noteq> ch wild \<and> ch wild \<noteq> Some QM then
        (case bookmark of
           None \<Rightarrow> Some False
         | Some (tameB, wildB) \<Rightarrow>
             if wild \<noteq> wildB then
               (if ch tame \<noteq> ch wildB then
                  (if tameB = [] then None else wildLoop (tl tameB) wildB (Some (tl tameB, wildB)))
                else if tame \<noteq> [] then wildLoop (tl tame) (tl wildB) bookmark else Some False)
             else if tame \<noteq> [] then wildLoop (tl tame) wild bookmark else Some False)
      else if tame = [] then None
      else if tl tame = [] then Some (skipStars (tl wild) = [])
      else wildLoop (tl tame) (tl wild) bookmark)"
  by pat_completeness auto
termination
proof (relation "measures [\<lambda>(t, w, b). case b of None \<Rightarrow> length w | Some (tb, wb) \<Rightarrow> max (length w) (length wb),
    \<lambda>(t, w, b). case b of None \<Rightarrow> 0 | Some (tb, wb) \<Rightarrow> length tb, \<lambda>(t, w, b). length t]", goal_cases)
  case 1
  then show ?case by simp
next
  case (2 tame wild bookmark x xa xb)
  then show ?case using skipStars_shorter [of wild] by (auto split: option.splits)
qed (auto simp: neq_Nil_conv split: option.splits)

declare wildLoop.simps [simp del]

definition stringWildcardMatch :: "string \<Rightarrow> string \<Rightarrow> bool option" where
  "stringWildcardMatch pTameText pWildText = wildLoop pTameText pWildText None"

end
