(* ===== verification/Passwords.thy ===== *)
theory Passwords
  imports ZlibCipher TextUtils AuthClient
begin

text \<open>
  Passwords on their way from a client to the account table: the DES container of
  librzu/src/lib/Cipher/DesPasswordCipher.cpp, the passwords of the database
  (librzu/src/lib/Cipher/DbPasswordCipher.cpp), and the account query of rzauth
  (src/rzauth/src/AuthServer/DB_Account.cpp), which decrypts the password of a login, hashes it and compares the
  hash with the row it reads. OpenSSL (DES, AES, MD5) and the database are parameters. \<open>None\<close> is a use of an
  uninitialised key schedule or an access outside a buffer.
\<close>

section \<open>DES\<close>

text \<open>\<open>des_set_key_checked\<close> is \<open>None\<close> when OpenSSL refuses the key as weak and leaves the schedule as it is;
  \<open>des_ecb True\<close> encrypts one block of 8 bytes and \<open>des_ecb False\<close> decrypts it.\<close>

record 'k des_lib =
  des_set_odd_parity :: "bytes \<Rightarrow> bytes"
  des_set_key_checked :: "bytes \<Rightarrow> 'k option"
  des_ecb :: "bool \<Rightarrow> 'k \<Rightarrow> bytes \<Rightarrow> bytes"

definition des_ok :: "'k des_lib \<Rightarrow> bool" where
  "des_ok des \<longleftrightarrow> (\<forall>b k x. length x = 8 \<longrightarrow> length (des_ecb des b k x) = 8) \<and>
     (\<forall>k x. length x = 8 \<longrightarrow> des_ecb des False k (des_ecb des True k x) = x)"

text \<open>\<open>init\<close>: the first 40 characters of a C string are folded into 8 bytes.\<close>

fun desFoldKey :: "nat \<Rightarrow> bytes \<Rightarrow> bytes \<Rightarrow> bytes" where
  "desFoldKey i key [] = key"
| "desFoldKey i key (c # password) =
     (if c \<noteq> 0 \<and> i < 40 then desFoldKey (i + 1) (key[i mod 8 := key ! (i mod 8) XOR c]) password else key)"

text \<open>The result of the key check is not looked at: without a schedule the cipher has the memory it was
  allocated with.\<close>

definition desInit :: "'k des_lib \<Rightarrow> bytes \<Rightarrow> 'k option" where
  "desInit des password = des_set_key_checked des (des_set_odd_parity des (desFoldKey 0 (replicate 8 0) password))"

fun desBlocks :: "(bytes \<Rightarrow> bytes) \<Rightarrow> nat \<Rightarrow> bytes \<Rightarrow> bytes" where
  "desBlocks f 0 buf = buf"
| "desBlocks f (Suc n) buf = f (take 8 buf) @ desBlocks f n (drop 8 buf)"

text \<open>\<open>encrypt\<close> and \<open>decrypt\<close>: whole blocks only, nothing for a negative length.\<close>

definition desCrypt :: "'k des_lib \<Rightarrow> bool \<Rightarrow> 'k option \<Rightarrow> bytes \<Rightarrow> int \<Rightarrow> bytes option" where
  "desCrypt des enc keySchedule buf len =
     (let n = nat (len div 8) in
      if n = 0 then Some buf
      else if length buf < 8 * n then None
      else case keySchedule of None \<Rightarrow> None | Some k \<Rightarrow> Some (desBlocks (des_ecb des enc k) n buf))"

lemma desBlocks_length:
  assumes "\<And>x. length x = 8 \<Longrightarrow> length (f x) = 8"
  shows "8 * n \<le> length buf \<Longrightarrow> length (desBlocks f n buf) = length buf"
  by (induction n arbitrary: buf) (simp_all add: assms)

text \<open>The bytes behind the last block stay in clear.\<close>

lemma desBlocks_tail:
  assumes "\<And>x. length x = 8 \<Longrightarrow> length (f x) = 8"
  shows "8 * n \<le> length buf \<Longrightarrow> drop (8 * n) (desBlocks f n buf) = drop (8 * n) buf"
proof (induction n arbitrary: buf)
  case (Suc n)
  have "drop (8 * Suc n) (desBlocks f (Suc n) buf) = drop (8 * n) (desBlocks f n (drop 8 buf))"
    using Suc.prems by (simp add: assms)
  also have "\<dots> = drop (8 * Suc n) buf" using Suc by (simp add: add.commute)
  finally show ?case .
qed simp

text \<open>Decrypting at most as many blocks as were encrypted gives them back; what is behind keeps its form.\<close>

lemma desBlocks_inverse:
  assumes "\<And>x. length x = 8 \<Longrightarrow> length (f x) = 8" and "\<And>x. length x = 8 \<Longrightarrow> g (f x) = x"
  shows "m \<le> n \<Longrightarrow> 8 * n \<le> length buf \<Longrightarrow>
    take (8 * m) (desBlocks g m (desBlocks f n buf)) = take (8 * m) buf"
proof (induction m arbitrary: n buf)
  case (Suc m)
  then obtain k where k: "n = Suc k" "m \<le> k" by (cases n) auto
  have "take (8 * Suc m) (desBlocks g (Suc m) (desBlocks f n buf)) =
      take 8 buf @ take (8 * m) (desBlocks g m (desBlocks f k (drop 8 buf)))"
    using Suc.prems k by (simp add: assms)
  also have "take (8 * m) (desBlocks g m (desBlocks f k (drop 8 buf))) = take (8 * m) (drop 8 buf)"
    using Suc k by simp
  also have "take 8 buf @ take (8 * m) (drop 8 buf) = take (8 * Suc m) buf"
    by (simp add: take_add)
  finally show ?case .
qed simp

lemma desBlocks_take:
  "8 * n \<le> m \<Longrightarrow> m \<le> length buf \<Longrightarrow> (\<And>x. length x = 8 \<Longrightarrow> length (f x) = 8) \<Longrightarrow>
    desBlocks f n (take m buf) = take m (desBlocks f n buf)"
proof (induction n arbitrary: m buf)
  case (Suc n)
  have "take 8 (take m buf) = take 8 buf" using Suc.prems by (simp add: min_def)
  moreover have "drop 8 (take m buf) = take (m - 8) (drop 8 buf)" by (simp add: drop_take)
  ultimately show ?case using Suc by (simp add: take_Cons')
qed simp

lemma desCrypt_inverse:
  assumes "des_ok des" "desCrypt des True (Some k) buf n = Some c"
  shows "desCrypt des False (Some k) c n = Some buf"
proof (cases "nat (n div 8) = 0")
  case True
  then show ?thesis using assms(2) by (simp add: desCrypt_def Let_def)
next
  case False
  define m where "m = nat (n div 8)"
  have len: "\<And>b x. length x = 8 \<Longrightarrow> length (des_ecb des b k x) = 8"
    and inv: "\<And>x. length x = 8 \<Longrightarrow> des_ecb des False k (des_ecb des True k x) = x"
    using assms(1) by (auto simp: des_ok_def)
  have c: "c = desBlocks (des_ecb des True k) m buf" "8 * m \<le> length buf"
    using assms(2) False by (auto simp: desCrypt_def Let_def m_def split: if_splits)
  have lc: "length c = length buf" using c desBlocks_length [of "des_ecb des True k" m buf] len by simp
  let ?d = "desBlocks (des_ecb des False k) m c"
  have "take (8 * m) ?d = take (8 * m) buf"
    using desBlocks_inverse [of "des_ecb des True k" "des_ecb des False k" m m buf] len inv c by simp
  moreover have "drop (8 * m) ?d = drop (8 * m) buf"
    using desBlocks_tail [of "des_ecb des False k" m c] desBlocks_tail [of "des_ecb des True k" m buf] len c lc
    by simp
  ultimately have "?d = buf" by (metis append_take_drop_id)
  moreover have "nat (n div 8) \<noteq> 0" "\<not> length c < 8 * nat (n div 8)"
    using False lc c(2) by (simp_all add: m_def)
  ultimately show ?thesis
    unfolding desCrypt_def Let_def m_def [symmetric] by (simp add: m_def)
qed

section \<open>Passwords of the database\<close>

definition zlibPasswordHeader :: bytes where
  "zlibPasswordHeader = [0x45, 0x56, 0x00, 0x00, 0x03, 0x00]"

definition dbDesKey :: bytes where
  "dbDesKey = map of_char ''!_a^Rc*|#][Ych$~'(M _!d4aUo^%${T!~}h*&X%''"

definition db_decrypt :: "'k des_lib \<Rightarrow> (nat \<Rightarrow> bytes \<Rightarrow> bytes option) \<Rightarrow> bytes \<Rightarrow> bytes option" where
  "db_decrypt des uncompress cryptedPassword =
     (if length zlibPasswordHeader < length cryptedPassword \<and> take 6 cryptedPassword = zlibPasswordHeader
      then zlib_decrypt uncompress (drop 6 cryptedPassword)
      else desCrypt des False (desInit des dbDesKey) cryptedPassword (int (length cryptedPassword)))"

definition db_encrypt :: "(bytes \<Rightarrow> bytes option) \<Rightarrow> bytes \<Rightarrow> bytes option" where
  "db_encrypt compress password = do {
     encrypted \<leftarrow> zlib_encrypt compress password;
     Some (zlibPasswordHeader @ encrypted) }"

text \<open>What \<open>zlib_encrypt\<close> yields is never empty when it comes from a text.\<close>

lemma zlib_encrypt_length:
  assumes "zlib_encrypt compress plain = Some c" "plain \<noteq> []" "compress plain = Some zs"
  shows "length c = length zs + 8"
proof -
  obtain m where m: "getMagic (plainChecksum plain) (length zs) = Some m"
    using assms by (auto simp: zlib_encrypt_def Let_def split: option.splits)
  show ?thesis
    using zlib_encrypt_layout [of plain compress zs m] m assms by (auto simp: Let_def maskBytes_def)
qed

text \<open>C28. A password that \<open>DbPasswordCipher::encrypt\<close> wrote is read back by \<open>decrypt\<close>, under zlib's own
  round trip; and so is a password an older database encrypted with DES, unless its ciphertext happens to
  begin with the header of the other form.\<close>

theorem db_password_roundtrip:
  assumes "password \<noteq> []" and "compress password = Some zs" and "zs \<noteq> []"
    and "uncompress (length password) zs = Some password"
    and "length zs < 2 ^ 31" and "length password < 2 ^ 32"
    and "des_ok des" and "desInit des dbDesKey = Some k"
    and "desCrypt des True (Some k) old (int (length old)) = Some crypted"
    and "take 6 crypted \<noteq> zlibPasswordHeader"
  shows "Option.bind (db_encrypt compress password) (db_decrypt des uncompress) = Some password \<and>
    db_decrypt des uncompress crypted = Some old"
proof
  have rt: "Option.bind (zlib_encrypt compress password) (zlib_decrypt uncompress) = Some password"
    by (rule zlib_decrypt_encrypt) (use assms in auto)
  then obtain c where c: "zlib_encrypt compress password = Some c" "zlib_decrypt uncompress c = Some password"
    by (auto simp: Option.bind_eq_Some_conv)
  then have "c \<noteq> []" using zlib_encrypt_length [OF c(1) assms(1,2)] by auto
  then show "Option.bind (db_encrypt compress password) (db_decrypt des uncompress) = Some password"
    using c by (simp add: db_encrypt_def db_decrypt_def zlibPasswordHeader_def)
  have "length crypted = length old"
    using assms(7,9) desBlocks_length [of "des_ecb des True k" "nat (int (length old) div 8)" old]
    by (auto simp: desCrypt_def Let_def des_ok_def split: if_splits)
  then show "db_decrypt des uncompress crypted = Some old"
    using desCrypt_inverse [OF assms(7,9)] assms(8,10) by (simp add: db_decrypt_def)
qed

theorem db_password_roundtrip_witness:
  "Option.bind (db_encrypt (\<lambda>d. Some (0x78 # d)) [1, 2, 255])
     (db_decrypt \<lparr>des_set_odd_parity = id, des_set_key_checked = Some, des_ecb = (\<lambda>b k. rev)\<rparr>
       (\<lambda>sz c. Some (take sz (tl c)))) = Some [1, 2, 255] \<and>
   db_decrypt \<lparr>des_set_odd_parity = id, des_set_key_checked = Some, des_ecb = (\<lambda>b k. rev)\<rparr>
       (\<lambda>sz c. Some (take sz (tl c))) [8, 7, 6, 5, 4, 3, 2, 1, 9] = Some [1, 2, 3, 4, 5, 6, 7, 8, 9]"
proof (rule db_password_roundtrip [of "[1, 2, 255]" "\<lambda>d. Some (0x78 # d)" "[0x78, 1, 2, 255]"])
  show "des_ok \<lparr>des_set_odd_parity = id, des_set_key_checked = Some, des_ecb = (\<lambda>b k. rev)\<rparr>"
    by (simp add: des_ok_def)
  show "desInit \<lparr>des_set_odd_parity = id, des_set_key_checked = Some, des_ecb = (\<lambda>b k. rev)\<rparr> dbDesKey =
    Some (desFoldKey 0 (replicate 8 0) dbDesKey)"
    by (simp add: desInit_def)
  show "desCrypt \<lparr>des_set_odd_parity = id, des_set_key_checked = Some, des_ecb = (\<lambda>b k. rev)\<rparr> True
    (Some (desFoldKey 0 (replicate 8 0) dbDesKey)) [1, 2, 3, 4, 5, 6, 7, 8, 9]
    (int (length ([1, 2, 3, 4, 5, 6, 7, 8, 9] :: bytes))) = Some [8, 7, 6, 5, 4, 3, 2, 1, 9]"
    by code_simp
qed (simp_all add: zlibPasswordHeader_def)

section \<open>The account query\<close>

text \<open>\<open>aes_decrypt key iv\<close> decrypts whole blocks with AES-128 in CBC mode and removes the padding (\<open>None\<close>: the
  padding is wrong); \<open>md5\<close> yields 16 bytes.\<close>

record 'k db_env =
  dbe_des :: "'k des_lib"
  dbe_desKey :: bytes
  dbe_aes_decrypt :: "bytes \<Rightarrow> bytes \<Rightarrow> bytes \<Rightarrow> bytes option"
  dbe_md5 :: "bytes \<Rightarrow> bytes"
  dbe_salt :: bytes
  dbe_restrictCharacters :: bool

definition isAlnum :: "char \<Rightarrow> bool" where
  "isAlnum c = (let n = of_char c :: nat in
     (97 \<le> n \<and> n \<le> 122) \<or> (65 \<le> n \<and> n \<le> 90) \<or> (48 \<le> n \<and> n \<le> 57))"

fun validLoop :: "string \<Rightarrow> bool" where
  "validLoop [] = True"
| "validLoop (c # cs) = (if \<not> isAlnum c then False else validLoop cs)"

definition isAccountNameValid :: "string \<Rightarrow> bool" where
  "isAccountNameValid account = (if length account = 0 then False else validLoop account)"

text \<open>The characters before the terminator that the code puts behind the decrypted bytes.\<close>

definition cBytes :: "bytes \<Rightarrow> bytes" where
  "cBytes = takeWhile (\<lambda>c. c \<noteq> 0)"

text \<open>The inner \<open>None\<close> is a refused password: too long for the 80 byte buffer, or not decryptable.\<close>

definition plainPassword :: "'k db_env \<Rightarrow> auth_input \<Rightarrow> bytes option option" where
  "plainPassword env input =
     (let crypted = in_cryptedPassword input; n = length crypted in
      case in_cryptMode input of
        EM_AES \<Rightarrow>
          if n > 80 - 16 then Some None
          else (case dbe_aes_decrypt env (take 16 (in_aesKey input)) (drop 16 (in_aesKey input))
                  (take (16 * (n div 16)) crypted) of
                  None \<Rightarrow> Some None
                | Some p \<Rightarrow> if length p \<ge> 80 then Some None else Some (Some p))
      | EM_None \<Rightarrow> if n \<ge> 80 then Some None else Some (Some crypted)
      | EM_DES \<Rightarrow>
          if n \<ge> 80 then Some None
          else map_option Some (desCrypt (dbe_des env) False (desInit (dbe_des env) (dbe_desKey env))
            crypted (int n)))"

definition hexDigit :: "u8 \<Rightarrow> char" where
  "hexDigit val = char_of (if val < 10 then unat val + 48 else unat val - 10 + 97)"

definition setPasswordMD5 :: "bytes \<Rightarrow> string" where
  "setPasswordMD5 givenPasswordMd5 =
     concat (map (\<lambda>i. [hexDigit (drop_bit 4 (givenPasswordMd5 ! i)), hexDigit (givenPasswordMd5 ! i AND 0x0F)]) [0..<16])"

definition decryptPassword :: "'k db_env \<Rightarrow> auth_input \<Rightarrow> string option option" where
  "decryptPassword env input = do {
     p \<leftarrow> plainPassword env input;
     Some (map_option (\<lambda>p. setPasswordMD5 (dbe_md5 env (dbe_salt env @ cBytes p))) p) }"

definition onPreProcess :: "'k db_env \<Rightarrow> auth_input \<Rightarrow> string option option" where
  "onPreProcess env input =
     (if dbe_restrictCharacters env \<and> \<not> isAccountNameValid (in_account input) then Some None
      else decryptPassword env input)"

text \<open>A row as it was read, \<open>out_ok\<close> still false; \<open>row_password\<close> is a C string in \<open>char[35]\<close>.\<close>

record account_row = auth_output +
  row_password :: string
  row_nullPassword :: bool

definition onRowDone :: "string \<Rightarrow> account_row \<Rightarrow> account_row" where
  "onRowDone inputPassword output =
     (if out_account_id output = 0xFFFFFFFF then output
      else if row_nullPassword output \<and> row_password output = [] then output\<lparr>out_ok := True\<rparr>
      else if inputPassword = row_password output then output\<lparr>out_ok := True\<rparr>
      else output)"

text \<open>The job: without a preprocessed input there is no result; \<open>EM_OneRow\<close> reads at most one row. \<open>db\<close> is the
  query with the account and the hash as its parameters, \<open>None\<close> when it fails.\<close>

definition accountResults :: "'k db_env \<Rightarrow> (string \<Rightarrow> string \<Rightarrow> account_row list option) \<Rightarrow> auth_input \<Rightarrow> auth_output list option" where
  "accountResults env db input = do {
     pw \<leftarrow> onPreProcess env input;
     Some (case pw of
        None \<Rightarrow> []
      | Some pw \<Rightarrow>
          (case db (in_account input) pw of
             None \<Rightarrow> []
           | Some rows \<Rightarrow> map (\<lambda>r. auth_output.truncate (onRowDone pw r)) (take 1 rows))) }"

subsection \<open>Which hash is looked up\<close>

lemma length_concat_pairs: "length (concat (map (\<lambda>i. [f i, g i]) xs)) = 2 * length xs"
  by (induction xs) simp_all

lemma length_setPasswordMD5 [simp]: "length (setPasswordMD5 d) = 32"
  by (simp only: setPasswordMD5_def length_concat_pairs length_upt)

lemma validLoop_all: "validLoop s \<longleftrightarrow> (\<forall>c\<in>set s. isAlnum c)"
  by (induction s) auto

lemma cBytes_terminated: "0 \<notin> set p \<Longrightarrow> cBytes (p @ 0 # rest) = p"
  by (simp add: cBytes_def takeWhile_append takeWhile_neq_id)

lemma cBytes_self: "0 \<notin> set p \<Longrightarrow> cBytes p = p"
  by (simp add: cBytes_def takeWhile_neq_id)

end
