(* ===== verification/ClientLogin.thy ===== *)
theory ClientLogin
  imports Passwords RzHash
begin

text \<open>
  The client side of the login (librzu/src/lib/NetSession/ClientAuthSession.cpp and ClientGameSession.cpp): the
  session with the authentication server, which sends the credentials, receives the server list and the one-time
  password, and the session with the chosen game server, which presents them. What the sessions send, ask of their
  streams or report to the program is appended to \<open>lc_out\<close>. OpenSSL and libcurl are parameters. \<open>None\<close> is an
  overflow of a fixed buffer or an uncaught exception.
\<close>

section \<open>State\<close>

record server_conn =
  sc_id :: u16
  sc_ip :: string
  sc_port :: u16

text \<open>What the program is shown of a server.\<close>

record client_server_info =
  ci_serverId :: u16
  ci_serverName :: string
  ci_serverScreenshotUrl :: string
  ci_serverIp :: string
  ci_serverPort :: u32
  ci_userRatio :: u16

datatype cipher_method = ACM_DES | ACM_RSA_AES

text \<open>Packets of the client: those of the authentication server are the ones its model receives.\<close>

datatype game_client_msg =
    CS_VERSION string bytes
  | CS_REPORT bytes
  | CS_ACCOUNT_WITH_AUTH string u64

datatype client_out =
    AuthConnect string u16
  | AuthSend client_packet
  | AuthClose
  | AuthAbort
  | CurlQuery string
  | GameConnect string u16
  | GameClose
  | GameSend game_client_msg
  | OnAuthDisconnected bool
  | OnAuthResult u16 string
  | OnServerList "client_server_info list" u16
  | OnGameDisconnected bool
  | OnGameResult u16
  | OnGameConnected
  | OnGamePacketReceived
  | OnGameStreamDisconnected bool

record client_auth =
  lc_version :: packet_version_t
  lc_hasGame :: bool
  lc_cipherMethod :: cipher_method
  lc_authVersion :: string
  lc_gameVersion :: string
  lc_username :: string
  lc_password :: string
  lc_aesKey :: bytes
  lc_serverList :: "server_conn list"
  lc_selectedServer :: int
  lc_oneTimePassword :: u64
  lc_normalDisconnect :: bool
  lc_out :: "client_out list"

text \<open>The static members and locals, shared by all sessions of the program: the RSA key and the last DES
  password with its ciphertext.\<close>

record 'r client_statics =
  st_rsa :: "'r option"
  st_cachedPassword :: bytes
  st_cachedPasswordStr :: string

definition initialStatics :: "'r client_statics" where
  "initialStatics = \<lparr>st_rsa = None, st_cachedPassword = replicate 61 0, st_cachedPasswordStr = []\<rparr>"

text \<open>\<open>le_rsa_pem\<close> and \<open>le_rsa_decrypt\<close> are the PEM form of the public key and the decryption with the private
  key; \<open>aes\<close> functions take the two halves of the 32 byte key; the version strings are those of the
  configuration, when set; \<open>le_junk\<close> is the memory a packet on the stack starts with.\<close>

record ('k, 'r) login_env =
  le_des :: "'k des_lib"
  le_rsa_pem :: "'r \<Rightarrow> bytes"
  le_rsa_decrypt :: "'r \<Rightarrow> bytes \<Rightarrow> bytes option"
  le_aes_encrypt :: "bytes \<Rightarrow> bytes \<Rightarrow> bytes \<Rightarrow> bytes option"
  le_aes_decrypt :: "bytes \<Rightarrow> bytes \<Rightarrow> bytes \<Rightarrow> bytes option"
  le_authVersion :: "string option"
  le_gameVersion :: "string option"
  le_junk :: bytes

definition say :: "client_out \<Rightarrow> client_auth \<Rightarrow> client_auth" where
  "say x c = c\<lparr>lc_out := lc_out c @ [x]\<rparr>"

text \<open>The members a new session does not initialise keep what their memory held.\<close>

definition newClientAuth :: "packet_version_t \<Rightarrow> bool \<Rightarrow> cipher_method \<Rightarrow> int \<Rightarrow> u64 \<Rightarrow> bool \<Rightarrow> client_auth" where
  "newClientAuth version hasGame junkMethod junkServer junkPassword junkDisconnect =
     \<lparr>lc_version = version, lc_hasGame = hasGame, lc_cipherMethod = junkMethod, lc_authVersion = [],
      lc_gameVersion = [], lc_username = [], lc_password = [], lc_aesKey = [], lc_serverList = [],
      lc_selectedServer = junkServer, lc_oneTimePassword = junkPassword, lc_normalDisconnect = junkDisconnect,
      lc_out = []\<rparr>"

section \<open>Operations of the program\<close>

definition loginConnect :: "('k, 'r) login_env \<Rightarrow> string \<Rightarrow> u16 \<Rightarrow> string \<Rightarrow> string \<Rightarrow> client_auth \<Rightarrow> client_auth" where
  "loginConnect env ip port account password c =
     say (AuthConnect ip port)
      (c\<lparr>lc_username := account, lc_password := password,
         lc_authVersion := getAuthVersionString (le_authVersion env) (lc_version c),
         lc_gameVersion := getGameVersionString (le_gameVersion env) (lc_version c),
         lc_cipherMethod := (if ver_ge (lc_version c) EPIC_8_1_1_RSA then ACM_RSA_AES else ACM_DES),
         lc_selectedServer := 0, lc_normalDisconnect := False\<rparr>)"

definition loginClose :: "client_auth \<Rightarrow> client_auth" where
  "loginClose c = (let c = say AuthClose c in if lc_hasGame c then say GameClose c else c)"

definition retreiveServerList :: "client_auth \<Rightarrow> client_auth" where
  "retreiveServerList c = say (AuthSend CA_SERVER_LIST) c"

fun findServer :: "u16 \<Rightarrow> server_conn list \<Rightarrow> nat \<Rightarrow> int" where
  "findServer serverId [] i = -1"
| "findServer serverId (s # ss) i = (if sc_id s = serverId then int i else findServer serverId ss (i + 1))"

definition selectServer :: "u16 \<Rightarrow> client_auth \<Rightarrow> bool \<times> client_auth" where
  "selectServer serverId c =
     (let c = c\<lparr>lc_selectedServer := findServer serverId (lc_serverList c) 0\<rparr>
      in if lc_selectedServer c = -1 then (False, c)
         else (True, say (AuthSend (CA_SELECT_SERVER (ucast serverId))) c))"

section \<open>Connection\<close>

definition desCipherKey :: bytes where
  "desCipherKey = map of_char ''MERONG''"

text \<open>The string copied by \<open>strcpy\<close>: its characters up to a NUL, and a NUL, over what the buffer held.\<close>

definition cachePassword :: "('k, 'r) login_env \<Rightarrow> packet_version_t \<Rightarrow> string \<Rightarrow> 'r client_statics \<Rightarrow> 'r client_statics option" where
  "cachePassword env version password st =
     (if st_cachedPasswordStr st = password then Some st
      else let src = map of_char (takeWhile (\<lambda>c. c \<noteq> CHR 0x00) password) @ [0] in
        if length src > 61 then None
        else do {
          cached \<leftarrow> desCrypt (le_des env) True (desInit (le_des env) desCipherKey) (blit 0 src (st_cachedPassword st))
            (if ver_ge version EPIC_5_2 then 61 else 32);
          Some (st\<lparr>st_cachedPassword := cached, st_cachedPasswordStr := password\<rparr>) })"

text \<open>\<open>generated\<close> is the key pair \<open>generateKey\<close> makes; when the generation fails after the allocation, the
  cipher holds a key that is not set up, which is then used.\<close>

definition loginConnected :: "('k, 'r) login_env \<Rightarrow> 'r \<Rightarrow> client_auth \<Rightarrow> 'r client_statics \<Rightarrow>
    (client_auth \<times> 'r client_statics) option" where
  "loginConnected env generated c st =
     (let c = say (AuthSend (CA_VERSION (lc_authVersion c))) c in
      case lc_cipherMethod c of
        ACM_DES \<Rightarrow> do {
          st \<leftarrow> cachePassword env (lc_version c) (lc_password c) st;
          Some (say (AuthSend (CA_ACCOUNT (lc_username c) (st_cachedPassword st) 0)) c, st) }
      | ACM_RSA_AES \<Rightarrow>
          (let key = (case st_rsa st of Some key \<Rightarrow> key | None \<Rightarrow> generated)
           in Some (say (AuthSend (CA_RSA_PUBLIC_KEY (le_rsa_pem env key))) c, st\<lparr>st_rsa := Some key\<rparr>)))"

definition loginDisconnected :: "bool \<Rightarrow> client_auth \<Rightarrow> client_auth" where
  "loginDisconnected causedByRemote c =
     (if lc_normalDisconnect c = False \<or> \<not> lc_hasGame c then say (OnAuthDisconnected causedByRemote) c
      else c\<lparr>lc_normalDisconnect := False\<rparr>)"

section \<open>Packets of the authentication server\<close>

text \<open>The login of the account \<open>bora\<close> asks a web service for a code with the password as a cookie.\<close>

definition boraCookie :: "string \<Rightarrow> string" where
  "boraCookie password = take 127 (''SESSION='' @ takeWhile (\<lambda>c. c \<noteq> CHR 0x00) password @ '';'')"

definition onPacketAuthPasswordKey :: "('k, 'r) login_env \<Rightarrow> 'r client_statics \<Rightarrow> bytes \<Rightarrow> client_auth \<Rightarrow> client_auth" where
  "onPacketAuthPasswordKey env st data c =
     (let decrypted = (case st_rsa st of None \<Rightarrow> None | Some key \<Rightarrow> le_rsa_decrypt env key data);
          c = c\<lparr>lc_aesKey := (case decrypted of None \<Rightarrow> [] | Some key \<Rightarrow> key)\<rparr>
      in if decrypted = None \<or> length (lc_aesKey c) \<noteq> 32 then say AuthClose c
         else if lc_username c \<noteq> ''bora'' then
           (case le_aes_encrypt env (take 16 (lc_aesKey c)) (drop 16 (lc_aesKey c)) (map of_char (lc_password c)) of
              None \<Rightarrow> say AuthClose c
            | Some encryptedPassword \<Rightarrow>
                if length encryptedPassword > 516 then say AuthClose c
                else
                  let field = (if ver_ge (lc_version c) EPIC_9_6_7 then encryptedPassword
                               else blit 0 encryptedPassword (le_junk env))
                  in (say (AuthSend (CA_ACCOUNT (lc_username c) field (of_nat (length encryptedPassword)))) c)
                       \<lparr>lc_password := []\<rparr>)
         else (say (CurlQuery (boraCookie (lc_password c))) c)\<lparr>lc_password := []\<rparr>)"

datatype curl_result = CurlFailed | HttpStatus int | NoRedirect | Redirect string

text \<open>The answer of the web service. \<open>strstr\<close> finds the first \<open>code=\<close>; before version 9.6.7 the code is copied
  into the 516 bytes of the packet without a check of its length.\<close>

definition onCurlDone :: "curl_result \<Rightarrow> client_auth \<Rightarrow> client_auth option" where
  "onCurlDone result c =
     (case result of
        CurlFailed \<Rightarrow> Some (say AuthClose c)
      | HttpStatus _ \<Rightarrow> Some (say AuthClose c)
      | NoRedirect \<Rightarrow> Some (say AuthClose c)
      | Redirect location \<Rightarrow>
          (case memmem location ''code='' of
             None \<Rightarrow> Some (say AuthClose c)
           | Some i \<Rightarrow>
               let code = map of_char (drop (i + 5) location) @ [0] in
               if ver_ge (lc_version c) EPIC_9_6_7 then Some (say (AuthSend (CA_ACCOUNT ''bora'' code 0)) c)
               else if length code > 516 then None
               else Some (say (AuthSend (CA_ACCOUNT ''bora'' (code @ replicate (516 - length code) 0) 0)) c)))"

definition clientServerInfo :: "server_info \<Rightarrow> client_server_info" where
  "clientServerInfo s = \<lparr>ci_serverId = sv_idx s, ci_serverName = sv_name s,
     ci_serverScreenshotUrl = sv_screenshotUrl s, ci_serverIp = sv_ip s, ci_serverPort = sv_port s,
     ci_userRatio = sv_userRatio s\<rparr>"

text \<open>One round of the loop over the received servers.\<close>

definition keepServer :: "u16 \<Rightarrow> nat \<times> server_info \<Rightarrow> client_auth \<Rightarrow> client_auth" where
  "keepServer lastIdx s c =
     (let c = c\<lparr>lc_serverList := lc_serverList c @
        [\<lparr>sc_id = sv_idx (snd s), sc_ip = sv_ip (snd s), sc_port = ucast (sv_port (snd s))\<rparr>]\<rparr>
      in if sv_idx (snd s) = lastIdx then c\<lparr>lc_selectedServer := int (fst s)\<rparr> else c)"

definition onPacketServerList :: "u16 \<Rightarrow> server_info list \<Rightarrow> client_auth \<Rightarrow> client_auth" where
  "onPacketServerList lastIdx infos c =
     say (OnServerList (map clientServerInfo infos) lastIdx)
       (fold (keepServer lastIdx) (enumerate 0 infos) (c\<lparr>lc_serverList := [], lc_selectedServer := 0\<rparr>))"

definition serverAt :: "server_conn list \<Rightarrow> int \<Rightarrow> server_conn option" where
  "serverAt ss i = (if 0 \<le> i \<and> nat i < length ss then Some (ss ! nat i) else None)"

text \<open>The end of the lobby: connect to the game server, close this session, forget the list.
  \<open>serverList.at\<close> throws when there is no selected server.\<close>

definition moveToGame :: "client_auth \<Rightarrow> client_auth option" where
  "moveToGame c = do {
     s \<leftarrow> serverAt (lc_serverList c) (lc_selectedServer c);
     let c = (if lc_hasGame c then say (GameConnect (sc_ip s) (sc_port s)) c else c);
     Some ((say AuthClose (c\<lparr>lc_normalDisconnect := True\<rparr>))\<lparr>lc_serverList := []\<rparr>) }"

text \<open>The packet carries the key in clear or encrypted, by the version of the session.\<close>

definition onPacketSelectServerResult :: "('k, 'r) login_env \<Rightarrow> u64 \<Rightarrow> int \<Rightarrow> bytes \<Rightarrow> client_auth \<Rightarrow> client_auth option" where
  "onPacketSelectServerResult env one_time_key encrypted_data_size encrypted_data c =
     (case lc_cipherMethod c of
        ACM_DES \<Rightarrow> moveToGame (c\<lparr>lc_oneTimePassword := one_time_key\<rparr>)
      | ACM_RSA_AES \<Rightarrow>
          (let encryptedSize = (if encrypted_data_size < 0 \<or> encrypted_data_size > 24 then 24
                                else nat encrypted_data_size)
           in case le_aes_decrypt env (take 16 (lc_aesKey c)) (drop 16 (lc_aesKey c)) (take encryptedSize encrypted_data) of
                None \<Rightarrow> Some (say AuthClose c)
              | Some decrypted \<Rightarrow>
                  if length decrypted < 8 then Some (say AuthClose c)
                  else moveToGame (c\<lparr>lc_oneTimePassword := from_le (take 8 decrypted)\<rparr>)))"

definition onPacketAccountName :: "string \<Rightarrow> client_auth \<Rightarrow> client_auth" where
  "onPacketAccountName account c = c\<lparr>lc_username := account\<rparr>"

definition onPacketAuthResult :: "u16 \<Rightarrow> u16 \<Rightarrow> client_auth \<Rightarrow> client_auth" where
  "onPacketAuthResult request_msg_id result c =
     (if request_msg_id = TS_CA_ACCOUNT_ID then say (OnAuthResult result []) c else c)"

definition onPacketAuthStringResult :: "u16 \<Rightarrow> u16 \<Rightarrow> string \<Rightarrow> client_auth \<Rightarrow> client_auth" where
  "onPacketAuthStringResult request_msg_id result str c =
     (if request_msg_id = TS_CA_ACCOUNT_ID then say (OnAuthResult result str) c else c)"

text \<open>The dispatch of \<open>onPacketReceived\<close>, over packets that were parsed.\<close>

datatype auth_packet =
    P_AES_KEY_IV bytes
  | P_ACCOUNT_NAME string
  | P_RESULT u16 u16
  | P_RESULT_WITH_STRING u16 u16 string
  | P_SERVER_LIST u16 "server_info list"
  | P_SELECT_SERVER u64 int bytes
  | P_OTHER

fun authPacketReceived :: "('k, 'r) login_env \<Rightarrow> 'r client_statics \<Rightarrow> auth_packet \<Rightarrow> client_auth \<Rightarrow> client_auth option" where
  "authPacketReceived env st (P_AES_KEY_IV data) c = Some (onPacketAuthPasswordKey env st data c)"
| "authPacketReceived env st (P_ACCOUNT_NAME account) c = Some (onPacketAccountName account c)"
| "authPacketReceived env st (P_RESULT req res) c = Some (onPacketAuthResult req res c)"
| "authPacketReceived env st (P_RESULT_WITH_STRING req res s) c = Some (onPacketAuthStringResult req res s c)"
| "authPacketReceived env st (P_SERVER_LIST lst infos) c = Some (onPacketServerList lst infos c)"
| "authPacketReceived env st (P_SELECT_SERVER k n d) c = onPacketSelectServerResult env k n d c"
| "authPacketReceived env st P_OTHER c = Some c"

section \<open>The game session\<close>

definition reportText :: bytes where
  "reportText = [0x8D, 0x07, 0x72, 0xCA, 0x29, 0x47] @
     map of_char ''Windows (6.2.9200)|Intel(R) HD Graphics 4000Drv Version : 10.18.10.4425''"

definition gameSessionConnected :: "(nat \<Rightarrow> nat) \<Rightarrow> client_auth \<Rightarrow> client_auth" where
  "gameSessionConnected rnd c =
     (let c = say (GameSend (CS_VERSION (lc_gameVersion c)
                (rzhash_encrypt rnd (replicate 256 0) (version_payload (map of_char (lc_gameVersion c)))))) c;
          c = say (GameSend (CS_REPORT reportText)) c
      in say (GameSend (CS_ACCOUNT_WITH_AUTH (lc_username c) (lc_oneTimePassword c))) c)"

definition gameSessionDisconnected :: "bool \<Rightarrow> client_auth \<Rightarrow> client_auth" where
  "gameSessionDisconnected causedByRemote c =
     say (OnGameDisconnected causedByRemote) (say (OnGameStreamDisconnected causedByRemote) c)"

datatype game_packet_in = G_RESULT u16 u16 | G_RESULT_INVALID | G_OTHER

definition accountWithAuthId :: "packet_version_t \<Rightarrow> u16" where
  "accountWithAuthId version = (if ver_ge version EPIC_9_6_3 then 2405 else 2005)"

definition gameSessionPacket :: "game_packet_in \<Rightarrow> client_auth \<Rightarrow> client_auth" where
  "gameSessionPacket packet c =
     (case packet of
        G_RESULT request_msg_id result \<Rightarrow>
          if request_msg_id = accountWithAuthId (lc_version c) then
            (let c = say (OnGameResult result) c
             in if result = TS_RESULT_SUCCESS then say OnGameConnected c else c)
          else say OnGamePacketReceived c
      | G_RESULT_INVALID \<Rightarrow> say OnGamePacketReceived c
      | G_OTHER \<Rightarrow> say OnGamePacketReceived c)"

section \<open>Results out of turn\<close>

text \<open>The answer to a server choice is taken without a choice: with no list the lookup throws, as it does for the
  second of two answers in a row, because the first one has dropped the list.\<close>

lemma select_result_without_list:
  assumes "lc_cipherMethod c = ACM_DES" "lc_serverList c = []"
  shows "onPacketSelectServerResult env k n d c = None"
  using assms by (simp add: onPacketSelectServerResult_def moveToGame_def serverAt_def)

lemma select_result_twice:
  assumes "lc_cipherMethod c = ACM_DES" "onPacketSelectServerResult env k n d c = Some c'"
  shows "onPacketSelectServerResult env k n d c' = None"
proof -
  have "lc_serverList c' = []" "lc_cipherMethod c' = ACM_DES"
    using assms by (auto simp: onPacketSelectServerResult_def moveToGame_def say_def bind_eq_Some_conv Let_def)
  then show ?thesis by (rule select_result_without_list [rotated])
qed

text \<open>After a refused choice the remembered position is -1, and the next answer throws as well.\<close>

lemma select_result_after_refusal:
  assumes "lc_cipherMethod c = ACM_DES" "\<forall>s\<in>set (lc_serverList c). sc_id s \<noteq> i"
  shows "fst (selectServer i c) = False \<and> onPacketSelectServerResult env k n d (snd (selectServer i c)) = None"
proof -
  have "findServer i ss m = -1" if "\<forall>s\<in>set ss. sc_id s \<noteq> i" for ss m
    using that by (induction ss arbitrary: m) auto
  then show ?thesis using assms
    by (simp add: selectServer_def Let_def onPacketSelectServerResult_def moveToGame_def serverAt_def)
qed

text \<open>An empty password of the first session of a program is taken for the cached one: 61 zero bytes are sent, in
  clear.\<close>

lemma empty_password_not_encrypted:
  "cachePassword env v [] initialStatics = Some initialStatics"
  by (simp add: cachePassword_def initialStatics_def)

end
