(* ===== verification/VersionInterop.thy ===== *)
theory VersionInterop
  imports Packets AuthClient
begin

text \<open>
  The authentication server is not told a client's version: it detects one from the version string, the id of the
  key packet and the size of the account packet, and reads and writes every packet of the login in the version it
  detected. Here: when two versions read a description alike, and that the detected version does read the packets
  of the login like the client's own.
\<close>

section \<open>Descriptions that do not tell two versions apart\<close>

fun sameT :: "packet_version_t \<Rightarrow> packet_version_t \<Rightarrow> ftype \<Rightarrow> bool"
and sameF :: "packet_version_t \<Rightarrow> packet_version_t \<Rightarrow> field \<Rightarrow> bool"
and sameFs :: "packet_version_t \<Rightarrow> packet_version_t \<Rightarrow> field list \<Rightarrow> bool" where
  "sameT v w (PrimT p) = True"
| "sameT v w (StructT fs) = sameFs v w fs"
| "sameF v w (Simple t name) = sameT v w t"
| "sameF v w (ArrayF t name m) = sameT v w t"
| "sameF v w (DynArray t name) = sameT v w t"
| "sameF v w (EndArray t name) = sameT v w t"
| "sameF v w (When c f d) = (c v = c w \<and> sameF v w f)"
| "sameF v w f = True"
| "sameFs v w [] = True"
| "sameFs v w (f # fs) = (sameF v w f \<and> sameFs v w fs)"

definition samePacket :: "packet_version_t \<Rightarrow> packet_version_t \<Rightarrow> packet_decl \<Rightarrow> bool" where
  "samePacket v w d \<longleftrightarrow> sameFs v w (pd_fields d) \<and> getPacketId d v = getPacketId d w"

lemma same_des:
  "sameT v w t \<Longrightarrow> desT v name t old b = desT w name t old b"
  "sameF v w f \<Longrightarrow> desF v f ob (L, b) = desF w f ob (L, b)"
  "sameFs v w fs \<Longrightarrow> desFs v fs ob (L, b) = desFs w fs ob (L, b)"
proof (induction v w t and v w f and v w fs arbitrary: name old b and ob L b and ob L b
    rule: sameT_sameF_sameFs.induct)
  case (4 v w t nm m)
  then have "desT v nm t None = desT w nm t None" by (intro ext) simp
  then show ?case by (cases t) (simp_all del: desT.simps)
next
  case (5 v w t nm)
  then have "desT v nm t None = desT w nm t None" by (intro ext) simp
  then show ?case by (cases t) (simp_all del: desT.simps)
next
  case (6 v w t nm)
  then have "desT v nm t None = desT w nm t None" by (intro ext) simp
  then show ?case by (cases t) (simp_all del: desT.simps)
next
  case (9 v w f fs)
  then show ?case by (auto split: prod.splits)
qed (auto split: option.splits)

lemma samePacket_process: "samePacket v w d \<Longrightarrow> processPacket d v msg = processPacket d w msg"
  using same_des(3) [of v w "pd_fields d"] by (simp add: samePacket_def processPacket_def deserializePacket_def)

lemma samePacket_delivers:
  assumes "samePacket v w d" "sendable d v ob" "canonical d v ob" "\<And>n. length (fresh n) = n"
  shows "\<exists>msg. sendPacket fresh d v ob = Some (Inr msg) \<and> packet_ok msg \<and> processPacket d w msg = Some ob"
  using send_process [OF assms(2-4)] samePacket_process [OF assms(1)] by auto

lemma samePacket_sym: "samePacket v w d \<Longrightarrow> samePacket w v d"
proof -
  have "sameT v w t \<Longrightarrow> sameT w v t" "sameF v w f \<Longrightarrow> sameF w v f" "sameFs v w fs \<Longrightarrow> sameFs w v fs" for t f fs
    by (induction v w t and v w f and v w fs rule: sameT_sameF_sameFs.induct) auto
  then show "samePacket v w d \<Longrightarrow> samePacket w v d" by (simp add: samePacket_def)
qed

section \<open>The version the server settles on\<close>

text \<open>The three packets a client of the given version begins with, as far as the detection looks at them: the
  version string, the key packet since 8.1.1 and the account packet with its size.\<close>

definition accountSize :: "packet_version_t \<Rightarrow> u32" where
  "accountSize v = (if ver_ge v EPIC_5_2 then 129 else 58)"

definition negotiated :: "packet_version_t \<Rightarrow> client_session \<Rightarrow> client_session" where
  "negotiated v x =
     (let x = (preProcessPacketReceived 10001 27 x)\<lparr>cs_packetVersion := detectVersion (getDefaultAuthVersionString v)\<rparr>;
          x = (if ver_ge v EPIC_8_1_1_RSA then preProcessPacketReceived (rsaKeyId v) 283 x else x)
      in preProcessPacketReceived 10010 (accountSize v) x)"

definition loginPackets :: "packet_decl list" where
  "loginPackets = [TS_CA_VERSION, TS_CA_RSA_PUBLIC_KEY, TS_AC_AES_KEY_IV, TS_CA_ACCOUNT, TS_AC_RESULT,
     TS_CA_SERVER_LIST, TS_AC_SERVER_LIST, TS_CA_SELECT_SERVER, TS_AC_SELECT_SERVER]"


text \<open>Versions without flags, in the order of their releases.\<close>

lemma setMinimum_eval:
  "setMinimumPacketVersion EPIC_5_2 EPIC_2 = EPIC_5_2" "setMinimumPacketVersion EPIC_5_2 EPIC_4_1 = EPIC_5_2"
  "setMinimumPacketVersion EPIC_5_2 EPIC_8_1_1_RSA = EPIC_8_1_1_RSA" "setMinimumPacketVersion EPIC_5_2 EPIC_9_2 = EPIC_9_2"
  "setMinimumPacketVersion EPIC_5_2 EPIC_9_6_3 = EPIC_9_6_3" "setMinimumPacketVersion EPIC_5_2 EPIC_9_6_7 = EPIC_9_6_7"
  "setMinimumPacketVersion EPIC_8_1_1_RSA EPIC_4_1 = EPIC_8_1_1_RSA" "setMinimumPacketVersion EPIC_8_1_1_RSA EPIC_9_2 = EPIC_9_2"
  "setMinimumPacketVersion EPIC_8_1_1_RSA EPIC_9_6_3 = EPIC_9_6_3" "setMinimumPacketVersion EPIC_8_1_1_RSA EPIC_9_6_7 = EPIC_9_6_7"
  "setMinimumPacketVersion EPIC_9_6_3 EPIC_9_2 = EPIC_9_6_3" "setMinimumPacketVersion EPIC_9_6_3 EPIC_9_6_7 = EPIC_9_6_7"
  "setMinimumPacketVersion EPIC_8_1_1_RSA EPIC_8_1_1_RSA = EPIC_8_1_1_RSA"
  by code_simp+

lemma rsaKeyId_eval:
  "rsaKeyId EPIC_9_6_3 = 1071" "rsaKeyId EPIC_4_1 = 71" "rsaKeyId EPIC_9_2 = 71" "rsaKeyId EPIC_9_6_7 = 1071" "rsaKeyId EPIC_2 = 71"
  "rsaKeyId EPIC_8_1_1_RSA = 71"
  by code_simp+

definition settled :: "packet_version_t \<Rightarrow> packet_version_t" where
  "settled v = (if ver_ge v EPIC_9_6_6 then EPIC_9_6_7 else if ver_ge v EPIC_9_6_3 then EPIC_9_6_3
     else if ver_ge v EPIC_9_2 then EPIC_9_2 else if ver_ge v EPIC_8_1_1_RSA then EPIC_8_1_1_RSA
     else if ver_ge v EPIC_5_2 then EPIC_5_2 else if ver_ge v EPIC_4_1 then EPIC_4_1 else EPIC_2)"

lemma negotiated_settled:
  assumes "unat v < 2 ^ 24"
  shows "cs_packetVersion (negotiated v x) = settled v"
  using assms
  by (auto simp: negotiated_def settled_def preProcessPacketReceived_def setMinimum_def accountSize_def Let_def
      getDefaultAuthVersionString_def detect_default setMinimum_eval rsaKeyId_eval ver_ge_unat
      rsaKeyId_def [of v])


lemma settled_unat:
  assumes "unat v < 2 ^ 24"
  shows "unat (settled v) = (if 0x090606 \<le> unat v then 0x090607 else if 0x090603 \<le> unat v then 0x090603
     else if 0x090200 \<le> unat v then 0x090200 else if 0x080101 \<le> unat v then 0x080101
     else if 0x050200 \<le> unat v then 0x050200 else if 0x040100 \<le> unat v then 0x040100 else 0x020100)"
  using assms by (simp add: settled_def ver_ge_unat)

lemma settled_ge:
  assumes "unat v < 2 ^ 24" and "\<not> (0x090605 \<le> unat v \<and> unat v < 0x090607)"
    and "e \<in> {EPIC_4_1, EPIC_5_2, EPIC_8_1_1_RSA, EPIC_9_6_3, EPIC_9_6_5, EPIC_9_6_6, EPIC_9_6_7}"
  shows "ver_ge (settled v) e = ver_ge v e"
proof -
  define n where "n = unat v"
  have u: "unat (settled v) < 2 ^ 24" "unat e < 2 ^ 24"
    using assms(3) settled_unat [OF assms(1)] by (simp, auto)
  have e: "unat e \<in> {0x040100, 0x050200, 0x080101, 0x090603, 0x090605, 0x090606, 0x090607}" using assms(3) by auto
  have n: "\<not> (0x090605 \<le> n \<and> n < 0x090607)" using assms(2) by (simp add: n_def)
  have "unat e \<le> unat (settled v) \<longleftrightarrow> unat e \<le> n"
    using e n unfolding settled_unat [OF assms(1)] n_def [symmetric] by (elim insertE) (simp_all, linarith+)
  then show ?thesis by (simp only: ver_ge_unat [OF u] ver_ge_unat [OF assms(1) u(2)] n_def)
qed

lemma settled_same:
  assumes "unat v < 2 ^ 24" and "\<not> (0x090605 \<le> unat v \<and> unat v < 0x090607)" and "d \<in> set loginPackets"
  shows "samePacket v (settled v) d"
proof -
  have ge: "ver_ge (settled v) EPIC_4_1 = ver_ge v EPIC_4_1" "ver_ge (settled v) EPIC_5_2 = ver_ge v EPIC_5_2"
    "ver_ge (settled v) EPIC_8_1_1_RSA = ver_ge v EPIC_8_1_1_RSA" "ver_ge (settled v) EPIC_9_6_3 = ver_ge v EPIC_9_6_3"
    "ver_ge (settled v) EPIC_9_6_5 = ver_ge v EPIC_9_6_5" "ver_ge (settled v) EPIC_9_6_6 = ver_ge v EPIC_9_6_6"
    "ver_ge (settled v) EPIC_9_6_7 = ver_ge v EPIC_9_6_7"
    by (rule settled_ge [OF assms(1,2)], simp)+
  show ?thesis
    using assms(3)
    by (auto simp: loginPackets_def samePacket_def TS_CA_VERSION_def TS_CA_SERVER_LIST_def TS_AC_RESULT_def
        TS_CA_RSA_PUBLIC_KEY_def TS_AC_AES_KEY_IV_def TS_AC_SELECT_SERVER_def TS_CA_SELECT_SERVER_def
        TS_AC_SERVER_LIST_def TS_SERVER_INFO_DEF_def TS_CA_ACCOUNT_def TS_ACCOUNT_PASSWORD_DES_DEF_def
        TS_ACCOUNT_PASSWORD_AES_DEF_def TS_ACCOUNT_ADDITIONAL_INFO_DEF_def getPacketId_def ver_lt_ge ge)
qed




text \<open>Version 9.6.5 is taken for 9.6.3, whose server list has 16-bit indices: a list that the server sends with no
  server in it is already not a packet of the client's version, and the login cannot go on.\<close>

lemma epic_965_list_unreadable:
  "cs_packetVersion (negotiated EPIC_9_6_5 x) = EPIC_9_6_3 \<and>
   processPacket TS_AC_SERVER_LIST EPIC_9_6_5 [11, 0, 0, 0, 38, 39, 88, 3, 0, 0, 0] = None"
proof
  show "cs_packetVersion (negotiated EPIC_9_6_5 x) = EPIC_9_6_3"
    by (simp add: negotiated_settled settled_def ver_ge_unat)
  show "processPacket TS_AC_SERVER_LIST EPIC_9_6_5 [11, 0, 0, 0, 38, 39, 88, 3, 0, 0, 0] = None"
    by (simp add: processPacket_def deserializePacket_def TS_AC_SERVER_LIST_def ver_lt_ge demo_since split_beta Let_def
        readMessageHeader_def discardBytes_def readPrim_def readDynArrayObj_def checkAvailableBuffer_def newMessageBuffer_def
        mbGetSize_def advance_def peekBytes_def primValue_def checkPacketFinalSize_def take_Cons')
qed

end
