(* ===== verification/LoginSystem.thy ===== *)
theory LoginSystem
  imports ClientLogin AuthSpec VersionInterop
begin

text \<open>
  A client, the authentication server, its database and a game server together. The connection delivers the packets
  of each side in order; what a packet carries in the client's version is what the other side parses. The state
  holds the session of the client, the server, and how many packets of either direction have been delivered.
\<close>

section \<open>The composed system\<close>

record ('k, 'r) login_params =
  lp_cfg :: auth_config
  lp_env :: client_env
  lp_client :: "('k, 'r) login_env"
  lp_db :: "'k db_env"
  lp_query :: "string \<Rightarrow> string \<Rightarrow> account_row list option"
  lp_session :: nat
  lp_game :: nat

record 'r login_system =
  ls_client :: client_auth
  ls_statics :: "'r client_statics"
  ls_server :: auth_state
  ls_up :: nat
  ls_down :: nat

fun authSends :: "client_out list \<Rightarrow> client_packet list" where
  "authSends [] = []"
| "authSends (AuthSend m # xs) = m # authSends xs"
| "authSends (_ # xs) = authSends xs"

fun gameLogin :: "client_out \<Rightarrow> (string \<times> u64) list" where
  "gameLogin (GameSend (CS_ACCOUNT_WITH_AUTH account key)) = [(account, key)]"
| "gameLogin _ = []"

definition gameLogins :: "client_out list \<Rightarrow> (string \<times> u64) list" where
  "gameLogins xs = concat (map gameLogin xs)"

fun sentTo :: "nat \<Rightarrow> out list \<Rightarrow> client_msg list" where
  "sentTo s [] = []"
| "sentTo s (ToClient t m # xs) = (if t = s then m # sentTo s xs else sentTo s xs)"
| "sentTo s (_ # xs) = sentTo s xs"

text \<open>The account field of the packet holds this many characters and a NUL; before 5.2 only 32 bytes of the
  password are sent, the rest of the member is 0 at the receiver.\<close>

definition accountChars :: "packet_version_t \<Rightarrow> int" where
  "accountChars v = (if ver_ge v EPIC_9_6_6 then 55 else if ver_ge v EPIC_5_2 then 60 else 18)"

definition wirePacket :: "packet_version_t \<Rightarrow> client_packet \<Rightarrow> client_packet" where
  "wirePacket v m =
     (case m of
        CA_ACCOUNT a p n \<Rightarrow>
          CA_ACCOUNT (convertToString a (accountChars v)) (if ver_ge v EPIC_5_2 then p else take 32 p @ replicate 29 0) n
      | _ \<Rightarrow> m)"

fun packetIdent :: "packet_version_t \<Rightarrow> client_packet \<Rightarrow> u16 \<times> u32" where
  "packetIdent v (CA_VERSION s) = (10001, 27)"
| "packetIdent v (CA_RSA_PUBLIC_KEY k) = (rsaKeyId v, 11 + of_nat (length k))"
| "packetIdent v (CA_ACCOUNT a p n) = (10010, accountSize v)"
| "packetIdent v (CA_IMBC_ACCOUNT a p n) = (10012, 79)"
| "packetIdent v CA_SERVER_LIST = (10021, 7)"
| "packetIdent v (CA_SELECT_SERVER i) = (10023, if ver_ge v EPIC_9_6_5 then 11 else 9)"
| "packetIdent v _ = (9999, 7)"

text \<open>What the client parses. The last login server is lost in the versions before 9.6.5, whose two lines for it
  end with the default of the second.\<close>

fun wireAnswer :: "packet_version_t \<Rightarrow> client_msg \<Rightarrow> auth_packet" where
  "wireAnswer v (AC_RESULT req res flag) = P_RESULT req res"
| "wireAnswer v (SC_RESULT req res flag) = P_OTHER"
| "wireAnswer v (AC_AES_KEY_IV block) = P_AES_KEY_IV block"
| "wireAnswer v (AC_SERVER_LIST lst infos) = P_SERVER_LIST (if ver_ge v EPIC_9_6_5 then lst else 1) infos"
| "wireAnswer v (AC_SELECT_SERVER (OneTimeKey k)) = P_SELECT_SERVER k 0 (replicate 24 0)"
| "wireAnswer v (AC_SELECT_SERVER (EncryptedKey b)) = P_SELECT_SERVER 0 16 (take 24 (b @ replicate 24 0))"

datatype 'r login_event =
    TcpConnected 'r
  | Up bytes "u64 list"
  | QueryDone
  | Down
  | AskServerList
  | ChooseServer u16
  | GameTcpConnected "nat \<Rightarrow> nat"
  | GameServerAsks int

text \<open>A step: what libuv, the database and the two programs do. Delivering when nothing is on the way does
  nothing.\<close>

fun login_step :: "('k, 'r) login_params \<Rightarrow> 'r login_event \<Rightarrow> 'r login_system \<Rightarrow> 'r login_system option" where
  "login_step P (TcpConnected key) S = do {
     (c, statics) \<leftarrow> loginConnected (lp_client P) key (ls_client S) (ls_statics S);
     Some (S\<lparr>ls_client := c, ls_statics := statics\<rparr>) }"
| "login_step P (Up key rands) S =
     (let v = lc_version (ls_client S) in
      case drop (ls_up S) (authSends (lc_out (ls_client S))) of
        [] \<Rightarrow> Some S
      | m # ms \<Rightarrow> do {
          st \<leftarrow> clientPacketReceived (lp_cfg P) (lp_env P) key rands (lp_session P) (fst (packetIdent v m))
            (snd (packetIdent v m)) (wirePacket v m) (ls_server S);
          Some (S\<lparr>ls_server := st, ls_up := ls_up S + 1\<rparr>) })"
| "login_step P QueryDone S = do {
     x \<leftarrow> clientSessions (ls_server S) (lp_session P);
     (case cs_dbQuery x of
        [] \<Rightarrow> Some S
      | input # rest \<Rightarrow> do {
          results \<leftarrow> accountResults (lp_db P) (lp_query P) input;
          st \<leftarrow> accountQueryDone (lp_cfg P) (lp_session P) results (ls_server S);
          Some (S\<lparr>ls_server := st\<rparr>) }) }"
| "login_step P Down S =
     (case drop (ls_down S) (sentTo (lp_session P) (sent (ls_server S))) of
        [] \<Rightarrow> Some S
      | m # ms \<Rightarrow> do {
          c \<leftarrow> authPacketReceived (lp_client P) (ls_statics S) (wireAnswer (lc_version (ls_client S)) m) (ls_client S);
          Some (S\<lparr>ls_client := c, ls_down := ls_down S + 1\<rparr>) })"
| "login_step P AskServerList S = Some (S\<lparr>ls_client := retreiveServerList (ls_client S)\<rparr>)"
| "login_step P (ChooseServer i) S = Some (S\<lparr>ls_client := snd (selectServer i (ls_client S))\<rparr>)"
| "login_step P (GameTcpConnected rnd) S = Some (S\<lparr>ls_client := gameSessionConnected rnd (ls_client S)\<rparr>)"
| "login_step P (GameServerAsks now) S =
     (case rev (gameLogins (lc_out (ls_client S))) of
        [] \<Rightarrow> Some S
      | (account, key) # _ \<Rightarrow> do {
          st \<leftarrow> onClientLogin now (lp_game P) account key (ls_server S);
          Some (S\<lparr>ls_server := st\<rparr>) })"

lemma authSends_append [simp]: "authSends (xs @ ys) = authSends xs @ authSends ys"
  by (induction xs rule: authSends.induct) auto

lemma gameLogins_append [simp]: "gameLogins (xs @ ys) = gameLogins xs @ gameLogins ys"
  by (simp add: gameLogins_def)

lemma sentTo_append [simp]: "sentTo s (xs @ ys) = sentTo s xs @ sentTo s ys"
  by (induction s xs rule: sentTo.induct) auto

lemma say_simps [simp]:
  "lc_out (say y c) = lc_out c @ [y]" "lc_version (say y c) = lc_version c" "lc_hasGame (say y c) = lc_hasGame c"
  "lc_cipherMethod (say y c) = lc_cipherMethod c" "lc_username (say y c) = lc_username c"
  "lc_password (say y c) = lc_password c" "lc_aesKey (say y c) = lc_aesKey c"
  "lc_serverList (say y c) = lc_serverList c" "lc_selectedServer (say y c) = lc_selectedServer c"
  "lc_oneTimePassword (say y c) = lc_oneTimePassword c" "lc_normalDisconnect (say y c) = lc_normalDisconnect c"
  "lc_authVersion (say y c) = lc_authVersion c" "lc_gameVersion (say y c) = lc_gameVersion c"
  by (simp_all add: say_def)

section \<open>The password on its way\<close>

lemma desBlocks_prefix:
  assumes "\<And>x. length x = 8 \<Longrightarrow> length (f x) = 8"
  shows "m \<le> n \<Longrightarrow> 8 * n \<le> length buf \<Longrightarrow> take (8 * m) (desBlocks f n buf) = desBlocks f m (take (8 * m) buf)"
proof (induction m arbitrary: n buf)
  case (Suc m)
  then obtain k where k: "n = Suc k" "m \<le> k" by (cases n) auto
  have "take (8 * m) (desBlocks f k (drop 8 buf)) = desBlocks f m (take (8 * m) (drop 8 buf))"
    using Suc k by simp
  moreover have "take 8 (take (8 * Suc m) buf) = take 8 buf" "drop 8 (take (8 * Suc m) buf) = take (8 * m) (drop 8 buf)"
    by (simp_all add: drop_take)
  moreover have "length (f (take 8 buf)) = 8" using Suc.prems k by (simp add: assms)
  ultimately show ?case using k by simp
qed simp

text \<open>What the cache of the client may hold: nothing yet, or a buffer whose first four blocks decrypt to the cached
  password and its terminator.\<close>

definition cacheHolds :: "('k, 'r) login_env \<Rightarrow> 'k \<Rightarrow> string \<Rightarrow> bytes \<Rightarrow> bool" where
  "cacheHolds env k password cached \<longleftrightarrow>
     (\<exists>rest. desBlocks (des_ecb (le_des env) False k) 4 (take 32 cached) = map of_char password @ 0 # rest)"

definition shortPassword :: "string \<Rightarrow> bool" where
  "shortPassword password \<longleftrightarrow> password \<noteq> [] \<and> length password \<le> 31 \<and> CHR 0x00 \<notin> set password"

definition cacheOk :: "('k, 'r) login_env \<Rightarrow> 'k \<Rightarrow> 'r client_statics \<Rightarrow> bool" where
  "cacheOk env k st \<longleftrightarrow> length (st_cachedPassword st) = 61 \<and>
     (shortPassword (st_cachedPasswordStr st) \<longrightarrow> cacheHolds env k (st_cachedPasswordStr st) (st_cachedPassword st))"

lemma cacheOk_init: "cacheOk env k initialStatics"
  by (simp add: cacheOk_def initialStatics_def shortPassword_def)

lemma cachePassword_keeps:
  assumes "cacheOk env k st" "des_ok (le_des env)" "desInit (le_des env) desCipherKey = Some k"
    and "cachePassword env v password st = Some st'"
  shows "cacheOk env k st' \<and> st_cachedPasswordStr st' = password"
proof (cases "st_cachedPasswordStr st = password")
  case True
  then show ?thesis using assms(1,4) by (auto simp: cachePassword_def)
next
  case False
  define src where "src = (map of_char (takeWhile (\<lambda>c. c \<noteq> CHR 0x00) password) @ [0] :: bytes)"
  define raw where "raw = blit 0 src (st_cachedPassword st)"
  define m where "m = (if ver_ge v EPIC_5_2 then 7 else 4 :: nat)"
  let ?f = "des_ecb (le_des env) True k" and ?g = "des_ecb (le_des env) False k"
  have len: "\<And>x. length x = 8 \<Longrightarrow> length (?f x) = 8" "\<And>x. length x = 8 \<Longrightarrow> length (?g x) = 8"
    and inv: "\<And>x. length x = 8 \<Longrightarrow> ?g (?f x) = x" using assms(2) by (auto simp: des_ok_def)
  have fits: "length src \<le> 61" using assms(4) False by (auto simp: cachePassword_def src_def Let_def split: if_splits)
  have raw: "length raw = 61" using fits assms(1) length_blit [of 0 src "st_cachedPassword st"]
    by (simp add: raw_def cacheOk_def)
  have st': "st' = st\<lparr>st_cachedPassword := desBlocks ?f m raw, st_cachedPasswordStr := password\<rparr>"
    using assms(3,4) False fits raw
    by (auto simp: cachePassword_def src_def [symmetric] raw_def [symmetric] Let_def desCrypt_def m_def split: if_splits)
  have lc: "length (desBlocks ?f m raw) = 61"
    using desBlocks_length [of ?f m raw] len raw by (simp add: m_def)
  have "cacheHolds env k password (desBlocks ?f m raw)" if short: "shortPassword password"
  proof -
    have src: "src = map of_char password @ [0]" "length src \<le> 32"
      using short by (simp_all add: src_def shortPassword_def takeWhile_neq_id)
    have "desBlocks ?g 4 (take 32 (desBlocks ?f m raw)) = take (8 * 4) (desBlocks ?g 4 (desBlocks ?f m raw))"
      using desBlocks_prefix [of ?g 4 4 "desBlocks ?f m raw"] len(2) lc by simp
    also have "\<dots> = take (8 * 4) raw"
      by (rule desBlocks_inverse [OF len(1) inv]) (simp_all add: m_def raw)
    also have "\<dots> = src @ take (32 - length src) (drop (length src) (st_cachedPassword st))"
      using src(2) by (simp add: raw_def blit_def)
    finally show ?thesis using src(1) by (simp add: cacheHolds_def)
  qed
  then show ?thesis using lc by (simp add: st' cacheOk_def)
qed

lemma cachePassword_defined:
  assumes "cacheOk env k st" "desInit (le_des env) desCipherKey = Some k" "shortPassword password"
  shows "\<exists>st'. cachePassword env v password st = Some st'"
proof -
  have "length (takeWhile (\<lambda>c. c \<noteq> CHR 0x00) password) \<le> 31"
    using assms(3) by (auto simp: shortPassword_def intro: order_trans [OF length_takeWhile_le])
  then show ?thesis using assms(1,2)
    by (auto simp: cachePassword_def Let_def desCrypt_def cacheOk_def length_blit)
qed

lemma of_char_zero: "(of_char c :: u8) = 0 \<longleftrightarrow> c = CHR 0x00" "0 = (of_char c :: u8) \<longleftrightarrow> c = CHR 0x00"
proof -
  have "c = CHR 0x00" if "(of_char c :: u8) = 0"
  proof -
    have "unat (word_of_nat (of_char c) :: u8) = 0" by (simp only: of_nat_of_char that unsigned_0)
    then have "(of_char c :: nat) = of_char (CHR 0x00)"
      using nat_of_char_less_256 [of c] by (simp only: unat_of_nat take_bit_nat_eq_self) simp
    then show ?thesis by (simp only: of_char_eq_iff)
  qed
  then show "(of_char c :: u8) = 0 \<longleftrightarrow> c = CHR 0x00" "0 = (of_char c :: u8) \<longleftrightarrow> c = CHR 0x00" by auto
qed

text \<open>What the server makes of the password bytes.\<close>

lemma plainPassword_cached:
  assumes "cacheHolds env k password cached" "length cached = 61" "des_ok (le_des env)" "shortPassword password"
    and "dbe_des db = le_des env" "desInit (le_des env) (dbe_desKey db) = Some k"
    and "in_cryptMode input = EM_DES"
    and "in_cryptedPassword input = (if ver_ge v EPIC_5_2 then cached else take 32 cached @ replicate 29 0)"
  shows "\<exists>p. plainPassword db input = Some (Some p) \<and> cBytes p = map of_char password"
proof -
  let ?g = "des_ecb (le_des env) False k" and ?c = "in_cryptedPassword input"
  have len: "\<And>x. length x = 8 \<Longrightarrow> length (?g x) = 8" using assms(3) by (auto simp: des_ok_def)
  have c: "length ?c = 61" "take 32 ?c = take 32 cached" using assms(2,8) by simp_all
  have "take (8 * 4) (desBlocks ?g 7 ?c) = desBlocks ?g 4 (take (8 * 4) ?c)"
    by (rule desBlocks_prefix [OF len]) (simp_all add: c)
  then obtain rest where "take 32 (desBlocks ?g 7 ?c) = map of_char password @ 0 # rest"
    using assms(1) c(2) by (auto simp: cacheHolds_def)
  then have "desBlocks ?g 7 ?c = map of_char password @ 0 # rest @ drop 32 (desBlocks ?g 7 ?c)"
    by (metis append_Cons append_assoc append_take_drop_id)
  moreover have "0 \<notin> set (map of_char password :: bytes)"
    using assms(4) by (auto simp: shortPassword_def of_char_zero)
  ultimately have "cBytes (desBlocks ?g 7 ?c) = map of_char password"
    using cBytes_terminated by metis
  then show ?thesis
    using assms(5-7) c(1) by (simp add: plainPassword_def Let_def desCrypt_def)
qed

section \<open>The server's part\<close>

lemma default_no_request:
  "take 4 (getDefaultAuthVersionString v) \<noteq> ''TEST''" "take 4 (getDefaultAuthVersionString v) \<noteq> ''INFO''"
  by (simp_all add: getDefaultAuthVersionString_def)

lemma emit_emit_sent [simp]: "sentTo s (sent (emit y st)) = sentTo s (sent st) @ sentTo s [y]"
  by (simp add: emit_def)

text \<open>The version string and the account packet of a client before 8.1.1 start one query, in the version settled on.\<close>

lemma server_takes_account:
  assumes "clientSessions st s = Some x" "cs_dbQuery x = []" "unat v < 2 ^ 24" "\<not> ver_ge v EPIC_8_1_1_RSA"
  shows "\<exists>st1. clientPacketReceived cfg env k1 r1 s 10001 27 (CA_VERSION (getDefaultAuthVersionString v)) st = Some st1 \<and>
    clientPacketReceived cfg env k2 r2 s 10010 (accountSize v) (CA_ACCOUNT a p n) st1 = Some
      (st\<lparr>clientSessions := (clientSessions st)(s \<mapsto>
         (negotiated v x)\<lparr>cs_dbQuery := [accountInput (negotiated v x) a EM_DES p]\<rparr>)\<rparr>)"
proof -
  have "settled v \<in> {EPIC_2, EPIC_4_1, EPIC_5_2}"
    using assms(3,4) by (auto simp: settled_def ver_ge_unat)
  then have old: "\<not> ver_ge (settled v) EPIC_8_1_1_RSA" "\<not> ver_ge (settled v) EPIC_9_6_7"
    by (auto simp: ver_ge_unat)
  define y where "y = (preProcessPacketReceived 10001 27 x)\<lparr>cs_packetVersion := detectVersion (getDefaultAuthVersionString v)\<rparr>"
  define st1 where "st1 = st\<lparr>clientSessions := (clientSessions st)(s \<mapsto> y)\<rparr>"
  have 1: "clientPacketReceived cfg env k1 r1 s 10001 27 (CA_VERSION (getDefaultAuthVersionString v)) st = Some st1"
    using assms(1) default_no_request [of v]
    by (simp add: clientPacketReceived_def onVersion_def modClientSession_def st1_def y_def)
  have n: "preProcessPacketReceived 10010 (accountSize v) y = negotiated v x"
    using assms(4) by (simp add: negotiated_def y_def Let_def)
  have q: "cs_dbQuery (negotiated v x) = []"
    using assms(2,4) by (simp add: negotiated_def Let_def preProcess_keeps)
  have "clientPacketReceived cfg env k2 r2 s 10010 (accountSize v) (CA_ACCOUNT a p n) st1 = Some
      (st\<lparr>clientSessions := (clientSessions st)(s \<mapsto>
         (negotiated v x)\<lparr>cs_dbQuery := [accountInput (negotiated v x) a EM_DES p]\<rparr>)\<rparr>)" for n
    using q old by (simp add: clientPacketReceived_def modClientSession_def st1_def n onAccount_def Let_def
        negotiated_settled [OF assms(3)])
  then show ?thesis using 1 by blast
qed

lemma negotiated_keeps [simp]:
  "cs_clientData (negotiated v x) = cs_clientData x" "cs_dbQuery (negotiated v x) = cs_dbQuery x"
  "cs_remoteIp (negotiated v x) = cs_remoteIp x" "cs_serverIdxOffset (negotiated v x) = cs_serverIdxOffset x"
  by (simp_all add: negotiated_def Let_def preProcessPacketReceived_def setMinimum_def)

text \<open>The query of an account with the right password.\<close>

definition passwordHash :: "'k db_env \<Rightarrow> string \<Rightarrow> string" where
  "passwordHash db password = setPasswordMD5 (dbe_md5 db (dbe_salt db @ map of_char password))"

lemma accountResults_hash:
  assumes "plainPassword db input = Some (Some p)" "cBytes p = map of_char password"
    and "dbe_restrictCharacters db \<longrightarrow> isAccountNameValid (in_account input)"
    and "query (in_account input) (passwordHash db password) = Some rows"
  shows "accountResults db query input =
    Some (map (\<lambda>r. auth_output.truncate (onRowDone (passwordHash db password) r)) (take 1 rows))"
  using assms by (auto simp: accountResults_def onPreProcess_def decryptPassword_def passwordHash_def)

lemma truncate_simps [simp]:
  "out_ok (auth_output.truncate r) = out_ok r" "out_account_id (auth_output.truncate r) = out_account_id r"
  "out_auth_ok (auth_output.truncate r) = out_auth_ok r" "out_block (auth_output.truncate r) = out_block r"
  "out_server_idx_offset (auth_output.truncate r) = out_server_idx_offset r"
  "out_last_login_server_idx (auth_output.truncate r) = out_last_login_server_idx r"
  by (simp_all add: auth_output.truncate_def)

lemma onRowDone_simps [simp]:
  "out_account_id (onRowDone h r) = out_account_id r" "out_auth_ok (onRowDone h r) = out_auth_ok r"
  "out_block (onRowDone h r) = out_block r" "out_server_idx_offset (onRowDone h r) = out_server_idx_offset r"
  by (simp_all add: onRowDone_def)

lemma server_registers:
  assumes "auth_inv st" "clientSessions st s = Some x" "cs_dbQuery x = [input]" "cs_clientData x = None"
    and "out_ok row" "out_auth_ok row" "\<not> out_block row" "\<not> accountInUse (out_account_id row) (in_account input) st"
  shows "\<exists>st' p c y. accountQueryDone cfg s [row] st = Some st' \<and> auth_inv st' \<and>
    clientSessions st' s = Some y \<and> cs_clientData y = Some p \<and> cs_dbQuery y = [] \<and>
    cs_packetVersion y = cs_packetVersion x \<and> cs_serverIdxOffset y = out_server_idx_offset row \<and>
    clientHeap st' p = Some c \<and> cd_account c = in_account input \<and> \<not> cd_inGame c \<and>
    getClient (in_account input) st' = Some p \<and> gameSessions st' = gameSessions st \<and> gameHeap st' = gameHeap st \<and>
    servers st' = servers st \<and> sent st' = sent st @ [loginResult s 0 1]"
proof -
  obtain st' where st': "accountQueryDone cfg s [row] st = Some st'" "auth_inv st'"
    using accountQueryDone_ok [OF assms(1,2)] assms(3) by fastforce
  let ?st = "st\<lparr>clientSessions := (clientSessions st)(s \<mapsto> x\<lparr>cs_dbQuery := []\<rparr>)\<rparr>"
  have addr: "addr_inv ?st" using auth_invD(5) [OF assms(1)] assms(2) by (auto simp: addr_inv_def)
  have free: "um_find (connectedClients st) (out_account_id row) = None"
      "um_find (connectedClientsByName st) (toLower (in_account input)) = None"
    using assms(8) accountInUse_find [OF auth_invD(1) [OF assms(1)]] by simp_all
  have "st' = emit (loginResult s 0 1)
      ((registered ?st (nextAddr st) (added cfg (Some s) (in_account input) (out_account_id row) (out_age row)
         (out_event_code row) (out_pcbang row) (cs_remoteIp x)))
       \<lparr>clientSessions := (clientSessions st)(s \<mapsto> x\<lparr>cs_dbQuery := [], cs_clientData := Some (nextAddr st),
         cs_lastLoginServerId := out_last_login_server_idx row, cs_serverIdxOffset := out_server_idx_offset row\<rparr>)\<rparr>)"
    using st'(1) assms(2-7) free
    by (simp add: accountQueryDone_def modClientSession_def clientAuthResult_def tryAddClient_eq [OF addr])
  then show ?thesis using st' free by (simp add: getClient_def um.insert_new)
qed

lemma preProcess_other:
  "i \<notin> {71, 1071, 10010, 10012} \<Longrightarrow> preProcessPacketReceived i n x = x"
  by (simp add: preProcessPacketReceived_def rsaKeyId_def Let_def)

lemma received_other:
  assumes "clientSessions st s = Some x" "i \<notin> {71, 1071, 10010, 10012}"
  shows "clientPacketReceived cfg env key rands s i n packet st = clientPacketHandler cfg env key rands s i packet st"
proof -
  have "modClientSession s (preProcessPacketReceived i n) st = Some st"
    using assms by (simp add: modClientSession_def preProcess_other fun_upd_idem)
  then show ?thesis by (simp add: clientPacketReceived_def)
qed

lemma list_all2_left: "list_all2 P xs ys \<Longrightarrow> x \<in> set xs \<Longrightarrow> \<exists>y\<in>set ys. P x y"
  by (induction rule: list_all2_induct) auto

lemma list_all2_right: "list_all2 P xs ys \<Longrightarrow> y \<in> set ys \<Longrightarrow> \<exists>x\<in>set xs. P x y"
  by (induction rule: list_all2_induct) auto

text \<open>The list shows the server to a client whose offset allows it, and only it under its index.\<close>

lemma server_lists:
  assumes "auth_inv st" "clientSessions st s = Some x" "cs_clientData x = Some p" "cfg_maxPlayers cfg \<noteq> 0"
    and "gameHeap st g = Some d" "serverVisible cfg x d"
  shows "\<exists>l. clientPacketReceived cfg env key rands s 10021 n CA_SERVER_LIST st =
      Some (emit (ToClient s (AC_SERVER_LIST (cs_lastLoginServerId x) l)) st) \<and>
    (\<exists>i\<in>set l. sv_idx i = gd_serverIdx d) \<and>
    (\<forall>i\<in>set l. sv_idx i = gd_serverIdx d \<longrightarrow> sv_ip i = gd_serverIp d \<and> sv_port i = gd_serverPort d)"
proof -
  note reg = auth_invD(1) [OF assms(1)]
  have wf: "um_wf (servers st)" using reg by (simp add: reg_inv_def)
  have alive: "\<exists>e. gameHeap st h = Some e \<and> gd_serverIdx e = i" if "(i, h) \<in> set (servers st)" for i h
    using find_server_inv [OF reg um_mem_find [OF wf that]] .
  then have "\<And>i h. (i, h) \<in> set (servers st) \<Longrightarrow> gameHeap st h \<noteq> None" by force
  then obtain l where l: "serverListLoop cfg x (servers st) st = Some l"
    "list_all2 (\<lambda>g i. shownAs cfg (the (gameHeap st g)) i)
      (filter (\<lambda>g. case gameHeap st g of None \<Rightarrow> False | Some d \<Rightarrow> serverVisible cfg x d) (map snd (servers st))) l"
    using serverListLoop_spec [OF assms(4), of "servers st" st x] by blast
  have find: "um_find (servers st) (gd_serverIdx d) = Some g" using reg assms(5) by (auto simp: reg_inv_def)
  have "g \<in> set (map snd (servers st))" using um_find_mem [OF find] by force
  then have "g \<in> set (filter (\<lambda>g. case gameHeap st g of None \<Rightarrow> False | Some d \<Rightarrow> serverVisible cfg x d) (map snd (servers st)))"
    using assms(5,6) by simp
  then obtain i where "i \<in> set l" "shownAs cfg d i"
    using list_all2_left [OF l(2), of g] assms(5) by auto
  then have a: "\<exists>i\<in>set l. sv_idx i = gd_serverIdx d" by (auto simp: shownAs_def)
  have b: "sv_ip i = gd_serverIp d \<and> sv_port i = gd_serverPort d" if i: "i \<in> set l" "sv_idx i = gd_serverIdx d" for i
  proof -
    obtain h where h: "h \<in> set (map snd (servers st))" "shownAs cfg (the (gameHeap st h)) i"
      using list_all2_right [OF l(2) i(1)] by auto
    then obtain j where j: "(j, h) \<in> set (servers st)" by auto
    obtain e where e: "gameHeap st h = Some e" "gd_serverIdx e = j" using alive [OF j] by blast
    then have "j = gd_serverIdx d" using h(2) i(2) by (simp add: shownAs_def)
    then have "h = g" using um_mem_find [OF wf j] find by simp
    then show ?thesis using h(2) e assms(5) by (simp add: shownAs_def)
  qed
  show ?thesis
    using received_other [OF assms(2), of 10021 cfg env key rands n CA_SERVER_LIST] assms(2,3) l(1) a b
    by (intro exI [of _ l]) (simp add: onServerList_def)
qed

lemma server_selects:
  assumes "auth_inv st" "clientSessions st s = Some x" "cs_clientData x = Some p" "clientHeap st p = Some c"
    and "gameHeap st g = Some d" "\<not> ver_ge (cs_packetVersion x) EPIC_8_1_1_RSA"
  shows "\<exists>st'. clientPacketReceived cfg env key rands s 10023 n (CA_SELECT_SERVER (ucast (gd_serverIdx d))) st = Some st' \<and>
    auth_inv st' \<and> clientHeap st' p = Some (c\<lparr>cd_oneTimePassword := prod_list (take 4 rands), cd_client := None, cd_server := Some g\<rparr>) \<and>
    connectedClientsByName st' = connectedClientsByName st \<and> gameSessions st' = gameSessions st \<and> gameHeap st' = gameHeap st \<and>
    sent st' = sent st @ [UpdateLastServerIdx (cd_accountId c) (gd_serverIdx d),
      ToClient s (AC_SELECT_SERVER (OneTimeKey (prod_list (take 4 rands))))]"
proof -
  note reg = auth_invD(1) [OF assms(1)]
  have find: "um_find (servers st) (gd_serverIdx d) = Some g" using reg assms(5) by (auto simp: reg_inv_def)
  have idx: "(ucast (ucast (gd_serverIdx d) :: u32) :: u16) = gd_serverIdx d"
    by (rule bit_word_eqI) (simp add: bit_ucast_iff)
  obtain st' where st': "onSelectServer (env_aes env) rands s (ucast (gd_serverIdx d)) st = Some st'" "auth_inv st'"
    using onSelectServer_ok [OF assms(1,2)] by blast
  have "clientPacketReceived cfg env key rands s 10023 n (CA_SELECT_SERVER (ucast (gd_serverIdx d))) st = Some st'"
    using received_other [OF assms(2), of 10023] st'(1) by simp
  moreover have "st' = emit (ToClient s (AC_SELECT_SERVER (OneTimeKey (prod_list (take 4 rands)))))
      ((emit (UpdateLastServerIdx (cd_accountId c) (gd_serverIdx d)) st)
       \<lparr>clientHeap := (clientHeap st)(p \<mapsto> c\<lparr>cd_oneTimePassword := prod_list (take 4 rands), cd_client := None, cd_server := Some g\<rparr>),
        clientSessions := (clientSessions st)(s \<mapsto> x\<lparr>cs_clientData := None\<rparr>)\<rparr>)"
    using st'(1) assms(2-6) find
    by (simp add: onSelectServer_def idx switchClientToServer_def modClient_def modClientSession_def)
  ultimately show ?thesis using st'(2) by simp
qed

section \<open>The client's part\<close>

lemma findServer_found:
  "(\<exists>s\<in>set ss. sc_id s = i) \<Longrightarrow> \<exists>k<length ss. findServer i ss n = int (n + k) \<and> sc_id (ss ! k) = i"
proof (induction ss arbitrary: n)
  case (Cons a ss)
  show ?case
  proof (cases "sc_id a = i")
    case True
    then show ?thesis by (intro exI [of _ 0]) simp
  next
    case False
    then obtain k where "k < length ss" "findServer i ss (n + 1) = int (n + 1 + k)" "sc_id (ss ! k) = i"
      using Cons.IH [of "n + 1"] Cons.prems False by auto
    then show ?thesis using False by (intro exI [of _ "Suc k"]) simp
  qed
qed simp

definition connOf :: "server_info \<Rightarrow> server_conn" where
  "connOf i = \<lparr>sc_id = sv_idx i, sc_ip = sv_ip i, sc_port = ucast (sv_port i)\<rparr>"

lemma keepServer_simps [simp]:
  "lc_serverList (keepServer lst e c) = lc_serverList c @ [connOf (snd e)]" "lc_out (keepServer lst e c) = lc_out c"
  "lc_version (keepServer lst e c) = lc_version c" "lc_hasGame (keepServer lst e c) = lc_hasGame c"
  "lc_cipherMethod (keepServer lst e c) = lc_cipherMethod c" "lc_username (keepServer lst e c) = lc_username c"
  by (simp_all add: keepServer_def connOf_def Let_def)

lemma keepServers_simps [simp]:
  "lc_serverList (fold (keepServer lst) es c) = lc_serverList c @ map (connOf \<circ> snd) es"
  "lc_out (fold (keepServer lst) es c) = lc_out c" "lc_version (fold (keepServer lst) es c) = lc_version c"
  "lc_hasGame (fold (keepServer lst) es c) = lc_hasGame c"
  "lc_cipherMethod (fold (keepServer lst) es c) = lc_cipherMethod c"
  "lc_username (fold (keepServer lst) es c) = lc_username c"
  by (induction es arbitrary: c) simp_all

lemma onPacketServerList_simps [simp]:
  "lc_serverList (onPacketServerList lst infos c) = map connOf infos"
  "lc_out (onPacketServerList lst infos c) = lc_out c @ [OnServerList (map clientServerInfo infos) lst]"
  "lc_version (onPacketServerList lst infos c) = lc_version c"
  "lc_hasGame (onPacketServerList lst infos c) = lc_hasGame c"
  "lc_cipherMethod (onPacketServerList lst infos c) = lc_cipherMethod c"
  "lc_username (onPacketServerList lst infos c) = lc_username c"
  by (simp_all add: onPacketServerList_def flip: map_map)

text \<open>Choosing a server of the list sends its index and remembers where to connect.\<close>

lemma selectServer_listed:
  assumes "\<exists>i\<in>set infos. sv_idx i = idx"
    and "\<forall>i\<in>set infos. sv_idx i = idx \<longrightarrow> sv_ip i = ip \<and> sv_port i = port"
    and "lc_serverList c = map connOf infos"
  shows "\<exists>k conn. selectServer idx c = (True, say (AuthSend (CA_SELECT_SERVER (ucast idx))) (c\<lparr>lc_selectedServer := k\<rparr>)) \<and>
    serverAt (lc_serverList c) k = Some conn \<and> sc_ip conn = ip \<and> sc_port conn = ucast port"
proof -
  have "\<exists>s\<in>set (lc_serverList c). sc_id s = idx" using assms(1,3) by (auto simp: connOf_def)
  then obtain k where k: "k < length (lc_serverList c)" "findServer idx (lc_serverList c) 0 = int (0 + k)"
      "sc_id (lc_serverList c ! k) = idx"
    using findServer_found [of "lc_serverList c" idx 0] by blast
  then have i: "lc_serverList c ! k = connOf (infos ! k)" "infos ! k \<in> set infos" "sv_idx (infos ! k) = idx"
    using assms(3) by (simp_all add: connOf_def)
  then have "sc_ip (lc_serverList c ! k) = ip \<and> sc_port (lc_serverList c ! k) = ucast port"
    using assms(2) by (simp add: connOf_def)
  then show ?thesis using k(1,2)
    by (intro exI [of _ "int k"] exI [of _ "lc_serverList c ! k"]) (simp add: selectServer_def Let_def serverAt_def)
qed

lemma moveToGame_selected:
  assumes "serverAt (lc_serverList c) (lc_selectedServer c) = Some conn" "lc_hasGame c"
  shows "\<exists>c'. moveToGame c = Some c' \<and> lc_out c' = lc_out c @ [GameConnect (sc_ip conn) (sc_port conn), AuthClose] \<and>
    lc_oneTimePassword c' = lc_oneTimePassword c \<and> lc_username c' = lc_username c \<and> lc_normalDisconnect c'"
  using assms by (simp add: moveToGame_def Let_def)

lemma gameSessionConnected_login [simp]:
  "gameLogins (lc_out (gameSessionConnected rnd c)) = gameLogins (lc_out c) @ [(lc_username c, lc_oneTimePassword c)]"
  "authSends (lc_out (gameSessionConnected rnd c)) = authSends (lc_out c)"
  by (simp_all add: gameSessionConnected_def Let_def gameLogins_def)

section \<open>A login from the first packet to the game\<close>

definition loginSchedule :: "'r \<Rightarrow> bytes \<Rightarrow> u64 list \<Rightarrow> u16 \<Rightarrow> (nat \<Rightarrow> nat) \<Rightarrow> int \<Rightarrow> 'r login_event list" where
  "loginSchedule key bs rands idx rnd now =
     [TcpConnected key, Up bs rands, Up bs rands, QueryDone, Down, AskServerList, Up bs rands, Down,
      ChooseServer idx, Up bs rands, Down, GameTcpConnected rnd, GameServerAsks now]"

lemma isAlnum_nz: "isAlnum c \<Longrightarrow> c \<noteq> CHR 0x00"
  by (auto simp: isAlnum_def Let_def)

lemma valid_account:
  assumes "isAccountNameValid account"
  shows "CHR 0x00 \<notin> set account"
  using assms isAlnum_nz by (auto simp: isAccountNameValid_def validLoop_all split: if_splits)

lemma account_kept:
  assumes "isAccountNameValid account" "length account \<le> 18" "18 \<le> n"
  shows "convertToString account n = account"
  using convertToString_padded [of account n 0] valid_account [OF assms(1)] assms(2,3) by simp

lemma accountChars_min: "18 \<le> accountChars v"
  by (simp add: accountChars_def)

text \<open>The first three steps: the credentials are sent and the query is pending; it will be asked for the hash of
  salt and password.\<close>

lemma credentials_queried:
  assumes inv: "auth_inv st" "clientSessions st (lp_session P) = Some x" "cs_dbQuery x = []"
    and c: "authSends (lc_out c) = []" "unat (lc_version c) < 2 ^ 24" "\<not> ver_ge (lc_version c) EPIC_8_1_1_RSA"
      "lc_cipherMethod c = ACM_DES" "lc_username c = account" "lc_password c = password"
      "lc_authVersion c = getDefaultAuthVersionString (lc_version c)"
    and des: "des_ok (le_des (lp_client P))" "desInit (le_des (lp_client P)) desCipherKey = Some k"
      "dbe_des (lp_db P) = le_des (lp_client P)" "dbe_desKey (lp_db P) = desCipherKey"
    and pw: "cacheOk (lp_client P) k statics" "shortPassword password"
    and name: "isAccountNameValid account" "length account \<le> 18"
    and rows: "lp_query P account (passwordHash (lp_db P) password) = Some rows"
  shows "\<exists>statics' input y. run (login_step P) [TcpConnected key, Up bs rands, Up bs rands]
      \<lparr>ls_client = c, ls_statics = statics, ls_server = st, ls_up = 0, ls_down = 0\<rparr> = Some
      \<lparr>ls_client = c\<lparr>lc_out := lc_out c @ [AuthSend (CA_VERSION (lc_authVersion c)),
          AuthSend (CA_ACCOUNT account (st_cachedPassword statics') 0)]\<rparr>,
       ls_statics = statics', ls_server = st\<lparr>clientSessions := (clientSessions st)(lp_session P \<mapsto> y)\<rparr>,
       ls_up = 2, ls_down = 0\<rparr> \<and>
    auth_inv (st\<lparr>clientSessions := (clientSessions st)(lp_session P \<mapsto> y)\<rparr>) \<and> cs_dbQuery y = [input] \<and>
    in_account input = account \<and> cs_clientData y = cs_clientData x \<and> cs_packetVersion y = settled (lc_version c) \<and>
    accountResults (lp_db P) (lp_query P) input = Some
      (map (\<lambda>r. auth_output.truncate (onRowDone (passwordHash (lp_db P) password) r)) (take 1 rows))"
proof -
  let ?s = "lp_session P" and ?v = "lc_version c" and ?h = "passwordHash (lp_db P) password"
  obtain statics' where cache: "cachePassword (lp_client P) ?v password statics = Some statics'"
    using cachePassword_defined [OF pw(1) des(2) pw(2)] by blast
  have holds: "cacheHolds (lp_client P) k password (st_cachedPassword statics')" "length (st_cachedPassword statics') = 61"
    using cachePassword_keeps [OF pw(1) des(1,2) cache] pw(2) by (auto simp: cacheOk_def)
  define c1 where "c1 = c\<lparr>lc_out := lc_out c @ [AuthSend (CA_VERSION (lc_authVersion c)),
    AuthSend (CA_ACCOUNT account (st_cachedPassword statics') 0)]\<rparr>"
  have 1: "loginConnected (lp_client P) key c statics = Some (c1, statics')"
    using c(4-6) cache by (simp add: loginConnected_def say_def c1_def Let_def)
  define crypted where "crypted = (if ver_ge ?v EPIC_5_2 then st_cachedPassword statics'
    else take 32 (st_cachedPassword statics') @ replicate 29 0)"
  have wire: "wirePacket ?v (CA_ACCOUNT account (st_cachedPassword statics') 0) = CA_ACCOUNT account crypted 0"
      "wirePacket ?v (CA_VERSION z) = CA_VERSION z" for z
    using account_kept [OF name accountChars_min] by (simp_all add: wirePacket_def crypted_def)
  define input where "input = accountInput (negotiated ?v x) account EM_DES crypted"
  define y where "y = (negotiated ?v x)\<lparr>cs_dbQuery := [input]\<rparr>"
  obtain st1 where 2: "clientPacketReceived (lp_cfg P) (lp_env P) bs rands ?s 10001 27 (CA_VERSION (lc_authVersion c)) st = Some st1"
      "clientPacketReceived (lp_cfg P) (lp_env P) bs rands ?s 10010 (accountSize ?v) (CA_ACCOUNT account crypted 0) st1 =
        Some (st\<lparr>clientSessions := (clientSessions st)(?s \<mapsto> y)\<rparr>)"
    using server_takes_account [OF inv(2,3) c(2,3)] c(7) unfolding y_def input_def by metis
  have "\<forall>q\<in>set [input]. length (in_account q) < 61" using name(2) by (simp add: input_def accountInput_def)
  then have "auth_inv (st\<lparr>clientSessions := (clientSessions st)(?s \<mapsto> y)\<rparr>)"
    using modClientSession_keep [OF inv(1,2), of "\<lambda>_. y"] by (simp add: y_def)
  moreover obtain pl where "plainPassword (lp_db P) input = Some (Some pl)" "cBytes pl = map of_char password"
    using plainPassword_cached [OF holds des(1) pw(2) des(3), of input ?v] des(2,4)
    by (auto simp: input_def accountInput_def crypted_def)
  then have "accountResults (lp_db P) (lp_query P) input = Some (map (\<lambda>r. auth_output.truncate (onRowDone ?h r)) (take 1 rows))"
    using name(1) rows by (intro accountResults_hash) (auto simp: input_def accountInput_def)
  moreover have "run (login_step P) [TcpConnected key, Up bs rands, Up bs rands]
      \<lparr>ls_client = c, ls_statics = statics, ls_server = st, ls_up = 0, ls_down = 0\<rparr> = Some
      \<lparr>ls_client = c1, ls_statics = statics', ls_server = st\<lparr>clientSessions := (clientSessions st)(?s \<mapsto> y)\<rparr>, ls_up = 2, ls_down = 0\<rparr>"
    using 1 2 c(1) by (simp add: c1_def wire Let_def)
  ultimately show ?thesis using c(2)
    by (intro exI [of _ statics'] exI [of _ input] exI [of _ y])
       (simp add: c1_def y_def input_def accountInput_def negotiated_settled)
qed

text \<open>The next two: the client is registered and told so.\<close>

lemma credentials_accepted:
  assumes inv: "auth_inv st" "clientSessions st (lp_session P) = Some x" "cs_clientData x = None" "cs_dbQuery x = [input]"
      "sentTo (lp_session P) (sent st) = []" "in_account input = account"
    and row: "accountResults (lp_db P) (lp_query P) input = Some [auth_output.truncate (onRowDone h row)]"
      "out_account_id row \<noteq> 0xFFFFFFFF" "row_password row = h" "out_auth_ok row" "\<not> out_block row"
      "\<not> accountInUse (out_account_id row) account st"
  shows "\<exists>st' p e y. run (login_step P) [QueryDone, Down]
      \<lparr>ls_client = c, ls_statics = statics, ls_server = st, ls_up = 2, ls_down = 0\<rparr> = Some
      \<lparr>ls_client = say (OnAuthResult 0 []) c, ls_statics = statics, ls_server = st', ls_up = 2, ls_down = 1\<rparr> \<and> auth_inv st' \<and>
    clientSessions st' (lp_session P) = Some y \<and> cs_clientData y = Some p \<and>
    cs_packetVersion y = cs_packetVersion x \<and> cs_serverIdxOffset y = out_server_idx_offset row \<and>
    clientHeap st' p = Some e \<and> \<not> cd_inGame e \<and> getClient account st' = Some p \<and>
    gameSessions st' = gameSessions st \<and> gameHeap st' = gameHeap st \<and> sentTo (lp_session P) (sent st') = [AC_RESULT TS_CA_ACCOUNT_ID 0 1]"
proof -
  let ?s = "lp_session P"
  have ok: "out_ok (onRowDone h row)" using row(2,3) by (simp add: onRowDone_def)
  have free: "\<not> accountInUse (out_account_id (auth_output.truncate (onRowDone h row))) (in_account input) st"
    using row(6) inv(6) by simp
  obtain st' p e y where 1: "accountQueryDone (lp_cfg P) ?s [auth_output.truncate (onRowDone h row)] st = Some st'" "auth_inv st'"
      "clientSessions st' ?s = Some y" "cs_clientData y = Some p" "cs_packetVersion y = cs_packetVersion x"
      "cs_serverIdxOffset y = out_server_idx_offset row" "clientHeap st' p = Some e" "\<not> cd_inGame e" "getClient account st' = Some p"
      "gameSessions st' = gameSessions st" "gameHeap st' = gameHeap st" "sent st' = sent st @ [loginResult ?s 0 1]"
    using server_registers [where cfg = "lp_cfg P", OF inv(1,2,4,3) _ _ _ free] ok row(4,5) inv(6) by auto
  have "run (login_step P) [QueryDone, Down]
      \<lparr>ls_client = c, ls_statics = statics, ls_server = st, ls_up = 2, ls_down = 0\<rparr> = Some
      \<lparr>ls_client = say (OnAuthResult 0 []) c, ls_statics = statics, ls_server = st', ls_up = 2, ls_down = 1\<rparr>"
    using 1(1,12) inv(2,4,5) row(1) by (simp add: loginResult_def onPacketAuthResult_def)
  then show ?thesis using 1 inv(5) by (simp add: loginResult_def)
qed

lemma run_append: "run step (xs @ ys) s = Option.bind (run step xs s) (run step ys)"
  by (induction xs arbitrary: s) (auto split: option.split)

text \<open>The other eight: the list, the choice, the move to the game server and its question about the client.\<close>

lemma lobby_to_game:
  assumes inv: "auth_inv st" "clientSessions st (lp_session P) = Some y" "cs_clientData y = Some p"
      "\<not> ver_ge (cs_packetVersion y) EPIC_8_1_1_RSA" "clientHeap st p = Some e" "\<not> cd_inGame e"
      "getClient account st = Some p" "sentTo (lp_session P) (sent st) = [answer]"
    and game: "gameSessions st (lp_game P) = Some z" "gs_gameData z = Some g" "gameHeap st g = Some d" "isReady d"
      "\<not> ucast (gd_serverIdx d) > cfg_maxPublicServerIdx (lp_cfg P) + cs_serverIdxOffset y" "cfg_maxPlayers (lp_cfg P) \<noteq> 0"
    and c: "length (authSends (lc_out c)) = 2" "gameLogins (lc_out c) = []" "lc_hasGame c" "lc_username c = account"
      "lc_cipherMethod c = ACM_DES"
    and name: "isAccountNameValid account" "length account \<le> 18"
  shows "\<exists>S'. run (login_step P) [AskServerList, Up bs rands, Down, ChooseServer (gd_serverIdx d), Up bs rands, Down,
        GameTcpConnected rnd, GameServerAsks now]
      \<lparr>ls_client = c, ls_statics = statics, ls_server = st, ls_up = 2, ls_down = 1\<rparr> = Some S' \<and>
    {GameConnect (gd_serverIp d) (ucast (gd_serverPort d)), AuthClose,
     GameSend (CS_ACCOUNT_WITH_AUTH account (prod_list (take 4 rands)))} \<union> set (lc_out c) \<subseteq> set (lc_out (ls_client S')) \<and>
    auth_inv (ls_server S') \<and>
    (\<exists>p e m. getClient account (ls_server S') = Some p \<and> clientHeap (ls_server S') p = Some e \<and> cd_inGame e \<and>
       cd_server e = Some g \<and> last (sent (ls_server S')) = ToGame (lp_game P) m \<and> answerOf m = Some (account, TS_RESULT_SUCCESS))"
proof -
  let ?s = "lp_session P" and ?v = "lc_version c" and ?idx = "gd_serverIdx d" and ?key = "prod_list (take 4 rands)"
  obtain l where l: "clientPacketReceived (lp_cfg P) (lp_env P) bs rands ?s 10021 7 CA_SERVER_LIST st =
      Some (emit (ToClient ?s (AC_SERVER_LIST (cs_lastLoginServerId y) l)) st)"
    "\<exists>i\<in>set l. sv_idx i = ?idx"
    "\<forall>i\<in>set l. sv_idx i = ?idx \<longrightarrow> sv_ip i = gd_serverIp d \<and> sv_port i = gd_serverPort d"
  proof -
    have "serverVisible (lp_cfg P) y d" using game(4,5) by (simp add: serverVisible_def)
    from server_lists [OF inv(1-3) game(6,3) this] show ?thesis using that by blast
  qed
  define st1 where "st1 = emit (ToClient ?s (AC_SERVER_LIST (cs_lastLoginServerId y) l)) st"
  define lst where "lst = (if ver_ge ?v EPIC_9_6_5 then cs_lastLoginServerId y else 1)"
  define c1 where "c1 = retreiveServerList c"
  define c2 where "c2 = onPacketServerList lst l c1"
  have c2: "lc_serverList c2 = map connOf l" "lc_out c2 = lc_out c @ [AuthSend CA_SERVER_LIST, OnServerList (map clientServerInfo l) lst]"
      "lc_hasGame c2" "lc_cipherMethod c2 = ACM_DES" "lc_username c2 = account" "lc_version c2 = ?v"
    using c by (simp_all add: c2_def c1_def retreiveServerList_def)
  obtain k conn where k: "selectServer ?idx c2 = (True, say (AuthSend (CA_SELECT_SERVER (ucast ?idx))) (c2\<lparr>lc_selectedServer := k\<rparr>))"
      "serverAt (lc_serverList c2) k = Some conn" "sc_ip conn = gd_serverIp d" "sc_port conn = ucast (gd_serverPort d)"
    using selectServer_listed [OF l(2,3) c2(1)] by blast
  define c3 where "c3 = say (AuthSend (CA_SELECT_SERVER (ucast ?idx))) (c2\<lparr>lc_selectedServer := k\<rparr>)"
  have st1: "auth_inv st1" "clientSessions st1 ?s = Some y" "clientHeap st1 p = Some e" "gameHeap st1 g = Some d"
      "gameSessions st1 = gameSessions st" "connectedClientsByName st1 = connectedClientsByName st"
      "sentTo ?s (sent st1) = [answer, AC_SERVER_LIST (cs_lastLoginServerId y) l]"
    using inv game(3) by (simp_all add: st1_def)
  obtain st2 where st2: "clientPacketReceived (lp_cfg P) (lp_env P) bs rands ?s 10023 (if ver_ge ?v EPIC_9_6_5 then 11 else 9) (CA_SELECT_SERVER (ucast ?idx)) st1 = Some st2"
      "auth_inv st2" "clientHeap st2 p = Some (e\<lparr>cd_oneTimePassword := ?key, cd_client := None, cd_server := Some g\<rparr>)"
      "connectedClientsByName st2 = connectedClientsByName st1" "gameSessions st2 = gameSessions st1" "gameHeap st2 = gameHeap st1"
      "sent st2 = sent st1 @ [UpdateLastServerIdx (cd_accountId e) ?idx, ToClient ?s (AC_SELECT_SERVER (OneTimeKey ?key))]"
    using server_selects [OF st1(1,2) inv(3) st1(3,4) inv(4), of "lp_cfg P" "lp_env P" bs rands] by blast
  define c4 where "c4 = c3\<lparr>lc_oneTimePassword := ?key\<rparr>"
  obtain c5 where c5: "moveToGame c4 = Some c5" "lc_out c5 = lc_out c4 @ [GameConnect (sc_ip conn) (sc_port conn), AuthClose]"
      "lc_oneTimePassword c5 = ?key" "lc_username c5 = account"
    using moveToGame_selected [of c4 conn] k(2) c2 by (auto simp: c4_def c3_def)
  define c6 where "c6 = gameSessionConnected rnd c5"
  have "gameLogins (lc_out c5) = []"
    using c(2) c2(2) c5(2) by (simp add: c4_def c3_def gameLogins_def)
  then have logins: "gameLogins (lc_out c6) = [(account, ?key)]"
    using c5(3,4) by (simp add: c6_def)
  have name: "convertToString account 60 = account" using account_kept [OF name] by simp
  have acc: "loginAccepted (lp_game P) account ?key st2"
    using game(1-4) inv(6,7) st1 st2(3-6) by (auto simp: loginAccepted_def getClient_def)
  obtain st3 q e' m where st3: "onClientLogin now (lp_game P) account ?key st2 = Some st3" "auth_inv st3"
      "getClient account st2 = Some q" "clientHeap st2 q = Some e'"
      "clientHeap st3 = (clientHeap st2)(q \<mapsto> e'\<lparr>cd_inGame := True, cd_loginTime := now\<rparr>)"
      "connectedClientsByName st3 = connectedClientsByName st2" "last (sent st3) = ToGame (lp_game P) m"
      "answerOf m = Some (account, TS_RESULT_SUCCESS)"
    using onClientLogin_accepted [of st2 "lp_game P" account ?key now, unfolded name, OF st2(2) acc] by blast
  have q: "q = p" "cd_server e' = Some g"
    using st3(3,4) st2(3,4) st1(6) inv(7) by (auto simp: getClient_def)
  obtain ms where ms: "authSends (lc_out c) = ms" "length ms = 2" using c(1) by blast
  have "run (login_step P) [AskServerList, Up bs rands, Down, ChooseServer ?idx, Up bs rands, Down,
        GameTcpConnected rnd, GameServerAsks now]
      \<lparr>ls_client = c, ls_statics = statics, ls_server = st, ls_up = 2, ls_down = 1\<rparr> = Some
      \<lparr>ls_client = c6, ls_statics = statics, ls_server = st3, ls_up = 4, ls_down = 3\<rparr>"
  proof -
    have 1: "login_step P (Up bs rands) \<lparr>ls_client = c1, ls_statics = statics, ls_server = st, ls_up = 2, ls_down = 1\<rparr> =
        Some \<lparr>ls_client = c1, ls_statics = statics, ls_server = st1, ls_up = 3, ls_down = 1\<rparr>"
      using ms l(1) by (simp add: c1_def retreiveServerList_def wirePacket_def st1_def)
    have 2: "login_step P Down \<lparr>ls_client = c1, ls_statics = statics, ls_server = st1, ls_up = 3, ls_down = 1\<rparr> =
        Some \<lparr>ls_client = c2, ls_statics = statics, ls_server = st1, ls_up = 3, ls_down = 2\<rparr>"
      using st1(7) by (simp add: c2_def lst_def c1_def retreiveServerList_def)
    have 3: "login_step P (Up bs rands) \<lparr>ls_client = c3, ls_statics = statics, ls_server = st1, ls_up = 3, ls_down = 2\<rparr> =
        Some \<lparr>ls_client = c3, ls_statics = statics, ls_server = st2, ls_up = 4, ls_down = 2\<rparr>"
      using ms st2(1) c2(2,6) by (simp add: c3_def wirePacket_def)
    have 4: "login_step P Down \<lparr>ls_client = c3, ls_statics = statics, ls_server = st2, ls_up = 4, ls_down = 2\<rparr> =
        Some \<lparr>ls_client = c5, ls_statics = statics, ls_server = st2, ls_up = 4, ls_down = 3\<rparr>"
      using st1(7) st2(7) c2(4) c5(1) by (simp add: c3_def c4_def onPacketSelectServerResult_def)
    have 5: "login_step P (GameServerAsks now) \<lparr>ls_client = c6, ls_statics = statics, ls_server = st2, ls_up = 4, ls_down = 3\<rparr> =
        Some \<lparr>ls_client = c6, ls_statics = statics, ls_server = st3, ls_up = 4, ls_down = 3\<rparr>"
      using logins st3(1) by simp
    have a: "login_step P AskServerList \<lparr>ls_client = c, ls_statics = statics, ls_server = st, ls_up = 2, ls_down = 1\<rparr> =
        Some \<lparr>ls_client = c1, ls_statics = statics, ls_server = st, ls_up = 2, ls_down = 1\<rparr>" by (simp add: c1_def)
    have b: "login_step P (ChooseServer ?idx) \<lparr>ls_client = c2, ls_statics = statics, ls_server = st1, ls_up = 3, ls_down = 2\<rparr> =
        Some \<lparr>ls_client = c3, ls_statics = statics, ls_server = st1, ls_up = 3, ls_down = 2\<rparr>" by (simp add: k(1) c3_def)
    have d: "login_step P (GameTcpConnected rnd) \<lparr>ls_client = c5, ls_statics = statics, ls_server = st2, ls_up = 4, ls_down = 3\<rparr> =
        Some \<lparr>ls_client = c6, ls_statics = statics, ls_server = st2, ls_up = 4, ls_down = 3\<rparr>" by (simp add: c6_def)
    show ?thesis by (simp only: run.simps a b d 1 2 3 4 5 option.case)
  qed
  moreover have "{GameConnect (gd_serverIp d) (ucast (gd_serverPort d)), AuthClose, GameSend (CS_ACCOUNT_WITH_AUTH account ?key)} \<union>
      set (lc_out c) \<subseteq> set (lc_out c6)"
    using k(3,4) c2(2) c5 by (auto simp: c6_def c4_def c3_def gameSessionConnected_def Let_def)
  ultimately show ?thesis using st3 q st2(4) by (auto simp: getClient_def)
qed

text \<open>C2. A client of any version before 8.1.1 with the right password gets into the game: from any state of the
  authentication server in which its account is free, whatever passwords the program sent before, the password
  reaches the database query as the hash of salt and password, the login is accepted, the list shows the chosen
  server, the client connects to that server's address and presents the one-time key, and the authentication
  server confirms it to the game server and counts the client as playing there. The DES keys of the two programs
  agree, the password has 1 to 31 characters, and the client fetches the list before it chooses.\<close>

theorem login_end_to_end:
  assumes "auth_inv st" and "clientSessions st (lp_session P) = Some x" and "cs_clientData x = None"
    and "cs_dbQuery x = []" and "sentTo (lp_session P) (sent st) = []"
    and "authSends (lc_out c) = []" and "gameLogins (lc_out c) = []" and "lc_hasGame c"
    and "unat (lc_version c) < 2 ^ 24" and "\<not> ver_ge (lc_version c) EPIC_8_1_1_RSA" and "le_authVersion (lp_client P) = None"
    and "des_ok (le_des (lp_client P))" and "desInit (le_des (lp_client P)) desCipherKey = Some k"
    and "dbe_des (lp_db P) = le_des (lp_client P)" and "dbe_desKey (lp_db P) = desCipherKey"
    and "cacheOk (lp_client P) k statics" and "shortPassword password"
    and "isAccountNameValid account" and "length account \<le> 18"
    and "lp_query P account (passwordHash (lp_db P) password) = Some (row # rows)"
    and "out_account_id row \<noteq> 0xFFFFFFFF" and "row_password row = passwordHash (lp_db P) password"
    and "out_auth_ok row" and "\<not> out_block row" and "\<not> accountInUse (out_account_id row) account st"
    and "gameSessions st (lp_game P) = Some z" and "gs_gameData z = Some g" and "gameHeap st g = Some d" and "isReady d"
    and "\<not> ucast (gd_serverIdx d) > cfg_maxPublicServerIdx (lp_cfg P) + out_server_idx_offset row"
    and "cfg_maxPlayers (lp_cfg P) \<noteq> 0"
  shows "\<exists>S. run (login_step P) (loginSchedule key bs rands (gd_serverIdx d) rnd now)
      \<lparr>ls_client = loginConnect (lp_client P) ip port account password c, ls_statics = statics, ls_server = st,
       ls_up = 0, ls_down = 0\<rparr> = Some S \<and>
    {OnAuthResult TS_RESULT_SUCCESS [], GameConnect (gd_serverIp d) (ucast (gd_serverPort d)),
     GameSend (CS_ACCOUNT_WITH_AUTH account (prod_list (take 4 rands)))} \<subseteq> set (lc_out (ls_client S)) \<and>
    auth_inv (ls_server S) \<and>
    (\<exists>p e m. getClient account (ls_server S) = Some p \<and> clientHeap (ls_server S) p = Some e \<and> cd_inGame e \<and>
       cd_server e = Some g \<and> last (sent (ls_server S)) = ToGame (lp_game P) m \<and> answerOf m = Some (account, TS_RESULT_SUCCESS))"
proof -
  let ?c = "loginConnect (lp_client P) ip port account password c"
  have c: "authSends (lc_out ?c) = []" "gameLogins (lc_out ?c) = []" "lc_hasGame ?c" "lc_version ?c = lc_version c"
      "lc_cipherMethod ?c = ACM_DES" "lc_username ?c = account" "lc_password ?c = password"
      "lc_authVersion ?c = getDefaultAuthVersionString (lc_version ?c)"
    using assms(6-11) by (simp_all add: loginConnect_def getAuthVersionString_def gameLogins_def)
  have v: "unat (lc_version ?c) < 2 ^ 24" "\<not> ver_ge (lc_version ?c) EPIC_8_1_1_RSA" using assms(9,10) c(4) by simp_all
  obtain statics' input y0 where r0: "run (login_step P) [TcpConnected key, Up bs rands, Up bs rands]
      \<lparr>ls_client = ?c, ls_statics = statics, ls_server = st, ls_up = 0, ls_down = 0\<rparr> = Some
      \<lparr>ls_client = ?c\<lparr>lc_out := lc_out ?c @ [AuthSend (CA_VERSION (lc_authVersion ?c)),
          AuthSend (CA_ACCOUNT account (st_cachedPassword statics') 0)]\<rparr>,
       ls_statics = statics', ls_server = st\<lparr>clientSessions := (clientSessions st)(lp_session P \<mapsto> y0)\<rparr>,
       ls_up = 2, ls_down = 0\<rparr>"
    and st0: "auth_inv (st\<lparr>clientSessions := (clientSessions st)(lp_session P \<mapsto> y0)\<rparr>)" "cs_dbQuery y0 = [input]"
      "in_account input = account" "cs_clientData y0 = None" "cs_packetVersion y0 = settled (lc_version ?c)"
      "accountResults (lp_db P) (lp_query P) input = Some
        (map (\<lambda>r. auth_output.truncate (onRowDone (passwordHash (lp_db P) password) r)) (take 1 (row # rows)))"
    using credentials_queried [OF assms(1,2,4) c(1) v c(5-8) assms(12-20), of key bs rands] assms(3) by auto
  define c1 where "c1 = say (OnAuthResult 0 []) (?c\<lparr>lc_out := lc_out ?c @ [AuthSend (CA_VERSION (lc_authVersion ?c)),
          AuthSend (CA_ACCOUNT account (st_cachedPassword statics') 0)]\<rparr>)"
  let ?st0 = "st\<lparr>clientSessions := (clientSessions st)(lp_session P \<mapsto> y0)\<rparr>"
  have q0: "clientSessions ?st0 (lp_session P) = Some y0" "sentTo (lp_session P) (sent ?st0) = []"
      "\<not> accountInUse (out_account_id row) account ?st0"
    using assms(5,25) by (simp_all add: accountInUse_def)
  have res: "accountResults (lp_db P) (lp_query P) input =
      Some [auth_output.truncate (onRowDone (passwordHash (lp_db P) password) row)]" using st0(6) by simp
  obtain st1 p e y where r1: "run (login_step P) [QueryDone, Down]
      \<lparr>ls_client = ?c\<lparr>lc_out := lc_out ?c @ [AuthSend (CA_VERSION (lc_authVersion ?c)),
          AuthSend (CA_ACCOUNT account (st_cachedPassword statics') 0)]\<rparr>,
       ls_statics = statics', ls_server = ?st0, ls_up = 2, ls_down = 0\<rparr> = Some
      \<lparr>ls_client = c1, ls_statics = statics', ls_server = st1, ls_up = 2, ls_down = 1\<rparr>"
    and st1: "auth_inv st1" "clientSessions st1 (lp_session P) = Some y" "cs_clientData y = Some p"
      "cs_packetVersion y = settled (lc_version ?c)" "cs_serverIdxOffset y = out_server_idx_offset row"
      "clientHeap st1 p = Some e" "\<not> cd_inGame e" "getClient account st1 = Some p"
      "gameSessions st1 = gameSessions st" "gameHeap st1 = gameHeap st" "sentTo (lp_session P) (sent st1) = [AC_RESULT TS_CA_ACCOUNT_ID 0 1]"
    using credentials_accepted [OF st0(1) q0(1) st0(4,2) q0(2) st0(3) res assms(21-24) q0(3), where statics = statics'
        and c = "?c\<lparr>lc_out := lc_out ?c @ [AuthSend (CA_VERSION (lc_authVersion ?c)),
          AuthSend (CA_ACCOUNT account (st_cachedPassword statics') 0)]\<rparr>"] st0(5)
    unfolding c1_def by fastforce
  have old: "\<not> ver_ge (cs_packetVersion y) EPIC_8_1_1_RSA"
    using v st1(4) by (auto simp: settled_def ver_ge_unat)
  have c1: "length (authSends (lc_out c1)) = 2" "gameLogins (lc_out c1) = []" "lc_hasGame c1" "lc_username c1 = account"
      "lc_cipherMethod c1 = ACM_DES" "OnAuthResult 0 [] \<in> set (lc_out c1)"
    using c by (simp_all add: gameLogins_def c1_def)
  have game: "gameSessions st1 (lp_game P) = Some z" "gameHeap st1 g = Some d"
      "\<not> ucast (gd_serverIdx d) > cfg_maxPublicServerIdx (lp_cfg P) + cs_serverIdxOffset y"
    using assms(26,28,30) st1(5,9,10) by simp_all
  note rest = lobby_to_game [OF st1(1-3) old st1(6-8,11) game(1) assms(27) game(2) assms(29) game(3) assms(31) c1(1-5) assms(18,19),
      where bs = bs and rands = rands and rnd = rnd and now = now and statics = statics']
  obtain S where S: "run (login_step P) [AskServerList, Up bs rands, Down, ChooseServer (gd_serverIdx d), Up bs rands, Down,
        GameTcpConnected rnd, GameServerAsks now]
      \<lparr>ls_client = c1, ls_statics = statics', ls_server = st1, ls_up = 2, ls_down = 1\<rparr> = Some S"
    "{GameConnect (gd_serverIp d) (ucast (gd_serverPort d)), AuthClose,
     GameSend (CS_ACCOUNT_WITH_AUTH account (prod_list (take 4 rands)))} \<union> set (lc_out c1) \<subseteq> set (lc_out (ls_client S))"
    "auth_inv (ls_server S)"
    "\<exists>p e m. getClient account (ls_server S) = Some p \<and> clientHeap (ls_server S) p = Some e \<and> cd_inGame e \<and>
       cd_server e = Some g \<and> last (sent (ls_server S)) = ToGame (lp_game P) m \<and> answerOf m = Some (account, TS_RESULT_SUCCESS)"
    using rest by blast
  have split: "loginSchedule key bs rands (gd_serverIdx d) rnd now =
      [TcpConnected key, Up bs rands, Up bs rands] @ [QueryDone, Down] @ [AskServerList, Up bs rands, Down,
        ChooseServer (gd_serverIdx d), Up bs rands, Down, GameTcpConnected rnd, GameServerAsks now]"
    by (simp add: loginSchedule_def)
  have "run (login_step P) (loginSchedule key bs rands (gd_serverIdx d) rnd now)
      \<lparr>ls_client = ?c, ls_statics = statics, ls_server = st, ls_up = 0, ls_down = 0\<rparr> = Some S"
    unfolding split run_append r0 bind.bind_lunit r1 by (rule S(1))
  moreover have "{OnAuthResult TS_RESULT_SUCCESS [], GameConnect (gd_serverIp d) (ucast (gd_serverPort d)),
     GameSend (CS_ACCOUNT_WITH_AUTH account (prod_list (take 4 rands)))} \<subseteq> set (lc_out (ls_client S))"
    using S(2) c1(6) by blast
  ultimately show ?thesis using S(3,4) by blast
qed

definition demo_lobby :: "auth_event list" where
  "demo_lobby = [GameConnected, GamePacket 0 0 (GA_LOGIN demo_server), ClientConnected (replicate 32 0) ''ip'']"

definition demo_db :: "unit db_env" where
  "demo_db = \<lparr>dbe_des = \<lparr>des_set_odd_parity = id, des_set_key_checked = (\<lambda>_. Some ()), des_ecb = (\<lambda>_ _. rev)\<rparr>,
     dbe_desKey = desCipherKey, dbe_aes_decrypt = (\<lambda>_ _ b. Some b), dbe_md5 = take 16, dbe_salt = replicate 16 1,
     dbe_restrictCharacters = True\<rparr>"

definition demo_params :: "(unit, unit) login_params" where
  "demo_params = \<lparr>lp_cfg = demo_cfg, lp_env = demo_env,
     lp_client = \<lparr>le_des = dbe_des demo_db, le_rsa_pem = (\<lambda>_. []), le_rsa_decrypt = (\<lambda>_ b. Some b),
       le_aes_encrypt = (\<lambda>_ _ b. Some b), le_aes_decrypt = (\<lambda>_ _ b. Some b), le_authVersion = None,
       le_gameVersion = None, le_junk = replicate 516 0\<rparr>,
     lp_db = demo_db,
     lp_query = (\<lambda>a h. Some [auth_output.extend demo_row \<lparr>row_password = h, row_nullPassword = False\<rparr>]),
     lp_session = 2, lp_game = 0\<rparr>"

lemma demo_lobby_ok: "run_ok (auth_step demo_cfg demo_env) (event_ok demo_cfg) demo_lobby auth_init"
  by code_simp

lemma demo_lobby_inv: "auth_inv (demo_state demo_lobby)"
  using auth.run_safe [OF auth_inv_init demo_lobby_ok] by (auto simp: demo_state_def)

lemma demo_lobby_facts:
  "map_option (\<lambda>x. (cs_clientData x, length (cs_dbQuery x))) (clientSessions (demo_state demo_lobby) 2) = Some (None, 0)"
  "sentTo 2 (sent (demo_state demo_lobby)) = []"
  "map_option gs_gameData (gameSessions (demo_state demo_lobby) 0) = Some (Some 1)"
  "map_option (\<lambda>d. (isReady d, gd_serverIdx d, gd_serverIp d, gd_serverPort d)) (gameHeap (demo_state demo_lobby) 1) =
     Some (True, 1, ''i'', 4514)"
  "um_find (connectedClients (demo_state demo_lobby)) 7 = None"
  "um_find (connectedClientsByName (demo_state demo_lobby)) (toLower ''Bob'') = None"
  by code_simp+

theorem login_end_to_end_witness:
  "\<exists>S. run (login_step demo_params) (loginSchedule () [] [3, 5, 7, 11] 1 id 9)
      \<lparr>ls_client = loginConnect (lp_client demo_params) ''127.0.0.1'' 8841 ''Bob'' ''secret''
         (newClientAuth EPIC_7_4 True ACM_DES 0 0 False),
       ls_statics = initialStatics, ls_server = demo_state demo_lobby, ls_up = 0, ls_down = 0\<rparr> = Some S \<and>
    {OnAuthResult TS_RESULT_SUCCESS [], GameConnect ''i'' 4514,
     GameSend (CS_ACCOUNT_WITH_AUTH ''Bob'' 1155)} \<subseteq> set (lc_out (ls_client S))"
proof -
  let ?st = "demo_state demo_lobby" and ?P = demo_params
  let ?c = "newClientAuth EPIC_7_4 True ACM_DES 0 0 False"
  let ?row = "auth_output.extend demo_row \<lparr>row_password = passwordHash demo_db ''secret'', row_nullPassword = False\<rparr>"
  obtain x where x: "clientSessions ?st 2 = Some x" "cs_clientData x = None" "cs_dbQuery x = []"
    using demo_lobby_facts(1) by auto
  obtain z where z: "gameSessions ?st 0 = Some z" "gs_gameData z = Some 1" using demo_lobby_facts(3) by auto
  obtain d where d: "gameHeap ?st 1 = Some d" "isReady d" "gd_serverIdx d = 1" "gd_serverIp d = ''i''" "gd_serverPort d = 4514"
    using demo_lobby_facts(4) by auto
  have free: "\<not> accountInUse (out_account_id ?row) ''Bob'' ?st"
    using accountInUse_find [OF auth_invD(1) [OF demo_lobby_inv]] demo_lobby_facts(5,6)
    by (simp add: auth_output.defs demo_row_def)
  have "\<exists>S. run (login_step ?P) (loginSchedule () [] [3, 5, 7, 11] (gd_serverIdx d) id 9)
      \<lparr>ls_client = loginConnect (lp_client ?P) ''127.0.0.1'' 8841 ''Bob'' ''secret'' ?c, ls_statics = initialStatics,
       ls_server = ?st, ls_up = 0, ls_down = 0\<rparr> = Some S \<and>
    {OnAuthResult TS_RESULT_SUCCESS [], GameConnect (gd_serverIp d) (ucast (gd_serverPort d)),
     GameSend (CS_ACCOUNT_WITH_AUTH ''Bob'' (prod_list (take 4 [3, 5, 7, 11])))} \<subseteq> set (lc_out (ls_client S)) \<and>
    auth_inv (ls_server S) \<and>
    (\<exists>p e m. getClient ''Bob'' (ls_server S) = Some p \<and> clientHeap (ls_server S) p = Some e \<and> cd_inGame e \<and>
       cd_server e = Some 1 \<and> last (sent (ls_server S)) = ToGame (lp_game ?P) m \<and> answerOf m = Some (''Bob'', TS_RESULT_SUCCESS))"
  proof (rule login_end_to_end [where k = "()" and row = ?row and rows = "[]"])
    show "auth_inv ?st" by (rule demo_lobby_inv)
    show "clientSessions ?st (lp_session ?P) = Some x" using x(1) by (simp add: demo_params_def)
    show "sentTo (lp_session ?P) (sent ?st) = []" using demo_lobby_facts(2) by (simp add: demo_params_def)
    show "des_ok (le_des (lp_client ?P))" by (simp add: demo_params_def demo_db_def des_ok_def)
    show "desInit (le_des (lp_client ?P)) desCipherKey = Some ()" by (simp add: demo_params_def demo_db_def desInit_def)
    show "cacheOk (lp_client ?P) () initialStatics" by (rule cacheOk_init)
    show "isAccountNameValid ''Bob''" by code_simp
    show "shortPassword ''secret''" by code_simp
    show "\<not> accountInUse (out_account_id ?row) ''Bob'' ?st" by (rule free)
    show "gameSessions ?st (lp_game ?P) = Some z" using z(1) by (simp add: demo_params_def)
    show "\<not> ver_ge (lc_version ?c) EPIC_8_1_1_RSA" by (simp add: newClientAuth_def ver_ge_unat)
    show "\<not> ucast (gd_serverIdx d) > cfg_maxPublicServerIdx (lp_cfg ?P) + out_server_idx_offset ?row"
      using d(3) by (simp add: demo_params_def demo_cfg_def demo_row_def auth_output.defs)
  qed (use x z d in \<open>simp_all add: demo_params_def demo_db_def demo_cfg_def demo_row_def newClientAuth_def auth_output.defs gameLogins_def\<close>)
  then show ?thesis using d(3-5) by auto
qed

section \<open>A login that is refused\<close>

text \<open>A row that does not let the client in: none, the default account id, another password hash (unless the
  table has no password), or an account that is not allowed.\<close>

definition refusing :: "string \<Rightarrow> account_row list \<Rightarrow> bool" where
  "refusing h rows \<longleftrightarrow> (case rows of [] \<Rightarrow> True
     | r # _ \<Rightarrow> \<not> out_ok r \<and> (out_account_id r = 0xFFFFFFFF \<or>
         (row_password r \<noteq> h \<and> \<not> (row_nullPassword r \<and> row_password r = [])) \<or> \<not> out_auth_ok r))"

lemma refusing_row:
  "refusing h (r # rows) \<Longrightarrow> \<not> out_ok (onRowDone h r) \<or> \<not> out_auth_ok r"
  by (auto simp: refusing_def onRowDone_def)



end
