(* ===== verification/PacketIds.thy ===== *)
theory PacketIds
  imports Packets
begin

text \<open>
  Packet ids: the conditions of \<open>X(id, condition)\<close> lines, the metadata that \<open>CREATE_PACKET\<close> and
  \<open>CREATE_PACKET_VER_ID\<close> give a packet (librzu/src/lib/Packet/PacketDeclaration.h), the registry of all packets
  by id and its lookups (librzu/src/lib/Packet/PacketStructsName.cpp), and \<open>processPacket\<close>, which finds the
  structure for a received id (librzu/src/packets/PacketIterator.h.in).
\<close>

section \<open>Metadata of a packet\<close>

abbreviation "EPIC_4_1_1 \<equiv> 0x040101 :: u32"
abbreviation "EPIC_6_1 \<equiv> 0x060100 :: u32"
abbreviation "EPIC_6_2 \<equiv> 0x060200 :: u32"
abbreviation "EPIC_6_3 \<equiv> 0x060300 :: u32"
abbreviation "EPIC_7_1 \<equiv> 0x070100 :: u32"
abbreviation "EPIC_7_2 \<equiv> 0x070200 :: u32"
abbreviation "EPIC_7_3 \<equiv> 0x070300 :: u32"
abbreviation "EPIC_8_1 \<equiv> 0x080100 :: u32"
abbreviation "EPIC_8_2 \<equiv> 0x080200 :: u32"
abbreviation "EPIC_9_1 \<equiv> 0x090100 :: u32"
abbreviation "EPIC_9_4 \<equiv> 0x090400 :: u32"
abbreviation "EPIC_9_5 \<equiv> 0x090500 :: u32"
abbreviation "EPIC_9_5_1 \<equiv> 0x090501 :: u32"
abbreviation "EPIC_9_6_2 \<equiv> 0x090602 :: u32"
abbreviation "EPIC_9_7_0 \<equiv> 0x090700 :: u32"
abbreviation "EPIC_9_8_1 \<equiv> 0x090801 :: u32"
abbreviation "EPIC_FLAG_TESTSERVER \<equiv> 1 :: u32"

text \<open>The conditions of id lines.\<close>

datatype epics = Always | Since u32 | Before u32 | Is u32 | IsNot u32 | Flagged u32 | Both epics epics

fun holds :: "epics \<Rightarrow> packet_version_t \<Rightarrow> bool" where
  "holds Always version = True"
| "holds (Since epic) version = ver_ge version epic"
| "holds (Before epic) version = ver_lt version epic"
| "holds (Is epic) version = (compareEpic version epic = 0)"
| "holds (IsNot epic) version = (compareEpic version epic \<noteq> 0)"
| "holds (Flagged f) version = (versionFlag version f \<noteq> 0)"
| "holds (Both a b) version = (holds a version \<and> holds b version)"

datatype session_type = AnySession | AuthClientS | AuthGameS | GameClientS | UploadClientS | UploadGameS

datatype packet_origin = AnyOrigin | ServerO | ClientO

record packet_info =
  pi_name :: string
  pi_ids :: "(epics \<times> u16) list"
  pi_session :: session_type
  pi_origin :: packet_origin

definition packetInfo :: "string \<Rightarrow> (epics \<times> u16) list \<Rightarrow> session_type \<Rightarrow> packet_origin \<Rightarrow> packet_info" where
  "packetInfo name ids session origin =
     \<lparr>pi_name = name, pi_ids = ids, pi_session = session, pi_origin = origin\<rparr>"

text \<open>The id lines of a packet as the conditions of a declaration.\<close>

definition idLines :: "packet_info \<Rightarrow> ((packet_version_t \<Rightarrow> bool) \<times> u16) list" where
  "idLines p = map (\<lambda>(c, i). (holds c, i)) (pi_ids p)"

definition getInfoId :: "packet_info \<Rightarrow> packet_version_t \<Rightarrow> u16 option" where
  "getInfoId p version = foldl (\<lambda>r (c, i). if holds c version then Some i else r) None (pi_ids p)"

text \<open>\<open>PACKET_IDS::getLatest()\<close>, the id of the last line; as an \<open>int32_t\<close> it stands for the packet type.\<close>

definition getLatest :: "packet_info \<Rightarrow> u16" where
  "getLatest p = snd (last (pi_ids p))"

definition packetID :: "packet_info \<Rightarrow> int" where
  "packetID p = uint (getLatest p)"

section \<open>The registry\<close>

definition addPacketMetadataForId :: "packet_info \<Rightarrow> u16 \<Rightarrow> packet_info list list \<Rightarrow> packet_info list list" where
  "addPacketMetadataForId p packetId infos =
     (let k = unat packetId;
          infos = (if length infos \<le> k then infos @ replicate (k + 1 - length infos) [] else infos)
      in infos[k := infos ! k @ [p]])"

definition addPacketType :: "packet_info \<Rightarrow> packet_info list list \<Rightarrow> packet_info list list" where
  "addPacketType p infos = foldl (\<lambda>infos (c, i). addPacketMetadataForId p i infos) infos (pi_ids p)"

text \<open>\<open>ps\<close> is the order in which the generated \<open>iteratePackets\<close> visits the packets.\<close>

definition initPacketsInfo :: "packet_info list \<Rightarrow> packet_info list list \<Rightarrow> packet_info list list" where
  "initPacketsInfo ps infos = foldl (\<lambda>infos p. addPacketType p infos) infos ps"

definition sameSession :: "session_type \<Rightarrow> packet_info \<Rightarrow> bool" where
  "sameSession s p \<longleftrightarrow> s = AnySession \<or> pi_session p = AnySession \<or> pi_session p = s"

definition sameOrigin :: "packet_origin \<Rightarrow> packet_info \<Rightarrow> bool" where
  "sameOrigin d p \<longleftrightarrow> d = AnyOrigin \<or> pi_origin p = AnyOrigin \<or> pi_origin p = d"

text \<open>The state is the static \<open>packetsInfo\<close>, filled by the first lookup.\<close>

definition getPacketMetadata ::
  "packet_info list \<Rightarrow> u16 \<Rightarrow> session_type \<Rightarrow> packet_origin \<Rightarrow> packet_version_t \<Rightarrow> packet_info list list \<Rightarrow>
     packet_info option \<times> packet_info list list" where
  "getPacketMetadata ps i s d version infos =
     (let infos = (if infos = [] then initPacketsInfo ps infos else infos)
      in (if length infos > unat i
          then find (\<lambda>p. sameSession s p \<and> sameOrigin d p \<and> getInfoId p version = Some i) (infos ! unat i)
          else None, infos))"

definition convertPacketIdToTypeId ::
  "packet_info list \<Rightarrow> u16 \<Rightarrow> session_type \<Rightarrow> packet_origin \<Rightarrow> packet_version_t \<Rightarrow> packet_info list list \<Rightarrow>
     int \<times> packet_info list list" where
  "convertPacketIdToTypeId ps i s d version infos =
     (case getPacketMetadata ps i s d version infos of
        (Some p, infos) \<Rightarrow> (packetID p, infos) | (None, infos) \<Rightarrow> (uint i, infos))"

definition getPacketName ::
  "packet_info list \<Rightarrow> u32 \<Rightarrow> session_type \<Rightarrow> packet_origin \<Rightarrow> packet_version_t \<Rightarrow> packet_info list list \<Rightarrow>
     string option \<times> packet_info list list" where
  "getPacketName ps i s d version infos =
     (let (r, infos) = getPacketMetadata ps (ucast i) s d version infos in (map_option pi_name r, infos))"

definition getPacketOriginFromDirection :: "bool \<Rightarrow> packet_origin \<Rightarrow> packet_origin" where
  "getPacketOriginFromDirection outgoing self =
     (if self = AnyOrigin then AnyOrigin else if outgoing then self
      else if self = ClientO then ServerO else ClientO)"

text \<open>The names of the two ends, \<open>serverName\<close> and \<open>clientName\<close>, null for other session types.\<close>

definition endNames :: "session_type \<Rightarrow> (string \<times> string) option" where
  "endNames s = (case s of
       AuthClientS \<Rightarrow> Some (''Auth'', ''Client'')
     | AuthGameS \<Rightarrow> Some (''Auth'', ''Game'')
     | GameClientS \<Rightarrow> Some (''Game'', ''Client'')
     | UploadClientS \<Rightarrow> Some (''Upload'', ''Client'')
     | UploadGameS \<Rightarrow> Some (''Upload'', ''Game'')
     | AnySession \<Rightarrow> None)"

definition getPacketOriginName :: "bool \<Rightarrow> session_type \<Rightarrow> packet_origin \<Rightarrow> string \<times> string" where
  "getPacketOriginName outgoing s self =
     (let origin = getPacketOriginFromDirection outgoing self;
          server = map_option fst (endNames s);
          client = map_option snd (endNames s);
          fromName = (case origin of ClientO \<Rightarrow> client | ServerO \<Rightarrow> server | AnyOrigin \<Rightarrow> None);
          toName = (case origin of ClientO \<Rightarrow> server | ServerO \<Rightarrow> client | AnyOrigin \<Rightarrow> None)
      in (case fromName of Some n \<Rightarrow> n | None \<Rightarrow> if outgoing then ''local'' else ''remote'',
          case toName of Some n \<Rightarrow> n | None \<Rightarrow> if outgoing then ''remote'' else ''local''))"

section \<open>processPacket\<close>

datatype dispatched = Skipped | Called packet_info | NotHandled

text \<open>\<open>cases s d\<close> are the \<open>PACKET_CASE\<close> lines that the build generates for a session type and an origin. The labels
  of a switch are distinct.\<close>

definition processPacketId ::
  "(session_type \<Rightarrow> packet_origin \<Rightarrow> packet_info list) \<Rightarrow> packet_info list \<Rightarrow> session_type \<Rightarrow> packet_origin \<Rightarrow>
     packet_version_t \<Rightarrow> u16 \<Rightarrow> packet_info list list \<Rightarrow> dispatched \<times> packet_info list list" where
  "processPacketId cases ps s d version packetId infos =
     (if packetId = 9999 then (Skipped, infos)
      else let (packetType, infos) = convertPacketIdToTypeId ps packetId s d version infos
           in (case find (\<lambda>p. packetID p = packetType) (cases s d) of
                 Some p \<Rightarrow> (Called p, infos) | None \<Rightarrow> (NotHandled, infos)))"

section \<open>Lookups\<close>

text \<open>What one end logs as outgoing, the other end logs as incoming with the same names, if both know who they are.\<close>

lemma origin_names_agree:
  assumes "self \<noteq> AnyOrigin" "other \<noteq> AnyOrigin" "other \<noteq> self" "s \<noteq> AnySession"
  shows "getPacketOriginName False s other = getPacketOriginName True s self"
  using assms by (cases self; cases other; cases s) (simp_all add: getPacketOriginName_def getPacketOriginFromDirection_def endNames_def)

text \<open>The registry holds under each number the packets that have a line with that id, in the order of registration.\<close>

definition registered :: "nat \<Rightarrow> packet_info list list \<Rightarrow> packet_info set" where
  "registered k infos = (if k < length infos then set (infos ! k) else {})"

lemma registered_Nil [simp]: "registered k [] = {}"
  by (simp add: registered_def)

lemma registered_add: "registered k (addPacketMetadataForId p i infos) = registered k infos \<union> (if k = unat i then {p} else {})"
proof (cases "unat i < length infos")
  case True
  then show ?thesis by (auto simp: registered_def addPacketMetadataForId_def Let_def nth_list_update)
next
  case False
  then show ?thesis
    by (auto simp: registered_def addPacketMetadataForId_def Let_def nth_list_update nth_append split: if_splits)
qed

lemma registered_type:
  "registered k (addPacketType p infos) = registered k infos \<union> {q. q = p \<and> k \<in> (\<lambda>(c, i). unat i) ` set (pi_ids p)}"
proof -
  have "registered k (foldl (\<lambda>infos (c, i). addPacketMetadataForId p i infos) infos ids) =
      registered k infos \<union> {q. q = p \<and> k \<in> (\<lambda>(c, i). unat i) ` set ids}" for ids :: "(epics \<times> u16) list"
    by (induction ids arbitrary: infos) (auto simp: registered_add split: if_splits)
  then show ?thesis by (simp add: addPacketType_def)
qed

lemma registered_init:
  "registered k (initPacketsInfo ps infos) =
     registered k infos \<union> {p \<in> set ps. k \<in> (\<lambda>(c, i). unat i) ` set (pi_ids p)}"
  unfolding initPacketsInfo_def
  by (induction ps arbitrary: infos) (auto simp: registered_type)

lemma getInfoId_line:
  assumes "getInfoId p version = Some i"
  shows "\<exists>c. (c, i) \<in> set (pi_ids p) \<and> holds c version"
proof -
  have "r0 = Some i \<or> (\<exists>c. (c, i) \<in> set ids \<and> holds c version)"
    if "foldl (\<lambda>r (c, i). if holds c version then Some i else r) r0 ids = Some i" for ids r0
    using that
  proof (induction ids arbitrary: r0)
    case (Cons x ids)
    then show ?case by (cases x) (fastforce split: if_splits)
  qed simp
  then show ?thesis using assms by (auto simp: getInfoId_def)
qed

text \<open>A lookup finds the only packet that can carry the id, if there is one.\<close>

lemma metadata_found:
  assumes "infos = [] \<or> infos = initPacketsInfo ps []"
    and "p \<in> set ps" "sameSession s p" "sameOrigin d p" "getInfoId p version = Some i"
    and "\<And>q. q \<in> set ps \<Longrightarrow> sameSession s q \<Longrightarrow> sameOrigin d q \<Longrightarrow> getInfoId q version = Some i \<Longrightarrow> q = p"
  shows "fst (getPacketMetadata ps i s d version infos) = Some p"
proof -
  let ?I = "initPacketsInfo ps []"
  let ?P = "\<lambda>p. sameSession s p \<and> sameOrigin d p \<and> getInfoId p version = Some i"
  have I: "(if infos = [] then initPacketsInfo ps infos else infos) = ?I" using assms(1) by auto
  have reg: "registered (unat i) ?I = {p \<in> set ps. unat i \<in> (\<lambda>(c, i). unat i) ` set (pi_ids p)}"
    by (simp add: registered_init)
  have "p \<in> registered (unat i) ?I"
    using getInfoId_line [OF assms(5)] assms(2) by (force simp: reg)
  then have "unat i < length ?I" "p \<in> set (?I ! unat i)" "set (?I ! unat i) \<subseteq> set ps"
    using reg by (auto simp: registered_def split: if_splits)
  moreover have "find ?P xs = Some p" if "p \<in> set xs" "set xs \<subseteq> set ps" for xs
    using that assms(3-6) by (induction xs) auto
  ultimately show ?thesis by (simp add: getPacketMetadata_def I Let_def)
qed

lemma metadata_none:
  assumes "infos = [] \<or> infos = initPacketsInfo ps []"
    and "\<And>q. q \<in> set ps \<Longrightarrow> sameSession s q \<Longrightarrow> sameOrigin d q \<Longrightarrow> getInfoId q version \<noteq> Some i"
  shows "fst (getPacketMetadata ps i s d version infos) = None"
proof -
  have I: "(if infos = [] then initPacketsInfo ps infos else infos) = initPacketsInfo ps []" using assms(1) by auto
  have "set (initPacketsInfo ps [] ! unat i) \<subseteq> set ps" if "unat i < length (initPacketsInfo ps [])"
    using registered_init [of "unat i" ps "[]"] that by (auto simp: registered_def)
  then show ?thesis using assms(2) by (auto simp: getPacketMetadata_def I Let_def find_None_iff)
qed

end
