(* ===== verification/PacketInfos.thy ===== *)
theory PacketInfos
  imports PacketIds
begin

text \<open>
  The metadata of every packet under librzu/src/packets that has a declaration: its id lines, session type and
  origin (\<open>TS_..._ID\<close> and the \<open>CREATE_PACKET\<close> line), and the list of them all.
\<close>

definition TS_AC_ACCOUNT_NAME_INFO :: packet_info where
  "TS_AC_ACCOUNT_NAME_INFO = packetInfo ''TS_AC_ACCOUNT_NAME''
     [(Always, 10014)] AuthClientS ServerO"

definition TS_AC_AES_KEY_IV_INFO :: packet_info where
  "TS_AC_AES_KEY_IV_INFO = packetInfo ''TS_AC_AES_KEY_IV''
     [(Before EPIC_9_6_3, 72), (Since EPIC_9_6_3, 1072)] AuthClientS ServerO"

definition TS_AC_RESULT_INFO :: packet_info where
  "TS_AC_RESULT_INFO = packetInfo ''TS_AC_RESULT''
     [(Always, 10000)] AuthClientS ServerO"

definition TS_AC_RESULT_WITH_STRING_INFO :: packet_info where
  "TS_AC_RESULT_WITH_STRING_INFO = packetInfo ''TS_AC_RESULT_WITH_STRING''
     [(Always, 10002)] AuthClientS ServerO"

definition TS_AC_SELECT_SERVER_INFO :: packet_info where
  "TS_AC_SELECT_SERVER_INFO = packetInfo ''TS_AC_SELECT_SERVER''
     [(Always, 10024)] AuthClientS ServerO"

definition TS_AC_SERVER_LIST_INFO :: packet_info where
  "TS_AC_SERVER_LIST_INFO = packetInfo ''TS_AC_SERVER_LIST''
     [(Always, 10022)] AuthClientS ServerO"

definition TS_AC_UPDATE_PENDING_TIME_INFO :: packet_info where
  "TS_AC_UPDATE_PENDING_TIME_INFO = packetInfo ''TS_AC_UPDATE_PENDING_TIME''
     [(Always, 10025)] AuthClientS ServerO"

definition TS_CA_ACCOUNT_INFO :: packet_info where
  "TS_CA_ACCOUNT_INFO = packetInfo ''TS_CA_ACCOUNT''
     [(Always, 10010)] AuthClientS ClientO"

definition TS_CA_DISTRIBUTION_INFO_INFO :: packet_info where
  "TS_CA_DISTRIBUTION_INFO_INFO = packetInfo ''TS_CA_DISTRIBUTION_INFO''
     [(Always, 10026)] AuthClientS ClientO"

definition TS_CA_IMBC_ACCOUNT_INFO :: packet_info where
  "TS_CA_IMBC_ACCOUNT_INFO = packetInfo ''TS_CA_IMBC_ACCOUNT''
     [(Always, 10012)] AuthClientS ClientO"

definition TS_CA_OTP_ACCOUNT_INFO :: packet_info where
  "TS_CA_OTP_ACCOUNT_INFO = packetInfo ''TS_CA_OTP_ACCOUNT''
     [(Always, 10011)] AuthClientS ClientO"

definition TS_CA_RSA_PUBLIC_KEY_INFO :: packet_info where
  "TS_CA_RSA_PUBLIC_KEY_INFO = packetInfo ''TS_CA_RSA_PUBLIC_KEY''
     [(Before EPIC_9_6_3, 71), (Since EPIC_9_6_3, 1071)] AuthClientS ClientO"

definition TS_CA_SELECT_SERVER_INFO :: packet_info where
  "TS_CA_SELECT_SERVER_INFO = packetInfo ''TS_CA_SELECT_SERVER''
     [(Always, 10023)] AuthClientS ClientO"

definition TS_CA_SERVER_LIST_INFO :: packet_info where
  "TS_CA_SERVER_LIST_INFO = packetInfo ''TS_CA_SERVER_LIST''
     [(Always, 10021)] AuthClientS ClientO"

definition TS_CA_VERSION_INFO :: packet_info where
  "TS_CA_VERSION_INFO = packetInfo ''TS_CA_VERSION''
     [(Always, 10001)] AuthClientS ClientO"

definition TS_CS_ACCOUNT_INFO :: packet_info where
  "TS_CS_ACCOUNT_INFO = packetInfo ''TS_CS_ACCOUNT''
     [(Before EPIC_9_6_3, 2000), (Since EPIC_9_6_3, 2400)] GameClientS ClientO"

definition TS_CS_ACCOUNT_WITH_AUTH_INFO :: packet_info where
  "TS_CS_ACCOUNT_WITH_AUTH_INFO = packetInfo ''TS_CS_ACCOUNT_WITH_AUTH''
     [(Before EPIC_9_6_3, 2005), (Since EPIC_9_6_3, 2405)] GameClientS ClientO"

definition TS_CS_ANTI_HACK_INFO :: packet_info where
  "TS_CS_ANTI_HACK_INFO = packetInfo ''TS_CS_ANTI_HACK''
     [(Before EPIC_9_6_3, 54), (Since EPIC_9_6_3, 1054)] GameClientS ClientO"

definition TS_CS_ARRANGE_ITEM_INFO :: packet_info where
  "TS_CS_ARRANGE_ITEM_INFO = packetInfo ''TS_CS_ARRANGE_ITEM''
     [(Before EPIC_9_6_3, 219), (Since EPIC_9_6_3, 1219)] GameClientS ClientO"

definition TS_CS_ATTACK_REQUEST_INFO :: packet_info where
  "TS_CS_ATTACK_REQUEST_INFO = packetInfo ''TS_CS_ATTACK_REQUEST''
     [(Before EPIC_9_6_3, 100), (Since EPIC_9_6_3, 1100)] GameClientS ClientO"

definition TS_CS_AUCTION_BID_INFO :: packet_info where
  "TS_CS_AUCTION_BID_INFO = packetInfo ''TS_CS_AUCTION_BID''
     [(Before EPIC_9_6_3, 1306), (Since EPIC_9_6_3, 2306)] GameClientS ClientO"

definition TS_CS_AUCTION_BIDDED_LIST_INFO :: packet_info where
  "TS_CS_AUCTION_BIDDED_LIST_INFO = packetInfo ''TS_CS_AUCTION_BIDDED_LIST''
     [(Before EPIC_9_6_3, 1304), (Since EPIC_9_6_3, 2304)] GameClientS ClientO"

definition TS_CS_AUCTION_CANCEL_INFO :: packet_info where
  "TS_CS_AUCTION_CANCEL_INFO = packetInfo ''TS_CS_AUCTION_CANCEL''
     [(Before EPIC_9_6_3, 1310), (Since EPIC_9_6_3, 2310)] GameClientS ClientO"

definition TS_CS_AUCTION_INSTANT_PURCHASE_INFO :: packet_info where
  "TS_CS_AUCTION_INSTANT_PURCHASE_INFO = packetInfo ''TS_CS_AUCTION_INSTANT_PURCHASE''
     [(Before EPIC_9_6_3, 1308), (Since EPIC_9_6_3, 2308)] GameClientS ClientO"

definition TS_CS_AUCTION_REGISTER_INFO :: packet_info where
  "TS_CS_AUCTION_REGISTER_INFO = packetInfo ''TS_CS_AUCTION_REGISTER''
     [(Before EPIC_9_6_3, 1309), (Since EPIC_9_6_3, 2309)] GameClientS ClientO"

definition TS_CS_AUCTION_SEARCH_INFO :: packet_info where
  "TS_CS_AUCTION_SEARCH_INFO = packetInfo ''TS_CS_AUCTION_SEARCH''
     [(Before EPIC_9_6_3, 1300), (Since EPIC_9_6_3, 2300)] GameClientS ClientO"

definition TS_CS_AUCTION_SELLING_LIST_INFO :: packet_info where
  "TS_CS_AUCTION_SELLING_LIST_INFO = packetInfo ''TS_CS_AUCTION_SELLING_LIST''
     [(Before EPIC_9_6_3, 1302), (Since EPIC_9_6_3, 2302)] GameClientS ClientO"

definition TS_CS_BATTLE_ARENA_ABSENCE_CHECK_ANSWER_INFO :: packet_info where
  "TS_CS_BATTLE_ARENA_ABSENCE_CHECK_ANSWER_INFO = packetInfo ''TS_CS_BATTLE_ARENA_ABSENCE_CHECK_ANSWER''
     [(Always, 4719)] GameClientS ClientO"

definition TS_CS_BATTLE_ARENA_ABSENCE_CHECK_REQUEST_INFO :: packet_info where
  "TS_CS_BATTLE_ARENA_ABSENCE_CHECK_REQUEST_INFO = packetInfo ''TS_CS_BATTLE_ARENA_ABSENCE_CHECK_REQUEST''
     [(Always, 4717)] GameClientS ClientO"

definition TS_CS_BATTLE_ARENA_ENTER_WHILE_COUNTDOWN_INFO :: packet_info where
  "TS_CS_BATTLE_ARENA_ENTER_WHILE_COUNTDOWN_INFO = packetInfo ''TS_CS_BATTLE_ARENA_ENTER_WHILE_COUNTDOWN''
     [(Always, 4707)] GameClientS ClientO"

definition TS_CS_BATTLE_ARENA_EXERCISE_READY_INFO :: packet_info where
  "TS_CS_BATTLE_ARENA_EXERCISE_READY_INFO = packetInfo ''TS_CS_BATTLE_ARENA_EXERCISE_READY''
     [(Always, 4708)] GameClientS ClientO"

definition TS_CS_BATTLE_ARENA_EXERCISE_START_INFO :: packet_info where
  "TS_CS_BATTLE_ARENA_EXERCISE_START_INFO = packetInfo ''TS_CS_BATTLE_ARENA_EXERCISE_START''
     [(Always, 4710)] GameClientS ClientO"

definition TS_CS_BATTLE_ARENA_JOIN_QUEUE_INFO :: packet_info where
  "TS_CS_BATTLE_ARENA_JOIN_QUEUE_INFO = packetInfo ''TS_CS_BATTLE_ARENA_JOIN_QUEUE''
     [(Always, 4701)] GameClientS ClientO"

definition TS_CS_BATTLE_ARENA_LEAVE_INFO :: packet_info where
  "TS_CS_BATTLE_ARENA_LEAVE_INFO = packetInfo ''TS_CS_BATTLE_ARENA_LEAVE''
     [(Always, 4704)] GameClientS ClientO"

definition TS_CS_BIND_SKILLCARD_INFO :: packet_info where
  "TS_CS_BIND_SKILLCARD_INFO = packetInfo ''TS_CS_BIND_SKILLCARD''
     [(Before EPIC_9_6_3, 284), (Since EPIC_9_6_3, 1284)] GameClientS ClientO"

definition TS_CS_BOOKMARK_TITLE_INFO :: packet_info where
  "TS_CS_BOOKMARK_TITLE_INFO = packetInfo ''TS_CS_BOOKMARK_TITLE''
     [(Before EPIC_9_6_3, 632), (Since EPIC_9_6_3, 1632)] GameClientS ClientO"

definition TS_CS_BUY_FROM_BOOTH_INFO :: packet_info where
  "TS_CS_BUY_FROM_BOOTH_INFO = packetInfo ''TS_CS_BUY_FROM_BOOTH''
     [(Before EPIC_9_6_3, 705), (Since EPIC_9_6_3, 1705)] GameClientS ClientO"

definition TS_CS_BUY_ITEM_INFO :: packet_info where
  "TS_CS_BUY_ITEM_INFO = packetInfo ''TS_CS_BUY_ITEM''
     [(Before EPIC_9_6_3, 251), (Since EPIC_9_6_3, 1251)] GameClientS ClientO"

definition TS_CS_CANCEL_ACTION_INFO :: packet_info where
  "TS_CS_CANCEL_ACTION_INFO = packetInfo ''TS_CS_CANCEL_ACTION''
     [(Before EPIC_9_6_3, 150), (Since EPIC_9_6_3, 1150)] GameClientS ClientO"

definition TS_CS_CHANGE_ALIAS_INFO :: packet_info where
  "TS_CS_CHANGE_ALIAS_INFO = packetInfo ''TS_CS_CHANGE_ALIAS''
     [(Before EPIC_9_6_3, 31), (Since EPIC_9_6_3, 1031)] GameClientS ClientO"

definition TS_CS_CHANGE_ITEM_POSITION_INFO :: packet_info where
  "TS_CS_CHANGE_ITEM_POSITION_INFO = packetInfo ''TS_CS_CHANGE_ITEM_POSITION''
     [(Before EPIC_9_6_3, 218), (Since EPIC_9_6_3, 1218)] GameClientS ClientO"

definition TS_CS_CHANGE_LOCATION_INFO :: packet_info where
  "TS_CS_CHANGE_LOCATION_INFO = packetInfo ''TS_CS_CHANGE_LOCATION''
     [(Before EPIC_9_6_3, 900), (Since EPIC_9_6_3, 1900)] GameClientS ClientO"

definition TS_CS_CHANGE_SECURITY_NO_INFO :: packet_info where
  "TS_CS_CHANGE_SECURITY_NO_INFO = packetInfo ''TS_CS_CHANGE_SECURITY_NO''
     [(Before EPIC_9_6_3, 9007), (Since EPIC_9_6_3, 8107)] GameClientS ClientO"

definition TS_CS_CHANGE_SUMMON_NAME_INFO :: packet_info where
  "TS_CS_CHANGE_SUMMON_NAME_INFO = packetInfo ''TS_CS_CHANGE_SUMMON_NAME''
     [(Before EPIC_9_6_3, 323), (Since EPIC_9_6_3, 1323)] GameClientS ClientO"

definition TS_CS_CHARACTER_LIST_INFO :: packet_info where
  "TS_CS_CHARACTER_LIST_INFO = packetInfo ''TS_CS_CHARACTER_LIST''
     [(Since EPIC_9_6_3, 2407), (Both (Since EPIC_9_4) (Both (IsNot EPIC_9_4_AR) (Before EPIC_9_6_3)), 2007), (Is EPIC_9_4_AR, 2179), (Flagged EPIC_FLAG_TESTSERVER, 2008), (Before EPIC_9_4, 2001)] GameClientS ClientO"

definition TS_CS_CHAT_REQUEST_INFO :: packet_info where
  "TS_CS_CHAT_REQUEST_INFO = packetInfo ''TS_CS_CHAT_REQUEST''
     [(Before EPIC_9_6_3, 20), (Since EPIC_9_6_3, 1020)] GameClientS ClientO"

definition TS_CS_CHECK_BOOTH_STARTABLE_INFO :: packet_info where
  "TS_CS_CHECK_BOOTH_STARTABLE_INFO = packetInfo ''TS_CS_CHECK_BOOTH_STARTABLE''
     [(Before EPIC_9_6_3, 711), (Since EPIC_9_6_3, 1711)] GameClientS ClientO"

definition TS_CS_CHECK_CHARACTER_NAME_INFO :: packet_info where
  "TS_CS_CHECK_CHARACTER_NAME_INFO = packetInfo ''TS_CS_CHECK_CHARACTER_NAME''
     [(Before EPIC_9_6_3, 2006), (Since EPIC_9_6_3, 2406)] GameClientS ClientO"

definition TS_CS_CHECK_ILLEGAL_USER_INFO :: packet_info where
  "TS_CS_CHECK_ILLEGAL_USER_INFO = packetInfo ''TS_CS_CHECK_ILLEGAL_USER''
     [(Before EPIC_9_6_3, 57), (Since EPIC_9_6_3, 1057)] GameClientS ClientO"

definition TS_CS_CLEAR_SECURITY_NO_INFO :: packet_info where
  "TS_CS_CLEAR_SECURITY_NO_INFO = packetInfo ''TS_CS_CLEAR_SECURITY_NO''
     [(Before EPIC_9_6_3, 9012), (Since EPIC_9_6_3, 8112)] GameClientS ClientO"

definition TS_CS_COMPETE_ANSWER_INFO :: packet_info where
  "TS_CS_COMPETE_ANSWER_INFO = packetInfo ''TS_CS_COMPETE_ANSWER''
     [(Always, 4502)] GameClientS ClientO"

definition TS_CS_COMPETE_REQUEST_INFO :: packet_info where
  "TS_CS_COMPETE_REQUEST_INFO = packetInfo ''TS_CS_COMPETE_REQUEST''
     [(Always, 4500)] GameClientS ClientO"

definition TS_CS_CONTACT_INFO :: packet_info where
  "TS_CS_CONTACT_INFO = packetInfo ''TS_CS_CONTACT''
     [(Always, 3002)] GameClientS ClientO"

definition TS_CS_CREATE_CHARACTER_INFO :: packet_info where
  "TS_CS_CREATE_CHARACTER_INFO = packetInfo ''TS_CS_CREATE_CHARACTER''
     [(Before EPIC_9_6_3, 2002), (Since EPIC_9_6_3, 2402)] GameClientS ClientO"

definition TS_CS_CREATE_SECURITY_NO_INFO :: packet_info where
  "TS_CS_CREATE_SECURITY_NO_INFO = packetInfo ''TS_CS_CREATE_SECURITY_NO''
     [(Before EPIC_9_6_3, 9006), (Since EPIC_9_6_3, 8106)] GameClientS ClientO"

definition TS_CS_DECOMPOSE_INFO :: packet_info where
  "TS_CS_DECOMPOSE_INFO = packetInfo ''TS_CS_DECOMPOSE''
     [(Before EPIC_9_6_3, 265), (Since EPIC_9_6_3, 1265)] GameClientS ClientO"

definition TS_CS_DELETE_CHARACTER_INFO :: packet_info where
  "TS_CS_DELETE_CHARACTER_INFO = packetInfo ''TS_CS_DELETE_CHARACTER''
     [(Before EPIC_9_6_3, 2003), (Since EPIC_9_6_3, 2403)] GameClientS ClientO"

definition TS_CS_DIALOG_INFO :: packet_info where
  "TS_CS_DIALOG_INFO = packetInfo ''TS_CS_DIALOG''
     [(Always, 3001)] GameClientS ClientO"

definition TS_CS_DONATE_ITEM_INFO :: packet_info where
  "TS_CS_DONATE_ITEM_INFO = packetInfo ''TS_CS_DONATE_ITEM''
     [(Before EPIC_9_6_3, 258), (Since EPIC_9_6_3, 1258)] GameClientS ClientO"

definition TS_CS_DONATE_REWARD_INFO :: packet_info where
  "TS_CS_DONATE_REWARD_INFO = packetInfo ''TS_CS_DONATE_REWARD''
     [(Before EPIC_9_6_3, 259), (Since EPIC_9_6_3, 1259)] GameClientS ClientO"

definition TS_CS_DROP_ITEM_INFO :: packet_info where
  "TS_CS_DROP_ITEM_INFO = packetInfo ''TS_CS_DROP_ITEM''
     [(Before EPIC_9_6_3, 203), (Since EPIC_9_6_3, 1203)] GameClientS ClientO"

definition TS_CS_DROP_QUEST_INFO :: packet_info where
  "TS_CS_DROP_QUEST_INFO = packetInfo ''TS_CS_DROP_QUEST''
     [(Before EPIC_9_6_3, 603), (Since EPIC_9_6_3, 1603)] GameClientS ClientO"

definition TS_CS_EMOTION_INFO :: packet_info where
  "TS_CS_EMOTION_INFO = packetInfo ''TS_CS_EMOTION''
     [(Before EPIC_9_6_3, 1202), (Since EPIC_9_6_3, 2202)] GameClientS ClientO"

definition TS_CS_END_QUEST_INFO :: packet_info where
  "TS_CS_END_QUEST_INFO = packetInfo ''TS_CS_END_QUEST''
     [(Before EPIC_9_6_3, 605), (Since EPIC_9_6_3, 1605)] GameClientS ClientO"

definition TS_CS_ENTER_EVENT_AREA_INFO :: packet_info where
  "TS_CS_ENTER_EVENT_AREA_INFO = packetInfo ''TS_CS_ENTER_EVENT_AREA''
     [(Before EPIC_9_6_3, 15), (Since EPIC_9_6_3, 1015)] GameClientS ClientO"

definition TS_CS_ERASE_ITEM_INFO :: packet_info where
  "TS_CS_ERASE_ITEM_INFO = packetInfo ''TS_CS_ERASE_ITEM''
     [(Before EPIC_9_6_3, 208), (Since EPIC_9_6_3, 1208)] GameClientS ClientO"

definition TS_CS_FOSTER_CREATURE_INFO :: packet_info where
  "TS_CS_FOSTER_CREATURE_INFO = packetInfo ''TS_CS_FOSTER_CREATURE''
     [(Always, 6002)] GameClientS ClientO"

definition TS_CS_GAME_GUARD_AUTH_ANSWER_INFO :: packet_info where
  "TS_CS_GAME_GUARD_AUTH_ANSWER_INFO = packetInfo ''TS_CS_GAME_GUARD_AUTH_ANSWER''
     [(Before EPIC_9_6_3, 56), (Since EPIC_9_6_3, 1056)] GameClientS ClientO"

definition TS_CS_GAME_TIME_INFO :: packet_info where
  "TS_CS_GAME_TIME_INFO = packetInfo ''TS_CS_GAME_TIME''
     [(Before EPIC_9_6_3, 1100), (Since EPIC_9_6_3, 2100)] GameClientS ClientO"

definition TS_CS_GET_BOOTHS_NAME_INFO :: packet_info where
  "TS_CS_GET_BOOTHS_NAME_INFO = packetInfo ''TS_CS_GET_BOOTHS_NAME''
     [(Before EPIC_9_6_3, 707), (Since EPIC_9_6_3, 1707)] GameClientS ClientO"

definition TS_CS_GET_REGION_INFO_INFO :: packet_info where
  "TS_CS_GET_REGION_INFO_INFO = packetInfo ''TS_CS_GET_REGION_INFO''
     [(Before EPIC_9_6_3, 550), (Since EPIC_9_6_3, 1550)] GameClientS ClientO"

definition TS_CS_GET_SUMMON_SETUP_INFO_INFO :: packet_info where
  "TS_CS_GET_SUMMON_SETUP_INFO_INFO = packetInfo ''TS_CS_GET_SUMMON_SETUP_INFO''
     [(Before EPIC_9_6_3, 324), (Since EPIC_9_6_3, 1324)] GameClientS ClientO"

definition TS_CS_GET_WEATHER_INFO_INFO :: packet_info where
  "TS_CS_GET_WEATHER_INFO_INFO = packetInfo ''TS_CS_GET_WEATHER_INFO''
     [(Before EPIC_9_6_3, 903), (Since EPIC_9_6_3, 1903)] GameClientS ClientO"

definition TS_CS_HIDE_EQUIP_INFO_INFO :: packet_info where
  "TS_CS_HIDE_EQUIP_INFO_INFO = packetInfo ''TS_CS_HIDE_EQUIP_INFO''
     [(Before EPIC_9_6_3, 221), (Since EPIC_9_6_3, 1221)] GameClientS ClientO"

definition TS_CS_HUNTAHOLIC_BEGIN_HUNTING_INFO :: packet_info where
  "TS_CS_HUNTAHOLIC_BEGIN_HUNTING_INFO = packetInfo ''TS_CS_HUNTAHOLIC_BEGIN_HUNTING''
     [(Always, 4011)] GameClientS ClientO"

definition TS_CS_HUNTAHOLIC_CREATE_INSTANCE_INFO :: packet_info where
  "TS_CS_HUNTAHOLIC_CREATE_INSTANCE_INFO = packetInfo ''TS_CS_HUNTAHOLIC_CREATE_INSTANCE''
     [(Always, 4003)] GameClientS ClientO"

definition TS_CS_HUNTAHOLIC_INSTANCE_LIST_INFO :: packet_info where
  "TS_CS_HUNTAHOLIC_INSTANCE_LIST_INFO = packetInfo ''TS_CS_HUNTAHOLIC_INSTANCE_LIST''
     [(Always, 4000)] GameClientS ClientO"

definition TS_CS_HUNTAHOLIC_JOIN_INSTANCE_INFO :: packet_info where
  "TS_CS_HUNTAHOLIC_JOIN_INSTANCE_INFO = packetInfo ''TS_CS_HUNTAHOLIC_JOIN_INSTANCE''
     [(Always, 4004)] GameClientS ClientO"

definition TS_CS_HUNTAHOLIC_LEAVE_INSTANCE_INFO :: packet_info where
  "TS_CS_HUNTAHOLIC_LEAVE_INSTANCE_INFO = packetInfo ''TS_CS_HUNTAHOLIC_LEAVE_INSTANCE''
     [(Always, 4005)] GameClientS ClientO"

definition TS_CS_HUNTAHOLIC_LEAVE_LOBBY_INFO :: packet_info where
  "TS_CS_HUNTAHOLIC_LEAVE_LOBBY_INFO = packetInfo ''TS_CS_HUNTAHOLIC_LEAVE_LOBBY''
     [(Always, 4008)] GameClientS ClientO"

definition TS_CS_INSTANCE_GAME_ENTER_INFO :: packet_info where
  "TS_CS_INSTANCE_GAME_ENTER_INFO = packetInfo ''TS_CS_INSTANCE_GAME_ENTER''
     [(Always, 4250)] GameClientS ClientO"

definition TS_CS_INSTANCE_GAME_EXIT_INFO :: packet_info where
  "TS_CS_INSTANCE_GAME_EXIT_INFO = packetInfo ''TS_CS_INSTANCE_GAME_EXIT''
     [(Always, 4251)] GameClientS ClientO"

definition TS_CS_INSTANCE_GAME_SCORE_REQUEST_INFO :: packet_info where
  "TS_CS_INSTANCE_GAME_SCORE_REQUEST_INFO = packetInfo ''TS_CS_INSTANCE_GAME_SCORE_REQUEST''
     [(Always, 4252)] GameClientS ClientO"

definition TS_CS_ITEM_KEEPING_LIST_INFO :: packet_info where
  "TS_CS_ITEM_KEEPING_LIST_INFO = packetInfo ''TS_CS_ITEM_KEEPING_LIST''
     [(Before EPIC_9_6_3, 1350), (Since EPIC_9_6_3, 2350)] GameClientS ClientO"

definition TS_CS_ITEM_KEEPING_TAKE_INFO :: packet_info where
  "TS_CS_ITEM_KEEPING_TAKE_INFO = packetInfo ''TS_CS_ITEM_KEEPING_TAKE''
     [(Before EPIC_9_6_3, 1352), (Since EPIC_9_6_3, 2352)] GameClientS ClientO"

definition TS_CS_JOB_LEVEL_UP_INFO :: packet_info where
  "TS_CS_JOB_LEVEL_UP_INFO = packetInfo ''TS_CS_JOB_LEVEL_UP''
     [(Before EPIC_9_6_3, 410), (Since EPIC_9_6_3, 1410)] GameClientS ClientO"

definition TS_CS_LEARN_SKILL_INFO :: packet_info where
  "TS_CS_LEARN_SKILL_INFO = packetInfo ''TS_CS_LEARN_SKILL''
     [(Before EPIC_9_6_3, 402), (Since EPIC_9_6_3, 1402)] GameClientS ClientO"

definition TS_CS_LEAVE_EVENT_AREA_INFO :: packet_info where
  "TS_CS_LEAVE_EVENT_AREA_INFO = packetInfo ''TS_CS_LEAVE_EVENT_AREA''
     [(Before EPIC_9_6_3, 16), (Since EPIC_9_6_3, 1016)] GameClientS ClientO"

definition TS_CS_LOGIN_INFO :: packet_info where
  "TS_CS_LOGIN_INFO = packetInfo ''TS_CS_LOGIN''
     [(Before EPIC_9_2, 1), (Both (Since EPIC_9_2) (Before EPIC_9_4_2), 61), (Both (Since EPIC_9_4_2) (Before EPIC_9_6_3), 62), (Since EPIC_9_6_3, 1062)] GameClientS ClientO"

definition TS_CS_LOGOUT_INFO :: packet_info where
  "TS_CS_LOGOUT_INFO = packetInfo ''TS_CS_LOGOUT''
     [(Before EPIC_9_6_3, 27), (Since EPIC_9_6_3, 1027)] GameClientS ClientO"

definition TS_CS_MIX_INFO :: packet_info where
  "TS_CS_MIX_INFO = packetInfo ''TS_CS_MIX''
     [(Before EPIC_9_6_3, 256), (Since EPIC_9_6_3, 1256)] GameClientS ClientO"

definition TS_CS_MONSTER_RECOGNIZE_INFO :: packet_info where
  "TS_CS_MONSTER_RECOGNIZE_INFO = packetInfo ''TS_CS_MONSTER_RECOGNIZE''
     [(Before EPIC_9_6_3, 517), (Since EPIC_9_6_3, 1517)] GameClientS ClientO"

definition TS_CS_MOVE_REQUEST_INFO :: packet_info where
  "TS_CS_MOVE_REQUEST_INFO = packetInfo ''TS_CS_MOVE_REQUEST''
     [(Before EPIC_9_2, 5), (Both (Since EPIC_9_2) (Before EPIC_9_4_2), 65), (Both (Since EPIC_9_4_2) (Before EPIC_9_6_3), 63), (Since EPIC_9_6_3, 1063)] GameClientS ClientO"

definition TS_CS_NURSE_CREATURE_INFO :: packet_info where
  "TS_CS_NURSE_CREATURE_INFO = packetInfo ''TS_CS_NURSE_CREATURE''
     [(Always, 6006)] GameClientS ClientO"

definition TS_CS_OPEN_ITEM_SHOP_INFO :: packet_info where
  "TS_CS_OPEN_ITEM_SHOP_INFO = packetInfo ''TS_CS_OPEN_ITEM_SHOP''
     [(Before EPIC_9_6_3, 10000), (Since EPIC_9_6_3, 9000)] GameClientS ClientO"

definition TS_CS_PARTYMATCH_ACTION_INFO :: packet_info where
  "TS_CS_PARTYMATCH_ACTION_INFO = packetInfo ''TS_CS_PARTYMATCH_ACTION''
     [(Always, 7000)] GameClientS ClientO"

definition TS_CS_PUTOFF_CARD_INFO :: packet_info where
  "TS_CS_PUTOFF_CARD_INFO = packetInfo ''TS_CS_PUTOFF_CARD''
     [(Before EPIC_9_6_3, 215), (Since EPIC_9_6_3, 1215)] GameClientS ClientO"

definition TS_CS_PUTOFF_ITEM_INFO :: packet_info where
  "TS_CS_PUTOFF_ITEM_INFO = packetInfo ''TS_CS_PUTOFF_ITEM''
     [(Before EPIC_9_6_3, 201), (Since EPIC_9_6_3, 1201)] GameClientS ClientO"

definition TS_CS_PUTON_CARD_INFO :: packet_info where
  "TS_CS_PUTON_CARD_INFO = packetInfo ''TS_CS_PUTON_CARD''
     [(Before EPIC_9_6_3, 214), (Since EPIC_9_6_3, 1214)] GameClientS ClientO"

definition TS_CS_PUTON_ITEM_INFO :: packet_info where
  "TS_CS_PUTON_ITEM_INFO = packetInfo ''TS_CS_PUTON_ITEM''
     [(Before EPIC_9_6_3, 200), (Since EPIC_9_6_3, 1200)] GameClientS ClientO"

definition TS_CS_PUTON_ITEM_SET_INFO :: packet_info where
  "TS_CS_PUTON_ITEM_SET_INFO = packetInfo ''TS_CS_PUTON_ITEM_SET''
     [(Before EPIC_9_6_3, 281), (Since EPIC_9_6_3, 1281)] GameClientS ClientO"

definition TS_CS_QUERY_INFO :: packet_info where
  "TS_CS_QUERY_INFO = packetInfo ''TS_CS_QUERY''
     [(Before EPIC_9_6_3, 13), (Since EPIC_9_6_3, 1013)] GameClientS ClientO"

definition TS_CS_QUEST_INFO_INFO :: packet_info where
  "TS_CS_QUEST_INFO_INFO = packetInfo ''TS_CS_QUEST_INFO''
     [(Before EPIC_9_6_3, 604), (Since EPIC_9_6_3, 1604)] GameClientS ClientO"

definition TS_CS_RANKING_TOP_RECORD_INFO :: packet_info where
  "TS_CS_RANKING_TOP_RECORD_INFO = packetInfo ''TS_CS_RANKING_TOP_RECORD''
     [(Always, 5000)] GameClientS ClientO"

definition TS_CS_REGION_UPDATE_INFO :: packet_info where
  "TS_CS_REGION_UPDATE_INFO = packetInfo ''TS_CS_REGION_UPDATE''
     [(Before EPIC_9_2, 7), (Both (Since EPIC_9_2) (Before EPIC_9_6_3), 67), (Since EPIC_9_6_3, 1067)] GameClientS ClientO"

definition TS_CS_REPAIR_SOULSTONE_INFO :: packet_info where
  "TS_CS_REPAIR_SOULSTONE_INFO = packetInfo ''TS_CS_REPAIR_SOULSTONE''
     [(Before EPIC_9_6_3, 262), (Since EPIC_9_6_3, 1262)] GameClientS ClientO"

definition TS_CS_REPORT_INFO :: packet_info where
  "TS_CS_REPORT_INFO = packetInfo ''TS_CS_REPORT''
     [(Always, 8000)] GameClientS ClientO"

definition TS_CS_REQUEST_INFO :: packet_info where
  "TS_CS_REQUEST_INFO = packetInfo ''TS_CS_REQUEST''
     [(Before EPIC_9_6_3, 60), (Since EPIC_9_6_3, 1060)] GameClientS ClientO"

definition TS_CS_REQUEST_CLEAR_SECURITY_NO_INFO :: packet_info where
  "TS_CS_REQUEST_CLEAR_SECURITY_NO_INFO = packetInfo ''TS_CS_REQUEST_CLEAR_SECURITY_NO''
     [(Before EPIC_9_6_3, 9010), (Since EPIC_9_6_3, 8110)] GameClientS ClientO"

definition TS_CS_REQUEST_FARM_INFO_INFO :: packet_info where
  "TS_CS_REQUEST_FARM_INFO_INFO = packetInfo ''TS_CS_REQUEST_FARM_INFO''
     [(Always, 6000)] GameClientS ClientO"

definition TS_CS_REQUEST_FARM_MARKET_INFO :: packet_info where
  "TS_CS_REQUEST_FARM_MARKET_INFO = packetInfo ''TS_CS_REQUEST_FARM_MARKET''
     [(Always, 6008)] GameClientS ClientO"

definition TS_CS_REQUEST_LOGOUT_INFO :: packet_info where
  "TS_CS_REQUEST_LOGOUT_INFO = packetInfo ''TS_CS_REQUEST_LOGOUT''
     [(Before EPIC_9_6_3, 26), (Since EPIC_9_6_3, 1026)] GameClientS ClientO"

definition TS_CS_REQUEST_REMOVE_STATE_INFO :: packet_info where
  "TS_CS_REQUEST_REMOVE_STATE_INFO = packetInfo ''TS_CS_REQUEST_REMOVE_STATE''
     [(Before EPIC_9_6_3, 408), (Since EPIC_9_6_3, 1408)] GameClientS ClientO"

definition TS_CS_REQUEST_RETURN_LOBBY_INFO :: packet_info where
  "TS_CS_REQUEST_RETURN_LOBBY_INFO = packetInfo ''TS_CS_REQUEST_RETURN_LOBBY''
     [(Before EPIC_9_6_3, 25), (Since EPIC_9_6_3, 1025)] GameClientS ClientO"

definition TS_CS_REQUEST_SECURITY_NO_CHANGE_INFO :: packet_info where
  "TS_CS_REQUEST_SECURITY_NO_CHANGE_INFO = packetInfo ''TS_CS_REQUEST_SECURITY_NO_CHANGE''
     [(Before EPIC_9_6_3, 9008), (Since EPIC_9_6_3, 8108)] GameClientS ClientO"

definition TS_CS_RESURRECTION_INFO :: packet_info where
  "TS_CS_RESURRECTION_INFO = packetInfo ''TS_CS_RESURRECTION''
     [(Before EPIC_9_6_3, 513), (Since EPIC_9_6_3, 1513)] GameClientS ClientO"

definition TS_CS_RETRIEVE_CREATURE_INFO :: packet_info where
  "TS_CS_RETRIEVE_CREATURE_INFO = packetInfo ''TS_CS_RETRIEVE_CREATURE''
     [(Always, 6004)] GameClientS ClientO"

definition TS_CS_RETURN_LOBBY_INFO :: packet_info where
  "TS_CS_RETURN_LOBBY_INFO = packetInfo ''TS_CS_RETURN_LOBBY''
     [(Before EPIC_9_6_3, 23), (Since EPIC_9_6_3, 1023)] GameClientS ClientO"

definition TS_CS_SELL_ITEM_INFO :: packet_info where
  "TS_CS_SELL_ITEM_INFO = packetInfo ''TS_CS_SELL_ITEM''
     [(Before EPIC_9_6_3, 252), (Since EPIC_9_6_3, 1252)] GameClientS ClientO"

definition TS_CS_SELL_TO_BOOTH_INFO :: packet_info where
  "TS_CS_SELL_TO_BOOTH_INFO = packetInfo ''TS_CS_SELL_TO_BOOTH''
     [(Before EPIC_9_6_3, 706), (Since EPIC_9_6_3, 1706)] GameClientS ClientO"

definition TS_CS_SET_MAIN_TITLE_INFO :: packet_info where
  "TS_CS_SET_MAIN_TITLE_INFO = packetInfo ''TS_CS_SET_MAIN_TITLE''
     [(Before EPIC_9_6_3, 628), (Since EPIC_9_6_3, 1628)] GameClientS ClientO"

definition TS_CS_SET_PET_NAME_INFO :: packet_info where
  "TS_CS_SET_PET_NAME_INFO = packetInfo ''TS_CS_SET_PET_NAME''
     [(Before EPIC_9_6_3, 354), (Since EPIC_9_6_3, 1354)] GameClientS ClientO"

definition TS_CS_SET_PROPERTY_INFO :: packet_info where
  "TS_CS_SET_PROPERTY_INFO = packetInfo ''TS_CS_SET_PROPERTY''
     [(Before EPIC_9_6_3, 508), (Since EPIC_9_6_3, 1508)] GameClientS ClientO"

definition TS_CS_SET_SUB_TITLE_INFO :: packet_info where
  "TS_CS_SET_SUB_TITLE_INFO = packetInfo ''TS_CS_SET_SUB_TITLE''
     [(Before EPIC_9_6_3, 630), (Since EPIC_9_6_3, 1630)] GameClientS ClientO"

definition TS_CS_SKILL_INFO :: packet_info where
  "TS_CS_SKILL_INFO = packetInfo ''TS_CS_SKILL''
     [(Before EPIC_9_6_3, 400), (Since EPIC_9_6_3, 1400)] GameClientS ClientO"

definition TS_CS_SOULSTONE_CRAFT_INFO :: packet_info where
  "TS_CS_SOULSTONE_CRAFT_INFO = packetInfo ''TS_CS_SOULSTONE_CRAFT''
     [(Before EPIC_9_6_3, 260), (Since EPIC_9_6_3, 1260)] GameClientS ClientO"

definition TS_CS_START_BOOTH_INFO :: packet_info where
  "TS_CS_START_BOOTH_INFO = packetInfo ''TS_CS_START_BOOTH''
     [(Before EPIC_9_6_3, 700), (Since EPIC_9_6_3, 1700)] GameClientS ClientO"

definition TS_CS_STOP_BOOTH_INFO :: packet_info where
  "TS_CS_STOP_BOOTH_INFO = packetInfo ''TS_CS_STOP_BOOTH''
     [(Before EPIC_9_6_3, 701), (Since EPIC_9_6_3, 1701)] GameClientS ClientO"

definition TS_CS_STOP_WATCH_BOOTH_INFO :: packet_info where
  "TS_CS_STOP_WATCH_BOOTH_INFO = packetInfo ''TS_CS_STOP_WATCH_BOOTH''
     [(Before EPIC_9_6_3, 704), (Since EPIC_9_6_3, 1704)] GameClientS ClientO"

definition TS_CS_STORAGE_INFO :: packet_info where
  "TS_CS_STORAGE_INFO = packetInfo ''TS_CS_STORAGE''
     [(Before EPIC_9_6_3, 212), (Since EPIC_9_6_3, 1212)] GameClientS ClientO"

definition TS_CS_SUMMON_INFO :: packet_info where
  "TS_CS_SUMMON_INFO = packetInfo ''TS_CS_SUMMON''
     [(Before EPIC_9_6_3, 304), (Since EPIC_9_6_3, 1304)] GameClientS ClientO"

definition TS_CS_SUMMON_CARD_SKILL_LIST_INFO :: packet_info where
  "TS_CS_SUMMON_CARD_SKILL_LIST_INFO = packetInfo ''TS_CS_SUMMON_CARD_SKILL_LIST''
     [(Before EPIC_9_6_3, 452), (Since EPIC_9_6_3, 1452)] GameClientS ClientO"

definition TS_CS_SWAP_EQUIP_INFO :: packet_info where
  "TS_CS_SWAP_EQUIP_INFO = packetInfo ''TS_CS_SWAP_EQUIP''
     [(Before EPIC_9_6_3, 223), (Since EPIC_9_6_3, 1223)] GameClientS ClientO"

definition TS_CS_TAKEOUT_COMMERCIAL_ITEM_INFO :: packet_info where
  "TS_CS_TAKEOUT_COMMERCIAL_ITEM_INFO = packetInfo ''TS_CS_TAKEOUT_COMMERCIAL_ITEM''
     [(Before EPIC_9_6_3, 10005), (Since EPIC_9_6_3, 9005)] GameClientS ClientO"

definition TS_CS_TAKE_ITEM_INFO :: packet_info where
  "TS_CS_TAKE_ITEM_INFO = packetInfo ''TS_CS_TAKE_ITEM''
     [(Before EPIC_9_6_3, 204), (Since EPIC_9_6_3, 1204)] GameClientS ClientO"

definition TS_CS_TARGETING_INFO :: packet_info where
  "TS_CS_TARGETING_INFO = packetInfo ''TS_CS_TARGETING''
     [(Before EPIC_9_6_3, 511), (Since EPIC_9_6_3, 1511)] GameClientS ClientO"

definition TS_CS_TRANSMIT_ETHEREAL_DURABILITY_INFO :: packet_info where
  "TS_CS_TRANSMIT_ETHEREAL_DURABILITY_INFO = packetInfo ''TS_CS_TRANSMIT_ETHEREAL_DURABILITY''
     [(Before EPIC_9_6_3, 263), (Since EPIC_9_6_3, 1263)] GameClientS ClientO"

definition TS_CS_TRANSMIT_ETHEREAL_DURABILITY_TO_EQUIPMENT_INFO :: packet_info where
  "TS_CS_TRANSMIT_ETHEREAL_DURABILITY_TO_EQUIPMENT_INFO = packetInfo ''TS_CS_TRANSMIT_ETHEREAL_DURABILITY_TO_EQUIPMENT''
     [(Before EPIC_9_6_3, 264), (Since EPIC_9_6_3, 1264)] GameClientS ClientO"

definition TS_CS_TURN_OFF_PK_MODE_INFO :: packet_info where
  "TS_CS_TURN_OFF_PK_MODE_INFO = packetInfo ''TS_CS_TURN_OFF_PK_MODE''
     [(Before EPIC_9_6_3, 801), (Since EPIC_9_6_3, 1801)] GameClientS ClientO"

definition TS_CS_TURN_ON_PK_MODE_INFO :: packet_info where
  "TS_CS_TURN_ON_PK_MODE_INFO = packetInfo ''TS_CS_TURN_ON_PK_MODE''
     [(Before EPIC_9_6_3, 800), (Since EPIC_9_6_3, 1800)] GameClientS ClientO"

definition TS_CS_UNBIND_SKILLCARD_INFO :: packet_info where
  "TS_CS_UNBIND_SKILLCARD_INFO = packetInfo ''TS_CS_UNBIND_SKILLCARD''
     [(Before EPIC_9_6_3, 285), (Since EPIC_9_6_3, 1285)] GameClientS ClientO"

definition TS_CS_UPDATE_INFO :: packet_info where
  "TS_CS_UPDATE_INFO = packetInfo ''TS_CS_UPDATE''
     [(Before EPIC_9_6_3, 503), (Since EPIC_9_6_3, 1503)] GameClientS ClientO"

definition TS_CS_USE_ITEM_INFO :: packet_info where
  "TS_CS_USE_ITEM_INFO = packetInfo ''TS_CS_USE_ITEM''
     [(Before EPIC_9_6_3, 253), (Since EPIC_9_6_3, 1253)] GameClientS ClientO"

definition TS_CS_VERSION_INFO :: packet_info where
  "TS_CS_VERSION_INFO = packetInfo ''TS_CS_VERSION''
     [(Before EPIC_7_4, 50), (Both (Since EPIC_7_4) (Before EPIC_9_6_3), 51), (Since EPIC_9_6_3, 1051)] GameClientS ClientO"

definition TS_CS_WATCH_BOOTH_INFO :: packet_info where
  "TS_CS_WATCH_BOOTH_INFO = packetInfo ''TS_CS_WATCH_BOOTH''
     [(Before EPIC_9_6_3, 702), (Since EPIC_9_6_3, 1702)] GameClientS ClientO"

definition TS_CS_XTRAP_CHECK_INFO :: packet_info where
  "TS_CS_XTRAP_CHECK_INFO = packetInfo ''TS_CS_XTRAP_CHECK''
     [(Before EPIC_9_6_3, 59), (Since EPIC_9_6_3, 1059)] GameClientS ClientO"

definition TS_EQUIP_SUMMON_INFO :: packet_info where
  "TS_EQUIP_SUMMON_INFO = packetInfo ''TS_EQUIP_SUMMON''
     [(Before EPIC_9_6_3, 303), (Since EPIC_9_6_3, 1303)] GameClientS AnyOrigin"

definition TS_SC_ACHIEVE_TITLE_INFO :: packet_info where
  "TS_SC_ACHIEVE_TITLE_INFO = packetInfo ''TS_SC_ACHIEVE_TITLE''
     [(Before EPIC_9_6_3, 634), (Since EPIC_9_6_3, 1634)] GameClientS ServerO"

definition TS_SC_ADDED_SKILL_LIST_INFO :: packet_info where
  "TS_SC_ADDED_SKILL_LIST_INFO = packetInfo ''TS_SC_ADDED_SKILL_LIST''
     [(Before EPIC_9_6_3, 404), (Since EPIC_9_6_3, 1404)] GameClientS ServerO"

definition TS_SC_ADD_PET_INFO_INFO :: packet_info where
  "TS_SC_ADD_PET_INFO_INFO = packetInfo ''TS_SC_ADD_PET_INFO''
     [(Before EPIC_9_6_3, 351), (Since EPIC_9_6_3, 1351)] GameClientS ServerO"

definition TS_SC_ADD_SUMMON_INFO_INFO :: packet_info where
  "TS_SC_ADD_SUMMON_INFO_INFO = packetInfo ''TS_SC_ADD_SUMMON_INFO''
     [(Before EPIC_9_6_3, 301), (Since EPIC_9_6_3, 1301)] GameClientS ServerO"

definition TS_SC_ANTI_HACK_INFO :: packet_info where
  "TS_SC_ANTI_HACK_INFO = packetInfo ''TS_SC_ANTI_HACK''
     [(Before EPIC_9_6_3, 53), (Since EPIC_9_6_3, 1053)] GameClientS ServerO"

definition TS_SC_ATTACK_EVENT_INFO :: packet_info where
  "TS_SC_ATTACK_EVENT_INFO = packetInfo ''TS_SC_ATTACK_EVENT''
     [(Before EPIC_9_6_3, 101), (Since EPIC_9_6_3, 1101)] GameClientS ServerO"

definition TS_SC_AUCTION_BIDDED_LIST_INFO :: packet_info where
  "TS_SC_AUCTION_BIDDED_LIST_INFO = packetInfo ''TS_SC_AUCTION_BIDDED_LIST''
     [(Before EPIC_9_6_3, 1305), (Since EPIC_9_6_3, 2305)] GameClientS ServerO"

definition TS_SC_AUCTION_SEARCH_INFO :: packet_info where
  "TS_SC_AUCTION_SEARCH_INFO = packetInfo ''TS_SC_AUCTION_SEARCH''
     [(Before EPIC_9_6_3, 1301), (Since EPIC_9_6_3, 2301)] GameClientS ServerO"

definition TS_SC_AUCTION_SELLING_LIST_INFO :: packet_info where
  "TS_SC_AUCTION_SELLING_LIST_INFO = packetInfo ''TS_SC_AUCTION_SELLING_LIST''
     [(Before EPIC_9_6_3, 1303), (Since EPIC_9_6_3, 2303)] GameClientS ServerO"

definition TS_SC_AURA_INFO :: packet_info where
  "TS_SC_AURA_INFO = packetInfo ''TS_SC_AURA''
     [(Before EPIC_9_6_3, 407), (Since EPIC_9_6_3, 1407)] GameClientS ServerO"

definition TS_SC_BATTLE_ARENA_ABSENCE_CHECK_INFO :: packet_info where
  "TS_SC_BATTLE_ARENA_ABSENCE_CHECK_INFO = packetInfo ''TS_SC_BATTLE_ARENA_ABSENCE_CHECK''
     [(Always, 4718)] GameClientS ServerO"

definition TS_SC_BATTLE_ARENA_BATTLE_INFO_INFO :: packet_info where
  "TS_SC_BATTLE_ARENA_BATTLE_INFO_INFO = packetInfo ''TS_SC_BATTLE_ARENA_BATTLE_INFO''
     [(Always, 4706)] GameClientS ServerO"

definition TS_SC_BATTLE_ARENA_BATTLE_SCORE_INFO :: packet_info where
  "TS_SC_BATTLE_ARENA_BATTLE_SCORE_INFO = packetInfo ''TS_SC_BATTLE_ARENA_BATTLE_SCORE''
     [(Always, 4712)] GameClientS ServerO"

definition TS_SC_BATTLE_ARENA_BATTLE_STATUS_INFO :: packet_info where
  "TS_SC_BATTLE_ARENA_BATTLE_STATUS_INFO = packetInfo ''TS_SC_BATTLE_ARENA_BATTLE_STATUS''
     [(Always, 4711)] GameClientS ServerO"

definition TS_SC_BATTLE_ARENA_DISCONNECT_BATTLE_INFO :: packet_info where
  "TS_SC_BATTLE_ARENA_DISCONNECT_BATTLE_INFO = packetInfo ''TS_SC_BATTLE_ARENA_DISCONNECT_BATTLE''
     [(Always, 4714)] GameClientS ServerO"

definition TS_SC_BATTLE_ARENA_EXERCISE_READY_STATUS_INFO :: packet_info where
  "TS_SC_BATTLE_ARENA_EXERCISE_READY_STATUS_INFO = packetInfo ''TS_SC_BATTLE_ARENA_EXERCISE_READY_STATUS''
     [(Always, 4709)] GameClientS ServerO"

definition TS_SC_BATTLE_ARENA_JOIN_BATTLE_INFO :: packet_info where
  "TS_SC_BATTLE_ARENA_JOIN_BATTLE_INFO = packetInfo ''TS_SC_BATTLE_ARENA_JOIN_BATTLE''
     [(Always, 4713)] GameClientS ServerO"

definition TS_SC_BATTLE_ARENA_JOIN_QUEUE_INFO :: packet_info where
  "TS_SC_BATTLE_ARENA_JOIN_QUEUE_INFO = packetInfo ''TS_SC_BATTLE_ARENA_JOIN_QUEUE''
     [(Always, 4702)] GameClientS ServerO"

definition TS_SC_BATTLE_ARENA_LEAVE_INFO :: packet_info where
  "TS_SC_BATTLE_ARENA_LEAVE_INFO = packetInfo ''TS_SC_BATTLE_ARENA_LEAVE''
     [(Always, 4705)] GameClientS ServerO"

definition TS_SC_BATTLE_ARENA_PENALTY_INFO_INFO :: packet_info where
  "TS_SC_BATTLE_ARENA_PENALTY_INFO_INFO = packetInfo ''TS_SC_BATTLE_ARENA_PENALTY_INFO''
     [(Always, 4700)] GameClientS ServerO"

definition TS_SC_BATTLE_ARENA_RECONNECT_BATTLE_INFO :: packet_info where
  "TS_SC_BATTLE_ARENA_RECONNECT_BATTLE_INFO = packetInfo ''TS_SC_BATTLE_ARENA_RECONNECT_BATTLE''
     [(Always, 4715)] GameClientS ServerO"

definition TS_SC_BATTLE_ARENA_RESULT_INFO :: packet_info where
  "TS_SC_BATTLE_ARENA_RESULT_INFO = packetInfo ''TS_SC_BATTLE_ARENA_RESULT''
     [(Always, 4716)] GameClientS ServerO"

definition TS_SC_BATTLE_ARENA_UPDATE_WAIT_USER_COUNT_INFO :: packet_info where
  "TS_SC_BATTLE_ARENA_UPDATE_WAIT_USER_COUNT_INFO = packetInfo ''TS_SC_BATTLE_ARENA_UPDATE_WAIT_USER_COUNT''
     [(Always, 4703)] GameClientS ServerO"

definition TS_SC_BELT_SLOT_INFO_INFO :: packet_info where
  "TS_SC_BELT_SLOT_INFO_INFO = packetInfo ''TS_SC_BELT_SLOT_INFO''
     [(Before EPIC_9_6_3, 216), (Since EPIC_9_6_3, 1216)] GameClientS ServerO"

definition TS_SC_BONUS_EXP_JP_INFO :: packet_info where
  "TS_SC_BONUS_EXP_JP_INFO = packetInfo ''TS_SC_BONUS_EXP_JP''
     [(Before EPIC_9_6_3, 1004), (Since EPIC_9_6_3, 2004)] GameClientS ServerO"

definition TS_SC_BOOKMARK_TITLE_INFO :: packet_info where
  "TS_SC_BOOKMARK_TITLE_INFO = packetInfo ''TS_SC_BOOKMARK_TITLE''
     [(Before EPIC_9_6_3, 633), (Since EPIC_9_6_3, 1633)] GameClientS ServerO"

definition TS_SC_BOOTH_CLOSED_INFO :: packet_info where
  "TS_SC_BOOTH_CLOSED_INFO = packetInfo ''TS_SC_BOOTH_CLOSED''
     [(Before EPIC_9_6_3, 709), (Since EPIC_9_6_3, 1709)] GameClientS ServerO"

definition TS_SC_BOOTH_TRADE_INFO_INFO :: packet_info where
  "TS_SC_BOOTH_TRADE_INFO_INFO = packetInfo ''TS_SC_BOOTH_TRADE_INFO''
     [(Before EPIC_9_6_3, 710), (Since EPIC_9_6_3, 1710)] GameClientS ServerO"

definition TS_SC_CANT_ATTACK_INFO :: packet_info where
  "TS_SC_CANT_ATTACK_INFO = packetInfo ''TS_SC_CANT_ATTACK''
     [(Before EPIC_9_6_3, 102), (Since EPIC_9_6_3, 1102)] GameClientS ServerO"

definition TS_SC_CHANGE_LOCATION_INFO :: packet_info where
  "TS_SC_CHANGE_LOCATION_INFO = packetInfo ''TS_SC_CHANGE_LOCATION''
     [(Before EPIC_9_6_3, 901), (Since EPIC_9_6_3, 1901)] GameClientS ServerO"

definition TS_SC_CHANGE_NAME_INFO :: packet_info where
  "TS_SC_CHANGE_NAME_INFO = packetInfo ''TS_SC_CHANGE_NAME''
     [(Before EPIC_9_6_3, 30), (Since EPIC_9_6_3, 1030)] GameClientS ServerO"

definition TS_SC_CHANGE_SECURITY_NO_INFO :: packet_info where
  "TS_SC_CHANGE_SECURITY_NO_INFO = packetInfo ''TS_SC_CHANGE_SECURITY_NO''
     [(Before EPIC_9_6_3, 9009), (Since EPIC_9_6_3, 8109)] GameClientS ServerO"

definition TS_SC_CHANGE_TITLE_CONDITION_INFO :: packet_info where
  "TS_SC_CHANGE_TITLE_CONDITION_INFO = packetInfo ''TS_SC_CHANGE_TITLE_CONDITION''
     [(Before EPIC_9_6_3, 636), (Since EPIC_9_6_3, 1636)] GameClientS ServerO"

definition TS_SC_CHARACTER_LIST_INFO :: packet_info where
  "TS_SC_CHARACTER_LIST_INFO = packetInfo ''TS_SC_CHARACTER_LIST''
     [(Before EPIC_9_6_3, 2004), (Since EPIC_9_6_3, 2404)] GameClientS ServerO"

definition TS_SC_CHAT_INFO :: packet_info where
  "TS_SC_CHAT_INFO = packetInfo ''TS_SC_CHAT''
     [(Before EPIC_9_6_3, 22), (Since EPIC_9_6_3, 1022)] GameClientS ServerO"

definition TS_SC_CHAT_LOCAL_INFO :: packet_info where
  "TS_SC_CHAT_LOCAL_INFO = packetInfo ''TS_SC_CHAT_LOCAL''
     [(Before EPIC_9_6_3, 21), (Since EPIC_9_6_3, 1021)] GameClientS ServerO"

definition TS_SC_CHAT_RESULT_INFO :: packet_info where
  "TS_SC_CHAT_RESULT_INFO = packetInfo ''TS_SC_CHAT_RESULT''
     [(Before EPIC_9_6_3, 24), (Since EPIC_9_6_3, 1024)] GameClientS ServerO"

definition TS_SC_CLEAR_SECURITY_NO_INFO :: packet_info where
  "TS_SC_CLEAR_SECURITY_NO_INFO = packetInfo ''TS_SC_CLEAR_SECURITY_NO''
     [(Before EPIC_9_6_3, 9011), (Since EPIC_9_6_3, 8111)] GameClientS ServerO"

definition TS_SC_COMMERCIAL_STORAGE_INFO_INFO :: packet_info where
  "TS_SC_COMMERCIAL_STORAGE_INFO_INFO = packetInfo ''TS_SC_COMMERCIAL_STORAGE_INFO''
     [(Before EPIC_9_6_3, 10003), (Since EPIC_9_6_3, 9003)] GameClientS ServerO"

definition TS_SC_COMMERCIAL_STORAGE_LIST_INFO :: packet_info where
  "TS_SC_COMMERCIAL_STORAGE_LIST_INFO = packetInfo ''TS_SC_COMMERCIAL_STORAGE_LIST''
     [(Before EPIC_9_6_3, 10004), (Since EPIC_9_6_3, 9004)] GameClientS ServerO"

definition TS_SC_COMPETE_ANSWER_INFO :: packet_info where
  "TS_SC_COMPETE_ANSWER_INFO = packetInfo ''TS_SC_COMPETE_ANSWER''
     [(Always, 4503)] GameClientS ServerO"

definition TS_SC_COMPETE_COUNTDOWN_INFO :: packet_info where
  "TS_SC_COMPETE_COUNTDOWN_INFO = packetInfo ''TS_SC_COMPETE_COUNTDOWN''
     [(Always, 4504)] GameClientS ServerO"

definition TS_SC_COMPETE_END_INFO :: packet_info where
  "TS_SC_COMPETE_END_INFO = packetInfo ''TS_SC_COMPETE_END''
     [(Always, 4506)] GameClientS ServerO"

definition TS_SC_COMPETE_REQUEST_INFO :: packet_info where
  "TS_SC_COMPETE_REQUEST_INFO = packetInfo ''TS_SC_COMPETE_REQUEST''
     [(Always, 4501)] GameClientS ServerO"

definition TS_SC_COMPETE_START_INFO :: packet_info where
  "TS_SC_COMPETE_START_INFO = packetInfo ''TS_SC_COMPETE_START''
     [(Always, 4505)] GameClientS ServerO"

definition TS_SC_CREATE_SECURITY_NO_INFO :: packet_info where
  "TS_SC_CREATE_SECURITY_NO_INFO = packetInfo ''TS_SC_CREATE_SECURITY_NO''
     [(Before EPIC_9_6_3, 9002), (Since EPIC_9_6_3, 8102)] GameClientS ServerO"

definition TS_SC_DEATHMATCH_RANKING_INFO :: packet_info where
  "TS_SC_DEATHMATCH_RANKING_INFO = packetInfo ''TS_SC_DEATHMATCH_RANKING''
     [(Always, 4301)] GameClientS ServerO"

definition TS_SC_DEATHMATCH_RANKING_OPEN_INFO :: packet_info where
  "TS_SC_DEATHMATCH_RANKING_OPEN_INFO = packetInfo ''TS_SC_DEATHMATCH_RANKING_OPEN''
     [(Always, 4300)] GameClientS ServerO"

definition TS_SC_DEATHMATCH_RANKING_REOPEN_INFO :: packet_info where
  "TS_SC_DEATHMATCH_RANKING_REOPEN_INFO = packetInfo ''TS_SC_DEATHMATCH_RANKING_REOPEN''
     [(Always, 4302)] GameClientS ServerO"

definition TS_SC_DECOMPOSE_RESULT_INFO :: packet_info where
  "TS_SC_DECOMPOSE_RESULT_INFO = packetInfo ''TS_SC_DECOMPOSE_RESULT''
     [(Before EPIC_9_6_3, 266), (Since EPIC_9_6_3, 1266)] GameClientS ServerO"

definition TS_SC_DESTROY_ITEM_INFO :: packet_info where
  "TS_SC_DESTROY_ITEM_INFO = packetInfo ''TS_SC_DESTROY_ITEM''
     [(Before EPIC_9_6_3, 254), (Since EPIC_9_6_3, 1254)] GameClientS ServerO"

definition TS_SC_DETECT_RANGE_UPDATE_INFO :: packet_info where
  "TS_SC_DETECT_RANGE_UPDATE_INFO = packetInfo ''TS_SC_DETECT_RANGE_UPDATE''
     [(Before EPIC_9_6_3, 1005), (Since EPIC_9_6_3, 2005)] GameClientS ServerO"

definition TS_SC_DIALOG_INFO :: packet_info where
  "TS_SC_DIALOG_INFO = packetInfo ''TS_SC_DIALOG''
     [(Always, 3000)] GameClientS ServerO"

definition TS_SC_DISCONNECT_DESC_INFO :: packet_info where
  "TS_SC_DISCONNECT_DESC_INFO = packetInfo ''TS_SC_DISCONNECT_DESC''
     [(Before EPIC_9_6_3, 28), (Since EPIC_9_6_3, 1028)] GameClientS ServerO"

definition TS_SC_DOUBLE_WEAPON_ATTACK_EVENT_INFO :: packet_info where
  "TS_SC_DOUBLE_WEAPON_ATTACK_EVENT_INFO = packetInfo ''TS_SC_DOUBLE_WEAPON_ATTACK_EVENT''
     [(Before EPIC_9_6_3, 103), (Since EPIC_9_6_3, 1103)] GameClientS ServerO"

definition TS_SC_DROP_RESULT_INFO :: packet_info where
  "TS_SC_DROP_RESULT_INFO = packetInfo ''TS_SC_DROP_RESULT''
     [(Before EPIC_9_6_3, 205), (Since EPIC_9_6_3, 1205)] GameClientS ServerO"

definition TS_SC_EMOTION_INFO :: packet_info where
  "TS_SC_EMOTION_INFO = packetInfo ''TS_SC_EMOTION''
     [(Before EPIC_9_6_3, 1201), (Since EPIC_9_6_3, 2201)] GameClientS ServerO"

definition TS_SC_ENERGY_INFO :: packet_info where
  "TS_SC_ENERGY_INFO = packetInfo ''TS_SC_ENERGY''
     [(Before EPIC_9_6_3, 515), (Since EPIC_9_6_3, 1515)] GameClientS ServerO"

definition TS_SC_ENTER_INFO :: packet_info where
  "TS_SC_ENTER_INFO = packetInfo ''TS_SC_ENTER''
     [(Before EPIC_9_6_3, 3), (Since EPIC_9_6_3, 1003)] GameClientS ServerO"

definition TS_SC_ERASE_ITEM_INFO :: packet_info where
  "TS_SC_ERASE_ITEM_INFO = packetInfo ''TS_SC_ERASE_ITEM''
     [(Before EPIC_9_6_3, 209), (Since EPIC_9_6_3, 1209)] GameClientS ServerO"

definition TS_SC_EXP_UPDATE_INFO :: packet_info where
  "TS_SC_EXP_UPDATE_INFO = packetInfo ''TS_SC_EXP_UPDATE''
     [(Before EPIC_9_6_3, 1003), (Since EPIC_9_6_3, 2003)] GameClientS ServerO"

definition TS_SC_FARM_INFO_INFO :: packet_info where
  "TS_SC_FARM_INFO_INFO = packetInfo ''TS_SC_FARM_INFO''
     [(Always, 6001)] GameClientS ServerO"

definition TS_SC_GAME_GUARD_AUTH_QUERY_INFO :: packet_info where
  "TS_SC_GAME_GUARD_AUTH_QUERY_INFO = packetInfo ''TS_SC_GAME_GUARD_AUTH_QUERY''
     [(Before EPIC_9_6_3, 55), (Since EPIC_9_6_3, 1055)] GameClientS ServerO"

definition TS_SC_GAME_TIME_INFO :: packet_info where
  "TS_SC_GAME_TIME_INFO = packetInfo ''TS_SC_GAME_TIME''
     [(Before EPIC_9_6_3, 1101), (Since EPIC_9_6_3, 2101)] GameClientS ServerO"

definition TS_SC_GENERAL_MESSAGE_BOX_INFO :: packet_info where
  "TS_SC_GENERAL_MESSAGE_BOX_INFO = packetInfo ''TS_SC_GENERAL_MESSAGE_BOX''
     [(Always, 3004)] GameClientS ServerO"

definition TS_SC_GET_BOOTHS_NAME_INFO :: packet_info where
  "TS_SC_GET_BOOTHS_NAME_INFO = packetInfo ''TS_SC_GET_BOOTHS_NAME''
     [(Before EPIC_9_6_3, 708), (Since EPIC_9_6_3, 1708)] GameClientS ServerO"

definition TS_SC_GET_CHAOS_INFO :: packet_info where
  "TS_SC_GET_CHAOS_INFO = packetInfo ''TS_SC_GET_CHAOS''
     [(Before EPIC_9_6_3, 213), (Since EPIC_9_6_3, 1213)] GameClientS ServerO"

definition TS_SC_GOLD_UPDATE_INFO :: packet_info where
  "TS_SC_GOLD_UPDATE_INFO = packetInfo ''TS_SC_GOLD_UPDATE''
     [(Before EPIC_9_6_3, 1001), (Since EPIC_9_6_3, 2001)] GameClientS ServerO"

definition TS_SC_HAIR_INFO_INFO :: packet_info where
  "TS_SC_HAIR_INFO_INFO = packetInfo ''TS_SC_HAIR_INFO''
     [(Before EPIC_9_6_3, 220), (Since EPIC_9_6_3, 1220)] GameClientS ServerO"

definition TS_SC_HIDE_EQUIP_INFO_INFO :: packet_info where
  "TS_SC_HIDE_EQUIP_INFO_INFO = packetInfo ''TS_SC_HIDE_EQUIP_INFO''
     [(Before EPIC_9_6_3, 222), (Since EPIC_9_6_3, 1222)] GameClientS ServerO"

definition TS_SC_HPMP_INFO :: packet_info where
  "TS_SC_HPMP_INFO = packetInfo ''TS_SC_HPMP''
     [(Before EPIC_9_6_3, 509), (Since EPIC_9_6_3, 1509)] GameClientS ServerO"

definition TS_SC_HUNTAHOLIC_BEGIN_COUNTDOWN_INFO :: packet_info where
  "TS_SC_HUNTAHOLIC_BEGIN_COUNTDOWN_INFO = packetInfo ''TS_SC_HUNTAHOLIC_BEGIN_COUNTDOWN''
     [(Always, 4012)] GameClientS ServerO"

definition TS_SC_HUNTAHOLIC_BEGIN_HUNTING_INFO :: packet_info where
  "TS_SC_HUNTAHOLIC_BEGIN_HUNTING_INFO = packetInfo ''TS_SC_HUNTAHOLIC_BEGIN_HUNTING''
     [(Always, 4009)] GameClientS ServerO"

definition TS_SC_HUNTAHOLIC_HUNTING_SCORE_INFO :: packet_info where
  "TS_SC_HUNTAHOLIC_HUNTING_SCORE_INFO = packetInfo ''TS_SC_HUNTAHOLIC_HUNTING_SCORE''
     [(Always, 4006)] GameClientS ServerO"

definition TS_SC_HUNTAHOLIC_INSTANCE_INFO_INFO :: packet_info where
  "TS_SC_HUNTAHOLIC_INSTANCE_INFO_INFO = packetInfo ''TS_SC_HUNTAHOLIC_INSTANCE_INFO''
     [(Always, 4002)] GameClientS ServerO"

definition TS_SC_HUNTAHOLIC_INSTANCE_LIST_INFO :: packet_info where
  "TS_SC_HUNTAHOLIC_INSTANCE_LIST_INFO = packetInfo ''TS_SC_HUNTAHOLIC_INSTANCE_LIST''
     [(Always, 4001)] GameClientS ServerO"

definition TS_SC_HUNTAHOLIC_MAX_POINT_ACHIEVED_INFO :: packet_info where
  "TS_SC_HUNTAHOLIC_MAX_POINT_ACHIEVED_INFO = packetInfo ''TS_SC_HUNTAHOLIC_MAX_POINT_ACHIEVED''
     [(Always, 4010)] GameClientS ServerO"

definition TS_SC_HUNTAHOLIC_UPDATE_SCORE_INFO :: packet_info where
  "TS_SC_HUNTAHOLIC_UPDATE_SCORE_INFO = packetInfo ''TS_SC_HUNTAHOLIC_UPDATE_SCORE''
     [(Always, 4007)] GameClientS ServerO"

definition TS_SC_INSTANCE_GAME_SCORE_REQUEST_INFO :: packet_info where
  "TS_SC_INSTANCE_GAME_SCORE_REQUEST_INFO = packetInfo ''TS_SC_INSTANCE_GAME_SCORE_REQUEST''
     [(Always, 4253)] GameClientS ServerO"

definition TS_SC_INVENTORY_INFO :: packet_info where
  "TS_SC_INVENTORY_INFO = packetInfo ''TS_SC_INVENTORY''
     [(Before EPIC_9_6_3, 207), (Since EPIC_9_6_3, 1207)] GameClientS ServerO"

definition TS_SC_ITEM_COOL_TIME_INFO :: packet_info where
  "TS_SC_ITEM_COOL_TIME_INFO = packetInfo ''TS_SC_ITEM_COOL_TIME''
     [(Before EPIC_9_6_3, 217), (Since EPIC_9_6_3, 1217)] GameClientS ServerO"

definition TS_SC_ITEM_DROP_INFO_INFO :: packet_info where
  "TS_SC_ITEM_DROP_INFO_INFO = packetInfo ''TS_SC_ITEM_DROP_INFO''
     [(Before EPIC_9_6_3, 282), (Since EPIC_9_6_3, 1282)] GameClientS ServerO"

definition TS_SC_ITEM_KEEPING_LIST_INFO :: packet_info where
  "TS_SC_ITEM_KEEPING_LIST_INFO = packetInfo ''TS_SC_ITEM_KEEPING_LIST''
     [(Before EPIC_9_6_3, 1351), (Since EPIC_9_6_3, 2351)] GameClientS ServerO"

definition TS_SC_ITEM_WEAR_INFO_INFO :: packet_info where
  "TS_SC_ITEM_WEAR_INFO_INFO = packetInfo ''TS_SC_ITEM_WEAR_INFO''
     [(Before EPIC_9_6_3, 287), (Since EPIC_9_6_3, 1287)] GameClientS ServerO"

definition TS_SC_LEAVE_INFO :: packet_info where
  "TS_SC_LEAVE_INFO = packetInfo ''TS_SC_LEAVE''
     [(Before EPIC_9_6_3, 9), (Since EPIC_9_6_3, 1009)] GameClientS ServerO"

definition TS_SC_LEVEL_UPDATE_INFO :: packet_info where
  "TS_SC_LEVEL_UPDATE_INFO = packetInfo ''TS_SC_LEVEL_UPDATE''
     [(Before EPIC_9_6_3, 1002), (Since EPIC_9_6_3, 2002)] GameClientS ServerO"

definition TS_SC_LOGIN_RESULT_INFO :: packet_info where
  "TS_SC_LOGIN_RESULT_INFO = packetInfo ''TS_SC_LOGIN_RESULT''
     [(Before EPIC_9_2, 4), (Both (Since EPIC_9_2) (Before EPIC_9_6_3), 64), (Since EPIC_9_6_3, 1064)] GameClientS ServerO"

definition TS_SC_MARKET_INFO :: packet_info where
  "TS_SC_MARKET_INFO = packetInfo ''TS_SC_MARKET''
     [(Before EPIC_9_6_3, 250), (Since EPIC_9_6_3, 1250)] GameClientS ServerO"

definition TS_SC_MIX_RESULT_INFO :: packet_info where
  "TS_SC_MIX_RESULT_INFO = packetInfo ''TS_SC_MIX_RESULT''
     [(Before EPIC_9_6_3, 257), (Since EPIC_9_6_3, 1257)] GameClientS ServerO"

definition TS_SC_MOUNT_SUMMON_INFO :: packet_info where
  "TS_SC_MOUNT_SUMMON_INFO = packetInfo ''TS_SC_MOUNT_SUMMON''
     [(Before EPIC_9_6_3, 320), (Since EPIC_9_6_3, 1320)] GameClientS ServerO"

definition TS_SC_MOVE_INFO :: packet_info where
  "TS_SC_MOVE_INFO = packetInfo ''TS_SC_MOVE''
     [(Before EPIC_9_6_3, 8), (Since EPIC_9_6_3, 1008)] GameClientS ServerO"

definition TS_SC_MOVE_ACK_INFO :: packet_info where
  "TS_SC_MOVE_ACK_INFO = packetInfo ''TS_SC_MOVE_ACK''
     [(Before EPIC_9_2, 6), (Both (Since EPIC_9_2) (Before EPIC_9_6_3), 66), (Since EPIC_9_6_3, 1066)] GameClientS ServerO"

definition TS_SC_NPC_TRADE_INFO_INFO :: packet_info where
  "TS_SC_NPC_TRADE_INFO_INFO = packetInfo ''TS_SC_NPC_TRADE_INFO''
     [(Before EPIC_9_6_3, 240), (Since EPIC_9_6_3, 1240)] GameClientS ServerO"

definition TS_SC_OPEN_GUILD_WINDOW_INFO :: packet_info where
  "TS_SC_OPEN_GUILD_WINDOW_INFO = packetInfo ''TS_SC_OPEN_GUILD_WINDOW''
     [(Before EPIC_9_6_3, 651), (Since EPIC_9_6_3, 1651)] GameClientS ServerO"

definition TS_SC_OPEN_ITEM_SHOP_INFO :: packet_info where
  "TS_SC_OPEN_ITEM_SHOP_INFO = packetInfo ''TS_SC_OPEN_ITEM_SHOP''
     [(Before EPIC_9_6_3, 10001), (Since EPIC_9_6_3, 9001)] GameClientS ServerO"

definition TS_SC_OPEN_PAID_STORAGE_INFO :: packet_info where
  "TS_SC_OPEN_PAID_STORAGE_INFO = packetInfo ''TS_SC_OPEN_PAID_STORAGE''
     [(Before EPIC_9_6_3, 10002), (Since EPIC_9_6_3, 9002)] GameClientS ServerO"

definition TS_SC_OPEN_STORAGE_INFO :: packet_info where
  "TS_SC_OPEN_STORAGE_INFO = packetInfo ''TS_SC_OPEN_STORAGE''
     [(Before EPIC_9_6_3, 211), (Since EPIC_9_6_3, 1211)] GameClientS ServerO"

definition TS_SC_OPEN_TITLE_INFO :: packet_info where
  "TS_SC_OPEN_TITLE_INFO = packetInfo ''TS_SC_OPEN_TITLE''
     [(Before EPIC_9_6_3, 635), (Since EPIC_9_6_3, 1635)] GameClientS ServerO"

definition TS_SC_OPEN_URL_INFO :: packet_info where
  "TS_SC_OPEN_URL_INFO = packetInfo ''TS_SC_OPEN_URL''
     [(Before EPIC_9_6_3, 9000), (Since EPIC_9_6_3, 8100)] GameClientS ServerO"

definition TS_SC_PARTYMATCH_LIST_INFO :: packet_info where
  "TS_SC_PARTYMATCH_LIST_INFO = packetInfo ''TS_SC_PARTYMATCH_LIST''
     [(Always, 7001)] GameClientS ServerO"

definition TS_SC_PARTYMATCH_MEMBER_INFO :: packet_info where
  "TS_SC_PARTYMATCH_MEMBER_INFO = packetInfo ''TS_SC_PARTYMATCH_MEMBER''
     [(Always, 7002)] GameClientS ServerO"

definition TS_SC_PROPERTY_INFO :: packet_info where
  "TS_SC_PROPERTY_INFO = packetInfo ''TS_SC_PROPERTY''
     [(Before EPIC_9_6_3, 507), (Since EPIC_9_6_3, 1507)] GameClientS ServerO"

definition TS_SC_QUEST_INFOMATION_INFO :: packet_info where
  "TS_SC_QUEST_INFOMATION_INFO = packetInfo ''TS_SC_QUEST_INFOMATION''
     [(Before EPIC_9_6_3, 602), (Since EPIC_9_6_3, 1602)] GameClientS ServerO"

definition TS_SC_QUEST_LIST_INFO :: packet_info where
  "TS_SC_QUEST_LIST_INFO = packetInfo ''TS_SC_QUEST_LIST''
     [(Before EPIC_9_6_3, 600), (Since EPIC_9_6_3, 1600)] GameClientS ServerO"

definition TS_SC_QUEST_STATUS_INFO :: packet_info where
  "TS_SC_QUEST_STATUS_INFO = packetInfo ''TS_SC_QUEST_STATUS''
     [(Before EPIC_9_6_3, 601), (Since EPIC_9_6_3, 1601)] GameClientS ServerO"

definition TS_SC_RAGE_INFO :: packet_info where
  "TS_SC_RAGE_INFO = packetInfo ''TS_SC_RAGE''
     [(Before EPIC_9_6_3, 506), (Since EPIC_9_6_3, 1506)] GameClientS ServerO"

definition TS_SC_RANKING_TOP_RECORD_INFO :: packet_info where
  "TS_SC_RANKING_TOP_RECORD_INFO = packetInfo ''TS_SC_RANKING_TOP_RECORD''
     [(Always, 5001)] GameClientS ServerO"

definition TS_SC_REGEN_HPMP_INFO :: packet_info where
  "TS_SC_REGEN_HPMP_INFO = packetInfo ''TS_SC_REGEN_HPMP''
     [(Before EPIC_9_6_3, 516), (Since EPIC_9_6_3, 1516)] GameClientS ServerO"

definition TS_SC_REGEN_INFO_INFO :: packet_info where
  "TS_SC_REGEN_INFO_INFO = packetInfo ''TS_SC_REGEN_INFO''
     [(Before EPIC_9_6_3, 510), (Since EPIC_9_6_3, 1510)] GameClientS ServerO"

definition TS_SC_REGION_ACK_INFO :: packet_info where
  "TS_SC_REGION_ACK_INFO = packetInfo ''TS_SC_REGION_ACK''
     [(Before EPIC_9_6_3, 11), (Since EPIC_9_6_3, 1011)] GameClientS ServerO"

definition TS_SC_REMAIN_TITLE_TIME_INFO :: packet_info where
  "TS_SC_REMAIN_TITLE_TIME_INFO = packetInfo ''TS_SC_REMAIN_TITLE_TIME''
     [(Before EPIC_9_6_3, 627), (Since EPIC_9_6_3, 1627)] GameClientS ServerO"

definition TS_SC_REMOVE_PET_INFO_INFO :: packet_info where
  "TS_SC_REMOVE_PET_INFO_INFO = packetInfo ''TS_SC_REMOVE_PET_INFO''
     [(Before EPIC_9_6_3, 352), (Since EPIC_9_6_3, 1352)] GameClientS ServerO"

definition TS_SC_REMOVE_SUMMON_INFO_INFO :: packet_info where
  "TS_SC_REMOVE_SUMMON_INFO_INFO = packetInfo ''TS_SC_REMOVE_SUMMON_INFO''
     [(Before EPIC_9_6_3, 302), (Since EPIC_9_6_3, 1302)] GameClientS ServerO"

definition TS_SC_REQUEST_SECURITY_NO_INFO :: packet_info where
  "TS_SC_REQUEST_SECURITY_NO_INFO = packetInfo ''TS_SC_REQUEST_SECURITY_NO''
     [(Before EPIC_9_6_3, 9004), (Since EPIC_9_6_3, 8104)] GameClientS ServerO"

definition TS_SC_RESULT_INFO :: packet_info where
  "TS_SC_RESULT_INFO = packetInfo ''TS_SC_RESULT''
     [(Before EPIC_9_6_3, 0), (Since EPIC_9_6_3, 1000)] AnySession ServerO"

definition TS_SC_RESULT_FOSTER_INFO :: packet_info where
  "TS_SC_RESULT_FOSTER_INFO = packetInfo ''TS_SC_RESULT_FOSTER''
     [(Always, 6003)] GameClientS ServerO"

definition TS_SC_RESULT_NURSE_INFO :: packet_info where
  "TS_SC_RESULT_NURSE_INFO = packetInfo ''TS_SC_RESULT_NURSE''
     [(Always, 6007)] GameClientS ServerO"

definition TS_SC_RESULT_RETRIEVE_INFO :: packet_info where
  "TS_SC_RESULT_RETRIEVE_INFO = packetInfo ''TS_SC_RESULT_RETRIEVE''
     [(Always, 6005)] GameClientS ServerO"

definition TS_SC_SET_MAIN_TITLE_INFO :: packet_info where
  "TS_SC_SET_MAIN_TITLE_INFO = packetInfo ''TS_SC_SET_MAIN_TITLE''
     [(Before EPIC_9_6_3, 629), (Since EPIC_9_6_3, 1629)] GameClientS ServerO"

definition TS_SC_SET_SUB_TITLE_INFO :: packet_info where
  "TS_SC_SET_SUB_TITLE_INFO = packetInfo ''TS_SC_SET_SUB_TITLE''
     [(Before EPIC_9_6_3, 631), (Since EPIC_9_6_3, 1631)] GameClientS ServerO"

definition TS_SC_SET_TIME_INFO :: packet_info where
  "TS_SC_SET_TIME_INFO = packetInfo ''TS_SC_SET_TIME''
     [(Before EPIC_9_6_3, 10), (Since EPIC_9_6_3, 1010)] GameClientS ServerO"

definition TS_SC_SHOW_CREATE_ALLIANCE_INFO :: packet_info where
  "TS_SC_SHOW_CREATE_ALLIANCE_INFO = packetInfo ''TS_SC_SHOW_CREATE_ALLIANCE''
     [(Before EPIC_9_6_3, 660), (Since EPIC_9_6_3, 1660)] GameClientS ServerO"

definition TS_SC_SHOW_CREATE_GUILD_INFO :: packet_info where
  "TS_SC_SHOW_CREATE_GUILD_INFO = packetInfo ''TS_SC_SHOW_CREATE_GUILD''
     [(Before EPIC_9_6_3, 650), (Since EPIC_9_6_3, 1650)] GameClientS ServerO"

definition TS_SC_SHOW_SET_PET_NAME_INFO :: packet_info where
  "TS_SC_SHOW_SET_PET_NAME_INFO = packetInfo ''TS_SC_SHOW_SET_PET_NAME''
     [(Before EPIC_9_6_3, 353), (Since EPIC_9_6_3, 1353)] GameClientS ServerO"

definition TS_SC_SHOW_SOULSTONE_CRAFT_WINDOW_INFO :: packet_info where
  "TS_SC_SHOW_SOULSTONE_CRAFT_WINDOW_INFO = packetInfo ''TS_SC_SHOW_SOULSTONE_CRAFT_WINDOW''
     [(Before EPIC_9_6_3, 259), (Since EPIC_9_6_3, 1259)] GameClientS ServerO"

definition TS_SC_SHOW_SOULSTONE_REPAIR_WINDOW_INFO :: packet_info where
  "TS_SC_SHOW_SOULSTONE_REPAIR_WINDOW_INFO = packetInfo ''TS_SC_SHOW_SOULSTONE_REPAIR_WINDOW''
     [(Before EPIC_9_6_3, 261), (Since EPIC_9_6_3, 1261)] GameClientS ServerO"

definition TS_SC_SHOW_SUMMON_NAME_CHANGE_INFO :: packet_info where
  "TS_SC_SHOW_SUMMON_NAME_CHANGE_INFO = packetInfo ''TS_SC_SHOW_SUMMON_NAME_CHANGE''
     [(Before EPIC_9_6_3, 322), (Since EPIC_9_6_3, 1322)] GameClientS ServerO"

definition TS_SC_SHOW_WINDOW_INFO :: packet_info where
  "TS_SC_SHOW_WINDOW_INFO = packetInfo ''TS_SC_SHOW_WINDOW''
     [(Always, 3003)] GameClientS ServerO"

definition TS_SC_SKILL_INFO :: packet_info where
  "TS_SC_SKILL_INFO = packetInfo ''TS_SC_SKILL''
     [(Before EPIC_9_6_3, 401), (Since EPIC_9_6_3, 1401)] GameClientS ServerO"

definition TS_SC_SKILLCARD_INFO_INFO :: packet_info where
  "TS_SC_SKILLCARD_INFO_INFO = packetInfo ''TS_SC_SKILLCARD_INFO''
     [(Before EPIC_9_6_3, 286), (Since EPIC_9_6_3, 1286)] GameClientS ServerO"

definition TS_SC_SKILL_CASTING_TIME_INFO :: packet_info where
  "TS_SC_SKILL_CASTING_TIME_INFO = packetInfo ''TS_SC_SKILL_CASTING_TIME''
     [(Before EPIC_9_6_3, 405), (Since EPIC_9_6_3, 1405)] GameClientS ServerO"

definition TS_SC_SKILL_LEVEL_LIST_INFO :: packet_info where
  "TS_SC_SKILL_LEVEL_LIST_INFO = packetInfo ''TS_SC_SKILL_LEVEL_LIST''
     [(Before EPIC_9_6_3, 451), (Since EPIC_9_6_3, 1451)] GameClientS ServerO"

definition TS_SC_SKILL_LIST_INFO :: packet_info where
  "TS_SC_SKILL_LIST_INFO = packetInfo ''TS_SC_SKILL_LIST''
     [(Before EPIC_9_6_3, 403), (Since EPIC_9_6_3, 1403)] GameClientS ServerO"

definition TS_SC_SKIN_INFO_INFO :: packet_info where
  "TS_SC_SKIN_INFO_INFO = packetInfo ''TS_SC_SKIN_INFO''
     [(Before EPIC_9_6_3, 224), (Since EPIC_9_6_3, 1224)] GameClientS ServerO"

definition TS_SC_SP_INFO :: packet_info where
  "TS_SC_SP_INFO = packetInfo ''TS_SC_SP''
     [(Before EPIC_9_6_3, 514), (Since EPIC_9_6_3, 1514)] GameClientS ServerO"

definition TS_SC_STATE_INFO :: packet_info where
  "TS_SC_STATE_INFO = packetInfo ''TS_SC_STATE''
     [(Before EPIC_9_6_3, 505), (Since EPIC_9_6_3, 1505)] GameClientS ServerO"

definition TS_SC_STATE_RESULT_INFO :: packet_info where
  "TS_SC_STATE_RESULT_INFO = packetInfo ''TS_SC_STATE_RESULT''
     [(Before EPIC_9_6_3, 406), (Since EPIC_9_6_3, 1406)] GameClientS ServerO"

definition TS_SC_STATUS_CHANGE_INFO :: packet_info where
  "TS_SC_STATUS_CHANGE_INFO = packetInfo ''TS_SC_STATUS_CHANGE''
     [(Before EPIC_9_6_3, 500), (Since EPIC_9_6_3, 1500)] GameClientS ServerO"

definition TS_SC_STAT_INFO_INFO :: packet_info where
  "TS_SC_STAT_INFO_INFO = packetInfo ''TS_SC_STAT_INFO''
     [(Before EPIC_9_6_3, 1000), (Since EPIC_9_6_3, 2000)] GameClientS ServerO"

definition TS_SC_SUMMON_EVOLUTION_INFO :: packet_info where
  "TS_SC_SUMMON_EVOLUTION_INFO = packetInfo ''TS_SC_SUMMON_EVOLUTION''
     [(Before EPIC_9_6_3, 307), (Since EPIC_9_6_3, 1307)] GameClientS ServerO"

definition TS_SC_TAKE_ITEM_RESULT_INFO :: packet_info where
  "TS_SC_TAKE_ITEM_RESULT_INFO = packetInfo ''TS_SC_TAKE_ITEM_RESULT''
     [(Before EPIC_9_6_3, 210), (Since EPIC_9_6_3, 1210)] GameClientS ServerO"

definition TS_SC_TAMING_INFO_INFO :: packet_info where
  "TS_SC_TAMING_INFO_INFO = packetInfo ''TS_SC_TAMING_INFO''
     [(Before EPIC_9_6_3, 310), (Since EPIC_9_6_3, 1310)] GameClientS ServerO"

definition TS_SC_TARGET_INFO :: packet_info where
  "TS_SC_TARGET_INFO = packetInfo ''TS_SC_TARGET''
     [(Before EPIC_9_6_3, 512), (Since EPIC_9_6_3, 1512)] GameClientS ServerO"

definition TS_SC_TITLE_CONDITION_LIST_INFO :: packet_info where
  "TS_SC_TITLE_CONDITION_LIST_INFO = packetInfo ''TS_SC_TITLE_CONDITION_LIST''
     [(Before EPIC_9_6_3, 626), (Since EPIC_9_6_3, 1626)] GameClientS ServerO"

definition TS_SC_TITLE_LIST_INFO :: packet_info where
  "TS_SC_TITLE_LIST_INFO = packetInfo ''TS_SC_TITLE_LIST''
     [(Before EPIC_9_6_3, 625), (Since EPIC_9_6_3, 1625)] GameClientS ServerO"

definition TS_SC_UNMOUNT_SUMMON_INFO :: packet_info where
  "TS_SC_UNMOUNT_SUMMON_INFO = packetInfo ''TS_SC_UNMOUNT_SUMMON''
     [(Before EPIC_9_6_3, 321), (Since EPIC_9_6_3, 1321)] GameClientS ServerO"

definition TS_SC_UNSUMMON_INFO :: packet_info where
  "TS_SC_UNSUMMON_INFO = packetInfo ''TS_SC_UNSUMMON''
     [(Before EPIC_9_6_3, 305), (Since EPIC_9_6_3, 1305)] GameClientS ServerO"

definition TS_SC_UNSUMMON_NOTICE_INFO :: packet_info where
  "TS_SC_UNSUMMON_NOTICE_INFO = packetInfo ''TS_SC_UNSUMMON_NOTICE''
     [(Before EPIC_9_6_3, 306), (Since EPIC_9_6_3, 1306)] GameClientS ServerO"

definition TS_SC_UNSUMMON_PET_INFO :: packet_info where
  "TS_SC_UNSUMMON_PET_INFO = packetInfo ''TS_SC_UNSUMMON_PET''
     [(Before EPIC_9_6_3, 350), (Since EPIC_9_6_3, 1350)] GameClientS ServerO"

definition TS_SC_UPDATE_GUILD_ICON_INFO :: packet_info where
  "TS_SC_UPDATE_GUILD_ICON_INFO = packetInfo ''TS_SC_UPDATE_GUILD_ICON''
     [(Before EPIC_9_6_3, 652), (Since EPIC_9_6_3, 1652)] GameClientS ServerO"

definition TS_SC_UPDATE_ITEM_COUNT_INFO :: packet_info where
  "TS_SC_UPDATE_ITEM_COUNT_INFO = packetInfo ''TS_SC_UPDATE_ITEM_COUNT''
     [(Before EPIC_9_6_3, 255), (Since EPIC_9_6_3, 1255)] GameClientS ServerO"

definition TS_SC_URL_LIST_INFO :: packet_info where
  "TS_SC_URL_LIST_INFO = packetInfo ''TS_SC_URL_LIST''
     [(Before EPIC_9_6_3, 9001), (Since EPIC_9_6_3, 8101)] GameClientS ServerO"

definition TS_SC_USE_ITEM_RESULT_INFO :: packet_info where
  "TS_SC_USE_ITEM_RESULT_INFO = packetInfo ''TS_SC_USE_ITEM_RESULT''
     [(Before EPIC_9_6_3, 283), (Since EPIC_9_6_3, 1283)] GameClientS ServerO"

definition TS_SC_WARP_INFO :: packet_info where
  "TS_SC_WARP_INFO = packetInfo ''TS_SC_WARP''
     [(Before EPIC_9_6_3, 12), (Since EPIC_9_6_3, 1012)] GameClientS ServerO"

definition TS_SC_WATCH_BOOTH_INFO :: packet_info where
  "TS_SC_WATCH_BOOTH_INFO = packetInfo ''TS_SC_WATCH_BOOTH''
     [(Before EPIC_9_6_3, 703), (Since EPIC_9_6_3, 1703)] GameClientS ServerO"

definition TS_SC_WEAR_INFO_INFO :: packet_info where
  "TS_SC_WEAR_INFO_INFO = packetInfo ''TS_SC_WEAR_INFO''
     [(Before EPIC_9_6_3, 202), (Since EPIC_9_6_3, 1202)] GameClientS ServerO"

definition TS_SC_WEATHER_INFO_INFO :: packet_info where
  "TS_SC_WEATHER_INFO_INFO = packetInfo ''TS_SC_WEATHER_INFO''
     [(Before EPIC_9_6_3, 902), (Since EPIC_9_6_3, 1902)] GameClientS ServerO"

definition TS_SC_XTRAP_CHECK_INFO :: packet_info where
  "TS_SC_XTRAP_CHECK_INFO = packetInfo ''TS_SC_XTRAP_CHECK''
     [(Before EPIC_9_6_3, 58), (Since EPIC_9_6_3, 1058)] GameClientS ServerO"

definition TS_SECURITY_NO_INFO :: packet_info where
  "TS_SECURITY_NO_INFO = packetInfo ''TS_SECURITY_NO''
     [(Before EPIC_9_6_3, 9005), (Since EPIC_9_6_3, 8105)] GameClientS AnyOrigin"

definition TS_TIMESYNC_INFO :: packet_info where
  "TS_TIMESYNC_INFO = packetInfo ''TS_TIMESYNC''
     [(Before EPIC_9_6_3, 2), (Since EPIC_9_6_3, 1002)] GameClientS AnyOrigin"

definition TS_TRADE_INFO :: packet_info where
  "TS_TRADE_INFO = packetInfo ''TS_TRADE''
     [(Before EPIC_9_6_3, 280), (Since EPIC_9_6_3, 1280)] GameClientS AnyOrigin"

definition TS_CU_DOWNLOAD_ICON_INFO :: packet_info where
  "TS_CU_DOWNLOAD_ICON_INFO = packetInfo ''TS_CU_DOWNLOAD_ICON''
     [(Always, 50009)] UploadClientS ClientO"

definition TS_CU_LOGIN_INFO :: packet_info where
  "TS_CU_LOGIN_INFO = packetInfo ''TS_CU_LOGIN''
     [(Always, 50005)] UploadClientS ClientO"

definition TS_CU_UPLOAD_INFO :: packet_info where
  "TS_CU_UPLOAD_INFO = packetInfo ''TS_CU_UPLOAD''
     [(Always, 50007)] UploadClientS ClientO"

definition TS_UC_DOWNLOAD_ICON_INFO :: packet_info where
  "TS_UC_DOWNLOAD_ICON_INFO = packetInfo ''TS_UC_DOWNLOAD_ICON''
     [(Always, 50010)] UploadClientS ServerO"

definition TS_UC_LOGIN_RESULT_INFO :: packet_info where
  "TS_UC_LOGIN_RESULT_INFO = packetInfo ''TS_UC_LOGIN_RESULT''
     [(Always, 50006)] UploadClientS ServerO"

definition TS_UC_UPLOAD_INFO :: packet_info where
  "TS_UC_UPLOAD_INFO = packetInfo ''TS_UC_UPLOAD''
     [(Always, 50008)] UploadClientS ServerO"

definition anyServerInfos :: "packet_info list" where
  "anyServerInfos = [
     TS_SC_RESULT_INFO]"

definition authServerInfos :: "packet_info list" where
  "authServerInfos = [
     TS_AC_ACCOUNT_NAME_INFO, TS_AC_AES_KEY_IV_INFO, TS_AC_RESULT_INFO, TS_AC_RESULT_WITH_STRING_INFO,
     TS_AC_SELECT_SERVER_INFO, TS_AC_SERVER_LIST_INFO, TS_AC_UPDATE_PENDING_TIME_INFO]"

definition authClientInfos :: "packet_info list" where
  "authClientInfos = [
     TS_CA_ACCOUNT_INFO, TS_CA_DISTRIBUTION_INFO_INFO, TS_CA_IMBC_ACCOUNT_INFO, TS_CA_OTP_ACCOUNT_INFO,
     TS_CA_RSA_PUBLIC_KEY_INFO, TS_CA_SELECT_SERVER_INFO, TS_CA_SERVER_LIST_INFO, TS_CA_VERSION_INFO]"

definition uploadServerInfos :: "packet_info list" where
  "uploadServerInfos = [
     TS_UC_DOWNLOAD_ICON_INFO, TS_UC_LOGIN_RESULT_INFO, TS_UC_UPLOAD_INFO]"

definition uploadClientInfos :: "packet_info list" where
  "uploadClientInfos = [
     TS_CU_DOWNLOAD_ICON_INFO, TS_CU_LOGIN_INFO, TS_CU_UPLOAD_INFO]"

definition gameServerInfos :: "packet_info list" where
  "gameServerInfos = [
     TS_SC_ACHIEVE_TITLE_INFO, TS_SC_ADDED_SKILL_LIST_INFO, TS_SC_ADD_PET_INFO_INFO, TS_SC_ADD_SUMMON_INFO_INFO,
     TS_SC_ANTI_HACK_INFO, TS_SC_ATTACK_EVENT_INFO, TS_SC_AUCTION_BIDDED_LIST_INFO, TS_SC_AUCTION_SEARCH_INFO,
     TS_SC_AUCTION_SELLING_LIST_INFO, TS_SC_AURA_INFO, TS_SC_BATTLE_ARENA_ABSENCE_CHECK_INFO,
     TS_SC_BATTLE_ARENA_BATTLE_INFO_INFO, TS_SC_BATTLE_ARENA_BATTLE_SCORE_INFO, TS_SC_BATTLE_ARENA_BATTLE_STATUS_INFO,
     TS_SC_BATTLE_ARENA_DISCONNECT_BATTLE_INFO, TS_SC_BATTLE_ARENA_EXERCISE_READY_STATUS_INFO,
     TS_SC_BATTLE_ARENA_JOIN_BATTLE_INFO, TS_SC_BATTLE_ARENA_JOIN_QUEUE_INFO, TS_SC_BATTLE_ARENA_LEAVE_INFO,
     TS_SC_BATTLE_ARENA_PENALTY_INFO_INFO, TS_SC_BATTLE_ARENA_RECONNECT_BATTLE_INFO, TS_SC_BATTLE_ARENA_RESULT_INFO,
     TS_SC_BATTLE_ARENA_UPDATE_WAIT_USER_COUNT_INFO, TS_SC_BELT_SLOT_INFO_INFO, TS_SC_BONUS_EXP_JP_INFO,
     TS_SC_BOOKMARK_TITLE_INFO, TS_SC_BOOTH_CLOSED_INFO, TS_SC_BOOTH_TRADE_INFO_INFO, TS_SC_CANT_ATTACK_INFO,
     TS_SC_CHANGE_LOCATION_INFO, TS_SC_CHANGE_NAME_INFO, TS_SC_CHANGE_SECURITY_NO_INFO,
     TS_SC_CHANGE_TITLE_CONDITION_INFO, TS_SC_CHARACTER_LIST_INFO, TS_SC_CHAT_INFO, TS_SC_CHAT_LOCAL_INFO,
     TS_SC_CHAT_RESULT_INFO, TS_SC_CLEAR_SECURITY_NO_INFO, TS_SC_COMMERCIAL_STORAGE_INFO_INFO,
     TS_SC_COMMERCIAL_STORAGE_LIST_INFO, TS_SC_COMPETE_ANSWER_INFO, TS_SC_COMPETE_COUNTDOWN_INFO,
     TS_SC_COMPETE_END_INFO, TS_SC_COMPETE_REQUEST_INFO, TS_SC_COMPETE_START_INFO, TS_SC_CREATE_SECURITY_NO_INFO,
     TS_SC_DEATHMATCH_RANKING_INFO, TS_SC_DEATHMATCH_RANKING_OPEN_INFO, TS_SC_DEATHMATCH_RANKING_REOPEN_INFO,
     TS_SC_DECOMPOSE_RESULT_INFO, TS_SC_DESTROY_ITEM_INFO, TS_SC_DETECT_RANGE_UPDATE_INFO, TS_SC_DIALOG_INFO,
     TS_SC_DISCONNECT_DESC_INFO, TS_SC_DOUBLE_WEAPON_ATTACK_EVENT_INFO, TS_SC_DROP_RESULT_INFO, TS_SC_EMOTION_INFO,
     TS_SC_ENERGY_INFO, TS_SC_ENTER_INFO, TS_SC_ERASE_ITEM_INFO, TS_SC_EXP_UPDATE_INFO, TS_SC_FARM_INFO_INFO,
     TS_SC_GAME_GUARD_AUTH_QUERY_INFO, TS_SC_GAME_TIME_INFO, TS_SC_GENERAL_MESSAGE_BOX_INFO,
     TS_SC_GET_BOOTHS_NAME_INFO, TS_SC_GET_CHAOS_INFO, TS_SC_GOLD_UPDATE_INFO, TS_SC_HAIR_INFO_INFO,
     TS_SC_HIDE_EQUIP_INFO_INFO, TS_SC_HPMP_INFO, TS_SC_HUNTAHOLIC_BEGIN_COUNTDOWN_INFO,
     TS_SC_HUNTAHOLIC_BEGIN_HUNTING_INFO, TS_SC_HUNTAHOLIC_HUNTING_SCORE_INFO, TS_SC_HUNTAHOLIC_INSTANCE_INFO_INFO,
     TS_SC_HUNTAHOLIC_INSTANCE_LIST_INFO, TS_SC_HUNTAHOLIC_MAX_POINT_ACHIEVED_INFO, TS_SC_HUNTAHOLIC_UPDATE_SCORE_INFO,
     TS_SC_INSTANCE_GAME_SCORE_REQUEST_INFO, TS_SC_INVENTORY_INFO, TS_SC_ITEM_COOL_TIME_INFO,
     TS_SC_ITEM_DROP_INFO_INFO, TS_SC_ITEM_KEEPING_LIST_INFO, TS_SC_ITEM_WEAR_INFO_INFO, TS_SC_LEAVE_INFO,
     TS_SC_LEVEL_UPDATE_INFO, TS_SC_LOGIN_RESULT_INFO, TS_SC_MARKET_INFO, TS_SC_MIX_RESULT_INFO,
     TS_SC_MOUNT_SUMMON_INFO, TS_SC_MOVE_INFO, TS_SC_MOVE_ACK_INFO, TS_SC_NPC_TRADE_INFO_INFO,
     TS_SC_OPEN_GUILD_WINDOW_INFO, TS_SC_OPEN_ITEM_SHOP_INFO, TS_SC_OPEN_PAID_STORAGE_INFO, TS_SC_OPEN_STORAGE_INFO,
     TS_SC_OPEN_TITLE_INFO, TS_SC_OPEN_URL_INFO, TS_SC_PARTYMATCH_LIST_INFO, TS_SC_PARTYMATCH_MEMBER_INFO,
     TS_SC_PROPERTY_INFO, TS_SC_QUEST_INFOMATION_INFO, TS_SC_QUEST_LIST_INFO, TS_SC_QUEST_STATUS_INFO, TS_SC_RAGE_INFO,
     TS_SC_RANKING_TOP_RECORD_INFO, TS_SC_REGEN_HPMP_INFO, TS_SC_REGEN_INFO_INFO, TS_SC_REGION_ACK_INFO,
     TS_SC_REMAIN_TITLE_TIME_INFO, TS_SC_REMOVE_PET_INFO_INFO, TS_SC_REMOVE_SUMMON_INFO_INFO,
     TS_SC_REQUEST_SECURITY_NO_INFO, TS_SC_RESULT_FOSTER_INFO, TS_SC_RESULT_NURSE_INFO, TS_SC_RESULT_RETRIEVE_INFO,
     TS_SC_SET_MAIN_TITLE_INFO, TS_SC_SET_SUB_TITLE_INFO, TS_SC_SET_TIME_INFO, TS_SC_SHOW_CREATE_ALLIANCE_INFO,
     TS_SC_SHOW_CREATE_GUILD_INFO, TS_SC_SHOW_SET_PET_NAME_INFO, TS_SC_SHOW_SOULSTONE_CRAFT_WINDOW_INFO,
     TS_SC_SHOW_SOULSTONE_REPAIR_WINDOW_INFO, TS_SC_SHOW_SUMMON_NAME_CHANGE_INFO, TS_SC_SHOW_WINDOW_INFO,
     TS_SC_SKILL_INFO, TS_SC_SKILLCARD_INFO_INFO, TS_SC_SKILL_CASTING_TIME_INFO, TS_SC_SKILL_LEVEL_LIST_INFO,
     TS_SC_SKILL_LIST_INFO, TS_SC_SKIN_INFO_INFO, TS_SC_SP_INFO, TS_SC_STATE_INFO, TS_SC_STATE_RESULT_INFO,
     TS_SC_STATUS_CHANGE_INFO, TS_SC_STAT_INFO_INFO, TS_SC_SUMMON_EVOLUTION_INFO, TS_SC_TAKE_ITEM_RESULT_INFO,
     TS_SC_TAMING_INFO_INFO, TS_SC_TARGET_INFO, TS_SC_TITLE_CONDITION_LIST_INFO, TS_SC_TITLE_LIST_INFO,
     TS_SC_UNMOUNT_SUMMON_INFO, TS_SC_UNSUMMON_INFO, TS_SC_UNSUMMON_NOTICE_INFO, TS_SC_UNSUMMON_PET_INFO,
     TS_SC_UPDATE_GUILD_ICON_INFO, TS_SC_UPDATE_ITEM_COUNT_INFO, TS_SC_URL_LIST_INFO, TS_SC_USE_ITEM_RESULT_INFO,
     TS_SC_WARP_INFO, TS_SC_WATCH_BOOTH_INFO, TS_SC_WEAR_INFO_INFO, TS_SC_WEATHER_INFO_INFO, TS_SC_XTRAP_CHECK_INFO]"

definition gameClientInfos :: "packet_info list" where
  "gameClientInfos = [
     TS_CS_ACCOUNT_INFO, TS_CS_ACCOUNT_WITH_AUTH_INFO, TS_CS_ANTI_HACK_INFO, TS_CS_ARRANGE_ITEM_INFO,
     TS_CS_ATTACK_REQUEST_INFO, TS_CS_AUCTION_BID_INFO, TS_CS_AUCTION_BIDDED_LIST_INFO, TS_CS_AUCTION_CANCEL_INFO,
     TS_CS_AUCTION_INSTANT_PURCHASE_INFO, TS_CS_AUCTION_REGISTER_INFO, TS_CS_AUCTION_SEARCH_INFO,
     TS_CS_AUCTION_SELLING_LIST_INFO, TS_CS_BATTLE_ARENA_ABSENCE_CHECK_ANSWER_INFO,
     TS_CS_BATTLE_ARENA_ABSENCE_CHECK_REQUEST_INFO, TS_CS_BATTLE_ARENA_ENTER_WHILE_COUNTDOWN_INFO,
     TS_CS_BATTLE_ARENA_EXERCISE_READY_INFO, TS_CS_BATTLE_ARENA_EXERCISE_START_INFO,
     TS_CS_BATTLE_ARENA_JOIN_QUEUE_INFO, TS_CS_BATTLE_ARENA_LEAVE_INFO, TS_CS_BIND_SKILLCARD_INFO,
     TS_CS_BOOKMARK_TITLE_INFO, TS_CS_BUY_FROM_BOOTH_INFO, TS_CS_BUY_ITEM_INFO, TS_CS_CANCEL_ACTION_INFO,
     TS_CS_CHANGE_ALIAS_INFO, TS_CS_CHANGE_ITEM_POSITION_INFO, TS_CS_CHANGE_LOCATION_INFO,
     TS_CS_CHANGE_SECURITY_NO_INFO, TS_CS_CHANGE_SUMMON_NAME_INFO, TS_CS_CHARACTER_LIST_INFO, TS_CS_CHAT_REQUEST_INFO,
     TS_CS_CHECK_BOOTH_STARTABLE_INFO, TS_CS_CHECK_CHARACTER_NAME_INFO, TS_CS_CHECK_ILLEGAL_USER_INFO,
     TS_CS_CLEAR_SECURITY_NO_INFO, TS_CS_COMPETE_ANSWER_INFO, TS_CS_COMPETE_REQUEST_INFO, TS_CS_CONTACT_INFO,
     TS_CS_CREATE_CHARACTER_INFO, TS_CS_CREATE_SECURITY_NO_INFO, TS_CS_DECOMPOSE_INFO, TS_CS_DELETE_CHARACTER_INFO,
     TS_CS_DIALOG_INFO, TS_CS_DONATE_ITEM_INFO, TS_CS_DONATE_REWARD_INFO, TS_CS_DROP_ITEM_INFO, TS_CS_DROP_QUEST_INFO,
     TS_CS_EMOTION_INFO, TS_CS_END_QUEST_INFO, TS_CS_ENTER_EVENT_AREA_INFO, TS_CS_ERASE_ITEM_INFO,
     TS_CS_FOSTER_CREATURE_INFO, TS_CS_GAME_GUARD_AUTH_ANSWER_INFO, TS_CS_GAME_TIME_INFO, TS_CS_GET_BOOTHS_NAME_INFO,
     TS_CS_GET_REGION_INFO_INFO, TS_CS_GET_SUMMON_SETUP_INFO_INFO, TS_CS_GET_WEATHER_INFO_INFO,
     TS_CS_HIDE_EQUIP_INFO_INFO, TS_CS_HUNTAHOLIC_BEGIN_HUNTING_INFO, TS_CS_HUNTAHOLIC_CREATE_INSTANCE_INFO,
     TS_CS_HUNTAHOLIC_INSTANCE_LIST_INFO, TS_CS_HUNTAHOLIC_JOIN_INSTANCE_INFO, TS_CS_HUNTAHOLIC_LEAVE_INSTANCE_INFO,
     TS_CS_HUNTAHOLIC_LEAVE_LOBBY_INFO, TS_CS_INSTANCE_GAME_ENTER_INFO, TS_CS_INSTANCE_GAME_EXIT_INFO,
     TS_CS_INSTANCE_GAME_SCORE_REQUEST_INFO, TS_CS_ITEM_KEEPING_LIST_INFO, TS_CS_ITEM_KEEPING_TAKE_INFO,
     TS_CS_JOB_LEVEL_UP_INFO, TS_CS_LEARN_SKILL_INFO, TS_CS_LEAVE_EVENT_AREA_INFO, TS_CS_LOGIN_INFO, TS_CS_LOGOUT_INFO,
     TS_CS_MIX_INFO, TS_CS_MONSTER_RECOGNIZE_INFO, TS_CS_MOVE_REQUEST_INFO, TS_CS_NURSE_CREATURE_INFO,
     TS_CS_OPEN_ITEM_SHOP_INFO, TS_CS_PARTYMATCH_ACTION_INFO, TS_CS_PUTOFF_CARD_INFO, TS_CS_PUTOFF_ITEM_INFO,
     TS_CS_PUTON_CARD_INFO, TS_CS_PUTON_ITEM_INFO, TS_CS_PUTON_ITEM_SET_INFO, TS_CS_QUERY_INFO, TS_CS_QUEST_INFO_INFO,
     TS_CS_RANKING_TOP_RECORD_INFO, TS_CS_REGION_UPDATE_INFO, TS_CS_REPAIR_SOULSTONE_INFO, TS_CS_REPORT_INFO,
     TS_CS_REQUEST_INFO, TS_CS_REQUEST_CLEAR_SECURITY_NO_INFO, TS_CS_REQUEST_FARM_INFO_INFO,
     TS_CS_REQUEST_FARM_MARKET_INFO, TS_CS_REQUEST_LOGOUT_INFO, TS_CS_REQUEST_REMOVE_STATE_INFO,
     TS_CS_REQUEST_RETURN_LOBBY_INFO, TS_CS_REQUEST_SECURITY_NO_CHANGE_INFO, TS_CS_RESURRECTION_INFO,
     TS_CS_RETRIEVE_CREATURE_INFO, TS_CS_RETURN_LOBBY_INFO, TS_CS_SELL_ITEM_INFO, TS_CS_SELL_TO_BOOTH_INFO,
     TS_CS_SET_MAIN_TITLE_INFO, TS_CS_SET_PET_NAME_INFO, TS_CS_SET_PROPERTY_INFO, TS_CS_SET_SUB_TITLE_INFO,
     TS_CS_SKILL_INFO, TS_CS_SOULSTONE_CRAFT_INFO, TS_CS_START_BOOTH_INFO, TS_CS_STOP_BOOTH_INFO,
     TS_CS_STOP_WATCH_BOOTH_INFO, TS_CS_STORAGE_INFO, TS_CS_SUMMON_INFO, TS_CS_SUMMON_CARD_SKILL_LIST_INFO,
     TS_CS_SWAP_EQUIP_INFO, TS_CS_TAKEOUT_COMMERCIAL_ITEM_INFO, TS_CS_TAKE_ITEM_INFO, TS_CS_TARGETING_INFO,
     TS_CS_TRANSMIT_ETHEREAL_DURABILITY_INFO, TS_CS_TRANSMIT_ETHEREAL_DURABILITY_TO_EQUIPMENT_INFO,
     TS_CS_TURN_OFF_PK_MODE_INFO, TS_CS_TURN_ON_PK_MODE_INFO, TS_CS_UNBIND_SKILLCARD_INFO, TS_CS_UPDATE_INFO,
     TS_CS_USE_ITEM_INFO, TS_CS_VERSION_INFO, TS_CS_WATCH_BOOTH_INFO, TS_CS_XTRAP_CHECK_INFO]"

definition gameBothInfos :: "packet_info list" where
  "gameBothInfos = [
     TS_EQUIP_SUMMON_INFO, TS_SECURITY_NO_INFO, TS_TIMESYNC_INFO, TS_TRADE_INFO]"

definition catalogue :: "packet_info list" where
  "catalogue = anyServerInfos @ authServerInfos @ authClientInfos @ uploadServerInfos @
     uploadClientInfos @ gameServerInfos @ gameClientInfos @ gameBothInfos"

lemmas info_defs = TS_AC_ACCOUNT_NAME_INFO_def TS_AC_AES_KEY_IV_INFO_def TS_AC_RESULT_INFO_def TS_AC_RESULT_WITH_STRING_INFO_def
  TS_AC_SELECT_SERVER_INFO_def TS_AC_SERVER_LIST_INFO_def TS_AC_UPDATE_PENDING_TIME_INFO_def
  TS_CA_ACCOUNT_INFO_def TS_CA_DISTRIBUTION_INFO_INFO_def TS_CA_IMBC_ACCOUNT_INFO_def TS_CA_OTP_ACCOUNT_INFO_def
  TS_CA_RSA_PUBLIC_KEY_INFO_def TS_CA_SELECT_SERVER_INFO_def TS_CA_SERVER_LIST_INFO_def TS_CA_VERSION_INFO_def
  TS_CS_ACCOUNT_INFO_def TS_CS_ACCOUNT_WITH_AUTH_INFO_def TS_CS_ANTI_HACK_INFO_def TS_CS_ARRANGE_ITEM_INFO_def
  TS_CS_ATTACK_REQUEST_INFO_def TS_CS_AUCTION_BID_INFO_def TS_CS_AUCTION_BIDDED_LIST_INFO_def
  TS_CS_AUCTION_CANCEL_INFO_def TS_CS_AUCTION_INSTANT_PURCHASE_INFO_def TS_CS_AUCTION_REGISTER_INFO_def
  TS_CS_AUCTION_SEARCH_INFO_def TS_CS_AUCTION_SELLING_LIST_INFO_def
  TS_CS_BATTLE_ARENA_ABSENCE_CHECK_ANSWER_INFO_def TS_CS_BATTLE_ARENA_ABSENCE_CHECK_REQUEST_INFO_def
  TS_CS_BATTLE_ARENA_ENTER_WHILE_COUNTDOWN_INFO_def TS_CS_BATTLE_ARENA_EXERCISE_READY_INFO_def
  TS_CS_BATTLE_ARENA_EXERCISE_START_INFO_def TS_CS_BATTLE_ARENA_JOIN_QUEUE_INFO_def
  TS_CS_BATTLE_ARENA_LEAVE_INFO_def TS_CS_BIND_SKILLCARD_INFO_def TS_CS_BOOKMARK_TITLE_INFO_def
  TS_CS_BUY_FROM_BOOTH_INFO_def TS_CS_BUY_ITEM_INFO_def TS_CS_CANCEL_ACTION_INFO_def TS_CS_CHANGE_ALIAS_INFO_def
  TS_CS_CHANGE_ITEM_POSITION_INFO_def TS_CS_CHANGE_LOCATION_INFO_def TS_CS_CHANGE_SECURITY_NO_INFO_def
  TS_CS_CHANGE_SUMMON_NAME_INFO_def TS_CS_CHARACTER_LIST_INFO_def TS_CS_CHAT_REQUEST_INFO_def
  TS_CS_CHECK_BOOTH_STARTABLE_INFO_def TS_CS_CHECK_CHARACTER_NAME_INFO_def TS_CS_CHECK_ILLEGAL_USER_INFO_def
  TS_CS_CLEAR_SECURITY_NO_INFO_def TS_CS_COMPETE_ANSWER_INFO_def TS_CS_COMPETE_REQUEST_INFO_def
  TS_CS_CONTACT_INFO_def TS_CS_CREATE_CHARACTER_INFO_def TS_CS_CREATE_SECURITY_NO_INFO_def
  TS_CS_DECOMPOSE_INFO_def TS_CS_DELETE_CHARACTER_INFO_def TS_CS_DIALOG_INFO_def TS_CS_DONATE_ITEM_INFO_def
  TS_CS_DONATE_REWARD_INFO_def TS_CS_DROP_ITEM_INFO_def TS_CS_DROP_QUEST_INFO_def TS_CS_EMOTION_INFO_def
  TS_CS_END_QUEST_INFO_def TS_CS_ENTER_EVENT_AREA_INFO_def TS_CS_ERASE_ITEM_INFO_def
  TS_CS_FOSTER_CREATURE_INFO_def TS_CS_GAME_GUARD_AUTH_ANSWER_INFO_def TS_CS_GAME_TIME_INFO_def
  TS_CS_GET_BOOTHS_NAME_INFO_def TS_CS_GET_REGION_INFO_INFO_def TS_CS_GET_SUMMON_SETUP_INFO_INFO_def
  TS_CS_GET_WEATHER_INFO_INFO_def TS_CS_HIDE_EQUIP_INFO_INFO_def TS_CS_HUNTAHOLIC_BEGIN_HUNTING_INFO_def
  TS_CS_HUNTAHOLIC_CREATE_INSTANCE_INFO_def TS_CS_HUNTAHOLIC_INSTANCE_LIST_INFO_def
  TS_CS_HUNTAHOLIC_JOIN_INSTANCE_INFO_def TS_CS_HUNTAHOLIC_LEAVE_INSTANCE_INFO_def
  TS_CS_HUNTAHOLIC_LEAVE_LOBBY_INFO_def TS_CS_INSTANCE_GAME_ENTER_INFO_def TS_CS_INSTANCE_GAME_EXIT_INFO_def
  TS_CS_INSTANCE_GAME_SCORE_REQUEST_INFO_def TS_CS_ITEM_KEEPING_LIST_INFO_def TS_CS_ITEM_KEEPING_TAKE_INFO_def
  TS_CS_JOB_LEVEL_UP_INFO_def TS_CS_LEARN_SKILL_INFO_def TS_CS_LEAVE_EVENT_AREA_INFO_def TS_CS_LOGIN_INFO_def
  TS_CS_LOGOUT_INFO_def TS_CS_MIX_INFO_def TS_CS_MONSTER_RECOGNIZE_INFO_def TS_CS_MOVE_REQUEST_INFO_def
  TS_CS_NURSE_CREATURE_INFO_def TS_CS_OPEN_ITEM_SHOP_INFO_def TS_CS_PARTYMATCH_ACTION_INFO_def
  TS_CS_PUTOFF_CARD_INFO_def TS_CS_PUTOFF_ITEM_INFO_def TS_CS_PUTON_CARD_INFO_def TS_CS_PUTON_ITEM_INFO_def
  TS_CS_PUTON_ITEM_SET_INFO_def TS_CS_QUERY_INFO_def TS_CS_QUEST_INFO_INFO_def TS_CS_RANKING_TOP_RECORD_INFO_def
  TS_CS_REGION_UPDATE_INFO_def TS_CS_REPAIR_SOULSTONE_INFO_def TS_CS_REPORT_INFO_def TS_CS_REQUEST_INFO_def
  TS_CS_REQUEST_CLEAR_SECURITY_NO_INFO_def TS_CS_REQUEST_FARM_INFO_INFO_def TS_CS_REQUEST_FARM_MARKET_INFO_def
  TS_CS_REQUEST_LOGOUT_INFO_def TS_CS_REQUEST_REMOVE_STATE_INFO_def TS_CS_REQUEST_RETURN_LOBBY_INFO_def
  TS_CS_REQUEST_SECURITY_NO_CHANGE_INFO_def TS_CS_RESURRECTION_INFO_def TS_CS_RETRIEVE_CREATURE_INFO_def
  TS_CS_RETURN_LOBBY_INFO_def TS_CS_SELL_ITEM_INFO_def TS_CS_SELL_TO_BOOTH_INFO_def
  TS_CS_SET_MAIN_TITLE_INFO_def TS_CS_SET_PET_NAME_INFO_def TS_CS_SET_PROPERTY_INFO_def
  TS_CS_SET_SUB_TITLE_INFO_def TS_CS_SKILL_INFO_def TS_CS_SOULSTONE_CRAFT_INFO_def TS_CS_START_BOOTH_INFO_def
  TS_CS_STOP_BOOTH_INFO_def TS_CS_STOP_WATCH_BOOTH_INFO_def TS_CS_STORAGE_INFO_def TS_CS_SUMMON_INFO_def
  TS_CS_SUMMON_CARD_SKILL_LIST_INFO_def TS_CS_SWAP_EQUIP_INFO_def TS_CS_TAKEOUT_COMMERCIAL_ITEM_INFO_def
  TS_CS_TAKE_ITEM_INFO_def TS_CS_TARGETING_INFO_def TS_CS_TRANSMIT_ETHEREAL_DURABILITY_INFO_def
  TS_CS_TRANSMIT_ETHEREAL_DURABILITY_TO_EQUIPMENT_INFO_def TS_CS_TURN_OFF_PK_MODE_INFO_def
  TS_CS_TURN_ON_PK_MODE_INFO_def TS_CS_UNBIND_SKILLCARD_INFO_def TS_CS_UPDATE_INFO_def TS_CS_USE_ITEM_INFO_def
  TS_CS_VERSION_INFO_def TS_CS_WATCH_BOOTH_INFO_def TS_CS_XTRAP_CHECK_INFO_def TS_EQUIP_SUMMON_INFO_def
  TS_SC_ACHIEVE_TITLE_INFO_def TS_SC_ADDED_SKILL_LIST_INFO_def TS_SC_ADD_PET_INFO_INFO_def
  TS_SC_ADD_SUMMON_INFO_INFO_def TS_SC_ANTI_HACK_INFO_def TS_SC_ATTACK_EVENT_INFO_def
  TS_SC_AUCTION_BIDDED_LIST_INFO_def TS_SC_AUCTION_SEARCH_INFO_def TS_SC_AUCTION_SELLING_LIST_INFO_def
  TS_SC_AURA_INFO_def TS_SC_BATTLE_ARENA_ABSENCE_CHECK_INFO_def TS_SC_BATTLE_ARENA_BATTLE_INFO_INFO_def
  TS_SC_BATTLE_ARENA_BATTLE_SCORE_INFO_def TS_SC_BATTLE_ARENA_BATTLE_STATUS_INFO_def
  TS_SC_BATTLE_ARENA_DISCONNECT_BATTLE_INFO_def TS_SC_BATTLE_ARENA_EXERCISE_READY_STATUS_INFO_def
  TS_SC_BATTLE_ARENA_JOIN_BATTLE_INFO_def TS_SC_BATTLE_ARENA_JOIN_QUEUE_INFO_def
  TS_SC_BATTLE_ARENA_LEAVE_INFO_def TS_SC_BATTLE_ARENA_PENALTY_INFO_INFO_def
  TS_SC_BATTLE_ARENA_RECONNECT_BATTLE_INFO_def TS_SC_BATTLE_ARENA_RESULT_INFO_def
  TS_SC_BATTLE_ARENA_UPDATE_WAIT_USER_COUNT_INFO_def TS_SC_BELT_SLOT_INFO_INFO_def TS_SC_BONUS_EXP_JP_INFO_def
  TS_SC_BOOKMARK_TITLE_INFO_def TS_SC_BOOTH_CLOSED_INFO_def TS_SC_BOOTH_TRADE_INFO_INFO_def
  TS_SC_CANT_ATTACK_INFO_def TS_SC_CHANGE_LOCATION_INFO_def TS_SC_CHANGE_NAME_INFO_def
  TS_SC_CHANGE_SECURITY_NO_INFO_def TS_SC_CHANGE_TITLE_CONDITION_INFO_def TS_SC_CHARACTER_LIST_INFO_def
  TS_SC_CHAT_INFO_def TS_SC_CHAT_LOCAL_INFO_def TS_SC_CHAT_RESULT_INFO_def TS_SC_CLEAR_SECURITY_NO_INFO_def
  TS_SC_COMMERCIAL_STORAGE_INFO_INFO_def TS_SC_COMMERCIAL_STORAGE_LIST_INFO_def TS_SC_COMPETE_ANSWER_INFO_def
  TS_SC_COMPETE_COUNTDOWN_INFO_def TS_SC_COMPETE_END_INFO_def TS_SC_COMPETE_REQUEST_INFO_def
  TS_SC_COMPETE_START_INFO_def TS_SC_CREATE_SECURITY_NO_INFO_def TS_SC_DEATHMATCH_RANKING_INFO_def
  TS_SC_DEATHMATCH_RANKING_OPEN_INFO_def TS_SC_DEATHMATCH_RANKING_REOPEN_INFO_def
  TS_SC_DECOMPOSE_RESULT_INFO_def TS_SC_DESTROY_ITEM_INFO_def TS_SC_DETECT_RANGE_UPDATE_INFO_def
  TS_SC_DIALOG_INFO_def TS_SC_DISCONNECT_DESC_INFO_def TS_SC_DOUBLE_WEAPON_ATTACK_EVENT_INFO_def
  TS_SC_DROP_RESULT_INFO_def TS_SC_EMOTION_INFO_def TS_SC_ENERGY_INFO_def TS_SC_ENTER_INFO_def
  TS_SC_ERASE_ITEM_INFO_def TS_SC_EXP_UPDATE_INFO_def TS_SC_FARM_INFO_INFO_def
  TS_SC_GAME_GUARD_AUTH_QUERY_INFO_def TS_SC_GAME_TIME_INFO_def TS_SC_GENERAL_MESSAGE_BOX_INFO_def
  TS_SC_GET_BOOTHS_NAME_INFO_def TS_SC_GET_CHAOS_INFO_def TS_SC_GOLD_UPDATE_INFO_def TS_SC_HAIR_INFO_INFO_def
  TS_SC_HIDE_EQUIP_INFO_INFO_def TS_SC_HPMP_INFO_def TS_SC_HUNTAHOLIC_BEGIN_COUNTDOWN_INFO_def
  TS_SC_HUNTAHOLIC_BEGIN_HUNTING_INFO_def TS_SC_HUNTAHOLIC_HUNTING_SCORE_INFO_def
  TS_SC_HUNTAHOLIC_INSTANCE_INFO_INFO_def TS_SC_HUNTAHOLIC_INSTANCE_LIST_INFO_def
  TS_SC_HUNTAHOLIC_MAX_POINT_ACHIEVED_INFO_def TS_SC_HUNTAHOLIC_UPDATE_SCORE_INFO_def
  TS_SC_INSTANCE_GAME_SCORE_REQUEST_INFO_def TS_SC_INVENTORY_INFO_def TS_SC_ITEM_COOL_TIME_INFO_def
  TS_SC_ITEM_DROP_INFO_INFO_def TS_SC_ITEM_KEEPING_LIST_INFO_def TS_SC_ITEM_WEAR_INFO_INFO_def
  TS_SC_LEAVE_INFO_def TS_SC_LEVEL_UPDATE_INFO_def TS_SC_LOGIN_RESULT_INFO_def TS_SC_MARKET_INFO_def
  TS_SC_MIX_RESULT_INFO_def TS_SC_MOUNT_SUMMON_INFO_def TS_SC_MOVE_INFO_def TS_SC_MOVE_ACK_INFO_def
  TS_SC_NPC_TRADE_INFO_INFO_def TS_SC_OPEN_GUILD_WINDOW_INFO_def TS_SC_OPEN_ITEM_SHOP_INFO_def
  TS_SC_OPEN_PAID_STORAGE_INFO_def TS_SC_OPEN_STORAGE_INFO_def TS_SC_OPEN_TITLE_INFO_def TS_SC_OPEN_URL_INFO_def
  TS_SC_PARTYMATCH_LIST_INFO_def TS_SC_PARTYMATCH_MEMBER_INFO_def TS_SC_PROPERTY_INFO_def
  TS_SC_QUEST_INFOMATION_INFO_def TS_SC_QUEST_LIST_INFO_def TS_SC_QUEST_STATUS_INFO_def TS_SC_RAGE_INFO_def
  TS_SC_RANKING_TOP_RECORD_INFO_def TS_SC_REGEN_HPMP_INFO_def TS_SC_REGEN_INFO_INFO_def
  TS_SC_REGION_ACK_INFO_def TS_SC_REMAIN_TITLE_TIME_INFO_def TS_SC_REMOVE_PET_INFO_INFO_def
  TS_SC_REMOVE_SUMMON_INFO_INFO_def TS_SC_REQUEST_SECURITY_NO_INFO_def TS_SC_RESULT_INFO_def
  TS_SC_RESULT_FOSTER_INFO_def TS_SC_RESULT_NURSE_INFO_def TS_SC_RESULT_RETRIEVE_INFO_def
  TS_SC_SET_MAIN_TITLE_INFO_def TS_SC_SET_SUB_TITLE_INFO_def TS_SC_SET_TIME_INFO_def
  TS_SC_SHOW_CREATE_ALLIANCE_INFO_def TS_SC_SHOW_CREATE_GUILD_INFO_def TS_SC_SHOW_SET_PET_NAME_INFO_def
  TS_SC_SHOW_SOULSTONE_CRAFT_WINDOW_INFO_def TS_SC_SHOW_SOULSTONE_REPAIR_WINDOW_INFO_def
  TS_SC_SHOW_SUMMON_NAME_CHANGE_INFO_def TS_SC_SHOW_WINDOW_INFO_def TS_SC_SKILL_INFO_def
  TS_SC_SKILLCARD_INFO_INFO_def TS_SC_SKILL_CASTING_TIME_INFO_def TS_SC_SKILL_LEVEL_LIST_INFO_def
  TS_SC_SKILL_LIST_INFO_def TS_SC_SKIN_INFO_INFO_def TS_SC_SP_INFO_def TS_SC_STATE_INFO_def
  TS_SC_STATE_RESULT_INFO_def TS_SC_STATUS_CHANGE_INFO_def TS_SC_STAT_INFO_INFO_def
  TS_SC_SUMMON_EVOLUTION_INFO_def TS_SC_TAKE_ITEM_RESULT_INFO_def TS_SC_TAMING_INFO_INFO_def
  TS_SC_TARGET_INFO_def TS_SC_TITLE_CONDITION_LIST_INFO_def TS_SC_TITLE_LIST_INFO_def
  TS_SC_UNMOUNT_SUMMON_INFO_def TS_SC_UNSUMMON_INFO_def TS_SC_UNSUMMON_NOTICE_INFO_def
  TS_SC_UNSUMMON_PET_INFO_def TS_SC_UPDATE_GUILD_ICON_INFO_def TS_SC_UPDATE_ITEM_COUNT_INFO_def
  TS_SC_URL_LIST_INFO_def TS_SC_USE_ITEM_RESULT_INFO_def TS_SC_WARP_INFO_def TS_SC_WATCH_BOOTH_INFO_def
  TS_SC_WEAR_INFO_INFO_def TS_SC_WEATHER_INFO_INFO_def TS_SC_XTRAP_CHECK_INFO_def TS_SECURITY_NO_INFO_def
  TS_TIMESYNC_INFO_def TS_TRADE_INFO_def TS_CU_DOWNLOAD_ICON_INFO_def TS_CU_LOGIN_INFO_def TS_CU_UPLOAD_INFO_def
  TS_UC_DOWNLOAD_ICON_INFO_def TS_UC_LOGIN_RESULT_INFO_def TS_UC_UPLOAD_INFO_def

end
