(* ===== verification/PacketDispatch.thy ===== *)
theory PacketDispatch
  imports PacketInfos
begin

text \<open>
  No two packets of a session and a direction share an id in any version, so that a received id finds
  its packet, and the ids of the game packets in version 9.6.3 are those of the documented renumbering
  (the comment at \<open>EPIC_9_6_3\<close> in librzu/src/lib/Packet/PacketEpics.h).
\<close>

section \<open>The ids a packet can have before and since 9.6.3\<close>

fun mayOld :: "epics \<Rightarrow> bool" where
  "mayOld (Since e) = (e < EPIC_9_6_3 \<or> 0x1000000 \<le> e)"
| "mayOld (Both a b) = (mayOld a \<and> mayOld b)"
| "mayOld c = True"

fun mayNew :: "epics \<Rightarrow> bool" where
  "mayNew (Before e) = (EPIC_9_6_3 < e)"
| "mayNew (Both a b) = (mayNew a \<and> mayNew b)"
| "mayNew c = True"

lemma ver_ge_masked: "unat e < 2 ^ 24 \<Longrightarrow> ver_ge v e \<longleftrightarrow> unat e \<le> unat (v AND 0x00FFFFFF)"
  using ver_ge_unat [of "v AND 0x00FFFFFF" e] mask24_lt [of v] by (simp add: ver_ge_def compareEpic_def)

lemma holds_mayOld: "holds c v \<Longrightarrow> ver_lt v EPIC_9_6_3 \<Longrightarrow> mayOld c"
proof (induction c)
  case (Since e)
  show ?case
  proof (rule ccontr)
    assume n: "\<not> mayOld (Since e)"
    then have "unat e < 2 ^ 24" "unat EPIC_9_6_3 \<le> unat e"
      by (auto simp: word_le_nat_alt word_less_nat_alt)
    then show False using Since ver_ge_masked [of e v] ver_ge_masked [of EPIC_9_6_3 v] by (simp add: ver_lt_not_ge)
  qed
qed auto

lemma holds_mayNew: "holds c v \<Longrightarrow> ver_ge v EPIC_9_6_3 \<Longrightarrow> mayNew c"
proof (induction c)
  case (Before e)
  show ?case
  proof (rule ccontr)
    assume n: "\<not> mayNew (Before e)"
    then have "unat e \<le> unat EPIC_9_6_3" by (simp add: word_less_nat_alt)
    then show False
      using Before ver_ge_masked [of e v] ver_ge_masked [of EPIC_9_6_3 v] by (simp add: ver_lt_not_ge)
  qed
qed auto

definition epochIds :: "(epics \<Rightarrow> bool) \<Rightarrow> packet_info \<Rightarrow> nat list" where
  "epochIds may p = map (\<lambda>(c, i). unat i) (filter (\<lambda>(c, i). may c) (pi_ids p))"

lemma epochIds_id:
  assumes "getInfoId p version = Some i"
  shows "unat i \<in> set (epochIds (if ver_lt version EPIC_9_6_3 then mayOld else mayNew) p)"
  using getInfoId_line [OF assms] holds_mayOld holds_mayNew
  by (force simp: epochIds_def ver_lt_not_ge)

text \<open>A list of packets without common keys, checked from the front.\<close>

fun uniqueKeys :: "(packet_info \<Rightarrow> nat list) \<Rightarrow> nat list \<Rightarrow> packet_info list \<Rightarrow> bool" where
  "uniqueKeys f seen [] = True"
| "uniqueKeys f seen (p # ps) = (list_all (\<lambda>i. i \<notin> set seen) (f p) \<and> uniqueKeys f (f p @ seen) ps)"

lemma uniqueKeys_seen: "uniqueKeys f seen ps \<Longrightarrow> p \<in> set ps \<Longrightarrow> i \<in> set (f p) \<Longrightarrow> i \<notin> set seen"
proof (induction ps arbitrary: seen)
  case (Cons a ps)
  then show ?case using Cons.IH [of "f a @ seen"] by (auto simp: list_all_iff)
qed simp

lemma uniqueKeys_eq:
  assumes "uniqueKeys f seen ps" "p \<in> set ps" "q \<in> set ps" "i \<in> set (f p)" "i \<in> set (f q)"
  shows "p = q"
  using assms
proof (induction ps arbitrary: seen)
  case (Cons a ps)
  have "x = a \<or> y = a \<longrightarrow> x = y" if "x \<in> set (a # ps)" "y \<in> set (a # ps)" "i \<in> set (f x)" "i \<in> set (f y)" for x y
    using that Cons.prems(1) uniqueKeys_seen [of f "f a @ seen" ps] by auto
  then show ?case using Cons by auto
qed simp

section \<open>The packets of a session\<close>

abbreviation "gameServerSide \<equiv> anyServerInfos @ gameServerInfos @ gameBothInfos"
abbreviation "gameClientSide \<equiv> gameClientInfos @ gameBothInfos"
abbreviation "otherSides \<equiv> [anyServerInfos @ authServerInfos, authClientInfos, anyServerInfos @ uploadServerInfos, uploadClientInfos]"

lemmas group_defs = anyServerInfos_def authServerInfos_def authClientInfos_def uploadServerInfos_def
  uploadClientInfos_def gameServerInfos_def gameClientInfos_def gameBothInfos_def

lemmas key_simps = info_defs packetInfo_def epochIds_def getLatest_def

lemma game_server_old: "uniqueKeys (epochIds mayOld) [] gameServerSide"
  unfolding group_defs append.simps by (simp add: key_simps)

lemma game_server_new: "uniqueKeys (epochIds mayNew) [] gameServerSide"
  unfolding group_defs append.simps by (simp add: key_simps)

lemma game_server_labels: "uniqueKeys (\<lambda>p. [unat (getLatest p)]) [] gameServerSide"
  unfolding group_defs append.simps by (simp add: key_simps)

lemma game_client_old: "uniqueKeys (epochIds mayOld) [] gameClientSide"
  unfolding group_defs append.simps by (simp add: key_simps)

lemma game_client_new: "uniqueKeys (epochIds mayNew) [] gameClientSide"
  unfolding group_defs append.simps by (simp add: key_simps)

lemma game_client_labels: "uniqueKeys (\<lambda>p. [unat (getLatest p)]) [] gameClientSide"
  unfolding group_defs append.simps by (simp add: key_simps)

lemma other_sides:
  "list_all (\<lambda>ps. uniqueKeys (epochIds mayOld) [] ps \<and> uniqueKeys (epochIds mayNew) [] ps \<and>
     uniqueKeys (\<lambda>p. [unat (getLatest p)]) [] ps) otherSides"
  unfolding group_defs append.simps by (simp add: key_simps)

lemma group_kinds:
  "list_all (\<lambda>p. pi_session p = AnySession \<and> pi_origin p = ServerO) anyServerInfos"
  "list_all (\<lambda>p. pi_session p = AuthClientS \<and> pi_origin p = ServerO) authServerInfos"
  "list_all (\<lambda>p. pi_session p = AuthClientS \<and> pi_origin p = ClientO) authClientInfos"
  "list_all (\<lambda>p. pi_session p = UploadClientS \<and> pi_origin p = ServerO) uploadServerInfos"
  "list_all (\<lambda>p. pi_session p = UploadClientS \<and> pi_origin p = ClientO) uploadClientInfos"
  "list_all (\<lambda>p. pi_session p = GameClientS \<and> pi_origin p = ServerO) gameServerInfos"
  "list_all (\<lambda>p. pi_session p = GameClientS \<and> pi_origin p = ClientO) gameClientInfos"
  "list_all (\<lambda>p. pi_session p = GameClientS \<and> pi_origin p = AnyOrigin) gameBothInfos"
  unfolding group_defs by (simp_all add: info_defs packetInfo_def)

text \<open>\<open>served s d\<close> are the packets that the end \<open>d\<close> of a session of type \<open>s\<close> may send.\<close>

definition served :: "session_type \<Rightarrow> packet_origin \<Rightarrow> packet_info set" where
  "served s d = {p \<in> set catalogue. sameSession s p \<and> sameOrigin d p}"

definition sideOf :: "session_type \<Rightarrow> packet_origin \<Rightarrow> packet_info list" where
  "sideOf s d = (case s of
       AuthClientS \<Rightarrow> (if d = ServerO then anyServerInfos @ authServerInfos else authClientInfos)
     | UploadClientS \<Rightarrow> (if d = ServerO then anyServerInfos @ uploadServerInfos else uploadClientInfos)
     | GameClientS \<Rightarrow> (if d = ServerO then gameServerSide else gameClientSide)
     | _ \<Rightarrow> [])"

definition clientSession :: "session_type \<Rightarrow> bool" where
  "clientSession s \<longleftrightarrow> s \<in> {AuthClientS, GameClientS, UploadClientS}"

lemma group_served:
  assumes "list_all (\<lambda>p. pi_session p = s' \<and> pi_origin p = d') ps"
  shows "{p \<in> set ps. sameSession s p \<and> sameOrigin d p} =
    (if (s = AnySession \<or> s' = AnySession \<or> s' = s) \<and> (d = AnyOrigin \<or> d' = AnyOrigin \<or> d' = d) then set ps else {})"
  using assms by (auto simp: list_all_iff sameSession_def sameOrigin_def)

lemma Collect_Un: "{p \<in> A \<union> B. Q p} = {p \<in> A. Q p} \<union> {p \<in> B. Q p}"
  by blast

lemma served_side: "clientSession s \<Longrightarrow> d \<noteq> AnyOrigin \<Longrightarrow> served s d = set (sideOf s d)"
  unfolding served_def catalogue_def set_append Collect_Un group_kinds [THEN group_served]
  by (cases s; cases d) (simp_all add: clientSession_def sideOf_def Un_ac)

lemma side_unique:
  assumes "clientSession s" "d \<noteq> AnyOrigin"
  shows "uniqueKeys (epochIds mayOld) [] (sideOf s d) \<and> uniqueKeys (epochIds mayNew) [] (sideOf s d) \<and>
    uniqueKeys (\<lambda>p. [unat (getLatest p)]) [] (sideOf s d)"
  using assms game_server_old game_server_new game_server_labels game_client_old game_client_new game_client_labels other_sides
  by (cases s; cases d) (simp_all add: clientSession_def sideOf_def)

lemma served_id_unique:
  assumes "clientSession s" "d \<noteq> AnyOrigin" "p \<in> served s d" "q \<in> served s d"
    and "getInfoId p version = Some i" "getInfoId q version = Some i"
  shows "p = q"
  using side_unique [OF assms(1,2)] uniqueKeys_eq [of _ "[]" "sideOf s d" p q "unat i"]
    epochIds_id [OF assms(5)] epochIds_id [OF assms(6)] assms(3,4)
  by (auto simp: served_side [OF assms(1,2)] split: if_splits)

lemma served_label_unique:
  assumes "clientSession s" "d \<noteq> AnyOrigin" "p \<in> served s d" "q \<in> served s d" "packetID p = packetID q"
  shows "p = q"
proof -
  have "getLatest p = getLatest q" using assms(5) unfolding packetID_def by (rule unsigned_word_eqI)
  then show ?thesis
    using uniqueKeys_eq [of "\<lambda>p. [unat (getLatest p)]" "[]" "sideOf s d" p q] side_unique [OF assms(1,2)] assms(3,4)
    by (simp add: served_side [OF assms(1,2)])
qed

text \<open>Every packet has an id in every version, never the one that \<open>processPacket\<close> skips.\<close>

lemma catalogue_ids: "p \<in> set catalogue \<Longrightarrow> \<exists>i. getInfoId p version = Some i \<and> i \<noteq> 9999"
proof -
  have "list_all (\<lambda>p. \<exists>i. getInfoId p version = Some i \<and> i \<noteq> 9999) catalogue"
    unfolding catalogue_def group_defs append.simps
    by (simp add: info_defs packetInfo_def getInfoId_def ver_lt_not_ge)
  then show "p \<in> set catalogue \<Longrightarrow> ?thesis" by (simp add: list_all_iff)
qed

text \<open>\<open>processPacket\<close> calls the handler of the packet that was sent: with any order of registration, before or after
  the registry is filled, and with the cases of the switch in any order.\<close>

lemma dispatch_finds:
  assumes "set ps = set catalogue" "\<And>s d. set (cases s d) = served s d"
    and "infos = [] \<or> infos = initPacketsInfo ps []"
    and "clientSession s" "d \<noteq> AnyOrigin" "p \<in> served s d" "getInfoId p version = Some i" "i \<noteq> 9999"
  shows "fst (processPacketId cases ps s d version i infos) = Called p"
proof -
  have "fst (getPacketMetadata ps i s d version infos) = Some p"
  proof (rule metadata_found [OF assms(3)])
    show "q = p" if "q \<in> set ps" "sameSession s q" "sameOrigin d q" "getInfoId q version = Some i" for q
      using served_id_unique [OF assms(4,5), of q p version i] that assms(1,6,7) by (simp add: served_def)
  qed (use assms in \<open>simp_all add: served_def\<close>)
  then have "fst (convertPacketIdToTypeId ps i s d version infos) = packetID p"
    by (auto simp: convertPacketIdToTypeId_def split: prod.splits option.splits)
  moreover have "find (\<lambda>q. packetID q = packetID p) (cases s d) = Some p"
  proof -
    have "find (\<lambda>q. packetID q = packetID p) qs = Some p" if "p \<in> set qs" "set qs \<subseteq> served s d" for qs
      using that
    proof (induction qs)
      case (Cons q qs)
      then show ?case using served_label_unique [OF assms(4,5), of q p] assms(6) by auto
    qed simp
    then show ?thesis using assms(2,6) by simp
  qed
  ultimately show ?thesis using assms(8) by (auto simp: processPacketId_def Let_def split: prod.splits)
qed

section \<open>The renumbering of 9.6.3\<close>

text \<open>The documented packet id mapping.\<close>

definition renumbered :: "nat \<Rightarrow> nat" where
  "renumbered i = (if i < 2000 then i + 1000 else if i < 3000 then i + 400
     else if 9000 \<le> i \<and> i < 9999 then i - 900 else if 10000 \<le> i then i - 1000 else i)"

definition renumberedInfo :: "packet_version_t \<Rightarrow> packet_version_t \<Rightarrow> packet_info \<Rightarrow> bool" where
  "renumberedInfo v w p \<longleftrightarrow>
     map_option (\<lambda>i. renumbered (unat i)) (getInfoId p v) = map_option unat (getInfoId p w)"

lemma ver_ge_mono: "ver_ge v e \<Longrightarrow> unat e' \<le> unat e \<Longrightarrow> unat e < 2 ^ 24 \<Longrightarrow> ver_ge v e'"
  using ver_ge_masked [of e v] ver_ge_masked [of e' v] by simp

lemma not_epic: "ver_ge v e \<Longrightarrow> unat e < 2 ^ 24 \<Longrightarrow> unat e' < unat e \<Longrightarrow> compareEpic v e' \<noteq> 0"
proof
  assume a: "ver_ge v e" "unat e < 2 ^ 24" "unat e' < unat e" "compareEpic v e' = 0"
  have "unat (v AND 0x00FFFFFF) < 2 ^ 31" using mask24_lt [of v] by (rule less_trans) simp
  then have "compareEpic v e' = int (unat (v AND 0x00FFFFFF)) - int (unat e')"
    unfolding compareEpic_def using a(2,3) by (intro sint_diff_small) simp_all
  then have "unat (v AND 0x00FFFFFF) = unat e'" using a(4) by linarith
  then show False using a(1-3) ver_ge_masked [of e v] by simp
qed

lemma game_renumbered:
  assumes old: "ver_ge v EPIC_9_4_2" "ver_lt v EPIC_9_6_3" "versionFlag v EPIC_FLAG_TESTSERVER = 0"
    and new: "ver_ge w EPIC_9_6_3" "versionFlag w EPIC_FLAG_TESTSERVER = 0"
  shows "list_all (renumberedInfo v w) (anyServerInfos @ gameServerInfos @ gameClientInfos @ gameBothInfos)"
proof -
  have "ver_ge v EPIC_7_4" "ver_ge v EPIC_9_2" "ver_ge v EPIC_9_4" "compareEpic v EPIC_9_4_AR \<noteq> 0"
    using ver_ge_mono [OF old(1)] not_epic [OF old(1)] by simp_all
  moreover have "ver_ge w EPIC_7_4" "ver_ge w EPIC_9_2" "ver_ge w EPIC_9_4" "ver_ge w EPIC_9_4_2" "compareEpic w EPIC_9_4_AR \<noteq> 0"
    using ver_ge_mono [OF new(1)] not_epic [OF new(1)] by simp_all
  ultimately show ?thesis
    using old new unfolding group_defs append.simps
    by (simp add: renumberedInfo_def getInfoId_def info_defs packetInfo_def ver_lt_not_ge renumbered_def)
qed

section \<open>Properties\<close>

definition generatedCases :: "session_type \<Rightarrow> packet_origin \<Rightarrow> packet_info list" where
  "generatedCases s d = filter (\<lambda>p. sameSession s p \<and> sameOrigin d p) catalogue"

lemma generatedCases_served: "set (generatedCases s d) = served s d"
  by (simp add: generatedCases_def served_def)

lemma chat_served: "TS_SC_CHAT_INFO \<in> served GameClientS ServerO"
  by (simp add: served_side clientSession_def sideOf_def gameServerInfos_def)

text \<open>C31. Whatever packet one end of an auth, game or upload session sends, in whatever version, it has an id, and
  \<open>processPacket\<close> at the other end calls the handler of that very packet: with any order of registration, before or
  after the registry is filled, and with the cases of the switch in any order.\<close>

theorem packet_dispatch:
  assumes "set ps = set catalogue" "\<And>s d. set (cases s d) = served s d"
    and "infos = [] \<or> infos = initPacketsInfo ps []"
    and "clientSession s" "d \<noteq> AnyOrigin" "p \<in> served s d"
  shows "\<exists>i. getInfoId p version = Some i \<and> fst (processPacketId cases ps s d version i infos) = Called p"
proof -
  obtain i where "getInfoId p version = Some i" "i \<noteq> 9999"
    using catalogue_ids [of p version] assms(6) by (auto simp: served_def)
  then show ?thesis using dispatch_finds [OF assms] by blast
qed

theorem packet_dispatch_witness:
  "fst (processPacketId generatedCases catalogue GameClientS ServerO EPIC_7_4 22 []) = Called TS_SC_CHAT_INFO"
proof -
  obtain i where i: "getInfoId TS_SC_CHAT_INFO EPIC_7_4 = Some i"
      "fst (processPacketId generatedCases catalogue GameClientS ServerO EPIC_7_4 i []) = Called TS_SC_CHAT_INFO"
    using packet_dispatch [OF refl generatedCases_served _ _ _ chat_served, of "[]" EPIC_7_4]
    by (auto simp: clientSession_def)
  moreover have "getInfoId TS_SC_CHAT_INFO EPIC_7_4 = Some 22"
    by (simp add: getInfoId_def TS_SC_CHAT_INFO_def packetInfo_def ver_ge_def ver_lt_def compareEpic_def)
  ultimately show ?thesis by simp
qed

text \<open>The ids of all game packets changed with 9.6.3 as documented: between a version from 9.4.2 on and one since
  9.6.3, outside the test server, an id below 2000 grows by 1000, one below 3000 by 400, one from 9000 to 9998 shrinks by
  900, one from 10000 on by 1000, and the others stay.\<close>

lemma game_ids_renumbered:
  assumes "ver_ge v EPIC_9_4_2" "ver_lt v EPIC_9_6_3" "versionFlag v EPIC_FLAG_TESTSERVER = 0"
    and "ver_ge w EPIC_9_6_3" "versionFlag w EPIC_FLAG_TESTSERVER = 0"
    and "p \<in> served GameClientS d"
  shows "\<exists>i j. getInfoId p v = Some i \<and> getInfoId p w = Some j \<and> unat j = renumbered (unat i)"
proof -
  have c: "p \<in> set catalogue" using assms(6) by (simp add: served_def)
  have "p \<in> set (anyServerInfos @ gameServerInfos @ gameClientInfos @ gameBothInfos)"
    using assms(6) unfolding served_def catalogue_def set_append Collect_Un group_kinds [THEN group_served]
    by (auto split: if_splits)
  then have "renumberedInfo v w p" using game_renumbered [OF assms(1-5)] by (auto simp: list_all_iff)
  then show ?thesis using catalogue_ids [OF c, of v] catalogue_ids [OF c, of w] by (auto simp: renumberedInfo_def)
qed

lemma game_ids_renumbered_witness:
  "\<exists>i j. getInfoId TS_SC_CHAT_INFO EPIC_9_6_2 = Some i \<and> getInfoId TS_SC_CHAT_INFO EPIC_9_6_3 = Some j \<and>
     unat j = renumbered (unat i)"
  by (rule game_ids_renumbered [OF _ _ _ _ _ chat_served])
    (simp_all add: ver_ge_def ver_lt_def compareEpic_def versionFlag_def)

text \<open>An id that is unknown in a version stands for itself, in the numbering of the packet types, which is that of
  the newest ids: before 9.6.3 a chat message with the id of the newer versions is dispatched as well.\<close>

lemma future_id_dispatched:
  assumes "ver_lt v EPIC_9_6_3"
  shows "getInfoId TS_SC_CHAT_INFO v = Some 22 \<and>
    fst (processPacketId generatedCases catalogue GameClientS ServerO v 1022 []) = Called TS_SC_CHAT_INFO"
proof -
  have chat: "getInfoId TS_SC_CHAT_INFO v = Some 22" "packetID TS_SC_CHAT_INFO = 1022"
    using assms by (simp_all add: getInfoId_def TS_SC_CHAT_INFO_def packetInfo_def ver_lt_not_ge packetID_def getLatest_def)
  have "list_all (\<lambda>p. list_all (\<lambda>i. i \<noteq> 1022) (epochIds mayOld p)) gameServerSide"
    unfolding group_defs append.simps by (simp add: key_simps)
  then have "getInfoId q v \<noteq> Some 1022" if "q \<in> served GameClientS ServerO" for q
    using that epochIds_id [of q v 1022] assms by (auto simp: served_side clientSession_def sideOf_def list_all_iff)
  then have "fst (getPacketMetadata catalogue 1022 GameClientS ServerO v []) = None"
    by (intro metadata_none) (auto simp: served_def)
  then have "fst (convertPacketIdToTypeId catalogue 1022 GameClientS ServerO v []) = packetID TS_SC_CHAT_INFO"
    by (auto simp: convertPacketIdToTypeId_def chat(2) split: prod.splits option.splits)
  moreover have "find (\<lambda>q. packetID q = packetID TS_SC_CHAT_INFO) qs = Some TS_SC_CHAT_INFO"
    if "TS_SC_CHAT_INFO \<in> set qs" "set qs \<subseteq> served GameClientS ServerO" for qs
    using that
  proof (induction qs)
    case (Cons q qs)
    then show ?case
      using served_label_unique [OF _ _ _ chat_served, of q] by (auto simp: clientSession_def)
  qed simp
  ultimately show ?thesis
    using chat(1) chat_served by (auto simp: processPacketId_def Let_def generatedCases_served split: prod.splits)
qed

end
