(* ===== verification/GameStructs.thy ===== *)
theory GameStructs
  imports PacketInfos
begin

text \<open>
  The structures inside the packets of the game clients (librzu/src/packets/GameClient), one definition per
  \<open>CREATE_STRUCT\<close>. A \<open>float\<close> is kept as its four bytes, a \<open>bool\<close> as its byte; \<open>ar_handle_t\<close> and \<open>ar_time_t\<close> are
  \<open>uint32_t\<close>, an enum is its underlying type.
\<close>

definition LOBBY_CHARACTER_INFO_DEF :: "field list" where
  "LOBBY_CHARACTER_INFO_DEF =
     [Simple (PrimT uint32_t) ''sex'',
      Simple (PrimT uint32_t) ''race'',
      ArrayF (PrimT uint32_t) ''model_id'' 5,
      When (since EPIC_7_1) (Simple (PrimT uint32_t) ''hair_color_index'') None,
      When (since EPIC_7_1) (Simple (PrimT uint32_t) ''hair_color_rgb'') None,
      When (since EPIC_7_1) (Simple (PrimT uint32_t) ''hide_equip_flag'') None,
      When (since EPIC_6_3) (Simple (PrimT uint32_t) ''texture_id'') None,
      When (before EPIC_4_1) (ArrayF (PrimT uint32_t) ''wear_info'' 14) None,
      When (between EPIC_4_1 EPIC_9_5) (ArrayF (PrimT uint32_t) ''wear_info'' 24) None,
      When (between EPIC_9_5 EPIC_9_6) (ArrayF (PrimT uint32_t) ''wear_info'' 28) None,
      When (between EPIC_9_6 EPIC_9_6_7) (ArrayF (PrimT uint32_t) ''wear_info'' 32) None,
      When (between EPIC_9_6_7 EPIC_9_7_2) (ArrayF (PrimT uint32_t) ''wear_info'' 24) None,
      Simple (PrimT uint32_t) ''level'',
      Simple (PrimT uint32_t) ''job'',
      Simple (PrimT uint32_t) ''job_level'',
      Simple (PrimT uint32_t) ''exp_percentage'',
      Simple (PrimT uint32_t) ''hp'',
      Simple (PrimT uint32_t) ''mp'',
      Simple (PrimT uint32_t) ''permission'',
      Simple (PrimT uint8_t) ''is_banned'',
      When (before EPIC_9_6) (StringF ''name'' 19) None,
      When (since EPIC_9_6) (StringF ''name'' 20) None,
      When (since EPIC_4_1) (Simple (PrimT uint32_t) ''skin_color'') None,
      When (before EPIC_9_6_7) (StringF ''szCreateTime'' 30) None,
      When (before EPIC_9_6_7) (StringF ''szDeleteTime'' 30) None,
      When (since EPIC_9_7_2) (ArrayF (PrimT uint32_t) ''wear_info'' 10) None,
      When (before EPIC_4_1) (ArrayF (PrimT uint32_t) ''wear_item_enhance_info'' 14) None,
      When (between EPIC_4_1 EPIC_9_5) (ArrayF (PrimT uint32_t) ''wear_item_enhance_info'' 24) None,
      When (between EPIC_9_5 EPIC_9_6) (ArrayF (PrimT uint32_t) ''wear_item_enhance_info'' 28) None,
      When (between EPIC_9_6 EPIC_9_6_7) (ArrayF (PrimT uint32_t) ''wear_item_enhance_info'' 32) None,
      When (between EPIC_9_6_7 EPIC_9_7_2) (ArrayF (PrimT uint8_t) ''wear_item_enhance_info'' 24) None,
      When (before EPIC_4_1) (ArrayF (PrimT uint32_t) ''wear_item_level_info'' 14) None,
      When (between EPIC_4_1 EPIC_9_5) (ArrayF (PrimT uint32_t) ''wear_item_level_info'' 24) None,
      When (between EPIC_9_5 EPIC_9_6) (ArrayF (PrimT uint32_t) ''wear_item_level_info'' 28) None,
      When (between EPIC_9_6 EPIC_9_6_7) (ArrayF (PrimT uint32_t) ''wear_item_level_info'' 32) None,
      When (between EPIC_9_6_7 EPIC_9_7_2) (ArrayF (PrimT uint8_t) ''wear_item_level_info'' 24) None,
      When (between EPIC_6_1 EPIC_9_5) (ArrayF (PrimT uint8_t) ''wear_item_elemental_type'' 24) None,
      When (between EPIC_9_5 EPIC_9_6) (ArrayF (PrimT uint8_t) ''wear_item_elemental_type'' 28) None,
      When (between EPIC_9_6 EPIC_9_6_7) (ArrayF (PrimT uint8_t) ''wear_item_elemental_type'' 32) None,
      When (between EPIC_9_6_7 EPIC_9_7_2) (ArrayF (PrimT uint8_t) ''wear_item_elemental_type'' 24) None,
      When (between EPIC_7_4 EPIC_9_5) (ArrayF (PrimT uint32_t) ''wear_appearance_code'' 24) None,
      When (between EPIC_9_5 EPIC_9_6) (ArrayF (PrimT uint32_t) ''wear_appearance_code'' 28) None,
      When (between EPIC_9_6 EPIC_9_6_7) (ArrayF (PrimT uint32_t) ''wear_appearance_code'' 32) None,
      When (between EPIC_9_6_7 EPIC_9_7_2) (ArrayF (PrimT uint32_t) ''wear_appearance_code'' 24) None,
      When (since EPIC_9_7_2) (ArrayF (PrimT uint8_t) ''wear_item_type'' 10) None]"

definition TS_DECOMPOSE_ITEM_INFO_DEF :: "field list" where
  "TS_DECOMPOSE_ITEM_INFO_DEF =
     [Simple (PrimT uint32_t) ''items_handle'',
      When (since EPIC_8_2) (Simple (PrimT uint32_t) ''count'') (Some (VNum 1))]"

definition TS_DONATE_ITEM_INFO_DEF :: "field list" where
  "TS_DONATE_ITEM_INFO_DEF =
     [Simple (PrimT uint32_t) ''handle'',
      When (since EPIC_6_3) (Simple (PrimT int64_t) ''count'') None,
      When (before EPIC_6_3) (Simple (PrimT uint16_t) ''count'') None]"

definition TS_REWARD_INFO_DEF :: "field list" where
  "TS_REWARD_INFO_DEF =
     [Simple (PrimT int8_t) ''reward_type'',
      Simple (PrimT uint16_t) ''count'']"

definition TS_ERASE_ITEM_INFO_DEF :: "field list" where
  "TS_ERASE_ITEM_INFO_DEF =
     [Simple (PrimT uint32_t) ''item_handle'',
      When (since EPIC_7_2) (Simple (PrimT int64_t) ''count'') None,
      When (between EPIC_7_4 EPIC_9_6_7) (Simple (PrimT uint8_t) ''is_in_storage'') None]"

definition TS_TICKET_INFO_DEF :: "field list" where
  "TS_TICKET_INFO_DEF =
     [Simple (PrimT uint32_t) ''ticket_handle'',
      Simple (PrimT int32_t) ''ticket_count'']"

definition TS_CRACKER_INFO_DEF :: "field list" where
  "TS_CRACKER_INFO_DEF =
     [Simple (PrimT uint32_t) ''cracker_handle'',
      Simple (PrimT int32_t) ''cracker_count'']"

definition TS_GAME_GUARD_AUTH_V1_DEF :: "field list" where
  "TS_GAME_GUARD_AUTH_V1_DEF =
     [Simple (PrimT uint32_t) ''dwIndex'',
      Simple (PrimT uint32_t) ''dwValue1'',
      Simple (PrimT uint32_t) ''dwValue2'',
      Simple (PrimT uint32_t) ''dwValue3'']"

definition TS_GAME_GUARD_AUTH_V2_DEF :: "field list" where
  "TS_GAME_GUARD_AUTH_V2_DEF =
     [Count uint16_t ''data'' False,
      Simple (PrimT uint16_t) ''unknown'',
      DynArray (PrimT uint8_t) ''data'']"

definition TS_GAME_GUARD_AUTH_DEF :: "field list" where
  "TS_GAME_GUARD_AUTH_DEF =
     [When (before EPIC_9_1) (Simple (StructT TS_GAME_GUARD_AUTH_V1_DEF) ''authv1'') None,
      When (since EPIC_9_1) (Simple (StructT TS_GAME_GUARD_AUTH_V2_DEF) ''authv2'') None]"

definition TS_MIX_INFO_DEF :: "field list" where
  "TS_MIX_INFO_DEF =
     [Simple (PrimT uint32_t) ''handle'',
      Simple (PrimT uint16_t) ''count'']"

definition MOVE_REQUEST_INFO_DEF :: "field list" where
  "MOVE_REQUEST_INFO_DEF =
     [Simple (PrimT uint32_t) ''tx'',
      Simple (PrimT uint32_t) ''ty'']"

definition TS_BOOTH_OPEN_ITEM_INFO_DEF :: "field list" where
  "TS_BOOTH_OPEN_ITEM_INFO_DEF =
     [Simple (PrimT uint32_t) ''item_handle'',
      Simple (PrimT int32_t) ''cnt'',
      When (since EPIC_4_1_1) (Simple (PrimT int64_t) ''gold'') None,
      When (before EPIC_4_1_1) (Simple (PrimT int32_t) ''gold'') None]"

definition TS_ADDED_SKILL_LIST_DEF :: "field list" where
  "TS_ADDED_SKILL_LIST_DEF =
     [Simple (PrimT uint32_t) ''skill_id'',
      Simple (PrimT uint8_t) ''restricted_to_type'',
      Simple (PrimT uint8_t) ''added_skill_level'']"

definition ATTACK_INFO_DEF :: "field list" where
  "ATTACK_INFO_DEF =
     [When (since EPIC_7_3) (Simple (PrimT int32_t) ''damage'') None,
      When (before EPIC_7_3) (Simple (PrimT int16_t) ''damage'') None,
      When (since EPIC_7_3) (Simple (PrimT int32_t) ''mp_damage'') None,
      When (before EPIC_7_3) (Simple (PrimT int16_t) ''mp_damage'') None,
      PadMarker ''flag_padding'',
      Simple (PrimT int8_t) ''flag'',
      When (since EPIC_9_6_2) (Pad 4 ''flag_padding'') None,
      When (since EPIC_7_3) (ArrayF (PrimT int32_t) ''elemental_damage'' 7) None,
      When (before EPIC_7_3) (ArrayF (PrimT uint16_t) ''elemental_damage'' 7) None,
      Simple (PrimT int32_t) ''target_hp'',
      When (since EPIC_7_3) (Simple (PrimT int32_t) ''target_mp'') None,
      When (before EPIC_7_3) (Simple (PrimT uint16_t) ''target_mp'') None,
      When (since EPIC_7_3) (Simple (PrimT int32_t) ''attacker_damage'') None,
      When (before EPIC_7_3) (Simple (PrimT int16_t) ''attacker_damage'') None,
      When (since EPIC_7_3) (Simple (PrimT int32_t) ''attacker_mp_damage'') None,
      When (before EPIC_7_3) (Simple (PrimT int16_t) ''attacker_mp_damage'') None,
      Simple (PrimT int32_t) ''attacker_hp'',
      When (since EPIC_7_3) (Simple (PrimT int32_t) ''attacker_mp'') None,
      When (before EPIC_7_3) (Simple (PrimT uint16_t) ''attacker_mp'') None]"

definition TS_BATTLE_ARENA_PLAYER_INFO_DEF :: "field list" where
  "TS_BATTLE_ARENA_PLAYER_INFO_DEF =
     [Simple (PrimT uint32_t) ''handle'',
      Simple (PrimT int32_t) ''nJobID'',
      When (before EPIC_9_6) (StringF ''name'' 19) None,
      When (since EPIC_9_6) (StringF ''name'' 20) None]"

definition TS_BATTLE_ARENA_TEAM_SCORE_DEF :: "field list" where
  "TS_BATTLE_ARENA_TEAM_SCORE_DEF =
     [Simple (PrimT int16_t) ''nTotalKillCount'',
      Simple (PrimT int16_t) ''nTotalDeathCount'',
      Simple (PrimT int16_t) ''nScore'']"

definition TS_BATTLE_ARENA_PLAYER_SCORE_DEF :: "field list" where
  "TS_BATTLE_ARENA_PLAYER_SCORE_DEF =
     [When (before EPIC_9_6) (StringF ''name'' 19) None,
      When (since EPIC_9_6) (StringF ''name'' 20) None,
      Simple (PrimT int16_t) ''nKillCount'',
      Simple (PrimT int16_t) ''nDeathCount'',
      Simple (PrimT int16_t) ''nPropActivateCount'',
      Simple (PrimT int32_t) ''nTotalGainAP'']"

definition TS_ARENA_MVP_DEF :: "field list" where
  "TS_ARENA_MVP_DEF =
     [When (before EPIC_9_6) (StringF ''name'' 19) None,
      When (since EPIC_9_6) (StringF ''name'' 20) None]"

definition TS_BONUS_INFO_DEF :: "field list" where
  "TS_BONUS_INFO_DEF =
     [Simple (PrimT int32_t) ''type'',
      When (since EPIC_5_1) (Simple (PrimT int32_t) ''rate'') None,
      When (since EPIC_6_1) (Simple (PrimT int64_t) ''exp'') None,
      When (before EPIC_6_1) (Simple (PrimT int32_t) ''exp'') None,
      Simple (PrimT int32_t) ''jp'']"

definition TS_COMMERCIAL_ITEM_INFO_DEF :: "field list" where
  "TS_COMMERCIAL_ITEM_INFO_DEF =
     [Simple (PrimT uint32_t) ''commercial_item_uid'',
      Simple (PrimT int32_t) ''code'',
      Simple (PrimT uint16_t) ''count'']"

definition TS_DEATHMATCH_RANKING_INFO_DEF :: "field list" where
  "TS_DEATHMATCH_RANKING_INFO_DEF =
     [Simple (PrimT int32_t) ''rank'',
      Simple (PrimT uint16_t) ''kills'',
      Simple (PrimT uint16_t) ''deaths'',
      Simple (PrimT uint32_t) ''score'',
      Simple (PrimT uint32_t) ''unknown_2'',
      When (before EPIC_9_6_5) (StringF ''name'' 16) None,
      When (since EPIC_9_6_5) (StringF ''name'' 20) None]"

definition TS_DECOMPOSE_INFO_DEF :: "field list" where
  "TS_DECOMPOSE_INFO_DEF =
     [Simple (PrimT uint32_t) ''handle'',
      Simple (PrimT uint32_t) ''count'']"

definition TS_SC_ENTER__ITEM_PICK_UP_ORDER_DEF :: "field list" where
  "TS_SC_ENTER__ITEM_PICK_UP_ORDER_DEF =
     [Simple (PrimT uint32_t) ''drop_time'',
      ArrayF (PrimT uint32_t) ''hPlayer'' 3,
      ArrayF (PrimT int32_t) ''nPartyID'' 3,
      When (since EPIC_9_6_7) (Simple (PrimT uint32_t) ''unknown'') None]"

definition TS_SC_ENTER__SKILL_INFO_DEF :: "field list" where
  "TS_SC_ENTER__SKILL_INFO_DEF =
     [When (since EPIC_4_1) (Simple (PrimT uint32_t) ''casterHandle'') None,
      Simple (PrimT uint32_t) ''startTime'',
      Simple (PrimT uint32_t) ''skillId'']"

definition TS_SC_ENTER__FIELD_PROP_INFO_DEF :: "field list" where
  "TS_SC_ENTER__FIELD_PROP_INFO_DEF =
     [Simple (PrimT uint32_t) ''prop_id'',
      Simple (PrimT uint32_t) ''fZOffset'',
      Simple (PrimT uint32_t) ''fRotateX'',
      Simple (PrimT uint32_t) ''fRotateY'',
      Simple (PrimT uint32_t) ''fRotateZ'',
      Simple (PrimT uint32_t) ''fScaleX'',
      When (since EPIC_4_1) (Simple (PrimT uint32_t) ''fScaleY'') None,
      When (since EPIC_4_1) (Simple (PrimT uint32_t) ''fScaleZ'') None,
      When (since EPIC_4_1) (Simple (PrimT uint8_t) ''bLockHeight'') None,
      When (since EPIC_4_1) (Simple (PrimT uint32_t) ''fLockHeight'') None]"

definition TS_SC_ENTER__CREATURE_INFO_DEF :: "field list" where
  "TS_SC_ENTER__CREATURE_INFO_DEF =
     [Simple (PrimT uint32_t) ''status'',
      Simple (PrimT uint32_t) ''face_direction'',
      Simple (PrimT int32_t) ''hp'',
      Simple (PrimT int32_t) ''max_hp'',
      Simple (PrimT int32_t) ''mp'',
      Simple (PrimT int32_t) ''max_mp'',
      Simple (PrimT int32_t) ''level'',
      When (before EPIC_9_6_7) (Simple (PrimT uint8_t) ''race'') None,
      When (between EPIC_4_1 EPIC_9_6_7) (Simple (PrimT uint32_t) ''skin_color'') None,
      When (before EPIC_9_6_7) (Simple (PrimT uint8_t) ''is_first_enter'') None,
      When (between EPIC_4_1 EPIC_9_6_7) (Simple (PrimT int32_t) ''energy'') None]"

definition TS_SC_ENTER__PLAYER_INFO_DEF :: "field list" where
  "TS_SC_ENTER__PLAYER_INFO_DEF =
     [Simple (StructT TS_SC_ENTER__CREATURE_INFO_DEF) ''creatureInfo'',
      When (since EPIC_9_6_7) (Simple (PrimT uint32_t) ''race'') None,
      When (since EPIC_9_6_7) (Simple (PrimT uint32_t) ''skin_color'') None,
      Simple (PrimT uint8_t) ''sex'',
      Simple (PrimT uint32_t) ''faceId'',
      When (since EPIC_6_3) (Simple (PrimT uint32_t) ''faceTextureId'') None,
      Simple (PrimT uint32_t) ''hairId'',
      When (since EPIC_7_1) (Simple (PrimT uint32_t) ''hairColorIndex'') None,
      When (since EPIC_7_1) (Simple (PrimT uint32_t) ''hairColorRGB'') None,
      When (since EPIC_7_1) (Simple (PrimT uint32_t) ''hideEquipFlag'') None,
      When (before EPIC_9_6) (StringF ''name'' 19) None,
      When (since EPIC_9_6) (StringF ''name'' 20) None,
      Simple (PrimT uint16_t) ''job_id'',
      Simple (PrimT uint32_t) ''ride_handle'',
      Simple (PrimT uint32_t) ''guild_id'',
      When (since EPIC_8_1) (Simple (PrimT uint32_t) ''title_code'') None,
      When (since EPIC_9_3) (Simple (PrimT uint32_t) ''back_board'') None,
      When (\<lambda>version. ver_lt version EPIC_4_1 \<or> ver_ge version EPIC_9_6_7) (Simple (PrimT int32_t) ''energy'') None]"

definition TS_ERASE_ITEM_INFO_RESULT_DEF :: "field list" where
  "TS_ERASE_ITEM_INFO_RESULT_DEF =
     [Simple (PrimT uint32_t) ''item_handle'',
      Simple (PrimT int64_t) ''count'']"

definition TS_BOOTH_NAME_DEF :: "field list" where
  "TS_BOOTH_NAME_DEF =
     [Simple (PrimT uint32_t) ''handle'',
      StringF ''name'' 49]"

definition TS_HUNTAHOLIC_INSTANCE_INFO_DEF :: "field list" where
  "TS_HUNTAHOLIC_INSTANCE_INFO_DEF =
     [Simple (PrimT int32_t) ''instance_no'',
      StringF ''name'' 31,
      Simple (PrimT int8_t) ''current_member_count'',
      Simple (PrimT int8_t) ''max_member_count'',
      Simple (PrimT uint8_t) ''require_password'']"

definition TS_ITEM_ELEMENTAL_EFFECT_DEF :: "field list" where
  "TS_ITEM_ELEMENTAL_EFFECT_DEF =
     [When (before EPIC_9_8_1) (Simple (PrimT uint8_t) ''type'') None,
      When (before EPIC_9_8_1) (Simple (PrimT int32_t) ''remain_time'') None,
      When (before EPIC_9_8_1) (Simple (PrimT int32_t) ''attack_point'') None,
      When (before EPIC_9_8_1) (Simple (PrimT int32_t) ''magic_point'') None,
      When (since EPIC_9_8_1) (Simple (PrimT int16_t) ''type'') None,
      When (since EPIC_9_8_1) (Simple (PrimT int16_t) ''attack_point'') None,
      When (since EPIC_9_8_1) (Simple (PrimT int16_t) ''magic_point'') None,
      When (since EPIC_9_8_1) (Simple (PrimT int32_t) ''remain_time'') None]"

definition TS_MARKET_ITEM_INFO_DEF :: "field list" where
  "TS_MARKET_ITEM_INFO_DEF =
     [Simple (PrimT int32_t) ''code'',
      When (since EPIC_4_1_1) (Simple (PrimT int64_t) ''price'') None,
      When (before EPIC_4_1_1) (Simple (PrimT int32_t) ''price'') None,
      When (since EPIC_5_2) (Simple (PrimT int32_t) ''huntaholic_point'') None,
      When (since EPIC_8_1) (Simple (PrimT int32_t) ''arena_point'') None]"

definition MOVE_INFO_DEF :: "field list" where
  "MOVE_INFO_DEF =
     [Simple (PrimT uint32_t) ''tx'',
      Simple (PrimT uint32_t) ''ty'']"

definition TS_GROUP_FINDER_GROUP_DEF :: "field list" where
  "TS_GROUP_FINDER_GROUP_DEF =
     [Simple (PrimT int32_t) ''index'',
      Simple (PrimT uint32_t) ''group_handle'',
      Simple (PrimT int16_t) ''zone'',
      Simple (PrimT int16_t) ''min_level'',
      Simple (PrimT int16_t) ''player_num'',
      Simple (PrimT int16_t) ''max_player_num'',
      StringF ''description'' 32]"

definition TS_GROUP_FINDER_DETAIL_DEF :: "field list" where
  "TS_GROUP_FINDER_DETAIL_DEF =
     [Simple (PrimT uint16_t) ''job_id'',
      Simple (PrimT uint8_t) ''level'',
      Simple (PrimT uint8_t) ''flag'',
      Simple (PrimT uint32_t) ''handle'',
      StringF ''name'' 20]"

definition TS_QUEST_INFO_DEF :: "field list" where
  "TS_QUEST_INFO_DEF =
     [Simple (PrimT uint32_t) ''code'',
      Simple (PrimT uint32_t) ''startID'',
      ArrayF (PrimT uint32_t) ''value'' 6,
      When (since EPIC_6_1) (ArrayF (PrimT uint32_t) ''status'' 6) None,
      When (before EPIC_6_1) (ArrayF (PrimT uint32_t) ''status'' 3) None,
      When (since EPIC_6_3) (Simple (PrimT uint8_t) ''progress'') None,
      When (since EPIC_6_3) (Simple (PrimT uint32_t) ''timeLimit'') None]"

definition TS_QUEST_PENDING_DEF :: "field list" where
  "TS_QUEST_PENDING_DEF =
     [Simple (PrimT uint32_t) ''code'',
      Simple (PrimT uint32_t) ''startID'']"

definition TS_RANKING_RECORD_DEF :: "field list" where
  "TS_RANKING_RECORD_DEF =
     [Simple (PrimT uint16_t) ''rank'',
      StringF ''ranker_name'' 31,
      Simple (PrimT int64_t) ''score'']"

definition TS_SC_SKILL__HIT_DAMAGE_INFO_DEF :: "field list" where
  "TS_SC_SKILL__HIT_DAMAGE_INFO_DEF =
     [Simple (PrimT int32_t) ''target_hp'',
      Simple (PrimT uint8_t) ''damage_type'',
      Simple (PrimT int32_t) ''damage'',
      Simple (PrimT int32_t) ''flag'',
      ArrayF (PrimT uint16_t) ''elemental_damage'' 7]"

definition TS_SC_SKILL__HIT_DAMAGE_DEF :: "field list" where
  "TS_SC_SKILL__HIT_DAMAGE_DEF =
     [Simple (StructT TS_SC_SKILL__HIT_DAMAGE_INFO_DEF) ''damage'']"

definition TS_SC_SKILL__HIT_DAMAGE_WITH_KNOCKBACK_DEF :: "field list" where
  "TS_SC_SKILL__HIT_DAMAGE_WITH_KNOCKBACK_DEF =
     [Simple (StructT TS_SC_SKILL__HIT_DAMAGE_INFO_DEF) ''damage'',
      Simple (PrimT uint32_t) ''x'',
      Simple (PrimT uint32_t) ''y'',
      Simple (PrimT int8_t) ''speed'',
      Simple (PrimT uint32_t) ''knock_back_time'']"

definition TS_SC_SKILL__HIT_RESULT_DEF :: "field list" where
  "TS_SC_SKILL__HIT_RESULT_DEF =
     [Simple (PrimT uint8_t) ''bResult'',
      Simple (PrimT int32_t) ''success_type'']"

definition TS_SC_SKILL__HIT_ADD_STAT_DEF :: "field list" where
  "TS_SC_SKILL__HIT_ADD_STAT_DEF =
     [Simple (PrimT int32_t) ''target_stat'',
      Simple (PrimT int32_t) ''nIncStat'']"

definition TS_SC_SKILL__HIT_ADDHPMPSP_DEF :: "field list" where
  "TS_SC_SKILL__HIT_ADDHPMPSP_DEF =
     [Simple (PrimT int32_t) ''target_hp'',
      Simple (PrimT int32_t) ''nIncHP'',
      Simple (PrimT int32_t) ''nIncMP'',
      Simple (PrimT int32_t) ''nIncSP'',
      When (since EPIC_7_1) (Simple (PrimT int32_t) ''target_mp'') None,
      When (before EPIC_7_1) (Simple (PrimT int16_t) ''target_mp'') None]"

definition TS_SC_SKILL__HIT_REBIRTH_DEF :: "field list" where
  "TS_SC_SKILL__HIT_REBIRTH_DEF =
     [Simple (PrimT int32_t) ''target_hp'',
      Simple (PrimT int32_t) ''nIncHP'',
      Simple (PrimT int32_t) ''nIncMP'',
      Simple (PrimT int32_t) ''nRecoveryEXP'',
      When (since EPIC_7_1) (Simple (PrimT int32_t) ''target_mp'') None,
      When (before EPIC_7_1) (Simple (PrimT int16_t) ''target_mp'') None]"

definition TS_SC_SKILL__HIT_RUSH_DEF :: "field list" where
  "TS_SC_SKILL__HIT_RUSH_DEF =
     [Simple (PrimT uint8_t) ''bResult'',
      Simple (PrimT uint32_t) ''x'',
      Simple (PrimT uint32_t) ''y'',
      Simple (PrimT uint32_t) ''face'',
      Simple (PrimT int8_t) ''speed'']"

definition TS_SC_SKILL__HIT_CHAIN_DAMAGE_DEF :: "field list" where
  "TS_SC_SKILL__HIT_CHAIN_DAMAGE_DEF =
     [Simple (StructT TS_SC_SKILL__HIT_DAMAGE_INFO_DEF) ''damage'',
      Simple (PrimT uint32_t) ''hFrom'']"

definition TS_SC_SKILL__HIT_CHAIN_HEAL_DEF :: "field list" where
  "TS_SC_SKILL__HIT_CHAIN_HEAL_DEF =
     [Simple (PrimT int32_t) ''target_hp'',
      Simple (PrimT int32_t) ''nIncHP'',
      Simple (PrimT uint32_t) ''hFrom'']"

definition TS_SC_SKILL__CAST_DEF :: "field list" where
  "TS_SC_SKILL__CAST_DEF =
     [Simple (PrimT uint32_t) ''tm'',
      Simple (PrimT uint16_t) ''nErrorCode'']"

definition TS_SKILL_LEVEL_INFO_DEF :: "field list" where
  "TS_SKILL_LEVEL_INFO_DEF =
     [Simple (PrimT int32_t) ''skill_id'',
      Simple (PrimT int8_t) ''skill_level'']"

definition TS_SKILL_INFO_DEF :: "field list" where
  "TS_SKILL_INFO_DEF =
     [Simple (PrimT int32_t) ''skill_id'',
      Simple (PrimT int8_t) ''base_skill_level'',
      Simple (PrimT int8_t) ''current_skill_level'',
      Simple (PrimT uint32_t) ''total_cool_time'',
      Simple (PrimT uint32_t) ''remain_cool_time'']"

definition TS_STAT_INFO_BASE_DEF :: "field list" where
  "TS_STAT_INFO_BASE_DEF =
     [Simple (PrimT int16_t) ''stat_id'',
      Simple (PrimT int16_t) ''strength'',
      Simple (PrimT int16_t) ''vital'',
      Simple (PrimT int16_t) ''dexterity'',
      Simple (PrimT int16_t) ''agility'',
      Simple (PrimT int16_t) ''intelligence'',
      Simple (PrimT int16_t) ''mentality'',
      Simple (PrimT int16_t) ''luck'']"

definition TS_STAT_INFO_ATTRIB_DEF :: "field list" where
  "TS_STAT_INFO_ATTRIB_DEF =
     [Simple (PrimT int16_t) ''nCritical'',
      Simple (PrimT int16_t) ''nCriticalPower'',
      When (since EPIC_9_3) (Simple (PrimT int32_t) ''nAttackPointRight'') None,
      When (before EPIC_9_3) (Simple (PrimT int16_t) ''nAttackPointRight'') None,
      When (since EPIC_9_3) (Simple (PrimT int32_t) ''nAttackPointLeft'') None,
      When (before EPIC_9_3) (Simple (PrimT int16_t) ''nAttackPointLeft'') None,
      When (since EPIC_9_5_1) (Simple (PrimT int32_t) ''nDefence'') None,
      When (before EPIC_9_5_1) (Simple (PrimT int16_t) ''nDefence'') None,
      When (since EPIC_9_5_1) (Simple (PrimT int32_t) ''nBlockDefence'') None,
      When (before EPIC_9_5_1) (Simple (PrimT int16_t) ''nBlockDefence'') None,
      When (since EPIC_9_3) (Simple (PrimT int32_t) ''nMagicPoint'') None,
      When (before EPIC_9_3) (Simple (PrimT int16_t) ''nMagicPoint'') None,
      When (since EPIC_9_5_1) (Simple (PrimT int32_t) ''nMagicDefence'') None,
      When (before EPIC_9_5_1) (Simple (PrimT int16_t) ''nMagicDefence'') None,
      When (since EPIC_9_7_0) (Simple (PrimT int32_t) ''nMaxWeight'') None,
      Simple (PrimT int16_t) ''nAccuracyRight'',
      When (before EPIC_9_6_2) (Simple (PrimT int16_t) ''nAccuracyLeft'') (Some (VNum 0)),
      Simple (PrimT int16_t) ''nMagicAccuracy'',
      Simple (PrimT int16_t) ''nAvoid'',
      Simple (PrimT int16_t) ''nMagicAvoid'',
      Simple (PrimT int16_t) ''nBlockChance'',
      Simple (PrimT int16_t) ''nMoveSpeed'',
      When (since EPIC_9_7_0) (Simple (PrimT int16_t) ''unknown'') None,
      Simple (PrimT int16_t) ''nAttackSpeed'',
      Simple (PrimT int16_t) ''nAttackRange'',
      When (between EPIC_7_4 EPIC_9_7_0) (Simple (PrimT int32_t) ''nMaxWeight'') None,
      When (before EPIC_7_4) (Simple (PrimT int16_t) ''nMaxWeight'') None,
      Simple (PrimT int16_t) ''nCastingSpeed'',
      Simple (PrimT int16_t) ''nCoolTimeSpeed'',
      Simple (PrimT int16_t) ''nItemChance'',
      Simple (PrimT int16_t) ''nHPRegenPercentage'',
      Simple (PrimT int16_t) ''nHPRegenPoint'',
      Simple (PrimT int16_t) ''nMPRegenPercentage'',
      Simple (PrimT int16_t) ''nMPRegenPoint'',
      When (since EPIC_7_3) (Simple (PrimT int16_t) ''nPerfectBlock'') (Some (VNum 20)),
      When (between EPIC_7_3 EPIC_9_6_2) (Simple (PrimT int16_t) ''nMagicalDefIgnore'') (Some (VNum 0)),
      When (between EPIC_7_3 EPIC_9_6_2) (Simple (PrimT int16_t) ''nMagicalDefIgnoreRatio'') (Some (VNum 0)),
      When (between EPIC_7_3 EPIC_9_6_2) (Simple (PrimT int16_t) ''nPhysicalDefIgnore'') (Some (VNum 0)),
      When (between EPIC_7_3 EPIC_9_6_2) (Simple (PrimT int16_t) ''nPhysicalDefIgnoreRatio'') (Some (VNum 0)),
      When (since EPIC_7_3) (Simple (PrimT int16_t) ''nMagicalPenetration'') (Some (VNum 0)),
      When (since EPIC_7_3) (Simple (PrimT int16_t) ''nMagicalPenetrationRatio'') (Some (VNum 0)),
      When (since EPIC_7_3) (Simple (PrimT int16_t) ''nPhysicalPenetration'') (Some (VNum 0)),
      When (since EPIC_7_3) (Simple (PrimT int16_t) ''nPhysicalPenetrationRatio'') (Some (VNum 0))]"

definition TS_TITLE_CONDITION_INFO_DEF :: "field list" where
  "TS_TITLE_CONDITION_INFO_DEF =
     [Simple (PrimT int32_t) ''type'',
      Simple (PrimT int64_t) ''count'']"

definition TS_TITLE_INFO_DEF :: "field list" where
  "TS_TITLE_INFO_DEF =
     [Simple (PrimT int32_t) ''code'',
      Simple (PrimT int32_t) ''status'']"

definition TS_SC_WEAR_INFO__ITEM_WEAR_INFO_DEF :: "field list" where
  "TS_SC_WEAR_INFO__ITEM_WEAR_INFO_DEF =
     [Simple (PrimT uint8_t) ''item_type'',
      Simple (PrimT uint8_t) ''item_unknown1'',
      Simple (PrimT uint8_t) ''item_enhance'',
      Simple (PrimT uint8_t) ''item_unknown2'']"

lemmas struct_defs = LOBBY_CHARACTER_INFO_DEF_def
  TS_DECOMPOSE_ITEM_INFO_DEF_def
  TS_DONATE_ITEM_INFO_DEF_def
  TS_REWARD_INFO_DEF_def
  TS_ERASE_ITEM_INFO_DEF_def
  TS_TICKET_INFO_DEF_def
  TS_CRACKER_INFO_DEF_def
  TS_GAME_GUARD_AUTH_V1_DEF_def
  TS_GAME_GUARD_AUTH_V2_DEF_def
  TS_GAME_GUARD_AUTH_DEF_def
  TS_MIX_INFO_DEF_def
  MOVE_REQUEST_INFO_DEF_def
  TS_BOOTH_OPEN_ITEM_INFO_DEF_def
  TS_ADDED_SKILL_LIST_DEF_def
  ATTACK_INFO_DEF_def
  TS_BATTLE_ARENA_PLAYER_INFO_DEF_def
  TS_BATTLE_ARENA_TEAM_SCORE_DEF_def
  TS_BATTLE_ARENA_PLAYER_SCORE_DEF_def
  TS_ARENA_MVP_DEF_def
  TS_BONUS_INFO_DEF_def
  TS_COMMERCIAL_ITEM_INFO_DEF_def
  TS_DEATHMATCH_RANKING_INFO_DEF_def
  TS_DECOMPOSE_INFO_DEF_def
  TS_SC_ENTER__ITEM_PICK_UP_ORDER_DEF_def
  TS_SC_ENTER__SKILL_INFO_DEF_def
  TS_SC_ENTER__FIELD_PROP_INFO_DEF_def
  TS_SC_ENTER__CREATURE_INFO_DEF_def
  TS_SC_ENTER__PLAYER_INFO_DEF_def
  TS_ERASE_ITEM_INFO_RESULT_DEF_def
  TS_BOOTH_NAME_DEF_def
  TS_HUNTAHOLIC_INSTANCE_INFO_DEF_def
  TS_ITEM_ELEMENTAL_EFFECT_DEF_def
  TS_MARKET_ITEM_INFO_DEF_def
  MOVE_INFO_DEF_def
  TS_GROUP_FINDER_GROUP_DEF_def
  TS_GROUP_FINDER_DETAIL_DEF_def
  TS_QUEST_INFO_DEF_def
  TS_QUEST_PENDING_DEF_def
  TS_RANKING_RECORD_DEF_def
  TS_SC_SKILL__HIT_DAMAGE_INFO_DEF_def
  TS_SC_SKILL__HIT_DAMAGE_DEF_def
  TS_SC_SKILL__HIT_DAMAGE_WITH_KNOCKBACK_DEF_def
  TS_SC_SKILL__HIT_RESULT_DEF_def
  TS_SC_SKILL__HIT_ADD_STAT_DEF_def
  TS_SC_SKILL__HIT_ADDHPMPSP_DEF_def
  TS_SC_SKILL__HIT_REBIRTH_DEF_def
  TS_SC_SKILL__HIT_RUSH_DEF_def
  TS_SC_SKILL__HIT_CHAIN_DAMAGE_DEF_def
  TS_SC_SKILL__HIT_CHAIN_HEAL_DEF_def
  TS_SC_SKILL__CAST_DEF_def
  TS_SKILL_LEVEL_INFO_DEF_def
  TS_SKILL_INFO_DEF_def
  TS_STAT_INFO_BASE_DEF_def
  TS_STAT_INFO_ATTRIB_DEF_def
  TS_TITLE_CONDITION_INFO_DEF_def
  TS_TITLE_INFO_DEF_def
  TS_SC_WEAR_INFO__ITEM_WEAR_INFO_DEF_def

end
