(* ===== verification/GameServerPackets.thy ===== *)
theory GameServerPackets
  imports GameStructs
begin

text \<open>
  The packets that the game server sends, and those both sides send (librzu/src/packets/GameClient), as far as their lines
  depend on the version alone: one definition per packet, a field line per line of the header.
\<close>

definition TS_EQUIP_SUMMON :: packet_decl where
  "TS_EQUIP_SUMMON = Packet (idLines TS_EQUIP_SUMMON_INFO)
     [Simple (PrimT uint8_t) ''open_dialog'',
      ArrayF (PrimT uint32_t) ''card_handle'' 6]"

definition TS_SC_ACHIEVE_TITLE :: packet_decl where
  "TS_SC_ACHIEVE_TITLE = Packet (idLines TS_SC_ACHIEVE_TITLE_INFO)
     [Simple (PrimT int32_t) ''code'']"

definition TS_SC_ADDED_SKILL_LIST :: packet_decl where
  "TS_SC_ADDED_SKILL_LIST = Packet (idLines TS_SC_ADDED_SKILL_LIST_INFO)
     [Simple (PrimT uint32_t) ''target'',
      Count uint16_t ''skills'' False,
      DynArray (StructT TS_ADDED_SKILL_LIST_DEF) ''skills'']"

definition TS_SC_ADD_PET_INFO :: packet_decl where
  "TS_SC_ADD_PET_INFO = Packet (idLines TS_SC_ADD_PET_INFO_INFO)
     [Simple (PrimT uint32_t) ''cage_handle'',
      Simple (PrimT uint32_t) ''pet_handle'',
      When (before EPIC_9_6) (StringF ''name'' 19) None,
      When (since EPIC_9_6) (StringF ''name'' 20) None,
      Simple (PrimT int32_t) ''code'']"

definition TS_SC_ADD_SUMMON_INFO :: packet_decl where
  "TS_SC_ADD_SUMMON_INFO = Packet (idLines TS_SC_ADD_SUMMON_INFO_INFO)
     [Simple (PrimT uint32_t) ''card_handle'',
      Simple (PrimT uint32_t) ''summon_handle'',
      When (before EPIC_9_6) (StringF ''name'' 19) None,
      When (since EPIC_9_6) (StringF ''name'' 20) None,
      Simple (PrimT int32_t) ''code'',
      Simple (PrimT int32_t) ''level'',
      Simple (PrimT int32_t) ''sp'']"

definition TS_SC_ANTI_HACK :: packet_decl where
  "TS_SC_ANTI_HACK = Packet (idLines TS_SC_ANTI_HACK_INFO)
     [Simple (PrimT uint16_t) ''nLength'',
      ArrayF (PrimT uint8_t) ''byBuffer'' 400]"

definition TS_SC_ATTACK_EVENT :: packet_decl where
  "TS_SC_ATTACK_EVENT = Packet (idLines TS_SC_ATTACK_EVENT_INFO)
     [Simple (PrimT uint32_t) ''attacker_handle'',
      Simple (PrimT uint32_t) ''target_handle'',
      Simple (PrimT uint16_t) ''attack_speed'',
      Simple (PrimT uint16_t) ''attack_delay'',
      Simple (PrimT uint8_t) ''attack_action'',
      Simple (PrimT uint8_t) ''attack_flag'',
      Count uint8_t ''attack'' False,
      DynArray (StructT ATTACK_INFO_DEF) ''attack'']"

definition TS_SC_AURA :: packet_decl where
  "TS_SC_AURA = Packet (idLines TS_SC_AURA_INFO)
     [Simple (PrimT uint32_t) ''caster'',
      Simple (PrimT uint16_t) ''skill_id'',
      Simple (PrimT uint8_t) ''status'']"

definition TS_SC_BATTLE_ARENA_ABSENCE_CHECK :: packet_decl where
  "TS_SC_BATTLE_ARENA_ABSENCE_CHECK = Packet (idLines TS_SC_BATTLE_ARENA_ABSENCE_CHECK_INFO)
     [Simple (PrimT uint32_t) ''nLimitTime'']"

definition TS_SC_BATTLE_ARENA_BATTLE_INFO :: packet_decl where
  "TS_SC_BATTLE_ARENA_BATTLE_INFO = Packet (idLines TS_SC_BATTLE_ARENA_BATTLE_INFO_INFO)
     [Simple (PrimT int32_t) ''nArenaID'',
      Simple (PrimT uint32_t) ''nForceEnterTime'',
      Simple (PrimT uint32_t) ''nStartTime'',
      Simple (PrimT int32_t) ''eGrade'',
      Simple (PrimT uint32_t) ''nEndTime'',
      Count int8_t ''team_1'' False,
      Count int8_t ''team_2'' False,
      DynArray (StructT TS_BATTLE_ARENA_PLAYER_INFO_DEF) ''team_1'',
      DynArray (StructT TS_BATTLE_ARENA_PLAYER_INFO_DEF) ''team_2'']"

definition TS_SC_BATTLE_ARENA_BATTLE_SCORE :: packet_decl where
  "TS_SC_BATTLE_ARENA_BATTLE_SCORE = Packet (idLines TS_SC_BATTLE_ARENA_BATTLE_SCORE_INFO)
     [ArrayF (StructT TS_BATTLE_ARENA_TEAM_SCORE_DEF) ''aTeamScore'' 2,
      Count int8_t ''nPlayerScore'' False,
      DynArray (StructT TS_BATTLE_ARENA_PLAYER_SCORE_DEF) ''nPlayerScore'']"

definition TS_SC_BATTLE_ARENA_BATTLE_STATUS :: packet_decl where
  "TS_SC_BATTLE_ARENA_BATTLE_STATUS = Packet (idLines TS_SC_BATTLE_ARENA_BATTLE_STATUS_INFO)
     [Simple (PrimT int32_t) ''nStatus'']"

definition TS_SC_BATTLE_ARENA_DISCONNECT_BATTLE :: packet_decl where
  "TS_SC_BATTLE_ARENA_DISCONNECT_BATTLE = Packet (idLines TS_SC_BATTLE_ARENA_DISCONNECT_BATTLE_INFO)
     [Simple (PrimT uint32_t) ''handle'']"

definition TS_SC_BATTLE_ARENA_EXERCISE_READY_STATUS :: packet_decl where
  "TS_SC_BATTLE_ARENA_EXERCISE_READY_STATUS = Packet (idLines TS_SC_BATTLE_ARENA_EXERCISE_READY_STATUS_INFO)
     [Simple (PrimT int32_t) ''nReadyState'']"

definition TS_SC_BATTLE_ARENA_JOIN_BATTLE :: packet_decl where
  "TS_SC_BATTLE_ARENA_JOIN_BATTLE = Packet (idLines TS_SC_BATTLE_ARENA_JOIN_BATTLE_INFO)
     [Simple (PrimT int32_t) ''nTeamNo'',
      Simple (PrimT uint32_t) ''handle'',
      Simple (PrimT int32_t) ''nJobID'',
      When (before EPIC_9_6) (StringF ''name'' 19) None,
      When (since EPIC_9_6) (StringF ''name'' 20) None]"

definition TS_SC_BATTLE_ARENA_JOIN_QUEUE :: packet_decl where
  "TS_SC_BATTLE_ARENA_JOIN_QUEUE = Packet (idLines TS_SC_BATTLE_ARENA_JOIN_QUEUE_INFO)
     [Simple (PrimT int32_t) ''nArenaID'',
      Simple (PrimT int32_t) ''eGrade'']"

definition TS_SC_BATTLE_ARENA_LEAVE :: packet_decl where
  "TS_SC_BATTLE_ARENA_LEAVE = Packet (idLines TS_SC_BATTLE_ARENA_LEAVE_INFO)
     [Simple (PrimT int32_t) ''eLeaveType'',
      When (before EPIC_9_6) (StringF ''name'' 19) None,
      When (since EPIC_9_6) (StringF ''name'' 20) None]"

definition TS_SC_BATTLE_ARENA_PENALTY_INFO :: packet_decl where
  "TS_SC_BATTLE_ARENA_PENALTY_INFO = Packet (idLines TS_SC_BATTLE_ARENA_PENALTY_INFO_INFO)
     [Simple (PrimT uint32_t) ''nBlockTime'',
      Simple (PrimT int32_t) ''nPenaltyCount'',
      Simple (PrimT uint32_t) ''nPenaltyCountDecTime'']"

definition TS_SC_BATTLE_ARENA_RECONNECT_BATTLE :: packet_decl where
  "TS_SC_BATTLE_ARENA_RECONNECT_BATTLE = Packet (idLines TS_SC_BATTLE_ARENA_RECONNECT_BATTLE_INFO)
     [When (before EPIC_9_6) (StringF ''name'' 19) None,
      When (since EPIC_9_6) (StringF ''name'' 20) None,
      Simple (PrimT uint32_t) ''newHandle'']"

definition TS_SC_BATTLE_ARENA_RESULT :: packet_decl where
  "TS_SC_BATTLE_ARENA_RESULT = Packet (idLines TS_SC_BATTLE_ARENA_RESULT_INFO)
     [Simple (PrimT int32_t) ''eEndType'',
      Simple (PrimT int32_t) ''eRewardType'',
      Simple (PrimT int32_t) ''nWinnerTeamNo'',
      Count int8_t ''MVPs'' False,
      DynArray (StructT TS_ARENA_MVP_DEF) ''MVPs'']"

definition TS_SC_BATTLE_ARENA_UPDATE_WAIT_USER_COUNT :: packet_decl where
  "TS_SC_BATTLE_ARENA_UPDATE_WAIT_USER_COUNT = Packet (idLines TS_SC_BATTLE_ARENA_UPDATE_WAIT_USER_COUNT_INFO)
     [Simple (PrimT int32_t) ''nWaitUserCount'']"

definition TS_SC_BELT_SLOT_INFO :: packet_decl where
  "TS_SC_BELT_SLOT_INFO = Packet (idLines TS_SC_BELT_SLOT_INFO_INFO)
     [When (before EPIC_9_5) (ArrayF (PrimT uint32_t) ''handle'' 6) None,
      When (since EPIC_9_5) (ArrayF (PrimT uint32_t) ''handle'' 8) None]"

definition TS_SC_BONUS_EXP_JP :: packet_decl where
  "TS_SC_BONUS_EXP_JP = Packet (idLines TS_SC_BONUS_EXP_JP_INFO)
     [Simple (PrimT uint32_t) ''handle'',
      Count uint16_t ''bonus'' False,
      DynArray (StructT TS_BONUS_INFO_DEF) ''bonus'']"

definition TS_SC_BOOKMARK_TITLE :: packet_decl where
  "TS_SC_BOOKMARK_TITLE = Packet (idLines TS_SC_BOOKMARK_TITLE_INFO)
     [Simple (PrimT int32_t) ''code'',
      Simple (PrimT uint8_t) ''bookmarked'']"

definition TS_SC_BOOTH_CLOSED :: packet_decl where
  "TS_SC_BOOTH_CLOSED = Packet (idLines TS_SC_BOOTH_CLOSED_INFO)
     [Simple (PrimT uint32_t) ''target'']"

definition TS_SC_CANT_ATTACK :: packet_decl where
  "TS_SC_CANT_ATTACK = Packet (idLines TS_SC_CANT_ATTACK_INFO)
     [Simple (PrimT uint32_t) ''attacker_handle'',
      Simple (PrimT uint32_t) ''target_handle'',
      Simple (PrimT int32_t) ''reason'']"

definition TS_SC_CHANGE_LOCATION :: packet_decl where
  "TS_SC_CHANGE_LOCATION = Packet (idLines TS_SC_CHANGE_LOCATION_INFO)
     [Simple (PrimT uint32_t) ''prev_location_id'',
      Simple (PrimT uint32_t) ''cur_location_id'']"

definition TS_SC_CHANGE_NAME :: packet_decl where
  "TS_SC_CHANGE_NAME = Packet (idLines TS_SC_CHANGE_NAME_INFO)
     [Simple (PrimT uint32_t) ''handle'',
      When (before EPIC_9_6) (StringF ''name'' 19) None,
      When (since EPIC_9_6) (StringF ''name'' 20) None]"

definition TS_SC_CHANGE_SECURITY_NO :: packet_decl where
  "TS_SC_CHANGE_SECURITY_NO = Packet (idLines TS_SC_CHANGE_SECURITY_NO_INFO)
     []"

definition TS_SC_CHANGE_TITLE_CONDITION :: packet_decl where
  "TS_SC_CHANGE_TITLE_CONDITION = Packet (idLines TS_SC_CHANGE_TITLE_CONDITION_INFO)
     [Simple (PrimT int32_t) ''condition_id'',
      Simple (PrimT int64_t) ''count'']"

definition TS_SC_CHARACTER_LIST :: packet_decl where
  "TS_SC_CHARACTER_LIST = Packet (idLines TS_SC_CHARACTER_LIST_INFO)
     [Simple (PrimT uint32_t) ''current_server_time'',
      When (since EPIC_4_1) (Simple (PrimT uint16_t) ''last_character_idx'') (Some (VNum 0)),
      Count uint16_t ''characters'' False,
      DynArray (StructT LOBBY_CHARACTER_INFO_DEF) ''characters'']"

definition TS_SC_CHAT_LOCAL :: packet_decl where
  "TS_SC_CHAT_LOCAL = Packet (idLines TS_SC_CHAT_LOCAL_INFO)
     [Simple (PrimT uint32_t) ''handle'',
      Count uint8_t ''message'' True,
      Simple (PrimT uint8_t) ''type'',
      DynString ''message'' True]"

definition TS_SC_CHAT_RESULT :: packet_decl where
  "TS_SC_CHAT_RESULT = Packet (idLines TS_SC_CHAT_RESULT_INFO)
     [Simple (PrimT int8_t) ''type'',
      Simple (PrimT int8_t) ''percentage'',
      Simple (PrimT int32_t) ''result'',
      Simple (PrimT int32_t) ''reserved'']"

definition TS_SC_CLEAR_SECURITY_NO :: packet_decl where
  "TS_SC_CLEAR_SECURITY_NO = Packet (idLines TS_SC_CLEAR_SECURITY_NO_INFO)
     [Simple (PrimT uint8_t) ''clearable'']"

definition TS_SC_COMMERCIAL_STORAGE_INFO :: packet_decl where
  "TS_SC_COMMERCIAL_STORAGE_INFO = Packet (idLines TS_SC_COMMERCIAL_STORAGE_INFO_INFO)
     [Simple (PrimT uint16_t) ''total_item_count'',
      Simple (PrimT uint16_t) ''new_item_count'']"

definition TS_SC_COMMERCIAL_STORAGE_LIST :: packet_decl where
  "TS_SC_COMMERCIAL_STORAGE_LIST = Packet (idLines TS_SC_COMMERCIAL_STORAGE_LIST_INFO)
     [Count uint16_t ''items'' False,
      DynArray (StructT TS_COMMERCIAL_ITEM_INFO_DEF) ''items'']"

definition TS_SC_COMPETE_ANSWER :: packet_decl where
  "TS_SC_COMPETE_ANSWER = Packet (idLines TS_SC_COMPETE_ANSWER_INFO)
     [Simple (PrimT int8_t) ''compete_type'',
      Simple (PrimT int8_t) ''answer_type'',
      StringF ''requestee'' 31]"

definition TS_SC_COMPETE_COUNTDOWN :: packet_decl where
  "TS_SC_COMPETE_COUNTDOWN = Packet (idLines TS_SC_COMPETE_COUNTDOWN_INFO)
     [Simple (PrimT int8_t) ''compete_type'',
      StringF ''competitor'' 31,
      Simple (PrimT uint32_t) ''handle_competitor'']"

definition TS_SC_COMPETE_END :: packet_decl where
  "TS_SC_COMPETE_END = Packet (idLines TS_SC_COMPETE_END_INFO)
     [Simple (PrimT int8_t) ''compete_type'',
      Simple (PrimT int8_t) ''end_type'',
      StringF ''winner'' 31,
      StringF ''loser'' 31]"

definition TS_SC_COMPETE_REQUEST :: packet_decl where
  "TS_SC_COMPETE_REQUEST = Packet (idLines TS_SC_COMPETE_REQUEST_INFO)
     [Simple (PrimT int8_t) ''compete_type'',
      StringF ''requester'' 31]"

definition TS_SC_COMPETE_START :: packet_decl where
  "TS_SC_COMPETE_START = Packet (idLines TS_SC_COMPETE_START_INFO)
     [Simple (PrimT int8_t) ''compete_type'',
      StringF ''competitor'' 31]"

definition TS_SC_CREATE_SECURITY_NO :: packet_decl where
  "TS_SC_CREATE_SECURITY_NO = Packet (idLines TS_SC_CREATE_SECURITY_NO_INFO)
     []"

definition TS_SC_DEATHMATCH_RANKING :: packet_decl where
  "TS_SC_DEATHMATCH_RANKING = Packet (idLines TS_SC_DEATHMATCH_RANKING_INFO)
     [Simple (PrimT int32_t) ''time_epoch'',
      ArrayF (StructT TS_DEATHMATCH_RANKING_INFO_DEF) ''players'' 30]"

definition TS_SC_DEATHMATCH_RANKING_OPEN :: packet_decl where
  "TS_SC_DEATHMATCH_RANKING_OPEN = Packet (idLines TS_SC_DEATHMATCH_RANKING_OPEN_INFO)
     [ArrayF (StructT TS_DEATHMATCH_RANKING_INFO_DEF) ''players'' 5]"

definition TS_SC_DEATHMATCH_RANKING_REOPEN :: packet_decl where
  "TS_SC_DEATHMATCH_RANKING_REOPEN = Packet (idLines TS_SC_DEATHMATCH_RANKING_REOPEN_INFO)
     [Simple (PrimT int32_t) ''time_epoch'']"

definition TS_SC_DECOMPOSE_RESULT :: packet_decl where
  "TS_SC_DECOMPOSE_RESULT = Packet (idLines TS_SC_DECOMPOSE_RESULT_INFO)
     [Count uint32_t ''decompositions'' False,
      DynArray (StructT TS_DECOMPOSE_INFO_DEF) ''decompositions'']"

definition TS_SC_DESTROY_ITEM :: packet_decl where
  "TS_SC_DESTROY_ITEM = Packet (idLines TS_SC_DESTROY_ITEM_INFO)
     [Simple (PrimT uint32_t) ''item_handle'']"

definition TS_SC_DETECT_RANGE_UPDATE :: packet_decl where
  "TS_SC_DETECT_RANGE_UPDATE = Packet (idLines TS_SC_DETECT_RANGE_UPDATE_INFO)
     [Simple (PrimT uint32_t) ''handle'',
      Simple (PrimT uint32_t) ''detect_range'']"

definition TS_SC_DIALOG :: packet_decl where
  "TS_SC_DIALOG = Packet (idLines TS_SC_DIALOG_INFO)
     [Simple (PrimT int32_t) ''type'',
      Simple (PrimT uint32_t) ''npc_handle'',
      Count uint16_t ''title'' False,
      Count uint16_t ''text'' False,
      Count uint16_t ''menu'' False,
      When (since EPIC_9_6_2) (Count uint16_t ''script'' False) None,
      DynString ''title'' False,
      DynString ''text'' False,
      DynString ''menu'' False,
      When (since EPIC_9_6_2) (DynString ''script'' False) None]"

definition TS_SC_DISCONNECT_DESC :: packet_decl where
  "TS_SC_DISCONNECT_DESC = Packet (idLines TS_SC_DISCONNECT_DESC_INFO)
     [Simple (PrimT uint8_t) ''desc_id'']"

definition TS_SC_DOUBLE_WEAPON_ATTACK_EVENT :: packet_decl where
  "TS_SC_DOUBLE_WEAPON_ATTACK_EVENT = Packet (idLines TS_SC_DOUBLE_WEAPON_ATTACK_EVENT_INFO)
     [Simple (PrimT uint32_t) ''attacker_handle'',
      Simple (PrimT uint32_t) ''target_handle'',
      Simple (PrimT int16_t) ''right_hand_damage'',
      Simple (PrimT int16_t) ''left_hand_damage'',
      Simple (PrimT uint16_t) ''attack_speed'',
      Simple (PrimT int8_t) ''hp_percentage'',
      Simple (PrimT uint16_t) ''flag'',
      ArrayF (PrimT uint8_t) ''right_hand_elemental_damage'' 7,
      ArrayF (PrimT uint8_t) ''left_hand_elemental_damage'' 7]"

definition TS_SC_DROP_RESULT :: packet_decl where
  "TS_SC_DROP_RESULT = Packet (idLines TS_SC_DROP_RESULT_INFO)
     [Simple (PrimT uint32_t) ''item_handle'',
      Simple (PrimT uint8_t) ''isAccepted'']"

definition TS_SC_EMOTION :: packet_decl where
  "TS_SC_EMOTION = Packet (idLines TS_SC_EMOTION_INFO)
     [Simple (PrimT uint32_t) ''handle'',
      Simple (PrimT int32_t) ''emotion'']"

definition TS_SC_ENERGY :: packet_decl where
  "TS_SC_ENERGY = Packet (idLines TS_SC_ENERGY_INFO)
     [Simple (PrimT uint32_t) ''handle'',
      Simple (PrimT int16_t) ''energy'']"

definition TS_SC_ERASE_ITEM :: packet_decl where
  "TS_SC_ERASE_ITEM = Packet (idLines TS_SC_ERASE_ITEM_INFO)
     [Count int8_t ''erased_items'' False,
      DynArray (StructT TS_ERASE_ITEM_INFO_RESULT_DEF) ''erased_items'']"

definition TS_SC_EXP_UPDATE :: packet_decl where
  "TS_SC_EXP_UPDATE = Packet (idLines TS_SC_EXP_UPDATE_INFO)
     [Simple (PrimT uint32_t) ''handle'',
      Simple (PrimT uint64_t) ''exp'',
      When (since EPIC_7_3) (Simple (PrimT uint64_t) ''jp'') None,
      When (before EPIC_7_3) (Simple (PrimT uint32_t) ''jp'') None]"

definition TS_SC_GAME_GUARD_AUTH_QUERY :: packet_decl where
  "TS_SC_GAME_GUARD_AUTH_QUERY = Packet (idLines TS_SC_GAME_GUARD_AUTH_QUERY_INFO)
     [Simple (StructT TS_GAME_GUARD_AUTH_DEF) ''auth'']"

definition TS_SC_GAME_TIME :: packet_decl where
  "TS_SC_GAME_TIME = Packet (idLines TS_SC_GAME_TIME_INFO)
     [Simple (PrimT uint32_t) ''t'',
      When (since EPIC_4_1_1) (Simple (PrimT uint64_t) ''game_time'') None,
      When (before EPIC_4_1_1) (Simple (PrimT uint32_t) ''game_time'') None]"

definition TS_SC_GENERAL_MESSAGE_BOX :: packet_decl where
  "TS_SC_GENERAL_MESSAGE_BOX = Packet (idLines TS_SC_GENERAL_MESSAGE_BOX_INFO)
     [Count uint16_t ''text'' False,
      DynString ''text'' False]"

definition TS_SC_GET_BOOTHS_NAME :: packet_decl where
  "TS_SC_GET_BOOTHS_NAME = Packet (idLines TS_SC_GET_BOOTHS_NAME_INFO)
     [Count int32_t ''booths'' False,
      DynArray (StructT TS_BOOTH_NAME_DEF) ''booths'']"

definition TS_SC_GET_CHAOS :: packet_decl where
  "TS_SC_GET_CHAOS = Packet (idLines TS_SC_GET_CHAOS_INFO)
     [Simple (PrimT uint32_t) ''hPlayer'',
      Simple (PrimT uint32_t) ''hCorpse'',
      Simple (PrimT int32_t) ''nChaos'',
      When (between EPIC_4_1 EPIC_9_6_2) (Simple (PrimT int8_t) ''nBonusType'') None,
      When (since EPIC_9_6_2) (Simple (PrimT int32_t) ''nBonusType'') None,
      When (between EPIC_4_1 EPIC_9_6_2) (Simple (PrimT int8_t) ''nBonusPercent'') None,
      When (since EPIC_9_6_2) (Simple (PrimT int32_t) ''nBonusPercent'') None,
      When (since EPIC_4_1) (Simple (PrimT int32_t) ''nBonus'') None]"

definition TS_SC_GOLD_UPDATE :: packet_decl where
  "TS_SC_GOLD_UPDATE = Packet (idLines TS_SC_GOLD_UPDATE_INFO)
     [When (since EPIC_4_1_1) (Simple (PrimT uint64_t) ''gold'') None,
      When (before EPIC_4_1_1) (Simple (PrimT uint32_t) ''gold'') None,
      When (\<lambda>version. compareEpic version EPIC_4_1_1 > 0) (Simple (PrimT uint32_t) ''chaos'') None]"

definition TS_SC_HAIR_INFO :: packet_decl where
  "TS_SC_HAIR_INFO = Packet (idLines TS_SC_HAIR_INFO_INFO)
     [Simple (PrimT uint32_t) ''hPlayer'',
      Simple (PrimT int32_t) ''nHairID'',
      Simple (PrimT int32_t) ''nHairColorIndex'',
      Simple (PrimT uint32_t) ''nHairColorRGB'']"

definition TS_SC_HIDE_EQUIP_INFO :: packet_decl where
  "TS_SC_HIDE_EQUIP_INFO = Packet (idLines TS_SC_HIDE_EQUIP_INFO_INFO)
     [Simple (PrimT uint32_t) ''hPlayer'',
      Simple (PrimT uint32_t) ''nHideEquipFlag'']"

definition TS_SC_HPMP :: packet_decl where
  "TS_SC_HPMP = Packet (idLines TS_SC_HPMP_INFO)
     [Simple (PrimT uint32_t) ''handle'',
      Simple (PrimT int32_t) ''add_hp'',
      Simple (PrimT int32_t) ''hp'',
      Simple (PrimT int32_t) ''max_hp'',
      When (since EPIC_4_1) (Simple (PrimT int32_t) ''add_mp'') None,
      When (before EPIC_4_1) (Simple (PrimT uint16_t) ''add_mp'') None,
      When (since EPIC_4_1) (Simple (PrimT int32_t) ''mp'') None,
      When (before EPIC_4_1) (Simple (PrimT uint16_t) ''mp'') None,
      When (since EPIC_4_1) (Simple (PrimT int32_t) ''max_mp'') None,
      When (before EPIC_4_1) (Simple (PrimT uint16_t) ''max_mp'') None,
      When (since EPIC_4_1) (Simple (PrimT uint8_t) ''need_to_display'') None]"

definition TS_SC_HUNTAHOLIC_BEGIN_COUNTDOWN :: packet_decl where
  "TS_SC_HUNTAHOLIC_BEGIN_COUNTDOWN = Packet (idLines TS_SC_HUNTAHOLIC_BEGIN_COUNTDOWN_INFO)
     []"

definition TS_SC_HUNTAHOLIC_BEGIN_HUNTING :: packet_decl where
  "TS_SC_HUNTAHOLIC_BEGIN_HUNTING = Packet (idLines TS_SC_HUNTAHOLIC_BEGIN_HUNTING_INFO)
     [Simple (PrimT uint32_t) ''begin_time'']"

definition TS_SC_HUNTAHOLIC_HUNTING_SCORE :: packet_decl where
  "TS_SC_HUNTAHOLIC_HUNTING_SCORE = Packet (idLines TS_SC_HUNTAHOLIC_HUNTING_SCORE_INFO)
     [Simple (PrimT int32_t) ''huntaholic_id'',
      Simple (PrimT int32_t) ''personal_kill_count'',
      Simple (PrimT int32_t) ''personal_score'',
      Simple (PrimT int32_t) ''kill_count'',
      Simple (PrimT int32_t) ''score'',
      Simple (PrimT uint64_t) ''point_advantage'',
      Simple (PrimT uint64_t) ''point_rate'',
      Simple (PrimT int32_t) ''gain_point'',
      Simple (PrimT int8_t) ''result_type'']"

definition TS_SC_HUNTAHOLIC_INSTANCE_INFO :: packet_decl where
  "TS_SC_HUNTAHOLIC_INSTANCE_INFO = Packet (idLines TS_SC_HUNTAHOLIC_INSTANCE_INFO_INFO)
     [Simple (StructT TS_HUNTAHOLIC_INSTANCE_INFO_DEF) ''info'']"

definition TS_SC_HUNTAHOLIC_INSTANCE_LIST :: packet_decl where
  "TS_SC_HUNTAHOLIC_INSTANCE_LIST = Packet (idLines TS_SC_HUNTAHOLIC_INSTANCE_LIST_INFO)
     [Simple (PrimT int32_t) ''huntaholic_id'',
      Simple (PrimT int32_t) ''page'',
      Count int32_t ''infos'' False,
      Simple (PrimT int32_t) ''total_page'',
      DynArray (StructT TS_HUNTAHOLIC_INSTANCE_INFO_DEF) ''infos'']"

definition TS_SC_HUNTAHOLIC_MAX_POINT_ACHIEVED :: packet_decl where
  "TS_SC_HUNTAHOLIC_MAX_POINT_ACHIEVED = Packet (idLines TS_SC_HUNTAHOLIC_MAX_POINT_ACHIEVED_INFO)
     []"

definition TS_SC_HUNTAHOLIC_UPDATE_SCORE :: packet_decl where
  "TS_SC_HUNTAHOLIC_UPDATE_SCORE = Packet (idLines TS_SC_HUNTAHOLIC_UPDATE_SCORE_INFO)
     [Simple (PrimT int32_t) ''kill_count'',
      Simple (PrimT int32_t) ''score'']"

definition TS_SC_INSTANCE_GAME_SCORE_REQUEST :: packet_decl where
  "TS_SC_INSTANCE_GAME_SCORE_REQUEST = Packet (idLines TS_SC_INSTANCE_GAME_SCORE_REQUEST_INFO)
     [Simple (PrimT uint32_t) ''holicpoint'',
      Simple (PrimT uint32_t) ''bearroad_ranking'',
      Simple (PrimT uint32_t) ''deathmatch_kill_count'',
      Simple (PrimT uint32_t) ''deathmatch_death_count'',
      When (since EPIC_8_1) (Simple (PrimT int32_t) ''battle_arena_point'') None,
      When (since EPIC_8_1) (Simple (PrimT int32_t) ''battle_arena_mvp_count'') None,
      When (since EPIC_8_1) (ArrayF (PrimT int32_t) ''battle_arena_record_classic'' 2) None,
      When (since EPIC_8_1) (ArrayF (PrimT int32_t) ''battle_arena_record_slaughter'' 2) None,
      When (since EPIC_8_1) (ArrayF (PrimT int32_t) ''battle_arena_record_bingo'' 2) None]"

definition TS_SC_ITEM_COOL_TIME :: packet_decl where
  "TS_SC_ITEM_COOL_TIME = Packet (idLines TS_SC_ITEM_COOL_TIME_INFO)
     [When (since EPIC_6_2) (ArrayF (PrimT uint32_t) ''cool_time'' 40) None,
      When (before EPIC_6_2) (ArrayF (PrimT uint32_t) ''cool_time'' 20) None]"

definition TS_SC_ITEM_DROP_INFO :: packet_decl where
  "TS_SC_ITEM_DROP_INFO = Packet (idLines TS_SC_ITEM_DROP_INFO_INFO)
     [Simple (PrimT uint32_t) ''monster_handle'',
      Simple (PrimT uint32_t) ''item_handle'']"

definition TS_SC_ITEM_WEAR_INFO :: packet_decl where
  "TS_SC_ITEM_WEAR_INFO = Packet (idLines TS_SC_ITEM_WEAR_INFO_INFO)
     [Simple (PrimT uint32_t) ''item_handle'',
      Simple (PrimT int16_t) ''wear_position'',
      Simple (PrimT uint32_t) ''target_handle'',
      Simple (PrimT int32_t) ''enhance'',
      When (since EPIC_6_1) (Simple (PrimT int8_t) ''elemental_effect_type'') None,
      When (since EPIC_7_4) (Simple (PrimT int32_t) ''appearance_code'') None]"

definition TS_SC_LEAVE :: packet_decl where
  "TS_SC_LEAVE = Packet (idLines TS_SC_LEAVE_INFO)
     [Simple (PrimT uint32_t) ''handle'']"

definition TS_SC_LEVEL_UPDATE :: packet_decl where
  "TS_SC_LEVEL_UPDATE = Packet (idLines TS_SC_LEVEL_UPDATE_INFO)
     [Simple (PrimT uint32_t) ''handle'',
      Simple (PrimT int32_t) ''level'',
      Simple (PrimT int32_t) ''job_level'']"

definition TS_SC_LOGIN_RESULT :: packet_decl where
  "TS_SC_LOGIN_RESULT = Packet (idLines TS_SC_LOGIN_RESULT_INFO)
     [When (since EPIC_7_1) (Simple (PrimT uint16_t) ''result'') None,
      When (before EPIC_7_1) (Simple (PrimT uint8_t) ''result'') None,
      Simple (PrimT uint32_t) ''handle'',
      Simple (PrimT uint32_t) ''x'',
      Simple (PrimT uint32_t) ''y'',
      Simple (PrimT uint32_t) ''z'',
      When (since EPIC_9_6_2) (Simple (PrimT uint32_t) ''layer'') None,
      When (before EPIC_9_6_2) (Simple (PrimT uint8_t) ''layer'') None,
      Simple (PrimT uint32_t) ''face_direction'',
      Simple (PrimT int32_t) ''region_size'',
      Simple (PrimT int32_t) ''hp'',
      When (since EPIC_7_3) (Simple (PrimT int32_t) ''mp'') None,
      When (before EPIC_7_3) (Simple (PrimT int16_t) ''mp'') None,
      Simple (PrimT int32_t) ''max_hp'',
      When (since EPIC_7_3) (Simple (PrimT int32_t) ''max_mp'') None,
      When (before EPIC_7_3) (Simple (PrimT int16_t) ''max_mp'') None,
      When (between EPIC_4_1 EPIC_8_2) (Simple (PrimT int32_t) ''havoc'') None,
      When (between EPIC_4_1 EPIC_8_2) (Simple (PrimT int32_t) ''max_havoc'') None,
      Simple (PrimT int32_t) ''sex'',
      Simple (PrimT int32_t) ''race'',
      When (since EPIC_4_1) (Simple (PrimT uint32_t) ''skin_color'') None,
      Simple (PrimT int32_t) ''faceId'',
      Simple (PrimT int32_t) ''hairId'',
      When (before EPIC_9_6) (StringF ''name'' 19) None,
      When (since EPIC_9_6) (StringF ''name'' 20) None,
      Simple (PrimT int32_t) ''cell_size'',
      Simple (PrimT int32_t) ''guild_id'',
      When (since EPIC_9_2) (Simple (PrimT int32_t) ''back_board'') None,
      When (since EPIC_9_6_2) (Simple (PrimT int32_t) ''unknown_2'') None]"

definition TS_SC_MIX_RESULT :: packet_decl where
  "TS_SC_MIX_RESULT = Packet (idLines TS_SC_MIX_RESULT_INFO)
     [Count uint32_t ''handles'' False,
      When (since EPIC_8_1) (Simple (PrimT int8_t) ''type'') (Some (VNum 0)),
      DynArray (PrimT uint32_t) ''handles'']"

definition TS_SC_MOUNT_SUMMON :: packet_decl where
  "TS_SC_MOUNT_SUMMON = Packet (idLines TS_SC_MOUNT_SUMMON_INFO)
     [Simple (PrimT uint32_t) ''handle'',
      Simple (PrimT uint32_t) ''summon_handle'',
      Simple (PrimT uint32_t) ''x'',
      Simple (PrimT uint32_t) ''y'',
      Simple (PrimT uint8_t) ''success'']"

definition TS_SC_MOVE :: packet_decl where
  "TS_SC_MOVE = Packet (idLines TS_SC_MOVE_INFO)
     [Simple (PrimT uint32_t) ''start_time'',
      Simple (PrimT uint32_t) ''handle'',
      Simple (PrimT int8_t) ''tlayer'',
      Simple (PrimT uint8_t) ''speed'',
      Count uint16_t ''move_infos'' False,
      DynArray (StructT MOVE_INFO_DEF) ''move_infos'']"

definition TS_SC_MOVE_ACK :: packet_decl where
  "TS_SC_MOVE_ACK = Packet (idLines TS_SC_MOVE_ACK_INFO)
     [Simple (PrimT uint32_t) ''time'',
      Simple (PrimT int8_t) ''speed'']"

definition TS_SC_NPC_TRADE_INFO :: packet_decl where
  "TS_SC_NPC_TRADE_INFO = Packet (idLines TS_SC_NPC_TRADE_INFO_INFO)
     [Simple (PrimT uint8_t) ''is_sell'',
      Simple (PrimT int32_t) ''code'',
      Simple (PrimT int64_t) ''count'',
      Simple (PrimT int64_t) ''price'',
      When (since EPIC_5_2) (Simple (PrimT int32_t) ''huntaholic_point'') None,
      When (since EPIC_8_1) (Simple (PrimT int32_t) ''arena_point'') None,
      Simple (PrimT uint32_t) ''target'']"

definition TS_SC_OPEN_GUILD_WINDOW :: packet_decl where
  "TS_SC_OPEN_GUILD_WINDOW = Packet (idLines TS_SC_OPEN_GUILD_WINDOW_INFO)
     [Simple (PrimT int32_t) ''client_id'',
      Simple (PrimT int32_t) ''account_id'',
      Simple (PrimT int32_t) ''one_time_password'',
      StringF ''raw_server_name'' 32]"

definition TS_SC_OPEN_ITEM_SHOP :: packet_decl where
  "TS_SC_OPEN_ITEM_SHOP = Packet (idLines TS_SC_OPEN_ITEM_SHOP_INFO)
     [Simple (PrimT int32_t) ''client_id'',
      Simple (PrimT int32_t) ''account_id'',
      Simple (PrimT int32_t) ''one_time_password'',
      StringF ''raw_server_name'' 32]"

definition TS_SC_OPEN_PAID_STORAGE :: packet_decl where
  "TS_SC_OPEN_PAID_STORAGE = Packet (idLines TS_SC_OPEN_PAID_STORAGE_INFO)
     []"

definition TS_SC_OPEN_STORAGE :: packet_decl where
  "TS_SC_OPEN_STORAGE = Packet (idLines TS_SC_OPEN_STORAGE_INFO)
     [When (since EPIC_7_4) (Simple (PrimT int32_t) ''maxStorageItemCount'') (Some (VNum 10000))]"

definition TS_SC_OPEN_TITLE :: packet_decl where
  "TS_SC_OPEN_TITLE = Packet (idLines TS_SC_OPEN_TITLE_INFO)
     [Simple (PrimT int32_t) ''code'']"

definition TS_SC_OPEN_URL :: packet_decl where
  "TS_SC_OPEN_URL = Packet (idLines TS_SC_OPEN_URL_INFO)
     [Simple (PrimT uint8_t) ''wait_for_event_scene'',
      Simple (PrimT int32_t) ''width'',
      Simple (PrimT int32_t) ''height'',
      Count uint16_t ''url'' False,
      DynString ''url'' False]"

definition TS_SC_PARTYMATCH_LIST :: packet_decl where
  "TS_SC_PARTYMATCH_LIST = Packet (idLines TS_SC_PARTYMATCH_LIST_INFO)
     [Simple (PrimT int32_t) ''page_num'',
      Simple (PrimT int32_t) ''total_group_num'',
      ArrayF (StructT TS_GROUP_FINDER_GROUP_DEF) ''groups'' 10]"

definition TS_SC_PARTYMATCH_MEMBER :: packet_decl where
  "TS_SC_PARTYMATCH_MEMBER = Packet (idLines TS_SC_PARTYMATCH_MEMBER_INFO)
     [Simple (PrimT int32_t) ''index'',
      Simple (PrimT uint32_t) ''master_handle'',
      ArrayF (StructT TS_GROUP_FINDER_DETAIL_DEF) ''members'' 10]"

definition TS_SC_PROPERTY :: packet_decl where
  "TS_SC_PROPERTY = Packet (idLines TS_SC_PROPERTY_INFO)
     [Simple (PrimT uint32_t) ''handle'',
      Simple (PrimT uint8_t) ''is_number'',
      StringF ''name'' 16,
      When (since EPIC_4_1_1) (Simple (PrimT int64_t) ''value'') None,
      When (before EPIC_4_1_1) (Simple (PrimT int32_t) ''value'') None,
      EndString ''string_value'' True]"

definition TS_SC_QUEST_INFOMATION :: packet_decl where
  "TS_SC_QUEST_INFOMATION = Packet (idLines TS_SC_QUEST_INFOMATION_INFO)
     [Simple (PrimT int32_t) ''code'',
      Simple (PrimT int32_t) ''nProgress'',
      Simple (PrimT uint16_t) ''trigger_length'']"

definition TS_SC_QUEST_LIST :: packet_decl where
  "TS_SC_QUEST_LIST = Packet (idLines TS_SC_QUEST_LIST_INFO)
     [Count uint16_t ''activeQuests'' False,
      When (since EPIC_6_3) (Count uint16_t ''pendingQuests'' False) None,
      DynArray (StructT TS_QUEST_INFO_DEF) ''activeQuests'',
      When (since EPIC_6_3) (DynArray (StructT TS_QUEST_PENDING_DEF) ''pendingQuests'') None]"

definition TS_SC_QUEST_STATUS :: packet_decl where
  "TS_SC_QUEST_STATUS = Packet (idLines TS_SC_QUEST_STATUS_INFO)
     [Simple (PrimT int32_t) ''code'',
      When (since EPIC_6_1) (ArrayF (PrimT uint32_t) ''status'' 6) None,
      When (before EPIC_6_1) (ArrayF (PrimT uint32_t) ''status'' 3) None,
      When (since EPIC_6_3) (Simple (PrimT int8_t) ''nProgress'') None,
      When (since EPIC_6_3) (Simple (PrimT uint32_t) ''nTimeLimit'') None]"

definition TS_SC_RAGE :: packet_decl where
  "TS_SC_RAGE = Packet (idLines TS_SC_RAGE_INFO)
     [Simple (PrimT uint32_t) ''handle'',
      Simple (PrimT int16_t) ''rage'']"

definition TS_SC_RANKING_TOP_RECORD :: packet_decl where
  "TS_SC_RANKING_TOP_RECORD = Packet (idLines TS_SC_RANKING_TOP_RECORD_INFO)
     [Simple (PrimT int8_t) ''ranking_type'',
      Simple (PrimT uint16_t) ''requester_rank'',
      Simple (PrimT int64_t) ''requester_score'',
      Count uint16_t ''records'' False,
      DynArray (StructT TS_RANKING_RECORD_DEF) ''records'']"

definition TS_SC_REGEN_HPMP :: packet_decl where
  "TS_SC_REGEN_HPMP = Packet (idLines TS_SC_REGEN_HPMP_INFO)
     [Simple (PrimT uint32_t) ''handle'',
      When (since EPIC_7_3) (Simple (PrimT int32_t) ''hp_regen'') None,
      When (before EPIC_7_3) (Simple (PrimT uint16_t) ''hp_regen'') None,
      When (since EPIC_7_3) (Simple (PrimT int32_t) ''mp_regen'') None,
      When (before EPIC_7_3) (Simple (PrimT uint16_t) ''mp_regen'') None,
      Simple (PrimT int32_t) ''hp'',
      When (since EPIC_7_3) (Simple (PrimT int32_t) ''mp'') None,
      When (before EPIC_7_3) (Simple (PrimT uint16_t) ''mp'') None]"

definition TS_SC_REGEN_INFO :: packet_decl where
  "TS_SC_REGEN_INFO = Packet (idLines TS_SC_REGEN_INFO_INFO)
     [Simple (PrimT uint32_t) ''handle'',
      Simple (PrimT int16_t) ''hp_regen_percentage'',
      When (since EPIC_7_3) (Simple (PrimT int32_t) ''hp_regen_point'') None,
      When (before EPIC_7_3) (Simple (PrimT int16_t) ''hp_regen_point'') None,
      Simple (PrimT int16_t) ''mp_regen_percentage'',
      When (since EPIC_7_3) (Simple (PrimT int32_t) ''mp_regen_point'') None,
      When (before EPIC_7_3) (Simple (PrimT int16_t) ''mp_regen_point'') None]"

definition TS_SC_REGION_ACK :: packet_decl where
  "TS_SC_REGION_ACK = Packet (idLines TS_SC_REGION_ACK_INFO)
     [Simple (PrimT int32_t) ''rx'',
      Simple (PrimT int32_t) ''ry'']"

definition TS_SC_REMAIN_TITLE_TIME :: packet_decl where
  "TS_SC_REMAIN_TITLE_TIME = Packet (idLines TS_SC_REMAIN_TITLE_TIME_INFO)
     [Simple (PrimT uint32_t) ''remain_title_time'']"

definition TS_SC_REMOVE_PET_INFO :: packet_decl where
  "TS_SC_REMOVE_PET_INFO = Packet (idLines TS_SC_REMOVE_PET_INFO_INFO)
     [Simple (PrimT uint32_t) ''handle'']"

definition TS_SC_REMOVE_SUMMON_INFO :: packet_decl where
  "TS_SC_REMOVE_SUMMON_INFO = Packet (idLines TS_SC_REMOVE_SUMMON_INFO_INFO)
     [Simple (PrimT uint32_t) ''card_handle'']"

definition TS_SC_REQUEST_SECURITY_NO :: packet_decl where
  "TS_SC_REQUEST_SECURITY_NO = Packet (idLines TS_SC_REQUEST_SECURITY_NO_INFO)
     [Simple (PrimT int32_t) ''mode'']"

definition TS_SC_RESULT_FOSTER :: packet_decl where
  "TS_SC_RESULT_FOSTER = Packet (idLines TS_SC_RESULT_FOSTER_INFO)
     [Simple (PrimT int8_t) ''result'']"

definition TS_SC_RESULT_NURSE :: packet_decl where
  "TS_SC_RESULT_NURSE = Packet (idLines TS_SC_RESULT_NURSE_INFO)
     [Simple (PrimT int8_t) ''result'']"

definition TS_SC_RESULT_RETRIEVE :: packet_decl where
  "TS_SC_RESULT_RETRIEVE = Packet (idLines TS_SC_RESULT_RETRIEVE_INFO)
     [Simple (PrimT int8_t) ''result'']"

definition TS_SC_SET_MAIN_TITLE :: packet_decl where
  "TS_SC_SET_MAIN_TITLE = Packet (idLines TS_SC_SET_MAIN_TITLE_INFO)
     [Simple (PrimT uint32_t) ''handle'',
      Simple (PrimT int32_t) ''code'']"

definition TS_SC_SET_SUB_TITLE :: packet_decl where
  "TS_SC_SET_SUB_TITLE = Packet (idLines TS_SC_SET_SUB_TITLE_INFO)
     [Simple (PrimT int32_t) ''index'',
      Simple (PrimT int32_t) ''code'']"

definition TS_SC_SET_TIME :: packet_decl where
  "TS_SC_SET_TIME = Packet (idLines TS_SC_SET_TIME_INFO)
     [Simple (PrimT int32_t) ''gap'']"

definition TS_SC_SHOW_CREATE_ALLIANCE :: packet_decl where
  "TS_SC_SHOW_CREATE_ALLIANCE = Packet (idLines TS_SC_SHOW_CREATE_ALLIANCE_INFO)
     []"

definition TS_SC_SHOW_CREATE_GUILD :: packet_decl where
  "TS_SC_SHOW_CREATE_GUILD = Packet (idLines TS_SC_SHOW_CREATE_GUILD_INFO)
     []"

definition TS_SC_SHOW_SET_PET_NAME :: packet_decl where
  "TS_SC_SHOW_SET_PET_NAME = Packet (idLines TS_SC_SHOW_SET_PET_NAME_INFO)
     [Simple (PrimT uint32_t) ''handle'']"

definition TS_SC_SHOW_SOULSTONE_CRAFT_WINDOW :: packet_decl where
  "TS_SC_SHOW_SOULSTONE_CRAFT_WINDOW = Packet (idLines TS_SC_SHOW_SOULSTONE_CRAFT_WINDOW_INFO)
     []"

definition TS_SC_SHOW_SOULSTONE_REPAIR_WINDOW :: packet_decl where
  "TS_SC_SHOW_SOULSTONE_REPAIR_WINDOW = Packet (idLines TS_SC_SHOW_SOULSTONE_REPAIR_WINDOW_INFO)
     []"

definition TS_SC_SHOW_SUMMON_NAME_CHANGE :: packet_decl where
  "TS_SC_SHOW_SUMMON_NAME_CHANGE = Packet (idLines TS_SC_SHOW_SUMMON_NAME_CHANGE_INFO)
     [Simple (PrimT uint32_t) ''handle'']"

definition TS_SC_SHOW_WINDOW :: packet_decl where
  "TS_SC_SHOW_WINDOW = Packet (idLines TS_SC_SHOW_WINDOW_INFO)
     [Count uint16_t ''window'' False,
      When (since EPIC_5_1) (Count uint16_t ''argument'' False) None,
      Count uint16_t ''trigger'' False,
      DynString ''window'' False,
      When (since EPIC_5_1) (DynString ''argument'' False) None,
      DynString ''trigger'' False]"

definition TS_SC_SKILLCARD_INFO :: packet_decl where
  "TS_SC_SKILLCARD_INFO = Packet (idLines TS_SC_SKILLCARD_INFO_INFO)
     [Simple (PrimT uint32_t) ''item_handle'',
      Simple (PrimT uint32_t) ''target_handle'']"

definition TS_SC_SKILL_CASTING_TIME :: packet_decl where
  "TS_SC_SKILL_CASTING_TIME = Packet (idLines TS_SC_SKILL_CASTING_TIME_INFO)
     [Simple (PrimT uint32_t) ''caster'',
      Simple (PrimT uint32_t) ''tm'']"

definition TS_SC_SKILL_LEVEL_LIST :: packet_decl where
  "TS_SC_SKILL_LEVEL_LIST = Packet (idLines TS_SC_SKILL_LEVEL_LIST_INFO)
     [Count uint16_t ''skill_levels'' False,
      DynArray (StructT TS_SKILL_LEVEL_INFO_DEF) ''skill_levels'']"

definition TS_SC_SKILL_LIST :: packet_decl where
  "TS_SC_SKILL_LIST = Packet (idLines TS_SC_SKILL_LIST_INFO)
     [Simple (PrimT uint32_t) ''target'',
      Count uint16_t ''skills'' False,
      When (since EPIC_4_1) (Simple (PrimT int8_t) ''modification_type'') None,
      DynArray (StructT TS_SKILL_INFO_DEF) ''skills'']"

definition TS_SC_SKIN_INFO :: packet_decl where
  "TS_SC_SKIN_INFO = Packet (idLines TS_SC_SKIN_INFO_INFO)
     [Simple (PrimT uint32_t) ''handle'',
      Simple (PrimT int32_t) ''nSkinColor'']"

definition TS_SC_SP :: packet_decl where
  "TS_SC_SP = Packet (idLines TS_SC_SP_INFO)
     [Simple (PrimT uint32_t) ''handle'',
      Simple (PrimT int16_t) ''sp'',
      Simple (PrimT int16_t) ''max_sp'']"

definition TS_SC_STATE_RESULT :: packet_decl where
  "TS_SC_STATE_RESULT = Packet (idLines TS_SC_STATE_RESULT_INFO)
     [Simple (PrimT uint32_t) ''caster_handle'',
      Simple (PrimT uint32_t) ''target_handle'',
      Simple (PrimT int32_t) ''code'',
      Simple (PrimT uint16_t) ''level'',
      Simple (PrimT uint16_t) ''result_type'',
      Simple (PrimT int32_t) ''value'',
      Simple (PrimT int32_t) ''target_value'',
      Simple (PrimT uint8_t) ''final'',
      Simple (PrimT int32_t) ''total_amount'']"

definition TS_SC_STATUS_CHANGE :: packet_decl where
  "TS_SC_STATUS_CHANGE = Packet (idLines TS_SC_STATUS_CHANGE_INFO)
     [Simple (PrimT uint32_t) ''handle'',
      Simple (PrimT uint32_t) ''status'']"

definition TS_SC_STAT_INFO :: packet_decl where
  "TS_SC_STAT_INFO = Packet (idLines TS_SC_STAT_INFO_INFO)
     [Simple (PrimT uint32_t) ''handle'',
      Simple (StructT TS_STAT_INFO_BASE_DEF) ''stat'',
      Simple (StructT TS_STAT_INFO_ATTRIB_DEF) ''attribute'',
      Simple (PrimT uint8_t) ''type'']"

definition TS_SC_SUMMON_EVOLUTION :: packet_decl where
  "TS_SC_SUMMON_EVOLUTION = Packet (idLines TS_SC_SUMMON_EVOLUTION_INFO)
     [Simple (PrimT uint32_t) ''card_handle'',
      Simple (PrimT uint32_t) ''summon_handle'',
      When (before EPIC_9_6) (StringF ''name'' 19) None,
      When (since EPIC_9_6) (StringF ''name'' 20) None,
      Simple (PrimT int32_t) ''code'']"

definition TS_SC_TAKE_ITEM_RESULT :: packet_decl where
  "TS_SC_TAKE_ITEM_RESULT = Packet (idLines TS_SC_TAKE_ITEM_RESULT_INFO)
     [Simple (PrimT uint32_t) ''item_handle'',
      Simple (PrimT uint32_t) ''item_taker'']"

definition TS_SC_TAMING_INFO :: packet_decl where
  "TS_SC_TAMING_INFO = Packet (idLines TS_SC_TAMING_INFO_INFO)
     [Simple (PrimT int8_t) ''mode'',
      Simple (PrimT uint32_t) ''tamer_handle'',
      Simple (PrimT uint32_t) ''target_handle'']"

definition TS_SC_TARGET :: packet_decl where
  "TS_SC_TARGET = Packet (idLines TS_SC_TARGET_INFO)
     [Simple (PrimT uint32_t) ''target'']"

definition TS_SC_TITLE_CONDITION_LIST :: packet_decl where
  "TS_SC_TITLE_CONDITION_LIST = Packet (idLines TS_SC_TITLE_CONDITION_LIST_INFO)
     [Count uint16_t ''title_condition_infos'' False,
      DynArray (StructT TS_TITLE_CONDITION_INFO_DEF) ''title_condition_infos'']"

definition TS_SC_TITLE_LIST :: packet_decl where
  "TS_SC_TITLE_LIST = Packet (idLines TS_SC_TITLE_LIST_INFO)
     [Count uint16_t ''titles'' False,
      DynArray (StructT TS_TITLE_INFO_DEF) ''titles'']"

definition TS_SC_UNMOUNT_SUMMON :: packet_decl where
  "TS_SC_UNMOUNT_SUMMON = Packet (idLines TS_SC_UNMOUNT_SUMMON_INFO)
     [Simple (PrimT uint32_t) ''handle'',
      Simple (PrimT uint32_t) ''summon_handle'',
      Simple (PrimT int8_t) ''flag'']"

definition TS_SC_UNSUMMON :: packet_decl where
  "TS_SC_UNSUMMON = Packet (idLines TS_SC_UNSUMMON_INFO)
     [Simple (PrimT uint32_t) ''summon_handle'']"

definition TS_SC_UNSUMMON_NOTICE :: packet_decl where
  "TS_SC_UNSUMMON_NOTICE = Packet (idLines TS_SC_UNSUMMON_NOTICE_INFO)
     [Simple (PrimT uint32_t) ''summon_handle'',
      Simple (PrimT uint32_t) ''unsummon_duration'']"

definition TS_SC_UNSUMMON_PET :: packet_decl where
  "TS_SC_UNSUMMON_PET = Packet (idLines TS_SC_UNSUMMON_PET_INFO)
     [Simple (PrimT uint32_t) ''handle'']"

definition TS_SC_UPDATE_GUILD_ICON :: packet_decl where
  "TS_SC_UPDATE_GUILD_ICON = Packet (idLines TS_SC_UPDATE_GUILD_ICON_INFO)
     [Simple (PrimT uint32_t) ''client_id'',
      Simple (PrimT uint32_t) ''account_id'',
      Simple (PrimT uint32_t) ''one_time_password'',
      StringF ''raw_server_name'' 32]"

definition TS_SC_UPDATE_ITEM_COUNT :: packet_decl where
  "TS_SC_UPDATE_ITEM_COUNT = Packet (idLines TS_SC_UPDATE_ITEM_COUNT_INFO)
     [Simple (PrimT uint32_t) ''item_handle'',
      When (since EPIC_4_1) (Simple (PrimT int64_t) ''count'') None,
      When (before EPIC_4_1) (Simple (PrimT int32_t) ''count'') None]"

definition TS_SC_URL_LIST :: packet_decl where
  "TS_SC_URL_LIST = Packet (idLines TS_SC_URL_LIST_INFO)
     [When (since EPIC_9_6_2) (Count uint32_t ''url_list'' False) None,
      When (before EPIC_9_6_2) (Count uint16_t ''url_list'' False) None,
      DynString ''url_list'' False]"

definition TS_SC_USE_ITEM_RESULT :: packet_decl where
  "TS_SC_USE_ITEM_RESULT = Packet (idLines TS_SC_USE_ITEM_RESULT_INFO)
     [Simple (PrimT uint32_t) ''item_handle'',
      Simple (PrimT uint32_t) ''target_handle'']"

definition TS_SC_WARP :: packet_decl where
  "TS_SC_WARP = Packet (idLines TS_SC_WARP_INFO)
     [Simple (PrimT uint32_t) ''x'',
      Simple (PrimT uint32_t) ''y'',
      Simple (PrimT uint32_t) ''z'',
      Simple (PrimT int8_t) ''layer'']"

definition TS_SC_WEAR_INFO :: packet_decl where
  "TS_SC_WEAR_INFO = Packet (idLines TS_SC_WEAR_INFO_INFO)
     [Simple (PrimT uint32_t) ''handle'',
      When (before EPIC_4_1) (ArrayF (PrimT uint32_t) ''item_code'' 14) None,
      When (between EPIC_4_1 EPIC_9_5) (ArrayF (PrimT uint32_t) ''item_code'' 24) None,
      When (between EPIC_9_5 EPIC_9_6) (ArrayF (PrimT uint32_t) ''item_code'' 28) None,
      When (between EPIC_9_6 EPIC_9_7_2) (ArrayF (PrimT uint32_t) ''item_code'' 32) None,
      When (since EPIC_9_7_2) (ArrayF (PrimT uint32_t) ''item_code'' 10) None,
      When (before EPIC_4_1) (ArrayF (PrimT uint32_t) ''item_enhance'' 14) None,
      When (between EPIC_4_1 EPIC_9_5) (ArrayF (PrimT uint32_t) ''item_enhance'' 24) None,
      When (between EPIC_9_5 EPIC_9_6) (ArrayF (PrimT uint32_t) ''item_enhance'' 28) None,
      When (between EPIC_9_6 EPIC_9_7_2) (ArrayF (PrimT uint32_t) ''item_enhance'' 32) None,
      When (before EPIC_4_1) (ArrayF (PrimT uint32_t) ''item_level'' 14) None,
      When (between EPIC_4_1 EPIC_9_5) (ArrayF (PrimT uint32_t) ''item_level'' 24) None,
      When (between EPIC_9_5 EPIC_9_6) (ArrayF (PrimT uint32_t) ''item_level'' 28) None,
      When (between EPIC_9_6 EPIC_9_7_2) (ArrayF (PrimT uint32_t) ''item_level'' 32) None,
      When (between EPIC_6_1 EPIC_9_5) (ArrayF (PrimT uint8_t) ''elemental_effect_type'' 24) None,
      When (between EPIC_9_5 EPIC_9_6) (ArrayF (PrimT uint8_t) ''elemental_effect_type'' 28) None,
      When (between EPIC_9_6 EPIC_9_7_2) (ArrayF (PrimT uint8_t) ''elemental_effect_type'' 32) None,
      When (between EPIC_7_4 EPIC_9_5) (ArrayF (PrimT uint32_t) ''appearance_code'' 24) None,
      When (between EPIC_9_5 EPIC_9_6) (ArrayF (PrimT uint32_t) ''appearance_code'' 28) None,
      When (between EPIC_9_6 EPIC_9_7_2) (ArrayF (PrimT uint32_t) ''appearance_code'' 32) None,
      When (since EPIC_9_7_2) (ArrayF (StructT TS_SC_WEAR_INFO__ITEM_WEAR_INFO_DEF) ''item_details'' 10) None,
      PadMarker ''padding'',
      When (between EPIC_9_3 EPIC_9_5) (Simple (PrimT uint8_t) ''booster_code'') (Some (VNum 0)),
      When (between EPIC_9_3 EPIC_9_5) (Simple (PrimT uint8_t) ''emblem_code'') (Some (VNum 0)),
      When (between EPIC_9_3 EPIC_9_5) (Pad 8 ''padding'') None]"

definition TS_SC_WEATHER_INFO :: packet_decl where
  "TS_SC_WEATHER_INFO = Packet (idLines TS_SC_WEATHER_INFO_INFO)
     [Simple (PrimT uint32_t) ''region_id'',
      Simple (PrimT uint16_t) ''weather_id'']"

definition TS_SC_XTRAP_CHECK :: packet_decl where
  "TS_SC_XTRAP_CHECK = Packet (idLines TS_SC_XTRAP_CHECK_INFO)
     [ArrayF (PrimT uint8_t) ''pCheckBuffer'' 128]"

definition TS_SECURITY_NO :: packet_decl where
  "TS_SECURITY_NO = Packet (idLines TS_SECURITY_NO_INFO)
     [When (since EPIC_9_6_7) (StringF ''account'' 64) None,
      Simple (PrimT int32_t) ''mode'',
      When (before EPIC_9_6_7) (StringF ''security_no'' 19) None,
      When (since EPIC_9_6_7) (Simple (PrimT int32_t) ''result'') None,
      When (since EPIC_9_6_7) (Simple (PrimT int32_t) ''security_no_1'') None,
      When (since EPIC_9_6_7) (Simple (PrimT int32_t) ''security_no_2'') None]"

definition TS_TIMESYNC :: packet_decl where
  "TS_TIMESYNC = Packet (idLines TS_TIMESYNC_INFO)
     [Simple (PrimT uint32_t) ''time'']"

definition gameServerPackets :: "(packet_info \<times> packet_decl) list" where
  "gameServerPackets = [
     (TS_EQUIP_SUMMON_INFO, TS_EQUIP_SUMMON),
     (TS_SC_ACHIEVE_TITLE_INFO, TS_SC_ACHIEVE_TITLE),
     (TS_SC_ADDED_SKILL_LIST_INFO, TS_SC_ADDED_SKILL_LIST),
     (TS_SC_ADD_PET_INFO_INFO, TS_SC_ADD_PET_INFO),
     (TS_SC_ADD_SUMMON_INFO_INFO, TS_SC_ADD_SUMMON_INFO),
     (TS_SC_ANTI_HACK_INFO, TS_SC_ANTI_HACK),
     (TS_SC_ATTACK_EVENT_INFO, TS_SC_ATTACK_EVENT),
     (TS_SC_AURA_INFO, TS_SC_AURA),
     (TS_SC_BATTLE_ARENA_ABSENCE_CHECK_INFO, TS_SC_BATTLE_ARENA_ABSENCE_CHECK),
     (TS_SC_BATTLE_ARENA_BATTLE_INFO_INFO, TS_SC_BATTLE_ARENA_BATTLE_INFO),
     (TS_SC_BATTLE_ARENA_BATTLE_SCORE_INFO, TS_SC_BATTLE_ARENA_BATTLE_SCORE),
     (TS_SC_BATTLE_ARENA_BATTLE_STATUS_INFO, TS_SC_BATTLE_ARENA_BATTLE_STATUS),
     (TS_SC_BATTLE_ARENA_DISCONNECT_BATTLE_INFO, TS_SC_BATTLE_ARENA_DISCONNECT_BATTLE),
     (TS_SC_BATTLE_ARENA_EXERCISE_READY_STATUS_INFO, TS_SC_BATTLE_ARENA_EXERCISE_READY_STATUS),
     (TS_SC_BATTLE_ARENA_JOIN_BATTLE_INFO, TS_SC_BATTLE_ARENA_JOIN_BATTLE),
     (TS_SC_BATTLE_ARENA_JOIN_QUEUE_INFO, TS_SC_BATTLE_ARENA_JOIN_QUEUE),
     (TS_SC_BATTLE_ARENA_LEAVE_INFO, TS_SC_BATTLE_ARENA_LEAVE),
     (TS_SC_BATTLE_ARENA_PENALTY_INFO_INFO, TS_SC_BATTLE_ARENA_PENALTY_INFO),
     (TS_SC_BATTLE_ARENA_RECONNECT_BATTLE_INFO, TS_SC_BATTLE_ARENA_RECONNECT_BATTLE),
     (TS_SC_BATTLE_ARENA_RESULT_INFO, TS_SC_BATTLE_ARENA_RESULT),
     (TS_SC_BATTLE_ARENA_UPDATE_WAIT_USER_COUNT_INFO, TS_SC_BATTLE_ARENA_UPDATE_WAIT_USER_COUNT),
     (TS_SC_BELT_SLOT_INFO_INFO, TS_SC_BELT_SLOT_INFO),
     (TS_SC_BONUS_EXP_JP_INFO, TS_SC_BONUS_EXP_JP),
     (TS_SC_BOOKMARK_TITLE_INFO, TS_SC_BOOKMARK_TITLE),
     (TS_SC_BOOTH_CLOSED_INFO, TS_SC_BOOTH_CLOSED),
     (TS_SC_CANT_ATTACK_INFO, TS_SC_CANT_ATTACK),
     (TS_SC_CHANGE_LOCATION_INFO, TS_SC_CHANGE_LOCATION),
     (TS_SC_CHANGE_NAME_INFO, TS_SC_CHANGE_NAME),
     (TS_SC_CHANGE_SECURITY_NO_INFO, TS_SC_CHANGE_SECURITY_NO),
     (TS_SC_CHANGE_TITLE_CONDITION_INFO, TS_SC_CHANGE_TITLE_CONDITION),
     (TS_SC_CHARACTER_LIST_INFO, TS_SC_CHARACTER_LIST),
     (TS_SC_CHAT_LOCAL_INFO, TS_SC_CHAT_LOCAL),
     (TS_SC_CHAT_RESULT_INFO, TS_SC_CHAT_RESULT),
     (TS_SC_CLEAR_SECURITY_NO_INFO, TS_SC_CLEAR_SECURITY_NO),
     (TS_SC_COMMERCIAL_STORAGE_INFO_INFO, TS_SC_COMMERCIAL_STORAGE_INFO),
     (TS_SC_COMMERCIAL_STORAGE_LIST_INFO, TS_SC_COMMERCIAL_STORAGE_LIST),
     (TS_SC_COMPETE_ANSWER_INFO, TS_SC_COMPETE_ANSWER),
     (TS_SC_COMPETE_COUNTDOWN_INFO, TS_SC_COMPETE_COUNTDOWN),
     (TS_SC_COMPETE_END_INFO, TS_SC_COMPETE_END),
     (TS_SC_COMPETE_REQUEST_INFO, TS_SC_COMPETE_REQUEST),
     (TS_SC_COMPETE_START_INFO, TS_SC_COMPETE_START),
     (TS_SC_CREATE_SECURITY_NO_INFO, TS_SC_CREATE_SECURITY_NO),
     (TS_SC_DEATHMATCH_RANKING_INFO, TS_SC_DEATHMATCH_RANKING),
     (TS_SC_DEATHMATCH_RANKING_OPEN_INFO, TS_SC_DEATHMATCH_RANKING_OPEN),
     (TS_SC_DEATHMATCH_RANKING_REOPEN_INFO, TS_SC_DEATHMATCH_RANKING_REOPEN),
     (TS_SC_DECOMPOSE_RESULT_INFO, TS_SC_DECOMPOSE_RESULT),
     (TS_SC_DESTROY_ITEM_INFO, TS_SC_DESTROY_ITEM),
     (TS_SC_DETECT_RANGE_UPDATE_INFO, TS_SC_DETECT_RANGE_UPDATE),
     (TS_SC_DIALOG_INFO, TS_SC_DIALOG),
     (TS_SC_DISCONNECT_DESC_INFO, TS_SC_DISCONNECT_DESC),
     (TS_SC_DOUBLE_WEAPON_ATTACK_EVENT_INFO, TS_SC_DOUBLE_WEAPON_ATTACK_EVENT),
     (TS_SC_DROP_RESULT_INFO, TS_SC_DROP_RESULT),
     (TS_SC_EMOTION_INFO, TS_SC_EMOTION),
     (TS_SC_ENERGY_INFO, TS_SC_ENERGY),
     (TS_SC_ERASE_ITEM_INFO, TS_SC_ERASE_ITEM),
     (TS_SC_EXP_UPDATE_INFO, TS_SC_EXP_UPDATE),
     (TS_SC_GAME_GUARD_AUTH_QUERY_INFO, TS_SC_GAME_GUARD_AUTH_QUERY),
     (TS_SC_GAME_TIME_INFO, TS_SC_GAME_TIME),
     (TS_SC_GENERAL_MESSAGE_BOX_INFO, TS_SC_GENERAL_MESSAGE_BOX),
     (TS_SC_GET_BOOTHS_NAME_INFO, TS_SC_GET_BOOTHS_NAME),
     (TS_SC_GET_CHAOS_INFO, TS_SC_GET_CHAOS),
     (TS_SC_GOLD_UPDATE_INFO, TS_SC_GOLD_UPDATE),
     (TS_SC_HAIR_INFO_INFO, TS_SC_HAIR_INFO),
     (TS_SC_HIDE_EQUIP_INFO_INFO, TS_SC_HIDE_EQUIP_INFO),
     (TS_SC_HPMP_INFO, TS_SC_HPMP),
     (TS_SC_HUNTAHOLIC_BEGIN_COUNTDOWN_INFO, TS_SC_HUNTAHOLIC_BEGIN_COUNTDOWN),
     (TS_SC_HUNTAHOLIC_BEGIN_HUNTING_INFO, TS_SC_HUNTAHOLIC_BEGIN_HUNTING),
     (TS_SC_HUNTAHOLIC_HUNTING_SCORE_INFO, TS_SC_HUNTAHOLIC_HUNTING_SCORE),
     (TS_SC_HUNTAHOLIC_INSTANCE_INFO_INFO, TS_SC_HUNTAHOLIC_INSTANCE_INFO),
     (TS_SC_HUNTAHOLIC_INSTANCE_LIST_INFO, TS_SC_HUNTAHOLIC_INSTANCE_LIST),
     (TS_SC_HUNTAHOLIC_MAX_POINT_ACHIEVED_INFO, TS_SC_HUNTAHOLIC_MAX_POINT_ACHIEVED),
     (TS_SC_HUNTAHOLIC_UPDATE_SCORE_INFO, TS_SC_HUNTAHOLIC_UPDATE_SCORE),
     (TS_SC_INSTANCE_GAME_SCORE_REQUEST_INFO, TS_SC_INSTANCE_GAME_SCORE_REQUEST),
     (TS_SC_ITEM_COOL_TIME_INFO, TS_SC_ITEM_COOL_TIME),
     (TS_SC_ITEM_DROP_INFO_INFO, TS_SC_ITEM_DROP_INFO),
     (TS_SC_ITEM_WEAR_INFO_INFO, TS_SC_ITEM_WEAR_INFO),
     (TS_SC_LEAVE_INFO, TS_SC_LEAVE),
     (TS_SC_LEVEL_UPDATE_INFO, TS_SC_LEVEL_UPDATE),
     (TS_SC_LOGIN_RESULT_INFO, TS_SC_LOGIN_RESULT),
     (TS_SC_MIX_RESULT_INFO, TS_SC_MIX_RESULT),
     (TS_SC_MOUNT_SUMMON_INFO, TS_SC_MOUNT_SUMMON),
     (TS_SC_MOVE_INFO, TS_SC_MOVE),
     (TS_SC_MOVE_ACK_INFO, TS_SC_MOVE_ACK),
     (TS_SC_NPC_TRADE_INFO_INFO, TS_SC_NPC_TRADE_INFO),
     (TS_SC_OPEN_GUILD_WINDOW_INFO, TS_SC_OPEN_GUILD_WINDOW),
     (TS_SC_OPEN_ITEM_SHOP_INFO, TS_SC_OPEN_ITEM_SHOP),
     (TS_SC_OPEN_PAID_STORAGE_INFO, TS_SC_OPEN_PAID_STORAGE),
     (TS_SC_OPEN_STORAGE_INFO, TS_SC_OPEN_STORAGE),
     (TS_SC_OPEN_TITLE_INFO, TS_SC_OPEN_TITLE),
     (TS_SC_OPEN_URL_INFO, TS_SC_OPEN_URL),
     (TS_SC_PARTYMATCH_LIST_INFO, TS_SC_PARTYMATCH_LIST),
     (TS_SC_PARTYMATCH_MEMBER_INFO, TS_SC_PARTYMATCH_MEMBER),
     (TS_SC_PROPERTY_INFO, TS_SC_PROPERTY),
     (TS_SC_QUEST_INFOMATION_INFO, TS_SC_QUEST_INFOMATION),
     (TS_SC_QUEST_LIST_INFO, TS_SC_QUEST_LIST),
     (TS_SC_QUEST_STATUS_INFO, TS_SC_QUEST_STATUS),
     (TS_SC_RAGE_INFO, TS_SC_RAGE),
     (TS_SC_RANKING_TOP_RECORD_INFO, TS_SC_RANKING_TOP_RECORD),
     (TS_SC_REGEN_HPMP_INFO, TS_SC_REGEN_HPMP),
     (TS_SC_REGEN_INFO_INFO, TS_SC_REGEN_INFO),
     (TS_SC_REGION_ACK_INFO, TS_SC_REGION_ACK),
     (TS_SC_REMAIN_TITLE_TIME_INFO, TS_SC_REMAIN_TITLE_TIME),
     (TS_SC_REMOVE_PET_INFO_INFO, TS_SC_REMOVE_PET_INFO),
     (TS_SC_REMOVE_SUMMON_INFO_INFO, TS_SC_REMOVE_SUMMON_INFO),
     (TS_SC_REQUEST_SECURITY_NO_INFO, TS_SC_REQUEST_SECURITY_NO),
     (TS_SC_RESULT_FOSTER_INFO, TS_SC_RESULT_FOSTER),
     (TS_SC_RESULT_NURSE_INFO, TS_SC_RESULT_NURSE),
     (TS_SC_RESULT_RETRIEVE_INFO, TS_SC_RESULT_RETRIEVE),
     (TS_SC_SET_MAIN_TITLE_INFO, TS_SC_SET_MAIN_TITLE),
     (TS_SC_SET_SUB_TITLE_INFO, TS_SC_SET_SUB_TITLE),
     (TS_SC_SET_TIME_INFO, TS_SC_SET_TIME),
     (TS_SC_SHOW_CREATE_ALLIANCE_INFO, TS_SC_SHOW_CREATE_ALLIANCE),
     (TS_SC_SHOW_CREATE_GUILD_INFO, TS_SC_SHOW_CREATE_GUILD),
     (TS_SC_SHOW_SET_PET_NAME_INFO, TS_SC_SHOW_SET_PET_NAME),
     (TS_SC_SHOW_SOULSTONE_CRAFT_WINDOW_INFO, TS_SC_SHOW_SOULSTONE_CRAFT_WINDOW),
     (TS_SC_SHOW_SOULSTONE_REPAIR_WINDOW_INFO, TS_SC_SHOW_SOULSTONE_REPAIR_WINDOW),
     (TS_SC_SHOW_SUMMON_NAME_CHANGE_INFO, TS_SC_SHOW_SUMMON_NAME_CHANGE),
     (TS_SC_SHOW_WINDOW_INFO, TS_SC_SHOW_WINDOW),
     (TS_SC_SKILLCARD_INFO_INFO, TS_SC_SKILLCARD_INFO),
     (TS_SC_SKILL_CASTING_TIME_INFO, TS_SC_SKILL_CASTING_TIME),
     (TS_SC_SKILL_LEVEL_LIST_INFO, TS_SC_SKILL_LEVEL_LIST),
     (TS_SC_SKILL_LIST_INFO, TS_SC_SKILL_LIST),
     (TS_SC_SKIN_INFO_INFO, TS_SC_SKIN_INFO),
     (TS_SC_SP_INFO, TS_SC_SP),
     (TS_SC_STATE_RESULT_INFO, TS_SC_STATE_RESULT),
     (TS_SC_STATUS_CHANGE_INFO, TS_SC_STATUS_CHANGE),
     (TS_SC_STAT_INFO_INFO, TS_SC_STAT_INFO),
     (TS_SC_SUMMON_EVOLUTION_INFO, TS_SC_SUMMON_EVOLUTION),
     (TS_SC_TAKE_ITEM_RESULT_INFO, TS_SC_TAKE_ITEM_RESULT),
     (TS_SC_TAMING_INFO_INFO, TS_SC_TAMING_INFO),
     (TS_SC_TARGET_INFO, TS_SC_TARGET),
     (TS_SC_TITLE_CONDITION_LIST_INFO, TS_SC_TITLE_CONDITION_LIST),
     (TS_SC_TITLE_LIST_INFO, TS_SC_TITLE_LIST),
     (TS_SC_UNMOUNT_SUMMON_INFO, TS_SC_UNMOUNT_SUMMON),
     (TS_SC_UNSUMMON_INFO, TS_SC_UNSUMMON),
     (TS_SC_UNSUMMON_NOTICE_INFO, TS_SC_UNSUMMON_NOTICE),
     (TS_SC_UNSUMMON_PET_INFO, TS_SC_UNSUMMON_PET),
     (TS_SC_UPDATE_GUILD_ICON_INFO, TS_SC_UPDATE_GUILD_ICON),
     (TS_SC_UPDATE_ITEM_COUNT_INFO, TS_SC_UPDATE_ITEM_COUNT),
     (TS_SC_URL_LIST_INFO, TS_SC_URL_LIST),
     (TS_SC_USE_ITEM_RESULT_INFO, TS_SC_USE_ITEM_RESULT),
     (TS_SC_WARP_INFO, TS_SC_WARP),
     (TS_SC_WEAR_INFO_INFO, TS_SC_WEAR_INFO),
     (TS_SC_WEATHER_INFO_INFO, TS_SC_WEATHER_INFO),
     (TS_SC_XTRAP_CHECK_INFO, TS_SC_XTRAP_CHECK),
     (TS_SECURITY_NO_INFO, TS_SECURITY_NO),
     (TS_TIMESYNC_INFO, TS_TIMESYNC)]"

lemmas gameServerPackets_defs = TS_EQUIP_SUMMON_def
  TS_SC_ACHIEVE_TITLE_def
  TS_SC_ADDED_SKILL_LIST_def
  TS_SC_ADD_PET_INFO_def
  TS_SC_ADD_SUMMON_INFO_def
  TS_SC_ANTI_HACK_def
  TS_SC_ATTACK_EVENT_def
  TS_SC_AURA_def
  TS_SC_BATTLE_ARENA_ABSENCE_CHECK_def
  TS_SC_BATTLE_ARENA_BATTLE_INFO_def
  TS_SC_BATTLE_ARENA_BATTLE_SCORE_def
  TS_SC_BATTLE_ARENA_BATTLE_STATUS_def
  TS_SC_BATTLE_ARENA_DISCONNECT_BATTLE_def
  TS_SC_BATTLE_ARENA_EXERCISE_READY_STATUS_def
  TS_SC_BATTLE_ARENA_JOIN_BATTLE_def
  TS_SC_BATTLE_ARENA_JOIN_QUEUE_def
  TS_SC_BATTLE_ARENA_LEAVE_def
  TS_SC_BATTLE_ARENA_PENALTY_INFO_def
  TS_SC_BATTLE_ARENA_RECONNECT_BATTLE_def
  TS_SC_BATTLE_ARENA_RESULT_def
  TS_SC_BATTLE_ARENA_UPDATE_WAIT_USER_COUNT_def
  TS_SC_BELT_SLOT_INFO_def
  TS_SC_BONUS_EXP_JP_def
  TS_SC_BOOKMARK_TITLE_def
  TS_SC_BOOTH_CLOSED_def
  TS_SC_CANT_ATTACK_def
  TS_SC_CHANGE_LOCATION_def
  TS_SC_CHANGE_NAME_def
  TS_SC_CHANGE_SECURITY_NO_def
  TS_SC_CHANGE_TITLE_CONDITION_def
  TS_SC_CHARACTER_LIST_def
  TS_SC_CHAT_LOCAL_def
  TS_SC_CHAT_RESULT_def
  TS_SC_CLEAR_SECURITY_NO_def
  TS_SC_COMMERCIAL_STORAGE_INFO_def
  TS_SC_COMMERCIAL_STORAGE_LIST_def
  TS_SC_COMPETE_ANSWER_def
  TS_SC_COMPETE_COUNTDOWN_def
  TS_SC_COMPETE_END_def
  TS_SC_COMPETE_REQUEST_def
  TS_SC_COMPETE_START_def
  TS_SC_CREATE_SECURITY_NO_def
  TS_SC_DEATHMATCH_RANKING_def
  TS_SC_DEATHMATCH_RANKING_OPEN_def
  TS_SC_DEATHMATCH_RANKING_REOPEN_def
  TS_SC_DECOMPOSE_RESULT_def
  TS_SC_DESTROY_ITEM_def
  TS_SC_DETECT_RANGE_UPDATE_def
  TS_SC_DIALOG_def
  TS_SC_DISCONNECT_DESC_def
  TS_SC_DOUBLE_WEAPON_ATTACK_EVENT_def
  TS_SC_DROP_RESULT_def
  TS_SC_EMOTION_def
  TS_SC_ENERGY_def
  TS_SC_ERASE_ITEM_def
  TS_SC_EXP_UPDATE_def
  TS_SC_GAME_GUARD_AUTH_QUERY_def
  TS_SC_GAME_TIME_def
  TS_SC_GENERAL_MESSAGE_BOX_def
  TS_SC_GET_BOOTHS_NAME_def
  TS_SC_GET_CHAOS_def
  TS_SC_GOLD_UPDATE_def
  TS_SC_HAIR_INFO_def
  TS_SC_HIDE_EQUIP_INFO_def
  TS_SC_HPMP_def
  TS_SC_HUNTAHOLIC_BEGIN_COUNTDOWN_def
  TS_SC_HUNTAHOLIC_BEGIN_HUNTING_def
  TS_SC_HUNTAHOLIC_HUNTING_SCORE_def
  TS_SC_HUNTAHOLIC_INSTANCE_INFO_def
  TS_SC_HUNTAHOLIC_INSTANCE_LIST_def
  TS_SC_HUNTAHOLIC_MAX_POINT_ACHIEVED_def
  TS_SC_HUNTAHOLIC_UPDATE_SCORE_def
  TS_SC_INSTANCE_GAME_SCORE_REQUEST_def
  TS_SC_ITEM_COOL_TIME_def
  TS_SC_ITEM_DROP_INFO_def
  TS_SC_ITEM_WEAR_INFO_def
  TS_SC_LEAVE_def
  TS_SC_LEVEL_UPDATE_def
  TS_SC_LOGIN_RESULT_def
  TS_SC_MIX_RESULT_def
  TS_SC_MOUNT_SUMMON_def
  TS_SC_MOVE_def
  TS_SC_MOVE_ACK_def
  TS_SC_NPC_TRADE_INFO_def
  TS_SC_OPEN_GUILD_WINDOW_def
  TS_SC_OPEN_ITEM_SHOP_def
  TS_SC_OPEN_PAID_STORAGE_def
  TS_SC_OPEN_STORAGE_def
  TS_SC_OPEN_TITLE_def
  TS_SC_OPEN_URL_def
  TS_SC_PARTYMATCH_LIST_def
  TS_SC_PARTYMATCH_MEMBER_def
  TS_SC_PROPERTY_def
  TS_SC_QUEST_INFOMATION_def
  TS_SC_QUEST_LIST_def
  TS_SC_QUEST_STATUS_def
  TS_SC_RAGE_def
  TS_SC_RANKING_TOP_RECORD_def
  TS_SC_REGEN_HPMP_def
  TS_SC_REGEN_INFO_def
  TS_SC_REGION_ACK_def
  TS_SC_REMAIN_TITLE_TIME_def
  TS_SC_REMOVE_PET_INFO_def
  TS_SC_REMOVE_SUMMON_INFO_def
  TS_SC_REQUEST_SECURITY_NO_def
  TS_SC_RESULT_FOSTER_def
  TS_SC_RESULT_NURSE_def
  TS_SC_RESULT_RETRIEVE_def
  TS_SC_SET_MAIN_TITLE_def
  TS_SC_SET_SUB_TITLE_def
  TS_SC_SET_TIME_def
  TS_SC_SHOW_CREATE_ALLIANCE_def
  TS_SC_SHOW_CREATE_GUILD_def
  TS_SC_SHOW_SET_PET_NAME_def
  TS_SC_SHOW_SOULSTONE_CRAFT_WINDOW_def
  TS_SC_SHOW_SOULSTONE_REPAIR_WINDOW_def
  TS_SC_SHOW_SUMMON_NAME_CHANGE_def
  TS_SC_SHOW_WINDOW_def
  TS_SC_SKILLCARD_INFO_def
  TS_SC_SKILL_CASTING_TIME_def
  TS_SC_SKILL_LEVEL_LIST_def
  TS_SC_SKILL_LIST_def
  TS_SC_SKIN_INFO_def
  TS_SC_SP_def
  TS_SC_STATE_RESULT_def
  TS_SC_STATUS_CHANGE_def
  TS_SC_STAT_INFO_def
  TS_SC_SUMMON_EVOLUTION_def
  TS_SC_TAKE_ITEM_RESULT_def
  TS_SC_TAMING_INFO_def
  TS_SC_TARGET_def
  TS_SC_TITLE_CONDITION_LIST_def
  TS_SC_TITLE_LIST_def
  TS_SC_UNMOUNT_SUMMON_def
  TS_SC_UNSUMMON_def
  TS_SC_UNSUMMON_NOTICE_def
  TS_SC_UNSUMMON_PET_def
  TS_SC_UPDATE_GUILD_ICON_def
  TS_SC_UPDATE_ITEM_COUNT_def
  TS_SC_URL_LIST_def
  TS_SC_USE_ITEM_RESULT_def
  TS_SC_WARP_def
  TS_SC_WEAR_INFO_def
  TS_SC_WEATHER_INFO_def
  TS_SC_XTRAP_CHECK_def
  TS_SECURITY_NO_def
  TS_TIMESYNC_def

end
