(* ===== verification/GameClientPackets.thy ===== *)
theory GameClientPackets
  imports GameStructs
begin

text \<open>
  The packets that the game clients send (librzu/src/packets/GameClient), as far as their lines
  depend on the version alone: one definition per packet, a field line per line of the header.
\<close>

definition TS_CS_ACCOUNT :: packet_decl where
  "TS_CS_ACCOUNT = Packet (idLines TS_CS_ACCOUNT_INFO)
     [StringF ''account'' 19,
      ArrayF (PrimT uint8_t) ''password'' 32]"

definition TS_CS_ACCOUNT_WITH_AUTH :: packet_decl where
  "TS_CS_ACCOUNT_WITH_AUTH = Packet (idLines TS_CS_ACCOUNT_WITH_AUTH_INFO)
     [When (since EPIC_9_6_6) (StringF ''account'' 64) None,
      When (between EPIC_5_2 EPIC_9_6_6) (StringF ''account'' 61) None,
      When (before EPIC_5_2) (StringF ''account'' 19) None,
      Simple (PrimT uint64_t) ''one_time_key'']"

definition TS_CS_ANTI_HACK :: packet_decl where
  "TS_CS_ANTI_HACK = Packet (idLines TS_CS_ANTI_HACK_INFO)
     [Simple (PrimT uint16_t) ''nLength'',
      ArrayF (PrimT uint8_t) ''byBuffer'' 400]"

definition TS_CS_ARRANGE_ITEM :: packet_decl where
  "TS_CS_ARRANGE_ITEM = Packet (idLines TS_CS_ARRANGE_ITEM_INFO)
     [Simple (PrimT uint8_t) ''bIsStorage'']"

definition TS_CS_ATTACK_REQUEST :: packet_decl where
  "TS_CS_ATTACK_REQUEST = Packet (idLines TS_CS_ATTACK_REQUEST_INFO)
     [Simple (PrimT uint32_t) ''handle'',
      Simple (PrimT uint32_t) ''target_handle'']"

definition TS_CS_AUCTION_BID :: packet_decl where
  "TS_CS_AUCTION_BID = Packet (idLines TS_CS_AUCTION_BID_INFO)
     [Simple (PrimT int32_t) ''auction_uid'',
      Simple (PrimT int64_t) ''price'']"

definition TS_CS_AUCTION_BIDDED_LIST :: packet_decl where
  "TS_CS_AUCTION_BIDDED_LIST = Packet (idLines TS_CS_AUCTION_BIDDED_LIST_INFO)
     [Simple (PrimT int32_t) ''page_num'']"

definition TS_CS_AUCTION_CANCEL :: packet_decl where
  "TS_CS_AUCTION_CANCEL = Packet (idLines TS_CS_AUCTION_CANCEL_INFO)
     [Simple (PrimT uint32_t) ''auction_uid'']"

definition TS_CS_AUCTION_INSTANT_PURCHASE :: packet_decl where
  "TS_CS_AUCTION_INSTANT_PURCHASE = Packet (idLines TS_CS_AUCTION_INSTANT_PURCHASE_INFO)
     [Simple (PrimT int32_t) ''auction_uid'']"

definition TS_CS_AUCTION_REGISTER :: packet_decl where
  "TS_CS_AUCTION_REGISTER = Packet (idLines TS_CS_AUCTION_REGISTER_INFO)
     [Simple (PrimT uint32_t) ''item_handle'',
      Simple (PrimT int32_t) ''item_count'',
      Simple (PrimT int64_t) ''start_price'',
      Simple (PrimT int64_t) ''instant_purchase_price'',
      Simple (PrimT uint8_t) ''duration_type'']"

definition TS_CS_AUCTION_SEARCH :: packet_decl where
  "TS_CS_AUCTION_SEARCH = Packet (idLines TS_CS_AUCTION_SEARCH_INFO)
     [Simple (PrimT int32_t) ''category_id'',
      Simple (PrimT int32_t) ''sub_category_id'',
      StringF ''keyword'' 31,
      Simple (PrimT int32_t) ''page_num'',
      When (since EPIC_7_2) (Simple (PrimT uint8_t) ''is_equipable'') None]"

definition TS_CS_AUCTION_SELLING_LIST :: packet_decl where
  "TS_CS_AUCTION_SELLING_LIST = Packet (idLines TS_CS_AUCTION_SELLING_LIST_INFO)
     [Simple (PrimT int32_t) ''page_num'']"

definition TS_CS_BATTLE_ARENA_ABSENCE_CHECK_ANSWER :: packet_decl where
  "TS_CS_BATTLE_ARENA_ABSENCE_CHECK_ANSWER = Packet (idLines TS_CS_BATTLE_ARENA_ABSENCE_CHECK_ANSWER_INFO)
     [Simple (PrimT uint8_t) ''bSuccess'']"

definition TS_CS_BATTLE_ARENA_ABSENCE_CHECK_REQUEST :: packet_decl where
  "TS_CS_BATTLE_ARENA_ABSENCE_CHECK_REQUEST = Packet (idLines TS_CS_BATTLE_ARENA_ABSENCE_CHECK_REQUEST_INFO)
     [Simple (PrimT uint32_t) ''hCheckTarget'']"

definition TS_CS_BATTLE_ARENA_ENTER_WHILE_COUNTDOWN :: packet_decl where
  "TS_CS_BATTLE_ARENA_ENTER_WHILE_COUNTDOWN = Packet (idLines TS_CS_BATTLE_ARENA_ENTER_WHILE_COUNTDOWN_INFO)
     []"

definition TS_CS_BATTLE_ARENA_EXERCISE_READY :: packet_decl where
  "TS_CS_BATTLE_ARENA_EXERCISE_READY = Packet (idLines TS_CS_BATTLE_ARENA_EXERCISE_READY_INFO)
     [Simple (PrimT uint8_t) ''bReady'']"

definition TS_CS_BATTLE_ARENA_EXERCISE_START :: packet_decl where
  "TS_CS_BATTLE_ARENA_EXERCISE_START = Packet (idLines TS_CS_BATTLE_ARENA_EXERCISE_START_INFO)
     []"

definition TS_CS_BATTLE_ARENA_JOIN_QUEUE :: packet_decl where
  "TS_CS_BATTLE_ARENA_JOIN_QUEUE = Packet (idLines TS_CS_BATTLE_ARENA_JOIN_QUEUE_INFO)
     [Simple (PrimT int32_t) ''nArenaID'']"

definition TS_CS_BATTLE_ARENA_LEAVE :: packet_decl where
  "TS_CS_BATTLE_ARENA_LEAVE = Packet (idLines TS_CS_BATTLE_ARENA_LEAVE_INFO)
     []"

definition TS_CS_BIND_SKILLCARD :: packet_decl where
  "TS_CS_BIND_SKILLCARD = Packet (idLines TS_CS_BIND_SKILLCARD_INFO)
     [Simple (PrimT uint32_t) ''item_handle'',
      Simple (PrimT uint32_t) ''target_handle'']"

definition TS_CS_BOOKMARK_TITLE :: packet_decl where
  "TS_CS_BOOKMARK_TITLE = Packet (idLines TS_CS_BOOKMARK_TITLE_INFO)
     [Simple (PrimT int32_t) ''code'']"

definition TS_CS_BUY_ITEM :: packet_decl where
  "TS_CS_BUY_ITEM = Packet (idLines TS_CS_BUY_ITEM_INFO)
     [Simple (PrimT int32_t) ''item_code'',
      When (since EPIC_4_1) (Simple (PrimT uint16_t) ''buy_count'') None,
      When (before EPIC_4_1) (Simple (PrimT uint8_t) ''buy_count'') None]"

definition TS_CS_CANCEL_ACTION :: packet_decl where
  "TS_CS_CANCEL_ACTION = Packet (idLines TS_CS_CANCEL_ACTION_INFO)
     [Simple (PrimT uint32_t) ''handle'']"

definition TS_CS_CHANGE_ALIAS :: packet_decl where
  "TS_CS_CHANGE_ALIAS = Packet (idLines TS_CS_CHANGE_ALIAS_INFO)
     [StringF ''alias'' 19]"

definition TS_CS_CHANGE_ITEM_POSITION :: packet_decl where
  "TS_CS_CHANGE_ITEM_POSITION = Packet (idLines TS_CS_CHANGE_ITEM_POSITION_INFO)
     [Simple (PrimT uint8_t) ''is_storage'',
      Simple (PrimT uint32_t) ''item_handle_1'',
      Simple (PrimT uint32_t) ''item_handle_2'']"

definition TS_CS_CHANGE_LOCATION :: packet_decl where
  "TS_CS_CHANGE_LOCATION = Packet (idLines TS_CS_CHANGE_LOCATION_INFO)
     [Simple (PrimT uint32_t) ''x'',
      Simple (PrimT uint32_t) ''y'']"

definition TS_CS_CHANGE_SECURITY_NO :: packet_decl where
  "TS_CS_CHANGE_SECURITY_NO = Packet (idLines TS_CS_CHANGE_SECURITY_NO_INFO)
     [ArrayF (PrimT uint8_t) ''security_no_old'' 19,
      ArrayF (PrimT uint8_t) ''security_no'' 19]"

definition TS_CS_CHANGE_SUMMON_NAME :: packet_decl where
  "TS_CS_CHANGE_SUMMON_NAME = Packet (idLines TS_CS_CHANGE_SUMMON_NAME_INFO)
     [When (before EPIC_9_6) (StringF ''name'' 19) None,
      When (since EPIC_9_6) (StringF ''name'' 20) None]"

definition TS_CS_CHARACTER_LIST :: packet_decl where
  "TS_CS_CHARACTER_LIST = Packet (idLines TS_CS_CHARACTER_LIST_INFO)
     [When (since EPIC_9_6) (StringF ''account'' 64) None,
      When (between EPIC_5_2 EPIC_9_6) (StringF ''account'' 61) None,
      When (before EPIC_5_2) (StringF ''account'' 19) None]"

definition TS_CS_CHECK_BOOTH_STARTABLE :: packet_decl where
  "TS_CS_CHECK_BOOTH_STARTABLE = Packet (idLines TS_CS_CHECK_BOOTH_STARTABLE_INFO)
     []"

definition TS_CS_CHECK_CHARACTER_NAME :: packet_decl where
  "TS_CS_CHECK_CHARACTER_NAME = Packet (idLines TS_CS_CHECK_CHARACTER_NAME_INFO)
     [When (before EPIC_9_6) (StringF ''name'' 19) None,
      When (since EPIC_9_6) (StringF ''name'' 20) None]"

definition TS_CS_CHECK_ILLEGAL_USER :: packet_decl where
  "TS_CS_CHECK_ILLEGAL_USER = Packet (idLines TS_CS_CHECK_ILLEGAL_USER_INFO)
     [Simple (PrimT uint32_t) ''log_code'']"

definition TS_CS_CLEAR_SECURITY_NO :: packet_decl where
  "TS_CS_CLEAR_SECURITY_NO = Packet (idLines TS_CS_CLEAR_SECURITY_NO_INFO)
     [ArrayF (PrimT uint8_t) ''password'' 19,
      ArrayF (PrimT uint8_t) ''security_no'' 19]"

definition TS_CS_COMPETE_ANSWER :: packet_decl where
  "TS_CS_COMPETE_ANSWER = Packet (idLines TS_CS_COMPETE_ANSWER_INFO)
     [Simple (PrimT int8_t) ''compete_type'',
      Simple (PrimT int8_t) ''answer_type'']"

definition TS_CS_COMPETE_REQUEST :: packet_decl where
  "TS_CS_COMPETE_REQUEST = Packet (idLines TS_CS_COMPETE_REQUEST_INFO)
     [Simple (PrimT int8_t) ''compete_type'',
      StringF ''requestee'' 31]"

definition TS_CS_CONTACT :: packet_decl where
  "TS_CS_CONTACT = Packet (idLines TS_CS_CONTACT_INFO)
     [Simple (PrimT uint32_t) ''handle'']"

definition TS_CS_CREATE_CHARACTER :: packet_decl where
  "TS_CS_CREATE_CHARACTER = Packet (idLines TS_CS_CREATE_CHARACTER_INFO)
     [Simple (StructT LOBBY_CHARACTER_INFO_DEF) ''character'']"

definition TS_CS_CREATE_SECURITY_NO :: packet_decl where
  "TS_CS_CREATE_SECURITY_NO = Packet (idLines TS_CS_CREATE_SECURITY_NO_INFO)
     [ArrayF (PrimT uint8_t) ''password'' 19,
      ArrayF (PrimT uint8_t) ''security_no'' 19]"

definition TS_CS_DECOMPOSE :: packet_decl where
  "TS_CS_DECOMPOSE = Packet (idLines TS_CS_DECOMPOSE_INFO)
     [Count uint32_t ''items'' False,
      DynArray (StructT TS_DECOMPOSE_ITEM_INFO_DEF) ''items'']"

definition TS_CS_DELETE_CHARACTER :: packet_decl where
  "TS_CS_DELETE_CHARACTER = Packet (idLines TS_CS_DELETE_CHARACTER_INFO)
     [When (since EPIC_9_6) (StringF ''name'' 40) None,
      When (between EPIC_8_1 EPIC_9_6) (StringF ''name'' 38) None,
      When (before EPIC_8_1) (StringF ''name'' 19) None]"

definition TS_CS_DIALOG :: packet_decl where
  "TS_CS_DIALOG = Packet (idLines TS_CS_DIALOG_INFO)
     [Count uint16_t ''trigger'' False,
      DynString ''trigger'' False]"

definition TS_CS_DONATE_ITEM :: packet_decl where
  "TS_CS_DONATE_ITEM = Packet (idLines TS_CS_DONATE_ITEM_INFO)
     [Simple (PrimT int64_t) ''gold'',
      When (since EPIC_6_2) (Simple (PrimT int32_t) ''jp'') None,
      Count int8_t ''items'' False,
      DynArray (StructT TS_DONATE_ITEM_INFO_DEF) ''items'']"

definition TS_CS_DONATE_REWARD :: packet_decl where
  "TS_CS_DONATE_REWARD = Packet (idLines TS_CS_DONATE_REWARD_INFO)
     [Count int8_t ''rewards'' False,
      DynArray (StructT TS_REWARD_INFO_DEF) ''rewards'']"

definition TS_CS_DROP_ITEM :: packet_decl where
  "TS_CS_DROP_ITEM = Packet (idLines TS_CS_DROP_ITEM_INFO)
     [Simple (PrimT uint32_t) ''item_handle'',
      When (since EPIC_4_1) (Simple (PrimT int32_t) ''count'') None,
      When (before EPIC_4_1) (Simple (PrimT uint16_t) ''count'') None]"

definition TS_CS_DROP_QUEST :: packet_decl where
  "TS_CS_DROP_QUEST = Packet (idLines TS_CS_DROP_QUEST_INFO)
     [Simple (PrimT int32_t) ''code'']"

definition TS_CS_EMOTION :: packet_decl where
  "TS_CS_EMOTION = Packet (idLines TS_CS_EMOTION_INFO)
     [Simple (PrimT int32_t) ''emotion'']"

definition TS_CS_END_QUEST :: packet_decl where
  "TS_CS_END_QUEST = Packet (idLines TS_CS_END_QUEST_INFO)
     [Simple (PrimT int32_t) ''code'',
      Simple (PrimT int8_t) ''nOptionalReward'']"

definition TS_CS_ENTER_EVENT_AREA :: packet_decl where
  "TS_CS_ENTER_EVENT_AREA = Packet (idLines TS_CS_ENTER_EVENT_AREA_INFO)
     [Simple (PrimT int32_t) ''event_area_id'',
      Simple (PrimT int32_t) ''area_index'']"

definition TS_CS_ERASE_ITEM :: packet_decl where
  "TS_CS_ERASE_ITEM = Packet (idLines TS_CS_ERASE_ITEM_INFO)
     [When (since EPIC_7_2) (Count int8_t ''items'' False) (Some (VNum 1)),
      DynArray (StructT TS_ERASE_ITEM_INFO_DEF) ''items'']"

definition TS_CS_FOSTER_CREATURE :: packet_decl where
  "TS_CS_FOSTER_CREATURE = Packet (idLines TS_CS_FOSTER_CREATURE_INFO)
     [Simple (PrimT uint32_t) ''creature_card_handle'',
      Count int32_t ''ticket_info'' False,
      Count int32_t ''cracker_info'' False,
      DynArray (StructT TS_TICKET_INFO_DEF) ''ticket_info'',
      DynArray (StructT TS_CRACKER_INFO_DEF) ''cracker_info'']"

definition TS_CS_GAME_GUARD_AUTH_ANSWER :: packet_decl where
  "TS_CS_GAME_GUARD_AUTH_ANSWER = Packet (idLines TS_CS_GAME_GUARD_AUTH_ANSWER_INFO)
     [Simple (StructT TS_GAME_GUARD_AUTH_DEF) ''auth'']"

definition TS_CS_GAME_TIME :: packet_decl where
  "TS_CS_GAME_TIME = Packet (idLines TS_CS_GAME_TIME_INFO)
     []"

definition TS_CS_GET_BOOTHS_NAME :: packet_decl where
  "TS_CS_GET_BOOTHS_NAME = Packet (idLines TS_CS_GET_BOOTHS_NAME_INFO)
     [Count int32_t ''handles'' False,
      DynArray (PrimT uint32_t) ''handles'']"

definition TS_CS_GET_REGION_INFO :: packet_decl where
  "TS_CS_GET_REGION_INFO = Packet (idLines TS_CS_GET_REGION_INFO_INFO)
     [Simple (PrimT uint32_t) ''x'',
      Simple (PrimT uint32_t) ''y'']"

definition TS_CS_GET_SUMMON_SETUP_INFO :: packet_decl where
  "TS_CS_GET_SUMMON_SETUP_INFO = Packet (idLines TS_CS_GET_SUMMON_SETUP_INFO_INFO)
     [Simple (PrimT uint8_t) ''show_dialog'']"

definition TS_CS_GET_WEATHER_INFO :: packet_decl where
  "TS_CS_GET_WEATHER_INFO = Packet (idLines TS_CS_GET_WEATHER_INFO_INFO)
     [Simple (PrimT uint32_t) ''region_id'']"

definition TS_CS_HIDE_EQUIP_INFO :: packet_decl where
  "TS_CS_HIDE_EQUIP_INFO = Packet (idLines TS_CS_HIDE_EQUIP_INFO_INFO)
     [Simple (PrimT uint32_t) ''nHideEquipFlag'']"

definition TS_CS_HUNTAHOLIC_BEGIN_HUNTING :: packet_decl where
  "TS_CS_HUNTAHOLIC_BEGIN_HUNTING = Packet (idLines TS_CS_HUNTAHOLIC_BEGIN_HUNTING_INFO)
     []"

definition TS_CS_HUNTAHOLIC_CREATE_INSTANCE :: packet_decl where
  "TS_CS_HUNTAHOLIC_CREATE_INSTANCE = Packet (idLines TS_CS_HUNTAHOLIC_CREATE_INSTANCE_INFO)
     [StringF ''name'' 31,
      Simple (PrimT int8_t) ''max_member_count'',
      StringF ''password'' 17]"

definition TS_CS_HUNTAHOLIC_INSTANCE_LIST :: packet_decl where
  "TS_CS_HUNTAHOLIC_INSTANCE_LIST = Packet (idLines TS_CS_HUNTAHOLIC_INSTANCE_LIST_INFO)
     [Simple (PrimT int32_t) ''page'']"

definition TS_CS_HUNTAHOLIC_JOIN_INSTANCE :: packet_decl where
  "TS_CS_HUNTAHOLIC_JOIN_INSTANCE = Packet (idLines TS_CS_HUNTAHOLIC_JOIN_INSTANCE_INFO)
     [Simple (PrimT int32_t) ''instance_no'',
      StringF ''password'' 17]"

definition TS_CS_HUNTAHOLIC_LEAVE_INSTANCE :: packet_decl where
  "TS_CS_HUNTAHOLIC_LEAVE_INSTANCE = Packet (idLines TS_CS_HUNTAHOLIC_LEAVE_INSTANCE_INFO)
     []"

definition TS_CS_HUNTAHOLIC_LEAVE_LOBBY :: packet_decl where
  "TS_CS_HUNTAHOLIC_LEAVE_LOBBY = Packet (idLines TS_CS_HUNTAHOLIC_LEAVE_LOBBY_INFO)
     []"

definition TS_CS_INSTANCE_GAME_ENTER :: packet_decl where
  "TS_CS_INSTANCE_GAME_ENTER = Packet (idLines TS_CS_INSTANCE_GAME_ENTER_INFO)
     [Simple (PrimT int32_t) ''instance_game_type'']"

definition TS_CS_INSTANCE_GAME_EXIT :: packet_decl where
  "TS_CS_INSTANCE_GAME_EXIT = Packet (idLines TS_CS_INSTANCE_GAME_EXIT_INFO)
     []"

definition TS_CS_INSTANCE_GAME_SCORE_REQUEST :: packet_decl where
  "TS_CS_INSTANCE_GAME_SCORE_REQUEST = Packet (idLines TS_CS_INSTANCE_GAME_SCORE_REQUEST_INFO)
     []"

definition TS_CS_ITEM_KEEPING_LIST :: packet_decl where
  "TS_CS_ITEM_KEEPING_LIST = Packet (idLines TS_CS_ITEM_KEEPING_LIST_INFO)
     [Simple (PrimT int32_t) ''page_num'']"

definition TS_CS_ITEM_KEEPING_TAKE :: packet_decl where
  "TS_CS_ITEM_KEEPING_TAKE = Packet (idLines TS_CS_ITEM_KEEPING_TAKE_INFO)
     [Simple (PrimT int32_t) ''keeping_uid'']"

definition TS_CS_JOB_LEVEL_UP :: packet_decl where
  "TS_CS_JOB_LEVEL_UP = Packet (idLines TS_CS_JOB_LEVEL_UP_INFO)
     [Simple (PrimT uint32_t) ''target'']"

definition TS_CS_LEARN_SKILL :: packet_decl where
  "TS_CS_LEARN_SKILL = Packet (idLines TS_CS_LEARN_SKILL_INFO)
     [Simple (PrimT uint32_t) ''target'',
      Simple (PrimT int32_t) ''skill_id'',
      When (since EPIC_8_2) (Simple (PrimT uint32_t) ''base_random_skill_id'') None,
      When (since EPIC_4_1_1) (Simple (PrimT int16_t) ''skill_level'') None]"

definition TS_CS_LEAVE_EVENT_AREA :: packet_decl where
  "TS_CS_LEAVE_EVENT_AREA = Packet (idLines TS_CS_LEAVE_EVENT_AREA_INFO)
     [Simple (PrimT int32_t) ''event_area_id'',
      Simple (PrimT int32_t) ''area_index'']"

definition TS_CS_LOGOUT :: packet_decl where
  "TS_CS_LOGOUT = Packet (idLines TS_CS_LOGOUT_INFO)
     []"

definition TS_CS_MIX :: packet_decl where
  "TS_CS_MIX = Packet (idLines TS_CS_MIX_INFO)
     [Simple (StructT TS_MIX_INFO_DEF) ''main_item'',
      Count uint16_t ''sub_items'' False,
      DynArray (StructT TS_MIX_INFO_DEF) ''sub_items'']"

definition TS_CS_MONSTER_RECOGNIZE :: packet_decl where
  "TS_CS_MONSTER_RECOGNIZE = Packet (idLines TS_CS_MONSTER_RECOGNIZE_INFO)
     [Simple (PrimT uint32_t) ''recognizer_handle'',
      Simple (PrimT uint32_t) ''monster_handle'']"

definition TS_CS_MOVE_REQUEST :: packet_decl where
  "TS_CS_MOVE_REQUEST = Packet (idLines TS_CS_MOVE_REQUEST_INFO)
     [Simple (PrimT uint32_t) ''handle'',
      Simple (PrimT uint32_t) ''x'',
      Simple (PrimT uint32_t) ''y'',
      Simple (PrimT uint32_t) ''cur_time'',
      Simple (PrimT uint8_t) ''speed_sync'',
      Count uint16_t ''move_infos'' False,
      DynArray (StructT MOVE_REQUEST_INFO_DEF) ''move_infos'',
      EndArray (PrimT uint8_t) ''dummy_padding'']"

definition TS_CS_NURSE_CREATURE :: packet_decl where
  "TS_CS_NURSE_CREATURE = Packet (idLines TS_CS_NURSE_CREATURE_INFO)
     [Simple (PrimT uint32_t) ''creature_card_handle'']"

definition TS_CS_OPEN_ITEM_SHOP :: packet_decl where
  "TS_CS_OPEN_ITEM_SHOP = Packet (idLines TS_CS_OPEN_ITEM_SHOP_INFO)
     []"

definition TS_CS_PARTYMATCH_ACTION :: packet_decl where
  "TS_CS_PARTYMATCH_ACTION = Packet (idLines TS_CS_PARTYMATCH_ACTION_INFO)
     [Simple (PrimT int32_t) ''flag'',
      Simple (PrimT int32_t) ''page_num'',
      Simple (PrimT int32_t) ''index'',
      Simple (PrimT uint32_t) ''requested_group_id'',
      Simple (PrimT uint32_t) ''group_handle'',
      Simple (PrimT int16_t) ''zone'',
      Simple (PrimT int16_t) ''min_level'',
      Simple (PrimT int16_t) ''player_number'',
      Simple (PrimT uint16_t) ''max_player_number'',
      StringF ''description'' 32]"

definition TS_CS_PUTOFF_CARD :: packet_decl where
  "TS_CS_PUTOFF_CARD = Packet (idLines TS_CS_PUTOFF_CARD_INFO)
     [Simple (PrimT int8_t) ''position'']"

definition TS_CS_PUTOFF_ITEM :: packet_decl where
  "TS_CS_PUTOFF_ITEM = Packet (idLines TS_CS_PUTOFF_ITEM_INFO)
     [When (before EPIC_9_6_7) (Simple (PrimT int8_t) ''position'') None,
      Simple (PrimT uint32_t) ''target_handle'',
      When (since EPIC_9_6_7) (Simple (PrimT int32_t) ''position'') None]"

definition TS_CS_PUTON_CARD :: packet_decl where
  "TS_CS_PUTON_CARD = Packet (idLines TS_CS_PUTON_CARD_INFO)
     [When (before EPIC_9_6_7) (Simple (PrimT int8_t) ''position'') None,
      Simple (PrimT uint32_t) ''item_handle'',
      When (since EPIC_9_6_7) (Simple (PrimT int32_t) ''position'') None]"

definition TS_CS_PUTON_ITEM :: packet_decl where
  "TS_CS_PUTON_ITEM = Packet (idLines TS_CS_PUTON_ITEM_INFO)
     [When (before EPIC_9_6_7) (Simple (PrimT int8_t) ''position'') None,
      Simple (PrimT uint32_t) ''item_handle'',
      Simple (PrimT uint32_t) ''target_handle'',
      When (since EPIC_9_6_7) (Simple (PrimT int8_t) ''position'') None]"

definition TS_CS_PUTON_ITEM_SET :: packet_decl where
  "TS_CS_PUTON_ITEM_SET = Packet (idLines TS_CS_PUTON_ITEM_SET_INFO)
     [When (since EPIC_4_1) (ArrayF (PrimT uint32_t) ''handle'' 24) None,
      When (before EPIC_4_1) (ArrayF (PrimT uint32_t) ''handle'' 14) None]"

definition TS_CS_QUERY :: packet_decl where
  "TS_CS_QUERY = Packet (idLines TS_CS_QUERY_INFO)
     [Simple (PrimT uint32_t) ''handle'']"

definition TS_CS_QUEST_INFO :: packet_decl where
  "TS_CS_QUEST_INFO = Packet (idLines TS_CS_QUEST_INFO_INFO)
     [Simple (PrimT int32_t) ''code'']"

definition TS_CS_RANKING_TOP_RECORD :: packet_decl where
  "TS_CS_RANKING_TOP_RECORD = Packet (idLines TS_CS_RANKING_TOP_RECORD_INFO)
     [Simple (PrimT int8_t) ''ranking_type'']"

definition TS_CS_REGION_UPDATE :: packet_decl where
  "TS_CS_REGION_UPDATE = Packet (idLines TS_CS_REGION_UPDATE_INFO)
     [Simple (PrimT uint32_t) ''update_time'',
      Simple (PrimT uint32_t) ''x'',
      Simple (PrimT uint32_t) ''y'',
      Simple (PrimT uint32_t) ''z'',
      Simple (PrimT uint8_t) ''bIsStopMessage'']"

definition TS_CS_REPAIR_SOULSTONE :: packet_decl where
  "TS_CS_REPAIR_SOULSTONE = Packet (idLines TS_CS_REPAIR_SOULSTONE_INFO)
     [ArrayF (PrimT uint32_t) ''item_handle'' 6]"

definition TS_CS_REPORT :: packet_decl where
  "TS_CS_REPORT = Packet (idLines TS_CS_REPORT_INFO)
     [Count uint16_t ''report'' False,
      DynString ''report'' False]"

definition TS_CS_REQUEST :: packet_decl where
  "TS_CS_REQUEST = Packet (idLines TS_CS_REQUEST_INFO)
     [Simple (PrimT uint8_t) ''t'',
      EndString ''command'' True]"

definition TS_CS_REQUEST_CLEAR_SECURITY_NO :: packet_decl where
  "TS_CS_REQUEST_CLEAR_SECURITY_NO = Packet (idLines TS_CS_REQUEST_CLEAR_SECURITY_NO_INFO)
     []"

definition TS_CS_REQUEST_FARM_INFO :: packet_decl where
  "TS_CS_REQUEST_FARM_INFO = Packet (idLines TS_CS_REQUEST_FARM_INFO_INFO)
     []"

definition TS_CS_REQUEST_FARM_MARKET :: packet_decl where
  "TS_CS_REQUEST_FARM_MARKET = Packet (idLines TS_CS_REQUEST_FARM_MARKET_INFO)
     []"

definition TS_CS_REQUEST_LOGOUT :: packet_decl where
  "TS_CS_REQUEST_LOGOUT = Packet (idLines TS_CS_REQUEST_LOGOUT_INFO)
     []"

definition TS_CS_REQUEST_REMOVE_STATE :: packet_decl where
  "TS_CS_REQUEST_REMOVE_STATE = Packet (idLines TS_CS_REQUEST_REMOVE_STATE_INFO)
     [Simple (PrimT uint32_t) ''target'',
      Simple (PrimT int32_t) ''state_code'']"

definition TS_CS_REQUEST_RETURN_LOBBY :: packet_decl where
  "TS_CS_REQUEST_RETURN_LOBBY = Packet (idLines TS_CS_REQUEST_RETURN_LOBBY_INFO)
     []"

definition TS_CS_REQUEST_SECURITY_NO_CHANGE :: packet_decl where
  "TS_CS_REQUEST_SECURITY_NO_CHANGE = Packet (idLines TS_CS_REQUEST_SECURITY_NO_CHANGE_INFO)
     []"

definition TS_CS_RESURRECTION :: packet_decl where
  "TS_CS_RESURRECTION = Packet (idLines TS_CS_RESURRECTION_INFO)
     [When (since EPIC_4_1) (Simple (PrimT uint32_t) ''handle'') None,
      When (since EPIC_6_1) (Simple (PrimT int8_t) ''type'') None,
      When (before EPIC_6_1) (Simple (PrimT uint8_t) ''use_state'') None,
      When (between EPIC_4_1 EPIC_6_1) (Simple (PrimT uint8_t) ''use_potion'') None]"

definition TS_CS_RETRIEVE_CREATURE :: packet_decl where
  "TS_CS_RETRIEVE_CREATURE = Packet (idLines TS_CS_RETRIEVE_CREATURE_INFO)
     [Simple (PrimT uint32_t) ''creature_card_handle'']"

definition TS_CS_RETURN_LOBBY :: packet_decl where
  "TS_CS_RETURN_LOBBY = Packet (idLines TS_CS_RETURN_LOBBY_INFO)
     []"

definition TS_CS_SELL_ITEM :: packet_decl where
  "TS_CS_SELL_ITEM = Packet (idLines TS_CS_SELL_ITEM_INFO)
     [Simple (PrimT uint32_t) ''handle'',
      When (since EPIC_8_2) (Simple (PrimT int64_t) ''sell_count'') None,
      When (between EPIC_4_1 EPIC_8_2) (Simple (PrimT uint16_t) ''sell_count'') None,
      When (before EPIC_4_1) (Simple (PrimT uint8_t) ''sell_count'') None]"

definition TS_CS_SELL_TO_BOOTH :: packet_decl where
  "TS_CS_SELL_TO_BOOTH = Packet (idLines TS_CS_SELL_TO_BOOTH_INFO)
     [Simple (PrimT uint32_t) ''target'',
      Simple (PrimT uint32_t) ''item_handle'',
      Simple (PrimT int32_t) ''cnt'']"

definition TS_CS_SET_MAIN_TITLE :: packet_decl where
  "TS_CS_SET_MAIN_TITLE = Packet (idLines TS_CS_SET_MAIN_TITLE_INFO)
     [Simple (PrimT int32_t) ''code'']"

definition TS_CS_SET_PET_NAME :: packet_decl where
  "TS_CS_SET_PET_NAME = Packet (idLines TS_CS_SET_PET_NAME_INFO)
     [Simple (PrimT uint32_t) ''handle'',
      When (before EPIC_9_6) (StringF ''name'' 19) None,
      When (since EPIC_9_6) (StringF ''name'' 20) None]"

definition TS_CS_SET_PROPERTY :: packet_decl where
  "TS_CS_SET_PROPERTY = Packet (idLines TS_CS_SET_PROPERTY_INFO)
     [StringF ''name'' 16,
      EndString ''string_value'' True]"

definition TS_CS_SET_SUB_TITLE :: packet_decl where
  "TS_CS_SET_SUB_TITLE = Packet (idLines TS_CS_SET_SUB_TITLE_INFO)
     [Simple (PrimT int32_t) ''index'',
      Simple (PrimT int32_t) ''code'']"

definition TS_CS_SKILL :: packet_decl where
  "TS_CS_SKILL = Packet (idLines TS_CS_SKILL_INFO)
     [Simple (PrimT uint16_t) ''skill_id'',
      Simple (PrimT uint32_t) ''caster'',
      Simple (PrimT uint32_t) ''target'',
      Simple (PrimT uint32_t) ''x'',
      Simple (PrimT uint32_t) ''y'',
      Simple (PrimT uint32_t) ''z'',
      Simple (PrimT int8_t) ''layer'',
      Simple (PrimT int8_t) ''skill_level'']"

definition TS_CS_SOULSTONE_CRAFT :: packet_decl where
  "TS_CS_SOULSTONE_CRAFT = Packet (idLines TS_CS_SOULSTONE_CRAFT_INFO)
     [Simple (PrimT uint32_t) ''craft_item_handle'',
      ArrayF (PrimT uint32_t) ''soulstone_handle'' 4]"

definition TS_CS_START_BOOTH :: packet_decl where
  "TS_CS_START_BOOTH = Packet (idLines TS_CS_START_BOOTH_INFO)
     [StringF ''name'' 49,
      Simple (PrimT uint8_t) ''type'',
      Count uint16_t ''items'' False,
      DynArray (StructT TS_BOOTH_OPEN_ITEM_INFO_DEF) ''items'']"

definition TS_CS_STOP_BOOTH :: packet_decl where
  "TS_CS_STOP_BOOTH = Packet (idLines TS_CS_STOP_BOOTH_INFO)
     []"

definition TS_CS_STOP_WATCH_BOOTH :: packet_decl where
  "TS_CS_STOP_WATCH_BOOTH = Packet (idLines TS_CS_STOP_WATCH_BOOTH_INFO)
     [Simple (PrimT uint32_t) ''target'']"

definition TS_CS_STORAGE :: packet_decl where
  "TS_CS_STORAGE = Packet (idLines TS_CS_STORAGE_INFO)
     [Simple (PrimT uint32_t) ''item_handle'',
      Simple (PrimT int8_t) ''mode'',
      When (since EPIC_4_1_1) (Simple (PrimT int64_t) ''count'') None,
      When (before EPIC_4_1_1) (Simple (PrimT uint32_t) ''count'') None]"

definition TS_CS_SUMMON :: packet_decl where
  "TS_CS_SUMMON = Packet (idLines TS_CS_SUMMON_INFO)
     [Simple (PrimT int8_t) ''is_summon'',
      Simple (PrimT uint32_t) ''card_handle'']"

definition TS_CS_SUMMON_CARD_SKILL_LIST :: packet_decl where
  "TS_CS_SUMMON_CARD_SKILL_LIST = Packet (idLines TS_CS_SUMMON_CARD_SKILL_LIST_INFO)
     [Simple (PrimT uint32_t) ''item_handle'']"

definition TS_CS_SWAP_EQUIP :: packet_decl where
  "TS_CS_SWAP_EQUIP = Packet (idLines TS_CS_SWAP_EQUIP_INFO)
     []"

definition TS_CS_TAKEOUT_COMMERCIAL_ITEM :: packet_decl where
  "TS_CS_TAKEOUT_COMMERCIAL_ITEM = Packet (idLines TS_CS_TAKEOUT_COMMERCIAL_ITEM_INFO)
     [Simple (PrimT uint32_t) ''commercial_item_uid'',
      Simple (PrimT uint16_t) ''count'']"

definition TS_CS_TAKE_ITEM :: packet_decl where
  "TS_CS_TAKE_ITEM = Packet (idLines TS_CS_TAKE_ITEM_INFO)
     [When (since EPIC_5_2) (Simple (PrimT uint32_t) ''taker_handle'') None,
      Simple (PrimT uint32_t) ''item_handle'']"

definition TS_CS_TARGETING :: packet_decl where
  "TS_CS_TARGETING = Packet (idLines TS_CS_TARGETING_INFO)
     [Simple (PrimT uint32_t) ''target'']"

definition TS_CS_TRANSMIT_ETHEREAL_DURABILITY :: packet_decl where
  "TS_CS_TRANSMIT_ETHEREAL_DURABILITY = Packet (idLines TS_CS_TRANSMIT_ETHEREAL_DURABILITY_INFO)
     [Simple (PrimT uint32_t) ''handle'']"

definition TS_CS_TRANSMIT_ETHEREAL_DURABILITY_TO_EQUIPMENT :: packet_decl where
  "TS_CS_TRANSMIT_ETHEREAL_DURABILITY_TO_EQUIPMENT = Packet (idLines TS_CS_TRANSMIT_ETHEREAL_DURABILITY_TO_EQUIPMENT_INFO)
     [Simple (PrimT uint32_t) ''rate'',
      When (since EPIC_8_1) (Simple (PrimT int8_t) ''target'') (Some (VNum 0))]"

definition TS_CS_TURN_OFF_PK_MODE :: packet_decl where
  "TS_CS_TURN_OFF_PK_MODE = Packet (idLines TS_CS_TURN_OFF_PK_MODE_INFO)
     []"

definition TS_CS_TURN_ON_PK_MODE :: packet_decl where
  "TS_CS_TURN_ON_PK_MODE = Packet (idLines TS_CS_TURN_ON_PK_MODE_INFO)
     []"

definition TS_CS_UNBIND_SKILLCARD :: packet_decl where
  "TS_CS_UNBIND_SKILLCARD = Packet (idLines TS_CS_UNBIND_SKILLCARD_INFO)
     [Simple (PrimT uint32_t) ''item_handle'',
      Simple (PrimT uint32_t) ''target_handle'']"

definition TS_CS_UPDATE :: packet_decl where
  "TS_CS_UPDATE = Packet (idLines TS_CS_UPDATE_INFO)
     [Simple (PrimT uint32_t) ''handle'',
      When (since EPIC_9_2) (Simple (PrimT uint32_t) ''time'') (Some (VNum 0)),
      When (since EPIC_9_2) (Simple (PrimT uint32_t) ''epoch_time'') (Some (VNum 0))]"

definition TS_CS_USE_ITEM :: packet_decl where
  "TS_CS_USE_ITEM = Packet (idLines TS_CS_USE_ITEM_INFO)
     [Simple (PrimT uint32_t) ''item_handle'',
      Simple (PrimT uint32_t) ''target_handle'',
      When (since EPIC_4_1) (StringF ''szParameter'' 32) None]"

definition TS_CS_WATCH_BOOTH :: packet_decl where
  "TS_CS_WATCH_BOOTH = Packet (idLines TS_CS_WATCH_BOOTH_INFO)
     [Simple (PrimT uint32_t) ''target'']"

definition TS_CS_XTRAP_CHECK :: packet_decl where
  "TS_CS_XTRAP_CHECK = Packet (idLines TS_CS_XTRAP_CHECK_INFO)
     [ArrayF (PrimT uint8_t) ''pCheckBuffer'' 128]"

definition gameClientPackets :: "(packet_info \<times> packet_decl) list" where
  "gameClientPackets = [
     (TS_CS_ACCOUNT_INFO, TS_CS_ACCOUNT),
     (TS_CS_ACCOUNT_WITH_AUTH_INFO, TS_CS_ACCOUNT_WITH_AUTH),
     (TS_CS_ANTI_HACK_INFO, TS_CS_ANTI_HACK),
     (TS_CS_ARRANGE_ITEM_INFO, TS_CS_ARRANGE_ITEM),
     (TS_CS_ATTACK_REQUEST_INFO, TS_CS_ATTACK_REQUEST),
     (TS_CS_AUCTION_BID_INFO, TS_CS_AUCTION_BID),
     (TS_CS_AUCTION_BIDDED_LIST_INFO, TS_CS_AUCTION_BIDDED_LIST),
     (TS_CS_AUCTION_CANCEL_INFO, TS_CS_AUCTION_CANCEL),
     (TS_CS_AUCTION_INSTANT_PURCHASE_INFO, TS_CS_AUCTION_INSTANT_PURCHASE),
     (TS_CS_AUCTION_REGISTER_INFO, TS_CS_AUCTION_REGISTER),
     (TS_CS_AUCTION_SEARCH_INFO, TS_CS_AUCTION_SEARCH),
     (TS_CS_AUCTION_SELLING_LIST_INFO, TS_CS_AUCTION_SELLING_LIST),
     (TS_CS_BATTLE_ARENA_ABSENCE_CHECK_ANSWER_INFO, TS_CS_BATTLE_ARENA_ABSENCE_CHECK_ANSWER),
     (TS_CS_BATTLE_ARENA_ABSENCE_CHECK_REQUEST_INFO, TS_CS_BATTLE_ARENA_ABSENCE_CHECK_REQUEST),
     (TS_CS_BATTLE_ARENA_ENTER_WHILE_COUNTDOWN_INFO, TS_CS_BATTLE_ARENA_ENTER_WHILE_COUNTDOWN),
     (TS_CS_BATTLE_ARENA_EXERCISE_READY_INFO, TS_CS_BATTLE_ARENA_EXERCISE_READY),
     (TS_CS_BATTLE_ARENA_EXERCISE_START_INFO, TS_CS_BATTLE_ARENA_EXERCISE_START),
     (TS_CS_BATTLE_ARENA_JOIN_QUEUE_INFO, TS_CS_BATTLE_ARENA_JOIN_QUEUE),
     (TS_CS_BATTLE_ARENA_LEAVE_INFO, TS_CS_BATTLE_ARENA_LEAVE),
     (TS_CS_BIND_SKILLCARD_INFO, TS_CS_BIND_SKILLCARD),
     (TS_CS_BOOKMARK_TITLE_INFO, TS_CS_BOOKMARK_TITLE),
     (TS_CS_BUY_ITEM_INFO, TS_CS_BUY_ITEM),
     (TS_CS_CANCEL_ACTION_INFO, TS_CS_CANCEL_ACTION),
     (TS_CS_CHANGE_ALIAS_INFO, TS_CS_CHANGE_ALIAS),
     (TS_CS_CHANGE_ITEM_POSITION_INFO, TS_CS_CHANGE_ITEM_POSITION),
     (TS_CS_CHANGE_LOCATION_INFO, TS_CS_CHANGE_LOCATION),
     (TS_CS_CHANGE_SECURITY_NO_INFO, TS_CS_CHANGE_SECURITY_NO),
     (TS_CS_CHANGE_SUMMON_NAME_INFO, TS_CS_CHANGE_SUMMON_NAME),
     (TS_CS_CHARACTER_LIST_INFO, TS_CS_CHARACTER_LIST),
     (TS_CS_CHECK_BOOTH_STARTABLE_INFO, TS_CS_CHECK_BOOTH_STARTABLE),
     (TS_CS_CHECK_CHARACTER_NAME_INFO, TS_CS_CHECK_CHARACTER_NAME),
     (TS_CS_CHECK_ILLEGAL_USER_INFO, TS_CS_CHECK_ILLEGAL_USER),
     (TS_CS_CLEAR_SECURITY_NO_INFO, TS_CS_CLEAR_SECURITY_NO),
     (TS_CS_COMPETE_ANSWER_INFO, TS_CS_COMPETE_ANSWER),
     (TS_CS_COMPETE_REQUEST_INFO, TS_CS_COMPETE_REQUEST),
     (TS_CS_CONTACT_INFO, TS_CS_CONTACT),
     (TS_CS_CREATE_CHARACTER_INFO, TS_CS_CREATE_CHARACTER),
     (TS_CS_CREATE_SECURITY_NO_INFO, TS_CS_CREATE_SECURITY_NO),
     (TS_CS_DECOMPOSE_INFO, TS_CS_DECOMPOSE),
     (TS_CS_DELETE_CHARACTER_INFO, TS_CS_DELETE_CHARACTER),
     (TS_CS_DIALOG_INFO, TS_CS_DIALOG),
     (TS_CS_DONATE_ITEM_INFO, TS_CS_DONATE_ITEM),
     (TS_CS_DONATE_REWARD_INFO, TS_CS_DONATE_REWARD),
     (TS_CS_DROP_ITEM_INFO, TS_CS_DROP_ITEM),
     (TS_CS_DROP_QUEST_INFO, TS_CS_DROP_QUEST),
     (TS_CS_EMOTION_INFO, TS_CS_EMOTION),
     (TS_CS_END_QUEST_INFO, TS_CS_END_QUEST),
     (TS_CS_ENTER_EVENT_AREA_INFO, TS_CS_ENTER_EVENT_AREA),
     (TS_CS_ERASE_ITEM_INFO, TS_CS_ERASE_ITEM),
     (TS_CS_FOSTER_CREATURE_INFO, TS_CS_FOSTER_CREATURE),
     (TS_CS_GAME_GUARD_AUTH_ANSWER_INFO, TS_CS_GAME_GUARD_AUTH_ANSWER),
     (TS_CS_GAME_TIME_INFO, TS_CS_GAME_TIME),
     (TS_CS_GET_BOOTHS_NAME_INFO, TS_CS_GET_BOOTHS_NAME),
     (TS_CS_GET_REGION_INFO_INFO, TS_CS_GET_REGION_INFO),
     (TS_CS_GET_SUMMON_SETUP_INFO_INFO, TS_CS_GET_SUMMON_SETUP_INFO),
     (TS_CS_GET_WEATHER_INFO_INFO, TS_CS_GET_WEATHER_INFO),
     (TS_CS_HIDE_EQUIP_INFO_INFO, TS_CS_HIDE_EQUIP_INFO),
     (TS_CS_HUNTAHOLIC_BEGIN_HUNTING_INFO, TS_CS_HUNTAHOLIC_BEGIN_HUNTING),
     (TS_CS_HUNTAHOLIC_CREATE_INSTANCE_INFO, TS_CS_HUNTAHOLIC_CREATE_INSTANCE),
     (TS_CS_HUNTAHOLIC_INSTANCE_LIST_INFO, TS_CS_HUNTAHOLIC_INSTANCE_LIST),
     (TS_CS_HUNTAHOLIC_JOIN_INSTANCE_INFO, TS_CS_HUNTAHOLIC_JOIN_INSTANCE),
     (TS_CS_HUNTAHOLIC_LEAVE_INSTANCE_INFO, TS_CS_HUNTAHOLIC_LEAVE_INSTANCE),
     (TS_CS_HUNTAHOLIC_LEAVE_LOBBY_INFO, TS_CS_HUNTAHOLIC_LEAVE_LOBBY),
     (TS_CS_INSTANCE_GAME_ENTER_INFO, TS_CS_INSTANCE_GAME_ENTER),
     (TS_CS_INSTANCE_GAME_EXIT_INFO, TS_CS_INSTANCE_GAME_EXIT),
     (TS_CS_INSTANCE_GAME_SCORE_REQUEST_INFO, TS_CS_INSTANCE_GAME_SCORE_REQUEST),
     (TS_CS_ITEM_KEEPING_LIST_INFO, TS_CS_ITEM_KEEPING_LIST),
     (TS_CS_ITEM_KEEPING_TAKE_INFO, TS_CS_ITEM_KEEPING_TAKE),
     (TS_CS_JOB_LEVEL_UP_INFO, TS_CS_JOB_LEVEL_UP),
     (TS_CS_LEARN_SKILL_INFO, TS_CS_LEARN_SKILL),
     (TS_CS_LEAVE_EVENT_AREA_INFO, TS_CS_LEAVE_EVENT_AREA),
     (TS_CS_LOGOUT_INFO, TS_CS_LOGOUT),
     (TS_CS_MIX_INFO, TS_CS_MIX),
     (TS_CS_MONSTER_RECOGNIZE_INFO, TS_CS_MONSTER_RECOGNIZE),
     (TS_CS_MOVE_REQUEST_INFO, TS_CS_MOVE_REQUEST),
     (TS_CS_NURSE_CREATURE_INFO, TS_CS_NURSE_CREATURE),
     (TS_CS_OPEN_ITEM_SHOP_INFO, TS_CS_OPEN_ITEM_SHOP),
     (TS_CS_PARTYMATCH_ACTION_INFO, TS_CS_PARTYMATCH_ACTION),
     (TS_CS_PUTOFF_CARD_INFO, TS_CS_PUTOFF_CARD),
     (TS_CS_PUTOFF_ITEM_INFO, TS_CS_PUTOFF_ITEM),
     (TS_CS_PUTON_CARD_INFO, TS_CS_PUTON_CARD),
     (TS_CS_PUTON_ITEM_INFO, TS_CS_PUTON_ITEM),
     (TS_CS_PUTON_ITEM_SET_INFO, TS_CS_PUTON_ITEM_SET),
     (TS_CS_QUERY_INFO, TS_CS_QUERY),
     (TS_CS_QUEST_INFO_INFO, TS_CS_QUEST_INFO),
     (TS_CS_RANKING_TOP_RECORD_INFO, TS_CS_RANKING_TOP_RECORD),
     (TS_CS_REGION_UPDATE_INFO, TS_CS_REGION_UPDATE),
     (TS_CS_REPAIR_SOULSTONE_INFO, TS_CS_REPAIR_SOULSTONE),
     (TS_CS_REPORT_INFO, TS_CS_REPORT),
     (TS_CS_REQUEST_INFO, TS_CS_REQUEST),
     (TS_CS_REQUEST_CLEAR_SECURITY_NO_INFO, TS_CS_REQUEST_CLEAR_SECURITY_NO),
     (TS_CS_REQUEST_FARM_INFO_INFO, TS_CS_REQUEST_FARM_INFO),
     (TS_CS_REQUEST_FARM_MARKET_INFO, TS_CS_REQUEST_FARM_MARKET),
     (TS_CS_REQUEST_LOGOUT_INFO, TS_CS_REQUEST_LOGOUT),
     (TS_CS_REQUEST_REMOVE_STATE_INFO, TS_CS_REQUEST_REMOVE_STATE),
     (TS_CS_REQUEST_RETURN_LOBBY_INFO, TS_CS_REQUEST_RETURN_LOBBY),
     (TS_CS_REQUEST_SECURITY_NO_CHANGE_INFO, TS_CS_REQUEST_SECURITY_NO_CHANGE),
     (TS_CS_RESURRECTION_INFO, TS_CS_RESURRECTION),
     (TS_CS_RETRIEVE_CREATURE_INFO, TS_CS_RETRIEVE_CREATURE),
     (TS_CS_RETURN_LOBBY_INFO, TS_CS_RETURN_LOBBY),
     (TS_CS_SELL_ITEM_INFO, TS_CS_SELL_ITEM),
     (TS_CS_SELL_TO_BOOTH_INFO, TS_CS_SELL_TO_BOOTH),
     (TS_CS_SET_MAIN_TITLE_INFO, TS_CS_SET_MAIN_TITLE),
     (TS_CS_SET_PET_NAME_INFO, TS_CS_SET_PET_NAME),
     (TS_CS_SET_PROPERTY_INFO, TS_CS_SET_PROPERTY),
     (TS_CS_SET_SUB_TITLE_INFO, TS_CS_SET_SUB_TITLE),
     (TS_CS_SKILL_INFO, TS_CS_SKILL),
     (TS_CS_SOULSTONE_CRAFT_INFO, TS_CS_SOULSTONE_CRAFT),
     (TS_CS_START_BOOTH_INFO, TS_CS_START_BOOTH),
     (TS_CS_STOP_BOOTH_INFO, TS_CS_STOP_BOOTH),
     (TS_CS_STOP_WATCH_BOOTH_INFO, TS_CS_STOP_WATCH_BOOTH),
     (TS_CS_STORAGE_INFO, TS_CS_STORAGE),
     (TS_CS_SUMMON_INFO, TS_CS_SUMMON),
     (TS_CS_SUMMON_CARD_SKILL_LIST_INFO, TS_CS_SUMMON_CARD_SKILL_LIST),
     (TS_CS_SWAP_EQUIP_INFO, TS_CS_SWAP_EQUIP),
     (TS_CS_TAKEOUT_COMMERCIAL_ITEM_INFO, TS_CS_TAKEOUT_COMMERCIAL_ITEM),
     (TS_CS_TAKE_ITEM_INFO, TS_CS_TAKE_ITEM),
     (TS_CS_TARGETING_INFO, TS_CS_TARGETING),
     (TS_CS_TRANSMIT_ETHEREAL_DURABILITY_INFO, TS_CS_TRANSMIT_ETHEREAL_DURABILITY),
     (TS_CS_TRANSMIT_ETHEREAL_DURABILITY_TO_EQUIPMENT_INFO, TS_CS_TRANSMIT_ETHEREAL_DURABILITY_TO_EQUIPMENT),
     (TS_CS_TURN_OFF_PK_MODE_INFO, TS_CS_TURN_OFF_PK_MODE),
     (TS_CS_TURN_ON_PK_MODE_INFO, TS_CS_TURN_ON_PK_MODE),
     (TS_CS_UNBIND_SKILLCARD_INFO, TS_CS_UNBIND_SKILLCARD),
     (TS_CS_UPDATE_INFO, TS_CS_UPDATE),
     (TS_CS_USE_ITEM_INFO, TS_CS_USE_ITEM),
     (TS_CS_WATCH_BOOTH_INFO, TS_CS_WATCH_BOOTH),
     (TS_CS_XTRAP_CHECK_INFO, TS_CS_XTRAP_CHECK)]"

lemmas gameClientPackets_defs = TS_CS_ACCOUNT_def
  TS_CS_ACCOUNT_WITH_AUTH_def
  TS_CS_ANTI_HACK_def
  TS_CS_ARRANGE_ITEM_def
  TS_CS_ATTACK_REQUEST_def
  TS_CS_AUCTION_BID_def
  TS_CS_AUCTION_BIDDED_LIST_def
  TS_CS_AUCTION_CANCEL_def
  TS_CS_AUCTION_INSTANT_PURCHASE_def
  TS_CS_AUCTION_REGISTER_def
  TS_CS_AUCTION_SEARCH_def
  TS_CS_AUCTION_SELLING_LIST_def
  TS_CS_BATTLE_ARENA_ABSENCE_CHECK_ANSWER_def
  TS_CS_BATTLE_ARENA_ABSENCE_CHECK_REQUEST_def
  TS_CS_BATTLE_ARENA_ENTER_WHILE_COUNTDOWN_def
  TS_CS_BATTLE_ARENA_EXERCISE_READY_def
  TS_CS_BATTLE_ARENA_EXERCISE_START_def
  TS_CS_BATTLE_ARENA_JOIN_QUEUE_def
  TS_CS_BATTLE_ARENA_LEAVE_def
  TS_CS_BIND_SKILLCARD_def
  TS_CS_BOOKMARK_TITLE_def
  TS_CS_BUY_ITEM_def
  TS_CS_CANCEL_ACTION_def
  TS_CS_CHANGE_ALIAS_def
  TS_CS_CHANGE_ITEM_POSITION_def
  TS_CS_CHANGE_LOCATION_def
  TS_CS_CHANGE_SECURITY_NO_def
  TS_CS_CHANGE_SUMMON_NAME_def
  TS_CS_CHARACTER_LIST_def
  TS_CS_CHECK_BOOTH_STARTABLE_def
  TS_CS_CHECK_CHARACTER_NAME_def
  TS_CS_CHECK_ILLEGAL_USER_def
  TS_CS_CLEAR_SECURITY_NO_def
  TS_CS_COMPETE_ANSWER_def
  TS_CS_COMPETE_REQUEST_def
  TS_CS_CONTACT_def
  TS_CS_CREATE_CHARACTER_def
  TS_CS_CREATE_SECURITY_NO_def
  TS_CS_DECOMPOSE_def
  TS_CS_DELETE_CHARACTER_def
  TS_CS_DIALOG_def
  TS_CS_DONATE_ITEM_def
  TS_CS_DONATE_REWARD_def
  TS_CS_DROP_ITEM_def
  TS_CS_DROP_QUEST_def
  TS_CS_EMOTION_def
  TS_CS_END_QUEST_def
  TS_CS_ENTER_EVENT_AREA_def
  TS_CS_ERASE_ITEM_def
  TS_CS_FOSTER_CREATURE_def
  TS_CS_GAME_GUARD_AUTH_ANSWER_def
  TS_CS_GAME_TIME_def
  TS_CS_GET_BOOTHS_NAME_def
  TS_CS_GET_REGION_INFO_def
  TS_CS_GET_SUMMON_SETUP_INFO_def
  TS_CS_GET_WEATHER_INFO_def
  TS_CS_HIDE_EQUIP_INFO_def
  TS_CS_HUNTAHOLIC_BEGIN_HUNTING_def
  TS_CS_HUNTAHOLIC_CREATE_INSTANCE_def
  TS_CS_HUNTAHOLIC_INSTANCE_LIST_def
  TS_CS_HUNTAHOLIC_JOIN_INSTANCE_def
  TS_CS_HUNTAHOLIC_LEAVE_INSTANCE_def
  TS_CS_HUNTAHOLIC_LEAVE_LOBBY_def
  TS_CS_INSTANCE_GAME_ENTER_def
  TS_CS_INSTANCE_GAME_EXIT_def
  TS_CS_INSTANCE_GAME_SCORE_REQUEST_def
  TS_CS_ITEM_KEEPING_LIST_def
  TS_CS_ITEM_KEEPING_TAKE_def
  TS_CS_JOB_LEVEL_UP_def
  TS_CS_LEARN_SKILL_def
  TS_CS_LEAVE_EVENT_AREA_def
  TS_CS_LOGOUT_def
  TS_CS_MIX_def
  TS_CS_MONSTER_RECOGNIZE_def
  TS_CS_MOVE_REQUEST_def
  TS_CS_NURSE_CREATURE_def
  TS_CS_OPEN_ITEM_SHOP_def
  TS_CS_PARTYMATCH_ACTION_def
  TS_CS_PUTOFF_CARD_def
  TS_CS_PUTOFF_ITEM_def
  TS_CS_PUTON_CARD_def
  TS_CS_PUTON_ITEM_def
  TS_CS_PUTON_ITEM_SET_def
  TS_CS_QUERY_def
  TS_CS_QUEST_INFO_def
  TS_CS_RANKING_TOP_RECORD_def
  TS_CS_REGION_UPDATE_def
  TS_CS_REPAIR_SOULSTONE_def
  TS_CS_REPORT_def
  TS_CS_REQUEST_def
  TS_CS_REQUEST_CLEAR_SECURITY_NO_def
  TS_CS_REQUEST_FARM_INFO_def
  TS_CS_REQUEST_FARM_MARKET_def
  TS_CS_REQUEST_LOGOUT_def
  TS_CS_REQUEST_REMOVE_STATE_def
  TS_CS_REQUEST_RETURN_LOBBY_def
  TS_CS_REQUEST_SECURITY_NO_CHANGE_def
  TS_CS_RESURRECTION_def
  TS_CS_RETRIEVE_CREATURE_def
  TS_CS_RETURN_LOBBY_def
  TS_CS_SELL_ITEM_def
  TS_CS_SELL_TO_BOOTH_def
  TS_CS_SET_MAIN_TITLE_def
  TS_CS_SET_PET_NAME_def
  TS_CS_SET_PROPERTY_def
  TS_CS_SET_SUB_TITLE_def
  TS_CS_SKILL_def
  TS_CS_SOULSTONE_CRAFT_def
  TS_CS_START_BOOTH_def
  TS_CS_STOP_BOOTH_def
  TS_CS_STOP_WATCH_BOOTH_def
  TS_CS_STORAGE_def
  TS_CS_SUMMON_def
  TS_CS_SUMMON_CARD_SKILL_LIST_def
  TS_CS_SWAP_EQUIP_def
  TS_CS_TAKEOUT_COMMERCIAL_ITEM_def
  TS_CS_TAKE_ITEM_def
  TS_CS_TARGETING_def
  TS_CS_TRANSMIT_ETHEREAL_DURABILITY_def
  TS_CS_TRANSMIT_ETHEREAL_DURABILITY_TO_EQUIPMENT_def
  TS_CS_TURN_OFF_PK_MODE_def
  TS_CS_TURN_ON_PK_MODE_def
  TS_CS_UNBIND_SKILLCARD_def
  TS_CS_UPDATE_def
  TS_CS_USE_ITEM_def
  TS_CS_WATCH_BOOTH_def
  TS_CS_XTRAP_CHECK_def

end
