(* ===== verification/PacketCatalogue.thy ===== *)
theory PacketCatalogue
  imports PacketDispatch PacketTypes GameServerPackets GameClientPackets
begin

text \<open>
  All declared packets with their metadata: each declaration is well-formed and carries the ids of its
  metadata, so that what one end sends reaches the right handler of the other end and is parsed there as it
  was sent, and whatever is parsed is well-typed.
\<close>

section \<open>The declared packets\<close>

definition basicPackets :: "(packet_info \<times> packet_decl) list" where
  "basicPackets = [
     (TS_AC_ACCOUNT_NAME_INFO, TS_AC_ACCOUNT_NAME), (TS_AC_AES_KEY_IV_INFO, TS_AC_AES_KEY_IV),
     (TS_AC_RESULT_INFO, TS_AC_RESULT), (TS_AC_RESULT_WITH_STRING_INFO, TS_AC_RESULT_WITH_STRING),
     (TS_AC_SELECT_SERVER_INFO, TS_AC_SELECT_SERVER), (TS_AC_SERVER_LIST_INFO, TS_AC_SERVER_LIST),
     (TS_AC_UPDATE_PENDING_TIME_INFO, TS_AC_UPDATE_PENDING_TIME), (TS_CA_ACCOUNT_INFO, TS_CA_ACCOUNT),
     (TS_CA_DISTRIBUTION_INFO_INFO, TS_CA_DISTRIBUTION_INFO), (TS_CA_IMBC_ACCOUNT_INFO, TS_CA_IMBC_ACCOUNT),
     (TS_CA_OTP_ACCOUNT_INFO, TS_CA_OTP_ACCOUNT), (TS_CA_RSA_PUBLIC_KEY_INFO, TS_CA_RSA_PUBLIC_KEY),
     (TS_CA_SELECT_SERVER_INFO, TS_CA_SELECT_SERVER), (TS_CA_SERVER_LIST_INFO, TS_CA_SERVER_LIST),
     (TS_CA_VERSION_INFO, TS_CA_VERSION), (TS_CU_DOWNLOAD_ICON_INFO, TS_CU_DOWNLOAD_ICON),
     (TS_CU_LOGIN_INFO, TS_CU_LOGIN), (TS_CU_UPLOAD_INFO, TS_CU_UPLOAD),
     (TS_UC_DOWNLOAD_ICON_INFO, TS_UC_DOWNLOAD_ICON), (TS_UC_LOGIN_RESULT_INFO, TS_UC_LOGIN_RESULT),
     (TS_UC_UPLOAD_INFO, TS_UC_UPLOAD), (TS_CS_VERSION_INFO, TS_CS_VERSION), (TS_CS_LOGIN_INFO, TS_CS_LOGIN),
     (TS_SC_RESULT_INFO, TS_SC_RESULT), (TS_CS_CHAT_REQUEST_INFO, TS_CS_CHAT_REQUEST), (TS_SC_CHAT_INFO, TS_SC_CHAT)]"

definition declaredPackets :: "(packet_info \<times> packet_decl) list" where
  "declaredPackets = basicPackets @ gameServerPackets @ gameClientPackets"

lemmas basic_defs =
  TS_AC_ACCOUNT_NAME_def TS_AC_AES_KEY_IV_def TS_AC_RESULT_def TS_AC_RESULT_WITH_STRING_def
  TS_AC_SELECT_SERVER_def TS_AC_SERVER_LIST_def TS_AC_UPDATE_PENDING_TIME_def TS_CA_ACCOUNT_def
  TS_CA_DISTRIBUTION_INFO_def TS_CA_IMBC_ACCOUNT_def TS_CA_OTP_ACCOUNT_def TS_CA_RSA_PUBLIC_KEY_def
  TS_CA_SELECT_SERVER_def TS_CA_SERVER_LIST_def TS_CA_VERSION_def TS_CU_DOWNLOAD_ICON_def TS_CU_LOGIN_def
  TS_CU_UPLOAD_def TS_UC_DOWNLOAD_ICON_def TS_UC_LOGIN_RESULT_def TS_UC_UPLOAD_def TS_CS_VERSION_def
  TS_CS_LOGIN_def TS_SC_RESULT_def TS_CS_CHAT_REQUEST_def TS_SC_CHAT_def TS_SERVER_INFO_DEF_def
  TS_ACCOUNT_ADDITIONAL_INFO_DEF_def TS_ACCOUNT_PASSWORD_DES_DEF_def TS_ACCOUNT_PASSWORD_AES_DEF_def
  TS_IMBC_ACCOUNT_PASSWORD_PLAIN_DEF_def TS_IMBC_ACCOUNT_PASSWORD_AES_DEF_def
  TS_OTP_ACCOUNT_PASSWORD_PLAIN_DEF_def TS_OTP_ACCOUNT_PASSWORD_AES_DEF_def

lemma holds_eta: "holds Always = (\<lambda>_. True)" "holds (Since e) = since e" "holds (Before e) = before e"
    "holds (Both a b) = (\<lambda>v. holds a v \<and> holds b v)"
  by (simp_all add: fun_eq_iff)

lemma declared_ids: "(p, d) \<in> set declaredPackets \<Longrightarrow> pd_ids d = idLines p"
proof -
  have "list_all (\<lambda>(p, d). pd_ids d = idLines p) basicPackets"
    unfolding basicPackets_def by (simp add: basic_defs info_defs packetInfo_def idLines_def holds_eta)
  moreover have "list_all (\<lambda>(p, d). pd_ids d = idLines p) gameServerPackets"
    unfolding gameServerPackets_def by (simp add: gameServerPackets_defs)
  moreover have "list_all (\<lambda>(p, d). pd_ids d = idLines p) gameClientPackets"
    unfolding gameClientPackets_def by (simp add: gameClientPackets_defs)
  ultimately show "(p, d) \<in> set declaredPackets \<Longrightarrow> ?thesis" by (auto simp: declaredPackets_def list_all_iff)
qed

lemma declared_getId: "(p, d) \<in> set declaredPackets \<Longrightarrow> getPacketId d version = getInfoId p version"
proof -
  assume "(p, d) \<in> set declaredPackets"
  moreover have "foldl (\<lambda>r (c, i). if c version then Some i else r) r0 (map (\<lambda>(c, i). (holds c, i)) ids) =
      foldl (\<lambda>r (c, i). if holds c version then Some i else r) r0 ids" for r0 :: "u16 option" and ids
    by (induction ids arbitrary: r0) auto
  ultimately show ?thesis by (simp add: getPacketId_def getInfoId_def declared_ids idLines_def)
qed

text \<open>No struct member of a declared packet is set twice.\<close>

lemma declared_separate: "list_all (\<lambda>(p, d). separateFs (pd_fields d)) declaredPackets"
proof -
  have "list_all (\<lambda>(p, d). separateFs (pd_fields d)) basicPackets"
    unfolding basicPackets_def by (simp add: basic_defs)
  moreover have "list_all (\<lambda>(p, d). separateFs (pd_fields d)) gameServerPackets"
    unfolding gameServerPackets_def by (simp add: gameServerPackets_defs struct_defs)
  moreover have "list_all (\<lambda>(p, d). separateFs (pd_fields d)) gameClientPackets"
    unfolding gameClientPackets_def by (simp add: gameClientPackets_defs struct_defs)
  ultimately show ?thesis by (simp add: declaredPackets_def)
qed

lemma declared_wf: "(p, d) \<in> set declaredPackets \<Longrightarrow> wfFs ver (pd_fields d)"
  using declared_separate separate_wf(3) by (fastforce simp: list_all_iff)

section \<open>From one end to the handler of the other\<close>

text \<open>The \<open>id\<close> of a received \<open>TS_MESSAGE\<close>.\<close>

definition messageId :: "bytes \<Rightarrow> u16" where
  "messageId msg = from_le (take 2 (drop 4 msg))"

lemma messageId_packetBytes [simp]: "messageId (packetBytes d ver ob i) = i"
  by (simp add: messageId_def packetBytes_def packetHeader_def Let_def from_le_to_le)

lemma declared_served:
  assumes "(p, d) \<in> set declaredPackets" "p \<in> set catalogue"
  shows "\<exists>i. getPacketId d version = Some i \<and> getInfoId p version = Some i \<and> i \<noteq> 9999"
  using catalogue_ids [OF assms(2), of version] declared_getId [OF assms(1)] by auto

section \<open>Properties\<close>

text \<open>C32. A declared packet that one end of a session sends in some version, with values that survive the wire, is
  dispatched by its id to the handler of the same packet at the other end, and parsed there to the same members.\<close>

theorem packet_delivery:
  assumes "set ps = set catalogue" "\<And>s d. set (cases s d) = served s d"
    and "infos = [] \<or> infos = initPacketsInfo ps []"
    and "clientSession s" "origin \<noteq> AnyOrigin" "p \<in> served s origin" "(p, d) \<in> set declaredPackets"
    and "sendable d version ob" "canonical d version ob" "\<And>n. length (fresh n) = n"
  shows "\<exists>msg. sendPacket fresh d version ob = Some (Inr msg) \<and>
    fst (processPacketId cases ps s origin version (messageId msg) infos) = Called p \<and>
    processPacket d version msg = Some ob"
proof -
  obtain i where i: "getPacketId d version = Some i" "getInfoId p version = Some i" "i \<noteq> 9999"
    using declared_served [OF assms(7), of version] assms(6) by (auto simp: served_def)
  have "sendPacket fresh d version ob = Some (Inr (packetBytes d version ob i))"
    by (rule send_packetBytes [OF assms(8) i(1) assms(10)])
  moreover have "processPacket d version (packetBytes d version ob i) = Some ob"
    by (rule process_packetBytes [OF assms(8,9)])
  ultimately show ?thesis using dispatch_finds [OF assms(1-6) i(2,3)] by simp
qed

lemma server_list_served: "TS_AC_SERVER_LIST_INFO \<in> served AuthClientS ServerO"
  by (simp add: served_side clientSession_def sideOf_def authServerInfos_def)

theorem packet_delivery_witness:
  "\<exists>msg. sendPacket (\<lambda>n. replicate n 0xCD) TS_AC_SERVER_LIST EPIC_9_6_5 demo_list = Some (Inr msg) \<and>
    fst (processPacketId generatedCases catalogue AuthClientS ServerO EPIC_9_6_5 (messageId msg) []) =
      Called TS_AC_SERVER_LIST_INFO \<and>
    processPacket TS_AC_SERVER_LIST EPIC_9_6_5 msg = Some demo_list"
  by (rule packet_delivery [OF refl generatedCases_served _ _ _ server_list_served _ demo_sendable])
    (simp_all add: clientSession_def declaredPackets_def basicPackets_def)

text \<open>C33. Whatever bytes arrive as one of the declared packets, in any version: when the message is accepted, every member
  that is set has the type of a line that set it - a number in the range of its wire type, a fixed string without NUL
  that leaves room for one, a fixed array of the declared length, an object whose members are typed in the same way -
  or is the default of a line of another version.\<close>

theorem parsed_packet_typed:
  assumes "(p, d) \<in> set declaredPackets" "processPacket d ver msg = Some ob" "ob n = Some w"
  shows "typedFs ver (pd_fields d) n w"
  by (rule parsed_typed [OF declared_wf [OF assms(1)] assms(2,3)])

theorem parsed_packet_typed_witness:
  "typedFs EPIC_9_6_5 (pd_fields TS_AC_SERVER_LIST) ''servers'' (VList [demo_server_info])"
proof -
  obtain msg where m: "processPacket TS_AC_SERVER_LIST EPIC_9_6_5 msg = Some demo_list"
    using demo_list_sent by blast
  have d: "(TS_AC_SERVER_LIST_INFO, TS_AC_SERVER_LIST) \<in> set declaredPackets"
    by (simp add: declaredPackets_def basicPackets_def)
  show ?thesis by (rule parsed_packet_typed [OF d m]) (simp add: demo_list_def)
qed

end
