(* ===== verification/TextFormat.thy ===== *)
theory TextFormat
  imports Prelude
begin

text \<open>
  What the servers use of \<open>printf\<close>: decimal numbers with \<open>%d\<close>, \<open>%0nd\<close> and the fields of a broken-down time.
\<close>

abbreviation "CR \<equiv> CHR 0x0D"
abbreviation "LF \<equiv> CHR 0x0A"

text \<open>The broken-down time of \<open>Utils::getGmTime\<close>, with the full year and months from 1.\<close>

record tm_info =
  tm_year :: nat
  tm_mon :: nat
  tm_mday :: nat
  tm_hour :: nat
  tm_min :: nat
  tm_sec :: nat

fun decimal :: "nat \<Rightarrow> string" where
  "decimal n = (if n < 10 then [char_of (48 + n)] else decimal (n div 10) @ [char_of (48 + n mod 10)])"

declare decimal.simps [simp del]

definition zeroPad :: "nat \<Rightarrow> string \<Rightarrow> string" where
  "zeroPad width digits = replicate (width - length digits) (CHR ''0'') @ digits"

definition signedPad :: "nat \<Rightarrow> int \<Rightarrow> string" where
  "signedPad width v = (if v < 0 then CHR ''-'' # zeroPad (width - 1) (decimal (nat (- v))) else zeroPad width (decimal (nat v)))"

lemma decimal_length: "0 < k \<Longrightarrow> n < 10 ^ k \<Longrightarrow> length (decimal n) \<le> k"
proof (induction n arbitrary: k rule: decimal.induct)
  case (1 n)
  show ?case
  proof (cases "n < 10")
    case True
    then show ?thesis using 1 by (subst decimal.simps) simp
  next
    case False
    then have "k \<noteq> 1" using 1 by auto
    then obtain j where j: "k = Suc j" "0 < j" using 1 by (cases k) auto
    then have "n div 10 < 10 ^ j" using 1 by (simp add: less_mult_imp_div_less mult.commute)
    then have "length (decimal (n div 10)) \<le> j" using 1 False j by blast
    then show ?thesis using False j by (subst decimal.simps) simp
  qed
qed

lemma zeroPad_length: "n < 10 ^ w \<Longrightarrow> 0 < w \<Longrightarrow> length (zeroPad w (decimal n)) = w"
  using decimal_length [of w n] by (simp add: zeroPad_def)

end
