(* ===== verification/IconHttp.thy ===== *)
theory IconHttp
  imports TextFormat "HOL-Library.Char_ord"
begin

text \<open>
  The icon download server of rzauth (src/rzauth/src/UploadServer/IconServerSession.cpp): the byte-wise
  HTTP request parser, the extraction and check of the file name, and the response. The files of the
  upload directory are a map from names to contents; \<open>None\<close> as a result is an uncaught
  \<open>std::out_of_range\<close>.
\<close>

section \<open>File names\<close>

definition allowedChar :: "char \<Rightarrow> bool" where
  "allowedChar c \<longleftrightarrow>
     (CHR ''0'' \<le> c \<and> c \<le> CHR ''9'') \<or> (CHR ''A'' \<le> c \<and> c \<le> CHR ''Z'') \<or>
     (CHR ''a'' \<le> c \<and> c \<le> CHR ''z'') \<or> c = CHR ''_'' \<or> c = CHR ''.''"

fun checkName :: "string \<Rightarrow> bool" where
  "checkName [] = True"
| "checkName (c # cs) = (if \<not> allowedChar c then False else checkName cs)"

text \<open>The loop of \<open>parseUrl\<close> that looks for the last separator: \<open>p + 1\<close> when it stops.\<close>

definition isSeparator :: "char \<Rightarrow> bool" where
  "isSeparator c \<longleftrightarrow> c = CHR ''/'' \<or> c = CHR 0x5C \<or> c = CHR '':''"

fun lastSeparator :: "string \<Rightarrow> nat \<Rightarrow> nat" where
  "lastSeparator url 0 = 0"
| "lastSeparator url (Suc p) = (if isSeparator (url ! p) then Suc p else lastSeparator url p)"

datatype icon_action = NotFound | SendIcon string

definition parseUrl :: "string \<Rightarrow> icon_action" where
  "parseUrl url =
     (let p = lastSeparator url (length url)
      in if p \<ge> length url then NotFound
         else let filename = drop p url in if checkName filename then SendIcon filename else NotFound)"

section \<open>The request parser\<close>

datatype icon_status = WaitStatusLine | RetrievingStatusLine | WaitEndOfHeaders

record icon_session =
  ic_status :: icon_status
  ic_nextByteToMatch :: nat
  ic_url :: string
  ic_urlLength :: nat

definition newIconSession :: icon_session where
  "newIconSession = \<lparr>ic_status = WaitStatusLine, ic_nextByteToMatch = 0, ic_url = [], ic_urlLength = 0\<rparr>"


definition beginUrl :: string where "beginUrl = ''GET ''"
definition endHeader :: string where "endHeader = [CR, LF, CR, LF]"
definition httpVersion :: string where "httpVersion = '' HTTP/1.1''"

text \<open>The first half of an iteration: the state of the status line.\<close>

definition statusByte :: "char \<Rightarrow> icon_session \<Rightarrow> icon_session" where
  "statusByte c s =
     (case ic_status s of
        WaitStatusLine \<Rightarrow>
          (if c = beginUrl ! ic_nextByteToMatch s then
             (let n = ic_nextByteToMatch s + 1
              in if n \<ge> 4 then s\<lparr>ic_status := RetrievingStatusLine, ic_nextByteToMatch := 0\<rparr>
                 else s\<lparr>ic_nextByteToMatch := n\<rparr>)
           else s\<lparr>ic_nextByteToMatch := 0\<rparr>)
      | RetrievingStatusLine \<Rightarrow>
          (if c = CR \<or> c = LF then s\<lparr>ic_status := WaitEndOfHeaders\<rparr>
           else if CHR 0x20 \<le> c \<and> c \<le> CHR 0x7E \<and> ic_urlLength s < 255 then
             s\<lparr>ic_url := ic_url s @ [c], ic_urlLength := ic_urlLength s + 1\<rparr>
           else newIconSession)
      | WaitEndOfHeaders \<Rightarrow> s)"

text \<open>The second half: the end of the headers, where the request line is evaluated. The comparison starts at
  \<open>size() - 9\<close>, which is beyond the end of a shorter string.\<close>

definition headerByte :: "char \<Rightarrow> icon_session \<Rightarrow> (icon_session \<times> icon_action list) option" where
  "headerByte c s =
     (if ic_status s = WaitStatusLine then Some (s, [])
      else if c = endHeader ! ic_nextByteToMatch s then
        (let n = ic_nextByteToMatch s + 1
         in if n \<ge> 4 then
              (let url = ic_url s
               in if length url < 9 then None
                  else Some (newIconSession,
                    (if drop (length url - 9) url = httpVersion then [parseUrl (take (length url - 9) url)] else [])))
            else Some (s\<lparr>ic_nextByteToMatch := n\<rparr>, []))
      else Some (s\<lparr>ic_nextByteToMatch := 0\<rparr>, []))"

fun parseData :: "string \<Rightarrow> icon_session \<Rightarrow> (icon_session \<times> icon_action list) option" where
  "parseData [] s = Some (s, [])"
| "parseData (c # cs) s =
     (case headerByte c (statusByte c s) of None \<Rightarrow> None
      | Some (s', acts) \<Rightarrow> map_option (\<lambda>(s'', acts'). (s'', acts @ acts')) (parseData cs s'))"

text \<open>The bytes of each read of the socket.\<close>

fun iconReceived :: "string list \<Rightarrow> icon_session \<Rightarrow> (icon_session \<times> icon_action list) option" where
  "iconReceived [] s = Some (s, [])"
| "iconReceived (d # ds) s =
     (case parseData d s of None \<Rightarrow> None
      | Some (s', acts) \<Rightarrow> map_option (\<lambda>(s'', acts'). (s'', acts @ acts')) (iconReceived ds s'))"

section \<open>The response\<close>

definition crlf :: string where "crlf = [CR, LF]"

definition htmlNotFound :: string where
  "htmlNotFound = ''HTTP/1.1 404 Not Found'' @ crlf @ ''Content-Type: text/html'' @ crlf @ ''Content-Length: 22'' @ crlf @
     crlf @ ''<h1>404 Not Found</h1>''"

definition htmlFound :: "nat \<Rightarrow> string" where
  "htmlFound n = ''HTTP/1.1 200 Ok'' @ crlf @ ''Content-Type: image/jpeg'' @ crlf @ ''Content-Length: '' @ decimal n @ crlf @ crlf"

definition htmlFoundSize :: nat where
  "htmlFoundSize = 15 + 2 + 24 + 2 + 16 + 3 + 2 + 2"

text \<open>The \<open>fread\<close> loop, given how many bytes each call delivers: whether the last call returned any.\<close>

fun readLoop :: "nat list \<Rightarrow> nat \<Rightarrow> nat \<Rightarrow> nat \<Rightarrow> bool" where
  "readLoop pieces fileSize transferred nbrw =
     (if transferred < fileSize then
        (case pieces of [] \<Rightarrow> False
         | n # ns \<Rightarrow> (let n = min n (fileSize - transferred)
                    in if n \<le> 0 then False else readLoop ns fileSize (transferred + n) n))
      else nbrw > 0)"

declare readLoop.simps [simp del]

definition sendIcon :: "(string \<Rightarrow> string option) \<Rightarrow> nat list \<Rightarrow> string \<Rightarrow> string" where
  "sendIcon files pieces filename =
     (case files filename of
        None \<Rightarrow> htmlNotFound
      | Some content \<Rightarrow>
          (let fileSize = (if length content > 64000 then 64000 else length content)
           in if readLoop pieces fileSize 0 0 then htmlFound fileSize @ take fileSize content else htmlNotFound))"

definition iconResponse :: "(string \<Rightarrow> string option) \<Rightarrow> nat list \<Rightarrow> icon_action \<Rightarrow> string" where
  "iconResponse files pieces a = (case a of NotFound \<Rightarrow> htmlNotFound | SendIcon f \<Rightarrow> sendIcon files pieces f)"

section \<open>Lemmas\<close>

lemma checkName_all: "checkName s \<longleftrightarrow> list_all allowedChar s"
  by (induction s) auto

lemma parseData_append:
  "parseData (xs @ ys) s = (case parseData xs s of None \<Rightarrow> None
     | Some (s', acts) \<Rightarrow> map_option (\<lambda>(s'', acts'). (s'', acts @ acts')) (parseData ys s'))"
proof (induction xs arbitrary: s)
  case Nil
  then show ?case by (cases "parseData ys s") auto
next
  case (Cons c xs)
  show ?case
  proof (cases "headerByte c (statusByte c s)")
    case (Some r)
    obtain s1 a1 where r: "r = (s1, a1)" by fastforce
    show ?thesis
    proof (cases "parseData xs s1")
      case None
      then show ?thesis using Some r Cons by simp
    next
      case (Some r2)
      obtain s2 a2 where "r2 = (s2, a2)" by fastforce
      then show ?thesis
        using \<open>headerByte c (statusByte c s) = Some r\<close> Some r Cons by (cases "parseData ys s2") auto
    qed
  qed simp
qed

lemma iconReceived_concat: "iconReceived ds s = parseData (concat ds) s"
  by (induction ds arbitrary: s) (auto simp: parseData_append split: option.splits)

lemma parseUrl_confined: "parseUrl url = SendIcon f \<Longrightarrow> f \<noteq> [] \<and> list_all allowedChar f"
  by (auto simp: parseUrl_def Let_def checkName_all split: if_splits)

lemma parseData_confined: "parseData cs s = Some (s', acts) \<Longrightarrow> SendIcon f \<in> set acts \<Longrightarrow> f \<noteq> [] \<and> list_all allowedChar f"
proof (induction cs arbitrary: s acts)
  case (Cons c cs)
  then show ?case
    by (auto simp: headerByte_def Let_def parseUrl_confined split: option.splits if_splits dest: sym) (metis parseUrl_confined)+
qed simp

lemma pattern_simps [simp]:
  "beginUrl ! 0 = CHR ''G''" "beginUrl ! Suc 0 = CHR ''E''" "beginUrl ! 2 = CHR ''T''" "beginUrl ! 3 = CHR '' ''"
  "endHeader ! 0 = CR" "endHeader ! Suc 0 = LF" "endHeader ! 2 = CR" "endHeader ! 3 = LF"
  by (simp_all add: beginUrl_def endHeader_def numeral_eq_Suc)

abbreviation inUrl :: "string \<Rightarrow> icon_session" where
  "inUrl u \<equiv> \<lparr>ic_status = RetrievingStatusLine, ic_nextByteToMatch = 0, ic_url = u, ic_urlLength = length u\<rparr>"

abbreviation inHeaders :: "string \<Rightarrow> nat \<Rightarrow> icon_session" where
  "inHeaders u n \<equiv> \<lparr>ic_status = WaitEndOfHeaders, ic_nextByteToMatch = n, ic_url = u, ic_urlLength = length u\<rparr>"

definition printable :: "string \<Rightarrow> bool" where
  "printable p \<longleftrightarrow> list_all (\<lambda>c. CHR 0x20 \<le> c \<and> c \<le> CHR 0x7E) p"

definition headerLine :: "string \<Rightarrow> bool" where
  "headerLine l \<longleftrightarrow> l \<noteq> [] \<and> CR \<notin> set l \<and> LF \<notin> set l"

lemma not_printable [simp]: "\<not> CHR 0x20 \<le> CR" "\<not> CHR 0x20 \<le> LF"
  by (simp_all add: less_eq_char_def)

lemma begin_request: "parseData (''GET '' @ rest) newIconSession = parseData rest (inUrl [])"
  by (simp add: newIconSession_def statusByte_def headerByte_def Let_def option.map_ident numeral_2_eq_2 [symmetric]
      numeral_3_eq_3 [symmetric] case_prod_beta')

lemma read_url:
  "printable p \<Longrightarrow> length u + length p \<le> 255 \<Longrightarrow> parseData (p @ rest) (inUrl u) = parseData rest (inUrl (u @ p))"
proof (induction p arbitrary: u)
  case Nil
  then show ?case by simp
next
  case (Cons c p)
  then have c: "CHR 0x20 \<le> c" "c \<le> CHR 0x7E" "c \<noteq> CR" "c \<noteq> LF" "printable p" by (auto simp: printable_def)
  then show ?case
    using Cons.prems(2) Cons.IH [of "u @ [c]"]
    by (simp add: statusByte_def headerByte_def option.map_ident case_prod_beta')
qed

lemma end_status_line: "parseData (crlf @ rest) (inUrl u) = parseData rest (inHeaders u 2)"
  by (simp add: crlf_def statusByte_def headerByte_def Let_def option.map_ident case_prod_beta' numeral_2_eq_2)

lemma skip_line: "CR \<notin> set l \<Longrightarrow> parseData (l @ rest) (inHeaders u 0) = parseData rest (inHeaders u 0)"
  by (induction l) (auto simp: statusByte_def headerByte_def option.map_ident case_prod_beta')

lemma read_header: "headerLine l \<Longrightarrow> parseData (l @ crlf @ rest) (inHeaders u 2) = parseData rest (inHeaders u 2)"
proof -
  assume l: "headerLine l"
  then obtain c cs where cs: "l = c # cs" "c \<noteq> CR" "CR \<notin> set cs" by (cases l) (auto simp: headerLine_def)
  have "parseData (l @ crlf @ rest) (inHeaders u 2) = parseData (cs @ crlf @ rest) (inHeaders u 0)"
    using cs by (simp add: statusByte_def headerByte_def option.map_ident case_prod_beta')
  then show ?thesis
    using cs(3) by (simp add: skip_line)
      (simp add: crlf_def statusByte_def headerByte_def Let_def option.map_ident case_prod_beta' numeral_2_eq_2)
qed

lemma read_headers:
  "list_all headerLine ls \<Longrightarrow>
    parseData (concat (map (\<lambda>l. l @ crlf) ls) @ rest) (inHeaders u 2) = parseData rest (inHeaders u 2)"
  by (induction ls) (auto simp: read_header)

lemma end_headers:
  "parseData crlf (inHeaders u 2) =
     (if length u < 9 then None
      else Some (newIconSession, (if drop (length u - 9) u = httpVersion then [parseUrl (take (length u - 9) u)] else [])))"
  by (simp add: crlf_def statusByte_def headerByte_def Let_def numeral_3_eq_3 [symmetric])

text \<open>A request as a client sends it: the request line, header lines, an empty line.\<close>

definition httpRequest :: "string \<Rightarrow> string list \<Rightarrow> string" where
  "httpRequest line headers = ''GET '' @ line @ crlf @ concat (map (\<lambda>l. l @ crlf) headers) @ crlf"

lemma parse_request:
  assumes "printable line" "length line \<le> 255" "list_all headerLine headers"
  shows "parseData (httpRequest line headers) newIconSession =
    (if length line < 9 then None
     else Some (newIconSession, (if drop (length line - 9) line = httpVersion
       then [parseUrl (take (length line - 9) line)] else [])))"
proof -
  let ?h = "concat (map (\<lambda>l. l @ crlf) headers)"
  have "parseData (httpRequest line headers) newIconSession = parseData (line @ crlf @ ?h @ crlf) (inUrl [])"
    unfolding httpRequest_def by (rule begin_request)
  also have "\<dots> = parseData (crlf @ ?h @ crlf) (inUrl line)"
    using read_url [OF assms(1), of "[]"] assms(2) by simp
  also have "\<dots> = parseData (?h @ crlf) (inHeaders line 2)" by (rule end_status_line)
  also have "\<dots> = parseData crlf (inHeaders line 2)" by (rule read_headers [OF assms(3)])
  finally show ?thesis by (simp only: end_headers)
qed

section \<open>Properties\<close>

text \<open>C15. A well-formed GET request for an icon, received in any chunks, is answered exactly once, for the last
  component of its path, and leaves the session ready for the next request.\<close>

theorem icon_request_served:
  assumes "printable path" "length path \<le> 246" "list_all headerLine headers"
    and "concat ds = httpRequest (path @ httpVersion) headers"
  shows "iconReceived ds newIconSession = Some (newIconSession, [parseUrl path])"
proof -
  have v: "printable httpVersion" "length httpVersion = 9" by (simp_all add: printable_def httpVersion_def less_eq_char_def)
  then have "printable (path @ httpVersion)" using assms(1) by (simp add: printable_def)
  then show ?thesis
    using parse_request [of "path @ httpVersion" headers] assms v by (simp add: iconReceived_concat)
qed

theorem icon_request_served_witness:
  "iconReceived [take 7 (httpRequest (''/upload/a.jpg'' @ httpVersion) [''Host: rzu'']),
      drop 7 (httpRequest (''/upload/a.jpg'' @ httpVersion) [''Host: rzu''])] newIconSession =
    Some (newIconSession, [SendIcon ''a.jpg''])"
proof -
  have "iconReceived [take 7 (httpRequest (''/upload/a.jpg'' @ httpVersion) [''Host: rzu'']),
      drop 7 (httpRequest (''/upload/a.jpg'' @ httpVersion) [''Host: rzu''])] newIconSession =
    Some (newIconSession, [parseUrl ''/upload/a.jpg''])"
    by (rule icon_request_served [of _ "[''Host: rzu'']"])
      (simp_all add: printable_def headerLine_def less_eq_char_def del: httpRequest_def)
  moreover have "parseUrl ''/upload/a.jpg'' = SendIcon ''a.jpg''" by code_simp
  ultimately show ?thesis by simp
qed

text \<open>C16. Whatever bytes arrive, in whatever chunks, every file that is served has a non-empty name of letters,
  digits, underscores and dots: no separator, so it lies in the upload directory.\<close>

theorem icon_paths_confined:
  assumes "iconReceived ds s = Some (s', acts)" "SendIcon f \<in> set acts"
  shows "f \<noteq> [] \<and> list_all (\<lambda>c. allowedChar c \<and> \<not> isSeparator c) f"
proof -
  have "f \<noteq> [] \<and> list_all allowedChar f"
    using assms parseData_confined by (auto simp: iconReceived_concat)
  moreover have "\<not> isSeparator c" if "allowedChar c" for c
    using that by (auto simp: isSeparator_def allowedChar_def less_eq_char_def)
  ultimately show ?thesis by (auto simp: list_all_iff)
qed

theorem icon_paths_confined_witness:
  "\<exists>s' acts. iconReceived [httpRequest (''/../a.jpg'' @ httpVersion) []] newIconSession = Some (s', acts) \<and>
    SendIcon ''a.jpg'' \<in> set acts \<and> list_all (\<lambda>c. allowedChar c \<and> \<not> isSeparator c) ''a.jpg''"
proof -
  have run: "iconReceived [httpRequest (''/../a.jpg'' @ httpVersion) []] newIconSession = Some (newIconSession, [SendIcon ''a.jpg''])"
    by code_simp
  have "SendIcon ''a.jpg'' \<in> set [SendIcon ''a.jpg'']" by simp
  from icon_paths_confined [OF run this] show ?thesis using run by auto
qed

text \<open>A request whose line has fewer than 9 characters after GET makes the comparison with the HTTP version
  start beyond the end of the string: the exception is not caught and ends the server.\<close>

lemma icon_short_request_throws:
  assumes "printable line" "length line < 9" "list_all headerLine headers"
  shows "iconReceived [httpRequest line headers] newIconSession = None"
  using parse_request [of line headers] assms by simp

lemma icon_short_request_throws_witness: "iconReceived [httpRequest ''/'' []] newIconSession = None"
  by (rule icon_short_request_throws) (simp_all add: printable_def less_eq_char_def)

text \<open>The response never overruns the buffer of \<open>htmlFoundSize + 10 + fileSize\<close> bytes it is built in, with
  room for the terminating NUL of the header, and is the header with the right length followed by the
  first 64000 bytes of the file when all of them could be read.\<close>

lemma icon_response_fits:
  "case files f of
     None \<Rightarrow> sendIcon files pieces f = htmlNotFound
   | Some content \<Rightarrow> (let n = min 64000 (length content) in
       length (htmlFound n) + n < htmlFoundSize + 10 + n \<and>
       sendIcon files pieces f = (if readLoop pieces n 0 0 then htmlFound n @ take n content else htmlNotFound))"
proof -
  have d: "length (decimal n) < 13" if "n \<le> 64000" for n
    using decimal_length [of 5 n] that by simp
  show ?thesis
    by (auto simp: sendIcon_def Let_def htmlFound_def crlf_def htmlFoundSize_def min_def not_le d split: option.splits)
qed

end
