(* ===== verification/UploadServer.thy ===== *)
theory UploadServer
  imports IconHttp
begin

text \<open>
  The upload server of rzauth (src/rzauth/src/UploadServer): the pending upload requests a game server
  announces, the game server sessions, the client sessions that claim a request with its one-time
  password and send or fetch a guild icon, and the files of the upload directory. Requests and sessions
  are heap objects; following a dangling pointer is \<open>None\<close>. The creation time of a request is never read
  and is left out.
\<close>

section \<open>State\<close>

record upload_request =
  ur_gameServer :: nat
  ur_clientId :: u32
  ur_accountId :: u32
  ur_guildSid :: u32
  ur_oneTimePassword :: u32

datatype upload_out =
    UsLoginResult nat u16
  | UsRequestResult nat u16
  | UsUpload nat u32 u32 string
  | UcLoginResult nat u16
  | UcUpload nat u16
  | UcDownloadIcon nat u32 u32 string string string

record upload_state =
  us_nextAddr :: nat
  us_requests :: "nat \<Rightarrow> upload_request option"
  us_pending :: "(u32, nat) umap"
  us_servers :: "(string, nat) umap"
  us_games :: "nat \<Rightarrow> string option"
  us_clients :: "nat \<Rightarrow> nat option option"
  us_files :: "string \<Rightarrow> string option"
  us_sent :: "upload_out list"

definition newUploadState :: "(string \<Rightarrow> string option) \<Rightarrow> upload_state" where
  "newUploadState files = \<lparr>us_nextAddr = 0, us_requests = Map.empty, us_pending = [], us_servers = [],
     us_games = Map.empty, us_clients = Map.empty, us_files = files, us_sent = []\<rparr>"

abbreviation "RESULT_SUCCESS \<equiv> 0 :: u16"
abbreviation "RESULT_NOT_EXIST \<equiv> 1 :: u16"
abbreviation "RESULT_ACCESS_DENIED \<equiv> 6 :: u16"
abbreviation "RESULT_ALREADY_EXIST \<equiv> 9 :: u16"
abbreviation "RESULT_LIMIT_MAX \<equiv> 16 :: u16"
abbreviation "RESULT_INVALID_TEXT \<equiv> 19 :: u16"
abbreviation "RESULT_INVALID_ARGUMENT \<equiv> 28 :: u16"

definition upSend :: "upload_out \<Rightarrow> upload_state \<Rightarrow> upload_state" where
  "upSend m s = s\<lparr>us_sent := us_sent s @ [m]\<rparr>"

definition freeRequest :: "nat \<Rightarrow> upload_state \<Rightarrow> upload_state option" where
  "freeRequest r s = (case us_requests s r of None \<Rightarrow> None | Some _ \<Rightarrow> Some (s\<lparr>us_requests := (us_requests s)(r := None)\<rparr>))"

section \<open>Pending requests\<close>

text \<open>A request for a client that has one already only renews its password.\<close>

definition pushRequest :: "nat \<Rightarrow> u32 \<Rightarrow> u32 \<Rightarrow> u32 \<Rightarrow> u32 \<Rightarrow> upload_state \<Rightarrow> upload_state option" where
  "pushRequest g client account guild otp s =
     (let new = us_nextAddr s;
          req = \<lparr>ur_gameServer = g, ur_clientId = client, ur_accountId = account, ur_guildSid = guild, ur_oneTimePassword = otp\<rparr>;
          s = s\<lparr>us_nextAddr := new + 1, us_requests := (us_requests s)(new \<mapsto> req)\<rparr>
      in case um_find (us_pending s) client of
           None \<Rightarrow> Some (s\<lparr>us_pending := um_insert client new (us_pending s)\<rparr>)
         | Some old \<Rightarrow>
             (case us_requests s old of None \<Rightarrow> None
              | Some r \<Rightarrow> freeRequest new (s\<lparr>us_requests := (us_requests s)(old \<mapsto> r\<lparr>ur_oneTimePassword := otp\<rparr>)\<rparr>)))"

definition popRequest :: "u32 \<Rightarrow> u32 \<Rightarrow> u32 \<Rightarrow> u32 \<Rightarrow> string \<Rightarrow> upload_state \<Rightarrow> (nat option \<times> upload_state) option" where
  "popRequest client account guild otp serverName s =
     (case um_find (us_pending s) client of
        None \<Rightarrow> Some (None, s)
      | Some a \<Rightarrow>
          (case us_requests s a of None \<Rightarrow> None
           | Some r \<Rightarrow>
               if ur_accountId r = account \<and> ur_guildSid r = guild \<and> ur_oneTimePassword r = otp then
                 (case us_games s (ur_gameServer r) of None \<Rightarrow> None
                  | Some name \<Rightarrow>
                      if name = serverName then Some (Some a, s\<lparr>us_pending := um_erase client (us_pending s)\<rparr>)
                      else Some (None, s))
               else Some (None, s)))"

fun removeRequests :: "nat \<Rightarrow> (u32 \<times> nat) list \<Rightarrow> upload_state \<Rightarrow> upload_state option" where
  "removeRequests g [] s = Some s"
| "removeRequests g ((k, a) # es) s =
     (case us_requests s a of None \<Rightarrow> None
      | Some r \<Rightarrow>
          (if ur_gameServer r = g then
             (case freeRequest a (s\<lparr>us_pending := um_erase k (us_pending s)\<rparr>) of None \<Rightarrow> None | Some s' \<Rightarrow> removeRequests g es s')
           else removeRequests g es s))"

definition requestsRemoveServer :: "nat \<Rightarrow> upload_state \<Rightarrow> upload_state option" where
  "requestsRemoveServer g s = removeRequests g (us_pending s) s"

section \<open>Game server sessions\<close>

definition upGameConnected :: "upload_state \<Rightarrow> upload_state" where
  "upGameConnected s = s\<lparr>us_nextAddr := us_nextAddr s + 1, us_games := (us_games s)(us_nextAddr s \<mapsto> [])\<rparr>"

definition upGameClosed :: "nat \<Rightarrow> upload_state \<Rightarrow> upload_state option" where
  "upGameClosed g s =
     (case us_games s g of None \<Rightarrow> None
      | Some name \<Rightarrow>
          map_option (\<lambda>s. s\<lparr>us_games := (us_games s)(g := None)\<rparr>)
            (if name \<noteq> [] then requestsRemoveServer g (s\<lparr>us_servers := um_erase name (us_servers s)\<rparr>) else Some s))"

definition suLogin :: "nat \<Rightarrow> char list \<Rightarrow> upload_state \<Rightarrow> upload_state option" where
  "suLogin g server_name s =
     (case us_games s g of None \<Rightarrow> None
      | Some _ \<Rightarrow>
          let serverName = convertToString server_name 20
          in if \<not> checkName serverName then Some (upSend (UsLoginResult g RESULT_INVALID_TEXT) s)
             else if um_find (us_servers s) serverName = None then
               Some (upSend (UsLoginResult g RESULT_SUCCESS)
                 (s\<lparr>us_servers := um_insert serverName g (us_servers s), us_games := (us_games s)(g \<mapsto> serverName)\<rparr>))
             else Some (upSend (UsLoginResult g RESULT_ALREADY_EXIST) s))"

definition suRequestUpload :: "nat \<Rightarrow> u32 \<Rightarrow> u32 \<Rightarrow> u32 \<Rightarrow> u32 \<Rightarrow> upload_state \<Rightarrow> upload_state option" where
  "suRequestUpload g client account guild otp s =
     map_option (upSend (UsRequestResult g RESULT_SUCCESS)) (pushRequest g client account guild otp s)"

definition sendUploadResult :: "nat \<Rightarrow> u32 \<Rightarrow> u32 \<Rightarrow> string \<Rightarrow> upload_state \<Rightarrow> upload_state" where
  "sendUploadResult g guild fileSize fileName s =
     (let fileNameSize = unat (word_of_nat (length fileName) :: u8)
      in upSend (UsUpload g guild fileSize (take fileNameSize fileName)) s)"

section \<open>Client sessions\<close>

definition upClientConnected :: "upload_state \<Rightarrow> upload_state" where
  "upClientConnected s = s\<lparr>us_nextAddr := us_nextAddr s + 1, us_clients := (us_clients s)(us_nextAddr s \<mapsto> None)\<rparr>"

definition upClientClosed :: "nat \<Rightarrow> upload_state \<Rightarrow> upload_state option" where
  "upClientClosed c s =
     (case us_clients s c of None \<Rightarrow> None
      | Some req \<Rightarrow> map_option (\<lambda>s. s\<lparr>us_clients := (us_clients s)(c := None)\<rparr>)
          (case req of None \<Rightarrow> Some s | Some r \<Rightarrow> freeRequest r s))"

definition cuLogin :: "nat \<Rightarrow> u32 \<Rightarrow> u32 \<Rightarrow> u32 \<Rightarrow> u32 \<Rightarrow> char list \<Rightarrow> upload_state \<Rightarrow> upload_state option" where
  "cuLogin c client account guild otp raw_server_name s =
     (case us_clients s c of None \<Rightarrow> None
      | Some _ \<Rightarrow>
          (case popRequest client account guild otp (convertToString raw_server_name 31) s of None \<Rightarrow> None
           | Some (req, s) \<Rightarrow>
               Some (upSend (UcLoginResult c (if req \<noteq> None then RESULT_SUCCESS else RESULT_NOT_EXIST))
                 (s\<lparr>us_clients := (us_clients s)(c \<mapsto> req)\<rparr>))))"

definition checkJpegImage :: "string \<Rightarrow> bool" where
  "checkJpegImage data = (\<not> (length data < 2 \<or> data ! 0 \<noteq> CHR 0xFF \<or> data ! 1 \<noteq> CHR 0xD8))"

text \<open>\<open>"%s_%010d_%02d%02d%02d_%02d%02d%02d.jpg"\<close>, cut at 127 characters; the guild id is printed as a signed
  integer.\<close>

definition uploadFileName :: "string \<Rightarrow> u32 \<Rightarrow> tm_info \<Rightarrow> string" where
  "uploadFileName name guild t =
     take 127 (name @ ''_'' @ signedPad 10 (sint guild) @ ''_'' @
       zeroPad 2 (decimal (tm_year t mod 100)) @ zeroPad 2 (decimal (tm_mon t)) @ zeroPad 2 (decimal (tm_mday t)) @ ''_'' @
       zeroPad 2 (decimal (tm_hour t)) @ zeroPad 2 (decimal (tm_min t)) @ zeroPad 2 (decimal (tm_sec t)) @ ''.jpg'')"

text \<open>What the file system does with the upload: whether the file opens, and how many bytes are written.\<close>

record upload_env =
  ue_time :: tm_info
  ue_opens :: bool
  ue_written :: nat

definition storeUpload :: "upload_env \<Rightarrow> nat \<Rightarrow> nat \<Rightarrow> upload_request \<Rightarrow> u32 \<Rightarrow> string \<Rightarrow> string \<Rightarrow> upload_state \<Rightarrow>
    upload_state option" where
  "storeUpload env c a r file_length data name s =
     (let filename = uploadFileName name (ur_guildSid r) (ue_time env);
          (result, s) =
            (if \<not> ue_opens env then (RESULT_ACCESS_DENIED, s)
             else (let n = min (ue_written env) (unat file_length);
                       s = s\<lparr>us_files := (us_files s)(filename \<mapsto> take n data)\<rparr>
                   in if n = unat file_length then
                        (RESULT_SUCCESS, sendUploadResult (ur_gameServer r) (ur_guildSid r) file_length filename s)
                      else (RESULT_ACCESS_DENIED, s)))
      in map_option (\<lambda>s. upSend (UcUpload c result) (s\<lparr>us_clients := (us_clients s)(c \<mapsto> None)\<rparr>)) (freeRequest a s))"

text \<open>\<open>packetSize\<close> is the size of the packet, whose header and length field take 11 bytes; \<open>contents\<close> the bytes
  after them.\<close>

definition cuUpload :: "upload_env \<Rightarrow> nat \<Rightarrow> u32 \<Rightarrow> u32 \<Rightarrow> string \<Rightarrow> upload_state \<Rightarrow> upload_state option" where
  "cuUpload env c packetSize file_length contents s =
     (case us_clients s c of
        None \<Rightarrow> None
      | Some None \<Rightarrow> Some (upSend (UcUpload c RESULT_NOT_EXIST) s)
      | Some (Some a) \<Rightarrow>
          if uint file_length \<noteq> uint packetSize - 11 then Some (upSend (UcUpload c RESULT_INVALID_ARGUMENT) s)
          else if file_length > 64000 then Some (upSend (UcUpload c RESULT_LIMIT_MAX) s)
          else let data = take (unat file_length) contents
               in if \<not> checkJpegImage data then Some (upSend (UcUpload c RESULT_INVALID_ARGUMENT) s)
                  else (case us_requests s a of None \<Rightarrow> None
                    | Some r \<Rightarrow>
                        (case us_games s (ur_gameServer r) of None \<Rightarrow> None
                         | Some name \<Rightarrow>
                             if length name > 64 then Some (upSend (UcUpload c RESULT_INVALID_TEXT) s)
                             else storeUpload env c a r file_length data name s)))"

definition cuDownload :: "nat list \<Rightarrow> nat \<Rightarrow> u32 \<Rightarrow> string \<Rightarrow> char list \<Rightarrow> upload_state \<Rightarrow> upload_state" where
  "cuDownload pieces c guild_id guild_name file_name s =
     (let fileName = convertToString file_name 63
      in if \<not> checkName fileName then s
         else case us_files s fileName of
                None \<Rightarrow> s
              | Some content \<Rightarrow>
                  if length content > 64000 then s
                  else if \<not> readLoop pieces (length content) 0 0 then s
                  else upSend (UcDownloadIcon c guild_id (word_of_nat (length content)) guild_name file_name content) s)"

section \<open>The server\<close>

datatype upload_event =
    GameOpen
  | GameClose nat
  | SuLogin nat "char list"
  | SuRequestUpload nat u32 u32 u32 u32
  | ClientOpen
  | ClientClose nat
  | CuLogin nat u32 u32 u32 u32 "char list"
  | CuUpload upload_env nat u32 u32 string
  | CuDownload "nat list" nat u32 string "char list"

fun upload_step :: "upload_event \<Rightarrow> upload_state \<Rightarrow> upload_state option" where
  "upload_step GameOpen s = Some (upGameConnected s)"
| "upload_step (GameClose g) s = upGameClosed g s"
| "upload_step (SuLogin g name) s = suLogin g name s"
| "upload_step (SuRequestUpload g client account guild otp) s = suRequestUpload g client account guild otp s"
| "upload_step ClientOpen s = Some (upClientConnected s)"
| "upload_step (ClientClose c) s = upClientClosed c s"
| "upload_step (CuLogin c client account guild otp name) s = cuLogin c client account guild otp name s"
| "upload_step (CuUpload env c packetSize len contents) s = cuUpload env c packetSize len contents s"
| "upload_step (CuDownload pieces c guild name file) s = Some (cuDownload pieces c guild name file s)"

end
