(* ===== verification/UploadSpec.thy ===== *)
theory UploadSpec
  imports UploadServer
begin

text \<open>
  The invariant of the upload server, its preservation by every event, and the properties: safety under
  stated assumptions, the runs that break without them, the authentication of uploads and the round trip
  of an icon.
\<close>

section \<open>Invariant\<close>

text \<open>Every pending request is alive, filed under its client, and belongs to a live game server that has logged
  in; a request held by a client is alive, held once and not pending; every named session is registered;
  addresses are below the next one.\<close>

definition pending_inv :: "upload_state \<Rightarrow> bool" where
  "pending_inv s \<longleftrightarrow> um_wf (us_pending s) \<and>
     (\<forall>k a. um_find (us_pending s) k = Some a \<longrightarrow>
        (\<exists>r n. us_requests s a = Some r \<and> ur_clientId r = k \<and> us_games s (ur_gameServer r) = Some n \<and> n \<noteq> []))"

definition held_inv :: "upload_state \<Rightarrow> bool" where
  "held_inv s \<longleftrightarrow>
     (\<forall>c a. us_clients s c = Some (Some a) \<longrightarrow> us_requests s a \<noteq> None \<and> (\<forall>k. um_find (us_pending s) k \<noteq> Some a)) \<and>
     (\<forall>c c' a. us_clients s c = Some (Some a) \<longrightarrow> us_clients s c' = Some (Some a) \<longrightarrow> c = c')"

definition names_inv :: "upload_state \<Rightarrow> bool" where
  "names_inv s \<longleftrightarrow> um_wf (us_servers s) \<and>
     (\<forall>g n. us_games s g = Some n \<longrightarrow> checkName n \<and> length n \<le> 20 \<and> (n \<noteq> [] \<longrightarrow> um_find (us_servers s) n = Some g))"

definition fresh_inv :: "upload_state \<Rightarrow> bool" where
  "fresh_inv s \<longleftrightarrow> (\<forall>a. us_nextAddr s \<le> a \<longrightarrow> us_requests s a = None \<and> us_games s a = None \<and> us_clients s a = None)"

definition upload_inv :: "upload_state \<Rightarrow> bool" where
  "upload_inv s \<longleftrightarrow> pending_inv s \<and> held_inv s \<and> names_inv s \<and> fresh_inv s"

lemmas upload_invs = pending_inv_def held_inv_def names_inv_def fresh_inv_def

text \<open>Events that can happen, and what the peers are assumed to do: a game server logs in with a name before it
  requests uploads, and a client does not upload for a game server that has gone.\<close>

fun upload_ok :: "upload_event \<Rightarrow> upload_state \<Rightarrow> bool" where
  "upload_ok (GameClose g) s = (us_games s g \<noteq> None)"
| "upload_ok (SuLogin g name) s = (us_games s g \<noteq> None \<and> convertToString name 20 \<noteq> [])"
| "upload_ok (SuRequestUpload g client account guild otp) s = (case us_games s g of None \<Rightarrow> False | Some n \<Rightarrow> n \<noteq> [])"
| "upload_ok (ClientClose c) s = (us_clients s c \<noteq> None)"
| "upload_ok (CuLogin c client account guild otp name) s = (us_clients s c \<noteq> None)"
| "upload_ok (CuUpload env c packetSize len contents) s =
     (case us_clients s c of None \<Rightarrow> False | Some None \<Rightarrow> True
      | Some (Some a) \<Rightarrow> (case us_requests s a of None \<Rightarrow> True | Some r \<Rightarrow> us_games s (ur_gameServer r) \<noteq> None))"
| "upload_ok e s = True"

section \<open>Preservation\<close>

lemma upload_invI: "pending_inv s \<Longrightarrow> held_inv s \<Longrightarrow> names_inv s \<Longrightarrow> fresh_inv s \<Longrightarrow> upload_inv s"
  by (simp add: upload_inv_def)

lemma pending_invI:
  "um_wf (us_pending s) \<Longrightarrow> (\<And>k a. um_find (us_pending s) k = Some a \<Longrightarrow>
     \<exists>r n. us_requests s a = Some r \<and> ur_clientId r = k \<and> us_games s (ur_gameServer r) = Some n \<and> n \<noteq> []) \<Longrightarrow> pending_inv s"
  by (simp add: pending_inv_def)

lemma held_invI:
  "(\<And>c a. us_clients s c = Some (Some a) \<Longrightarrow> us_requests s a \<noteq> None \<and> (\<forall>k. um_find (us_pending s) k \<noteq> Some a)) \<Longrightarrow>
   (\<And>c c' a. us_clients s c = Some (Some a) \<Longrightarrow> us_clients s c' = Some (Some a) \<Longrightarrow> c = c') \<Longrightarrow> held_inv s"
  unfolding held_inv_def by blast

lemma pendingD: "upload_inv s \<Longrightarrow> um_find (us_pending s) k = Some a \<Longrightarrow>
    \<exists>r n. us_requests s a = Some r \<and> ur_clientId r = k \<and> us_games s (ur_gameServer r) = Some n \<and> n \<noteq> []"
  by (simp add: upload_inv_def pending_inv_def)

lemma heldD: "upload_inv s \<Longrightarrow> us_clients s c = Some (Some a) \<Longrightarrow> \<exists>r. us_requests s a = Some r"
  by (auto simp: upload_inv_def held_inv_def)

lemma nameD: "upload_inv s \<Longrightarrow> us_games s g = Some n \<Longrightarrow> checkName n \<and> length n \<le> 20"
  by (simp add: upload_inv_def names_inv_def)

lemma upSend_simps [simp]:
  "us_nextAddr (upSend m s) = us_nextAddr s" "us_requests (upSend m s) = us_requests s"
  "us_pending (upSend m s) = us_pending s" "us_servers (upSend m s) = us_servers s"
  "us_games (upSend m s) = us_games s" "us_clients (upSend m s) = us_clients s" "us_files (upSend m s) = us_files s"
  "us_sent (upSend m s) = us_sent s @ [m]"
  by (simp_all add: upSend_def)

lemma upload_inv_cong:
  "us_nextAddr t = us_nextAddr s \<Longrightarrow> us_requests t = us_requests s \<Longrightarrow> us_pending t = us_pending s \<Longrightarrow>
   us_servers t = us_servers s \<Longrightarrow> us_games t = us_games s \<Longrightarrow> us_clients t = us_clients s \<Longrightarrow>
   upload_inv t = upload_inv s"
  by (simp add: upload_inv_def upload_invs)

lemma upload_inv_send [simp]: "upload_inv (upSend m s) = upload_inv s"
  by (rule upload_inv_cong) simp_all

lemma freshD:
  "upload_inv s \<Longrightarrow> us_requests s (us_nextAddr s) = None \<and> us_games s (us_nextAddr s) = None \<and> us_clients s (us_nextAddr s) = None"
  by (simp add: upload_inv_def fresh_inv_def)

lemma invD: "upload_inv s \<Longrightarrow> pending_inv s" "upload_inv s \<Longrightarrow> held_inv s" "upload_inv s \<Longrightarrow> names_inv s"
    "upload_inv s \<Longrightarrow> fresh_inv s"
  by (simp_all add: upload_inv_def)

lemma game_connected_inv:
  assumes "upload_inv s"
  shows "upload_inv (upGameConnected s)"
proof (rule upload_invI)
  have f: "us_games s (us_nextAddr s) = None" using freshD [OF assms] by simp
  show "pending_inv (upGameConnected s)"
  proof (rule pending_invI)
    show "um_wf (us_pending (upGameConnected s))" using invD(1) [OF assms] by (simp add: pending_inv_def upGameConnected_def)
    fix k a assume "um_find (us_pending (upGameConnected s)) k = Some a"
    then obtain r n where r: "us_requests s a = Some r" "ur_clientId r = k" "us_games s (ur_gameServer r) = Some n" "n \<noteq> []"
      using pendingD [OF assms, of k a] by (auto simp: upGameConnected_def)
    then have "ur_gameServer r \<noteq> us_nextAddr s" using f by auto
    then show "\<exists>r n. us_requests (upGameConnected s) a = Some r \<and> ur_clientId r = k \<and>
        us_games (upGameConnected s) (ur_gameServer r) = Some n \<and> n \<noteq> []"
      using r by (simp add: upGameConnected_def)
  qed
  show "held_inv (upGameConnected s)"
    using invD(2) [OF assms] by (simp add: held_inv_def upGameConnected_def)
  show "names_inv (upGameConnected s)"
    using invD(3) [OF assms] by (simp add: names_inv_def upGameConnected_def)
  show "fresh_inv (upGameConnected s)"
    using invD(4) [OF assms] by (simp add: fresh_inv_def upGameConnected_def)
qed

lemma client_connected_inv:
  assumes "upload_inv s"
  shows "upload_inv (upClientConnected s)"
proof (rule upload_invI)
  show "pending_inv (upClientConnected s)"
    using invD(1) [OF assms] by (simp add: pending_inv_def upClientConnected_def)
  show "held_inv (upClientConnected s)"
    using invD(2) [OF assms] by (auto simp: held_inv_def upClientConnected_def)
  show "names_inv (upClientConnected s)"
    using invD(3) [OF assms] by (simp add: names_inv_def upClientConnected_def)
  show "fresh_inv (upClientConnected s)"
    using invD(4) [OF assms] by (simp add: fresh_inv_def upClientConnected_def)
qed

text \<open>Releasing a request that is not pending, with the session that holds it.\<close>

lemma release_ok:
  assumes inv: "upload_inv s" and c: "us_clients s c = Some (Some a)" and new: "v = None \<or> v = Some None"
  shows "\<exists>t. freeRequest a s = Some t \<and> upload_inv (t\<lparr>us_clients := (us_clients t)(c := v)\<rparr>)"
proof -
  obtain r where r: "us_requests s a = Some r" using heldD [OF inv c] by blast
  let ?t = "s\<lparr>us_requests := (us_requests s)(a := None)\<rparr>"
  let ?u = "?t\<lparr>us_clients := (us_clients ?t)(c := v)\<rparr>"
  have np: "um_find (us_pending s) k \<noteq> Some a" for k
    using invD(2) [OF inv] c unfolding held_inv_def by blast
  have "upload_inv ?u"
  proof (rule upload_invI)
    show "pending_inv ?u" using invD(1) [OF inv] np unfolding pending_inv_def by auto
    show "held_inv ?u" using invD(2) [OF inv] c new unfolding held_inv_def by (auto split: if_splits)
    show "names_inv ?u" using invD(3) [OF inv] by (simp add: names_inv_def)
    show "fresh_inv ?u"
      using invD(4) [OF inv] c by (auto simp: fresh_inv_def)
  qed
  then show ?thesis using r by (auto simp: freeRequest_def)
qed

lemma client_closed_ok:
  assumes inv: "upload_inv s" and c: "us_clients s c \<noteq> None"
  shows "\<exists>t. upClientClosed c s = Some t \<and> upload_inv t"
proof -
  obtain req where req: "us_clients s c = Some req" using c by blast
  show ?thesis
  proof (cases req)
    case (Some a)
    then show ?thesis using release_ok [OF inv, of c a None] req by (auto simp: upClientClosed_def)
  next
    case None
    let ?t = "s\<lparr>us_clients := (us_clients s)(c := None)\<rparr>"
    have "upload_inv ?t"
    proof (rule upload_invI)
      show "pending_inv ?t" using invD(1) [OF inv] by (simp add: pending_inv_def)
      show "held_inv ?t" using invD(2) [OF inv] by (auto simp: held_inv_def)
      show "names_inv ?t" using invD(3) [OF inv] by (simp add: names_inv_def)
      show "fresh_inv ?t" using invD(4) [OF inv] by (auto simp: fresh_inv_def)
    qed
    then show ?thesis using None req by (simp add: upClientClosed_def)
  qed
qed

lemma su_login_ok:
  assumes inv: "upload_inv s" and g: "us_games s g \<noteq> None" and n: "convertToString name 20 \<noteq> []"
  shows "\<exists>t. suLogin g name s = Some t \<and> upload_inv t"
proof -
  let ?n = "convertToString name 20"
  let ?t = "s\<lparr>us_servers := um_insert ?n g (us_servers s), us_games := (us_games s)(g \<mapsto> ?n)\<rparr>"
  have "upload_inv ?t" if new: "um_find (us_servers s) ?n = None" and ok: "checkName ?n"
  proof (rule upload_invI)
    show "pending_inv ?t" using invD(1) [OF inv] n unfolding pending_inv_def by fastforce
    show "held_inv ?t" using invD(2) [OF inv] by (simp add: held_inv_def)
    show "names_inv ?t"
      using invD(3) [OF inv] new ok n convertToString_length [of 20 name]
      by (auto simp: names_inv_def um.find_insert um.wf_insert)
    show "fresh_inv ?t" using invD(4) [OF inv] g by (auto simp: fresh_inv_def)
  qed
  then show ?thesis using inv g by (auto simp: suLogin_def Let_def)
qed

lemma push_ok:
  assumes inv: "upload_inv s" and g: "us_games s g = Some n" "n \<noteq> []"
  shows "\<exists>t. pushRequest g client account guild otp s = Some t \<and> upload_inv t"
proof (cases "um_find (us_pending s) client")
  case None
  let ?a = "us_nextAddr s"
  let ?r = "\<lparr>ur_gameServer = g, ur_clientId = client, ur_accountId = account, ur_guildSid = guild, ur_oneTimePassword = otp\<rparr>"
  let ?t = "s\<lparr>us_nextAddr := ?a + 1, us_requests := (us_requests s)(?a \<mapsto> ?r),
    us_pending := um_insert client ?a (us_pending s)\<rparr>"
  have f: "us_requests s ?a = None" using freshD [OF inv] by simp
  have nh: "us_clients s c \<noteq> Some (Some ?a)" for c using heldD [OF inv] f by fastforce
  have np: "um_find (us_pending s) k \<noteq> Some ?a" for k using pendingD [OF inv] f by fastforce
  have "upload_inv ?t"
  proof (rule upload_invI)
    show "pending_inv ?t"
      using invD(1) [OF inv] g np unfolding pending_inv_def by (auto simp: um.find_insert um.wf_insert)
    show "held_inv ?t" using invD(2) [OF inv] nh unfolding held_inv_def by (auto simp: um.find_insert)
    show "names_inv ?t" using invD(3) [OF inv] by (simp add: names_inv_def)
    show "fresh_inv ?t" using invD(4) [OF inv] by (simp add: fresh_inv_def)
  qed
  then show ?thesis using None by (simp add: pushRequest_def Let_def)
next
  case (Some old)
  obtain r where r: "us_requests s old = Some r" "ur_clientId r = client" using pendingD [OF inv Some] by blast
  let ?a = "us_nextAddr s"
  let ?t = "s\<lparr>us_nextAddr := ?a + 1, us_requests := (us_requests s)(old \<mapsto> r\<lparr>ur_oneTimePassword := otp\<rparr>)\<rparr>"
  have f: "us_requests s ?a = None" using freshD [OF inv] by simp
  then have ne: "old \<noteq> ?a" using r by auto
  have "upload_inv ?t"
  proof (rule upload_invI)
    show "pending_inv ?t" using invD(1) [OF inv] r unfolding pending_inv_def by fastforce
    show "held_inv ?t" using invD(2) [OF inv] unfolding held_inv_def by auto
    show "names_inv ?t" using invD(3) [OF inv] by (simp add: names_inv_def)
    show "fresh_inv ?t" using invD(4) [OF inv] r by (auto simp: fresh_inv_def)
  qed
  moreover have "pushRequest g client account guild otp s = Some ?t"
    using Some r ne f by (simp add: pushRequest_def Let_def freeRequest_def fun_upd_twist fun_upd_idem)
  ultimately show ?thesis by blast
qed

lemma pop_cases:
  assumes inv: "upload_inv s"
  obtains (hit) a r where "um_find (us_pending s) client = Some a" "us_requests s a = Some r"
      "ur_accountId r = account" "ur_guildSid r = guild" "ur_oneTimePassword r = otp"
      "us_games s (ur_gameServer r) = Some name"
      "popRequest client account guild otp name s = Some (Some a, s\<lparr>us_pending := um_erase client (us_pending s)\<rparr>)"
    | (miss) "popRequest client account guild otp name s = Some (None, s)"
      "\<And>a r. um_find (us_pending s) client = Some a \<Longrightarrow> us_requests s a = Some r \<Longrightarrow>
         \<not> (ur_accountId r = account \<and> ur_guildSid r = guild \<and> ur_oneTimePassword r = otp \<and>
            us_games s (ur_gameServer r) = Some name)"
proof (cases "um_find (us_pending s) client")
  case None
  then show ?thesis using miss by (simp add: popRequest_def)
next
  case (Some a)
  obtain r n where r: "us_requests s a = Some r" "us_games s (ur_gameServer r) = Some n"
    using pendingD [OF inv Some] by blast
  show ?thesis
  proof (cases "ur_accountId r = account \<and> ur_guildSid r = guild \<and> ur_oneTimePassword r = otp \<and> n = name")
    case True
    then show ?thesis using hit [of a r] Some r by (simp add: popRequest_def)
  next
    case False
    show ?thesis
    proof (rule miss)
      show "popRequest client account guild otp name s = Some (None, s)"
        using False Some r by (simp add: popRequest_def)
      fix a' r' assume "um_find (us_pending s) client = Some a'" "us_requests s a' = Some r'"
      then show "\<not> (ur_accountId r' = account \<and> ur_guildSid r' = guild \<and> ur_oneTimePassword r' = otp \<and>
          us_games s (ur_gameServer r') = Some name)" using False Some r by auto
    qed
  qed
qed

lemma cu_login_ok:
  assumes inv: "upload_inv s" and c: "us_clients s c \<noteq> None"
  shows "\<exists>t. cuLogin c client account guild otp raw s = Some t \<and> upload_inv t"
proof -
  obtain req where req: "us_clients s c = Some req" using c by blast
  show ?thesis
  proof (rule pop_cases [OF inv, of client account guild otp "convertToString raw 31"])
    fix a r
    assume a: "um_find (us_pending s) client = Some a" "us_requests s a = Some r"
      and pop: "popRequest client account guild otp (convertToString raw 31) s =
        Some (Some a, s\<lparr>us_pending := um_erase client (us_pending s)\<rparr>)"
    let ?t = "s\<lparr>us_pending := um_erase client (us_pending s), us_clients := (us_clients s)(c \<mapsto> Some a)\<rparr>"
    have k: "k = client" if "um_find (us_pending s) k = Some a" for k
      using pendingD [OF inv that] pendingD [OF inv a(1)] by auto
    have nh: "us_clients s c' \<noteq> Some (Some a)" for c'
      using invD(2) [OF inv] a(1) unfolding held_inv_def by blast
    have "upload_inv ?t"
    proof (rule upload_invI)
      show "pending_inv ?t"
      proof (rule pending_invI)
        show "um_wf (us_pending ?t)" using invD(1) [OF inv] by (simp add: pending_inv_def um.wf_erase)
        fix k a' assume "um_find (us_pending ?t) k = Some a'"
        then have "um_find (us_pending s) k = Some a'" by (simp add: um.find_erase split: if_splits)
        from pendingD [OF inv this] show "\<exists>r n. us_requests ?t a' = Some r \<and> ur_clientId r = k \<and>
            us_games ?t (ur_gameServer r) = Some n \<and> n \<noteq> []" by simp
      qed
      show "held_inv ?t"
      proof (rule held_invI)
        fix c' a' assume c': "us_clients ?t c' = Some (Some a')"
        show "us_requests ?t a' \<noteq> None \<and> (\<forall>k. um_find (us_pending ?t) k \<noteq> Some a')"
        proof (cases "c' = c")
          case True
          then have "a' = a" using c' by simp
          then show ?thesis using a(2) k by (auto simp: um.find_erase)
        next
          case False
          then have "us_clients s c' = Some (Some a')" using c' by simp
          then show ?thesis using invD(2) [OF inv] unfolding held_inv_def by (simp add: um.find_erase)
        qed
      next
        fix c1 c2 a' assume "us_clients ?t c1 = Some (Some a')" "us_clients ?t c2 = Some (Some a')"
        then show "c1 = c2" using nh invD(2) [OF inv] unfolding held_inv_def by (simp split: if_splits)
      qed
      show "names_inv ?t" using invD(3) [OF inv] by (simp add: names_inv_def)
      show "fresh_inv ?t" using invD(4) [OF inv] req by (auto simp: fresh_inv_def)
    qed
    then show ?thesis using req pop by (simp add: cuLogin_def)
  next
    assume pop: "popRequest client account guild otp (convertToString raw 31) s = Some (None, s)"
    let ?t = "s\<lparr>us_clients := (us_clients s)(c \<mapsto> None)\<rparr>"
    have "upload_inv ?t"
    proof (rule upload_invI)
      show "pending_inv ?t" using invD(1) [OF inv] by (simp add: pending_inv_def)
      show "held_inv ?t" using invD(2) [OF inv] by (auto simp: held_inv_def)
      show "names_inv ?t" using invD(3) [OF inv] by (simp add: names_inv_def)
      show "fresh_inv ?t" using invD(4) [OF inv] req by (auto simp: fresh_inv_def)
    qed
    then show ?thesis using req pop by (simp add: cuLogin_def)
  qed
qed

text \<open>Removing the requests of a game server: exactly its entries go, and their objects are freed.\<close>

definition requestOf :: "upload_state \<Rightarrow> nat \<Rightarrow> nat \<Rightarrow> bool" where
  "requestOf s g a \<longleftrightarrow> (\<exists>r. us_requests s a = Some r \<and> ur_gameServer r = g)"

definition removed :: "upload_state \<Rightarrow> nat \<Rightarrow> (u32 \<times> nat) list \<Rightarrow> upload_state \<Rightarrow> bool" where
  "removed s g es t \<longleftrightarrow>
     us_pending t = fold (\<lambda>e p. if requestOf s g (snd e) then um_erase (fst e) p else p) es (us_pending s) \<and>
     us_requests t = (\<lambda>a. if a \<in> snd ` set es \<and> requestOf s g a then None else us_requests s a) \<and>
     us_servers t = us_servers s \<and> us_games t = us_games s \<and> us_clients t = us_clients s \<and> us_nextAddr t = us_nextAddr s \<and>
     us_files t = us_files s \<and> us_sent t = us_sent s"

lemma removeRequests_ok:
  "distinct (map snd es) \<Longrightarrow> (\<And>a. a \<in> snd ` set es \<Longrightarrow> us_requests s a \<noteq> None) \<Longrightarrow>
   \<exists>t. removeRequests g es s = Some t \<and> removed s g es t"
proof (induction es arbitrary: s)
  case Nil
  then show ?case by (simp add: removed_def)
next
  case (Cons e es)
  obtain k a where e: "e = (k, a)" by fastforce
  obtain r where r: "us_requests s a = Some r" using Cons.prems(2) [of a] e by auto
  have d: "distinct (map snd es)" using Cons.prems(1) by simp
  show ?case
  proof (cases "ur_gameServer r = g")
    case True
    let ?s = "s\<lparr>us_pending := um_erase k (us_pending s), us_requests := (us_requests s)(a := None)\<rparr>"
    have same: "requestOf ?s g b = requestOf s g b" if "b \<noteq> a" for b using that by (simp add: requestOf_def)
    have na: "a \<notin> snd ` set es" using Cons.prems(1) e by simp
    have alive: "us_requests ?s b \<noteq> None" if "b \<in> snd ` set es" for b
    proof -
      have "b \<noteq> a" using that na by blast
      then show ?thesis using Cons.prems(2) [of b] that by simp
    qed
    obtain t where t: "removeRequests g es ?s = Some t" "removed ?s g es t"
      using Cons.IH [OF d alive] by blast
    have "fold (\<lambda>e p. if requestOf ?s g (snd e) then um_erase (fst e) p else p) es p =
        fold (\<lambda>e p. if requestOf s g (snd e) then um_erase (fst e) p else p) es p" for p
      by (rule fold_cong) (use na same in \<open>force simp: fun_eq_iff\<close>)+
    moreover have "us_requests t = (\<lambda>b. if b \<in> snd ` set (e # es) \<and> requestOf s g b then None else us_requests s b)"
      using t(2) e na same r True by (auto simp: removed_def fun_eq_iff requestOf_def)
    moreover have "requestOf s g a" using r True by (simp add: requestOf_def)
    moreover have "freeRequest a (s\<lparr>us_pending := um_erase k (us_pending s)\<rparr>) = Some ?s"
      using r by (simp add: freeRequest_def)
    ultimately have "removeRequests g (e # es) s = Some t" "removed s g (e # es) t"
      using t e r True by (simp_all add: removed_def)
    then show ?thesis by blast
  next
    case False
    then have n: "\<not> requestOf s g a" using r by (simp add: requestOf_def)
    have alive: "us_requests s b \<noteq> None" if "b \<in> snd ` set es" for b using Cons.prems(2) [of b] that by simp
    obtain t where t: "removeRequests g es s = Some t" "removed s g es t"
      using Cons.IH [OF d alive] by blast
    have "us_requests t = (\<lambda>b. if b \<in> snd ` set (e # es) \<and> requestOf s g b then None else us_requests s b)"
      using t(2) e n by (auto simp: removed_def fun_eq_iff)
    then have "removed s g (e # es) t" using t(2) e n by (simp add: removed_def)
    then show ?thesis using t(1) e r False by simp
  qed
qed

lemma fold_erase_find:
  "um_find (fold (\<lambda>e p. if P (snd e) then um_erase (fst e) p else p) es m) k =
     (if \<exists>a. (k, a) \<in> set es \<and> P a then None else um_find m k)"
  by (induction es arbitrary: m) (auto simp: um.find_erase)

lemma fold_erase_wf: "um_wf m \<Longrightarrow> um_wf (fold (\<lambda>e p. if P (snd e) then um_erase (fst e) p else p) es m)"
  by (induction es arbitrary: m) (auto simp: um.wf_erase)

lemma pending_distinct:
  assumes "upload_inv s"
  shows "distinct (map snd (us_pending s))"
proof -
  have wf: "um_wf (us_pending s)" using invD(1) [OF assms] by (simp add: pending_inv_def)
  have "distinct (us_pending s)" using wf by (simp add: um_wf_def um_keys_def distinct_map)
  moreover have "inj_on snd (set (us_pending s))"
  proof (rule inj_onI)
    fix x y assume x: "x \<in> set (us_pending s)" and y: "y \<in> set (us_pending s)" and eq: "snd x = snd y"
    have "um_find (us_pending s) (fst x) = Some (snd x)" "um_find (us_pending s) (fst y) = Some (snd x)"
      using um_mem_find [OF wf] x y eq by (metis prod.collapse)+
    then have "fst x = fst y" using pendingD [OF assms, of "fst x"] pendingD [OF assms, of "fst y"] by auto
    then show "x = y" using eq by (simp add: prod_eq_iff)
  qed
  ultimately show ?thesis by (simp add: distinct_map)
qed

lemma game_closed_ok:
  assumes inv: "upload_inv s" and g: "us_games s g \<noteq> None"
  shows "\<exists>t. upGameClosed g s = Some t \<and> upload_inv t \<and> us_clients t = us_clients s \<and> us_games t g = None \<and>
    (\<forall>a. (\<forall>k. um_find (us_pending s) k \<noteq> Some a) \<longrightarrow> us_requests t a = us_requests s a)"
proof -
  obtain n where n: "us_games s g = Some n" using g by blast
  have wf: "um_wf (us_pending s)" using invD(1) [OF inv] by (simp add: pending_inv_def)
  show ?thesis
  proof (cases "n = []")
    case True
    let ?t = "s\<lparr>us_games := (us_games s)(g := None)\<rparr>"
    have "upload_inv ?t"
    proof (rule upload_invI)
      show "pending_inv ?t"
      proof (rule pending_invI)
        show "um_wf (us_pending ?t)" using wf by simp
        fix k a assume "um_find (us_pending ?t) k = Some a"
        then obtain r m where r: "us_requests s a = Some r" "ur_clientId r = k" "us_games s (ur_gameServer r) = Some m" "m \<noteq> []"
          using pendingD [OF inv, of k a] by auto
        then have "ur_gameServer r \<noteq> g" using n True by auto
        then show "\<exists>r m. us_requests ?t a = Some r \<and> ur_clientId r = k \<and> us_games ?t (ur_gameServer r) = Some m \<and> m \<noteq> []"
          using r by simp
      qed
      show "held_inv ?t" using invD(2) [OF inv] by (simp add: held_inv_def)
      show "names_inv ?t" using invD(3) [OF inv] by (simp add: names_inv_def)
      show "fresh_inv ?t" using invD(4) [OF inv] by (simp add: fresh_inv_def)
    qed
    then show ?thesis using n True by (simp add: upGameClosed_def)
  next
    case False
    let ?s = "s\<lparr>us_servers := um_erase n (us_servers s)\<rparr>"
    have alive: "us_requests ?s a \<noteq> None" if "a \<in> snd ` set (us_pending s)" for a
      using pendingD [OF inv um_mem_find [OF wf]] that by fastforce
    obtain t where t1: "removeRequests g (us_pending s) ?s = Some t" and rem: "removed ?s g (us_pending s) t"
      using removeRequests_ok [OF pending_distinct [OF inv] alive] by blast
    have req: "requestOf ?s g a = requestOf s g a" for a by (simp add: requestOf_def)
    have t2: "us_pending t = fold (\<lambda>e p. if requestOf s g (snd e) then um_erase (fst e) p else p) (us_pending s) (us_pending s)"
      and t3: "us_requests t = (\<lambda>a. if a \<in> snd ` set (us_pending s) \<and> requestOf s g a then None else us_requests s a)"
      and t4: "us_servers t = um_erase n (us_servers s)" "us_games t = us_games s" "us_clients t = us_clients s"
        "us_nextAddr t = us_nextAddr s"
      using rem by (simp_all add: removed_def req cong: if_cong)
    let ?t = "t\<lparr>us_games := (us_games t)(g := None)\<rparr>"
    have find: "um_find (us_pending t) k = (if \<exists>a. um_find (us_pending s) k = Some a \<and> requestOf s g a then None else um_find (us_pending s) k)" for k
    proof -
      have "(k, a) \<in> set (us_pending s) \<longleftrightarrow> um_find (us_pending s) k = Some a" for a
        using um_find_mem um_mem_find [OF wf] by fast
      then show ?thesis
        unfolding t2 fold_erase_find [of "requestOf s g" "us_pending s" "us_pending s" k] by simp
    qed
    have keep: "us_requests t a = us_requests s a" if "\<And>k. um_find (us_pending s) k = Some a \<Longrightarrow> \<not> requestOf s g a" for a
    proof -
      have "\<exists>k. um_find (us_pending s) k = Some a" if "a \<in> snd ` set (us_pending s)"
        using that um_mem_find [OF wf] by force
      then show ?thesis using that unfolding t3 by auto
    qed
    have "upload_inv ?t"
    proof (rule upload_invI)
      show "pending_inv ?t"
      proof (rule pending_invI)
        show "um_wf (us_pending ?t)" using wf t2 by (simp add: fold_erase_wf)
        fix k a assume "um_find (us_pending ?t) k = Some a"
        then have k: "um_find (us_pending s) k = Some a" "\<not> requestOf s g a" by (auto simp: find split: if_splits)
        obtain r m where r: "us_requests s a = Some r" "ur_clientId r = k" "us_games s (ur_gameServer r) = Some m" "m \<noteq> []"
          using pendingD [OF inv k(1)] by auto
        then have "ur_gameServer r \<noteq> g" using k(2) by (simp add: requestOf_def)
        moreover have "us_requests t a = Some r" using keep [of a] k r by simp
        ultimately show "\<exists>r m. us_requests ?t a = Some r \<and> ur_clientId r = k \<and> us_games ?t (ur_gameServer r) = Some m \<and> m \<noteq> []"
          using r t4 by simp
      qed
      show "held_inv ?t"
      proof (rule held_invI)
        fix c a assume "us_clients ?t c = Some (Some a)"
        then have h: "us_requests s a \<noteq> None" "\<And>k. um_find (us_pending s) k \<noteq> Some a"
          using invD(2) [OF inv] t4 unfolding held_inv_def by auto
        then have "us_requests t a \<noteq> None" using keep [of a] by simp
        then show "us_requests ?t a \<noteq> None \<and> (\<forall>k. um_find (us_pending ?t) k \<noteq> Some a)" using h find by auto
      next
        fix c c' a assume "us_clients ?t c = Some (Some a)" "us_clients ?t c' = Some (Some a)"
        then show "c = c'" using invD(2) [OF inv] t4 unfolding held_inv_def by auto
      qed
      have other: "m \<noteq> n" if "us_games s h = Some m" "h \<noteq> g" "m \<noteq> []" for h m
      proof
        assume "m = n"
        have reg: "um_find (us_servers s) n' = Some g'" if "us_games s g' = Some n'" "n' \<noteq> []" for g' n'
          using that invD(3) [OF inv] unfolding names_inv_def by blast
        show False using reg [of h m] reg [of g n] that n False \<open>m = n\<close> by simp
      qed
      show "names_inv ?t"
        using invD(3) [OF inv] t4 other unfolding names_inv_def by (auto simp: um.find_erase um.wf_erase)
      show "fresh_inv ?t" using invD(4) [OF inv] t3 t4 by (auto simp: fresh_inv_def)
    qed
    moreover have "us_requests ?t a = us_requests s a" if "\<forall>k. um_find (us_pending s) k \<noteq> Some a" for a
      using keep [of a] that by simp
    ultimately show ?thesis using n False t1 t4 by (simp add: upGameClosed_def requestsRemoveServer_def)
  qed
qed

lemma cu_upload_ok:
  assumes inv: "upload_inv s" and ok: "upload_ok (CuUpload env c packetSize len contents) s"
  shows "\<exists>t. cuUpload env c packetSize len contents s = Some t \<and> upload_inv t"
proof -
  obtain req where req: "us_clients s c = Some req" using ok by (auto split: option.splits)
  show ?thesis
  proof (cases req)
    case None
    then show ?thesis using req inv by (simp add: cuUpload_def)
  next
    case (Some a)
    have ca: "us_clients s c = Some (Some a)" using req Some by simp
    obtain r where r: "us_requests s a = Some r" using heldD [OF inv ca] by blast
    obtain n where n: "us_games s (ur_gameServer r) = Some n" using ok ca r by auto
    have store: "\<exists>t. storeUpload env c a r len data n s = Some t \<and> upload_inv t" for data
    proof -
      let ?mid = "\<lambda>m. upload_inv m \<and> us_clients m = us_clients s"
      let ?f = "uploadFileName n (ur_guildSid r) (ue_time env)"
      let ?w = "min (ue_written env) (unat len)"
      let ?m = "s\<lparr>us_files := (us_files s)(?f \<mapsto> take ?w data)\<rparr>"
      have m: "?mid ?m" using inv upload_inv_cong [of ?m s] by simp
      have fin: "\<exists>t. map_option (\<lambda>s. upSend (UcUpload c res) (s\<lparr>us_clients := (us_clients s)(c \<mapsto> None)\<rparr>)) (freeRequest a x) = Some t \<and>
          upload_inv t" if "?mid x" for res x
        using release_ok [of x c a "Some None"] that ca by auto
      have u: "?mid (sendUploadResult (ur_gameServer r) (ur_guildSid r) len ?f ?m)"
        using m by (simp add: sendUploadResult_def Let_def)
      consider "\<not> ue_opens env" | "ue_opens env" "?w = unat len" | "ue_opens env" "?w \<noteq> unat len" by blast
      then show ?thesis
      proof cases
        case 1
        then show ?thesis using fin [of s RESULT_ACCESS_DENIED] inv by (simp add: storeUpload_def Let_def)
      next
        case 2
        then show ?thesis using fin [OF u, of RESULT_SUCCESS] by (simp add: storeUpload_def Let_def)
      next
        case 3
        then have "ue_written env \<noteq> unat len" by auto
        then show ?thesis using 3 fin [OF m, of RESULT_ACCESS_DENIED] by (simp add: storeUpload_def Let_def)
      qed
    qed
    show ?thesis
      using ca r n inv store by (simp add: cuUpload_def Let_def)
  qed
qed

lemma upload_step_ok: "upload_inv s \<Longrightarrow> upload_ok e s \<Longrightarrow> \<exists>t. upload_step e s = Some t \<and> upload_inv t"
proof (cases e)
  case GameOpen
  then show "upload_inv s \<Longrightarrow> upload_ok e s \<Longrightarrow> ?thesis" by (simp add: game_connected_inv)
next
  case (GameClose g)
  then show "upload_inv s \<Longrightarrow> upload_ok e s \<Longrightarrow> ?thesis"
    using game_closed_ok [of s g] by auto
next
  case (SuLogin g name)
  then show "upload_inv s \<Longrightarrow> upload_ok e s \<Longrightarrow> ?thesis" by (simp add: su_login_ok)
next
  case (SuRequestUpload g client account guild otp)
  then show "upload_inv s \<Longrightarrow> upload_ok e s \<Longrightarrow> ?thesis"
    using push_ok [of s g _ client account guild otp] by (auto simp: suRequestUpload_def split: option.splits)
next
  case ClientOpen
  then show "upload_inv s \<Longrightarrow> upload_ok e s \<Longrightarrow> ?thesis" by (simp add: client_connected_inv)
next
  case (ClientClose c)
  then show "upload_inv s \<Longrightarrow> upload_ok e s \<Longrightarrow> ?thesis" by (simp add: client_closed_ok)
next
  case (CuLogin c client account guild otp name)
  then show "upload_inv s \<Longrightarrow> upload_ok e s \<Longrightarrow> ?thesis" by (simp add: cu_login_ok)
next
  case (CuUpload env c packetSize len contents)
  then show "upload_inv s \<Longrightarrow> upload_ok e s \<Longrightarrow> ?thesis"
    using cu_upload_ok [of s env c packetSize len contents] by simp
next
  case (CuDownload pieces c guild name path)
  then show "upload_inv s \<Longrightarrow> upload_ok e s \<Longrightarrow> ?thesis"
    by (auto simp: cuDownload_def Let_def split: option.split)
qed

lemma upload_inv_new: "upload_inv (newUploadState files)"
  by (simp add: upload_inv_def upload_invs newUploadState_def)

interpretation upload: safe_machine upload_step upload_inv upload_ok
  by unfold_locales (use upload_step_ok in fastforce)+

section \<open>Properties\<close>

text \<open>C17. Whatever game servers and clients do, as long as game servers log in with a name before they request
  uploads and no client uploads for a game server that has disconnected, no handler of the upload
  server follows a dangling pointer, and the invariant holds in the end.\<close>

theorem upload_server_safe:
  assumes "run_ok upload_step upload_ok es (newUploadState files)"
  shows "\<exists>s. run upload_step es (newUploadState files) = Some s \<and> upload_inv s"
  using assms upload_inv_new upload.run_safe by blast

definition demo_upload :: "upload_event list" where
  "demo_upload = [GameOpen, SuLogin 0 ''Tortus'', SuRequestUpload 0 7 8 9 1234, ClientOpen,
     CuLogin 2 7 8 9 1234 ''Tortus'', GameClose 0, ClientClose 2]"

theorem upload_server_safe_witness:
  "\<exists>s. run upload_step demo_upload (newUploadState Map.empty) = Some s \<and> upload_inv s"
  by (rule upload_server_safe)
     (simp add: demo_upload_def newUploadState_def upGameConnected_def suLogin_def convertToString_def Let_def
       checkName_all allowedChar_def less_eq_char_def um_insert_def um_find_def upSend_def suRequestUpload_def pushRequest_def
       upClientConnected_def cuLogin_def popRequest_def um_erase_def upGameClosed_def requestsRemoveServer_def
       upClientClosed_def freeRequest_def numeral_2_eq_2)


definition demo_waiting :: upload_state where
  "demo_waiting = \<lparr>us_nextAddr = 3,
     us_requests = [1 \<mapsto> \<lparr>ur_gameServer = 0, ur_clientId = 7, ur_accountId = 8, ur_guildSid = 9, ur_oneTimePassword = 1234\<rparr>],
     us_pending = [(7, 1)], us_servers = [(''Tortus'', 0)], us_games = [0 \<mapsto> ''Tortus''], us_clients = [2 \<mapsto> None],
     us_files = Map.empty, us_sent = []\<rparr>"

lemma demo_waiting_inv: "upload_inv demo_waiting"
  by (auto simp: demo_waiting_def upload_inv_def upload_invs um_wf_def um_keys_def um_find_def checkName_all allowedChar_def
      less_eq_char_def split: if_splits)


text \<open>File names: the characters of the printed numbers are digits, so only the sign of the guild id matters.\<close>

lemma digit_allowed: "d < 10 \<Longrightarrow> allowedChar (char_of (48 + d :: nat))"
  by (simp add: allowedChar_def less_eq_char_def)

lemma decimal_allowed: "list_all allowedChar (decimal n)"
proof (induction n rule: decimal.induct)
  case (1 n)
  then show ?case
    using digit_allowed [of n] digit_allowed [of "n mod 10"] by (subst decimal.simps) (simp del: of_char_of)
qed

lemma zeroPad_allowed: "list_all allowedChar (zeroPad w (decimal n))"
proof -
  have "allowedChar (CHR ''0'')" by (simp add: allowedChar_def)
  then show ?thesis using decimal_allowed [of n] by (auto simp: zeroPad_def list_all_iff)
qed

lemma all_take: "list_all P xs \<Longrightarrow> list_all P (take n xs)"
  by (auto simp: list_all_iff dest: in_set_takeD)

lemma guild_sign: "0 \<le> sint guild \<longleftrightarrow> (guild :: u32) < 0x80000000"
proof -
  have "bit guild 31 \<longleftrightarrow> 2 ^ 31 \<le> unat guild"
  proof -
    have "unat guild < 2 ^ 32" using unsigned_less [of guild] by simp
    then have "unat guild div 2 ^ 31 < 2" by simp
    moreover have "bit (unat guild) 31 = bit guild 31" by (simp add: bit_unsigned_iff)
    then have "bit guild 31 \<longleftrightarrow> odd (unat guild div 2 ^ 31)" by (simp add: bit_iff_odd)
    ultimately show ?thesis by (cases "2 ^ 31 \<le> unat guild") (auto simp: less_2_cases_iff)
  qed
  then have "0 \<le> sint guild \<longleftrightarrow> unat guild < 2 ^ 31"
    using bit_last_iff [of guild] by (simp add: not_le) (metis not_le)
  then show ?thesis by (simp add: word_less_nat_alt)
qed

lemma upload_filename_ok:
  assumes "checkName name" "length name \<le> 20"
  shows "checkName (uploadFileName name guild t) \<longleftrightarrow> guild < 0x80000000"
proof -
  note sign = guild_sign [of guild]
  have dot: "allowedChar (CHR ''.'')" "allowedChar (CHR ''_'')" "\<not> allowedChar (CHR ''-'')" "list_all allowedChar ''.jpg''"
    by (simp_all add: allowedChar_def less_eq_char_def)
  show ?thesis
  proof (cases "sint guild < 0")
    case True
    have "CHR ''-'' \<in> set (uploadFileName name guild t)"
    proof -
      have "uploadFileName name guild t ! (length name + 1) = CHR ''-''"
        using True assms(2) by (simp add: uploadFileName_def signedPad_def nth_append)
      moreover have "length name + 1 < length (uploadFileName name guild t)"
        using True assms(2) by (simp add: uploadFileName_def signedPad_def)
      ultimately show ?thesis by (metis nth_mem)
    qed
    then have "\<not> checkName (uploadFileName name guild t)" using dot by (auto simp: checkName_all list_all_iff)
    then show ?thesis using True sign by simp
  next
    case False
    then have "checkName (uploadFileName name guild t)"
      using assms(1) dot zeroPad_allowed unfolding uploadFileName_def checkName_all signedPad_def
      by (intro all_take) simp
    then show ?thesis using False sign by simp
  qed
qed

text \<open>The file name an upload is stored under is one the download service accepts exactly when the guild id is
  below 2 to the 31: a larger one is printed as a negative number, and its minus sign is refused.\<close>

lemma upload_filename_downloadable:
  assumes "checkName name" "length name \<le> 20"
  shows "checkName (uploadFileName name guild t) \<longleftrightarrow> guild < 0x80000000"
  by (rule upload_filename_ok [OF assms])

definition demo_tm :: tm_info where
  "demo_tm = \<lparr>tm_year = 126, tm_mon = 0, tm_mday = 31, tm_hour = 23, tm_min = 59, tm_sec = 9\<rparr>"

theorem upload_filename_downloadable_witness:
  "\<not> checkName (uploadFileName ''Tortus'' 0x80000001 demo_tm) \<and> checkName (uploadFileName ''Tortus'' 9 demo_tm)"
proof -
  have "checkName ''Tortus''" "length ''Tortus'' \<le> 20" by (simp_all add: allowedChar_def less_eq_char_def)
  then show ?thesis
    using upload_filename_downloadable [where guild = "0x80000001" and t = demo_tm]
      upload_filename_downloadable [where guild = 9 and t = demo_tm] by simp
qed

definition tm_ok :: "tm_info \<Rightarrow> bool" where
  "tm_ok t \<longleftrightarrow> tm_mon t < 100 \<and> tm_mday t < 100 \<and> tm_hour t < 100 \<and> tm_min t < 100 \<and> tm_sec t < 100"

lemma uploadFileName_length:
  assumes "length name \<le> 20" "0 \<le> sint guild" "tm_ok t"
  shows "length (uploadFileName name guild t) \<le> 49"
proof -
  have "sint guild < 2 ^ 31" using sint_lt [of guild] by simp
  then have g: "length (signedPad 10 (sint guild)) = 10"
    using assms(2) by (simp add: signedPad_def zeroPad_length nat_less_iff)
  have two: "length (zeroPad 2 (decimal n)) = 2" if "n < 100" for n using that by (simp add: zeroPad_length)
  have m: "tm_year t mod 100 < 100" by simp
  show ?thesis
    using assms(1,3) g two [OF m] two unfolding tm_ok_def by (simp add: uploadFileName_def)
qed

text \<open>C19. An icon uploaded for a guild (id below 2 to the 31) and stored completely is announced to its game server,
  and then both download services return exactly the uploaded bytes under the announced name.\<close>

theorem icon_upload_roundtrip:
  assumes inv: "upload_inv s" and c: "us_clients s c = Some (Some a)" and r: "us_requests s a = Some r"
    and g: "us_games s (ur_gameServer r) \<noteq> None" and guild: "ur_guildSid r < 0x80000000"
    and len: "uint len = uint packetSize - 11" "len \<le> 64000" "length icon = unat len" and jpeg: "checkJpegImage icon"
    and store: "ue_opens env" "unat len \<le> ue_written env" "tm_ok (ue_time env)"
    and reads: "readLoop pieces (unat len) 0 0"
  shows "\<exists>t f. cuUpload env c packetSize len icon s = Some t \<and>
    us_sent t = us_sent s @ [UsUpload (ur_gameServer r) (ur_guildSid r) len f, UcUpload c RESULT_SUCCESS] \<and>
    us_sent (cuDownload pieces d gid gname (f @ replicate (64 - length f) (CHR 0x00)) t) =
      us_sent t @ [UcDownloadIcon d gid len gname (f @ replicate (64 - length f) (CHR 0x00)) icon] \<and>
    sendIcon (us_files t) pieces f = htmlFound (unat len) @ icon"
proof -
  obtain n where n: "us_games s (ur_gameServer r) = Some n" using g by blast
  have name: "checkName n" "length n \<le> 20" using nameD [OF inv n] by simp_all
  let ?f = "uploadFileName n (ur_guildSid r) (ue_time env)"
  let ?m = "s\<lparr>us_files := (us_files s)(?f \<mapsto> icon)\<rparr>"
  let ?u = "upSend (UsUpload (ur_gameServer r) (ur_guildSid r) len ?f) ?m"
  let ?t = "upSend (UcUpload c RESULT_SUCCESS)
    (?u\<lparr>us_requests := (us_requests s)(a := None), us_clients := (us_clients s)(c \<mapsto> None)\<rparr>)"
  have ok: "checkName ?f" using upload_filename_ok [OF name] guild by simp
  have fl: "length ?f \<le> 49"
    using uploadFileName_length [OF name(2) _ store(3)] guild guild_sign by simp
  have "unat (word_of_nat (length ?f) :: u8) = length ?f" using fl by (simp add: unat_of_nat)
  moreover have "\<not> len > 64000" using len(2) by simp
  ultimately have up: "cuUpload env c packetSize len icon s = Some ?t"
    using c r n len jpeg store name(2)
    by (simp add: cuUpload_def Let_def storeUpload_def sendUploadResult_def freeRequest_def upSend_def)
  have nul: "CHR 0x00 \<notin> set ?f"
    using ok by (auto simp: checkName_all list_all_iff allowedChar_def less_eq_char_def)
  have cs: "convertToString (?f @ replicate (64 - length ?f) (CHR 0x00)) 63 = ?f"
    using fl nul by (intro convertToString_padded) simp_all
  have small: "unat len \<le> 64000" using len(2) by (simp add: word_le_nat_alt)
  have stored: "us_files ?t ?f = Some icon" by simp
  have w: "word_of_nat (length icon) = len" using len(3) by simp
  have down: "us_sent (cuDownload pieces d gid gname (?f @ replicate (64 - length ?f) (CHR 0x00)) ?t) =
      us_sent ?t @ [UcDownloadIcon d gid len gname (?f @ replicate (64 - length ?f) (CHR 0x00)) icon]"
    using small reads len(3) ok stored w unfolding cuDownload_def Let_def cs by simp
  have http: "sendIcon (us_files ?t) pieces ?f = htmlFound (unat len) @ icon"
    using small reads len(3) stored unfolding sendIcon_def Let_def by simp
  have sent: "us_sent ?t = us_sent s @ [UsUpload (ur_gameServer r) (ur_guildSid r) len ?f, UcUpload c RESULT_SUCCESS]"
    by simp
  show ?thesis using up sent down http by blast
qed

definition demo_holding :: upload_state where
  "demo_holding = demo_waiting\<lparr>us_pending := [], us_clients := [2 \<mapsto> Some 1]\<rparr>"

lemma demo_holding_inv: "upload_inv demo_holding"
  by (auto simp: demo_holding_def demo_waiting_def upload_inv_def upload_invs um_wf_def um_keys_def um_find_def checkName_all
      allowedChar_def less_eq_char_def split: if_splits)

definition demo_store :: upload_env where
  "demo_store = \<lparr>ue_time = demo_tm, ue_opens = True, ue_written = 100\<rparr>"

definition demo_icon :: string where
  "demo_icon = [CHR 0xFF, CHR 0xD8, CHR 0xFF]"

theorem icon_upload_roundtrip_witness:
  "\<exists>t f. cuUpload demo_store 2 14 3 demo_icon demo_holding = Some t \<and>
    us_sent t = us_sent demo_holding @ [UsUpload 0 9 3 f, UcUpload 2 RESULT_SUCCESS] \<and>
    sendIcon (us_files t) [2, 5] f = htmlFound 3 @ demo_icon"
proof -
  let ?r = "\<lparr>ur_gameServer = 0, ur_clientId = 7, ur_accountId = 8, ur_guildSid = 9, ur_oneTimePassword = 1234\<rparr>"
  have h: "us_clients demo_holding 2 = Some (Some 1)" "us_requests demo_holding 1 = Some ?r"
      "us_games demo_holding (ur_gameServer ?r) \<noteq> None" "ur_guildSid ?r < 0x80000000"
      "uint (3 :: u32) = uint (14 :: u32) - 11" "(3 :: u32) \<le> 64000" "length demo_icon = unat (3 :: u32)"
      "checkJpegImage demo_icon" "ue_opens demo_store" "unat (3 :: u32) \<le> ue_written demo_store"
      "tm_ok (ue_time demo_store)" "readLoop [2, 5] (unat (3 :: u32)) 0 0"
    by (simp_all add: demo_holding_def demo_waiting_def demo_icon_def checkJpegImage_def demo_store_def tm_ok_def demo_tm_def
        readLoop.simps)
  show ?thesis
    using icon_upload_roundtrip [OF demo_holding_inv h, of 2 0 "[]"] by auto
qed

text \<open>Once a client has been admitted, the disconnection of its game server does not take the request away from
  it: the upload it then sends follows the pointer to the game server session that is gone.\<close>

lemma upload_after_server_gone:
  assumes inv: "upload_inv s" and c: "us_clients s c = Some (Some a)" and r: "us_requests s a = Some r"
    and g: "us_games s (ur_gameServer r) \<noteq> None"
    and len: "uint len = uint packetSize - 11" "len \<le> 64000" and jpeg: "checkJpegImage (take (unat len) icon)"
  shows "\<exists>t. upGameClosed (ur_gameServer r) s = Some t \<and> upload_inv t \<and> cuUpload env c packetSize len icon t = None"
proof -
  obtain t where t: "upGameClosed (ur_gameServer r) s = Some t" "upload_inv t" "us_clients t = us_clients s"
      "us_games t (ur_gameServer r) = None"
      "\<forall>a. (\<forall>k. um_find (us_pending s) k \<noteq> Some a) \<longrightarrow> us_requests t a = us_requests s a"
    using game_closed_ok [OF inv g] by blast
  have "\<forall>k. um_find (us_pending s) k \<noteq> Some a" using invD(2) [OF inv] c unfolding held_inv_def by blast
  then have "us_requests t a = Some r" using t(5) r by simp
  moreover have "\<not> len > 64000" using len(2) by simp
  ultimately have "cuUpload env c packetSize len icon t = None"
    using t c len jpeg by (simp add: cuUpload_def Let_def)
  then show ?thesis using t by blast
qed

lemma upload_after_server_gone_witness:
  "\<exists>t. upGameClosed 0 demo_holding = Some t \<and> cuUpload demo_store 2 14 3 demo_icon t = None"
proof -
  let ?r = "\<lparr>ur_gameServer = 0, ur_clientId = 7, ur_accountId = 8, ur_guildSid = 9, ur_oneTimePassword = 1234\<rparr>"
  have h: "us_clients demo_holding 2 = Some (Some 1)" "us_requests demo_holding 1 = Some ?r"
      "us_games demo_holding (ur_gameServer ?r) \<noteq> None"
      "uint (3 :: u32) = uint (14 :: u32) - 11" "(3 :: u32) \<le> 64000" "checkJpegImage (take (unat (3 :: u32)) demo_icon)"
    by (simp_all add: demo_holding_def demo_waiting_def demo_icon_def checkJpegImage_def)
  show ?thesis using upload_after_server_gone [OF demo_holding_inv h] by auto
qed

text \<open>The requests of a game server session that never logged in outlive it: a client that logs in with such a
  request makes the server follow the pointer to the closed session.\<close>

lemma anonymous_request_dangling:
  assumes "upload_inv s" "us_games s g = Some []" "um_find (us_pending s) client = None" "us_clients s c \<noteq> None"
  shows "\<exists>t u. suRequestUpload g client account guild otp s = Some t \<and> upGameClosed g t = Some u \<and>
    cuLogin c client account guild otp raw u = None"
  using assms
  by (auto simp: suRequestUpload_def pushRequest_def Let_def upGameClosed_def cuLogin_def popRequest_def um.find_insert)

lemma anonymous_request_dangling_witness:
  "\<exists>t u. suRequestUpload 1 7 8 9 1234 (upClientConnected (upGameConnected (upGameConnected (newUploadState Map.empty)))) = Some t \<and>
    upGameClosed 1 t = Some u \<and> cuLogin 2 7 8 9 1234 ''Tortus'' u = None"
proof (rule anonymous_request_dangling)
  show "upload_inv (upClientConnected (upGameConnected (upGameConnected (newUploadState Map.empty))))"
    by (intro client_connected_inv game_connected_inv upload_inv_new)
qed (simp_all add: upClientConnected_def upGameConnected_def newUploadState_def)

end
