(* ===== verification/WildcardMatch.thy ===== *)
theory WildcardMatch
  imports TextUtils
begin

text \<open>
  What \<open>Utils::stringWildcardMatch\<close> computes. The reference is the usual recursive reading of a pattern. The
  loop agrees with it on the patterns without \<open>*\<close> and on those that end with \<open>*\<close> and have no \<open>?\<close> after their
  first \<open>*\<close>. Its search for a literal part does not restart at the next position after every mismatch: when the
  mismatching character is the first one of the part, it goes on from there. That this never jumps over the
  first occurrence is a fact about words (\<open>chain_occurrence\<close>).
\<close>

fun wmatch :: "string \<Rightarrow> string \<Rightarrow> bool" where
  "wmatch [] t = (t = [])"
| "wmatch (c # w) [] = (c = STAR \<and> wmatch w [])"
| "wmatch (c # w) (x # t) =
     (if c = STAR then wmatch w (x # t) \<or> wmatch (c # w) t else (c = QM \<or> c = x) \<and> wmatch w t)"

section \<open>Words\<close>

text \<open>\<open>breaks seg l\<close>: a match of \<open>seg\<close> that ends after \<open>l\<close> characters because the first character of \<open>seg\<close> was
  found instead. \<open>blocks\<close> are the prefixes matched by a chain of such attempts.\<close>

definition breaks :: "'a list \<Rightarrow> nat \<Rightarrow> bool" where
  "breaks seg l \<longleftrightarrow> 0 < l \<and> l < length seg \<and> seg ! l \<noteq> seg ! 0"

definition blocks :: "'a list \<Rightarrow> nat list \<Rightarrow> 'a list" where
  "blocks seg ls = concat (map (\<lambda>l. take l seg) ls)"

lemma blocks_simps [simp]:
  "blocks seg [] = []" "blocks seg (l # ls) = take l seg @ blocks seg ls" "blocks seg (as @ bs) = blocks seg as @ blocks seg bs"
  by (simp_all add: blocks_def)

lemma breaks_min: "breaks seg l \<Longrightarrow> min (length seg) l = l"
  by (simp add: breaks_def)

lemma breaks_length: "breaks seg l \<Longrightarrow> length (take l seg) = l"
  by (simp add: breaks_min)

lemma blocks_first:
  "list_all (breaks seg) ls \<Longrightarrow> K \<le> length seg \<Longrightarrow> 0 < length (blocks seg ls @ take K seg) \<Longrightarrow>
    (blocks seg ls @ take K seg) ! 0 = seg ! 0"
  by (cases ls) (auto simp: breaks_def nth_append)

lemma blocks_nonempty: "list_all (breaks seg) ls \<Longrightarrow> ls \<noteq> [] \<Longrightarrow> 0 < length (blocks seg ls)"
  by (cases ls) (auto simp: breaks_def)

lemma blocks_hd: "list_all (breaks seg) ls \<Longrightarrow> ls \<noteq> [] \<Longrightarrow> blocks seg ls ! 0 = seg ! 0"
  using blocks_first [of seg ls 0] blocks_nonempty [of seg ls] by simp

text \<open>Cut in front of a character that is not the first of \<open>seg\<close>, a chain is a chain.\<close>

lemma blocks_cut:
  assumes "list_all (breaks seg) ls" "K \<le> length seg" "k < length (blocks seg ls @ take K seg)"
    and "(blocks seg ls @ take K seg) ! k \<noteq> seg ! 0"
  shows "\<exists>ls'. list_all (breaks seg) ls' \<and> ls' \<noteq> [] \<and> take k (blocks seg ls @ take K seg) = blocks seg ls'"
  using assms
proof (induction ls arbitrary: k)
  case Nil
  then have "k \<noteq> 0" "k < length seg" "seg ! k \<noteq> seg ! 0" by (auto intro: ccontr)
  then show ?case using Nil by (intro exI [of _ "[k]"]) (simp add: breaks_def)
next
  case (Cons l ls)
  have l: "breaks seg l" "length (take l seg) = l" using Cons.prems(1) by (auto simp: breaks_length breaks_min)
  show ?case
  proof (cases "k < l")
    case True
    then have "seg ! k \<noteq> seg ! 0" "k < length seg" using Cons.prems(4) l by (auto simp: nth_append breaks_def)
    then have "breaks seg k" by (auto simp: breaks_def intro: gr0I)
    then show ?thesis using True l(2) by (intro exI [of _ "[k]"]) simp
  next
    case False
    then have "k - l < length (blocks seg ls @ take K seg)" "(blocks seg ls @ take K seg) ! (k - l) \<noteq> seg ! 0"
      using Cons.prems(3,4) l(2) by (auto simp: nth_append)
    then obtain ls' where "list_all (breaks seg) ls'" "take (k - l) (blocks seg ls @ take K seg) = blocks seg ls'"
      using Cons.IH [of "k - l"] Cons.prems by auto
    then show ?thesis using False l by (intro exI [of _ "l # ls'"]) simp
  qed
qed

lemma blocks_locate:
  assumes "list_all (breaks seg) ls" "i < length (blocks seg ls)"
  shows "\<exists>a q b. ls = a @ q # b \<and> length (blocks seg a) \<le> i \<and> i < length (blocks seg a) + q"
  using assms
proof (induction ls arbitrary: i)
  case (Cons l ls)
  have l: "length (take l seg) = l" using Cons.prems(1) by (simp add: breaks_length breaks_min)
  show ?case
  proof (cases "i < l")
    case True
    then show ?thesis by (intro exI [of _ "[]"]) auto
  next
    case False
    then have "i - l < length (blocks seg ls)" using Cons.prems(2) l by simp
    then obtain a q b where "ls = a @ q # b" "length (blocks seg a) \<le> i - l" "i - l < length (blocks seg a) + q"
      using Cons.IH [of "i - l"] Cons.prems(1) by auto
    then show ?thesis using False l by (intro exI [of _ "l # a"] exI [of _ q] exI [of _ b]) auto
  qed
qed simp

lemma take_prefix:
  assumes "take l s = take d s @ zs" "d \<le> h" "h \<le> l" "l \<le> length s"
  shows "take h s = take d s @ take (h - d) zs"
proof -
  have "take h s = take h (take l s)" using assms(3) by simp
  also have "\<dots> = take d s @ take (h - d) zs" unfolding assms(1) using assms(2-4) by simp
  finally show ?thesis .
qed

text \<open>A broken match can not end in a shorter match that the rest of the chain continues.\<close>

lemma no_self_cover:
  assumes "breaks seg l" "0 < d" "d < l" "list_all (breaks seg) ls" "ls \<noteq> []"
    and "take l seg = take d seg @ blocks seg ls" "drop (l - d) (take l seg) = take d seg"
  shows False
  using assms
proof (induction "l + d" arbitrary: l d ls rule: less_induct)
  case less
  let ?P = "\<lambda>k. take k seg" and ?B = "blocks seg"
  define f where "f = l - d"
  have n: "l < length seg" using less.prems(1) by (simp add: breaks_def)
  have f: "0 < f" "l = d + f" using less.prems(3) by (auto simp: f_def)
  note prefix = less.prems(6) and suffix = less.prems(7)
  have len: "length (?B ls) = f" using arg_cong [OF prefix, of length] n f by simp
  have first: "?B ls ! 0 = seg ! 0" by (rule blocks_hd [OF less.prems(4,5)])
  have at: "seg ! (d + i) = ?B ls ! i" if "i < f" for i
    using arg_cong [OF prefix, of "\<lambda>xs. xs ! (d + i)"] that n f by (simp add: nth_append)
  have d: "seg ! d = seg ! 0" using at [of 0] f first by simp
  obtain ls' h where ls: "ls = ls' @ [h]" using less.prems(5) by (cases ls rule: rev_exhaust) auto
  have h: "breaks seg h" using less.prems(4) ls by simp
  then have "h \<noteq> d" using d by (auto simp: breaks_def)
  have hlen: "length (?B ls') + h = f" using len ls h by (simp add: breaks_length breaks_min)
  have hl: "h < l" using hlen f less.prems(2) by simp
  have cut: "\<exists>ks. list_all (breaks seg) ks \<and> ks \<noteq> [] \<and> ?P q = ?P e @ ?B ks"
    if "breaks seg q" "e < q" "q < l" "?P l = ?P e @ ?B ms" "list_all (breaks seg) ms" for q e ms
  proof -
    note chain = that
    have "min (length seg) e = e" "min (length seg) l = l" using that(2,3) n by simp_all
    then have lm: "e + length (?B ms) = l" using arg_cong [OF that(4), of length] by simp
    have "seg ! q = (?P e @ ?B ms) ! q" unfolding that(4) [symmetric] using that(3) n by simp
    then have "?B ms ! (q - e) = seg ! q" using that(2) \<open>min (length seg) e = e\<close> by (simp add: nth_append)
    then have "?B ms ! (q - e) \<noteq> seg ! 0" using that(1) by (simp add: breaks_def)
    moreover have "q - e < length (?B ms)" using lm chain(2,3) by linarith
    ultimately obtain ks where "list_all (breaks seg) ks" "ks \<noteq> []" "take (q - e) (?B ms) = ?B ks"
      using blocks_cut [OF chain(5), of 0 "q - e"] \<open>q - e < length (?B ms)\<close> by auto
    then show ?thesis using take_prefix [OF chain(4), of q] chain(2,3) n by auto
  qed
  consider (long) "d < h" | (shift) "h < d" "d \<le> f" | (period) "f < d" using \<open>h \<noteq> d\<close> by linarith
  then show ?case
  proof cases
    case long
    obtain ks where ks: "list_all (breaks seg) ks" "ks \<noteq> []" "?P h = ?P d @ ?B ks"
      using cut [OF h long hl prefix less.prems(4)] by blast
    have "?P h = drop (l - h) (?P l)" using prefix hlen f n h len unfolding ls by (simp add: breaks_length breaks_min)
    then have "drop (h - d) (?P h) = ?P d" using suffix long hl by simp
    then show False using less.hyps [of h d ks] h long less.prems(2) ks hl by simp
  next
    case shift
    have tail: "?P d = drop (f - d) (?B ls)"
      using suffix unfolding prefix using f shift n by simp
    have "f - d < length (?B ls')" using hlen shift f less.prems(2) by linarith
    then obtain a q b where q: "ls' = a @ q # b" "length (?B a) \<le> f - d" "f - d < length (?B a) + q"
      using blocks_locate [of seg ls' "f - d"] less.prems(4) ls by auto
    have bq: "breaks seg q" "length (?P q) = q" using less.prems(4) ls q(1) by (auto simp: breaks_length breaks_min)
    define e where "e = q - (f - d - length (?B a))"
    have e: "0 < e" "e \<le> q" using q by (auto simp: e_def)
    have Pd: "?P d = drop (q - e) (?P q) @ ?B (b @ [h])"
      using tail q bq unfolding ls e_def by (simp add: drop_append)
    have tl: "list_all (breaks seg) (b @ [h])" "?B (b @ [h]) ! 0 = seg ! 0" "0 < length (?B (b @ [h]))"
      using less.prems(4) ls q(1) blocks_hd [of seg "b @ [h]"] blocks_nonempty [of seg "b @ [h]"] by auto
    have led: "e < d" using arg_cong [OF Pd, of length] bq e tl(3) n less.prems(3) by simp
    have Pe: "drop (q - e) (?P q) = ?P e"
      using arg_cong [OF Pd, of "take e"] led bq e by simp
    then have Pd': "?P d = ?P e @ ?B (b @ [h])" using Pd by simp
    show False
    proof (cases "e = q")
      case True
      have "seg ! q = ?B (b @ [h]) ! 0"
        using arg_cong [OF Pd', of "\<lambda>xs. xs ! q"] True led bq n less.prems(3) by (simp add: nth_append)
      then show False using tl bq by (simp add: breaks_def)
    next
      case False
      have ql: "q < l" using hlen q(1) bq f less.prems(2) by simp
      have "?P l = ?P e @ ?B (b @ [h] @ ls)" using prefix Pd' by simp
      then obtain ks where "list_all (breaks seg) ks" "ks \<noteq> []" "?P q = ?P e @ ?B ks"
        using cut [of q e "b @ [h] @ ls"] bq False e ql tl(1) less.prems(4) by auto
      then show False using less.hyps [of q e ks] bq Pe e False ql led by simp
    qed
  next
    case period
    have "?P d = drop f (?P l)" using suffix by (simp add: f_def)
    also have "\<dots> = drop f (?P d) @ ?B ls" unfolding prefix using period n f by simp
    finally have Pd: "?P d = drop f (?P d) @ ?B ls" .
    have sub: "drop f (?P d) = ?P (d - f)"
      using arg_cong [OF Pd, of "take (d - f)"] period n f by simp
    have A: "?P l = ?P (d - f) @ ?B (ls @ ls)" using prefix Pd sub by simp
    have B: "drop (l - (d - f)) (?P l) = ?P (d - f)"
    proof -
      have "drop (l - (d - f)) (?P l) = drop f (drop f (?P l))" using f period by simp
      then show ?thesis using \<open>?P d = drop f (?P l)\<close> sub by simp
    qed
    show False
      by (rule less.hyps [OF _ less.prems(1) _ _ _ _ A B]) (use less.prems(4,5) f period in auto)
  qed
qed

text \<open>In a chain of broken attempts followed by an attempt that has matched \<open>K\<close> characters, \<open>seg\<close> occurs only as
  the whole last attempt.\<close>

lemma chain_occurrence:
  assumes "list_all (breaks seg) ls" "K \<le> length seg" "seg \<noteq> []" "occurs seg e (blocks seg ls @ take K seg)"
  shows "e = length (blocks seg ls) \<and> K = length seg"
proof (cases "e < length (blocks seg ls)")
  case False
  then show ?thesis using assms(2,4) by (auto simp: occurs_def)
next
  case True
  let ?P = "\<lambda>k. take k seg" and ?n = "length seg"
  obtain a q b where q: "ls = a @ q # b" "length (blocks seg a) \<le> e" "e < length (blocks seg a) + q"
    using blocks_locate [OF assms(1) True] by blast
  have bq: "breaks seg q" "length (?P q) = q" "list_all (breaks seg) b"
    using assms(1) q(1) by (auto simp: breaks_length breaks_min)
  define d where "d = q - (e - length (blocks seg a))"
  define rest where "rest = blocks seg b @ take K seg"
  have d: "0 < d" "d \<le> q" "q < ?n" using q bq by (auto simp: d_def breaks_def)
  define X where "X = drop (q - d) (?P q) @ rest"
  have "drop e (blocks seg ls @ take K seg) = X"
    using q bq by (simp add: X_def rest_def d_def)
  then have X: "take ?n X = seg" "?n \<le> length X" using assms(4) by (auto simp: occurs_def)
  have Xq: "X ! q = rest ! (q - d)" "q - d < length rest"
    using X(2) d bq by (auto simp: X_def nth_append)
  have sq: "X ! q = seg ! q" using X(1) d(3) by (metis nth_take)
  have Pd: "drop (q - d) (?P q) = ?P d"
    using arg_cong [OF X(1), of "take d"] d bq by (simp add: X_def)
  show ?thesis
  proof (cases "d = q")
    case True
    then have "seg ! q = seg ! 0"
      using Xq sq blocks_first [OF bq(3) assms(2)] by (simp add: rest_def)
    then show ?thesis using bq by (simp add: breaks_def)
  next
    case False
    have "rest ! (q - d) \<noteq> seg ! 0" using Xq sq bq(1) by (simp add: breaks_def)
    then obtain ks where ks: "list_all (breaks seg) ks" "ks \<noteq> []" "take (q - d) rest = blocks seg ks"
      using blocks_cut [OF bq(3) assms(2)] Xq(2) unfolding rest_def by blast
    have "?P q = take q X" using X(1) d(3) by (metis min.absorb1 order_less_imp_le take_take)
    also have "\<dots> = ?P d @ blocks seg ks" using Pd ks(3) d bq by (simp add: X_def)
    finally show ?thesis
      using no_self_cover [OF bq(1) d(1) _ ks(1,2)] False d Pd by auto
  qed
qed

section \<open>The search for a literal part\<close>

text \<open>The text after the first occurrence of \<open>seg\<close>.\<close>

fun afterFirst :: "'a list \<Rightarrow> 'a list \<Rightarrow> 'a list option" where
  "afterFirst seg [] = (if seg = [] then Some [] else None)"
| "afterFirst seg (y # t) =
     (if take (length seg) (y # t) = seg then Some (drop (length seg) (y # t)) else afterFirst seg t)"

lemma occurs_0: "take (length seg) t = seg \<Longrightarrow> occurs seg 0 t"
  unfolding occurs_def drop_0 add_0 by (metis length_take min.cobounded1)

lemma afterFirst_None: "\<forall>e. \<not> occurs seg e t \<Longrightarrow> afterFirst seg t = None"
proof (induction seg t rule: afterFirst.induct)
  case (1 seg)
  then show ?case by (auto simp: occurs_def)
next
  case (2 seg y t)
  have no: "take (length seg) (y # t) \<noteq> seg"
  proof
    assume "take (length seg) (y # t) = seg"
    then have "occurs seg 0 (y # t)" by (rule occurs_0)
    then show False using 2(2) by blast
  qed
  have "\<not> occurs seg e t" for e using 2(2) [rule_format, of "Suc e"] by (simp add: occurs_def)
  then show ?case using 2(1) no by simp
qed

lemma afterFirst_Some:
  "occurs seg e t \<Longrightarrow> (\<forall>i<e. \<not> occurs seg i t) \<Longrightarrow> seg \<noteq> [] \<Longrightarrow> afterFirst seg t = Some (drop (e + length seg) t)"
proof (induction seg t arbitrary: e rule: afterFirst.induct)
  case (1 seg)
  then show ?case by (simp add: occurs_def)
next
  case (2 seg y t)
  show ?case
  proof (cases e)
    case 0
    then show ?thesis using 2(2) by (simp add: occurs_def)
  next
    case (Suc k)
    have no: "take (length seg) (y # t) \<noteq> seg"
    proof
      assume "take (length seg) (y # t) = seg"
      then have "occurs seg 0 (y # t)" by (rule occurs_0)
      then show False using 2(3) Suc by blast
    qed
    have "occurs seg k t" using 2(2) Suc by (simp add: occurs_def)
    moreover have "\<not> occurs seg i t" if "i < k" for i
      using 2(3) [rule_format, of "Suc i"] that Suc by (simp add: occurs_def)
    ultimately show ?thesis using 2(1) [OF no, of k] 2(4) no Suc by simp
  qed
qed

lemma occurs_skip:
  assumes "seg \<noteq> []" "seg ! 0 \<notin> set skip" "occurs seg e (skip @ t)"
  shows "length skip \<le> e \<and> occurs seg (e - length skip) t"
proof -
  have "(skip @ t) ! e = seg ! 0" using occurs_nth [OF assms(3), of 0] assms(1) by simp
  then have "length skip \<le> e" using assms(2) by (metis not_less nth_append nth_mem)
  then show ?thesis using assms(3) by (auto simp: occurs_def)
qed

text \<open>Where the search stands: the bookmarked text is a part without the first character of \<open>seg\<close>, a chain of
  broken attempts, the characters matched last and the rest of the text.\<close>

lemma chain_first:
  assumes "seg \<noteq> []" "seg ! 0 \<notin> set skip" "list_all (breaks seg) ls"
  shows "afterFirst seg (skip @ blocks seg ls @ seg @ t) = Some t"
proof -
  let ?e = "length skip + length (blocks seg ls)"
  let ?X = "blocks seg ls @ take (length seg) seg"
  have here: "occurs seg ?e (skip @ blocks seg ls @ seg @ t)" by (simp add: occurs_def)
  have "\<not> occurs seg i (skip @ blocks seg ls @ seg @ t)" if "i < ?e" for i
  proof
    assume "occurs seg i (skip @ blocks seg ls @ seg @ t)"
    then have o: "length skip \<le> i" "occurs seg (i - length skip) (blocks seg ls @ seg @ t)"
      using occurs_skip [OF assms(1,2)] by blast+
    then have "occurs seg (i - length skip) ?X" using that by (auto simp: occurs_def)
    from chain_occurrence [OF assms(3) _ assms(1) this] show False using o(1) that by simp
  qed
  then show ?thesis using afterFirst_Some [OF here] assms(1) by (simp add: add.assoc)
qed

lemma chain_none:
  assumes "seg \<noteq> []" "seg ! 0 \<notin> set skip" "list_all (breaks seg) ls" "K < length seg"
  shows "afterFirst seg (skip @ blocks seg ls @ take K seg) = None"
proof (rule afterFirst_None, rule allI, rule notI)
  fix e assume "occurs seg e (skip @ blocks seg ls @ take K seg)"
  then have "occurs seg (e - length skip) (blocks seg ls @ take K seg)"
    using occurs_skip [OF assms(1,2)] by blast
  from chain_occurrence [OF assms(3) _ assms(1) this] show False using assms(4) by simp
qed

lemma chain_not_prefix:
  assumes "seg \<noteq> []" "seg ! 0 \<notin> set skip" "list_all (breaks seg) ls" "0 < k" "k < length seg"
    and "t = [] \<or> hd t \<noteq> seg ! k"
  shows "take (length seg) (skip @ blocks seg ls @ take k seg @ t) \<noteq> seg"
proof
  assume p: "take (length seg) (skip @ blocks seg ls @ take k seg @ t) = seg"
  show False
  proof (cases skip)
    case (Cons c cs)
    then have "seg ! 0 = c" using p assms(1) by (metis append_Cons length_greater_0_conv nth_Cons_0 nth_take)
    then show False using assms(2) Cons by simp
  next
    case Nil
    show False
    proof (cases ls)
      case (Cons l ls')
      then have l: "breaks seg l" "list_all (breaks seg) ls'" using assms(3) by simp_all
      have "seg ! l = (blocks seg ls @ take k seg @ t) ! l"
        using p Nil l(1) by (metis append_Nil breaks_def nth_take)
      also have "\<dots> = (blocks seg ls' @ take k seg) ! 0"
        using Cons l(1) assms(4,5) by (cases ls') (auto simp: nth_append breaks_length breaks_min breaks_def)
      also have "\<dots> = seg ! 0" by (rule blocks_first [OF l(2)]) (use assms(4,5) in auto)
      finally show False using l(1) by (simp add: breaks_def)
    next
      case n: Nil
      then have "take (length seg) (take k seg @ t) = seg" using p Nil by simp
      then have "t \<noteq> []" "t ! 0 = seg ! k" using assms(5)
        by (metis append_Nil2 length_take min.absorb2 min.absorb_iff2 nat_less_le order_less_imp_le take_all_iff)
           (metis \<open>take (length seg) (take k seg @ t) = seg\<close> assms(5) diff_self_eq_0 length_take less_irrefl min.absorb2 nth_append nth_take order_less_imp_le)
      then show False using assms(6) by (simp add: hd_conv_nth)
    qed
  qed
qed

section \<open>The loop\<close>

text \<open>After the part has been found the loop is at the next \<open>*\<close>, or at the end of the text.\<close>

definition continueWith :: "string \<Rightarrow> string option \<Rightarrow> bool option" where
  "continueWith rest r = (case r of None \<Rightarrow> Some False
     | Some t \<Rightarrow> if t = [] then Some (skipStars rest = []) else wildLoop t rest None)"

lemma wildLoop_star: "ch w = Some STAR \<Longrightarrow> wildLoop t w b = wildLoop t w None"
  by (simp add: wildLoop.simps [of t w])

lemma wildLoop_step:
  "ch w \<noteq> Some STAR \<Longrightarrow> ch t = ch w \<or> ch w = Some QM \<Longrightarrow> t \<noteq> [] \<Longrightarrow>
    wildLoop t w b = (if tl t = [] then Some (skipStars (tl w) = []) else wildLoop (tl t) (tl w) b)"
  by (subst wildLoop.simps) auto

lemma wildLoop_back:
  "ch w \<noteq> Some STAR \<Longrightarrow> ch t \<noteq> ch w \<Longrightarrow> ch w \<noteq> Some QM \<Longrightarrow>
    wildLoop t w (Some (tb, wb)) =
      (if w \<noteq> wb then
         (if ch t \<noteq> ch wb then (if tb = [] then None else wildLoop (tl tb) wb (Some (tl tb, wb)))
          else if t \<noteq> [] then wildLoop (tl t) (tl wb) (Some (tb, wb)) else Some False)
       else if t \<noteq> [] then wildLoop (tl t) w (Some (tb, wb)) else Some False)"
  by (subst wildLoop.simps) simp

lemma skipStars_rest: "ch rest = Some STAR \<Longrightarrow> x \<noteq> STAR \<Longrightarrow> skipStars (x # w) \<noteq> []"
  by (simp add: skipStars_def)

lemma search_loop:
  assumes seg: "seg \<noteq> []" "STAR \<notin> set seg" "QM \<notin> set seg" and rest: "ch rest = Some STAR"
  shows "(tb = skip @ t \<and> seg ! 0 \<notin> set skip \<longrightarrow>
      wildLoop t (seg @ rest) (Some (tb, seg @ rest)) = continueWith rest (afterFirst seg tb)) \<and>
    (\<forall>ls k. tb = skip @ blocks seg ls @ take k seg @ t \<and> seg ! 0 \<notin> set skip \<and> list_all (breaks seg) ls \<and> 0 < k \<and>
        k \<le> length seg \<and> (k = length seg \<longrightarrow> t \<noteq> []) \<longrightarrow>
      wildLoop t (drop k seg @ rest) (Some (tb, seg @ rest)) = continueWith rest (afterFirst seg tb))"
proof (induction "length tb" arbitrary: tb skip t rule: less_induct)
  case (less tb)
  let ?n = "length seg" and ?w = "seg @ rest"
  have x: "ch ?w = Some (seg ! 0)" "seg ! 0 \<noteq> STAR" "seg ! 0 \<noteq> QM" "tl ?w = drop 1 seg @ rest"
    using seg by (cases seg; auto)+
  have restart: "wildLoop (tl tb) ?w (Some (tl tb, ?w)) = continueWith rest (afterFirst seg tb)"
    if "tb \<noteq> []" "take ?n tb \<noteq> seg"
  proof -
    have "afterFirst seg tb = afterFirst seg (tl tb)" using that by (cases tb) auto
    then show ?thesis using less [of "tl tb" "[]" "tl tb"] that(1) by simp
  qed
  have at: "ch (drop k seg @ rest) = Some (seg ! k)" "seg ! k \<noteq> STAR" "seg ! k \<noteq> QM"
      "tl (drop k seg @ rest) = drop (Suc k) seg @ rest" if "k < ?n" for k
  proof -
    show "seg ! k \<noteq> STAR" "seg ! k \<noteq> QM" using seg(2,3) nth_mem [OF that] by metis+
    show "ch (drop k seg @ rest) = Some (seg ! k)" "tl (drop k seg @ rest) = drop (Suc k) seg @ rest"
      by (simp_all add: Cons_nth_drop_Suc [symmetric, OF that])
  qed
  have step: "wildLoop (seg ! k # t) (drop k seg @ rest) (Some (tb, ?w)) = continueWith rest (afterFirst seg tb)"
    if tb: "tb = skip @ blocks seg ls @ take k seg @ seg ! k # t" "seg ! 0 \<notin> set skip" "list_all (breaks seg) ls" "k < ?n"
      and IH: "t \<noteq> [] \<Longrightarrow> wildLoop t (drop (Suc k) seg @ rest) (Some (tb, ?w)) = continueWith rest (afterFirst seg tb)"
    for k ls skip t
  proof (cases "t = []")
    case False
    then show ?thesis using IH at [OF tb(4)] by (simp add: wildLoop_step)
  next
    case True
    have Suc: "take k seg @ seg ! k # t = take (Suc k) seg @ t" using tb(4) by (simp add: take_Suc_conv_app_nth)
    have eq: "wildLoop (seg ! k # t) (drop k seg @ rest) (Some (tb, ?w)) = Some (skipStars (drop (Suc k) seg @ rest) = [])"
      using True at [OF tb(4)] by (simp add: wildLoop_step)
    show ?thesis
    proof (cases "Suc k = ?n")
      case True
      then have "afterFirst seg tb = Some []"
        using chain_first [OF seg(1) tb(2,3), of "[]"] tb(1) Suc \<open>t = []\<close> by simp
      then show ?thesis using eq True by (simp add: continueWith_def)
    next
      case False
      then have k: "Suc k < ?n" using tb(4) by simp
      then have "afterFirst seg tb = None"
        using chain_none [OF seg(1) tb(2,3) k] tb(1) Suc \<open>t = []\<close> by simp
      moreover have "skipStars (drop (Suc k) seg @ rest) \<noteq> []"
      proof -
        obtain v where v: "drop (Suc k) seg @ rest = seg ! Suc k # v" using at(1) [OF k] unfolding ch_Some by blast
        show ?thesis unfolding v by (rule skipStars_rest [OF rest at(2) [OF k]])
      qed
      ultimately show ?thesis using eq by (simp add: continueWith_def)
    qed
  qed
  have both: "(\<forall>skip. tb = skip @ t \<and> seg ! 0 \<notin> set skip \<longrightarrow>
      wildLoop t ?w (Some (tb, ?w)) = continueWith rest (afterFirst seg tb)) \<and>
    (\<forall>skip ls k. tb = skip @ blocks seg ls @ take k seg @ t \<and> seg ! 0 \<notin> set skip \<and> list_all (breaks seg) ls \<and> 0 < k \<and>
        k \<le> ?n \<and> (k = ?n \<longrightarrow> t \<noteq> []) \<longrightarrow>
      wildLoop t (drop k seg @ rest) (Some (tb, ?w)) = continueWith rest (afterFirst seg tb))" for t
  proof (induction t)
    case Nil
    show ?case
    proof (intro conjI allI impI; elim conjE)
      fix skip assume "tb = skip @ []" "seg ! 0 \<notin> set skip"
      then show "wildLoop [] ?w (Some (tb, ?w)) = continueWith rest (afterFirst seg tb)"
        using chain_none [OF seg(1), of skip "[]" 0] x seg(1) by (simp add: wildLoop_back continueWith_def)
    next
      fix skip ls k
      assume k: "tb = skip @ blocks seg ls @ take k seg @ []" "seg ! 0 \<notin> set skip" "list_all (breaks seg) ls" "0 < k"
        "k \<le> ?n" "k = ?n \<longrightarrow> [] \<noteq> []"
      then have kn: "k < ?n" by auto
      then have ne: "tb \<noteq> []" "drop k seg @ rest \<noteq> ?w"
        using k(1,4) by (auto dest: arg_cong [where f = length])
      have "take ?n tb \<noteq> seg" using chain_not_prefix [OF seg(1) k(2,3,4) kn, of "[]"] k(1) by simp
      then show "wildLoop [] (drop k seg @ rest) (Some (tb, ?w)) = continueWith rest (afterFirst seg tb)"
        using at [OF kn] x ne restart by (simp add: wildLoop_back)
    qed
  next
    case (Cons y t)
    show ?case
    proof (intro conjI allI impI; elim conjE)
      fix skip assume a: "tb = skip @ y # t" "seg ! 0 \<notin> set skip"
      show "wildLoop (y # t) ?w (Some (tb, ?w)) = continueWith rest (afterFirst seg tb)"
      proof (cases "y = seg ! 0")
        case True
        have "tb = skip @ blocks seg [] @ take 1 seg @ t" using a(1) True seg(1) by (cases seg) auto
        then have "t \<noteq> [] \<Longrightarrow> wildLoop t (drop (Suc 0) seg @ rest) (Some (tb, ?w)) = continueWith rest (afterFirst seg tb)"
          using Cons.IH [THEN conjunct2, rule_format, of skip "[]" 1] a(2) seg(1) by (cases seg) auto
        then show ?thesis using step [of skip "[]" 0 t] a seg(1) True by simp
      next
        case False
        then have "wildLoop t ?w (Some (tb, ?w)) = continueWith rest (afterFirst seg tb)"
          using Cons.IH a by (metis (no_types, lifting) Un_iff append.assoc append_Cons append_Nil empty_iff insert_iff list.set(1) list.set(2) set_append)
        then show ?thesis using False x by (simp add: wildLoop_back)
      qed
    next
      fix skip ls k
      assume k: "tb = skip @ blocks seg ls @ take k seg @ y # t" "seg ! 0 \<notin> set skip" "list_all (breaks seg) ls" "0 < k"
        "k \<le> ?n" "k = ?n \<longrightarrow> y # t \<noteq> []"
      show "wildLoop (y # t) (drop k seg @ rest) (Some (tb, ?w)) = continueWith rest (afterFirst seg tb)"
      proof (cases "k = ?n")
        case True
        then show ?thesis
          using chain_first [OF seg(1) k(2,3), of "y # t"] k(1) wildLoop_star [OF rest] by (simp add: continueWith_def)
      next
        case False
        then have kn: "k < ?n" using k(5) by simp
        show ?thesis
        proof (cases "y = seg ! k")
          case True
          have "tb = skip @ blocks seg ls @ take (Suc k) seg @ t"
            using k(1) True kn by (simp add: take_Suc_conv_app_nth)
          then have "t \<noteq> [] \<Longrightarrow> wildLoop t (drop (Suc k) seg @ rest) (Some (tb, ?w)) = continueWith rest (afterFirst seg tb)"
            using Cons.IH k(2,3) kn by (metis Suc_leI zero_less_Suc)
          then show ?thesis using step [of skip ls k t] k(1-3) kn True by simp
        next
          case neq: False
          have ne: "tb \<noteq> []" "drop k seg @ rest \<noteq> ?w" using k(1,4) kn by (auto dest: arg_cong [where f = length])
          show ?thesis
          proof (cases "y = seg ! 0")
            case False
            have "take ?n tb \<noteq> seg" using chain_not_prefix [OF seg(1) k(2,3,4) kn, of "y # t"] k(1) neq by simp
            then show ?thesis using at [OF kn] x ne neq False restart by (simp add: wildLoop_back)
          next
            case True
            then have "breaks seg k" using k(4) kn neq by (auto simp: breaks_def)
            moreover have "tb = skip @ blocks seg (ls @ [k]) @ take 1 seg @ t"
              using k(1) True seg(1) by (cases seg) auto
            moreover have "1 < ?n" using k(4) kn by simp
            ultimately have "wildLoop t (drop 1 seg @ rest) (Some (tb, ?w)) = continueWith rest (afterFirst seg tb)"
              using Cons.IH [THEN conjunct2, rule_format, of skip "ls @ [k]" 1] k(2,3) by auto
            then show ?thesis using at [OF kn] x ne neq True by (simp add: wildLoop_back)
          qed
        qed
      qed
    qed
  qed
  show ?case using both [of t] by blast
qed

section \<open>The reference\<close>

lemma wmatch_Nil: "wmatch w [] \<longleftrightarrow> skipStars w = []"
  by (induction w) (auto simp: skipStars_def)

lemma wmatch_star: "wmatch (STAR # w) t \<longleftrightarrow> (\<exists>i \<le> length t. wmatch w (drop i t))"
proof (induction t)
  case (Cons x t)
  have "wmatch (STAR # w) (x # t) \<longleftrightarrow> wmatch w (x # t) \<or> (\<exists>i \<le> length t. wmatch w (drop i t))"
    using Cons.IH by simp
  also have "\<dots> \<longleftrightarrow> (\<exists>i \<le> length (x # t). wmatch w (drop i (x # t)))"
    by (metis Suc_le_mono drop0 drop_Suc_Cons length_Cons not0_implies_Suc zero_le)
  finally show ?case .
qed simp

lemma wmatch_later: "ch w = Some STAR \<Longrightarrow> wmatch w (drop i t) \<Longrightarrow> wmatch w t"
proof -
  assume "ch w = Some STAR" and m: "wmatch w (drop i t)"
  then obtain w' where w: "w = STAR # w'" by (auto simp: ch_Some)
  then obtain j where j: "j \<le> length (drop i t)" "wmatch w' (drop j (drop i t))" using m wmatch_star by blast
  show ?thesis
  proof (cases "i \<le> length t")
    case True
    then show ?thesis using j unfolding w wmatch_star by (intro exI [of _ "j + i"]) simp
  next
    case False
    then show ?thesis using m j unfolding w wmatch_star by (intro exI [of _ "length t"]) simp
  qed
qed

lemma wmatch_literal:
  "STAR \<notin> set seg \<Longrightarrow> QM \<notin> set seg \<Longrightarrow>
    wmatch (seg @ w) t \<longleftrightarrow> take (length seg) t = seg \<and> length seg \<le> length t \<and> wmatch w (drop (length seg) t)"
proof (induction seg arbitrary: t)
  case (Cons c seg)
  then show ?case by (cases t) auto
qed simp

lemma wmatch_star_part:
  assumes seg: "seg \<noteq> []" "STAR \<notin> set seg" "QM \<notin> set seg" and w: "ch w = Some STAR"
  shows "wmatch (STAR # seg @ w) t \<longleftrightarrow> (case afterFirst seg t of None \<Rightarrow> False | Some r \<Rightarrow> wmatch w r)"
proof (induction t)
  case Nil
  then show ?case using seg by (cases seg) auto
next
  case (Cons y t)
  have split: "wmatch (STAR # seg @ w) (y # t) \<longleftrightarrow> wmatch (seg @ w) (y # t) \<or> wmatch (STAR # seg @ w) t" by simp
  show ?case
  proof (cases "take (length seg) (y # t) = seg")
    case True
    let ?r = "drop (length seg) (y # t)"
    have "length seg \<le> length (y # t)" by (metis True length_take min.cobounded1)
    then have first: "wmatch (seg @ w) (y # t) \<longleftrightarrow> wmatch w ?r" using True wmatch_literal [OF seg(2,3)] by blast
    have "wmatch w ?r" if m: "wmatch (STAR # seg @ w) t"
    proof -
      obtain i where "wmatch (seg @ w) (drop i t)" using m wmatch_star by blast
      then have "wmatch w (drop (length seg) (drop i t))" using wmatch_literal [OF seg(2,3)] by blast
      moreover have "drop (length seg) (drop i t) = drop (Suc i) ?r"
        by (metis add.commute drop_Suc_Cons drop_drop)
      ultimately show ?thesis using wmatch_later [OF w] by metis
    qed
    then show ?thesis using True split first by (simp del: wmatch.simps) blast
  next
    case False
    then have "\<not> wmatch (seg @ w) (y # t)" using wmatch_literal [OF seg(2,3)] by blast
    then show ?thesis using False split Cons.IH by (simp del: wmatch.simps)
  qed
qed

section \<open>Agreement\<close>

lemma fastForward_find:
  "t \<noteq> [] \<Longrightarrow> fastForward c t =
     Some (if c \<in> set t then Some (dropWhile (\<lambda>x. x \<noteq> c) t) else None)"
  by (induction c t rule: fastForward.induct) auto

lemma afterFirst_skip:
  assumes "seg \<noteq> []" shows "afterFirst seg (dropWhile (\<lambda>x. x \<noteq> seg ! 0) t) = afterFirst seg t"
proof (induction t)
  case (Cons y t)
  have "take (length seg) (y # t) \<noteq> seg" if "y \<noteq> seg ! 0"
    using that assms by (metis length_greater_0_conv nth_Cons_0 nth_take)
  then show ?case using Cons.IH by auto
qed simp

lemma star_part:
  assumes seg: "seg \<noteq> []" "STAR \<notin> set seg" "QM \<notin> set seg" and rest: "ch rest = Some STAR" and t: "t \<noteq> []"
  shows "wildLoop t (STAR # seg @ rest) b = continueWith rest (afterFirst seg t)"
proof -
  let ?x = "seg ! 0" and ?w = "seg @ rest"
  have x: "?x \<noteq> STAR" "?x \<noteq> QM" using seg nth_mem [of 0 seg] by (metis length_greater_0_conv)+
  have w: "skipStars (STAR # ?w) = ?w" "ch ?w = Some ?x" "hd ?w = ?x" using seg x by (cases seg; auto simp: skipStars_def)+
  show ?thesis
  proof (cases "?x \<in> set t")
    case False
    then have "\<not> occurs seg e t" for e
      using occurs_skip [OF seg(1), of t e "[]"] seg(1) by (auto simp: occurs_def)
    then have "afterFirst seg t = None" by (intro afterFirst_None) blast
    then show ?thesis
      using False w x t seg(1) by (subst wildLoop.simps) (simp add: fastForward_find continueWith_def Let_def)
  next
    case True
    define t' where "t' = dropWhile (\<lambda>x. x \<noteq> ?x) t"
    obtain r where r: "t' = ?x # r"
      using True hd_dropWhile [of "\<lambda>x. x \<noteq> ?x" t] by (cases t') (auto simp: t'_def dropWhile_eq_Nil_conv)
    have "wildLoop t (STAR # ?w) b =
        (if tl t' = [] then Some (skipStars (tl ?w) = []) else wildLoop (tl t') (tl ?w) (Some (t', ?w)))"
      using True w x t seg(1) r by (subst wildLoop.simps) (simp add: fastForward_find Let_def t'_def [symmetric])
    also have "\<dots> = wildLoop t' ?w (Some (t', ?w))" using w x r by (simp add: wildLoop_step)
    also have "\<dots> = continueWith rest (afterFirst seg t')"
      using search_loop [OF seg rest, of t' "[]" t'] by simp
    finally show ?thesis using afterFirst_skip [OF seg(1)] by (simp add: t'_def)
  qed
qed

text \<open>The starred patterns: literal parts, each after a \<open>*\<close>, and a last \<open>*\<close>.\<close>

definition starred :: "string list \<Rightarrow> string" where
  "starred segs = concat (map (\<lambda>s. STAR # s) segs) @ [STAR]"

lemma starred_ch: "ch (starred segs) = Some STAR"
  by (cases segs) (simp_all add: starred_def)

lemma starred_Cons: "starred (s # segs) = STAR # s @ starred segs"
  by (simp add: starred_def)

lemma starred_match:
  "\<forall>s\<in>set segs. STAR \<notin> set s \<and> QM \<notin> set s \<Longrightarrow> t \<noteq> [] \<Longrightarrow> wildLoop t (starred segs) b = Some (wmatch (starred segs) t)"
proof (induction segs arbitrary: t b)
  case Nil
  have "wmatch [STAR] t" unfolding wmatch_star by (intro exI [of _ "length t"]) simp
  then show ?case by (subst wildLoop.simps) (simp add: starred_def skipStars_def)
next
  case (Cons s segs)
  note IH = Cons.IH [OF _ Cons.prems(2)]
  have segs: "\<forall>s\<in>set segs. STAR \<notin> set s \<and> QM \<notin> set s" using Cons.prems(1) by simp
  show ?case
  proof (cases "s = []")
    case True
    obtain w where w: "starred segs = STAR # w" using starred_ch [of segs] by (auto simp: ch_Some)
    have "wildLoop t (STAR # STAR # w) b = wildLoop t (STAR # w) b"
      by (subst (1 2) wildLoop.simps) (simp add: skipStars_def)
    moreover have "wmatch (STAR # STAR # w) t \<longleftrightarrow> wmatch (STAR # w) t"
    proof
      assume "wmatch (STAR # STAR # w) t"
      then obtain i where "wmatch (STAR # w) (drop i t)" unfolding wmatch_star [of "STAR # w"] by blast
      then show "wmatch (STAR # w) t" by (rule wmatch_later [rotated]) simp
    next
      assume "wmatch (STAR # w) t"
      then show "wmatch (STAR # STAR # w) t" unfolding wmatch_star [of "STAR # w"] by (intro exI [of _ 0]) simp
    qed
    ultimately show ?thesis using IH [OF segs] True w by (simp only: starred_Cons append_Nil)
  next
    case False
    have s: "STAR \<notin> set s" "QM \<notin> set s" using Cons.prems(1) by simp_all
    have "wildLoop t (starred (s # segs)) b = continueWith (starred segs) (afterFirst s t)"
      unfolding starred_Cons by (rule star_part [OF False s starred_ch Cons.prems(2)])
    also have "\<dots> = Some (wmatch (starred (s # segs)) t)"
      unfolding starred_Cons wmatch_star_part [OF False s starred_ch]
      using Cons.IH [OF segs] by (auto simp: continueWith_def wmatch_Nil split: option.splits)
    finally show ?thesis .
  qed
qed

lemma prefix_match:
  assumes rest: "\<And>t. t \<noteq> [] \<Longrightarrow> wildLoop t rest None = Some (wmatch rest t)"
  shows "STAR \<notin> set pre \<Longrightarrow> t \<noteq> [] \<Longrightarrow> wildLoop t (pre @ rest) None = Some (wmatch (pre @ rest) t)"
proof (induction pre arbitrary: t)
  case Nil
  then show ?case using rest by simp
next
  case (Cons c pre)
  obtain y t' where t: "t = y # t'" using Cons.prems(2) by (cases t) auto
  have c: "c \<noteq> STAR" "STAR \<notin> set pre" using Cons.prems(1) by auto
  have m: "wmatch ((c # pre) @ rest) t \<longleftrightarrow> (c = QM \<or> c = y) \<and> wmatch (pre @ rest) t'" using c(1) t by simp
  show ?case
  proof (cases "c = QM \<or> c = y")
    case True
    then have "wildLoop t ((c # pre) @ rest) None =
        (if t' = [] then Some (skipStars (pre @ rest) = []) else wildLoop t' (pre @ rest) None)"
      using c(1) t by (subst wildLoop_step) auto
    then show ?thesis using Cons.IH [OF c(2), of t'] m True by (simp add: wmatch_Nil)
  next
    case False
    then have "wildLoop t ((c # pre) @ rest) None = Some False"
      using c(1) t by (subst wildLoop.simps) auto
    then show ?thesis using m False by simp
  qed
qed

lemma no_pattern_left: "t \<noteq> [] \<Longrightarrow> wildLoop t [] None = Some (wmatch [] t)"
  by (subst wildLoop.simps) (auto simp: neq_Nil_conv)

text \<open>A pattern without \<open>*\<close>, or with a \<open>*\<close> at its end and no \<open>?\<close> after its first \<open>*\<close>.\<close>

definition plain_pattern :: "string \<Rightarrow> bool" where
  "plain_pattern w \<longleftrightarrow> STAR \<notin> set w \<or> last w = STAR \<and> QM \<notin> set (dropWhile (\<lambda>c. c \<noteq> STAR) w)"

lemma dropWhile_star:
  "STAR \<in> set v \<Longrightarrow> dropWhile (\<lambda>c. c \<noteq> STAR) v \<noteq> [] \<and> hd (dropWhile (\<lambda>c. c \<noteq> STAR) v) = STAR \<and>
    last (dropWhile (\<lambda>c. c \<noteq> STAR) v) = last v"
  by (induction v) auto

lemma starred_form:
  "w \<noteq> [] \<Longrightarrow> last w = STAR \<Longrightarrow> QM \<notin> set w \<Longrightarrow> hd w = STAR \<Longrightarrow>
    \<exists>segs. w = starred segs \<and> (\<forall>s\<in>set segs. STAR \<notin> set s \<and> QM \<notin> set s)"
proof (induction "length w" arbitrary: w rule: less_induct)
  case less
  obtain v where v: "w = STAR # v" using less.prems by (cases w) auto
  show ?case
  proof (cases "v = []")
    case True
    then show ?thesis using v by (intro exI [of _ "[]"]) (simp add: starred_def)
  next
    case False
    let ?s = "takeWhile (\<lambda>c. c \<noteq> STAR) v" and ?r = "dropWhile (\<lambda>c. c \<noteq> STAR) v"
    have "last v = STAR" using less.prems(2) v False by simp
    then have "STAR \<in> set v" using False last_in_set by metis
    then have r: "?r \<noteq> []" "hd ?r = STAR" "last ?r = STAR" using dropWhile_star [of v] \<open>last v = STAR\<close> by auto
    have "QM \<notin> set ?r" using less.prems(3) v by (auto dest: set_dropWhileD)
    moreover have "length ?r < length w" using v length_dropWhile_le [of "\<lambda>c. c \<noteq> STAR" v] by simp
    ultimately obtain segs where segs: "?r = starred segs" "\<forall>s\<in>set segs. STAR \<notin> set s \<and> QM \<notin> set s"
      using less.hyps [of ?r] r by blast
    have "w = starred (?s # segs)" using v segs(1) by (metis starred_Cons takeWhile_dropWhile_id)
    moreover have "STAR \<notin> set ?s" "QM \<notin> set ?s" using less.prems(3) v by (auto dest: set_takeWhileD)
    ultimately show ?thesis using segs(2) by (intro exI [of _ "?s # segs"]) simp
  qed
qed

lemma plain_pattern_form:
  assumes "plain_pattern w"
  shows "\<exists>pre rest. w = pre @ rest \<and> STAR \<notin> set pre \<and>
    (rest = [] \<or> (\<exists>segs. rest = starred segs \<and> (\<forall>s\<in>set segs. STAR \<notin> set s \<and> QM \<notin> set s)))"
proof (cases "STAR \<in> set w")
  case False
  then show ?thesis by (intro exI [of _ w] exI [of _ "[]"]) simp
next
  case True
  let ?r = "dropWhile (\<lambda>c. c \<noteq> STAR) w"
  have r: "?r \<noteq> []" "hd ?r = STAR" "QM \<notin> set ?r"
    using True assms dropWhile_star [OF True] unfolding plain_pattern_def by blast+
  have "last ?r = last w" using dropWhile_star [OF True] by blast
  then have "last ?r = STAR" using True assms by (simp add: plain_pattern_def)
  then have "\<exists>segs. ?r = starred segs \<and> (\<forall>s\<in>set segs. STAR \<notin> set s \<and> QM \<notin> set s)"
    by (intro starred_form) (use r in auto)
  moreover have "w = takeWhile (\<lambda>c. c \<noteq> STAR) w @ ?r" by simp
  moreover have "STAR \<notin> set (takeWhile (\<lambda>c. c \<noteq> STAR) w)" by (auto dest: set_takeWhileD)
  ultimately show ?thesis by blast
qed

lemma plain_pattern_match:
  "plain_pattern w \<Longrightarrow> t \<noteq> [] \<Longrightarrow> stringWildcardMatch t w = Some (wmatch w t)"
proof -
  assume "plain_pattern w" and t: "t \<noteq> []"
  then obtain pre rest where w: "w = pre @ rest" "STAR \<notin> set pre"
      "rest = [] \<or> (\<exists>segs. rest = starred segs \<and> (\<forall>s\<in>set segs. STAR \<notin> set s \<and> QM \<notin> set s))"
    using plain_pattern_form by blast
  have "wildLoop u rest None = Some (wmatch rest u)" if "u \<noteq> []" for u
    using w(3)
  proof (elim disjE exE conjE)
    show ?thesis if "rest = []" unfolding that by (rule no_pattern_left [OF \<open>u \<noteq> []\<close>])
    show ?thesis if "rest = starred segs" "\<forall>s\<in>set segs. STAR \<notin> set s \<and> QM \<notin> set s" for segs
      unfolding that(1) by (rule starred_match [OF that(2) \<open>u \<noteq> []\<close>])
  qed
  then show ?thesis unfolding stringWildcardMatch_def w(1) by (rule prefix_match [OF _ w(2) t])
qed

section \<open>Results\<close>

text \<open>C20. On a non-empty text and a pattern without \<open>*\<close>, or with \<open>*\<close> at its end and no \<open>?\<close> after its first
  \<open>*\<close> (the patterns of the form name, prefix* and *part*part*), \<open>stringWildcardMatch\<close> returns, reads no character
  beyond either string, and its answer is the recursive meaning of the pattern.\<close>

theorem wildcard_match_correct:
  "plain_pattern pWildText \<Longrightarrow> pTameText \<noteq> [] \<Longrightarrow>
    stringWildcardMatch pTameText pWildText = Some (wmatch pWildText pTameText)"
  by (rule plain_pattern_match)

theorem wildcard_match_correct_witness:
  "stringWildcardMatch ''auth.clients.port'' ''au*en*port*'' = Some True \<and>
   stringWildcardMatch ''aaabaab'' ''*aabb*'' = Some False"
proof -
  have "plain_pattern ''au*en*port*''" "plain_pattern ''*aabb*''" by code_simp+
  moreover have "wmatch ''au*en*port*'' ''auth.clients.port''" "\<not> wmatch ''*aabb*'' ''aaabaab''" by code_simp+
  ultimately show ?thesis
    using wildcard_match_correct [of "''au*en*port*''" "''auth.clients.port''"]
      wildcard_match_correct [of "''*aabb*''" "''aaabaab''"] by simp
qed

text \<open>For other patterns the matcher is wrong. A pattern that ends with the letter after its \<open>*\<close>, against a text that
  ends with that letter doubled, makes both pointers pass their terminating NUL (as does \<open>?\<close> or \<open>*x\<close> against the empty
  text), where the recursive reading matches; and a match that overlaps a failed attempt is missed.\<close>

lemma wildcard_match_overread:
  "c \<notin> set s \<Longrightarrow> c \<noteq> STAR \<Longrightarrow> c \<noteq> QM \<Longrightarrow>
    wmatch [STAR, c] (s @ [c, c]) \<and> stringWildcardMatch (s @ [c, c]) [STAR, c] = None \<and>
    stringWildcardMatch [] [QM] = None \<and> stringWildcardMatch [] [STAR, c] = None \<and>
    wmatch ''*aaa'' ''aaaaa'' \<and> stringWildcardMatch ''aaaaa'' ''*aaa'' = Some False \<and>
    wmatch ''*a?b*b'' ''aaabb'' \<and> stringWildcardMatch ''aaabb'' ''*a?b*b'' = Some False"
proof (intro conjI)
  assume c: "c \<notin> set s" "c \<noteq> STAR" "c \<noteq> QM"
  show "wmatch [STAR, c] (s @ [c, c])"
    unfolding wmatch_star by (rule exI [of _ "Suc (length s)"]) simp
  have ff: "fastForward c (s @ [c, c]) = Some (Some [c, c])" using c(1) by (induction s) auto
  show "stringWildcardMatch (s @ [c, c]) [STAR, c] = None"
    using c by (simp add: stringWildcardMatch_def wildLoop.simps skipStars_def ff)
  show "stringWildcardMatch [] [QM] = None" "stringWildcardMatch [] [STAR, c] = None"
    using c by (simp_all add: stringWildcardMatch_def wildLoop.simps skipStars_def)
qed (simp_all add: stringWildcardMatch_def wildLoop.simps skipStars_def)

lemma wildcard_match_overread_witness:
  "wmatch ''*s'' ''auth.pass'' \<and> stringWildcardMatch ''auth.pass'' ''*s'' = None"
  using wildcard_match_overread [of "CHR ''s''" "''auth.pa''"] by simp

end
