(* ===== verification/Incremental.thy ===== *)
theory Incremental
  imports Prelude
begin

text \<open>
  Readers of a byte stream that arrives in pieces: a step consumes a non-empty prefix of the pending bytes, or asks
  for more. When a step that is possible stays the same with more bytes behind, what the reader produces depends
  only on the bytes and not on the pieces. The line reader of the console and the packet reader of the log server
  are such readers.
\<close>

function consume :: "('s \<Rightarrow> 'a list \<Rightarrow> ('s \<times> 'o list \<times> nat) option) \<Rightarrow> 's \<Rightarrow> 'a list \<Rightarrow> 's \<times> 'a list \<times> 'o list" where
  "consume step s xs =
     (case step s xs of
        None \<Rightarrow> (s, xs, [])
      | Some (s', out, k) \<Rightarrow>
          if k = 0 \<or> length xs < k then (s, xs, [])
          else let q = consume step s' (drop k xs) in (fst q, fst (snd q), out @ snd (snd q)))"
  by auto
termination by (relation "measure (\<lambda>(step, s, xs). length xs)") auto

declare consume.simps [simp del]

fun consumeChunks :: "('s \<Rightarrow> 'a list \<Rightarrow> ('s \<times> 'o list \<times> nat) option) \<Rightarrow> 's \<Rightarrow> 'a list \<Rightarrow> 'a list list \<Rightarrow>
    's \<times> 'a list \<times> 'o list" where
  "consumeChunks step s pending [] = (s, pending, [])"
| "consumeChunks step s pending (c # cs) =
     (let (s1, r1, o1) = consume step s (pending @ c); (s2, r2, o2) = consumeChunks step s1 r1 cs in (s2, r2, o1 @ o2))"

locale incremental =
  fixes step :: "'s \<Rightarrow> 'a list \<Rightarrow> ('s \<times> 'o list \<times> nat) option"
  assumes step_bound: "step s xs = Some (s', out, k) \<Longrightarrow> 0 < k \<and> k \<le> length xs"
    and step_more: "step s xs = Some r \<Longrightarrow> step s (xs @ ys) = Some r"
begin

lemma consume_wait: "step s xs = None \<Longrightarrow> consume step s xs = (s, xs, [])"
  by (simp add: consume.simps [of step s xs])

lemma consume_step:
  "step s xs = Some (s', out, k) \<Longrightarrow>
    consume step s xs = (let q = consume step s' (drop k xs) in (fst q, fst (snd q), out @ snd (snd q)))"
  using step_bound [of s xs s' out k] by (subst consume.simps) auto

lemma consume_append:
  "consume step s (a @ b) =
    (let (s1, r1, o1) = consume step s a; (s2, r2, o2) = consume step s1 (r1 @ b) in (s2, r2, o1 @ o2))"
proof (induction "length a" arbitrary: s a rule: less_induct)
  case less
  show ?case
  proof (cases "step s a")
    case None
    then show ?thesis by (simp add: consume_wait split_beta Let_def)
  next
    case (Some r)
    obtain s' out k where r: "r = (s', out, k)" by (cases r)
    have k: "0 < k" "k \<le> length a" using step_bound Some r by blast+
    have "consume step s (a @ b) =
        (let q = consume step s' (drop k a @ b) in (fst q, fst (snd q), out @ snd (snd q)))"
      using consume_step [of s "a @ b" s' out k] step_more [OF Some] r k by simp
    moreover have "consume step s' (drop k a @ b) =
        (let (s1, r1, o1) = consume step s' (drop k a); (s2, r2, o2) = consume step s1 (r1 @ b) in (s2, r2, o1 @ o2))"
      by (rule less) (use k in auto)
    ultimately show ?thesis using consume_step [of s a s' out k] Some r by (simp add: split_beta Let_def)
  qed
qed

lemma consume_idle: "consume step s a = (s1, r1, o1) \<Longrightarrow> consume step s1 r1 = (s1, r1, [])"
  using consume_append [of s a "[]"] by (auto simp: split_beta Let_def prod_eq_iff)

lemma chunks_concat:
  "step s pending = None \<Longrightarrow> consumeChunks step s pending cs = consume step s (pending @ concat cs)"
proof -
  have "consume step s pending = (s, pending, []) \<Longrightarrow> consumeChunks step s pending cs = consume step s (pending @ concat cs)"
    for s pending
  proof (induction cs arbitrary: s pending)
    case Nil
    then show ?case by simp
  next
    case (Cons c cs)
    obtain s1 r1 o1 where f: "consume step s (pending @ c) = (s1, r1, o1)" by (metis prod_cases3)
    have "consumeChunks step s1 r1 cs = consume step s1 (r1 @ concat cs)"
      by (rule Cons.IH [OF consume_idle [OF f]])
    then show ?case
      using f consume_append [of s "pending @ c" "concat cs"] by (simp add: split_beta Let_def)
  qed
  then show "step s pending = None \<Longrightarrow> consumeChunks step s pending cs = consume step s (pending @ concat cs)"
    by (simp add: consume_wait)
qed

text \<open>What every step keeps of the state, the whole run keeps.\<close>

lemma consume_keeps:
  assumes "\<And>s xs s' out k. step s xs = Some (s', out, k) \<Longrightarrow> P s \<Longrightarrow> P s'"
  shows "P s \<Longrightarrow> P (fst (consume step s xs))"
proof (induction "length xs" arbitrary: s xs rule: less_induct)
  case less
  show ?case
  proof (cases "step s xs")
    case None
    then show ?thesis using less.prems by (simp add: consume_wait)
  next
    case (Some r)
    obtain s' out k where r: "r = (s', out, k)" by (cases r)
    have k: "0 < k" "k \<le> length xs" using step_bound Some r by blast+
    have "P s'" using assms Some r less.prems by blast
    then have "P (fst (consume step s' (drop k xs)))" by (intro less.hyps) (use k in auto)
    then show ?thesis using consume_step [of s xs s' out k] Some r by (simp add: Let_def)
  qed
qed

text \<open>Complete items, one after the other.\<close>

lemma consume_items:
  assumes "\<And>x rest. x \<in> set xs \<Longrightarrow> step s (enc x @ rest) = Some (s, out x, length (enc x))" "step s [] = None"
  shows "consume step s (concat (map enc xs)) = (s, [], concat (map out xs))"
  using assms(1)
proof (induction xs)
  case Nil
  then show ?case using assms(2) by (simp add: consume_wait)
next
  case (Cons x xs)
  then show ?case using consume_step [of s "enc x @ concat (map enc xs)" s "out x" "length (enc x)"] by (simp add: Let_def)
qed

end

end
