(* ===== verification/Console.thy ===== *)
theory Console
  imports TextUtils TextFormat Incremental
begin

text \<open>
  The administration console: lines of a telnet connection (librzu/src/lib/NetSession/TelnetSession.cpp), the
  registry of commands (Console/ConsoleCommands.cpp) and the session that runs them (Console/ConsoleSession.cpp).
  A command's function is opaque: running it is an output.
\<close>

section \<open>Lines\<close>

text \<open>\<open>TelnetSession::parseData\<close>: the commands of the complete lines, and what stays in the buffer.\<close>

function telnetLoop :: "string \<Rightarrow> string list list \<times> string" where
  "telnetLoop buffer =
     (if LF \<in> set buffer then
        (let line = takeWhile (\<lambda>c. c \<noteq> LF) buffer @ [LF];
             r = telnetLoop (drop (length line) buffer)
         in (parseCommand line # fst r, snd r))
      else ([], buffer))"
  by auto
termination by (relation "measure length") (auto dest: length_pos_if_in_set intro: diff_less)

declare telnetLoop.simps [simp del]

definition telnetParseData :: "string \<Rightarrow> string \<Rightarrow> string list list \<times> string" where
  "telnetParseData buffer data = telnetLoop (buffer @ data)"

fun telnetReceived :: "string \<Rightarrow> string list \<Rightarrow> string list list \<times> string" where
  "telnetReceived buffer [] = ([], buffer)"
| "telnetReceived buffer (data # datas) =
     (let (cmds, buffer) = telnetParseData buffer data; (cmds', buffer) = telnetReceived buffer datas
      in (cmds @ cmds', buffer))"

section \<open>The registry\<close>

record command =
  cmd_name :: string
  cmd_alias :: string
  cmd_minArgNum :: int
  cmd_maxArgNum :: int
  cmd_helpString :: string
  cmd_usageExample :: string

type_synonym commands = "(string, command) umap"

definition addCommand :: "command \<Rightarrow> commands \<Rightarrow> commands" where
  "addCommand c cmds =
     (if cmd_name c = [] then cmds
      else if um_find cmds (cmd_name c) \<noteq> None then cmds
      else let cmds = um_insert (cmd_name c) c cmds
           in if cmd_alias c \<noteq> [] then um_insert (cmd_alias c) c cmds else cmds)"

definition removeCommand :: "string \<Rightarrow> commands \<Rightarrow> commands" where
  "removeCommand nm cmds =
     (case um_find cmds nm of None \<Rightarrow> cmds
      | Some c \<Rightarrow> let cmds = um_erase (cmd_name c) cmds
                  in if cmd_alias c \<noteq> [] then um_erase (cmd_alias c) cmds else cmds)"

definition getCommand :: "commands \<Rightarrow> string \<Rightarrow> command option" where
  "getCommand cmds nm = um_find cmds nm"

datatype call_status = CS_Success | CS_NotEnoughArgs | CS_TooMuchArgs

definition callStatus :: "command \<Rightarrow> string list \<Rightarrow> call_status" where
  "callStatus c args =
     (if int (length args) < cmd_minArgNum c then CS_NotEnoughArgs
      else if int (length args) > cmd_maxArgNum c then CS_TooMuchArgs else CS_Success)"

section \<open>The session\<close>

datatype console_out = ConsoleWrite string | ConsoleRun command "string list"

definition cstr :: "string \<Rightarrow> string" where "cstr s = takeWhile (\<lambda>c. c \<noteq> CHR 0x00) s"

text \<open>Text is written only while the connection is up; \<open>keeps c args\<close> tells whether it still is after the command.\<close>

definition consoleWrite :: "bool \<Rightarrow> string \<Rightarrow> console_out list" where
  "consoleWrite connected s = (if connected then [ConsoleWrite s] else [])"

definition printPrompt :: "bool \<Rightarrow> console_out list" where
  "printPrompt connected = consoleWrite connected ''> ''"

definition onCommand :: "(command \<Rightarrow> string list \<Rightarrow> bool) \<Rightarrow> commands \<Rightarrow> bool \<Rightarrow> string list \<Rightarrow> bool \<times> console_out list" where
  "onCommand keeps cmds connected args =
     (case args of
        [] \<Rightarrow> (connected, printPrompt connected)
      | commandName # commandArgs \<Rightarrow>
          (case getCommand cmds commandName of
             None \<Rightarrow> (connected, consoleWrite connected (''Unknown command : '' @ cstr commandName @ [CR, LF]) @ printPrompt connected)
           | Some c \<Rightarrow>
               (case callStatus c commandArgs of
                  CS_Success \<Rightarrow> (let connected = (connected \<and> keeps c commandArgs)
                               in (connected, ConsoleRun c commandArgs # printPrompt connected))
                | status \<Rightarrow> (connected,
                    consoleWrite connected ((if status = CS_NotEnoughArgs then ''Not enough arguments'' else ''Too many arguments'') @ [CR, LF]) @
                    consoleWrite connected (''Usage:'' @ [CR, LF] @ cstr (cmd_usageExample c) @ [CR, LF]) @
                    printPrompt connected))))"

fun runCommands :: "(command \<Rightarrow> string list \<Rightarrow> bool) \<Rightarrow> commands \<Rightarrow> bool \<Rightarrow> string list list \<Rightarrow> bool \<times> console_out list" where
  "runCommands keeps cmds connected [] = (connected, [])"
| "runCommands keeps cmds connected (args # rest) =
     (let (connected, out) = onCommand keeps cmds connected args; (connected, outs) = runCommands keeps cmds connected rest
      in (connected, out @ outs))"

definition consoleReceived :: "(command \<Rightarrow> string list \<Rightarrow> bool) \<Rightarrow> commands \<Rightarrow> bool \<Rightarrow> string \<Rightarrow> string list \<Rightarrow>
    (bool \<times> string) \<times> console_out list" where
  "consoleReceived keeps cmds connected buffer datas =
     (let (lines, buffer) = telnetReceived buffer datas; (connected, outs) = runCommands keeps cmds connected lines
      in ((connected, buffer), outs))"

section \<open>Lemmas\<close>

lemma telnetLoop_line:
  "LF \<notin> set line \<Longrightarrow> telnetLoop (line @ LF # rest) = (parseCommand (line @ [LF]) # fst (telnetLoop rest), snd (telnetLoop rest))"
proof -
  assume "LF \<notin> set line"
  then have "takeWhile (\<lambda>c. c \<noteq> LF) (line @ LF # rest) = line" by (induction line) auto
  then show ?thesis by (subst telnetLoop.simps) (simp add: Let_def)
qed

lemma telnetLoop_none: "LF \<notin> set buffer \<Longrightarrow> telnetLoop buffer = ([], buffer)"
  by (subst telnetLoop.simps) simp

text \<open>The line reader as an incremental reader.\<close>

definition line_step :: "unit \<Rightarrow> string \<Rightarrow> (unit \<times> string list list \<times> nat) option" where
  "line_step u buffer =
     (if LF \<in> set buffer then
        (let line = takeWhile (\<lambda>c. c \<noteq> LF) buffer @ [LF] in Some ((), [parseCommand line], length line))
      else None)"

lemma takeWhile_LF_bound: "LF \<in> set xs \<Longrightarrow> Suc (length (takeWhile (\<lambda>c. c \<noteq> LF) xs)) \<le> length xs"
  by (induction xs) auto

interpretation telnet_lines: incremental line_step
proof
  show "0 < k \<and> k \<le> length xs" if "line_step s xs = Some (s', out, k)" for s xs s' out k
    using that takeWhile_LF_bound [of xs] by (auto simp: line_step_def Let_def split: if_splits)
  show "line_step s (xs @ ys) = Some r" if "line_step s xs = Some r" for s xs r ys
    using that by (auto simp: line_step_def split: if_splits)
qed

lemma telnetLoop_consume: "consume line_step u buffer = ((), snd (telnetLoop buffer), fst (telnetLoop buffer))"
proof (induction buffer rule: telnetLoop.induct)
  case (1 buffer)
  show ?case
  proof (cases "LF \<in> set buffer")
    case False
    then have "line_step u buffer = None" by (simp add: line_step_def)
    from telnet_lines.consume_wait [OF this] show ?thesis using False by (simp add: telnetLoop_none)
  next
    case True
    let ?line = "takeWhile (\<lambda>c. c \<noteq> LF) buffer @ [LF]"
    have "line_step u buffer = Some ((), [parseCommand ?line], length ?line)" using True by (simp add: line_step_def Let_def)
    from telnet_lines.consume_step [OF this] show ?thesis
      using 1 [OF True refl] True by (simp add: telnetLoop.simps [of buffer] Let_def)
  qed
qed

lemma telnetReceived_consume:
  "consumeChunks line_step u buffer datas = ((), snd (telnetReceived buffer datas), fst (telnetReceived buffer datas))"
  by (induction datas arbitrary: buffer) (simp_all add: telnetLoop_consume telnetParseData_def split_beta Let_def)

lemma telnetReceived_concat:
  "LF \<notin> set buffer \<Longrightarrow> telnetReceived buffer datas = telnetLoop (buffer @ concat datas)"
  using telnet_lines.chunks_concat [of "()" buffer datas]
  by (simp add: telnetReceived_consume telnetLoop_consume line_step_def prod_eq_iff)

text \<open>How a user types an argument: in quotes, with its quotes doubled.\<close>

definition escaped :: "string \<Rightarrow> string" where
  "escaped a = concat (map (\<lambda>c. if c = QUOTE then [QUOTE, QUOTE] else [c]) a)"

definition quoted :: "string \<Rightarrow> string" where
  "quoted a = QUOTE # escaped a @ [QUOTE]"

definition typed :: "string list \<Rightarrow> string" where
  "typed args = concat (map (\<lambda>a. quoted a @ '' '') args)"

text \<open>An argument that is not made of quotes alone.\<close>

definition typable :: "string \<Rightarrow> bool" where
  "typable a \<longleftrightarrow> (\<exists>c\<in>set a. c \<noteq> QUOTE)"

lemma parse_open:
  "c \<noteq> QUOTE \<Longrightarrow> parseLoop (replicate (2 * n + 1) QUOTE @ c # r) False arg = parseLoop (c # r) True (arg @ replicate n QUOTE)"
proof (induction n arbitrary: arg)
  case (Suc n)
  have "replicate (2 * Suc n + 1) QUOTE @ c # r = QUOTE # QUOTE # replicate (2 * n + 1) QUOTE @ c # r" by simp
  then show ?case using Suc.IH [of "arg @ [QUOTE]"] Suc.prems
    by (simp del: replicate.simps) (simp add: replicate_append_same)
qed simp

lemma parse_inside:
  "r = [] \<or> hd r \<noteq> QUOTE \<Longrightarrow> parseLoop (escaped a @ QUOTE # r) True arg = parseLoop r False (arg @ a)"
  by (induction a arbitrary: arg) (cases r; auto simp: escaped_def)+

lemma typable_split: "typable a \<Longrightarrow> \<exists>n c b. a = replicate n QUOTE @ c # b \<and> c \<noteq> QUOTE"
proof (induction a)
  case (Cons x a)
  show ?case
  proof (cases "x = QUOTE")
    case True
    then have "typable a" using Cons.prems by (simp add: typable_def)
    then obtain n c b where "a = replicate n QUOTE @ c # b" "c \<noteq> QUOTE" using Cons.IH by blast
    then show ?thesis using True by (intro exI [of _ "Suc n"] exI [of _ c] exI [of _ b]) simp
  next
    case False
    then show ?thesis by (intro exI [of _ 0] exI [of _ x] exI [of _ a]) simp
  qed
qed (simp add: typable_def)

lemma escaped_quotes: "escaped (replicate n QUOTE @ b) = replicate (2 * n) QUOTE @ escaped b"
  by (induction n) (simp_all add: escaped_def)

lemma parse_quoted:
  assumes "typable a" shows "parseLoop (quoted a @ CHR '' '' # r) False [] = a # parseLoop r False []"
proof -
  obtain n c b where a: "a = replicate n QUOTE @ c # b" "c \<noteq> QUOTE" using typable_split [OF assms] by blast
  have esc: "escaped (c # b) = c # escaped b" using a(2) by (simp add: escaped_def)
  have "quoted a @ CHR '' '' # r = replicate (2 * n + 1) QUOTE @ c # escaped b @ QUOTE # CHR '' '' # r"
    using esc unfolding quoted_def a(1) by (simp add: escaped_quotes)
  then have "parseLoop (quoted a @ CHR '' '' # r) False [] = parseLoop (c # escaped b @ QUOTE # CHR '' '' # r) True (replicate n QUOTE)"
    using parse_open [OF a(2), of n _ "[]"] by (simp only: append_Nil)
  also have "\<dots> = parseLoop (escaped b @ QUOTE # CHR '' '' # r) True (replicate n QUOTE @ [c])"
    using a(2) by simp
  also have "\<dots> = parseLoop (CHR '' '' # r) False a"
    using parse_inside [of "CHR '' '' # r" b] a(1) by simp
  also have "\<dots> = a # parseLoop r False []" using a(1) by (simp add: isBlank_def)
  finally show ?thesis .
qed

lemma parse_typed: "\<forall>a\<in>set args. typable a \<Longrightarrow> parseCommand (typed args @ [CR, LF]) = args"
  unfolding parseCommand_def
proof (induction args)
  case (Cons a args)
  then show ?case using parse_quoted [of a "typed args @ [CR, LF]"] by (simp add: typed_def)
qed (simp add: typed_def isBlank_def)

lemma typed_no_LF: "\<forall>a\<in>set args. LF \<notin> set a \<Longrightarrow> LF \<notin> set (typed args)"
  by (auto simp: typed_def quoted_def escaped_def split: if_splits)

text \<open>A name and its command: the invariant of the registry.\<close>

definition commands_ok :: "commands \<Rightarrow> bool" where
  "commands_ok cmds \<longleftrightarrow> um_wf cmds \<and> (\<forall>k c. um_find cmds k = Some c \<longrightarrow> k \<noteq> [] \<and> (k = cmd_name c \<or> k = cmd_alias c))"

lemma commands_ok_add: "commands_ok cmds \<Longrightarrow> commands_ok (addCommand c cmds)"
  by (auto simp: commands_ok_def addCommand_def Let_def um.wf_insert um.find_insert)

lemma commands_ok_remove: "commands_ok cmds \<Longrightarrow> commands_ok (removeCommand nm cmds)"
  by (auto simp: commands_ok_def removeCommand_def Let_def um.wf_erase um.find_erase split: option.splits)

text \<open>A command whose alias was taken removes the owner of the alias.\<close>

lemma remove_takes_alias:
  "cmd_name a = ''a'' \<Longrightarrow> cmd_alias a = [] \<Longrightarrow> cmd_name b = ''b'' \<Longrightarrow> cmd_alias b = ''a'' \<Longrightarrow>
    getCommand (addCommand b (addCommand a [])) ''a'' = Some a \<and>
    getCommand (removeCommand ''b'' (addCommand b (addCommand a []))) ''a'' = None"
  by (auto simp: getCommand_def addCommand_def removeCommand_def um.find_insert um.find_erase Let_def)

section \<open>Results\<close>

text \<open>C21. A registered command, typed with its arguments in quotes and received in any pieces, runs exactly once with
  exactly these arguments, whatever characters but line feeds they contain (an argument made only of quotes can not
  be typed), and nothing is left in the line buffer.\<close>

theorem console_command_runs:
  "getCommand cmds nm = Some c \<Longrightarrow> callStatus c args = CS_Success \<Longrightarrow> keeps c args \<Longrightarrow>
    \<forall>a\<in>set (nm # args). typable a \<and> LF \<notin> set a \<Longrightarrow> concat datas = typed (nm # args) @ [CR, LF] \<Longrightarrow>
    consoleReceived keeps cmds True [] datas = ((True, []), [ConsoleRun c args, ConsoleWrite ''> ''])"
proof -
  assume c: "getCommand cmds nm = Some c" "callStatus c args = CS_Success" "keeps c args"
    and ok: "\<forall>a\<in>set (nm # args). typable a \<and> LF \<notin> set a" and data: "concat datas = typed (nm # args) @ [CR, LF]"
  have "telnetReceived [] datas = telnetLoop ((typed (nm # args) @ [CR]) @ LF # [])"
    using telnetReceived_concat [of "[]" datas] data by simp
  also have "\<dots> = ([nm # args], [])"
    using telnetLoop_line [of "typed (nm # args) @ [CR]" "[]"] typed_no_LF [of "nm # args"] parse_typed [of "nm # args"] ok
    by (simp add: telnetLoop_none)
  finally show ?thesis
    using c by (simp add: consoleReceived_def onCommand_def printPrompt_def consoleWrite_def)
qed

theorem console_command_runs_witness:
  "consoleReceived (\<lambda>c args. True)
     (addCommand \<lparr>cmd_name = ''config.get'', cmd_alias = ''get'', cmd_minArgNum = 0, cmd_maxArgNum = 1,
        cmd_helpString = [], cmd_usageExample = []\<rparr> []) True []
     [''\"g'', ''et\" \"a \"'', ''\"b\" '', [CR], [LF]] =
   ((True, []), [ConsoleRun \<lparr>cmd_name = ''config.get'', cmd_alias = ''get'', cmd_minArgNum = 0, cmd_maxArgNum = 1,
        cmd_helpString = [], cmd_usageExample = []\<rparr> [''a \"b''], ConsoleWrite ''> ''])"
  by (rule console_command_runs [of _ "''get''"])
     (simp_all add: getCommand_def addCommand_def um_find_def um_insert_def callStatus_def typable_def typed_def quoted_def
       escaped_def)

end
