(* ===== verification/NetStream.thy ===== *)
theory NetStream
  imports Prelude
begin

text \<open>
  Streams (librzu/src/lib/Stream/Stream.cpp): the state machine of a connection or a listening socket, its receive
  buffer and the notifications it sends. libuv is the environment: the results of its functions are inputs, its
  callbacks are events, and \<open>uv_ok\<close> is what it documents about them. Closing a handle twice is an assertion failure
  of libuv, hence \<open>None\<close>. Listeners are recorded as outputs.
\<close>

section \<open>State\<close>

datatype stream_state = UnconnectedState | ConnectingState | BindingState | ListeningState | ConnectedState | ClosingState

datatype stream_call = StateChanged stream_state stream_state bool | DataReady | IncomingConnection | StreamError int

text \<open>The last four fields are the state of the libuv handle: the requests it has not answered yet, whether it is
  being closed and whether it reads.\<close>

record net_stream =
  st_state :: stream_state
  st_recvBuffer :: bytes
  st_transfered :: bool
  st_causedByRemote :: bool
  st_calls :: "stream_call list"
  st_written :: bytes
  uv_connecting :: bool
  uv_shutting :: bool
  uv_closing :: bool
  uv_reading :: bool

definition newStream :: net_stream where
  "newStream = \<lparr>st_state = UnconnectedState, st_recvBuffer = [], st_transfered = True, st_causedByRemote = False,
     st_calls = [], st_written = [], uv_connecting = False, uv_shutting = False, uv_closing = False, uv_reading = False\<rparr>"

section \<open>libuv\<close>

definition uv_close :: "net_stream \<Rightarrow> net_stream option" where
  "uv_close s = (if uv_closing s then None else Some (s\<lparr>uv_closing := True, uv_reading := False\<rparr>))"

definition uv_read_start :: "net_stream \<Rightarrow> net_stream" where
  "uv_read_start s = s\<lparr>uv_reading := \<not> uv_closing s\<rparr>"

abbreviation "UV_EAGAIN \<equiv> - 11 :: int"

section \<open>Operations\<close>

definition setState :: "stream_state \<Rightarrow> bool \<Rightarrow> net_stream \<Rightarrow> net_stream" where
  "setState new causedByRemote s =
     (if new = st_state s then s
      else let s = s\<lparr>st_state := new, st_calls := st_calls s @ [StateChanged (st_state s) new causedByRemote]\<rparr>
           in if new = ClosingState then s\<lparr>st_causedByRemote := causedByRemote\<rparr>
              else if new = ConnectedState then (uv_read_start s)\<lparr>st_transfered := True\<rparr>
              else s)"

definition streamAbort :: "bool \<Rightarrow> net_stream \<Rightarrow> net_stream option" where
  "streamAbort causedByRemote s =
     (if st_state s = ClosingState \<or> st_state s = UnconnectedState then Some s
      else uv_close (setState ClosingState causedByRemote s))"

text \<open>\<open>shutdown\<close> is the result of \<open>uv_shutdown\<close>, which is only asked of a connected stream.\<close>

definition streamClose :: "int \<Rightarrow> bool \<Rightarrow> net_stream \<Rightarrow> net_stream option" where
  "streamClose shutdown causedByRemote s =
     (let old = st_state s
      in if old = ClosingState \<or> old = UnconnectedState then Some s
         else let s = setState ClosingState causedByRemote s
              in if old = ConnectedState \<and> shutdown \<ge> 0 then Some (s\<lparr>uv_shutting := True\<rparr>) else uv_close s)"

definition onStreamError :: "int \<Rightarrow> net_stream \<Rightarrow> net_stream option" where
  "onStreamError errorValue s =
     (let s = s\<lparr>st_calls := st_calls s @ [StreamError errorValue]\<rparr>
      in if st_state s \<noteq> ListeningState then streamAbort True s else Some s)"

definition bindBeforeConnect :: "int \<Rightarrow> net_stream \<Rightarrow> (bool \<times> net_stream) option" where
  "bindBeforeConnect result s =
     (if st_state s \<noteq> UnconnectedState then Some (False, s)
      else if result < 0 then map_option (Pair False) (onStreamError result s)
      else Some (True, s))"

definition streamConnect :: "int \<Rightarrow> net_stream \<Rightarrow> (bool \<times> net_stream) option" where
  "streamConnect result s =
     (if st_state s \<noteq> UnconnectedState then Some (False, s)
      else let s = setState ConnectingState True s
           in if result < 0 then map_option (Pair False) (onStreamError result s)
              else Some (True, s\<lparr>uv_connecting := True\<rparr>))"

definition streamListen :: "int \<Rightarrow> int \<Rightarrow> net_stream \<Rightarrow> (bool \<times> net_stream) option" where
  "streamListen bindResult listenResult s =
     (if st_state s \<noteq> UnconnectedState then Some (False, s)
      else let s = setState BindingState True s
           in if bindResult < 0 then map_option (Pair False) (onStreamError bindResult s)
              else if listenResult < 0 then map_option (Pair False) (onStreamError listenResult s)
              else Some (True, setState ListeningState True s))"

text \<open>\<open>accept\<close> on a listening stream makes the stream of the new client connected, given what \<open>uv_accept\<close> returns.\<close>

definition streamAccepted :: "net_stream \<Rightarrow> net_stream" where
  "streamAccepted client = setState ConnectedState True (client\<lparr>st_state := UnconnectedState\<rparr>)"

definition streamAccept :: "int \<Rightarrow> net_stream \<Rightarrow> net_stream \<Rightarrow> (bool \<times> net_stream \<times> net_stream) option" where
  "streamAccept result client s =
     (if result = UV_EAGAIN then Some (False, client, s)
      else if result < 0 then map_option (\<lambda>s. (False, client, s)) (onStreamError result s)
      else Some (True, streamAccepted client, s))"

definition streamRead :: "nat \<Rightarrow> net_stream \<Rightarrow> bytes \<times> net_stream" where
  "streamRead n s = (take n (st_recvBuffer s), s\<lparr>st_recvBuffer := drop n (st_recvBuffer s)\<rparr>)"

definition streamReadAll :: "net_stream \<Rightarrow> bytes \<times> net_stream" where
  "streamReadAll s = (st_recvBuffer s, s\<lparr>st_recvBuffer := []\<rparr>)"

definition streamDiscard :: "nat \<Rightarrow> net_stream \<Rightarrow> nat \<times> net_stream" where
  "streamDiscard n s = (min n (length (st_recvBuffer s)), s\<lparr>st_recvBuffer := drop n (st_recvBuffer s)\<rparr>)"

definition streamDiscardAll :: "net_stream \<Rightarrow> nat \<times> net_stream" where
  "streamDiscardAll s = (length (st_recvBuffer s), s\<lparr>st_recvBuffer := []\<rparr>)"

definition streamWrite :: "int \<Rightarrow> bytes \<Rightarrow> net_stream \<Rightarrow> (nat \<times> net_stream) option" where
  "streamWrite result data s =
     (if st_state s = ConnectedState then
        (if result < 0 then map_option (Pair 0) (onStreamError result s)
         else Some (length data, s\<lparr>st_written := st_written s @ data\<rparr>))
      else Some (0, s))"

text \<open>The kind of stream a connection URL asks for, and whether the present stream can be kept.\<close>

datatype stream_type = ST_Socket | ST_Pipe

definition parseConnectionUrl :: "string \<Rightarrow> stream_type \<times> string" where
  "parseConnectionUrl url = (if take 5 url = ''pipe:'' then (ST_Pipe, drop 5 url) else (ST_Socket, url))"

definition getStream :: "stream_type \<Rightarrow> (stream_type \<times> net_stream) option \<Rightarrow> (stream_type \<times> net_stream) \<times> bool" where
  "getStream type existing =
     (case existing of Some (t, s) \<Rightarrow> if t = type then ((t, s), False) else ((type, newStream), True)
      | None \<Rightarrow> ((type, newStream), True))"

section \<open>Callbacks of libuv\<close>

abbreviation "UV_EOF \<equiv> - 4095 :: int"
abbreviation "UV_ECONNRESET \<equiv> - 104 :: int"
abbreviation "UV_ECANCELED \<equiv> - 125 :: int"

definition onConnected :: "int \<Rightarrow> net_stream \<Rightarrow> net_stream option" where
  "onConnected status s =
     (let s = s\<lparr>uv_connecting := False\<rparr>
      in if status < 0 then onStreamError status s else Some (setState ConnectedState True s))"

definition onNewConnection :: "int \<Rightarrow> net_stream \<Rightarrow> net_stream option" where
  "onNewConnection status s =
     (if status < 0 then onStreamError status s
      else Some (s\<lparr>st_calls := st_calls s @ [IncomingConnection]\<rparr>))"

definition onReadCompleted :: "int \<Rightarrow> int \<Rightarrow> bytes \<Rightarrow> net_stream \<Rightarrow> net_stream option" where
  "onReadCompleted shutdown nread data s =
     (if nread = UV_EOF then streamClose shutdown True s
      else if nread = UV_ECONNRESET then streamAbort True s
      else if nread < 0 then onStreamError nread s
      else if nread > 0 then
        Some (s\<lparr>st_transfered := True, st_recvBuffer := st_recvBuffer s @ data, st_calls := st_calls s @ [DataReady]\<rparr>)
      else Some s)"

definition onWriteCompleted :: "int \<Rightarrow> net_stream \<Rightarrow> net_stream option" where
  "onWriteCompleted status s = (if status < 0 then onStreamError status s else Some (s\<lparr>st_transfered := True\<rparr>))"

definition onShutdownDone :: "int \<Rightarrow> net_stream \<Rightarrow> net_stream option" where
  "onShutdownDone status s = uv_close (s\<lparr>uv_shutting := False\<rparr>)"

definition onConnectionClosed :: "net_stream \<Rightarrow> net_stream" where
  "onConnectionClosed s =
     (setState UnconnectedState (st_causedByRemote s) (s\<lparr>uv_closing := False\<rparr>))\<lparr>st_causedByRemote := False\<rparr>"

section \<open>The machine\<close>

datatype stream_event =
    DoBind int | DoConnect int | DoListen int int | DoAccept int | DoAccepted | DoClose int bool | DoAbort bool | DoWrite int bytes | DoRead nat | DoReadAll | DoDiscard nat | DoDiscardAll
  | UvConnected int | UvNewConnection int | UvRead int int bytes | UvWritten int | UvShutdown int | UvClosed

fun stream_step :: "stream_event \<Rightarrow> net_stream \<Rightarrow> net_stream option" where
  "stream_step (DoBind r) s = map_option snd (bindBeforeConnect r s)"
| "stream_step (DoConnect r) s = map_option snd (streamConnect r s)"
| "stream_step (DoListen b l) s = map_option snd (streamListen b l s)"
| "stream_step (DoAccept r) s = map_option (\<lambda>(ok, client, s). s) (streamAccept r newStream s)"
| "stream_step DoAccepted s = Some (streamAccepted s)"
| "stream_step (DoClose r remote) s = streamClose r remote s"
| "stream_step (DoAbort remote) s = streamAbort remote s"
| "stream_step (DoWrite r data) s = map_option snd (streamWrite r data s)"
| "stream_step (DoRead n) s = Some (snd (streamRead n s))"
| "stream_step DoReadAll s = Some (snd (streamReadAll s))"
| "stream_step (DoDiscard n) s = Some (snd (streamDiscard n s))"
| "stream_step DoDiscardAll s = Some (snd (streamDiscardAll s))"
| "stream_step (UvConnected status) s = onConnected status s"
| "stream_step (UvNewConnection status) s = onNewConnection status s"
| "stream_step (UvRead r nread data) s = onReadCompleted r nread data s"
| "stream_step (UvWritten status) s = onWriteCompleted status s"
| "stream_step (UvShutdown status) s = onShutdownDone status s"
| "stream_step UvClosed s = Some (onConnectionClosed s)"

text \<open>What libuv promises: a request is answered once, writes only while the handle is
  open, a request pending when its handle is closed is cancelled
  before the close callback, a closing handle does not read, and \<open>nread\<close> counts the bytes delivered. A stream
  accepts a connection only into an unconnected one.\<close>

fun uv_ok :: "stream_event \<Rightarrow> net_stream \<Rightarrow> bool" where
  "uv_ok (UvConnected status) s \<longleftrightarrow> uv_connecting s \<and> (uv_closing s \<longrightarrow> status < 0)"
| "uv_ok (UvNewConnection status) s \<longleftrightarrow> st_state s = ListeningState"
| "uv_ok (UvRead r nread data) s \<longleftrightarrow> uv_reading s \<and> (nread > 0 \<longrightarrow> int (length data) = nread)"
| "uv_ok (UvWritten status) s \<longleftrightarrow> st_state s = ConnectedState \<or> st_state s = ClosingState"
| "uv_ok (UvShutdown status) s \<longleftrightarrow> uv_shutting s"
| "uv_ok UvClosed s \<longleftrightarrow> uv_closing s \<and> \<not> uv_connecting s \<and> \<not> uv_shutting s"
| "uv_ok DoAccepted s \<longleftrightarrow> st_state s = UnconnectedState"
| "uv_ok _ s \<longleftrightarrow> True"

section \<open>The invariant\<close>

definition uv_state_ok :: "net_stream \<Rightarrow> bool" where
  "uv_state_ok s \<longleftrightarrow> (case st_state s of
      UnconnectedState \<Rightarrow> \<not> uv_connecting s \<and> \<not> uv_shutting s \<and> \<not> uv_closing s \<and> \<not> uv_reading s
    | ConnectingState \<Rightarrow> uv_connecting s \<and> \<not> uv_shutting s \<and> \<not> uv_closing s \<and> \<not> uv_reading s
    | BindingState \<Rightarrow> False
    | ListeningState \<Rightarrow> \<not> uv_connecting s \<and> \<not> uv_shutting s \<and> \<not> uv_closing s \<and> \<not> uv_reading s
    | ConnectedState \<Rightarrow> \<not> uv_connecting s \<and> \<not> uv_shutting s \<and> \<not> uv_closing s \<and> uv_reading s
    | ClosingState \<Rightarrow> uv_shutting s \<noteq> uv_closing s \<and> (uv_connecting s \<longrightarrow> uv_closing s) \<and> (uv_closing s \<longrightarrow> \<not> uv_reading s))"

text \<open>What listeners see: the changes form a path of the life cycle, and data and connections arrive only in the
  states that have them. The result is the state at the end of the path.\<close>

fun allowed :: "stream_state \<Rightarrow> stream_state \<Rightarrow> bool" where
  "allowed UnconnectedState new \<longleftrightarrow> new = ConnectingState \<or> new = BindingState \<or> new = ConnectedState"
| "allowed ConnectingState new \<longleftrightarrow> new = ConnectedState \<or> new = ClosingState"
| "allowed BindingState new \<longleftrightarrow> new = ListeningState \<or> new = ClosingState"
| "allowed ListeningState new \<longleftrightarrow> new = ClosingState"
| "allowed ConnectedState new \<longleftrightarrow> new = ClosingState"
| "allowed ClosingState new \<longleftrightarrow> new = UnconnectedState"

fun life :: "stream_call list \<Rightarrow> stream_state \<Rightarrow> stream_state option" where
  "life [] st = Some st"
| "life (StateChanged old new remote # cs) st = (if old = st \<and> allowed old new then life cs new else None)"
| "life (DataReady # cs) st = (if st = ConnectedState \<or> st = ClosingState then life cs st else None)"
| "life (IncomingConnection # cs) st = (if st = ListeningState then life cs st else None)"
| "life (StreamError e # cs) st = life cs st"

definition stream_inv :: "net_stream \<Rightarrow> bool" where
  "stream_inv s \<longleftrightarrow> uv_state_ok s \<and> life (st_calls s) UnconnectedState = Some (st_state s)"

lemma life_append: "life (as @ bs) st = (case life as st of None \<Rightarrow> None | Some st' \<Rightarrow> life bs st')"
  by (induction as st rule: life.induct) auto

lemmas stream_defs = setState_def streamAbort_def streamClose_def onStreamError_def uv_close_def uv_read_start_def
  stream_inv_def uv_state_ok_def life_append

lemma stream_inv_new: "stream_inv newStream"
  by (simp add: stream_inv_def uv_state_ok_def newStream_def)

lemma inv_abort: "stream_inv s \<Longrightarrow> \<exists>t. streamAbort b s = Some t \<and> stream_inv t"
  by (cases "st_state s") (auto simp: stream_defs)

lemma inv_close: "stream_inv s \<Longrightarrow> \<exists>t. streamClose r b s = Some t \<and> stream_inv t"
  by (cases "st_state s") (auto simp: stream_defs Let_def)

lemma inv_error: "stream_inv s \<Longrightarrow> \<exists>t. onStreamError e s = Some t \<and> stream_inv t"
  by (cases "st_state s") (auto simp: stream_defs Let_def)

lemma inv_step: "stream_inv s \<Longrightarrow> uv_ok e s \<Longrightarrow> \<exists>t. stream_step e s = Some t \<and> stream_inv t"
proof (cases e)
  case (DoBind r)
  assume i: "stream_inv s"
  then show ?thesis using inv_error [OF i, of r] DoBind by (auto simp: bindBeforeConnect_def)
next
  case (DoAccept r)
  assume i: "stream_inv s"
  then show ?thesis using inv_error [OF i, of r] DoAccept by (auto simp: streamAccept_def)
next
  case (DoConnect r)
  assume "stream_inv s"
  then show ?thesis using DoConnect
    by (cases "st_state s") (auto simp: streamConnect_def stream_defs Let_def)
next
  case (DoListen b l)
  assume "stream_inv s"
  then show ?thesis using DoListen
    by (cases "st_state s") (auto simp: streamListen_def stream_defs Let_def)
next
  case DoAccepted
  assume "stream_inv s" "uv_ok e s"
  then show ?thesis using DoAccepted
    by (cases "st_state s") (auto simp: streamAccepted_def stream_defs Let_def)
next
  case (DoWrite r data)
  assume i: "stream_inv s"
  show ?thesis
  proof (cases "r < 0")
    case True
    then show ?thesis using inv_error [OF i, of r] i DoWrite by (auto simp: streamWrite_def)
  next
    case False
    then show ?thesis using i DoWrite by (auto simp: streamWrite_def stream_inv_def uv_state_ok_def split: stream_state.splits)
  qed
next
  case (UvConnected status)
  assume "stream_inv s" "uv_ok e s"
  then show ?thesis using UvConnected
    by (cases "st_state s") (auto simp: onConnected_def stream_defs Let_def)
next
  case (UvNewConnection status)
  assume "stream_inv s" "uv_ok e s"
  then show ?thesis using UvNewConnection
    by (cases "st_state s") (auto simp: onNewConnection_def stream_defs Let_def)
next
  case (UvRead r nread data)
  assume i: "stream_inv s" and ok: "uv_ok e s"
  have "st_state s = ConnectedState \<or> st_state s = ClosingState"
    using i ok UvRead by (cases "st_state s") (auto simp: stream_inv_def uv_state_ok_def)
  then show ?thesis
    using inv_close [OF i, of r True] inv_abort [OF i, of True] inv_error [OF i, of nread] i UvRead
    by (auto simp: onReadCompleted_def stream_inv_def uv_state_ok_def life_append split: stream_state.splits)
next
  case (UvWritten status)
  assume i: "stream_inv s"
  then show ?thesis using inv_error [OF i, of status] UvWritten
    by (cases "status < 0") (auto simp: onWriteCompleted_def stream_inv_def uv_state_ok_def split: stream_state.splits)
next
  case (UvShutdown status)
  assume "stream_inv s" "uv_ok e s"
  then show ?thesis using UvShutdown
    by (cases "st_state s") (auto simp: onShutdownDone_def stream_defs)
next
  case UvClosed
  assume "stream_inv s" "uv_ok e s"
  then show ?thesis using UvClosed
    by (cases "st_state s") (auto simp: onConnectionClosed_def stream_defs Let_def)
qed (use inv_close inv_abort in \<open>auto simp: streamRead_def streamReadAll_def streamDiscard_def streamDiscardAll_def stream_inv_def uv_state_ok_def
       split: stream_state.splits\<close>)

interpretation streams: safe_machine stream_step stream_inv uv_ok
proof
  show "\<exists>t. stream_step e s = Some t" if "stream_inv s" "uv_ok e s" for e s using inv_step [OF that] by blast
  show "stream_inv t" if "stream_inv s" "uv_ok e s" "stream_step e s = Some t" for e s t
    using inv_step [OF that(1,2)] that(3) by auto
qed

text \<open>The callbacks libuv still owes a handle, in the order it delivers them.\<close>

definition owed :: "net_stream \<Rightarrow> stream_event list" where
  "owed s = (if uv_connecting s then [UvConnected UV_ECANCELED] else []) @ (if uv_shutting s then [UvShutdown 0] else []) @
     (if uv_closing s \<or> uv_shutting s then [UvClosed] else [])"

lemma owed_close:
  assumes "stream_inv s" "st_state s = ClosingState"
  shows "run_ok stream_step uv_ok (owed s) s \<and> length (owed s) \<le> 2 \<and>
    (\<exists>t. run stream_step (owed s) s = Some t \<and> st_state t = UnconnectedState \<and>
       st_calls t = st_calls s @ (if uv_connecting s then [StreamError UV_ECANCELED] else []) @
         [StateChanged ClosingState UnconnectedState (st_causedByRemote s)])"
  using assms
  by (cases "uv_shutting s"; cases "uv_connecting s")
     (auto simp: owed_def stream_inv_def uv_state_ok_def onConnected_def onShutdownDone_def onConnectionClosed_def
        onStreamError_def streamAbort_def uv_close_def setState_def Let_def)

section \<open>Results\<close>

text \<open>C22. However the program and libuv drive a stream, no operation closes its handle twice, its listeners see a path of
  the life cycle (every connection attempt ends in one connection or one closing, every closing in one
  disconnection), and data arrives only between connection and disconnection.\<close>

theorem stream_lifecycle:
  "run_ok stream_step uv_ok es newStream \<Longrightarrow>
    \<exists>s. run stream_step es newStream = Some s \<and> life (st_calls s) UnconnectedState = Some (st_state s)"
  using streams.run_safe [OF stream_inv_new] stream_inv_def by blast

theorem stream_lifecycle_witness:
  "\<exists>s. run stream_step [DoConnect 0, UvConnected 0, UvRead 0 2 [1, 2], DoClose 0 False, UvShutdown 0, DoAbort True, UvClosed]
      newStream = Some s \<and> life (st_calls s) UnconnectedState = Some (st_state s)"
  by (rule stream_lifecycle)
     (simp add: newStream_def streamConnect_def onConnected_def onReadCompleted_def streamClose_def onShutdownDone_def
        streamAbort_def onConnectionClosed_def stream_defs Let_def)

text \<open>C23. Closing a stream ends: from every reachable state that is not unconnected, \<open>close\<close> starts the closing, which
  libuv's at most two outstanding callbacks complete, with exactly one disconnection notified.\<close>

theorem stream_close_completes:
  "run_ok stream_step uv_ok es newStream \<Longrightarrow> run stream_step es newStream = Some s \<Longrightarrow>
    st_state s \<noteq> UnconnectedState \<Longrightarrow>
    \<exists>s' t. streamClose r remote s = Some s' \<and> st_state s' = ClosingState \<and> length (owed s') \<le> 2 \<and>
      run_ok stream_step uv_ok (owed s') s' \<and> run stream_step (owed s') s' = Some t \<and> st_state t = UnconnectedState \<and>
      filter (\<lambda>c. \<exists>o' b. c = StateChanged o' UnconnectedState b) (st_calls t) =
        filter (\<lambda>c. \<exists>o' b. c = StateChanged o' UnconnectedState b) (st_calls s) @
          [StateChanged ClosingState UnconnectedState (st_causedByRemote s')]"
proof -
  assume r: "run_ok stream_step uv_ok es newStream" "run stream_step es newStream = Some s" "st_state s \<noteq> UnconnectedState"
  have i: "stream_inv s" using streams.run_safe [OF stream_inv_new r(1)] r(2) by auto
  obtain s' where s': "streamClose r remote s = Some s'" "stream_inv s'" using inv_close [OF i] by blast
  have c: "st_state s' = ClosingState"
      "filter (\<lambda>c. \<exists>o' b. c = StateChanged o' UnconnectedState b) (st_calls s') =
        filter (\<lambda>c. \<exists>o' b. c = StateChanged o' UnconnectedState b) (st_calls s)"
    using s'(1) r(3) by (auto simp: streamClose_def setState_def uv_close_def Let_def split: if_splits)
  show ?thesis using owed_close [OF s'(2) c(1)] s'(1) c by fastforce
qed

theorem stream_close_completes_witness:
  "\<exists>s s' t. run stream_step [DoListen 0 0] newStream = Some s \<and> streamClose 0 True s = Some s' \<and>
     st_state s' = ClosingState \<and> length (owed s') \<le> 2 \<and> run stream_step (owed s') s' = Some t \<and> st_state t = UnconnectedState"
proof -
  let ?s = "setState ListeningState True (setState BindingState True newStream)"
  have r: "run stream_step [DoListen 0 0] newStream = Some ?s" "run_ok stream_step uv_ok [DoListen 0 0] newStream"
      "st_state ?s \<noteq> UnconnectedState"
    by (simp_all add: streamListen_def newStream_def setState_def)
  from stream_close_completes [OF r(2,1,3), of 0 True] r(1) show ?thesis by blast
qed

text \<open>Bytes not read before a connection ended are not discarded: after a reconnection of the same stream they come
  first, before everything the new peer sends.\<close>

lemma stale_bytes_after_reconnect:
  "stream_inv s \<Longrightarrow> st_state s = ConnectedState \<Longrightarrow> data \<noteq> [] \<Longrightarrow>
    \<exists>t. run stream_step [DoAbort remote, UvClosed, DoConnect 0, UvConnected 0, UvRead 0 (int (length data)) data] s = Some t \<and>
      st_state t = ConnectedState \<and> st_recvBuffer t = st_recvBuffer s @ data"
  by (auto simp: streamAbort_def uv_close_def setState_def onConnectionClosed_def streamConnect_def onConnected_def
        uv_read_start_def onReadCompleted_def stream_inv_def uv_state_ok_def Let_def)

lemma stale_bytes_after_reconnect_witness:
  "\<exists>t. run stream_step [DoConnect 0, UvConnected 0, UvRead 0 1 [7], DoAbort False, UvClosed, DoConnect 0, UvConnected 0,
      UvRead 0 2 [1, 2]] newStream = Some t \<and> st_recvBuffer t = [7, 1, 2]"
proof -
  obtain s where s: "run stream_step [DoConnect 0, UvConnected 0, UvRead 0 1 [7]] newStream = Some s" "stream_inv s"
      "st_state s = ConnectedState" "st_recvBuffer s = [7]"
    by (auto simp: streamConnect_def onConnected_def onReadCompleted_def newStream_def stream_defs Let_def)
  show ?thesis
    using stale_bytes_after_reconnect [OF s(2,3), of "[1, 2]" False] s(1,4)
    by (auto split: option.splits)
qed

end
