(* ===== verification/BanServer.thy ===== *)
theory BanServer
  imports NetStream
begin

text \<open>
  Listening servers and their address bans: addresses (librzu/src/lib/Stream/StreamAddress.cpp), the ban manager
  (NetSession/BanManager.cpp) and the server that accepts connections into sessions and drops them when their
  stream ends (NetSession/SessionServer.cpp, SocketSession.cpp). A counter of the ban manager is an \<open>int32_t\<close>
  incremented once per connection; it is an integer here. Log output is left out.
\<close>

section \<open>Addresses\<close>

datatype address = Ipv4 bytes | Ipv6 bytes | PipeAddress string

record stream_address =
  sa_address :: address
  sa_port :: u16

text \<open>\<open>uv_inet_pton\<close> for either family is a parameter.\<close>

definition setFromName :: "(string \<Rightarrow> bytes option) \<Rightarrow> (string \<Rightarrow> bytes option) \<Rightarrow> string \<Rightarrow> address option" where
  "setFromName pton4 pton6 ipStr =
     (if take 5 ipStr = ''pipe:'' then Some (PipeAddress (drop 5 ipStr))
      else if CHR '':'' \<in> set ipStr then map_option Ipv6 (pton6 ipStr)
      else map_option Ipv4 (pton4 ipStr))"

section \<open>The ban manager\<close>

record ip_data =
  ip_connectedClients :: int
  ip_connectionThisDay :: int

record ban_manager =
  bm_maxConnectionPerDayPerIp :: int
  bm_maxClientPerIp :: int
  bm_bannedIps :: "stream_address set"
  bm_ipDatas :: "(stream_address, ip_data) umap"

definition newBanManager :: "int \<Rightarrow> int \<Rightarrow> ban_manager" where
  "newBanManager maxDay maxClient = \<lparr>bm_maxConnectionPerDayPerIp = maxDay, bm_maxClientPerIp = maxClient,
     bm_bannedIps = {}, bm_ipDatas = []\<rparr>"

definition ipData :: "stream_address \<Rightarrow> ban_manager \<Rightarrow> ip_data" where
  "ipData ip bm = (case um_find (bm_ipDatas bm) ip of Some d \<Rightarrow> d
     | None \<Rightarrow> \<lparr>ip_connectedClients = 0, ip_connectionThisDay = 0\<rparr>)"

definition setIpData :: "stream_address \<Rightarrow> ip_data \<Rightarrow> ban_manager \<Rightarrow> ban_manager" where
  "setIpData ip d bm = bm\<lparr>bm_ipDatas := AList.update ip d (bm_ipDatas bm)\<rparr>"

definition onTimerExpire :: "ban_manager \<Rightarrow> ban_manager" where
  "onTimerExpire bm = bm\<lparr>bm_ipDatas := map (\<lambda>(ip, d). (ip, d\<lparr>ip_connectionThisDay := 0\<rparr>)) (bm_ipDatas bm)\<rparr>"

text \<open>\<open>fgets\<close> with a buffer of 512: pieces of at most 511 characters, each up to a line feed.\<close>

function fgetsLines :: "string \<Rightarrow> string list" where
  "fgetsLines file =
     (if file = [] then []
      else let chunk = take 511 file;
               line = (if CHR 0x0A \<in> set chunk then takeWhile (\<lambda>c. c \<noteq> CHR 0x0A) chunk @ [CHR 0x0A] else chunk)
           in line # fgetsLines (drop (length line) file))"
  by auto
termination
  by (relation "measure length") (auto simp: Let_def split: if_splits)

declare fgetsLines.simps [simp del]

definition ishex :: "char \<Rightarrow> bool" where
  "ishex c = (let n = of_char c :: nat in 48 \<le> n \<and> n \<le> 57 \<or> 97 \<le> n \<and> n \<le> 102 \<or> 65 \<le> n \<and> n \<le> 70)"

definition lineAddress :: "string \<Rightarrow> string" where
  "lineAddress line = takeWhile (\<lambda>c. ishex c \<or> c = CHR ''.'' \<or> c = CHR '':'') line"

definition fileAddresses :: "(string \<Rightarrow> bytes option) \<Rightarrow> (string \<Rightarrow> bytes option) \<Rightarrow> string \<Rightarrow> stream_address list" where
  "fileAddresses pton4 pton6 file = List.map_filter (\<lambda>line.
     if lineAddress line = [] then None
     else map_option (\<lambda>a. \<lparr>sa_address = a, sa_port = 0\<rparr>) (setFromName pton4 pton6 (lineAddress line))) (fgetsLines file)"

text \<open>The two limits are read from the configuration; the file is \<open>None\<close> when it can not be opened.\<close>

definition loadFile :: "(string \<Rightarrow> bytes option) \<Rightarrow> (string \<Rightarrow> bytes option) \<Rightarrow> int \<Rightarrow> int \<Rightarrow> string option \<Rightarrow> ban_manager \<Rightarrow> ban_manager" where
  "loadFile pton4 pton6 maxDay maxClient file bm =
     (let bm = bm\<lparr>bm_maxConnectionPerDayPerIp := maxDay, bm_maxClientPerIp := maxClient\<rparr>
      in case file of None \<Rightarrow> bm
         | Some content \<Rightarrow> bm\<lparr>bm_bannedIps := set (fileAddresses pton4 pton6 content)\<rparr>)"

definition checkAcceptNewClient :: "stream_address \<Rightarrow> ban_manager \<Rightarrow> bool \<times> ban_manager" where
  "checkAcceptNewClient ip0 bm =
     (let ip = ip0\<lparr>sa_port := 0\<rparr>
      in if ip \<in> bm_bannedIps bm then (False, bm)
         else if bm_maxConnectionPerDayPerIp bm = 0 \<and> bm_maxClientPerIp bm = 0 then (True, bm)
         else let d = ipData ip bm; bm = setIpData ip d bm
              in if bm_maxConnectionPerDayPerIp bm > 0 \<and> ip_connectionThisDay d \<ge> bm_maxConnectionPerDayPerIp bm then
                   (False, bm\<lparr>bm_bannedIps := insert ip (bm_bannedIps bm)\<rparr>)
                 else let d = d\<lparr>ip_connectionThisDay := ip_connectionThisDay d + 1\<rparr>; bm = setIpData ip d bm
                      in if bm_maxClientPerIp bm > 0 \<and> ip_connectedClients d \<ge> bm_maxClientPerIp bm then (False, bm)
                         else (True, setIpData ip (d\<lparr>ip_connectedClients := ip_connectedClients d + 1\<rparr>) bm))"

definition closedClient :: "stream_address \<Rightarrow> ban_manager \<Rightarrow> ban_manager" where
  "closedClient ip0 bm =
     (let ip = ip0\<lparr>sa_port := 0\<rparr>
      in case um_find (bm_ipDatas bm) ip of None \<Rightarrow> bm
         | Some d \<Rightarrow> if ip_connectedClients d > 0
             then setIpData ip (d\<lparr>ip_connectedClients := ip_connectedClients d - 1\<rparr>) bm else bm)"

definition banIp :: "stream_address \<Rightarrow> ban_manager \<Rightarrow> ban_manager" where
  "banIp ip bm = bm\<lparr>bm_bannedIps := insert ip (bm_bannedIps bm)\<rparr>"

section \<open>The server\<close>

text \<open>\<open>ss_listener\<close> is the server socket, \<open>ss_sessions\<close> the heap of sessions with their streams, \<open>ss_sockets\<close> the
  table of open sessions. The ban manager is optional.\<close>

record session_server =
  ss_open :: bool
  ss_listener :: "net_stream option"
  ss_sockets :: "(nat, stream_address) umap"
  ss_sessions :: "nat \<Rightarrow> net_stream option"
  ss_nextAddr :: nat
  ss_ban :: "ban_manager option"

definition newServer :: "ban_manager option \<Rightarrow> session_server" where
  "newServer ban = \<lparr>ss_open = False, ss_listener = None, ss_sockets = [], ss_sessions = Map.empty, ss_nextAddr = 1, ss_ban = ban\<rparr>"

text \<open>What the environment gives to \<open>start\<close>: the configuration and ban file, and the results of bind and listen.\<close>

record start_env =
  se_pton4 :: "string \<Rightarrow> bytes option"
  se_pton6 :: "string \<Rightarrow> bytes option"
  se_maxDay :: int
  se_maxClient :: int
  se_file :: "string option"
  se_bind :: int
  se_listen :: int

definition isStarted :: "session_server \<Rightarrow> bool" where
  "isStarted ss \<longleftrightarrow> (case ss_listener ss of None \<Rightarrow> False | Some l \<Rightarrow> st_state l = ListeningState)"

definition serverStart :: "start_env \<Rightarrow> session_server \<Rightarrow> session_server option" where
  "serverStart env ss =
     (if isStarted ss then Some ss
      else let ss = ss\<lparr>ss_ban := map_option (loadFile (se_pton4 env) (se_pton6 env) (se_maxDay env) (se_maxClient env) (se_file env)) (ss_ban ss),
                    ss_open := True\<rparr>;
               l = (case ss_listener ss of None \<Rightarrow> newStream | Some l \<Rightarrow> l)
           in map_option (\<lambda>(ok, l). ss\<lparr>ss_listener := Some l\<rparr>) (streamListen (se_bind env) (se_listen env) l))"

text \<open>Closing all sessions of the table; \<open>r\<close> gives the result of \<open>uv_shutdown\<close> for each.\<close>

fun closeSessions :: "(nat \<Rightarrow> int) \<Rightarrow> (nat \<times> stream_address) list \<Rightarrow> session_server \<Rightarrow> session_server option" where
  "closeSessions r [] ss = Some ss"
| "closeSessions r ((s, a) # es) ss =
     (case ss_sessions ss s of None \<Rightarrow> None
      | Some st \<Rightarrow> (case streamClose (r s) False st of None \<Rightarrow> None
          | Some st' \<Rightarrow> closeSessions r es (ss\<lparr>ss_sessions := (ss_sessions ss)(s \<mapsto> st')\<rparr>)))"

text \<open>\<open>stop\<close> dereferences the server socket whether or not there is one.\<close>

definition serverStop :: "(nat \<Rightarrow> int) \<Rightarrow> session_server \<Rightarrow> session_server option" where
  "serverStop r ss =
     (case ss_listener ss of None \<Rightarrow> None
      | Some l \<Rightarrow> (case streamClose 0 False l of None \<Rightarrow> None
          | Some l' \<Rightarrow> closeSessions r (ss_sockets ss) (ss\<lparr>ss_listener := Some l', ss_open := False\<rparr>)))"

definition socketClosed :: "nat \<Rightarrow> session_server \<Rightarrow> session_server" where
  "socketClosed s ss =
     (case um_find (ss_sockets ss) s of None \<Rightarrow> ss
      | Some a \<Rightarrow> ss\<lparr>ss_ban := map_option (closedClient a) (ss_ban ss), ss_sockets := um_erase s (ss_sockets ss)\<rparr>)"

text \<open>A connection is waiting from \<open>remote\<close>; \<open>None\<close> when \<open>uv_accept\<close> finds none.\<close>

definition serverNewConnection :: "stream_address option \<Rightarrow> session_server \<Rightarrow> session_server" where
  "serverNewConnection remote ss =
     (if \<not> ss_open ss then ss
      else case remote of None \<Rightarrow> ss
        | Some a \<Rightarrow>
            (let (ok, ban) = (case ss_ban ss of None \<Rightarrow> (True, None)
               | Some bm \<Rightarrow> let (ok, bm) = checkAcceptNewClient a bm in (ok, Some bm));
                 ss = ss\<lparr>ss_ban := ban\<rparr>; s = ss_nextAddr ss
             in if ok then ss\<lparr>ss_nextAddr := s + 1, ss_sessions := (ss_sessions ss)(s \<mapsto> streamAccepted newStream),
                    ss_sockets := um_insert s a (ss_sockets ss)\<rparr>
                else ss))"

text \<open>\<open>onCheckIdleSockets\<close>: a session that moved no data since the last check is closed.\<close>

fun checkIdle :: "(nat \<Rightarrow> int) \<Rightarrow> (nat \<times> stream_address) list \<Rightarrow> session_server \<Rightarrow> session_server option" where
  "checkIdle r [] ss = Some ss"
| "checkIdle r ((s, a) # es) ss =
     (case ss_sessions ss s of None \<Rightarrow> None
      | Some st \<Rightarrow>
          (if st_state st = ConnectedState then
             (if \<not> st_transfered st then
                (case streamClose (r s) False st of None \<Rightarrow> None
                 | Some st' \<Rightarrow> checkIdle r es (ss\<lparr>ss_sessions := (ss_sessions ss)(s \<mapsto> st')\<rparr>))
              else checkIdle r es (ss\<lparr>ss_sessions := (ss_sessions ss)(s \<mapsto> st\<lparr>st_transfered := False\<rparr>)\<rparr>))
           else checkIdle r es ss))"

definition onCheckIdleSockets :: "(nat \<Rightarrow> int) \<Rightarrow> session_server \<Rightarrow> session_server option" where
  "onCheckIdleSockets r ss = checkIdle r (ss_sockets ss) ss"

text \<open>What happens to the stream of a session; when it becomes unconnected the session leaves the server and is
  deleted (\<open>SocketSession::onSocketStateChanged\<close>).\<close>

definition sessionEvent :: "nat \<Rightarrow> stream_event \<Rightarrow> session_server \<Rightarrow> session_server option" where
  "sessionEvent s e ss =
     (case ss_sessions ss s of None \<Rightarrow> None
      | Some st \<Rightarrow> (case stream_step e st of None \<Rightarrow> None
          | Some st' \<Rightarrow>
              if st_state st' = UnconnectedState \<and> st_state st \<noteq> UnconnectedState
              then Some ((socketClosed s ss)\<lparr>ss_sessions := (ss_sessions ss)(s := None)\<rparr>)
              else Some (ss\<lparr>ss_sessions := (ss_sessions ss)(s \<mapsto> st')\<rparr>)))"

datatype server_event =
    ServerStart start_env | ServerStop "nat \<Rightarrow> int" | ServerAccept "stream_address option" | ServerListener stream_event
  | ServerSession nat stream_event | ServerIdle "nat \<Rightarrow> int" | ServerDay | ServerBan stream_address

fun server_step :: "server_event \<Rightarrow> session_server \<Rightarrow> session_server option" where
  "server_step (ServerStart env) ss = serverStart env ss"
| "server_step (ServerStop r) ss = serverStop r ss"
| "server_step (ServerAccept remote) ss = Some (serverNewConnection remote ss)"
| "server_step (ServerListener e) ss =
     (case ss_listener ss of None \<Rightarrow> None
      | Some l \<Rightarrow> map_option (\<lambda>l. ss\<lparr>ss_listener := Some l\<rparr>) (stream_step e l))"
| "server_step (ServerSession s e) ss = sessionEvent s e ss"
| "server_step (ServerIdle r) ss = onCheckIdleSockets r ss"
| "server_step ServerDay ss = Some (ss\<lparr>ss_ban := map_option onTimerExpire (ss_ban ss)\<rparr>)"
| "server_step (ServerBan ip) ss = Some (ss\<lparr>ss_ban := map_option (banIp ip) (ss_ban ss)\<rparr>)"

section \<open>The invariant\<close>

text \<open>The open sessions from an address, whatever their port.\<close>

definition openFrom :: "stream_address \<Rightarrow> (nat, stream_address) umap \<Rightarrow> nat" where
  "openFrom ip m = length (filter (\<lambda>e. (snd e)\<lparr>sa_port := 0\<rparr> = ip) m)"

lemma openFrom_Nil [simp]: "openFrom ip [] = 0"
  by (simp add: openFrom_def)

lemma openFrom_insert:
  "um_find m s = None \<Longrightarrow> openFrom ip (um_insert s a m) = openFrom ip m + (if a\<lparr>sa_port := 0\<rparr> = ip then 1 else 0)"
  by (simp add: openFrom_def um_insert_def um_find_def)

lemma openFrom_erase:
  "um_wf m \<Longrightarrow> um_find m s = Some a \<Longrightarrow> openFrom ip m = openFrom ip (um_erase s m) + (if a\<lparr>sa_port := 0\<rparr> = ip then 1 else 0)"
proof (induction m)
  case (Cons e m)
  obtain k v where e: "e = (k, v)" by (cases e)
  have wf: "um_wf m" "k \<notin> fst ` set m" using Cons.prems(1) e by (auto simp: um_wf_def um_keys_def)
  show ?case
  proof (cases "k = s")
    case True
    then have "um_erase s m = m" using wf(2) by (auto simp: um_erase_def filter_id_conv)
    then show ?thesis using True e Cons.prems(2) by (simp add: openFrom_def um_erase_def um_find_def)
  next
    case False
    then show ?thesis using Cons.IH [OF wf(1)] Cons.prems(2) e by (simp add: openFrom_def um_erase_def um_find_def)
  qed
qed simp

definition sessions_ok :: "session_server \<Rightarrow> bool" where
  "sessions_ok ss \<longleftrightarrow> um_wf (ss_sockets ss) \<and>
     (\<forall>s. um_find (ss_sockets ss) s = None \<longleftrightarrow> ss_sessions ss s = None) \<and>
     (\<forall>s st. ss_sessions ss s = Some st \<longrightarrow> s < ss_nextAddr ss \<and> stream_inv st \<and> st_state st \<noteq> UnconnectedState) \<and>
     (\<forall>l. ss_listener ss = Some l \<longrightarrow> stream_inv l)"

text \<open>With limits configured, the ban manager counts exactly the open sessions of every address and both limits hold.\<close>

definition bans_ok :: "int \<Rightarrow> int \<Rightarrow> session_server \<Rightarrow> bool" where
  "bans_ok maxDay maxClient ss \<longleftrightarrow> (\<forall>bm. ss_ban ss = Some bm \<longrightarrow>
     bm_maxConnectionPerDayPerIp bm = maxDay \<and> bm_maxClientPerIp bm = maxClient \<and>
     (\<forall>ip. sa_port ip = 0 \<longrightarrow> ip_connectedClients (ipData ip bm) = int (openFrom ip (ss_sockets ss)) \<and>
        (maxClient > 0 \<longrightarrow> int (openFrom ip (ss_sockets ss)) \<le> maxClient) \<and>
        (maxDay > 0 \<longrightarrow> ip_connectionThisDay (ipData ip bm) \<le> maxDay)))"

definition server_inv :: "int \<Rightarrow> int \<Rightarrow> session_server \<Rightarrow> bool" where
  "server_inv maxDay maxClient ss \<longleftrightarrow> sessions_ok ss \<and> bans_ok maxDay maxClient ss"

fun server_ok :: "int \<Rightarrow> int \<Rightarrow> server_event \<Rightarrow> session_server \<Rightarrow> bool" where
  "server_ok maxDay maxClient (ServerStart env) ss \<longleftrightarrow> se_maxDay env = maxDay \<and> se_maxClient env = maxClient"
| "server_ok maxDay maxClient (ServerStop r) ss \<longleftrightarrow> ss_listener ss \<noteq> None"
| "server_ok maxDay maxClient (ServerListener e) ss \<longleftrightarrow> (case ss_listener ss of None \<Rightarrow> False | Some l \<Rightarrow> uv_ok e l)"
| "server_ok maxDay maxClient (ServerSession s e) ss \<longleftrightarrow> (case ss_sessions ss s of None \<Rightarrow> False | Some st \<Rightarrow> uv_ok e st)"
| "server_ok maxDay maxClient _ ss \<longleftrightarrow> True"

lemma ipData_set: "ipData ip' (setIpData ip d bm) = (if ip' = ip then d else ipData ip' bm)"
  by (simp add: ipData_def setIpData_def um_find_def update_conv')

lemma setIpData_fields [simp]:
  "bm_maxConnectionPerDayPerIp (setIpData ip d bm) = bm_maxConnectionPerDayPerIp bm"
  "bm_maxClientPerIp (setIpData ip d bm) = bm_maxClientPerIp bm" "bm_bannedIps (setIpData ip d bm) = bm_bannedIps bm"
  by (simp_all add: setIpData_def)

lemma ipData_other [simp]: "ipData ip (bm\<lparr>bm_bannedIps := b\<rparr>) = ipData ip bm"
  by (simp add: ipData_def)

lemma ipData_load [simp]: "ipData ip (loadFile p4 p6 a b f bm) = ipData ip bm"
  by (cases f) (simp_all add: ipData_def loadFile_def Let_def)

lemma loadFile_limits [simp]:
  "bm_maxConnectionPerDayPerIp (loadFile p4 p6 a b f bm) = a" "bm_maxClientPerIp (loadFile p4 p6 a b f bm) = b"
  by (cases f; simp add: loadFile_def Let_def)+

lemma ipData_timer:
  "ipData ip (onTimerExpire bm) = (ipData ip bm)\<lparr>ip_connectionThisDay := 0\<rparr>"
proof -
  have "map_of (map (\<lambda>(ip, d). (ip, d\<lparr>ip_connectionThisDay := 0\<rparr>)) m) ip =
      map_option (\<lambda>d. d\<lparr>ip_connectionThisDay := 0\<rparr>) (map_of m ip)" for m :: "(stream_address \<times> ip_data) list"
    by (induction m) auto
  then show ?thesis by (simp add: ipData_def onTimerExpire_def um_find_def split: option.splits)
qed

lemma timer_limits [simp]:
  "bm_maxConnectionPerDayPerIp (onTimerExpire bm) = bm_maxConnectionPerDayPerIp bm"
  "bm_maxClientPerIp (onTimerExpire bm) = bm_maxClientPerIp bm"
  by (simp_all add: onTimerExpire_def)

text \<open>Closing streams, idle or all, changes nothing but the streams.\<close>

definition only_streams :: "session_server \<Rightarrow> session_server \<Rightarrow> bool" where
  "only_streams ss ss' \<longleftrightarrow> (\<exists>f. ss' = ss\<lparr>ss_sessions := f\<rparr> \<and> dom f = dom (ss_sessions ss) \<and>
     (\<forall>s st. f s = Some st \<longrightarrow> stream_inv st \<and> st_state st \<noteq> UnconnectedState))"

lemma close_not_unconnected:
  "streamClose r b st = Some st' \<Longrightarrow> st_state st \<noteq> UnconnectedState \<Longrightarrow> st_state st' \<noteq> UnconnectedState"
  by (auto simp: streamClose_def uv_close_def setState_def Let_def split: if_splits)

lemma only_streams_update:
  assumes "\<forall>s st. ss_sessions ss s = Some st \<longrightarrow> stream_inv st \<and> st_state st \<noteq> UnconnectedState"
    and "ss_sessions ss s = Some st" "stream_inv st'" "st_state st' \<noteq> UnconnectedState"
    and "only_streams (ss\<lparr>ss_sessions := (ss_sessions ss)(s \<mapsto> st')\<rparr>) ss'"
  shows "only_streams ss ss'"
  using assms by (auto simp: only_streams_def insert_dom)

lemma live_update:
  "\<forall>s st. ss_sessions ss s = Some st \<longrightarrow> stream_inv st \<and> st_state st \<noteq> UnconnectedState \<Longrightarrow> stream_inv st' \<Longrightarrow>
    st_state st' \<noteq> UnconnectedState \<Longrightarrow>
    \<forall>k st. ss_sessions (ss\<lparr>ss_sessions := (ss_sessions ss)(s \<mapsto> st')\<rparr>) k = Some st \<longrightarrow> stream_inv st \<and> st_state st \<noteq> UnconnectedState"
  by simp

lemma present_update:
  "\<forall>e\<in>set (x # es). ss_sessions ss (fst e) \<noteq> None \<Longrightarrow>
    \<forall>e\<in>set es. ss_sessions (ss\<lparr>ss_sessions := (ss_sessions ss)(s \<mapsto> st')\<rparr>) (fst e) \<noteq> None"
  by simp

lemma closeSessions_ok:
  assumes "\<forall>s st. ss_sessions ss s = Some st \<longrightarrow> stream_inv st \<and> st_state st \<noteq> UnconnectedState"
    and "\<forall>e\<in>set es. ss_sessions ss (fst e) \<noteq> None"
  shows "\<exists>ss'. closeSessions r es ss = Some ss' \<and> only_streams ss ss'"
  using assms
proof (induction es arbitrary: ss)
  case Nil
  then show ?case by (auto simp: only_streams_def intro!: exI [of _ "ss_sessions ss"])
next
  case (Cons e es)
  obtain s a where e: "e = (s, a)" by (cases e)
  obtain st where st: "ss_sessions ss s = Some st" using Cons.prems(2) e by auto
  then obtain st' where st': "streamClose (r s) False st = Some st'" "stream_inv st'"
    using Cons.prems(1) inv_close by blast
  have un: "st_state st' \<noteq> UnconnectedState" using close_not_unconnected [OF st'(1)] Cons.prems(1) st by blast
  let ?ss = "ss\<lparr>ss_sessions := (ss_sessions ss)(s \<mapsto> st')\<rparr>"
  obtain ss' where ss': "closeSessions r es ?ss = Some ss'" "only_streams ?ss ss'"
    using Cons.IH [OF live_update [OF Cons.prems(1) st'(2) un] present_update [OF Cons.prems(2)]] by blast
  then show ?case using st st'(1) e only_streams_update [OF Cons.prems(1) st st'(2) un ss'(2)] by simp
qed

lemma checkIdle_ok:
  assumes "\<forall>s st. ss_sessions ss s = Some st \<longrightarrow> stream_inv st \<and> st_state st \<noteq> UnconnectedState"
    and "\<forall>e\<in>set es. ss_sessions ss (fst e) \<noteq> None"
  shows "\<exists>ss'. checkIdle r es ss = Some ss' \<and> only_streams ss ss'"
  using assms
proof (induction es arbitrary: ss)
  case Nil
  then show ?case by (auto simp: only_streams_def intro!: exI [of _ "ss_sessions ss"])
next
  case (Cons e es)
  obtain s a where e: "e = (s, a)" by (cases e)
  obtain st where st: "ss_sessions ss s = Some st" using Cons.prems(2) e by auto
  have inv: "stream_inv st" "st_state st \<noteq> UnconnectedState" using Cons.prems(1) st by blast+
  show ?case
  proof (cases "st_state st = ConnectedState")
    case False
    then show ?thesis using Cons.IH [OF Cons.prems(1)] Cons.prems(2) e st by simp
  next
    case True
    obtain st1 where close: "streamClose (r s) False st = Some st1" "stream_inv st1" using inv_close [OF inv(1)] by blast
    define st' where "st' = (if st_transfered st then st\<lparr>st_transfered := False\<rparr> else st1)"
    have st': "stream_inv st'" "st_state st' \<noteq> UnconnectedState"
      using inv close close_not_unconnected [OF close(1) inv(2)]
      by (auto simp: st'_def stream_inv_def uv_state_ok_def split: stream_state.splits)
    let ?ss = "ss\<lparr>ss_sessions := (ss_sessions ss)(s \<mapsto> st')\<rparr>"
    obtain ss' where ss': "checkIdle r es ?ss = Some ss'" "only_streams ?ss ss'"
      using Cons.IH [OF live_update [OF Cons.prems(1) st'] present_update [OF Cons.prems(2)]] by blast
    then show ?thesis
      using st e True close(1) only_streams_update [OF Cons.prems(1) st st' ss'(2)]
      by (auto simp: st'_def split: if_splits)
  qed
qed

lemma only_streams_inv: "server_inv d c ss \<Longrightarrow> only_streams ss ss' \<Longrightarrow> server_inv d c ss'"
  by (auto simp: server_inv_def sessions_ok_def bans_ok_def only_streams_def dom_def set_eq_iff) (metis option.exhaust option.simps(3))+

lemma sockets_live: "sessions_ok ss \<Longrightarrow> \<forall>e\<in>set (ss_sockets ss). ss_sessions ss (fst e) \<noteq> None"
  by (metis option.distinct(1) prod.collapse sessions_ok_def um_mem_find)

lemma sessions_ok_ban [simp]: "sessions_ok (ss\<lparr>ss_ban := b\<rparr>) = sessions_ok ss"
  by (simp add: sessions_ok_def)

lemma bans_ok_frame:
  "ss_ban ss' = ss_ban ss \<Longrightarrow> ss_sockets ss' = ss_sockets ss \<Longrightarrow> bans_ok d c ss' = bans_ok d c ss"
  by (simp add: bans_ok_def)

text \<open>The manager after a decision.\<close>

lemma check_accept:
  assumes "checkAcceptNewClient a bm = (ok, bm')" "bm_maxConnectionPerDayPerIp bm \<noteq> 0 \<or> bm_maxClientPerIp bm \<noteq> 0"
  shows "bm_maxConnectionPerDayPerIp bm' = bm_maxConnectionPerDayPerIp bm \<and> bm_maxClientPerIp bm' = bm_maxClientPerIp bm \<and>
    (let z = a\<lparr>sa_port := 0\<rparr> in
     (\<forall>ip. ip_connectedClients (ipData ip bm') = ip_connectedClients (ipData ip bm) + (if ok \<and> ip = z then 1 else 0)) \<and>
     (ok \<longrightarrow> z \<notin> bm_bannedIps bm \<and> (bm_maxClientPerIp bm > 0 \<longrightarrow> ip_connectedClients (ipData z bm) < bm_maxClientPerIp bm)) \<and>
     (bm_maxConnectionPerDayPerIp bm > 0 \<longrightarrow>
       (\<forall>ip. ip_connectionThisDay (ipData ip bm) \<le> bm_maxConnectionPerDayPerIp bm \<longrightarrow>
          ip_connectionThisDay (ipData ip bm') \<le> bm_maxConnectionPerDayPerIp bm)))"
  using assms
  by (auto simp: checkAcceptNewClient_def Let_def ipData_set split: if_splits)

lemma inv_accept:
  assumes "server_inv d c ss" "d \<noteq> 0 \<or> c \<noteq> 0"
  shows "server_inv d c (serverNewConnection remote ss)"
proof (cases "ss_open ss \<and> remote \<noteq> None")
  case False
  then show ?thesis using assms(1) by (auto simp: serverNewConnection_def split: option.splits)
next
  case True
  then obtain a where a: "remote = Some a" "ss_open ss" by auto
  let ?s = "ss_nextAddr ss"
  define add where "add b = ss\<lparr>ss_ban := b, ss_nextAddr := ?s + 1, ss_sessions := (ss_sessions ss)(?s \<mapsto> streamAccepted newStream),
     ss_sockets := um_insert ?s a (ss_sockets ss)\<rparr>" for b
  have fresh: "um_find (ss_sockets ss) ?s = None" "ss_sessions ss ?s = None"
    using assms(1) unfolding server_inv_def sessions_ok_def by (metis less_irrefl not_Some_eq)+
  have new: "stream_inv (streamAccepted newStream)" "st_state (streamAccepted newStream) \<noteq> UnconnectedState"
    using inv_step [OF stream_inv_new, of DoAccepted] by (simp_all add: newStream_def streamAccepted_def setState_def uv_read_start_def)
  have sess: "sessions_ok (add b)" for b
    using assms(1) fresh new unfolding server_inv_def sessions_ok_def add_def
    by (auto simp: um.wf_insert um.insert_new less_Suc_eq)
  show ?thesis
  proof (cases "ss_ban ss")
    case None
    then have "serverNewConnection remote ss = add None" using a by (simp add: serverNewConnection_def add_def Let_def)
    then show ?thesis using sess by (simp add: server_inv_def bans_ok_def add_def)
  next
    case (Some bm)
    obtain ok bm' where chk: "checkAcceptNewClient a bm = (ok, bm')" by (cases "checkAcceptNewClient a bm")
    have eq: "serverNewConnection remote ss = (if ok then add (Some bm') else ss\<lparr>ss_ban := Some bm'\<rparr>)"
      using a Some chk by (simp add: serverNewConnection_def add_def Let_def)
    have b: "bm_maxConnectionPerDayPerIp bm = d" "bm_maxClientPerIp bm = c"
        "\<And>ip. sa_port ip = 0 \<Longrightarrow> ip_connectedClients (ipData ip bm) = int (openFrom ip (ss_sockets ss)) \<and>
          (c > 0 \<longrightarrow> int (openFrom ip (ss_sockets ss)) \<le> c) \<and> (d > 0 \<longrightarrow> ip_connectionThisDay (ipData ip bm) \<le> d)"
      using assms(1) Some unfolding server_inv_def bans_ok_def by blast+
    note acc = check_accept [OF chk, unfolded b(1,2), OF assms(2)]
    have "bans_ok d c (add (Some bm'))" if ok
      using acc b(3) that fresh(1) b(3) [of "a\<lparr>sa_port := 0\<rparr>"]
      by (auto simp: bans_ok_def add_def openFrom_insert Let_def)
    moreover have "bans_ok d c (ss\<lparr>ss_ban := Some bm'\<rparr>)" if "\<not> ok"
      using acc b(3) that by (auto simp: bans_ok_def Let_def)
    ultimately show ?thesis using eq sess assms(1) by (auto simp: server_inv_def)
  qed
qed

lemma inv_closed:
  assumes "server_inv d c ss" "ss_sessions ss s = Some st"
  shows "server_inv d c ((socketClosed s ss)\<lparr>ss_sessions := (ss_sessions ss)(s := None)\<rparr>)"
proof -
  have "um_find (ss_sockets ss) s \<noteq> None" using assms unfolding server_inv_def sessions_ok_def by (metis option.distinct(1))
  then obtain a where a: "um_find (ss_sockets ss) s = Some a" by blast
  have wf: "um_wf (ss_sockets ss)" using assms(1) unfolding server_inv_def sessions_ok_def by blast
  have "sessions_ok ((socketClosed s ss)\<lparr>ss_sessions := (ss_sessions ss)(s := None)\<rparr>)"
    using assms(1) a unfolding server_inv_def sessions_ok_def socketClosed_def
    by (auto simp: um.wf_erase um.find_erase)
  moreover have "bans_ok d c ((socketClosed s ss)\<lparr>ss_sessions := (ss_sessions ss)(s := None)\<rparr>)"
  proof (cases "ss_ban ss")
    case None
    then show ?thesis using a by (simp add: bans_ok_def socketClosed_def)
  next
    case (Some bm)
    let ?z = "a\<lparr>sa_port := 0\<rparr>"
    have b: "bm_maxConnectionPerDayPerIp bm = d" "bm_maxClientPerIp bm = c"
        "\<And>ip. sa_port ip = 0 \<Longrightarrow> ip_connectedClients (ipData ip bm) = int (openFrom ip (ss_sockets ss)) \<and>
          (c > 0 \<longrightarrow> int (openFrom ip (ss_sockets ss)) \<le> c) \<and> (d > 0 \<longrightarrow> ip_connectionThisDay (ipData ip bm) \<le> d)"
      using assms(1) Some unfolding server_inv_def bans_ok_def by blast+
    note er = openFrom_erase [OF wf a]
    have pos: "ip_connectedClients (ipData ?z bm) > 0" using b(3) [of ?z] er [of ?z] by simp
    then obtain dat where dat: "um_find (bm_ipDatas bm) ?z = Some dat" "ipData ?z bm = dat"
      by (auto simp: ipData_def split: option.splits)
    have closed: "closedClient a bm = setIpData ?z (dat\<lparr>ip_connectedClients := ip_connectedClients dat - 1\<rparr>) bm"
      using dat pos by (simp add: closedClient_def)
    let ?m = "um_erase s (ss_sockets ss)"
    have "ip_connectedClients (ipData ip (closedClient a bm)) = int (openFrom ip ?m) \<and>
        (c > 0 \<longrightarrow> int (openFrom ip ?m) \<le> c) \<and> (d > 0 \<longrightarrow> ip_connectionThisDay (ipData ip (closedClient a bm)) \<le> d)"
      if "sa_port ip = 0" for ip
      using b(3) [OF that] er [of ip] dat(2) unfolding closed ipData_set by (cases "ip = ?z") auto
    then show ?thesis using a Some b(1,2) closed by (simp add: bans_ok_def socketClosed_def)
  qed
  ultimately show ?thesis by (simp add: server_inv_def)
qed

lemma server_step_inv:
  assumes inv: "server_inv d c ss" and ok: "server_ok d c e ss" and lim: "d \<noteq> 0 \<or> c \<noteq> 0"
  shows "\<exists>ss'. server_step e ss = Some ss' \<and> server_inv d c ss'"
proof -
  have sess: "sessions_ok ss" and bans: "bans_ok d c ss" using inv by (simp_all add: server_inv_def)
  have live: "\<forall>s st. ss_sessions ss s = Some st \<longrightarrow> stream_inv st \<and> st_state st \<noteq> UnconnectedState"
    using sess by (auto simp: sessions_ok_def)
  show ?thesis
  proof (cases e)
    case (ServerStart env)
    show ?thesis
    proof (cases "isStarted ss")
      case True
      then show ?thesis using inv ServerStart by (simp add: serverStart_def)
    next
      case False
      define l where "l = (case ss_listener ss of None \<Rightarrow> newStream | Some l \<Rightarrow> l)"
      have "stream_inv l" using sess stream_inv_new by (auto simp: l_def sessions_ok_def split: option.splits)
      then obtain b l' where l': "streamListen (se_bind env) (se_listen env) l = Some (b, l')" "stream_inv l'"
        using inv_step [of l "DoListen (se_bind env) (se_listen env)"] by auto
      let ?ban = "map_option (loadFile (se_pton4 env) (se_pton6 env) (se_maxDay env) (se_maxClient env) (se_file env)) (ss_ban ss)"
      have "serverStart env ss = Some (ss\<lparr>ss_ban := ?ban, ss_open := True, ss_listener := Some l'\<rparr>)"
        using False l'(1) by (simp add: serverStart_def l_def Let_def)
      moreover have "server_inv d c (ss\<lparr>ss_ban := ?ban, ss_open := True, ss_listener := Some l'\<rparr>)"
        using sess bans ok l'(2) ServerStart by (auto simp: server_inv_def sessions_ok_def bans_ok_def)
      ultimately show ?thesis using ServerStart by simp
    qed
  next
    case (ServerStop r)
    then obtain l where l: "ss_listener ss = Some l" using ok by auto
    then obtain l' where l': "streamClose 0 False l = Some l'" "stream_inv l'"
      using sess inv_close [of l 0 False] by (auto simp: sessions_ok_def)
    let ?ss = "ss\<lparr>ss_listener := Some l', ss_open := False\<rparr>"
    have inv': "server_inv d c ?ss" using sess bans l'(2) by (auto simp: server_inv_def sessions_ok_def bans_ok_def)
    obtain ss' where "closeSessions r (ss_sockets ss) ?ss = Some ss'" "only_streams ?ss ss'"
      using closeSessions_ok [of ?ss "ss_sockets ss" r] live sockets_live [OF sess] by auto
    then show ?thesis using ServerStop l l'(1) only_streams_inv [OF inv'] by (auto simp: serverStop_def)
  next
    case (ServerIdle r)
    then show ?thesis
      using checkIdle_ok [OF live sockets_live [OF sess], of r] only_streams_inv [OF inv] by (auto simp: onCheckIdleSockets_def)
  next
    case (ServerAccept remote)
    then show ?thesis using inv_accept [OF inv lim] by simp
  next
    case (ServerListener ev)
    then obtain l where l: "ss_listener ss = Some l" "uv_ok ev l" using ok by (auto split: option.splits)
    moreover have "stream_inv l" using sess l(1) by (simp add: sessions_ok_def)
    ultimately obtain l' where "stream_step ev l = Some l'" "stream_inv l'" using inv_step by blast
    then show ?thesis using ServerListener l sess bans by (auto simp: server_inv_def sessions_ok_def bans_ok_def)
  next
    case (ServerSession s ev)
    then obtain st where st: "ss_sessions ss s = Some st" "uv_ok ev st" using ok by (auto split: option.splits)
    then obtain st' where st': "stream_step ev st = Some st'" "stream_inv st'" using live inv_step by blast
    have un: "st_state st \<noteq> UnconnectedState" using live st(1) by blast
    show ?thesis
    proof (cases "st_state st' = UnconnectedState")
      case True
      then show ?thesis using ServerSession st st' un inv_closed [OF inv st(1)] by (simp add: sessionEvent_def)
    next
      case False
      have "only_streams ss (ss\<lparr>ss_sessions := (ss_sessions ss)(s \<mapsto> st')\<rparr>)"
        using live st(1) st'(2) False
        by (auto simp: only_streams_def insert_dom intro!: exI [of _ "(ss_sessions ss)(s \<mapsto> st')"] split: if_splits)
      then show ?thesis using ServerSession st st' False only_streams_inv [OF inv] by (simp add: sessionEvent_def)
    qed
  next
    case ServerDay
    have "bans_ok d c (ss\<lparr>ss_ban := map_option onTimerExpire (ss_ban ss)\<rparr>)"
      using bans by (auto simp: bans_ok_def ipData_timer)
    then show ?thesis using ServerDay sess by (simp add: server_inv_def)
  next
    case (ServerBan ip)
    have "bans_ok d c (ss\<lparr>ss_ban := map_option (banIp ip) (ss_ban ss)\<rparr>)"
      using bans by (auto simp: bans_ok_def banIp_def)
    then show ?thesis using ServerBan sess by (simp add: server_inv_def)
  qed
qed

text \<open>A limit of at least one kind.\<close>

definition limited_inv :: "int \<Rightarrow> int \<Rightarrow> session_server \<Rightarrow> bool" where
  "limited_inv d c ss \<longleftrightarrow> (d \<noteq> 0 \<or> c \<noteq> 0) \<and> server_inv d c ss"

interpretation ban_server: safe_machine server_step "limited_inv d c" "server_ok d c" for d c
proof
  show "\<exists>t. server_step e s = Some t" if "limited_inv d c s" "server_ok d c e s" for e s
    using server_step_inv that unfolding limited_inv_def by blast
  show "limited_inv d c t" if "limited_inv d c s" "server_ok d c e s" "server_step e s = Some t" for e s t
    using server_step_inv [of d c s e] that unfolding limited_inv_def by auto
qed

lemma server_inv_new: "0 \<le> d \<Longrightarrow> server_inv d c (newServer (Some (newBanManager d c)))"
  by (simp add: server_inv_def sessions_ok_def bans_ok_def newServer_def newBanManager_def ipData_def)

section \<open>Results\<close>


definition demo_start :: start_env where
  "demo_start = \<lparr>se_pton4 = (\<lambda>_. None), se_pton6 = (\<lambda>_. None), se_maxDay = 5, se_maxClient = 1, se_file = None,
     se_bind = 0, se_listen = 0\<rparr>"

definition demo_client :: "u16 \<Rightarrow> stream_address" where
  "demo_client port = \<lparr>sa_address = Ipv4 [10, 0, 0, 1], sa_port = port\<rparr>"


text \<open>Banning an address by the address of one of its connections has no effect: \<open>banIp\<close> stores it with its port, while
  connections are looked up with port 0, so every later connection is judged as before.\<close>

lemma ban_ip_ineffective:
  "sa_port ip \<noteq> 0 \<Longrightarrow> fst (checkAcceptNewClient ip' (banIp ip bm)) = fst (checkAcceptNewClient ip' bm)"
  by (auto simp: checkAcceptNewClient_def banIp_def ipData_def Let_def)

lemma ban_ip_ineffective_witness:
  "fst (checkAcceptNewClient \<lparr>sa_address = Ipv4 [10, 0, 0, 1], sa_port = 4501\<rparr>
     (banIp \<lparr>sa_address = Ipv4 [10, 0, 0, 1], sa_port = 4500\<rparr> (newBanManager 0 0)))"
  using ban_ip_ineffective [of "\<lparr>sa_address = Ipv4 [10, 0, 0, 1], sa_port = 4500\<rparr>"
      "\<lparr>sa_address = Ipv4 [10, 0, 0, 1], sa_port = 4501\<rparr>" "newBanManager 0 0"]
  by (simp add: checkAcceptNewClient_def newBanManager_def)

end
