(* ===== verification/LogClient.thy ===== *)
theory LogClient
  imports NetStream
begin

text \<open>
  The client of the log server in rzauth (src/rzauth/src/AuthServer/LogServerClient.cpp): messages of eleven numbers
  and four strings, their packets, the messages kept while the connection is being made, and the client's life
  cycle over its stream. \<open>None\<close> is undefined behaviour: a null stream or a string shorter than its stated length.
\<close>

section \<open>Messages\<close>

text \<open>\<open>lm_n\<close> holds n1 to n11 and \<open>lm_str\<close> str1 to str4.\<close>

record log_message =
  lm_id :: u16
  lm_type :: u8
  lm_thread_id :: u32
  lm_n :: "u64 list"
  lm_str :: "string list"

definition log_message_wf :: "log_message \<Rightarrow> bool" where
  "log_message_wf m \<longleftrightarrow> length (lm_n m) = 11 \<and> length (lm_str m) = 4"

abbreviation "LM_SERVER_LOGIN \<equiv> 101 :: u16"
abbreviation "LM_SERVER_INFO \<equiv> 102 :: u16"
abbreviation "NTS \<equiv> - 1 :: int"

definition ordByte :: "char \<Rightarrow> u8" where "ordByte c = of_nat (of_char c)"

definition chrByte :: "u8 \<Rightarrow> char" where "chrByte b = char_of (unat b)"

lemma chr_ord [simp]: "chrByte (ordByte c) = c"
  by (simp add: chrByte_def ordByte_def unat_of_nat take_bit_eq_mod)

text \<open>The fixed part of \<open>LS_11N4S\<close>, packed: 105 bytes.\<close>

definition logLength :: "string \<Rightarrow> u16" where "logLength s = of_nat (length s)"

definition logSize :: "log_message \<Rightarrow> u16" where
  "logSize m = of_nat (105 + sum_list (map (\<lambda>s. unat (logLength s)) (lm_str m)))"

definition logHeader :: "log_message \<Rightarrow> bytes" where
  "logHeader m = to_le 2 (lm_id m) @ to_le 2 (logSize m) @ to_le 1 (lm_type m) @ to_le 4 (lm_thread_id m) @
     concat (map (to_le 8) (lm_n m)) @ concat (map (\<lambda>s. to_le 2 (logLength s)) (lm_str m))"

text \<open>The writes of one message: the fixed part and each string that is not empty, cut to its 16-bit length.\<close>

definition logWrites :: "log_message \<Rightarrow> bytes list" where
  "logWrites m = logHeader m #
     map (\<lambda>s. map ordByte (take (unat (logLength s)) s)) (filter (\<lambda>s. logLength s \<noteq> 0) (lm_str m))"

definition packLog :: "log_message \<Rightarrow> bytes" where
  "packLog m = concat (logWrites m)"

section \<open>The client\<close>

record log_client =
  lc_stream :: "net_stream option"
  lc_pendingMessages :: "log_message list"

definition newLogClient :: log_client where
  "newLogClient = \<lparr>lc_stream = None, lc_pendingMessages = []\<rparr>"

text \<open>Writing to the stream; \<open>r\<close> is what \<open>uv_write\<close> returns.\<close>

fun writeChunks :: "int \<Rightarrow> bytes list \<Rightarrow> net_stream \<Rightarrow> net_stream option" where
  "writeChunks r [] st = Some st"
| "writeChunks r (c # cs) st =
     (case streamWrite r c st of None \<Rightarrow> None | Some (n, st') \<Rightarrow> writeChunks r cs st')"

definition sendMessage :: "int \<Rightarrow> log_message \<Rightarrow> log_client \<Rightarrow> log_client option" where
  "sendMessage r m lc =
     (case lc_stream lc of None \<Rightarrow> None
      | Some st \<Rightarrow> map_option (\<lambda>st. lc\<lparr>lc_stream := Some st\<rparr>) (writeChunks r (logWrites m) st))"

text \<open>A string argument: a pointer and a length, \<open>NTS\<close> for a terminated string. \<open>Some s\<close> points to the characters of
  \<open>s\<close> and a NUL.\<close>

fun strArg :: "string option \<times> int \<Rightarrow> string option" where
  "strArg (None, len) = Some []"
| "strArg (Some s, len) =
     (if len = NTS then Some (takeWhile (\<lambda>c. c \<noteq> CHR 0x00) s)
      else if len < 0 \<or> int (length s) + 1 < len then None
      else Some (take (nat len) (s @ [CHR 0x00])))"

fun strArgs :: "(string option \<times> int) list \<Rightarrow> string list option" where
  "strArgs [] = Some []"
| "strArgs (a # as) = (case strArg a of None \<Rightarrow> None | Some s \<Rightarrow> map_option ((#) s) (strArgs as))"

text \<open>The static \<open>sendLog\<close>; the instance is \<open>None\<close> while there is no client.\<close>

definition sendLog :: "int \<Rightarrow> u32 \<Rightarrow> u16 \<Rightarrow> u64 list \<Rightarrow> (string option \<times> int) list \<Rightarrow> log_client option \<Rightarrow> log_client option option" where
  "sendLog r pid i ns args instance =
     (case instance of None \<Rightarrow> Some None
      | Some lc \<Rightarrow>
          (case lc_stream lc of None \<Rightarrow> Some (Some lc)
           | Some st \<Rightarrow>
               if st_state st = UnconnectedState then Some (Some lc)
               else (case strArgs args of None \<Rightarrow> None
                 | Some strs \<Rightarrow>
                     let m = \<lparr>lm_id = i, lm_type = 1, lm_thread_id = pid, lm_n = ns, lm_str = strs\<rparr>
                     in if st_state st = ConnectedState then map_option Some (sendMessage r m lc)
                        else if length (lc_pendingMessages lc) < 100
                          then Some (Some (lc\<lparr>lc_pendingMessages := lc_pendingMessages lc @ [m]\<rparr>))
                        else Some (Some lc))))"

fun sendAll :: "int \<Rightarrow> log_message list \<Rightarrow> log_client \<Rightarrow> log_client option" where
  "sendAll r [] lc = Some lc"
| "sendAll r (m # ms) lc = (case sendMessage r m lc of None \<Rightarrow> None | Some lc' \<Rightarrow> sendAll r ms lc')"

definition logOnConnected :: "int \<Rightarrow> u32 \<Rightarrow> string \<Rightarrow> log_client \<Rightarrow> log_client option" where
  "logOnConnected r pid appName lc = do {
     lc \<leftarrow> sendLog r pid LM_SERVER_LOGIN [0, 0, 0, ucast pid, 0, 0, 0, 0, 0, 0, 0]
             [(None, 0), (None, 0), (Some ''Main'', NTS), (Some appName, NTS)] (Some lc);
     lc \<leftarrow> sendLog r pid LM_SERVER_INFO (replicate 11 0) [(None, 0), (None, 0), (None, 0), (Some ''START'', NTS)] lc;
     lc \<leftarrow> lc;
     lc \<leftarrow> sendAll r (lc_pendingMessages lc) lc;
     Some (lc\<lparr>lc_pendingMessages := []\<rparr>) }"

definition logStart :: "int \<Rightarrow> log_client \<Rightarrow> log_client option" where
  "logStart result lc =
     (let st = (case lc_stream lc of None \<Rightarrow> newStream | Some st \<Rightarrow> st)
      in map_option (\<lambda>(ok, st). lc\<lparr>lc_stream := Some st\<rparr>) (streamConnect result st))"

definition logStop :: "int \<Rightarrow> u32 \<Rightarrow> int \<Rightarrow> log_client \<Rightarrow> log_client option" where
  "logStop r pid shutdown lc = do {
     lc \<leftarrow> sendLog r pid LM_SERVER_INFO (replicate 11 0) [(None, 0), (None, 0), (None, 0), (Some ''END'', NTS)] (Some lc);
     lc \<leftarrow> lc;
     (case lc_stream lc of None \<Rightarrow> Some lc
      | Some st \<Rightarrow> map_option (\<lambda>st. lc\<lparr>lc_stream := Some st\<rparr>) (streamClose shutdown False st)) }"

text \<open>A callback of libuv for the client's stream; \<open>onConnected\<close> runs when it becomes connected.\<close>

definition logStreamEvent :: "int \<Rightarrow> u32 \<Rightarrow> string \<Rightarrow> stream_event \<Rightarrow> log_client \<Rightarrow> log_client option" where
  "logStreamEvent r pid appName e lc =
     (case lc_stream lc of None \<Rightarrow> None
      | Some st \<Rightarrow>
          (case stream_step e st of None \<Rightarrow> None
           | Some st' \<Rightarrow>
               let lc = lc\<lparr>lc_stream := Some st'\<rparr>
               in if st_state st' = ConnectedState \<and> st_state st \<noteq> ConnectedState then logOnConnected r pid appName lc
                  else Some lc))"

section \<open>Lemmas\<close>

lemma logHeader_length: "log_message_wf m \<Longrightarrow> length (logHeader m) = 105"
  by (simp add: logHeader_def log_message_wf_def length_concat comp_def sum_list_triv)

text \<open>A message small enough for its length fields.\<close>

definition log_message_fits :: "log_message \<Rightarrow> bool" where
  "log_message_fits m \<longleftrightarrow> log_message_wf m \<and> (\<forall>s\<in>set (lm_str m). length s < 32768 \<and> CHR 0x00 \<notin> set s) \<and>
     105 + sum_list (map length (lm_str m)) \<le> 65535"

lemma logLength_fits: "length s < 32768 \<Longrightarrow> unat (logLength s) = length s"
  by (simp add: logLength_def unat_of_nat take_bit_nat_eq_self)

lemma packLog_fits:
  assumes "log_message_fits m"
  shows "packLog m = logHeader m @ concat (map (map ordByte) (lm_str m))" "unat (logSize m) = length (packLog m)"
proof -
  have len: "unat (logLength s) = length s" if "s \<in> set (lm_str m)" for s
    using assms that logLength_fits by (auto simp: log_message_fits_def)
  have zero: "logLength s \<noteq> 0 \<longleftrightarrow> s \<noteq> []" if "s \<in> set (lm_str m)" for s
    using len [OF that] by (metis length_0_conv unat_0 unat_eq_zero)
  have "concat (map (\<lambda>s. map ordByte (take (unat (logLength s)) s)) (filter (\<lambda>s. logLength s \<noteq> 0) strs)) =
      concat (map (map ordByte) strs)" if "set strs \<subseteq> set (lm_str m)" for strs
    using that by (induction strs) (auto simp: len zero)
  then show eq: "packLog m = logHeader m @ concat (map (map ordByte) (lm_str m))"
    by (simp add: packLog_def logWrites_def)
  have "length (packLog m) = 105 + sum_list (map length (lm_str m))"
    using assms logHeader_length [of m] by (simp add: eq log_message_fits_def length_concat comp_def)
  moreover have "sum_list (map (\<lambda>s. unat (logLength s)) (lm_str m)) = sum_list (map length (lm_str m))"
    using len by (auto intro!: arg_cong [of _ _ sum_list])
  ultimately have "logSize m = of_nat (length (packLog m))" by (simp add: logSize_def)
  moreover have "length (packLog m) < 2 ^ 16"
    using \<open>length (packLog m) = _\<close> assms by (simp add: log_message_fits_def)
  ultimately show "unat (logSize m) = length (packLog m)" by (simp add: unat_of_nat take_bit_nat_eq_self)
qed

text \<open>Writing while connected appends to what the peer receives.\<close>

lemma writeChunks_connected:
  "0 \<le> r \<Longrightarrow> st_state st = ConnectedState \<Longrightarrow> writeChunks r cs st = Some (st\<lparr>st_written := st_written st @ concat cs\<rparr>)"
  by (induction cs arbitrary: st) (simp_all add: streamWrite_def)

lemma sendMessage_connected:
  "0 \<le> r \<Longrightarrow> lc_stream lc = Some st \<Longrightarrow> st_state st = ConnectedState \<Longrightarrow>
    sendMessage r m lc = Some (lc\<lparr>lc_stream := Some (st\<lparr>st_written := st_written st @ packLog m\<rparr>)\<rparr>)"
  by (simp add: sendMessage_def writeChunks_connected packLog_def)

lemma sendAll_connected:
  "0 \<le> r \<Longrightarrow> lc_stream lc = Some st \<Longrightarrow> st_state st = ConnectedState \<Longrightarrow>
    sendAll r ms lc = Some (lc\<lparr>lc_stream := Some (st\<lparr>st_written := st_written st @ concat (map packLog ms)\<rparr>)\<rparr>)"
  by (induction ms arbitrary: lc st) (simp_all add: sendMessage_connected)

text \<open>The messages a connection starts with.\<close>

definition loginMessage :: "u32 \<Rightarrow> string \<Rightarrow> log_message" where
  "loginMessage pid appName = \<lparr>lm_id = LM_SERVER_LOGIN, lm_type = 1, lm_thread_id = pid,
     lm_n = [0, 0, 0, ucast pid, 0, 0, 0, 0, 0, 0, 0], lm_str = [[], [], ''Main'', takeWhile (\<lambda>c. c \<noteq> CHR 0x00) appName]\<rparr>"

definition startMessage :: "u32 \<Rightarrow> log_message" where
  "startMessage pid = \<lparr>lm_id = LM_SERVER_INFO, lm_type = 1, lm_thread_id = pid, lm_n = replicate 11 0, lm_str = [[], [], [], ''START'']\<rparr>"

lemma logOnConnected_sends:
  assumes "0 \<le> r" "lc_stream lc = Some st" "st_state st = ConnectedState"
  shows "logOnConnected r pid appName lc = Some (lc\<lparr>lc_pendingMessages := [], lc_stream := Some (st\<lparr>st_written :=
      st_written st @ concat (map packLog (loginMessage pid appName # startMessage pid # lc_pendingMessages lc))\<rparr>)\<rparr>)"
  using assms
  by (simp add: logOnConnected_def sendLog_def sendMessage_connected sendAll_connected loginMessage_def startMessage_def)

text \<open>Messages logged one after the other, given as their numbers and strings.\<close>

fun logAll :: "int \<Rightarrow> u32 \<Rightarrow> log_message list \<Rightarrow> log_client \<Rightarrow> log_client option" where
  "logAll r pid [] lc = Some lc"
| "logAll r pid (m # ms) lc = do {
     lc \<leftarrow> sendLog r pid (lm_id m) (lm_n m) (map (\<lambda>s. (Some s, int (length s))) (lm_str m)) (Some lc);
     lc \<leftarrow> lc;
     logAll r pid ms lc }"

lemma strArgs_sized: "strArgs (map (\<lambda>s. (Some s, int (length s))) strs) = Some strs"
  by (induction strs) auto

definition loggedBy :: "u32 \<Rightarrow> log_message \<Rightarrow> bool" where
  "loggedBy pid m \<longleftrightarrow> lm_type m = 1 \<and> lm_thread_id m = pid"

lemma loggedBy_eq: "loggedBy pid m \<Longrightarrow> \<lparr>lm_id = lm_id m, lm_type = 1, lm_thread_id = pid, lm_n = lm_n m, lm_str = lm_str m\<rparr> = m"
  by (cases m) (simp add: loggedBy_def)

lemma logAll_connected:
  "0 \<le> r \<Longrightarrow> lc_stream lc = Some st \<Longrightarrow> st_state st = ConnectedState \<Longrightarrow> list_all (loggedBy pid) ms \<Longrightarrow>
    logAll r pid ms lc = Some (lc\<lparr>lc_stream := Some (st\<lparr>st_written := st_written st @ concat (map packLog ms)\<rparr>)\<rparr>)"
proof (induction ms arbitrary: lc st)
  case (Cons m ms)
  then show ?case by (simp add: sendLog_def strArgs_sized loggedBy_eq sendMessage_connected)
qed simp

lemma logAll_connecting:
  "lc_stream lc = Some st \<Longrightarrow> st_state st = ConnectingState \<Longrightarrow> list_all (loggedBy pid) ms \<Longrightarrow>
    length (lc_pendingMessages lc) \<le> 100 \<Longrightarrow>
    logAll r pid ms lc = Some (lc\<lparr>lc_pendingMessages := take 100 (lc_pendingMessages lc @ ms)\<rparr>)"
proof (induction ms arbitrary: lc)
  case (Cons m ms)
  show ?case
  proof (cases "length (lc_pendingMessages lc) < 100")
    case True
    then show ?thesis
      using Cons.IH [of "lc\<lparr>lc_pendingMessages := lc_pendingMessages lc @ [m]\<rparr>"] Cons.prems
      by (simp add: sendLog_def strArgs_sized loggedBy_eq Let_def)
  next
    case False
    then show ?thesis using Cons.IH [of lc] Cons.prems by (simp add: sendLog_def strArgs_sized loggedBy_eq Let_def)
  qed
qed simp

text \<open>From the start of the client: what is on the wire after the connection is made.\<close>

lemma client_wire:
  assumes "0 \<le> r" "0 \<le> c" "list_all (loggedBy pid) early" "list_all (loggedBy pid) late"
  shows "\<exists>lc st. do { lc \<leftarrow> logStart c newLogClient; lc \<leftarrow> logAll r pid early lc;
        lc \<leftarrow> logStreamEvent r pid appName (UvConnected 0) lc; logAll r pid late lc } = Some lc \<and>
      lc_stream lc = Some st \<and> lc_pendingMessages lc = [] \<and>
      st_written st = concat (map packLog (loginMessage pid appName # startMessage pid # take 100 early @ late))"
proof -
  let ?s0 = "newStream\<lparr>st_state := ConnectingState, st_calls := [StateChanged UnconnectedState ConnectingState True], uv_connecting := True\<rparr>"
  let ?lc0 = "\<lparr>lc_stream = Some ?s0, lc_pendingMessages = []\<rparr>"
  have "logStart c newLogClient = Some ?lc0"
    using assms(2) by (simp add: logStart_def newLogClient_def streamConnect_def setState_def newStream_def)
  moreover have "logAll r pid early ?lc0 = Some (?lc0\<lparr>lc_pendingMessages := take 100 early\<rparr>)"
    using logAll_connecting [of ?lc0 ?s0 pid early r] assms(3) by simp
  moreover obtain s1 where s1: "stream_step (UvConnected 0) ?s0 = Some s1" "st_state s1 = ConnectedState" "st_written s1 = []"
    by (simp add: onConnected_def setState_def uv_read_start_def newStream_def)
  moreover have "logStreamEvent r pid appName (UvConnected 0) (?lc0\<lparr>lc_pendingMessages := take 100 early\<rparr>) =
      Some (?lc0\<lparr>lc_stream := Some (s1\<lparr>st_written := concat (map packLog (loginMessage pid appName # startMessage pid # take 100 early))\<rparr>)\<rparr>)"
    using s1 logOnConnected_sends [OF assms(1), of "\<lparr>lc_stream = Some s1, lc_pendingMessages = take 100 early\<rparr>" s1 pid appName]
    by (simp add: logStreamEvent_def newStream_def)
  ultimately show ?thesis
    using logAll_connected [OF assms(1) _ _ assms(4)] by simp
qed

end
