(* ===== verification/LogServer.thy ===== *)
theory LogServer
  imports LogClient Incremental TextFormat
begin

text \<open>
  The log server (src/rzlog/src/LogServer): the packet reader (LogPacketSession.cpp) and the session that checks a
  message, learns the name of its server, chooses the hourly file and formats the line (ClientSession.cpp). The
  clock and \<open>fopen\<close> are inputs. \<open>None\<close> is a read outside the packet buffer or an overflow of a fixed buffer.
\<close>

section \<open>The packet reader\<close>

record log_framing =
  lf_id :: u16
  lf_size :: u16
  lf_discard :: bool
  lf_buffer :: bytes

text \<open>The constructor; the 296 bytes of the buffer have any contents.\<close>

definition newLogFraming :: "bytes \<Rightarrow> log_framing" where
  "newLogFraming buffer = \<lparr>lf_id = 0, lf_size = 0, lf_discard = False, lf_buffer = buffer\<rparr>"

text \<open>The header branch. The size has 16 bits: a size of at most 4 is set to 0 and then wraps to 65532.\<close>

definition logReadHeader :: "log_framing \<Rightarrow> bytes \<Rightarrow> log_framing \<times> bytes" where
  "logReadHeader s stream =
     (let n = from_le (take 2 (drop 2 stream)) :: u16; n = (if n \<le> 4 then 0 else n)
      in (s\<lparr>lf_id := from_le (take 2 stream), lf_size := n - 4, lf_discard := unat n > 65536\<rparr>, drop 4 stream))"

definition logReadBody :: "log_framing \<Rightarrow> bytes \<Rightarrow> log_framing \<times> bytes \<times> bytes list" where
  "logReadBody s stream =
     (let n = unat (lf_size s) in
      if n \<noteq> 0 \<and> lf_discard s then
        (let d = min n (length stream) in (s\<lparr>lf_size := lf_size s - of_nat d\<rparr>, drop d stream, []))
      else if n \<noteq> 0 \<and> length stream \<ge> n then
        (let buf = (if n + 4 > length (lf_buffer s) then replicate (n + 4) 0 else lf_buffer s);
             buf = to_le 2 (lf_id s) @ to_le 2 (lf_size s + 4) @ take n stream @ drop (n + 4) buf
         in (s\<lparr>lf_buffer := buf, lf_size := 0\<rparr>, drop n stream, [buf]))
      else (s, stream, []))"

definition logAgain :: "log_framing \<Rightarrow> bytes \<Rightarrow> bool" where
  "logAgain s stream \<longleftrightarrow>
     (lf_size s = 0 \<and> length stream \<ge> 4) \<or> (lf_size s \<noteq> 0 \<and> length stream \<ge> unat (lf_size s))"

definition logIteration :: "log_framing \<Rightarrow> bytes \<Rightarrow> log_framing \<times> bytes \<times> bytes list" where
  "logIteration s stream =
     (let (s1, stream1) = (if lf_size s = 0 then logReadHeader s stream else (s, stream)) in logReadBody s1 stream1)"

lemma size_nonzero: "unat (w :: u16) = 0 \<longleftrightarrow> w = 0"
  by (simp add: unat_eq_zero)

lemma logReadBody_length: "length (fst (snd (logReadBody s stream))) \<le> length stream"
  by (auto simp: logReadBody_def Let_def)

lemma logReadBody_wait:
  "lf_size s \<noteq> 0 \<Longrightarrow> \<not> lf_discard s \<Longrightarrow> length stream < unat (lf_size s) \<Longrightarrow> logReadBody s stream = (s, stream, [])"
  by (simp add: logReadBody_def Let_def)

lemma logReadBody_discard:
  "lf_size s \<noteq> 0 \<Longrightarrow> lf_discard s \<Longrightarrow>
    logReadBody s stream = (s\<lparr>lf_size := lf_size s - of_nat (min (unat (lf_size s)) (length stream))\<rparr>,
      drop (min (unat (lf_size s)) (length stream)) stream, [])"
  by (simp add: logReadBody_def Let_def size_nonzero)

lemma logReadBody_progress:
  assumes "lf_size s \<noteq> 0" "logAgain (fst (logReadBody s stream)) (fst (snd (logReadBody s stream)))"
  shows "length (fst (snd (logReadBody s stream))) < length stream"
proof -
  have n: "unat (lf_size s) \<noteq> 0" using assms(1) by (simp add: size_nonzero)
  consider (disc) "lf_discard s" | (wait) "\<not> lf_discard s" "length stream < unat (lf_size s)"
    | (full) "\<not> lf_discard s" "unat (lf_size s) \<le> length stream" by linarith
  then show ?thesis
  proof cases
    case disc
    show ?thesis
    proof (cases "stream = []")
      case True
      then show ?thesis using assms n by (simp add: logReadBody_discard [OF _ disc] logAgain_def)
    next
      case False
      then show ?thesis using assms(1) n by (simp add: logReadBody_discard [OF _ disc] min_def)
    qed
  next
    case wait
    then show ?thesis using assms by (simp add: logReadBody_wait logAgain_def)
  next
    case full
    then show ?thesis using n by (simp add: logReadBody_def Let_def)
  qed
qed

lemma logIteration_progress:
  assumes "\<not> (lf_size s = 0 \<and> length stream < 4)"
    and "logAgain (fst (logIteration s stream)) (fst (snd (logIteration s stream)))"
  shows "length (fst (snd (logIteration s stream))) < length stream"
proof (cases "lf_size s = 0")
  case True
  then have "logIteration s stream = logReadBody (fst (logReadHeader s stream)) (drop 4 stream)"
    by (simp add: logIteration_def split_beta logReadHeader_def Let_def)
  then have "length (fst (snd (logIteration s stream))) \<le> length (drop 4 stream)"
    using logReadBody_length by metis
  then show ?thesis using True assms(1) by simp
next
  case False
  then show ?thesis using logReadBody_progress [OF False, of stream] assms(2) by (simp add: logIteration_def)
qed

text \<open>\<open>onDataReceived\<close>: the packets are the buffer as it is dispatched.\<close>

function logOnDataReceived :: "log_framing \<Rightarrow> bytes \<Rightarrow> log_framing \<times> bytes \<times> bytes list" where
  "logOnDataReceived s stream =
     (if lf_size s = 0 \<and> length stream < 4 then (s, stream, [])
      else
        let r = logIteration s stream; s' = fst r; stream' = fst (snd r); out = snd (snd r)
        in if logAgain s' stream' then
             (let q = logOnDataReceived s' stream' in (fst q, fst (snd q), out @ snd (snd q)))
           else (s', stream', out))"
  by auto
termination by (relation "measure (\<lambda>(s, stream). length stream)") (simp_all add: logIteration_progress)

declare logOnDataReceived.simps [simp del]

fun logReceiveChunks :: "log_framing \<Rightarrow> bytes \<Rightarrow> bytes list \<Rightarrow> log_framing \<times> bytes \<times> bytes list" where
  "logReceiveChunks s pending [] = (s, pending, [])"
| "logReceiveChunks s pending (c # cs) =
     (let (s1, r1, o1) = logOnDataReceived s (pending @ c); (s2, r2, o2) = logReceiveChunks s1 r1 cs in (s2, r2, o1 @ o2))"

section \<open>The session\<close>

text \<open>The broken-down date of the file, as stored in its small fields.\<close>

record log_session =
  ls_file :: bool
  ls_serverName :: string
  ls_year :: nat
  ls_month :: nat
  ls_day :: nat
  ls_hour :: nat

definition newLogSession :: log_session where
  "newLogSession = \<lparr>ls_file = False, ls_serverName = [], ls_year = 0, ls_month = 0, ls_day = 0, ls_hour = 0\<rparr>"

text \<open>The time of a message, and whether a file can be opened.\<close>

record log_env =
  le_date :: tm_info
  le_msec :: nat
  le_logDir :: string
  le_opens :: bool

datatype log_out = OpenLog string | LogLine string

definition isDateNeedNewFile :: "tm_info \<Rightarrow> log_session \<Rightarrow> bool" where
  "isDateNeedNewFile date s = (\<not> (tm_year date = ls_year s \<and> tm_mon date = ls_month s \<and> tm_mday date = ls_day s \<and> tm_hour date = ls_hour s))"

definition logFileName :: "log_session \<Rightarrow> string" where
  "logFileName s = ls_serverName s @ ''_'' @ zeroPad 4 (decimal (ls_year s)) @ ''-'' @ zeroPad 2 (decimal (ls_month s)) @ ''-'' @
     zeroPad 2 (decimal (ls_day s)) @ '' '' @ zeroPad 2 (decimal (ls_hour s)) @ ''.txt''"

text \<open>The file name is built in 512 bytes.\<close>

definition updateOpenedFile :: "log_env \<Rightarrow> log_session \<Rightarrow> (log_session \<times> log_out list) option" where
  "updateOpenedFile env s =
     (let date = le_date env in
      if ls_serverName s \<noteq> [] \<and> (\<not> ls_file s \<or> isDateNeedNewFile date s) then
        (let s = s\<lparr>ls_year := tm_year date mod 65536, ls_month := tm_mon date mod 256, ls_day := tm_mday date mod 256,
                   ls_hour := tm_hour date mod 256\<rparr>
         in if length (logFileName s) \<ge> 512 then None
            else Some (s\<lparr>ls_file := le_opens env\<rparr>, [OpenLog (le_logDir env @ ''/'' @ logFileName s)]))
      else Some (s, []))"

definition logNameChar :: "char \<Rightarrow> bool" where
  "logNameChar c = (let n = of_char c :: nat in
     48 \<le> n \<and> n \<le> 57 \<or> 65 \<le> n \<and> n \<le> 90 \<or> 97 \<le> n \<and> n \<le> 122 \<or> c = CHR ''_'' \<or> c = CHR ''.'')"

definition logCheckName :: "string \<Rightarrow> bool" where
  "logCheckName nm = list_all logNameChar nm"

text \<open>A field of the fixed part: \<open>n\<close> bytes at an offset.\<close>

definition field_at :: "nat \<Rightarrow> nat \<Rightarrow> bytes \<Rightarrow> bytes" where
  "field_at off n buf = take n (drop off buf)"

text \<open>\<open>Utils::convertToString(p, len)\<close> with \<open>p\<close> at an offset of the buffer, which a negative length before may have
  moved in front of it.\<close>

definition readLogString :: "bytes \<Rightarrow> int \<Rightarrow> int \<Rightarrow> string option" where
  "readLogString buf off len =
     (if len \<le> 0 then Some []
      else if off < 0 then None
      else let s = takeWhile (\<lambda>b. b \<noteq> 0) (take (nat len) (drop (nat off) buf))
           in if int (length buf) < off + len \<and> int (length s) = int (length buf) - off then None
              else Some (map chrByte s))"

fun readLogStrings :: "bytes \<Rightarrow> int \<Rightarrow> int list \<Rightarrow> string list option" where
  "readLogStrings buf off [] = Some []"
| "readLogStrings buf off (len # lens) =
     (case readLogString buf off len of None \<Rightarrow> None | Some s \<Rightarrow> map_option ((#) s) (readLogStrings buf (off + len) lens))"

text \<open>The contents of a packet. The four lengths are signed here; \<open>expectedSize\<close> is compared with the 16-bit size.\<close>

definition logLens :: "bytes \<Rightarrow> int list" where
  "logLens buf = map (\<lambda>i. sint (from_le (field_at (97 + 2 * i) 2 buf) :: u16)) [0..<4]"

definition parseLog :: "bytes \<Rightarrow> log_message option option" where
  "parseLog buf =
     (let size = uint (from_le (field_at 2 2 buf) :: u16); lens = logLens buf
      in if 105 + sum_list lens > size then Some None
         else case readLogStrings buf 105 lens of None \<Rightarrow> None
           | Some strs \<Rightarrow> Some (Some \<lparr>lm_id = from_le (field_at 0 2 buf), lm_type = from_le (field_at 4 1 buf),
               lm_thread_id = from_le (field_at 5 4 buf), lm_n = map (\<lambda>i. from_le (field_at (9 + 8 * i) 8 buf)) [0..<11],
               lm_str = strs\<rparr>))"

definition intText :: "int \<Rightarrow> string" where "intText v = signedPad 0 v"

definition tabbed :: "string list \<Rightarrow> string" where
  "tabbed xs = concat (map (\<lambda>x. x @ [CHR 0x09]) xs)"

text \<open>The line: date and time, the thread and message ids, the numbers as signed, the four strings.\<close>

definition logLine :: "log_env \<Rightarrow> log_message \<Rightarrow> string" where
  "logLine env m =
     (let d = le_date env in
      zeroPad 4 (decimal (tm_year d)) @ ''-'' @ zeroPad 2 (decimal (tm_mon d)) @ ''-'' @ zeroPad 2 (decimal (tm_mday d)) @ '' '' @
      zeroPad 2 (decimal (tm_hour d)) @ '':'' @ zeroPad 2 (decimal (tm_min d)) @ '':'' @ zeroPad 2 (decimal (tm_sec d)) @ ''.'' @
      zeroPad 3 (decimal (le_msec env)) @ [CHR 0x09] @
      tabbed (intText (sint (lm_thread_id m)) # intText (uint (lm_id m)) # map (\<lambda>n. intText (sint n)) (lm_n m)) @
      lm_str m ! 0 @ [CHR 0x09] @ lm_str m ! 1 @ [CHR 0x09] @ lm_str m ! 2 @ [CHR 0x09] @ lm_str m ! 3 @ [LF])"

definition LINE_BUFFER :: nat where "LINE_BUFFER = 20 + 20 * 13 + 255 * 4 + 18"

definition logServerName :: "log_message \<Rightarrow> log_session \<Rightarrow> log_session" where
  "logServerName m s =
     (if lm_id m = LM_SERVER_LOGIN \<and> ls_serverName s = [] \<and> logCheckName (lm_str m ! 3)
      then s\<lparr>ls_serverName := lm_str m ! 3\<rparr> else s)"

definition logOnPacket :: "log_env \<Rightarrow> bytes \<Rightarrow> log_session \<Rightarrow> (log_session \<times> log_out list) option" where
  "logOnPacket env buf s =
     (case parseLog buf of
        None \<Rightarrow> None
      | Some None \<Rightarrow> Some (s, [])
      | Some (Some m) \<Rightarrow>
          (case updateOpenedFile env (logServerName m s) of
             None \<Rightarrow> None
           | Some (s, out) \<Rightarrow>
               if ls_file s then
                 (if length (logLine env m) \<ge> LINE_BUFFER then None else Some (s, out @ [LogLine (logLine env m)]))
               else Some (s, out)))"

fun logOnPackets :: "log_env list \<Rightarrow> bytes list \<Rightarrow> log_session \<Rightarrow> (log_session \<times> log_out list) option" where
  "logOnPackets (env # envs) (buf # bufs) s =
     (case logOnPacket env buf s of None \<Rightarrow> None
      | Some (s, out) \<Rightarrow> map_option (\<lambda>(s, outs). (s, out @ outs)) (logOnPackets envs bufs s))"
| "logOnPackets _ _ s = Some (s, [])"

section \<open>Framing\<close>

text \<open>The reader one unit at a time: a header, or a whole body.\<close>

definition log_step :: "log_framing \<Rightarrow> bytes \<Rightarrow> (log_framing \<times> bytes list \<times> nat) option" where
  "log_step s stream =
     (if lf_size s = 0 then (if length stream < 4 then None else Some (fst (logReadHeader s stream), [], 4))
      else if length stream < unat (lf_size s) then None
      else Some (fst (logReadBody (s\<lparr>lf_discard := False\<rparr>) stream), snd (snd (logReadBody (s\<lparr>lf_discard := False\<rparr>) stream)),
             unat (lf_size s)))"

interpretation log_packets: incremental log_step
proof
  show "0 < k \<and> k \<le> length xs" if "log_step s xs = Some (s', out, k)" for s xs s' out k
    using that by (auto simp: log_step_def size_nonzero intro: gr0I split: if_splits)
  show "log_step s (xs @ ys) = Some r" if "log_step s xs = Some r" for s xs r ys
    using that by (auto simp: log_step_def logReadHeader_def logReadBody_def Let_def split: if_splits)
qed

lemma header_nonzero: "lf_size (fst (logReadHeader s stream)) \<noteq> 0"
proof -
  have "n - 4 \<noteq> 0" if "\<not> n \<le> 4" for n :: u16 using that by auto
  moreover have "0 - 4 \<noteq> (0 :: u16)" by simp
  ultimately show ?thesis by (simp add: logReadHeader_def Let_def)
qed

lemma word16_not_above: "\<not> 65536 < unat (w :: u16)"
  using unsigned_less [of w, where 'a = nat] by simp

lemma header_discard: "\<not> lf_discard (fst (logReadHeader s stream))"
  using word16_not_above by (simp add: logReadHeader_def Let_def)

lemma body_done:
  "\<not> lf_discard s \<Longrightarrow> lf_size s \<noteq> 0 \<Longrightarrow> unat (lf_size s) \<le> length stream \<Longrightarrow>
    lf_size (fst (logReadBody s stream)) = 0 \<and> \<not> lf_discard (fst (logReadBody s stream)) \<and>
    fst (snd (logReadBody s stream)) = drop (unat (lf_size s)) stream"
  by (simp add: logReadBody_def Let_def size_nonzero)

lemma again_false: "\<not> logAgain s stream \<Longrightarrow> log_step s stream = None"
  by (auto simp: logAgain_def log_step_def)

definition logContinue :: "log_framing \<times> bytes \<times> bytes list \<Rightarrow> log_framing \<times> bytes \<times> bytes list" where
  "logContinue r = (if logAgain (fst r) (fst (snd r))
     then (let q = logOnDataReceived (fst r) (fst (snd r)) in (fst q, fst (snd q), snd (snd r) @ snd (snd q))) else r)"

lemma logOnDataReceived_unfold:
  "logOnDataReceived s stream =
     (if lf_size s = 0 \<and> length stream < 4 then (s, stream, []) else logContinue (logIteration s stream))"
  by (simp add: logOnDataReceived.simps [of s stream] logContinue_def Let_def)

lemma log_continue_body:
  assumes IH: "\<And>s' stream'. length stream' < n \<Longrightarrow> \<not> lf_discard s' \<Longrightarrow>
      logOnDataReceived s' stream' = consume log_step s' stream'"
    and "length stream \<le> n" "lf_size s \<noteq> 0" "\<not> lf_discard s"
  shows "logContinue (logReadBody s stream) = consume log_step s stream"
proof (cases "length stream < unat (lf_size s)")
  case True
  then have "log_step s stream = None" using assms(3) by (simp add: log_step_def)
  then show ?thesis
    using True assms(3,4) by (simp add: logReadBody_wait logContinue_def logAgain_def log_packets.consume_wait)
next
  case False
  let ?r = "logReadBody s stream"
  have same: "s\<lparr>lf_discard := False\<rparr> = s" using assms(4) by (cases s) simp
  note d = body_done [OF assms(4,3), of stream]
  have str: "fst (snd ?r) = drop (unat (lf_size s)) stream" using d False by simp
  have "log_step s stream = Some (fst ?r, snd (snd ?r), unat (lf_size s))" using False assms(3) by (simp add: log_step_def same)
  from log_packets.consume_step [OF this]
  have eq: "consume log_step s stream = (let q = consume log_step (fst ?r) (fst (snd ?r)) in (fst q, fst (snd q), snd (snd ?r) @ snd (snd q)))"
    by (simp add: str)
  have "0 < unat (lf_size s)" using assms(3) by (metis gr0I size_nonzero)
  then have shorter: "length (fst (snd ?r)) < n" using False assms(2) str by simp
  show ?thesis
  proof (cases "logAgain (fst ?r) (fst (snd ?r))")
    case True
    then show ?thesis using IH [OF shorter, of "fst ?r"] d False by (simp add: logContinue_def eq)
  next
    case no: False
    then show ?thesis using log_packets.consume_wait [OF again_false [OF no]]
      by (simp add: logContinue_def eq prod_eq_iff)
  qed
qed

lemma logOnDataReceived_consume: "\<not> lf_discard s \<Longrightarrow> logOnDataReceived s stream = consume log_step s stream"
proof (induction "length stream" arbitrary: s stream rule: less_induct)
  case less
  show ?case
  proof (cases "lf_size s = 0")
    case True
    show ?thesis
    proof (cases "length stream < 4")
      case short: True
      then have "log_step s stream = None" using True by (simp add: log_step_def)
      then show ?thesis using True short by (simp add: logOnDataReceived_unfold log_packets.consume_wait)
    next
      case long: False
      let ?s = "fst (logReadHeader s stream)"
      have "logIteration s stream = logReadBody ?s (drop 4 stream)"
        using True by (simp add: logIteration_def split_beta logReadHeader_def Let_def)
      then have "logOnDataReceived s stream = logContinue (logReadBody ?s (drop 4 stream))"
        using long by (simp add: logOnDataReceived_unfold)
      also have "\<dots> = consume log_step ?s (drop 4 stream)"
        by (rule log_continue_body [where n = "length (drop 4 stream) + 1"])
           (use less.hyps long header_nonzero header_discard in auto)
      also have "\<dots> = consume log_step s stream"
        using log_packets.consume_step [of s stream ?s "[]" 4] True long by (simp add: log_step_def Let_def)
      finally show ?thesis .
    qed
  next
    case False
    have "logOnDataReceived s stream = logContinue (logReadBody s stream)"
      using False by (simp add: logOnDataReceived_unfold logIteration_def)
    also have "\<dots> = consume log_step s stream"
      by (rule log_continue_body [where n = "length stream"]) (use less False in auto)
    finally show ?thesis .
  qed
qed

end
