(* ===== verification/LogSpec.thy ===== *)
theory LogSpec
  imports LogServer
begin

text \<open>
  The log client and the log server together: what the client packs is what the server's session parses, through any
  split of the stream into reads; and the two ways a packet from elsewhere breaks the reader.
\<close>

section \<open>One packet\<close>

definition log_idle :: "log_framing \<Rightarrow> bool" where
  "log_idle s \<longleftrightarrow> lf_size s = 0 \<and> \<not> lf_discard s"

lemma logHeader_split:
  "logHeader m = (to_le 2 (lm_id m) @ to_le 2 (logSize m)) @ drop 4 (logHeader m)"
  by (simp add: logHeader_def)

lemma consume_log_packet:
  assumes "log_message_fits m" "log_idle s"
  shows "\<exists>s' junk. log_idle s' \<and> consume log_step s (packLog m @ rest) =
    (let q = consume log_step s' rest in (fst q, fst (snd q), (packLog m @ junk) # snd (snd q)))"
proof -
  let ?body = "drop 4 (packLog m)"
  let ?s1 = "s\<lparr>lf_id := lm_id m, lf_size := logSize m - 4, lf_discard := False\<rparr>"
  note fits = packLog_fits [OF assms(1)]
  have len: "105 \<le> length (packLog m)"
    using assms(1) logHeader_length [of m] by (simp add: fits(1) log_message_fits_def)
  have pack: "packLog m = (to_le 2 (lm_id m) @ to_le 2 (logSize m)) @ ?body"
    using logHeader_split [of m] by (simp add: fits(1) logHeader_def)
  have big: "\<not> logSize m \<le> 4" using len fits(2) by (simp add: word_le_nat_alt)
  have small: "unat (logSize m - 4) = length ?body"
    using big fits(2) by (simp add: unat_sub not_le less_imp_le)
  have nz: "logSize m - 4 \<noteq> 0" using big by auto
  have head: "logReadHeader s (packLog m @ rest) = (?s1, ?body @ rest)"
    using big word16_not_above [of "logSize m"] by (subst (1 2) pack) (simp add: logReadHeader_def Let_def from_le_to_le)
  have step1: "log_step s (packLog m @ rest) = Some (?s1, [], 4)"
    using assms(2) len head by (simp add: log_step_def log_idle_def)
  obtain s2 junk where body: "logReadBody ?s1 (?body @ rest) = (s2, rest, [packLog m @ junk])" "log_idle s2"
  proof -
    let ?old = "if length ?body + 4 > length (lf_buffer s) then replicate (length ?body + 4) 0 else lf_buffer s"
    have "to_le 2 (lm_id m) @ to_le 2 (logSize m - 4 + 4) @ ?body @ drop (length ?body + 4) ?old =
        packLog m @ drop (length ?body + 4) ?old" using pack by simp
    then have "logReadBody ?s1 (?body @ rest) = (?s1\<lparr>lf_buffer := packLog m @ drop (length ?body + 4) ?old, lf_size := 0\<rparr>, rest,
        [packLog m @ drop (length ?body + 4) ?old])"
      using nz small len by (simp add: logReadBody_def Let_def)
    then show ?thesis by (rule that) (simp add: log_idle_def)
  qed
  have step2: "log_step ?s1 (?body @ rest) = Some (s2, [packLog m @ junk], length ?body)"
    using nz small body by (simp add: log_step_def)
  have "consume log_step ?s1 (?body @ rest) =
      (let q = consume log_step s2 rest in (fst q, fst (snd q), (packLog m @ junk) # snd (snd q)))"
    using log_packets.consume_step [OF step2] by simp
  moreover have "consume log_step s (packLog m @ rest) = consume log_step ?s1 (?body @ rest)"
    using log_packets.consume_step [OF step1] len by simp
  ultimately show ?thesis using body(2) by metis
qed

lemma consume_log_packets:
  assumes "list_all log_message_fits ms" "log_idle s"
  shows "\<exists>s' bufs. consume log_step s (concat (map packLog ms)) = (s', [], bufs) \<and> log_idle s' \<and>
    list_all2 (\<lambda>m buf. \<exists>junk. buf = packLog m @ junk) ms bufs"
  using assms
proof (induction ms arbitrary: s)
  case Nil
  then have "log_step s [] = None" by (simp add: log_step_def log_idle_def)
  then show ?case using Nil by (simp add: log_packets.consume_wait)
next
  case (Cons m ms)
  obtain s1 junk where one: "log_idle s1" "consume log_step s (packLog m @ concat (map packLog ms)) =
      (let q = consume log_step s1 (concat (map packLog ms)) in (fst q, fst (snd q), (packLog m @ junk) # snd (snd q)))"
    using consume_log_packet [of m s "concat (map packLog ms)"] Cons.prems by auto
  then show ?case using Cons.IH [of s1] Cons.prems by (auto simp: Let_def)
qed

text \<open>Parsing.\<close>

lemma field_skip: "length xs \<le> off \<Longrightarrow> field_at off n (xs @ ys) = field_at (off - length xs) n ys"
  by (simp add: field_at_def)

lemma field_here: "length xs = n \<Longrightarrow> field_at 0 n (xs @ ys) = xs"
  by (simp add: field_at_def)

lemma field_concat:
  "(\<And>x. length (f x) = k) \<Longrightarrow> i < length xs \<Longrightarrow> field_at (k * i) k (concat (map f xs) @ ys) = f (xs ! i)"
proof (induction xs arbitrary: i)
  case (Cons x xs)
  then show ?case by (cases i) (simp_all add: field_here field_skip)
qed simp

lemma readLogStrings_packed:
  assumes "\<forall>s\<in>set strs. CHR 0x00 \<notin> set s"
  shows "readLogStrings (pre @ concat (map (map ordByte) strs) @ junk) (int (length pre)) (map (int \<circ> length) strs) = Some strs"
  using assms
proof (induction strs arbitrary: pre)
  case (Cons s strs)
  have nul: "chrByte 0 = CHR 0x00" by code_simp
  have "ordByte c \<noteq> 0" if "c \<in> set s" for c
    using that Cons.prems chr_ord [of c] nul by (metis list.set_intros(1))
  then have "takeWhile (\<lambda>b. b \<noteq> 0) (map ordByte s) = map ordByte s" by (simp add: takeWhile_eq_all_conv)
  then have "map chrByte (takeWhile (\<lambda>b. b \<noteq> 0) (map ordByte s)) = s" by (simp only: map_map) (simp add: comp_def)
  then have "readLogString (pre @ map ordByte s @ concat (map (map ordByte) strs) @ junk) (int (length pre)) (int (length s)) = Some s"
    by (simp add: readLogString_def)
  then show ?case using Cons.IH [of "pre @ map ordByte s"] Cons.prems by simp
qed simp

lemma sint_logLength: "length s < 32768 \<Longrightarrow> sint (logLength s) = int (length s)"
  by (simp add: logLength_def sint_uint uint_nat unat_of_nat take_bit_nat_eq_self signed_take_bit_eq_if_positive bit_iff_odd
      take_bit_int_eq_self)

lemma packLog_fields:
  assumes "log_message_fits m"
  shows "packLog m @ junk = to_le 2 (lm_id m) @ to_le 2 (logSize m) @ to_le 1 (lm_type m) @ to_le 4 (lm_thread_id m) @
    concat (map (to_le 8) (lm_n m)) @ concat (map (\<lambda>s. to_le 2 (logLength s)) (lm_str m)) @
    concat (map (map ordByte) (lm_str m)) @ junk"
  using packLog_fits(1) [OF assms] by (simp add: logHeader_def)

lemma int_sum_lengths: "sum_list (map (int \<circ> length) xs) = int (sum_list (map length xs))"
  by (induction xs) simp_all

lemma parse_packLog:
  assumes "log_message_fits m"
  shows "parseLog (packLog m @ junk) = Some (Some m)"
proof -
  let ?buf = "packLog m @ junk"
  let ?lens = "map (int \<circ> length) (lm_str m)"
  have wf: "length (lm_n m) = 11" "length (lm_str m) = 4" using assms by (simp_all add: log_message_fits_def log_message_wf_def)
  have cc: "length (concat (map (to_le 8) (lm_n m))) = 88" by (simp add: length_concat comp_def sum_list_triv wf)
  note f = packLog_fields [OF assms] field_skip field_here from_le_to_le
  have fixed: "from_le (field_at 0 2 ?buf) = lm_id m" "from_le (field_at 2 2 ?buf) = logSize m"
      "from_le (field_at 4 1 ?buf) = lm_type m" "from_le (field_at 5 4 ?buf) = lm_thread_id m"
    by (simp_all add: f)
  have n: "from_le (field_at (9 + 8 * i) 8 ?buf) = lm_n m ! i" if "i < 11" for i
    using that wf by (simp add: f field_concat)
  then have ns: "map (\<lambda>i. from_le (field_at (9 + 8 * i) 8 ?buf)) [0..<11] = lm_n m"
    by (intro nth_equalityI) (simp_all add: wf)
  have "field_at (97 + 2 * i) 2 ?buf = to_le 2 (logLength (lm_str m ! i))" if "i < 4" for i
    using that wf cc field_concat [of "\<lambda>s. to_le 2 (logLength s)" 2 i "lm_str m"] by (simp add: f)
  moreover have "length (lm_str m ! i) < 32768" if "i < 4" for i
    using assms that wf by (simp add: log_message_fits_def)
  ultimately have lens: "logLens ?buf = ?lens"
    by (intro nth_equalityI) (simp_all add: logLens_def wf from_le_to_le sint_logLength)
  have "uint (logSize m) = int (length (packLog m))" using packLog_fits(2) [OF assms] by (metis uint_nat)
  moreover have "length (packLog m) = 105 + sum_list (map length (lm_str m))"
    using packLog_fits(1) [OF assms] logHeader_length [of m] assms by (simp add: log_message_fits_def length_concat comp_def)
  ultimately have enough: "\<not> 105 + sum_list ?lens > uint (logSize m)" by (simp add: int_sum_lengths)
  have "readLogStrings (logHeader m @ concat (map (map ordByte) (lm_str m)) @ junk) (int (length (logHeader m))) ?lens = Some (lm_str m)"
    by (rule readLogStrings_packed) (use assms in \<open>simp add: log_message_fits_def\<close>)
  then have "readLogStrings ?buf 105 ?lens = Some (lm_str m)"
    using packLog_fits(1) [OF assms] logHeader_length [of m] assms by (simp add: log_message_fits_def)
  then show ?thesis using enough by (simp add: parseLog_def Let_def fixed fixed(3) [unfolded One_nat_def] ns lens)
qed

text \<open>The server over the pieces of the stream.\<close>

lemma chunks_consume:
  "\<not> lf_discard s \<Longrightarrow> logReceiveChunks s pending cs = consumeChunks log_step s pending cs"
proof (induction cs arbitrary: s pending)
  case (Cons c cs)
  have "\<not> lf_discard (fst (consume log_step s (pending @ c)))"
  proof (rule log_packets.consume_keeps [where P = "\<lambda>s. \<not> lf_discard s", OF _ Cons.prems])
    show "\<not> lf_discard s'" if "log_step s xs = Some (s', out, k)" "\<not> lf_discard s" for s xs s' out k
      using that header_discard [of s xs] body_done [of "s\<lparr>lf_discard := False\<rparr>" xs]
      by (auto simp: log_step_def split: if_splits)
  qed
  then show ?case using Cons.IH logOnDataReceived_consume [OF Cons.prems] by (simp add: split_beta Let_def)
qed simp

lemma server_parses:
  assumes "list_all log_message_fits ms" "concat chunks = concat (map packLog ms)" "log_idle s"
  shows "\<exists>s' bufs. logReceiveChunks s [] chunks = (s', [], bufs) \<and> map parseLog bufs = map (Some \<circ> Some) ms"
proof -
  have idle: "log_step s [] = None" using assms(3) by (simp add: log_step_def log_idle_def)
  obtain s' bufs where out: "consume log_step s (concat (map packLog ms)) = (s', [], bufs)"
      "list_all2 (\<lambda>m buf. \<exists>junk. buf = packLog m @ junk) ms bufs"
    using consume_log_packets [OF assms(1,3)] by blast
  have "map parseLog bufs = map (Some \<circ> Some) ms"
    using out(2) assms(1) by (induction rule: list_all2_induct) (auto simp: parse_packLog)
  moreover have "logReceiveChunks s [] chunks = (s', [], bufs)"
    using chunks_consume [of s "[]" chunks] log_packets.chunks_concat [OF idle] assms(2,3) out(1) by (simp add: log_idle_def)
  ultimately show ?thesis by blast
qed

lemma start_fits: "log_message_fits (startMessage pid)"
  by (simp add: log_message_fits_def log_message_wf_def startMessage_def)

lemma login_fits: "length (takeWhile (\<lambda>c. c \<noteq> CHR 0x00) appName) < 32768 \<Longrightarrow> log_message_fits (loginMessage pid appName)"
  using takeWhile_neq_id by (auto simp: log_message_fits_def log_message_wf_def loginMessage_def dest: set_takeWhileD)

section \<open>Lines\<close>

lemma intText_length: "0 < k \<Longrightarrow> \<bar>v\<bar> < 10 ^ k \<Longrightarrow> length (intText v) \<le> k + 1"
proof -
  assume k: "0 < k" "\<bar>v\<bar> < 10 ^ k"
  have "length (decimal (nat w)) \<le> k" if "0 \<le> w" "w < 10 ^ k" for w :: int
    by (rule decimal_length [OF k(1)]) (use that in \<open>simp add: nat_less_iff\<close>)
  from this [of v] this [of "- v"] show ?thesis using k by (auto simp: intText_def signedPad_def zeroPad_def)
qed

lemma intText64: "length (intText (sint (w :: u64))) \<le> 20"
  using intText_length [of 19 "sint w"] sint_range_size [of w] by (simp add: word_size abs_if)

lemma intText32: "length (intText (sint (w :: u32))) \<le> 11"
  using intText_length [of 10 "sint w"] sint_range_size [of w] by (simp add: word_size abs_if)

lemma intText16: "length (intText (uint (w :: u16))) \<le> 6"
  using intText_length [of 5 "uint w"] unsigned_less [of w, where 'a = int] by simp

lemma tabbed_length: "(\<And>x. x \<in> set xs \<Longrightarrow> length x \<le> k) \<Longrightarrow> length (tabbed xs) \<le> length xs * (k + 1)"
  by (induction xs) (fastforce simp: tabbed_def)+

text \<open>The fields \<open>gmtime\<close> fills in, until the year 9999.\<close>

definition log_env_ok :: "log_env \<Rightarrow> bool" where
  "log_env_ok env \<longleftrightarrow> tm_year (le_date env) \<le> 9999 \<and> tm_mon (le_date env) \<le> 12 \<and> tm_mday (le_date env) \<le> 31 \<and>
     tm_hour (le_date env) \<le> 23 \<and> tm_min (le_date env) \<le> 59 \<and> tm_sec (le_date env) \<le> 60 \<and> le_msec env \<le> 999"

definition short_strings :: "log_message \<Rightarrow> bool" where
  "short_strings m \<longleftrightarrow> log_message_fits m \<and> (\<forall>s\<in>set (lm_str m). length s \<le> 255)"

lemma logLine_length:
  assumes "short_strings m" "log_env_ok env"
  shows "length (logLine env m) < LINE_BUFFER"
proof -
  let ?d = "le_date env"
  have wf: "length (lm_n m) = 11" "length (lm_str m) = 4"
    using assms(1) by (simp_all add: short_strings_def log_message_fits_def log_message_wf_def)
  have str: "length (lm_str m ! i) \<le> 255" if "i < 4" for i using assms(1) that wf by (simp add: short_strings_def)
  have tab: "length (tabbed (map (\<lambda>n. intText (sint n)) (lm_n m))) \<le> 11 * 21"
    using tabbed_length [of "map (\<lambda>n. intText (sint n)) (lm_n m)" 20] intText64 wf by auto
  have "length (tabbed (intText (sint (lm_thread_id m)) # intText (uint (lm_id m)) # map (\<lambda>n. intText (sint n)) (lm_n m))) \<le> 12 + 7 + 231"
    using tab intText32 [of "lm_thread_id m"] intText16 [of "lm_id m"] by (simp add: tabbed_def)
  moreover have "length (zeroPad 4 (decimal (tm_year ?d))) = 4" "length (zeroPad 2 (decimal (tm_mon ?d))) = 2"
      "length (zeroPad 2 (decimal (tm_mday ?d))) = 2" "length (zeroPad 2 (decimal (tm_hour ?d))) = 2"
      "length (zeroPad 2 (decimal (tm_min ?d))) = 2" "length (zeroPad 2 (decimal (tm_sec ?d))) = 2"
      "length (zeroPad 3 (decimal (le_msec env))) = 3"
    using assms(2) by (simp_all add: zeroPad_length log_env_ok_def)
  ultimately show ?thesis
    using str [of 0] str [of 1] str [of 2] str [of 3] by (simp add: logLine_def LINE_BUFFER_def Let_def)
qed

lemma logFileName_length:
  assumes "log_env_ok env" "length (ls_serverName s) \<le> 255" "ls_year s = tm_year (le_date env) mod 65536"
    "ls_month s = tm_mon (le_date env) mod 256" "ls_day s = tm_mday (le_date env) mod 256" "ls_hour s = tm_hour (le_date env) mod 256"
  shows "length (logFileName s) < 512"
proof -
  have "ls_year s < 10 ^ 4" "ls_month s < 10 ^ 2" "ls_day s < 10 ^ 2" "ls_hour s < 10 ^ 2"
    using assms by (simp_all add: log_env_ok_def)
  then show ?thesis using assms(2) by (simp add: logFileName_def zeroPad_length)
qed

lemma updateOpenedFile_ok:
  assumes "log_env_ok env" "length (ls_serverName s) \<le> 255"
  shows "\<exists>s' out. updateOpenedFile env s = Some (s', out) \<and> ls_serverName s' = ls_serverName s"
proof -
  let ?d = "le_date env"
  let ?s = "s\<lparr>ls_year := tm_year ?d mod 65536, ls_month := tm_mon ?d mod 256, ls_day := tm_mday ?d mod 256, ls_hour := tm_hour ?d mod 256\<rparr>"
  have "length (logFileName ?s) < 512" by (rule logFileName_length [OF assms(1)]) (use assms(2) in simp_all)
  then show ?thesis by (simp add: updateOpenedFile_def Let_def)
qed

text \<open>The line buffer has no room for longer strings, which the length fields allow.\<close>

lemma log_line_overflow:
  assumes "lm_str m = replicate 4 (replicate n (CHR ''x''))" "330 \<le> n" "log_message_fits m" "ls_file s" "\<not> isDateNeedNewFile (le_date env) s"
    "lm_id m \<noteq> LM_SERVER_LOGIN"
  shows "logOnPacket env (packLog m @ junk) s = None"
proof -
  have "LINE_BUFFER \<le> length (logLine env m)" using assms(1,2) by (simp add: logLine_def LINE_BUFFER_def Let_def)
  then show ?thesis
    using assms parse_packLog [OF assms(3)] by (simp add: logOnPacket_def logServerName_def updateOpenedFile_def Let_def)
qed

section \<open>Properties\<close>

text \<open>C25. From the start of the authentication server's log client to the parser of the log server: whatever is logged
  before the connection is made (the first hundred) and after it, and however the stream is cut into reads, the
  server's session parses the login message, the start message and then exactly these messages, in order.\<close>

theorem log_pipeline:
  assumes "0 \<le> r" "0 \<le> c" "list_all (loggedBy pid) (early @ late)" "list_all log_message_fits (early @ late)"
    and "length (takeWhile (\<lambda>c. c \<noteq> CHR 0x00) appName) < 32768"
  shows "\<exists>lc st. do { lc \<leftarrow> logStart c newLogClient; lc \<leftarrow> logAll r pid early lc;
        lc \<leftarrow> logStreamEvent r pid appName (UvConnected 0) lc; logAll r pid late lc } = Some lc \<and>
      lc_stream lc = Some st \<and>
      (\<forall>chunks buffer. concat chunks = st_written st \<longrightarrow>
        (\<exists>s bufs. logReceiveChunks (newLogFraming buffer) [] chunks = (s, [], bufs) \<and>
          map parseLog bufs = map (Some \<circ> Some) (loginMessage pid appName # startMessage pid # take 100 early @ late)))"
proof -
  let ?ms = "loginMessage pid appName # startMessage pid # take 100 early @ late"
  have "list_all log_message_fits (take 100 early)" using assms(4) by (auto simp: list_all_iff dest: in_set_takeD)
  then have fits: "list_all log_message_fits ?ms" using assms(4) login_fits [OF assms(5)] start_fits by simp
  have idle: "log_idle (newLogFraming buffer)" for buffer by (simp add: log_idle_def newLogFraming_def)
  show ?thesis
    using client_wire [OF assms(1,2), of pid early late appName] assms(3) server_parses [OF fits _ idle] by fastforce
qed

theorem log_pipeline_witness:
  "\<exists>lc st s bufs. do { lc \<leftarrow> logStart 0 newLogClient;
        lc \<leftarrow> logAll 0 7 [\<lparr>lm_id = 1002, lm_type = 1, lm_thread_id = 7, lm_n = replicate 11 5, lm_str = [''acct'', [], [], ''x'']\<rparr>] lc;
        lc \<leftarrow> logStreamEvent 0 7 ''auth'' (UvConnected 0) lc;
        logAll 0 7 [\<lparr>lm_id = 1003, lm_type = 1, lm_thread_id = 7, lm_n = replicate 11 0, lm_str = [[], ''b'', [], []]\<rparr>] lc } = Some lc \<and>
      lc_stream lc = Some st \<and>
      logReceiveChunks (newLogFraming (replicate 296 0)) [] (map (\<lambda>b. [b]) (st_written st)) = (s, [], bufs) \<and>
      map parseLog bufs = map (Some \<circ> Some) [loginMessage 7 ''auth'', startMessage 7,
        \<lparr>lm_id = 1002, lm_type = 1, lm_thread_id = 7, lm_n = replicate 11 5, lm_str = [''acct'', [], [], ''x'']\<rparr>,
        \<lparr>lm_id = 1003, lm_type = 1, lm_thread_id = 7, lm_n = replicate 11 0, lm_str = [[], ''b'', [], []]\<rparr>]"
proof -
  let ?e = "\<lparr>lm_id = 1002, lm_type = 1, lm_thread_id = 7, lm_n = replicate 11 5, lm_str = [''acct'', [], [], ''x'']\<rparr>"
  let ?l = "\<lparr>lm_id = 1003, lm_type = 1, lm_thread_id = 7, lm_n = replicate 11 0, lm_str = [[], ''b'', [], []]\<rparr>"
  have single: "concat (map (\<lambda>b. [b]) bs) = bs" for bs :: bytes by (induction bs) simp_all
  obtain lc st where w: "do { lc \<leftarrow> logStart 0 newLogClient; lc \<leftarrow> logAll 0 7 [?e] lc;
        lc \<leftarrow> logStreamEvent 0 7 ''auth'' (UvConnected 0) lc; logAll 0 7 [?l] lc } = Some lc" "lc_stream lc = Some st"
      "\<forall>chunks buffer. concat chunks = st_written st \<longrightarrow>
        (\<exists>s bufs. logReceiveChunks (newLogFraming buffer) [] chunks = (s, [], bufs) \<and>
          map parseLog bufs = map (Some \<circ> Some) (loginMessage 7 ''auth'' # startMessage 7 # take 100 [?e] @ [?l]))"
    using log_pipeline [of 0 0 7 "[?e]" "[?l]" "''auth''"]
    by (simp add: loggedBy_def log_message_fits_def log_message_wf_def) blast
  show ?thesis using w(1,2) w(3) [rule_format, OF single] by fastforce
qed

text \<open>A header whose size is at most four, which no client of the protocol sends but anyone can, makes the reader
  of the log server wait for 65532 bytes: whatever follows, in any pieces, is not dispatched.\<close>

lemma log_short_header_swallows:
  assumes "log_idle s" "n \<le> 4" "concat chunks = to_le 2 (i :: u16) @ to_le 2 (n :: u16) @ rest" "length rest < 65532"
  shows "\<exists>s'. logReceiveChunks s [] chunks = (s', rest, [])"
proof -
  let ?s1 = "s\<lparr>lf_id := i, lf_size := 65532, lf_discard := False\<rparr>"
  let ?in = "to_le 2 i @ to_le 2 n @ rest"
  have head: "logReadHeader s ?in = (?s1, rest)"
    using assms(2) by (simp add: logReadHeader_def Let_def from_le_to_le)
  have "log_step s ?in = Some (?s1, [], 4)" using assms(1) head by (simp add: log_step_def log_idle_def)
  moreover have "log_step ?s1 rest = None" using assms(4) by (simp add: log_step_def)
  ultimately have "consume log_step s ?in = (?s1, rest, [])"
    using log_packets.consume_step [of s ?in ?s1 "[]" 4] log_packets.consume_wait [of ?s1 rest] by (simp add: Let_def)
  moreover have "log_step s [] = None" using assms(1) by (simp add: log_step_def log_idle_def)
  ultimately show ?thesis
    using chunks_consume [of s "[]" chunks] log_packets.chunks_concat [of s "[]" chunks] assms(1,3) by (simp add: log_idle_def)
qed

lemma log_short_header_swallows_witness:
  "\<exists>s'. logReceiveChunks (newLogFraming (replicate 296 0)) [] [[101, 0], [4, 0], packLog (startMessage 7), packLog (startMessage 7)] =
     (s', packLog (startMessage 7) @ packLog (startMessage 7), [])"
proof -
  have "length (packLog (startMessage 7)) = 110"
    using packLog_fits(1) [OF start_fits, of 7] logHeader_length [of "startMessage 7"]
    by (simp add: startMessage_def log_message_wf_def)
  moreover have "to_le 2 (101 :: u16) = [101, 0]" "to_le 2 (4 :: u16) = [4, 0]" by code_simp+
  ultimately show ?thesis
    using log_short_header_swallows [of "newLogFraming (replicate 296 0)" 4
        "[[101, 0], [4, 0], packLog (startMessage 7), packLog (startMessage 7)]" 101]
    by (simp add: log_idle_def newLogFraming_def)
qed

text \<open>C26. A message whose strings have at most 255 characters is handled by the server's session within its fixed
  buffers: the name it keeps stays as short, the name is set by the first login message with an acceptable name and
  never changed, and when a file is open the line written is the formatted message.\<close>

theorem log_message_written:
  assumes "short_strings m" "log_env_ok env" "length (ls_serverName s) \<le> 255"
  shows "\<exists>s' out. logOnPacket env (packLog m @ junk) s = Some (s', out) \<and> length (ls_serverName s') \<le> 255 \<and>
    ls_serverName s' = (if lm_id m = LM_SERVER_LOGIN \<and> ls_serverName s = [] \<and> logCheckName (lm_str m ! 3)
                        then lm_str m ! 3 else ls_serverName s) \<and>
    (ls_file s' \<longrightarrow> out \<noteq> [] \<and> last out = LogLine (logLine env m))"
proof -
  have fits: "log_message_fits m" and nm: "length (lm_str m ! 3) \<le> 255"
    using assms(1) by (simp_all add: short_strings_def log_message_fits_def log_message_wf_def)
  let ?s = "logServerName m s"
  have "length (ls_serverName ?s) \<le> 255" using assms(3) nm by (simp add: logServerName_def)
  from updateOpenedFile_ok [OF assms(2) this] obtain s' out where u: "updateOpenedFile env ?s = Some (s', out)"
      "ls_serverName s' = ls_serverName ?s" by blast
  show ?thesis
    using u parse_packLog [OF fits, of junk] logLine_length [OF assms(1,2)] assms(3) nm
    by (auto simp: logOnPacket_def logServerName_def)
qed

theorem log_message_written_witness:
  "\<exists>s' out. logOnPacket \<lparr>le_date = \<lparr>tm_year = 2020, tm_mon = 2, tm_mday = 3, tm_hour = 4, tm_min = 5, tm_sec = 6\<rparr>, le_msec = 7,
       le_logDir = ''log'', le_opens = True\<rparr> (packLog (loginMessage 7 ''auth'') @ []) newLogSession = Some (s', out) \<and>
     ls_serverName s' = ''auth''"
proof -
  have "short_strings (loginMessage 7 ''auth'')"
    using login_fits [of "''auth''" 7] by (simp add: short_strings_def loginMessage_def)
  moreover have "log_env_ok \<lparr>le_date = \<lparr>tm_year = 2020, tm_mon = 2, tm_mday = 3, tm_hour = 4, tm_min = 5, tm_sec = 6\<rparr>, le_msec = 7,
       le_logDir = ''log'', le_opens = True\<rparr>" by (simp add: log_env_ok_def)
  moreover have "logCheckName ''auth''" by code_simp
  ultimately show ?thesis
    using log_message_written [of "loginMessage 7 ''auth''" _ newLogSession "[]"]
    by (fastforce simp: newLogSession_def loginMessage_def)
qed

end
