(* ===== verification/DbPool.thy ===== *)
theory DbPool
  imports Prelude
begin

text \<open>
  The pool of database connections (librzu/src/lib/Database/DbConnectionPool.cpp, DbConnection.cpp), used by the
  worker threads that run queries and by the console: a state machine whose events are the steps of the
  threads between two accesses to data that other threads see. \<open>listLock\<close> is part of the state; a thread that
  waits for it does not move. A step that uses a deleted connection, or violates an assertion, is undefined.
\<close>

section \<open>Connections and the pool\<close>

record db_connection =
  dc_string :: string
  dc_lastQuery :: string
  dc_used :: bool

text \<open>Where a thread is inside the operations of the pool.\<close>

datatype phase =
    Idle
  | Matching string string "nat list"
  | Reusing string "nat list"
  | Connecting string
  | Inserting string nat
  | Holding nat
  | Removed nat
  | Locking "nat list" "nat list"
  | Closing "nat list"
  | ClosingOne nat "nat list"

record pool =
  pl_heap :: "nat \<Rightarrow> db_connection option"
  pl_opened :: "(string \<times> nat) list"
  pl_lock :: "nat option"
  pl_next :: nat
  pl_phase :: "nat \<Rightarrow> phase"

definition newPool :: pool where
  "newPool = \<lparr>pl_heap = Map.empty, pl_opened = [], pl_lock = None, pl_next = 0, pl_phase = (\<lambda>_. Idle)\<rparr>"

definition setPhase :: "nat \<Rightarrow> phase \<Rightarrow> pool \<Rightarrow> pool" where
  "setPhase t ph p = p\<lparr>pl_phase := (pl_phase p)(t := ph)\<rparr>"

definition setConnection :: "nat \<Rightarrow> db_connection \<Rightarrow> pool \<Rightarrow> pool" where
  "setConnection a c p = p\<lparr>pl_heap := (pl_heap p)(a \<mapsto> c)\<rparr>"

section \<open>DbConnection\<close>

definition trylock :: "nat \<Rightarrow> pool \<Rightarrow> (bool \<times> pool) option" where
  "trylock a p = (case pl_heap p a of None \<Rightarrow> None
     | Some c \<Rightarrow> Some (if dc_used c then (False, p) else (True, setConnection a (c\<lparr>dc_used := True\<rparr>) p)))"

text \<open>\<open>release\<close> first closes the cursor, which asserts that the connection is in use.\<close>

definition releaseConnection :: "nat \<Rightarrow> pool \<Rightarrow> pool option" where
  "releaseConnection a p = (case pl_heap p a of None \<Rightarrow> None
     | Some c \<Rightarrow> if dc_used c then Some (setConnection a (c\<lparr>dc_used := False\<rparr>) p) else None)"

definition deleteConnection :: "nat \<Rightarrow> pool \<Rightarrow> pool option" where
  "deleteConnection a p = (if pl_heap p a = None then None else Some (p\<lparr>pl_heap := (pl_heap p)(a := None)\<rparr>))"

text \<open>\<open>execute\<close> as far as the pool is concerned: a query that was prepared is remembered. \<open>prepared\<close> is the result of
  \<open>SQLPrepare\<close>.\<close>

definition executeCached :: "nat \<Rightarrow> string \<Rightarrow> bool \<Rightarrow> pool \<Rightarrow> pool option" where
  "executeCached a query prepared p = (case pl_heap p a of None \<Rightarrow> None
     | Some c \<Rightarrow> if dc_used c then
         Some (if dc_lastQuery c \<noteq> query \<and> prepared then setConnection a (c\<lparr>dc_lastQuery := query\<rparr>) p else p)
       else None)"

section \<open>DbConnectionPool\<close>

definition equal_range :: "string \<Rightarrow> pool \<Rightarrow> nat list" where
  "equal_range str p = map snd (filter (\<lambda>(k, a). k = str) (pl_opened p))"

fun dropEntry :: "nat \<Rightarrow> (string \<times> nat) list \<Rightarrow> (string \<times> nat) list" where
  "dropEntry a [] = []"
| "dropEntry a (e # es) = (if snd e = a then es else e # dropEntry a es)"

definition removeConnection :: "nat \<Rightarrow> pool \<Rightarrow> pool" where
  "removeConnection a p = p\<lparr>pl_opened := dropEntry a (pl_opened p)\<rparr>"

definition lockList :: "nat \<Rightarrow> pool \<Rightarrow> pool" where
  "lockList t p = p\<lparr>pl_lock := Some t\<rparr>"

definition unlockList :: "pool \<Rightarrow> pool" where
  "unlockList p = p\<lparr>pl_lock := None\<rparr>"

text \<open>\<open>getConnection\<close>: an idle connection with the wanted query, or any idle one if 8 are open, else a new one.\<close>

definition matchNext :: "nat \<Rightarrow> string \<Rightarrow> string \<Rightarrow> nat list \<Rightarrow> pool \<Rightarrow> pool option" where
  "matchNext t str wanted as p =
     (case as of
        [] \<Rightarrow> Some (if length (pl_opened p) \<ge> 8 then setPhase t (Reusing str (equal_range str p)) p
               else setPhase t (Connecting str) (unlockList p))
      | a # as \<Rightarrow> do {
          (locked, p) \<leftarrow> trylock a p;
          c \<leftarrow> pl_heap p a;
          if locked then
            if wanted = [] \<or> dc_lastQuery c = wanted then Some (setPhase t (Holding a) (unlockList p))
            else do { p \<leftarrow> releaseConnection a p; Some (setPhase t (Matching str wanted as) p) }
          else Some (setPhase t (Matching str wanted as) p) })"

definition reuseNext :: "nat \<Rightarrow> string \<Rightarrow> nat list \<Rightarrow> pool \<Rightarrow> pool option" where
  "reuseNext t str as p =
     (case as of
        [] \<Rightarrow> Some (setPhase t (Connecting str) (unlockList p))
      | a # as \<Rightarrow> do {
          (locked, p) \<leftarrow> trylock a p;
          Some (if locked then setPhase t (Holding a) (unlockList p) else setPhase t (Reusing str as) p) })"

text \<open>\<open>addConnection\<close> with \<open>createLocked\<close>: \<open>ok\<close> says whether the ODBC calls succeed; the position in the unordered map is
  arbitrary.\<close>

definition addConnection :: "nat \<Rightarrow> string \<Rightarrow> bool \<Rightarrow> pool \<Rightarrow> pool" where
  "addConnection t str ok p =
     (if ok then
        let a = pl_next p
        in setPhase t (Inserting str a)
             (setConnection a \<lparr>dc_string = str, dc_lastQuery = [], dc_used = True\<rparr> (p\<lparr>pl_next := a + 1\<rparr>))
      else setPhase t Idle p)"

definition insertConnection :: "nat \<Rightarrow> string \<Rightarrow> nat \<Rightarrow> nat \<Rightarrow> pool \<Rightarrow> pool" where
  "insertConnection t str a k p =
     setPhase t (Holding a) (p\<lparr>pl_opened := take k (pl_opened p) @ (str, a) # drop k (pl_opened p)\<rparr>)"

text \<open>\<open>closeAllConnections\<close>: the idle connections are locked under the list lock, then closed one after the other.\<close>

definition lockNext :: "nat \<Rightarrow> nat list \<Rightarrow> nat list \<Rightarrow> pool \<Rightarrow> pool option" where
  "lockNext t as toRemove p =
     (case as of
        [] \<Rightarrow> Some (setPhase t (Closing toRemove) (unlockList p))
      | a # as \<Rightarrow> do {
          (locked, p) \<leftarrow> trylock a p;
          Some (setPhase t (Locking as (if locked then toRemove @ [a] else toRemove)) p) })"

text \<open>The end of \<open>releaseAndClose\<close>, after the connection has left the list.\<close>

definition destroyConnection :: "nat \<Rightarrow> pool \<Rightarrow> pool option" where
  "destroyConnection a p = do { p \<leftarrow> releaseConnection a p; deleteConnection a p }"

section \<open>The threads\<close>

datatype action =
    GetConnection string string
  | Connected bool
  | Execute string bool
  | Release
  | ReleaseAndClose
  | CloseAll
  | Proceed nat

definition pool_step :: "nat \<times> action \<Rightarrow> pool \<Rightarrow> pool option" where
  "pool_step e p =
     (case e of (t, act) \<Rightarrow>
       (case pl_phase p t of
          Idle \<Rightarrow>
            (case act of
               GetConnection str wanted \<Rightarrow>
                 Some (if pl_lock p = None then setPhase t (Matching str wanted (equal_range str p)) (lockList t p) else p)
             | CloseAll \<Rightarrow>
                 Some (if pl_lock p = None then setPhase t (Locking (map snd (pl_opened p)) []) (lockList t p) else p)
             | _ \<Rightarrow> Some p)
        | Matching str wanted as \<Rightarrow> matchNext t str wanted as p
        | Reusing str as \<Rightarrow> reuseNext t str as p
        | Connecting str \<Rightarrow> (case act of Connected ok \<Rightarrow> Some (addConnection t str ok p) | _ \<Rightarrow> Some p)
        | Inserting str a \<Rightarrow>
            (case act of Proceed k \<Rightarrow> Some (if pl_lock p = None then insertConnection t str a k p else p) | _ \<Rightarrow> Some p)
        | Holding a \<Rightarrow>
            (case act of
               Execute query prepared \<Rightarrow> executeCached a query prepared p
             | Release \<Rightarrow> map_option (setPhase t Idle) (releaseConnection a p)
             | ReleaseAndClose \<Rightarrow> Some (if pl_lock p = None then setPhase t (Removed a) (removeConnection a p) else p)
             | _ \<Rightarrow> Some p)
        | Removed a \<Rightarrow> map_option (setPhase t Idle) (destroyConnection a p)
        | Locking as toRemove \<Rightarrow> lockNext t as toRemove p
        | Closing as \<Rightarrow>
            (case as of [] \<Rightarrow> Some (setPhase t Idle p)
             | a # as \<Rightarrow> Some (if pl_lock p = None then setPhase t (ClosingOne a as) (removeConnection a p) else p))
        | ClosingOne a as \<Rightarrow> map_option (setPhase t (Closing as)) (destroyConnection a p)))"

section \<open>Invariant\<close>

text \<open>The connections a thread has locked: those still in the list and those that are not.\<close>

fun inList :: "phase \<Rightarrow> nat list" where
  "inList (Holding a) = [a]"
| "inList (Locking as toRemove) = toRemove"
| "inList (Closing as) = as"
| "inList (ClosingOne a as) = as"
| "inList ph = []"

fun outOfList :: "phase \<Rightarrow> nat list" where
  "outOfList (Inserting str a) = [a]"
| "outOfList (Removed a) = [a]"
| "outOfList (ClosingOne a as) = [a]"
| "outOfList ph = []"

definition owned :: "phase \<Rightarrow> nat list" where
  "owned ph = outOfList ph @ inList ph"

fun toScan :: "phase \<Rightarrow> nat list" where
  "toScan (Matching str wanted as) = as"
| "toScan (Reusing str as) = as"
| "toScan (Locking as toRemove) = as"
| "toScan ph = []"

fun scanning :: "phase \<Rightarrow> bool" where
  "scanning (Matching str wanted as) = True"
| "scanning (Reusing str as) = True"
| "scanning (Locking as toRemove) = True"
| "scanning ph = False"

definition listed :: "pool \<Rightarrow> nat set" where
  "listed p = snd ` set (pl_opened p)"

definition live :: "pool \<Rightarrow> nat set" where
  "live p = dom (pl_heap p)"

definition inUse :: "pool \<Rightarrow> nat set" where
  "inUse p = {a. \<exists>c. pl_heap p a = Some c \<and> dc_used c}"

definition ownedBy :: "pool \<Rightarrow> nat \<Rightarrow> nat set" where
  "ownedBy p t = set (owned (pl_phase p t))"

definition detached :: "pool \<Rightarrow> nat set" where
  "detached p = (\<Union>t. set (outOfList (pl_phase p t)))"

text \<open>The connections in use are those that some thread owns, each by one thread; the live connections are those of the
  list and those that a thread is about to insert or to delete; the holder of the list lock is the thread that walks
  the list.\<close>

definition pool_inv :: "pool \<Rightarrow> bool" where
  "pool_inv p \<longleftrightarrow>
     inUse p = (\<Union>t. ownedBy p t) \<and>
     (\<forall>t t'. t \<noteq> t' \<longrightarrow> ownedBy p t \<inter> ownedBy p t' = {}) \<and>
     (\<forall>t. distinct (owned (pl_phase p t))) \<and>
     distinct (map snd (pl_opened p)) \<and>
     live p = listed p \<union> detached p \<and>
     live p \<subseteq> {..< pl_next p} \<and>
     detached p \<inter> listed p = {} \<and>
     (\<forall>t. set (inList (pl_phase p t)) \<subseteq> listed p) \<and>
     (\<forall>t. set (toScan (pl_phase p t)) \<subseteq> listed p) \<and>
     (\<forall>t. pl_lock p = Some t \<longleftrightarrow> scanning (pl_phase p t))"

text \<open>One thread moves: what is left to show about the other threads.\<close>

lemma pool_inv_move:
  assumes inv: "pool_inv p" and ph: "pl_phase p' = (pl_phase p)(t := ph')"
    and own: "inUse p' = inUse p - ownedBy p t \<union> set (owned ph')" "set (owned ph') \<inter> (inUse p - ownedBy p t) = {}"
      "distinct (owned ph')"
    and li: "distinct (map snd (pl_opened p'))" "listed p - listed p' \<subseteq> ownedBy p t"
      "listed p' - listed p \<subseteq> set (outOfList (pl_phase p t))" "set (inList ph') \<subseteq> listed p'"
      "set (outOfList ph') \<inter> listed p' = {}"
    and lv: "live p' = listed p' \<union> set (outOfList ph') \<union> (live p - listed p - set (outOfList (pl_phase p t)))"
      "live p' \<subseteq> {..< pl_next p'}"
    and sc: "set (toScan ph') \<subseteq> listed p'" "pl_lock p \<noteq> None \<Longrightarrow> listed p \<subseteq> listed p'"
    and lk: "pl_lock p' = (if scanning ph' then Some t else if scanning (pl_phase p t) then None else pl_lock p)"
      "scanning ph' \<Longrightarrow> pl_lock p = None \<or> pl_lock p = Some t"
  shows "pool_inv p'"
proof -
  have o': "ownedBy p' x = (if x = t then set (owned ph') else ownedBy p x)" for x
    by (simp add: ownedBy_def ph)
  have dis: "x \<noteq> y \<Longrightarrow> ownedBy p x \<inter> ownedBy p y = {}" for x y using inv by (simp add: pool_inv_def)
  have use: "inUse p = (\<Union>x. ownedBy p x)" using inv by (simp add: pool_inv_def)
  have others: "inUse p - ownedBy p t = (\<Union>x \<in> - {t}. ownedBy p x)"
    unfolding use using dis by fastforce
  have outs: "set (outOfList (pl_phase p x)) \<subseteq> ownedBy p x" for x by (simp add: ownedBy_def owned_def)
  have det': "detached p' = set (outOfList ph') \<union> (\<Union>x \<in> - {t}. set (outOfList (pl_phase p x)))"
    unfolding detached_def ph by (auto split: if_splits)
  have rest: "live p - listed p - set (outOfList (pl_phase p t)) = (\<Union>x \<in> - {t}. set (outOfList (pl_phase p x)))"
  proof -
    have "live p = listed p \<union> detached p" "detached p \<inter> listed p = {}" using inv by (simp_all add: pool_inv_def)
    then have "live p - listed p = detached p" by blast
    moreover have "set (outOfList (pl_phase p x)) \<inter> set (outOfList (pl_phase p t)) = {}" if "x \<noteq> t" for x
      using dis [OF that] outs [of x] outs [of t] by blast
    ultimately show ?thesis by (auto simp: detached_def)
  qed
  have c1: "inUse p' = (\<Union>x. ownedBy p' x)"
    unfolding own(1) others o' by (auto split: if_splits)
  have c2: "x \<noteq> y \<Longrightarrow> ownedBy p' x \<inter> ownedBy p' y = {}" for x y
    using dis [of x y] own(2) unfolding others by (cases "x = t"; cases "y = t"; simp add: o'; blast)
  have c3: "distinct (owned (pl_phase p' x))" for x
    using inv own(3) by (simp add: ph pool_inv_def)
  have c5: "live p' = listed p' \<union> detached p'" unfolding lv(1) rest det' by blast
  have c6: "detached p' \<inter> listed p' = {}"
  proof -
    have "set (outOfList (pl_phase p x)) \<inter> listed p' = {}" if "x \<noteq> t" for x
    proof -
      have "detached p \<inter> listed p = {}" using inv by (simp add: pool_inv_def)
      then have "set (outOfList (pl_phase p x)) \<inter> listed p = {}" by (auto simp: detached_def)
      then show ?thesis using li(3) dis [OF that] outs [of x] outs [of t] by blast
    qed
    then show ?thesis unfolding det' using li(5) by blast
  qed
  have c7: "set (inList (pl_phase p' x)) \<subseteq> listed p'" for x
  proof (cases "x = t")
    case False
    have "set (inList (pl_phase p x)) \<subseteq> listed p" using inv by (simp add: pool_inv_def)
    moreover have "set (inList (pl_phase p x)) \<subseteq> ownedBy p x" by (simp add: ownedBy_def owned_def)
    ultimately show ?thesis using False dis [OF False] li(2) by (simp add: ph) blast
  qed (use li(4) in \<open>simp add: ph\<close>)
  have lockp: "pl_lock p = Some x \<longleftrightarrow> scanning (pl_phase p x)" for x using inv by (simp add: pool_inv_def)
  have noscan: "toScan ph = []" if "\<not> scanning ph" for ph using that by (cases ph) auto
  have c8: "set (toScan (pl_phase p' x)) \<subseteq> listed p'" for x
  proof (cases "x = t")
    case False
    have "set (toScan (pl_phase p x)) \<subseteq> listed p" using inv by (simp add: pool_inv_def)
    then show ?thesis using False sc(2) lockp [of x] noscan [of "pl_phase p x"] by (cases "scanning (pl_phase p x)") (auto simp: ph)
  qed (use sc(1) in \<open>simp add: ph\<close>)
  have c9: "pl_lock p' = Some x \<longleftrightarrow> scanning (pl_phase p' x)" for x
    using lk lockp [of x] lockp [of t] by (auto simp: ph split: if_splits)
  show ?thesis
    unfolding pool_inv_def using c1 c2 c3 c5 c6 c7 c8 c9 li(1) lv(2) by simp
qed

lemma pool_simps [simp]:
  "inUse (setPhase t ph p) = inUse p" "live (setPhase t ph p) = live p" "listed (setPhase t ph p) = listed p"
  "pl_opened (setPhase t ph p) = pl_opened p" "pl_lock (setPhase t ph p) = pl_lock p" "pl_next (setPhase t ph p) = pl_next p"
  "pl_phase (setPhase t ph p) = (pl_phase p)(t := ph)" "pl_heap (setPhase t ph p) = pl_heap p"
  "inUse (setConnection a c p) = (if dc_used c then insert a (inUse p) else inUse p - {a})"
  "live (setConnection a c p) = insert a (live p)" "listed (setConnection a c p) = listed p"
  "pl_opened (setConnection a c p) = pl_opened p" "pl_lock (setConnection a c p) = pl_lock p" "pl_next (setConnection a c p) = pl_next p"
  "pl_phase (setConnection a c p) = pl_phase p" "pl_heap (setConnection a c p) = (pl_heap p)(a \<mapsto> c)"
  "inUse (lockList t p) = inUse p" "live (lockList t p) = live p" "listed (lockList t p) = listed p"
  "pl_opened (lockList t p) = pl_opened p" "pl_lock (lockList t p) = Some t" "pl_next (lockList t p) = pl_next p"
  "pl_phase (lockList t p) = pl_phase p" "pl_heap (lockList t p) = pl_heap p"
  "inUse (unlockList p) = inUse p" "live (unlockList p) = live p" "listed (unlockList p) = listed p"
  "pl_opened (unlockList p) = pl_opened p" "pl_lock (unlockList p) = None" "pl_next (unlockList p) = pl_next p"
  "pl_phase (unlockList p) = pl_phase p" "pl_heap (unlockList p) = pl_heap p"
  "inUse (removeConnection a p) = inUse p" "live (removeConnection a p) = live p"
  "pl_lock (removeConnection a p) = pl_lock p" "pl_next (removeConnection a p) = pl_next p"
  "pl_phase (removeConnection a p) = pl_phase p" "pl_heap (removeConnection a p) = pl_heap p"
  by (auto simp: setPhase_def setConnection_def lockList_def unlockList_def removeConnection_def inUse_def live_def listed_def)

lemma pool_invD:
  assumes "pool_inv p"
  shows "inUse p = (\<Union>t. ownedBy p t)" "t \<noteq> t' \<Longrightarrow> ownedBy p t \<inter> ownedBy p t' = {}" "distinct (owned (pl_phase p t))"
    "distinct (map snd (pl_opened p))" "live p = listed p \<union> detached p" "live p \<subseteq> {..< pl_next p}"
    "detached p \<inter> listed p = {}" "set (inList (pl_phase p t)) \<subseteq> listed p" "set (toScan (pl_phase p t)) \<subseteq> listed p"
    "pl_lock p = Some t \<longleftrightarrow> scanning (pl_phase p t)"
  using assms unfolding pool_inv_def by blast+

lemma owned_in_use: "pool_inv p \<Longrightarrow> a \<in> ownedBy p t \<Longrightarrow> a \<in> inUse p"
  using pool_invD(1) by blast

lemma equal_range_listed: "set (equal_range str p) \<subseteq> listed p"
  by (auto simp: equal_range_def listed_def)

text \<open>The steps that only change the phase and the lock.\<close>

lemma relock_inv:
  assumes inv: "pool_inv p" and eq: "pl_heap p' = pl_heap p" "pl_opened p' = pl_opened p" "pl_next p' = pl_next p"
    and ph: "pl_phase p' = (pl_phase p)(t := ph')" "outOfList ph' = outOfList (pl_phase p t)" "inList ph' = inList (pl_phase p t)"
    and sc: "set (toScan ph') \<subseteq> listed p"
    and lk: "pl_lock p' = (if scanning ph' then Some t else if scanning (pl_phase p t) then None else pl_lock p)"
      "scanning ph' \<Longrightarrow> pl_lock p = None \<or> pl_lock p = Some t"
  shows "pool_inv p'"
proof (rule pool_inv_move [OF inv ph(1)])
  have same: "inUse p' = inUse p" "live p' = live p" "listed p' = listed p"
    using eq by (simp_all add: inUse_def live_def listed_def)
  have own: "owned ph' = owned (pl_phase p t)" using ph by (simp add: owned_def)
  have outs: "set (outOfList (pl_phase p t)) \<subseteq> detached p" by (auto simp: detached_def)
  show "inUse p' = inUse p - ownedBy p t \<union> set (owned ph')"
    using pool_invD(1) [OF inv] by (auto simp: same own ownedBy_def)
  show "live p' = listed p' \<union> set (outOfList ph') \<union> (live p - listed p - set (outOfList (pl_phase p t)))"
    using pool_invD(5) [OF inv] outs by (auto simp: same ph)
  show "set (outOfList ph') \<inter> listed p' = {}" using outs pool_invD(7) [OF inv] by (auto simp: same ph)
  show "set (owned ph') \<inter> (inUse p - ownedBy p t) = {}" by (auto simp: own ownedBy_def)
  show "set (inList ph') \<subseteq> listed p'" using pool_invD(8) [OF inv, of t] by (simp add: ph same)
  show "live p' \<subseteq> {..< pl_next p'}" using pool_invD(6) [OF inv] by (simp add: same eq)
  show "distinct (owned ph')" using pool_invD(3) [OF inv, of t] by (simp add: own)
  show "distinct (map snd (pl_opened p'))" using pool_invD(4) [OF inv] by (simp add: eq)
  show "listed p - listed p' \<subseteq> ownedBy p t" "listed p' - listed p \<subseteq> set (outOfList (pl_phase p t))"
    "set (toScan ph') \<subseteq> listed p'" "listed p \<subseteq> listed p'"
    using sc by (simp_all add: same)
qed (use lk in auto)

text \<open>The thread takes an idle connection of the list.\<close>

lemma acquire_inv:
  assumes inv: "pool_inv p" and c: "pl_heap p a = Some c" "\<not> dc_used c" "a \<in> listed p"
    and eq: "pl_heap p' = (pl_heap p)(a \<mapsto> c\<lparr>dc_used := True\<rparr>)" "pl_opened p' = pl_opened p" "pl_next p' = pl_next p"
    and ph: "pl_phase p' = (pl_phase p)(t := ph')" "outOfList ph' = []" "outOfList (pl_phase p t) = []"
      "set (inList ph') = insert a (set (inList (pl_phase p t)))" "distinct (inList ph')"
    and sc: "set (toScan ph') \<subseteq> listed p"
    and lk: "pl_lock p' = (if scanning ph' then Some t else if scanning (pl_phase p t) then None else pl_lock p)"
      "scanning ph' \<Longrightarrow> pl_lock p = None \<or> pl_lock p = Some t"
  shows "pool_inv p'"
proof (rule pool_inv_move [OF inv ph(1)])
  have same: "inUse p' = insert a (inUse p)" "live p' = live p" "listed p' = listed p"
    using eq c by (auto simp: inUse_def live_def listed_def)
  have na: "a \<notin> inUse p" using c by (simp add: inUse_def)
  have own: "set (owned ph') = insert a (ownedBy p t)" using ph by (simp add: owned_def ownedBy_def)
  show "inUse p' = inUse p - ownedBy p t \<union> set (owned ph')"
    using pool_invD(1) [OF inv] by (auto simp: same own)
  show "set (owned ph') \<inter> (inUse p - ownedBy p t) = {}" using na by (auto simp: own)
  show "live p' = listed p' \<union> set (outOfList ph') \<union> (live p - listed p - set (outOfList (pl_phase p t)))"
    using pool_invD(5) [OF inv] by (auto simp: same ph)
  show "set (inList ph') \<subseteq> listed p'" using pool_invD(8) [OF inv, of t] c(3) by (simp add: ph same)
  show "live p' \<subseteq> {..< pl_next p'}" using pool_invD(6) [OF inv] by (simp add: same eq)
  show "distinct (owned ph')" using ph by (simp add: owned_def)
  show "distinct (map snd (pl_opened p'))" using pool_invD(4) [OF inv] by (simp add: eq)
  show "listed p - listed p' \<subseteq> ownedBy p t" "listed p' - listed p \<subseteq> set (outOfList (pl_phase p t))"
    "set (toScan ph') \<subseteq> listed p'" "listed p \<subseteq> listed p'" "set (outOfList ph') \<inter> listed p' = {}"
    using sc ph by (simp_all add: same)
qed (use lk in auto)

text \<open>The thread gives a connection back, which stays in the list.\<close>

lemma release_inv:
  assumes inv: "pool_inv p" and ph0: "pl_phase p t = Holding a" and c: "pl_heap p a = Some c"
    and q: "q = dc_lastQuery c"
  shows "pool_inv (setPhase t Idle (setConnection a (c\<lparr>dc_used := False\<rparr>) p))" (is "pool_inv ?p")
proof (rule pool_inv_move [OF inv, where t = t and ph' = Idle])
  have own: "ownedBy p t = {a}" by (simp add: ownedBy_def ph0 owned_def)
  have a: "a \<in> listed p" using pool_invD(8) [OF inv, of t] by (simp add: ph0)
  then have lv: "a \<in> live p" using pool_invD(5) [OF inv] by simp
  show "live ?p = listed ?p \<union> set (outOfList Idle) \<union> (live p - listed p - set (outOfList (pl_phase p t)))"
    using a lv pool_invD(5) [OF inv] by (auto simp: ph0)
  show "live ?p \<subseteq> {..< pl_next ?p}" using pool_invD(6) [OF inv] lv by auto
  show "inUse ?p = inUse p - ownedBy p t \<union> set (owned Idle)" by (simp add: own owned_def)
qed (use pool_invD(4) [OF inv] pool_invD(10) [OF inv, of t] in \<open>auto simp: ph0 owned_def\<close>)

text \<open>A new connection, which only its thread knows, and its insertion into the list.\<close>

lemma connected_inv:
  assumes inv: "pool_inv p" and ph0: "pl_phase p t = Connecting str"
  shows "pool_inv (addConnection t str ok p)"
proof (cases ok)
  case False
  show ?thesis
    by (rule relock_inv [OF inv, where t = t and ph' = Idle])
      (use pool_invD(10) [OF inv, of t] in \<open>simp_all add: addConnection_def False ph0\<close>)
next
  case True
  let ?a = "pl_next p"
  have fresh: "?a \<notin> live p" using pool_invD(6) [OF inv] by auto
  then have nu: "?a \<notin> inUse p" "?a \<notin> listed p" using pool_invD(5) [OF inv] by (auto simp: inUse_def live_def)
  have l: "listed (addConnection t str ok p) = listed p" "live (addConnection t str ok p) = insert ?a (live p)"
    "inUse (addConnection t str ok p) = insert ?a (inUse p)"
    by (auto simp: addConnection_def True Let_def listed_def live_def inUse_def setPhase_def setConnection_def)
  have f: "pl_opened (addConnection t str ok p) = pl_opened p" "pl_lock (addConnection t str ok p) = pl_lock p"
    "pl_phase (addConnection t str ok p) = (pl_phase p)(t := Inserting str ?a)" "pl_next (addConnection t str ok p) = ?a + 1"
    by (simp_all add: addConnection_def True Let_def setPhase_def setConnection_def)
  have own: "ownedBy p t = {}" by (simp add: ownedBy_def ph0 owned_def)
  show ?thesis
  proof (rule pool_inv_move [OF inv, where t = t and ph' = "Inserting str ?a"])
    show "live (addConnection t str ok p) = listed (addConnection t str ok p) \<union> set (outOfList (Inserting str ?a)) \<union>
        (live p - listed p - set (outOfList (pl_phase p t)))"
      unfolding l using pool_invD(5) [OF inv] by (auto simp: ph0)
    show "live (addConnection t str ok p) \<subseteq> {..< pl_next (addConnection t str ok p)}"
      unfolding l f using pool_invD(6) [OF inv] by auto
    show "set (owned (Inserting str ?a)) \<inter> (inUse p - ownedBy p t) = {}" using nu by (simp add: owned_def)
    show "set (outOfList (Inserting str ?a)) \<inter> listed (addConnection t str ok p) = {}" using nu by (simp add: l)
  qed (use pool_invD(4) [OF inv] pool_invD(10) [OF inv, of t] in
      \<open>auto simp: l f own ph0 owned_def\<close>)
qed

lemma insert_inv:
  assumes inv: "pool_inv p" and ph0: "pl_phase p t = Inserting str a" and lk: "pl_lock p = None"
  shows "pool_inv (insertConnection t str a k p)" (is "pool_inv ?p")
proof -
  have own: "ownedBy p t = {a}" by (simp add: ownedBy_def ph0 owned_def)
  have d: "a \<in> detached p" unfolding detached_def using ph0 by (auto intro!: exI [of _ t])
  then have na: "a \<notin> listed p" and lv: "a \<in> live p" using pool_invD(5,7) [OF inv] by auto
  have use: "a \<in> inUse p" using owned_in_use [OF inv, of a t] by (simp add: own)
  have un: "snd ` set (take k (pl_opened p)) \<union> snd ` set (drop k (pl_opened p)) = listed p"
    unfolding listed_def image_Un [symmetric] set_append [symmetric] append_take_drop_id ..
  then have l: "listed ?p = insert a (listed p)" "live ?p = live p" "inUse ?p = inUse p"
    by (auto simp: insertConnection_def setPhase_def listed_def live_def inUse_def)
  have dist: "distinct (map snd (take k (pl_opened p) @ (str, a) # drop k (pl_opened p)))"
  proof -
    have "distinct (map snd (take k (pl_opened p)) @ map snd (drop k (pl_opened p)))"
      using pool_invD(4) [OF inv] by (metis append_take_drop_id map_append)
    moreover have "a \<notin> snd ` set (take k (pl_opened p))" "a \<notin> snd ` set (drop k (pl_opened p))"
      using na un by blast+
    ultimately show ?thesis by auto
  qed
  have f: "pl_lock ?p = pl_lock p" "pl_phase ?p = (pl_phase p)(t := Holding a)" "pl_next ?p = pl_next p"
    by (simp_all add: insertConnection_def setPhase_def)
  show ?thesis
  proof (rule pool_inv_move [OF inv, where t = t and ph' = "Holding a"])
    show "inUse ?p = inUse p - ownedBy p t \<union> set (owned (Holding a))" using use by (auto simp: l own owned_def)
    show "live ?p = listed ?p \<union> set (outOfList (Holding a)) \<union> (live p - listed p - set (outOfList (pl_phase p t)))"
      unfolding l using pool_invD(5) [OF inv] lv by (auto simp: ph0)
    show "live ?p \<subseteq> {..< pl_next ?p}" unfolding l f by (rule pool_invD(6) [OF inv])
    show "distinct (map snd (pl_opened ?p))" using dist by (simp add: insertConnection_def setPhase_def)
  qed (use lk in \<open>auto simp: l f own ph0 owned_def\<close>)
qed

text \<open>A connection leaves the list before it is deleted.\<close>

lemma set_dropEntry: "distinct (map snd es) \<Longrightarrow> snd ` set (dropEntry a es) = snd ` set es - {a}"
  by (induction es) (auto simp: image_iff)

lemma dropEntry_sub: "set (dropEntry a es) \<subseteq> set es"
  by (induction es) auto

lemma distinct_dropEntry: "distinct (map snd es) \<Longrightarrow> distinct (map snd (dropEntry a es))"
  using dropEntry_sub by (induction es) (fastforce simp: image_iff)+

lemma remove_inv:
  assumes inv: "pool_inv p" and lk: "pl_lock p = None"
    and ph0: "outOfList (pl_phase p t) = []" "inList (pl_phase p t) = a # as"
    and ph: "outOfList ph' = [a]" "inList ph' = as" "\<not> scanning ph'" "toScan ph' = []" "\<not> scanning (pl_phase p t)"
  shows "pool_inv (setPhase t ph' (removeConnection a p))" (is "pool_inv ?p")
proof (rule pool_inv_move [OF inv, where t = t and ph' = ph'])
  have l: "listed (removeConnection a p) = listed p - {a}"
    using set_dropEntry [OF pool_invD(4) [OF inv]] by (simp add: removeConnection_def listed_def)
  have own: "set (owned ph') = ownedBy p t" "owned ph' = owned (pl_phase p t)"
    using ph ph0 by (simp_all add: owned_def ownedBy_def)
  have a: "insert a (set as) \<subseteq> listed p" using pool_invD(8) [OF inv, of t] by (simp add: ph0)
  have d: "a \<notin> set as" using pool_invD(3) [OF inv, of t] by (simp add: owned_def ph0)
  show "inUse ?p = inUse p - ownedBy p t \<union> set (owned ph')"
    using pool_invD(1) [OF inv] by (auto simp: l own ownedBy_def)
  show "distinct (owned ph')" using pool_invD(3) [OF inv, of t] by (simp add: own)
  show "distinct (map snd (pl_opened ?p))"
    using distinct_dropEntry [OF pool_invD(4) [OF inv]] by (simp add: removeConnection_def)
  show "listed p - listed ?p \<subseteq> ownedBy p t" by (auto simp: l ownedBy_def owned_def ph0)
  show "set (inList ph') \<subseteq> listed ?p" using a d by (auto simp: l ph)
  show "live ?p = listed ?p \<union> set (outOfList ph') \<union> (live p - listed p - set (outOfList (pl_phase p t)))"
    using pool_invD(5) [OF inv] a by (auto simp: l ph ph0)
  show "live ?p \<subseteq> {..< pl_next ?p}" using pool_invD(6) [OF inv] by simp
  show "set (owned ph') \<inter> (inUse p - ownedBy p t) = {}" by (auto simp: own ownedBy_def)
  show "listed ?p - listed p \<subseteq> set (outOfList (pl_phase p t))" "set (outOfList ph') \<inter> listed ?p = {}"
    by (auto simp: l ph)
qed (use ph lk in auto)

lemma destroy_inv:
  assumes inv: "pool_inv p"
    and ph0: "outOfList (pl_phase p t) = [a]" "inList (pl_phase p t) = as"
    and ph: "outOfList ph' = []" "inList ph' = as" "\<not> scanning ph'" "toScan ph' = []" "\<not> scanning (pl_phase p t)"
  shows "\<exists>p'. destroyConnection a p = Some p' \<and> pool_inv (setPhase t ph' p')"
proof -
  have use: "a \<in> inUse p" by (rule owned_in_use [OF inv, of _ t]) (simp add: ownedBy_def owned_def ph0)
  then obtain c where c: "pl_heap p a = Some c" "dc_used c" by (auto simp: inUse_def)
  define p' where "p' = p\<lparr>pl_heap := (pl_heap p)(a := None)\<rparr>"
  have e: "destroyConnection a p = Some p'"
    by (simp add: destroyConnection_def releaseConnection_def deleteConnection_def c setConnection_def p'_def)
  have l: "listed p' = listed p" "live p' = live p - {a}" "inUse p' = inUse p - {a}" "pl_opened p' = pl_opened p"
    "pl_next p' = pl_next p" "pl_phase p' = pl_phase p" "pl_lock p' = pl_lock p"
    by (auto simp: p'_def listed_def live_def inUse_def)
  have d: "a \<in> detached p" using ph0 by (auto simp: detached_def intro: exI [of _ t])
  then have na: "a \<notin> listed p" using pool_invD(7) [OF inv] by blast
  have own: "ownedBy p t = insert a (set as)" "owned ph' = as" "a \<notin> set as" "distinct as"
    using ph ph0 pool_invD(3) [OF inv, of t] by (simp_all add: owned_def ownedBy_def)
  have sub: "set as \<subseteq> inUse p" using pool_invD(1) [OF inv] own(1) by blast
  have "pool_inv (setPhase t ph' p')"
  proof (rule pool_inv_move [OF inv, where t = t and ph' = ph'])
    show "inUse (setPhase t ph' p') = inUse p - ownedBy p t \<union> set (owned ph')"
      using sub own(3) by (auto simp: l own)
    show "distinct (map snd (pl_opened (setPhase t ph' p')))" using pool_invD(4) [OF inv] by (simp add: l)
    show "set (inList ph') \<subseteq> listed (setPhase t ph' p')" using pool_invD(8) [OF inv, of t] by (simp add: l ph ph0)
    show "live (setPhase t ph' p') = listed (setPhase t ph' p') \<union> set (outOfList ph') \<union>
        (live p - listed p - set (outOfList (pl_phase p t)))"
      using pool_invD(5) [OF inv] na by (auto simp: l ph ph0)
    show "live (setPhase t ph' p') \<subseteq> {..< pl_next (setPhase t ph' p')}"
      using pool_invD(6) [OF inv] by (auto simp: l)
    show "set (owned ph') \<inter> (inUse p - ownedBy p t) = {}" by (auto simp: own)
  qed (use own ph in \<open>simp_all add: l\<close>)
  then show ?thesis using e by blast
qed

lemma execute_inv:
  assumes inv: "pool_inv p" and c: "pl_heap p a = Some c" "dc_used c"
  shows "pool_inv (setConnection a (c\<lparr>dc_lastQuery := q\<rparr>) p)" (is "pool_inv ?p")
proof -
  have eqs: "inUse ?p = inUse p" "live ?p = live p" "detached ?p = detached p" "ownedBy ?p = ownedBy p"
    using c by (auto simp: inUse_def live_def detached_def ownedBy_def)
  have "pool_inv ?p = pool_inv p" unfolding pool_inv_def eqs by (simp only: pool_simps)
  then show ?thesis using inv by simp
qed

section \<open>Every step is safe\<close>

lemma own_used: "pool_inv p \<Longrightarrow> a \<in> set (owned (pl_phase p t)) \<Longrightarrow> \<exists>c. pl_heap p a = Some c \<and> dc_used c"
  using owned_in_use [of p a t] by (simp add: ownedBy_def inUse_def)

lemma scan_live: "pool_inv p \<Longrightarrow> a \<in> set (toScan (pl_phase p t)) \<Longrightarrow> a \<in> listed p \<and> (\<exists>c. pl_heap p a = Some c)"
  using pool_invD(9) [of p t] pool_invD(5) [of p] by (auto simp: live_def)

lemma restore_heap: "pl_heap p a = Some c \<Longrightarrow> \<not> dc_used c \<Longrightarrow> (pl_heap p)(a \<mapsto> c\<lparr>dc_used := False\<rparr>) = pl_heap p"
  by (cases c) auto

lemma matchNext_ok:
  assumes inv: "pool_inv p" and ph: "pl_phase p t = Matching str wanted as"
  shows "\<exists>p'. matchNext t str wanted as p = Some p' \<and> pool_inv p'"
proof -
  have lk: "pl_lock p = Some t" using pool_invD(10) [OF inv, of t] by (simp add: ph)
  show ?thesis
  proof (cases as)
    case Nil
    show ?thesis
    proof (cases "8 \<le> length (pl_opened p)")
      case True
      have "pool_inv (setPhase t (Reusing str (equal_range str p)) p)"
        by (rule relock_inv [OF inv, where t = t and ph' = "Reusing str (equal_range str p)"])
          (simp_all add: ph lk equal_range_listed)
      then show ?thesis by (simp add: matchNext_def Nil True)
    next
      case False
      have "pool_inv (setPhase t (Connecting str) (unlockList p))"
        by (rule relock_inv [OF inv, where t = t and ph' = "Connecting str"])
          (simp_all add: ph)
      then show ?thesis using False by (simp add: matchNext_def Nil)
    qed
  next
    case (Cons a bs)
    obtain c where a: "a \<in> listed p" and c: "pl_heap p a = Some c"
      using scan_live [OF inv, of a t] by (auto simp: ph Cons)
    have bs: "set bs \<subseteq> listed p" using pool_invD(9) [OF inv, of t] by (simp add: ph Cons)
    have go: "pool_inv (setPhase t (Matching str wanted bs) p)"
      by (rule relock_inv [OF inv, where t = t and ph' = "Matching str wanted bs"]) (simp_all add: ph lk bs)
    show ?thesis
    proof (cases "dc_used c")
      case True
      then show ?thesis using go by (simp add: matchNext_def Cons trylock_def c)
    next
      case unused: False
      show ?thesis
      proof (cases "wanted = [] \<or> dc_lastQuery c = wanted")
        case True
        have "pool_inv (setPhase t (Holding a) (unlockList (setConnection a (c\<lparr>dc_used := True\<rparr>) p)))"
          by (rule acquire_inv [OF inv c unused a, where t = t and ph' = "Holding a"]) (simp_all add: ph)
        then show ?thesis using True by (auto simp: matchNext_def Cons trylock_def c unused)
      next
        case False
        have "pool_inv (setPhase t (Matching str wanted bs) (setConnection a (c\<lparr>dc_used := False\<rparr>) (setConnection a (c\<lparr>dc_used := True\<rparr>) p)))"
          by (rule relock_inv [OF inv, where t = t and ph' = "Matching str wanted bs"])
            (simp_all add: ph lk bs restore_heap [OF c unused])
        then show ?thesis using False by (simp add: matchNext_def Cons trylock_def c unused releaseConnection_def)
      qed
    qed
  qed
qed

lemma reuseNext_ok:
  assumes inv: "pool_inv p" and ph: "pl_phase p t = Reusing str as"
  shows "\<exists>p'. reuseNext t str as p = Some p' \<and> pool_inv p'"
proof -
  have lk: "pl_lock p = Some t" using pool_invD(10) [OF inv, of t] by (simp add: ph)
  show ?thesis
  proof (cases as)
    case Nil
    have "pool_inv (setPhase t (Connecting str) (unlockList p))"
      by (rule relock_inv [OF inv, where t = t and ph' = "Connecting str"]) (simp_all add: ph)
    then show ?thesis by (simp add: reuseNext_def Nil)
  next
    case (Cons a bs)
    obtain c where a: "a \<in> listed p" and c: "pl_heap p a = Some c"
      using scan_live [OF inv, of a t] by (auto simp: ph Cons)
    have bs: "set bs \<subseteq> listed p" using pool_invD(9) [OF inv, of t] by (simp add: ph Cons)
    show ?thesis
    proof (cases "dc_used c")
      case True
      have "pool_inv (setPhase t (Reusing str bs) p)"
        by (rule relock_inv [OF inv, where t = t and ph' = "Reusing str bs"]) (simp_all add: ph lk bs)
      then show ?thesis using True by (simp add: reuseNext_def Cons trylock_def c)
    next
      case False
      have "pool_inv (setPhase t (Holding a) (unlockList (setConnection a (c\<lparr>dc_used := True\<rparr>) p)))"
        by (rule acquire_inv [OF inv c False a, where t = t and ph' = "Holding a"]) (simp_all add: ph)
      then show ?thesis using False by (simp add: reuseNext_def Cons trylock_def c)
    qed
  qed
qed

lemma lockNext_ok:
  assumes inv: "pool_inv p" and ph: "pl_phase p t = Locking as toRemove"
  shows "\<exists>p'. lockNext t as toRemove p = Some p' \<and> pool_inv p'"
proof -
  have lk: "pl_lock p = Some t" using pool_invD(10) [OF inv, of t] by (simp add: ph)
  show ?thesis
  proof (cases as)
    case Nil
    have "pool_inv (setPhase t (Closing toRemove) (unlockList p))"
      by (rule relock_inv [OF inv, where t = t and ph' = "Closing toRemove"]) (simp_all add: ph)
    then show ?thesis by (simp add: lockNext_def Nil)
  next
    case (Cons a bs)
    obtain c where a: "a \<in> listed p" and c: "pl_heap p a = Some c"
      using scan_live [OF inv, of a t] by (auto simp: ph Cons)
    have bs: "set bs \<subseteq> listed p" using pool_invD(9) [OF inv, of t] by (simp add: ph Cons)
    show ?thesis
    proof (cases "dc_used c")
      case True
      have "pool_inv (setPhase t (Locking bs toRemove) p)"
        by (rule relock_inv [OF inv, where t = t and ph' = "Locking bs toRemove"]) (simp_all add: ph lk bs)
      then show ?thesis using True by (simp add: lockNext_def Cons trylock_def c)
    next
      case False
      have "a \<notin> ownedBy p t" using own_used [OF inv, of a t] c False by (auto simp: ownedBy_def)
      then have "distinct (toRemove @ [a])"
        using pool_invD(3) [OF inv, of t] by (simp add: ph owned_def ownedBy_def)
      then have "pool_inv (setPhase t (Locking bs (toRemove @ [a])) (setConnection a (c\<lparr>dc_used := True\<rparr>) p))"
        by (intro acquire_inv [OF inv c False a, where t = t and ph' = "Locking bs (toRemove @ [a])"])
          (simp_all add: ph lk bs)
      then show ?thesis using False by (simp add: lockNext_def Cons trylock_def c)
    qed
  qed
qed

lemma holding_ok:
  assumes inv: "pool_inv p" and ph: "pl_phase p t = Holding a"
  shows "\<exists>p'. pool_step (t, act) p = Some p' \<and> pool_inv p'"
proof -
  obtain c where c: "pl_heap p a = Some c" "dc_used c" using own_used [OF inv, of a t] by (auto simp: ph owned_def)
  have "pool_inv (setPhase t (Removed a) (removeConnection a p))" if "pl_lock p = None"
    by (rule remove_inv [OF inv that, where as = "[]"]) (simp_all add: ph)
  then show ?thesis
    using inv execute_inv [OF inv c] release_inv [OF inv ph c(1)]
    by (cases act) (auto simp: pool_step_def ph executeCached_def releaseConnection_def c)
qed

lemma closing_ok:
  assumes inv: "pool_inv p" and ph: "pl_phase p t = Closing as"
  shows "\<exists>p'. pool_step (t, act) p = Some p' \<and> pool_inv p'"
proof (cases as)
  case Nil
  have "pool_inv (setPhase t Idle p)"
    by (rule relock_inv [OF inv, where t = t and ph' = Idle]) (use pool_invD(10) [OF inv, of t] in \<open>simp_all add: ph Nil\<close>)
  then show ?thesis by (simp add: pool_step_def ph Nil)
next
  case (Cons a bs)
  have "pool_inv (setPhase t (ClosingOne a bs) (removeConnection a p))" if "pl_lock p = None"
    by (rule remove_inv [OF inv that, where as = bs]) (simp_all add: ph Cons)
  then show ?thesis using inv by (simp add: pool_step_def ph Cons)
qed

lemma idle_ok:
  assumes inv: "pool_inv p" and ph: "pl_phase p t = Idle"
  shows "\<exists>p'. pool_step (t, act) p = Some p' \<and> pool_inv p'"
proof -
  have "pool_inv (setPhase t (Matching str wanted (equal_range str p)) (lockList t p))" if "pl_lock p = None" for str wanted
    by (rule relock_inv [OF inv, where t = t and ph' = "Matching str wanted (equal_range str p)"])
      (simp_all add: ph that equal_range_listed)
  moreover have "pool_inv (setPhase t (Locking (map snd (pl_opened p)) []) (lockList t p))" if "pl_lock p = None"
    by (rule relock_inv [OF inv, where t = t and ph' = "Locking (map snd (pl_opened p)) []"])
      (simp_all add: ph that listed_def)
  ultimately show ?thesis using inv by (cases act) (simp_all add: pool_step_def ph)
qed

lemma destroying_ok:
  assumes inv: "pool_inv p" and ph: "pl_phase p t = Removed a \<or> pl_phase p t = ClosingOne a as"
  shows "\<exists>p'. pool_step (t, act) p = Some p' \<and> pool_inv p'"
  using ph
proof
  assume r: "pl_phase p t = Removed a"
  show ?thesis using destroy_inv [OF inv, of t a "[]" Idle] by (auto simp: r pool_step_def)
next
  assume r: "pl_phase p t = ClosingOne a as"
  show ?thesis using destroy_inv [OF inv, of t a as "Closing as"] by (auto simp: r pool_step_def)
qed

lemma pool_step_ok: "pool_inv p \<Longrightarrow> \<exists>p'. pool_step e p = Some p' \<and> pool_inv p'"
proof -
  assume inv: "pool_inv p"
  obtain t act where e: "e = (t, act)" by (cases e)
  show ?thesis
  proof (cases "pl_phase p t")
    case (Matching str wanted as)
    then show ?thesis using matchNext_ok [OF inv Matching] by (simp add: e pool_step_def)
  next
    case (Reusing str as)
    then show ?thesis using reuseNext_ok [OF inv Reusing] by (simp add: e pool_step_def)
  next
    case (Connecting str)
    then show ?thesis using connected_inv [OF inv Connecting] inv by (cases act) (simp_all add: e pool_step_def)
  next
    case (Inserting str a)
    then show ?thesis using insert_inv [OF inv Inserting] inv by (cases act) (simp_all add: e pool_step_def)
  next
    case (Locking as toRemove)
    then show ?thesis using lockNext_ok [OF inv Locking] by (simp add: e pool_step_def)
  qed (use idle_ok holding_ok closing_ok destroying_ok inv e in auto)
qed

lemma pool_inv_new: "pool_inv newPool"
  by (simp add: pool_inv_def newPool_def inUse_def ownedBy_def owned_def live_def listed_def detached_def)

interpretation connections: safe_machine pool_step pool_inv "\<lambda>_ _. True"
proof
  show "\<exists>p'. pool_step e p = Some p'" if "pool_inv p" for e p using pool_step_ok [OF that] by blast
  show "pool_inv p'" if "pool_inv p" "pool_step e p = Some p'" for e p p'
    using pool_step_ok [OF that(1), of e] that(2) by simp
qed

section \<open>Properties\<close>

lemma always_ok: "run_ok pool_step (\<lambda>_ _. True) es p"
  by (induction es arbitrary: p) (simp_all split: option.splits)


text \<open>One thread opens a connection, runs a query and gives the connection back; another one gets the same connection
  for the same query.\<close>

definition demo_pool_run :: "(nat \<times> action) list" where
  "demo_pool_run =
     [(0, GetConnection ''db'' ''q''), (0, Proceed 0), (0, Connected True), (0, Proceed 0), (0, Execute ''q'' True),
      (0, Release), (1, GetConnection ''db'' ''q''), (1, Proceed 0)]"

lemma demo_pool_phase: "map_option (\<lambda>p. (pl_phase p 1, pl_phase p 0)) (run pool_step demo_pool_run newPool) = Some (Holding 0, Idle)"
  by (simp add: demo_pool_run_def newPool_def pool_step_def matchNext_def equal_range_def addConnection_def
      insertConnection_def executeCached_def releaseConnection_def trylock_def setPhase_def setConnection_def
      lockList_def unlockList_def)


end
