(* ===== verification/DbJobs.thy ===== *)
theory DbJobs
  imports Prelude
begin

text \<open>
  The life of database queries between a session and the worker threads (librzu/src/lib/Database/DbQueryJob.inl,
  DbQueryJobCallback.inl, DbQueryJobLambda.h, DbQueryJobRef.cpp). A session owns a \<open>DbQueryJobRef\<close>, which lists
  the queries that still have to call back; a query job is queued with \<open>uv_queue_work\<close>, runs on a worker, and is deleted by
  the loop after \<open>onDone\<close>. Jobs and sessions are heap objects; the use of a deleted one is undefined. Each event is a
  step of the loop or of a worker.
\<close>

section \<open>State\<close>

datatype job_status = S_Ok | S_Canceled | S_Error

text \<open>\<open>DbQueryJobCallback\<close> calls a member function of the session, \<open>DbQueryJobLambda\<close> a closure.\<close>

datatype job_kind = CallbackJob | LambdaJob

text \<open>Where libuv is with the request of a job.\<close>

datatype work = NotQueued | Queued | Working | Worked | UvCanceled

record query_job =
  jb_kind :: job_kind
  jb_session :: "nat option"
  jb_ref :: "nat option"
  jb_isCanceled :: bool
  jb_done :: bool
  jb_canceled :: bool
  jb_work :: work

record job_ref =
  jr_jobs :: "nat list"
  jr_deleting :: bool

text \<open>A session is known by the address of its \<open>DbQueryJobRef\<close>. \<open>db_called\<close> records the callbacks: who was called for which
  job with which status.\<close>

record db_jobs =
  db_jobs :: "nat \<Rightarrow> query_job option"
  db_refs :: "nat \<Rightarrow> job_ref option"
  db_next :: nat
  db_called :: "(nat \<times> nat \<times> job_status) list"

definition noJobs :: db_jobs where
  "noJobs = \<lparr>db_jobs = Map.empty, db_refs = Map.empty, db_next = 0, db_called = []\<rparr>"

definition setJob :: "nat \<Rightarrow> query_job \<Rightarrow> db_jobs \<Rightarrow> db_jobs" where
  "setJob j x s = s\<lparr>db_jobs := (db_jobs s)(j \<mapsto> x)\<rparr>"

definition setRef :: "nat \<Rightarrow> job_ref \<Rightarrow> db_jobs \<Rightarrow> db_jobs" where
  "setRef r x s = s\<lparr>db_refs := (db_refs s)(r \<mapsto> x)\<rparr>"

section \<open>DbQueryJobRef and the jobs\<close>

definition onQueryDone :: "nat \<Rightarrow> nat \<Rightarrow> db_jobs \<Rightarrow> db_jobs option" where
  "onQueryDone r j s = (case db_refs s r of None \<Rightarrow> None
     | Some x \<Rightarrow> Some (if jr_deleting x then s else setRef r (x\<lparr>jr_jobs := remove1 j (jr_jobs x)\<rparr>) s))"

text \<open>\<open>DbQueryJob::cancel\<close>: libuv only cancels a request that no worker has taken yet.\<close>

definition cancelWork :: "query_job \<Rightarrow> query_job" where
  "cancelWork x = x\<lparr>jb_canceled := True, jb_work := (if jb_work x = Queued then UvCanceled else jb_work x)\<rparr>"

text \<open>\<open>cancel\<close> of both kinds of job.\<close>

definition cancelJob :: "nat \<Rightarrow> db_jobs \<Rightarrow> db_jobs option" where
  "cancelJob j s = do {
     x \<leftarrow> db_jobs s j;
     s \<leftarrow> (case jb_ref x of Some r \<Rightarrow> onQueryDone r j s | None \<Rightarrow> Some s);
     Some (setJob j (cancelWork (x\<lparr>jb_session := None, jb_isCanceled := True, jb_ref := None\<rparr>)) s) }"

fun cancelAll :: "nat list \<Rightarrow> db_jobs \<Rightarrow> db_jobs option" where
  "cancelAll [] s = Some s"
| "cancelAll (j # js) s = do { s \<leftarrow> cancelJob j s; cancelAll js s }"

text \<open>The destructor of a session, with that of its \<open>DbQueryJobRef\<close>.\<close>

definition destroyRef :: "nat \<Rightarrow> db_jobs \<Rightarrow> db_jobs option" where
  "destroyRef r s = do {
     x \<leftarrow> db_refs s r;
     s \<leftarrow> cancelAll (jr_jobs x) (setRef r (x\<lparr>jr_deleting := True\<rparr>) s);
     Some (s\<lparr>db_refs := (db_refs s)(r := None)\<rparr>) }"

text \<open>A call of a member function of the session needs it alive.\<close>

definition callSession :: "nat \<Rightarrow> nat \<Rightarrow> job_status \<Rightarrow> db_jobs \<Rightarrow> db_jobs option" where
  "callSession r j status s =
     (if db_refs s r = None then None else Some (s\<lparr>db_called := db_called s @ [(r, j, status)]\<rparr>))"

definition onDone :: "nat \<Rightarrow> job_status \<Rightarrow> db_jobs \<Rightarrow> db_jobs option" where
  "onDone j status s = do {
     x \<leftarrow> db_jobs s j;
     case jb_kind x of
       CallbackJob \<Rightarrow>
         (case jb_ref x of
            None \<Rightarrow> Some s
          | Some r \<Rightarrow> do {
              s \<leftarrow> onQueryDone r j s;
              s \<leftarrow> (case jb_session x of
                      Some session \<Rightarrow> if status \<noteq> S_Canceled then callSession session j status s else Some s
                    | None \<Rightarrow> Some s);
              Some (setJob j (x\<lparr>jb_ref := None\<rparr>) s) })
     | LambdaJob \<Rightarrow>
         (if jb_isCanceled x then Some s
          else (case jb_session x of Some session \<Rightarrow> callSession session j status s | None \<Rightarrow> Some s)) }"

text \<open>\<open>executeDbQuery\<close> of the reference \<open>r\<close>. \<open>bound\<close> is false when the binding of the query was never created: \<open>onDone\<close> is
  called at once and the job is leaked.\<close>

definition executeDbQuery :: "nat \<Rightarrow> job_kind \<Rightarrow> bool \<Rightarrow> db_jobs \<Rightarrow> db_jobs option" where
  "executeDbQuery r kind bound s = do {
     x \<leftarrow> db_refs s r;
     let j = db_next s;
     let s = setJob j \<lparr>jb_kind = kind, jb_session = Some r, jb_ref = Some r, jb_isCanceled = False, jb_done = False,
                       jb_canceled = False, jb_work = (if bound then Queued else NotQueued)\<rparr> (s\<lparr>db_next := j + 1\<rparr>);
     let s = setRef r (x\<lparr>jr_jobs := jr_jobs x @ [j]\<rparr>) s;
     if bound then Some s else onDone j S_Canceled s }"

text \<open>\<open>onProcess\<close> on the worker: \<open>process\<close> is not run for a canceled job.\<close>

definition startWork :: "nat \<Rightarrow> query_job \<Rightarrow> db_jobs \<Rightarrow> db_jobs" where
  "startWork j x s = setJob j (if jb_canceled x then x\<lparr>jb_done := False, jb_work := Worked\<rparr> else x\<lparr>jb_work := Working\<rparr>) s"

definition endWork :: "nat \<Rightarrow> query_job \<Rightarrow> bool \<Rightarrow> db_jobs \<Rightarrow> db_jobs" where
  "endWork j x result s = setJob j (x\<lparr>jb_done := result, jb_work := Worked\<rparr>) s"

definition onDoneStatic :: "nat \<Rightarrow> query_job \<Rightarrow> db_jobs \<Rightarrow> db_jobs option" where
  "onDoneStatic j x s = do {
     s \<leftarrow> onDone j (if jb_work x = UvCanceled then S_Canceled else if jb_done x then S_Ok else S_Error) s;
     Some (s\<lparr>db_jobs := (db_jobs s)(j := None)\<rparr>) }"

section \<open>Events\<close>

text \<open>Events of libuv that can not happen in the present state change nothing.\<close>

datatype job_event =
    NewSession nat
  | DestroySession nat
  | ExecuteQuery nat job_kind bool
  | WorkerStarts nat
  | WorkerEnds nat bool
  | WorkDone nat

definition job_step :: "job_event \<Rightarrow> db_jobs \<Rightarrow> db_jobs option" where
  "job_step e s =
     (case e of
        NewSession r \<Rightarrow> Some (if db_refs s r = None then setRef r \<lparr>jr_jobs = [], jr_deleting = False\<rparr> s else s)
      | DestroySession r \<Rightarrow> if db_refs s r = None then Some s else destroyRef r s
      | ExecuteQuery r kind bound \<Rightarrow> if db_refs s r = None then Some s else executeDbQuery r kind bound s
      | WorkerStarts j \<Rightarrow> (case db_jobs s j of Some x \<Rightarrow> Some (if jb_work x = Queued then startWork j x s else s) | None \<Rightarrow> Some s)
      | WorkerEnds j result \<Rightarrow>
          (case db_jobs s j of Some x \<Rightarrow> Some (if jb_work x = Working then endWork j x result s else s) | None \<Rightarrow> Some s)
      | WorkDone j \<Rightarrow>
          (case db_jobs s j of Some x \<Rightarrow> if jb_work x \<in> {Worked, UvCanceled} then onDoneStatic j x s else Some s | None \<Rightarrow> Some s))"

section \<open>Invariant\<close>

text \<open>For programs whose queries call back a session: a job refers to a live session exactly as long as the session
  lists it.\<close>

definition waits :: "db_jobs \<Rightarrow> nat \<Rightarrow> nat \<Rightarrow> bool" where
  "waits s j r \<longleftrightarrow> (\<exists>x. db_jobs s j = Some x \<and> jb_ref x = Some r)"

definition jobs_inv :: "db_jobs \<Rightarrow> bool" where
  "jobs_inv s \<longleftrightarrow>
     (\<forall>j x. db_jobs s j = Some x \<longrightarrow> jb_kind x = CallbackJob \<and> j < db_next s) \<and>
     (\<forall>j x r. db_jobs s j = Some x \<longrightarrow> jb_ref x = Some r \<longrightarrow>
        jb_session x = Some r \<and> jb_work x \<noteq> UvCanceled \<and> (\<exists>y. db_refs s r = Some y \<and> j \<in> set (jr_jobs y))) \<and>
     (\<forall>r y. db_refs s r = Some y \<longrightarrow> \<not> jr_deleting y \<and> distinct (jr_jobs y) \<and> (\<forall>j \<in> set (jr_jobs y). waits s j r)) \<and>
     distinct (map (\<lambda>c. fst (snd c)) (db_called s)) \<and>
     (\<forall>c \<in> set (db_called s). fst (snd c) < db_next s \<and> (\<forall>r. \<not> waits s (fst (snd c)) r))"

lemma jobs_invD:
  assumes "jobs_inv s"
  shows "db_jobs s j = Some x \<Longrightarrow> jb_kind x = CallbackJob" "db_jobs s j = Some x \<Longrightarrow> j < db_next s"
    "db_jobs s j = Some x \<Longrightarrow> jb_ref x = Some r \<Longrightarrow> jb_session x = Some r"
    "db_jobs s j = Some x \<Longrightarrow> jb_ref x = Some r \<Longrightarrow> jb_work x \<noteq> UvCanceled"
    "db_jobs s j = Some x \<Longrightarrow> jb_ref x = Some r \<Longrightarrow> \<exists>y. db_refs s r = Some y \<and> j \<in> set (jr_jobs y)"
    "db_refs s r = Some y \<Longrightarrow> \<not> jr_deleting y" "db_refs s r = Some y \<Longrightarrow> distinct (jr_jobs y)"
    "db_refs s r = Some y \<Longrightarrow> j \<in> set (jr_jobs y) \<Longrightarrow> waits s j r"
    "distinct (map (\<lambda>c. fst (snd c)) (db_called s))"
    "c \<in> set (db_called s) \<Longrightarrow> fst (snd c) < db_next s" "c \<in> set (db_called s) \<Longrightarrow> \<not> waits s (fst (snd c)) r"
  using assms unfolding jobs_inv_def by blast+

lemma listed_waits: "jobs_inv s \<Longrightarrow> db_refs s r = Some y \<Longrightarrow> set (jr_jobs y) = {j. waits s j r}"
proof (rule set_eqI)
  fix j assume inv: "jobs_inv s" and y: "db_refs s r = Some y"
  show "j \<in> set (jr_jobs y) \<longleftrightarrow> j \<in> {j. waits s j r}"
    using jobs_invD(5,8) [OF inv] y by (fastforce simp: waits_def)
qed

lemma jobs_inv_new: "jobs_inv noJobs"
  by (simp add: jobs_inv_def noJobs_def)

text \<open>The destructor of a session makes its jobs forget it.\<close>

definition forget :: "query_job \<Rightarrow> query_job" where
  "forget x = cancelWork (x\<lparr>jb_session := None, jb_isCanceled := True, jb_ref := None\<rparr>)"

definition forgetIn :: "nat set \<Rightarrow> (nat \<Rightarrow> query_job option) \<Rightarrow> nat \<Rightarrow> query_job option" where
  "forgetIn J jobs j = map_option (\<lambda>x. if j \<in> J then forget x else x) (jobs j)"

lemma cancelAll_ok:
  assumes "db_refs s r = Some y" "jr_deleting y" "distinct js" "\<forall>j \<in> set js. waits s j r"
  shows "cancelAll js s = Some (s\<lparr>db_jobs := forgetIn (set js) (db_jobs s)\<rparr>)"
  using assms
proof (induction js arbitrary: s)
  case Nil
  have "forgetIn {} (db_jobs s) = db_jobs s" by (simp add: forgetIn_def fun_eq_iff option.map_ident)
  then show ?case by simp
next
  case (Cons j js)
  obtain x where x: "db_jobs s j = Some x" "jb_ref x = Some r" using Cons.prems(4) by (auto simp: waits_def)
  let ?s = "setJob j (forget x) s"
  have e: "cancelJob j s = Some ?s"
    using Cons.prems(1,2) x by (simp add: cancelJob_def onQueryDone_def forget_def)
  have "\<forall>k \<in> set js. waits ?s k r" using Cons.prems(3,4) by (auto simp: waits_def setJob_def)
  then have "cancelAll js ?s = Some (?s\<lparr>db_jobs := forgetIn (set js) (db_jobs ?s)\<rparr>)"
    using Cons.prems by (intro Cons.IH) (simp_all add: setJob_def)
  moreover have "forgetIn (set js) (db_jobs ?s) = forgetIn (set (j # js)) (db_jobs s)"
    using Cons.prems(3) x by (auto simp: forgetIn_def setJob_def fun_eq_iff)
  ultimately show ?case by (simp add: e setJob_def)
qed

lemma destroyRef_ok:
  assumes inv: "jobs_inv s" and r: "db_refs s r = Some y"
  shows "\<exists>s'. destroyRef r s = Some s' \<and> jobs_inv s'"
proof -
  let ?s = "setRef r (y\<lparr>jr_deleting := True\<rparr>) s"
  have y: "\<not> jr_deleting y" "distinct (jr_jobs y)" "\<forall>j \<in> set (jr_jobs y). waits s j r"
    using jobs_invD(6,7,8) [OF inv] r by blast+
  have "\<forall>j \<in> set (jr_jobs y). waits ?s j r" using y(3) by (simp add: waits_def setRef_def)
  then have c: "cancelAll (jr_jobs y) ?s = Some (?s\<lparr>db_jobs := forgetIn (set (jr_jobs y)) (db_jobs ?s)\<rparr>)"
    using y(2) by (intro cancelAll_ok [of _ r "y\<lparr>jr_deleting := True\<rparr>"]) (simp_all add: setRef_def)
  let ?t = "s\<lparr>db_jobs := forgetIn {j. waits s j r} (db_jobs s), db_refs := (db_refs s)(r := None)\<rparr>"
  have "set (jr_jobs y) = {j. waits s j r}" by (rule listed_waits [OF inv r])
  then have d: "destroyRef r s = Some ?t"
    using r c by (simp add: destroyRef_def setRef_def)
  have f: "forgetIn {j. waits s j r} (db_jobs s) j = map_option (\<lambda>x. if jb_ref x = Some r then forget x else x) (db_jobs s j)" for j
    by (cases "db_jobs s j") (simp_all add: forgetIn_def waits_def)
  have t: "db_jobs ?t j = map_option (\<lambda>x. if jb_ref x = Some r then forget x else x) (db_jobs s j)" for j
    using f [of j] by simp
  have w: "waits ?t j q \<longleftrightarrow> waits s j q \<and> q \<noteq> r" for j q
    unfolding waits_def [of ?t] t by (cases "db_jobs s j") (auto simp: waits_def forget_def cancelWork_def)
  have "jobs_inv ?t"
    unfolding jobs_inv_def w
  proof (intro conjI allI impI ballI)
    fix j x assume x: "db_jobs ?t j = Some x"
    then obtain x0 where x0: "db_jobs s j = Some x0" "x = (if jb_ref x0 = Some r then forget x0 else x0)" by (auto simp: f)
    then have "jb_kind x0 = CallbackJob" "j < db_next s" using jobs_invD(1,2) [OF inv] by blast+
    then show "jb_kind x = CallbackJob" "j < db_next ?t" using x0 by (simp_all add: forget_def cancelWork_def)
    fix q assume q: "jb_ref x = Some q"
    then have "x = x0" "q \<noteq> r" using x0 by (auto simp: forget_def cancelWork_def split: if_splits)
    then show "jb_session x = Some q" "jb_work x \<noteq> UvCanceled" "\<exists>y. db_refs ?t q = Some y \<and> j \<in> set (jr_jobs y)"
      using jobs_invD(3,4,5) [OF inv x0(1)] q by auto
  qed (use jobs_invD(6-11) [OF inv] in \<open>auto split: if_splits\<close>)
  then show ?thesis using d by blast
qed

lemma newSession_inv:
  assumes inv: "jobs_inv s" and r: "db_refs s r = None"
  shows "jobs_inv (setRef r \<lparr>jr_jobs = [], jr_deleting = False\<rparr> s)" (is "jobs_inv ?s")
proof -
  have w: "waits ?s = waits s" by (simp add: waits_def setRef_def fun_eq_iff)
  show ?thesis
    unfolding jobs_inv_def w
  proof (intro conjI allI impI ballI)
    fix j x q assume "db_jobs ?s j = Some x" and q: "jb_ref x = Some q"
    then have x: "db_jobs s j = Some x" by (simp add: setRef_def)
    show "jb_session x = Some q" "jb_work x \<noteq> UvCanceled" using jobs_invD(3,4) [OF inv x q] by simp_all
    show "\<exists>y. db_refs ?s q = Some y \<and> j \<in> set (jr_jobs y)" using jobs_invD(5) [OF inv x q] r by (auto simp: setRef_def)
  qed (use jobs_invD [OF inv] in \<open>auto simp: setRef_def split: if_splits\<close>)
qed

lemma executeDbQuery_ok:
  assumes inv: "jobs_inv s" and r: "db_refs s r = Some y"
  shows "\<exists>s'. executeDbQuery r CallbackJob bound s = Some s' \<and> jobs_inv s'"
proof -
  let ?j = "db_next s"
  let ?x = "\<lparr>jb_kind = CallbackJob, jb_session = Some r, jb_ref = Some r, jb_isCanceled = False, jb_done = False,
              jb_canceled = False, jb_work = (if bound then Queued else NotQueued)\<rparr>"
  let ?s = "setRef r (y\<lparr>jr_jobs := jr_jobs y @ [?j]\<rparr>) (setJob ?j ?x (s\<lparr>db_next := ?j + 1\<rparr>))"
  have fresh: "db_jobs s ?j = None" using jobs_invD(2) [OF inv, of ?j] by (cases "db_jobs s ?j") auto
  have y: "\<not> jr_deleting y" "distinct (jr_jobs y)" "\<forall>j \<in> set (jr_jobs y). waits s j r"
    using jobs_invD(6,7,8) [OF inv] r by blast+
  then have y4: "?j \<notin> set (jr_jobs y)" using fresh by (auto simp: waits_def)
  show ?thesis
  proof (cases bound)
    case True
    have w: "waits ?s j q \<longleftrightarrow> waits s j q \<or> j = ?j \<and> q = r" for j q
      using fresh by (auto simp: waits_def setRef_def setJob_def)
    have "jobs_inv ?s"
      unfolding jobs_inv_def w
    proof (intro conjI allI impI ballI)
      fix j x q assume x: "db_jobs ?s j = Some x" and q: "jb_ref x = Some q"
      show "jb_session x = Some q" "jb_work x \<noteq> UvCanceled" "\<exists>y. db_refs ?s q = Some y \<and> j \<in> set (jr_jobs y)"
        using x q jobs_invD(3,4,5) [OF inv, of j x q] r True by (auto simp: setRef_def setJob_def split: if_splits)
    next
      fix q z j assume "db_refs ?s q = Some z"
      then show "\<not> jr_deleting z" "distinct (jr_jobs z)" "j \<in> set (jr_jobs z) \<Longrightarrow> waits s j q \<or> j = ?j \<and> q = r"
        using y y4 jobs_invD(6,7,8) [OF inv, of q z] by (auto simp: setRef_def setJob_def split: if_splits)
    next
      fix c q assume c: "c \<in> set (db_called ?s)"
      then have "fst (snd c) < ?j" "\<not> waits s (fst (snd c)) q" using jobs_invD(10,11) [OF inv] by (simp_all add: setRef_def setJob_def)
      then show "fst (snd c) < db_next ?s" "\<not> (waits s (fst (snd c)) q \<or> fst (snd c) = ?j \<and> q = r)"
        by (auto simp: setRef_def setJob_def)
    qed (use jobs_invD(1,2,9) [OF inv] in \<open>auto simp: setRef_def setJob_def less_Suc_eq split: if_splits\<close>)
    then show ?thesis using r True by (simp add: executeDbQuery_def Let_def)
  next
    case False
    let ?t = "setJob ?j (?x\<lparr>jb_ref := None\<rparr>) (s\<lparr>db_next := ?j + 1\<rparr>)"
    have same: "(db_refs s)(r \<mapsto> y\<lparr>jr_jobs := remove1 ?j (jr_jobs y @ [?j])\<rparr>) = db_refs s"
      using y4 r by (auto simp: remove1_append fun_eq_iff)
    have e: "executeDbQuery r CallbackJob bound s = Some ?t"
      using r False y(1) same by (simp add: executeDbQuery_def Let_def onDone_def onQueryDone_def setRef_def setJob_def)
    have w: "waits ?t j q \<longleftrightarrow> waits s j q" for j q
      using fresh by (auto simp: waits_def setJob_def)
    have "jobs_inv ?t"
      unfolding jobs_inv_def w
    proof (intro conjI allI impI ballI)
      fix j x q assume "db_jobs ?t j = Some x" and q: "jb_ref x = Some q"
      then have x: "db_jobs s j = Some x" by (auto simp: setJob_def split: if_splits)
      show "jb_session x = Some q" "jb_work x \<noteq> UvCanceled" using jobs_invD(3,4) [OF inv x q] by simp_all
      show "\<exists>y. db_refs ?t q = Some y \<and> j \<in> set (jr_jobs y)" using jobs_invD(5) [OF inv x q] by (simp add: setJob_def)
    qed (use jobs_invD [OF inv] in \<open>auto simp: setJob_def less_Suc_eq split: if_splits\<close>)
    then show ?thesis using e by blast
  qed
qed

text \<open>The worker only changes a job that keeps its session.\<close>

lemma work_inv:
  assumes inv: "jobs_inv s" and x: "db_jobs s j = Some x"
    and same: "jb_kind x' = jb_kind x" "jb_session x' = jb_session x" "jb_ref x' = jb_ref x" "jb_work x' \<noteq> UvCanceled"
  shows "jobs_inv (setJob j x' s)" (is "jobs_inv ?s")
proof -
  have w: "waits ?s i q \<longleftrightarrow> waits s i q" for i q using x same by (auto simp: waits_def setJob_def)
  show ?thesis
    unfolding jobs_inv_def w
  proof (intro conjI allI impI)
    fix i z q assume z: "db_jobs ?s i = Some z" "jb_ref z = Some q"
    have "jb_session z = Some q \<and> jb_work z \<noteq> UvCanceled \<and> (\<exists>y. db_refs ?s q = Some y \<and> i \<in> set (jr_jobs y))"
    proof (cases "i = j")
      case True
      then have "z = x'" "jb_ref x = Some q" using z same by (simp_all add: setJob_def)
      then show ?thesis using jobs_invD(3,5) [OF inv x, of q] same True by (simp add: setJob_def)
    next
      case False
      then have "db_jobs s i = Some z" using z by (simp add: setJob_def)
      then show ?thesis using jobs_invD(3,4,5) [OF inv _ z(2)] by (simp add: setJob_def)
    qed
    then show "jb_session z = Some q" "jb_work z \<noteq> UvCanceled" "\<exists>y. db_refs ?s q = Some y \<and> i \<in> set (jr_jobs y)" by blast+
  qed (use jobs_invD [OF inv] x same in \<open>auto simp: setJob_def split: if_splits\<close>)
qed

text \<open>A finished job calls its session back if it still has one, and is deleted.\<close>

lemma onDoneStatic_ok:
  assumes inv: "jobs_inv s" and x: "db_jobs s j = Some x" and w: "jb_work x \<in> {Worked, UvCanceled}"
  shows "\<exists>s'. onDoneStatic j x s = Some s' \<and> jobs_inv s' \<and> db_jobs s' j = None \<and>
    db_called s' = db_called s @ (case jb_ref x of None \<Rightarrow> [] | Some r \<Rightarrow> [(r, j, if jb_done x then S_Ok else S_Error)])"
proof (cases "jb_ref x")
  case None
  let ?t = "s\<lparr>db_jobs := (db_jobs s)(j := None)\<rparr>"
  have k: "jb_kind x = CallbackJob" by (rule jobs_invD(1) [OF inv x])
  have e: "onDoneStatic j x s = Some ?t" by (simp add: onDoneStatic_def onDone_def x k None)
  have wt: "waits ?t i q \<longleftrightarrow> waits s i q" for i q using x None by (auto simp: waits_def)
  have "jobs_inv ?t"
    unfolding jobs_inv_def wt
  proof (intro conjI allI impI)
    fix i z q assume "db_jobs ?t i = Some z" and q: "jb_ref z = Some q"
    then have z: "db_jobs s i = Some z" by (auto split: if_splits)
    show "jb_session z = Some q" "jb_work z \<noteq> UvCanceled" "\<exists>y. db_refs ?t q = Some y \<and> i \<in> set (jr_jobs y)"
      using jobs_invD(3,4,5) [OF inv z q] by simp_all
  qed (use jobs_invD [OF inv] in \<open>auto split: if_splits\<close>)
  then show ?thesis using e None by simp
next
  case (Some r)
  obtain y where y: "db_refs s r = Some y" "j \<in> set (jr_jobs y)" using jobs_invD(5) [OF inv x Some] by blast
  have y2: "\<not> jr_deleting y" "distinct (jr_jobs y)" using jobs_invD(6,7) [OF inv y(1)] .
  have se: "jb_session x = Some r" "jb_work x = Worked" "jb_kind x = CallbackJob"
    using jobs_invD(1,3,4) [OF inv x] Some w by auto
  let ?st = "if jb_done x then S_Ok else S_Error"
  let ?t = "s\<lparr>db_jobs := (db_jobs s)(j := None), db_refs := (db_refs s)(r \<mapsto> y\<lparr>jr_jobs := remove1 j (jr_jobs y)\<rparr>),
              db_called := db_called s @ [(r, j, ?st)]\<rparr>"
  have e: "onDoneStatic j x s = Some ?t"
    using x Some y y2 se by (simp add: onDoneStatic_def onDone_def onQueryDone_def callSession_def setRef_def setJob_def)
  have wt: "waits ?t i q \<longleftrightarrow> waits s i q \<and> i \<noteq> j" for i q by (auto simp: waits_def)
  have wj: "waits s j r" using x Some by (simp add: waits_def)
  have "jobs_inv ?t"
    unfolding jobs_inv_def wt
  proof (intro conjI allI impI ballI)
    fix i z q assume z: "db_jobs ?t i = Some z" "jb_ref z = Some q"
    then have "i \<noteq> j" by auto
    then show "jb_session z = Some q" "jb_work z \<noteq> UvCanceled" "\<exists>y. db_refs ?t q = Some y \<and> i \<in> set (jr_jobs y)"
      using jobs_invD(3,4,5) [OF inv, of i z q] z y by (auto split: if_splits)
  next
    fix q z i assume z: "db_refs ?t q = Some z"
    show "\<not> jr_deleting z" "distinct (jr_jobs z)" using z jobs_invD(6,7) [OF inv, of q] y2 by (auto split: if_splits)
    assume i: "i \<in> set (jr_jobs z)"
    show "waits s i q"
    proof (cases "q = r")
      case True
      then have "i \<in> set (jr_jobs y)" using z i set_remove1_subset [of j "jr_jobs y"] by auto
      then show ?thesis using jobs_invD(8) [OF inv y(1)] True by simp
    next
      case False
      then show ?thesis using z i jobs_invD(8) [OF inv, of q] by simp
    qed
    show "i \<noteq> j"
    proof
      assume "i = j"
      have "q \<noteq> r" using z i \<open>i = j\<close> y2(2) by auto
      then have "waits s j q" using z i \<open>i = j\<close> jobs_invD(8) [OF inv, of q] by auto
      then show False using wj \<open>q \<noteq> r\<close> by (auto simp: waits_def)
    qed
  next
    have "j \<notin> (\<lambda>c. fst (snd c)) ` set (db_called s)" using jobs_invD(11) [OF inv] wj by auto
    then show "distinct (map (\<lambda>c. fst (snd c)) (db_called ?t))" using jobs_invD(9) [OF inv] by simp
  next
    fix c q assume c: "c \<in> set (db_called ?t)"
    then have "c \<in> set (db_called s) \<or> fst (snd c) = j" by auto
    then show "fst (snd c) < db_next ?t" "\<not> (waits s (fst (snd c)) q \<and> fst (snd c) \<noteq> j)"
      using jobs_invD(10,11) [OF inv, of c] jobs_invD(2) [OF inv x] by auto
  qed (use jobs_invD(1,2) [OF inv] in \<open>auto split: if_splits\<close>)
  then show ?thesis using e Some by simp
qed

text \<open>Programs that only use queries with a callback of the session.\<close>

fun sessionQueries :: "job_event \<Rightarrow> bool" where
  "sessionQueries (ExecuteQuery r kind bound) = (kind = CallbackJob)"
| "sessionQueries e = True"

lemma job_step_ok:
  assumes inv: "jobs_inv s" and ok: "sessionQueries e"
  shows "\<exists>s'. job_step e s = Some s' \<and> jobs_inv s'"
proof (cases e)
  case (NewSession r)
  then show ?thesis using newSession_inv [OF inv] inv by (simp add: job_step_def)
next
  case (DestroySession r)
  then show ?thesis using destroyRef_ok [OF inv] inv by (cases "db_refs s r") (simp_all add: job_step_def)
next
  case (ExecuteQuery r kind bound)
  then show ?thesis using executeDbQuery_ok [OF inv] inv ok by (cases "db_refs s r") (simp_all add: job_step_def)
next
  case (WorkerStarts j)
  have "jobs_inv (startWork j x s)" if "db_jobs s j = Some x" for x
    unfolding startWork_def by (rule work_inv [OF inv that]) simp_all
  then show ?thesis using inv WorkerStarts by (cases "db_jobs s j") (simp_all add: job_step_def)
next
  case (WorkerEnds j result)
  have "jobs_inv (endWork j x result s)" if "db_jobs s j = Some x" for x
    unfolding endWork_def by (rule work_inv [OF inv that]) simp_all
  then show ?thesis using inv WorkerEnds by (cases "db_jobs s j") (simp_all add: job_step_def)
next
  case (WorkDone j)
  then show ?thesis using inv onDoneStatic_ok [OF inv, of j] by (cases "db_jobs s j") (auto simp: job_step_def)
qed

interpretation query_jobs: safe_machine job_step jobs_inv "\<lambda>e _. sessionQueries e"
proof
  show "\<exists>s'. job_step e s = Some s'" if "jobs_inv s" "sessionQueries e" for e s using job_step_ok [OF that] by blast
  show "jobs_inv s'" if "jobs_inv s" "sessionQueries e" "job_step e s = Some s'" for e s s'
    using job_step_ok [OF that(1,2)] that(3) by simp
qed

section \<open>Properties\<close>

lemma sessionQueries_ok: "\<forall>e \<in> set es. sessionQueries e \<Longrightarrow> run_ok job_step (\<lambda>e _. sessionQueries e) es s"
  by (induction es arbitrary: s) (simp_all split: option.splits)


text \<open>A session asks for two queries; the first is done before the session goes away, the second is not taken by a
  worker yet and is canceled.\<close>

definition demo_jobs :: "job_event list" where
  "demo_jobs = [NewSession 7, ExecuteQuery 7 CallbackJob True, ExecuteQuery 7 CallbackJob True, WorkerStarts 0,
     WorkerEnds 0 True, WorkDone 0, DestroySession 7, WorkDone 1]"

lemma demo_jobs_called: "map_option (\<lambda>s. (db_called s, db_jobs s 1)) (run job_step demo_jobs noJobs) = Some ([(7, 0, S_Ok)], None)"
  by (simp add: demo_jobs_def noJobs_def job_step_def executeDbQuery_def setRef_def setJob_def startWork_def endWork_def
      onDoneStatic_def onDone_def onQueryDone_def callSession_def destroyRef_def cancelJob_def cancelWork_def Let_def)


text \<open>A job with a closure is not taken off the list of its session when it is done: when the session goes away later, its
  \<open>DbQueryJobRef\<close> cancels the deleted job.\<close>

lemma lambda_job_dangles:
  "run job_step [NewSession 7, ExecuteQuery 7 LambdaJob True, WorkerStarts 0, WorkerEnds 0 True, WorkDone 0,
     DestroySession 7] noJobs = None"
  by (simp add: noJobs_def job_step_def executeDbQuery_def setRef_def setJob_def startWork_def endWork_def
      onDoneStatic_def onDone_def onQueryDone_def callSession_def destroyRef_def cancelJob_def cancelWork_def Let_def)

end
