(* ===== verification/DbQuery.thy ===== *)
theory DbQuery
  imports Prelude
begin

text \<open>
  Queries on a database connection (librzu/src/lib/Database/DbQueryBinding.cpp, DbConnection.cpp): one execution per input,
  executions of a batch of inputs, inserts of many rows by one statement, and the reading of result columns. ODBC is a
  parameter: \<open>drv\<close> answers a call after the calls made before on the connection. \<open>None\<close> is undefined behaviour or a loop that
  does not end. Inputs and outputs are objects whose members lie at offsets. Iconv is a parameter as well.
\<close>

section \<open>ODBC\<close>

datatype sqlreturn = SQL_SUCCESS | SQL_SUCCESS_WITH_INFO | SQL_NO_DATA | SQL_ERROR

datatype c_type = SQL_C_BINARY | SQL_C_WCHAR | C_Other int

datatype way = SQL_PARAM_INPUT | SQL_PARAM_OUTPUT

text \<open>A bound parameter comes with the values the driver reads at the execution: one, or with a set size that of each input
  of a batch; and with their indicators, if it has any.\<close>

record bound_value =
  bv_way :: way
  bv_cType :: c_type
  bv_dbType :: int
  bv_size :: int
  bv_precision :: int
  bv_maxLength :: nat
  bv_values :: "bytes list"
  bv_indicators :: "int list option"

datatype odbc =
    SQLSetAutoCommit bool
  | SQLSetParamBindType nat
  | SQLSetParamsetSize nat
  | SQLSetParamStatusPtr
  | SQLSetParamsProcessedPtr
  | SQLBindParameter u16 bound_value
  | SQLPrepare string
  | SQLExecute
  | SQLNumResultCols
  | SQLColAttribute nat
  | SQLFetch
  | SQLGetData nat c_type int
  | SQLFreeStmt_Close
  | SQLFreeStmt_ResetParams
  | SQLEndTran bool
  | SQLDisconnect

text \<open>What a call returns, what it leaves in the number and in the buffer it is given; after an error that is whatever they held.\<close>

record odbc_reply =
  rp_ret :: sqlreturn
  rp_num :: int
  rp_name :: string
  rp_bytes :: bytes

type_synonym odbc_trace = "(odbc \<times> sqlreturn) list"

type_synonym odbc_driver = "odbc_trace \<Rightarrow> odbc \<Rightarrow> odbc_reply"

fun checkResult :: "sqlreturn \<Rightarrow> bool" where
  "checkResult SQL_SUCCESS = True"
| "checkResult SQL_SUCCESS_WITH_INFO = True"
| "checkResult _ = False"

section \<open>DbConnection\<close>

record query_connection =
  qc_live :: bool
  qc_lastQuery :: string
  qc_trace :: odbc_trace

definition sql :: "odbc_driver \<Rightarrow> odbc \<Rightarrow> query_connection \<Rightarrow> (odbc_reply \<times> query_connection) option" where
  "sql drv c k =
     (if qc_live k then
        let r = drv (qc_trace k) c in Some (r, k\<lparr>qc_trace := qc_trace k @ [(c, rp_ret r)]\<rparr>)
      else None)"

definition sqlDo :: "odbc_driver \<Rightarrow> odbc \<Rightarrow> query_connection \<Rightarrow> query_connection option" where
  "sqlDo drv c k = map_option snd (sql drv c k)"

definition setAutoCommit :: "odbc_driver \<Rightarrow> bool \<Rightarrow> query_connection \<Rightarrow> query_connection option" where
  "setAutoCommit drv enable = sqlDo drv (SQLSetAutoCommit enable)"

definition endTransaction :: "odbc_driver \<Rightarrow> bool \<Rightarrow> query_connection \<Rightarrow> query_connection option" where
  "endTransaction drv commit = sqlDo drv (SQLEndTran commit)"

definition closeCursor :: "odbc_driver \<Rightarrow> query_connection \<Rightarrow> query_connection option" where
  "closeCursor drv = sqlDo drv SQLFreeStmt_Close"

definition release :: "odbc_driver \<Rightarrow> query_connection \<Rightarrow> query_connection option" where
  "release drv k = do { k \<leftarrow> closeCursor drv k; sqlDo drv SQLFreeStmt_ResetParams k }"

text \<open>\<open>releaseAndClose\<close> ends with the destructor, which rolls back.\<close>

definition releaseWithError :: "odbc_driver \<Rightarrow> query_connection \<Rightarrow> query_connection option" where
  "releaseWithError drv k = do {
     k \<leftarrow> release drv k;
     k \<leftarrow> endTransaction drv False k;
     k \<leftarrow> sqlDo drv SQLDisconnect k;
     Some (k\<lparr>qc_live := False\<rparr>) }"

definition execute :: "odbc_driver \<Rightarrow> string \<Rightarrow> query_connection \<Rightarrow> (bool \<times> query_connection) option" where
  "execute drv query k = do {
     (prepared, k) \<leftarrow>
       (if qc_lastQuery k \<noteq> query then do {
          (r, k) \<leftarrow> sql drv (SQLPrepare query) k;
          Some (if checkResult (rp_ret r) then (True, k\<lparr>qc_lastQuery := query\<rparr>) else (False, k)) }
        else Some (True, k));
     if prepared then do { (r, k) \<leftarrow> sql drv SQLExecute k; Some (checkResult (rp_ret r), k) }
     else Some (False, k) }"

section \<open>The binding of a query\<close>

datatype value_type = DVT_Primitive | DVT_StdString | DVT_DbString

datatype exec_mode = EM_NoRow | EM_OneRow | EM_MultiRows | EM_Insert

text \<open>\<open>pb_infoPtr\<close> is the offset of a length or null indicator.\<close>

record param_binding =
  pb_way :: way
  pb_index :: int
  pb_cType :: c_type
  pb_dbType :: int
  pb_dbSize :: int
  pb_precision :: int
  pb_isStdString :: value_type
  pb_bufferOffset :: nat
  pb_infoPtr :: "nat option"

record column_binding =
  cb_name :: string
  cb_cType :: c_type
  cb_isStdString :: value_type
  cb_bufferOffset :: nat
  cb_bufferSize :: int
  cb_isNullPtr :: "nat option"

text \<open>The members of inputs and outputs: primitive values, \<open>std::string\<close>, \<open>DbString<N>\<close> with the size of its array, indicators and
  null flags.\<close>

datatype cell = Raw bytes | Text bytes | DbText bytes nat | Indicator int | NullFlag bool

type_synonym row = "nat \<Rightarrow> cell option"

record db_binding =
  db_enabled :: bool
  db_query :: string
  db_params :: "param_binding list"
  db_columns :: "column_binding list"
  db_mode :: exec_mode
  db_errorCount :: nat

text \<open>The codes \<open>SQL_WVARCHAR\<close> and \<open>SQL_NULL_DATA\<close>.\<close>

abbreviation "SQL_WVARCHAR \<equiv> -9 :: int"
abbreviation "SQL_NULL_DATA \<equiv> -1 :: int"

definition countError :: "db_binding \<Rightarrow> db_binding" where
  "countError b =
     (if db_errorCount b + 1 > 100 then b\<lparr>db_enabled := False, db_errorCount := 0\<rparr>
      else b\<lparr>db_errorCount := db_errorCount b + 1\<rparr>)"

section \<open>Parameters\<close>

text \<open>The indicator of a parameter; its member has to be one.\<close>

fun indicatorOf :: "nat option \<Rightarrow> row \<Rightarrow> int option option" where
  "indicatorOf None row = Some None"
| "indicatorOf (Some offset) row = (case row offset of Some (Indicator n) \<Rightarrow> Some (Some n) | _ \<Rightarrow> None)"

definition stringParam :: "(bytes \<Rightarrow> bytes) \<Rightarrow> param_binding \<Rightarrow> int option \<Rightarrow> bytes \<Rightarrow> bound_value" where
  "stringParam utf16 pb ind str =
     \<lparr>bv_way = SQL_PARAM_INPUT, bv_cType = SQL_C_WCHAR, bv_dbType = SQL_WVARCHAR,
      bv_size = (if length str > 0 then int (length str) else 1), bv_precision = pb_precision pb, bv_maxLength = 0,
      bv_values = [utf16 str], bv_indicators = Some [case ind of Some n \<Rightarrow> n | None \<Rightarrow> int (length (utf16 str))]\<rparr>"

definition primitiveParam :: "param_binding \<Rightarrow> int option \<Rightarrow> bytes \<Rightarrow> bound_value" where
  "primitiveParam pb ind v =
     \<lparr>bv_way = pb_way pb, bv_cType = pb_cType pb, bv_dbType = pb_dbType pb, bv_size = pb_dbSize pb,
      bv_precision = pb_precision pb, bv_maxLength = 0, bv_values = [v], bv_indicators = map_option (\<lambda>n. [n]) ind\<rparr>"

text \<open>What is bound for a parameter of an input. A member that is not a primitive is taken for a \<open>std::string\<close>.\<close>

definition paramValue :: "(bytes \<Rightarrow> bytes) \<Rightarrow> row \<Rightarrow> param_binding \<Rightarrow> bound_value option" where
  "paramValue utf16 row pb = do {
     ind \<leftarrow> indicatorOf (pb_infoPtr pb) row;
     if pb_isStdString pb \<noteq> DVT_Primitive then
       (case row (pb_bufferOffset pb) of Some (Text str) \<Rightarrow> Some (stringParam utf16 pb ind str) | _ \<Rightarrow> None)
     else (case row (pb_bufferOffset pb) of Some (Raw v) \<Rightarrow> Some (primitiveParam pb ind v) | _ \<Rightarrow> None) }"

text \<open>The parameters of one input; their numbers start behind \<open>offset\<close>.\<close>

fun bindParams :: "(bytes \<Rightarrow> bytes) \<Rightarrow> odbc_driver \<Rightarrow> nat \<Rightarrow> row \<Rightarrow> param_binding list \<Rightarrow> query_connection \<Rightarrow> query_connection option" where
  "bindParams utf16 drv offset row [] k = Some k"
| "bindParams utf16 drv offset row (pb # pbs) k = do {
     k \<leftarrow> (if pb_index pb > 0 then do {
             v \<leftarrow> paramValue utf16 row pb;
             sqlDo drv (SQLBindParameter (word_of_int (pb_index pb + int offset)) v) k }
           else Some k);
     bindParams utf16 drv offset row pbs k }"

section \<open>Result columns\<close>

fun columnNames :: "odbc_driver \<Rightarrow> nat list \<Rightarrow> query_connection \<Rightarrow> (string list \<times> query_connection) option" where
  "columnNames drv [] k = Some ([], k)"
| "columnNames drv (col # cols) k = do {
     (r, k) \<leftarrow> sql drv (SQLColAttribute (col + 1)) k;
     (names, k) \<leftarrow> columnNames drv cols k;
     Some (rp_name r # names, k) }"

fun findColumn :: "string \<Rightarrow> string list \<Rightarrow> nat option" where
  "findColumn name [] = None"
| "findColumn name (n # ns) = (if n = name then Some 0 else map_option Suc (findColumn name ns))"

fun mapColumns :: "string list \<Rightarrow> column_binding list \<Rightarrow> column_binding option list \<Rightarrow> column_binding option list" where
  "mapColumns names [] mapping = mapping"
| "mapColumns names (cb # cbs) mapping =
     mapColumns names cbs (case findColumn (cb_name cb) names of Some col \<Rightarrow> mapping[col := Some cb] | None \<Rightarrow> mapping)"

text \<open>A failure closes and deletes the connection; the caller goes on with an empty mapping.\<close>

definition getColumnsMapping ::
    "odbc_driver \<Rightarrow> column_binding list \<Rightarrow> query_connection \<Rightarrow> (column_binding option list \<times> query_connection) option" where
  "getColumnsMapping drv columns k = do {
     (r, k) \<leftarrow> sql drv SQLNumResultCols k;
     if \<not> checkResult (rp_ret r) then do { k \<leftarrow> releaseWithError drv k; Some ([], k) }
     else do {
       (names, k) \<leftarrow> columnNames drv [0..<nat (rp_num r)] k;
       Some (mapColumns names columns (replicate (length names) None), k) } }"

definition resizeTo :: "nat \<Rightarrow> bytes \<Rightarrow> bytes" where
  "resizeTo n b = take n b @ replicate (n - length b) 0"

definition storeAt :: "nat \<Rightarrow> bytes \<Rightarrow> bytes \<Rightarrow> bytes option" where
  "storeAt pos data b = (if pos + length data \<le> length b then Some (take pos b @ data @ drop (pos + length data) b) else None)"

partial_function (option) getStringLoop ::
    "odbc_driver \<Rightarrow> nat \<Rightarrow> nat \<Rightarrow> bytes \<Rightarrow> query_connection \<Rightarrow> (odbc_reply \<times> nat \<times> bytes \<times> query_connection) option" where
  "getStringLoop drv col bytesRead b k = do {
     (r, k) \<leftarrow> sql drv (SQLGetData col SQL_C_WCHAR (int (length b) - int bytesRead)) k;
     b \<leftarrow> storeAt bytesRead (rp_bytes r) b;
     if rp_ret r = SQL_SUCCESS_WITH_INFO \<and> rp_num r \<noteq> SQL_NULL_DATA then
       getStringLoop drv col (length b - 2) (resizeTo (2 * length b) b) k
     else Some (r, bytesRead, b, k) }"

text \<open>The new value of the string, if it gets one, with the success of the read.\<close>

definition getString ::
    "(bytes \<Rightarrow> bytes) \<Rightarrow> odbc_driver \<Rightarrow> nat \<Rightarrow> query_connection \<Rightarrow> (bool \<times> bytes option \<times> query_connection) option" where
  "getString toLocal drv col k = do {
     (r, k) \<leftarrow> sql drv (SQLGetData col SQL_C_BINARY 0) k;
     if \<not> checkResult (rp_ret r) then Some (False, None, k)
     else if rp_num r = SQL_NULL_DATA \<or> rp_num r = 0 then Some (True, Some [], k)
     else if rp_num r < 0 then Some (False, None, k)
     else do {
       (r, bytesRead, b, k) \<leftarrow> getStringLoop drv col 0 (replicate (nat (rp_num r) * 2 + 4) 0) k;
       if rp_num r = SQL_NULL_DATA \<or> rp_ret r = SQL_NO_DATA then Some (True, Some [], k)
       else if rp_num r < 0 then Some (False, None, k)
       else if rp_ret r = SQL_SUCCESS then
         (let n = bytesRead + nat (rp_num r)
          in Some (True, Some (if n \<noteq> 0 then toLocal (resizeTo n b) else []), k))
       else Some (False, Some [], k) } }"

text \<open>The columns of a fetched line. \<open>getString\<close> of a \<open>DbString\<close> would take it for a \<open>std::string\<close>.\<close>

fun readColumns ::
    "(bytes \<Rightarrow> bytes) \<Rightarrow> odbc_driver \<Rightarrow> nat \<Rightarrow> column_binding option list \<Rightarrow> bool \<Rightarrow> row \<Rightarrow> query_connection \<Rightarrow>
     (bool \<times> row \<times> query_connection) option" where
  "readColumns toLocal drv col [] failed line k = Some (failed, line, k)"
| "readColumns toLocal drv col (None # cbs) failed line k = readColumns toLocal drv (col + 1) cbs failed line k"
| "readColumns toLocal drv col (Some cb # cbs) failed line k =
     (case cb_isStdString cb of
        DVT_DbString \<Rightarrow> None
      | DVT_StdString \<Rightarrow> do {
          (ok, str, k) \<leftarrow> getString toLocal drv (col + 1) k;
          readColumns toLocal drv (col + 1) cbs (failed \<or> \<not> ok)
            (case str of Some s \<Rightarrow> line(cb_bufferOffset cb \<mapsto> Text s) | None \<Rightarrow> line) k }
      | DVT_Primitive \<Rightarrow> do {
          (r, k) \<leftarrow> sql drv (SQLGetData (col + 1) (cb_cType cb) (cb_bufferSize cb)) k;
          let line = line(cb_bufferOffset cb \<mapsto> Raw (rp_bytes r));
          let line = (case cb_isNullPtr cb of Some offset \<Rightarrow> line(offset \<mapsto> NullFlag (rp_num r = SQL_NULL_DATA)) | None \<Rightarrow> line);
          readColumns toLocal drv (col + 1) cbs (failed \<or> \<not> checkResult (rp_ret r)) line k })"

text \<open>\<open>rowDone\<close> is \<open>onRowDone\<close> of the query class, after a line has been appended.\<close>

partial_function (option) fetchLoop ::
    "(bytes \<Rightarrow> bytes) \<Rightarrow> odbc_driver \<Rightarrow> (row list \<Rightarrow> bool) \<Rightarrow> exec_mode \<Rightarrow> column_binding option list \<Rightarrow> nat \<Rightarrow> bool \<Rightarrow> row list \<Rightarrow>
     query_connection \<Rightarrow> (bool \<times> row list \<times> query_connection) option" where
  "fetchLoop toLocal drv rowDone mode mapping rowFetched failed out k = do {
     (r, k) \<leftarrow> sql drv SQLFetch k;
     if checkResult (rp_ret r) \<and> (rowFetched = 0 \<or> mode = EM_MultiRows) then
       if mapping = [] then fetchLoop toLocal drv rowDone mode mapping (rowFetched + 1) failed out k
       else do {
         (failed, line, k) \<leftarrow> readColumns toLocal drv 0 mapping failed Map.empty k;
         if rowDone (out @ [line]) then fetchLoop toLocal drv rowDone mode mapping (rowFetched + 1) failed (out @ [line]) k
         else Some (failed, out @ [line], k) }
     else Some (failed, out, k) }"

section \<open>One execution per input\<close>

definition readResult ::
    "(bytes \<Rightarrow> bytes) \<Rightarrow> odbc_driver \<Rightarrow> (row list \<Rightarrow> bool) \<Rightarrow> db_binding \<Rightarrow> bool \<Rightarrow> row list \<Rightarrow> query_connection \<Rightarrow>
     (bool \<times> row list \<times> query_connection) option" where
  "readResult toLocal drv rowDone b failed out k =
     (if db_mode b \<noteq> EM_NoRow then do {
        (mapping, k) \<leftarrow> getColumnsMapping drv (db_columns b) k;
        fetchLoop toLocal drv rowDone (db_mode b) mapping 0 failed out k }
      else Some (failed, out, k))"

text \<open>The result: whether an execution failed, whether a column could not be read, the lines and the connection.\<close>

fun runInputs ::
    "(bytes \<Rightarrow> bytes) \<Rightarrow> (bytes \<Rightarrow> bytes) \<Rightarrow> odbc_driver \<Rightarrow> (row list \<Rightarrow> bool) \<Rightarrow> db_binding \<Rightarrow> row list \<Rightarrow> bool \<Rightarrow> row list \<Rightarrow>
     query_connection \<Rightarrow> (bool \<times> bool \<times> row list \<times> query_connection) option" where
  "runInputs utf16 toLocal drv rowDone b [] failed out k = Some (False, failed, out, k)"
| "runInputs utf16 toLocal drv rowDone b (row # rows) failed out k =
     (if failed then Some (False, failed, out, k)
      else do {
        k \<leftarrow> bindParams utf16 drv 0 row (db_params b) k;
        (ok, k) \<leftarrow> execute drv (db_query b) k;
        if \<not> ok then do { k \<leftarrow> releaseWithError drv k; Some (True, failed, out, k) }
        else do {
          (failed, out, k) \<leftarrow> readResult toLocal drv rowDone b failed out k;
          k \<leftarrow> closeCursor drv k;
          runInputs utf16 toLocal drv rowDone b rows failed out k } })"

text \<open>The result of \<open>process\<close>, the binding, the lines and the connection.\<close>

type_synonym process_result = "bool \<times> db_binding \<times> row list \<times> query_connection option"

definition processInputs ::
    "(bytes \<Rightarrow> bytes) \<Rightarrow> (bytes \<Rightarrow> bytes) \<Rightarrow> odbc_driver \<Rightarrow> (row list \<Rightarrow> bool) \<Rightarrow> db_binding \<Rightarrow> row list \<Rightarrow> query_connection option \<Rightarrow>
     process_result option" where
  "processInputs utf16 toLocal drv rowDone b inputs conn =
     (case conn of
        None \<Rightarrow> Some (False, b, [], None)
      | Some k \<Rightarrow> do {
          k \<leftarrow> setAutoCommit drv False k;
          (errored, failed, out, k) \<leftarrow> runInputs utf16 toLocal drv rowDone b inputs False [] k;
          if errored then Some (False, countError b, out, Some k)
          else do {
            k \<leftarrow> endTransaction drv (\<not> failed) k;
            k \<leftarrow> release drv k;
            Some (True, b, out, Some k) } })"

section \<open>Inserts of many rows\<close>

definition MAX_BOUND_PARAMETER_NUMBER :: nat where
  "MAX_BOUND_PARAMETER_NUMBER = (30000 - 6) div 4"

text \<open>One \<open>(?,?,?)\<close> per row.\<close>

definition insertMarks :: "nat \<Rightarrow> string" where
  "insertMarks params = ''('' @ concat (map (\<lambda>i. if i = 0 then ''?'' else '',?'') [0..<params]) @ '')''"

definition insertData :: "nat \<Rightarrow> nat \<Rightarrow> string" where
  "insertData params batchSize =
     concat (map (\<lambda>i. insertMarks params @ (if i < batchSize - 1 then [CHR '','', CHR 0x0A] else [])) [0..<batchSize])"

text \<open>The query is a format whose one argument is that string.\<close>

fun formatWith :: "string list \<Rightarrow> string \<Rightarrow> string option" where
  "formatWith args [] = Some []"
| "formatWith args (c # cs) =
     (if c = CHR ''%'' then
        (case cs of
           [] \<Rightarrow> None
         | d # ds \<Rightarrow>
             (if d = CHR ''%'' then map_option (Cons d) (formatWith args ds)
              else if d = CHR ''s'' then
                (case args of [] \<Rightarrow> None | arg # args \<Rightarrow> map_option (append arg) (formatWith args ds))
              else None))
      else map_option (Cons c) (formatWith args cs))"

definition createBatchedInsertQuery :: "db_binding \<Rightarrow> nat \<Rightarrow> string option" where
  "createBatchedInsertQuery b batchSize = formatWith [insertData (length (db_params b)) batchSize] (db_query b)"

definition boundCount :: "param_binding list \<Rightarrow> nat" where
  "boundCount pbs = length (filter (\<lambda>pb. pb_index pb > 0) pbs)"

fun bindRows :: "(bytes \<Rightarrow> bytes) \<Rightarrow> odbc_driver \<Rightarrow> param_binding list \<Rightarrow> nat \<Rightarrow> row list \<Rightarrow> query_connection \<Rightarrow> query_connection option" where
  "bindRows utf16 drv pbs count [] k = Some k"
| "bindRows utf16 drv pbs count (row # rows) k = do {
     k \<leftarrow> bindParams utf16 drv count row pbs k;
     bindRows utf16 drv pbs (count + boundCount pbs) rows k }"

text \<open>The batches with the given numbers; \<open>query\<close> is the text of the last one.\<close>

fun insertBatches ::
    "(bytes \<Rightarrow> bytes) \<Rightarrow> odbc_driver \<Rightarrow> db_binding \<Rightarrow> row list \<Rightarrow> nat \<Rightarrow> nat list \<Rightarrow> string \<Rightarrow> query_connection \<Rightarrow>
     (bool \<times> query_connection) option" where
  "insertBatches utf16 drv b inputs batchSize [] query k = Some (True, k)"
| "insertBatches utf16 drv b inputs batchSize (i # ibs) query k = do {
     let rest = length inputs - i * batchSize;
     (insertNumber, query) \<leftarrow>
       (if rest \<ge> batchSize then Some (batchSize, query)
        else do { query \<leftarrow> createBatchedInsertQuery b rest; Some (rest, query) });
     k \<leftarrow> bindRows utf16 drv (db_params b) 0 (take insertNumber (drop (i * batchSize) inputs)) k;
     (ok, k) \<leftarrow> execute drv query k;
     if \<not> ok then do { k \<leftarrow> releaseWithError drv k; Some (False, k) }
     else do {
       k \<leftarrow> closeCursor drv k;
       insertBatches utf16 drv b inputs batchSize ibs query k } }"

definition processInserts ::
    "(bytes \<Rightarrow> bytes) \<Rightarrow> odbc_driver \<Rightarrow> db_binding \<Rightarrow> row list \<Rightarrow> query_connection option \<Rightarrow> process_result option" where
  "processInserts utf16 drv b inputs conn = do {
     let params = length (db_params b);
     maxBatchSize \<leftarrow> (if params = 0 then None else Some (MAX_BOUND_PARAMETER_NUMBER div params));
     let batchSize = min (length inputs) maxBatchSize;
     batchNumber \<leftarrow> (if batchSize = 0 then None else Some ((length inputs + batchSize - 1) div batchSize));
     query \<leftarrow> createBatchedInsertQuery b batchSize;
     (case conn of
        None \<Rightarrow> Some (False, b, [], None)
      | Some k \<Rightarrow> do {
          k \<leftarrow> setAutoCommit drv False k;
          (ok, k) \<leftarrow> insertBatches utf16 drv b inputs batchSize [0..<batchNumber] query k;
          if \<not> ok then Some (False, countError b, [], Some k)
          else do {
            k \<leftarrow> endTransaction drv True k;
            k \<leftarrow> release drv k;
            Some (True, b, [], Some k) } }) }"

section \<open>Batches of inputs\<close>

text \<open>\<open>DbString::assign\<close> keeps what fits in front of the terminator.\<close>

fun assignDbString :: "bytes \<Rightarrow> cell \<Rightarrow> cell option" where
  "assignDbString str (DbText old cap) = Some (DbText (take (cap - 1) str) cap)"
| "assignDbString str c = None"

fun toUnicode :: "(bytes \<Rightarrow> bytes) \<Rightarrow> param_binding list \<Rightarrow> row \<Rightarrow> row option" where
  "toUnicode utf16 [] row = Some row"
| "toUnicode utf16 (pb # pbs) row =
     (if pb_isStdString pb = DVT_DbString then
        (case row (pb_bufferOffset pb) of
           Some (DbText str cap) \<Rightarrow> do {
             c \<leftarrow> assignDbString (utf16 str) (DbText str cap);
             toUnicode utf16 pbs (row(pb_bufferOffset pb \<mapsto> c)) }
         | _ \<Rightarrow> None)
      else toUnicode utf16 pbs row)"

definition sqlSize :: "bytes \<Rightarrow> int" where
  "sqlSize str = (if str = [] then SQL_NULL_DATA else int (length str))"

fun cellBytes :: "value_type \<Rightarrow> cell option \<Rightarrow> bytes option" where
  "cellBytes DVT_DbString (Some (DbText str cap)) = Some str"
| "cellBytes DVT_Primitive (Some (Raw v)) = Some v"
| "cellBytes t c = None"

text \<open>The values and indicators of a parameter in all inputs: the first input is bound, the driver steps to the next ones.\<close>

definition batchParam :: "row list \<Rightarrow> param_binding \<Rightarrow> bound_value option" where
  "batchParam inputs pb = do {
     values \<leftarrow> those (map (\<lambda>row. cellBytes (pb_isStdString pb) (row (pb_bufferOffset pb))) inputs);
     inds \<leftarrow> those (map (indicatorOf (pb_infoPtr pb)) inputs);
     let given = (if pb_infoPtr pb = None then None else Some (map the inds));
     (case hd inputs (pb_bufferOffset pb) of
        Some (DbText str cap) \<Rightarrow>
          Some \<lparr>bv_way = pb_way pb, bv_cType = pb_cType pb, bv_dbType = pb_dbType pb,
            bv_size = (if length str > 0 then int (length str) else 1), bv_precision = pb_precision pb, bv_maxLength = cap,
            bv_values = values, bv_indicators = (if given = None then Some (map sqlSize values) else given)\<rparr>
      | _ \<Rightarrow>
          Some \<lparr>bv_way = pb_way pb, bv_cType = pb_cType pb, bv_dbType = pb_dbType pb, bv_size = pb_dbSize pb,
            bv_precision = pb_precision pb, bv_maxLength = 0, bv_values = values, bv_indicators = given\<rparr>) }"

fun bindBatch :: "odbc_driver \<Rightarrow> row list \<Rightarrow> param_binding list \<Rightarrow> query_connection \<Rightarrow> query_connection option" where
  "bindBatch drv inputs [] k = Some k"
| "bindBatch drv inputs (pb # pbs) k = do {
     k \<leftarrow> (if pb_index pb > 0 then do {
             v \<leftarrow> batchParam inputs pb;
             sqlDo drv (SQLBindParameter (word_of_int (pb_index pb)) v) k }
           else Some k);
     bindBatch drv inputs pbs k }"

definition setBatchAttributes :: "odbc_driver \<Rightarrow> nat \<Rightarrow> nat \<Rightarrow> query_connection \<Rightarrow> query_connection option" where
  "setBatchAttributes drv inputSize inputNumber k = do {
     k \<leftarrow> sqlDo drv (SQLSetParamBindType inputSize) k;
     k \<leftarrow> sqlDo drv (SQLSetParamsetSize inputNumber) k;
     k \<leftarrow> sqlDo drv SQLSetParamStatusPtr k;
     sqlDo drv SQLSetParamsProcessedPtr k }"

definition processBatch ::
    "(bytes \<Rightarrow> bytes) \<Rightarrow> odbc_driver \<Rightarrow> nat \<Rightarrow> db_binding \<Rightarrow> row list \<Rightarrow> query_connection option \<Rightarrow> process_result option" where
  "processBatch utf16 drv inputSize b inputs conn =
     (case conn of
        None \<Rightarrow> Some (False, b, [], None)
      | Some k \<Rightarrow> do {
          k \<leftarrow> setAutoCommit drv False k;
          k \<leftarrow> setBatchAttributes drv inputSize (length inputs) k;
          inputs \<leftarrow> those (map (toUnicode utf16 (db_params b)) inputs);
          k \<leftarrow> bindBatch drv inputs (db_params b) k;
          (ok, k) \<leftarrow> execute drv (db_query b) k;
          if \<not> ok then do { k \<leftarrow> releaseWithError drv k; Some (False, countError b, [], Some k) }
          else do {
            k \<leftarrow> closeCursor drv k;
            k \<leftarrow> endTransaction drv True k;
            k \<leftarrow> release drv k;
            Some (True, b, [], Some k) } })"

section \<open>process\<close>

definition hasStdString :: "param_binding list \<Rightarrow> bool" where
  "hasStdString pbs = list_ex (\<lambda>pb. pb_isStdString pb = DVT_StdString) pbs"

text \<open>\<open>conn\<close> is what the pool gives when it is asked.\<close>

definition process ::
    "(bytes \<Rightarrow> bytes) \<Rightarrow> (bytes \<Rightarrow> bytes) \<Rightarrow> odbc_driver \<Rightarrow> (row list \<Rightarrow> bool) \<Rightarrow> nat \<Rightarrow> db_binding \<Rightarrow> row list \<Rightarrow> query_connection option \<Rightarrow>
     process_result option" where
  "process utf16 toLocal drv rowDone inputSize b inputs conn =
     (if \<not> db_enabled b then Some (False, b\<lparr>db_errorCount := 0\<rparr>, [], None)
      else if inputs = [] then Some (True, b, [], None)
      else if db_mode b = EM_Insert then processInserts utf16 drv b inputs conn
      else if db_mode b = EM_NoRow \<and> \<not> hasStdString (db_params b) then processBatch utf16 drv inputSize b inputs conn
      else processInputs utf16 toLocal drv rowDone b inputs conn)"

end
