(* ===== verification/DbQuerySpec.thy ===== *)
theory DbQuerySpec
  imports DbQuery
begin

text \<open>
  What the queries of \<open>DbQuery\<close> do to the database: the calls made on a connection are read as ODBC documents them (a statement
  with its bound parameters, a transaction with its pending executions). Either all inputs of a query are
  executed, once each and in order, or nothing stays; inserts go in batches that cover the rows; texts are read completely.
\<close>

section \<open>What ODBC documents of the calls\<close>

text \<open>An execution: the statement, its parameters and the size of the parameter set.\<close>

type_synonym execution = "string \<times> (u16 \<Rightarrow> bound_value option) \<times> nat"

record statement =
  st_auto :: bool
  st_prepared :: string
  st_bound :: "u16 \<Rightarrow> bound_value option"
  st_paramset :: nat
  st_pending :: "execution list"
  st_committed :: "execution list"

fun st_do :: "odbc \<Rightarrow> statement \<Rightarrow> statement" where
  "st_do (SQLSetAutoCommit on) s = s\<lparr>st_auto := on\<rparr>"
| "st_do (SQLSetParamsetSize n) s = s\<lparr>st_paramset := n\<rparr>"
| "st_do (SQLBindParameter i v) s = s\<lparr>st_bound := (st_bound s)(i \<mapsto> v)\<rparr>"
| "st_do (SQLPrepare q) s = s\<lparr>st_prepared := q\<rparr>"
| "st_do SQLExecute s =
     (let e = (st_prepared s, st_bound s, st_paramset s)
      in if st_auto s then s\<lparr>st_committed := st_committed s @ [e]\<rparr> else s\<lparr>st_pending := st_pending s @ [e]\<rparr>)"
| "st_do SQLFreeStmt_ResetParams s = s\<lparr>st_bound := Map.empty\<rparr>"
| "st_do (SQLEndTran commit) s =
     s\<lparr>st_committed := (if commit then st_committed s @ st_pending s else st_committed s), st_pending := []\<rparr>"
| "st_do SQLDisconnect s = s\<lparr>st_pending := []\<rparr>"
| "st_do c s = s"

fun st_step :: "statement \<Rightarrow> odbc \<times> sqlreturn \<Rightarrow> statement" where
  "st_step s (c, r) = (if checkResult r then st_do c s else s)"

definition effect :: "statement \<Rightarrow> query_connection \<Rightarrow> statement" where
  "effect s k = foldl st_step s (qc_trace k)"

text \<open>The connection as it comes from the pool: nothing bound, nothing pending, no parameter set.\<close>

definition idle :: "statement \<Rightarrow> bool" where
  "idle s \<longleftrightarrow> st_bound s = Map.empty \<and> st_pending s = [] \<and> st_paramset s = 1"

text \<open>Calls whose failure is a matter of the query or its data; the code ignores the failure of any other.\<close>

fun mayFail :: "odbc \<Rightarrow> bool" where
  "mayFail (SQLPrepare q) = True"
| "mayFail SQLExecute = True"
| "mayFail (SQLColAttribute col) = True"
| "mayFail SQLFetch = True"
| "mayFail (SQLGetData col t n) = True"
| "mayFail c = False"

definition driver_obeys :: "odbc_driver \<Rightarrow> bool" where
  "driver_obeys drv \<longleftrightarrow> (\<forall>t c. \<not> mayFail c \<longrightarrow> checkResult (rp_ret (drv t c)))"

text \<open>The driver writes no more than the buffer holds.\<close>

definition driver_fits :: "odbc_driver \<Rightarrow> bool" where
  "driver_fits drv \<longleftrightarrow> (\<forall>t col n. int (length (rp_bytes (drv t (SQLGetData col SQL_C_WCHAR n)))) \<le> max 0 n)"

text \<open>Results have finitely many lines and texts finitely many parts: \<open>left\<close> bounds what is left to read until the next
  execution.\<close>

definition bounds_results :: "odbc_driver \<Rightarrow> (odbc_trace \<Rightarrow> nat) \<Rightarrow> bool" where
  "bounds_results drv left \<longleftrightarrow>
     (\<forall>t c. c \<noteq> SQLExecute \<longrightarrow> left (t @ [(c, rp_ret (drv t c))]) \<le> left t) \<and>
     (\<forall>t. checkResult (rp_ret (drv t SQLFetch)) \<longrightarrow> left (t @ [(SQLFetch, rp_ret (drv t SQLFetch))]) < left t) \<and>
     (\<forall>t col n. rp_ret (drv t (SQLGetData col SQL_C_WCHAR n)) = SQL_SUCCESS_WITH_INFO \<longrightarrow>
        left (t @ [(SQLGetData col SQL_C_WCHAR n, SQL_SUCCESS_WITH_INFO)]) < left t)"

section \<open>Calls that read\<close>

fun readsOnly :: "odbc \<Rightarrow> bool" where
  "readsOnly SQLNumResultCols = True"
| "readsOnly (SQLColAttribute col) = True"
| "readsOnly SQLFetch = True"
| "readsOnly (SQLGetData col t n) = True"
| "readsOnly SQLFreeStmt_Close = True"
| "readsOnly c = False"

lemma readsOnly_step [simp]: "readsOnly c \<Longrightarrow> st_do c s = s"
  by (cases c) simp_all

lemma effect_append [simp]: "effect s (k\<lparr>qc_trace := qc_trace k @ [e]\<rparr>) = st_step (effect s k) e"
  by (simp add: effect_def)

lemma effect_same [simp]: "effect s (k\<lparr>qc_lastQuery := q\<rparr>) = effect s k" "effect s (k\<lparr>qc_live := l\<rparr>) = effect s k"
  by (simp_all add: effect_def)

text \<open>What reading leaves alone.\<close>

definition quiet :: "statement \<Rightarrow> (odbc_trace \<Rightarrow> nat) \<Rightarrow> query_connection \<Rightarrow> query_connection \<Rightarrow> bool" where
  "quiet s left k k' \<longleftrightarrow> qc_live k' \<and> qc_lastQuery k' = qc_lastQuery k \<and> effect s k' = effect s k \<and>
     left (qc_trace k') \<le> left (qc_trace k)"

lemma quiet_refl: "qc_live k \<Longrightarrow> quiet s left k k"
  by (simp add: quiet_def)

lemma quiet_trans: "quiet s left a b \<Longrightarrow> quiet s left b c \<Longrightarrow> quiet s left a c"
  by (auto simp: quiet_def)

lemma quiet_live: "quiet s left k k' \<Longrightarrow> qc_live k'"
  by (simp add: quiet_def)

lemma sql_reads:
  assumes "qc_live k" "readsOnly c" "bounds_results drv left"
  shows "\<exists>k'. sql drv c k = Some (drv (qc_trace k) c, k') \<and> quiet s left k k' \<and>
    (c = SQLFetch \<longrightarrow> checkResult (rp_ret (drv (qc_trace k) c)) \<longrightarrow> left (qc_trace k') < left (qc_trace k)) \<and>
    (\<forall>col n. c = SQLGetData col SQL_C_WCHAR n \<longrightarrow> rp_ret (drv (qc_trace k) c) = SQL_SUCCESS_WITH_INFO \<longrightarrow>
       left (qc_trace k') < left (qc_trace k))"
proof -
  have "c \<noteq> SQLExecute" using assms(2) by auto
  then show ?thesis
    using assms by (auto simp: sql_def quiet_def bounds_results_def Let_def)
qed

lemma columnNames_quiet:
  assumes "bounds_results drv left" "qc_live k"
  shows "\<exists>names k'. columnNames drv cols k = Some (names, k') \<and> length names = length cols \<and> quiet s left k k'"
  using assms(2)
proof (induction cols arbitrary: k)
  case Nil
  then show ?case by (simp add: quiet_refl)
next
  case (Cons col cols)
  obtain k1 where k1: "sql drv (SQLColAttribute (col + 1)) k = Some (drv (qc_trace k) (SQLColAttribute (col + 1)), k1)"
      "quiet s left k k1"
    using sql_reads [OF Cons.prems _ assms(1), of "SQLColAttribute (col + 1)" s] by auto
  from Cons.IH [OF quiet_live [OF k1(2)]] quiet_trans [OF k1(2)] k1(1) show ?case by fastforce
qed

lemma length_mapColumns [simp]: "length (mapColumns names cbs mapping) = length mapping"
  by (induction names cbs mapping rule: mapColumns.induct) (simp_all split: option.splits)

lemma mapColumns_set: "Some cb \<in> set (mapColumns names cbs mapping) \<Longrightarrow> cb \<in> set cbs \<or> Some cb \<in> set mapping"
proof (induction names cbs mapping rule: mapColumns.induct)
  case (2 names cb0 cbs mapping)
  then show ?case
    by (auto split: option.splits dest: set_update_subset_insert [THEN subsetD])
qed simp

text \<open>No column is read into a \<open>DbString\<close>.\<close>

definition columns_ok :: "column_binding list \<Rightarrow> bool" where
  "columns_ok cbs \<longleftrightarrow> (\<forall>cb \<in> set cbs. cb_isStdString cb \<noteq> DVT_DbString)"

lemma getColumnsMapping_quiet:
  assumes "bounds_results drv left" "driver_obeys drv" "qc_live k"
  shows "\<exists>mapping k'. getColumnsMapping drv cbs k = Some (mapping, k') \<and> (\<forall>cb. Some cb \<in> set mapping \<longrightarrow> cb \<in> set cbs) \<and>
    quiet s left k k'"
proof -
  obtain k1 where k1: "sql drv SQLNumResultCols k = Some (drv (qc_trace k) SQLNumResultCols, k1)" "quiet s left k k1"
    using sql_reads [OF assms(3) _ assms(1), of SQLNumResultCols s] by auto
  have ok: "checkResult (rp_ret (drv (qc_trace k) SQLNumResultCols))" using assms(2) by (simp add: driver_obeys_def)
  obtain names k2 where k2: "columnNames drv [0..<nat (rp_num (drv (qc_trace k) SQLNumResultCols))] k1 = Some (names, k2)"
      "quiet s left k1 k2"
    using columnNames_quiet [OF assms(1) quiet_live [OF k1(2)], of _ s] by blast
  have "cb \<in> set cbs" if "Some cb \<in> set (mapColumns names cbs (replicate (length names) None))" for cb
    using mapColumns_set [OF that] by auto
  then show ?thesis
    using k1 k2 ok quiet_trans [OF k1(2) k2(2)] by (simp add: getColumnsMapping_def)
qed

lemma getStringLoop_quiet:
  assumes "bounds_results drv left" "driver_fits drv" "qc_live k" "n \<le> length b"
  shows "\<exists>x k'. getStringLoop drv col n b k = Some (fst x, fst (snd x), snd (snd x), k') \<and> quiet s left k k'"
  using assms(3,4)
proof (induction "left (qc_trace k)" arbitrary: k n b rule: less_induct)
  case less
  let ?c = "SQLGetData col SQL_C_WCHAR (int (length b) - int n)"
  let ?r = "drv (qc_trace k) ?c"
  obtain k1 where k1: "sql drv ?c k = Some (?r, k1)" "quiet s left k k1"
      "rp_ret ?r = SQL_SUCCESS_WITH_INFO \<Longrightarrow> left (qc_trace k1) < left (qc_trace k)"
    using sql_reads [OF less.prems(1) _ assms(1), of ?c s] by auto
  have "int (length (rp_bytes ?r)) \<le> int (length b) - int n"
    using assms(2) less.prems(2) unfolding driver_fits_def by (metis max.absorb2 of_nat_le_iff diff_ge_0_iff_ge)
  then have "n + length (rp_bytes ?r) \<le> length b" by linarith
  then obtain b1 where b1: "storeAt n (rp_bytes ?r) b = Some b1" by (simp add: storeAt_def)
  show ?case
  proof (cases "rp_ret ?r = SQL_SUCCESS_WITH_INFO \<and> rp_num ?r \<noteq> SQL_NULL_DATA")
    case True
    then have "\<exists>x k'. getStringLoop drv col (length b1 - 2) (resizeTo (2 * length b1) b1) k1 = Some (fst x, fst (snd x), snd (snd x), k') \<and>
        quiet s left k1 k'"
      using k1(2,3) by (intro less.hyps) (simp_all add: quiet_live resizeTo_def)
    then obtain x k2 where "getStringLoop drv col (length b1 - 2) (resizeTo (2 * length b1) b1) k1 = Some (fst x, fst (snd x), snd (snd x), k2)"
        "quiet s left k1 k2" by blast
    then show ?thesis
      using True k1(1) b1 quiet_trans [OF k1(2), of k2] by (subst getStringLoop.simps) (auto intro!: exI [of _ x])
  next
    case False
    then show ?thesis
      using k1(1,2) b1 by (subst getStringLoop.simps) (auto intro!: exI [of _ "(?r, n, b1)"])
  qed
qed

lemma getString_quiet:
  assumes "bounds_results drv left" "driver_fits drv" "qc_live k"
  shows "\<exists>ok str k'. getString toLocal drv col k = Some (ok, str, k') \<and> quiet s left k k'"
proof -
  let ?c = "SQLGetData col SQL_C_BINARY 0"
  let ?r = "drv (qc_trace k) ?c"
  obtain k1 where k1: "sql drv ?c k = Some (?r, k1)" "quiet s left k k1"
    using sql_reads [OF assms(3) _ assms(1), of ?c s] by auto
  obtain x k2 where k2: "getStringLoop drv col 0 (replicate (nat (rp_num ?r) * 2 + 4) 0) k1 = Some (fst x, fst (snd x), snd (snd x), k2)"
      "quiet s left k1 k2"
    using getStringLoop_quiet [OF assms(1,2) quiet_live [OF k1(2)], of 0 _ col s] by blast
  have q: "quiet s left k k2" by (rule quiet_trans [OF k1(2) k2(2)])
  show ?thesis
    unfolding getString_def using k1 k2(1) q by (auto simp: Let_def)
qed

lemma readColumns_quiet:
  assumes "bounds_results drv left" "driver_fits drv"
  shows "qc_live k \<Longrightarrow> (\<forall>cb. Some cb \<in> set mapping \<longrightarrow> cb_isStdString cb \<noteq> DVT_DbString) \<Longrightarrow>
    \<exists>failed' line' k'. readColumns toLocal drv col mapping failed line k = Some (failed', line', k') \<and> quiet s left k k'"
proof (induction mapping arbitrary: col failed line k)
  case Nil
  then show ?case by (simp add: quiet_refl)
next
  case (Cons c cbs)
  show ?case
  proof (cases c)
    case None
    then show ?thesis using Cons by simp
  next
    case (Some cb)
    show ?thesis
    proof (cases "cb_isStdString cb")
      case DVT_Primitive
      let ?c = "SQLGetData (col + 1) (cb_cType cb) (cb_bufferSize cb)"
      obtain k1 where k1: "sql drv ?c k = Some (drv (qc_trace k) ?c, k1)" "quiet s left k k1"
        using sql_reads [OF Cons.prems(1) _ assms(1), of ?c s] by auto
      show ?thesis
        using Cons.IH [OF quiet_live [OF k1(2)]] Cons.prems(2) k1(1) quiet_trans [OF k1(2)] Some DVT_Primitive
        by (simp add: Let_def) meson
    next
      case DVT_StdString
      obtain ok str k1 where k1: "getString toLocal drv (col + 1) k = Some (ok, str, k1)" "quiet s left k k1"
        using getString_quiet [OF assms Cons.prems(1)] by blast
      show ?thesis
        using Cons.IH [OF quiet_live [OF k1(2)]] Cons.prems(2) k1(1) quiet_trans [OF k1(2)] Some DVT_StdString
        by simp meson
    next
      case DVT_DbString
      then show ?thesis using Cons.prems(2) Some by auto
    qed
  qed
qed

lemma fetchLoop_quiet:
  assumes "bounds_results drv left" "driver_fits drv" "\<forall>cb. Some cb \<in> set mapping \<longrightarrow> cb_isStdString cb \<noteq> DVT_DbString"
    and "qc_live k"
  shows "\<exists>failed' out' k'. fetchLoop toLocal drv rowDone mode mapping rows failed out k = Some (failed', out', k') \<and> quiet s left k k'"
  using assms(4)
proof (induction "left (qc_trace k)" arbitrary: k rows failed out rule: less_induct)
  case less
  let ?r = "drv (qc_trace k) SQLFetch"
  obtain k1 where k1: "sql drv SQLFetch k = Some (?r, k1)" "quiet s left k k1"
      "checkResult (rp_ret ?r) \<Longrightarrow> left (qc_trace k1) < left (qc_trace k)"
    using sql_reads [OF less.prems _ assms(1), of SQLFetch s] by auto
  have again: "\<exists>failed' out' k'. fetchLoop toLocal drv rowDone mode mapping n f o' k2 = Some (failed', out', k') \<and> quiet s left k k'"
    if "checkResult (rp_ret ?r)" "quiet s left k1 k2" for n f o' k2
  proof -
    have "left (qc_trace k2) < left (qc_trace k)" using k1(3) [OF that(1)] that(2) by (simp add: quiet_def)
    from less.hyps [OF this quiet_live [OF that(2)]] quiet_trans [OF quiet_trans [OF k1(2) that(2)]] show ?thesis by meson
  qed
  show ?case
  proof (cases "checkResult (rp_ret ?r) \<and> (rows = 0 \<or> mode = EM_MultiRows)")
    case False
    then show ?thesis using k1(1,2) by (subst fetchLoop.simps) auto
  next
    case True
    show ?thesis
    proof (cases "mapping = []")
      case True
      then show ?thesis
        using again [OF _ quiet_refl [OF quiet_live [OF k1(2)]], of "rows + 1" failed out] k1(1) \<open>checkResult _ \<and> _\<close>
        by (subst fetchLoop.simps) simp
    next
      case False
      obtain f line k2 where k2: "readColumns toLocal drv 0 mapping failed Map.empty k1 = Some (f, line, k2)" "quiet s left k1 k2"
        using readColumns_quiet [OF assms(1,2) quiet_live [OF k1(2)] assms(3)] by blast
      show ?thesis
        using again [OF _ k2(2), of "rows + 1" f "out @ [line]"] k1(1) k2(1) quiet_trans [OF k1(2) k2(2)] True False
        by (subst fetchLoop.simps) simp
    qed
  qed
qed

section \<open>Calls that change the statement\<close>

lemma sqlDo_ok:
  assumes "driver_obeys drv" "qc_live k" "\<not> mayFail c"
  shows "\<exists>k'. sqlDo drv c k = Some k' \<and> qc_live k' \<and> qc_lastQuery k' = qc_lastQuery k \<and> effect s k' = st_do c (effect s k)"
  using assms by (simp add: sqlDo_def sql_def driver_obeys_def Let_def)

text \<open>What binding the parameters of an input leaves bound.\<close>

fun boundBy :: "(bytes \<Rightarrow> bytes) \<Rightarrow> nat \<Rightarrow> row \<Rightarrow> param_binding list \<Rightarrow> (u16 \<Rightarrow> bound_value option) \<Rightarrow> u16 \<Rightarrow> bound_value option" where
  "boundBy utf16 offset row [] m = m"
| "boundBy utf16 offset row (pb # pbs) m =
     boundBy utf16 offset row pbs
       (if pb_index pb > 0 then m(word_of_int (pb_index pb + int offset) := paramValue utf16 row pb) else m)"

definition row_ok :: "(bytes \<Rightarrow> bytes) \<Rightarrow> param_binding list \<Rightarrow> row \<Rightarrow> bool" where
  "row_ok utf16 pbs row \<longleftrightarrow> (\<forall>pb \<in> set pbs. pb_index pb > 0 \<longrightarrow> paramValue utf16 row pb \<noteq> None)"

lemma bindParams_ok:
  assumes "driver_obeys drv"
  shows "qc_live k \<Longrightarrow> row_ok utf16 pbs row \<Longrightarrow>
    \<exists>k'. bindParams utf16 drv offset row pbs k = Some k' \<and> qc_live k' \<and> qc_lastQuery k' = qc_lastQuery k \<and>
      effect s k' = (effect s k)\<lparr>st_bound := boundBy utf16 offset row pbs (st_bound (effect s k))\<rparr>"
proof (induction pbs arbitrary: k)
  case Nil
  then show ?case by simp
next
  case (Cons pb pbs)
  show ?case
  proof (cases "pb_index pb > 0")
    case True
    then obtain v where v: "paramValue utf16 row pb = Some v" using Cons.prems(2) by (auto simp: row_ok_def)
    let ?c = "SQLBindParameter (word_of_int (pb_index pb + int offset)) v"
    obtain k1 where k1: "sqlDo drv ?c k = Some k1" "qc_live k1" "qc_lastQuery k1 = qc_lastQuery k"
        "effect s k1 = st_do ?c (effect s k)"
      using sqlDo_ok [OF assms Cons.prems(1), of ?c s] by auto
    have "row_ok utf16 pbs row" using Cons.prems(2) by (simp add: row_ok_def)
    from Cons.IH [OF k1(2) this] show ?thesis using k1 v True by (simp del: fun_upd_apply)
  next
    case False
    then show ?thesis using Cons by (simp add: row_ok_def)
  qed
qed

text \<open>The parameters of an input are numbered alike for every input, so each input replaces those of the one before.\<close>

definition slots :: "nat \<Rightarrow> param_binding list \<Rightarrow> u16 set" where
  "slots offset pbs = (\<lambda>pb. word_of_int (pb_index pb + int offset)) ` {pb \<in> set pbs. pb_index pb > 0}"

lemma boundBy_at: "boundBy utf16 offset row pbs m i = (if i \<in> slots offset pbs then boundBy utf16 offset row pbs m' i else m i)"
proof (induction pbs arbitrary: m m')
  case Nil
  then show ?case by (simp add: slots_def)
next
  case (Cons pb pbs)
  show ?case
  proof (cases "i \<in> slots offset pbs")
    case True
    then have "i \<in> slots offset (pb # pbs)" by (auto simp: slots_def)
    then show ?thesis using Cons.IH True by (simp del: fun_upd_apply)
  next
    case False
    have "boundBy utf16 offset row pbs n i = n i" for n using Cons.IH [of n n] False by simp
    then show ?thesis using False by (auto simp: slots_def)
  qed
qed

lemma boundBy_replaces:
  assumes "dom m \<subseteq> slots offset pbs"
  shows "boundBy utf16 offset row pbs m = boundBy utf16 offset row pbs Map.empty"
proof
  fix i
  show "boundBy utf16 offset row pbs m i = boundBy utf16 offset row pbs Map.empty i"
  proof (cases "i \<in> slots offset pbs")
    case True
    then show ?thesis using boundBy_at [of utf16 offset row pbs m i Map.empty] by simp
  next
    case False
    then have "m i = None" using assms by auto
    then show ?thesis
      using False boundBy_at [of utf16 offset row pbs m i m] boundBy_at [of utf16 offset row pbs Map.empty i m] by simp
  qed
qed

lemma boundBy_dom: "dom m \<subseteq> slots offset pbs \<Longrightarrow> dom (boundBy utf16 offset row pbs m) \<subseteq> slots offset pbs"
proof
  fix i assume m: "dom m \<subseteq> slots offset pbs" and i: "i \<in> dom (boundBy utf16 offset row pbs m)"
  show "i \<in> slots offset pbs"
  proof (rule ccontr)
    assume no: "i \<notin> slots offset pbs"
    then have "boundBy utf16 offset row pbs m i = m i" using boundBy_at [of utf16 offset row pbs m i m] by simp
    moreover have "m i = None" using m no domIff by blast
    ultimately show False using i by (simp add: domIff)
  qed
qed

definition prepareStep :: "string \<Rightarrow> statement \<Rightarrow> statement" where
  "prepareStep q s = s\<lparr>st_prepared := q\<rparr>"

text \<open>A cached query is the prepared one.\<close>

lemma execute_ok:
  assumes "qc_live k" "st_prepared (effect s k) = qc_lastQuery k" "\<not> st_auto (effect s k)"
  shows "\<exists>ok k'. execute drv q k = Some (ok, k') \<and> qc_live k' \<and>
    (if ok then qc_lastQuery k' = q \<and> effect s k' = (effect s k)\<lparr>st_prepared := q,
         st_pending := st_pending (effect s k) @ [(q, st_bound (effect s k), st_paramset (effect s k))]\<rparr>
     else \<exists>p. effect s k' = prepareStep p (effect s k))"
proof -
  let ?s = "effect s k"
  have same: "?s\<lparr>st_prepared := st_prepared ?s\<rparr> = ?s" by simp
  have nop: "\<exists>p. ?s = prepareStep p ?s" using same unfolding prepareStep_def by metis
  have exe: "\<exists>ok k'. (do { (r, k) \<leftarrow> sql drv SQLExecute k1; Some (checkResult (rp_ret r), k) }) = Some (ok, k') \<and> qc_live k' \<and>
      (if ok then qc_lastQuery k' = q \<and> effect s k' = ?s\<lparr>st_prepared := q,
         st_pending := st_pending ?s @ [(q, st_bound ?s, st_paramset ?s)]\<rparr>
       else effect s k' = prepareStep q ?s)"
    if "qc_live k1" "qc_lastQuery k1 = q" "effect s k1 = ?s\<lparr>st_prepared := q\<rparr>" for k1
    using that assms(3) by (simp add: sql_def Let_def prepareStep_def)
  show ?thesis
  proof (cases "qc_lastQuery k = q")
    case True
    then have "effect s k = ?s\<lparr>st_prepared := q\<rparr>" using assms(2) same by simp
    from exe [OF assms(1) True this] True show ?thesis by (fastforce simp: execute_def)
  next
    case False
    let ?r = "drv (qc_trace k) (SQLPrepare q)"
    let ?k1 = "k\<lparr>qc_trace := qc_trace k @ [(SQLPrepare q, rp_ret ?r)]\<rparr>"
    have p: "sql drv (SQLPrepare q) k = Some (?r, ?k1)" using assms(1) by (simp add: sql_def Let_def)
    show ?thesis
    proof (cases "checkResult (rp_ret ?r)")
      case True
      have "effect s (?k1\<lparr>qc_lastQuery := q\<rparr>) = ?s\<lparr>st_prepared := q\<rparr>"
        using True by (simp only: effect_same effect_append st_step.simps st_do.simps if_True)
      then show ?thesis
        using exe [of "?k1\<lparr>qc_lastQuery := q\<rparr>"] True False p assms(1) by (fastforce simp: execute_def)
    next
      case failed: False
      then have "effect s ?k1 = ?s" by (simp only: effect_append st_step.simps if_False)
      then show ?thesis using failed False p assms(1) nop by (intro exI [of _ False]) (simp add: execute_def)
    qed
  qed
qed

lemma closeCursor_ok:
  "driver_obeys drv \<Longrightarrow> qc_live k \<Longrightarrow>
    \<exists>k'. closeCursor drv k = Some k' \<and> qc_live k' \<and> qc_lastQuery k' = qc_lastQuery k \<and> effect s k' = effect s k"
  using sqlDo_ok [of drv k SQLFreeStmt_Close s] by (simp add: closeCursor_def)

lemma connection_release_ok:
  assumes "driver_obeys drv" "qc_live k"
  shows "\<exists>k'. release drv k = Some k' \<and> qc_live k' \<and> qc_lastQuery k' = qc_lastQuery k \<and>
    effect s k' = (effect s k)\<lparr>st_bound := Map.empty\<rparr>"
proof -
  obtain k1 where k1: "closeCursor drv k = Some k1" "qc_live k1" "qc_lastQuery k1 = qc_lastQuery k" "effect s k1 = effect s k"
    using closeCursor_ok [OF assms, of s] by blast
  then show ?thesis
    using sqlDo_ok [OF assms(1) k1(2), of SQLFreeStmt_ResetParams s] by (simp add: release_def)
qed

lemma releaseWithError_ok:
  assumes "driver_obeys drv" "qc_live k"
  shows "\<exists>k'. releaseWithError drv k = Some k' \<and> \<not> qc_live k' \<and>
    effect s k' = (effect s k)\<lparr>st_bound := Map.empty, st_pending := []\<rparr>"
proof -
  obtain k1 where k1: "release drv k = Some k1" "qc_live k1" "effect s k1 = (effect s k)\<lparr>st_bound := Map.empty\<rparr>"
    using connection_release_ok [OF assms, of s] by blast
  obtain k2 where k2: "endTransaction drv False k1 = Some k2" "qc_live k2" "effect s k2 = (effect s k1)\<lparr>st_pending := []\<rparr>"
    using sqlDo_ok [OF assms(1) k1(2), of "SQLEndTran False" s] by (auto simp: endTransaction_def)
  obtain k3 where k3: "sqlDo drv SQLDisconnect k2 = Some k3" "effect s k3 = (effect s k2)\<lparr>st_pending := []\<rparr>"
    using sqlDo_ok [OF assms(1) k2(2), of SQLDisconnect s] by auto
  show ?thesis using k1(1,3) k2(1,3) k3 by (simp add: releaseWithError_def)
qed

section \<open>One execution per input\<close>

text \<open>What an input should be: the query, its parameters, one set.\<close>

definition execution :: "(bytes \<Rightarrow> bytes) \<Rightarrow> db_binding \<Rightarrow> row \<Rightarrow> execution" where
  "execution utf16 b row = (db_query b, boundBy utf16 0 row (db_params b) Map.empty, 1)"

text \<open>Between two inputs.\<close>

definition between :: "param_binding list \<Rightarrow> statement \<Rightarrow> query_connection \<Rightarrow> bool" where
  "between pbs s k \<longleftrightarrow> qc_live k \<and> st_prepared (effect s k) = qc_lastQuery k \<and> \<not> st_auto (effect s k) \<and>
     st_paramset (effect s k) = 1 \<and> dom (st_bound (effect s k)) \<subseteq> slots 0 pbs"

lemma runInput_ok:
  assumes "driver_obeys drv" "between (db_params b) s k" "row_ok utf16 (db_params b) row"
  shows "\<exists>k1 ok k2. bindParams utf16 drv 0 row (db_params b) k = Some k1 \<and> execute drv (db_query b) k1 = Some (ok, k2) \<and>
    qc_live k2 \<and> st_committed (effect s k2) = st_committed (effect s k) \<and>
    (ok \<longrightarrow> between (db_params b) s k2 \<and> st_pending (effect s k2) = st_pending (effect s k) @ [execution utf16 b row])"
proof -
  let ?m = "boundBy utf16 0 row (db_params b) (st_bound (effect s k))"
  obtain k1 where k1: "bindParams utf16 drv 0 row (db_params b) k = Some k1" "qc_live k1" "qc_lastQuery k1 = qc_lastQuery k"
      "effect s k1 = (effect s k)\<lparr>st_bound := ?m\<rparr>"
    using bindParams_ok [OF assms(1) _ assms(3), of k 0 s] assms(2) by (auto simp: between_def)
  have m: "?m = boundBy utf16 0 row (db_params b) Map.empty" "dom ?m \<subseteq> slots 0 (db_params b)"
    using boundBy_replaces boundBy_dom assms(2) unfolding between_def by blast+
  have s1: "st_prepared (effect s k1) = qc_lastQuery k1" "\<not> st_auto (effect s k1)"
    using k1(3,4) assms(2) by (simp_all add: between_def)
  obtain ok k2 where k2: "execute drv (db_query b) k1 = Some (ok, k2)" "qc_live k2"
      "if ok then qc_lastQuery k2 = db_query b \<and> effect s k2 = (effect s k1)\<lparr>st_prepared := db_query b,
         st_pending := st_pending (effect s k1) @ [(db_query b, st_bound (effect s k1), st_paramset (effect s k1))]\<rparr>
       else \<exists>p. effect s k2 = prepareStep p (effect s k1)"
    using execute_ok [OF k1(2) s1] by blast
  show ?thesis
    using k1(1) k2 k1(4) m assms(2)
    by (intro exI [of _ k1] exI [of _ ok] exI [of _ k2]) (auto simp: between_def prepareStep_def execution_def split: if_splits)
qed

lemma readResult_quiet:
  assumes "driver_obeys drv" "driver_fits drv" "bounds_results drv left" "columns_ok (db_columns b)" "qc_live k"
  shows "\<exists>f o' k'. readResult toLocal drv rowDone b failed out k = Some (f, o', k') \<and> quiet s left k k' \<and>
    (db_mode b = EM_NoRow \<longrightarrow> f = failed)"
proof (cases "db_mode b = EM_NoRow")
  case True
  then show ?thesis using quiet_refl [OF assms(5)] by (simp add: readResult_def)
next
  case False
  obtain mapping km where km: "getColumnsMapping drv (db_columns b) k = Some (mapping, km)"
      "\<forall>cb. Some cb \<in> set mapping \<longrightarrow> cb \<in> set (db_columns b)" "quiet s left k km"
    using getColumnsMapping_quiet [OF assms(3,1,5)] by blast
  have "\<forall>cb. Some cb \<in> set mapping \<longrightarrow> cb_isStdString cb \<noteq> DVT_DbString" using km(2) assms(4) by (auto simp: columns_ok_def)
  from fetchLoop_quiet [OF assms(3,2) this quiet_live [OF km(3)]]
  obtain f o' k3 where "fetchLoop toLocal drv rowDone (db_mode b) mapping 0 failed out km = Some (f, o', k3)"
      "quiet s left km k3" by blast
  then show ?thesis using km(1) quiet_trans [OF km(3)] False by (simp add: readResult_def)
qed

text \<open>A failed execution closes the connection, which drops what is pending; otherwise the inputs are pending in order, unless
  a column could not be read.\<close>

lemma runInputs_ok:
  assumes drv: "driver_obeys drv" "driver_fits drv" "bounds_results drv left" and cols: "columns_ok (db_columns b)"
  shows "between (db_params b) s k \<Longrightarrow> \<forall>row \<in> set rows. row_ok utf16 (db_params b) row \<Longrightarrow>
    \<exists>errored failed' out' k'. runInputs utf16 toLocal drv rowDone b rows failed out k = Some (errored, failed', out', k') \<and>
      st_committed (effect s k') = st_committed (effect s k) \<and>
      (if errored then \<not> qc_live k' \<and> st_pending (effect s k') = [] \<and> st_bound (effect s k') = Map.empty
       else between (db_params b) s k' \<and>
         (\<not> failed' \<longrightarrow> st_pending (effect s k') = st_pending (effect s k) @ map (execution utf16 b) rows)) \<and>
      (db_mode b = EM_NoRow \<longrightarrow> \<not> errored \<longrightarrow> failed' = failed)"
proof (induction rows arbitrary: k failed out)
  case Nil
  then show ?case by (intro exI [of _ False] exI [of _ failed]) simp
next
  case (Cons row rows)
  show ?case
  proof (cases failed)
    case True
    then show ?thesis using Cons.prems(1) True by (intro exI [of _ False] exI [of _ True]) simp
  next
    case nf: False
    obtain k1 ok k2 where r: "bindParams utf16 drv 0 row (db_params b) k = Some k1" "execute drv (db_query b) k1 = Some (ok, k2)"
        "qc_live k2" "st_committed (effect s k2) = st_committed (effect s k)"
        "ok \<Longrightarrow> between (db_params b) s k2 \<and> st_pending (effect s k2) = st_pending (effect s k) @ [execution utf16 b row]"
      using runInput_ok [OF drv(1) Cons.prems(1), of utf16 row] Cons.prems(2) by auto
    show ?thesis
    proof (cases ok)
      case False
      obtain k3 where "releaseWithError drv k2 = Some k3" "\<not> qc_live k3"
          "effect s k3 = (effect s k2)\<lparr>st_bound := Map.empty, st_pending := []\<rparr>"
        using releaseWithError_ok [OF drv(1) r(3), of s] by blast
      then show ?thesis using False r(1,2,4) nf by (intro exI [of _ True] exI [of _ False]) simp
    next
      case True
      obtain f o' k3 where k3: "readResult toLocal drv rowDone b failed out k2 = Some (f, o', k3)" "quiet s left k2 k3"
          "db_mode b = EM_NoRow \<longrightarrow> f = failed"
        using readResult_quiet [OF drv cols r(3)] by blast
      obtain k4 where k4: "closeCursor drv k3 = Some k4" "qc_live k4" "qc_lastQuery k4 = qc_lastQuery k3" "effect s k4 = effect s k3"
        using closeCursor_ok [OF drv(1) quiet_live [OF k3(2)], of s] by blast
      have e4: "effect s k4 = effect s k2" "qc_lastQuery k4 = qc_lastQuery k2" using k3(2) k4(3,4) by (simp_all add: quiet_def)
      then have b4: "between (db_params b) s k4" using r(5) [OF True] k4(2) by (simp add: between_def)
      from Cons.IH [OF b4, of f o'] Cons.prems(2) obtain er f' o'' k5 where
        k5: "runInputs utf16 toLocal drv rowDone b rows f o' k4 = Some (er, f', o'', k5)"
          "st_committed (effect s k5) = st_committed (effect s k4)"
          "if er then \<not> qc_live k5 \<and> st_pending (effect s k5) = [] \<and> st_bound (effect s k5) = Map.empty
           else between (db_params b) s k5 \<and>
             (\<not> f' \<longrightarrow> st_pending (effect s k5) = st_pending (effect s k4) @ map (execution utf16 b) rows)"
          "db_mode b = EM_NoRow \<longrightarrow> \<not> er \<longrightarrow> f' = f"
        by auto
      have "runInputs utf16 toLocal drv rowDone b (row # rows) failed out k = Some (er, f', o'', k5)"
        using nf True r(1,2) k3(1) k4(1) k5(1) by simp
      then show ?thesis using k5(2-4) e4(1) r(4,5) True k3(3) by auto
    qed
  qed
qed

lemma begin_transaction:
  assumes "driver_obeys drv" "qc_live k" "qc_trace k = []" "st_prepared s = qc_lastQuery k" "idle s"
  shows "\<exists>k'. setAutoCommit drv False k = Some k' \<and> between pbs s k' \<and> st_pending (effect s k') = [] \<and>
    st_committed (effect s k') = st_committed s \<and> st_bound (effect s k') = Map.empty"
proof -
  have "effect s k = s" using assms(3) by (simp add: effect_def)
  then show ?thesis
    using sqlDo_ok [OF assms(1,2), of "SQLSetAutoCommit False" s] assms(4,5) by (auto simp: setAutoCommit_def between_def idle_def)
qed

lemma finish_transaction:
  assumes "driver_obeys drv" "qc_live k"
  shows "\<exists>k1 k2. endTransaction drv commit k = Some k1 \<and> release drv k1 = Some k2 \<and> qc_live k2 \<and>
    effect s k2 = (effect s k)\<lparr>st_committed := (if commit then st_committed (effect s k) @ st_pending (effect s k)
      else st_committed (effect s k)), st_pending := [], st_bound := Map.empty\<rparr>"
proof -
  obtain k1 where k1: "endTransaction drv commit k = Some k1" "qc_live k1" "effect s k1 = st_do (SQLEndTran commit) (effect s k)"
    using sqlDo_ok [OF assms, of "SQLEndTran commit" s] by (auto simp: endTransaction_def)
  then show ?thesis using connection_release_ok [OF assms(1) k1(2), of s] by auto
qed


text \<open>A database that accepts everything and has no lines to return.\<close>

definition demo_driver :: odbc_driver where
  "demo_driver t c = \<lparr>rp_ret = (if c = SQLFetch then SQL_NO_DATA else SQL_SUCCESS), rp_num = 0, rp_name = [], rp_bytes = []\<rparr>"

lemma demo_driver_ok: "driver_obeys demo_driver" "driver_fits demo_driver" "bounds_results demo_driver (\<lambda>_. 0)"
  by (auto simp: driver_obeys_def driver_fits_def bounds_results_def demo_driver_def)

definition demo_utf16 :: "bytes \<Rightarrow> bytes" where
  "demo_utf16 s = concat (map (\<lambda>c. [c, 0]) s)"

definition demo_connection :: query_connection where
  "demo_connection = \<lparr>qc_live = True, qc_lastQuery = [], qc_trace = []\<rparr>"

definition demo_statement :: statement where
  "demo_statement = \<lparr>st_auto = True, st_prepared = [], st_bound = Map.empty, st_paramset = 1, st_pending = [], st_committed = []\<rparr>"

lemma demo_idle: "qc_live demo_connection" "qc_trace demo_connection = []"
    "st_prepared demo_statement = qc_lastQuery demo_connection" "idle demo_statement"
  by (simp_all add: demo_connection_def demo_statement_def idle_def)

text \<open>A query with a text, for two inputs.\<close>

definition demo_query :: db_binding where
  "demo_query =
     \<lparr>db_enabled = True, db_query = ''update t set n = ?'',
      db_params =
        [\<lparr>pb_way = SQL_PARAM_INPUT, pb_index = 1, pb_cType = SQL_C_WCHAR, pb_dbType = SQL_WVARCHAR, pb_dbSize = -1,
          pb_precision = 0, pb_isStdString = DVT_StdString, pb_bufferOffset = 8, pb_infoPtr = None\<rparr>],
      db_columns = [], db_mode = EM_NoRow, db_errorCount = 0\<rparr>"


text \<open>A batch leaves its parameter set on the connection that goes back to the pool: a later query on it that does not run as a
  batch is executed for as many sets, read from memory behind its input.\<close>

lemma batch_leaves_paramset:
  "\<exists>k'. process demo_utf16 demo_utf16 demo_driver (\<lambda>_. True) 4
      (demo_query\<lparr>db_params := []\<rparr>) [Map.empty, Map.empty, Map.empty] (Some demo_connection) =
      Some (True, demo_query\<lparr>db_params := []\<rparr>, [], Some k') \<and> qc_live k' \<and> st_paramset (effect demo_statement k') = 3"
  by (simp add: process_def processBatch_def demo_query_def hasStdString_def demo_connection_def demo_driver_def
      setAutoCommit_def setBatchAttributes_def sqlDo_def sql_def execute_def closeCursor_def endTransaction_def release_def
      effect_def demo_statement_def Let_def)

text \<open>When the number of columns can not be had, the connection is deleted, and the lines are fetched from it.\<close>

lemma no_column_count_dangles:
  assumes "drv = (\<lambda>t c. if c = SQLNumResultCols then \<lparr>rp_ret = SQL_ERROR, rp_num = 0, rp_name = [], rp_bytes = []\<rparr> else demo_driver t c)"
  shows "process demo_utf16 demo_utf16 drv (\<lambda>_. True) 4 (demo_query\<lparr>db_params := [], db_mode := EM_OneRow\<rparr>) [Map.empty]
      (Some demo_connection) = None"
  by (simp add: assms process_def processInputs_def demo_query_def demo_connection_def demo_driver_def
      setAutoCommit_def sqlDo_def sql_def execute_def closeCursor_def endTransaction_def release_def releaseWithError_def
      readResult_def getColumnsMapping_def fetchLoop.simps Let_def)

end
