(* ===== verification/DbInsertSpec.thy ===== *)
theory DbInsertSpec
  imports DbQuerySpec
begin

text \<open>
  Inserts of many rows (\<open>DbQueryBinding::processInserts\<close>): the batches cover the rows, each row is inserted once and in
  order with its own values, within the number of parameters the database accepts. And texts: \<open>getString\<close> reads a text of any
  length completely.
\<close>

section \<open>The text of an insert\<close>

lemma marks_count: "count_list (insertMarks params) (CHR ''?'') = params"
proof -
  have "count_list (concat (map (\<lambda>i. if i = 0 then ''?'' else '',?'') [0..<params])) (CHR ''?'') = params"
    by (induction params) auto
  then show ?thesis by (simp add: insertMarks_def)
qed

text \<open>One mark per parameter of each row.\<close>

lemma data_count: "count_list (insertData params n) (CHR ''?'') = n * params"
proof -
  have "count_list (concat (map (\<lambda>i. insertMarks params @ (if i < l then [CHR '','', CHR 0x0A] else [])) [0..<n])) (CHR ''?'') =
      n * params" for l
    by (induction n) (auto simp: marks_count)
  then show ?thesis by (simp add: insertData_def)
qed

lemma formatWith_any: "formatWith [x] q \<noteq> None \<Longrightarrow> formatWith [y] q \<noteq> None"
proof (induction q rule: length_induct)
  case (1 q)
  show ?case
  proof (cases q)
    case Nil
    then show ?thesis by simp
  next
    case (Cons c cs)
    show ?thesis
    proof (cases "c = CHR ''%''")
      case False
      then show ?thesis using 1 Cons by auto
    next
      case True
      then obtain d ds where "cs = d # ds" using 1(2) Cons by (cases cs) auto
      then show ?thesis using 1 Cons True by (auto split: if_splits)
    qed
  qed
qed

section \<open>What the rows bind\<close>

text \<open>The parameters of a query are numbered from 1 in their order.\<close>

definition numbered :: "nat \<Rightarrow> param_binding list \<Rightarrow> bool" where
  "numbered k pbs \<longleftrightarrow> map pb_index pbs = map (\<lambda>i. int (k + i + 1)) [0..<length pbs]"

lemma numbered_Cons: "numbered k (pb # pbs) \<longleftrightarrow> pb_index pb = int (k + 1) \<and> numbered (k + 1) pbs"
proof -
  have "[0..<length (pb # pbs)] = 0 # map Suc [0..<length pbs]" by (simp add: map_Suc_upt upt_conv_Cons del: upt_Suc)
  then show ?thesis by (simp add: numbered_def comp_def del: upt_Suc)
qed

lemma numbered_count: "numbered k pbs \<Longrightarrow> boundCount pbs = length pbs"
  by (induction pbs arbitrary: k) (auto simp: numbered_Cons boundCount_def)

lemma boundBy_values:
  assumes "numbered k pbs" "offset + k + length pbs \<le> 65535"
  shows "(\<forall>i < length pbs. boundBy utf16 offset row pbs m (word_of_nat (offset + k + i + 1)) = paramValue utf16 row (pbs ! i)) \<and>
    (\<forall>n \<le> offset + k. boundBy utf16 offset row pbs m (word_of_nat n) = m (word_of_nat n))"
  using assms
proof (induction pbs arbitrary: k m)
  case Nil
  then show ?case by simp
next
  case (Cons pb pbs)
  let ?m = "m(word_of_nat (offset + k + 1) := paramValue utf16 row pb)"
  have num: "pb_index pb = int (k + 1)" "numbered (k + 1) pbs" using Cons.prems(1) by (simp_all add: numbered_Cons)
  have slot: "word_of_int (pb_index pb + int offset) = (word_of_nat (offset + k + 1) :: u16)"
    unfolding num(1) by (simp add: ac_simps)
  have b: "boundBy utf16 offset row (pb # pbs) m = boundBy utf16 offset row pbs ?m"
    unfolding boundBy.simps slot using num(1) by simp
  have far: "(word_of_nat n :: u16) \<noteq> word_of_nat (offset + k + 1)" if "n \<le> offset + k" for n
    using that Cons.prems(2) by (simp only: word_of_nat_eq_iff) (simp add: take_bit_nat_eq_self)
  have room: "offset + (k + 1) + length pbs \<le> 65535" using Cons.prems(2) by simp
  have ih: "\<forall>i < length pbs. boundBy utf16 offset row pbs ?m (word_of_nat (offset + (k + 1) + i + 1)) = paramValue utf16 row (pbs ! i)"
      "\<forall>n \<le> offset + (k + 1). boundBy utf16 offset row pbs ?m (word_of_nat n) = ?m (word_of_nat n)"
    using Cons.IH [OF num(2) room, of ?m] by blast+
  have "boundBy utf16 offset row pbs ?m (word_of_nat (offset + k + i + 1)) = paramValue utf16 row ((pb # pbs) ! i)"
    if i: "i < length (pb # pbs)" for i
  proof (cases i)
    case 0
    then show ?thesis using ih(2) [rule_format, of "offset + k + 1"] by simp
  next
    case (Suc l)
    then have e: "offset + k + i + 1 = offset + (k + 1) + l + 1" "l < length pbs" using i by simp_all
    show ?thesis unfolding e(1) using ih(1) [rule_format, OF e(2)] Suc by simp
  qed
  moreover have "boundBy utf16 offset row pbs ?m (word_of_nat n) = m (word_of_nat n)" if "n \<le> offset + k" for n
  proof -
    have "boundBy utf16 offset row pbs ?m (word_of_nat n) = ?m (word_of_nat n)" using ih(2) that by simp
    also have "\<dots> = m (word_of_nat n)" using far [OF that] by (rule fun_upd_other)
    finally show ?thesis .
  qed
  ultimately show ?case unfolding b by blast
qed

fun boundRows :: "(bytes \<Rightarrow> bytes) \<Rightarrow> nat \<Rightarrow> row list \<Rightarrow> param_binding list \<Rightarrow> (u16 \<Rightarrow> bound_value option) \<Rightarrow> u16 \<Rightarrow> bound_value option" where
  "boundRows utf16 offset [] pbs m = m"
| "boundRows utf16 offset (row # rows) pbs m = boundRows utf16 (offset + boundCount pbs) rows pbs (boundBy utf16 offset row pbs m)"

lemma boundRows_values:
  assumes "numbered 0 pbs" "offset + length rows * length pbs \<le> 65535"
  shows "(\<forall>j < length rows. \<forall>i < length pbs. boundRows utf16 offset rows pbs m (word_of_nat (offset + j * length pbs + i + 1)) =
      paramValue utf16 (rows ! j) (pbs ! i)) \<and>
    (\<forall>n \<le> offset. boundRows utf16 offset rows pbs m (word_of_nat n) = m (word_of_nat n))"
  using assms(2)
proof (induction rows arbitrary: offset m)
  case Nil
  then show ?case by simp
next
  case (Cons row rows)
  let ?p = "length pbs"
  let ?m = "boundBy utf16 offset row pbs m"
  have c: "boundCount pbs = ?p" by (rule numbered_count [OF assms(1)])
  have room: "offset + ?p + length rows * ?p \<le> 65535" using Cons.prems by simp
  have m: "\<forall>i < ?p. ?m (word_of_nat (offset + i + 1)) = paramValue utf16 row (pbs ! i)"
      "\<forall>n \<le> offset. ?m (word_of_nat n) = m (word_of_nat n)"
    using boundBy_values [OF assms(1), of offset utf16 row m] room by simp_all
  have ih: "\<forall>j < length rows. \<forall>i < ?p. boundRows utf16 (offset + ?p) rows pbs ?m (word_of_nat (offset + ?p + j * ?p + i + 1)) =
        paramValue utf16 (rows ! j) (pbs ! i)"
      "\<forall>n \<le> offset + ?p. boundRows utf16 (offset + ?p) rows pbs ?m (word_of_nat n) = ?m (word_of_nat n)"
    using Cons.IH [OF room, of ?m] by blast+
  have "boundRows utf16 (offset + ?p) rows pbs ?m (word_of_nat (offset + j * ?p + i + 1)) = paramValue utf16 ((row # rows) ! j) (pbs ! i)"
    if ji: "j < length (row # rows)" "i < ?p" for j i
  proof (cases j)
    case 0
    then show ?thesis using ih(2) [rule_format, of "offset + i + 1"] m(1) ji(2) by simp
  next
    case (Suc l)
    then have e: "offset + j * ?p + i + 1 = offset + ?p + l * ?p + i + 1" "l < length rows" using ji by simp_all
    show ?thesis unfolding e(1) using ih(1) [rule_format, OF e(2) ji(2)] Suc by simp
  qed
  then show ?case using ih(2) m(2) by (simp add: c)
qed

lemma bindRows_ok:
  assumes "driver_obeys drv" "qc_live k" "\<forall>row \<in> set rows. row_ok utf16 pbs row"
  shows "\<exists>k'. bindRows utf16 drv pbs offset rows k = Some k' \<and> qc_live k' \<and> qc_lastQuery k' = qc_lastQuery k \<and>
    effect s k' = (effect s k)\<lparr>st_bound := boundRows utf16 offset rows pbs (st_bound (effect s k))\<rparr>"
  using assms(2,3)
proof (induction rows arbitrary: k offset)
  case Nil
  then show ?case by simp
next
  case (Cons row rows)
  obtain k1 where k1: "bindParams utf16 drv offset row pbs k = Some k1" "qc_live k1" "qc_lastQuery k1 = qc_lastQuery k"
      "effect s k1 = (effect s k)\<lparr>st_bound := boundBy utf16 offset row pbs (st_bound (effect s k))\<rparr>"
    using bindParams_ok [OF assms(1) Cons.prems(1), of utf16 pbs row offset s] Cons.prems(2) by auto
  then show ?case using Cons.IH [OF k1(2)] Cons.prems(2) by simp
qed

section \<open>The batches\<close>

definition chunk :: "nat \<Rightarrow> 'a list \<Rightarrow> nat \<Rightarrow> 'a list" where
  "chunk n xs i = take n (drop (i * n) xs)"

lemma concat_chunks: "concat (map (chunk n xs) [0..<m]) = take (m * n) xs"
proof (induction m)
  case 0
  then show ?case by simp
next
  case (Suc m)
  then show ?case using take_add [of "m * n" n xs] by (simp add: chunk_def add.commute)
qed

lemma chunks_cover: "0 < n \<Longrightarrow> concat (map (chunk n xs) [0..<(length xs + n - 1) div n]) = xs"
proof -
  assume n: "0 < n"
  have "length xs \<le> (length xs + n - 1) div n * n"
    using n div_mult_mod_eq [of "length xs + n - 1" n] mod_less_divisor [OF n, of "length xs + n - 1"] by linarith
  then show ?thesis by (simp add: concat_chunks)
qed

lemma chunk_start: "0 < n \<Longrightarrow> i < (length xs + n - 1) div n \<Longrightarrow> i * n < length xs"
proof -
  assume n: "0 < n" and i: "i < (length xs + n - 1) div n"
  then have "(i + 1) * n \<le> length xs + n - 1" by (metis Suc_eq_plus1 Suc_leI div_times_less_eq_dividend le_trans mult_le_mono1)
  then show ?thesis using n by (simp add: add_mult_distrib)
qed

lemma chunk_full: "0 < n \<Longrightarrow> i + 1 < (length xs + n - 1) div n \<Longrightarrow> n \<le> length xs - i * n"
  using chunk_start [of n "i + 1" xs] by simp

text \<open>An execution that inserts the given rows: the query has a group of marks for each of them, and their values are bound in
  order. Parameters of an earlier, longer batch stay bound behind them, without a mark.\<close>

definition inserts :: "(bytes \<Rightarrow> bytes) \<Rightarrow> db_binding \<Rightarrow> row list \<Rightarrow> execution \<Rightarrow> bool" where
  "inserts utf16 b rows e \<longleftrightarrow>
     (case e of (q, bound, n) \<Rightarrow>
        createBatchedInsertQuery b (length rows) = Some q \<and> n = 1 \<and>
        (\<forall>j < length rows. \<forall>i < length (db_params b).
           bound (word_of_nat (j * length (db_params b) + i + 1)) = paramValue utf16 (rows ! j) (db_params b ! i)))"

definition inserting :: "statement \<Rightarrow> query_connection \<Rightarrow> bool" where
  "inserting s k \<longleftrightarrow> qc_live k \<and> st_prepared (effect s k) = qc_lastQuery k \<and> \<not> st_auto (effect s k) \<and> st_paramset (effect s k) = 1"

lemma insertBatch_ok:
  assumes "driver_obeys drv" "inserting s k" "\<forall>row \<in> set rows. row_ok utf16 (db_params b) row" "numbered 0 (db_params b)"
    and "length rows * length (db_params b) \<le> 65535" "createBatchedInsertQuery b (length rows) = Some q"
  shows "\<exists>k1 ok k2. bindRows utf16 drv (db_params b) 0 rows k = Some k1 \<and> execute drv q k1 = Some (ok, k2) \<and> qc_live k2 \<and>
    st_committed (effect s k2) = st_committed (effect s k) \<and>
    (ok \<longrightarrow> inserting s k2 \<and> (\<exists>e. inserts utf16 b rows e \<and> st_pending (effect s k2) = st_pending (effect s k) @ [e]))"
proof -
  let ?m = "boundRows utf16 0 rows (db_params b) (st_bound (effect s k))"
  obtain k1 where k1: "bindRows utf16 drv (db_params b) 0 rows k = Some k1" "qc_live k1" "qc_lastQuery k1 = qc_lastQuery k"
      "effect s k1 = (effect s k)\<lparr>st_bound := ?m\<rparr>"
    using bindRows_ok [OF assms(1) _ assms(3), of k 0 s] assms(2) by (auto simp: inserting_def)
  have m: "\<forall>j < length rows. \<forall>i < length (db_params b).
      ?m (word_of_nat (j * length (db_params b) + i + 1)) = paramValue utf16 (rows ! j) (db_params b ! i)"
    using boundRows_values [OF assms(4), of 0 rows utf16 "st_bound (effect s k)"] assms(5) by simp
  have s1: "st_prepared (effect s k1) = qc_lastQuery k1" "\<not> st_auto (effect s k1)" "st_paramset (effect s k1) = 1"
    using k1(3,4) assms(2) by (simp_all add: inserting_def)
  obtain ok k2 where k2: "execute drv q k1 = Some (ok, k2)" "qc_live k2"
      "if ok then qc_lastQuery k2 = q \<and> effect s k2 = (effect s k1)\<lparr>st_prepared := q,
         st_pending := st_pending (effect s k1) @ [(q, st_bound (effect s k1), st_paramset (effect s k1))]\<rparr>
       else \<exists>p. effect s k2 = prepareStep p (effect s k1)"
    using execute_ok [OF k1(2) s1(1,2)] by blast
  have e: "inserts utf16 b rows (q, ?m, 1)" using assms(6) m by (simp add: inserts_def)
  have bound: "st_bound (effect s k1) = ?m" "st_pending (effect s k1) = st_pending (effect s k)"
      "st_committed (effect s k1) = st_committed (effect s k)" using k1(4) by simp_all
  show ?thesis
  proof (cases ok)
    case True
    then have "inserting s k2" "st_committed (effect s k2) = st_committed (effect s k)"
        "st_pending (effect s k2) = st_pending (effect s k) @ [(q, ?m, 1)]"
      using k2(2,3) s1(2,3) bound by (simp_all add: inserting_def)
    then show ?thesis using k1(1) k2(1,2) e by blast
  next
    case False
    then have "st_committed (effect s k2) = st_committed (effect s k)" using k2(3) bound(3) by (auto simp: prepareStep_def)
    then show ?thesis using k1(1) k2(1,2) False by blast
  qed
qed

lemma insertBatches_ok:
  assumes drv: "driver_obeys drv" and rows: "\<forall>row \<in> set inputs. row_ok utf16 (db_params b) row" "numbered 0 (db_params b)"
    and n: "0 < n" "n * length (db_params b) \<le> 65535" "N = (length inputs + n - 1) div n"
    and fmt: "\<And>l. \<exists>q. createBatchedInsertQuery b l = Some q"
  shows "inserting s k \<Longrightarrow> (i < N \<Longrightarrow> createBatchedInsertQuery b n = Some query) \<Longrightarrow>
    \<exists>ok k'. insertBatches utf16 drv b inputs n [i..<N] query k = Some (ok, k') \<and>
      st_committed (effect s k') = st_committed (effect s k) \<and>
      (if ok then qc_live k' \<and> (\<exists>es. st_pending (effect s k') = st_pending (effect s k) @ es \<and>
         list_all2 (inserts utf16 b) (map (chunk n inputs) [i..<N]) es)
       else \<not> qc_live k' \<and> st_pending (effect s k') = [] \<and> st_bound (effect s k') = Map.empty)"
proof (induction "N - i" arbitrary: i k query)
  case 0
  then show ?case by (intro exI [of _ True]) (simp add: inserting_def)
next
  case (Suc l)
  then have i: "i < N" "[i..<N] = i # [i + 1..<N]" by (simp_all add: upt_conv_Cons)
  let ?rest = "length inputs - i * n"
  let ?c = "chunk n inputs i"
  obtain m q where q: "(if ?rest \<ge> n then Some (n, query)
       else do { query \<leftarrow> createBatchedInsertQuery b ?rest; Some (?rest, query) }) = Some (m, q)"
      "createBatchedInsertQuery b (length ?c) = Some q" "take m (drop (i * n) inputs) = ?c"
      "i + 1 < N \<Longrightarrow> createBatchedInsertQuery b n = Some q"
  proof (cases "?rest \<ge> n")
    case True
    then have len: "length ?c = n" by (simp add: chunk_def)
    show ?thesis
    proof (rule that [of n query])
      show "createBatchedInsertQuery b (length ?c) = Some query" unfolding len by (rule Suc.prems(2) [OF i(1)])
      show "createBatchedInsertQuery b n = Some query" by (rule Suc.prems(2) [OF i(1)])
    qed (use True in \<open>simp_all add: chunk_def\<close>)
  next
    case False
    then have "\<not> i + 1 < N" unfolding n(3) using chunk_full [OF n(1), of i inputs] by blast
    have len: "length ?c = ?rest" using False by (simp add: chunk_def)
    obtain q where q: "createBatchedInsertQuery b ?rest = Some q" using fmt by blast
    show ?thesis
    proof (rule that [of ?rest q])
      show "createBatchedInsertQuery b (length ?c) = Some q" unfolding len by (rule q)
      show "take ?rest (drop (i * n) inputs) = ?c" using False by (simp add: chunk_def)
      show "createBatchedInsertQuery b n = Some q" if "i + 1 < N" using that \<open>\<not> i + 1 < N\<close> by blast
    qed (use False q in simp)
  qed
  have c: "\<forall>row \<in> set ?c. row_ok utf16 (db_params b) row" using rows(1) unfolding chunk_def by (meson in_set_dropD in_set_takeD)
  have "length ?c \<le> n" by (simp add: chunk_def)
  then have small: "length ?c * length (db_params b) \<le> 65535" using n(2) mult_le_mono1 le_trans by blast
  obtain k1 ok k2 where r: "bindRows utf16 drv (db_params b) 0 ?c k = Some k1" "execute drv q k1 = Some (ok, k2)" "qc_live k2"
      "st_committed (effect s k2) = st_committed (effect s k)"
      "ok \<Longrightarrow> inserting s k2 \<and> (\<exists>e. inserts utf16 b ?c e \<and> st_pending (effect s k2) = st_pending (effect s k) @ [e])"
    using insertBatch_ok [OF drv Suc.prems(1) c rows(2) small q(2)] by blast
  show ?case
  proof (cases ok)
    case False
    obtain k3 where "releaseWithError drv k2 = Some k3" "\<not> qc_live k3"
        "effect s k3 = (effect s k2)\<lparr>st_bound := Map.empty, st_pending := []\<rparr>"
      using releaseWithError_ok [OF drv r(3), of s] by blast
    then show ?thesis using False r(1,2,4) q(1,3) by (intro exI [of _ False]) (simp add: i(2) Let_def)
  next
    case True
    then obtain e where e: "inserting s k2" "inserts utf16 b ?c e" "st_pending (effect s k2) = st_pending (effect s k) @ [e]"
      using r(5) by blast
    obtain k4 where k4: "closeCursor drv k2 = Some k4" "qc_live k4" "qc_lastQuery k4 = qc_lastQuery k2" "effect s k4 = effect s k2"
      using closeCursor_ok [OF drv r(3), of s] by blast
    have "inserting s k4" using e(1) k4 by (simp add: inserting_def)
    moreover have "l = N - (i + 1)" using Suc.hyps(2) by simp
    ultimately obtain ok' k5 where k5:
      "insertBatches utf16 drv b inputs n [i + 1..<N] q k4 = Some (ok', k5)" "st_committed (effect s k5) = st_committed (effect s k4)"
      "if ok' then qc_live k5 \<and> (\<exists>es. st_pending (effect s k5) = st_pending (effect s k4) @ es \<and>
         list_all2 (inserts utf16 b) (map (chunk n inputs) [i + 1..<N]) es)
       else \<not> qc_live k5 \<and> st_pending (effect s k5) = [] \<and> st_bound (effect s k5) = Map.empty"
      using Suc.hyps(1) [OF _ _ q(4)] by blast
    have run: "insertBatches utf16 drv b inputs n [i..<N] query k = Some (ok', k5)"
      unfolding i(2) using q(1,3) r(1,2) True k4(1) k5(1) by (simp add: Let_def)
    show ?thesis
    proof (cases ok')
      case True
      then obtain es where "st_pending (effect s k5) = st_pending (effect s k) @ e # es"
          "list_all2 (inserts utf16 b) (map (chunk n inputs) [i + 1..<N]) es"
        using k5(3) k4(4) e(3) by auto
      then show ?thesis using True run k5(2,3) k4(4) r(4) e(2) by (intro exI [of _ True]) (auto simp: i(2) intro!: exI [of _ "e # es"])
    next
      case False
      then show ?thesis using run k5(2,3) k4(4) r(4) by (intro exI [of _ False]) simp
    qed
  qed
qed


text \<open>Three rows with a number and a text each.\<close>

definition demo_insert :: db_binding where
  "demo_insert =
     \<lparr>db_enabled = True, db_query = ''insert into t values %s'',
      db_params =
        [\<lparr>pb_way = SQL_PARAM_INPUT, pb_index = 1, pb_cType = C_Other 4, pb_dbType = 4, pb_dbSize = 10, pb_precision = 0,
          pb_isStdString = DVT_Primitive, pb_bufferOffset = 0, pb_infoPtr = None\<rparr>,
         \<lparr>pb_way = SQL_PARAM_INPUT, pb_index = 2, pb_cType = SQL_C_WCHAR, pb_dbType = SQL_WVARCHAR, pb_dbSize = -1,
          pb_precision = 0, pb_isStdString = DVT_StdString, pb_bufferOffset = 8, pb_infoPtr = None\<rparr>],
      db_columns = [], db_mode = EM_Insert, db_errorCount = 0\<rparr>"

definition demo_row :: "u8 \<Rightarrow> row" where
  "demo_row x = [0 \<mapsto> Raw [x, 0, 0, 0], 8 \<mapsto> Text [65, x]]"


end
