(* ===== verification/DbTextSpec.thy ===== *)
theory DbTextSpec
  imports DbQuerySpec
begin

text \<open>
  \<open>DbQueryBinding::getString\<close> reads a column in parts: it asks for the size, and doubles its buffer as long as the driver says
  that there is more.
\<close>

text \<open>How ODBC documents \<open>SQLGetData\<close> for a text: a part that does not fit is cut in front of a terminator of two bytes,
  and the next call goes on behind it. \<open>ls\<close> are the buffer sizes of the calls before.\<close>

definition served :: "int list \<Rightarrow> nat" where
  "served ls = sum_list (map (\<lambda>l. nat l - 2) ls)"

definition textCalls :: "nat \<Rightarrow> int list \<Rightarrow> odbc_trace" where
  "textCalls col ls = map (\<lambda>l. (SQLGetData col SQL_C_WCHAR l, SQL_SUCCESS_WITH_INFO)) ls"

definition serves_text :: "odbc_driver \<Rightarrow> odbc_trace \<Rightarrow> nat \<Rightarrow> bytes \<Rightarrow> bool" where
  "serves_text drv t col txt \<longleftrightarrow>
     (\<forall>ls n. served ls \<le> length txt \<longrightarrow>
       (let r = drv (t @ textCalls col ls) (SQLGetData col SQL_C_WCHAR n); rest = drop (served ls) txt
        in rp_num r = int (length rest) \<and>
          (if length rest + 2 \<le> nat n then rp_ret r = SQL_SUCCESS \<and> rp_bytes r = rest @ [0, 0]
           else rp_ret r = SQL_SUCCESS_WITH_INFO \<and> rp_bytes r = take (nat n - 2) rest @ [0, 0])))"

definition serves_column :: "odbc_driver \<Rightarrow> odbc_trace \<Rightarrow> nat \<Rightarrow> bytes \<Rightarrow> bool" where
  "serves_column drv t col txt \<longleftrightarrow>
     (let r = drv t (SQLGetData col SQL_C_BINARY 0)
      in checkResult (rp_ret r) \<and> 0 < rp_num r \<and> serves_text drv (t @ [(SQLGetData col SQL_C_BINARY 0, rp_ret r)]) col txt)"

lemma serves_textD:
  assumes "serves_text drv t col txt" "served ls \<le> length txt" "rest = drop (served ls) txt"
    and "r = drv (t @ textCalls col ls) (SQLGetData col SQL_C_WCHAR n)"
  shows "rp_num r = int (length rest)"
    "length rest + 2 \<le> nat n \<Longrightarrow> rp_ret r = SQL_SUCCESS \<and> rp_bytes r = rest @ [0, 0]"
    "\<not> length rest + 2 \<le> nat n \<Longrightarrow> rp_ret r = SQL_SUCCESS_WITH_INFO \<and> rp_bytes r = take (nat n - 2) rest @ [0, 0]"
  using assms unfolding serves_text_def Let_def by (auto split: if_splits)

lemma take_storeAt: "storeAt n d b = Some b1 \<Longrightarrow> take (n + length d) b1 = take n b @ d \<and> length b1 = length b"
  by (auto simp: storeAt_def split: if_splits)

lemma resizeTo_short: "n \<le> length b \<Longrightarrow> resizeTo n b = take n b"
  by (simp add: resizeTo_def)

lemma getStringLoop_text:
  assumes serves: "serves_text drv t col txt"
  shows "qc_live k \<Longrightarrow> qc_trace k = t @ textCalls col ls \<Longrightarrow> served ls = n \<Longrightarrow> n \<le> length txt \<Longrightarrow>
    n + 4 \<le> length b \<Longrightarrow> take n b = take n txt \<Longrightarrow>
    \<exists>r n' b' k'. getStringLoop drv col n b k = Some (r, n', b', k') \<and> rp_ret r = SQL_SUCCESS \<and> 0 \<le> rp_num r \<and>
      n' + nat (rp_num r) = length txt \<and> resizeTo (length txt) b' = txt"
proof (induction "length txt - n" arbitrary: k ls n b rule: less_induct)
  case less
  let ?asked = "int (length b) - int n"
  let ?c = "SQLGetData col SQL_C_WCHAR ?asked"
  let ?r = "drv (qc_trace k) ?c"
  let ?rest = "drop n txt"
  let ?k = "k\<lparr>qc_trace := qc_trace k @ [(?c, rp_ret ?r)]\<rparr>"
  have s: "sql drv ?c k = Some (?r, ?k)" using less.prems(1) by (simp add: sql_def Let_def)
  have asked: "nat ?asked = length b - n" by simp
  have bound: "served ls \<le> length txt" "?rest = drop (served ls) txt" using less.prems(3,4) by simp_all
  have req: "?r = drv (t @ textCalls col ls) ?c" using less.prems(2) by simp
  have reply: "rp_num ?r = int (length ?rest)"
      "length ?rest + 2 \<le> length b - n \<Longrightarrow> rp_ret ?r = SQL_SUCCESS \<and> rp_bytes ?r = ?rest @ [0, 0]"
      "\<not> length ?rest + 2 \<le> length b - n \<Longrightarrow> rp_ret ?r = SQL_SUCCESS_WITH_INFO \<and> rp_bytes ?r = take (length b - n - 2) ?rest @ [0, 0]"
    using serves_textD [OF serves bound req] unfolding asked by blast+
  show ?case
  proof (cases "length ?rest + 2 \<le> length b - n")
    case True
    then have "n + length (rp_bytes ?r) \<le> length b" using reply(2) less.prems(5) by simp
    then obtain b1 where b1: "storeAt n (rp_bytes ?r) b = Some b1" by (simp add: storeAt_def)
    have "take (n + (length ?rest + 2)) b1 = take n txt @ ?rest @ [0, 0]"
      using take_storeAt [OF b1] reply(2) True less.prems(6) by simp
    then have "take (length txt) (take (n + (length ?rest + 2)) b1) = txt" using less.prems(4) by (simp add: min_def)
    then have "take (length txt) b1 = txt" using less.prems(4) by (simp add: min_def)
    then have "resizeTo (length txt) b1 = txt" using True take_storeAt [OF b1] less.prems(4,5) by (simp add: resizeTo_short)
    moreover have "getStringLoop drv col n b k = Some (?r, n, b1, ?k)"
      using s b1 reply(2) True by (subst getStringLoop.simps) simp
    ultimately show ?thesis using reply(1,2) True less.prems(4) by simp
  next
    case False
    let ?m = "length b - 2"
    have "n + length (rp_bytes ?r) \<le> length b" using reply(3) False less.prems(5) by simp
    then obtain b1 where b1: "storeAt n (rp_bytes ?r) b = Some b1" by (simp add: storeAt_def)
    let ?b = "resizeTo (2 * length b1) b1"
    have len: "length b1 = length b" using take_storeAt [OF b1] by simp
    have "take (n + (length b - n - 2) + 2) b1 = take n txt @ take (length b - n - 2) ?rest @ [0, 0]"
      using take_storeAt [OF b1] reply(3) False less.prems(5,6) by simp
    moreover have "n + (length b - n - 2) = ?m" using less.prems(5) by simp
    ultimately have "take ?m (take (?m + 2) b1) = take ?m (take n txt @ take (length b - n - 2) ?rest @ [0, 0])" by simp
    also have "\<dots> = take n txt @ take (length b - n - 2) ?rest" using False less.prems(4,5) by simp
    also have "\<dots> = take ?m txt" using take_add [of n "length b - n - 2" "txt"] less.prems(5) by simp
    finally have tk: "take ?m b1 = take ?m txt" by (simp add: min_def)
    have b2: "take ?m ?b = take ?m txt" using tk len by (simp add: resizeTo_def)
    have sv: "served (ls @ [?asked]) = ?m" using less.prems(3,5) by (simp add: served_def)
    have tr: "qc_trace ?k = t @ textCalls col (ls @ [?asked])" using less.prems(2) reply(3) False by (simp add: textCalls_def)
    have "length b \<le> length txt + 1" using False less.prems(4,5) by simp
    then have m: "length txt - ?m < length txt - n" "?m \<le> length txt" using less.prems(5) by linarith+
    have room: "?m + 4 \<le> length ?b" using len less.prems(5) by (simp add: resizeTo_def)
    have live: "qc_live ?k" using less.prems(1) by simp
    obtain r n' b' k' where
      "getStringLoop drv col ?m ?b ?k = Some (r, n', b', k')" "rp_ret r = SQL_SUCCESS" "0 \<le> rp_num r"
      "n' + nat (rp_num r) = length txt" "resizeTo (length txt) b' = txt"
      using less.hyps [OF m(1) live tr sv m(2) room b2] by blast
    moreover have "getStringLoop drv col n b k = getStringLoop drv col ?m ?b ?k"
      using s b1 reply(1,3) False len by (subst getStringLoop.simps) simp
    ultimately show ?thesis by auto
  qed
qed

text \<open>C38. A text of any length is read completely and without its terminators, however small the size the driver announces
  first: the buffer grows until the last part fits.\<close>

theorem column_text_complete:
  assumes "qc_live k" "serves_column drv (qc_trace k) col txt"
  shows "\<exists>k'. getString toLocal drv col k = Some (True, Some (if txt = [] then [] else toLocal txt), k')"
proof -
  let ?c = "SQLGetData col SQL_C_BINARY 0"
  let ?r = "drv (qc_trace k) ?c"
  let ?k = "k\<lparr>qc_trace := qc_trace k @ [(?c, rp_ret ?r)]\<rparr>"
  let ?b = "replicate (nat (rp_num ?r) * 2 + 4) 0 :: bytes"
  have s: "sql drv ?c k = Some (?r, ?k)" using assms(1) by (simp add: sql_def Let_def)
  have r: "checkResult (rp_ret ?r)" "0 < rp_num ?r" "serves_text drv (qc_trace ?k) col txt"
    using assms(2) by (simp_all add: serves_column_def Let_def)
  obtain x n' b' k' where x: "getStringLoop drv col 0 ?b ?k = Some (x, n', b', k')" "rp_ret x = SQL_SUCCESS" "0 \<le> rp_num x"
      "n' + nat (rp_num x) = length txt" "resizeTo (length txt) b' = txt"
    using getStringLoop_text [OF r(3), of ?k "[]" 0 ?b] assms(1) by (auto simp: textCalls_def served_def)
  have "getString toLocal drv col k = Some (True, Some (if txt = [] then [] else toLocal txt), k')"
  proof -
    have "(if n' + nat (rp_num x) \<noteq> 0 then toLocal (resizeTo (n' + nat (rp_num x)) b') else []) = (if txt = [] then [] else toLocal txt)"
      unfolding x(4) using x(5) by simp
    moreover have "\<not> rp_num x < 0" "rp_num x \<noteq> -1" using x(3) by simp_all
    ultimately show ?thesis using s r(1,2) x(1,2) by (simp only: getString_def Let_def bind.bind_lunit prod.case if_False) simp
  qed
  then show ?thesis by blast
qed

text \<open>A driver with one text that announces a size of 1.\<close>

definition text_driver :: "bytes \<Rightarrow> odbc_driver" where
  "text_driver txt t c =
     (let before = served (concat (map (\<lambda>e. case fst e of SQLGetData col SQL_C_WCHAR n \<Rightarrow> [n] | _ \<Rightarrow> []) t)); rest = drop before txt
      in case c of
        SQLGetData col SQL_C_WCHAR n \<Rightarrow>
          \<lparr>rp_ret = (if length rest + 2 \<le> nat n then SQL_SUCCESS else SQL_SUCCESS_WITH_INFO), rp_num = int (length rest),
           rp_name = [], rp_bytes = (if length rest + 2 \<le> nat n then rest else take (nat n - 2) rest) @ [0, 0]\<rparr>
      | _ \<Rightarrow> \<lparr>rp_ret = SQL_SUCCESS, rp_num = 1, rp_name = [], rp_bytes = []\<rparr>)"

lemma text_driver_serves: "serves_column (text_driver txt) [] 3 txt"
proof -
  have "concat (map (\<lambda>e. case fst e of SQLGetData col SQL_C_WCHAR n \<Rightarrow> [n] | _ \<Rightarrow> []) (textCalls 3 ls)) = ls" for ls
    by (induction ls) (simp_all add: textCalls_def)
  then show ?thesis by (simp add: serves_column_def serves_text_def text_driver_def Let_def)
qed

theorem column_text_complete_witness:
  "\<exists>k'. getString id (text_driver (replicate 1000 65)) 3 demo_connection = Some (True, Some (replicate 1000 65), k')"
proof -
  have "qc_live demo_connection" "qc_trace demo_connection = []" by (simp_all add: demo_connection_def)
  then show ?thesis
    using column_text_complete [of demo_connection "text_driver (replicate 1000 65)" 3 "replicate 1000 65" id]
      text_driver_serves [of "replicate 1000 65"] by simp
qed

end
