(* ===== verification/Config.thy ===== *)
theory Config
  imports PacketVersion Console
begin

text \<open>
  The configuration (librzu/src/lib/Config): named values of four types with defaults and change listeners, their
  setting from text, the command line, the configuration file with its inclusions, and the two console commands. Floating
  point numbers are a type of their own, with \<open>atof\<close> and \<open>%f\<close> as parameters; a listener is a function on the
  configuration. The file system is a map from names to contents.
\<close>

section \<open>Values\<close>

datatype 'f config_value = CBool bool | CInt int | CFloat 'f | CString string

text \<open>\<open>ce_stat\<close> tells a \<open>cstatval\<close>, which has no default and no listeners, from a \<open>cval\<close>.\<close>

record 'f config_entry =
  ce_value :: "'f config_value"
  ce_isDefault :: bool
  ce_hidden :: bool
  ce_stat :: bool
  ce_listeners :: "nat list"

type_synonym 'f config = "(string, 'f config_entry) umap"

type_synonym 'f listeners = "nat \<Rightarrow> 'f config \<Rightarrow> 'f config"

fun getTypeLetter :: "'f config_value \<Rightarrow> char" where
  "getTypeLetter (CBool b) = CHR ''B''"
| "getTypeLetter (CInt i) = CHR ''N''"
| "getTypeLetter (CFloat x) = CHR ''F''"
| "getTypeLetter (CString s) = CHR ''S''"

text \<open>The numerals of \<open>strtol(val, NULL, 0)\<close>.\<close>

definition digitOf :: "char \<Rightarrow> int option" where
  "digitOf c =
     (let n = of_char c :: int
      in if 48 \<le> n \<and> n \<le> 57 then Some (n - 48)
         else if 97 \<le> n \<and> n \<le> 122 then Some (n - 87)
         else if 65 \<le> n \<and> n \<le> 90 then Some (n - 55) else None)"

fun digitsIn :: "int \<Rightarrow> int \<Rightarrow> string \<Rightarrow> int" where
  "digitsIn base acc [] = acc"
| "digitsIn base acc (c # cs) =
     (case digitOf c of Some d \<Rightarrow> if d < base then digitsIn base (acc * base + d) cs else acc | None \<Rightarrow> acc)"

definition hexFollows :: "string \<Rightarrow> bool" where
  "hexFollows s = (case s of
     z # x # d # ds \<Rightarrow> z = CHR ''0'' \<and> (x = CHR ''x'' \<or> x = CHR ''X'') \<and> (case digitOf d of Some v \<Rightarrow> v < 16 | None \<Rightarrow> False)
   | _ \<Rightarrow> False)"

definition numeral0 :: "string \<Rightarrow> int" where
  "numeral0 s = (if hexFollows s then digitsIn 16 0 (drop 2 s) else if take 1 s = ''0'' then digitsIn 8 0 s else digitsIn 10 0 s)"

definition strtol0 :: "string \<Rightarrow> int" where
  "strtol0 s =
     (let t = dropWhile isSpace s;
          v = (case t of
                 c # cs \<Rightarrow> if c = CHR ''-'' then - numeral0 cs else if c = CHR ''+'' then numeral0 cs else numeral0 t
               | [] \<Rightarrow> 0)
      in max (- (2 ^ 63)) (min (2 ^ 63 - 1) v))"

text \<open>\<open>ConfigValue::setString(const char*)\<close>: the text is read as the type of the value.\<close>

fun parsedAs :: "(string \<Rightarrow> 'f) \<Rightarrow> 'f config_value \<Rightarrow> string \<Rightarrow> 'f config_value" where
  "parsedAs atof (CBool b) s = CBool (s = ''true'' \<or> s = ''1'')"
| "parsedAs atof (CInt i) s = CInt (sint (word_of_int (strtol0 s) :: u32))"
| "parsedAs atof (CFloat x) s = CFloat (atof s)"
| "parsedAs atof (CString t) s = CString s"

fun getString_value :: "('f \<Rightarrow> string) \<Rightarrow> 'f config_value \<Rightarrow> string" where
  "getString_value ftoa (CBool b) = (if b then ''true'' else ''false'')"
| "getString_value ftoa (CInt i) = signedPad 0 i"
| "getString_value ftoa (CFloat x) = ftoa x"
| "getString_value ftoa (CString s) = s"

fun sameType :: "'f config_value \<Rightarrow> 'f config_value \<Rightarrow> bool" where
  "sameType (CBool a) (CBool b) = True"
| "sameType (CInt a) (CInt b) = True"
| "sameType (CFloat a) (CFloat b) = True"
| "sameType (CString a) (CString b) = True"
| "sameType a b = False"

text \<open>\<open>cval::set\<close> and \<open>setDefault\<close>, with the listeners in their order. \<open>setDefault\<close> is called through a reference to a value of a
  certain type.\<close>

definition putEntry :: "string \<Rightarrow> 'f config_entry \<Rightarrow> 'f config \<Rightarrow> 'f config" where
  "putEntry key e c = um_insert key e (um_erase key c)"

definition dispatchValueChanged :: "'f listeners \<Rightarrow> nat list \<Rightarrow> 'f config \<Rightarrow> 'f config" where
  "dispatchValueChanged notify ls c = foldl (\<lambda>c l. notify l c) c ls"

definition setValue :: "'f listeners \<Rightarrow> string \<Rightarrow> 'f config_entry \<Rightarrow> 'f config_value \<Rightarrow> 'f config \<Rightarrow> 'f config" where
  "setValue notify key e v c =
     (if ce_stat e then putEntry key (e\<lparr>ce_value := v\<rparr>) c
      else dispatchValueChanged notify (ce_listeners e) (putEntry key (e\<lparr>ce_value := v, ce_isDefault := False\<rparr>) c))"

definition setDefault :: "'f listeners \<Rightarrow> string \<Rightarrow> 'f config_value \<Rightarrow> 'f config \<Rightarrow> 'f config" where
  "setDefault notify key v c =
     (case um_find c key of
        None \<Rightarrow> c
      | Some e \<Rightarrow>
          if sameType (ce_value e) v \<and> ce_isDefault e \<and> \<not> ce_stat e then dispatchValueChanged notify (ce_listeners e) (putEntry key (e\<lparr>ce_value := v\<rparr>) c)
          else c)"

definition setString :: "'f listeners \<Rightarrow> (string \<Rightarrow> 'f) \<Rightarrow> string \<Rightarrow> 'f config_entry \<Rightarrow> string \<Rightarrow> 'f config \<Rightarrow> 'f config" where
  "setString notify atof key e s c = setValue notify key e (parsedAs atof (ce_value e) s) c"

text \<open>\<open>createValue\<close>: a key that exists keeps its value.\<close>

definition createValue :: "string \<Rightarrow> 'f config_value \<Rightarrow> bool \<Rightarrow> 'f config \<Rightarrow> 'f config" where
  "createValue key v hidden c =
     um_insert key \<lparr>ce_value = v, ce_isDefault = True, ce_hidden = hidden, ce_stat = False, ce_listeners = []\<rparr> c"

section \<open>The command line\<close>

definition isAlpha :: "char \<Rightarrow> bool" where
  "isAlpha c = (let n = of_char c :: nat in 97 \<le> n \<and> n \<le> 122 \<or> 65 \<le> n \<and> n \<le> 90)"

definition isDelimiter :: "char \<Rightarrow> bool" where
  "isDelimiter c = (c = CHR '':'' \<or> c = CHR ''='')"

text \<open>A key, a delimiter and a value.\<close>

definition splitSetting :: "string \<Rightarrow> (string \<times> string) option" where
  "splitSetting s =
     (case dropWhile (\<lambda>c. \<not> isDelimiter c) s of [] \<Rightarrow> None | d # value \<Rightarrow> Some (takeWhile (\<lambda>c. \<not> isDelimiter c) s, value))"

definition parseArgument :: "string \<Rightarrow> (string \<times> string) option" where
  "parseArgument arg =
     (case arg of
        [] \<Rightarrow> None
      | c # cs \<Rightarrow>
          if c \<noteq> CHR ''/'' \<and> c \<noteq> CHR ''-'' then None
          else (let key = dropWhile (\<lambda>c. \<not> isAlpha c) arg in if key = [] then None else splitSetting key))"

text \<open>\<open>only\<close> is the configuration file key in the first pass.\<close>

fun parseCommandLine :: "'f listeners \<Rightarrow> (string \<Rightarrow> 'f) \<Rightarrow> string option \<Rightarrow> string list \<Rightarrow> 'f config \<Rightarrow> 'f config" where
  "parseCommandLine notify atof only [] c = c"
| "parseCommandLine notify atof only (arg # args) c =
     parseCommandLine notify atof only args
       (case parseArgument arg of
          None \<Rightarrow> c
        | Some (key, value) \<Rightarrow>
            if only \<noteq> None \<and> only \<noteq> Some key then c
            else (case um_find c key of None \<Rightarrow> c | Some e \<Rightarrow> setString notify atof key e value c))"

section \<open>The configuration file\<close>

definition parseLine :: "string \<Rightarrow> (string \<times> string) option" where
  "parseLine line =
     (let key = dropWhile isSpace (cstr line)
      in if key = [] \<or> hd key = CHR ''#'' then None
         else (let key = rev (dropWhile isSpace (rev key)) in if length key = 1 then None else splitSetting key))"

text \<open>\<open>fgets\<close> with a buffer of 1024 bytes.\<close>

function configFileLines :: "string \<Rightarrow> string list" where
  "configFileLines content =
     (if content = [] then []
      else (let line = take 1023 (takeWhile (\<lambda>c. c \<noteq> LF) content @ [LF]);
                line = take (length line) content
            in line # configFileLines (drop (length line) content)))"
  by auto
termination by (relation "measure length") (auto simp: min_def)

declare configFileLines.simps [simp del]

text \<open>The directory of a file name, with its separator.\<close>

definition directoryOf :: "string \<Rightarrow> string" where
  "directoryOf filename = rev (dropWhile (\<lambda>c. c \<noteq> CHR ''/'' \<and> c \<noteq> CHR 0x5C) (rev filename))"

definition isAbsolute :: "string \<Rightarrow> bool" where
  "isAbsolute dir = (take 1 dir = ''/'')"

definition fileToInclude :: "string \<Rightarrow> string \<Rightarrow> string" where
  "fileToInclude filename value = (if isAbsolute value then value else directoryOf filename @ value)"

text \<open>A value that starts with a dollar sign names another value.\<close>

definition substitute :: "('f \<Rightarrow> string) \<Rightarrow> 'f config \<Rightarrow> string \<Rightarrow> string" where
  "substitute ftoa c value =
     (if take 1 value = ''$'' then
        (case um_find c (drop 1 value) of None \<Rightarrow> value | Some e \<Rightarrow> getString_value ftoa (ce_value e))
      else value)"

definition configLine ::
    "'f listeners \<Rightarrow> (string \<Rightarrow> 'f) \<Rightarrow> ('f \<Rightarrow> string) \<Rightarrow> (string \<Rightarrow> 'f config \<Rightarrow> 'f config) \<Rightarrow> string \<Rightarrow> string \<Rightarrow> 'f config \<Rightarrow> 'f config" where
  "configLine notify atof ftoa inclusion filename line c =
     (case parseLine line of
        None \<Rightarrow> c
      | Some (key, value) \<Rightarrow>
          (let value = substitute ftoa c value
           in if take 1 key = ''%'' then
                (if drop 1 key = ''include'' then
                   (let name = fileToInclude filename value in if name \<noteq> [] then inclusion name c else c)
                 else c)
              else if take 1 key = ''!'' then createValue (drop 1 key) (CString value) False c
              else (case um_find c key of None \<Rightarrow> c | Some e \<Rightarrow> setString notify atof key e (cstr value) c)))"

text \<open>\<open>levels\<close> is how many more inclusions may be nested; \<open>readFile\<close> of the program starts at depth 0 and stops above 10.\<close>

primrec readFile ::
    "'f listeners \<Rightarrow> (string \<Rightarrow> 'f) \<Rightarrow> ('f \<Rightarrow> string) \<Rightarrow> (string \<Rightarrow> string option) \<Rightarrow> nat \<Rightarrow> string \<Rightarrow> 'f config \<Rightarrow> bool \<times> 'f config" where
  "readFile notify atof ftoa files 0 filename c = (False, c)"
| "readFile notify atof ftoa files (Suc levels) filename c =
     (case files filename of
        None \<Rightarrow> (False, c)
      | Some content \<Rightarrow>
          (True, foldl (\<lambda>c line. configLine notify atof ftoa (\<lambda>name c. snd (readFile notify atof ftoa files levels name c)) filename line c)
             c (configFileLines content)))"

definition MAX_FILE_LEVELS :: nat where "MAX_FILE_LEVELS = 11"

abbreviation "CONFIG_FILE_KEY \<equiv> ''configfile''"

text \<open>\<open>ConfigInfo::init\<close>, after the values have been registered.\<close>

definition initConfig ::
    "'f listeners \<Rightarrow> (string \<Rightarrow> 'f) \<Rightarrow> ('f \<Rightarrow> string) \<Rightarrow> (string \<Rightarrow> string option) \<Rightarrow> string list \<Rightarrow> 'f config \<Rightarrow> 'f config option" where
  "initConfig notify atof ftoa files args c = do {
     let c = parseCommandLine notify atof (Some CONFIG_FILE_KEY) args c;
     e \<leftarrow> um_find c CONFIG_FILE_KEY;
     filename \<leftarrow> (case ce_value e of CString s \<Rightarrow> Some (cstr s) | _ \<Rightarrow> None);
     let c = snd (readFile notify atof ftoa files MAX_FILE_LEVELS filename c);
     Some (parseCommandLine notify atof None args c) }"

section \<open>The console commands\<close>

definition strLess :: "string \<Rightarrow> string \<Rightarrow> bool" where
  "strLess a b = ord_class.lexordp (map of_char a :: nat list) (map of_char b)"

fun insertOrdered :: "string \<times> 'a \<Rightarrow> (string \<times> 'a) list \<Rightarrow> (string \<times> 'a) list" where
  "insertOrdered e [] = [e]"
| "insertOrdered e (x # xs) = (if strLess (fst x) (fst e) then x # insertOrdered e xs else e # x # xs)"

definition configText :: "('f \<Rightarrow> string) \<Rightarrow> string \<times> 'f config_entry \<Rightarrow> string" where
  "configText ftoa kv =
     (case kv of (key, e) \<Rightarrow>
        [getTypeLetter (ce_value e), if ce_isDefault e \<and> \<not> ce_stat e then CHR ''*'' else CHR '' ''] @ cstr key @ '':'' @
        cstr (getString_value ftoa (ce_value e)) @ [CR, LF])"

fun matching :: "string \<Rightarrow> 'f config \<Rightarrow> 'f config option" where
  "matching pattern [] = Some []"
| "matching pattern (kv # kvs) = do {
     found \<leftarrow> stringWildcardMatch (cstr (fst kv)) pattern;
     rest \<leftarrow> matching pattern kvs;
     Some (if found then insertOrdered kv rest else rest) }"

definition commandGetEnv :: "('f \<Rightarrow> string) \<Rightarrow> string list \<Rightarrow> 'f config \<Rightarrow> string list option" where
  "commandGetEnv ftoa args c = do {
     let pattern = (case args of a # as \<Rightarrow> cstr a | [] \<Rightarrow> ''*'');
     ordered \<leftarrow> matching pattern c;
     Some (if ordered \<noteq> [] then map (configText ftoa) ordered else [''No config matching pattern '' @ pattern @ [LF]]) }"

definition commandSetEnv ::
    "'f listeners \<Rightarrow> (string \<Rightarrow> 'f) \<Rightarrow> ('f \<Rightarrow> string) \<Rightarrow> string list \<Rightarrow> 'f config \<Rightarrow> (string list \<times> 'f config) option" where
  "commandSetEnv notify atof ftoa args c =
     (case args of
        variableName # value # rest \<Rightarrow>
          (case um_find c variableName of
             None \<Rightarrow> Some ([''Unknown variable name: '' @ cstr variableName @ [CR, LF]], c)
           | Some e \<Rightarrow>
               (let c = setString notify atof variableName e (cstr value) c
                in map_option (\<lambda>out. (out, c)) (commandGetEnv ftoa args c)))
      | _ \<Rightarrow> None)"

text \<open>\<open>ConfigInfo::dump\<close>: the lines of the log, without their line ends.\<close>

definition dumpLine :: "('f \<Rightarrow> string) \<Rightarrow> string \<times> 'f config_entry \<Rightarrow> string" where
  "dumpLine ftoa kv =
     (case kv of (key, e) \<Rightarrow>
        [getTypeLetter (ce_value e), if ce_isDefault e \<and> \<not> ce_stat e then CHR ''*'' else CHR '' ''] @ cstr key @ '':'' @
        cstr (getString_value ftoa (ce_value e)))"

definition showHidden :: "'f config \<Rightarrow> bool" where
  "showHidden c = (case um_find c ''core.config.showhidden'' of Some e \<Rightarrow> ce_value e = CBool True | None \<Rightarrow> False)"

definition dumpConfig :: "('f \<Rightarrow> string) \<Rightarrow> bool \<Rightarrow> 'f config \<Rightarrow> string list" where
  "dumpConfig ftoa showDefault c =
     ''Config dump:'' #
     map (dumpLine ftoa)
       (filter (\<lambda>kv. (\<not> ce_hidden (snd kv) \<or> showHidden c) \<and> (showDefault \<or> \<not> (ce_isDefault (snd kv) \<and> \<not> ce_stat (snd kv))))
         (foldr insertOrdered c []))"

section \<open>The core values\<close>

text \<open>\<open>GlobalCoreConfig\<close>: the console log level follows the log level, the file names follow the application name, as
  long as they have not been set; the two paths are made absolute, which keeps them default. \<open>app\<close> is the directory of the program. The
  listener of the stream cipher prepares the cipher and changes no value.\<close>

definition textOf :: "'f config \<Rightarrow> string \<Rightarrow> string" where
  "textOf c key = (case um_find c key of Some e \<Rightarrow> (case ce_value e of CString s \<Rightarrow> s | _ \<Rightarrow> []) | None \<Rightarrow> [])"

definition getFullPath :: "string \<Rightarrow> string \<Rightarrow> string" where
  "getFullPath app path =
     (if take 2 path = ''./'' \<or> take 2 path = [CHR ''.'', CHR 0x5C] then path
      else if isAbsolute path then path else app @ ''/'' @ path)"

definition autoSetAbsoluteDir :: "string \<Rightarrow> string \<Rightarrow> 'f config \<Rightarrow> 'f config" where
  "autoSetAbsoluteDir app key c =
     (case um_find c key of
        None \<Rightarrow> c
      | Some e \<Rightarrow>
          (case ce_value e of
             CString dir \<Rightarrow> if isAbsolute dir then c else putEntry key (e\<lparr>ce_value := CString (getFullPath app dir)\<rparr>) c
           | _ \<Rightarrow> c))"

definition updateConsoleLevel :: "'f listeners \<Rightarrow> 'f config \<Rightarrow> 'f config" where
  "updateConsoleLevel notify c = setDefault notify ''core.log.consolelevel'' (CString (textOf c ''core.log.level'')) c"

definition updateOtherFile :: "'f listeners \<Rightarrow> 'f config \<Rightarrow> 'f config" where
  "updateOtherFile notify c =
     (let c = setDefault notify CONFIG_FILE_KEY (CString (textOf c ''core.appname'' @ ''.opt'')) c
      in setDefault notify ''core.log.file'' (CString (textOf c ''core.appname'' @ ''.log'')) c)"

text \<open>The listeners by number. Those that set defaults trigger the ones of the paths, which trigger none.\<close>

definition pathListeners :: "string \<Rightarrow> 'f listeners" where
  "pathListeners app l c =
     (if l = 2 then autoSetAbsoluteDir app CONFIG_FILE_KEY c else if l = 3 then autoSetAbsoluteDir app ''core.log.dir'' c else c)"

definition coreListeners :: "string \<Rightarrow> 'f listeners" where
  "coreListeners app l c =
     (if l = 0 then updateConsoleLevel (pathListeners app) c
      else if l = 1 then updateOtherFile (pathListeners app) c else pathListeners app l c)"

text \<open>The values in the order of their creation, with their listeners.\<close>

definition coreEntry :: "'f config_value \<Rightarrow> bool \<Rightarrow> bool \<Rightarrow> nat list \<Rightarrow> 'f config_entry" where
  "coreEntry v hidden stat ls = \<lparr>ce_value = v, ce_isDefault = True, ce_hidden = hidden, ce_stat = stat, ce_listeners = ls\<rparr>"

definition listenerConfig :: "string \<Rightarrow> string \<Rightarrow> int \<Rightarrow> bool \<Rightarrow> int \<Rightarrow> (string \<times> 'f config_entry) list" where
  "listenerConfig prefix ip port autoStart idleTimeout =
     [(prefix @ ''.ip'', coreEntry (CString ip) False False []), (prefix @ ''.port'', coreEntry (CInt port) False False []),
      (prefix @ ''.idletimeout'', coreEntry (CInt idleTimeout) False False []),
      (prefix @ ''.autostart'', coreEntry (CBool autoStart) False False [])]"

definition coreValues :: "string \<Rightarrow> string \<Rightarrow> string \<Rightarrow> string \<Rightarrow> string \<Rightarrow> string \<Rightarrow> (string \<times> 'f config_entry) list" where
  "coreValues app name authVersion gameVersion bora version =
     [(''core.appname'', coreEntry (CString name) False False [1]),
      (CONFIG_FILE_KEY, coreEntry (CString (getFullPath app (name @ ''.opt''))) False False [2]),
      (''core.usetcpnodelay'', coreEntry (CBool False) False False []),
      (''core.config.showhidden'', coreEntry (CBool False) False False []),
      (''core.encoding'', coreEntry (CString ''CP1252'') False False []),
      (''core.stream_cipher'', coreEntry (CString (''}h79q~B%al;k'' @ [CHR 0x27] @ ''y $E'')) True False [4]),
      (''client.auth_version'', coreEntry (CString authVersion) False False []),
      (''client.game_version'', coreEntry (CString gameVersion) False False []),
      (''client.bora_command'', coreEntry (CString bora) False False [])] @
     listenerConfig ''admin.console'' ''127.0.0.1'' 4501 True 0 @
     [(''admin.dump_mode'', coreEntry (CInt 0) False False []),
      (''core.log.enable'', coreEntry (CBool True) False False []),
      (''core.log.dir'', coreEntry (CString (getFullPath app ''log'')) False False [3]),
      (''core.log.file'', coreEntry (CString (name @ ''.log'')) False False []),
      (''core.log.level'', coreEntry (CString ''info'') False False [0]),
      (''core.log.consolelevel'', coreEntry (CString ''info'') False False []),
      (''core.log.maxqueuesize'', coreEntry (CInt 10000) False False []),
      (''core.log.dump_packet_errors'', coreEntry (CBool False) False False []),
      (''trafficdump.dump_raw'', coreEntry (CBool False) False False []),
      (''trafficdump.dump_json'', coreEntry (CBool True) False False []),
      (''stats.connections'', coreEntry (CInt 0) False True []),
      (''stats.disconnections'', coreEntry (CInt 0) False True []),
      (''core.version'', coreEntry (CString version) False False [])]"

definition coreConfig :: "string \<Rightarrow> string \<Rightarrow> string \<Rightarrow> string \<Rightarrow> string \<Rightarrow> string \<Rightarrow> 'f config" where
  "coreConfig app name authVersion gameVersion bora version =
     foldl (\<lambda>c kv. um_insert (fst kv) (snd kv) c) [] (coreValues app name authVersion gameVersion bora version)"

section \<open>Lemmas\<close>

lemma find_put: "um_find (putEntry key e c) k = (if k = key then Some e else um_find c k)"
  by (simp add: putEntry_def um.find_insert um.find_erase)

text \<open>What no operation does: take a key away, or change the type of its value or its kind.\<close>

lemma sameType_refl [simp]: "sameType v v"
  by (cases v) simp_all

lemma sameType_trans: "sameType a b \<Longrightarrow> sameType b c \<Longrightarrow> sameType a c"
  by (cases a; cases b; cases c) simp_all

lemma parsedAs_type: "sameType v (parsedAs atof v s)"
  by (cases v) simp_all

lemma parsedAs_cong: "sameType v w \<Longrightarrow> parsedAs atof v s = parsedAs atof w s"
  by (cases v; cases w) simp_all

definition keeps_types :: "'f config \<Rightarrow> 'f config \<Rightarrow> bool" where
  "keeps_types c c' \<longleftrightarrow> (\<forall>k e. um_find c k = Some e \<longrightarrow>
     (\<exists>e'. um_find c' k = Some e' \<and> sameType (ce_value e) (ce_value e') \<and> ce_stat e' = ce_stat e))"

lemma keeps_types_refl: "keeps_types c c"
  by (simp add: keeps_types_def)

lemma keeps_types_trans: "keeps_types a b \<Longrightarrow> keeps_types b c \<Longrightarrow> keeps_types a c"
proof -
  assume ab: "keeps_types a b" and bc: "keeps_types b c"
  show "keeps_types a c"
    unfolding keeps_types_def
  proof (intro allI impI)
    fix k e assume "um_find a k = Some e"
    then obtain e1 where e1: "um_find b k = Some e1" "sameType (ce_value e) (ce_value e1)" "ce_stat e1 = ce_stat e"
      using ab unfolding keeps_types_def by blast
    then obtain e2 where "um_find c k = Some e2" "sameType (ce_value e1) (ce_value e2)" "ce_stat e2 = ce_stat e1"
      using bc unfolding keeps_types_def by blast
    then show "\<exists>e'. um_find c k = Some e' \<and> sameType (ce_value e) (ce_value e') \<and> ce_stat e' = ce_stat e"
      using e1(2,3) sameType_trans by auto
  qed
qed

lemma keeps_types_foldl: "(\<And>c x. keeps_types c (f c x)) \<Longrightarrow> keeps_types c (foldl f c xs)"
  by (induction xs arbitrary: c) (auto simp: keeps_types_refl intro: keeps_types_trans)

text \<open>Listeners that only change values, and leave a value alone that has been set.\<close>

definition orderly :: "'f listeners \<Rightarrow> bool" where
  "orderly notify \<longleftrightarrow> (\<forall>l c. keeps_types c (notify l c))"

definition leaves_set :: "'f listeners \<Rightarrow> string \<Rightarrow> bool" where
  "leaves_set notify key \<longleftrightarrow>
     (\<forall>l c e. um_find c key = Some e \<longrightarrow> ce_stat e \<or> \<not> ce_isDefault e \<longrightarrow> um_find (notify l c) key = Some e)"

lemma put_types: "um_find c key = Some e \<Longrightarrow> sameType (ce_value e) (ce_value e') \<Longrightarrow> ce_stat e' = ce_stat e \<Longrightarrow>
    keeps_types c (putEntry key e' c)"
  by (simp add: keeps_types_def find_put)

lemma dispatch_types: "orderly notify \<Longrightarrow> keeps_types c (dispatchValueChanged notify ls c)"
  unfolding dispatchValueChanged_def by (rule keeps_types_foldl) (simp add: orderly_def)

lemma setValue_types:
  assumes "orderly notify" "um_find c key = Some e" "sameType (ce_value e) v"
  shows "keeps_types c (setValue notify key e v c)"
  using assms by (auto simp: setValue_def intro!: put_types keeps_types_trans [OF put_types dispatch_types])

lemma setString_types: "orderly notify \<Longrightarrow> um_find c key = Some e \<Longrightarrow> keeps_types c (setString notify atof key e s c)"
  unfolding setString_def by (rule setValue_types) (simp_all add: parsedAs_type)

lemma setDefault_types:
  assumes "orderly notify"
  shows "keeps_types c (setDefault notify key v c)"
  using assms by (auto simp: setDefault_def keeps_types_refl split: option.splits intro!: keeps_types_trans [OF put_types dispatch_types])

lemma createValue_types: "keeps_types c (createValue key v hidden c)"
  by (auto simp: keeps_types_def createValue_def um.find_insert)

lemma parseCommandLine_types: "orderly notify \<Longrightarrow> keeps_types c (parseCommandLine notify atof only args c)"
proof (induction args arbitrary: c)
  case Nil
  then show ?case by (simp add: keeps_types_refl)
next
  case (Cons arg args)
  have "keeps_types c (case parseArgument arg of None \<Rightarrow> c | Some (key, value) \<Rightarrow>
      if only \<noteq> None \<and> only \<noteq> Some key then c
      else (case um_find c key of None \<Rightarrow> c | Some e \<Rightarrow> setString notify atof key e value c))" (is "keeps_types c ?c")
    using Cons.prems by (auto simp: keeps_types_refl split: option.splits intro: setString_types)
  then show ?case using keeps_types_trans [OF _ Cons.IH [OF Cons.prems, of ?c]] by simp
qed

lemma configLine_types:
  assumes "orderly notify" "\<And>name c. keeps_types c (inclusion name c)"
  shows "keeps_types c (configLine notify atof ftoa inclusion filename line c)"
  using assms
  by (auto simp: configLine_def keeps_types_refl createValue_types Let_def split: option.splits intro: setString_types)

lemma readFile_types: "orderly notify \<Longrightarrow> keeps_types c (snd (readFile notify atof ftoa files levels filename c))"
proof (induction levels arbitrary: filename c)
  case 0
  then show ?case by (simp add: keeps_types_refl)
next
  case (Suc levels)
  then show ?case by (auto simp: keeps_types_refl split: option.splits intro!: keeps_types_foldl configLine_types)
qed

section \<open>The command line\<close>

text \<open>The value the command line gives to a key: the last one.\<close>

fun lastSetting :: "string list \<Rightarrow> string \<Rightarrow> string option" where
  "lastSetting [] key = None"
| "lastSetting (arg # args) key =
     (case lastSetting args key of
        Some s \<Rightarrow> Some s
      | None \<Rightarrow> (case parseArgument arg of Some (k, s) \<Rightarrow> if k = key then Some s else None | None \<Rightarrow> None))"

abbreviation isSet :: "'f config_entry \<Rightarrow> bool" where "isSet e \<equiv> ce_stat e \<or> \<not> ce_isDefault e"

lemma dispatch_leaves:
  "leaves_set notify key \<Longrightarrow> um_find c key = Some e \<Longrightarrow> isSet e \<Longrightarrow> um_find (dispatchValueChanged notify ls c) key = Some e"
  unfolding dispatchValueChanged_def by (induction ls arbitrary: c) (auto simp: leaves_set_def)

lemma setString_sets:
  "leaves_set notify key \<Longrightarrow> um_find c key = Some e \<Longrightarrow>
    \<exists>e'. um_find (setString notify atof key e s c) key = Some e' \<and> ce_value e' = parsedAs atof (ce_value e) s \<and> isSet e'"
  by (auto simp: setString_def setValue_def find_put dispatch_leaves)

lemma setString_other:
  "leaves_set notify key \<Longrightarrow> um_find c key = Some e \<Longrightarrow> isSet e \<Longrightarrow> k \<noteq> key \<Longrightarrow>
    um_find (setString notify atof k ek s c) key = Some e"
  by (auto simp: setString_def setValue_def find_put dispatch_leaves)

definition commandStep :: "'f listeners \<Rightarrow> (string \<Rightarrow> 'f) \<Rightarrow> string \<Rightarrow> 'f config \<Rightarrow> 'f config" where
  "commandStep notify atof arg c = parseCommandLine notify atof None [arg] c"

lemma parseCommandLine_Cons:
  "parseCommandLine notify atof None (arg # args) c = parseCommandLine notify atof None args (commandStep notify atof arg c)"
  by (simp add: commandStep_def)

lemma commandStep_types: "orderly notify \<Longrightarrow> keeps_types c (commandStep notify atof arg c)"
  unfolding commandStep_def by (rule parseCommandLine_types)

lemma commandStep_other:
  assumes "leaves_set notify key" "um_find c key = Some e" "isSet e" "\<And>k s. parseArgument arg = Some (k, s) \<Longrightarrow> k \<noteq> key"
  shows "um_find (commandStep notify atof arg c) key = Some e"
  using assms by (auto simp: commandStep_def setString_other split: option.splits)

lemma commandStep_sets:
  assumes "leaves_set notify key" "um_find c key = Some e" "parseArgument arg = Some (key, s)"
  shows "\<exists>e'. um_find (commandStep notify atof arg c) key = Some e' \<and> ce_value e' = parsedAs atof (ce_value e) s \<and> isSet e'"
  using assms setString_sets [OF assms(1,2), of atof s] by (simp add: commandStep_def)

lemma commandLine_leaves:
  "leaves_set notify key \<Longrightarrow> um_find c key = Some e \<Longrightarrow> isSet e \<Longrightarrow> lastSetting args key = None \<Longrightarrow>
    um_find (parseCommandLine notify atof None args c) key = Some e"
proof (induction args arbitrary: c)
  case Nil
  then show ?case by simp
next
  case (Cons arg args)
  have no: "lastSetting args key = None" "\<And>k s. parseArgument arg = Some (k, s) \<Longrightarrow> k \<noteq> key"
    using Cons.prems(4) by (auto split: option.splits if_splits)
  then show ?case
    unfolding parseCommandLine_Cons by (intro Cons.IH Cons.prems(1,3) commandStep_other Cons.prems(2)) auto
qed

lemma commandLine_sets:
  assumes "orderly notify" "leaves_set notify key"
  shows "um_find c key = Some e \<Longrightarrow> lastSetting args key = Some s \<Longrightarrow>
    \<exists>e'. um_find (parseCommandLine notify atof None args c) key = Some e' \<and> ce_value e' = parsedAs atof (ce_value e) s \<and> isSet e'"
proof (induction args arbitrary: c e)
  case Nil
  then show ?case by simp
next
  case (Cons arg args)
  show ?case
  proof (cases "lastSetting args key")
    case (Some s')
    then have s: "lastSetting args key = Some s" using Cons.prems(2) by simp
    obtain e1 where e1: "um_find (commandStep notify atof arg c) key = Some e1" "sameType (ce_value e) (ce_value e1)"
      using commandStep_types [OF assms(1), of c atof arg] Cons.prems(1) unfolding keeps_types_def by blast
    from Cons.IH [OF e1(1) s] show ?thesis unfolding parseCommandLine_Cons parsedAs_cong [OF e1(2)] .
  next
    case None
    then have "parseArgument arg = Some (key, s)" using Cons.prems(2) by (auto split: option.splits if_splits)
    from commandStep_sets [OF assms(2) Cons.prems(1) this]
    obtain e1 where "um_find (commandStep notify atof arg c) key = Some e1" "ce_value e1 = parsedAs atof (ce_value e) s" "isSet e1"
      by blast
    then show ?thesis unfolding parseCommandLine_Cons using commandLine_leaves [OF assms(2) _ _ None] by blast
  qed
qed

text \<open>C39. The command line wins: whatever the configuration files hold, include or create, initialisation ends, and a key the
  command line sets has the last value given there, read as the type the key was registered with. No key disappears or
  changes its type, so that no later use of a value aborts the program.\<close>

theorem command_line_wins:
  assumes "orderly notify" "um_find c CONFIG_FILE_KEY = Some ef" "ce_value ef = CString f"
  shows "\<exists>c'. initConfig notify atof ftoa files args c = Some c' \<and> keeps_types c c' \<and>
    (\<forall>key e s. leaves_set notify key \<longrightarrow> um_find c key = Some e \<longrightarrow> lastSetting args key = Some s \<longrightarrow>
      (\<exists>e'. um_find c' key = Some e' \<and> ce_value e' = parsedAs atof (ce_value e) s \<and> isSet e'))"
proof -
  let ?c1 = "parseCommandLine notify atof (Some CONFIG_FILE_KEY) args c"
  have k1: "keeps_types c ?c1" by (rule parseCommandLine_types [OF assms(1)])
  then obtain e1 where e1: "um_find ?c1 CONFIG_FILE_KEY = Some e1" "sameType (CString f) (ce_value e1)"
    using assms(2,3) unfolding keeps_types_def by metis
  then obtain g where g: "ce_value e1 = CString g" by (cases "ce_value e1") simp_all
  let ?c2 = "snd (readFile notify atof ftoa files MAX_FILE_LEVELS (cstr g) ?c1)"
  let ?c3 = "parseCommandLine notify atof None args ?c2"
  have i: "initConfig notify atof ftoa files args c = Some ?c3"
    using e1(1) g by (simp add: initConfig_def Let_def)
  have k2: "keeps_types c ?c2" using keeps_types_trans [OF k1 readFile_types [OF assms(1)]] .
  have "\<exists>e'. um_find ?c3 key = Some e' \<and> ce_value e' = parsedAs atof (ce_value e) s \<and> isSet e'"
    if a: "leaves_set notify key" "um_find c key = Some e" "lastSetting args key = Some s" for key e s
  proof -
    obtain e2 where e2: "um_find ?c2 key = Some e2" "sameType (ce_value e) (ce_value e2)"
      using k2 a(2) unfolding keeps_types_def by blast
    show ?thesis using commandLine_sets [OF assms(1) a(1) e2(1) a(3)] unfolding parsedAs_cong [OF e2(2)] .
  qed
  moreover have "keeps_types c ?c3" using keeps_types_trans [OF k2 parseCommandLine_types [OF assms(1)]] .
  ultimately show ?thesis using i by blast
qed

text \<open>The listeners of the core values are orderly, and leave every set value alone but the paths.\<close>

lemma autoSet_types: "keeps_types c (autoSetAbsoluteDir app key c)"
  by (auto simp: autoSetAbsoluteDir_def keeps_types_refl split: option.splits config_value.splits intro!: put_types)

lemma pathListeners_types: "keeps_types c (pathListeners app l c)"
  by (simp add: pathListeners_def autoSet_types keeps_types_refl)

lemma pathListeners_orderly: "orderly (pathListeners app)"
  by (simp add: orderly_def pathListeners_types)

lemma coreListeners_orderly: "orderly (coreListeners app :: 'f listeners)"
proof -
  have d: "keeps_types c (setDefault (pathListeners app) key v c)" for c :: "'f config" and key v
    by (rule setDefault_types [OF pathListeners_orderly])
  have "keeps_types c (coreListeners app l c)" for l and c :: "'f config"
  proof (cases "l = 0 \<or> l = 1")
    case True
    then show ?thesis
      using d [of c] keeps_types_trans [OF d d] by (auto simp: coreListeners_def updateConsoleLevel_def updateOtherFile_def Let_def)
  next
    case False
    then show ?thesis by (simp add: coreListeners_def pathListeners_types)
  qed
  then show ?thesis by (simp add: orderly_def)
qed

lemma autoSet_leaves: "k \<noteq> key \<Longrightarrow> um_find (autoSetAbsoluteDir app key c) k = um_find c k"
  by (auto simp: autoSetAbsoluteDir_def find_put split: option.splits config_value.splits)

lemma setDefault_leaves:
  "leaves_set notify key \<Longrightarrow> um_find c key = Some e \<Longrightarrow> isSet e \<Longrightarrow> um_find (setDefault notify k v c) key = Some e"
proof (cases "k = key")
  case True
  assume "um_find c key = Some e" "isSet e"
  then have "setDefault notify k v c = c" using True by (auto simp: setDefault_def)
  then show ?thesis using \<open>um_find c key = Some e\<close> by simp
next
  case False
  assume a: "leaves_set notify key" "um_find c key = Some e" "isSet e"
  then have "um_find (dispatchValueChanged notify ls (putEntry k e' c)) key = Some e" for ls e'
    using False by (intro dispatch_leaves) (simp_all add: find_put)
  then show ?thesis using a(2) by (simp add: setDefault_def split: option.splits)
qed

lemma coreListeners_leave:
  assumes "key \<noteq> CONFIG_FILE_KEY" "key \<noteq> ''core.log.dir''"
  shows "leaves_set (coreListeners app :: 'f listeners) key"
proof -
  have p: "leaves_set (pathListeners app :: 'f listeners) key"
    using assms by (simp add: leaves_set_def pathListeners_def autoSet_leaves)
  have "um_find (coreListeners app l c) key = Some e" if e: "um_find c key = Some e" "isSet e" for l e and c :: "'f config"
  proof (cases "l = 0 \<or> l = 1")
    case True
    note d = setDefault_leaves [OF p _ e(2)]
    show ?thesis using True
    proof
      assume "l = 0"
      then show ?thesis using d [OF e(1)] by (simp add: coreListeners_def updateConsoleLevel_def)
    next
      assume "l = 1"
      then show ?thesis using d [OF d [OF e(1)]] by (simp add: coreListeners_def updateOtherFile_def Let_def)
    qed
  next
    case False
    then show ?thesis using p e by (auto simp: coreListeners_def leaves_set_def)
  qed
  then show ?thesis by (simp add: leaves_set_def)
qed

text \<open>A program whose file sets the log level, creates a value and includes itself.\<close>

definition demo_files :: "string \<Rightarrow> string option" where
  "demo_files =
     [''/srv/auth.opt'' \<mapsto> ''core.log.level:trace'' @ [LF] @ ''!extra:1'' @ [LF] @ ''%include:auth.opt'' @ [LF]]"

definition demo_config :: "nat config" where
  "demo_config = coreConfig ''/srv'' ''auth'' [] [] [] ''1.0''"

theorem command_line_wins_witness:
  "\<exists>c' e'. initConfig (coreListeners ''/srv'') (\<lambda>_. 0) (\<lambda>_. []) demo_files [''/core.log.level:debug''] demo_config = Some c' \<and>
    um_find c' ''core.log.level'' = Some e' \<and> ce_value e' = CString ''debug''"
proof -
  have f: "\<exists>ef f. um_find demo_config CONFIG_FILE_KEY = Some ef \<and> ce_value ef = CString f"
    by (simp add: demo_config_def coreConfig_def coreValues_def listenerConfig_def coreEntry_def um_insert_def um_find_def)
  have l: "\<exists>e. um_find demo_config ''core.log.level'' = Some e \<and> ce_value e = CString ''info''"
    by (simp add: demo_config_def coreConfig_def coreValues_def listenerConfig_def coreEntry_def um_insert_def um_find_def)
  have s: "lastSetting [''/core.log.level:debug''] ''core.log.level'' = Some ''debug''" by code_simp
  from f obtain ef f where "um_find demo_config CONFIG_FILE_KEY = Some ef" "ce_value ef = CString f" by blast
  from command_line_wins [OF coreListeners_orderly this, of "''/srv''" "\<lambda>_. 0" "\<lambda>_. []" demo_files "[''/core.log.level:debug'']"]
  obtain c' where c': "initConfig (coreListeners ''/srv'') (\<lambda>_. 0) (\<lambda>_. []) demo_files [''/core.log.level:debug''] demo_config = Some c'"
    "\<forall>key e s. leaves_set (coreListeners ''/srv'' :: nat listeners) key \<longrightarrow> um_find demo_config key = Some e \<longrightarrow>
      lastSetting [''/core.log.level:debug''] key = Some s \<longrightarrow>
      (\<exists>e'. um_find c' key = Some e' \<and> ce_value e' = parsedAs (\<lambda>_. 0) (ce_value e) s \<and> isSet e')"
    by blast
  obtain e where e: "um_find demo_config ''core.log.level'' = Some e" "ce_value e = CString ''info''" using l by blast
  have "leaves_set (coreListeners ''/srv'' :: nat listeners) ''core.log.level''" by (rule coreListeners_leave) simp_all
  then obtain e' where "um_find c' ''core.log.level'' = Some e'" "ce_value e' = parsedAs (\<lambda>_. 0) (ce_value e) ''debug''"
    using c'(2) e(1) s by blast
  then show ?thesis using c'(1) e(2) by simp
qed

section \<open>Text and values\<close>

lemma char_nat: "(of_char c :: nat) = n \<Longrightarrow> (of_char c :: int) = int n"
  by (metis of_nat_of_char)

lemma digit_char: "d < 10 \<Longrightarrow> (of_char (char_of (48 + d :: nat)) :: int) = int d + 48"
  using char_nat [of "char_of (48 + d :: nat)" "48 + d"] by simp

lemma digitOf_decimal: "d < 10 \<Longrightarrow> digitOf (char_of (48 + d :: nat)) = Some (int d)"
  by (simp add: digitOf_def digit_char)

lemma decimal_chars: "c \<in> set (decimal n) \<Longrightarrow> \<exists>d < 10. c = char_of (48 + d :: nat)"
proof (induction n rule: decimal.induct)
  case (1 n)
  show ?case
  proof (cases "n < 10")
    case True
    have "c = char_of (48 + n)" using 1(2) True by (subst (asm) decimal.simps) simp
    then show ?thesis using True by blast
  next
    case False
    have "c \<in> set (decimal (n div 10)) \<or> c = char_of (48 + n mod 10)" using 1(2) False by (subst (asm) decimal.simps) auto
    moreover have "n mod 10 < 10" by simp
    ultimately show ?thesis using 1(1) [OF False] by blast
  qed
qed

lemma digitsIn_append:
  "\<forall>c \<in> set xs. \<exists>d. digitOf c = Some d \<and> d < b \<Longrightarrow> digitsIn b acc (xs @ ys) = digitsIn b (digitsIn b acc xs) ys"
  by (induction xs arbitrary: acc) auto

lemma decimal_digits: "c \<in> set (decimal n) \<Longrightarrow> \<exists>d. digitOf c = Some d \<and> d < 10"
  using decimal_chars [of c n] by (auto simp: digitOf_decimal)

lemma digitsIn_decimal: "digitsIn 10 0 (decimal n) = int n"
proof (induction n rule: decimal.induct)
  case (1 n)
  show ?case
  proof (cases "n < 10")
    case True
    then show ?thesis by (subst decimal.simps) (simp add: digitOf_decimal)
  next
    case False
    have "digitsIn 10 0 (decimal n) = digitsIn 10 (digitsIn 10 0 (decimal (n div 10))) [char_of (48 + n mod 10)]"
      using False decimal_digits by (subst decimal.simps) (simp add: digitsIn_append)
    also have "\<dots> = int n" using 1 [OF False] by (simp add: digitOf_decimal zdiv_int zmod_int)
    finally show ?thesis .
  qed
qed

lemma decimal_start: "n \<noteq> 0 \<Longrightarrow> \<exists>d ds. decimal n = char_of (48 + d :: nat) # ds \<and> 0 < d \<and> d < 10"
proof (induction n rule: decimal.induct)
  case (1 n)
  show ?case
  proof (cases "n < 10")
    case True
    have "decimal n = char_of (48 + n) # []" using True by (subst decimal.simps) simp
    then show ?thesis using 1(2) True by blast
  next
    case False
    then have "n div 10 \<noteq> 0" by simp
    then obtain d ds where "decimal (n div 10) = char_of (48 + d :: nat) # ds" "0 < d" "d < 10" using 1(1) [OF False] by blast
    moreover from this(1) have "decimal n = char_of (48 + d) # (ds @ [char_of (48 + n mod 10)])"
      using False by (subst decimal.simps) simp
    ultimately show ?thesis by blast
  qed
qed

lemma decimal_zero: "decimal 0 = ''0''"
  by (simp add: decimal.simps char_of_def bit_Suc_0_iff)

lemma numeral0_decimal: "numeral0 (decimal n) = int n"
proof (cases "n = 0")
  case True
  then show ?thesis by (simp add: decimal_zero numeral0_def hexFollows_def digitOf_def)
next
  case False
  then obtain d ds where d: "decimal n = char_of (48 + d :: nat) # ds" "0 < d" "d < 10" using decimal_start by blast
  have "char_of (48 + d :: nat) \<noteq> CHR ''0''"
  proof
    assume "char_of (48 + d :: nat) = CHR ''0''"
    then have "of_char (char_of (48 + d :: nat)) = (48 :: nat)" by simp
    then show False using d(2,3) by simp
  qed
  then have "\<not> hexFollows (decimal n)" "take 1 (decimal n) \<noteq> ''0''"
    using d(1) by (auto simp: hexFollows_def split: list.splits)
  then show ?thesis using digitsIn_decimal by (simp add: numeral0_def)
qed

lemma strtol0_signed: "- (2 ^ 63) \<le> i \<Longrightarrow> i < 2 ^ 63 \<Longrightarrow> strtol0 (signedPad 0 i) = i"
proof (cases "i < 0")
  case True
  assume "- (2 ^ 63) \<le> i"
  then show ?thesis using True
    by (simp add: signedPad_def zeroPad_def strtol0_def numeral0_decimal isSpace_def)
next
  case False
  assume i: "i < 2 ^ 63"
  obtain c cs where c: "decimal (nat i) = c # cs" by (cases "decimal (nat i)") (subst (asm) decimal.simps, auto split: if_splits)
  then obtain d where d: "d < 10" "c = char_of (48 + d :: nat)" using decimal_chars [of c "nat i"] by auto
  have "(of_char c :: nat) = 48 + d" using d by simp
  then have "\<not> isSpace c" "c \<noteq> CHR ''-''" "c \<noteq> CHR ''+''" using d(1) by (auto simp: isSpace_def)
  then have "strtol0 (decimal (nat i)) = max (- (2 ^ 63)) (min (2 ^ 63 - 1) (numeral0 (decimal (nat i))))"
    using c by (simp add: strtol0_def)
  then show ?thesis using False i by (simp add: signedPad_def zeroPad_def numeral0_decimal)
qed

text \<open>Texts, values and keys that can stand on a line: no floating point numbers; a text without the ends of lines and
  strings, that does not end with a space or name another value.\<close>

definition plain_text :: "string \<Rightarrow> bool" where
  "plain_text s \<longleftrightarrow> (\<forall>c \<in> set s. c \<noteq> CHR 0x00 \<and> c \<noteq> LF) \<and> (s \<noteq> [] \<longrightarrow> \<not> isSpace (last s) \<and> hd s \<noteq> CHR ''$'')"

fun plain_value :: "'f config_value \<Rightarrow> bool" where
  "plain_value (CBool b) = True"
| "plain_value (CInt i) = (- (2 ^ 31) \<le> i \<and> i < 2 ^ 31)"
| "plain_value (CFloat x) = False"
| "plain_value (CString s) = plain_text s"

definition plain_key :: "string \<Rightarrow> bool" where
  "plain_key key \<longleftrightarrow> key \<noteq> [] \<and> \<not> isSpace (hd key) \<and> hd key \<notin> {CHR ''#'', CHR ''%'', CHR ''!''} \<and>
     (\<forall>c \<in> set key. \<not> isDelimiter c \<and> c \<noteq> CHR 0x00 \<and> c \<noteq> LF)"

lemma sint_small: "- (2 ^ 31) \<le> i \<Longrightarrow> i < 2 ^ 31 \<Longrightarrow> sint (word_of_int i :: u32) = i"
  by (simp add: sint_sbintrunc' signed_take_bit_int_eq_self)

lemma parsedAs_text: "plain_value v \<Longrightarrow> sameType v w \<Longrightarrow> parsedAs atof w (getString_value ftoa v) = v"
proof (cases v)
  case (CInt i)
  assume v: "plain_value v" "sameType v w"
  have "sint (word_of_int i :: u32) = i" using v(1) CInt by (simp add: sint_small)
  then show ?thesis using v CInt by (cases w) (simp_all add: strtol0_signed)
qed (cases w; simp)+


lemma digit_plain: "d < 10 \<Longrightarrow> c = char_of (48 + d :: nat) \<Longrightarrow> c \<noteq> CHR 0x00 \<and> c \<noteq> LF \<and> \<not> isSpace c \<and> c \<noteq> CHR ''$''"
proof -
  assume "d < 10" "c = char_of (48 + d :: nat)"
  then have "(of_char c :: nat) = 48 + d" by simp
  then show ?thesis using \<open>d < 10\<close> by (auto simp: isSpace_def)
qed

lemma decimal_not_empty: "decimal n \<noteq> []"
  by (subst decimal.simps) simp

lemma decimal_plain: "plain_text (decimal n)"
proof -
  have *: "c \<in> set (decimal n) \<Longrightarrow> c \<noteq> CHR 0x00 \<and> c \<noteq> LF \<and> \<not> isSpace c \<and> c \<noteq> CHR ''$''" for c
    using decimal_chars [of c n] digit_plain by blast
  have "last (decimal n) \<in> set (decimal n)" "hd (decimal n) \<in> set (decimal n)" using decimal_not_empty [of n] by simp_all
  then show ?thesis using * unfolding plain_text_def by blast
qed

lemma value_text_plain: "plain_value v \<Longrightarrow> plain_text (getString_value ftoa v)"
proof (cases v)
  case (CInt i)
  define d where "d = decimal (nat \<bar>i\<bar>)"
  have d: "plain_text d" "d \<noteq> []" unfolding d_def by (rule decimal_plain, rule decimal_not_empty)
  have "getString_value ftoa v = (if i < 0 then CHR ''-'' # d else d)"
    unfolding CInt getString_value.simps signedPad_def zeroPad_def d_def by simp
  then show ?thesis using d by (simp add: plain_text_def)
qed (simp_all add: plain_text_def isSpace_def)

lemma cstr_plain: "\<forall>c \<in> set s. c \<noteq> CHR 0x00 \<Longrightarrow> cstr s = s"
  by (simp add: cstr_def takeWhile_eq_all_conv)

lemma trim_end: "t \<noteq> [] \<Longrightarrow> \<not> isSpace (last t) \<Longrightarrow> \<forall>c \<in> set z. isSpace c \<Longrightarrow> rev (dropWhile isSpace (rev (t @ z))) = t"
  by (cases t rule: rev_cases) (auto simp: dropWhile_append)

lemma split_line: "\<forall>c \<in> set key. \<not> isDelimiter c \<Longrightarrow> isDelimiter d \<Longrightarrow> splitSetting (key @ d # s) = Some (key, s)"
  by (simp add: splitSetting_def dropWhile_append takeWhile_append)

lemma parseLine_plain:
  assumes "plain_key key" "plain_text s"
  shows "parseLine (key @ '':'' @ s @ [CR, LF]) = Some (key, s)"
proof -
  let ?setting = "key @ CHR '':'' # s"
  let ?line = "?setting @ [CR, LF]"
  have same: "key @ '':'' @ s @ [CR, LF] = ?line" by simp
  have nul: "cstr ?line = ?line"
    using assms by (intro cstr_plain) (auto simp: plain_key_def plain_text_def)
  have start: "dropWhile isSpace ?line = ?line"
    using assms(1) by (cases key) (simp_all add: plain_key_def)
  have "\<not> isSpace (last ?setting)" using assms(2) by (simp add: plain_text_def isSpace_def)
  then have ends: "rev (dropWhile isSpace (rev ?line)) = ?setting"
    by (intro trim_end) (simp_all add: isSpace_def)
  have key: "?line \<noteq> []" "hd ?line \<noteq> CHR ''#''" "length ?setting \<noteq> 1"
    using assms(1) by (cases key; simp add: plain_key_def)+
  have "splitSetting ?setting = Some (key, s)"
    using assms(1) by (intro split_line) (auto simp: plain_key_def isDelimiter_def)
  then show ?thesis unfolding same parseLine_def nul Let_def start ends using key by (simp only: if_False simp_thms)
qed

lemma one_line:
  assumes "\<forall>c \<in> set s. c \<noteq> LF" "length s < 1023"
  shows "configFileLines (s @ [LF]) = [s @ [LF]]"
proof -
  have line: "takeWhile (\<lambda>c. c \<noteq> LF) (s @ [LF]) = s" using assms(1) by simp
  have short: "take 1023 (s @ [LF]) = s @ [LF]" using assms(2) by simp
  have "configFileLines [] = []" by (simp add: configFileLines.simps)
  then show ?thesis by (subst configFileLines.simps) (simp only: line short, simp)
qed

lemma substitute_plain: "plain_text s \<Longrightarrow> substitute ftoa c s = s"
  by (cases s) (simp_all add: substitute_def plain_text_def)

lemma configLine_plain:
  assumes "plain_key key" "plain_text s" "um_find c key = Some e"
  shows "configLine notify atof ftoa inclusion name (key @ '':'' @ s @ [CR, LF]) c = setString notify atof key e s c"
proof -
  have "cstr s = s" using assms(2) by (intro cstr_plain) (simp add: plain_text_def)
  moreover have "take 1 key \<noteq> ''%''" "take 1 key \<noteq> ''!''" using assms(1) by (cases key; simp add: plain_key_def)+
  ultimately show ?thesis
    unfolding configLine_def parseLine_plain [OF assms(1,2)] using assms(2,3) by (simp add: substitute_plain)
qed

text \<open>C40. What \<open>config.get\<close> prints of a value can be read back from a configuration file: when the line, without its two
  leading columns, is the content of the file, reading the file sets the value of that key, whatever value of the type it
  had, and changes nothing else. The value is a number, a boolean or a text that starts and ends on the line and the line fits in the buffer.\<close>

theorem config_line_roundtrip:
  assumes "plain_key key" "plain_value (ce_value printed)" "um_find c key = Some e" "sameType (ce_value e) (ce_value printed)"
    and "files name = Some (drop 2 (configText ftoa (key, printed)))" "length (configText ftoa (key, printed)) \<le> 1025"
  shows "readFile notify atof ftoa files (Suc levels) name c = (True, setValue notify key e (ce_value printed) c)"
proof -
  let ?text = "getString_value ftoa (ce_value printed)"
  let ?line = "key @ '':'' @ ?text @ [CR, LF]"
  have plain: "plain_text ?text" using assms(2) by (rule value_text_plain)
  have "cstr key = key" "cstr ?text = ?text"
    using assms(1) plain by (auto simp: plain_key_def plain_text_def intro!: cstr_plain)
  then have printed: "drop 2 (configText ftoa (key, printed)) = ?line" "length ?line \<le> 1023"
    using assms(6) by (simp_all add: configText_def)
  have "configFileLines ((key @ '':'' @ ?text @ [CR]) @ [LF]) = [(key @ '':'' @ ?text @ [CR]) @ [LF]]"
    using assms(1) plain printed(2) by (intro one_line) (auto simp: plain_key_def plain_text_def)
  then have lines: "configFileLines ?line = [?line]" by simp
  have "parsedAs atof (ce_value e) ?text = ce_value printed"
    using parsedAs_text [of "ce_value printed" "ce_value e"] assms(2,4) by (cases "ce_value e"; cases "ce_value printed"; simp)
  then have "setString notify atof key e ?text c = setValue notify key e (ce_value printed) c" by (simp add: setString_def)
  then show ?thesis
    using assms(5) printed(1) lines configLine_plain [OF assms(1) plain assms(3)] by simp
qed

definition witness_entry :: "int \<Rightarrow> nat config_entry" where
  "witness_entry n = \<lparr>ce_value = CInt n, ce_isDefault = False, ce_hidden = False, ce_stat = False, ce_listeners = []\<rparr>"

lemma config_line_roundtrip_witness:
  "readFile (\<lambda>l c. c) (\<lambda>s. 0) (\<lambda>x. []) (\<lambda>name. Some (drop 2 (configText (\<lambda>x. []) (''n'', witness_entry (-42)))))
     (Suc 10) ''a.opt'' [(''n'', witness_entry 7)] =
   (True, setValue (\<lambda>l c. c) ''n'' (witness_entry 7) (CInt (-42)) [(''n'', witness_entry 7)])"
proof -
  have "length (decimal 42) \<le> 2" by (simp add: decimal.simps)
  then have "length (configText (\<lambda>x. []) (''n'', witness_entry (-42))) \<le> 1025"
    using length_takeWhile_le [of "\<lambda>c. c \<noteq> CHR 0x00" "decimal 42"]
    by (simp add: configText_def witness_entry_def signedPad_def zeroPad_def cstr_def)
  then show ?thesis
    using config_line_roundtrip [of "''n''" "witness_entry (-42)" "[(''n'', witness_entry 7)]" "witness_entry 7"
        "\<lambda>name. Some (drop 2 (configText (\<lambda>x. []) (''n'', witness_entry (-42))))" "''a.opt''" "\<lambda>x. []" "\<lambda>l c. c" "\<lambda>s. 0" 10]
    by (simp add: plain_key_def isSpace_def isDelimiter_def um_find_def witness_entry_def)
qed

end
