(* ===== verification/Reconnect.thy ===== *)
theory Reconnect
  imports AuthGame NetStream
begin

text \<open>
  The reconnecting proxy between a game server and the authentication server (rzgamereconnect/src/AuthServer):
  \<open>GameServerSession\<close> takes the game server's connection, \<open>AuthSession\<close> keeps the one to the authentication server. When that
  is lost, it reconnects, logs in again and presents the accounts that are in game, and messages wait in between. Sessions are
  heap objects; both ends of a connection are streams of \<open>NetStream\<close>. Packets keep the fields that the proxy looks
  at, all others are their id and bytes. Each call of libuv takes its result from \<open>rs_results\<close>, 0 when there is none.
\<close>

section \<open>Packets\<close>

datatype ga_message = GaLogin ga_login bytes | GaAccountList u32 u8 bool "account_info list" | GaLogout | GaPacket u16 bytes

abbreviation "TS_GA_LOGOUT_ID \<equiv> 60002 :: u16"
abbreviation "TS_GA_LOGIN_EXT_ID \<equiv> 60004 :: u16"

fun gaMessageId :: "ga_message \<Rightarrow> u16" where
  "gaMessageId (GaLogin p guid) = TS_GA_LOGIN_EXT_ID"
| "gaMessageId (GaAccountList sz count final infos) = 60003"
| "gaMessageId GaLogout = TS_GA_LOGOUT_ID"
| "gaMessageId (GaPacket i body) = i"

record ag_client_login =
  al_account :: string
  al_accountID :: u32
  al_result :: u16
  al_pcBangUser :: u32
  al_eventCode :: u32
  al_age :: u32
  al_playTime :: u32
  al_logoutTime :: u32

record ag_client_login_ext = ag_client_login +
  al_ip :: string
  al_loginTime :: int

datatype ag_packet = AgLoginResult u16 | AgClientLoginExtended ag_client_login_ext | AgPacket u16 bytes

text \<open>What the game server receives, and what it sends; a login comes with the random bytes that the new session draws.\<close>

datatype gm_message = GmLoginResult u16 | GmClientLogin ag_client_login | GmPacket u16 bytes

datatype gs_packet = GsLogin ga_login bytes | GsPacket u16 bytes

text \<open>The account is the first field of the packets that have one; a shorter packet is read past its end.\<close>

definition accountField :: "bytes \<Rightarrow> string option" where
  "accountField body = (if length body < 61 then None else Some (map (\<lambda>b. char_of (unat b)) (take 61 body)))"

text \<open>\<open>strcmp\<close> of two fields, undefined when it leaves them.\<close>

fun fieldEq :: "string \<Rightarrow> string \<Rightarrow> bool option" where
  "fieldEq (a # as) (b # bs) = (if a \<noteq> b then Some False else if a = CHR 0x00 then Some True else fieldEq as bs)"
| "fieldEq as bs = None"

section \<open>State\<close>

record reco_auth =
  ra_stream :: "net_stream option"
  ra_game :: "nat option"
  ra_login :: ga_login
  ra_guid :: bytes
  ra_sentLogin :: bool
  ra_pendingLogin :: bool
  ra_synchronized :: bool
  ra_timer :: bool
  ra_pending :: "ga_message list"
  ra_accounts :: "account_info list"
  ra_deleting :: bool

record reco_game =
  rg_stream :: net_stream
  rg_auth :: "nat option"
  rg_serverIdx :: u16

datatype reco_out = ToAuthServer nat ga_message | ToGameServer nat gm_message

record reco_state =
  rs_auths :: "nat \<Rightarrow> reco_auth option"
  rs_games :: "nat \<Rightarrow> reco_game option"
  rs_servers :: "(u16, nat) umap"
  rs_toDelete :: "nat list"
  rs_next :: nat
  rs_results :: "int list"
  rs_out :: "reco_out list"

definition reco_init :: reco_state where
  "reco_init = \<lparr>rs_auths = \<lambda>_. None, rs_games = \<lambda>_. None, rs_servers = [], rs_toDelete = [], rs_next = 0, rs_results = [], rs_out = []\<rparr>"

definition modAuth :: "nat \<Rightarrow> (reco_auth \<Rightarrow> reco_auth) \<Rightarrow> reco_state \<Rightarrow> reco_state option" where
  "modAuth a f st = map_option (\<lambda>x. st\<lparr>rs_auths := (rs_auths st)(a \<mapsto> f x)\<rparr>) (rs_auths st a)"

definition modRecoGame :: "nat \<Rightarrow> (reco_game \<Rightarrow> reco_game) \<Rightarrow> reco_state \<Rightarrow> reco_state option" where
  "modRecoGame g f st = map_option (\<lambda>x. st\<lparr>rs_games := (rs_games st)(g \<mapsto> f x)\<rparr>) (rs_games st g)"

definition nextResult :: "reco_state \<Rightarrow> int" where
  "nextResult st = (case rs_results st of [] \<Rightarrow> 0 | r # rs \<Rightarrow> r)"

definition dropResult :: "reco_state \<Rightarrow> reco_state" where
  "dropResult st = st\<lparr>rs_results := tl (rs_results st)\<rparr>"

definition recoEmit :: "reco_out \<Rightarrow> reco_state \<Rightarrow> reco_state" where
  "recoEmit x st = st\<lparr>rs_out := rs_out st @ [x]\<rparr>"

definition connectedStream :: "net_stream \<Rightarrow> bool" where
  "connectedStream s \<longleftrightarrow> st_state s = ConnectedState"

text \<open>\<open>AuthSession::isConnected\<close>, and \<open>deleteLater\<close>.\<close>

definition authConnected :: "reco_auth \<Rightarrow> bool" where
  "authConnected x \<longleftrightarrow> (case ra_stream x of Some s \<Rightarrow> connectedStream s | None \<Rightarrow> False)"

definition authDeleteLater :: "nat \<Rightarrow> reco_state \<Rightarrow> reco_state option" where
  "authDeleteLater a st = do {
     x \<leftarrow> rs_auths st a;
     if ra_deleting x then Some st
     else modAuth a (\<lambda>y. y\<lparr>ra_deleting := True\<rparr>) (st\<lparr>rs_toDelete := rs_toDelete st @ [a]\<rparr>) }"

section \<open>The connections\<close>

text \<open>\<open>PacketSession::sendPacket\<close> to the authentication server and to the game server.\<close>

definition writeAuth :: "nat \<Rightarrow> ga_message \<Rightarrow> reco_state \<Rightarrow> reco_state option" where
  "writeAuth a m st = do {
     x \<leftarrow> rs_auths st a;
     s \<leftarrow> ra_stream x;
     let r = nextResult st;
     (n, t) \<leftarrow> streamWrite r [] s;
     st \<leftarrow> modAuth a (\<lambda>y. y\<lparr>ra_stream := Some t\<rparr>) (dropResult st);
     Some (if connectedStream s \<and> 0 \<le> r then recoEmit (ToAuthServer a m) st else st) }"

definition writeGame :: "nat \<Rightarrow> gm_message \<Rightarrow> reco_state \<Rightarrow> reco_state option" where
  "writeGame g m st = do {
     x \<leftarrow> rs_games st g;
     let r = nextResult st;
     (n, t) \<leftarrow> streamWrite r [] (rg_stream x);
     st \<leftarrow> modRecoGame g (\<lambda>y. y\<lparr>rg_stream := t\<rparr>) (dropResult st);
     Some (if connectedStream (rg_stream x) \<and> 0 \<le> r then recoEmit (ToGameServer g m) st else st) }"

definition closeAuth :: "nat \<Rightarrow> reco_state \<Rightarrow> reco_state option" where
  "closeAuth a st = do {
     x \<leftarrow> rs_auths st a;
     (case ra_stream x of
        None \<Rightarrow> Some st
      | Some s \<Rightarrow> do { t \<leftarrow> streamClose (nextResult st) False s; modAuth a (\<lambda>y. y\<lparr>ra_stream := Some t\<rparr>) (dropResult st) }) }"

definition connectAuth :: "nat \<Rightarrow> reco_state \<Rightarrow> reco_state option" where
  "connectAuth a st = do {
     x \<leftarrow> rs_auths st a;
     (ok, t) \<leftarrow> streamConnect (nextResult st) (case ra_stream x of None \<Rightarrow> newStream | Some s \<Rightarrow> s);
     modAuth a (\<lambda>y. y\<lparr>ra_stream := Some t\<rparr>) (dropResult st) }"

section \<open>AuthSession\<close>

definition sendPacketToNetwork :: "nat \<Rightarrow> ga_message \<Rightarrow> reco_state \<Rightarrow> reco_state option" where
  "sendPacketToNetwork a m st = do {
     st \<leftarrow> writeAuth a m st;
     if gaMessageId m = TS_GA_LOGIN_EXT_ID then modAuth a (\<lambda>y. y\<lparr>ra_sentLogin := True\<rparr>) st
     else if gaMessageId m = TS_GA_LOGOUT_ID then closeAuth a st
     else Some st }"

definition sendToAuth :: "nat \<Rightarrow> ga_message \<Rightarrow> reco_state \<Rightarrow> reco_state option" where
  "sendToAuth a m st = do {
     x \<leftarrow> rs_auths st a;
     if authConnected x \<and> ra_synchronized x then sendPacketToNetwork a m st
     else modAuth a (\<lambda>y. y\<lparr>ra_pending := ra_pending y @ [m]\<rparr>) st }"

fun sendAllToNetwork :: "nat \<Rightarrow> ga_message list \<Rightarrow> reco_state \<Rightarrow> reco_state option" where
  "sendAllToNetwork a [] st = Some st"
| "sendAllToNetwork a (m # ms) st = do { st \<leftarrow> sendPacketToNetwork a m st; sendAllToNetwork a ms st }"

definition sendPendingMessages :: "nat \<Rightarrow> reco_state \<Rightarrow> reco_state option" where
  "sendPendingMessages a st = do {
     x \<leftarrow> rs_auths st a;
     st \<leftarrow> sendAllToNetwork a (ra_pending x) st;
     modAuth a (\<lambda>y. y\<lparr>ra_pending := []\<rparr>) st }"

definition sendLogin :: "nat \<Rightarrow> reco_state \<Rightarrow> reco_state option" where
  "sendLogin a st = do {
     x \<leftarrow> rs_auths st a;
     if ra_pendingLogin x then Some st
     else do {
       st \<leftarrow> modAuth a (\<lambda>y. y\<lparr>ra_pendingLogin := True\<rparr>) st;
       sendPacketToNetwork a (GaLogin (ra_login x) (ra_guid x)) st } }"

text \<open>One packet is allocated for all, with room for \<open>maxCount\<close> entries, which also stays its size; \<open>buffer\<close> is what it holds.\<close>

definition MAX_COUNT_PER_PACKET :: nat where "MAX_COUNT_PER_PACKET = (16000 - 9) div 124"

lemma MAX_COUNT_128 [code]: "MAX_COUNT_PER_PACKET = 128"
  by (simp add: MAX_COUNT_PER_PACKET_def)

definition emptyInfo :: account_info where
  "emptyInfo = \<lparr>ai_account = replicate 61 (CHR 0x00), ai_accountID = 0, ai_pcBang = 0, ai_eventCode = 0, ai_age = 0,
     ai_ip = replicate 46 (CHR 0x00), ai_loginTime = 0\<rparr>"

function listPackets :: "nat \<Rightarrow> account_info list \<Rightarrow> account_info list \<Rightarrow> ga_message list" where
  "listPackets maxCount buffer accounts =
     (let chunk = take maxCount accounts;
          rest = drop maxCount accounts;
          buffer = chunk @ drop (length chunk) buffer;
          packet = GaAccountList (of_nat (9 + 124 * maxCount)) (of_nat (length chunk)) (rest = []) buffer
      in if rest = [] \<or> maxCount = 0 then [packet] else packet # listPackets maxCount buffer rest)"
  by pat_completeness auto
termination by (relation "measure (\<lambda>(n, b, as). length as)") auto

declare listPackets.simps [simp del]

definition accountPackets :: "account_info list \<Rightarrow> ga_message list" where
  "accountPackets accounts =
     (let maxCount = min (length accounts) MAX_COUNT_PER_PACKET in listPackets maxCount (replicate maxCount emptyInfo) accounts)"

fun sendAllToAuth :: "nat \<Rightarrow> ga_message list \<Rightarrow> reco_state \<Rightarrow> reco_state option" where
  "sendAllToAuth a [] st = Some st"
| "sendAllToAuth a (m # ms) st = do { st \<leftarrow> sendToAuth a m st; sendAllToAuth a ms st }"

definition sendAccountList :: "nat \<Rightarrow> reco_state \<Rightarrow> reco_state option" where
  "sendAccountList a st = do {
     x \<leftarrow> rs_auths st a;
     st \<leftarrow> modAuth a (\<lambda>y. y\<lparr>ra_synchronized := True\<rparr>) st;
     st \<leftarrow> sendAllToAuth a (accountPackets (ra_accounts x)) st;
     sendPendingMessages a st }"

text \<open>\<open>AuthSession::disconnect\<close> and \<open>forceClose\<close>.\<close>

definition disconnectSession :: "nat \<Rightarrow> reco_state \<Rightarrow> reco_state option" where
  "disconnectSession a st = do {
     x \<leftarrow> rs_auths st a;
     st \<leftarrow> modAuth a (\<lambda>y. y\<lparr>ra_game := None, ra_pending := []\<rparr>) st;
     if \<not> ra_sentLogin x then do {
       st \<leftarrow> modAuth a (\<lambda>y. y\<lparr>ra_timer := False\<rparr>) st;
       st \<leftarrow> closeAuth a st;
       x \<leftarrow> rs_auths st a;
       if \<not> authConnected x then authDeleteLater a st else Some st }
     else sendToAuth a GaLogout st }"

definition forceClose :: "nat \<Rightarrow> reco_state \<Rightarrow> reco_state option" where
  "forceClose a st = do {
     x \<leftarrow> rs_auths st a;
     st \<leftarrow> modAuth a (\<lambda>y. y\<lparr>ra_game := None, ra_pending := [], ra_timer := False\<rparr>) st;
     if authConnected x then sendToAuth a GaLogout st
     else do { st \<leftarrow> closeAuth a st; authDeleteLater a st } }"

definition disconnectAuth :: "nat \<Rightarrow> reco_state \<Rightarrow> reco_state option" where
  "disconnectAuth g st = do {
     x \<leftarrow> rs_games st g;
     (case rg_auth x of
        None \<Rightarrow> Some st
      | Some a \<Rightarrow> do { st \<leftarrow> disconnectSession a st; modRecoGame g (\<lambda>y. y\<lparr>rg_auth := None\<rparr>) st }) }"

definition onLoginResult :: "nat \<Rightarrow> u16 \<Rightarrow> reco_state \<Rightarrow> reco_state option" where
  "onLoginResult a r st = do {
     x \<leftarrow> rs_auths st a;
     if \<not> ra_pendingLogin x then Some st
     else do {
       st \<leftarrow> modAuth a (\<lambda>y. y\<lparr>ra_pendingLogin := False\<rparr>) st;
       st \<leftarrow> (case ra_game x of Some g \<Rightarrow> writeGame g (GmLoginResult r) st | None \<Rightarrow> Some st);
       if r = TS_RESULT_SUCCESS then sendAccountList a st
       else do {
         st \<leftarrow> modAuth a (\<lambda>y. y\<lparr>ra_sentLogin := False\<rparr>) st;
         (case ra_game x of
            None \<Rightarrow> disconnectSession a st
          | Some g \<Rightarrow> if \<not> ra_synchronized x then disconnectAuth g st else Some st) } } }"

definition onClientLoginResult :: "nat \<Rightarrow> ag_client_login_ext \<Rightarrow> reco_state \<Rightarrow> reco_state option" where
  "onClientLoginResult a packet st = do {
     x \<leftarrow> rs_auths st a;
     (case ra_game x of
        None \<Rightarrow> Some st
      | Some g \<Rightarrow> do {
          st \<leftarrow> (if al_result packet = TS_RESULT_SUCCESS then
                   modAuth a (\<lambda>y. y\<lparr>ra_accounts := ra_accounts y @
                     [\<lparr>ai_account = al_account packet, ai_accountID = al_accountID packet, ai_pcBang = al_pcBangUser packet,
                       ai_eventCode = al_eventCode packet, ai_age = al_age packet, ai_ip = al_ip packet,
                       ai_loginTime = al_loginTime packet\<rparr>]\<rparr>) st
                 else Some st);
          writeGame g (GmClientLogin (ag_client_login.truncate packet)) st }) }"

text \<open>The last entry with the account is erased; entries are searched from the end.\<close>

fun eraseFirst :: "string \<Rightarrow> account_info list \<Rightarrow> account_info list option" where
  "eraseFirst account [] = Some []"
| "eraseFirst account (i # is) = do {
     same \<leftarrow> fieldEq (ai_account i) account;
     if same then Some is else map_option ((#) i) (eraseFirst account is) }"

definition logoutClient :: "nat \<Rightarrow> u16 \<Rightarrow> bytes \<Rightarrow> reco_state \<Rightarrow> reco_state option" where
  "logoutClient a i body st = do {
     x \<leftarrow> rs_auths st a;
     account \<leftarrow> accountField body;
     accounts \<leftarrow> map_option rev (eraseFirst account (rev (ra_accounts x)));
     st \<leftarrow> modAuth a (\<lambda>y. y\<lparr>ra_accounts := accounts\<rparr>) st;
     if authConnected x \<and> ra_synchronized x then sendToAuth a (GaPacket i body) st else Some st }"

definition authDisconnected :: "nat \<Rightarrow> bool \<Rightarrow> reco_state \<Rightarrow> reco_state option" where
  "authDisconnected a causedByRemote st = do {
     x \<leftarrow> rs_auths st a;
     st \<leftarrow> modAuth a (\<lambda>y. y\<lparr>ra_synchronized := False, ra_pendingLogin := False\<rparr>) st;
     if causedByRemote \<and> (ra_game x \<noteq> None \<or> ra_pending x \<noteq> []) then modAuth a (\<lambda>y. y\<lparr>ra_timer := True\<rparr>) st
     else if ra_game x = None then authDeleteLater a st else Some st }"

definition onTimerReconnect :: "nat \<Rightarrow> reco_state \<Rightarrow> reco_state option" where
  "onTimerReconnect a st = do { st \<leftarrow> modAuth a (\<lambda>y. y\<lparr>ra_timer := False\<rparr>) st; connectAuth a st }"

fun recoPacketReceived :: "nat \<Rightarrow> ag_packet \<Rightarrow> reco_state \<Rightarrow> reco_state option" where
  "recoPacketReceived a (AgLoginResult r) st = onLoginResult a r st"
| "recoPacketReceived a (AgClientLoginExtended packet) st = onClientLoginResult a packet st"
| "recoPacketReceived a (AgPacket i body) st = do {
     x \<leftarrow> rs_auths st a;
     (case ra_game x of Some g \<Rightarrow> writeGame g (GmPacket i body) st | None \<Rightarrow> Some st) }"

text \<open>The destructor.\<close>

definition destroyAuth :: "nat \<Rightarrow> reco_state \<Rightarrow> reco_state option" where
  "destroyAuth a st = do {
     x \<leftarrow> rs_auths st a;
     Some (st\<lparr>rs_auths := (rs_auths st)(a := None), rs_servers := um_erase (ga_idx (ra_login x)) (rs_servers st)\<rparr>) }"

section \<open>GameServerSession\<close>

definition gameDisconnected :: "nat \<Rightarrow> bool \<Rightarrow> reco_state \<Rightarrow> reco_state option" where
  "gameDisconnected g causedByRemote st = do {
     x \<leftarrow> rs_games st g;
     st \<leftarrow> (case rg_auth x of
              Some a \<Rightarrow> if causedByRemote then disconnectSession a st else forceClose a st
            | None \<Rightarrow> Some st);
     modRecoGame g (\<lambda>y. y\<lparr>rg_auth := None\<rparr>) st }"

definition destroyRecoGame :: "nat \<Rightarrow> reco_state \<Rightarrow> reco_state option" where
  "destroyRecoGame g st = do {
     x \<leftarrow> rs_games st g;
     st \<leftarrow> (case rg_auth x of Some a \<Rightarrow> forceClose a st | None \<Rightarrow> Some st);
     Some (st\<lparr>rs_games := (rs_games st)(g := None)\<rparr>) }"

definition newAuth :: "nat \<Rightarrow> ga_login \<Rightarrow> bytes \<Rightarrow> reco_auth" where
  "newAuth g login guid = \<lparr>ra_stream = None, ra_game = Some g, ra_login = login, ra_guid = guid, ra_sentLogin = False,
     ra_pendingLogin = False, ra_synchronized = False, ra_timer = False, ra_pending = [], ra_accounts = [], ra_deleting = False\<rparr>"

definition serverLogin :: "nat \<Rightarrow> ga_login \<Rightarrow> bytes \<Rightarrow> reco_state \<Rightarrow> reco_state option" where
  "serverLogin g packet guid st = do {
     x \<leftarrow> rs_games st g;
     if rg_auth x \<noteq> None then writeGame g (GmLoginResult TS_RESULT_INVALID_ARGUMENT) st
     else do {
       let login = packet\<lparr>ga_name := convertToString (ga_name packet) 20, ga_ip := convertToString (ga_ip packet) 15,
                     ga_url := convertToString (ga_url packet) 255\<rparr>;
       let a = rs_next st;
       st \<leftarrow> modRecoGame g (\<lambda>y. y\<lparr>rg_auth := Some a, rg_serverIdx := ga_idx packet\<rparr>)
         (st\<lparr>rs_auths := (rs_auths st)(a \<mapsto> newAuth g login guid), rs_next := a + 1,
             rs_servers := um_insert (ga_idx packet) a (rs_servers st)\<rparr>);
       connectAuth a st } }"

definition clientLogin :: "nat \<Rightarrow> bytes \<Rightarrow> reco_state \<Rightarrow> reco_state option" where
  "clientLogin g body st = do {
     x \<leftarrow> rs_games st g;
     (case rg_auth x of
        None \<Rightarrow> Some st
      | Some a \<Rightarrow> do {
          y \<leftarrow> rs_auths st a;
          if \<not> ra_synchronized y then do {
            account \<leftarrow> accountField body;
            writeGame g (GmClientLogin \<lparr>al_account = account[60 := CHR 0x00], al_accountID = 0, al_result = TS_RESULT_ACCESS_DENIED,
              al_pcBangUser = 0, al_eventCode = 0, al_age = 0, al_playTime = 0, al_logoutTime = 0\<rparr>) st }
          else sendToAuth a (GaPacket 20010 body) st }) }"

fun gamePacket :: "nat \<Rightarrow> gs_packet \<Rightarrow> reco_state \<Rightarrow> reco_state option" where
  "gamePacket g (GsLogin packet guid) st = serverLogin g packet guid st"
| "gamePacket g (GsPacket i body) st =
     (if i = 20010 then clientLogin g body st
      else do {
        x \<leftarrow> rs_games st g;
        (case rg_auth x of
           None \<Rightarrow> Some st
         | Some a \<Rightarrow> if i = 20012 then logoutClient a i body st else sendToAuth a (GaPacket i body) st) })"

section \<open>Events\<close>

datatype reco_event = GsConnected | GsReceived nat gs_packet | GsStream nat stream_event | AgReceived nat ag_packet
  | AgStream nat stream_event | ReconnectTimer nat | DeleteObjects

fun deleteObjects :: "nat list \<Rightarrow> reco_state \<Rightarrow> reco_state option" where
  "deleteObjects [] st = Some st"
| "deleteObjects (a # as) st = do { st \<leftarrow> destroyAuth a st; deleteObjects as st }"

definition gameStreamEvent :: "nat \<Rightarrow> stream_event \<Rightarrow> reco_state \<Rightarrow> reco_state option" where
  "gameStreamEvent g ev st = do {
     x \<leftarrow> rs_games st g;
     t \<leftarrow> stream_step ev (rg_stream x);
     st \<leftarrow> modRecoGame g (\<lambda>y. y\<lparr>rg_stream := t\<rparr>) st;
     if st_state t = UnconnectedState \<and> st_state (rg_stream x) \<noteq> UnconnectedState then do {
       st \<leftarrow> gameDisconnected g (st_causedByRemote (rg_stream x)) st;
       destroyRecoGame g st }
     else Some st }"

definition authStreamEvent :: "nat \<Rightarrow> stream_event \<Rightarrow> reco_state \<Rightarrow> reco_state option" where
  "authStreamEvent a ev st = do {
     x \<leftarrow> rs_auths st a;
     s \<leftarrow> ra_stream x;
     t \<leftarrow> stream_step ev s;
     st \<leftarrow> modAuth a (\<lambda>y. y\<lparr>ra_stream := Some t\<rparr>) st;
     if st_state t = ConnectedState \<and> st_state s \<noteq> ConnectedState then sendLogin a st
     else if st_state t = UnconnectedState \<and> st_state s \<noteq> UnconnectedState then authDisconnected a (st_causedByRemote s) st
     else Some st }"

fun recoEvent :: "reco_event \<Rightarrow> reco_state \<Rightarrow> reco_state option" where
  "recoEvent GsConnected st =
     Some (st\<lparr>rs_games := (rs_games st)(rs_next st \<mapsto> \<lparr>rg_stream = streamAccepted newStream, rg_auth = None, rg_serverIdx = - 1\<rparr>),
              rs_next := rs_next st + 1\<rparr>)"
| "recoEvent (GsReceived g p) st = gamePacket g p st"
| "recoEvent (GsStream g ev) st = gameStreamEvent g ev st"
| "recoEvent (AgReceived a p) st = recoPacketReceived a p st"
| "recoEvent (AgStream a ev) st = authStreamEvent a ev st"
| "recoEvent (ReconnectTimer a) st = onTimerReconnect a st"
| "recoEvent DeleteObjects st = map_option (\<lambda>st. st\<lparr>rs_toDelete := []\<rparr>) (deleteObjects (rs_toDelete st) st)"

fun reco_step :: "int list \<times> reco_event \<Rightarrow> reco_state \<Rightarrow> reco_state option" where
  "reco_step (results, e) st = recoEvent e (st\<lparr>rs_results := results\<rparr>)"

end
