(* ===== verification/ReconnectInv.thy ===== *)
theory ReconnectInv
  imports Reconnect
begin

text \<open>
  The invariant of the reconnecting proxy and its preservation by every event: sessions of both sides point at each other, messages
  wait only while the authentication server has not accepted the login, and a session that has lost its game server is about to go.
\<close>

section \<open>The invariant\<close>

definition activeStream :: "net_stream \<Rightarrow> bool" where
  "activeStream s \<longleftrightarrow> st_state s = ConnectedState \<or> st_state s = ClosingState"

definition stream_of :: "reco_auth \<Rightarrow> net_stream" where
  "stream_of y = the (ra_stream y)"

definition accounts_ok :: "account_info list \<Rightarrow> bool" where
  "accounts_ok is \<longleftrightarrow> (\<forall>i \<in> set is. length (ai_account i) = 61 \<and> CHR 0x00 \<in> set (ai_account i))"

definition hasLogout :: "ga_message list \<Rightarrow> bool" where
  "hasLogout ms \<longleftrightarrow> (\<exists>m \<in> set ms. gaMessageId m = TS_GA_LOGOUT_ID)"

definition reco_auth_ok :: "reco_auth \<Rightarrow> bool" where
  "reco_auth_ok y \<longleftrightarrow>
     ra_stream y \<noteq> None \<and> stream_inv (stream_of y) \<and>
     (ra_synchronized y \<or> ra_pendingLogin y \<longrightarrow> activeStream (stream_of y)) \<and>
     (st_state (stream_of y) = ClosingState \<longrightarrow> \<not> st_causedByRemote (stream_of y) \<longrightarrow> ra_game y = None) \<and>
     (ra_deleting y \<or> ra_timer y \<or> st_state (stream_of y) \<noteq> UnconnectedState) \<and>
     (ra_synchronized y \<longrightarrow> st_state (stream_of y) = ConnectedState \<longrightarrow> ra_pending y = []) \<and>
     (ra_deleting y \<longrightarrow> ra_game y = None) \<and>
     (hasLogout (ra_pending y) \<longrightarrow> ra_game y = None) \<and>
     accounts_ok (ra_accounts y) \<and>
     (ra_pendingLogin y \<longrightarrow> \<not> ra_synchronized y)"

definition reco_inv_with :: "nat list \<Rightarrow> reco_state \<Rightarrow> bool" where
  "reco_inv_with del st \<longleftrightarrow>
     (\<forall>a y. rs_auths st a = Some y \<longrightarrow> reco_auth_ok y \<and> (ra_deleting y \<longleftrightarrow> a \<in> set del) \<and> a < rs_next st \<and>
        (\<forall>g. ra_game y = Some g \<longrightarrow> (\<exists>x. rs_games st g = Some x \<and> rg_auth x = Some a))) \<and>
     (\<forall>g x. rs_games st g = Some x \<longrightarrow> stream_inv (rg_stream x) \<and> g < rs_next st \<and>
        (\<forall>a. rg_auth x = Some a \<longrightarrow> (\<exists>y. rs_auths st a = Some y \<and> ra_game y = Some g))) \<and>
     distinct del \<and> (\<forall>a \<in> set del. rs_auths st a \<noteq> None) \<and>
     um_wf (rs_servers st) \<and>
     (\<forall>i a. um_find (rs_servers st) i = Some a \<longrightarrow> (\<exists>y. rs_auths st a = Some y \<and> ga_idx (ra_login y) = i))"

definition reco_inv :: "reco_state \<Rightarrow> bool" where
  "reco_inv st \<longleftrightarrow> reco_inv_with (rs_toDelete st) st"

section \<open>Changes of one session\<close>

definition upd :: "reco_state \<Rightarrow> nat \<Rightarrow> reco_auth \<Rightarrow> int list \<Rightarrow> reco_out list \<Rightarrow> reco_state" where
  "upd st a y rs os = st\<lparr>rs_auths := (rs_auths st)(a \<mapsto> y), rs_results := rs, rs_out := os\<rparr>"

lemma upd_simps [simp]:
  "upd (upd st a y rs os) a y' rs' os' = upd st a y' rs' os'"
  "rs_auths (upd st a y rs os) = (rs_auths st)(a \<mapsto> y)" "rs_games (upd st a y rs os) = rs_games st"
  "rs_servers (upd st a y rs os) = rs_servers st" "rs_toDelete (upd st a y rs os) = rs_toDelete st"
  "rs_next (upd st a y rs os) = rs_next st" "rs_results (upd st a y rs os) = rs" "rs_out (upd st a y rs os) = os"
  by (simp_all add: upd_def)

lemma modAuth_upd: "rs_auths st a = Some y \<Longrightarrow> modAuth a f st = Some (upd st a (f y) (rs_results st) (rs_out st))"
  by (simp add: modAuth_def upd_def)

text \<open>What writing to a stream, and closing it, may do to it.\<close>

definition carry :: "bool \<Rightarrow> net_stream \<Rightarrow> net_stream \<Rightarrow> bool" where
  "carry closed s t \<longleftrightarrow> stream_inv t \<and>
     (t = s \<or> (st_state s \<noteq> UnconnectedState \<and> st_state s \<noteq> ClosingState \<and> st_state t = ClosingState \<and> (st_causedByRemote t \<or> closed)))"

lemma carry_refl: "stream_inv s \<Longrightarrow> carry c s s"
  by (simp add: carry_def)

lemma carry_trans: "carry c s t \<Longrightarrow> carry d t u \<Longrightarrow> carry (c \<or> d) s u"
  by (auto simp: carry_def)

lemma carry_mono: "carry c s t \<Longrightarrow> (c \<Longrightarrow> d) \<Longrightarrow> carry d s t"
  by (auto simp: carry_def)

lemma carry_state:
  assumes "carry c s t"
  shows "stream_inv t" "st_state t = ConnectedState \<Longrightarrow> st_state s = ConnectedState" "activeStream s \<Longrightarrow> activeStream t"
    "st_state s \<noteq> UnconnectedState \<Longrightarrow> st_state t \<noteq> UnconnectedState"
    "st_state t = ClosingState \<Longrightarrow> \<not> st_causedByRemote t \<Longrightarrow> c \<or> (st_state s = ClosingState \<and> \<not> st_causedByRemote s)"
  using assms by (auto simp: carry_def activeStream_def)

lemma write_carry: "stream_inv s \<Longrightarrow> \<exists>n t. streamWrite r [] s = Some (n, t) \<and> carry False s t"
proof (cases "st_state s = ConnectedState \<and> r < 0")
  case True
  assume i: "stream_inv s"
  obtain t where t: "onStreamError r s = Some t" "stream_inv t" using inv_error [OF i] by blast
  then have "st_state t = ClosingState" "st_causedByRemote t" using True
    by (auto simp: onStreamError_def streamAbort_def setState_def uv_close_def Let_def split: if_splits)
  then show ?thesis using t True by (simp add: streamWrite_def carry_def)
next
  case False
  assume "stream_inv s"
  then show ?thesis using False by (auto simp: streamWrite_def carry_def)
qed

lemma close_carry:
  "stream_inv s \<Longrightarrow> \<exists>t. streamClose r False s = Some t \<and> carry True s t \<and> st_state t \<noteq> ConnectedState \<and>
    (st_state s = UnconnectedState \<or> st_state s = ClosingState \<longrightarrow> t = s) \<and> (st_state s \<noteq> UnconnectedState \<longrightarrow> st_state t = ClosingState)"
proof -
  assume i: "stream_inv s"
  obtain t where t: "streamClose r False s = Some t" "stream_inv t" using inv_close [OF i] by blast
  moreover have "st_state s \<noteq> UnconnectedState \<Longrightarrow> st_state s \<noteq> ClosingState \<Longrightarrow> st_state t = ClosingState"
    using t(1) by (auto simp: streamClose_def setState_def uv_close_def Let_def split: if_splits)
  moreover have "st_state s = UnconnectedState \<or> st_state s = ClosingState \<Longrightarrow> t = s"
    using t(1) by (auto simp: streamClose_def Let_def)
  ultimately show ?thesis
    by (cases "st_state s = UnconnectedState \<or> st_state s = ClosingState") (auto simp: carry_def)
qed

section \<open>Sending\<close>

text \<open>Every operation on a session changes its record, the pending results and the output; sending changes three fields.\<close>

definition session :: "reco_auth \<Rightarrow> net_stream \<Rightarrow> bool \<Rightarrow> ga_message list \<Rightarrow> reco_auth" where
  "session y t b q = y\<lparr>ra_stream := Some t, ra_sentLogin := b, ra_pending := q\<rparr>"

lemma session_simps [simp]:
  "session (session y t b q) t' b' q' = session y t' b' q'" "ra_stream (session y t b q) = Some t" "stream_of (session y t b q) = t"
  "ra_sentLogin (session y t b q) = b" "ra_pending (session y t b q) = q" "ra_game (session y t b q) = ra_game y"
  "ra_login (session y t b q) = ra_login y" "ra_guid (session y t b q) = ra_guid y" "ra_pendingLogin (session y t b q) = ra_pendingLogin y"
  "ra_synchronized (session y t b q) = ra_synchronized y" "ra_timer (session y t b q) = ra_timer y"
  "ra_accounts (session y t b q) = ra_accounts y" "ra_deleting (session y t b q) = ra_deleting y"
  by (simp_all add: session_def stream_of_def)

lemma session_id: "ra_stream y = Some s \<Longrightarrow> session y s (ra_sentLogin y) (ra_pending y) = y"
  by (simp add: session_def)

lemma session_upds:
  "y\<lparr>ra_stream := Some t\<rparr> = session y t (ra_sentLogin y) (ra_pending y)"
  "(session y t b q)\<lparr>ra_sentLogin := b'\<rparr> = session y t b' q" "(session y t b q)\<lparr>ra_pending := q'\<rparr> = session y t b q'"
  by (simp_all add: session_def)

text \<open>\<open>sends f st a y s c\<close>: the operation \<open>f\<close> sends on session \<open>a\<close>, \<open>y\<close> with stream \<open>s\<close>.\<close>

definition sends :: "(reco_state \<Rightarrow> reco_state option) \<Rightarrow> reco_state \<Rightarrow> nat \<Rightarrow> reco_auth \<Rightarrow> net_stream \<Rightarrow> bool \<Rightarrow>
    (net_stream \<Rightarrow> ga_message list \<Rightarrow> bool) \<Rightarrow> bool" where
  "sends f st a y s c Q \<longleftrightarrow> (\<exists>t b q rs os. f st = Some (upd st a (session y t b q) rs os) \<and> carry c s t \<and> Q t q)"

lemma sendsI: "f st = Some (upd st a (session y t b q) rs os) \<Longrightarrow> carry c s t \<Longrightarrow> Q t q \<Longrightarrow> sends f st a y s c Q"
  unfolding sends_def by blast

lemma sendsE:
  assumes "sends f st a y s c Q"
  obtains t b q rs os where "f st = Some (upd st a (session y t b q) rs os)" "carry c s t" "Q t q"
  using assms unfolding sends_def by blast

lemma writeAuth_sends:
  assumes "rs_auths st a = Some y" "ra_stream y = Some s" "stream_inv s"
  shows "sends (writeAuth a m) st a y s False (\<lambda>t q. q = ra_pending y)"
proof -
  obtain n t where t: "streamWrite (nextResult st) [] s = Some (n, t)" "carry False s t" using write_carry [OF assms(3)] by blast
  let ?os = "if connectedStream s \<and> 0 \<le> nextResult st then rs_out st @ [ToAuthServer a m] else rs_out st"
  have "writeAuth a m st = Some (upd st a (session y t (ra_sentLogin y) (ra_pending y)) (tl (rs_results st)) ?os)"
    using assms(1,2) t(1) by (simp add: writeAuth_def dropResult_def modAuth_def upd_def recoEmit_def session_upds)
  then show ?thesis using t(2) by (rule sendsI) simp
qed

lemma closeAuth_sends:
  assumes "rs_auths st a = Some y" "ra_stream y = Some s" "stream_inv s"
  shows "sends (closeAuth a) st a y s True (\<lambda>t q. q = ra_pending y \<and> st_state t \<noteq> ConnectedState \<and>
    (st_state s \<noteq> UnconnectedState \<longrightarrow> st_state t = ClosingState))"
proof -
  obtain t where t: "streamClose (nextResult st) False s = Some t" "carry True s t" "st_state t \<noteq> ConnectedState"
      "st_state s \<noteq> UnconnectedState \<longrightarrow> st_state t = ClosingState"
    using close_carry [OF assms(3)] by blast
  have "closeAuth a st = Some (upd st a (session y t (ra_sentLogin y) (ra_pending y)) (tl (rs_results st)) (rs_out st))"
    using assms(1,2) t(1) by (simp add: closeAuth_def dropResult_def modAuth_def upd_def session_upds)
  then show ?thesis using t(2) by (rule sendsI) (simp add: t(3,4))
qed

definition closes :: "ga_message \<Rightarrow> bool" where
  "closes m \<longleftrightarrow> gaMessageId m = TS_GA_LOGOUT_ID"

lemma network_sends:
  assumes "rs_auths st a = Some y" "ra_stream y = Some s" "stream_inv s"
  shows "sends (sendPacketToNetwork a m) st a y s (closes m) (\<lambda>t q. q = ra_pending y)"
proof -
  obtain t b q rs os where w: "writeAuth a m st = Some (upd st a (session y t b q) rs os)" "carry False s t" "q = ra_pending y"
    using writeAuth_sends [OF assms] by (rule sendsE)
  let ?st = "upd st a (session y t b q) rs os"
  have here: "rs_auths ?st a = Some (session y t b q)" "ra_stream (session y t b q) = Some t" "stream_inv t"
    using carry_state(1) [OF w(2)] by simp_all
  have c: "carry (closes m) s t" using w(2) by (rule carry_mono) simp
  show ?thesis
  proof (cases "gaMessageId m = TS_GA_LOGIN_EXT_ID")
    case True
    then have "sendPacketToNetwork a m st = Some (upd st a (session y t True q) rs os)"
      using w(1) by (simp add: sendPacketToNetwork_def modAuth_upd [OF here(1)] session_upds)
    then show ?thesis using c by (rule sendsI) (rule w(3))
  next
    case notLogin: False
    show ?thesis
    proof (cases "closes m")
      case True
      obtain u b' q' rs' os' where u: "closeAuth a ?st = Some (upd ?st a (session (session y t b q) u b' q') rs' os')"
          "carry True t u" "q' = ra_pending (session y t b q)"
        using closeAuth_sends [OF here] by (rule sendsE) blast
      have "sendPacketToNetwork a m st = Some (upd st a (session y u b' q') rs' os')"
        using w(1) u(1) notLogin True by (simp add: sendPacketToNetwork_def closes_def)
      then show ?thesis using carry_trans [OF w(2) u(2)] True w(3) u(3) by (auto intro: sendsI)
    next
      case False
      then have "sendPacketToNetwork a m st = Some ?st"
        using w(1) notLogin by (simp add: sendPacketToNetwork_def closes_def)
      then show ?thesis using c by (rule sendsI) (rule w(3))
    qed
  qed
qed

lemma sends_seq:
  assumes "sends f st a y s c P" "\<And>st y t. rs_auths st a = Some y \<Longrightarrow> ra_stream y = Some t \<Longrightarrow> stream_inv t \<Longrightarrow> sends g st a y t d (Q y)"
    and "\<And>t b q u r. P t q \<Longrightarrow> carry d t u \<Longrightarrow> Q (session y t b q) u r \<Longrightarrow> R u r"
  shows "sends (\<lambda>st. Option.bind (f st) g) st a y s (c \<or> d) R"
proof -
  obtain t b q rs os where t: "f st = Some (upd st a (session y t b q) rs os)" "carry c s t" "P t q" using assms(1) by (rule sendsE)
  have "sends g (upd st a (session y t b q) rs os) a (session y t b q) t d (Q (session y t b q))"
    using carry_state(1) [OF t(2)] by (intro assms(2)) simp_all
  then obtain u b' q' rs' os' where u: "g (upd st a (session y t b q) rs os) = Some (upd st a (session y u b' q') rs' os')"
      "carry d t u" "Q (session y t b q) u q'"
    by (rule sendsE) simp
  have "Option.bind (f st) g = Some (upd st a (session y u b' q') rs' os')" using t(1) u(1) by simp
  then show ?thesis using carry_trans [OF t(2) u(2)] assms(3) [OF t(3) u(2,3)] by (rule sendsI)
qed

lemma sendAllNetwork_sends:
  assumes "rs_auths st a = Some y" "ra_stream y = Some s" "stream_inv s"
  shows "sends (sendAllToNetwork a ms) st a y s (hasLogout ms) (\<lambda>t q. q = ra_pending y)"
  using assms
proof (induction ms arbitrary: st y s)
  case Nil
  then have "sendAllToNetwork a [] st = Some (upd st a (session y s (ra_sentLogin y) (ra_pending y)) (rs_results st) (rs_out st))"
    by (simp add: session_id upd_def fun_upd_idem)
  then show ?case using carry_refl [OF Nil(3)] by (rule sendsI) simp
next
  case (Cons m ms)
  have "sends (\<lambda>st. Option.bind (sendPacketToNetwork a m st) (sendAllToNetwork a ms)) st a y s (closes m \<or> hasLogout ms)
      (\<lambda>t q. q = ra_pending y)"
    by (rule sends_seq [OF network_sends [OF Cons.prems] Cons.IH]) auto
  then show ?case by (simp add: hasLogout_def closes_def)
qed

lemma sendToAuth_sends:
  assumes "rs_auths st a = Some y" "ra_stream y = Some s" "stream_inv s"
  shows "sends (sendToAuth a m) st a y s (closes m) (\<lambda>t q. (q = ra_pending y \<and> ra_synchronized y) \<or>
    (q = ra_pending y @ [m] \<and> t = s \<and> \<not> (connectedStream s \<and> ra_synchronized y)))"
proof (cases "authConnected y \<and> ra_synchronized y")
  case True
  obtain t b q rs os where "sendPacketToNetwork a m st = Some (upd st a (session y t b q) rs os)" "carry (closes m) s t" "q = ra_pending y"
    using network_sends [OF assms] by (rule sendsE)
  then show ?thesis using True assms(1) by (intro sendsI [of _ _ a y t b q rs os]) (simp_all add: sendToAuth_def)
next
  case False
  let ?y = "session y s (ra_sentLogin y) (ra_pending y @ [m])"
  have "y\<lparr>ra_pending := ra_pending y @ [m]\<rparr> = ?y" using assms(2) by (simp add: session_def)
  then have "sendToAuth a m st = Some (upd st a ?y (rs_results st) (rs_out st))"
    using False assms(1) by (simp add: sendToAuth_def modAuth_upd del: de_Morgan_conj)
  then show ?thesis using carry_refl [OF assms(3)]
    by (rule sendsI) (use False assms(2) in \<open>simp add: authConnected_def\<close>)
qed

lemma sendAllToAuth_sends:
  assumes "rs_auths st a = Some y" "ra_stream y = Some s" "stream_inv s"
  shows "sends (sendAllToAuth a ms) st a y s (hasLogout ms) (\<lambda>t q. set q \<subseteq> set (ra_pending y) \<union> set ms)"
  using assms
proof (induction ms arbitrary: st y s)
  case Nil
  then have "sendAllToAuth a [] st = Some (upd st a (session y s (ra_sentLogin y) (ra_pending y)) (rs_results st) (rs_out st))"
    by (simp add: session_id upd_def fun_upd_idem)
  then show ?case using carry_refl [OF Nil(3)] by (rule sendsI) simp
next
  case (Cons m ms)
  have "sends (\<lambda>st. Option.bind (sendToAuth a m st) (sendAllToAuth a ms)) st a y s (closes m \<or> hasLogout ms)
      (\<lambda>t q. set q \<subseteq> set (ra_pending y) \<union> set (m # ms))"
    by (rule sends_seq [OF sendToAuth_sends [OF Cons.prems] Cons.IH]) auto
  then show ?case by (simp add: hasLogout_def closes_def)
qed

lemma hasLogout_sub: "hasLogout q \<Longrightarrow> set q \<subseteq> set p \<union> set ms \<Longrightarrow> hasLogout p \<or> hasLogout ms"
  unfolding hasLogout_def by blast

lemma sendPending_sends:
  assumes "rs_auths st a = Some y" "ra_stream y = Some s" "stream_inv s"
  shows "sends (sendPendingMessages a) st a y s (hasLogout (ra_pending y)) (\<lambda>t q. q = [])"
proof -
  obtain t b q rs os where t: "sendAllToNetwork a (ra_pending y) st = Some (upd st a (session y t b q) rs os)"
      "carry (hasLogout (ra_pending y)) s t"
    using sendAllNetwork_sends [OF assms] by (rule sendsE) blast
  have "sendPendingMessages a st = Some (upd st a (session y t b []) rs os)"
    using assms(1) t(1) by (simp add: sendPendingMessages_def modAuth_upd [where y = "session y t b q"] session_upds)
  then show ?thesis using t(2) by (rule sendsI) simp
qed

lemma listPackets_plain: "m \<in> set (listPackets n buf as) \<Longrightarrow> gaMessageId m = 60003"
proof (induction n buf as rule: listPackets.induct)
  case (1 n buf as)
  from 1(2) show ?case
    by (subst (asm) listPackets.simps) (use 1(1) in \<open>auto simp: Let_def split: if_splits\<close>)
qed

lemma accountPackets_plain: "\<not> hasLogout (accountPackets as)"
  using listPackets_plain by (fastforce simp: hasLogout_def accountPackets_def Let_def)

lemma accountList_sends:
  assumes "rs_auths st a = Some y" "ra_stream y = Some s" "stream_inv s"
  shows "sends (sendAccountList a) st a (y\<lparr>ra_synchronized := True\<rparr>) s (hasLogout (ra_pending y)) (\<lambda>t q. q = [])"
proof -
  let ?y = "y\<lparr>ra_synchronized := True\<rparr>"
  let ?st = "upd st a ?y (rs_results st) (rs_out st)"
  have here: "rs_auths ?st a = Some ?y" "ra_stream ?y = Some s" using assms(2) by simp_all
  obtain t b q rs os where t: "sendAllToAuth a (accountPackets (ra_accounts y)) ?st = Some (upd ?st a (session ?y t b q) rs os)"
      "carry (hasLogout (accountPackets (ra_accounts y))) s t" "set q \<subseteq> set (ra_pending ?y) \<union> set (accountPackets (ra_accounts y))"
    using sendAllToAuth_sends [OF here assms(3)] by (rule sendsE)
  let ?st2 = "upd st a (session ?y t b q) rs os"
  have here2: "rs_auths ?st2 a = Some (session ?y t b q)" "ra_stream (session ?y t b q) = Some t" "stream_inv t"
    using carry_state(1) [OF t(2)] by simp_all
  obtain u b' rs' os' where u: "sendPendingMessages a ?st2 = Some (upd ?st2 a (session (session ?y t b q) u b' []) rs' os')"
      "carry (hasLogout q) t u"
    using sendPending_sends [OF here2] by (rule sendsE) auto
  have "hasLogout q \<Longrightarrow> hasLogout (ra_pending y)" using hasLogout_sub [OF _ t(3)] accountPackets_plain [of "ra_accounts y"] by auto
  then have "carry (hasLogout (ra_pending y)) s u"
    using carry_trans [OF t(2) u(2)] accountPackets_plain by (auto elim: carry_mono)
  moreover have "sendAccountList a st = Some (upd st a (session ?y u b' []) rs' os')"
    using assms(1) t(1) u(1) by (simp add: sendAccountList_def modAuth_upd)
  ultimately show ?thesis by (intro sendsI) simp_all
qed

section \<open>The invariant of a session\<close>

lemma auth_okD:
  assumes "reco_auth_ok y"
  shows "ra_stream y = Some (stream_of y)" "stream_inv (stream_of y)"
  using assms by (auto simp: reco_auth_ok_def stream_of_def)

lemma carry_auth_ok:
  assumes "reco_auth_ok y" "carry c (stream_of y) t" "c \<Longrightarrow> ra_game y = None" "hasLogout q \<Longrightarrow> ra_game y = None"
    and "ra_synchronized y \<Longrightarrow> st_state t = ConnectedState \<Longrightarrow> q = []"
  shows "reco_auth_ok (session y t b q)"
proof -
  note s = carry_state [OF assms(2)]
  have "st_state t \<noteq> UnconnectedState \<or> ra_deleting y \<or> ra_timer y" using assms(1) s(4) by (auto simp: reco_auth_ok_def)
  moreover have "st_state t = ClosingState \<Longrightarrow> \<not> st_causedByRemote t \<Longrightarrow> ra_game y = None"
    using s(5) assms(1,3) by (auto simp: reco_auth_ok_def)
  ultimately show ?thesis using assms(1,4,5) s(1,3) by (simp add: reco_auth_ok_def) blast
qed

lemma upd_inv:
  assumes "reco_inv st" "rs_auths st a = Some y" "reco_auth_ok y'" "ra_game y' = ra_game y" "ra_deleting y' = ra_deleting y"
    "ra_login y' = ra_login y"
  shows "reco_inv (upd st a y' rs os)"
proof -
  let ?st = "upd st a y' rs os"
  note i = assms(1) [unfolded reco_inv_def reco_inv_with_def]
  have y: "ra_deleting y \<longleftrightarrow> a \<in> set (rs_toDelete st)" "a < rs_next st"
      "\<And>g. ra_game y = Some g \<Longrightarrow> \<exists>x. rs_games st g = Some x \<and> rg_auth x = Some a"
    using i assms(2) by blast+
  have other: "\<exists>z'. rs_auths ?st b = Some z' \<and> ra_game z' = ra_game z \<and> ra_login z' = ra_login z" if "rs_auths st b = Some z" for b z
    using that assms(2,4,6) by (cases "b = a") auto
  have "reco_auth_ok z \<and> (ra_deleting z \<longleftrightarrow> b \<in> set (rs_toDelete st)) \<and> b < rs_next st \<and>
      (\<forall>g. ra_game z = Some g \<longrightarrow> (\<exists>x. rs_games st g = Some x \<and> rg_auth x = Some b))" if z: "rs_auths ?st b = Some z" for b z
  proof (cases "b = a")
    case True
    then have "z = y'" using z by simp
    then show ?thesis using y assms(3,4,5) True by simp
  next
    case False
    then have "rs_auths st b = Some z" using z by simp
    then show ?thesis using i by blast
  qed
  moreover have "stream_inv (rg_stream x) \<and> g < rs_next st \<and>
      (\<forall>b. rg_auth x = Some b \<longrightarrow> (\<exists>z. rs_auths ?st b = Some z \<and> ra_game z = Some g))" if x: "rs_games st g = Some x" for g x
  proof -
    have "\<exists>z. rs_auths ?st b = Some z \<and> ra_game z = Some g" if b: "rg_auth x = Some b" for b
    proof -
      obtain z where "rs_auths st b = Some z" "ra_game z = Some g" using i x b by blast
      then show ?thesis using other by fastforce
    qed
    then show ?thesis using i x by blast
  qed
  moreover have "\<exists>z. rs_auths ?st b = Some z \<and> ga_idx (ra_login z) = j" if b: "um_find (rs_servers st) j = Some b" for j b
  proof -
    obtain z where "rs_auths st b = Some z" "ga_idx (ra_login z) = j" using i b by blast
    then show ?thesis using other by fastforce
  qed
  moreover have "\<forall>b \<in> set (rs_toDelete st). rs_auths ?st b \<noteq> None" using i by auto
  ultimately show ?thesis using i unfolding reco_inv_def reco_inv_with_def by (simp del: upd_simps(2))
qed

lemma inv_session:
  assumes "reco_inv st" "rs_auths st a = Some y"
  shows "reco_auth_ok y" "ra_deleting y \<longleftrightarrow> a \<in> set (rs_toDelete st)" "a < rs_next st"
    "ra_game y = Some g \<Longrightarrow> \<exists>x. rs_games st g = Some x \<and> rg_auth x = Some a"
  using assms unfolding reco_inv_def reco_inv_with_def by blast+

lemma inv_game:
  assumes "reco_inv st" "rs_games st g = Some x"
  shows "stream_inv (rg_stream x)" "g < rs_next st" "rg_auth x = Some a \<Longrightarrow> \<exists>y. rs_auths st a = Some y \<and> ra_game y = Some g"
  using assms unfolding reco_inv_def reco_inv_with_def by blast+

section \<open>Losing the game server\<close>

text \<open>\<open>orphaned st a y st'\<close>: session \<open>a\<close>, before \<open>y\<close>, has no game server any more in \<open>st'\<close> and may be waiting to be deleted.\<close>

definition orphaned :: "reco_state \<Rightarrow> nat \<Rightarrow> reco_auth \<Rightarrow> reco_state \<Rightarrow> bool" where
  "orphaned st a y st' \<longleftrightarrow> (\<exists>y' del rs os. st' = (upd st a y' rs os)\<lparr>rs_toDelete := del\<rparr> \<and> reco_auth_ok y' \<and> ra_game y' = None \<and>
     ra_login y' = ra_login y \<and>
     (del = rs_toDelete st \<and> ra_deleting y' = ra_deleting y \<or> del = rs_toDelete st @ [a] \<and> \<not> ra_deleting y \<and> ra_deleting y'))"

lemma orphanedI:
  "st' = (upd st a y' rs os)\<lparr>rs_toDelete := del\<rparr> \<Longrightarrow> reco_auth_ok y' \<Longrightarrow> ra_game y' = None \<Longrightarrow> ra_login y' = ra_login y \<Longrightarrow>
    del = rs_toDelete st \<and> ra_deleting y' = ra_deleting y \<or> del = rs_toDelete st @ [a] \<and> \<not> ra_deleting y \<and> ra_deleting y' \<Longrightarrow>
    orphaned st a y st'"
  unfolding orphaned_def by blast

lemma upd_toDelete: "rs_toDelete st = L \<Longrightarrow> (upd st a y rs os)\<lparr>rs_toDelete := L\<rparr> = upd st a y rs os"
  by (auto simp: upd_def)

lemma deleteLater_orphans:
  assumes "rs_auths st1 a = Some y1" "st1 = upd st a y1 rs os" "ra_game y1 = None" "ra_login y1 = ra_login y"
    "ra_deleting y1 = ra_deleting y" "reco_auth_ok (y1\<lparr>ra_deleting := True\<rparr>)"
  shows "\<exists>st'. authDeleteLater a st1 = Some st' \<and> orphaned st a y st'"
proof (cases "ra_deleting y")
  case True
  have "y1\<lparr>ra_deleting := True\<rparr> = y1" using True assms(5) by simp
  then have ok: "reco_auth_ok y1" using assms(6) by simp
  have "authDeleteLater a st1 = Some st1" using assms(1,5) True by (simp add: authDeleteLater_def)
  moreover have "orphaned st a y st1"
    by (rule orphanedI [OF _ ok assms(3,4), where rs = rs and os = os and del = "rs_toDelete st"]) (simp_all add: assms(2,5) upd_toDelete)
  ultimately show ?thesis by blast
next
  case False
  let ?st = "(upd st a (y1\<lparr>ra_deleting := True\<rparr>) rs os)\<lparr>rs_toDelete := rs_toDelete st @ [a]\<rparr>"
  have "authDeleteLater a st1 = Some ?st"
    using assms(1,2,5) False by (simp add: authDeleteLater_def modAuth_def upd_def)
  moreover have "orphaned st a y ?st" using assms(3,4,6) False by (intro orphanedI [OF refl]) simp_all
  ultimately show ?thesis by blast
qed

lemma session_deleting: "(session y t b q)\<lparr>ra_deleting := d\<rparr> = session (y\<lparr>ra_deleting := d\<rparr>) t b q"
  by (simp add: session_def)

lemma without_game_ok:
  assumes "reco_auth_ok y"
  shows "reco_auth_ok (y\<lparr>ra_game := None, ra_pending := []\<rparr>)"
    "reco_auth_ok (y\<lparr>ra_game := None, ra_pending := [], ra_timer := False, ra_deleting := True\<rparr>)"
  using assms by (simp_all add: reco_auth_ok_def stream_of_def hasLogout_def)

lemma close_and_delete:
  assumes "reco_auth_ok y" "rs_auths st1 a = Some y1" "st1 = upd st a y1 rs os"
    and y1: "y1 = y\<lparr>ra_game := None, ra_pending := [], ra_timer := False\<rparr>"
  shows "\<exists>st2 y2 st'. closeAuth a st1 = Some st2 \<and> rs_auths st2 a = Some y2 \<and> \<not> authConnected y2 \<and>
    authDeleteLater a st2 = Some st' \<and> orphaned st a y st'"
proof -
  have s: "ra_stream y1 = Some (stream_of y)" "stream_inv (stream_of y)" using auth_okD [OF assms(1)] y1 by simp_all
  obtain t b q rs2 os2 where t: "closeAuth a st1 = Some (upd st1 a (session y1 t b q) rs2 os2)" "carry True (stream_of y) t"
      "q = ra_pending y1" "st_state t \<noteq> ConnectedState"
    using closeAuth_sends [OF assms(2) s] by (rule sendsE) blast
  let ?y2 = "session y1 t b q"
  have q: "q = []" using t(3) y1 by simp
  have st2: "upd st1 a ?y2 rs2 os2 = upd st a ?y2 rs2 os2" using assms(3) by simp
  have "reco_auth_ok (session (y1\<lparr>ra_deleting := True\<rparr>) t b [])"
    by (rule carry_auth_ok [OF _ _ _ _ refl, where c = True])
      (use without_game_ok(2) [OF assms(1)] t(2) y1 s in \<open>simp_all add: stream_of_def\<close>)
  then have ok: "reco_auth_ok (?y2\<lparr>ra_deleting := True\<rparr>)" using q by (simp add: session_deleting)
  have here: "rs_auths (upd st a ?y2 rs2 os2) a = Some ?y2" by simp
  obtain st' where "authDeleteLater a (upd st a ?y2 rs2 os2) = Some st'" "orphaned st a y st'"
    using deleteLater_orphans [OF here refl, of y] ok y1 by auto
  then show ?thesis using t(1,4) st2 here by (auto simp: authConnected_def connectedStream_def)
qed

lemma logout_orphans:
  assumes "reco_auth_ok y" "rs_auths st1 a = Some y1" "st1 = upd st a y1 rs os" "reco_auth_ok y1" "ra_game y1 = None" "ra_pending y1 = []"
    "ra_login y1 = ra_login y" "ra_deleting y1 = ra_deleting y"
  shows "\<exists>st'. sendToAuth a GaLogout st1 = Some st' \<and> orphaned st a y st'"
proof -
  obtain t b q rs2 os2 where t: "sendToAuth a GaLogout st1 = Some (upd st1 a (session y1 t b q) rs2 os2)"
      "carry (closes GaLogout) (stream_of y1) t"
      "(q = ra_pending y1 \<and> ra_synchronized y1) \<or>
       (q = ra_pending y1 @ [GaLogout] \<and> t = stream_of y1 \<and> \<not> (connectedStream (stream_of y1) \<and> ra_synchronized y1))"
    using sendToAuth_sends [OF assms(2) auth_okD [OF assms(4)]] by (rule sendsE)
  have ok: "reco_auth_ok (session y1 t b q)"
    using t(3) assms(5,6) by (intro carry_auth_ok [OF assms(4) t(2)]) (auto simp: connectedStream_def)
  have "orphaned st a y (upd st1 a (session y1 t b q) rs2 os2)"
    by (rule orphanedI [OF _ ok, where rs = rs2 and os = os2 and del = "rs_toDelete st"]) (simp_all add: assms upd_toDelete)
  then show ?thesis using t(1) by blast
qed

lemma disconnect_orphans:
  assumes "reco_auth_ok y" "rs_auths st a = Some y"
  shows "\<exists>st'. disconnectSession a st = Some st' \<and> orphaned st a y st'"
proof -
  let ?y1 = "y\<lparr>ra_game := None, ra_pending := []\<rparr>"
  let ?st1 = "upd st a ?y1 (rs_results st) (rs_out st)"
  have m: "modAuth a (\<lambda>y. y\<lparr>ra_game := None, ra_pending := []\<rparr>) st = Some ?st1" using modAuth_upd [OF assms(2)] by simp
  have here: "rs_auths ?st1 a = Some ?y1" by simp
  show ?thesis
  proof (cases "ra_sentLogin y")
    case True
    then show ?thesis
      using logout_orphans [OF assms(1) here refl without_game_ok(1) [OF assms(1)]] m assms(2) by (simp add: disconnectSession_def)
  next
    case False
    let ?y2 = "y\<lparr>ra_game := None, ra_pending := [], ra_timer := False\<rparr>"
    let ?st2 = "upd st a ?y2 (rs_results st) (rs_out st)"
    have m2: "modAuth a (\<lambda>y. y\<lparr>ra_timer := False\<rparr>) ?st1 = Some ?st2" using modAuth_upd [OF here] by simp
    have here2: "rs_auths ?st2 a = Some ?y2" by simp
    obtain st3 y3 st' where "closeAuth a ?st2 = Some st3" "rs_auths st3 a = Some y3" "\<not> authConnected y3"
        "authDeleteLater a st3 = Some st'" "orphaned st a y st'"
      using close_and_delete [OF assms(1) here2 refl refl] by blast
    then show ?thesis using False m m2 assms(2) by (simp add: disconnectSession_def)
  qed
qed

lemma forceClose_orphans:
  assumes "reco_auth_ok y" "rs_auths st a = Some y"
  shows "\<exists>st'. forceClose a st = Some st' \<and> orphaned st a y st'"
proof -
  let ?y1 = "y\<lparr>ra_game := None, ra_pending := [], ra_timer := False\<rparr>"
  let ?st1 = "upd st a ?y1 (rs_results st) (rs_out st)"
  have m: "modAuth a (\<lambda>y. y\<lparr>ra_game := None, ra_pending := [], ra_timer := False\<rparr>) st = Some ?st1"
    using modAuth_upd [OF assms(2)] by simp
  have here: "rs_auths ?st1 a = Some ?y1" by simp
  show ?thesis
  proof (cases "authConnected y")
    case True
    then have "st_state (stream_of y) = ConnectedState"
      using auth_okD [OF assms(1)] by (simp add: authConnected_def connectedStream_def)
    then have "reco_auth_ok ?y1" using assms(1) by (simp add: reco_auth_ok_def stream_of_def hasLogout_def)
    then show ?thesis using True logout_orphans [OF assms(1) here refl] m assms(2) by (simp add: forceClose_def)
  next
    case False
    obtain st3 y3 st' where "closeAuth a ?st1 = Some st3" "authDeleteLater a st3 = Some st'" "orphaned st a y st'"
      using close_and_delete [OF assms(1) here refl refl] by blast
    then show ?thesis using False m assms(2) by (simp add: forceClose_def)
  qed
qed

section \<open>The invariant of the proxy\<close>

lemma inv_intro:
  assumes "\<And>a y. rs_auths st a = Some y \<Longrightarrow> reco_auth_ok y \<and> (ra_deleting y \<longleftrightarrow> a \<in> set del) \<and> a < rs_next st \<and>
        (\<forall>g. ra_game y = Some g \<longrightarrow> (\<exists>x. rs_games st g = Some x \<and> rg_auth x = Some a))"
    and "\<And>g x. rs_games st g = Some x \<Longrightarrow> stream_inv (rg_stream x) \<and> g < rs_next st \<and>
        (\<forall>a. rg_auth x = Some a \<longrightarrow> (\<exists>y. rs_auths st a = Some y \<and> ra_game y = Some g))"
    and "distinct del" "\<And>a. a \<in> set del \<Longrightarrow> rs_auths st a \<noteq> None" "um_wf (rs_servers st)"
    and "\<And>i a. um_find (rs_servers st) i = Some a \<Longrightarrow> \<exists>y. rs_auths st a = Some y \<and> ga_idx (ra_login y) = i"
  shows "reco_inv_with del st"
  using assms unfolding reco_inv_with_def by blast

lemma reco_invD:
  assumes "reco_inv_with del st"
  shows "\<And>a y. rs_auths st a = Some y \<Longrightarrow> reco_auth_ok y \<and> (ra_deleting y \<longleftrightarrow> a \<in> set del) \<and> a < rs_next st \<and>
        (\<forall>g. ra_game y = Some g \<longrightarrow> (\<exists>x. rs_games st g = Some x \<and> rg_auth x = Some a))"
    and "\<And>g x. rs_games st g = Some x \<Longrightarrow> stream_inv (rg_stream x) \<and> g < rs_next st \<and>
        (\<forall>a. rg_auth x = Some a \<longrightarrow> (\<exists>y. rs_auths st a = Some y \<and> ra_game y = Some g))"
    and "distinct del" "\<And>a. a \<in> set del \<Longrightarrow> rs_auths st a \<noteq> None" "um_wf (rs_servers st)"
    and "\<And>i a. um_find (rs_servers st) i = Some a \<Longrightarrow> \<exists>y. rs_auths st a = Some y \<and> ga_idx (ra_login y) = i"
  using assms unfolding reco_inv_with_def by blast+

lemma orphaned_inv:
  assumes "reco_inv st" "rs_auths st a = Some y" "orphaned st a y st'"
    and G: "\<And>h x. G h = Some x \<Longrightarrow> h < rs_next st \<and> stream_inv (rg_stream x) \<and> rg_auth x \<noteq> Some a \<and> (rg_auth x = None \<or> rs_games st h = Some x)"
    and keep: "\<And>h x b. rs_games st h = Some x \<Longrightarrow> rg_auth x = Some b \<Longrightarrow> b \<noteq> a \<Longrightarrow> \<exists>x'. G h = Some x' \<and> rg_auth x' = Some b"
  shows "reco_inv (st'\<lparr>rs_games := G\<rparr>)"
proof -
  note i = reco_invD [OF assms(1) [unfolded reco_inv_def]]
  obtain y' del rs os where st': "st' = (upd st a y' rs os)\<lparr>rs_toDelete := del\<rparr>" and ok: "reco_auth_ok y'" and g: "ra_game y' = None"
      and l: "ra_login y' = ra_login y"
      and del: "del = rs_toDelete st \<and> ra_deleting y' = ra_deleting y \<or> del = rs_toDelete st @ [a] \<and> \<not> ra_deleting y \<and> ra_deleting y'"
    using assms(3) unfolding orphaned_def by blast
  let ?st = "st'\<lparr>rs_games := G\<rparr>"
  have auths: "rs_auths ?st = (rs_auths st)(a \<mapsto> y')" "rs_games ?st = G" "rs_next ?st = rs_next st" "rs_servers ?st = rs_servers st"
      "rs_toDelete ?st = del"
    using st' by simp_all
  have y: "ra_deleting y \<longleftrightarrow> a \<in> set (rs_toDelete st)" "a < rs_next st" using i(1) [OF assms(2)] by simp_all
  have "reco_inv_with del ?st"
  proof (rule inv_intro, unfold auths)
    fix b z assume z: "((rs_auths st)(a \<mapsto> y')) b = Some z"
    show "reco_auth_ok z \<and> (ra_deleting z \<longleftrightarrow> b \<in> set del) \<and> b < rs_next st \<and>
        (\<forall>h. ra_game z = Some h \<longrightarrow> (\<exists>x. G h = Some x \<and> rg_auth x = Some b))"
    proof (cases "b = a")
      case True
      then show ?thesis using z ok g y del by auto
    next
      case False
      then have old: "rs_auths st b = Some z" using z by simp
      have "\<exists>x. G h = Some x \<and> rg_auth x = Some b" if h: "ra_game z = Some h" for h
      proof -
        obtain x where "rs_games st h = Some x" "rg_auth x = Some b" using i(1) [OF old] h by blast
        then show ?thesis using keep False by blast
      qed
      then show ?thesis using i(1) [OF old] False del by auto
    qed
  next
    fix h x assume x: "G h = Some x"
    have "\<exists>z. ((rs_auths st)(a \<mapsto> y')) b = Some z \<and> ra_game z = Some h" if b: "rg_auth x = Some b" for b
    proof -
      have "rs_games st h = Some x" "b \<noteq> a" using G [OF x] b by auto
      then show ?thesis using i(2) b by fastforce
    qed
    then show "stream_inv (rg_stream x) \<and> h < rs_next st \<and>
        (\<forall>b. rg_auth x = Some b \<longrightarrow> (\<exists>z. ((rs_auths st)(a \<mapsto> y')) b = Some z \<and> ra_game z = Some h))"
      using G [OF x] by blast
  next
    show "distinct del" using i(3) del y(1) by auto
    show "((rs_auths st)(a \<mapsto> y')) b \<noteq> None" if "b \<in> set del" for b using that i(4) [of b] del by (cases "b = a") auto
    show "um_wf (rs_servers st)" by (rule i(5))
    show "\<exists>z. ((rs_auths st)(a \<mapsto> y')) b = Some z \<and> ga_idx (ra_login z) = j" if b: "um_find (rs_servers st) j = Some b" for j b
      using i(6) [OF b] assms(2) l by (cases "b = a") auto
  qed
  then show ?thesis using auths(5) by (simp add: reco_inv_def)
qed

lemma orphaned_games: "orphaned st a y st' \<Longrightarrow> rs_games st' = rs_games st"
  by (auto simp: orphaned_def)

lemma orphaned_alone:
  assumes "reco_inv st" "rs_auths st a = Some y" "orphaned st a y st'" "ra_game y = None"
  shows "reco_inv st'"
proof -
  note i = reco_invD [OF assms(1) [unfolded reco_inv_def]]
  have "reco_inv (st'\<lparr>rs_games := rs_games st\<rparr>)"
  proof (rule orphaned_inv [OF assms(1-3)])
    fix h x assume x: "rs_games st h = Some x"
    have "rg_auth x \<noteq> Some a" using i(2) [OF x] assms(2,4) by auto
    then show "h < rs_next st \<and> stream_inv (rg_stream x) \<and> rg_auth x \<noteq> Some a \<and> (rg_auth x = None \<or> rs_games st h = Some x)"
      using i(2) [OF x] x by blast
  qed blast
  moreover have "st'\<lparr>rs_games := rs_games st\<rparr> = st'" using orphaned_games [OF assms(3)] by simp
  ultimately show ?thesis by simp
qed

text \<open>The game server that loses its session: with another record, or none.\<close>

lemma orphaned_game:
  assumes "reco_inv st" "rs_auths st a = Some y" "orphaned st a y st'" "rs_games st g = Some x" "rg_auth x = Some a"
    and "\<And>x'. e = Some x' \<Longrightarrow> rg_auth x' = None \<and> stream_inv (rg_stream x')"
  shows "reco_inv (st'\<lparr>rs_games := (rs_games st)(g := e)\<rparr>)"
proof (rule orphaned_inv [OF assms(1-3)])
  note i = reco_invD [OF assms(1) [unfolded reco_inv_def]]
  have one: "h = g" if "rs_games st h = Some z" "rg_auth z = Some a" for h z
    using i(2) [OF that(1)] i(2) [OF assms(4)] that(2) assms(5) by auto
  fix h z assume z: "((rs_games st)(g := e)) h = Some z"
  show "h < rs_next st \<and> stream_inv (rg_stream z) \<and> rg_auth z \<noteq> Some a \<and> (rg_auth z = None \<or> rs_games st h = Some z)"
  proof (cases "h = g")
    case True
    then show ?thesis using z assms(6) i(2) [OF assms(4)] by simp
  next
    case False
    then have old: "rs_games st h = Some z" using z by simp
    then show ?thesis using i(2) [OF old] one [OF old] False by blast
  qed
next
  fix h z b assume "rs_games st h = Some z" "rg_auth z = Some b" "b \<noteq> a"
  then show "\<exists>x'. ((rs_games st)(g := e)) h = Some x' \<and> rg_auth x' = Some b" using assms(4,5) by (cases "h = g") auto
qed

text \<open>Changes of a game server's side that keep its session.\<close>

lemma game_inv:
  assumes "reco_inv st" "rs_games st g = Some x" "rg_auth x' = rg_auth x" "stream_inv (rg_stream x')"
  shows "reco_inv (st\<lparr>rs_games := (rs_games st)(g \<mapsto> x'), rs_results := rs, rs_out := os\<rparr>)"
proof -
  note i = reco_invD [OF assms(1) [unfolded reco_inv_def]]
  let ?G = "(rs_games st)(g \<mapsto> x')"
  have other: "\<exists>z'. ?G h = Some z' \<and> rg_auth z' = rg_auth z" if "rs_games st h = Some z" for h z
    using that assms(2,3) by (cases "h = g") auto
  have "reco_inv_with (rs_toDelete st) (st\<lparr>rs_games := ?G, rs_results := rs, rs_out := os\<rparr>)"
  proof (rule inv_intro)
    fix a y assume "rs_auths (st\<lparr>rs_games := ?G, rs_results := rs, rs_out := os\<rparr>) a = Some y"
    then have y: "rs_auths st a = Some y" by simp
    have "\<exists>x. ?G h = Some x \<and> rg_auth x = Some a" if "ra_game y = Some h" for h
      using i(1) [OF y] that other by fastforce
    then show "reco_auth_ok y \<and> (ra_deleting y \<longleftrightarrow> a \<in> set (rs_toDelete st)) \<and>
        a < rs_next (st\<lparr>rs_games := ?G, rs_results := rs, rs_out := os\<rparr>) \<and> (\<forall>h. ra_game y = Some h \<longrightarrow>
        (\<exists>x. rs_games (st\<lparr>rs_games := ?G, rs_results := rs, rs_out := os\<rparr>) h = Some x \<and> rg_auth x = Some a))"
      using i(1) [OF y] by simp
  next
    fix h z assume z: "rs_games (st\<lparr>rs_games := ?G, rs_results := rs, rs_out := os\<rparr>) h = Some z"
    show "stream_inv (rg_stream z) \<and> h < rs_next (st\<lparr>rs_games := ?G, rs_results := rs, rs_out := os\<rparr>) \<and>
        (\<forall>a. rg_auth z = Some a \<longrightarrow>
          (\<exists>y. rs_auths (st\<lparr>rs_games := ?G, rs_results := rs, rs_out := os\<rparr>) a = Some y \<and> ra_game y = Some h))"
      using z i(2) assms(2,3,4) by (cases "h = g") auto
  qed (use i(3-6) in auto)
  then show ?thesis by (simp add: reco_inv_def)
qed

lemma writeGame_inv:
  assumes "reco_inv st" "rs_games st g = Some x"
  shows "\<exists>t rs os. writeGame g m st = Some (st\<lparr>rs_games := (rs_games st)(g \<mapsto> x\<lparr>rg_stream := t\<rparr>), rs_results := rs, rs_out := os\<rparr>) \<and>
    stream_inv t \<and> reco_inv (st\<lparr>rs_games := (rs_games st)(g \<mapsto> x\<lparr>rg_stream := t\<rparr>), rs_results := rs, rs_out := os\<rparr>)"
proof -
  obtain n t where t: "streamWrite (nextResult st) [] (rg_stream x) = Some (n, t)" "carry False (rg_stream x) t"
    using write_carry inv_game(1) [OF assms] by blast
  let ?os = "if connectedStream (rg_stream x) \<and> 0 \<le> nextResult st then rs_out st @ [ToGameServer g m] else rs_out st"
  have "writeGame g m st = Some (st\<lparr>rs_games := (rs_games st)(g \<mapsto> x\<lparr>rg_stream := t\<rparr>), rs_results := tl (rs_results st), rs_out := ?os\<rparr>)"
    using assms(2) t(1) by (simp add: writeGame_def dropResult_def modRecoGame_def recoEmit_def)
  moreover have "reco_inv (st\<lparr>rs_games := (rs_games st)(g \<mapsto> x\<lparr>rg_stream := t\<rparr>), rs_results := tl (rs_results st), rs_out := ?os\<rparr>)"
    by (rule game_inv [OF assms]) (simp_all add: carry_state(1) [OF t(2)])
  ultimately show ?thesis using carry_state(1) [OF t(2)] by blast
qed

section \<open>Messages\<close>

lemma sendToAuth_inv:
  assumes "reco_inv st" "rs_auths st a = Some y" "\<not> closes m"
  shows "\<exists>st'. sendToAuth a m st = Some st' \<and> reco_inv st'"
proof -
  note ok = inv_session(1) [OF assms(1,2)]
  obtain t b q rs os where t: "sendToAuth a m st = Some (upd st a (session y t b q) rs os)" "carry (closes m) (stream_of y) t"
      "(q = ra_pending y \<and> ra_synchronized y) \<or>
       (q = ra_pending y @ [m] \<and> t = stream_of y \<and> \<not> (connectedStream (stream_of y) \<and> ra_synchronized y))"
    using sendToAuth_sends [OF assms(2) auth_okD [OF ok]] by (rule sendsE)
  have "hasLogout q \<Longrightarrow> hasLogout (ra_pending y)" using t(3) assms(3) by (auto simp: hasLogout_def closes_def)
  then have "reco_auth_ok (session y t b q)"
    using t(3) assms(3) ok carry_state(2) [OF t(2)]
    by (intro carry_auth_ok [OF ok t(2)]) (auto simp: reco_auth_ok_def connectedStream_def)
  then show ?thesis using t(1) upd_inv [OF assms(1,2)] by simp
qed

lemma fieldEq_defined: "CHR 0x00 \<in> set as \<Longrightarrow> length as \<le> length bs \<Longrightarrow> \<exists>b. fieldEq as bs = Some b"
proof (induction as arbitrary: bs)
  case (Cons a as)
  then show ?case by (cases bs) auto
qed simp

lemma eraseFirst_defined:
  "accounts_ok is \<Longrightarrow> length account = 61 \<Longrightarrow> \<exists>js. eraseFirst account is = Some js \<and> accounts_ok js"
proof (induction "is")
  case (Cons i "is")
  then obtain js where js: "eraseFirst account is = Some js" "accounts_ok js" by (auto simp: accounts_ok_def)
  have i: "length (ai_account i) = 61" "CHR 0x00 \<in> set (ai_account i)" using Cons.prems by (simp_all add: accounts_ok_def)
  obtain b where "fieldEq (ai_account i) account = Some b" using fieldEq_defined [OF i(2), of account] i(1) Cons.prems by auto
  then show ?case using js i Cons.prems by (auto simp: accounts_ok_def)
qed (simp add: accounts_ok_def)

lemma accountField_length: "61 \<le> length body \<Longrightarrow> \<exists>s. accountField body = Some s \<and> length s = 61"
  by (simp add: accountField_def)

lemma accounts_inv:
  assumes "reco_inv st" "rs_auths st a = Some y" "accounts_ok is"
  shows "reco_inv (upd st a (y\<lparr>ra_accounts := is\<rparr>) rs os)"
  using inv_session(1) [OF assms(1,2)] assms(3)
  by (intro upd_inv [OF assms(1,2)]) (simp_all add: reco_auth_ok_def stream_of_def)

lemma logoutClient_inv:
  assumes "reco_inv st" "rs_auths st a = Some y" "61 \<le> length body" "i \<noteq> TS_GA_LOGOUT_ID"
  shows "\<exists>st'. logoutClient a i body st = Some st' \<and> reco_inv st'"
proof -
  have ok: "accounts_ok (rev (ra_accounts y))" using inv_session(1) [OF assms(1,2)] by (simp add: reco_auth_ok_def accounts_ok_def)
  obtain account where f: "accountField body = Some account" "length account = 61" using accountField_length [OF assms(3)] by blast
  obtain js where js: "eraseFirst account (rev (ra_accounts y)) = Some js" "accounts_ok js" using eraseFirst_defined [OF ok f(2)] by blast
  let ?st = "upd st a (y\<lparr>ra_accounts := rev js\<rparr>) (rs_results st) (rs_out st)"
  have i: "reco_inv ?st" using js(2) by (intro accounts_inv [OF assms(1,2)]) (simp add: accounts_ok_def)
  have here: "rs_auths ?st a = Some (y\<lparr>ra_accounts := rev js\<rparr>)" by simp
  have m: "modAuth a (\<lambda>y. y\<lparr>ra_accounts := rev js\<rparr>) st = Some ?st" using modAuth_upd [OF assms(2)] by simp
  obtain st' where "sendToAuth a (GaPacket i body) ?st = Some st'" "reco_inv st'"
    using sendToAuth_inv [OF i here, of "GaPacket i body"] assms(4) by (auto simp: closes_def)
  then show ?thesis using assms(2) f(1) js(1) m i by (simp add: logoutClient_def)
qed

lemma clientLogin_inv:
  assumes "reco_inv st" "rs_games st g = Some x" "61 \<le> length body"
  shows "\<exists>st'. clientLogin g body st = Some st' \<and> reco_inv st'"
proof (cases "rg_auth x")
  case None
  then show ?thesis using assms(1,2) by (simp add: clientLogin_def)
next
  case (Some a)
  obtain y where y: "rs_auths st a = Some y" using inv_game(3) [OF assms(1,2) Some] by blast
  obtain account where "accountField body = Some account" using accountField_length [OF assms(3)] by blast
  then show ?thesis
    using assms(2) Some y writeGame_inv [OF assms(1,2)] sendToAuth_inv [OF assms(1) y, of "GaPacket 20010 body"]
    by (cases "ra_synchronized y") (fastforce simp: clientLogin_def closes_def)+
qed

section \<open>Connecting\<close>

lemma connect_stream:
  assumes "stream_inv s"
  shows "\<exists>ok t. streamConnect r s = Some (ok, t) \<and> stream_inv t \<and> st_state t \<noteq> UnconnectedState \<and>
    (st_state s \<noteq> UnconnectedState \<and> t = s \<or>
     st_state s = UnconnectedState \<and> (st_state t = ConnectingState \<or> st_state t = ClosingState \<and> st_causedByRemote t))"
proof -
  obtain t where t: "map_option snd (streamConnect r s) = Some t" "stream_inv t"
    using inv_step [OF assms, of "DoConnect r"] by auto
  then obtain ok where "streamConnect r s = Some (ok, t)" by auto
  then show ?thesis using t(2)
    by (auto simp: streamConnect_def onStreamError_def streamAbort_def setState_def uv_close_def Let_def split: if_splits)
qed

lemma timer_inv:
  assumes "reco_inv st" "rs_auths st a = Some y"
  shows "\<exists>st'. onTimerReconnect a st = Some st' \<and> reco_inv st'"
proof -
  note ok = inv_session(1) [OF assms]
  obtain c t where t: "streamConnect (nextResult st) (stream_of y) = Some (c, t)" "stream_inv t" "st_state t \<noteq> UnconnectedState"
      "st_state (stream_of y) \<noteq> UnconnectedState \<and> t = stream_of y \<or> st_state (stream_of y) = UnconnectedState \<and>
       (st_state t = ConnectingState \<or> st_state t = ClosingState \<and> st_causedByRemote t)"
    using connect_stream [OF auth_okD(2) [OF ok]] by blast
  let ?y = "y\<lparr>ra_timer := False, ra_stream := Some t\<rparr>"
  have "nextResult (upd st a z (rs_results st) os) = nextResult st" for z os by (simp add: nextResult_def)
  then have "onTimerReconnect a st = Some (upd st a ?y (tl (rs_results st)) (rs_out st))"
    using t(1) auth_okD(1) [OF ok]
    by (simp add: onTimerReconnect_def modAuth_upd [OF assms(2)] connectAuth_def) (simp add: modAuth_def dropResult_def upd_def)
  moreover have "reco_auth_ok ?y" using ok t by (auto simp: reco_auth_ok_def stream_of_def activeStream_def)
  ultimately show ?thesis using upd_inv [OF assms] by simp
qed

lemma new_auth_inv:
  assumes "reco_inv st" "rs_games st g = Some x" "rg_auth x = None" "reco_auth_ok y" "ra_game y = Some g" "\<not> ra_deleting y"
    and "ga_idx (ra_login y) = i" "rg_auth x' = Some (rs_next st)" "rg_stream x' = rg_stream x"
    and st': "rs_auths st' = (rs_auths st)(rs_next st \<mapsto> y)" "rs_games st' = (rs_games st)(g \<mapsto> x')" "rs_next st' = rs_next st + 1"
      "rs_servers st' = um_insert i (rs_next st) (rs_servers st)" "rs_toDelete st' = rs_toDelete st"
  shows "reco_inv st'"
proof -
  note i = reco_invD [OF assms(1) [unfolded reco_inv_def]]
  have fresh: "rs_auths st (rs_next st) = None"
  proof (rule ccontr)
    assume "rs_auths st (rs_next st) \<noteq> None"
    then obtain z where "rs_auths st (rs_next st) = Some z" by blast
    from i(1) [OF this] show False by simp
  qed
  have "reco_inv_with (rs_toDelete st) st'"
  proof (rule inv_intro, unfold st')
    fix b z assume z: "((rs_auths st)(rs_next st \<mapsto> y)) b = Some z"
    show "reco_auth_ok z \<and> (ra_deleting z \<longleftrightarrow> b \<in> set (rs_toDelete st)) \<and> b < rs_next st + 1 \<and>
        (\<forall>h. ra_game z = Some h \<longrightarrow> (\<exists>w. ((rs_games st)(g \<mapsto> x')) h = Some w \<and> rg_auth w = Some b))"
    proof (cases "b = rs_next st")
      case True
      then have "b \<notin> set (rs_toDelete st)" using i(4) fresh by blast
      then show ?thesis using True z assms(4,5,6,8) by auto
    next
      case False
      then have old: "rs_auths st b = Some z" using z by simp
      have "\<exists>w. ((rs_games st)(g \<mapsto> x')) h = Some w \<and> rg_auth w = Some b" if "ra_game z = Some h" for h
        using i(1) [OF old] that assms(2,3) by (cases "h = g") auto
      then show ?thesis using i(1) [OF old] by auto
    qed
  next
    fix h w assume w: "((rs_games st)(g \<mapsto> x')) h = Some w"
    show "stream_inv (rg_stream w) \<and> h < rs_next st + 1 \<and>
        (\<forall>b. rg_auth w = Some b \<longrightarrow> (\<exists>z. ((rs_auths st)(rs_next st \<mapsto> y)) b = Some z \<and> ra_game z = Some h))"
    proof (cases "h = g")
      case True
      then show ?thesis using w i(2) [OF assms(2)] assms(5,8,9) by auto
    next
      case False
      then have old: "rs_games st h = Some w" using w by simp
      have "\<exists>z. ((rs_auths st)(rs_next st \<mapsto> y)) b = Some z \<and> ra_game z = Some h" if "rg_auth w = Some b" for b
        using i(2) [OF old] that fresh by (cases "b = rs_next st") auto
      then show ?thesis using i(2) [OF old] by auto
    qed
  next
    show "distinct (rs_toDelete st)" by (rule i(3))
    show "((rs_auths st)(rs_next st \<mapsto> y)) b \<noteq> None" if "b \<in> set (rs_toDelete st)" for b using i(4) [OF that] by simp
    show "um_wf (um_insert i (rs_next st) (rs_servers st))" using i(5) by (rule um.wf_insert)
    show "\<exists>z. ((rs_auths st)(rs_next st \<mapsto> y)) b = Some z \<and> ga_idx (ra_login z) = j"
      if b: "um_find (um_insert i (rs_next st) (rs_servers st)) j = Some b" for j b
      using b i(6) [of j b] fresh assms(7) by (auto simp: um.find_insert split: if_splits)
  qed
  then show ?thesis using st'(5) by (simp add: reco_inv_def)
qed

lemma serverLogin_inv:
  assumes "reco_inv st" "rs_games st g = Some x"
  shows "\<exists>st'. serverLogin g packet guid st = Some st' \<and> reco_inv st'"
proof (cases "rg_auth x")
  case (Some a)
  then show ?thesis using assms(2) writeGame_inv [OF assms] by (fastforce simp: serverLogin_def)
next
  case None
  let ?login = "packet\<lparr>ga_name := convertToString (ga_name packet) 20, ga_ip := convertToString (ga_ip packet) 15,
    ga_url := convertToString (ga_url packet) 255\<rparr>"
  let ?a = "rs_next st"
  let ?x = "x\<lparr>rg_auth := Some ?a, rg_serverIdx := ga_idx packet\<rparr>"
  let ?st = "st\<lparr>rs_auths := (rs_auths st)(?a \<mapsto> newAuth g ?login guid), rs_next := ?a + 1,
     rs_servers := um_insert (ga_idx packet) ?a (rs_servers st), rs_games := (rs_games st)(g \<mapsto> ?x)\<rparr>"
  obtain c t where t: "streamConnect (nextResult st) newStream = Some (c, t)" "stream_inv t" "st_state t \<noteq> UnconnectedState"
      "st_state t = ConnectingState \<or> st_state t = ClosingState \<and> st_causedByRemote t"
    using connect_stream [OF stream_inv_new, of "nextResult st"] by (auto simp: newStream_def)
  let ?y = "(newAuth g ?login guid)\<lparr>ra_stream := Some t\<rparr>"
  let ?st' = "?st\<lparr>rs_auths := (rs_auths st)(?a \<mapsto> ?y), rs_results := tl (rs_results st)\<rparr>"
  have "serverLogin g packet guid st = connectAuth ?a ?st"
    using assms(2) None by (simp add: serverLogin_def modRecoGame_def Let_def)
  moreover have "connectAuth ?a ?st = Some ?st'"
    using t(1) by (simp add: connectAuth_def modAuth_def dropResult_def newAuth_def nextResult_def)
  moreover have "reco_auth_ok ?y" using t
    by (auto simp: reco_auth_ok_def stream_of_def newAuth_def hasLogout_def accounts_ok_def)
  then have "reco_inv ?st'"
    by (rule new_auth_inv [OF assms None, where x' = ?x and i = "ga_idx packet"]) (simp_all add: newAuth_def)
  ultimately show ?thesis by simp
qed

section \<open>Answers of the authentication server\<close>

lemma disconnectAuth_inv:
  assumes "reco_inv st" "rs_games st g = Some x"
  shows "\<exists>st'. disconnectAuth g st = Some st' \<and> reco_inv st'"
proof (cases "rg_auth x")
  case None
  then show ?thesis using assms by (simp add: disconnectAuth_def)
next
  case (Some a)
  obtain y where y: "rs_auths st a = Some y" using inv_game(3) [OF assms Some] by blast
  obtain st' where d: "disconnectSession a st = Some st'" "orphaned st a y st'"
    using disconnect_orphans [OF inv_session(1) [OF assms(1) y] y] by blast
  have "disconnectAuth g st = Some (st'\<lparr>rs_games := (rs_games st)(g \<mapsto> x\<lparr>rg_auth := None\<rparr>)\<rparr>)"
    using assms(2) Some d orphaned_games [OF d(2)] by (simp add: disconnectAuth_def modRecoGame_def)
  moreover have "reco_inv (st'\<lparr>rs_games := (rs_games st)(g \<mapsto> x\<lparr>rg_auth := None\<rparr>)\<rparr>)"
    using inv_game(1) [OF assms] by (intro orphaned_game [OF assms(1) y d(2) assms(2) Some]) auto
  ultimately show ?thesis by blast
qed

lemma accountList_inv:
  assumes "reco_inv st" "rs_auths st a = Some y" "\<not> ra_pendingLogin y" "activeStream (stream_of y)"
  shows "\<exists>st'. sendAccountList a st = Some st' \<and> reco_inv st'"
proof -
  note ok = inv_session(1) [OF assms(1,2)]
  obtain t b q rs os where t: "sendAccountList a st = Some (upd st a (session (y\<lparr>ra_synchronized := True\<rparr>) t b q) rs os)"
      "carry (hasLogout (ra_pending y)) (stream_of y) t" "q = []"
    using accountList_sends [OF assms(2) auth_okD [OF ok]] by (rule sendsE)
  have "reco_auth_ok (session y t b [])"
    using ok by (intro carry_auth_ok [OF ok t(2)]) (auto simp: reco_auth_ok_def hasLogout_def)
  then have "reco_auth_ok (session (y\<lparr>ra_synchronized := True\<rparr>) t b [])"
    using assms(3) carry_state(3) [OF t(2) assms(4)] by (simp add: reco_auth_ok_def session_def stream_of_def hasLogout_def)
  then show ?thesis using t(1,3) upd_inv [OF assms(1,2)] by simp
qed

lemma loginRefused_inv:
  assumes "reco_inv st" "rs_auths st a = Some y"
  shows "\<exists>st'. Option.bind (modAuth a (\<lambda>y. y\<lparr>ra_sentLogin := False\<rparr>) st)
    (\<lambda>st. case ra_game y of None \<Rightarrow> disconnectSession a st | Some g \<Rightarrow> disconnectAuth g st) = Some st' \<and> reco_inv st'"
proof -
  let ?y = "y\<lparr>ra_sentLogin := False\<rparr>"
  let ?st = "upd st a ?y (rs_results st) (rs_out st)"
  have ok: "reco_auth_ok ?y" using inv_session(1) [OF assms] by (simp add: reco_auth_ok_def stream_of_def)
  then have i: "reco_inv ?st" by (rule upd_inv [OF assms]) simp_all
  have here: "rs_auths ?st a = Some ?y" by simp
  show ?thesis
  proof (cases "ra_game y")
    case None
    obtain st' where "disconnectSession a ?st = Some st'" "orphaned ?st a ?y st'" using disconnect_orphans [OF ok here] by blast
    then show ?thesis using orphaned_alone [OF i here] None modAuth_upd [OF assms(2)] by simp
  next
    case (Some g)
    obtain x where "rs_games ?st g = Some x" using inv_session(4) [OF assms Some] by auto
    then show ?thesis using disconnectAuth_inv [OF i] Some modAuth_upd [OF assms(2)] by simp
  qed
qed

lemma onLoginResult_inv:
  assumes "reco_inv st" "rs_auths st a = Some y"
  shows "\<exists>st'. onLoginResult a r st = Some st' \<and> reco_inv st'"
proof (cases "ra_pendingLogin y")
  case False
  then show ?thesis using assms by (simp add: onLoginResult_def)
next
  case True
  note ok = inv_session(1) [OF assms]
  let ?y = "y\<lparr>ra_pendingLogin := False\<rparr>"
  let ?st = "upd st a ?y (rs_results st) (rs_out st)"
  have y: "activeStream (stream_of ?y)" "\<not> ra_pendingLogin ?y" "\<not> ra_synchronized y"
    using ok True by (simp_all add: reco_auth_ok_def stream_of_def)
  have "reco_auth_ok ?y" using ok by (simp add: reco_auth_ok_def stream_of_def)
  then have i: "reco_inv ?st" by (rule upd_inv [OF assms]) simp_all
  have "\<exists>st2. (case ra_game y of Some g \<Rightarrow> writeGame g (GmLoginResult r) ?st | None \<Rightarrow> Some ?st) = Some st2 \<and>
      reco_inv st2 \<and> rs_auths st2 a = Some ?y"
  proof (cases "ra_game y")
    case None
    then show ?thesis using i by simp
  next
    case (Some g)
    obtain x where "rs_games ?st g = Some x" using inv_session(4) [OF assms Some] by auto
    then show ?thesis using writeGame_inv [OF i, of g x "GmLoginResult r"] Some by auto
  qed
  then obtain st2 where st2: "(case ra_game y of Some g \<Rightarrow> writeGame g (GmLoginResult r) ?st | None \<Rightarrow> Some ?st) = Some st2"
      "reco_inv st2" "rs_auths st2 a = Some ?y"
    by blast
  show ?thesis
  proof (cases "r = TS_RESULT_SUCCESS")
    case True
    obtain st' where "sendAccountList a st2 = Some st'" "reco_inv st'" using accountList_inv [OF st2(2,3) y(2,1)] by blast
    then show ?thesis using assms(2) \<open>ra_pendingLogin y\<close> True st2(1) [unfolded True] by (simp add: onLoginResult_def modAuth_upd)
  next
    case False
    obtain st' where "Option.bind (modAuth a (\<lambda>y. y\<lparr>ra_sentLogin := False\<rparr>) st2)
        (\<lambda>st. case ra_game ?y of None \<Rightarrow> disconnectSession a st | Some g \<Rightarrow> disconnectAuth g st) = Some st'" "reco_inv st'"
      using loginRefused_inv [OF st2(2,3)] by blast
    moreover from this(1) have "onLoginResult a r st = Some st'"
      using assms(2) \<open>ra_pendingLogin y\<close> False st2(1) y(3)
      by (simp add: onLoginResult_def modAuth_upd cong: option.case_cong)
    ultimately show ?thesis by blast
  qed
qed

lemma onClientLoginResult_inv:
  assumes "reco_inv st" "rs_auths st a = Some y" "length (al_account p) = 61" "CHR 0x00 \<in> set (al_account p)"
  shows "\<exists>st'. onClientLoginResult a p st = Some st' \<and> reco_inv st'"
proof (cases "ra_game y")
  case None
  then show ?thesis using assms by (simp add: onClientLoginResult_def)
next
  case (Some g)
  let ?info = "\<lparr>ai_account = al_account p, ai_accountID = al_accountID p, ai_pcBang = al_pcBangUser p,
     ai_eventCode = al_eventCode p, ai_age = al_age p, ai_ip = al_ip p, ai_loginTime = al_loginTime p\<rparr>"
  let ?st = "upd st a (y\<lparr>ra_accounts := ra_accounts y @ [?info]\<rparr>) (rs_results st) (rs_out st)"
  have i: "reco_inv ?st"
    using inv_session(1) [OF assms(1,2)] assms(3,4) by (intro accounts_inv [OF assms(1,2)]) (auto simp: accounts_ok_def reco_auth_ok_def)
  obtain x where x: "rs_games st g = Some x" using inv_session(4) [OF assms(1,2) Some] by auto
  then have x2: "rs_games ?st g = Some x" by simp
  show ?thesis
  proof (cases "al_result p = TS_RESULT_SUCCESS")
    case True
    then show ?thesis using assms(2) Some writeGame_inv [OF i x2] modAuth_upd [OF assms(2)]
      by (auto simp: onClientLoginResult_def)
  next
    case False
    then show ?thesis using assms(2) Some writeGame_inv [OF assms(1) x] by (auto simp: onClientLoginResult_def)
  qed
qed

section \<open>Events\<close>

fun uvEvent :: "stream_event \<Rightarrow> bool" where
  "uvEvent (UvConnected r) = True"
| "uvEvent (UvRead r n data) = True"
| "uvEvent (UvWritten r) = True"
| "uvEvent (UvShutdown r) = True"
| "uvEvent UvClosed = True"
| "uvEvent e = False"

fun listenerCloses :: "stream_event \<Rightarrow> bool" where
  "listenerCloses (DoAbort remote) = (\<not> remote)"
| "listenerCloses (DoClose r remote) = (\<not> remote)"
| "listenerCloses e = False"

text \<open>What libuv, the two servers and the clock may do: the callbacks that \<open>uv_ok\<close> describes, packets of live connections with
  the size of their type, account fields of the authentication server with their NUL, timers that run. The listener may close
  the connections of game servers. A game server does not send the logout packet, which only this proxy knows.\<close>

fun reco_ok :: "int list \<times> reco_event \<Rightarrow> reco_state \<Rightarrow> bool" where
  "reco_ok (rs, GsConnected) st = True"
| "reco_ok (rs, GsReceived g (GsLogin p guid)) st = (rs_games st g \<noteq> None)"
| "reco_ok (rs, GsReceived g (GsPacket i body)) st =
     (rs_games st g \<noteq> None \<and> i \<notin> {20001, TS_GA_LOGOUT_ID} \<and> (i \<in> {20010, 20012} \<longrightarrow> 61 \<le> length body))"
| "reco_ok (rs, GsStream g e) st =
     (case rs_games st g of None \<Rightarrow> False
      | Some x \<Rightarrow> (uvEvent e \<or> listenerCloses e) \<and> uv_ok e (rg_stream x))"
| "reco_ok (rs, AgReceived a p) st =
     (rs_auths st a \<noteq> None \<and> (case p of AgClientLoginExtended q \<Rightarrow> length (al_account q) = 61 \<and> CHR 0x00 \<in> set (al_account q) | _ \<Rightarrow> True))"
| "reco_ok (rs, AgStream a e) st =
     (case rs_auths st a of None \<Rightarrow> False
      | Some y \<Rightarrow> uvEvent e \<and> (case ra_stream y of None \<Rightarrow> False | Some s \<Rightarrow> uv_ok e s))"
| "reco_ok (rs, ReconnectTimer a) st = (case rs_auths st a of None \<Rightarrow> False | Some y \<Rightarrow> ra_timer y)"
| "reco_ok (rs, DeleteObjects) st = True"

lemma gamePacket_inv:
  assumes "reco_inv st" "reco_ok (rs, GsReceived g p) st"
  shows "\<exists>st'. gamePacket g p st = Some st' \<and> reco_inv st'"
proof (cases p)
  case (GsLogin packet guid)
  then show ?thesis using serverLogin_inv [OF assms(1)] assms(2) by auto
next
  case (GsPacket i body)
  obtain x where x: "rs_games st g = Some x" using assms(2) GsPacket by auto
  show ?thesis
  proof (cases "i = 20010")
    case True
    then show ?thesis using clientLogin_inv [OF assms(1) x] assms(2) GsPacket by simp
  next
    case notLogin: False
    show ?thesis
    proof (cases "rg_auth x")
      case None
      then show ?thesis using GsPacket notLogin x assms(1) by simp
    next
      case (Some a)
      obtain y where y: "rs_auths st a = Some y" using inv_game(3) [OF assms(1) x Some] by blast
      show ?thesis
        using GsPacket notLogin x Some assms(2) logoutClient_inv [OF assms(1) y, of body i]
          sendToAuth_inv [OF assms(1) y, of "GaPacket i body"]
        by (cases "i = 20012") (simp_all add: closes_def)
    qed
  qed
qed

lemma recoPacket_inv:
  assumes "reco_inv st" "reco_ok (rs, AgReceived a p) st"
  shows "\<exists>st'. recoPacketReceived a p st = Some st' \<and> reco_inv st'"
proof -
  obtain y where y: "rs_auths st a = Some y" using assms(2) by auto
  show ?thesis
  proof (cases p)
    case (AgLoginResult r)
    then show ?thesis using onLoginResult_inv [OF assms(1) y] by simp
  next
    case (AgClientLoginExtended q)
    then show ?thesis using onClientLoginResult_inv [OF assms(1) y] assms(2) by simp
  next
    case (AgPacket i body)
    show ?thesis
    proof (cases "ra_game y")
      case None
      then show ?thesis using AgPacket y assms(1) by simp
    next
      case (Some g)
      obtain x where "rs_games st g = Some x" using inv_session(4) [OF assms(1) y Some] by auto
      then show ?thesis using AgPacket Some y writeGame_inv [OF assms(1)] by fastforce
    qed
  qed
qed

text \<open>Steps of a stream that has not just been connected or closed keep what the invariant says of it.\<close>

lemma uv_states:
  assumes "stream_inv s" "uv_ok e s" "uvEvent e" "stream_step e s = Some t"
  shows "st_state s \<noteq> UnconnectedState" "st_state t = UnconnectedState \<longrightarrow> st_state s = ClosingState"
    "st_state t = ClosingState \<longrightarrow> \<not> st_causedByRemote t \<longrightarrow> st_state s = ClosingState \<and> \<not> st_causedByRemote s"
    "st_state t = ConnectedState \<longrightarrow> st_state s = ConnectedState \<or> st_state s = ConnectingState"
    "activeStream s \<longrightarrow> activeStream t \<or> st_state t = UnconnectedState"
proof -
  note defs = stream_defs Let_def onConnected_def onReadCompleted_def onWriteCompleted_def onShutdownDone_def onConnectionClosed_def
    activeStream_def
  show "st_state s \<noteq> UnconnectedState" using assms(1-3)
    by (cases e) (auto simp: stream_inv_def uv_state_ok_def split: stream_state.splits)
  show "st_state t = UnconnectedState \<longrightarrow> st_state s = ClosingState" using assms
    by (cases e; cases "st_state s") (auto simp: defs split: if_splits)
  show "st_state t = ClosingState \<longrightarrow> \<not> st_causedByRemote t \<longrightarrow> st_state s = ClosingState \<and> \<not> st_causedByRemote s" using assms
    by (cases e; cases "st_state s") (auto simp: defs split: if_splits)
  show "st_state t = ConnectedState \<longrightarrow> st_state s = ConnectedState \<or> st_state s = ConnectingState" using assms
    by (cases e; cases "st_state s") (auto simp: defs split: if_splits)
  show "activeStream s \<longrightarrow> activeStream t \<or> st_state t = UnconnectedState" using assms
    by (cases e; cases "st_state s") (auto simp: defs split: if_splits)
qed

lemma gameStream_inv:
  assumes "reco_inv st" "rs_games st g = Some x" "stream_step e (rg_stream x) = Some t" "stream_inv t"
  shows "\<exists>st'. gameStreamEvent g e st = Some st' \<and> reco_inv st'"
proof -
  let ?x = "x\<lparr>rg_stream := t\<rparr>"
  let ?st = "st\<lparr>rs_games := (rs_games st)(g \<mapsto> ?x)\<rparr>"
  have m: "modRecoGame g (\<lambda>y. y\<lparr>rg_stream := t\<rparr>) st = Some ?st" using assms(2) by (simp add: modRecoGame_def)
  have "?st = st\<lparr>rs_games := (rs_games st)(g \<mapsto> ?x), rs_results := rs_results st, rs_out := rs_out st\<rparr>" by simp
  then have i: "reco_inv ?st" using game_inv [OF assms(1,2), where x' = ?x and rs = "rs_results st" and os = "rs_out st"] assms(4) by simp
  show ?thesis
  proof (cases "st_state t = UnconnectedState \<and> st_state (rg_stream x) \<noteq> UnconnectedState")
    case False
    then show ?thesis using assms(2,3) m i by (simp add: gameStreamEvent_def del: de_Morgan_conj)
  next
    case gone: True
    let ?r = "st_causedByRemote (rg_stream x)"
    have g: "rs_games ?st g = Some ?x" by simp
    show ?thesis
    proof (cases "rg_auth x")
      case None
      let ?st' = "?st\<lparr>rs_games := (rs_games st)(g := None)\<rparr>"
      have "gameStreamEvent g e st = Some ?st'"
        using assms(2,3) gone m None
        by (simp add: gameStreamEvent_def gameDisconnected_def destroyRecoGame_def modRecoGame_def)
      moreover have "reco_inv ?st'"
        using i None unfolding reco_inv_def reco_inv_with_def by (auto split: if_splits)
      ultimately show ?thesis by blast
    next
      case (Some a)
      have "rg_auth ?x = Some a" using Some by simp
      then obtain y where y: "rs_auths ?st a = Some y" using inv_game(3) [OF i g] by blast
      note ok = inv_session(1) [OF i y]
      obtain st2 where d: "(if ?r then disconnectSession a ?st else forceClose a ?st) = Some st2" "orphaned ?st a y st2"
        using disconnect_orphans [OF ok y] forceClose_orphans [OF ok y] by (cases ?r) auto
      let ?st' = "st2\<lparr>rs_games := (rs_games ?st)(g := None)\<rparr>"
      have "gameStreamEvent g e st = Some ?st'"
        using assms(2,3) gone m Some d orphaned_games [OF d(2)]
        by (simp add: gameStreamEvent_def gameDisconnected_def destroyRecoGame_def modRecoGame_def del: not_None_eq)
      moreover have "reco_inv ?st'" by (rule orphaned_game [OF i y d(2) g \<open>rg_auth ?x = Some a\<close>]) simp
      ultimately show ?thesis by blast
    qed
  qed
qed

lemma authDisconnected_inv:
  assumes "reco_inv st" "rs_auths st a = Some y" "st_state s = ClosingState" "stream_of y = s"
    and "stream_inv t" "st_state t = UnconnectedState" "st1 = upd st a (y\<lparr>ra_stream := Some t\<rparr>) rs os"
  shows "\<exists>st'. authDisconnected a (st_causedByRemote s) st1 = Some st' \<and> reco_inv st'"
proof -
  note ok = inv_session(1) [OF assms(1,2)]
  let ?y = "y\<lparr>ra_stream := Some t, ra_synchronized := False, ra_pendingLogin := False\<rparr>"
  let ?st = "upd st a ?y rs os"
  have here: "rs_auths st1 a = Some (y\<lparr>ra_stream := Some t\<rparr>)" "rs_auths ?st a = Some ?y" using assms(7) by simp_all
  have m: "modAuth a (\<lambda>y. y\<lparr>ra_synchronized := False, ra_pendingLogin := False\<rparr>) st1 = Some ?st"
    using modAuth_upd [OF here(1)] assms(7) by simp
  show ?thesis
  proof (cases "st_causedByRemote s \<and> (ra_game y \<noteq> None \<or> ra_pending y \<noteq> [])")
    case True
    let ?st' = "upd st a (?y\<lparr>ra_timer := True\<rparr>) rs os"
    have "authDisconnected a (st_causedByRemote s) st1 = Some ?st'"
      using True here(1) m modAuth_upd [OF here(2)] by (simp add: authDisconnected_def)
    moreover have "reco_auth_ok (?y\<lparr>ra_timer := True\<rparr>)" using ok assms(5,6) by (simp add: reco_auth_ok_def stream_of_def)
    ultimately show ?thesis using upd_inv [OF assms(1,2)] by simp
  next
    case False
    then have "ra_game y = None" using ok assms(3,4) by (auto simp: reco_auth_ok_def)
    moreover have "reco_auth_ok (?y\<lparr>ra_deleting := True\<rparr>)"
      using ok assms(5,6) \<open>ra_game y = None\<close> by (simp add: reco_auth_ok_def stream_of_def)
    ultimately obtain st' where "authDeleteLater a ?st = Some st'" "orphaned st a y st'"
      using deleteLater_orphans [OF here(2) refl, of y] by auto
    then have "authDisconnected a (st_causedByRemote s) st1 = Some st'" "reco_inv st'"
      using False here(1) m \<open>ra_game y = None\<close> orphaned_alone [OF assms(1,2)] by (auto simp: authDisconnected_def)
    then show ?thesis by blast
  qed
qed

lemma authStream_inv:
  assumes "reco_inv st" "rs_auths st a = Some y" "ra_stream y = Some s" "uv_ok e s" "uvEvent e"
  shows "\<exists>st'. authStreamEvent a e st = Some st' \<and> reco_inv st'"
proof -
  note ok = inv_session(1) [OF assms(1,2)]
  have s: "stream_of y = s" "stream_inv s" using assms(3) ok by (auto simp: stream_of_def reco_auth_ok_def)
  obtain t where t: "stream_step e s = Some t" "stream_inv t" using inv_step [OF s(2) assms(4)] by blast
  note u = uv_states [OF s(2) assms(4,5) t(1)]
  let ?y = "y\<lparr>ra_stream := Some t\<rparr>"
  let ?st = "upd st a ?y (rs_results st) (rs_out st)"
  have m: "modAuth a (\<lambda>y. y\<lparr>ra_stream := Some t\<rparr>) st = Some ?st" using modAuth_upd [OF assms(2)] by simp
  have here: "rs_auths ?st a = Some ?y" "ra_stream ?y = Some t" by simp_all
  show ?thesis
  proof (cases "st_state t = UnconnectedState")
    case True
    then show ?thesis
      using assms(2,3) t(1) m u(1,2) authDisconnected_inv [OF assms(1,2) _ s(1) t(2) True refl]
      by (simp add: authStreamEvent_def)
  next
    case notGone: False
    have okt: "reco_auth_ok ?y" if "st_state t = ConnectedState \<longrightarrow> st_state s = ConnectedState"
      using ok u(3,5) notGone t(2) s(1) that by (auto simp: reco_auth_ok_def stream_of_def)
    show ?thesis
    proof (cases "st_state t = ConnectedState \<and> st_state s \<noteq> ConnectedState")
      case False
      then show ?thesis using assms(2,3) t(1) m notGone okt upd_inv [OF assms(1,2), of ?y]
        by (auto simp: authStreamEvent_def)
    next
      case True
      have idle: "\<not> ra_synchronized y" "\<not> ra_pendingLogin y"
        using ok True u(4) s(1) by (auto simp: reco_auth_ok_def activeStream_def)
      let ?z = "y\<lparr>ra_stream := Some t, ra_pendingLogin := True\<rparr>"
      let ?st2 = "upd st a ?z (rs_results st) (rs_out st)"
      have here2: "rs_auths ?st2 a = Some ?z" "ra_stream ?z = Some t" by simp_all
      have z: "reco_auth_ok ?z" using ok True idle t(2) by (auto simp: reco_auth_ok_def stream_of_def activeStream_def)
      obtain v b q rs os where v: "sendPacketToNetwork a (GaLogin (ra_login y) (ra_guid y)) ?st2 = Some (upd ?st2 a (session ?z v b q) rs os)"
          "carry (closes (GaLogin (ra_login y) (ra_guid y))) t v" "q = ra_pending ?z"
        using network_sends [OF here2 t(2)] by (rule sendsE)
      have "reco_auth_ok (session ?z v b q)"
        using v(2,3) z idle by (intro carry_auth_ok [OF z, of False]) (auto simp: closes_def stream_of_def reco_auth_ok_def)
      then have "reco_inv (upd st a (session ?z v b q) rs os)" by (intro upd_inv [OF assms(1,2)]) simp_all
      moreover have "authStreamEvent a e st = Some (upd st a (session ?z v b q) rs os)"
        using assms(2,3) t(1) m True idle v(1) modAuth_upd [OF here(1)] by (simp add: authStreamEvent_def sendLogin_def)
      ultimately show ?thesis by blast
    qed
  qed
qed

lemma deleteObjects_inv: "reco_inv_with del st \<Longrightarrow> \<exists>st'. deleteObjects del st = Some st' \<and> reco_inv_with [] st'"
proof (induction del arbitrary: st)
  case (Cons a del)
  note i = reco_invD [OF Cons.prems]
  obtain y where y: "rs_auths st a = Some y" using i(4) by fastforce
  have "ra_game y = None" using i(1) [OF y] by (auto simp: reco_auth_ok_def)
  let ?st = "st\<lparr>rs_auths := (rs_auths st)(a := None), rs_servers := um_erase (ga_idx (ra_login y)) (rs_servers st)\<rparr>"
  have "reco_inv_with del ?st"
  proof (rule inv_intro)
    fix b z assume z: "rs_auths ?st b = Some z"
    then have "b \<noteq> a" "rs_auths st b = Some z" by (auto split: if_splits)
    then show "reco_auth_ok z \<and> (ra_deleting z \<longleftrightarrow> b \<in> set del) \<and> b < rs_next ?st \<and>
        (\<forall>g. ra_game z = Some g \<longrightarrow> (\<exists>x. rs_games ?st g = Some x \<and> rg_auth x = Some b))"
      using i(1) by simp
  next
    fix g x assume "rs_games ?st g = Some x"
    then have x: "rs_games st g = Some x" by simp
    have "\<exists>z. rs_auths ?st b = Some z \<and> ra_game z = Some g" if b: "rg_auth x = Some b" for b
      using i(2) [OF x] b y \<open>ra_game y = None\<close> by (cases "b = a") auto
    then show "stream_inv (rg_stream x) \<and> g < rs_next ?st \<and>
        (\<forall>b. rg_auth x = Some b \<longrightarrow> (\<exists>z. rs_auths ?st b = Some z \<and> ra_game z = Some g))"
      using i(2) [OF x] by simp
  next
    show "distinct del" using i(3) by simp
    show "rs_auths ?st b \<noteq> None" if "b \<in> set del" for b using that i(3) i(4) [of b] by auto
    show "um_wf (rs_servers ?st)" using um.wf_erase [OF i(5)] by simp
    show "\<exists>z. rs_auths ?st b = Some z \<and> ga_idx (ra_login z) = j" if b: "um_find (rs_servers ?st) j = Some b" for j b
      using b i(6) [of j b] y by (cases "b = a") (auto simp: um.find_erase split: if_splits)
  qed
  then show ?case using Cons.IH y by (simp add: destroyAuth_def)
qed simp

lemma reco_step_inv:
  assumes "reco_inv st" "reco_ok e st"
  shows "\<exists>st'. reco_step e st = Some st' \<and> reco_inv st'"
proof -
  obtain rs ev where e: "e = (rs, ev)" by (cases e)
  let ?st = "st\<lparr>rs_results := rs\<rparr>"
  have i: "reco_inv ?st" using assms(1) by (simp add: reco_inv_def reco_inv_with_def)
  have same: "rs_games ?st = rs_games st" "rs_auths ?st = rs_auths st" by simp_all
  have ok: "reco_ok (rs, ev) ?st"
    using assms(2) unfolding e by (cases "((rs, ev), st)" rule: reco_ok.cases) (auto split: option.splits)
  show ?thesis
    unfolding e reco_step.simps
  proof (cases ev)
    case GsConnected
    note j = reco_invD [OF i [unfolded reco_inv_def]]
    have "stream_inv (streamAccepted newStream)"
      using inv_step [OF stream_inv_new, of DoAccepted] by (simp add: newStream_def)
    then show "\<exists>st'. recoEvent ev ?st = Some st' \<and> reco_inv st'"
      using GsConnected j unfolding reco_inv_def reco_inv_with_def
      by (auto split: if_splits) (metis less_Suc_eq nat_neq_iff option.distinct(1))+
  next
    case (GsReceived g p)
    then show "\<exists>st'. recoEvent ev ?st = Some st' \<and> reco_inv st'" using gamePacket_inv [OF i] ok by simp
  next
    case (GsStream g se)
    then obtain x where x: "rs_games ?st g = Some x" "uv_ok se (rg_stream x)" using ok by (auto split: option.splits)
    then show "\<exists>st'. recoEvent ev ?st = Some st' \<and> reco_inv st'"
      using GsStream gameStream_inv [OF i x(1)] inv_step [OF inv_game(1) [OF i x(1)] x(2)] by auto
  next
    case (AgReceived a p)
    then show "\<exists>st'. recoEvent ev ?st = Some st' \<and> reco_inv st'" using recoPacket_inv [OF i] ok by simp
  next
    case (AgStream a se)
    then show "\<exists>st'. recoEvent ev ?st = Some st' \<and> reco_inv st'"
      using ok authStream_inv [OF i] by (auto split: option.splits)
  next
    case (ReconnectTimer a)
    then show "\<exists>st'. recoEvent ev ?st = Some st' \<and> reco_inv st'"
      using ok timer_inv [OF i] by (auto split: option.splits)
  next
    case DeleteObjects
    obtain st' where "deleteObjects (rs_toDelete ?st) ?st = Some st'" "reco_inv_with [] st'"
      using deleteObjects_inv i unfolding reco_inv_def by blast
    then show "\<exists>st'. recoEvent ev ?st = Some st' \<and> reco_inv st'"
      using DeleteObjects by (simp add: reco_inv_def reco_inv_with_def)
  qed
qed

interpretation reconnect: safe_machine reco_step reco_inv reco_ok
  by unfold_locales (use reco_step_inv in fastforce)+

end
