(* ===== verification/ReconnectSpec.thy ===== *)
theory ReconnectSpec
  imports ReconnectInv AuthSpec
begin

text \<open>
  What the reconnecting proxy promises: no dangling pointers and no forgotten session in any sequence of events, messages that
  are kept and sent in order after a reconnection, and account lists that restore the registries of the authentication server;
  these are understood exactly when they fit in packets of the same size.
\<close>

section \<open>The account list at the authentication server\<close>

definition accountName :: "account_info \<Rightarrow> string" where
  "accountName a = toLower (convertToString (ai_account a) 60)"

lemma accountName_cut [simp]: "accountName (cutAccount a) = accountName a" "ai_accountID (cutAccount a) = ai_accountID a"
  by (simp_all add: accountName_def cutAccount_def convertToString_def)

lemma addAccounts_fresh:
  assumes "auth_inv st" "gameHeap st g = Some d" "distinct (map ai_accountID as)" "distinct (map accountName as)"
    and "\<And>a. a \<in> set as \<Longrightarrow> um_find (connectedClients st) (ai_accountID a) = None \<and> um_find (connectedClientsByName st) (accountName a) = None"
  shows "\<exists>st'. addAccounts cfg now s g as st = Some st' \<and> auth_inv st' \<and>
    gameHeap st' g = Some (d\<lparr>gd_playerCount := gd_playerCount d + of_nat (length as)\<rparr>) \<and>
    gameSessions st' = gameSessions st \<and> sent st' = sent st \<and>
    (\<forall>p c. clientHeap st p = Some c \<longrightarrow> clientHeap st' p = Some c) \<and> (\<forall>a \<in> set as. \<exists>p. clientHeap st' p = Some (listed cfg g a)) \<and>
    (\<forall>p c. clientHeap st' p = Some c \<longrightarrow> clientHeap st p = Some c \<or> c \<in> listed cfg g ` set as)"
  using assms
proof (induction as arbitrary: st d)
  case (Cons a as)
  note inv = auth_invD [OF Cons.prems(1)]
  let ?p = "nextAddr st"
  let ?c = "listed cfg g a"
  let ?st = "(registered st ?p ?c)\<lparr>gameHeap := moreOf g (gameHeap st)\<rparr>"
  let ?d = "d\<lparr>gd_playerCount := gd_playerCount d + 1\<rparr>"
  have free: "um_find (connectedClients st) (ai_accountID a) = None" "um_find (connectedClientsByName st) (accountName a) = None"
    using Cons.prems(5) by auto
  have c: "cd_accountId ?c = ai_accountID a" "toLower (cd_account ?c) = accountName a" by (simp_all add: listed_def accountName_def)
  have add: "addAccount cfg now s g a st = Some ?st"
    using addAccount_added [OF inv(5) Cons.prems(2)] free by (simp add: accountName_def)
  have i: "auth_inv ?st"
    by (rule add_ingame_inv [OF Cons.prems(1) refl Cons.prems(2)])
       (use free accountName_short in \<open>simp_all add: listed_def accountName_def\<close>)
  have d: "gameHeap ?st g = Some ?d" using Cons.prems(2) by (simp add: moreOf_def)
  have rest: "um_find (connectedClients ?st) (ai_accountID b) = None \<and> um_find (connectedClientsByName ?st) (accountName b) = None"
    if b: "b \<in> set as" for b
  proof -
    have "ai_accountID b \<noteq> ai_accountID a" "accountName b \<noteq> accountName a"
      using Cons.prems(3,4) imageI [OF b, of ai_accountID] imageI [OF b, of accountName] by (metis distinct.simps(2) list.set_map list.simps(9))+
    then show ?thesis using b Cons.prems(5) c by (simp add: um.find_insert)
  qed
  obtain st' where st': "addAccounts cfg now s g as ?st = Some st'" "auth_inv st'"
      "gameHeap st' g = Some (?d\<lparr>gd_playerCount := gd_playerCount ?d + of_nat (length as)\<rparr>)"
      "gameSessions st' = gameSessions ?st" "sent st' = sent ?st"
      "\<forall>p c. clientHeap ?st p = Some c \<longrightarrow> clientHeap st' p = Some c" "\<forall>a \<in> set as. \<exists>p. clientHeap st' p = Some (listed cfg g a)"
      "\<forall>p c. clientHeap st' p = Some c \<longrightarrow> clientHeap ?st p = Some c \<or> c \<in> listed cfg g ` set as"
    using Cons.IH [OF i d] Cons.prems(3,4) rest by auto
  have old: "clientHeap st' p = Some e" if "clientHeap st p = Some e" for p e
  proof -
    have "p \<noteq> ?p" using that fresh_addr [OF inv(5)] by auto
    then show ?thesis using st'(6) that by simp
  qed
  have "clientHeap st' ?p = Some ?c" using st'(6) by simp
  then have all: "\<forall>b \<in> set (a # as). \<exists>p. clientHeap st' p = Some (listed cfg g b)" using st'(7) by auto
  have "gameHeap st' g = Some (d\<lparr>gd_playerCount := gd_playerCount d + of_nat (length (a # as))\<rparr>)"
    using st'(3) by (simp add: algebra_simps)
  moreover have "addAccounts cfg now s g (a # as) st = Some st'" using add st'(1) by simp
  moreover have "clientHeap st p = Some e \<or> e \<in> listed cfg g ` set (a # as)" if "clientHeap st' p = Some e" for p e
  proof -
    have "clientHeap ?st p = Some e \<or> e \<in> listed cfg g ` set as" using st'(8) that by blast
    then show ?thesis by (auto split: if_splits)
  qed
  ultimately show ?case using st'(2,4,5) old all by (intro exI [of _ st'] conjI) simp_all
qed simp

text \<open>What the session does with the last packet of a list.\<close>

definition finishList :: "auth_config \<Rightarrow> int \<Rightarrow> nat \<Rightarrow> nat \<Rightarrow> account_info list \<Rightarrow> auth_state \<Rightarrow> auth_state option" where
  "finishList cfg now s g accounts st = do {
     st \<leftarrow> removeServer g st;
     st \<leftarrow> addAccounts cfg now s g accounts st;
     st \<leftarrow> setReady g True st;
     modGameSession s (\<lambda>y. y\<lparr>gs_accounts := []\<rparr>) st }"

definition keepAccounts :: "nat \<Rightarrow> game_session \<Rightarrow> account_info list \<Rightarrow> auth_state \<Rightarrow> auth_state" where
  "keepAccounts s x accounts st = st\<lparr>gameSessions := (gameSessions st)(s \<mapsto> x\<lparr>gs_accounts := accounts\<rparr>)\<rparr>"

lemma list_size:
  assumes "k \<le> 128" "n \<le> 128"
  shows "accountListSize (of_nat k) = of_nat (9 + 124 * n) \<longleftrightarrow> k = n"
proof -
  have "(ucast (of_nat k :: u8) :: u32) = of_nat k"
    using assms(1) by (simp add: unsigned_of_nat take_bit_nat_eq_self)
  then have "accountListSize (of_nat k) = of_nat (9 + 124 * k)" by (simp add: accountListSize_def)
  moreover have "(of_nat (9 + 124 * k) :: u32) = of_nat (9 + 124 * n) \<longleftrightarrow> 9 + 124 * k = 9 + 124 * n"
    using assms by (subst word_of_nat_eq_iff) (simp add: take_bit_nat_eq_self)
  ultimately show ?thesis by simp
qed

lemma onAccountList_packet:
  assumes "gameSessions st s = Some x" "gs_gameData x = Some g" "length chunk \<le> n" "n \<le> 128"
  shows "onAccountList cfg now s (of_nat (9 + 124 * n)) (of_nat (length chunk)) final (chunk @ rest) st =
    (if length chunk = n then
       let as = gs_accounts x @ map cutAccount chunk
       in if final then finishList cfg now s g as (keepAccounts s x as st) else Some (keepAccounts s x as st)
     else Some st)"
proof -
  have "unat (of_nat (length chunk) :: u8) = length chunk" using assms(3,4) by (simp add: unat_of_nat)
  then show ?thesis
    using assms(1,2) list_size [of "length chunk" n] assms(3,4)
    by (auto simp: onAccountList_def modGameSession_def [abs_def] keepAccounts_def finishList_def Let_def)
qed

text \<open>The packets as the authentication server parses them, one after the other.\<close>

fun receiveList :: "auth_config \<Rightarrow> int \<Rightarrow> nat \<Rightarrow> ga_message list \<Rightarrow> auth_state \<Rightarrow> auth_state option" where
  "receiveList cfg now s [] st = Some st"
| "receiveList cfg now s (GaAccountList sz count final infos # ms) st = do {
     st \<leftarrow> gamePacketReceived cfg now s (GA_ACCOUNT_LIST sz count final infos) st;
     receiveList cfg now s ms st }"
| "receiveList cfg now s (m # ms) st = None"

lemma keepAccounts_simps [simp]:
  "gameSessions (keepAccounts s x as st) s = Some (x\<lparr>gs_accounts := as\<rparr>)"
  "keepAccounts s (x\<lparr>gs_accounts := bs\<rparr>) as (keepAccounts s x cs st) = keepAccounts s x as st"
  by (simp_all add: keepAccounts_def)

lemma receive_Nil [simp]: "Option.bind f (receiveList cfg now s []) = f"
  by (cases f) simp_all

lemma receive_listPackets:
  assumes "0 < n" "n \<le> 128" "accounts \<noteq> []" "gameSessions st s = Some x" "gs_gameData x = Some g"
  shows "receiveList cfg now s (listPackets n buffer accounts) st =
    (if n dvd length accounts then
       finishList cfg now s g (gs_accounts x @ map cutAccount accounts) (keepAccounts s x (gs_accounts x @ map cutAccount accounts) st)
     else if length accounts < n then Some st
     else Some (keepAccounts s x (gs_accounts x @ map cutAccount (take (length accounts div n * n) accounts)) st))"
  using assms
proof (induction n buffer accounts arbitrary: st x rule: listPackets.induct)
  case (1 n buffer accounts)
  let ?chunk = "take n accounts"
  let ?rest = "drop n accounts"
  let ?buffer = "?chunk @ drop (length ?chunk) buffer"
  note packet = onAccountList_packet [OF 1(5,6), of ?chunk n cfg now _ "drop (length ?chunk) buffer"]
  show ?case
  proof (cases "?rest = []")
    case True
    then have short: "length accounts \<le> n" by simp
    have "n dvd length accounts \<longleftrightarrow> length accounts = n"
      using short 1(4) by (metis dvd_refl dvd_imp_le le_antisym length_greater_0_conv)
    then show ?thesis
      using True short 1(2,3) packet [of True]
      by (subst listPackets.simps) (auto simp: Let_def split: if_splits)
  next
    case False
    let ?st = "keepAccounts s x (gs_accounts x @ map cutAccount ?chunk) st"
    let ?x = "x\<lparr>gs_accounts := gs_accounts x @ map cutAccount ?chunk\<rparr>"
    define r where "r = length ?rest"
    have len: "length ?chunk = n" "length accounts = n + r" "0 < r" using False by (simp_all add: r_def)
    have "length accounts div n = Suc (r div n)" unfolding len(2) using 1(2) by (simp add: div_add_self1)
    then have cut: "take (length accounts div n * n) accounts = ?chunk @ take (r div n * n) ?rest"
      by (simp add: take_add)
    have div: "n dvd length accounts \<longleftrightarrow> n dvd r" unfolding len(2) by simp
    have st: "gameSessions ?st s = Some ?x" "gs_gameData ?x = Some g" using 1(6) by simp_all
    have "listPackets n buffer accounts = GaAccountList (of_nat (9 + 124 * n)) (of_nat (length ?chunk)) False ?buffer #
        listPackets n ?buffer ?rest"
      using False 1(2) by (subst listPackets.simps) (simp add: Let_def)
    then have "receiveList cfg now s (listPackets n buffer accounts) st = receiveList cfg now s (listPackets n ?buffer ?rest) ?st"
      using packet [of False] len(1) 1(3) by (simp add: Let_def)
    also have "\<dots> = (if n dvd r then
        finishList cfg now s g (gs_accounts ?x @ map cutAccount ?rest) (keepAccounts s ?x (gs_accounts ?x @ map cutAccount ?rest) ?st)
       else if r < n then Some ?st
       else Some (keepAccounts s ?x (gs_accounts ?x @ map cutAccount (take (r div n * n) ?rest)) ?st))"
      using 1(1) [OF refl refl refl refl] False 1(2,3) st unfolding r_def by simp
    also have "\<dots> = (if n dvd r then
        finishList cfg now s g (gs_accounts x @ map cutAccount accounts) (keepAccounts s x (gs_accounts x @ map cutAccount accounts) st)
       else Some (keepAccounts s x (gs_accounts x @ map cutAccount (?chunk @ take (r div n * n) ?rest)) st))"
    proof -
      have all: "map cutAccount accounts = map cutAccount ?chunk @ map cutAccount ?rest"
        unfolding map_append [symmetric] by simp
      have none: "take (r div n * n) ?rest = []" if "r < n" using that by simp
      show ?thesis by (cases "r < n") (simp_all add: all none)
    qed
    finally show ?thesis unfolding div cut using len by simp
  qed
qed

lemma keepAccounts_inv:
  assumes "auth_inv st" "gameSessions st s = Some x"
  shows "auth_inv (keepAccounts s x as st)"
proof -
  have "\<forall>q \<in> set (gs_queries x). length (si_account q) < 61"
    using auth_invD(6) [OF assms(1)] assms(2) by (simp add: len_inv_def)
  then show ?thesis
    using modGameSession_keep [OF assms, of "\<lambda>y. y\<lparr>gs_accounts := as\<rparr>"] by (auto simp: keepAccounts_def)
qed

lemma keepAccounts_heaps [simp]:
  "clientHeap (keepAccounts s x as st) = clientHeap st" "gameHeap (keepAccounts s x as st) = gameHeap st"
  by (simp_all add: keepAccounts_def)

lemma listed_cut [simp]: "listed cfg g (cutAccount a) = listed cfg g a"
  by (simp add: listed_def cutAccount_def convertToString_def)

text \<open>No client outside the server has the id or the name of an account of the list.\<close>

definition notElsewhere :: "auth_state \<Rightarrow> nat \<Rightarrow> account_info list \<Rightarrow> bool" where
  "notElsewhere st g accounts \<longleftrightarrow> (\<forall>p c a. clientHeap st p = Some c \<longrightarrow> cd_server c \<noteq> Some g \<longrightarrow> a \<in> set accounts \<longrightarrow>
     cd_accountId c \<noteq> ai_accountID a \<and> toLower (cd_account c) \<noteq> accountName a)"

definition restored :: "auth_config \<Rightarrow> nat \<Rightarrow> account_info list \<Rightarrow> auth_state \<Rightarrow> auth_state \<Rightarrow> bool" where
  "restored cfg g accounts st st' \<longleftrightarrow>
     (\<exists>d. gameHeap st' g = Some d \<and> gd_ready d \<and> gd_playerCount d = of_nat (length accounts)) \<and>
     (\<forall>a \<in> set accounts. \<exists>p. clientHeap st' p = Some (listed cfg g a)) \<and>
     (\<forall>p c. clientHeap st p = Some c \<longrightarrow> cd_server c \<noteq> Some g \<longrightarrow> clientHeap st' p = Some c) \<and>
     (\<forall>p c. clientHeap st' p = Some c \<longrightarrow> cd_server c = Some g \<longrightarrow> c \<in> listed cfg g ` set accounts)"

lemma finishList_restores:
  assumes "auth_inv st" "gameSessions st s = Some x" "gameHeap st g = Some d"
    and "distinct (map ai_accountID accounts)" "distinct (map accountName accounts)" "notElsewhere st g accounts"
  shows "\<exists>st'. finishList cfg now s g (map cutAccount accounts) st = Some st' \<and> auth_inv st' \<and> restored cfg g accounts st st'"
proof -
  obtain st2 where st2: "removeServer g st = Some st2" "auth_inv st2" "gameSessions st2 = gameSessions st"
      "sameGames (gameHeap st2) (gameHeap st)"
      "\<forall>p. clientHeap st2 p = (if \<exists>c. clientHeap st p = Some c \<and> cd_server c = Some g then None else clientHeap st p)"
    using removeServer_ok [OF assms(1), of g] by blast
  note inv2 = auth_invD [OF st2(2)]
  obtain d2 where d2: "gameHeap st2 g = Some d2" using sameGames_None [OF st2(4), of g] assms(3) by auto
  have left: "clientHeap st p = Some c \<and> cd_server c \<noteq> Some g" if "clientHeap st2 p = Some c" for p c
    using st2(5) that by (auto split: if_splits)
  have "inGameOf st2 g = {}" using left by (auto simp: inGameOf_def)
  then have count: "gd_playerCount d2 = 0" using inv2(4) d2 by (simp add: count_inv_def)
  let ?as = "map cutAccount accounts"
  have free: "um_find (connectedClients st2) (ai_accountID a) = None \<and> um_find (connectedClientsByName st2) (accountName a) = None"
    if a: "a \<in> set ?as" for a
  proof -
    obtain b where b: "b \<in> set accounts" "ai_accountID a = ai_accountID b" "accountName a = accountName b" using a by auto
    have "um_find (connectedClients st2) (ai_accountID b) \<noteq> Some p" "um_find (connectedClientsByName st2) (accountName b) \<noteq> Some p" for p
      using find_client_inv [OF inv2(1)] find_name_inv [OF inv2(1)] left b(1) assms(6) unfolding notElsewhere_def by fastforce+
    then show ?thesis using b(2,3) by (metis option.exhaust)
  qed
  have dist: "distinct (map ai_accountID ?as)" "distinct (map accountName ?as)" using assms(4,5) by (simp_all add: comp_def)
  obtain st3 where st3: "addAccounts cfg now s g ?as st2 = Some st3" "auth_inv st3"
      "gameHeap st3 g = Some (d2\<lparr>gd_playerCount := gd_playerCount d2 + of_nat (length ?as)\<rparr>)" "gameSessions st3 = gameSessions st2"
      "\<forall>p c. clientHeap st2 p = Some c \<longrightarrow> clientHeap st3 p = Some c" "\<forall>a \<in> set ?as. \<exists>p. clientHeap st3 p = Some (listed cfg g a)"
      "\<forall>p c. clientHeap st3 p = Some c \<longrightarrow> clientHeap st2 p = Some c \<or> c \<in> listed cfg g ` set ?as"
    using addAccounts_fresh [OF st2(2) d2 dist free] by blast
  let ?d = "d2\<lparr>gd_playerCount := of_nat (length accounts)\<rparr>"
  have d3: "gameHeap st3 g = Some ?d" using st3(3) count by simp
  let ?st4 = "st3\<lparr>gameHeap := (gameHeap st3)(g \<mapsto> ?d\<lparr>gd_ready := True\<rparr>)\<rparr>"
  have st4: "setReady g True st3 = Some ?st4" "auth_inv ?st4" "gameSessions ?st4 s = Some x"
    using modGame_keep [OF st3(2) d3, of "\<lambda>d. d\<lparr>gd_ready := True\<rparr>"] d3 st3(4) st2(3) assms(2)
    by (auto simp: setReady_def modGame_def)
  have st5: "modGameSession s (\<lambda>y. y\<lparr>gs_accounts := []\<rparr>) ?st4 = Some (keepAccounts s x [] ?st4)"
    using st4(3) by (simp add: modGameSession_def keepAccounts_def)
  have "restored cfg g accounts st (keepAccounts s x [] ?st4)"
    unfolding restored_def
  proof (intro conjI)
    show "\<exists>d. gameHeap (keepAccounts s x [] ?st4) g = Some d \<and> gd_ready d \<and> gd_playerCount d = of_nat (length accounts)" by simp
    show "\<forall>a \<in> set accounts. \<exists>p. clientHeap (keepAccounts s x [] ?st4) p = Some (listed cfg g a)" using st3(6) by simp
    show "\<forall>p c. clientHeap st p = Some c \<longrightarrow> cd_server c \<noteq> Some g \<longrightarrow> clientHeap (keepAccounts s x [] ?st4) p = Some c"
      using st2(5) st3(5) by simp
    show "\<forall>p c. clientHeap (keepAccounts s x [] ?st4) p = Some c \<longrightarrow> cd_server c = Some g \<longrightarrow> c \<in> listed cfg g ` set accounts"
      using st3(7) left by (fastforce simp: image_image)
  qed
  then show ?thesis
    using st2(1) st3(1) st4(1) st5 keepAccounts_inv [OF st4(2,3)] by (simp add: finishList_def)
qed

lemma accountPackets_eq:
  "accountPackets accounts = (if accounts = [] then [GaAccountList 9 0 True []]
     else listPackets (min (length accounts) 128) (replicate (min (length accounts) 128) emptyInfo) accounts)"
proof -
  have "MAX_COUNT_PER_PACKET = 128" by (simp add: MAX_COUNT_PER_PACKET_def)
  then show ?thesis by (simp add: accountPackets_def Let_def listPackets.simps [of 0])
qed

text \<open>C4. After a reconnection, the account list that the proxy sends restores the registries of the authentication server: the
  server is ready again and has exactly the players of the list, registered with their data, and no other client is touched.
  That needs at most 128 players or a multiple of 128: otherwise the last packet is as long as the others but announces fewer
  accounts, the authentication server ignores it, and the game server never becomes ready.\<close>

theorem account_list_resync:
  assumes "auth_inv st" "gameSessions st s = Some x" "gs_gameData x = Some g" "gs_accounts x = []" "gameHeap st g = Some d"
    and "distinct (map ai_accountID accounts)" "distinct (map accountName accounts)" "notElsewhere st g accounts"
  shows "\<exists>st'. receiveList cfg now s (accountPackets accounts) st = Some st' \<and> auth_inv st' \<and>
    (if length accounts \<le> 128 \<or> 128 dvd length accounts then restored cfg g accounts st st'
     else gameHeap st' = gameHeap st \<and> clientHeap st' = clientHeap st)"
proof -
  let ?st = "keepAccounts s x (map cutAccount accounts) st"
  have ok: "auth_inv ?st" "gameSessions ?st s = Some (x\<lparr>gs_accounts := map cutAccount accounts\<rparr>)" "gameHeap ?st g = Some d"
      "notElsewhere ?st g accounts"
    using keepAccounts_inv [OF assms(1,2)] assms(5,8) by (simp_all add: notElsewhere_def)
  obtain st' where st': "finishList cfg now s g (map cutAccount accounts) ?st = Some st'" "auth_inv st'" "restored cfg g accounts ?st st'"
    using finishList_restores [OF ok(1-3) assms(6,7) ok(4)] by blast
  have r: "restored cfg g accounts st st'" using st'(3) by (simp add: restored_def)
  show ?thesis
  proof (cases "accounts = []")
    case True
    then show ?thesis
      using onAccountList_packet [OF assms(2,3), of "[]" 0 cfg now True "[]"] st'(1,2) r assms(4)
      by (simp add: accountPackets_eq Let_def)
  next
    case False
    let ?n = "min (length accounts) 128"
    note rec = receive_listPackets [OF _ _ False assms(2,3), of ?n cfg now "replicate ?n emptyInfo"]
    have "?n dvd length accounts \<longleftrightarrow> length accounts \<le> 128 \<or> 128 dvd length accounts" by (auto simp: min_def)
    then show ?thesis
      using rec False st'(1,2) r assms(1,4) keepAccounts_inv [OF assms(1,2)] by (simp add: accountPackets_eq)
  qed
qed

text \<open>A player in game whose server reconnects.\<close>

definition bob_info :: account_info where
  "bob_info = \<lparr>ai_account = ''Bob'' @ replicate 58 (CHR 0x00), ai_accountID = 7, ai_pcBang = 0, ai_eventCode = 0, ai_age = 19,
     ai_ip = [], ai_loginTime = 5\<rparr>"

theorem account_list_resync_witness:
  "\<exists>st'. receiveList demo_cfg 9 0 (accountPackets [bob_info]) (demo_state demo_play) = Some st' \<and> auth_inv st' \<and>
     (\<exists>d. gameHeap st' 1 = Some d \<and> gd_ready d \<and> gd_playerCount d = 1)"
proof -
  let ?st = "demo_state demo_play"
  have "map_option (\<lambda>x. (gs_gameData x, gs_accounts x = [])) (gameSessions ?st 0) = Some (Some 1, True)" by code_simp
  then obtain x where x: "gameSessions ?st 0 = Some x" "gs_gameData x = Some 1" "gs_accounts x = []" by auto
  have "gameHeap ?st 1 \<noteq> None" by code_simp
  then obtain d where d: "gameHeap ?st 1 = Some d" by blast
  have only: "connectedClients ?st = [(7, 3)]" by code_simp
  have at: "map_option cd_server (clientHeap ?st 3) = Some (Some 1)" by code_simp
  have "cd_server c = Some 1" if "clientHeap ?st p = Some c" for p c
  proof -
    have "um_find [(7, 3)] (cd_accountId c) = Some p" using client_find_inv [OF auth_invD(1) [OF demo_play_inv] that] only by simp
    then have "p = 3" by (simp add: um_find_def split: if_splits)
    then show ?thesis using at that by simp
  qed
  then have "notElsewhere ?st 1 [bob_info]" by (simp add: notElsewhere_def)
  then show ?thesis
    using account_list_resync [OF demo_play_inv x d, of "[bob_info]" demo_cfg 9] by (auto simp: restored_def)
qed

section \<open>The proxy\<close>

lemma reco_inv_init: "reco_inv reco_init"
  by (simp add: reco_inv_def reco_inv_with_def reco_init_def)


definition reco_demo_server :: ga_login where
  "reco_demo_server = \<lparr>ga_idx = 1, ga_name = ''one'', ga_url = [], ga_adult = False, ga_ip = ''127.0.0.1'', ga_port = 4514\<rparr>"

definition reco_demo_login :: ag_client_login_ext where
  "reco_demo_login = \<lparr>al_account = ''bob'' @ replicate 58 (CHR 0x00), al_accountID = 7, al_result = 0, al_pcBangUser = 0, al_eventCode = 0,
     al_age = 0, al_playTime = 0, al_logoutTime = 0, al_ip = [], al_loginTime = 0\<rparr>"

text \<open>A login, a player, a connection that breaks and comes back, a message in between, and the end of the game server.\<close>

definition reco_demo_events :: "(int list \<times> reco_event) list" where
  "reco_demo_events = map (Pair []) [GsConnected, GsReceived 0 (GsLogin reco_demo_server (replicate 16 1)), AgStream 1 (UvConnected 0),
     AgReceived 1 (AgLoginResult 0), AgReceived 1 (AgClientLoginExtended reco_demo_login), AgStream 1 (UvRead 0 (-104) []),
     AgStream 1 UvClosed, GsReceived 0 (GsPacket 40001 [1, 2]), ReconnectTimer 1, AgStream 1 (UvConnected 0),
     AgReceived 1 (AgLoginResult 0), GsStream 0 (UvRead (-1) (-4095) []), GsStream 0 UvClosed, AgStream 1 (UvShutdown 0),
     AgStream 1 UvClosed, DeleteObjects]"

lemma reco_demo_ok: "run_ok reco_step reco_ok reco_demo_events reco_init"
  by code_simp


section \<open>After a reconnection\<close>

text \<open>Without failures of libuv, every message goes out.\<close>

lemma writeAuth_quiet:
  assumes "rs_auths st a = Some y" "ra_stream y = Some s" "connectedStream s" "rs_results st = []"
  shows "writeAuth a m st = Some (upd st a y [] (rs_out st @ [ToAuthServer a m]))"
proof -
  have quiet: "nextResult st = 0" "dropResult st = st" using assms(4) by (simp_all add: nextResult_def dropResult_def)
  have sent: "streamWrite 0 [] s = Some (0, s)" using assms(3) by (simp add: streamWrite_def connectedStream_def)
  have "y\<lparr>ra_stream := Some s\<rparr> = y" using assms(2) by simp
  then have "modAuth a (\<lambda>y. y\<lparr>ra_stream := Some s\<rparr>) st = Some (upd st a y [] (rs_out st))"
    using modAuth_upd [OF assms(1), of "\<lambda>y. y\<lparr>ra_stream := Some s\<rparr>"] assms(4) by (simp only:)
  then show ?thesis
    using assms(1-3) quiet sent by (simp add: writeAuth_def recoEmit_def upd_def)
qed

lemma network_quiet:
  assumes "rs_auths st a = Some y" "ra_stream y = Some s" "connectedStream s" "rs_results st = []" "\<not> closes m"
  shows "\<exists>b. sendPacketToNetwork a m st = Some (upd st a (session y s b (ra_pending y)) [] (rs_out st @ [ToAuthServer a m]))"
proof -
  let ?b = "ra_sentLogin y \<or> gaMessageId m = TS_GA_LOGIN_EXT_ID"
  have y: "session y s (ra_sentLogin y) (ra_pending y) = y" "y\<lparr>ra_sentLogin := True\<rparr> = session y s True (ra_pending y)"
    using assms(2) by (simp_all add: session_def)
  have "sendPacketToNetwork a m st = Some (upd st a (session y s ?b (ra_pending y)) [] (rs_out st @ [ToAuthServer a m]))"
    using assms(5) y
    by (simp add: sendPacketToNetwork_def writeAuth_quiet [OF assms(1-4)] closes_def modAuth_upd [where y = y])
  then show ?thesis by blast
qed

lemma allNetwork_quiet:
  assumes "rs_auths st a = Some y" "ra_stream y = Some s" "connectedStream s" "rs_results st = []" "\<not> hasLogout ms"
  shows "\<exists>b. sendAllToNetwork a ms st = Some (upd st a (session y s b (ra_pending y)) [] (rs_out st @ map (ToAuthServer a) ms))"
  using assms
proof (induction ms arbitrary: st y)
  case Nil
  have "upd st a (session y s (ra_sentLogin y) (ra_pending y)) [] (rs_out st) = st"
    using Nil by (simp add: session_id upd_def fun_upd_idem)
  then show ?case by (intro exI [of _ "ra_sentLogin y"]) simp
next
  case (Cons m ms)
  have n: "\<not> closes m" "\<not> hasLogout ms" using Cons.prems(5) by (simp_all add: hasLogout_def closes_def)
  obtain b where b: "sendPacketToNetwork a m st = Some (upd st a (session y s b (ra_pending y)) [] (rs_out st @ [ToAuthServer a m]))"
    using network_quiet [OF Cons.prems(1-4) n(1)] by blast
  show ?case
    using b Cons.IH [of "upd st a (session y s b (ra_pending y)) [] (rs_out st @ [ToAuthServer a m])" "session y s b (ra_pending y)"]
      Cons.prems(3) n(2) by simp
qed

lemma allToAuth_quiet:
  assumes "rs_auths st a = Some y" "ra_stream y = Some s" "connectedStream s" "rs_results st = []" "\<not> hasLogout ms" "ra_synchronized y"
  shows "\<exists>b. sendAllToAuth a ms st = Some (upd st a (session y s b (ra_pending y)) [] (rs_out st @ map (ToAuthServer a) ms))"
  using assms
proof (induction ms arbitrary: st y)
  case Nil
  have "upd st a (session y s (ra_sentLogin y) (ra_pending y)) [] (rs_out st) = st"
    using Nil by (simp add: session_id upd_def fun_upd_idem)
  then show ?case by (intro exI [of _ "ra_sentLogin y"]) simp
next
  case (Cons m ms)
  have n: "\<not> closes m" "\<not> hasLogout ms" using Cons.prems(5) by (simp_all add: hasLogout_def closes_def)
  obtain b where b: "sendPacketToNetwork a m st = Some (upd st a (session y s b (ra_pending y)) [] (rs_out st @ [ToAuthServer a m]))"
    using network_quiet [OF Cons.prems(1-4) n(1)] by blast
  then have "sendToAuth a m st = Some (upd st a (session y s b (ra_pending y)) [] (rs_out st @ [ToAuthServer a m]))"
    using Cons.prems(1-3,6) by (simp add: sendToAuth_def authConnected_def)
  then show ?case
    using Cons.IH [of "upd st a (session y s b (ra_pending y)) [] (rs_out st @ [ToAuthServer a m])" "session y s b (ra_pending y)"]
      Cons.prems(3,6) n(2) by simp
qed

lemma accountList_quiet:
  assumes "rs_auths st a = Some y" "ra_stream y = Some s" "connectedStream s" "rs_results st = []" "\<not> hasLogout (ra_pending y)"
  shows "\<exists>b. sendAccountList a st = Some (upd st a (session (y\<lparr>ra_synchronized := True\<rparr>) s b []) []
    (rs_out st @ map (ToAuthServer a) (accountPackets (ra_accounts y) @ ra_pending y)))"
proof -
  let ?y = "y\<lparr>ra_synchronized := True\<rparr>"
  let ?st = "upd st a ?y [] (rs_out st)"
  obtain b where b: "sendAllToAuth a (accountPackets (ra_accounts y)) ?st =
      Some (upd ?st a (session ?y s b (ra_pending ?y)) [] (rs_out ?st @ map (ToAuthServer a) (accountPackets (ra_accounts y))))"
    using allToAuth_quiet [of ?st a ?y s "accountPackets (ra_accounts y)"] assms(2,3) accountPackets_plain by auto
  let ?z = "session ?y s b (ra_pending y)"
  let ?st2 = "upd st a ?z [] (rs_out st @ map (ToAuthServer a) (accountPackets (ra_accounts y)))"
  obtain c where c: "sendAllToNetwork a (ra_pending y) ?st2 =
      Some (upd ?st2 a (session ?z s c (ra_pending ?z)) [] (rs_out ?st2 @ map (ToAuthServer a) (ra_pending y)))"
    using allNetwork_quiet [of ?st2 a ?z s "ra_pending y"] assms(3,5) by auto
  have "sendAccountList a st = Some (upd st a (session ?y s c []) []
      (rs_out st @ map (ToAuthServer a) (accountPackets (ra_accounts y) @ ra_pending y)))"
    using b c assms(1,4)
    by (simp add: sendAccountList_def sendPendingMessages_def modAuth_upd [where y = y] modAuth_upd [where y = "session ?y s c (ra_pending y)"]
      session_upds)
  then show ?thesis by blast
qed

text \<open>C6. When the authentication server accepts the login after a reconnection, the game server is told, and then the account
  list and every message that waited go out, in their order and nothing else; from then on messages are sent at once.\<close>

theorem relogin_sends_all:
  assumes "run_ok reco_step reco_ok es reco_init" "run reco_step es reco_init = Some st"
    and "rs_auths st a = Some y" "authConnected y" "ra_pendingLogin y" "ra_game y = Some g"
    and "rs_games st g = Some x" "connectedStream (rg_stream x)"
  shows "\<exists>st' y'. reco_step ([], AgReceived a (AgLoginResult TS_RESULT_SUCCESS)) st = Some st' \<and>
    rs_out st' = rs_out st @ ToGameServer g (GmLoginResult TS_RESULT_SUCCESS) #
      map (ToAuthServer a) (accountPackets (ra_accounts y) @ ra_pending y) \<and>
    rs_auths st' a = Some y' \<and> authConnected y' \<and> ra_synchronized y' \<and> ra_pending y' = [] \<and> ra_accounts y' = ra_accounts y"
proof -
  have "reco_inv st" using reconnect.run_safe [OF reco_inv_init assms(1)] assms(2) by auto
  then have plain: "\<not> hasLogout (ra_pending y)" using inv_session(1) [OF _ assms(3)] assms(6) by (auto simp: reco_auth_ok_def)
  obtain s where s: "ra_stream y = Some s" "connectedStream s" using assms(4) by (auto simp: authConnected_def split: option.splits)
  let ?y = "y\<lparr>ra_pendingLogin := False\<rparr>"
  let ?st1 = "upd (st\<lparr>rs_results := []\<rparr>) a ?y [] (rs_out st)"
  let ?st2 = "?st1\<lparr>rs_out := rs_out st @ [ToGameServer g (GmLoginResult TS_RESULT_SUCCESS)]\<rparr>"
  have m: "modAuth a (\<lambda>y. y\<lparr>ra_pendingLogin := False\<rparr>) (st\<lparr>rs_results := []\<rparr>) = Some ?st1"
    using assms(3) by (simp add: modAuth_def upd_def)
  have same: "x\<lparr>rg_stream := rg_stream x\<rparr> = x" "(rs_games st)(g \<mapsto> x) = rs_games st" using assms(7) by (auto simp: fun_upd_idem)
  have w: "writeGame g (GmLoginResult TS_RESULT_SUCCESS) ?st1 = Some ?st2"
    using assms(7,8) same
    by (simp add: writeGame_def modRecoGame_def nextResult_def dropResult_def recoEmit_def streamWrite_def connectedStream_def upd_def)
  obtain b where "sendAccountList a ?st2 = Some (upd ?st2 a (session (?y\<lparr>ra_synchronized := True\<rparr>) s b []) []
      (rs_out ?st2 @ map (ToAuthServer a) (accountPackets (ra_accounts ?y) @ ra_pending ?y)))"
    using accountList_quiet [of ?st2 a ?y s] s plain by auto
  then have "reco_step ([], AgReceived a (AgLoginResult TS_RESULT_SUCCESS)) st =
      Some (upd ?st2 a (session (?y\<lparr>ra_synchronized := True\<rparr>) s b []) []
      (rs_out ?st2 @ map (ToAuthServer a) (accountPackets (ra_accounts y) @ ra_pending y)))"
    using assms(3,5,6) w m by (simp add: onLoginResult_def)
  then show ?thesis using s(2) by (simp add: authConnected_def session_def)
qed

definition demo_reconnected :: reco_state where
  "demo_reconnected = the (run reco_step (take 10 reco_demo_events) reco_init)"

lemma relogin_sends_all_witness:
  "\<exists>st' y'. reco_step ([], AgReceived 1 (AgLoginResult TS_RESULT_SUCCESS)) demo_reconnected = Some st' \<and>
    rs_auths st' 1 = Some y' \<and> ra_synchronized y' \<and> ra_pending y' = []"
proof -
  have "case run reco_step (take 10 reco_demo_events) reco_init of None \<Rightarrow> False | Some st \<Rightarrow> True" by code_simp
  then have run: "run reco_step (take 10 reco_demo_events) reco_init = Some demo_reconnected"
    by (auto simp: demo_reconnected_def split: option.splits)
  have ok: "run_ok reco_step reco_ok (take 10 reco_demo_events) reco_init" by code_simp
  have "case rs_auths demo_reconnected 1 of None \<Rightarrow> False | Some y \<Rightarrow> authConnected y \<and> ra_pendingLogin y \<and> ra_game y = Some 0" by code_simp
  moreover have "case rs_games demo_reconnected 0 of None \<Rightarrow> False | Some x \<Rightarrow> connectedStream (rg_stream x)" by code_simp
  ultimately obtain y x where "rs_auths demo_reconnected 1 = Some y" "authConnected y" "ra_pendingLogin y" "ra_game y = Some 0"
      "rs_games demo_reconnected 0 = Some x" "connectedStream (rg_stream x)"
    by (auto split: option.splits)
  from relogin_sends_all [OF ok run this] show ?thesis by blast
qed

end
