(* ===== verification/Spec2Isabelle.thy ===== *)
theory Spec2Isabelle
  imports Encodings StreamCipher ZlibCipher RzHash PacketVersion AuthSpec PacketTypes LoginSystem PacketCatalogue UploadSpec WildcardMatch Console BanServer LogSpec DbPool DbJobs DbInsertSpec DbTextSpec Config ReconnectSpec
begin

text \<open>
  A verification library for rzu, the C++ servers and tools of the Rappelz game: the library \<open>librzu\<close> and the
  authentication, upload and log servers built on it. The definitions are translated from the sources under src/; this
  theory only collects the others.

  The program. A client opens a TCP connection to the authentication server (rzauth/src/AuthServer), names its version,
  exchanges a key and sends its account and password. The server asks the account database, answers with a code, lists
  the game servers, and hands the client a one-time key for the one it chooses. The game server, which keeps a
  connection to the same authentication server, lets the client in if it brings that key, and reports logins, logouts and
  kicks. The upload server (rzauth/src/UploadServer) takes guild icons from clients that a game server announced, and
  serves them over HTTP. The log server (rzlog) writes what the others report. All are single-threaded event loops over
  libuv; database queries run on worker threads.

  Theories and sources, from the bottom. A definition has the name of the function, method or type it translates, or one
  close to it; the manifest gives the lines.

  Shared vocabulary.
  \<^item> \<open>Prelude\<close>: machine integers, C strings, byte orders, \<open>std::unordered_map\<close> as \<open>umap\<close> (a list of entries with
    distinct keys), the interfaces \<open>keyed_store\<close>, \<open>codec\<close>, \<open>codec_pair\<close> and \<open>safe_machine\<close>.
  \<^item> \<open>TextFormat\<close>, \<open>TextUtils\<close>, \<open>WildcardMatch\<close>: \<open>printf\<close> of numbers and times, and librzu/src/lib/Core/Utils.cpp.
  \<^item> \<open>Incremental\<close>: readers of a stream in pieces (locale \<open>incremental\<close>), interpreted by the console and the log server.

  Cryptography and encodings (librzu/src/lib/Cipher, Packet).
  \<^item> \<open>Encodings\<close>: scrambled and randomised integers; \<open>StreamCipher\<close>: the modified RC4 and \<open>EncryptedSession\<close>;
    \<open>ZlibCipher\<close>, \<open>Passwords\<close>: the containers of passwords and icons, the account query; \<open>RzHash\<close>: the reversible hash.

  Packets (librzu/src/lib/Packet, librzu/src/packets).
  \<^item> \<open>PacketVersion\<close>: versions and their detection; \<open>MessageBuffer\<close>: the buffer that packets are written to and read from;
    \<open>PacketDecl\<close>: the description language of PacketDeclaration.h with the three functions its macros generate, as
    interpreters \<open>sizeT\<close>, \<open>serT\<close> and \<open>desT\<close> of a datatype of field lines.
  \<^item> \<open>PacketWire\<close> gives the wire format as a plain function and proves that the generated code implements it;
    \<open>PacketTypes\<close> adds typing; \<open>Packets\<close>, \<open>GameStructs\<close>, \<open>GameServerPackets\<close>, \<open>GameClientPackets\<close> are the declarations,
    one definition per structure and packet, a list element per line of the header; \<open>PacketIds\<close>, \<open>PacketInfos\<close>,
    \<open>PacketDispatch\<close> their ids; \<open>PacketCatalogue\<close> the list of all of them.
  \<^item> \<open>PacketFraming\<close>: how \<open>PacketSession\<close> cuts a stream into packets; \<open>VersionInterop\<close>: when two versions agree.

  Network and console (librzu/src/lib/Stream, NetSession, Console, Config).
  \<^item> \<open>NetStream\<close>: the life of a \<open>Stream\<close>, with libuv's callbacks as events; \<open>BanServer\<close>: addresses, \<open>BanManager\<close>,
    \<open>SessionServer\<close>; \<open>Console\<close>: telnet lines and commands; \<open>Config\<close>: values, command line and files.

  Database (librzu/src/lib/Database).
  \<^item> \<open>DbPool\<close>: threads that share connections, as interleaved steps; \<open>DbJobs\<close>: queries between sessions and workers;
    \<open>DbQuery\<close>: what a query asks of ODBC; \<open>DbQuerySpec\<close>, \<open>DbInsertSpec\<close>, \<open>DbTextSpec\<close>: its properties.

  Servers.
  \<^item> \<open>AuthState\<close> (ClientData.cpp, GameData.cpp), \<open>AuthGame\<close> (GameServerSession.cpp, BillingInterface.cpp), \<open>AuthClient\<close>
    (ClientSession.cpp); \<open>AuthInv\<close>, \<open>AuthOps\<close>, \<open>AuthLink\<close>, \<open>AuthMachine\<close>, \<open>AuthRun\<close>: the invariant and that every operation
    and event keeps it; \<open>AuthSpec\<close>: the promises.
  \<^item> \<open>IconHttp\<close>, \<open>UploadServer\<close>, \<open>UploadSpec\<close>: the upload server. \<open>LogClient\<close>, \<open>LogServer\<close>, \<open>LogSpec\<close>: the log client of
    rzauth and the log server of rzlog.
  \<^item> \<open>Reconnect\<close>, \<open>ReconnectInv\<close>, \<open>ReconnectSpec\<close>: the proxy of rzgamereconnect that keeps a game server known to the
    authentication server over a lost connection, its invariant, and what its account list does to that server's registries.
  \<^item> \<open>ClientLogin\<close>: the client's sessions (ClientAuthSession.cpp, ClientGameSession.cpp); \<open>LoginSystem\<close>: client,
    authentication server, database and game server composed.

  Conventions. Objects the code shares through pointers live in heaps, maps from addresses to records; freeing one
  removes it. Undefined behaviour (following a null or dangling pointer, an index out of range, a division by zero, an
  overflowing \<open>strcpy\<close>) and a failed assertion are \<open>None\<close>, so that a theorem that a run is \<open>Some\<close> says that none occurs. Errors
  that the code handles are values. Integers have their width, as words or with the wrap-around written out. Log lines are
  outputs only where the program's behaviour shows in them.

  The kinds of theorems. A server is a \<open>safe_machine\<close>: a step function on events, an invariant, and what is assumed of the
  environment; the invariant is kept by every step, and from it follow safety and the functional properties. Formats have
  round trips; the generated packet code refines the wire format; the matcher of wildcards, the framing of packets and
  the readers of lines are equal to reference definitions. Where the code can break, a theorem shows the run that breaks
  it (\<open>AuthSpec.lobby_logout_dangling\<close>, \<open>LogSpec\<close>), and the manifest lists it as a finding.

  Bounds and fuel. \<open>setGameData\<close> and \<open>setGameServer\<close> call each other: the recursion is cut at depth \<open>linkDepth\<close>, 8, and
  \<open>AuthSpec.game_link_settles\<close> shows that it never gets there. A read-until-end field (\<open>readEndLoop\<close>) runs as often as bytes are left and
  once more, as each element takes a byte. \<open>configFileLines\<close> cuts lines at 1023 bytes, as \<open>fgets\<close> does, and \<open>readFile\<close> nests 11 files,
  as the code does. The loops of \<open>DbQuery\<close> that depend on the driver are partial functions, \<open>None\<close> when they do not
  return; their theorems prove that they return when the driver's results are bounded. A login is driven by the schedule that
  delivers every packet, whose length is computed in the statement.

  Parameters. Code that is not in the repository is an argument of the definitions: OpenSSL (AES, DES, MD5, RSA, RC4), zlib,
  iconv, the ODBC driver, \<open>inet_pton\<close>, \<open>atof\<close>, the random generator, the clock and the files. What a theorem needs of
  one is a hypothesis, with a witness that gives a concrete function.

  Not modelled: the wrappers of libuv, libcurl and iconv; the crash handler and the writer thread of the log; the
  constructors of the executables' objects; the JSON printing of packets; and the separate programs for clients that
  reconnect, packet filters, chat, auctions and benchmarks, which use the modelled library.
\<close>

end
